(* ===== verification/Kyb_Prelude.thy ===== *)
theory Kyb_Prelude
  imports Main "HOL-Library.AList" "HOL-Library.Multiset"
begin

text \<open>
  Shared vocabulary of the development: the types the components of the repository have in
  common (millisecond clocks, identifiers, insertion-ordered JavaScript maps), the few string
  operations of the language the sources call (\<open>String.prototype.trim\<close>, truthiness of a
  string, decimal printing of a number), and the generic lemmas about lists and association
  lists that the component proofs use.

  Conventions. JavaScript numbers that the code uses as counters, limits and epoch milliseconds
  are \<open>int\<close> or \<open>nat\<close>; the code keeps them inside the safe-integer range, where the
  arithmetic of the language is exact. A \<open>Map\<close> is an association list with distinct keys:
  \<open>map_of\<close> is \<open>get\<close>, \<open>AList.update\<close> is \<open>set\<close> (an existing key keeps its
  position, a new key goes to the end, as the language specifies) and \<open>AList.delete\<close> is
  \<open>delete\<close>. A thrown error is the \<open>Inl\<close> of a sum.
\<close>

section \<open>Collections of facts\<close>

named_theorems js_map_simps \<open>rewrite rules for insertion-ordered maps\<close>
named_theorems step_defs \<open>definitions unfolded to compute one step of a component\<close>

section \<open>Types\<close>

type_synonym ms = int \<comment> \<open>epoch milliseconds, or a duration in milliseconds\<close>
type_synonym ident = string
type_synonym ('k, 'v) js_map = "('k \<times> 'v) list"

section \<open>Strings\<close>

definition is_js_space :: "char \<Rightarrow> bool" where
  "is_js_space c \<longleftrightarrow> of_char c \<in> {9, 10, 11, 12, 13, 32, 160 :: nat}"

definition js_trim :: "string \<Rightarrow> string" where
  "js_trim s = rev (dropWhile is_js_space (rev (dropWhile is_js_space s)))"

text \<open>The expression \<open>s || t\<close> of the language on strings: the empty string is falsy.\<close>

definition str_or :: "string \<Rightarrow> string \<Rightarrow> string" where
  "str_or s t = (if s = [] then t else s)"

definition truthy_opt :: "string option \<Rightarrow> bool" where
  "truthy_opt s \<longleftrightarrow> (case s of None \<Rightarrow> False | Some t \<Rightarrow> t \<noteq> [])"

text \<open>Decimal digits, as a template literal prints a number.\<close>

definition digit_char :: "nat \<Rightarrow> char" where
  "digit_char d = char_of (48 + d)"

fun show_nat :: "nat \<Rightarrow> string" where
  "show_nat n = (if n < 10 then [digit_char n] else show_nat (n div 10) @ [digit_char (n mod 10)])"

declare show_nat.simps [simp del]

definition show_int :: "int \<Rightarrow> string" where
  "show_int i = (if i < 0 then ''-'' @ show_nat (nat (- i)) else show_nat (nat i))"

text \<open>\<open>toLowerCase\<close> on the characters of one byte, and \<open>replace(/\s+/g, ' ')\<close>.\<close>

definition lower_char :: "char \<Rightarrow> char" where
  "lower_char c =
    (let n = of_char c :: nat
     in if (65 \<le> n \<and> n \<le> 90) \<or> (192 \<le> n \<and> n \<le> 222 \<and> n \<noteq> 215) then char_of (n + 32) else c)"

definition js_lower :: "string \<Rightarrow> string" where
  "js_lower s = map lower_char s"

fun collapse_spaces :: "string \<Rightarrow> string" where
  "collapse_spaces [] = []"
| "collapse_spaces [c] = (if is_js_space c then '' '' else [c])"
| "collapse_spaces (c # d # s) =
    (if is_js_space c then
       (if is_js_space d then collapse_spaces (d # s) else CHR '' '' # collapse_spaces (d # s))
     else c # collapse_spaces (d # s))"

section \<open>Sets\<close>

text \<open>\<open>Array.from(new Set(xs))\<close>: the first occurrences, in order.\<close>

definition js_dedup :: "'a list \<Rightarrow> 'a list" where
  "js_dedup xs = rev (remdups (rev xs))"

lemma length_js_dedup_le: "length (js_dedup xs) \<le> length xs"
  by (simp add: js_dedup_def length_remdups_leq [of "rev xs", simplified])

lemma length_js_dedup_distinct: "distinct xs \<Longrightarrow> length (js_dedup xs) = length xs"
  by (simp add: js_dedup_def distinct_remdups_id)

lemma set_js_dedup [simp]: "set (js_dedup xs) = set xs"
  by (simp add: js_dedup_def)

lemma distinct_js_dedup [simp]: "distinct (js_dedup xs)"
  by (simp add: js_dedup_def)

section \<open>Sorting\<close>

text \<open>\<open>Array.prototype.sort\<close> with a comparator, a stable sort: insertion by the order.\<close>

fun insort_by :: "('a \<Rightarrow> 'a \<Rightarrow> bool) \<Rightarrow> 'a \<Rightarrow> 'a list \<Rightarrow> 'a list" where
  "insort_by le x [] = [x]"
| "insort_by le x (y # ys) = (if le x y then x # y # ys else y # insort_by le x ys)"

definition js_sort_by :: "('a \<Rightarrow> 'a \<Rightarrow> bool) \<Rightarrow> 'a list \<Rightarrow> 'a list" where
  "js_sort_by le xs = foldr (insort_by le) xs []"

lemma set_insort_by [simp]: "set (insort_by le x ys) = insert x (set ys)"
  by (induction ys) auto

lemma set_js_sort_by [simp]: "set (js_sort_by le xs) = set xs"
  by (induction xs) (auto simp: js_sort_by_def)

lemma insort_by_sorted:
  assumes "\<And>a b. le a b \<or> le b a" and "\<And>a b c. le a b \<Longrightarrow> le b c \<Longrightarrow> le a c" and "sorted_wrt le ys"
  shows "sorted_wrt le (insort_by le x ys)"
  using assms(3)
proof (induction ys)
  case (Cons y ys)
  then show ?case using assms(1,2) by auto
qed simp

lemma js_sort_by_sorted:
  assumes "\<And>a b. le a b \<or> le b a" and "\<And>a b c. le a b \<Longrightarrow> le b c \<Longrightarrow> le a c"
  shows "sorted_wrt le (js_sort_by le xs)"
  by (induction xs) (simp_all add: js_sort_by_def insort_by_sorted [OF assms])

lemma mset_insort_by [simp]: "mset (insort_by le x ys) = add_mset x (mset ys)"
  by (induction ys) auto

lemma mset_js_sort_by [simp]: "mset (js_sort_by le xs) = mset xs"
  by (induction xs) (simp_all add: js_sort_by_def)

lemma sorted_wrt_unique:
  assumes "sorted_wrt le xs" and "sorted_wrt le ys" and "mset xs = mset ys"
    and "\<And>x y. x \<in> set xs \<Longrightarrow> y \<in> set xs \<Longrightarrow> le x y \<Longrightarrow> le y x \<Longrightarrow> x = y"
  shows "xs = ys"
  using assms
proof (induction xs arbitrary: ys)
  case (Cons x xs)
  then obtain y ys' where ys: "ys = y # ys'" by (cases ys) auto
  have set: "set (x # xs) = set (y # ys')" using Cons.prems(3) ys by (metis set_mset_mset)
  have "x = y"
  proof (rule ccontr)
    assume "x \<noteq> y"
    with set have "y \<in> set xs" "x \<in> set ys'" by auto
    with Cons.prems(1,2) ys have "le x y" "le y x" by auto
    with Cons.prems(4) \<open>y \<in> set xs\<close> \<open>x \<noteq> y\<close> show False by auto
  qed
  moreover have "xs = ys'" using Cons.prems ys \<open>x = y\<close> by (intro Cons.IH) auto
  ultimately show ?case using ys by simp
qed simp

text \<open>Sorting by a linear order forgets the order of the input.\<close>

lemma js_sort_by_unique:
  assumes "\<And>a b. le a b \<or> le b a" and "\<And>a b c. le a b \<Longrightarrow> le b c \<Longrightarrow> le a c" and "mset xs = mset ys"
    and "\<And>x y. x \<in> set xs \<Longrightarrow> y \<in> set xs \<Longrightarrow> le x y \<Longrightarrow> le y x \<Longrightarrow> x = y"
  shows "js_sort_by le xs = js_sort_by le ys"
  using js_sort_by_sorted [OF assms(1,2)] assms(3,4) by (intro sorted_wrt_unique [of le]) auto

section \<open>Association lists as insertion-ordered maps\<close>

lemma js_update_keys [js_map_simps]:
  "map fst (AList.update k v m) = (if k \<in> set (map fst m) then map fst m else map fst m @ [k])"
  by (induction m) auto

lemma distinct_keys_update [simp]:
  "distinct (map fst m) \<Longrightarrow> distinct (map fst (AList.update k v m))"
  by (rule distinct_update)

lemma distinct_keys_delete [simp]:
  "distinct (map fst m) \<Longrightarrow> distinct (map fst (AList.delete k m))"
  by (induction m) (auto simp: AList.delete_eq)

lemma keys_delete [js_map_simps]:
  "set (map fst (AList.delete k m)) = set (map fst m) - {k}"
  by (induction m) (auto simp: AList.delete_eq)

lemma js_length_delete_le: "length (AList.delete k m) \<le> length m"
  by (simp add: AList.delete_eq)

lemma js_length_delete_less:
  assumes "k \<in> set (map fst m)"
  shows "length (AList.delete k m) < length m"
proof -
  from assms obtain v where "(k, v) \<in> set m" by auto
  then show ?thesis
    by (auto simp: AList.delete_eq intro: length_filter_less)
qed

lemma map_of_delete_eq [js_map_simps]:
  "map_of (AList.delete k m) k' = (if k' = k then None else map_of m k')"
  by (simp add: delete_conv')

lemma map_of_update_eq [js_map_simps]:
  "map_of (AList.update k v m) k' = (if k' = k then Some v else map_of m k')"
  by (simp add: update_conv')

section \<open>Lists\<close>

lemma count_filter_update_le:
  "length (filter P (xs[i := x])) \<le> Suc (length (filter P xs))"
proof (induction xs arbitrary: i)
  case Nil
  then show ?case by simp
next
  case (Cons y ys)
  show ?case
  proof (cases i)
    case 0
    then show ?thesis by simp
  next
    case (Suc j)
    then show ?thesis using Cons.IH [of j] by simp
  qed
qed

lemma list_ex_iff_ex_set: "list_ex P xs \<longleftrightarrow> (\<exists>x\<in>set xs. P x)"
  by (induction xs) auto

lemma find_Some_in_set: "List.find P xs = Some x \<Longrightarrow> x \<in> set xs \<and> P x"
  by (induction xs) (auto split: if_splits)

lemma find_None_all: "List.find P xs = None \<longleftrightarrow> (\<forall>x\<in>set xs. \<not> P x)"
  by (auto simp: find_None_iff)

end
