(* ===== verification/Json.thy ===== *)
theory Json
  imports Complex_Main Kyb_Prelude
begin

text \<open>
  The JSON values that the components receive as parameters of steps and arguments of tools. An
  object keeps its keys in insertion order; \<open>JUndef\<close> is \<open>undefined\<close>, the value of an
  absent key. Numbers are rational (the values JSON text can denote; \<open>NaN\<close> and the
  infinities are not JSON).
\<close>

datatype json =
    JUndef
  | JNull
  | JBool bool
  | JNum rat
  | JStr string
  | JArr "json list"
  | JObj "(string \<times> json) list"

text \<open>The property read \<open>v?.k\<close>.\<close>

definition jget :: "json \<Rightarrow> string \<Rightarrow> json" where
  "jget v k = (case v of JObj kvs \<Rightarrow> (case map_of kvs k of None \<Rightarrow> JUndef | Some x \<Rightarrow> x) | _ \<Rightarrow> JUndef)"

definition jtruthy :: "json \<Rightarrow> bool" where
  "jtruthy v = (case v of JUndef \<Rightarrow> False | JNull \<Rightarrow> False | JBool b \<Rightarrow> b | JNum n \<Rightarrow> n \<noteq> 0
     | JStr s \<Rightarrow> s \<noteq> [] | JArr _ \<Rightarrow> True | JObj _ \<Rightarrow> True)"

definition jnullish :: "json \<Rightarrow> bool" where
  "jnullish v = (v = JUndef \<or> v = JNull)"

text \<open>\<open>v && typeof v === 'object'\<close>.\<close>

definition is_js_object :: "json \<Rightarrow> bool" where
  "is_js_object v = (case v of JArr _ \<Rightarrow> True | JObj _ \<Rightarrow> True | _ \<Rightarrow> False)"

definition jhas_key :: "json \<Rightarrow> string \<Rightarrow> bool" where
  "jhas_key v k = (case v of JObj kvs \<Rightarrow> k \<in> set (map fst kvs) | _ \<Rightarrow> False)"

definition is_safe_integer :: "rat \<Rightarrow> bool" where
  "is_safe_integer n \<longleftrightarrow> (snd (quotient_of n) = 1 \<and> \<bar>n\<bar> \<le> 9007199254740991)"

text \<open>\<open>String(v)\<close>.\<close>

fun js_string :: "(rat \<Rightarrow> string) \<Rightarrow> json \<Rightarrow> string" where
  "js_string n JUndef = ''undefined''"
| "js_string n JNull = ''null''"
| "js_string n (JBool b) = (if b then ''true'' else ''false'')"
| "js_string n (JNum r) = n r"
| "js_string n (JStr s) = s"
| "js_string n (JArr vs) =
    concat (let parts = map (\<lambda>v. if jnullish v then [] else js_string n v) vs
            in case parts of [] \<Rightarrow> [] | p # ps \<Rightarrow> p # map (Cons (CHR '','')) ps)"
| "js_string n (JObj kvs) = ''[object Object]''"

text \<open>The keys no parsed JSON may hold at any depth (\<open>foundation/safe-json.ts\<close>): a reader that
  parses through \<open>parseSafeJsonInput\<close> refuses a text whose value has one.\<close>

definition JSON_DANGEROUS_KEYS :: "string list" where
  "JSON_DANGEROUS_KEYS = [''__proto__'', ''constructor'', ''prototype'']"

fun isSafeJsonValue :: "json \<Rightarrow> bool" where
  "isSafeJsonValue (JArr vs) = list_all isSafeJsonValue vs"
| "isSafeJsonValue (JObj kvs) = list_all (\<lambda>(k, v). k \<notin> set JSON_DANGEROUS_KEYS \<and> isSafeJsonValue v) kvs"
| "isSafeJsonValue _ = True"

text \<open>Every value inside an object or an array is smaller than it.\<close>

lemma size_jget_less:
  assumes "jget v k \<noteq> JUndef"
  shows "size (jget v k) < size v"
proof -
  from assms obtain kvs x where v: "v = JObj kvs" "map_of kvs k = Some x" "jget v k = x"
    by (auto simp: jget_def split: json.splits option.splits)
  from v(2) have "(k, x) \<in> set kvs" by (rule map_of_SomeD)
  then have "size_prod (\<lambda>_. 0) size (k, x) \<le> size_list (size_prod (\<lambda>_. 0) size) kvs"
    by (rule size_list_estimation') simp
  then show ?thesis using v by simp
qed

lemma size_jget_le: "size (jget v k) \<le> size v"
proof (cases "jget v k = JUndef")
  case True
  then show ?thesis by (cases v) auto
next
  case False
  then show ?thesis using size_jget_less by (simp add: less_imp_le)
qed

end
