(* ===== verification/Resource_Claims.thy ===== *)
theory Resource_Claims
  imports Kyb_Prelude "HOL-Library.Sublist"
begin

text \<open>
  Declared resource claims of a tool call, \<open>src/libs/core/tool/tool-call-scheduler.ts\<close>
  (and \<open>trimEndChars\<close> of \<open>foundation/text.ts\<close>): the claim types, the normalisation
  of a claimed path, the overlap of two claimed ranges and the conflict of two claims. The same
  conflict test gates the tool-call batch (theory \<open>Tool_Batch\<close>) and the graph scheduler
  (theory \<open>Graph_Run\<close>).

  The abstract view of a claim is the set of normalised paths it touches; the lemmas show that
  the string comparison of the code decides whether two such sets meet.
\<close>

section \<open>Claims\<close>

datatype claim_operation = OpRead | OpWrite

record file_claim =
  fc_operation :: claim_operation
  fc_path :: string
  fc_recursive :: bool

datatype resource_claim = FileClaim file_claim | AllClaim

definition trimEndChars :: "string \<Rightarrow> string \<Rightarrow> string" where
  "trimEndChars s chars = rev (dropWhile (\<lambda>c. c \<in> set chars) (rev s))"

definition normalizeClaimPath :: "string \<Rightarrow> string" where
  "normalizeClaimPath raw =
    (let posix = map (\<lambda>c. if c = CHR 0x5C then CHR ''/'' else c) raw;
         trimmed = (if length posix > 1 then trimEndChars posix ''/'' else posix)
     in str_or trimmed ''/'')"

definition pathsOverlap :: "file_claim \<Rightarrow> file_claim \<Rightarrow> bool" where
  "pathsOverlap a b =
    (let pathA = normalizeClaimPath (fc_path a);
         pathB = normalizeClaimPath (fc_path b)
     in if pathA = pathB then True
        else if fc_recursive a \<and> prefix (pathA @ ''/'') pathB then True
        else if fc_recursive b \<and> prefix (pathB @ ''/'') pathA then True
        else False)"

fun resourceClaimsConflict :: "resource_claim \<Rightarrow> resource_claim \<Rightarrow> bool" where
  "resourceClaimsConflict AllClaim b = True"
| "resourceClaimsConflict a AllClaim = True"
| "resourceClaimsConflict (FileClaim a) (FileClaim b) =
    (if fc_operation a = OpRead \<and> fc_operation b = OpRead then False else pathsOverlap a b)"

definition callsConflict :: "resource_claim list \<Rightarrow> resource_claim list \<Rightarrow> bool" where
  "callsConflict a b = list_ex (\<lambda>claimA. list_ex (resourceClaimsConflict claimA) b) a"

definition hasAllClaim :: "resource_claim list \<Rightarrow> bool" where
  "hasAllClaim claims = list_ex (\<lambda>c. c = AllClaim) claims"

section \<open>The abstract view: the paths a claim touches\<close>

definition touched :: "file_claim \<Rightarrow> string set" where
  "touched c = {p. p = normalizeClaimPath (fc_path c) \<or>
                   (fc_recursive c \<and> prefix (normalizeClaimPath (fc_path c) @ ''/'') p)}"

fun claim_touches :: "resource_claim \<Rightarrow> string set" where
  "claim_touches AllClaim = UNIV"
| "claim_touches (FileClaim c) = touched c"

fun claim_writes :: "resource_claim \<Rightarrow> string set" where
  "claim_writes AllClaim = UNIV"
| "claim_writes (FileClaim c) = (if fc_operation c = OpWrite then touched c else {})"

definition call_touches :: "resource_claim list \<Rightarrow> string set" where
  "call_touches cs = (\<Union>c\<in>set cs. claim_touches c)"

definition call_writes :: "resource_claim list \<Rightarrow> string set" where
  "call_writes cs = (\<Union>c\<in>set cs. claim_writes c)"

lemma claim_writes_subset_touches: "claim_writes c \<subseteq> claim_touches c"
  by (cases c) auto

lemma call_writes_subset_touches: "call_writes cs \<subseteq> call_touches cs"
  using claim_writes_subset_touches by (auto simp: call_writes_def call_touches_def)

section \<open>Conflicts\<close>

lemma pathsOverlap_commute: "pathsOverlap a b = pathsOverlap b a"
  by (auto simp: pathsOverlap_def Let_def)

lemma resourceClaimsConflict_commute: "resourceClaimsConflict a b = resourceClaimsConflict b a"
  by (cases a; cases b) (auto simp: pathsOverlap_commute)

lemma callsConflict_iff:
  "callsConflict a b \<longleftrightarrow> (\<exists>x\<in>set a. \<exists>y\<in>set b. resourceClaimsConflict x y)"
  by (simp add: callsConflict_def list_ex_iff_ex_set)

lemma callsConflict_commute: "callsConflict a b = callsConflict b a"
  using resourceClaimsConflict_commute by (auto simp: callsConflict_iff)

text \<open>Two path prefixes that end in a separator and meet are nested.\<close>

lemma prefix_slash_cases:
  assumes "prefix (a @ [c]) p" and "prefix (b @ [c]) p"
  shows "a = b \<or> prefix (a @ [c]) b \<or> prefix (b @ [c]) a"
proof -
  from assms have "prefix (a @ [c]) (b @ [c]) \<or> prefix (b @ [c]) (a @ [c])"
    by (rule prefix_same_cases)
  then show ?thesis by (auto simp: prefix_snoc)
qed

lemma pathsOverlap_iff_touched: "pathsOverlap a b \<longleftrightarrow> touched a \<inter> touched b \<noteq> {}"
proof
  assume "pathsOverlap a b"
  then show "touched a \<inter> touched b \<noteq> {}"
    by (auto simp: pathsOverlap_def touched_def Let_def split: if_splits)
next
  assume "touched a \<inter> touched b \<noteq> {}"
  then obtain p where "p \<in> touched a" "p \<in> touched b" by auto
  then show "pathsOverlap a b"
    using prefix_slash_cases [of "normalizeClaimPath (fc_path a)" "CHR ''/''" p
        "normalizeClaimPath (fc_path b)"]
    by (auto simp: pathsOverlap_def touched_def Let_def)
qed

lemma touched_nonempty: "touched c \<noteq> {}"
  by (auto simp: touched_def)

lemma resourceClaimsConflict_iff:
  "resourceClaimsConflict a b \<longleftrightarrow>
     claim_writes a \<inter> claim_touches b \<noteq> {} \<or> claim_touches a \<inter> claim_writes b \<noteq> {} \<or>
     a = AllClaim \<or> b = AllClaim"
proof (cases a; cases b)
  fix x y
  assume "a = FileClaim x" "b = FileClaim y"
  then show ?thesis
    by (cases "fc_operation x"; cases "fc_operation y") (auto simp: pathsOverlap_iff_touched)
qed auto

lemma no_conflict_disjoint:
  assumes "\<not> callsConflict a b"
  shows "call_writes a \<inter> call_touches b = {}" and "call_touches a \<inter> call_writes b = {}"
  using assms unfolding callsConflict_iff resourceClaimsConflict_iff call_writes_def call_touches_def
  by (auto 0 3)

lemma hasAllClaim_conflict:
  assumes "hasAllClaim a" and "b \<noteq> []"
  shows "callsConflict a b"
proof -
  from assms(1) have "AllClaim \<in> set a" by (auto simp: hasAllClaim_def list_ex_iff_ex_set)
  moreover from assms(2) obtain y where "y \<in> set b" by (cases b) auto
  ultimately show ?thesis by (force simp: callsConflict_iff)
qed

section \<open>The interface of a conflict test\<close>

text \<open>What the batch and the graph scheduler ask of their conflict test is symmetry only. The
  gate admits a candidate when none of its claims conflicts with a claim of the active ones; a set
  of active owners is exclusive when no two of them conflict.\<close>

definition lists_conflict :: "('c \<Rightarrow> 'c \<Rightarrow> bool) \<Rightarrow> 'c list \<Rightarrow> 'c list \<Rightarrow> bool" where
  "lists_conflict cf a b \<longleftrightarrow> (\<exists>x\<in>set a. \<exists>y\<in>set b. cf x y)"

definition exclusive :: "('c \<Rightarrow> 'c \<Rightarrow> bool) \<Rightarrow> ('i \<Rightarrow> 'c list) \<Rightarrow> 'i set \<Rightarrow> bool" where
  "exclusive cf cl A \<longleftrightarrow> (\<forall>i\<in>A. \<forall>j\<in>A. i \<noteq> j \<longrightarrow> \<not> lists_conflict cf (cl i) (cl j))"

lemma exclusive_empty [simp]: "exclusive cf cl {}"
  by (simp add: exclusive_def)

lemma exclusive_subset: "exclusive cf cl A \<Longrightarrow> B \<subseteq> A \<Longrightarrow> exclusive cf cl B"
  by (auto simp: exclusive_def)

lemma exclusiveD: "exclusive cf cl A \<Longrightarrow> i \<in> A \<Longrightarrow> j \<in> A \<Longrightarrow> i \<noteq> j \<Longrightarrow> \<not> lists_conflict cf (cl i) (cl j)"
  by (simp add: exclusive_def)

lemma exclusive_cong: "(\<And>i. i \<in> A \<Longrightarrow> cl i = cl' i) \<Longrightarrow> exclusive cf cl A = exclusive cf cl' A"
  by (simp add: exclusive_def)

locale conflict_relation =
  fixes conflict :: "'c \<Rightarrow> 'c \<Rightarrow> bool"
  assumes conflict_commute: "conflict a b = conflict b a"
begin

lemma lists_conflict_commute: "lists_conflict conflict a b = lists_conflict conflict b a"
  using conflict_commute by (auto simp: lists_conflict_def)

lemma exclusive_insert:
  assumes "exclusive conflict cl A"
    and "\<And>j. j \<in> A \<Longrightarrow> j \<noteq> i \<Longrightarrow> \<not> lists_conflict conflict (cl i) (cl j)"
  shows "exclusive conflict cl (insert i A)"
  using assms lists_conflict_commute by (auto simp: exclusive_def)

lemma exclusive_pair:
  assumes "exclusive conflict cl A" and "i \<in> A" and "j \<in> A" and "i \<noteq> j"
    and "x \<in> set (cl i)" and "y \<in> set (cl j)"
  shows "\<not> conflict x y"
  using assms by (auto simp: exclusive_def lists_conflict_def)

end

lemma callsConflict_lists: "callsConflict a b = lists_conflict resourceClaimsConflict a b"
  by (simp add: callsConflict_iff lists_conflict_def)

interpretation typed_claims: conflict_relation resourceClaimsConflict
  by unfold_locales (rule resourceClaimsConflict_commute)

section \<open>Properties\<close>

text \<open>Two file claims overlap for the code exactly when some normalised path is touched by
  both: the string comparison of \<open>pathsOverlap\<close> loses no overlap between two claimed
  subtrees, and reports none that is not there. A conflict is then an overlap in which one side
  writes, or the involvement of an \<open>all\<close> claim.\<close>

lemma resource_conflict_is_shared_write:
  "resourceClaimsConflict a b \<longleftrightarrow>
     a = AllClaim \<or> b = AllClaim \<or>
     (\<exists>p. p \<in> claim_touches a \<and> p \<in> claim_touches b \<and> (p \<in> claim_writes a \<or> p \<in> claim_writes b))"
  unfolding resourceClaimsConflict_iff
  using claim_writes_subset_touches [of a] claim_writes_subset_touches [of b] by blast

text \<open>A recursive write claim on the root directory does not conflict with a write below
  it: the normalised root keeps its slash, so the code looks for paths that start with two
  slashes.\<close>

theorem recursive_root_claim_misses_children:
  "\<not> resourceClaimsConflict
     (FileClaim \<lparr>fc_operation = OpWrite, fc_path = ''/'', fc_recursive = True\<rparr>)
     (FileClaim \<lparr>fc_operation = OpWrite, fc_path = ''/etc/hosts'', fc_recursive = False\<rparr>) \<and>
   resourceClaimsConflict
     (FileClaim \<lparr>fc_operation = OpWrite, fc_path = ''/etc/'', fc_recursive = True\<rparr>)
     (FileClaim \<lparr>fc_operation = OpWrite, fc_path = ''/etc/hosts'', fc_recursive = False\<rparr>)"
  by (simp add: pathsOverlap_def normalizeClaimPath_def trimEndChars_def str_or_def)

end
