(* ===== verification/Tool_Batch.thy ===== *)
theory Tool_Batch
  imports Resource_Claims "HOL-Library.Multiset"
begin

text \<open>
  \<open>runToolCallBatch\<close> of \<open>src/libs/core/tool/tool-call-scheduler.ts\<close>: the calls of
  one batch, the gate of each call on the earlier calls it conflicts with, the degradation of the
  whole batch to serial execution when a call claims everything, and the results in request order.

  JavaScript runs one synchronous segment at a time, so a call is the list of its segments between
  two awaits; a segment reads and changes the call's own memory and the shared world, which maps
  normalised paths to contents. The scheduler of the runtime is the nondeterminism of the step
  relation: any enabled start, segment or settlement may come next.
\<close>

section \<open>Calls, results and the gates\<close>

record ('l, 'd, 'e, 'v) scheduled_call =
  sc_claims :: "resource_claim list"
  sc_memory :: 'l
  sc_segments :: "('l \<Rightarrow> (string \<Rightarrow> 'd) \<Rightarrow> 'l \<times> (string \<Rightarrow> 'd)) list"
  sc_outcome :: "'l \<Rightarrow> 'e + 'v"

datatype ('e, 'v) settled = Fulfilled 'v | Rejected 'e

definition settle :: "('l, 'd, 'e, 'v) scheduled_call \<Rightarrow> 'l \<Rightarrow> ('e, 'v) settled" where
  "settle call l = (case sc_outcome call l of Inr v \<Rightarrow> Fulfilled v | Inl e \<Rightarrow> Rejected e)"

definition batch_is_serial :: "('l, 'd, 'e, 'v) scheduled_call list \<Rightarrow> bool" where
  "batch_is_serial calls = list_ex (\<lambda>call. hasAllClaim (sc_claims call)) calls"

text \<open>The calls that call \<open>i\<close> waits for: all earlier ones in a serial batch, else the earlier
  ones it conflicts with.\<close>

definition batch_deps :: "('l, 'd, 'e, 'v) scheduled_call list \<Rightarrow> nat \<Rightarrow> nat list" where
  "batch_deps calls i =
    (if batch_is_serial calls then [0..<i]
     else filter (\<lambda>j. callsConflict (sc_claims (calls ! i)) (sc_claims (calls ! j))) [0..<i])"

datatype call_status = Gated | Running nat | Settled

record ('l, 'd, 'e, 'v) batch_state =
  bs_status :: "call_status list"
  bs_memory :: "'l list"
  bs_world :: "string \<Rightarrow> 'd"
  bs_results :: "('e, 'v) settled option list"

datatype batch_event = StartCall nat | RunSegment nat | SettleCall nat

definition batch_init ::
  "('l, 'd, 'e, 'v) scheduled_call list \<Rightarrow> (string \<Rightarrow> 'd) \<Rightarrow> ('l, 'd, 'e, 'v) batch_state" where
  "batch_init calls w =
    \<lparr>bs_status = replicate (length calls) Gated, bs_memory = map sc_memory calls,
     bs_world = w, bs_results = replicate (length calls) None\<rparr>"

definition run_segment ::
  "('l, 'd, 'e, 'v) scheduled_call list \<Rightarrow> nat \<times> nat \<Rightarrow>
   'l list \<times> (string \<Rightarrow> 'd) \<Rightarrow> 'l list \<times> (string \<Rightarrow> 'd)" where
  "run_segment calls x m =
    (case x of (i, k) \<Rightarrow> case m of (ls, w) \<Rightarrow>
       case (sc_segments (calls ! i) ! k) (ls ! i) w of (l', w') \<Rightarrow> (ls[i := l'], w'))"

fun batch_step ::
  "('l, 'd, 'e, 'v) scheduled_call list \<Rightarrow> ('l, 'd, 'e, 'v) batch_state \<Rightarrow> batch_event \<Rightarrow>
   ('l, 'd, 'e, 'v) batch_state option" where
  "batch_step calls s (StartCall i) =
    (if i < length calls \<and> bs_status s ! i = Gated \<and>
        list_all (\<lambda>j. bs_status s ! j = Settled) (batch_deps calls i)
     then Some (s\<lparr>bs_status := (bs_status s)[i := Running 0]\<rparr>) else None)"
| "batch_step calls s (RunSegment i) =
    (if i < length calls then
       case bs_status s ! i of
         Running k \<Rightarrow>
           if k < length (sc_segments (calls ! i)) then
             (case run_segment calls (i, k) (bs_memory s, bs_world s) of (ls, w) \<Rightarrow>
               Some (s\<lparr>bs_status := (bs_status s)[i := Running (Suc k)],
                       bs_memory := ls, bs_world := w\<rparr>))
           else None
       | _ \<Rightarrow> None
     else None)"
| "batch_step calls s (SettleCall i) =
    (if i < length calls \<and> bs_status s ! i = Running (length (sc_segments (calls ! i)))
     then Some (s\<lparr>bs_status := (bs_status s)[i := Settled],
                  bs_results := (bs_results s)[i := Some (settle (calls ! i) (bs_memory s ! i))]\<rparr>)
     else None)"

fun batch_exec ::
  "('l, 'd, 'e, 'v) scheduled_call list \<Rightarrow> ('l, 'd, 'e, 'v) batch_state \<Rightarrow> batch_event list \<Rightarrow>
   ('l, 'd, 'e, 'v) batch_state option" where
  "batch_exec calls s [] = Some s"
| "batch_exec calls s (e # es) =
    (case batch_step calls s e of None \<Rightarrow> None | Some s' \<Rightarrow> batch_exec calls s' es)"

inductive batch_reachable ::
  "('l, 'd, 'e, 'v) scheduled_call list \<Rightarrow> (string \<Rightarrow> 'd) \<Rightarrow> ('l, 'd, 'e, 'v) batch_state \<Rightarrow> bool"
  for calls w where
  batch_start: "batch_reachable calls w (batch_init calls w)"
| batch_next: "batch_reachable calls w s \<Longrightarrow> batch_step calls s e = Some s' \<Longrightarrow> batch_reachable calls w s'"

definition batch_finished :: "('l, 'd, 'e, 'v) batch_state \<Rightarrow> bool" where
  "batch_finished s = list_all (\<lambda>st. st = Settled) (bs_status s)"

text \<open>The reference: the calls one after the other, in request order.\<close>

definition run_call ::
  "('l, 'd, 'e, 'v) scheduled_call \<Rightarrow> (string \<Rightarrow> 'd) \<Rightarrow> ('e, 'v) settled \<times> (string \<Rightarrow> 'd)" where
  "run_call call w =
    (case fold (\<lambda>seg (l, w). seg l w) (sc_segments call) (sc_memory call, w) of
       (l, w') \<Rightarrow> (settle call l, w'))"

fun serial_batch ::
  "('l, 'd, 'e, 'v) scheduled_call list \<Rightarrow> (string \<Rightarrow> 'd) \<Rightarrow> ('e, 'v) settled list \<times> (string \<Rightarrow> 'd)" where
  "serial_batch [] w = ([], w)"
| "serial_batch (c # cs) w =
    (case run_call c w of (r, w') \<Rightarrow> case serial_batch cs w' of (rs, w'') \<Rightarrow> (r # rs, w''))"

text \<open>A call keeps to its claims when its segments change only paths it claims to write, and
  depend only on paths it claims to touch.\<close>

definition segment_respects ::
  "resource_claim list \<Rightarrow> ('l \<Rightarrow> (string \<Rightarrow> 'd) \<Rightarrow> 'l \<times> (string \<Rightarrow> 'd)) \<Rightarrow> bool" where
  "segment_respects cs seg \<longleftrightarrow>
    (\<forall>l w p. p \<notin> call_writes cs \<longrightarrow> snd (seg l w) p = w p) \<and>
    (\<forall>l w w'. (\<forall>p. p \<in> call_touches cs \<longrightarrow> w p = w' p) \<longrightarrow>
       fst (seg l w) = fst (seg l w') \<and>
       (\<forall>p. p \<in> call_writes cs \<longrightarrow> snd (seg l w) p = snd (seg l w') p))"

definition keeps_to_claims :: "('l, 'd, 'e, 'v) scheduled_call \<Rightarrow> bool" where
  "keeps_to_claims call \<longleftrightarrow> (\<forall>seg\<in>set (sc_segments call). segment_respects (sc_claims call) seg)"

section \<open>Gates\<close>

lemma batch_deps_less: "j \<in> set (batch_deps calls i) \<Longrightarrow> j < i"
  by (auto simp: batch_deps_def split: if_splits)

lemma not_dep_no_conflict:
  assumes "j < i" and "j \<notin> set (batch_deps calls i)"
  shows "\<not> callsConflict (sc_claims (calls ! i)) (sc_claims (calls ! j))"
  using assms by (auto simp: batch_deps_def split: if_splits)

section \<open>The invariant of the batch\<close>

text \<open>How many segments of a call have run, and the property that no call leaves its gate before
  the calls it waits for have settled.\<close>

fun segments_run :: "('l, 'd, 'e, 'v) scheduled_call \<Rightarrow> call_status \<Rightarrow> nat" where
  "segments_run call Gated = 0"
| "segments_run call (Running k) = k"
| "segments_run call Settled = length (sc_segments call)"

definition gates_ok ::
  "('l, 'd, 'e, 'v) scheduled_call list \<Rightarrow> ('l, 'd, 'e, 'v) batch_state \<Rightarrow> bool" where
  "gates_ok calls s \<longleftrightarrow>
    length (bs_status s) = length calls \<and>
    length (bs_results s) = length calls \<and>
    length (bs_memory s) = length calls \<and>
    (\<forall>i<length calls. \<forall>k. bs_status s ! i = Running k \<longrightarrow> k \<le> length (sc_segments (calls ! i))) \<and>
    (\<forall>i<length calls. bs_status s ! i \<noteq> Gated \<longrightarrow>
       (\<forall>j\<in>set (batch_deps calls i). bs_status s ! j = Settled))"

lemma gates_okD:
  assumes "gates_ok calls s"
  shows "length (bs_status s) = length calls" and "length (bs_results s) = length calls"
    and "length (bs_memory s) = length calls"
    and "i < length calls \<Longrightarrow> bs_status s ! i \<noteq> Gated \<Longrightarrow> j \<in> set (batch_deps calls i) \<Longrightarrow>
      bs_status s ! j = Settled"
  using assms by (auto simp: gates_ok_def)

text \<open>What each event requires and changes.\<close>

lemma batch_stepD:
  "batch_step calls s (StartCall i) = Some s' \<Longrightarrow> i < length calls \<and> bs_status s ! i = Gated \<and>
     s' = s\<lparr>bs_status := (bs_status s)[i := Running 0]\<rparr>"
  "batch_step calls s (SettleCall i) = Some s' \<Longrightarrow> i < length calls \<and>
     bs_status s ! i = Running (length (sc_segments (calls ! i))) \<and>
     s' = s\<lparr>bs_status := (bs_status s)[i := Settled],
            bs_results := (bs_results s)[i := Some (settle (calls ! i) (bs_memory s ! i))]\<rparr>"
  by (auto split: if_splits)

lemma gates_ok_init: "gates_ok calls (batch_init calls w)"
  by (simp add: gates_ok_def batch_init_def)

lemma run_segment_pair:
  "run_segment calls (i, k) (ls, w) =
     (case (sc_segments (calls ! i) ! k) (ls ! i) w of (l', w') \<Rightarrow> (ls[i := l'], w'))"
  by (simp add: run_segment_def)

lemma length_run_segment: "length (fst (run_segment calls x (ls, w))) = length ls"
  by (simp add: run_segment_def split: prod.splits)

lemma gates_ok_update:
  assumes ok: "gates_ok calls s" and i: "i < length calls"
    and keep: "bs_status s ! i \<noteq> Settled \<or> st = Settled"
    and bound: "\<And>k. st = Running k \<Longrightarrow> k \<le> length (sc_segments (calls ! i))"
    and deps: "st \<noteq> Gated \<Longrightarrow> \<forall>j\<in>set (batch_deps calls i). bs_status s ! j = Settled"
    and s': "bs_status s' = (bs_status s)[i := st]"
    and mem: "length (bs_memory s') = length calls"
    and res: "length (bs_results s') = length calls"
  shows "gates_ok calls s'"
proof -
  have len: "length (bs_status s) = length calls" using ok by (simp add: gates_ok_def)
  have settled: "(bs_status s)[i := st] ! j = Settled" if "bs_status s ! j = Settled" for j
    using that keep i len by (cases "i = j") auto
  have "k \<le> length (sc_segments (calls ! j))"
    if "j < length calls" "(bs_status s)[i := st] ! j = Running k" for j k
    using that ok bound len by (cases "i = j") (auto simp: gates_ok_def)
  moreover have "(bs_status s)[i := st] ! x = Settled"
    if "j < length calls" "(bs_status s)[i := st] ! j \<noteq> Gated" "x \<in> set (batch_deps calls j)" for j x
  proof (rule settled, cases "i = j")
    case True
    with that len deps show "bs_status s ! x = Settled" by auto
  next
    case False
    with that ok show "bs_status s ! x = Settled" by (auto simp: gates_ok_def)
  qed
  ultimately show ?thesis
    using mem res len by (simp add: gates_ok_def s')
qed

lemma gates_ok_step:
  assumes "gates_ok calls s" and "batch_step calls s e = Some s'"
  shows "gates_ok calls s'"
proof (cases e)
  case (StartCall i)
  with assms show ?thesis
    by (intro gates_ok_update [OF assms(1), of i "Running 0"])
      (auto simp: gates_ok_def list_all_iff split: if_splits)
next
  case (RunSegment i)
  with assms(2) obtain k where k: "i < length calls" "bs_status s ! i = Running k"
      "k < length (sc_segments (calls ! i))"
      "s' = s\<lparr>bs_status := (bs_status s)[i := Running (Suc k)],
              bs_memory := fst (run_segment calls (i, k) (bs_memory s, bs_world s)),
              bs_world := snd (run_segment calls (i, k) (bs_memory s, bs_world s))\<rparr>"
    by (auto split: if_splits call_status.splits prod.splits)
  then show ?thesis
    using assms(1)
    by (intro gates_ok_update [OF assms(1), of i "Running (Suc k)"])
      (auto simp: gates_ok_def length_run_segment)
next
  case (SettleCall i)
  with assms show ?thesis
    by (intro gates_ok_update [OF assms(1), of i Settled])
      (auto simp: gates_ok_def split: if_splits)
qed

lemma gates_ok_reachable: "batch_reachable calls w s \<Longrightarrow> gates_ok calls s"
  by (induction rule: batch_reachable.induct) (auto intro: gates_ok_init gates_ok_step)

definition is_running :: "call_status \<Rightarrow> bool" where
  "is_running st \<longleftrightarrow> (case st of Running k \<Rightarrow> True | _ \<Rightarrow> False)"

lemma is_running_iff: "is_running st \<longleftrightarrow> (\<exists>k. st = Running k)"
  by (simp add: is_running_def split: call_status.split)

lemma gates_ok_exclusive:
  assumes "gates_ok calls s"
  shows "exclusive resourceClaimsConflict (\<lambda>i. sc_claims (calls ! i))
           {i. i < length calls \<and> is_running (bs_status s ! i)}"
  unfolding exclusive_def callsConflict_lists [symmetric]
proof (intro ballI impI)
  fix i j assume ij: "i \<in> {i. i < length calls \<and> is_running (bs_status s ! i)}"
    "j \<in> {i. i < length calls \<and> is_running (bs_status s ! i)}" "i \<noteq> j"
  have less: "\<not> callsConflict (sc_claims (calls ! i)) (sc_claims (calls ! j))"
    if "j < i" "i < length calls" "is_running (bs_status s ! i)" "is_running (bs_status s ! j)" for i j
  proof (rule not_dep_no_conflict [OF that(1)])
    show "j \<notin> set (batch_deps calls i)"
    proof
      assume "j \<in> set (batch_deps calls i)"
      moreover have "bs_status s ! i \<noteq> Gated" using that(3) by (auto simp: is_running_def)
      ultimately have "bs_status s ! j = Settled"
        using assms that(2) by (auto simp: gates_ok_def)
      with that(4) show False by (simp add: is_running_def)
    qed
  qed
  from ij less [of j i] less [of i j] show "\<not> callsConflict (sc_claims (calls ! i)) (sc_claims (calls ! j))"
    by (cases "i < j") (auto simp: callsConflict_commute)
qed

section \<open>Progress and termination\<close>

lemma batch_exec_append:
  "batch_exec calls s (xs @ ys) =
     (case batch_exec calls s xs of None \<Rightarrow> None | Some s' \<Rightarrow> batch_exec calls s' ys)"
  by (induction xs arbitrary: s) (auto split: option.splits)

text \<open>Some event is enabled as long as some call has not settled.\<close>

lemma batch_progress:
  assumes ok: "gates_ok calls s" and unfinished: "\<not> batch_finished s"
  shows "\<exists>e. batch_step calls s e \<noteq> None"
proof (cases "\<exists>i<length calls. is_running (bs_status s ! i)")
  case True
  then obtain i k where i: "i < length calls" "bs_status s ! i = Running k"
    by (auto simp: is_running_iff)
  show ?thesis
  proof (cases "k < length (sc_segments (calls ! i))")
    case True
    with i have "batch_step calls s (RunSegment i) \<noteq> None" by (simp split: prod.splits)
    then show ?thesis by blast
  next
    case False
    moreover from ok i have "k \<le> length (sc_segments (calls ! i))" by (auto simp: gates_ok_def)
    ultimately have "batch_step calls s (SettleCall i) \<noteq> None" using i by simp
    then show ?thesis by blast
  qed
next
  case False
  define P where "P = (\<lambda>i. i < length calls \<and> bs_status s ! i \<noteq> Settled)"
  from unfinished ok have "\<exists>i. P i"
    by (auto simp: batch_finished_def P_def gates_ok_def list_all_length)
  then have least: "P (LEAST i. P i)" "\<And>j. j < (LEAST i. P i) \<Longrightarrow> \<not> P j"
    by (auto intro: LeastI dest: not_less_Least)
  define i where "i = (LEAST i. P i)"
  have i: "i < length calls" "bs_status s ! i = Gated"
    using least(1) False unfolding P_def [symmetric] i_def [symmetric]
    by (cases "bs_status s ! i"; auto simp: P_def is_running_iff)+
  have "bs_status s ! j = Settled" if "j \<in> set (batch_deps calls i)" for j
    using least(2) [of j] batch_deps_less [OF that] i(1) by (auto simp: P_def i_def)
  with i have "batch_step calls s (StartCall i) \<noteq> None" by (simp add: list_all_iff)
  then show ?thesis by blast
qed

fun call_work :: "('l, 'd, 'e, 'v) scheduled_call \<Rightarrow> call_status \<Rightarrow> nat" where
  "call_work call Gated = length (sc_segments call) + 2"
| "call_work call (Running k) = length (sc_segments call) - k + 1"
| "call_work call Settled = 0"

definition batch_work ::
  "('l, 'd, 'e, 'v) scheduled_call list \<Rightarrow> ('l, 'd, 'e, 'v) batch_state \<Rightarrow> nat" where
  "batch_work calls s = (\<Sum>i<length calls. call_work (calls ! i) (bs_status s ! i))"

lemma batch_work_update:
  assumes "i < length calls" and "length (bs_status s) = length calls"
    and "bs_status s' = (bs_status s)[i := st]"
    and "call_work (calls ! i) (bs_status s ! i) = Suc (call_work (calls ! i) st)"
  shows "batch_work calls s = Suc (batch_work calls s')"
proof -
  have "(\<Sum>j\<in>{..<length calls} - {i}. call_work (calls ! j) (bs_status s' ! j)) =
        (\<Sum>j\<in>{..<length calls} - {i}. call_work (calls ! j) (bs_status s ! j))"
    using assms by (intro sum.cong) auto
  then show ?thesis
    using assms by (simp add: batch_work_def sum.remove [of _ i])
qed

lemma batch_step_work:
  assumes ok: "gates_ok calls s" and step: "batch_step calls s e = Some s'"
  shows "batch_work calls s = Suc (batch_work calls s')"
proof (cases e)
  case (StartCall i)
  with assms show ?thesis
    by (intro batch_work_update [of i _ _ _ "Running 0"]) (auto simp: gates_ok_def split: if_splits)
next
  case (RunSegment i)
  with step obtain k where "i < length calls" "bs_status s ! i = Running k"
    "k < length (sc_segments (calls ! i))" "bs_status s' = (bs_status s)[i := Running (Suc k)]"
    by (auto split: if_splits call_status.splits prod.splits)
  with ok show ?thesis
    by (intro batch_work_update [of i _ _ _ "Running (Suc k)"]) (auto simp: gates_ok_def)
next
  case (SettleCall i)
  with assms show ?thesis
    by (intro batch_work_update [of i _ _ _ Settled]) (auto simp: gates_ok_def split: if_splits)
qed

lemma batch_can_finish:
  assumes "gates_ok calls s"
  shows "\<exists>es s'. batch_exec calls s es = Some s' \<and> batch_finished s' \<and> length es \<le> batch_work calls s"
  using assms
proof (induction "batch_work calls s" arbitrary: s rule: less_induct)
  case less
  show ?case
  proof (cases "batch_finished s")
    case True
    then show ?thesis by (intro exI [of _ "[]"]) simp
  next
    case False
    with batch_progress [OF less.prems] obtain e t where e: "batch_step calls s e = Some t" by auto
    note w = batch_step_work [OF less.prems e]
    from less.hyps [OF _ gates_ok_step [OF less.prems e]] w obtain es s' where
      "batch_exec calls t es = Some s'" "batch_finished s'" "length es \<le> batch_work calls t" by auto
    with e w show ?thesis by (intro exI [of _ "e # es"] exI [of _ s']) simp
  qed
qed

section \<open>Serialisability\<close>

text \<open>Moving an element leftwards over elements it commutes with does not change a fold; so a
  fold over a list equals the fold over its stable sort when every inverted pair commutes.\<close>

lemma fold_insort_key:
  assumes "\<forall>y\<in>set ys. key y < key x \<longrightarrow> (\<forall>m. f y (f x m) = f x (f y m))"
  shows "fold f (insort_key key x ys) m = fold f ys (f x m)"
  using assms by (induction ys arbitrary: m) auto

lemma fold_sort_key:
  assumes "sorted_wrt (\<lambda>x y. key y < key x \<longrightarrow> (\<forall>m. f y (f x m) = f x (f y m))) xs"
  shows "fold f (sort_key key xs) m = fold f xs m"
  using assms by (induction xs arbitrary: m) (auto simp: fold_insort_key)

lemma segment_frame:
  "segment_respects cs seg \<Longrightarrow> p \<notin> call_writes cs \<Longrightarrow> snd (seg l w) p = w p"
  by (simp add: segment_respects_def)

lemma segment_footprint:
  assumes "segment_respects cs seg" and "\<And>p. p \<in> call_touches cs \<Longrightarrow> w p = w' p"
  shows "fst (seg l w) = fst (seg l w')"
    and "p \<in> call_writes cs \<Longrightarrow> snd (seg l w) p = snd (seg l w') p"
  using assms by (auto simp: segment_respects_def)

lemma segments_commute:
  assumes a: "segment_respects ca sa" and b: "segment_respects cb sb"
    and free: "\<not> callsConflict ca cb"
  shows "fst (sa la (snd (sb lb w))) = fst (sa la w)"
    and "snd (sa la (snd (sb lb w))) = snd (sb lb (snd (sa la w)))"
proof -
  note disj = no_conflict_disjoint [OF free]
  have wa: "snd (sb lb w) p = w p" if "p \<in> call_touches ca" for p
    using segment_frame [OF b] disj that by blast
  have wb: "snd (sa la w) p = w p" if "p \<in> call_touches cb" for p
    using segment_frame [OF a] disj that by blast
  show "fst (sa la (snd (sb lb w))) = fst (sa la w)"
    by (rule segment_footprint(1) [OF a wa])
  show "snd (sa la (snd (sb lb w))) = snd (sb lb (snd (sa la w)))"
  proof
    fix p
    consider "p \<in> call_writes ca" | "p \<in> call_writes cb" | "p \<notin> call_writes ca" "p \<notin> call_writes cb"
      by blast
    then show "snd (sa la (snd (sb lb w))) p = snd (sb lb (snd (sa la w))) p"
    proof cases
      case 1
      with disj call_writes_subset_touches [of cb] have "p \<notin> call_writes cb" by blast
      with 1 show ?thesis
        using segment_footprint(2) [OF a wa] by (simp add: segment_frame [OF b])
    next
      case 2
      with disj call_writes_subset_touches [of ca] have "p \<notin> call_writes ca" by blast
      with 2 show ?thesis
        using segment_footprint(2) [OF b wb] by (simp add: segment_frame [OF a])
    next
      case 3
      then show ?thesis by (simp add: segment_frame [OF a] segment_frame [OF b])
    qed
  qed
qed

lemma run_segment_commute:
  assumes ne: "i \<noteq> j"
    and a: "segment_respects (sc_claims (calls ! i)) (sc_segments (calls ! i) ! k)"
    and b: "segment_respects (sc_claims (calls ! j)) (sc_segments (calls ! j) ! k')"
    and free: "\<not> callsConflict (sc_claims (calls ! i)) (sc_claims (calls ! j))"
  shows "run_segment calls (j, k') (run_segment calls (i, k) m) =
         run_segment calls (i, k) (run_segment calls (j, k') m)"
proof -
  obtain ls w where m: "m = (ls, w)" by fastforce
  have free': "\<not> callsConflict (sc_claims (calls ! j)) (sc_claims (calls ! i))"
    using free by (simp add: callsConflict_commute)
  show ?thesis
    using ne segments_commute [OF a b free, of "ls ! i" "ls ! j" w]
      segments_commute(1) [OF b a free', of "ls ! j" "ls ! i" w]
    by (simp add: m run_segment_def case_prod_beta list_update_swap)
qed

text \<open>The order in which the segments of a reachable state have run.\<close>

definition trace_ok ::
  "('l, 'd, 'e, 'v) scheduled_call list \<Rightarrow> (string \<Rightarrow> 'd) \<Rightarrow> ('l, 'd, 'e, 'v) batch_state \<Rightarrow>
   (nat \<times> nat) list \<Rightarrow> bool" where
  "trace_ok calls w s tr \<longleftrightarrow>
    fold (run_segment calls) tr (map sc_memory calls, w) = (bs_memory s, bs_world s) \<and>
    (\<forall>i<length calls. filter (\<lambda>x. fst x = i) tr =
       map (Pair i) [0..<segments_run (calls ! i) (bs_status s ! i)]) \<and>
    (\<forall>x\<in>set tr. fst x < length calls) \<and>
    sorted_wrt (\<lambda>x y. fst y < fst x \<longrightarrow> fst y \<notin> set (batch_deps calls (fst x))) tr \<and>
    (\<forall>i<length calls. bs_status s ! i = Settled \<longrightarrow>
       bs_results s ! i = Some (settle (calls ! i) (bs_memory s ! i)))"

lemma trace_ok_init: "trace_ok calls w (batch_init calls w) []"
  by (simp add: trace_ok_def batch_init_def)

lemma trace_elem_segment:
  assumes "trace_ok calls w s tr" and "(i, k) \<in> set tr"
  shows "i < length calls" and "k < segments_run (calls ! i) (bs_status s ! i)"
proof -
  show i: "i < length calls" using assms by (force simp: trace_ok_def)
  from assms(2) have "(i, k) \<in> set (filter (\<lambda>x. fst x = i) tr)" by simp
  also have "filter (\<lambda>x. fst x = i) tr = map (Pair i) [0..<segments_run (calls ! i) (bs_status s ! i)]"
    using assms(1) i by (simp add: trace_ok_def)
  finally show "k < segments_run (calls ! i) (bs_status s ! i)" by auto
qed

lemma trace_elem_started:
  "trace_ok calls w s tr \<Longrightarrow> (i, k) \<in> set tr \<Longrightarrow> bs_status s ! i \<noteq> Gated"
  using trace_elem_segment by fastforce

lemma trace_ok_silent:
  assumes tr: "trace_ok calls w s tr" and i: "i < length calls" "length (bs_status s) = length calls"
    and st: "segments_run (calls ! i) st = segments_run (calls ! i) (bs_status s ! i)"
    and s': "bs_status s' = (bs_status s)[i := st]" "bs_memory s' = bs_memory s" "bs_world s' = bs_world s"
    and res: "\<And>j. j < length calls \<Longrightarrow> (bs_status s)[i := st] ! j = Settled \<Longrightarrow>
        bs_results s' ! j = Some (settle (calls ! j) (bs_memory s ! j))"
  shows "trace_ok calls w s' tr"
proof -
  have "segments_run (calls ! j) ((bs_status s)[i := st] ! j) = segments_run (calls ! j) (bs_status s ! j)"
    for j using st i by (cases "i = j") auto
  with tr res show ?thesis by (simp add: trace_ok_def s')
qed

lemma trace_ok_segment:
  assumes tr: "trace_ok calls w s tr" and ok: "gates_ok calls s"
    and i: "i < length calls" "bs_status s ! i = Running k"
    and s': "bs_status s' = (bs_status s)[i := Running (Suc k)]"
      "(bs_memory s', bs_world s') = run_segment calls (i, k) (bs_memory s, bs_world s)"
      "bs_results s' = bs_results s"
  shows "trace_ok calls w s' (tr @ [(i, k)])"
proof -
  have len: "length (bs_status s) = length calls" using ok by (simp add: gates_ok_def)
  have "fst x < length calls \<and> (i < fst x \<longrightarrow> i \<notin> set (batch_deps calls (fst x)))" if "x \<in> set tr" for x
  proof -
    obtain a b where x: "x = (a, b)" by fastforce
    have "a < length calls" using trace_elem_segment [OF tr] that x by simp
    moreover have "bs_status s ! a \<noteq> Gated" using trace_elem_started [OF tr] that x by simp
    ultimately have "i \<notin> set (batch_deps calls a)" using gates_okD(4) [OF ok] i(2) by fastforce
    with \<open>a < length calls\<close> x show ?thesis by simp
  qed
  moreover have "filter (\<lambda>x. fst x = j) (tr @ [(i, k)]) =
      map (Pair j) [0..<segments_run (calls ! j) ((bs_status s)[i := Running (Suc k)] ! j)]"
    if "j < length calls" for j
    using tr i len that by (cases "i = j") (auto simp: trace_ok_def)
  moreover have "bs_results s ! j = Some (settle (calls ! j) (bs_memory s' ! j))"
    if "j < length calls" "(bs_status s)[i := Running (Suc k)] ! j = Settled" for j
  proof -
    have "i \<noteq> j" using that i len by (cases "i = j") auto
    then have "bs_memory s' ! j = bs_memory s ! j"
      using s'(2) by (auto simp: run_segment_def case_prod_beta)
    with that \<open>i \<noteq> j\<close> tr show ?thesis by (simp add: trace_ok_def)
  qed
  ultimately show ?thesis
    using tr i(1) by (auto simp: trace_ok_def s' sorted_wrt_append)
qed

lemma trace_ok_step:
  assumes tr: "trace_ok calls w s tr" and ok: "gates_ok calls s" and step: "batch_step calls s e = Some s'"
  shows "\<exists>tr'. trace_ok calls w s' tr'"
proof (cases e)
  case (StartCall i)
  note s' = batch_stepD(1) [OF step [unfolded StartCall]] and len = gates_okD(1-3) [OF ok]
  have "trace_ok calls w s' tr"
  proof (rule trace_ok_silent [OF tr, of i "Running 0"])
    fix j assume j: "j < length calls" "(bs_status s)[i := Running 0] ! j = Settled"
    with s' len have "bs_status s ! j = Settled" by (cases "i = j") auto
    with j(1) tr s' show "bs_results s' ! j = Some (settle (calls ! j) (bs_memory s ! j))"
      by (simp add: trace_ok_def)
  qed (use s' len in auto)
  then show ?thesis ..
next
  case (RunSegment i)
  with step obtain k where "i < length calls" "bs_status s ! i = Running k"
    "bs_status s' = (bs_status s)[i := Running (Suc k)]"
    "(bs_memory s', bs_world s') = run_segment calls (i, k) (bs_memory s, bs_world s)"
    "bs_results s' = bs_results s"
    by (auto split: if_splits call_status.splits prod.splits)
  from trace_ok_segment [OF tr ok this] show ?thesis ..
next
  case (SettleCall i)
  note s' = batch_stepD(2) [OF step [unfolded SettleCall]] and len = gates_okD(1-3) [OF ok]
  have "trace_ok calls w s' tr"
  proof (rule trace_ok_silent [OF tr, of i Settled])
    fix j assume j: "j < length calls" "(bs_status s)[i := Settled] ! j = Settled"
    show "bs_results s' ! j = Some (settle (calls ! j) (bs_memory s ! j))"
    proof (cases "i = j")
      case True
      with s' len show ?thesis by auto
    next
      case False
      with tr s' j show ?thesis by (simp add: trace_ok_def)
    qed
  qed (use s' len in auto)
  then show ?thesis ..
qed

lemma trace_ok_reachable: "batch_reachable calls w s \<Longrightarrow> \<exists>tr. trace_ok calls w s tr"
proof (induction rule: batch_reachable.induct)
  case batch_start
  then show ?case using trace_ok_init by blast
next
  case (batch_next s e s')
  then show ?case using trace_ok_step gates_ok_reachable by blast
qed

text \<open>The serial order of the segments, and what running them in it computes.\<close>

definition serial_trace ::
  "('l, 'd, 'e, 'v) scheduled_call list \<Rightarrow> nat \<Rightarrow> (nat \<times> nat) list" where
  "serial_trace calls m =
    concat (map (\<lambda>i. map (Pair i) [0..<length (sc_segments (calls ! i))]) [m..<length calls])"

lemma filter_serial_trace:
  "filter (\<lambda>x. fst x = i) (serial_trace calls m) =
     (if m \<le> i \<and> i < length calls then map (Pair i) [0..<length (sc_segments (calls ! i))] else [])"
proof -
  have "filter (\<lambda>x. fst x = i) (concat (map (\<lambda>i. map (Pair i) (g i)) [m..<n])) =
      (if m \<le> i \<and> i < n then map (Pair i) (g i) else [])" for g :: "nat \<Rightarrow> nat list" and n
  proof (induction n)
    case (Suc n)
    then show ?case by (cases "i = n") (auto simp: filter_map comp_def)
  qed simp
  then show ?thesis by (simp add: serial_trace_def)
qed

lemma sorted_serial_trace: "sorted (map fst (serial_trace calls m))"
proof -
  have "sorted (map fst (concat (map (\<lambda>i. map (Pair i) (g i)) [m..<n])))" for g :: "nat \<Rightarrow> nat list" and n
    by (induction n) (auto simp: sorted_append comp_def map_replicate_const)
  then show ?thesis by (simp add: serial_trace_def)
qed

lemma mset_eq_by_key:
  assumes "\<And>k. filter (\<lambda>x. f x = k) xs = filter (\<lambda>x. f x = k) ys"
  shows "mset xs = mset ys"
proof (rule multiset_eqI)
  fix x
  have "count (mset xs) x = count (mset (filter (\<lambda>y. f y = f x) xs)) x" by simp
  also have "filter (\<lambda>y. f y = f x) xs = filter (\<lambda>y. f y = f x) ys" by (rule assms)
  also have "count (mset (filter (\<lambda>y. f y = f x) ys)) x = count (mset ys) x" by simp
  finally show "count (mset xs) x = count (mset ys) x" .
qed

lemma sort_finished_trace:
  assumes tr: "trace_ok calls w s tr" and fin: "batch_finished s"
    and len: "length (bs_status s) = length calls"
  shows "sort_key fst tr = serial_trace calls 0"
proof -
  have filt: "filter (\<lambda>x. fst x = i) (serial_trace calls 0) = filter (\<lambda>x. fst x = i) tr" for i
  proof (cases "i < length calls")
    case True
    with fin len have "bs_status s ! i = Settled" by (auto simp: batch_finished_def list_all_length)
    with True tr show ?thesis by (simp add: filter_serial_trace trace_ok_def)
  next
    case False
    moreover from tr have "\<forall>x\<in>set tr. fst x < length calls" by (simp add: trace_ok_def)
    ultimately have "filter (\<lambda>x. fst x = i) tr = []" by (auto simp: filter_empty_conv)
    with False show ?thesis by (simp add: filter_serial_trace)
  qed
  show ?thesis
  proof (rule properties_for_sort_key)
    show "mset (serial_trace calls 0) = mset tr" by (rule mset_eq_by_key [OF filt])
    show "filter (\<lambda>x. fst k = fst x) (serial_trace calls 0) = filter (\<lambda>x. fst k = fst x) tr" for k
      using filt [of "fst k"] by (simp add: eq_commute)
    show "sorted (map fst (serial_trace calls 0))" by (rule sorted_serial_trace)
  qed
qed

lemma run_segments_of_call:
  assumes "i < length ls" and "k \<le> length (sc_segments (calls ! i))"
    and "fold (\<lambda>seg (l, w). seg l w) (take k (sc_segments (calls ! i))) (ls ! i, w) = (l', w')"
  shows "fold (run_segment calls) (map (Pair i) [0..<k]) (ls, w) = (ls[i := l'], w')"
  using assms(2,3)
proof (induction k arbitrary: l' w')
  case 0
  then show ?case by auto
next
  case (Suc k)
  obtain l1 w1 where one:
    "fold (\<lambda>seg (l, w). seg l w) (take k (sc_segments (calls ! i))) (ls ! i, w) = (l1, w1)" by fastforce
  with Suc have "fold (run_segment calls) (map (Pair i) [0..<k]) (ls, w) = (ls[i := l1], w1)" by simp
  moreover from Suc.prems one have "(sc_segments (calls ! i) ! k) l1 w1 = (l', w')"
    by (simp add: take_Suc_conv_app_nth)
  ultimately show ?case using assms(1) by (simp add: run_segment_pair)
qed

lemma serial_trace_Suc:
  "m < length calls \<Longrightarrow> serial_trace calls m =
     map (Pair m) [0..<length (sc_segments (calls ! m))] @ serial_trace calls (Suc m)"
  by (simp add: serial_trace_def upt_conv_Cons)

lemma run_serial_trace:
  assumes "m \<le> length calls" and "length ls = length calls"
    and "\<And>i. m \<le> i \<Longrightarrow> i < length calls \<Longrightarrow> ls ! i = sc_memory (calls ! i)"
  shows "\<exists>ls'. fold (run_segment calls) (serial_trace calls m) (ls, w) =
             (ls', snd (serial_batch (drop m calls) w)) \<and>
           length ls' = length ls \<and> (\<forall>i<m. ls' ! i = ls ! i) \<and>
           map (\<lambda>i. settle (calls ! i) (ls' ! i)) [m..<length calls] = fst (serial_batch (drop m calls) w)"
  using assms
proof (induction m arbitrary: ls w rule: inc_induct)
  case base
  then show ?case by (simp add: serial_trace_def)
next
  case (step m)
  obtain l1 w1 where one: "fold (\<lambda>seg (l, w). seg l w) (sc_segments (calls ! m)) (ls ! m, w) = (l1, w1)"
    by fastforce
  have call: "run_call (calls ! m) w = (settle (calls ! m) l1, w1)"
    using one step.prems step.hyps by (simp add: run_call_def)
  have run: "fold (run_segment calls) (map (Pair m) [0..<length (sc_segments (calls ! m))]) (ls, w) =
      (ls[m := l1], w1)"
    using one step.prems step.hyps by (intro run_segments_of_call) auto
  from step.IH [of "ls[m := l1]" w1] step.prems obtain ls' where ls':
    "fold (run_segment calls) (serial_trace calls (Suc m)) (ls[m := l1], w1) =
       (ls', snd (serial_batch (drop (Suc m) calls) w1))"
    "length ls' = length ls" "\<forall>i<Suc m. ls' ! i = ls[m := l1] ! i"
    "map (\<lambda>i. settle (calls ! i) (ls' ! i)) [Suc m..<length calls] =
       fst (serial_batch (drop (Suc m) calls) w1)"
    by auto
  have drop: "drop m calls = calls ! m # drop (Suc m) calls"
    using step.hyps by (simp add: Cons_nth_drop_Suc)
  show ?case
  proof (intro exI conjI)
    show "fold (run_segment calls) (serial_trace calls m) (ls, w) =
        (ls', snd (serial_batch (drop m calls) w))"
      using ls'(1) run step.hyps by (simp add: serial_trace_Suc drop call case_prod_beta)
    show "\<forall>i<m. ls' ! i = ls ! i" using ls'(3) by auto
    show "map (\<lambda>i. settle (calls ! i) (ls' ! i)) [m..<length calls] = fst (serial_batch (drop m calls) w)"
      using ls'(3,4) step.hyps step.prems by (simp add: upt_conv_Cons drop call case_prod_beta)
  qed (use ls'(2) in simp)
qed

lemma serial_trace_result:
  "\<exists>ls'. fold (run_segment calls) (serial_trace calls 0) (map sc_memory calls, w) =
           (ls', snd (serial_batch calls w)) \<and> length ls' = length calls \<and>
         map (\<lambda>i. settle (calls ! i) (ls' ! i)) [0..<length calls] = fst (serial_batch calls w)"
  using run_serial_trace [of 0 calls "map sc_memory calls" w] by simp

lemma trace_sorts:
  assumes tr: "trace_ok calls w s tr" and ok: "gates_ok calls s"
    and claims: "\<forall>c\<in>set calls. keeps_to_claims c"
  shows "fold (run_segment calls) (sort_key fst tr) m = fold (run_segment calls) tr m"
proof (rule fold_sort_key)
  have "sorted_wrt (\<lambda>x y. fst y < fst x \<longrightarrow> fst y \<notin> set (batch_deps calls (fst x))) tr"
    using tr by (simp add: trace_ok_def)
  then show "sorted_wrt (\<lambda>x y. fst y < fst x \<longrightarrow>
      (\<forall>m. run_segment calls y (run_segment calls x m) = run_segment calls x (run_segment calls y m))) tr"
  proof (rule sorted_wrt_mono_rel [rotated], intro impI allI)
    fix x y m assume xy: "x \<in> set tr" "y \<in> set tr" and lt: "fst y < fst x"
      and gate: "fst y < fst x \<longrightarrow> fst y \<notin> set (batch_deps calls (fst x))"
    have respects: "segment_respects (sc_claims (calls ! fst z)) (sc_segments (calls ! fst z) ! snd z)"
      if "z \<in> set tr" for z
    proof -
      from that have z: "(fst z, snd z) \<in> set tr" by simp
      note in_tr = trace_elem_segment [OF tr z]
      have "segments_run (calls ! fst z) (bs_status s ! fst z) \<le> length (sc_segments (calls ! fst z))"
        using ok in_tr(1) by (cases "bs_status s ! fst z") (auto simp: gates_ok_def)
      with in_tr claims show ?thesis by (auto simp: keeps_to_claims_def)
    qed
    have free: "\<not> callsConflict (sc_claims (calls ! fst x)) (sc_claims (calls ! fst y))"
      using not_dep_no_conflict lt gate by blast
    have "run_segment calls (fst y, snd y) (run_segment calls (fst x, snd x) m) =
          run_segment calls (fst x, snd x) (run_segment calls (fst y, snd y) m)"
      using lt free by (intro run_segment_commute respects xy) auto
    then show "run_segment calls y (run_segment calls x m) = run_segment calls x (run_segment calls y m)"
      by simp
  qed
qed

section \<open>Properties\<close>

text \<open>At no moment of a batch are two calls running of which one claims what the other
  conflicts with.\<close>

lemma batch_never_runs_conflicting_calls:
  assumes "batch_reachable calls w s"
    and "i < length calls" and "j < length calls" and "i \<noteq> j"
    and "is_running (bs_status s ! i)" and "is_running (bs_status s ! j)"
    and "x \<in> set (sc_claims (calls ! i))" and "y \<in> set (sc_claims (calls ! j))"
  shows "\<not> resourceClaimsConflict x y"
  using assms(2-)
  by (intro typed_claims.exclusive_pair [OF gates_ok_exclusive [OF gates_ok_reachable [OF assms(1)]], of i j]) auto

text \<open>C1. Serialisability: whatever the interleaving, when every call keeps to the claims it
  declared, a finished batch has exactly the results, in request order, and the world that running
  the calls one after the other in request order gives.\<close>

theorem batch_equals_serial_execution:
  assumes "batch_reachable calls w s" and "batch_finished s"
    and "\<forall>c\<in>set calls. keeps_to_claims c"
  shows "bs_results s = map Some (fst (serial_batch calls w)) \<and> bs_world s = snd (serial_batch calls w)"
proof -
  from trace_ok_reachable [OF assms(1)] obtain tr where tr: "trace_ok calls w s tr" by blast
  have ok: "gates_ok calls s" by (rule gates_ok_reachable [OF assms(1)])
  then have len: "length (bs_status s) = length calls" "length (bs_results s) = length calls"
    by (auto simp: gates_ok_def)
  from serial_trace_result [of calls w] obtain ls where ls:
    "fold (run_segment calls) (serial_trace calls 0) (map sc_memory calls, w) =
       (ls, snd (serial_batch calls w))"
    "map (\<lambda>i. settle (calls ! i) (ls ! i)) [0..<length calls] = fst (serial_batch calls w)" by blast
  have fin: "bs_memory s = ls \<and> bs_world s = snd (serial_batch calls w)"
    using tr ls(1) trace_sorts [OF tr ok assms(3)] sort_finished_trace [OF tr assms(2) len(1)]
    by (simp add: trace_ok_def)
  have "bs_results s ! i = Some (settle (calls ! i) (ls ! i))" if "i < length calls" for i
    using tr fin assms(2) len that by (auto simp: trace_ok_def batch_finished_def list_all_length)
  then have "bs_results s = map (\<lambda>i. Some (settle (calls ! i) (ls ! i))) [0..<length calls]"
    using len by (intro nth_equalityI) auto
  with fin ls(2) [symmetric] show ?thesis by (simp add: comp_def)
qed

text \<open>No deadlock: from every reachable state the batch can run to its end; an unfinished
  batch always has an enabled event, and every event uses up some of its work (two units for a call
  and one for each of its segments), so no schedule is infinite.\<close>

lemma batch_terminates:
  assumes "batch_reachable calls w s"
  shows "(\<exists>es s'. batch_exec calls s es = Some s' \<and> batch_finished s') \<and>
         (batch_finished s \<or> (\<exists>e. batch_step calls s e \<noteq> None)) \<and>
         (\<forall>e s'. batch_step calls s e = Some s' \<longrightarrow> batch_work calls s' < batch_work calls s)"
  using batch_can_finish batch_progress batch_step_work gates_ok_reachable [OF assms] by (metis lessI)

section \<open>A concrete batch\<close>

text \<open>Two calls that write different files, and a third that reads the first file.\<close>

definition sample_put :: "string \<Rightarrow> nat \<Rightarrow> (nat, nat, string, nat) scheduled_call" where
  "sample_put p v =
    \<lparr>sc_claims = [FileClaim \<lparr>fc_operation = OpWrite, fc_path = p, fc_recursive = False\<rparr>],
     sc_memory = v, sc_segments = [\<lambda>l w. (l + 1, w(p := l))], sc_outcome = Inr\<rparr>"

definition sample_get :: "string \<Rightarrow> (nat, nat, string, nat) scheduled_call" where
  "sample_get p =
    \<lparr>sc_claims = [FileClaim \<lparr>fc_operation = OpRead, fc_path = p, fc_recursive = False\<rparr>],
     sc_memory = 0, sc_segments = [\<lambda>l w. (w p, w)], sc_outcome = Inr\<rparr>"

definition sample_batch :: "(nat, nat, string, nat) scheduled_call list" where
  "sample_batch = [sample_put ''/a'' 5, sample_put ''/b'' 7, sample_get ''/a'']"

definition sample_events :: "batch_event list" where
  "sample_events =
    [StartCall 0, StartCall 1, RunSegment 1, RunSegment 0, SettleCall 0, StartCall 2,
     SettleCall 1, RunSegment 2, SettleCall 2]"

lemma batch_exec_reachable:
  "batch_reachable calls w s \<Longrightarrow> batch_exec calls s es = Some s' \<Longrightarrow> batch_reachable calls w s'"
  by (induction es arbitrary: s) (auto split: option.splits intro: batch_reachable.batch_next)

lemma normalize_sample [simp]:
  "normalizeClaimPath ''/a'' = ''/a''" "normalizeClaimPath ''/b'' = ''/b''"
  by (simp_all add: normalizeClaimPath_def trimEndChars_def str_or_def)

lemma sample_put_keeps: "p = ''/a'' \<or> p = ''/b'' \<Longrightarrow> keeps_to_claims (sample_put p v)"
  by (auto simp: keeps_to_claims_def sample_put_def segment_respects_def call_writes_def
      call_touches_def touched_def)

lemma sample_get_keeps: "keeps_to_claims (sample_get ''/a'')"
  by (auto simp: keeps_to_claims_def sample_get_def segment_respects_def call_writes_def
      call_touches_def touched_def)

lemma sample_two_running:
  "case batch_exec sample_batch (batch_init sample_batch (\<lambda>_. 0)) [StartCall 0, StartCall 1] of
     Some s \<Rightarrow> is_running (bs_status s ! 0) \<and> is_running (bs_status s ! 1) | None \<Rightarrow> False"
  by code_simp

lemma sample_run:
  "case batch_exec sample_batch (batch_init sample_batch (\<lambda>_. 0)) sample_events of
     Some s \<Rightarrow> batch_finished s | None \<Rightarrow> False"
  by code_simp

theorem batch_never_runs_conflicting_calls_witness:
  "\<exists>s. batch_reachable sample_batch (\<lambda>_. 0) s \<and> is_running (bs_status s ! 0) \<and>
       is_running (bs_status s ! 1) \<and>
       \<not> resourceClaimsConflict
           (FileClaim \<lparr>fc_operation = OpWrite, fc_path = ''/a'', fc_recursive = False\<rparr>)
           (FileClaim \<lparr>fc_operation = OpWrite, fc_path = ''/b'', fc_recursive = False\<rparr>)"
proof -
  from sample_two_running obtain s where s:
    "batch_exec sample_batch (batch_init sample_batch (\<lambda>_. 0)) [StartCall 0, StartCall 1] = Some s"
    "is_running (bs_status s ! 0)" "is_running (bs_status s ! 1)" by (auto split: option.splits)
  have "batch_reachable sample_batch (\<lambda>_. 0) s"
    by (rule batch_exec_reachable [OF batch_reachable.batch_start s(1)])
  with s batch_never_runs_conflicting_calls [OF this, of 0 1] show ?thesis
    by (auto simp: sample_batch_def sample_put_def)
qed

theorem batch_equals_serial_execution_witness:
  "\<exists>s. batch_exec sample_batch (batch_init sample_batch (\<lambda>_. 0)) sample_events = Some s \<and>
       bs_results s = [Some (Fulfilled 6), Some (Fulfilled 8), Some (Fulfilled 5)] \<and>
       bs_world s ''/b'' = 7"
proof -
  from sample_run obtain s where s:
    "batch_exec sample_batch (batch_init sample_batch (\<lambda>_. 0)) sample_events = Some s"
    "batch_finished s" by (auto split: option.splits)
  have reach: "batch_reachable sample_batch (\<lambda>_. 0) s"
    by (rule batch_exec_reachable [OF batch_reachable.batch_start s(1)])
  have "\<forall>c\<in>set sample_batch. keeps_to_claims c"
    by (simp add: sample_batch_def sample_put_keeps sample_get_keeps)
  from batch_equals_serial_execution [OF reach s(2) this] s(1) show ?thesis
    by (simp add: sample_batch_def sample_put_def sample_get_def run_call_def settle_def)
qed

theorem batch_terminates_witness:
  "\<exists>es s'. batch_exec sample_batch (batch_init sample_batch (\<lambda>_. 0)) es = Some s' \<and> batch_finished s'"
  using batch_terminates [OF batch_reachable.batch_start] by blast

end
