(* ===== verification/Exec_Graph.thy ===== *)
theory Exec_Graph
  imports Json Resource_Claims
begin

text \<open>
  \<open>deriveExecutionGraph\<close> of \<open>src/libs/core/graph-scheduler.ts\<close>: from the steps of a
  pipeline to the control and data edges, the nodes with their dependencies, and the validation
  errors, the cycle check (a Kahn queue) included. The definitions follow the function from top
  to bottom; error messages are reduced to their code and node.
\<close>

section \<open>Data\<close>

datatype edge_kind = Control | Data | When
datatype merge_policy = Collect | Namespace | LastWins

record graph_edge =
  ge_from :: ident
  ge_to :: ident
  ge_kind :: edge_kind
  ge_channel :: "string option"

datatype consumes = ConsNone | ConsOne string | ConsMany "string list"

record graph_step =
  gs_id :: "string option"
  gs_depends_on :: "string list option"
  gs_produces :: json
  gs_consumes :: consumes
  gs_when :: json
  gs_merge :: "merge_policy option"
  gs_params :: json
  gs_timeout_ms :: json

record graph_node =
  gn_id :: ident
  gn_index :: nat
  gn_value :: graph_step
  gn_dependencies :: "ident list"
  gn_incoming :: "graph_edge list"
  gn_outgoing :: "graph_edge list"
  gn_when :: json
  gn_merge :: merge_policy
  gn_timeoutMs :: "rat option"

datatype graph_error =
    DuplicateId ident
  | MissingDependency ident ident
  | MissingChannel ident string
  | Cycle
  | IdRequiredForDependency ident

record exec_graph =
  eg_nodes :: "graph_node list"
  eg_edges :: "graph_edge list"

section \<open>Channels\<close>

fun channels :: "consumes \<Rightarrow> string list" where
  "channels ConsNone = []"
| "channels (ConsMany cs) = cs"
| "channels (ConsOne c) = [c]"

definition producedChannel :: "json \<Rightarrow> json \<Rightarrow> string option" where
  "producedChannel produces params =
    (if jtruthy produces then
       (case produces of JStr s \<Rightarrow> Some s
        | _ \<Rightarrow> (case jget produces ''channel'' of JStr s \<Rightarrow> Some s | _ \<Rightarrow> None))
     else case jget params ''export_as'' of
       JStr s \<Rightarrow> if s \<noteq> [] then Some s else None
     | _ \<Rightarrow> None)"

definition declaredTimeoutMs :: "graph_step \<Rightarrow> rat option" where
  "declaredTimeoutMs step =
    (let value = (if jnullish (gs_timeout_ms step) then jget (gs_params step) ''timeout_ms''
                  else gs_timeout_ms step)
     in case value of
          JNum n \<Rightarrow> if is_safe_integer n \<and> n > 0 then Some n else None
        | _ \<Rightarrow> None)"

definition same_edge :: "graph_edge \<Rightarrow> graph_edge \<Rightarrow> bool" where
  "same_edge a b \<longleftrightarrow> ge_from a = ge_from b \<and> ge_to a = ge_to b \<and> ge_kind a = ge_kind b \<and>
     ge_channel a = ge_channel b"

definition addEdge :: "graph_edge \<Rightarrow> graph_edge list \<Rightarrow> graph_edge list" where
  "addEdge edge edges =
    (if ge_from edge = ge_to edge then edges @ [edge]
     else if \<not> list_ex (\<lambda>existing. same_edge existing edge) edges then edges @ [edge]
     else edges)"

definition nested_keys :: "string list" where
  "nested_keys = [''pipeline'', ''do'', ''then'', ''else'', ''calls'', ''steps'']"

definition truthy_channel :: "string option \<Rightarrow> string list" where
  "truthy_channel c = (case c of Some s \<Rightarrow> if s \<noteq> [] then [s] else [] | None \<Rightarrow> [])"

function collectNestedProduced :: "json \<Rightarrow> string list" where
  "collectNestedProduced (JArr xs) =
    concat (map (\<lambda>raw.
      if is_js_object raw then
        truthy_channel (producedChannel (jget raw ''produces'') (jget raw ''params'')) @
        concat (map (\<lambda>key. collectNestedProduced (jget (jget raw ''params'') key)) nested_keys)
      else []) xs)"
| "collectNestedProduced JUndef = []"
| "collectNestedProduced JNull = []"
| "collectNestedProduced (JBool b) = []"
| "collectNestedProduced (JNum n) = []"
| "collectNestedProduced (JStr s) = []"
| "collectNestedProduced (JObj kvs) = []"
  by pat_completeness auto
termination
proof (relation "measure size")
  fix xs :: "json list" and raw key
  assume "raw \<in> set xs"
  then have "size raw < size (JArr xs)"
    by (induction xs) auto
  moreover have "size (jget (jget raw ''params'') key) \<le> size raw"
    using size_jget_le order_trans by blast
  ultimately show "(jget (jget raw ''params'') key, JArr xs) \<in> measure size" by simp
qed simp

section \<open>Identifiers, producers and edges\<close>

definition step_ids :: "graph_step list \<Rightarrow> ident list" where
  "step_ids steps =
    map (\<lambda>(index, step). case gs_id step of
           Some i \<Rightarrow> if i \<noteq> [] then i else ''__step_'' @ show_nat index
         | None \<Rightarrow> ''__step_'' @ show_nat index)
      (enumerate 0 steps)"

fun duplicate_errors :: "ident list \<Rightarrow> ident list \<Rightarrow> graph_error list" where
  "duplicate_errors seen [] = []"
| "duplicate_errors seen (i # is) =
    (if i \<in> set seen then [DuplicateId i] else []) @ duplicate_errors (i # seen) is"

definition has_explicit_graph :: "graph_step list \<Rightarrow> bool" where
  "has_explicit_graph steps =
    list_ex (\<lambda>step. gs_depends_on step \<noteq> None \<or> gs_consumes step \<noteq> ConsNone \<or> gs_when step \<noteq> JUndef) steps"

definition nested_produced :: "graph_step list \<Rightarrow> string list" where
  "nested_produced steps =
    concat (map (\<lambda>step. concat (map (\<lambda>key. collectNestedProduced (jget (gs_params step) key)) nested_keys)) steps)"

definition get_producers :: "(string, ident list) js_map \<Rightarrow> string \<Rightarrow> ident list" where
  "get_producers producers channel = (case map_of producers channel of Some is \<Rightarrow> is | None \<Rightarrow> [])"

definition producers_of :: "(graph_step \<times> ident) list \<Rightarrow> (string, ident list) js_map" where
  "producers_of sis =
    fold (\<lambda>(step, i) producers.
        case truthy_channel (producedChannel (gs_produces step) (gs_params step)) of
          [] \<Rightarrow> producers
        | c # _ \<Rightarrow> AList.update c (get_producers producers c @ [i]) producers)
      sis []"

definition control_edge :: "ident \<Rightarrow> ident \<Rightarrow> graph_edge" where
  "control_edge f t = \<lparr>ge_from = f, ge_to = t, ge_kind = Control, ge_channel = None\<rparr>"

definition data_edge :: "ident \<Rightarrow> ident \<Rightarrow> string \<Rightarrow> graph_edge" where
  "data_edge f t c = \<lparr>ge_from = f, ge_to = t, ge_kind = Data, ge_channel = Some c\<rparr>"

definition when_edge :: "ident \<Rightarrow> ident \<Rightarrow> string option \<Rightarrow> graph_edge" where
  "when_edge f t c = \<lparr>ge_from = f, ge_to = t, ge_kind = When, ge_channel = c\<rparr>"

text \<open>The three groups of edges and errors that one step contributes, in the order of the code.\<close>

definition depends_part ::
  "ident list \<Rightarrow> graph_step \<Rightarrow> ident \<Rightarrow> graph_edge list \<times> graph_error list \<Rightarrow>
   graph_edge list \<times> graph_error list" where
  "depends_part ids step i st =
    (case gs_depends_on step of
       None \<Rightarrow> st
     | Some deps \<Rightarrow>
         fold (\<lambda>d (edges, errors).
             if d \<notin> set ids then (edges, errors @ [MissingDependency i d])
             else (addEdge (control_edge d i) edges, errors))
           deps
           (fst st, snd st @ (if truthy_opt (gs_id step) then [] else [IdRequiredForDependency i])))"

definition consumes_part ::
  "(string, ident list) js_map \<Rightarrow> string list \<Rightarrow> string list \<Rightarrow> graph_step \<Rightarrow> ident \<Rightarrow>
   graph_edge list \<times> graph_error list \<Rightarrow> graph_edge list \<times> graph_error list" where
  "consumes_part producers nested initial step i st =
    fold (\<lambda>channel (edges, errors).
        let channelProducers = get_producers producers channel
        in (fold (\<lambda>producer. addEdge (data_edge producer i channel)) channelProducers edges,
            errors @ (if channelProducers = [] \<and> channel \<notin> set nested \<and> channel \<notin> set initial
                      then [MissingChannel i channel] else [])))
      (channels (gs_consumes step)) st"

definition when_dependency :: "ident list \<Rightarrow> nat \<Rightarrow> graph_step \<Rightarrow> ident option" where
  "when_dependency ids index step =
    (let implicit = (if index > 0 then Some (ids ! (index - 1)) else None)
     in case gs_depends_on step of
          Some (d # _) \<Rightarrow> if d \<noteq> [] then Some d else implicit
        | _ \<Rightarrow> implicit)"

definition condition_from :: "json \<Rightarrow> string option" where
  "condition_from w = (case jget w ''from'' of JStr s \<Rightarrow> Some s | _ \<Rightarrow> None)"

definition when_part ::
  "ident list \<Rightarrow> (string, ident list) js_map \<Rightarrow> graph_step \<Rightarrow> nat \<Rightarrow> graph_edge list \<Rightarrow> graph_edge list" where
  "when_part ids producers step index edges =
    (if gs_when step = JUndef then edges
     else
       let i = ids ! index;
           edges1 = (case when_dependency ids index step of
                       Some d \<Rightarrow> if d \<noteq> [] \<and> d \<in> set ids then addEdge (when_edge d i None) edges else edges
                     | None \<Rightarrow> edges)
       in case condition_from (gs_when step) of
            Some c \<Rightarrow> fold (\<lambda>producer. addEdge (when_edge producer i (Some c))) (get_producers producers c) edges1
          | None \<Rightarrow> edges1)"

definition step_part ::
  "ident list \<Rightarrow> (string, ident list) js_map \<Rightarrow> string list \<Rightarrow> string list \<Rightarrow> nat \<times> graph_step \<Rightarrow>
   graph_edge list \<times> graph_error list \<Rightarrow> graph_edge list \<times> graph_error list" where
  "step_part ids producers nested initial = (\<lambda>(index, step) st.
    let i = ids ! index;
        (edges, errors) = consumes_part producers nested initial step i (depends_part ids step i st)
    in (when_part ids producers step index edges, errors))"

definition implicit_part ::
  "graph_step list \<Rightarrow> ident list \<Rightarrow> nat \<Rightarrow> graph_edge list \<Rightarrow> graph_edge list" where
  "implicit_part steps ids index edges =
    (let hasIncoming = list_ex (\<lambda>edge. ge_to edge = ids ! index) edges;
         step = steps ! index
     in if \<not> hasIncoming \<and>
           (\<not> has_explicit_graph steps \<or> (gs_depends_on step = None \<and> gs_consumes step = ConsNone))
        then addEdge (control_edge (ids ! (index - 1)) (ids ! index)) edges
        else edges)"

definition derive_edges ::
  "graph_step list \<Rightarrow> string list \<Rightarrow> graph_edge list \<times> graph_error list" where
  "derive_edges steps initial =
    (let ids = step_ids steps;
         producers = producers_of (zip steps ids);
         nested = nested_produced steps;
         (edges, errors) = fold (step_part ids producers nested initial) (enumerate 0 steps)
                             ([], duplicate_errors [] ids)
     in (fold (implicit_part steps ids) [1..<length ids] edges, errors))"

section \<open>Nodes\<close>

definition node_dependencies :: "graph_edge list \<Rightarrow> ident \<Rightarrow> ident list" where
  "node_dependencies edges i = js_dedup (map ge_from (filter (\<lambda>edge. ge_to edge = i) edges))"

definition derive_nodes :: "graph_step list \<Rightarrow> graph_edge list \<Rightarrow> graph_node list" where
  "derive_nodes steps edges =
    map (\<lambda>(index, i).
        let step = steps ! index in
        \<lparr>gn_id = i, gn_index = index, gn_value = step,
         gn_dependencies = node_dependencies edges i,
         gn_incoming = filter (\<lambda>edge. ge_to edge = i) edges,
         gn_outgoing = filter (\<lambda>edge. ge_from edge = i) edges,
         gn_when = gs_when step,
         gn_merge = (case gs_merge step of Some m \<Rightarrow> m | None \<Rightarrow> LastWins),
         gn_timeoutMs = declaredTimeoutMs step\<rparr>)
      (enumerate 0 (step_ids steps))"

section \<open>The cycle check\<close>

type_synonym remaining = "(ident, int) js_map"

definition rem_get :: "remaining \<Rightarrow> ident \<Rightarrow> int" where
  "rem_get m i = (case map_of m i of Some n \<Rightarrow> n | None \<Rightarrow> 0)"

lemma rem_get_update [simp]: "rem_get (AList.update k v m) i = (if i = k then v else rem_get m i)"
  by (simp add: rem_get_def js_map_simps)

definition kahn_relax :: "graph_edge \<Rightarrow> ident list \<times> remaining \<Rightarrow> ident list \<times> remaining" where
  "kahn_relax edge = (\<lambda>(queue, remaining).
    let nxt = rem_get remaining (ge_to edge) - 1;
        remaining' = AList.update (ge_to edge) nxt remaining
    in (if nxt = 0 then queue @ [ge_to edge] else queue, remaining'))"

text \<open>The loop ends because an identifier enters the queue only when its count drops from one to
  zero: queue length plus the number of positive counts goes down in every round.\<close>

definition positive_ids :: "remaining \<Rightarrow> ident set" where
  "positive_ids m = {i. rem_get m i > 0}"

lemma finite_positive_ids [simp]: "finite (positive_ids m)"
proof (rule finite_subset)
  show "positive_ids m \<subseteq> fst ` set m"
    by (force simp: positive_ids_def rem_get_def split: option.splits dest: map_of_SomeD)
qed simp

lemma kahn_relax_measure:
  "length (fst (kahn_relax e (q, m))) + card (positive_ids (snd (kahn_relax e (q, m)))) \<le>
   length q + card (positive_ids m)"
proof (cases "rem_get m (ge_to e) = 1")
  case True
  then have "positive_ids m = insert (ge_to e) (positive_ids (snd (kahn_relax e (q, m))))"
    and "ge_to e \<notin> positive_ids (snd (kahn_relax e (q, m)))"
    by (auto simp: kahn_relax_def positive_ids_def split: if_splits)
  then have "card (positive_ids m) = Suc (card (positive_ids (snd (kahn_relax e (q, m)))))"
    by (metis card_insert_disjoint finite_positive_ids)
  with True show ?thesis by (simp add: kahn_relax_def)
next
  case False
  then have "positive_ids (snd (kahn_relax e (q, m))) \<subseteq> positive_ids m"
    by (auto simp: kahn_relax_def positive_ids_def split: if_splits)
  with False show ?thesis by (simp add: kahn_relax_def card_mono)
qed

lemma kahn_relaxes_measure:
  "length (fst (fold kahn_relax es qm)) + card (positive_ids (snd (fold kahn_relax es qm))) \<le>
   length (fst qm) + card (positive_ids (snd qm))"
proof (induction es arbitrary: qm)
  case (Cons e es)
  from Cons [of "kahn_relax e qm"] kahn_relax_measure [of e "fst qm" "snd qm"] show ?case by simp
qed simp

definition out_edges :: "graph_edge list \<Rightarrow> ident \<Rightarrow> graph_edge list" where
  "out_edges edges i = filter (\<lambda>edge. ge_from edge = i) edges"

function kahn_loop :: "graph_edge list \<Rightarrow> ident list \<times> remaining \<Rightarrow> nat \<Rightarrow> nat" where
  "kahn_loop edges ([], m) visited = visited"
| "kahn_loop edges (current # q, m) visited =
     kahn_loop edges (fold kahn_relax (out_edges edges current) (q, m)) (visited + 1)"
  by pat_completeness auto
termination
proof (relation "measure (\<lambda>(edges, qm, visited). length (fst qm) + card (positive_ids (snd qm)))")
  fix edges :: "graph_edge list" and current q m and visited :: nat
  show "((edges, fold kahn_relax (out_edges edges current) (q, m), visited + 1),
         edges, (current # q, m), visited)
        \<in> measure (\<lambda>(edges, qm, visited). length (fst qm) + card (positive_ids (snd qm)))"
    using kahn_relaxes_measure [of "out_edges edges current" "(q, m)"] by simp
qed simp

definition kahn_start :: "graph_node list \<Rightarrow> ident list \<times> remaining" where
  "kahn_start nodes =
    (let remaining = fold (\<lambda>n. AList.update (gn_id n) (int (length (gn_dependencies n)))) nodes []
     in (map gn_id (filter (\<lambda>n. rem_get remaining (gn_id n) = 0) nodes), remaining))"

definition has_cycle_error :: "graph_node list \<Rightarrow> graph_edge list \<Rightarrow> bool" where
  "has_cycle_error nodes edges = (kahn_loop edges (kahn_start nodes) 0 \<noteq> length nodes)"

definition deriveExecutionGraph :: "graph_step list \<Rightarrow> string list \<Rightarrow> exec_graph \<times> graph_error list" where
  "deriveExecutionGraph steps initialChannels =
    (let (edges, errors) = derive_edges steps initialChannels;
         nodes = derive_nodes steps edges
     in (\<lparr>eg_nodes = nodes, eg_edges = edges\<rparr>,
         errors @ (if has_cycle_error nodes edges then [Cycle] else [])))"

end
