(* ===== verification/Kahn.thy ===== *)
theory Kahn
  imports Exec_Graph
begin

text \<open>
  Correctness of the cycle check of \<open>deriveExecutionGraph\<close> (theory \<open>Exec_Graph\<close>): the
  counts start from the number of distinct predecessors and go down once per edge. The check never
  rejects an acyclic graph, and it finds every cycle when no two edges connect the same pair of
  nodes; with parallel edges it can miss one.
\<close>

section \<open>One round of the loop\<close>

definition edges_into :: "graph_edge list \<Rightarrow> ident \<Rightarrow> nat" where
  "edges_into es i = length (filter (\<lambda>e. ge_to e = i) es)"

lemma edges_into_Nil [simp]: "edges_into [] i = 0"
  by (simp add: edges_into_def)

lemma edges_into_Cons [simp]:
  "edges_into (e # es) i = (if ge_to e = i then 1 else 0) + edges_into es i"
  by (simp add: edges_into_def)

lemma kahn_relaxes:
  assumes "fold kahn_relax es (q, m) = (q', m')"
  shows "rem_get m' i = rem_get m i - int (edges_into es i)"
    and "\<exists>new. q' = q @ new \<and> distinct new \<and> set new = {i. rem_get m i > 0 \<and> rem_get m' i \<le> 0}"
proof -
  have "rem_get m' i = rem_get m i - int (edges_into es i) \<and>
      (\<exists>new. q' = q @ new \<and> distinct new \<and> set new = {i. rem_get m i > 0 \<and> rem_get m' i \<le> 0})"
    for i
    using assms
  proof (induction es arbitrary: q m i)
    case Nil
    then show ?case by auto
  next
    case (Cons e es)
    obtain q1 m1 where one: "kahn_relax e (q, m) = (q1, m1)" by fastforce
    then have m1: "rem_get m1 j = (if j = ge_to e then rem_get m j - 1 else rem_get m j)" for j
      by (auto simp: kahn_relax_def Let_def)
    have q1: "q1 = (if rem_get m (ge_to e) = 1 then q @ [ge_to e] else q)"
      using one by (auto simp: kahn_relax_def Let_def)
    from Cons.prems one have rest: "fold kahn_relax es (q1, m1) = (q', m')" by simp
    note IH = Cons.IH [OF rest]
    have count: "rem_get m' j = rem_get m j - int (edges_into (e # es) j)" for j
      using IH [of j] m1 [of j] by auto
    from IH obtain new where new: "q' = q1 @ new" "distinct new"
      "set new = {i. rem_get m1 i > 0 \<and> rem_get m' i \<le> 0}" by blast
    have "\<exists>new. q' = q @ new \<and> distinct new \<and> set new = {i. rem_get m i > 0 \<and> rem_get m' i \<le> 0}"
    proof (cases "rem_get m (ge_to e) = 1")
      case True
      with m1 have "ge_to e \<notin> set new" by (simp add: new(3))
      moreover have "insert (ge_to e) (set new) = {i. rem_get m i > 0 \<and> rem_get m' i \<le> 0}"
        using True m1 count by (auto simp: new(3) split: if_splits)
      ultimately show ?thesis
        using True new q1 by (intro exI [of _ "ge_to e # new"]) simp
    next
      case False
      then have "{i. rem_get m1 i > 0 \<and> rem_get m' i \<le> 0} = {i. rem_get m i > 0 \<and> rem_get m' i \<le> 0}"
        using m1 count by (auto split: if_splits)
      with False new q1 show ?thesis by (intro exI [of _ new]) simp
    qed
    with count show ?case by blast
  qed
  then show "rem_get m' i = rem_get m i - int (edges_into es i)"
    and "\<exists>new. q' = q @ new \<and> distinct new \<and> set new = {i. rem_get m i > 0 \<and> rem_get m' i \<le> 0}"
    by blast+
qed

section \<open>The order in which the loop takes the nodes\<close>

function kahn_order :: "graph_edge list \<Rightarrow> ident list \<times> remaining \<Rightarrow> ident list" where
  "kahn_order edges ([], m) = []"
| "kahn_order edges (current # q, m) =
     current # kahn_order edges (fold kahn_relax (out_edges edges current) (q, m))"
  by pat_completeness auto
termination
proof (relation "measure (\<lambda>(edges, qm). length (fst qm) + card (positive_ids (snd qm)))")
  fix edges :: "graph_edge list" and current q m
  show "((edges, fold kahn_relax (out_edges edges current) (q, m)), edges, (current # q, m))
        \<in> measure (\<lambda>(edges, qm). length (fst qm) + card (positive_ids (snd qm)))"
    using kahn_relaxes_measure [of "out_edges edges current" "(q, m)"] by simp
qed simp

lemma kahn_loop_order: "kahn_loop edges qm v = v + length (kahn_order edges qm)"
  by (induction edges qm v rule: kahn_loop.induct) simp_all

text \<open>What holds between rounds, with \<open>D\<close> the nodes already taken.\<close>

definition from_done :: "graph_edge list \<Rightarrow> ident set \<Rightarrow> graph_edge list" where
  "from_done E D = filter (\<lambda>e. ge_from e \<in> D) E"

definition kahn_inv ::
  "ident set \<Rightarrow> (ident \<Rightarrow> nat) \<Rightarrow> graph_edge list \<Rightarrow> ident list \<Rightarrow> ident list \<times> remaining \<Rightarrow> bool" where
  "kahn_inv I deg E D qm \<longleftrightarrow>
    distinct (D @ fst qm) \<and> set (D @ fst qm) \<subseteq> I \<and>
    (\<forall>i. i \<notin> I \<longrightarrow> rem_get (snd qm) i \<le> 0) \<and>
    (\<forall>i\<in>I. rem_get (snd qm) i = int (deg i) - int (edges_into (from_done E (set D)) i)) \<and>
    (\<forall>i\<in>I. i \<in> set (D @ fst qm) \<longleftrightarrow> rem_get (snd qm) i \<le> 0)"

lemma kahn_invD:
  assumes "kahn_inv I deg E D qm"
  shows "distinct (D @ fst qm)" and "set (D @ fst qm) \<subseteq> I"
    and "i \<notin> I \<Longrightarrow> rem_get (snd qm) i \<le> 0"
    and "i \<in> I \<Longrightarrow> rem_get (snd qm) i = int (deg i) - int (edges_into (from_done E (set D)) i)"
    and "i \<in> I \<Longrightarrow> i \<in> set (D @ fst qm) \<longleftrightarrow> rem_get (snd qm) i \<le> 0"
  using assms unfolding kahn_inv_def by blast+

lemma edges_into_from_done_insert:
  assumes "c \<notin> D"
  shows "edges_into (from_done E (insert c D)) i =
         edges_into (from_done E D) i + edges_into (out_edges E c) i"
  using assms by (induction E) (auto simp: from_done_def out_edges_def)

lemma kahn_inv_round:
  assumes inv: "kahn_inv I deg E D (c # q, m)"
  shows "kahn_inv I deg E (D @ [c]) (fold kahn_relax (out_edges E c) (q, m))"
proof -
  obtain q' m' where one: "fold kahn_relax (out_edges E c) (q, m) = (q', m')" by fastforce
  from kahn_relaxes(2) [OF one] obtain new where new: "q' = q @ new" "distinct new"
    "set new = {i. rem_get m i > 0 \<and> rem_get m' i \<le> 0}" by blast
  have m': "rem_get m' i = rem_get m i - int (edges_into (out_edges E c) i)" for i
    by (rule kahn_relaxes(1) [OF one])
  note D = kahn_invD [OF inv, unfolded fst_conv snd_conv]
  have c: "c \<notin> set D" using D(1) by simp
  have count: "rem_get m' i = int (deg i) - int (edges_into (from_done E (set (D @ [c]))) i)"
    if "i \<in> I" for i
  proof -
    have "edges_into (from_done E (set (D @ [c]))) i =
        edges_into (from_done E (set D)) i + edges_into (out_edges E c) i"
      using edges_into_from_done_insert [OF c] by simp
    then show ?thesis using D(4) [OF that] m' [of i] by linarith
  qed
  note outside = D(3) and old = D(5) and sub = D(2) and dist = D(1)
  have fresh: "i \<in> I \<and> i \<notin> set (D @ c # q)" if "i \<in> set new" for i
    using that new(3) outside [of i] old [of i] by auto
  have 1: "distinct (D @ [c] @ q')"
    using dist new(1,2) fresh by auto
  have 2: "set (D @ [c] @ q') \<subseteq> I"
    using sub new(1) fresh by auto
  have 3: "rem_get m' i \<le> 0" if "i \<notin> I" for i
    using outside [OF that] m' [of i] by simp
  have 4: "i \<in> set (D @ [c] @ q') \<longleftrightarrow> rem_get m' i \<le> 0" if "i \<in> I" for i
  proof -
    have mem: "i \<in> set (D @ [c] @ q') \<longleftrightarrow> i \<in> set (D @ c # q) \<or> i \<in> set new"
      unfolding new(1) by simp
    have new_i: "i \<in> set new \<longleftrightarrow> 0 < rem_get m i \<and> rem_get m' i \<le> 0" unfolding new(3) by simp
    have "rem_get m' i \<le> rem_get m i" using m' [of i] by simp
    then show ?thesis unfolding mem new_i old [OF that] by linarith
  qed
  show ?thesis
    unfolding kahn_inv_def one fst_conv snd_conv append.assoc
    using 1 2 3 count 4 by (intro conjI allI ballI impI) simp_all
qed

lemma kahn_inv_final:
  "kahn_inv I deg E D qm \<Longrightarrow> \<exists>m. kahn_inv I deg E (D @ kahn_order E qm) ([], m)"
proof (induction E qm arbitrary: D rule: kahn_order.induct)
  case (1 E m)
  then show ?case by auto
next
  case (2 E c q m)
  from 2(1) [OF kahn_inv_round [OF 2(2)]] show ?case by simp
qed

section \<open>Acyclic graphs are accepted\<close>

definition edge_rel :: "graph_edge list \<Rightarrow> (ident \<times> ident) set" where
  "edge_rel E = {(ge_from e, ge_to e) | e. e \<in> set E}"

lemma edges_into_done_le: "edges_into (from_done E D) i \<le> edges_into E i"
  by (induction E) (auto simp: from_done_def)

lemma edges_into_all_done:
  assumes "\<And>e. e \<in> set E \<Longrightarrow> ge_to e = i \<Longrightarrow> ge_from e \<in> D"
  shows "edges_into (from_done E D) i = edges_into E i"
  using assms by (induction E) (auto simp: from_done_def)

lemma edges_into_some_missing:
  assumes "e \<in> set E" and "ge_to e = i" and "ge_from e \<notin> D"
  shows "edges_into (from_done E D) i < edges_into E i"
  using assms
proof (induction E)
  case (Cons x E)
  then show ?case
    using edges_into_done_le [of E D i] by (auto simp: from_done_def less_Suc_eq_le)
qed simp

lemma node_dependencies_le: "length (node_dependencies E i) \<le> edges_into E i"
  using length_js_dedup_le [of "map ge_from (filter (\<lambda>e. ge_to e = i) E)"]
  by (simp add: node_dependencies_def edges_into_def)

lemma set_node_dependencies:
  "set (node_dependencies E i) = {j. (j, i) \<in> edge_rel E}"
  by (auto simp: node_dependencies_def edge_rel_def)

text \<open>What the graph builder guarantees of its nodes and edges.\<close>

definition graph_wf :: "graph_node list \<Rightarrow> graph_edge list \<Rightarrow> bool" where
  "graph_wf nodes E \<longleftrightarrow>
    distinct (map gn_id nodes) \<and>
    (\<forall>n\<in>set nodes. gn_dependencies n = node_dependencies E (gn_id n)) \<and>
    (\<forall>e\<in>set E. ge_from e \<in> gn_id ` set nodes \<and> ge_to e \<in> gn_id ` set nodes)"

lemma rem_get_fold_update:
  assumes "distinct (map gn_id nodes)"
  shows "rem_get (fold (\<lambda>n. AList.update (gn_id n) (f n)) nodes m) i =
    (case List.find (\<lambda>n. gn_id n = i) nodes of Some n \<Rightarrow> f n | None \<Rightarrow> rem_get m i)"
  using assms
proof (induction nodes arbitrary: m)
  case (Cons n nodes)
  have "List.find (\<lambda>x. gn_id x = gn_id n) nodes = None"
    unfolding find_None_iff using Cons.prems by (metis distinct.simps(2) image_eqI list.set_map list.simps(9))
  with Cons show ?case by (auto split: option.splits)
qed simp

lemma kahn_start_inv:
  assumes "graph_wf nodes E"
  shows "kahn_inv (gn_id ` set nodes) (\<lambda>i. length (node_dependencies E i)) E [] (kahn_start nodes)"
proof -
  define r where "r = fold (\<lambda>n. AList.update (gn_id n) (int (length (gn_dependencies n)))) nodes []"
  have dist: "distinct (map gn_id nodes)" using assms by (simp add: graph_wf_def)
  have find: "List.find (\<lambda>x. gn_id x = gn_id n) nodes = Some n" if "n \<in> set nodes" for n
    using that dist by (induction nodes) auto
  have inside: "rem_get r (gn_id n) = int (length (node_dependencies E (gn_id n)))" if "n \<in> set nodes" for n
    using that assms by (simp add: r_def rem_get_fold_update [OF dist] find graph_wf_def)
  have outside: "rem_get r i = 0" if "i \<notin> gn_id ` set nodes" for i
  proof -
    have "List.find (\<lambda>x. gn_id x = i) nodes = None" using that by (auto simp: find_None_iff)
    then show ?thesis by (simp add: r_def rem_get_fold_update [OF dist]) (simp add: rem_get_def)
  qed
  have "distinct (map gn_id (filter P nodes))" for P
    using dist by (rule distinct_map_filter)
  moreover have "edges_into (from_done E {}) i = 0" for i
    by (simp add: from_done_def edges_into_def)
  moreover have "kahn_start nodes = (map gn_id (filter (\<lambda>n. rem_get r (gn_id n) = 0) nodes), r)"
    by (simp add: kahn_start_def r_def Let_def)
  ultimately show ?thesis
    using inside outside by (auto simp: kahn_inv_def)
qed

text \<open>At the end of the loop the nodes taken are those whose count was used up.\<close>

lemma kahn_result:
  assumes "graph_wf nodes E"
  defines "L \<equiv> kahn_order E (kahn_start nodes)"
  shows "distinct L" and "set L \<subseteq> gn_id ` set nodes"
    and "n \<in> set nodes \<Longrightarrow>
      gn_id n \<in> set L \<longleftrightarrow> length (node_dependencies E (gn_id n)) \<le> edges_into (from_done E (set L)) (gn_id n)"
    and "has_cycle_error nodes E \<longleftrightarrow> set L \<noteq> gn_id ` set nodes"
proof -
  from kahn_inv_final [OF kahn_start_inv [OF assms(1)]] obtain m where
    inv: "kahn_inv (gn_id ` set nodes) (\<lambda>i. length (node_dependencies E i)) E L ([], m)"
    by (auto simp: L_def)
  then show "distinct L" and sub: "set L \<subseteq> gn_id ` set nodes" by (auto simp: kahn_inv_def)
  show "gn_id n \<in> set L \<longleftrightarrow> length (node_dependencies E (gn_id n)) \<le> edges_into (from_done E (set L)) (gn_id n)"
    if "n \<in> set nodes" for n
    using inv that by (auto simp: kahn_inv_def)
  have "card (gn_id ` set nodes) = length nodes"
    using assms(1) by (metis graph_wf_def distinct_card length_map list.set_map)
  moreover have "card (set L) = length L" using \<open>distinct L\<close> by (rule distinct_card)
  ultimately show "has_cycle_error nodes E \<longleftrightarrow> set L \<noteq> gn_id ` set nodes"
    using sub card_subset_eq [OF _ sub]
    by (auto simp: has_cycle_error_def kahn_loop_order L_def)
qed

lemma finite_edge_rel: "finite (edge_rel E)"
proof -
  have "edge_rel E = (\<lambda>e. (ge_from e, ge_to e)) ` set E" by (auto simp: edge_rel_def)
  then show ?thesis by simp
qed

lemma acyclic_no_cycle_error:
  assumes wf: "graph_wf nodes E" and ac: "acyclic (edge_rel E)"
  shows "\<not> has_cycle_error nodes E"
proof -
  let ?L = "kahn_order E (kahn_start nodes)"
  have "wf (edge_rel E)" by (rule finite_acyclic_wf [OF finite_edge_rel ac])
  then have "i \<in> gn_id ` set nodes \<longrightarrow> i \<in> set ?L" for i
  proof (induction i rule: wf_induct_rule)
    case (less i)
    show ?case
    proof
      assume "i \<in> gn_id ` set nodes"
      then obtain n where n: "n \<in> set nodes" "i = gn_id n" by auto
      have "edges_into (from_done E (set ?L)) i = edges_into E i"
      proof (rule edges_into_all_done)
        fix e assume "e \<in> set E" "ge_to e = i"
        then have "(ge_from e, i) \<in> edge_rel E" by (auto simp: edge_rel_def)
        with less have "ge_from e \<in> gn_id ` set nodes \<longrightarrow> ge_from e \<in> set ?L" by blast
        with wf \<open>e \<in> set E\<close> show "ge_from e \<in> set ?L" by (simp add: graph_wf_def)
      qed
      with n node_dependencies_le [of E i] show "i \<in> set ?L"
        by (simp add: kahn_result(3) [OF wf n(1)])
    qed
  qed
  with kahn_result(2,4) [OF wf] show ?thesis by blast
qed

section \<open>Cycles are found when no edges are parallel\<close>

definition no_parallel_edges :: "graph_edge list \<Rightarrow> bool" where
  "no_parallel_edges E = distinct (map (\<lambda>e. (ge_from e, ge_to e)) E)"

lemma no_parallel_dependencies:
  assumes "no_parallel_edges E"
  shows "length (node_dependencies E i) = edges_into E i"
proof -
  have "distinct (map ge_from (filter (\<lambda>e. ge_to e = i) E))"
    using assms by (induction E) (auto simp: no_parallel_edges_def)
  then show ?thesis
    by (simp add: node_dependencies_def edges_into_def length_js_dedup_distinct)
qed

text \<open>Without parallel edges a node enters the queue only after all its predecessors were taken,
  so the order of the loop is topological.\<close>

lemma kahn_queue_preds:
  assumes inv: "kahn_inv I (\<lambda>i. edges_into E i) E D (q, m)" and i: "i \<in> set q"
    and e: "e \<in> set E" "ge_to e = i"
  shows "ge_from e \<in> set D"
proof (rule ccontr)
  assume "ge_from e \<notin> set D"
  from edges_into_some_missing [OF e this] have "edges_into (from_done E (set D)) i < edges_into E i" .
  moreover have "i \<in> I" using inv i by (auto simp: kahn_inv_def)
  ultimately have "rem_get m i > 0" using inv by (simp add: kahn_inv_def)
  moreover from inv i \<open>i \<in> I\<close> have "rem_get m i \<le> 0" by (auto simp: kahn_inv_def)
  ultimately show False by simp
qed

lemma topo_prefix_snoc:
  assumes "\<forall>xs i ys. D = xs @ i # ys \<longrightarrow> (\<forall>e\<in>set E. ge_to e = i \<longrightarrow> ge_from e \<in> set xs)"
    and "\<forall>e\<in>set E. ge_to e = c \<longrightarrow> ge_from e \<in> set D"
  shows "\<forall>xs i ys. D @ [c] = xs @ i # ys \<longrightarrow> (\<forall>e\<in>set E. ge_to e = i \<longrightarrow> ge_from e \<in> set xs)"
proof (intro allI impI)
  fix xs i ys assume eq: "D @ [c] = xs @ i # ys"
  show "\<forall>e\<in>set E. ge_to e = i \<longrightarrow> ge_from e \<in> set xs"
  proof (cases ys rule: rev_cases)
    case Nil
    with eq assms(2) show ?thesis by simp
  next
    case (snoc zs z)
    with eq have "D = xs @ i # zs" by simp
    with assms(1) show ?thesis by blast
  qed
qed

lemma kahn_order_topological:
  assumes "kahn_inv I (\<lambda>i. edges_into E i) E D qm"
    and "\<forall>xs i ys. D = xs @ i # ys \<longrightarrow> (\<forall>e\<in>set E. ge_to e = i \<longrightarrow> ge_from e \<in> set xs)"
  shows "\<forall>xs i ys. D @ kahn_order E qm = xs @ i # ys \<longrightarrow> (\<forall>e\<in>set E. ge_to e = i \<longrightarrow> ge_from e \<in> set xs)"
  using assms
proof (induction E qm arbitrary: D rule: kahn_order.induct)
  case (1 E m)
  then show ?case by simp
next
  case (2 E c q m)
  have "\<forall>e\<in>set E. ge_to e = c \<longrightarrow> ge_from e \<in> set D"
    using kahn_queue_preds [OF 2(2)] by auto
  from 2(1) [OF kahn_inv_round [OF 2(2)] topo_prefix_snoc [OF 2(3) this]] show ?case by simp
qed

lemma acyclic_if_topological:
  assumes topo: "\<forall>xs i ys. L = xs @ i # ys \<longrightarrow> (\<forall>e\<in>set E. ge_to e = i \<longrightarrow> ge_from e \<in> set xs)"
    and dist: "distinct L" and all: "\<forall>e\<in>set E. ge_to e \<in> set L"
  shows "acyclic (edge_rel E)"
proof -
  define pos where "pos x = length (takeWhile (\<lambda>y. y \<noteq> x) L)" for x
  have "pos a < pos b" if "(a, b) \<in> edge_rel E" for a b
  proof -
    from that obtain e where e: "e \<in> set E" "a = ge_from e" "b = ge_to e" by (auto simp: edge_rel_def)
    with all obtain xs ys where L: "L = xs @ b # ys" by (metis split_list)
    with topo e have a: "a \<in> set xs" by blast
    have "b \<notin> set xs" using dist L by auto
    then have "pos b = length xs" by (simp add: pos_def L takeWhile_append)
    moreover from a obtain us vs where "xs = us @ a # vs" "a \<notin> set us" by (metis split_list_first)
    then have "pos a < length xs" by (simp add: pos_def L takeWhile_append)
    ultimately show ?thesis by simp
  qed
  then have "edge_rel E \<subseteq> measure pos" by auto
  then show ?thesis by (rule acyclic_subset [OF wf_acyclic [OF wf_measure]])
qed

lemma no_cycle_error_acyclic:
  assumes wf: "graph_wf nodes E" and np: "no_parallel_edges E" and ok: "\<not> has_cycle_error nodes E"
  shows "acyclic (edge_rel E)"
proof (rule acyclic_if_topological)
  let ?L = "kahn_order E (kahn_start nodes)"
  have "kahn_inv (gn_id ` set nodes) (\<lambda>i. edges_into E i) E [] (kahn_start nodes)"
    using kahn_start_inv [OF wf] by (simp add: no_parallel_dependencies [OF np])
  from kahn_order_topological [OF this]
  show "\<forall>xs i ys. ?L = xs @ i # ys \<longrightarrow> (\<forall>e\<in>set E. ge_to e = i \<longrightarrow> ge_from e \<in> set xs)" by simp
  show "distinct ?L" by (rule kahn_result(1) [OF wf])
  show "\<forall>e\<in>set E. ge_to e \<in> set ?L"
    using ok wf by (simp add: kahn_result(4) [OF wf] graph_wf_def)
qed

end
