(* ===== verification/Graph_Derive.thy ===== *)
theory Graph_Derive
  imports Kahn
begin

text \<open>
  The graph that \<open>deriveExecutionGraph\<close> builds: well-formed nodes and edges, the exact set of
  validation errors, the linear chain of a pipeline without graph declarations, and what the cycle
  check decides on it.
\<close>

section \<open>Edges connect declared nodes\<close>

definition edges_within :: "ident set \<Rightarrow> graph_edge list \<Rightarrow> bool" where
  "edges_within I E \<longleftrightarrow> (\<forall>e\<in>set E. ge_from e \<in> I \<and> ge_to e \<in> I)"

lemma edges_within_Nil [simp]: "edges_within I []"
  by (simp add: edges_within_def)

lemma edges_within_addEdge:
  "edges_within I E \<Longrightarrow> ge_from e \<in> I \<Longrightarrow> ge_to e \<in> I \<Longrightarrow> edges_within I (addEdge e E)"
  by (auto simp: edges_within_def addEdge_def)

lemma edges_within_fold:
  assumes "edges_within I E" and "\<And>x. x \<in> set xs \<Longrightarrow> ge_from (g x) \<in> I \<and> ge_to (g x) \<in> I"
  shows "edges_within I (fold (\<lambda>x. addEdge (g x)) xs E)"
  by (rule fold_invariant [where Q = "\<lambda>x. x \<in> set xs"])
    (use assms edges_within_addEdge in auto)

lemma edge_ends [simp]:
  "ge_from (control_edge f t) = f" "ge_to (control_edge f t) = t"
  "ge_from (data_edge f t c) = f" "ge_to (data_edge f t c) = t"
  "ge_from (when_edge f t oc) = f" "ge_to (when_edge f t oc) = t"
  by (simp_all add: control_edge_def data_edge_def when_edge_def)

definition producers_within :: "ident set \<Rightarrow> (string, ident list) js_map \<Rightarrow> bool" where
  "producers_within I ps \<longleftrightarrow> (\<forall>c. set (get_producers ps c) \<subseteq> I)"

lemma producers_withinD: "producers_within I ps \<Longrightarrow> p \<in> set (get_producers ps c) \<Longrightarrow> p \<in> I"
  by (auto simp: producers_within_def)

lemma get_producers_update [simp]:
  "get_producers (AList.update c is ps) c' = (if c' = c then is else get_producers ps c')"
  by (simp add: get_producers_def js_map_simps)

lemma producers_within_of:
  assumes "snd ` set sis \<subseteq> I"
  shows "producers_within I (producers_of sis)"
proof -
  have "producers_within I (fold (\<lambda>(step, i) producers.
        case truthy_channel (producedChannel (gs_produces step) (gs_params step)) of
          [] \<Rightarrow> producers
        | c # _ \<Rightarrow> AList.update c (get_producers producers c @ [i]) producers) sis ps)"
    if "producers_within I ps" for ps
    using that assms
  proof (induction sis arbitrary: ps)
    case (Cons si sis)
    then show ?case by (cases si) (auto simp: producers_within_def split: list.splits)
  qed simp
  moreover have "producers_within I []" by (simp add: producers_within_def get_producers_def)
  ultimately show ?thesis by (simp add: producers_of_def)
qed

section \<open>The contributions of one step\<close>

definition missing_dependencies :: "ident list \<Rightarrow> graph_step \<Rightarrow> ident list" where
  "missing_dependencies ids step =
    (case gs_depends_on step of None \<Rightarrow> [] | Some deps \<Rightarrow> filter (\<lambda>d. d \<notin> set ids) deps)"

definition missing_channels ::
  "(string, ident list) js_map \<Rightarrow> string list \<Rightarrow> string list \<Rightarrow> graph_step \<Rightarrow> string list" where
  "missing_channels producers nested initial step =
    filter (\<lambda>c. get_producers producers c = [] \<and> c \<notin> set nested \<and> c \<notin> set initial)
      (channels (gs_consumes step))"

lemma depends_fold:
  "fold (\<lambda>d (edges, errors).
      if d \<notin> set ids then (edges, errors @ [MissingDependency i d])
      else (addEdge (control_edge d i) edges, errors)) deps (E, errs) =
   (fold (\<lambda>d. addEdge (control_edge d i)) (filter (\<lambda>d. d \<in> set ids) deps) E,
    errs @ map (MissingDependency i) (filter (\<lambda>d. d \<notin> set ids) deps))"
  by (induction deps arbitrary: E errs) auto

lemma depends_part_eq:
  "depends_part ids step i (E, errs) =
    (case gs_depends_on step of None \<Rightarrow> (E, errs) | Some deps \<Rightarrow>
      (fold (\<lambda>d. addEdge (control_edge d i)) (filter (\<lambda>d. d \<in> set ids) deps) E,
       errs @ (if truthy_opt (gs_id step) then [] else [IdRequiredForDependency i]) @
       map (MissingDependency i) (missing_dependencies ids step)))"
  by (simp add: depends_part_def depends_fold missing_dependencies_def split: option.splits)

lemma consumes_part_eq:
  "consumes_part producers nested initial step i (E, errs) =
    (fold (\<lambda>c. fold (\<lambda>p. addEdge (data_edge p i c)) (get_producers producers c)) (channels (gs_consumes step)) E,
     errs @ map (MissingChannel i) (missing_channels producers nested initial step))"
proof -
  have "fold (\<lambda>channel (edges, errors).
        let channelProducers = get_producers producers channel
        in (fold (\<lambda>producer. addEdge (data_edge producer i channel)) channelProducers edges,
            errors @ (if channelProducers = [] \<and> channel \<notin> set nested \<and> channel \<notin> set initial
                      then [MissingChannel i channel] else []))) cs (E, errs) =
    (fold (\<lambda>c. fold (\<lambda>p. addEdge (data_edge p i c)) (get_producers producers c)) cs E,
     errs @ map (MissingChannel i)
       (filter (\<lambda>c. get_producers producers c = [] \<and> c \<notin> set nested \<and> c \<notin> set initial) cs))" for cs
    by (induction cs arbitrary: E errs) (auto simp: Let_def)
  then show ?thesis by (simp add: consumes_part_def missing_channels_def)
qed

definition step_errors ::
  "ident list \<Rightarrow> (string, ident list) js_map \<Rightarrow> string list \<Rightarrow> string list \<Rightarrow> nat \<times> graph_step \<Rightarrow>
   graph_error list" where
  "step_errors ids producers nested initial = (\<lambda>(index, step).
    (if gs_depends_on step \<noteq> None \<and> \<not> truthy_opt (gs_id step)
     then [IdRequiredForDependency (ids ! index)] else []) @
    map (MissingDependency (ids ! index)) (missing_dependencies ids step) @
    map (MissingChannel (ids ! index)) (missing_channels producers nested initial step))"

lemma step_part_errors:
  "snd (step_part ids producers nested initial x st) = snd st @ step_errors ids producers nested initial x"
  by (cases st; cases x)
    (auto simp: step_part_def depends_part_eq consumes_part_eq step_errors_def missing_dependencies_def
      Let_def split: option.splits)

lemma steps_errors:
  "snd (fold (step_part ids producers nested initial) xs st) =
     snd st @ concat (map (step_errors ids producers nested initial) xs)"
  by (induction xs arbitrary: st) (auto simp: step_part_errors)

lemma fold_add_within:
  assumes "edges_within I E" and "i \<in> I" and "producers_within I ps"
  shows "edges_within I (fold (\<lambda>c. fold (\<lambda>p. addEdge (data_edge p i c)) (get_producers ps c)) cs E)"
  using assms(1)
proof (induction cs arbitrary: E)
  case (Cons c cs)
  have "edges_within I (fold (\<lambda>p. addEdge (data_edge p i c)) (get_producers ps c) E)"
    using Cons.prems assms by (intro edges_within_fold) (auto simp: producers_within_def)
  with Cons.IH show ?case by simp
qed simp

lemma when_part_within:
  assumes "edges_within (set ids) E" and "index < length ids" and "producers_within (set ids) ps"
  shows "edges_within (set ids) (when_part ids ps step index E)"
proof -
  have "edges_within (set ids) (case when_dependency ids index step of
      Some d \<Rightarrow> if d \<noteq> [] \<and> d \<in> set ids then addEdge (when_edge d (ids ! index) None) E else E
    | None \<Rightarrow> E)"
    using assms by (auto intro!: edges_within_addEdge split: option.splits)
  then show ?thesis
    using assms unfolding when_part_def Let_def
    by (auto split: option.splits intro!: edges_within_fold dest: producers_withinD)
qed

lemma step_part_within:
  assumes "edges_within (set ids) (fst st)" and "fst x < length ids" and "producers_within (set ids) ps"
  shows "edges_within (set ids) (fst (step_part ids ps nested initial x st))"
proof -
  obtain index step where x: "x = (index, step)" by fastforce
  obtain E errs where st: "st = (E, errs)" by fastforce
  have "edges_within (set ids) (fst (depends_part ids step (ids ! index) (E, errs)))"
    using assms by (auto simp: depends_part_eq x st split: option.splits intro!: edges_within_fold)
  then have "edges_within (set ids)
      (fst (consumes_part ps nested initial step (ids ! index) (depends_part ids step (ids ! index) (E, errs))))"
    using assms by (cases "depends_part ids step (ids ! index) (E, errs)")
      (auto simp: consumes_part_eq x intro!: fold_add_within)
  then show ?thesis
    using assms by (auto simp: step_part_def x st Let_def case_prod_beta intro!: when_part_within)
qed

lemma length_step_ids [simp]: "length (step_ids steps) = length steps"
  by (simp add: step_ids_def)

lemma derive_edges_within: "edges_within (set (step_ids steps)) (fst (derive_edges steps initial))"
proof -
  let ?ids = "step_ids steps" and ?ps = "producers_of (zip steps (step_ids steps))"
  have ps: "producers_within (set ?ids) ?ps"
    by (rule producers_within_of) (auto dest: set_zip_rightD)
  have "edges_within (set ?ids) (fst (fold (step_part ?ids ?ps nested initial) (enumerate 0 steps) ([], errs)))"
    for nested errs
    by (rule fold_invariant [where Q = "\<lambda>x. fst x < length steps"])
      (auto simp: in_set_enumerate_eq intro!: step_part_within ps)
  then have "edges_within (set ?ids) (fold (implicit_part steps ?ids) [1..<length ?ids]
      (fst (fold (step_part ?ids ?ps nested initial) (enumerate 0 steps) ([], errs))))" for nested errs
    by (rule fold_invariant [where Q = "\<lambda>i. i < length ?ids", rotated])
      (auto simp: implicit_part_def Let_def intro!: edges_within_addEdge)
  then show ?thesis by (simp add: derive_edges_def Let_def case_prod_beta)
qed

lemma map_gn_id_derive [simp]: "map gn_id (derive_nodes steps E) = step_ids steps"
proof -
  have "map gn_id (derive_nodes steps E) = map snd (enumerate 0 (step_ids steps))"
    by (simp add: derive_nodes_def case_prod_beta Let_def comp_def)
  then show ?thesis by simp
qed

lemma derive_nodes_wf:
  assumes "distinct (step_ids steps)"
  shows "graph_wf (derive_nodes steps (fst (derive_edges steps initial))) (fst (derive_edges steps initial))"
proof -
  have "gn_id ` set (derive_nodes steps E) = set (step_ids steps)" for E
    by (metis list.set_map map_gn_id_derive)
  moreover have "gn_dependencies n = node_dependencies E (gn_id n)" if "n \<in> set (derive_nodes steps E)" for n E
    using that by (auto simp: derive_nodes_def Let_def)
  ultimately show ?thesis
    using assms derive_edges_within [of steps initial] by (simp add: graph_wf_def edges_within_def)
qed

section \<open>Validation errors\<close>

lemma ball_enumerate_snd: "(\<forall>x\<in>set (enumerate 0 xs). P (snd x)) \<longleftrightarrow> (\<forall>y\<in>set xs. P y)"
proof -
  have "set xs = snd ` set (enumerate 0 xs)" by (metis list.set_map map_snd_enumerate)
  then show ?thesis by simp
qed

lemma duplicate_errors_set:
  "set (duplicate_errors seen ids) =
     DuplicateId ` ({i. i \<in> set ids \<and> i \<in> set seen} \<union> {i. \<exists>xs ys. ids = xs @ i # ys \<and> i \<in> set xs})"
proof (induction ids arbitrary: seen)
  case (Cons a ids)
  have "{i. \<exists>xs ys. a # ids = xs @ i # ys \<and> i \<in> set xs} =
        {i. i = a \<and> a \<in> set ids} \<union> {i. \<exists>xs ys. ids = xs @ i # ys \<and> i \<in> set xs}" (is "?l = ?r")
  proof
    show "?l \<subseteq> ?r" by (auto simp: Cons_eq_append_conv)
    show "?r \<subseteq> ?l"
    proof
      fix i assume "i \<in> ?r"
      then show "i \<in> ?l"
      proof
        assume "i \<in> {i. i = a \<and> a \<in> set ids}"
        then obtain us vs where "ids = us @ a # vs" "i = a" by (auto dest: split_list)
        then have "a # ids = (a # us) @ i # vs \<and> i \<in> set (a # us)" by simp
        then show ?thesis by blast
      next
        assume "i \<in> {i. \<exists>xs ys. ids = xs @ i # ys \<and> i \<in> set xs}"
        then obtain us vs where "ids = us @ i # vs" "i \<in> set us" by auto
        then have "a # ids = (a # us) @ i # vs \<and> i \<in> set (a # us)" by simp
        then show ?thesis by blast
      qed
    qed
  qed
  then show ?case by (auto simp: Cons.IH)
qed simp

lemma duplicate_errors_empty: "duplicate_errors [] ids = [] \<longleftrightarrow> distinct ids"
proof -
  have "duplicate_errors seen ids = [] \<longleftrightarrow> distinct ids \<and> set ids \<inter> set seen = {}" for seen
    by (induction ids arbitrary: seen) auto
  then show ?thesis by simp
qed

lemma derive_errors:
  "snd (derive_edges steps initial) =
     duplicate_errors [] (step_ids steps) @
     concat (map (step_errors (step_ids steps) (producers_of (zip steps (step_ids steps)))
       (nested_produced steps) initial) (enumerate 0 steps))"
  by (simp add: derive_edges_def Let_def case_prod_beta steps_errors)

lemma derive_unfold:
  "deriveExecutionGraph steps initial =
    (let E = fst (derive_edges steps initial); nodes = derive_nodes steps E
     in (\<lparr>eg_nodes = nodes, eg_edges = E\<rparr>,
         snd (derive_edges steps initial) @ (if has_cycle_error nodes E then [Cycle] else [])))"
  by (simp add: deriveExecutionGraph_def Let_def case_prod_beta)

lemma no_other_Cycle: "Cycle \<notin> set (snd (derive_edges steps initial))"
  by (auto simp: derive_errors duplicate_errors_set step_errors_def split: if_splits)

section \<open>A pipeline without graph declarations\<close>

definition chain_edges :: "ident list \<Rightarrow> nat \<Rightarrow> graph_edge list" where
  "chain_edges ids n = map (\<lambda>k. control_edge (ids ! (k - 1)) (ids ! k)) [1..<n]"

lemma legacy_step_part:
  assumes "gs_depends_on step = None" "gs_consumes step = ConsNone" "gs_when step = JUndef"
  shows "step_part ids ps nested initial (index, step) st = st"
  using assms by (cases st) (simp add: step_part_def depends_part_eq consumes_part_eq when_part_def
    missing_channels_def)

lemma legacy_steps:
  assumes "\<And>x. x \<in> set xs \<Longrightarrow> gs_depends_on (snd x) = None \<and> gs_consumes (snd x) = ConsNone \<and>
      gs_when (snd x) = JUndef"
  shows "fold (step_part ids ps nested initial) xs st = st"
  using assms
proof (induction xs arbitrary: st)
  case (Cons x xs)
  from Cons.prems [of x] have "step_part ids ps nested initial x st = st"
    by (cases x) (simp add: legacy_step_part)
  with Cons show ?case by simp
qed simp

lemma implicit_chain:
  assumes "\<not> has_explicit_graph steps" and "distinct ids" and "n \<le> length ids"
  shows "fold (implicit_part steps ids) [1..<n] [] = chain_edges ids n"
  using assms(3)
proof (induction n)
  case 0
  then show ?case by (simp add: chain_edges_def)
next
  case (Suc n)
  show ?case
  proof (cases "n = 0")
    case True
    then show ?thesis by (simp add: chain_edges_def)
  next
    case False
    have fresh: "ge_to e \<noteq> ids ! n" if "e \<in> set (chain_edges ids n)" for e
      using that assms(2) Suc.prems by (auto simp: chain_edges_def nth_eq_iff_index_eq)
    have ne: "ids ! (n - 1) \<noteq> ids ! n"
      using assms(2) Suc.prems False by (simp add: nth_eq_iff_index_eq)
    have "implicit_part steps ids n (chain_edges ids n) =
        chain_edges ids n @ [control_edge (ids ! (n - 1)) (ids ! n)]"
      using fresh ne assms(1)
      by (auto simp: implicit_part_def Let_def addEdge_def same_edge_def list_ex_iff_ex_set)
    moreover have "[1..<Suc n] = [1..<n] @ [n]" using False by simp
    ultimately show ?thesis
      using Suc by (simp add: chain_edges_def)
  qed
qed

lemma legacy_edges:
  assumes "\<not> has_explicit_graph steps" and "distinct (step_ids steps)"
  shows "fst (derive_edges steps initial) = chain_edges (step_ids steps) (length steps)"
    and "snd (derive_edges steps initial) = []"
proof -
  have "gs_depends_on (snd x) = None \<and> gs_consumes (snd x) = ConsNone \<and> gs_when (snd x) = JUndef"
    if "x \<in> set (enumerate 0 steps)" for x
    using assms(1) that by (cases x)
      (auto simp: has_explicit_graph_def list_ex_iff_ex_set in_set_enumerate_eq)
  from legacy_steps [OF this]
  have "fold (step_part ids ps nested initial) (enumerate 0 steps) st = st" for ids ps nested st by blast
  then show "fst (derive_edges steps initial) = chain_edges (step_ids steps) (length steps)"
    and "snd (derive_edges steps initial) = []"
    using assms implicit_chain [OF assms, of "length steps"]
    by (simp_all add: derive_edges_def Let_def case_prod_beta duplicate_errors_empty)
qed

lemma chain_acyclic:
  assumes "distinct ids"
  shows "acyclic (edge_rel (chain_edges ids (length ids)))"
proof (rule acyclic_if_topological)
  show "\<forall>xs i ys. ids = xs @ i # ys \<longrightarrow>
      (\<forall>e\<in>set (chain_edges ids (length ids)). ge_to e = i \<longrightarrow> ge_from e \<in> set xs)"
  proof (intro allI impI ballI)
    fix xs i ys e
    assume ids: "ids = xs @ i # ys" and e: "e \<in> set (chain_edges ids (length ids))" "ge_to e = i"
    from e obtain k where k: "1 \<le> k" "k < length ids" "ge_from e = ids ! (k - 1)" "ids ! k = i"
      by (auto simp: chain_edges_def)
    have "ids ! length xs = ids ! k" "length xs < length ids" using ids k by simp_all
    then have "k = length xs" using assms k(2) by (simp add: nth_eq_iff_index_eq)
    with k ids show "ge_from e \<in> set xs" by (auto simp: nth_append)
  qed
  show "\<forall>e\<in>set (chain_edges ids (length ids)). ge_to e \<in> set ids"
    by (auto simp: chain_edges_def)
qed (rule assms)

section \<open>Properties\<close>

text \<open>The validation errors of a graph are exactly: a duplicate identifier, a dependency on an
  unknown node, a consumed channel that no step, nested step or initial channel provides, a
  \<open>depends_on\<close> on a step without an id, and the verdict of the cycle check. An empty error list
  therefore means that every reference of the pipeline resolves.\<close>

lemma derive_no_errors_iff:
  "snd (deriveExecutionGraph steps initial) = [] \<longleftrightarrow>
     distinct (step_ids steps) \<and>
     (\<forall>step\<in>set steps.
        (gs_depends_on step \<noteq> None \<longrightarrow> truthy_opt (gs_id step)) \<and>
        (\<forall>ds d. gs_depends_on step = Some ds \<and> d \<in> set ds \<longrightarrow> d \<in> set (step_ids steps)) \<and>
        (\<forall>c\<in>set (channels (gs_consumes step)).
           get_producers (producers_of (zip steps (step_ids steps))) c \<noteq> [] \<or>
           c \<in> set (nested_produced steps) \<or> c \<in> set initial)) \<and>
     \<not> has_cycle_error (derive_nodes steps (fst (derive_edges steps initial)))
         (fst (derive_edges steps initial))"
proof -
  let ?ps = "producers_of (zip steps (step_ids steps))"
  have "step_errors ids ps nested initial x = [] \<longleftrightarrow>
      (gs_depends_on (snd x) \<noteq> None \<longrightarrow> truthy_opt (gs_id (snd x))) \<and>
      missing_dependencies ids (snd x) = [] \<and> missing_channels ps nested initial (snd x) = []" for ids ps nested x
    by (simp add: step_errors_def case_prod_beta)
  then have "(\<forall>x\<in>set (enumerate 0 steps). step_errors ids ps nested initial x = []) \<longleftrightarrow>
      (\<forall>step\<in>set steps. (gs_depends_on step \<noteq> None \<longrightarrow> truthy_opt (gs_id step)) \<and>
        missing_dependencies ids step = [] \<and> missing_channels ps nested initial step = [])" for ids ps nested
    by (simp only: ball_enumerate_snd [where P = "\<lambda>step. (gs_depends_on step \<noteq> None \<longrightarrow> truthy_opt (gs_id step)) \<and>
        missing_dependencies ids step = [] \<and> missing_channels ps nested initial step = []"])
  then have "snd (derive_edges steps initial) = [] \<longleftrightarrow> distinct (step_ids steps) \<and>
      (\<forall>step\<in>set steps. (gs_depends_on step \<noteq> None \<longrightarrow> truthy_opt (gs_id step)) \<and>
        missing_dependencies (step_ids steps) step = [] \<and>
        missing_channels ?ps (nested_produced steps) initial step = [])"
    by (simp add: derive_errors duplicate_errors_empty)
  then show ?thesis
    by (auto simp: derive_unfold Let_def missing_dependencies_def missing_channels_def
        filter_empty_conv split: option.splits)
qed

text \<open>C24. The cycle check: on a pipeline with distinct identifiers it never rejects an acyclic
  graph, and when no two edges connect the same pair of nodes it accepts only acyclic graphs.\<close>

theorem derive_cycle_check:
  assumes "distinct (step_ids steps)"
    and "deriveExecutionGraph steps initial = (graph, errors)"
  shows "(acyclic (edge_rel (eg_edges graph)) \<longrightarrow> Cycle \<notin> set errors) \<and>
         (no_parallel_edges (eg_edges graph) \<and> Cycle \<notin> set errors \<longrightarrow> acyclic (edge_rel (eg_edges graph)))"
proof -
  define E where "E = fst (derive_edges steps initial)"
  have "eg_edges graph = E" "Cycle \<in> set errors \<longleftrightarrow> has_cycle_error (derive_nodes steps E) E"
    using assms(2) no_other_Cycle by (auto simp: E_def derive_unfold Let_def split: if_splits)
  with derive_nodes_wf [OF assms(1), of initial] show ?thesis
    using acyclic_no_cycle_error no_cycle_error_acyclic by (auto simp: E_def)
qed

definition plain_step :: "string \<Rightarrow> graph_step" where
  "plain_step i = \<lparr>gs_id = Some i, gs_depends_on = None, gs_produces = JUndef, gs_consumes = ConsNone,
    gs_when = JUndef, gs_merge = None, gs_params = JUndef, gs_timeout_ms = JUndef\<rparr>"

definition self_dependent_pipeline :: "graph_step list" where
  "self_dependent_pipeline =
    [(plain_step ''fetch'')\<lparr>gs_produces := JStr ''page''\<rparr>,
     (plain_step ''parse'')\<lparr>gs_depends_on := Some [''fetch'', ''parse''], gs_consumes := ConsOne ''page''\<rparr>]"

text \<open>Parallel edges defeat the cycle check: a step that depends on its predecessor and on
  itself, and also consumes a channel of the predecessor, is accepted without an error although its
  node depends on itself (the count of distinct predecessors is lowered once per edge).\<close>

theorem derive_misses_cycle_with_parallel_edges:
  "snd (deriveExecutionGraph self_dependent_pipeline []) = [] \<and>
   map (\<lambda>n. (gn_id n, gn_dependencies n)) (eg_nodes (fst (deriveExecutionGraph self_dependent_pipeline []))) =
     [(''fetch'', []), (''parse'', [''fetch'', ''parse''])] \<and>
   \<not> acyclic (edge_rel (eg_edges (fst (deriveExecutionGraph self_dependent_pipeline []))))"
proof -
  have "control_edge ''parse'' ''parse'' \<in> set (eg_edges (fst (deriveExecutionGraph self_dependent_pipeline [])))"
    by code_simp
  then have "(''parse'', ''parse'') \<in> edge_rel (eg_edges (fst (deriveExecutionGraph self_dependent_pipeline [])))"
    by (force simp: edge_rel_def)
  then have "\<not> acyclic (edge_rel (eg_edges (fst (deriveExecutionGraph self_dependent_pipeline []))))"
    by (auto simp: acyclic_def)
  moreover have "snd (deriveExecutionGraph self_dependent_pipeline []) = []" by code_simp
  moreover have "map (\<lambda>n. (gn_id n, gn_dependencies n))
      (eg_nodes (fst (deriveExecutionGraph self_dependent_pipeline []))) =
     [(''fetch'', []), (''parse'', [''fetch'', ''parse''])]" by code_simp
  ultimately show ?thesis by blast
qed

text \<open>A pipeline without any graph declaration stays a strict linear chain: its edges are one
  control edge from each step to the next, and the graph is valid.\<close>

theorem legacy_pipeline_is_a_chain:
  assumes "\<not> has_explicit_graph steps" and "distinct (step_ids steps)"
  shows "eg_edges (fst (deriveExecutionGraph steps initial)) =
           map (\<lambda>k. control_edge (step_ids steps ! (k - 1)) (step_ids steps ! k)) [1..<length steps] \<and>
         snd (deriveExecutionGraph steps initial) = []"
  using chain_acyclic [OF assms(2)] acyclic_no_cycle_error [OF derive_nodes_wf [OF assms(2), of initial]]
  by (simp add: derive_unfold Let_def legacy_edges [OF assms]) (simp add: chain_edges_def)

section \<open>Concrete pipelines\<close>

theorem derive_no_errors_iff_witness:
  "distinct (step_ids [plain_step ''a'', plain_step ''b''])"
proof -
  have "snd (deriveExecutionGraph [plain_step ''a'', plain_step ''b''] []) = []" by code_simp
  from derive_no_errors_iff [THEN iffD1, OF this] show ?thesis by (rule conjunct1)
qed

theorem derive_cycle_check_witness:
  "Cycle \<notin> set (snd (deriveExecutionGraph [plain_step ''a'', plain_step ''b''] [])) \<and>
   acyclic (edge_rel (eg_edges (fst (deriveExecutionGraph [plain_step ''a'', plain_step ''b''] []))))"
proof -
  have dist: "distinct (step_ids [plain_step ''a'', plain_step ''b''])" by code_simp
  have np: "no_parallel_edges (eg_edges (fst (deriveExecutionGraph [plain_step ''a'', plain_step ''b''] [])))"
    by code_simp
  have "Cycle \<notin> set (snd (deriveExecutionGraph [plain_step ''a'', plain_step ''b''] []))" by code_simp
  with np derive_cycle_check [OF dist, of "[]"] show ?thesis by (metis prod.collapse)
qed

theorem legacy_pipeline_is_a_chain_witness:
  "eg_edges (fst (deriveExecutionGraph [plain_step ''a'', plain_step ''b'', plain_step ''c''] [])) =
     [control_edge ''a'' ''b'', control_edge ''b'' ''c'']"
proof -
  have ids: "step_ids [plain_step ''a'', plain_step ''b'', plain_step ''c''] = [''a'', ''b'', ''c'']"
    by code_simp
  have legacy: "\<not> has_explicit_graph [plain_step ''a'', plain_step ''b'', plain_step ''c'']"
    by code_simp
  have dist: "distinct (step_ids [plain_step ''a'', plain_step ''b'', plain_step ''c''])"
    by (simp add: ids)
  from legacy_pipeline_is_a_chain [OF legacy dist, of "[]"] show ?thesis
    by (simp add: ids upt_rec)
qed

end
