(* ===== verification/Graph_Run.thy ===== *)
theory Graph_Run
  imports Graph_Derive "HOL-Library.Multiset"
begin

text \<open>
  \<open>executeGraph\<close> of \<open>src/libs/core/graph-scheduler.ts\<close>: the completion-driven
  execution of a graph. One pass over the nodes (a sweep) skips or starts every node that may
  move; then the scheduler waits for any one of the active nodes. Which of them finishes, and with
  what outcome, is the nondeterminism of the step relation; the handlers, the claims of a node,
  the evaluation of a condition and the merge of contexts are parameters. Contexts are JSON
  values, \<open>JUndef\<close> an absent one. Observers (\<open>onNodeSettled\<close>), durations and the
  delegation slot around a handler are not modelled; the keys of \<open>startedAt\<close> are, as the list
  of nodes whose handler was called.
\<close>

section \<open>Claims of graph nodes\<close>

datatype graph_claim = StringClaim string | TypedClaim resource_claim

fun claimsConflict :: "graph_claim \<Rightarrow> graph_claim \<Rightarrow> bool" where
  "claimsConflict (StringClaim l) (StringClaim r) =
    (l = r \<or> l = ''resource:all'' \<or> r = ''resource:all'')"
| "claimsConflict (StringClaim l) (TypedClaim r) = True"
| "claimsConflict (TypedClaim l) (StringClaim r) = True"
| "claimsConflict (TypedClaim l) (TypedClaim r) = resourceClaimsConflict l r"

definition canClaim :: "graph_claim list \<Rightarrow> graph_claim list \<Rightarrow> bool" where
  "canClaim claims inUse = list_all (\<lambda>claim. list_all (\<lambda>u. \<not> claimsConflict claim u) inUse) claims"

section \<open>State\<close>

datatype node_status = Pending | NodeRunning | Success | Failed | Skipped

datatype outcome_status = OSuccess | OFailed | OSkipped

record graph_outcome =
  go_status :: outcome_status
  go_context :: json
  go_error :: "string option"

record graph_options =
  op_maxConcurrency :: "rat option"
  op_initialContext :: json
  op_precompleted :: "ident list"
  op_precompletedContext :: "(graph_node \<Rightarrow> json) option"
  op_preskipped :: "ident list"
  op_evaluateWhen :: "(json \<Rightarrow> json \<Rightarrow> bool) option"
  op_resourceClaims :: "(graph_node \<Rightarrow> json \<Rightarrow> graph_claim list) option"
  op_mergeContext :: "(json \<Rightarrow> json \<Rightarrow> graph_node \<Rightarrow> graph_outcome \<Rightarrow> json) option"

record run_state =
  rs_context :: json
  rs_statuses :: "(ident, node_status) js_map"
  rs_outcomes :: "(ident, graph_outcome) js_map"
  rs_active :: "(ident, graph_claim list) js_map"
  rs_claimsInUse :: "graph_claim list"
  rs_startedAt :: "ident list"

definition run_limit :: "graph_options \<Rightarrow> nat" where
  "run_limit opts =
    (let m = (case op_maxConcurrency opts of None \<Rightarrow> 1 | Some r \<Rightarrow> if r = 0 then 1 else r)
     in nat (max 1 \<lfloor>m\<rfloor>))"

section \<open>Contexts\<close>

text \<open>The own enumerable entries of a value, as object spread copies them.\<close>

definition js_entries :: "json \<Rightarrow> (string \<times> json) list" where
  "js_entries v = (case v of
      JObj kvs \<Rightarrow> kvs
    | JArr xs \<Rightarrow> map (\<lambda>(i, x). (show_nat i, x)) (enumerate 0 xs)
    | JStr s \<Rightarrow> map (\<lambda>(i, c). (show_nat i, JStr [c])) (enumerate 0 s)
    | _ \<Rightarrow> [])"

definition js_assign :: "(string \<times> json) list \<Rightarrow> (string \<times> json) list \<Rightarrow> (string \<times> json) list" where
  "js_assign base new = fold (\<lambda>(k, v). AList.update k v) new base"

definition js_spread :: "json \<Rightarrow> json \<Rightarrow> json" where
  "js_spread a b = JObj (js_assign (js_assign [] (js_entries a)) (js_entries b))"

definition defaultMerge :: "json \<Rightarrow> json \<Rightarrow> json" where
  "defaultMerge current nxt =
    (if is_js_object current \<and> is_js_object nxt then js_spread current nxt else nxt)"

definition namespace_context :: "json \<Rightarrow> ident \<Rightarrow> json \<Rightarrow> json" where
  "namespace_context context i v = js_spread context (JObj [(i, v)])"

definition collect_context :: "json \<Rightarrow> ident \<Rightarrow> json \<Rightarrow> json" where
  "collect_context context i v =
    (let collected = (case jget context ''__graph_collect'' of JArr xs \<Rightarrow> xs | _ \<Rightarrow> [])
     in js_spread (js_spread context v)
          (JObj [(''__graph_collect'',
                  JArr (collected @ [JObj [(''node_id'', JStr i), (''context'', v)]]))]))"

text \<open>A node restored from the journal is merged without the collect policy; a node that
  completes in this run is merged with it.\<close>

definition merge_restored :: "graph_options \<Rightarrow> json \<Rightarrow> graph_node \<Rightarrow> graph_outcome \<Rightarrow> json" where
  "merge_restored opts context node outcome =
    (case op_mergeContext opts of
       Some f \<Rightarrow> f context (go_context outcome) node outcome
     | None \<Rightarrow>
         if gn_merge node = Namespace then namespace_context context (gn_id node) (go_context outcome)
         else defaultMerge context (go_context outcome))"

definition merge_completed :: "graph_options \<Rightarrow> json \<Rightarrow> graph_node \<Rightarrow> graph_outcome \<Rightarrow> json" where
  "merge_completed opts context node outcome =
    (case op_mergeContext opts of
       Some f \<Rightarrow> f context (go_context outcome) node outcome
     | None \<Rightarrow>
         (case gn_merge node of
            Namespace \<Rightarrow> namespace_context context (gn_id node) (go_context outcome)
          | Collect \<Rightarrow> collect_context context (gn_id node) (go_context outcome)
          | LastWins \<Rightarrow> defaultMerge context (go_context outcome)))"

section \<open>Initial state\<close>

definition find_node :: "graph_node list \<Rightarrow> ident \<Rightarrow> graph_node option" where
  "find_node nodes i = List.find (\<lambda>node. gn_id node = i) nodes"

definition restore_node :: "graph_options \<Rightarrow> graph_node list \<Rightarrow> ident \<Rightarrow> run_state \<Rightarrow> run_state" where
  "restore_node opts nodes i s =
    (if map_of (rs_statuses s) i = Some Pending then
       let restored = find_node nodes i;
           ctx = (case (restored, op_precompletedContext opts) of
                    (Some node, Some f) \<Rightarrow> if jnullish (f node) then rs_context s else f node
                  | _ \<Rightarrow> rs_context s);
           outcome = \<lparr>go_status = OSuccess, go_context = ctx, go_error = None\<rparr>
       in s\<lparr>rs_statuses := AList.update i Success (rs_statuses s),
            rs_outcomes := AList.update i outcome (rs_outcomes s),
            rs_context :=
              (case restored of
                 Some node \<Rightarrow> if ctx \<noteq> JUndef then merge_restored opts (rs_context s) node outcome
                              else rs_context s
               | None \<Rightarrow> rs_context s)\<rparr>
     else s)"

definition preskip_node :: "ident \<Rightarrow> run_state \<Rightarrow> run_state" where
  "preskip_node i s =
    (if map_of (rs_statuses s) i = Some Pending then
       s\<lparr>rs_statuses := AList.update i Skipped (rs_statuses s),
         rs_outcomes := AList.update i
           \<lparr>go_status = OSkipped, go_context = JUndef, go_error = Some ''pre-existing blocked node''\<rparr>
           (rs_outcomes s)\<rparr>
     else s)"

definition run_init :: "graph_options \<Rightarrow> graph_node list \<Rightarrow> run_state" where
  "run_init opts nodes =
    (let s0 = \<lparr>rs_context = op_initialContext opts,
               rs_statuses = fold (\<lambda>node. AList.update (gn_id node) Pending) nodes [],
               rs_outcomes = [], rs_active = [], rs_claimsInUse = [], rs_startedAt = []\<rparr>
     in fold preskip_node (op_preskipped opts) (fold (restore_node opts nodes) (op_precompleted opts) s0))"

section \<open>The sweep\<close>

definition terminal :: "run_state \<Rightarrow> ident \<Rightarrow> bool" where
  "terminal s i = (map_of (rs_statuses s) i \<in> {Some Success, Some Failed, Some Skipped})"

definition skip_node :: "ident \<Rightarrow> string \<Rightarrow> run_state \<Rightarrow> run_state" where
  "skip_node i why s =
    s\<lparr>rs_statuses := AList.update i Skipped (rs_statuses s),
      rs_outcomes := AList.update i
        \<lparr>go_status = OSkipped, go_context = JUndef, go_error = Some why\<rparr> (rs_outcomes s)\<rparr>"

definition start_node :: "ident \<Rightarrow> graph_claim list \<Rightarrow> run_state \<Rightarrow> run_state" where
  "start_node i claims s =
    s\<lparr>rs_statuses := AList.update i NodeRunning (rs_statuses s),
      rs_startedAt := rs_startedAt s @ [i],
      rs_claimsInUse := rs_claimsInUse s @ claims,
      rs_active := AList.update i claims (rs_active s)\<rparr>"

definition sweep_node :: "graph_options \<Rightarrow> graph_node \<Rightarrow> run_state \<times> bool \<Rightarrow> run_state \<times> bool" where
  "sweep_node opts node = (\<lambda>(s, progressed).
    if map_of (rs_statuses s) (gn_id node) \<noteq> Some Pending \<or> length (rs_active s) \<ge> run_limit opts
    then (s, progressed)
    else if \<not> list_all (terminal s) (gn_dependencies node) then (s, progressed)
    else if list_ex (\<lambda>d. map_of (rs_statuses s) d \<in> {Some Failed, Some Skipped}) (gn_dependencies node)
    then (skip_node (gn_id node) ''blocked by a failed or skipped dependency'' s, True)
    else if gn_when node \<noteq> JUndef \<and>
            (case op_evaluateWhen opts of None \<Rightarrow> False | Some ev \<Rightarrow> \<not> ev (gn_when node) (rs_context s))
    then (skip_node (gn_id node) ''when condition evaluated to false'' s, True)
    else
      let claims = (case op_resourceClaims opts of None \<Rightarrow> [] | Some f \<Rightarrow> f node (rs_context s))
      in if \<not> canClaim claims (rs_claimsInUse s) then (s, progressed)
         else (start_node (gn_id node) claims s, True))"

definition sweep :: "graph_options \<Rightarrow> graph_node list \<Rightarrow> run_state \<Rightarrow> run_state \<times> bool" where
  "sweep opts nodes s = fold (sweep_node opts) nodes (s, False)"

section \<open>Completion of an active node\<close>

datatype handler_result = Returned graph_outcome | Threw string | Suspended

fun release_claims :: "graph_claim list \<Rightarrow> graph_claim list \<Rightarrow> graph_claim list" where
  "release_claims [] inUse = inUse"
| "release_claims (c # cs) inUse = release_claims cs (remove1 c inUse)"

fun status_of_outcome :: "outcome_status \<Rightarrow> node_status" where
  "status_of_outcome OSuccess = Success"
| "status_of_outcome OFailed = Failed"
| "status_of_outcome OSkipped = Skipped"

definition settle_node ::
  "graph_options \<Rightarrow> graph_node list \<Rightarrow> ident \<Rightarrow> graph_outcome \<Rightarrow> run_state \<Rightarrow> run_state" where
  "settle_node opts nodes i outcome s =
    (let claims = (case map_of (rs_active s) i of Some cs \<Rightarrow> cs | None \<Rightarrow> []) in
     s\<lparr>rs_active := AList.delete i (rs_active s),
       rs_claimsInUse := release_claims claims (rs_claimsInUse s),
       rs_statuses := AList.update i (status_of_outcome (go_status outcome)) (rs_statuses s),
       rs_outcomes := AList.update i outcome (rs_outcomes s),
       rs_context :=
         (if go_context outcome \<noteq> JUndef then
            (case find_node nodes i of
               Some node \<Rightarrow> merge_completed opts (rs_context s) node outcome
             | None \<Rightarrow> rs_context s)
          else rs_context s)\<rparr>)"

section \<open>The loop\<close>

definition unfinished :: "run_state \<Rightarrow> bool" where
  "unfinished s = list_ex (\<lambda>st. st = Pending \<or> st = NodeRunning) (map snd (rs_statuses s))"

datatype graph_run = Going run_state | Finished run_state | Deadlocked | SuspendedRun

text \<open>One iteration of the loop: the sweep, then either the deadlock error, the next iteration, or
  the completion \<open>(i, r)\<close> of one active node.\<close>

definition run_iteration ::
  "graph_options \<Rightarrow> graph_node list \<Rightarrow> run_state \<Rightarrow> ident \<times> handler_result \<Rightarrow> graph_run option" where
  "run_iteration opts nodes s completion =
    (if \<not> unfinished s then Some (Finished s)
     else
       let (s1, progressed) = sweep opts nodes s
       in if rs_active s1 = [] then Some (if progressed then Going s1 else Deadlocked)
          else if fst completion \<in> set (map fst (rs_active s1)) then
            Some (case snd completion of
                Returned outcome \<Rightarrow> Going (settle_node opts nodes (fst completion) outcome s1)
              | Threw msg \<Rightarrow> Going (settle_node opts nodes (fst completion)
                    \<lparr>go_status = OFailed, go_context = JUndef, go_error = Some msg\<rparr> s1)
              | Suspended \<Rightarrow> SuspendedRun)
          else None)"

inductive graph_reachable :: "graph_options \<Rightarrow> graph_node list \<Rightarrow> graph_run \<Rightarrow> bool" for opts nodes where
  run_start: "graph_reachable opts nodes (Going (run_init opts nodes))"
| run_next: "graph_reachable opts nodes (Going s) \<Longrightarrow> run_iteration opts nodes s c = Some r \<Longrightarrow>
    graph_reachable opts nodes r"

fun run_completions ::
  "graph_options \<Rightarrow> graph_node list \<Rightarrow> graph_run \<Rightarrow> (ident \<times> handler_result) list \<Rightarrow> graph_run option" where
  "run_completions opts nodes r [] = Some r"
| "run_completions opts nodes (Going s) (c # cs) =
    (case run_iteration opts nodes s c of None \<Rightarrow> None | Some r \<Rightarrow> run_completions opts nodes r cs)"
| "run_completions opts nodes r (c # cs) = None"

end
