(* ===== verification/Graph_Run_Props.thy ===== *)
theory Graph_Run_Props
  imports Graph_Run
begin

text \<open>
  Properties of the graph scheduler (theory \<open>Graph_Run\<close>): the invariant of a run, the
  measure that every iteration lowers, the absence of deadlock on acyclic graphs, and the deadlock
  that the missed cycle of theory \<open>Graph_Derive\<close> leads to.
\<close>

section \<open>Claims in use\<close>

lemma claimsConflict_commute: "claimsConflict a b = claimsConflict b a"
  by (cases a; cases b) (auto simp: resourceClaimsConflict_commute)

interpretation graph_claims: conflict_relation claimsConflict
  by unfold_locales (rule claimsConflict_commute)

lemma canClaim_iff: "canClaim claims inUse \<longleftrightarrow> \<not> lists_conflict claimsConflict claims inUse"
  by (auto simp: canClaim_def lists_conflict_def list_all_iff)

lemma canClaim_Nil [simp]: "canClaim claims []"
  by (simp add: canClaim_def list_all_iff)

lemma mset_release_claims:
  "mset (release_claims cs inUse) = mset inUse - mset cs"
  by (induction cs inUse rule: release_claims.induct) simp_all

definition active_claims :: "(ident, graph_claim list) js_map \<Rightarrow> ident \<Rightarrow> graph_claim list" where
  "active_claims active i = (case map_of active i of Some cs \<Rightarrow> cs | None \<Rightarrow> [])"

lemma active_claims_update [simp]:
  "active_claims (AList.update i cs active) j = (if j = i then cs else active_claims active j)"
  by (simp add: active_claims_def js_map_simps)

lemma active_claims_delete:
  "j \<noteq> i \<Longrightarrow> active_claims (AList.delete i active) j = active_claims active j"
  by (simp add: active_claims_def js_map_simps)

lemma update_fresh: "i \<notin> set (map fst m) \<Longrightarrow> AList.update i v m = m @ [(i, v)]"
  by (induction m) auto

lemma mset_concat_delete:
  assumes "distinct (map fst m)" and "map_of m i = Some cs"
  shows "mset (concat (map snd m)) = mset cs + mset (concat (map snd (AList.delete i m)))"
  using assms
proof (induction m)
  case (Cons p m)
  show ?case
  proof (cases "fst p = i")
    case True
    with Cons.prems have "i \<notin> set (map fst m)" "snd p = cs" by auto
    then have "AList.delete i m = m" by (simp add: delete_id)
    with True \<open>snd p = cs\<close> show ?thesis by (cases p) simp
  next
    case False
    with Cons have "mset (concat (map snd m)) = mset cs + mset (concat (map snd (AList.delete i m)))"
      by (cases p) auto
    with False show ?thesis by (cases p) simp
  qed
qed simp

lemma length_delete_key:
  assumes "distinct (map fst m)" and "i \<in> set (map fst m)"
  shows "Suc (length (AList.delete i m)) = length m"
  using assms
proof (induction m)
  case (Cons p m)
  then show ?case by (cases p) (auto simp: delete_id)
qed simp

section \<open>The invariant\<close>

definition claims_ok :: "run_state \<Rightarrow> bool" where
  "claims_ok s \<longleftrightarrow>
    distinct (map fst (rs_active s)) \<and>
    mset (rs_claimsInUse s) = mset (concat (map snd (rs_active s))) \<and>
    exclusive claimsConflict (active_claims (rs_active s)) (set (map fst (rs_active s)))"

definition status_ok :: "graph_node list \<Rightarrow> run_state \<Rightarrow> bool" where
  "status_ok nodes s \<longleftrightarrow>
    distinct (map fst (rs_statuses s)) \<and>
    set (map fst (rs_statuses s)) = gn_id ` set nodes \<and>
    (\<forall>i. i \<in> set (map fst (rs_active s)) \<longleftrightarrow> map_of (rs_statuses s) i = Some NodeRunning)"

definition started_ok :: "graph_node list \<Rightarrow> run_state \<Rightarrow> bool" where
  "started_ok nodes s \<longleftrightarrow>
    distinct (rs_startedAt s) \<and>
    (\<forall>i\<in>set (rs_startedAt s). map_of (rs_statuses s) i \<noteq> Some Pending) \<and>
    (\<forall>i. map_of (rs_statuses s) i = Some NodeRunning \<longrightarrow> i \<in> set (rs_startedAt s)) \<and>
    (\<forall>node\<in>set nodes. gn_id node \<in> set (rs_startedAt s) \<longrightarrow>
       (\<forall>d\<in>set (gn_dependencies node). map_of (rs_statuses s) d = Some Success))"

definition run_ok :: "graph_options \<Rightarrow> graph_node list \<Rightarrow> run_state \<Rightarrow> bool" where
  "run_ok opts nodes s \<longleftrightarrow>
    claims_ok s \<and> status_ok nodes s \<and> started_ok nodes s \<and> length (rs_active s) \<le> run_limit opts"

lemma run_okD:
  assumes "run_ok opts nodes s"
  shows "claims_ok s" and "status_ok nodes s" and "started_ok nodes s"
    and "length (rs_active s) \<le> run_limit opts"
  using assms by (simp_all add: run_ok_def)

lemma status_okD:
  assumes "status_ok nodes s"
  shows "distinct (map fst (rs_statuses s))"
    and "set (map fst (rs_statuses s)) = gn_id ` set nodes"
    and "i \<in> set (map fst (rs_active s)) \<longleftrightarrow> map_of (rs_statuses s) i = Some NodeRunning"
  using assms unfolding status_ok_def by blast+

lemma started_okD:
  assumes "started_ok nodes s"
  shows "distinct (rs_startedAt s)"
    and "i \<in> set (rs_startedAt s) \<Longrightarrow> map_of (rs_statuses s) i \<noteq> Some Pending"
    and "map_of (rs_statuses s) i = Some NodeRunning \<Longrightarrow> i \<in> set (rs_startedAt s)"
    and "node \<in> set nodes \<Longrightarrow> gn_id node \<in> set (rs_startedAt s) \<Longrightarrow> d \<in> set (gn_dependencies node) \<Longrightarrow>
      map_of (rs_statuses s) d = Some Success"
  using assms unfolding started_ok_def by blast+

lemma keys_update_known:
  "i \<in> set (map fst m) \<Longrightarrow> set (map fst (AList.update i v m)) = set (map fst m)"
  by (auto simp: js_update_keys)

lemma status_known: "map_of m i = Some x \<Longrightarrow> i \<in> set (map fst m)"
  by (metis map_of_eq_None_iff list.set_map option.distinct(1))

lemma status_ok_update:
  assumes ok: "status_ok nodes s" and i: "map_of (rs_statuses s) i = Some old"
    and s': "rs_statuses s' = AList.update i st (rs_statuses s)"
    and act: "\<And>j. j \<in> set (map fst (rs_active s')) \<longleftrightarrow>
      (if j = i then st = NodeRunning else j \<in> set (map fst (rs_active s)))"
  shows "status_ok nodes s'"
  unfolding status_ok_def s'
proof (intro conjI allI)
  show "distinct (map fst (AList.update i st (rs_statuses s)))"
    by (rule distinct_keys_update [OF status_okD(1) [OF ok]])
  show "set (map fst (AList.update i st (rs_statuses s))) = gn_id ` set nodes"
    by (simp only: keys_update_known [OF status_known [OF i]] status_okD(2) [OF ok])
  show "j \<in> set (map fst (rs_active s')) \<longleftrightarrow>
      map_of (AList.update i st (rs_statuses s)) j = Some NodeRunning" for j
    using status_okD(3) [OF ok, of j] by (simp only: act js_map_simps) auto
qed

text \<open>Skipping a pending node.\<close>

lemma skip_node_ok:
  assumes ok: "run_ok opts nodes s" and i: "map_of (rs_statuses s) i = Some Pending"
  shows "run_ok opts nodes (skip_node i why s)"
proof -
  note st = status_okD [OF run_okD(2) [OF ok]] and sa = started_okD [OF run_okD(3) [OF ok]]
  have "status_ok nodes (skip_node i why s)"
    using st(3) i by (intro status_ok_update [OF run_okD(2) [OF ok] i]) (auto simp: skip_node_def)
  moreover have "started_ok nodes (skip_node i why s)"
    unfolding started_ok_def
  proof (intro conjI ballI allI impI)
    fix node d assume "node \<in> set nodes" "gn_id node \<in> set (rs_startedAt (skip_node i why s))"
      "d \<in> set (gn_dependencies node)"
    then have "map_of (rs_statuses s) d = Some Success" using sa(4) by (simp add: skip_node_def)
    with i show "map_of (rs_statuses (skip_node i why s)) d = Some Success"
      by (auto simp: skip_node_def js_map_simps)
  qed (use sa in \<open>auto simp: skip_node_def js_map_simps split: if_splits\<close>)
  moreover have "claims_ok (skip_node i why s)"
    using run_okD(1) [OF ok] by (simp add: claims_ok_def skip_node_def)
  ultimately show ?thesis
    using run_okD(4) [OF ok] by (simp add: run_ok_def skip_node_def)
qed

text \<open>Starting a pending node whose dependencies have succeeded and whose claims are free.\<close>

lemma claims_ok_start:
  assumes ok: "claims_ok s" and fresh: "i \<notin> set (map fst (rs_active s))"
    and free: "canClaim claims (rs_claimsInUse s)"
  shows "claims_ok (start_node i claims s)"
proof -
  have keys: "set (map fst (AList.update i claims (rs_active s))) = insert i (set (map fst (rs_active s)))"
    by (auto simp: js_update_keys)
  have same: "active_claims (AList.update i claims (rs_active s)) j = active_claims (rs_active s) j"
    if "j \<in> set (map fst (rs_active s))" for j
    using that fresh by auto
  have "set (active_claims (rs_active s) j) \<subseteq> set (rs_claimsInUse s)"
    if "j \<in> set (map fst (rs_active s))" for j
  proof -
    from that obtain cs where cs: "map_of (rs_active s) j = Some cs"
      by (cases "map_of (rs_active s) j") (auto simp: map_of_eq_None_iff)
    then have "set cs \<subseteq> set (concat (map snd (rs_active s)))"
      by (force dest: map_of_SomeD)
    moreover have "set (concat (map snd (rs_active s))) = set (rs_claimsInUse s)"
      using ok unfolding claims_ok_def by (metis set_mset_mset)
    ultimately show ?thesis using cs by (simp add: active_claims_def)
  qed
  then have "\<not> lists_conflict claimsConflict claims (active_claims (rs_active s) j)"
    if "j \<in> set (map fst (rs_active s))" for j
    using that free by (fastforce simp: canClaim_iff lists_conflict_def)
  moreover have "exclusive claimsConflict (active_claims (AList.update i claims (rs_active s)))
      (set (map fst (rs_active s)))"
    unfolding exclusive_def
  proof (intro ballI impI)
    fix a b assume "a \<in> set (map fst (rs_active s))" "b \<in> set (map fst (rs_active s))" "a \<noteq> b"
    with ok same show "\<not> lists_conflict claimsConflict
        (active_claims (AList.update i claims (rs_active s)) a)
        (active_claims (AList.update i claims (rs_active s)) b)"
      unfolding claims_ok_def by (metis exclusiveD)
  qed
  ultimately have "exclusive claimsConflict (active_claims (AList.update i claims (rs_active s)))
      (insert i (set (map fst (rs_active s))))"
    using same by (intro graph_claims.exclusive_insert) auto
  with ok fresh keys show ?thesis
    by (simp add: claims_ok_def start_node_def update_fresh)
qed

lemma start_node_ok:
  assumes ok: "run_ok opts nodes s" and node: "node \<in> set nodes" and dist: "distinct (map gn_id nodes)"
    and i: "map_of (rs_statuses s) (gn_id node) = Some Pending"
    and room: "length (rs_active s) < run_limit opts"
    and deps: "\<forall>d\<in>set (gn_dependencies node). map_of (rs_statuses s) d = Some Success"
    and free: "canClaim claims (rs_claimsInUse s)"
  shows "run_ok opts nodes (start_node (gn_id node) claims s)"
proof -
  let ?i = "gn_id node" and ?s = "start_node (gn_id node) claims s"
  note st = status_okD [OF run_okD(2) [OF ok]] and sa = started_okD [OF run_okD(3) [OF ok]]
  have fresh: "?i \<notin> set (map fst (rs_active s))" using st(3) i by simp
  have stat: "map_of (rs_statuses ?s) j = (if j = ?i then Some NodeRunning else map_of (rs_statuses s) j)" for j
    by (simp add: start_node_def js_map_simps)
  have "status_ok nodes ?s"
    by (intro status_ok_update [OF run_okD(2) [OF ok] i]) (auto simp: start_node_def js_update_keys)
  moreover have "started_ok nodes ?s"
    unfolding started_ok_def stat
  proof (intro conjI ballI allI impI)
    fix n d assume n: "n \<in> set nodes" "gn_id n \<in> set (rs_startedAt ?s)" "d \<in> set (gn_dependencies n)"
    have "map_of (rs_statuses s) d = Some Success"
    proof (cases "gn_id n = ?i")
      case True
      with n(1) node dist have "n = node" by (auto simp: distinct_map inj_on_def)
      with deps n(3) show ?thesis by simp
    next
      case False
      with n sa(4) show ?thesis by (simp add: start_node_def)
    qed
    with i show "(if d = ?i then Some NodeRunning else map_of (rs_statuses s) d) = Some Success" by auto
  qed (use sa i in \<open>auto simp: start_node_def split: if_splits\<close>)
  moreover have "length (rs_active ?s) \<le> run_limit opts"
    using room fresh by (simp add: start_node_def update_fresh)
  ultimately show ?thesis
    using claims_ok_start [OF run_okD(1) [OF ok] fresh free] by (simp add: run_ok_def)
qed

text \<open>Settling an active node.\<close>

lemma claims_ok_settle:
  assumes ok: "claims_ok s" and i: "map_of (rs_active s) i = Some cs"
    and s': "rs_active s' = AList.delete i (rs_active s)"
      "rs_claimsInUse s' = release_claims cs (rs_claimsInUse s)"
  shows "claims_ok s'"
proof -
  have dist: "distinct (map fst (rs_active s))"
    and use: "mset (rs_claimsInUse s) = mset (concat (map snd (rs_active s)))"
    and excl: "exclusive claimsConflict (active_claims (rs_active s)) (set (map fst (rs_active s)))"
    using ok unfolding claims_ok_def by blast+
  have keys: "set (map fst (AList.delete i (rs_active s))) = set (map fst (rs_active s)) - {i}"
    by (rule keys_delete)
  show ?thesis
    unfolding claims_ok_def s'
  proof (intro conjI)
    show "distinct (map fst (AList.delete i (rs_active s)))" by (rule distinct_keys_delete [OF dist])
    show "mset (release_claims cs (rs_claimsInUse s)) = mset (concat (map snd (AList.delete i (rs_active s))))"
      using mset_concat_delete [OF dist i] by (simp add: mset_release_claims use)
    show "exclusive claimsConflict (active_claims (AList.delete i (rs_active s)))
        (set (map fst (AList.delete i (rs_active s))))"
      unfolding exclusive_def keys
    proof (intro ballI impI)
      fix a b
      assume "a \<in> set (map fst (rs_active s)) - {i}" "b \<in> set (map fst (rs_active s)) - {i}" "a \<noteq> b"
      with exclusiveD [OF excl, of a b]
      show "\<not> lists_conflict claimsConflict (active_claims (AList.delete i (rs_active s)) a)
          (active_claims (AList.delete i (rs_active s)) b)"
        by (simp add: active_claims_delete)
    qed
  qed
qed

lemma settle_node_ok:
  assumes ok: "run_ok opts nodes s" and i: "i \<in> set (map fst (rs_active s))"
  shows "run_ok opts nodes (settle_node opts nodes i outcome s)"
proof -
  let ?s = "settle_node opts nodes i outcome s"
  note st = status_okD [OF run_okD(2) [OF ok]] and sa = started_okD [OF run_okD(3) [OF ok]]
  from i obtain cs where cs: "map_of (rs_active s) i = Some cs"
    by (cases "map_of (rs_active s) i") (auto simp: map_of_eq_None_iff)
  have run: "map_of (rs_statuses s) i = Some NodeRunning" using i st(3) by blast
  have s': "rs_active ?s = AList.delete i (rs_active s)"
    "rs_claimsInUse ?s = release_claims cs (rs_claimsInUse s)"
    "rs_statuses ?s = AList.update i (status_of_outcome (go_status outcome)) (rs_statuses s)"
    "rs_startedAt ?s = rs_startedAt s"
    by (simp_all add: settle_node_def cs Let_def)
  have fin: "status_of_outcome (go_status outcome) \<noteq> NodeRunning"
    "status_of_outcome (go_status outcome) \<noteq> Pending"
    by (cases "go_status outcome"; simp)+
  have stat: "map_of (rs_statuses ?s) j =
      (if j = i then Some (status_of_outcome (go_status outcome)) else map_of (rs_statuses s) j)" for j
    by (simp add: s' js_map_simps)
  have "status_ok nodes ?s"
    using fin by (intro status_ok_update [OF run_okD(2) [OF ok] run s'(3)]) (simp add: s' keys_delete del: set_map)
  moreover have "started_ok nodes ?s"
    unfolding started_ok_def stat s'(4)
  proof (intro conjI ballI allI impI)
    fix n d assume "n \<in> set nodes" "gn_id n \<in> set (rs_startedAt s)" "d \<in> set (gn_dependencies n)"
    then have "map_of (rs_statuses s) d = Some Success" by (rule sa(4))
    with run show "(if d = i then Some (status_of_outcome (go_status outcome))
        else map_of (rs_statuses s) d) = Some Success" by auto
  qed (use sa fin in \<open>auto split: if_splits\<close>)
  moreover have "length (rs_active ?s) \<le> run_limit opts"
    using run_okD(4) [OF ok] js_length_delete_le [of i "rs_active s"] by (simp add: s')
  ultimately show ?thesis
    using claims_ok_settle [OF run_okD(1) [OF ok] cs s'(1,2)] by (simp add: run_ok_def)
qed

section \<open>The sweep\<close>

lemma terminal_iff:
  "terminal s i \<longleftrightarrow> (\<exists>st. map_of (rs_statuses s) i = Some st \<and> st \<noteq> Pending \<and> st \<noteq> NodeRunning)"
proof (cases "map_of (rs_statuses s) i")
  case (Some st)
  then show ?thesis by (cases st) (auto simp: terminal_def)
qed (auto simp: terminal_def)

text \<open>What one node's turn in the sweep can do.\<close>

lemma sweep_node_cases [consumes 1, case_names idle skip start]:
  assumes "sweep_node opts node (s, p) = (s', p')"
  obtains "s' = s" "p' = p"
  | why where "map_of (rs_statuses s) (gn_id node) = Some Pending"
      "s' = skip_node (gn_id node) why s" "p'" "length (rs_active s) < run_limit opts"
  | claims where "map_of (rs_statuses s) (gn_id node) = Some Pending"
      "length (rs_active s) < run_limit opts"
      "\<forall>d\<in>set (gn_dependencies node). map_of (rs_statuses s) d = Some Success"
      "canClaim claims (rs_claimsInUse s)" "s' = start_node (gn_id node) claims s" "p'"
proof -
  have deps: "\<forall>d\<in>set (gn_dependencies node). map_of (rs_statuses s) d = Some Success"
    if "list_all (terminal s) (gn_dependencies node)"
      "\<not> list_ex (\<lambda>d. map_of (rs_statuses s) d \<in> {Some Failed, Some Skipped}) (gn_dependencies node)"
    using that by (auto simp: list_all_iff list_ex_iff terminal_def)
  define c1 where "c1 \<longleftrightarrow> map_of (rs_statuses s) (gn_id node) \<noteq> Some Pending \<or> run_limit opts \<le> length (rs_active s)"
  define c2 where "c2 \<longleftrightarrow> list_all (terminal s) (gn_dependencies node)"
  define c3 where "c3 \<longleftrightarrow>
    list_ex (\<lambda>d. map_of (rs_statuses s) d \<in> {Some Failed, Some Skipped}) (gn_dependencies node)"
  define c4 where "c4 \<longleftrightarrow> gn_when node \<noteq> JUndef \<and>
    (case op_evaluateWhen opts of None \<Rightarrow> False | Some ev \<Rightarrow> \<not> ev (gn_when node) (rs_context s))"
  define claims where "claims = (case op_resourceClaims opts of None \<Rightarrow> [] | Some f \<Rightarrow> f node (rs_context s))"
  have eq: "sweep_node opts node (s, p) =
    (if c1 then (s, p) else if \<not> c2 then (s, p)
     else if c3 then (skip_node (gn_id node) ''blocked by a failed or skipped dependency'' s, True)
     else if c4 then (skip_node (gn_id node) ''when condition evaluated to false'' s, True)
     else if \<not> canClaim claims (rs_claimsInUse s) then (s, p)
     else (start_node (gn_id node) claims s, True))"
    unfolding sweep_node_def case_prod_conv Let_def c1_def c2_def c3_def c4_def claims_def ..
  consider "c1 \<or> \<not> c2" | "\<not> c1" "c2" "c3" | "\<not> c1" "c2" "\<not> c3" "c4"
    | "\<not> c1" "c2" "\<not> c3" "\<not> c4" "\<not> canClaim claims (rs_claimsInUse s)"
    | "\<not> c1" "c2" "\<not> c3" "\<not> c4" "canClaim claims (rs_claimsInUse s)" by blast
  then show thesis
  proof cases
    case 1
    with assms eq have "s' = s" "p' = p" by (auto split: if_splits)
    then show thesis by (rule that(1))
  next
    case 2
    with assms eq have "s' = skip_node (gn_id node) ''blocked by a failed or skipped dependency'' s" "p'" by auto
    with 2 show thesis by (intro that(2)) (auto simp: c1_def)
  next
    case 3
    with assms eq have "s' = skip_node (gn_id node) ''when condition evaluated to false'' s" "p'" by auto
    with 3 show thesis by (intro that(2)) (auto simp: c1_def)
  next
    case 4
    with assms eq that(1) show thesis by auto
  next
    case 5
    with assms eq have "s' = start_node (gn_id node) claims s" "p'" by auto
    with 5 deps show thesis by (intro that(3)) (auto simp: c1_def c2_def c3_def)
  qed
qed

lemma sweep_node_ok:
  assumes "run_ok opts nodes s" and "node \<in> set nodes" and "distinct (map gn_id nodes)"
    and "sweep_node opts node (s, p) = (s', p')"
  shows "run_ok opts nodes s'"
  using assms(4)
proof (cases rule: sweep_node_cases)
  case (skip why)
  then show ?thesis using skip_node_ok [OF assms(1)] by simp
next
  case (start claims)
  then show ?thesis using start_node_ok [OF assms(1,2,3)] by simp
qed (use assms(1) in simp)

lemma sweep_ok:
  assumes "run_ok opts nodes s" and "distinct (map gn_id nodes)"
  shows "run_ok opts nodes (fst (sweep opts nodes s))"
proof -
  have "run_ok opts nodes (fst (fold (sweep_node opts) ns sp))"
    if "run_ok opts nodes (fst sp)" "set ns \<subseteq> set nodes" for ns sp
    using that
  proof (induction ns arbitrary: sp)
    case (Cons n ns)
    then have "run_ok opts nodes (fst (sweep_node opts n sp))"
      using sweep_node_ok [OF _ _ assms(2), of opts "fst sp" n "snd sp"]
      by (metis list.set_intros(1) prod.collapse subset_iff)
    with Cons show ?case by simp
  qed simp
  with assms(1) show ?thesis by (simp add: sweep_def)
qed

section \<open>Reachable states\<close>

lemma statuses_init:
  "map_of (fold (\<lambda>node. AList.update (gn_id node) Pending) nodes m) i =
     (if i \<in> gn_id ` set nodes then Some Pending else map_of m i)"
  by (induction nodes arbitrary: m) (auto simp: js_map_simps)

lemma statuses_init_keys:
  "set (map fst (fold (\<lambda>node. AList.update (gn_id node) Pending) nodes m)) =
     gn_id ` set nodes \<union> set (map fst m)"
proof (induction nodes arbitrary: m)
  case (Cons n nodes)
  have "set (map fst (AList.update (gn_id n) Pending m)) = insert (gn_id n) (set (map fst m))"
    by (auto simp: js_update_keys)
  with Cons.IH [of "AList.update (gn_id n) Pending m"] show ?case by (simp del: set_map)
qed simp

lemma statuses_init_distinct:
  "distinct (map fst m) \<Longrightarrow>
   distinct (map fst (fold (\<lambda>node. AList.update (gn_id node) Pending) nodes m))"
proof (induction nodes arbitrary: m)
  case (Cons n nodes)
  then show ?case using distinct_keys_update [of m "gn_id n" Pending] by simp
qed simp

text \<open>Before the loop nothing is active and nothing has started.\<close>

definition idle_ok :: "graph_node list \<Rightarrow> run_state \<Rightarrow> bool" where
  "idle_ok nodes s \<longleftrightarrow> status_ok nodes s \<and> rs_active s = [] \<and> rs_claimsInUse s = [] \<and> rs_startedAt s = []"

lemma idle_ok_mark:
  assumes "idle_ok nodes s" and "map_of (rs_statuses s) i = Some Pending" and "st \<noteq> NodeRunning"
    and "rs_statuses s' = AList.update i st (rs_statuses s)" and "rs_active s' = rs_active s"
    and "rs_claimsInUse s' = rs_claimsInUse s" and "rs_startedAt s' = rs_startedAt s"
  shows "idle_ok nodes s'"
proof -
  have "status_ok nodes s" using assms(1) by (simp add: idle_ok_def)
  then have "status_ok nodes s'"
    by (rule status_ok_update [OF _ assms(2,4)]) (use assms in \<open>simp add: idle_ok_def\<close>)
  with assms show ?thesis by (simp add: idle_ok_def)
qed

lemma restore_node_idle: "idle_ok nodes s \<Longrightarrow> idle_ok nodes (restore_node opts nodes i s)"
  by (cases "map_of (rs_statuses s) i = Some Pending")
    (auto simp: restore_node_def Let_def intro: idle_ok_mark [of nodes s i Success])

lemma preskip_node_idle: "idle_ok nodes s \<Longrightarrow> idle_ok nodes (preskip_node i s)"
  by (cases "map_of (rs_statuses s) i = Some Pending")
    (auto simp: preskip_node_def intro: idle_ok_mark [of nodes s i Skipped])

lemma run_init_idle: "idle_ok nodes (run_init opts nodes)"
proof -
  let ?s0 = "\<lparr>rs_context = op_initialContext opts,
    rs_statuses = fold (\<lambda>node. AList.update (gn_id node) Pending) nodes [],
    rs_outcomes = [], rs_active = [], rs_claimsInUse = [], rs_startedAt = []\<rparr>"
  have "idle_ok nodes ?s0"
    using statuses_init_distinct [of "[]" nodes] statuses_init_keys [of nodes "[]"]
    by (simp add: idle_ok_def status_ok_def statuses_init del: set_map)
  then have "idle_ok nodes (fold (restore_node opts nodes) xs ?s0)" for xs
    by (rule fold_invariant [where Q = "\<lambda>_. True", rotated]) (auto intro: restore_node_idle)
  then have "idle_ok nodes (fold preskip_node ys (fold (restore_node opts nodes) xs ?s0))" for xs ys
    by (rule fold_invariant [where Q = "\<lambda>_. True", rotated]) (auto intro: preskip_node_idle)
  then show ?thesis by (simp add: run_init_def)
qed

lemma idle_run_ok: "idle_ok nodes s \<Longrightarrow> run_ok opts nodes s"
  unfolding run_ok_def claims_ok_def started_ok_def
  using status_okD(3) [of nodes s] by (auto simp: idle_ok_def)

lemma run_iteration_ok:
  assumes ok: "run_ok opts nodes s" and dist: "distinct (map gn_id nodes)"
    and iter: "run_iteration opts nodes s c = Some (Going s')"
  shows "run_ok opts nodes s'"
proof -
  obtain s1 p where sw: "sweep opts nodes s = (s1, p)" by fastforce
  have ok1: "run_ok opts nodes s1" using sweep_ok [OF ok dist] sw by simp
  show ?thesis
  proof (cases "rs_active s1 = []")
    case True
    with iter sw ok1 show ?thesis by (auto simp: run_iteration_def split: if_splits)
  next
    case False
    with iter sw have c: "fst c \<in> set (map fst (rs_active s1))"
      and "\<exists>outcome. s' = settle_node opts nodes (fst c) outcome s1"
      by (auto simp: run_iteration_def split: if_splits handler_result.splits)
    with settle_node_ok [OF ok1 c] show ?thesis by auto
  qed
qed

lemma graph_reachable_ok:
  assumes "graph_reachable opts nodes (Going s)" and "distinct (map gn_id nodes)"
  shows "run_ok opts nodes s"
  using assms(1)
proof (induction "Going s" arbitrary: s rule: graph_reachable.induct)
  case run_start
  then show ?case by (simp add: idle_run_ok run_init_idle)
next
  case (run_next s c)
  then show ?case using run_iteration_ok [OF _ assms(2)] by blast
qed

section \<open>Termination\<close>

text \<open>A pending node counts two, a running one one.\<close>

fun status_weight :: "node_status \<Rightarrow> nat" where
  "status_weight Pending = 2"
| "status_weight NodeRunning = 1"
| "status_weight _ = 0"

definition run_weight :: "run_state \<Rightarrow> nat" where
  "run_weight s = sum_list (map (status_weight \<circ> snd) (rs_statuses s))"

lemma sum_list_update:
  assumes "distinct (map fst m)" and "map_of m i = Some old"
  shows "sum_list (map (f \<circ> snd) (AList.update i new m)) + f old = sum_list (map (f \<circ> snd) m) + (f new :: nat)"
  using assms
proof (induction m)
  case (Cons p m)
  then show ?case by (cases p) (auto split: if_splits)
qed simp

lemma run_weight_update:
  assumes ok: "status_ok nodes s" and "map_of (rs_statuses s) i = Some old"
    and "rs_statuses s' = AList.update i new (rs_statuses s)" and "status_weight new < status_weight old"
  shows "run_weight s' < run_weight s"
  using sum_list_update [OF status_okD(1) [OF ok] assms(2), of status_weight new] assms(3,4)
  by (simp add: run_weight_def)

lemma sweep_weight:
  assumes ok: "run_ok opts nodes s" and dist: "distinct (map gn_id nodes)"
    and sw: "sweep opts nodes s = (s', p)"
  shows "run_weight s' \<le> run_weight s" and "p \<Longrightarrow> run_weight s' < run_weight s"
    and "\<not> p \<Longrightarrow> s' = s"
proof -
  have "run_weight t' \<le> run_weight t \<and> (q' \<longrightarrow> q \<or> run_weight t' < run_weight t) \<and> (\<not> q' \<longrightarrow> t' = t \<and> \<not> q)"
    if "run_ok opts nodes t" "set ns \<subseteq> set nodes" "fold (sweep_node opts) ns (t, q) = (t', q')" for ns t q t' q'
    using that
  proof (induction ns arbitrary: t q)
    case (Cons n ns)
    obtain t1 q1 where one: "sweep_node opts n (t, q) = (t1, q1)" by fastforce
    from Cons.prems(2) have n: "n \<in> set nodes" by simp
    have ok1: "run_ok opts nodes t1" by (rule sweep_node_ok [OF Cons.prems(1) n dist one])
    have IH: "run_weight t' \<le> run_weight t1 \<and> (q' \<longrightarrow> q1 \<or> run_weight t' < run_weight t1) \<and> (\<not> q' \<longrightarrow> t' = t1 \<and> \<not> q1)"
      using Cons.IH [OF ok1, of q1] Cons.prems one by simp
    from one show ?case
    proof (cases rule: sweep_node_cases)
      case idle
      with IH show ?thesis by simp
    next
      case (skip why)
      then have "run_weight t1 < run_weight t"
        by (intro run_weight_update [OF run_okD(2) [OF Cons.prems(1)], of "gn_id n" Pending _ Skipped])
          (auto simp: skip_node_def)
      with IH skip show ?thesis by auto
    next
      case (start claims)
      then have "run_weight t1 < run_weight t"
        by (intro run_weight_update [OF run_okD(2) [OF Cons.prems(1)], of "gn_id n" Pending _ NodeRunning])
          (auto simp: start_node_def)
      with IH start show ?thesis by auto
    qed
  qed simp
  from this [OF ok _ sw [unfolded sweep_def]]
  show "run_weight s' \<le> run_weight s" and "p \<Longrightarrow> run_weight s' < run_weight s" and "\<not> p \<Longrightarrow> s' = s"
    by auto
qed

lemma settle_weight:
  assumes ok: "run_ok opts nodes s" and i: "i \<in> set (map fst (rs_active s))"
  shows "run_weight (settle_node opts nodes i outcome s) < run_weight s"
proof (rule run_weight_update [OF run_okD(2) [OF ok]])
  show "map_of (rs_statuses s) i = Some NodeRunning"
    using status_okD(3) [OF run_okD(2) [OF ok]] i by blast
  show "status_weight (status_of_outcome (go_status outcome)) < status_weight NodeRunning"
    by (cases "go_status outcome") simp_all
qed (simp add: settle_node_def Let_def)

lemma run_iteration_weight:
  assumes ok: "run_ok opts nodes s" and dist: "distinct (map gn_id nodes)"
    and iter: "run_iteration opts nodes s c = Some (Going s')"
  shows "run_weight s' < run_weight s"
proof -
  obtain s1 p where sw: "sweep opts nodes s = (s1, p)" by fastforce
  have ok1: "run_ok opts nodes s1" using sweep_ok [OF ok dist] sw by simp
  show ?thesis
  proof (cases "rs_active s1 = []")
    case True
    with iter sw sweep_weight [OF ok dist sw] show ?thesis
      by (auto simp: run_iteration_def split: if_splits)
  next
    case False
    with iter sw have c: "fst c \<in> set (map fst (rs_active s1))"
      and "\<exists>outcome. s' = settle_node opts nodes (fst c) outcome s1"
      by (auto simp: run_iteration_def split: if_splits handler_result.splits)
    with settle_weight [OF ok1 c] sweep_weight(1) [OF ok dist sw] show ?thesis
      by (metis order_less_le_trans)
  qed
qed

section \<open>Deadlock\<close>

text \<open>The graphs the builder produces refer to their own nodes only; their dependency relation
  is the edge relation.\<close>

definition deps_rel :: "graph_node list \<Rightarrow> (ident \<times> ident) set" where
  "deps_rel nodes = {(d, gn_id n) | d n. n \<in> set nodes \<and> d \<in> set (gn_dependencies n)}"

definition deps_known :: "graph_node list \<Rightarrow> bool" where
  "deps_known nodes \<longleftrightarrow> (\<forall>n\<in>set nodes. set (gn_dependencies n) \<subseteq> gn_id ` set nodes)"

lemma finite_deps_rel: "finite (deps_rel nodes)"
proof -
  have "deps_rel nodes = (\<Union>n\<in>set nodes. (\<lambda>d. (d, gn_id n)) ` set (gn_dependencies n))"
    by (auto simp: deps_rel_def)
  then show ?thesis by simp
qed

lemma sweep_stuck:
  assumes "fold (sweep_node opts) ns (s, False) = (s', p)" and "n \<in> set ns"
    and pend: "map_of (rs_statuses s) (gn_id n) = Some Pending"
    and idle: "rs_active s = []" "rs_claimsInUse s = []"
    and ready: "list_all (terminal s) (gn_dependencies n)"
  shows "p"
proof -
  have limit: "0 < run_limit opts" by (simp add: run_limit_def Let_def)
  have sticky: "snd (fold (sweep_node opts) xs (t, True))" for xs t
  proof (induction xs arbitrary: t)
    case (Cons x xs)
    have "snd (sweep_node opts x (t, True))" by (auto simp: sweep_node_def Let_def)
    then obtain t' where "sweep_node opts x (t, True) = (t', True)"
      by (cases "sweep_node opts x (t, True)") simp
    then show ?case by (simp add: Cons)
  qed simp
  from assms(1,2) show ?thesis
  proof (induction ns)
    case (Cons x xs)
    obtain t q where one: "sweep_node opts x (s, False) = (t, q)" by fastforce
    show ?case
    proof (cases q)
      case True
      with Cons.prems one sticky [of xs t] show ?thesis by simp
    next
      case False
      from one have "t = s" by (cases rule: sweep_node_cases) (use False in auto)
      have "x \<noteq> n"
      proof
        assume "x = n"
        then have "snd (sweep_node opts x (s, False))"
          using pend idle ready limit by (simp add: sweep_node_def Let_def)
        with one False show False by simp
      qed
      with Cons.prems have n: "n \<in> set xs" by auto
      have "fold (sweep_node opts) xs (s, False) = (s', p)"
        using Cons.prems(1) one False \<open>t = s\<close> by simp
      then show ?thesis using n by (rule Cons.IH)
    qed
  qed simp
qed

lemma no_deadlock:
  assumes ok: "run_ok opts nodes s" and dist: "distinct (map gn_id nodes)"
    and known: "deps_known nodes" and ac: "acyclic (deps_rel nodes)"
  shows "run_iteration opts nodes s c \<noteq> Some Deadlocked"
proof
  assume dead: "run_iteration opts nodes s c = Some Deadlocked"
  obtain s1 p where sw: "sweep opts nodes s = (s1, p)" by fastforce
  from dead sw have unf: "unfinished s" and "\<not> p" and act: "rs_active s1 = []"
    by (auto simp: run_iteration_def split: if_splits handler_result.splits)
  from sweep_weight(3) [OF ok dist sw \<open>\<not> p\<close>] have "s1 = s" .
  with act have idle: "rs_active s = []" by simp
  with run_okD(1) [OF ok] have noclaims: "rs_claimsInUse s = []" by (simp add: claims_ok_def)
  note st = status_okD [OF run_okD(2) [OF ok]]
  have norun: "map_of (rs_statuses s) i \<noteq> Some NodeRunning" for i
    using st(3) [of i] idle by simp
  define P where "P = {i. map_of (rs_statuses s) i = Some Pending}"
  from unf obtain i x where "(i, x) \<in> set (rs_statuses s)" "x = Pending \<or> x = NodeRunning"
    by (auto simp: unfinished_def list_ex_iff_ex_set)
  with st(1) norun have "i \<in> P" by (auto simp: P_def)
  have "wf (deps_rel nodes)" by (rule finite_acyclic_wf [OF finite_deps_rel ac])
  from wfE_min [OF this \<open>i \<in> P\<close>] obtain z where z: "z \<in> P" "\<And>y. (y, z) \<in> deps_rel nodes \<Longrightarrow> y \<notin> P"
    by blast
  from z(1) have "z \<in> set (map fst (rs_statuses s))" unfolding P_def by (auto dest: status_known)
  with st(2) obtain n where n: "n \<in> set nodes" "z = gn_id n" by auto
  have "terminal s d" if d: "d \<in> set (gn_dependencies n)" for d
  proof -
    from d n z(2) [of d] have "d \<notin> P" by (auto simp: deps_rel_def)
    from d known n st(2) have "d \<in> set (map fst (rs_statuses s))" by (auto simp: deps_known_def)
    then obtain x where "map_of (rs_statuses s) d = Some x"
      by (cases "map_of (rs_statuses s) d") (auto simp: map_of_eq_None_iff)
    with \<open>d \<notin> P\<close> norun [of d] show ?thesis by (auto simp: terminal_iff P_def)
  qed
  then have "list_all (terminal s) (gn_dependencies n)" by (simp add: list_all_iff)
  with z(1) n sweep_stuck [OF sw [unfolded sweep_def] n(1) _ idle noclaims] \<open>\<not> p\<close> show False
    by (simp add: P_def)
qed

lemma graph_wf_deps:
  assumes "graph_wf nodes E"
  shows "deps_known nodes" and "deps_rel nodes = edge_rel E"
proof -
  have deps: "gn_dependencies n = node_dependencies E (gn_id n)" if "n \<in> set nodes" for n
    using assms that by (simp add: graph_wf_def)
  have ends: "ge_from e \<in> gn_id ` set nodes" "ge_to e \<in> gn_id ` set nodes" if "e \<in> set E" for e
    using assms that by (auto simp: graph_wf_def)
  show "deps_known nodes"
    using ends(1) unfolding deps_known_def by (auto simp: deps set_node_dependencies edge_rel_def)
  show "deps_rel nodes = edge_rel E"
  proof
    show "deps_rel nodes \<subseteq> edge_rel E" by (auto simp: deps_rel_def deps set_node_dependencies)
    show "edge_rel E \<subseteq> deps_rel nodes"
    proof
      fix x assume x: "x \<in> edge_rel E"
      then obtain e where e: "e \<in> set E" "x = (ge_from e, ge_to e)" by (auto simp: edge_rel_def)
      with ends(2) obtain n where n: "n \<in> set nodes" "ge_to e = gn_id n" by blast
      with x e have "ge_from e \<in> set (gn_dependencies n)" by (simp add: deps set_node_dependencies)
      with n e show "x \<in> deps_rel nodes" by (auto simp: deps_rel_def)
    qed
  qed
qed

section \<open>Properties\<close>

text \<open>C2. In every reachable state of a run: no more nodes are active than the limit allows, the
  claims of two active nodes never conflict, every node whose handler was called has all its
  dependencies in status success (so nothing runs downstream of a failed or skipped node), every
  running node had its handler called, and no handler was called twice.\<close>

theorem graph_run_safety:
  assumes "graph_reachable opts nodes (Going s)" and "distinct (map gn_id nodes)"
  shows "length (rs_active s) \<le> run_limit opts \<and>
    (\<forall>i j cs ds x y. map_of (rs_active s) i = Some cs \<and> map_of (rs_active s) j = Some ds \<and> i \<noteq> j \<and>
       x \<in> set cs \<and> y \<in> set ds \<longrightarrow> \<not> claimsConflict x y) \<and>
    (\<forall>node\<in>set nodes. gn_id node \<in> set (rs_startedAt s) \<longrightarrow>
       (\<forall>d\<in>set (gn_dependencies node). map_of (rs_statuses s) d = Some Success)) \<and>
    (\<forall>i. map_of (rs_statuses s) i = Some NodeRunning \<longrightarrow> i \<in> set (rs_startedAt s)) \<and>
    distinct (rs_startedAt s)"
proof -
  have ok: "run_ok opts nodes s" by (rule graph_reachable_ok [OF assms])
  note sa = started_okD [OF run_okD(3) [OF ok]]
  have "\<not> claimsConflict x y"
    if "map_of (rs_active s) i = Some cs" "map_of (rs_active s) j = Some ds" "i \<noteq> j"
      "x \<in> set cs" "y \<in> set ds" for i j cs ds x y
  proof (rule graph_claims.exclusive_pair)
    show "exclusive claimsConflict (active_claims (rs_active s)) (set (map fst (rs_active s)))"
      using run_okD(1) [OF ok] by (simp add: claims_ok_def)
    show "i \<in> set (map fst (rs_active s))" "j \<in> set (map fst (rs_active s))"
      using that status_known by metis+
    show "x \<in> set (active_claims (rs_active s) i)" "y \<in> set (active_claims (rs_active s) j)"
      using that by (simp_all add: active_claims_def)
  qed (rule that(3))
  then show ?thesis
    using run_okD(4) [OF ok] sa(1) sa(4) sa(3) by blast
qed

text \<open>A graph whose dependencies are known and acyclic is never reported as deadlocked, and
  every iteration of the loop lowers a measure (two for a pending node, one for a running one), so
  a run whose handlers return has at most twice as many iterations as nodes.\<close>

theorem graph_run_progress:
  assumes "graph_reachable opts nodes (Going s)" and "distinct (map gn_id nodes)"
    and "deps_known nodes" and "acyclic (deps_rel nodes)"
  shows "run_iteration opts nodes s c \<noteq> Some Deadlocked \<and>
    (\<exists>c. run_iteration opts nodes s c \<noteq> None) \<and>
    (\<forall>s'. run_iteration opts nodes s c = Some (Going s') \<longrightarrow> run_weight s' < run_weight s)"
proof -
  have ok: "run_ok opts nodes s" by (rule graph_reachable_ok [OF assms(1,2)])
  have "\<exists>c. run_iteration opts nodes s c \<noteq> None"
  proof (cases "rs_active (fst (sweep opts nodes s))")
    case Nil
    then show ?thesis by (simp add: run_iteration_def case_prod_beta)
  next
    case (Cons a as)
    then have "run_iteration opts nodes s (fst a, Suspended) \<noteq> None"
      by (simp add: run_iteration_def case_prod_beta)
    then show ?thesis by blast
  qed
  with no_deadlock [OF ok assms(2-4)] run_iteration_weight [OF ok assms(2)] show ?thesis by blast
qed

text \<open>C26. A pipeline that \<open>deriveExecutionGraph\<close> accepts without an error, and in which no two
  edges connect the same pair of steps, runs without a deadlock, whatever its handlers return.\<close>

theorem derived_graph_never_deadlocks:
  assumes "deriveExecutionGraph steps initial = (graph, [])" and "no_parallel_edges (eg_edges graph)"
    and "graph_reachable opts (eg_nodes graph) (Going s)"
  shows "run_iteration opts (eg_nodes graph) s c \<noteq> Some Deadlocked"
proof -
  let ?E = "fst (derive_edges steps initial)"
  have g: "eg_edges graph = ?E" "eg_nodes graph = derive_nodes steps ?E"
    and noerr: "snd (derive_edges steps initial) = []" "\<not> has_cycle_error (derive_nodes steps ?E) ?E"
    using assms(1) by (auto simp: derive_unfold Let_def split: if_splits)
  from noerr(1) have dist: "distinct (step_ids steps)" by (simp add: derive_errors duplicate_errors_empty)
  note wf = derive_nodes_wf [OF dist, of initial]
  have "acyclic (edge_rel ?E)"
    using no_cycle_error_acyclic [OF wf] assms(2) noerr(2) by (simp add: g)
  moreover have dist': "distinct (map gn_id (eg_nodes graph))" using dist by (simp add: g)
  ultimately show ?thesis
    using no_deadlock [OF graph_reachable_ok [OF assms(3) dist'] dist'] graph_wf_deps [OF wf]
    by (simp add: g)
qed

section \<open>Concrete runs\<close>

definition sample_options :: graph_options where
  "sample_options = \<lparr>op_maxConcurrency = Some 2, op_initialContext = JObj [],
    op_precompleted = [], op_precompletedContext = None, op_preskipped = [],
    op_evaluateWhen = None, op_resourceClaims = Some (\<lambda>node ctx. [StringClaim (gn_id node)]),
    op_mergeContext = None\<rparr>"

definition succeeded :: handler_result where
  "succeeded = Returned \<lparr>go_status = OSuccess, go_context = JUndef, go_error = None\<rparr>"

text \<open>Two independent roots and a step that joins them.\<close>

definition join_pipeline :: "graph_step list" where
  "join_pipeline =
    [(plain_step ''a'')\<lparr>gs_depends_on := Some []\<rparr>, (plain_step ''b'')\<lparr>gs_depends_on := Some []\<rparr>,
     (plain_step ''c'')\<lparr>gs_depends_on := Some [''a'', ''b'']\<rparr>]"

definition join_graph :: exec_graph where
  "join_graph = fst (deriveExecutionGraph join_pipeline [])"

lemma run_completions_reachable:
  "graph_reachable opts nodes r \<Longrightarrow> run_completions opts nodes r cs = Some r' \<Longrightarrow>
   graph_reachable opts nodes r'"
proof (induction opts nodes r cs rule: run_completions.induct)
  case (2 opts nodes s c cs)
  then show ?case by (auto split: option.splits intro: graph_reachable.run_next)
qed auto

definition join_after_a :: run_state where
  "join_after_a =
    (case run_completions sample_options (eg_nodes join_graph)
            (Going (run_init sample_options (eg_nodes join_graph))) [(''a'', succeeded)] of
       Some (Going s) \<Rightarrow> s | _ \<Rightarrow> run_init sample_options (eg_nodes join_graph))"

lemma join_after_a_reachable: "graph_reachable sample_options (eg_nodes join_graph) (Going join_after_a)"
proof -
  have "run_completions sample_options (eg_nodes join_graph)
      (Going (run_init sample_options (eg_nodes join_graph))) [(''a'', succeeded)] = Some (Going join_after_a)"
    by code_simp
  from run_completions_reachable [OF graph_reachable.run_start this] show ?thesis .
qed

lemma join_distinct: "distinct (map gn_id (eg_nodes join_graph))"
  by code_simp

lemma join_derive: "deriveExecutionGraph join_pipeline [] = (join_graph, [])"
  by code_simp

lemma join_wf: "graph_wf (eg_nodes join_graph) (eg_edges join_graph)"
proof -
  have "distinct (step_ids join_pipeline)" by code_simp
  from derive_nodes_wf [OF this, of "[]"] show ?thesis
    by (simp add: join_graph_def derive_unfold Let_def)
qed

theorem graph_run_safety_witness:
  "map fst (rs_active join_after_a) = [''b''] \<and> rs_startedAt join_after_a = [''a'', ''b''] \<and>
   length (rs_active join_after_a) \<le> run_limit sample_options"
proof -
  have "map fst (rs_active join_after_a) = [''b''] \<and> rs_startedAt join_after_a = [''a'', ''b'']"
    by code_simp
  with graph_run_safety [OF join_after_a_reachable join_distinct] show ?thesis by blast
qed

theorem derived_graph_never_deadlocks_witness:
  "run_iteration sample_options (eg_nodes join_graph) join_after_a (''b'', succeeded) \<noteq> Some Deadlocked"
proof -
  have "no_parallel_edges (eg_edges join_graph)" by code_simp
  from derived_graph_never_deadlocks [OF join_derive this join_after_a_reachable] show ?thesis .
qed

theorem graph_run_progress_witness:
  "\<exists>s'. run_iteration sample_options (eg_nodes join_graph) join_after_a (''b'', succeeded) = Some (Going s') \<and>
        run_weight s' < run_weight join_after_a"
proof -
  have "acyclic (deps_rel (eg_nodes join_graph))"
  proof -
    have "no_parallel_edges (eg_edges join_graph)" by code_simp
    moreover have "\<not> has_cycle_error (eg_nodes join_graph) (eg_edges join_graph)" by code_simp
    ultimately show ?thesis
      using no_cycle_error_acyclic [OF join_wf] by (simp add: graph_wf_deps [OF join_wf])
  qed
  from graph_run_progress [OF join_after_a_reachable join_distinct graph_wf_deps(1) [OF join_wf] this]
  have "\<forall>s'. run_iteration sample_options (eg_nodes join_graph) join_after_a (''b'', succeeded) =
      Some (Going s') \<longrightarrow> run_weight s' < run_weight join_after_a" by blast
  moreover have "case run_iteration sample_options (eg_nodes join_graph) join_after_a (''b'', succeeded) of
      Some (Going s') \<Rightarrow> True | _ \<Rightarrow> False" by code_simp
  ultimately show ?thesis by (auto split: option.splits graph_run.splits)
qed

text \<open>The pipeline whose cycle the check misses is accepted without errors, and its run ends in
  the deadlock error once its first step has succeeded.\<close>

theorem undetected_cycle_deadlocks:
  "snd (deriveExecutionGraph self_dependent_pipeline []) = [] \<and>
   run_completions sample_options (eg_nodes (fst (deriveExecutionGraph self_dependent_pipeline [])))
     (Going (run_init sample_options (eg_nodes (fst (deriveExecutionGraph self_dependent_pipeline [])))))
     [(''fetch'', succeeded), (''fetch'', succeeded)] = Some Deadlocked"
  by (rule conjI; code_simp)

end
