(* ===== verification/Tool_Governor.thy ===== *)
theory Tool_Governor
  imports Json "HOL-Library.Multiset" "HOL-Library.List_Lexorder" "HOL-Library.Char_ord"
begin

text \<open>
  The three detectors of repeated tool calls: the repeat and outcome governors of
  \<open>src/libs/core/tool/tool-call-repeat-governor.ts\<close>, the loop guardrail of
  \<open>tool-loop-guardrail.ts\<close> and the repeat advisor of \<open>tool-repeat-advisor.ts\<close>.

  Parameters: \<open>stringify\<close> is \<open>JSON.stringify\<close>, \<open>sha\<close> the hexadecimal SHA-256,
  \<open>parse\<close> the checked \<open>JSON.parse\<close> of \<open>foundation/safe-json.ts\<close> (\<open>None\<close> when it
  throws), \<open>locale_le\<close> the order of \<open>localeCompare\<close>, and \<open>num_of_text\<close> the
  conversion \<open>Number(v)\<close> of a string or composite value (\<open>None\<close> for \<open>NaN\<close>). A reminder
  text is represented by the values it is built from.
\<close>

section \<open>Canonical arguments\<close>

lemma size_value_less: "(k, v) \<in> set kvs \<Longrightarrow> size v < size (JObj kvs)"
proof -
  assume "(k, v) \<in> set kvs"
  then have "size_prod (\<lambda>_. 0) size (k, v) \<le> size_list (size_prod (\<lambda>_. 0) size) kvs"
    by (rule size_list_estimation') simp
  then show ?thesis by simp
qed

function sortValue :: "json \<Rightarrow> json" where
  "sortValue (JArr xs) = JArr (map sortValue xs)"
| "sortValue (JObj kvs) = JObj (map (\<lambda>(k, v). (k, sortValue v)) (sort_key fst kvs))"
| "sortValue JUndef = JNull"
| "sortValue JNull = JNull"
| "sortValue (JBool b) = JBool b"
| "sortValue (JNum n) = JNum n"
| "sortValue (JStr s) = JStr s"
  by pat_completeness auto
termination
proof (relation "measure size")
  fix xs :: "json list" and x
  assume "x \<in> set xs"
  then show "(x, JArr xs) \<in> measure size" by (induction xs) auto
next
  fix kvs :: "(string \<times> json) list" and p k v
  assume "p \<in> set (sort_key fst kvs)" "(k, v) = p"
  then have "(k, v) \<in> set kvs" by simp
  then show "(v, JObj kvs) \<in> measure size" using size_value_less by simp
qed simp

definition canonicalizeToolCallArgs :: "(json \<Rightarrow> string) \<Rightarrow> json \<Rightarrow> string" where
  "canonicalizeToolCallArgs stringify args = stringify (sortValue args)"

definition buildToolCallSignature :: "(json \<Rightarrow> string) \<Rightarrow> string \<Rightarrow> json \<Rightarrow> string" where
  "buildToolCallSignature stringify tool args =
    tool @ [CHR 0x00] @ canonicalizeToolCallArgs stringify args"

section \<open>The repeat governor\<close>

text \<open>A field of the configuration object: absent, present but \<open>undefined\<close> (it then overrides
  the default, and every comparison with it is false), or a number.\<close>

datatype cfg_field = Absent | Undefined | Given rat

record governor_config =
  gentleAt :: cfg_field
  detailedAt :: cfg_field
  deadEndAt :: cfg_field
  forceStopAt :: cfg_field
  cycleMaxPeriod :: cfg_field
  cycleWarnAfter :: cfg_field
  cycleStopAfter :: cfg_field

definition no_config :: governor_config where
  "no_config = \<lparr>gentleAt = Absent, detailedAt = Absent, deadEndAt = Absent, forceStopAt = Absent,
    cycleMaxPeriod = Absent, cycleWarnAfter = Absent, cycleStopAfter = Absent\<rparr>"

fun cfg_value :: "cfg_field \<Rightarrow> rat \<Rightarrow> rat option" where
  "cfg_value Absent d = Some d"
| "cfg_value Undefined d = None"
| "cfg_value (Given r) d = Some r"

definition reaches :: "nat \<Rightarrow> rat option \<Rightarrow> bool" where
  "reaches n lmt = (case lmt of None \<Rightarrow> False | Some r \<Rightarrow> r \<le> of_nat n)"

definition hits :: "nat \<Rightarrow> rat option \<Rightarrow> bool" where
  "hits n lmt = (lmt = Some (of_nat n))"

record repeat_state =
  rg_streak :: nat
  rg_total_calls :: nat
  rg_last_signature :: "string option"

datatype escalation = NoEscalation | Gentle | Detailed | DeadEnd | ForceStop

record repeat_decision =
  rd_state :: repeat_state
  rd_signature :: string
  rd_streak :: nat
  rd_escalation :: escalation
  rd_reminder :: "(nat \<times> string) option"
  rd_should_force_stop :: bool

definition createToolCallRepeatGovernorState :: repeat_state where
  "createToolCallRepeatGovernorState = \<lparr>rg_streak = 0, rg_total_calls = 0, rg_last_signature = None\<rparr>"

definition escalation_at :: "governor_config \<Rightarrow> nat \<Rightarrow> escalation" where
  "escalation_at cfg streak =
    (if reaches streak (cfg_value (forceStopAt cfg) 12) then ForceStop
     else if hits streak (cfg_value (deadEndAt cfg) 8) then DeadEnd
     else if hits streak (cfg_value (detailedAt cfg) 5) then Detailed
     else if hits streak (cfg_value (gentleAt cfg) 3) then Gentle
     else NoEscalation)"

definition advanceToolCallRepeatGovernor ::
  "(json \<Rightarrow> string) \<Rightarrow> repeat_state \<Rightarrow> string \<Rightarrow> json \<Rightarrow> governor_config \<Rightarrow> repeat_decision" where
  "advanceToolCallRepeatGovernor stringify state tool args cfg =
    (let signature = buildToolCallSignature stringify tool args;
         streak = (if Some signature = rg_last_signature state then rg_streak state + 1 else 1);
         nxt = \<lparr>rg_streak = streak, rg_total_calls = rg_total_calls state + 1,
                rg_last_signature = Some signature\<rparr>;
         escalation = escalation_at cfg streak
     in \<lparr>rd_state = nxt, rd_signature = signature, rd_streak = streak, rd_escalation = escalation,
         rd_reminder = (if escalation \<in> {DeadEnd, Detailed, Gentle} then Some (streak, tool) else None),
         rd_should_force_stop = reaches streak (cfg_value (forceStopAt cfg) 12)\<rparr>)"

text \<open>The state as JSON metadata, and back.\<close>

definition encodeToolCallRepeatGovernorState :: "repeat_state \<Rightarrow> json" where
  "encodeToolCallRepeatGovernorState state =
    JObj [(''streak'', JNum (of_nat (rg_streak state))),
          (''total_calls'', JNum (of_nat (rg_total_calls state))),
          (''last_signature'', case rg_last_signature state of None \<Rightarrow> JUndef | Some s \<Rightarrow> JStr s)]"

definition js_number :: "(json \<Rightarrow> rat option) \<Rightarrow> json \<Rightarrow> rat option" where
  "js_number num_of_text v = (case v of JUndef \<Rightarrow> None | JNull \<Rightarrow> Some 0
     | JBool b \<Rightarrow> Some (if b then 1 else 0) | JNum n \<Rightarrow> Some n | _ \<Rightarrow> num_of_text v)"

definition hydrate_count :: "(json \<Rightarrow> rat option) \<Rightarrow> json \<Rightarrow> nat" where
  "hydrate_count num_of_text v =
    (case js_number num_of_text v of Some n \<Rightarrow> if n > 0 then nat \<lfloor>n\<rfloor> else 0 | None \<Rightarrow> 0)"

definition hydrateToolCallRepeatGovernorState :: "(json \<Rightarrow> rat option) \<Rightarrow> json \<Rightarrow> repeat_state" where
  "hydrateToolCallRepeatGovernorState num_of_text metadata =
    (if \<not> is_js_object metadata then createToolCallRepeatGovernorState
     else \<lparr>rg_streak = hydrate_count num_of_text (jget metadata ''streak''),
           rg_total_calls = hydrate_count num_of_text (jget metadata ''total_calls''),
           rg_last_signature =
             (case jget metadata ''last_signature'' of JStr s \<Rightarrow> Some s | _ \<Rightarrow> None)\<rparr>)"

section \<open>The outcome governor\<close>

record outcome_entry =
  oe_signature :: string
  oe_result_hash :: string
  oe_repeatable :: bool

record call_result =
  cr_resultText :: string
  cr_repeatable :: bool
  cr_progress :: bool

record outcome_decision =
  od_history :: "outcome_entry list"
  od_made_progress :: bool
  od_should_force_stop :: bool
  od_period :: "nat option"
  od_cycles :: "nat option"
  od_reminder :: "(nat \<times> nat) option"

definition bounded_cfg :: "cfg_field \<Rightarrow> nat \<Rightarrow> nat \<Rightarrow> nat" where
  "bounded_cfg f fallback mx =
    (case f of Given r \<Rightarrow> if r \<ge> 2 then min mx (nat \<lfloor>r\<rfloor>) else fallback | _ \<Rightarrow> fallback)"

definition last_n :: "nat \<Rightarrow> 'a list \<Rightarrow> 'a list" where
  "last_n n xs = drop (length xs - n) xs"

definition same_outcome :: "outcome_entry \<Rightarrow> outcome_entry \<Rightarrow> bool" where
  "same_outcome a b \<longleftrightarrow> oe_signature a = oe_signature b \<and> oe_result_hash a = oe_result_hash b"

text \<open>Entry \<open>i\<close> of the \<open>k\<close>-th block of length \<open>period\<close>, counted from the end (the
  last block is number 1).\<close>

definition block_matches :: "nat \<Rightarrow> outcome_entry list \<Rightarrow> nat \<Rightarrow> bool" where
  "block_matches period history k =
    list_all (\<lambda>i. same_outcome (history ! (length history - period * k + i))
                              (history ! (length history - period + i))) [0..<period]"

function count_cycles :: "nat \<Rightarrow> outcome_entry list \<Rightarrow> nat \<Rightarrow> nat" where
  "count_cycles period history cycles =
    (if period > 0 \<and> length history \<ge> period * (cycles + 1) \<and> block_matches period history (cycles + 1)
     then count_cycles period history (cycles + 1) else cycles)"
  by pat_completeness auto
termination
proof (relation "measure (\<lambda>(period, history, cycles). Suc (length history) - cycles)")
  fix period cycles :: nat and history :: "outcome_entry list"
  assume "period > 0 \<and> length history \<ge> period * (cycles + 1) \<and> block_matches period history (cycles + 1)"
  then have "0 < period" "period * (cycles + 1) \<le> length history" by auto
  from \<open>0 < period\<close> have "1 * (cycles + 1) \<le> period * (cycles + 1)" by (intro mult_le_mono1) simp
  then have "1 * (cycles + 1) \<le> length history"
    using \<open>period * (cycles + 1) \<le> length history\<close> by (rule order_trans)
  then show "((period, history, cycles + 1), period, history, cycles)
      \<in> measure (\<lambda>(period, history, cycles). Suc (length history) - cycles)" by auto
qed simp

declare count_cycles.simps [simp del]

fun check_periods :: "nat \<Rightarrow> nat \<Rightarrow> outcome_entry list \<Rightarrow> nat list \<Rightarrow> outcome_decision option" where
  "check_periods warnAfter stopAfter history [] = None"
| "check_periods warnAfter stopAfter history (period # periods) =
    (let tail = last_n period history in
     if length tail < period \<or> list_all (\<lambda>e. same_outcome e (tail ! 0)) tail
     then check_periods warnAfter stopAfter history periods
     else
       let cycles = count_cycles period history 1 in
       if cycles < warnAfter \<or> list_all oe_repeatable tail
       then check_periods warnAfter stopAfter history periods
       else Some \<lparr>od_history = history, od_made_progress = False,
                  od_should_force_stop = (cycles \<ge> stopAfter),
                  od_period = Some period, od_cycles = Some cycles,
                  od_reminder = (if cycles = warnAfter then Some (period, cycles) else None)\<rparr>)"

definition cycle_bounds :: "governor_config \<Rightarrow> nat \<times> nat \<times> nat" where
  "cycle_bounds cfg =
    (let maxPeriod = bounded_cfg (cycleMaxPeriod cfg) 4 16;
         warnAfter = bounded_cfg (cycleWarnAfter cfg) 3 16;
         stopAfter = max warnAfter (bounded_cfg (cycleStopAfter cfg) 5 32)
     in (maxPeriod, warnAfter, stopAfter))"

definition advanceToolCallOutcomeGovernor ::
  "(json \<Rightarrow> string) \<Rightarrow> (string \<Rightarrow> string) \<Rightarrow> outcome_entry list \<Rightarrow> string \<Rightarrow> json \<Rightarrow> call_result \<Rightarrow>
   governor_config \<Rightarrow> outcome_decision" where
  "advanceToolCallOutcomeGovernor stringify sha state tool args result cfg =
    (let (maxPeriod, warnAfter, stopAfter) = cycle_bounds cfg;
         signature = sha (buildToolCallSignature stringify tool args);
         result_hash = sha (cr_resultText result);
         previous = List.find (\<lambda>e. oe_signature e = signature) (rev state);
         madeProgress = (cr_progress result \<or>
           (case previous of None \<Rightarrow> False | Some e \<Rightarrow> oe_result_hash e \<noteq> result_hash))
     in if madeProgress
        then \<lparr>od_history = [], od_made_progress = True, od_should_force_stop = False,
              od_period = None, od_cycles = None, od_reminder = None\<rparr>
        else
          let history = last_n (maxPeriod * stopAfter)
                (state @ [\<lparr>oe_signature = signature, oe_result_hash = result_hash,
                           oe_repeatable = cr_repeatable result\<rparr>])
          in case check_periods warnAfter stopAfter history [2..<Suc maxPeriod] of
               Some d \<Rightarrow> d
             | None \<Rightarrow> \<lparr>od_history = history, od_made_progress = cr_repeatable result,
                        od_should_force_stop = False, od_period = None, od_cycles = None,
                        od_reminder = None\<rparr>)"

section \<open>The loop guardrail\<close>

record tool_call =
  tc_name :: string
  tc_arguments :: string

record guard_state =
  gl_totalCalls :: nat
  gl_consecutiveSameCalls :: nat
  gl_lastSignature :: "string option"

datatype guard_reason = TooManyRounds nat | TooManyRepeats nat string

record guard_decision =
  gd_state :: guard_state
  gd_shouldStop :: bool
  gd_reason :: "guard_reason option"

fun join_with :: "string \<Rightarrow> string list \<Rightarrow> string" where
  "join_with sep [] = []"
| "join_with sep [x] = x"
| "join_with sep (x # y # zs) = x @ sep @ join_with sep (y # zs)"

function stableSerialize :: "(json \<Rightarrow> string) \<Rightarrow> (string \<Rightarrow> string \<Rightarrow> bool) \<Rightarrow> json \<Rightarrow> string" where
  "stableSerialize stringify le (JArr xs) =
    ''['' @ join_with '','' (map (stableSerialize stringify le) xs) @ '']''"
| "stableSerialize stringify le (JObj kvs) =
    ''{'' @ join_with '','' (map (\<lambda>(k, v). stringify (JStr k) @ '':'' @ stableSerialize stringify le v)
       (js_sort_by (\<lambda>a b. le (fst a) (fst b)) kvs)) @ ''}''"
| "stableSerialize stringify le JUndef = stringify JUndef"
| "stableSerialize stringify le JNull = stringify JNull"
| "stableSerialize stringify le (JBool b) = stringify (JBool b)"
| "stableSerialize stringify le (JNum n) = stringify (JNum n)"
| "stableSerialize stringify le (JStr s) = stringify (JStr s)"
  by pat_completeness auto
termination
proof (relation "measure (\<lambda>(stringify, le, v). size v)")
  fix stringify :: "json \<Rightarrow> string" and le and xs :: "json list" and x
  assume "x \<in> set xs"
  then show "((stringify, le, x), stringify, le, JArr xs) \<in> measure (\<lambda>(stringify, le, v). size v)"
    by (induction xs) auto
next
  fix stringify :: "json \<Rightarrow> string" and le and kvs :: "(string \<times> json) list" and p k v
  assume "p \<in> set (js_sort_by (\<lambda>a b. le (fst a) (fst b)) kvs)" "(k, v) = p"
  then have "(k, v) \<in> set kvs" by simp
  then show "((stringify, le, v), stringify, le, JObj kvs) \<in> measure (\<lambda>(stringify, le, v). size v)"
    using size_value_less by simp
qed simp

definition normalizeToolCallSignature ::
  "(json \<Rightarrow> string) \<Rightarrow> (string \<Rightarrow> string \<Rightarrow> bool) \<Rightarrow> (string \<Rightarrow> json option) \<Rightarrow> tool_call \<Rightarrow> string" where
  "normalizeToolCallSignature stringify le parse call =
    (let toolName = js_trim (tc_name call);
         rawArguments = js_trim (tc_arguments call)
     in if rawArguments = [] then toolName @ ''()''
        else case parse rawArguments of
            Some v \<Rightarrow> toolName @ '':'' @ stableSerialize stringify le v
          | None \<Rightarrow> toolName @ '':'' @ rawArguments)"

definition createToolLoopGuardrailState :: guard_state where
  "createToolLoopGuardrailState = \<lparr>gl_totalCalls = 0, gl_consecutiveSameCalls = 0, gl_lastSignature = None\<rparr>"

text \<open>The decision as a function of the call's signature; \<open>maxSame\<close> and \<open>maxTotal\<close> are
  the merged limits.\<close>

definition guard_advance ::
  "guard_state \<Rightarrow> string \<Rightarrow> string \<Rightarrow> rat option \<Rightarrow> rat option \<Rightarrow> guard_decision" where
  "guard_advance state signature name maxSame maxTotal =
    (let sameAsLast = (gl_lastSignature state = Some signature);
         nextState = \<lparr>gl_totalCalls = gl_totalCalls state + 1,
                      gl_consecutiveSameCalls = (if sameAsLast then gl_consecutiveSameCalls state + 1 else 1),
                      gl_lastSignature = Some signature\<rparr>
     in if (case maxTotal of None \<Rightarrow> False | Some r \<Rightarrow> of_nat (gl_totalCalls nextState) > r)
        then \<lparr>gd_state = nextState, gd_shouldStop = True,
              gd_reason = Some (TooManyRounds (gl_totalCalls nextState))\<rparr>
        else if reaches (gl_consecutiveSameCalls nextState) maxSame
        then \<lparr>gd_state = nextState, gd_shouldStop = True,
              gd_reason = Some (TooManyRepeats (gl_consecutiveSameCalls nextState) name)\<rparr>
        else \<lparr>gd_state = nextState, gd_shouldStop = False, gd_reason = None\<rparr>)"

definition advanceToolLoopGuardrail ::
  "(json \<Rightarrow> string) \<Rightarrow> (string \<Rightarrow> string \<Rightarrow> bool) \<Rightarrow> (string \<Rightarrow> json option) \<Rightarrow>
   guard_state \<Rightarrow> tool_call \<Rightarrow> cfg_field \<Rightarrow> cfg_field \<Rightarrow> guard_decision" where
  "advanceToolLoopGuardrail stringify le parse state call maxSame maxTotal =
    guard_advance state (normalizeToolCallSignature stringify le parse call) (tc_name call)
      (cfg_value maxSame 3) (cfg_value maxTotal 8)"

section \<open>The repeat advisor\<close>

type_synonym advisor_counts = "(string, nat) js_map"

record repeat_observation =
  ro_op :: string
  ro_args_hash :: string
  ro_repeat_count :: nat
  ro_advice :: "(string \<times> nat) option"

function stableValue :: "(string \<Rightarrow> string \<Rightarrow> bool) \<Rightarrow> json \<Rightarrow> json" where
  "stableValue le (JArr xs) = JArr (map (stableValue le) xs)"
| "stableValue le (JObj kvs) =
    JObj (map (\<lambda>(k, v). (k, stableValue le v)) (js_sort_by (\<lambda>a b. le (fst a) (fst b)) kvs))"
| "stableValue le JUndef = JUndef"
| "stableValue le JNull = JNull"
| "stableValue le (JBool b) = JBool b"
| "stableValue le (JNum n) = JNum n"
| "stableValue le (JStr s) = JStr s"
  by pat_completeness auto
termination
proof (relation "measure (\<lambda>(le, v). size v)")
  fix le :: "string \<Rightarrow> string \<Rightarrow> bool" and xs :: "json list" and x
  assume "x \<in> set xs"
  then show "((le, x), le, JArr xs) \<in> measure (\<lambda>(le, v). size v)" by (induction xs) auto
next
  fix le :: "string \<Rightarrow> string \<Rightarrow> bool" and kvs :: "(string \<times> json) list" and p k v
  assume "p \<in> set (js_sort_by (\<lambda>a b. le (fst a) (fst b)) kvs)" "(k, v) = p"
  then have "(k, v) \<in> set kvs" by simp
  then show "((le, v), le, JObj kvs) \<in> measure (\<lambda>(le, v). size v)" using size_value_less by simp
qed simp

definition argsHash ::
  "(json \<Rightarrow> string) \<Rightarrow> (string \<Rightarrow> string) \<Rightarrow> (string \<Rightarrow> string \<Rightarrow> bool) \<Rightarrow> string \<Rightarrow> json \<Rightarrow> string" where
  "argsHash stringify sha le op params =
    sha (stringify (JObj [(''op'', JStr op), (''params'', stableValue le params)]))"

definition TOOL_REPEAT_THRESHOLDS :: "nat list" where
  "TOOL_REPEAT_THRESHOLDS = [3, 5, 8]"

definition observe ::
  "(json \<Rightarrow> string) \<Rightarrow> (string \<Rightarrow> string) \<Rightarrow> (string \<Rightarrow> string \<Rightarrow> bool) \<Rightarrow>
   advisor_counts \<Rightarrow> string \<Rightarrow> json \<Rightarrow> repeat_observation \<times> advisor_counts" where
  "observe stringify sha le counts op params =
    (let hash = argsHash stringify sha le op params;
         count = (case map_of counts hash of Some n \<Rightarrow> n | None \<Rightarrow> 0) + 1
     in (\<lparr>ro_op = op, ro_args_hash = hash, ro_repeat_count = count,
          ro_advice = (case List.find (\<lambda>t. t = count) TOOL_REPEAT_THRESHOLDS of
                         Some t \<Rightarrow> if t \<noteq> 0 then Some (op, count) else None | None \<Rightarrow> None)\<rparr>,
         AList.update hash count counts))"

definition advisor_reset :: "advisor_counts \<Rightarrow> advisor_counts" where
  "advisor_reset counts = []"

section \<open>Runs of identical calls\<close>

definition trailing_run :: "'a list \<Rightarrow> nat" where
  "trailing_run xs = length (takeWhile (\<lambda>y. y = last xs) (rev xs))"

lemma trailing_run_Nil [simp]: "trailing_run [] = 0"
  by (simp add: trailing_run_def)

lemma trailing_run_snoc:
  "trailing_run (xs @ [x]) = (if xs \<noteq> [] \<and> last xs = x then trailing_run xs + 1 else 1)"
proof (cases xs rule: rev_cases)
  case (snoc ys y)
  then show ?thesis by (auto simp: trailing_run_def)
qed (simp add: trailing_run_def)

lemma trailing_run_ge_iff:
  "n \<le> trailing_run xs \<longleftrightarrow> n \<le> length xs \<and> (\<forall>y\<in>set (take n (rev xs)). y = last xs)"
proof
  assume n: "n \<le> trailing_run xs"
  have "take n (rev xs) = take n (takeWhile (\<lambda>y. y = last xs) (rev xs))"
  proof -
    have "takeWhile (\<lambda>y. y = last xs) (rev xs) = take (trailing_run xs) (rev xs)"
      unfolding trailing_run_def by (rule takeWhile_eq_take)
    with n show ?thesis by (simp add: min_absorb1)
  qed
  moreover have "trailing_run xs \<le> length xs"
    unfolding trailing_run_def by (metis length_rev length_takeWhile_le)
  ultimately show "n \<le> length xs \<and> (\<forall>y\<in>set (take n (rev xs)). y = last xs)"
    using n by (auto dest!: in_set_takeD set_takeWhileD)
next
  assume r: "n \<le> length xs \<and> (\<forall>y\<in>set (take n (rev xs)). y = last xs)"
  then have "takeWhile (\<lambda>y. y = last xs) (rev xs) =
      take n (rev xs) @ takeWhile (\<lambda>y. y = last xs) (drop n (rev xs))"
    using takeWhile_append2 [of "take n (rev xs)" "\<lambda>y. y = last xs" "drop n (rev xs)"] by simp
  then have "length (takeWhile (\<lambda>y. y = last xs) (rev xs)) =
      length (take n (rev xs)) + length (takeWhile (\<lambda>y. y = last xs) (drop n (rev xs)))"
    by (metis length_append)
  with r show "n \<le> trailing_run xs" by (simp add: trailing_run_def)
qed

definition gov_run ::
  "(json \<Rightarrow> string) \<Rightarrow> governor_config \<Rightarrow> (string \<times> json) list \<Rightarrow> repeat_state" where
  "gov_run stringify cfg calls =
    fold (\<lambda>(tool, args) st. rd_state (advanceToolCallRepeatGovernor stringify st tool args cfg)) calls
      createToolCallRepeatGovernorState"

abbreviation signatures :: "(json \<Rightarrow> string) \<Rightarrow> (string \<times> json) list \<Rightarrow> string list" where
  "signatures stringify calls \<equiv> map (\<lambda>(tool, args). buildToolCallSignature stringify tool args) calls"

lemma gov_run_state:
  "gov_run stringify cfg calls =
    \<lparr>rg_streak = trailing_run (signatures stringify calls), rg_total_calls = length calls,
     rg_last_signature = (if calls = [] then None else Some (last (signatures stringify calls)))\<rparr>"
proof (induction calls rule: rev_induct)
  case Nil
  then show ?case by (simp add: gov_run_def createToolCallRepeatGovernorState_def)
next
  case (snoc c calls)
  obtain tool args where c: "c = (tool, args)" by fastforce
  have "gov_run stringify cfg (calls @ [c]) =
      rd_state (advanceToolCallRepeatGovernor stringify (gov_run stringify cfg calls) tool args cfg)"
    by (simp add: gov_run_def c)
  then show ?case
    by (auto simp: snoc.IH advanceToolCallRepeatGovernor_def Let_def trailing_run_snoc c)
qed

lemma default_escalation:
  "escalation_at no_config n =
    (if 12 \<le> n then ForceStop else if n = 8 then DeadEnd else if n = 5 then Detailed
     else if n = 3 then Gentle else NoEscalation)"
proof -
  have "hits n (Some (of_nat k)) \<longleftrightarrow> n = k" and "reaches n (Some (of_nat k)) \<longleftrightarrow> k \<le> n" for k
    by (auto simp: hits_def reaches_def)
  from this [of 12] this [of 8] this [of 5] this [of 3] show ?thesis
    by (simp add: escalation_at_def no_config_def)
qed

section \<open>Key order\<close>

text \<open>\<open>reorder v w\<close>: the values differ at most in the order of object keys, at any depth.\<close>

inductive reorder :: "json \<Rightarrow> json \<Rightarrow> bool" where
  reorder_refl: "reorder v v"
| reorder_arr: "list_all2 reorder xs ys \<Longrightarrow> reorder (JArr xs) (JArr ys)"
| reorder_fields: "list_all2 (\<lambda>x y. fst x = fst y \<and> reorder (snd x) (snd y)) kvs kvs' \<Longrightarrow>
    reorder (JObj kvs) (JObj kvs')"
| reorder_keys: "distinct (map fst kvs) \<Longrightarrow> mset kvs = mset kvs' \<Longrightarrow> reorder (JObj kvs) (JObj kvs')"
| reorder_trans: "reorder u v \<Longrightarrow> reorder v w \<Longrightarrow> reorder u w"

lemma mset_eq_short:
  assumes "mset xs = mset ys" and "length ys \<le> 1"
  shows "xs = ys"
proof (cases ys)
  case Nil
  with assms show ?thesis by simp
next
  case (Cons y zs)
  with assms have "mset xs = {#y#}" "ys = [y]" by simp_all
  then show ?thesis by simp
qed

lemma map_sort_key_snd:
  "map (\<lambda>(k, v). (k, (f :: json \<Rightarrow> json) v)) (sort_key fst (kvs :: (string \<times> json) list)) = sort_key fst (map (\<lambda>(k, v). (k, f v)) kvs)"
proof -
  have "map (\<lambda>(k, v). (k, f v)) (insort_key fst x ys) = insort_key fst (fst x, f (snd x)) (map (\<lambda>(k, v). (k, f v)) ys)"
    for x :: "string \<times> json" and ys
    by (induction ys) (auto simp: case_prod_beta)
  then show ?thesis by (induction kvs) (auto simp: case_prod_beta)
qed

lemma sortValue_JObj: "sortValue (JObj kvs) = JObj (sort_key fst (map (\<lambda>(k, v). (k, sortValue v)) kvs))"
  by (simp add: map_sort_key_snd)

lemma reorder_sortValue: "reorder v w \<Longrightarrow> sortValue v = sortValue w"
proof (induction rule: reorder.induct)
  case (reorder_arr xs ys)
  then have "map sortValue xs = map sortValue ys" by (induction rule: list_all2_induct) auto
  then show ?case by simp
next
  case (reorder_fields kvs kvs')
  then have "map (\<lambda>(k, v). (k, sortValue v)) kvs = map (\<lambda>(k, v). (k, sortValue v)) kvs'"
    by (induction rule: list_all2_induct) (auto simp: case_prod_beta)
  then show ?case unfolding sortValue_JObj by simp
next
  case (reorder_keys kvs kvs')
  have "sort_key fst kvs = sort_key fst kvs'"
  proof (rule properties_for_sort_key [symmetric])
    show "mset (sort_key fst kvs) = mset kvs'" using reorder_keys by simp
    show "filter (\<lambda>x. fst k = fst x) (sort_key fst kvs) = filter (\<lambda>x. fst k = fst x) kvs'" for k
    proof -
      have one: "length (filter (\<lambda>x. fst k = fst x) zs) \<le> 1" if "distinct (map fst zs)" for zs :: "(string \<times> json) list"
        using that by (induction zs) (auto simp: filter_empty_conv)
      have dist': "distinct (map fst kvs')"
        using reorder_keys mset_eq_imp_distinct_iff [of "map fst kvs" "map fst kvs'"] by simp
      have m: "mset (filter (\<lambda>x. fst k = fst x) (sort_key fst kvs)) = mset (filter (\<lambda>x. fst k = fst x) kvs')"
        using reorder_keys(2) by simp
      have "length (filter (\<lambda>x. fst k = fst x) kvs') \<le> 1" by (rule one [OF dist'])
      with m show ?thesis by (rule mset_eq_short)
    qed
    show "sorted (map fst (sort_key fst kvs))" by simp
  qed
  then show ?case by simp
qed simp_all

section \<open>Cycles\<close>

lemma count_cycles_sound:
  assumes "c = count_cycles period history k0"
  shows "k0 \<le> c \<and> (\<forall>k. k0 < k \<and> k \<le> c \<longrightarrow> period * k \<le> length history \<and> block_matches period history k)"
  using assms
proof (induction period history k0 arbitrary: c rule: count_cycles.induct)
  case (1 period history k0)
  show ?case
  proof (cases "period > 0 \<and> length history \<ge> period * (k0 + 1) \<and> block_matches period history (k0 + 1)")
    case True
    with 1 have c: "c = count_cycles period history (k0 + 1)" by (simp add: count_cycles.simps [of _ _ k0])
    from 1(1) [OF True c] True show ?thesis
      by (metis Suc_eq_plus1 Suc_leI Suc_le_lessD le_neq_implies_less less_imp_le)
  next
    case False
    with 1(2) have "c = k0" by (subst (asm) count_cycles.simps) auto
    then show ?thesis by (auto simp: not_less [symmetric])
  qed
qed

lemma block_matches_iff:
  "block_matches period history k \<longleftrightarrow>
    (\<forall>i<period. same_outcome (history ! (length history - period * k + i))
                             (history ! (length history - period + i)))"
  unfolding block_matches_def list_all_iff set_upt by (simp add: Ball_def)

lemma check_periods_sound:
  assumes "check_periods warnAfter stopAfter history periods = Some d"
  shows "\<exists>period cycles. period \<in> set periods \<and> od_period d = Some period \<and> od_cycles d = Some cycles \<and>
     warnAfter \<le> cycles \<and> period \<le> length history \<and>
     (od_should_force_stop d \<longleftrightarrow> stopAfter \<le> cycles) \<and>
     (\<forall>k. 1 < k \<and> k \<le> cycles \<longrightarrow> period * k \<le> length history \<and> block_matches period history k) \<and>
     (\<exists>e\<in>set (last_n period history). \<not> oe_repeatable e) \<and>
     (\<exists>e\<in>set (last_n period history). \<not> same_outcome e (last_n period history ! 0)) \<and>
     od_history d = history \<and> \<not> od_made_progress d"
  using assms
proof (induction periods)
  case (Cons period periods)
  let ?tail = "last_n period history"
  show ?case
  proof (cases "length ?tail < period \<or> list_all (\<lambda>e. same_outcome e (?tail ! 0)) ?tail \<or>
      count_cycles period history 1 < warnAfter \<or> list_all oe_repeatable ?tail")
    case True
    with Cons.prems have "check_periods warnAfter stopAfter history periods = Some d"
      by (auto simp: Let_def split: if_splits)
    from Cons.IH [OF this] show ?thesis by auto
  next
    case False
    then have d: "d = \<lparr>od_history = history, od_made_progress = False,
        od_should_force_stop = (count_cycles period history 1 \<ge> stopAfter),
        od_period = Some period, od_cycles = Some (count_cycles period history 1),
        od_reminder = (if count_cycles period history 1 = warnAfter
                       then Some (period, count_cycles period history 1) else None)\<rparr>"
      using Cons.prems by (auto simp: Let_def)
    have "period \<le> length history" using False by (auto simp: last_n_def)
    moreover have "(\<exists>e\<in>set ?tail. \<not> oe_repeatable e) \<and> (\<exists>e\<in>set ?tail. \<not> same_outcome e (?tail ! 0))"
      using False by (auto simp: list_all_iff)
    moreover have "warnAfter \<le> count_cycles period history 1" using False by simp
    ultimately show ?thesis
      using count_cycles_sound [where period = period and history = history and ?k0.0 = 1, OF refl] unfolding d by simp
  qed
qed simp

lemma length_last_n_le: "length (last_n n xs) \<le> n"
  by (simp add: last_n_def)

section \<open>Properties\<close>

text \<open>Whatever calls were made before, the streak the repeat governor reports for a call is the
  length of the run of identical signatures that the call ends; with the default thresholds it stops
  the run exactly when that length is at least 12, and reminds exactly at lengths 3, 5 and 8.\<close>

theorem repeat_governor_counts_trailing_run:
  fixes stringify calls tool args
  defines "d \<equiv> advanceToolCallRepeatGovernor stringify (gov_run stringify no_config calls) tool args no_config"
    and "run \<equiv> trailing_run (signatures stringify calls @ [buildToolCallSignature stringify tool args])"
  shows "rd_streak d = run \<and> (rd_should_force_stop d \<longleftrightarrow> 12 \<le> run) \<and>
    (rd_escalation d = ForceStop \<longleftrightarrow> 12 \<le> run) \<and>
    (rd_reminder d \<noteq> None \<longleftrightarrow> run \<in> {3, 5, 8}) \<and>
    rg_total_calls (rd_state d) = length calls + 1"
proof -
  have streak: "rd_streak d = run"
    by (auto simp: d_def run_def advanceToolCallRepeatGovernor_def Let_def gov_run_state trailing_run_snoc)
  have esc: "rd_escalation d = escalation_at no_config run"
    using streak by (simp add: d_def advanceToolCallRepeatGovernor_def Let_def)
  have stop: "rd_should_force_stop d \<longleftrightarrow> 12 \<le> run"
    using streak by (simp add: d_def advanceToolCallRepeatGovernor_def Let_def no_config_def reaches_def)
  have rem: "rd_reminder d \<noteq> None \<longleftrightarrow> rd_escalation d \<in> {DeadEnd, Detailed, Gentle}"
    by (simp add: d_def advanceToolCallRepeatGovernor_def Let_def)
  have "rg_total_calls (rd_state d) = length calls + 1"
    by (simp add: d_def advanceToolCallRepeatGovernor_def Let_def gov_run_state)
  with streak stop rem esc show ?thesis by (simp add: default_escalation)
qed

text \<open>The signature of a call does not depend on the order of the keys of its arguments, at any
  depth: two calls of one tool whose arguments differ only in key order extend the same streak.\<close>

theorem signature_ignores_key_order:
  assumes "reorder args args'"
  shows "buildToolCallSignature stringify tool args = buildToolCallSignature stringify tool args'"
  using reorder_sortValue [OF assms] by (simp add: buildToolCallSignature_def canonicalizeToolCallArgs_def)

theorem signature_ignores_key_order_witness:
  "buildToolCallSignature (\<lambda>v. if v = JNull then ''null'' else ''x'') ''read''
     (JObj [(''path'', JStr ''a''), (''limit'', JNum 3)]) =
   buildToolCallSignature (\<lambda>v. if v = JNull then ''null'' else ''x'') ''read''
     (JObj [(''limit'', JNum 3), (''path'', JStr ''a'')])"
  by (rule signature_ignores_key_order, rule reorder_keys) simp_all

text \<open>The repeat state survives being written to the run metadata and read back.\<close>

theorem repeat_state_roundtrip:
  "hydrateToolCallRepeatGovernorState num_of_text (encodeToolCallRepeatGovernorState st) = st"
  by (cases st)
    (simp add: hydrateToolCallRepeatGovernorState_def encodeToolCallRepeatGovernorState_def
      is_js_object_def jget_def hydrate_count_def js_number_def split: option.split)

text \<open>The outcome governor force-stops only on evidence: the retained history ends in at least
  the configured number of copies of one block of calls with equal results, the block is not one
  repeated call, and not all its calls were declared repeatable. The history never holds more than
  \<open>maxPeriod * stopAfter\<close> entries.\<close>

lemma outcome_force_stop_is_justified:
  fixes stringify sha state tool args result cfg maxPeriod warnAfter stopAfter
  defines "d \<equiv> advanceToolCallOutcomeGovernor stringify sha state tool args result cfg"
  assumes "cycle_bounds cfg = (maxPeriod, warnAfter, stopAfter)" and "od_should_force_stop d"
  shows "length (od_history d) \<le> maxPeriod * stopAfter \<and>
    (\<exists>period. 2 \<le> period \<and> period \<le> maxPeriod \<and>
      (\<forall>k i. 1 < k \<and> k \<le> stopAfter \<and> i < period \<longrightarrow>
         period * k \<le> length (od_history d) \<and>
         same_outcome (od_history d ! (length (od_history d) - period * k + i))
                      (od_history d ! (length (od_history d) - period + i))) \<and>
      (\<exists>e\<in>set (last_n period (od_history d)). \<not> oe_repeatable e) \<and>
      (\<exists>e\<in>set (last_n period (od_history d)). \<not> same_outcome e (last_n period (od_history d) ! 0)))"
proof -
  let ?h = "last_n (maxPeriod * stopAfter)
    (state @ [\<lparr>oe_signature = sha (buildToolCallSignature stringify tool args),
               oe_result_hash = sha (cr_resultText result), oe_repeatable = cr_repeatable result\<rparr>])"
  have chk: "check_periods warnAfter stopAfter ?h [2..<Suc maxPeriod] = Some d"
    using assms(2,3) unfolding d_def advanceToolCallOutcomeGovernor_def
    by (auto simp: Let_def split: if_splits option.splits)
  from check_periods_sound [OF chk] obtain period cycles where p:
    "period \<in> set [2..<Suc maxPeriod]" "od_should_force_stop d \<longleftrightarrow> stopAfter \<le> cycles"
    "\<forall>k. 1 < k \<and> k \<le> cycles \<longrightarrow> period * k \<le> length ?h \<and> block_matches period ?h k"
    "\<exists>e\<in>set (last_n period ?h). \<not> oe_repeatable e"
    "\<exists>e\<in>set (last_n period ?h). \<not> same_outcome e (last_n period ?h ! 0)"
    "od_history d = ?h" by blast
  from p(1) have range: "2 \<le> period \<and> period \<le> maxPeriod" by auto
  have "period * k \<le> length (od_history d) \<and>
      same_outcome (od_history d ! (length (od_history d) - period * k + i))
                   (od_history d ! (length (od_history d) - period + i))"
    if "1 < k" "k \<le> stopAfter" "i < period" for k i
    using p(2,3) assms(3) that unfolding p(6) block_matches_iff by (meson order_trans)
  with range p(4,5) length_last_n_le [of "maxPeriod * stopAfter"] show ?thesis
    unfolding p(6) by blast
qed

definition sample_outcome_state :: "outcome_entry list" where
  "sample_outcome_state =
    concat (replicate 4 [\<lparr>oe_signature = ''a'' @ [CHR 0x00] @ ''v'', oe_result_hash = ''x'', oe_repeatable = False\<rparr>,
       \<lparr>oe_signature = ''b'' @ [CHR 0x00] @ ''v'', oe_result_hash = ''y'', oe_repeatable = False\<rparr>]) @
    [\<lparr>oe_signature = ''a'' @ [CHR 0x00] @ ''v'', oe_result_hash = ''x'', oe_repeatable = False\<rparr>]"

theorem outcome_force_stop_is_justified_witness:
  "\<exists>period. 2 \<le> period \<and> period \<le> 4 \<and>
     (\<exists>e\<in>set (last_n period (od_history (advanceToolCallOutcomeGovernor (\<lambda>_. ''v'') (\<lambda>t. t)
        sample_outcome_state ''b'' JNull \<lparr>cr_resultText = ''y'', cr_repeatable = False, cr_progress = False\<rparr>
        no_config))). \<not> oe_repeatable e)"
proof -
  have bounds: "cycle_bounds no_config = (4, 3, 5)"
    by (simp add: cycle_bounds_def no_config_def bounded_cfg_def Let_def)
  have stop: "od_should_force_stop (advanceToolCallOutcomeGovernor (\<lambda>_. ''v'') (\<lambda>t. t)
        sample_outcome_state ''b'' JNull \<lparr>cr_resultText = ''y'', cr_repeatable = False, cr_progress = False\<rparr>
        no_config)"
    by code_simp
  from outcome_force_stop_is_justified [OF bounds stop] show ?thesis by blast
qed

text \<open>The guardrail over a sequence of calls, given by their signatures and names.\<close>

fun guard_run :: "guard_state \<Rightarrow> (string \<times> string) list \<Rightarrow> rat option \<Rightarrow> rat option \<Rightarrow> guard_state" where
  "guard_run st [] maxSame maxTotal = st"
| "guard_run st ((sig, name) # calls) maxSame maxTotal =
    guard_run (gd_state (guard_advance st sig name maxSame maxTotal)) calls maxSame maxTotal"

lemma guard_run_snoc:
  "guard_run st (calls @ [(sig, name)]) ms mt =
     gd_state (guard_advance (guard_run st calls ms mt) sig name ms mt)"
  by (induction st calls ms mt rule: guard_run.induct) simp_all

lemma guard_state_next:
  "gd_state (guard_advance st sig name ms mt) =
    \<lparr>gl_totalCalls = gl_totalCalls st + 1,
     gl_consecutiveSameCalls =
       (if gl_lastSignature st = Some sig then gl_consecutiveSameCalls st + 1 else 1),
     gl_lastSignature = Some sig\<rparr>"
  by (simp add: guard_advance_def Let_def split: option.splits)

lemma guard_run_state:
  "guard_run createToolLoopGuardrailState calls ms mt =
    \<lparr>gl_totalCalls = length calls, gl_consecutiveSameCalls = trailing_run (map fst calls),
     gl_lastSignature = (if calls = [] then None else Some (fst (last calls)))\<rparr>"
proof (induction calls rule: rev_induct)
  case Nil
  then show ?case by (simp add: createToolLoopGuardrailState_def)
next
  case (snoc c calls)
  obtain sig name where c: "c = (sig, name)" by fastforce
  show ?case
    unfolding c guard_run_snoc guard_state_next snoc.IH
    by (auto simp: trailing_run_snoc last_map)
qed

text \<open>The loop guardrail stops a call exactly when it is beyond the eighth of the loop, or ends a
  run of at least three calls with one signature; no loop gets past nine calls.\<close>

theorem guardrail_stops_exactly:
  fixes stringify le parse calls call
  defines "sigs \<equiv> map (normalizeToolCallSignature stringify le parse) (calls @ [call])"
    and "st \<equiv> guard_run createToolLoopGuardrailState
      (map (\<lambda>c. (normalizeToolCallSignature stringify le parse c, tc_name c)) calls) (Some 3) (Some 8)"
  shows "gd_shouldStop (advanceToolLoopGuardrail stringify le parse st call Absent Absent) \<longleftrightarrow>
    8 < length sigs \<or> 3 \<le> trailing_run sigs"
proof -
  let ?n = "normalizeToolCallSignature stringify le parse"
  have run: "trailing_run sigs = (if gl_lastSignature st = Some (?n call) then gl_consecutiveSameCalls st + 1 else 1)"
    by (auto simp: sigs_def st_def guard_run_state trailing_run_snoc comp_def last_map)
  have len: "length sigs = gl_totalCalls st + 1"
    by (simp add: sigs_def st_def guard_run_state)
  have total: "rat_of_nat n > 8 \<longleftrightarrow> 8 < n" for n
    using of_nat_less_iff [of 8 n, where 'a = rat] by simp
  have same: "reaches n (Some 3) \<longleftrightarrow> 3 \<le> n" for n
    using of_nat_le_iff [of 3 n, where 'a = rat] by (simp add: reaches_def)
  show ?thesis
    unfolding advanceToolLoopGuardrail_def guard_advance_def Let_def cfg_value.simps run len
    by (simp add: total same del: of_nat_add)
qed

definition observe_all ::
  "(json \<Rightarrow> string) \<Rightarrow> (string \<Rightarrow> string) \<Rightarrow> (string \<Rightarrow> string \<Rightarrow> bool) \<Rightarrow> (string \<times> json) list \<Rightarrow> advisor_counts" where
  "observe_all stringify sha le ops =
    fold (\<lambda>(op, params) counts. snd (observe stringify sha le counts op params)) ops (advisor_reset [])"

lemma observe_all_count:
  "(case map_of (observe_all stringify sha le ops) h of Some n \<Rightarrow> n | None \<Rightarrow> 0) =
     count_list (map (\<lambda>(op, params). argsHash stringify sha le op params) ops) h"
proof (induction ops rule: rev_induct)
  case Nil
  then show ?case by (simp add: observe_all_def advisor_reset_def)
next
  case (snoc x ops)
  obtain op params where x: "x = (op, params)" by fastforce
  have "observe_all stringify sha le (ops @ [x]) =
      snd (observe stringify sha le (observe_all stringify sha le ops) op params)"
    by (simp add: observe_all_def x)
  with snoc show ?case
    by (auto simp: observe_def Let_def js_map_simps x split: option.splits)
qed

text \<open>The advisor counts every observation of a hash since the last reset, and gives advice
  exactly at the third, fifth and eighth.\<close>

theorem advisor_counts_repeats:
  fixes stringify sha le ops op params
  defines "h \<equiv> argsHash stringify sha le op params"
    and "o1 \<equiv> fst (observe stringify sha le (observe_all stringify sha le ops) op params)"
  shows "ro_repeat_count o1 =
      count_list (map (\<lambda>(op, params). argsHash stringify sha le op params) ops) h + 1 \<and>
    (ro_advice o1 \<noteq> None \<longleftrightarrow> ro_repeat_count o1 \<in> {3, 5, 8})"
proof -
  have count: "ro_repeat_count o1 =
      count_list (map (\<lambda>(op, params). argsHash stringify sha le op params) ops) h + 1"
    by (simp add: o1_def h_def observe_def Let_def observe_all_count)
  have "ro_advice o1 \<noteq> None \<longleftrightarrow> ro_repeat_count o1 \<in> {3, 5, 8}"
    by (auto simp: o1_def observe_def Let_def TOOL_REPEAT_THRESHOLDS_def)
  with count show ?thesis ..
qed

end
