(* ===== verification/Worker_Goal.thy ===== *)
theory Worker_Goal
  imports Json
begin

text \<open>
  The goal state machine of \<open>src/libs/core/workforce/worker-goal.ts\<close>: creation, the parsing
  of a \<open>goal:update\<close> signal, the transitions with the blocked audit, pause, resume and
  demotion, the opt-in budgets, and what is persisted. A clock reading is an argument (\<open>ts\<close>);
  the prompt texts and the tool definitions are not modelled. The ratio of a budget is the exact
  quotient.
\<close>

section \<open>State\<close>

datatype goal_status = GActive | GPaused | GBlocked | GComplete
datatype terminal_kind = Technical | Business

record goal_budget =
  tokenBudget :: "int option"
  turnBudget :: "int option"
  wallClockBudgetMs :: "int option"

record budget_stats =
  tokensUsed :: int
  turnsUsed :: int
  wallClockMsUsed :: int

record goal =
  goalId :: ident
  objective :: string
  goal_state :: goal_status
  turnCount :: nat
  blockedStreak :: nat
  pendingBlockerSignature :: "string option"
  terminalKind :: "terminal_kind option"
  terminalReason :: "string option"
  missionId :: "ident option"
  createdAt :: string
  updatedAt :: string
  budget :: "goal_budget option"
  budgetStats :: "budget_stats option"

definition GOAL_BLOCKED_PERSIST_TURNS :: nat where
  "GOAL_BLOCKED_PERSIST_TURNS = 3"

definition createGoal :: "ident \<Rightarrow> string \<Rightarrow> ident option \<Rightarrow> goal_budget option \<Rightarrow> string \<Rightarrow> goal" where
  "createGoal gid obj mission bud ts =
    \<lparr>goalId = gid, objective = obj, goal_state = GActive, turnCount = 0, blockedStreak = 0,
     pendingBlockerSignature = None, terminalKind = None, terminalReason = None, missionId = mission,
     createdAt = ts, updatedAt = ts, budget = bud, budgetStats = None\<rparr>"

section \<open>The update signal\<close>

datatype signal_status = SigContinue | SigComplete | SigBlocked

record goal_signal =
  sig_status :: signal_status
  sig_reason :: "string option"
  sig_impossible :: bool

definition parseGoalUpdateSignal :: "json \<Rightarrow> goal_signal option" where
  "parseGoalUpdateSignal input =
    (if \<not> is_js_object input then None
     else
       let st = (if jget input ''status'' = JStr ''continue'' then Some SigContinue
                 else if jget input ''status'' = JStr ''complete'' then Some SigComplete
                 else if jget input ''status'' = JStr ''blocked'' then Some SigBlocked
                 else None)
       in case st of None \<Rightarrow> None
          | Some k \<Rightarrow> Some \<lparr>sig_status = k,
              sig_reason = (case jget input ''reason'' of
                  JStr r \<Rightarrow> if js_trim r \<noteq> [] then Some (js_trim r) else None | _ \<Rightarrow> None),
              sig_impossible = (jget input ''impossible'' = JBool True)\<rparr>)"

definition blockerSignature :: "string option \<Rightarrow> string" where
  "blockerSignature reason =
    str_or (collapse_spaces (js_lower (js_trim (case reason of Some r \<Rightarrow> r | None \<Rightarrow> []))))
      ''unspecified''"

section \<open>Transitions\<close>

datatype outcome_kind = OutContinue | OutComplete | OutBlocked | OutBlockedRejected

record goal_outcome =
  out_kind :: outcome_kind
  out_state :: goal
  out_blockedStreak :: nat
  out_blockedThreshold :: nat

definition applyGoalUpdate :: "goal \<Rightarrow> goal_signal \<Rightarrow> nat option \<Rightarrow> string \<Rightarrow> goal_outcome" where
  "applyGoalUpdate g signal persist ts =
    (let threshold = (case persist of Some n \<Rightarrow> n | None \<Rightarrow> GOAL_BLOCKED_PERSIST_TURNS) in
     if goal_state g \<noteq> GActive then
       \<lparr>out_kind = OutContinue, out_state = g, out_blockedStreak = blockedStreak g,
        out_blockedThreshold = threshold\<rparr>
     else if sig_status signal = SigContinue then
       \<lparr>out_kind = OutContinue,
        out_state = g\<lparr>blockedStreak := 0, pendingBlockerSignature := None, updatedAt := ts\<rparr>,
        out_blockedStreak = 0, out_blockedThreshold = threshold\<rparr>
     else if sig_status signal = SigComplete then
       \<lparr>out_kind = OutComplete,
        out_state = g\<lparr>goal_state := GComplete, terminalKind := None, terminalReason := sig_reason signal,
                      blockedStreak := 0, pendingBlockerSignature := None, updatedAt := ts\<rparr>,
        out_blockedStreak = 0, out_blockedThreshold = threshold\<rparr>
     else if sig_impossible signal then
       \<lparr>out_kind = OutBlocked,
        out_state = g\<lparr>goal_state := GBlocked, terminalKind := Some Business,
                      terminalReason := Some (case sig_reason signal of Some r \<Rightarrow> r
                        | None \<Rightarrow> ''objective intrinsically impossible as stated''),
                      updatedAt := ts\<rparr>,
        out_blockedStreak = blockedStreak g, out_blockedThreshold = threshold\<rparr>
     else
       let signature = blockerSignature (sig_reason signal);
           streak = (if pendingBlockerSignature g = Some signature then blockedStreak g + 1 else 1)
       in if streak \<ge> threshold then
            \<lparr>out_kind = OutBlocked,
             out_state = g\<lparr>goal_state := GBlocked, terminalKind := Some Business,
                           terminalReason := Some (case sig_reason signal of Some r \<Rightarrow> r
                             | None \<Rightarrow> ''blocker persisted across goal turns''),
                           blockedStreak := streak, pendingBlockerSignature := Some signature,
                           updatedAt := ts\<rparr>,
             out_blockedStreak = streak, out_blockedThreshold = threshold\<rparr>
          else
            \<lparr>out_kind = OutBlockedRejected,
             out_state = g\<lparr>blockedStreak := streak, pendingBlockerSignature := Some signature,
                           updatedAt := ts\<rparr>,
             out_blockedStreak = streak, out_blockedThreshold = threshold\<rparr>)"

definition incrementGoalTurn :: "goal \<Rightarrow> string \<Rightarrow> goal" where
  "incrementGoalTurn g ts = g\<lparr>turnCount := turnCount g + 1, updatedAt := ts\<rparr>"

definition pauseGoal :: "goal \<Rightarrow> string \<Rightarrow> string \<Rightarrow> goal" where
  "pauseGoal g reason ts =
    (if goal_state g \<noteq> GActive then g
     else g\<lparr>goal_state := GPaused, terminalKind := Some Technical, terminalReason := Some reason,
            updatedAt := ts\<rparr>)"

definition demoteActiveOnResume :: "goal \<Rightarrow> string \<Rightarrow> goal" where
  "demoteActiveOnResume g ts =
    (if goal_state g \<noteq> GActive then g
     else g\<lparr>goal_state := GPaused, terminalKind := Some Technical,
            terminalReason := Some ''process resumed: prior turn is no longer alive'', updatedAt := ts\<rparr>)"

definition resumeGoal :: "goal \<Rightarrow> string \<Rightarrow> goal" where
  "resumeGoal g ts =
    (if goal_state g \<noteq> GPaused then g
     else g\<lparr>goal_state := GActive, terminalKind := None, terminalReason := None, updatedAt := ts\<rparr>)"

section \<open>Budgets\<close>

definition createGoalBudgetStats :: budget_stats where
  "createGoalBudgetStats = \<lparr>tokensUsed = 0, turnsUsed = 0, wallClockMsUsed = 0\<rparr>"

definition ratio_of :: "int option \<Rightarrow> int \<Rightarrow> rat list" where
  "ratio_of limit used =
    (case limit of Some l \<Rightarrow> if l > 0 then [of_int used / of_int l] else [] | None \<Rightarrow> [])"

definition goalBudgetUsageRatio :: "goal_budget option \<Rightarrow> budget_stats option \<Rightarrow> rat" where
  "goalBudgetUsageRatio bud stats =
    (case bud of None \<Rightarrow> 0
     | Some b \<Rightarrow>
         let s = (case stats of Some x \<Rightarrow> x | None \<Rightarrow> createGoalBudgetStats);
             ratios = ratio_of (tokenBudget b) (tokensUsed s) @ ratio_of (turnBudget b) (turnsUsed s) @
                      ratio_of (wallClockBudgetMs b) (wallClockMsUsed s)
         in case ratios of [] \<Rightarrow> 0 | r # rs \<Rightarrow> fold max rs r)"

definition GOAL_CONVERGENCE_THRESHOLD_RATIO :: rat where
  "GOAL_CONVERGENCE_THRESHOLD_RATIO = 3 / 4"

definition over_budget :: "int option \<Rightarrow> int \<Rightarrow> bool" where
  "over_budget limit used = (case limit of Some l \<Rightarrow> used \<ge> l | None \<Rightarrow> False)"

definition limit_text :: "int option \<Rightarrow> string" where
  "limit_text limit = (case limit of Some l \<Rightarrow> show_int l | None \<Rightarrow> [])"

text \<open>The reason when a budget is reached, \<open>None\<close> otherwise.\<close>

definition checkGoalBudgetReached :: "goal_budget option \<Rightarrow> budget_stats option \<Rightarrow> string option" where
  "checkGoalBudgetReached bud stats =
    (case bud of None \<Rightarrow> None
     | Some b \<Rightarrow>
         let s = (case stats of Some x \<Rightarrow> x | None \<Rightarrow> createGoalBudgetStats)
         in if over_budget (tokenBudget b) (tokensUsed s)
            then Some (''goal budget reached: token budget '' @ limit_text (tokenBudget b))
            else if over_budget (turnBudget b) (turnsUsed s)
            then Some (''goal budget reached: turn budget '' @ limit_text (turnBudget b))
            else if over_budget (wallClockBudgetMs b) (wallClockMsUsed s)
            then Some (''goal budget reached: wall-clock budget '' @ limit_text (wallClockBudgetMs b) @ ''ms'')
            else None)"

definition accrueGoalBudgetUsage :: "goal \<Rightarrow> int option \<Rightarrow> int option \<Rightarrow> int option \<Rightarrow> goal" where
  "accrueGoalBudgetUsage g tokens turns wallClockMs =
    (if goal_state g \<noteq> GActive then g
     else
       let prev = (case budgetStats g of Some s \<Rightarrow> s | None \<Rightarrow> createGoalBudgetStats);
           or0 = (\<lambda>x. case x of Some n \<Rightarrow> n | None \<Rightarrow> 0)
       in g\<lparr>budgetStats := Some \<lparr>tokensUsed = tokensUsed prev + or0 tokens,
                                turnsUsed = turnsUsed prev + or0 turns,
                                wallClockMsUsed = wallClockMsUsed prev + or0 wallClockMs\<rparr>\<rparr>)"

definition blockGoalOnBudget :: "goal \<Rightarrow> string \<Rightarrow> string \<Rightarrow> goal" where
  "blockGoalOnBudget g reason ts =
    (if goal_state g \<noteq> GActive then g
     else g\<lparr>goal_state := GBlocked, terminalKind := Some Business, terminalReason := Some reason,
            updatedAt := ts\<rparr>)"

section \<open>Persistence\<close>

definition serializeGoalStateForPersistence :: "goal \<Rightarrow> goal option" where
  "serializeGoalStateForPersistence g = (if goal_state g = GComplete then None else Some g)"

definition restoreGoalState :: "goal \<Rightarrow> string \<Rightarrow> goal" where
  "restoreGoalState r ts = demoteActiveOnResume r ts"

section \<open>Histories of a goal\<close>

text \<open>The operations a driver can apply, and the signals that were applied while the goal was
  active (the effective ones).\<close>

datatype goal_op =
    Update goal_signal string
  | Turn string
  | Pause string string
  | Demote string
  | Resume string
  | Accrue "int option" "int option" "int option"
  | BudgetBlock string string

fun goal_apply :: "nat option \<Rightarrow> goal_op \<Rightarrow> goal \<Rightarrow> goal" where
  "goal_apply p (Update s ts) g = out_state (applyGoalUpdate g s p ts)"
| "goal_apply p (Turn ts) g = incrementGoalTurn g ts"
| "goal_apply p (Pause r ts) g = pauseGoal g r ts"
| "goal_apply p (Demote ts) g = demoteActiveOnResume g ts"
| "goal_apply p (Resume ts) g = resumeGoal g ts"
| "goal_apply p (Accrue a b c) g = accrueGoalBudgetUsage g a b c"
| "goal_apply p (BudgetBlock r ts) g = blockGoalOnBudget g r ts"

fun goal_run :: "nat option \<Rightarrow> goal_op list \<Rightarrow> goal \<Rightarrow> goal" where
  "goal_run p [] g = g"
| "goal_run p (op # ops) g = goal_run p ops (goal_apply p op g)"

fun effective_signals :: "nat option \<Rightarrow> goal_op list \<Rightarrow> goal \<Rightarrow> goal_signal list" where
  "effective_signals p [] g = []"
| "effective_signals p (op # ops) g =
    (case op of Update s ts \<Rightarrow> if goal_state g = GActive then [s] else [] | _ \<Rightarrow> []) @
    effective_signals p ops (goal_apply p op g)"

lemma goal_run_append: "goal_run p (xs @ ys) g = goal_run p ys (goal_run p xs g)"
  by (induction xs arbitrary: g) auto

lemma effective_append:
  "effective_signals p (xs @ ys) g = effective_signals p xs g @ effective_signals p ys (goal_run p xs g)"
  by (induction xs arbitrary: g) auto

lemmas goal_defs = applyGoalUpdate_def incrementGoalTurn_def pauseGoal_def demoteActiveOnResume_def
  resumeGoal_def accrueGoalBudgetUsage_def blockGoalOnBudget_def

section \<open>Well-formed goals\<close>

definition goal_wf :: "goal \<Rightarrow> bool" where
  "goal_wf g \<longleftrightarrow>
    (goal_state g = GActive \<longrightarrow> terminalKind g = None \<and> terminalReason g = None) \<and>
    (goal_state g = GPaused \<longrightarrow> terminalKind g = Some Technical \<and> terminalReason g \<noteq> None) \<and>
    (goal_state g = GBlocked \<longrightarrow> terminalKind g = Some Business \<and> terminalReason g \<noteq> None) \<and>
    (goal_state g = GComplete \<longrightarrow> terminalKind g = None)"

lemma goal_wf_apply: "goal_wf g \<Longrightarrow> goal_wf (goal_apply p op g)"
  by (cases op) (auto simp: goal_wf_def goal_defs Let_def)

lemma goal_wf_run: "goal_wf g \<Longrightarrow> goal_wf (goal_run p ops g)"
  by (induction ops arbitrary: g) (auto simp: goal_wf_apply)

text \<open>What an operation cannot change.\<close>

definition goal_settled :: "goal \<Rightarrow> bool" where
  "goal_settled g \<longleftrightarrow> goal_state g = GBlocked \<or> goal_state g = GComplete"

lemma settled_apply:
  assumes "goal_settled g"
  shows "goal_settled (goal_apply p op g) \<and> goal_state (goal_apply p op g) = goal_state g \<and>
    terminalReason (goal_apply p op g) = terminalReason g \<and>
    terminalKind (goal_apply p op g) = terminalKind g \<and>
    budgetStats (goal_apply p op g) = budgetStats g \<and> blockedStreak (goal_apply p op g) = blockedStreak g"
  using assms by (cases op) (auto simp: goal_settled_def goal_defs)

section \<open>The blocked audit\<close>

text \<open>The streak counts the last effective signals, all of them reports of the pending blocker.\<close>

definition reports_blocker :: "string \<Rightarrow> goal_signal \<Rightarrow> bool" where
  "reports_blocker b s \<longleftrightarrow>
    sig_status s = SigBlocked \<and> \<not> sig_impossible s \<and> blockerSignature (sig_reason s) = b"

definition streak_ok :: "goal \<Rightarrow> goal_signal list \<Rightarrow> bool" where
  "streak_ok g hs \<longleftrightarrow>
    (\<forall>b. pendingBlockerSignature g = Some b \<longrightarrow>
       blockedStreak g \<le> length hs \<and> (\<forall>s\<in>set (take (blockedStreak g) (rev hs)). reports_blocker b s)) \<and>
    (pendingBlockerSignature g = None \<longrightarrow> blockedStreak g = 0)"

lemma streak_ok_apply:
  assumes "streak_ok g hs"
  shows "goal_settled (goal_apply p op g) \<or>
    streak_ok (goal_apply p op g) (hs @ (case op of Update s ts \<Rightarrow> if goal_state g = GActive then [s] else [] | _ \<Rightarrow> []))"
proof (cases op)
  case (Update s ts)
  show ?thesis
  proof (cases "goal_state g = GActive")
    case False
    with assms Update show ?thesis by (simp add: applyGoalUpdate_def)
  next
    case True
    show ?thesis
    proof (cases "sig_status s")
      case SigContinue
      with True Update show ?thesis by (simp add: applyGoalUpdate_def streak_ok_def)
    next
      case SigComplete
      with True Update show ?thesis by (simp add: applyGoalUpdate_def goal_settled_def)
    next
      case SigBlocked
      show ?thesis
      proof (cases "sig_impossible s")
        case imp: True
        with True SigBlocked Update show ?thesis by (simp add: applyGoalUpdate_def goal_settled_def)
      next
        case False
        then have "reports_blocker (blockerSignature (sig_reason s)) s"
          using SigBlocked by (simp add: reports_blocker_def)
        with False True SigBlocked Update assms show ?thesis
          by (auto simp: applyGoalUpdate_def Let_def goal_settled_def streak_ok_def)
      qed
    qed
  qed
qed (use assms in \<open>auto simp: streak_ok_def goal_defs Let_def\<close>)

lemma settled_run: "goal_settled g \<Longrightarrow> goal_settled (goal_run p ops g)"
  by (induction ops arbitrary: g) (auto simp: settled_apply)

lemma streak_ok_run:
  "goal_settled (goal_run p ops (createGoal gid obj mission bud ts)) \<or>
   streak_ok (goal_run p ops (createGoal gid obj mission bud ts))
     (effective_signals p ops (createGoal gid obj mission bud ts))"
proof (induction ops rule: rev_induct)
  case Nil
  then show ?case by (simp add: streak_ok_def createGoal_def)
next
  case (snoc op ops)
  then show ?case
    using streak_ok_apply settled_apply by (auto simp: goal_run_append effective_append)
qed

section \<open>Properties\<close>

text \<open>C14. The blocked audit: whatever the history of a goal (at the default threshold), a report that turns
  an active goal blocked is a report of a blocker, and it either declares the objective impossible, which
  blocks at once, or is the third of three consecutive effective signals that all report this blocker.\<close>

theorem blocked_needs_three_reports:
  assumes "g = goal_run None ops (createGoal gid obj mission bud ts0)"
    and "goal_state g = GActive"
    and "out_kind (applyGoalUpdate g s None ts) = OutBlocked"
  defines "hist \<equiv> effective_signals None ops (createGoal gid obj mission bud ts0) @ [s]"
  shows "sig_status s = SigBlocked \<and>
    (sig_impossible s \<or>
     3 \<le> length hist \<and> (\<forall>x\<in>set (take 3 (rev hist)). reports_blocker (blockerSignature (sig_reason s)) x))"
proof -
  let ?b = "blockerSignature (sig_reason s)" and ?h = "effective_signals None ops (createGoal gid obj mission bud ts0)"
  from assms(2,3) have st: "sig_status s = SigBlocked"
    by (cases "sig_status s") (auto simp: applyGoalUpdate_def)
  have "3 \<le> length hist \<and> (\<forall>x\<in>set (take 3 (rev hist)). reports_blocker ?b x)" if ni: "\<not> sig_impossible s"
  proof -
    have rep: "reports_blocker ?b s" using st ni by (simp add: reports_blocker_def)
    have three: "3 \<le> (if pendingBlockerSignature g = Some ?b then blockedStreak g + 1 else 1)"
      using assms(2,3) st ni
      by (auto simp: applyGoalUpdate_def Let_def GOAL_BLOCKED_PERSIST_TURNS_def split: if_splits)
    then have pend: "pendingBlockerSignature g = Some ?b" and two: "2 \<le> blockedStreak g"
      by (auto split: if_splits)
    have "\<not> goal_settled g" using assms(2) by (simp add: goal_settled_def)
    with streak_ok_run [of None ops gid obj mission bud ts0] have "streak_ok g ?h" by (simp add: assms(1))
    with pend have len: "blockedStreak g \<le> length ?h"
      and all: "\<forall>x\<in>set (take (blockedStreak g) (rev ?h)). reports_blocker ?b x"
      by (auto simp: streak_ok_def)
    have "set (take 2 (rev ?h)) \<subseteq> set (take (blockedStreak g) (rev ?h))"
      using two by (rule set_take_subset_set_take)
    with all have "\<forall>x\<in>set (take 2 (rev ?h)). reports_blocker ?b x" by blast
    moreover have "take 3 (rev hist) = s # take 2 (rev ?h)" by (simp add: hist_def numeral_3_eq_3 numeral_2_eq_2)
    ultimately show ?thesis using rep len two by (auto simp: hist_def)
  qed
  with st show ?thesis by blast
qed

definition sample_block :: goal_signal where
  "sample_block = \<lparr>sig_status = SigBlocked, sig_reason = Some ''No  Access'', sig_impossible = False\<rparr>"

definition sample_goal :: goal where
  "sample_goal = createGoal ''g1'' ''ship it'' None None ''t0''"

theorem blocked_needs_three_reports_witness:
  "list_all (reports_blocker ''no access'')
     (take 3 (rev (effective_signals None [Update sample_block ''t1'', Turn ''t2'', Update sample_block ''t3'']
       sample_goal @ [sample_block])))"
proof -
  have a: "goal_state (goal_run None [Update sample_block ''t1'', Turn ''t2'', Update sample_block ''t3''] sample_goal) = GActive"
    by code_simp
  have i: "\<not> sig_impossible sample_block" by (simp add: sample_block_def)
  have k: "out_kind (applyGoalUpdate (goal_run None [Update sample_block ''t1'', Turn ''t2'', Update sample_block ''t3'']
      sample_goal) sample_block None ''t4'') = OutBlocked" by code_simp
  have b: "blockerSignature (sig_reason sample_block) = ''no access''" by code_simp
  from blocked_needs_three_reports [OF _ a [unfolded sample_goal_def] k [unfolded sample_goal_def]] i
  show ?thesis unfolding b sample_goal_def list_all_iff by blast
qed

text \<open>In every history of a goal the state and its terminal fields agree (paused is technical,
  blocked is business, active carries neither), and once the goal is blocked or complete no operation
  changes its state, reason, streak or budget totals.\<close>

lemma goal_history_invariant:
  fixes p ops gid obj mission bud ts op
  defines "g \<equiv> goal_run p ops (createGoal gid obj mission bud ts)"
  shows "goal_wf g \<and>
    (goal_state g \<in> {GBlocked, GComplete} \<longrightarrow>
       goal_state (goal_apply p op g) = goal_state g \<and> terminalReason (goal_apply p op g) = terminalReason g \<and>
       blockedStreak (goal_apply p op g) = blockedStreak g \<and> budgetStats (goal_apply p op g) = budgetStats g)"
proof -
  have "goal_wf (createGoal gid obj mission bud ts)" by (simp add: goal_wf_def createGoal_def)
  then have "goal_wf g" unfolding g_def by (rule goal_wf_run)
  with settled_apply [of g p op] show ?thesis by (auto simp: goal_settled_def)
qed

theorem goal_history_invariant_witness:
  "goal_state (goal_apply None (Resume ''t9'')
     (goal_run None [BudgetBlock ''out of tokens'' ''t1''] (createGoal ''g1'' ''ship it'' None None ''t0''))) = GBlocked"
  using goal_history_invariant [of None "[BudgetBlock ''out of tokens'' ''t1'']" "''g1''" "''ship it''" None None "''t0''"
      "Resume ''t9''"]
  by (simp add: createGoal_def blockGoalOnBudget_def)

text \<open>A goal restored after a restart never runs by itself: what was persisted is never a
  completed goal, the restored goal is paused or blocked, and one explicit resume brings back exactly
  the paused ones.\<close>

theorem restored_goal_is_not_running:
  assumes "serializeGoalStateForPersistence g = Some r"
  shows "goal_state (restoreGoalState r ts) \<in> {GPaused, GBlocked} \<and>
    (goal_state (resumeGoal (restoreGoalState r ts) ts') = GActive \<longleftrightarrow> goal_state g \<in> {GActive, GPaused}) \<and>
    turnCount (restoreGoalState r ts) = turnCount g \<and> blockedStreak (restoreGoalState r ts) = blockedStreak g"
  using assms
  by (cases "goal_state g")
    (auto simp: serializeGoalStateForPersistence_def restoreGoalState_def demoteActiveOnResume_def resumeGoal_def)

theorem restored_goal_is_not_running_witness:
  "goal_state (restoreGoalState sample_goal ''t1'') = GPaused"
proof -
  have "serializeGoalStateForPersistence sample_goal = Some sample_goal"
    by (simp add: serializeGoalStateForPersistence_def sample_goal_def createGoal_def)
  from restored_goal_is_not_running [OF this, of "''t1''" "''t2''"] show ?thesis
    by (auto simp: restoreGoalState_def demoteActiveOnResume_def sample_goal_def createGoal_def)
qed

lemma ratio_of_reached:
  "over_budget limit used \<Longrightarrow> limit = None \<or> 0 < the limit \<Longrightarrow> \<exists>r\<in>set (ratio_of limit used). 1 \<le> r"
  by (cases limit) (auto simp: over_budget_def ratio_of_def)

lemma fold_max_ge: "\<forall>x\<in>set (r # rs). x \<le> fold max rs (r :: rat)"
proof (induction rs arbitrary: r)
  case (Cons a rs)
  from Cons.IH [of "max a r"] show ?case by simp
qed simp

text \<open>Whenever a positive budget is reached, the usage ratio is at least one, so the status
  reminder is in convergence mode; and with no budget configured none is ever reached.\<close>

theorem budget_reached_implies_convergence:
  assumes "checkGoalBudgetReached bud stats \<noteq> None"
    and "\<forall>b. bud = Some b \<longrightarrow> (\<forall>l\<in>{tokenBudget b, turnBudget b, wallClockBudgetMs b}. l = None \<or> 0 < the l)"
  shows "1 \<le> goalBudgetUsageRatio bud stats \<and>
         GOAL_CONVERGENCE_THRESHOLD_RATIO \<le> goalBudgetUsageRatio bud stats \<and> bud \<noteq> None"
proof -
  from assms(1) obtain b where b: "bud = Some b" by (cases bud) (auto simp: checkGoalBudgetReached_def)
  define s where "s = (case stats of Some x \<Rightarrow> x | None \<Rightarrow> createGoalBudgetStats)"
  define ratios where "ratios = ratio_of (tokenBudget b) (tokensUsed s) @
    ratio_of (turnBudget b) (turnsUsed s) @ ratio_of (wallClockBudgetMs b) (wallClockMsUsed s)"
  from assms(1) b have "over_budget (tokenBudget b) (tokensUsed s) \<or> over_budget (turnBudget b) (turnsUsed s) \<or>
      over_budget (wallClockBudgetMs b) (wallClockMsUsed s)"
    by (auto simp: checkGoalBudgetReached_def s_def Let_def split: if_splits)
  then have over: "over_budget (tokenBudget b) (tokensUsed s) \<or> over_budget (turnBudget b) (turnsUsed s) \<or>
      over_budget (wallClockBudgetMs b) (wallClockMsUsed s)" .
  have "over_budget (tokenBudget b) (tokensUsed s) \<Longrightarrow> \<exists>r\<in>set (ratio_of (tokenBudget b) (tokensUsed s)). 1 \<le> r"
    and "over_budget (turnBudget b) (turnsUsed s) \<Longrightarrow> \<exists>r\<in>set (ratio_of (turnBudget b) (turnsUsed s)). 1 \<le> r"
    and "over_budget (wallClockBudgetMs b) (wallClockMsUsed s) \<Longrightarrow>
      \<exists>r\<in>set (ratio_of (wallClockBudgetMs b) (wallClockMsUsed s)). 1 \<le> r"
    using assms(2) b ratio_of_reached by simp_all
  with over have "\<exists>r\<in>set ratios. 1 \<le> r"
    unfolding ratios_def set_append by blast
  then obtain r where r: "r \<in> set ratios" "1 \<le> r" by blast
  then obtain r0 rs where "ratios = r0 # rs" by (cases ratios) auto
  with r have "1 \<le> fold max rs r0" using fold_max_ge by (metis order_trans)
  with \<open>ratios = r0 # rs\<close> have "1 \<le> goalBudgetUsageRatio bud stats"
    by (simp add: goalBudgetUsageRatio_def b Let_def s_def [symmetric] ratios_def [symmetric])
  with b show ?thesis by (auto simp: GOAL_CONVERGENCE_THRESHOLD_RATIO_def)
qed

theorem budget_reached_implies_convergence_witness:
  "1 \<le> goalBudgetUsageRatio (Some \<lparr>tokenBudget = Some 100, turnBudget = None, wallClockBudgetMs = Some 50\<rparr>)
     (Some \<lparr>tokensUsed = 10, turnsUsed = 2, wallClockMsUsed = 60\<rparr>)"
proof -
  have "checkGoalBudgetReached (Some \<lparr>tokenBudget = Some 100, turnBudget = None, wallClockBudgetMs = Some 50\<rparr>)
     (Some \<lparr>tokensUsed = 10, turnsUsed = 2, wallClockMsUsed = 60\<rparr>) \<noteq> None"
    by (simp add: checkGoalBudgetReached_def over_budget_def Let_def)
  from budget_reached_implies_convergence [OF this] show ?thesis by simp
qed

end
