(* ===== verification/Mesh_Broker.thy ===== *)
theory Mesh_Broker
  imports Complex_Main Kyb_Prelude "HOL-Library.List_Lexorder" "HOL-Library.Char_ord" "HOL-Library.Product_Lexorder"
begin

text \<open>
  The ledger of the mesh hub: the records of \<open>src/libs/core/mesh/mesh-hub-contract.ts\<close> and
  the operations of \<open>mesh-message-broker.ts\<close>. A tenant's \<open>deliveries.jsonl\<close> and
  \<open>dead-letter.jsonl\<close> are append-only lists of rows; every reader takes the latest row per key.

  A timestamp is its epoch millisecond (the ISO strings of the code have one fixed format, in which
  text order and time order agree); \<open>None\<close> is a text that does not parse. Parameters: the hash
  \<open>sha\<close>, random identifiers and the clock, which are arguments. Events are kept as pairs of type
  and delivery. The compaction of a store (which keeps the latest row per key) and the file layer
  are not modelled; tenants are listed in the order of their first delivery. Delivery identifiers are
  hexadecimal digests with a fixed prefix, on which locale order is the order of the characters.
\<close>

section \<open>Records\<close>

datatype mesh_selector =
    PeerSelector ident
  | RoleSelector string
  | CapabilitySelector string "string option"
  | TopicSelector string

datatype request_kind = ReviewRequest | WorkitemClaim | WorkitemHandoff | WorkitemStatusUpdate
  | CapabilityQuery | NotificationPublish

datatype classification = Public | Confidential
datatype storage_class = ArtifactStore | Vault | ExternalRef

datatype delivery_status = Accepted | Queued | Dispatched | Acknowledged | Completed | Rejected
  | Expired | DeadLettered

datatype failure_class = TransportError | PolicyDenied | FExpired | RecipientRejected | FDeadLettered

datatype route_decision = Direct | RequiresOperatorSelection | RouteRejected

record payload =
  pl_classification :: classification
  pl_artifact_ref :: string
  pl_integrity_hash :: string
  pl_storage_class :: storage_class

record tenant_scope =
  ts_tenant_id :: ident
  ts_scope :: string

record mesh_request =
  mr_request_id :: ident
  mr_tenant_scope :: tenant_scope
  mr_sender_peer_id :: ident
  mr_created_at :: "ms option"
  mr_ttl_ms :: ms
  mr_idempotency_key :: string
  mr_correlation_id :: ident
  mr_request_kind :: request_kind
  mr_selector :: mesh_selector
  mr_payload :: payload

record mesh_route =
  rt_selector :: mesh_selector
  rt_decision :: route_decision
  rt_selected_peer_id :: "ident option"
  rt_selected_at :: "ms option"
  rt_policy_version :: string

record delivery =
  d_id :: ident
  d_message_id :: ident
  d_request_id :: ident
  d_tenant_scope :: tenant_scope
  d_request_kind :: request_kind
  d_selector :: mesh_selector
  d_payload :: payload
  d_attempt_count :: nat
  d_status :: delivery_status
  d_route :: mesh_route
  d_created_at :: ms
  d_retry_at :: "ms option"
  d_failure_class :: "failure_class option"
  d_idempotency_key :: string
  d_expires_at :: ms

record dead_letter =
  dl_id :: ident
  dl_delivery_id :: ident
  dl_request_id :: ident
  dl_tenant_scope :: tenant_scope
  dl_request_kind :: request_kind
  dl_selector :: mesh_selector
  dl_payload :: payload
  dl_attempt_count :: nat
  dl_status :: delivery_status
  dl_failure_class :: failure_class
  dl_redacted_reason :: string
  dl_created_at :: ms

record retry_policy =
  rp_initial_delay_ms :: int
  rp_max_delay_ms :: int
  rp_max_attempts :: int

record partial_policy =
  pp_initial_delay_ms :: "rat option"
  pp_max_delay_ms :: "rat option"
  pp_max_attempts :: "rat option"

datatype broker_error =
    InvalidTenantId string
  | InvalidScope string
  | InvalidTimestamps ident
  | RequestExpired ident
  | DeliveryNotFound ident
  | DeliveryExpired ident
  | DeliveryNotRetryable ident
  | InvalidDate

record broker_state =
  bk_deliveries :: "(ident, delivery list) js_map"
  bk_dead_letters :: "(ident, dead_letter list) js_map"
  bk_events :: "(string \<times> delivery) list"

abbreviation d_tenant :: "delivery \<Rightarrow> ident" where
  "d_tenant d \<equiv> ts_tenant_id (d_tenant_scope d)"

section \<open>Tenants and timestamps\<close>

definition isReservedScopeName :: "string \<Rightarrow> bool" where
  "isReservedScopeName s =
    (js_lower (js_trim s) \<in> set [''public'', ''confidential'', ''personal'', ''shared''])"

definition slug_head :: "char \<Rightarrow> bool" where
  "slug_head c \<longleftrightarrow> (97 \<le> (of_char c :: nat) \<and> (of_char c :: nat) \<le> 122)"

definition slug_tail :: "char \<Rightarrow> bool" where
  "slug_tail c \<longleftrightarrow> slug_head c \<or> (48 \<le> (of_char c :: nat) \<and> (of_char c :: nat) \<le> 57) \<or> c = CHR ''-''"

definition isValidTenantSlug :: "string \<Rightarrow> bool" where
  "isValidTenantSlug s =
    ((case s of [] \<Rightarrow> False
      | c # cs \<Rightarrow> slug_head c \<and> list_all slug_tail cs \<and> 1 \<le> length cs \<and> length cs \<le> 30) \<and>
     \<not> isReservedScopeName s)"

text \<open>\<open>toISOString\<close> throws outside the range of a date.\<close>

definition to_iso :: "ms \<Rightarrow> broker_error + ms" where
  "to_iso t = (if \<bar>t\<bar> \<le> 8640000000000000 then Inr t else Inl InvalidDate)"

section \<open>Reading the ledger\<close>

definition latest_by_key :: "('r \<Rightarrow> string) \<Rightarrow> 'r list \<Rightarrow> (string, 'r) js_map" where
  "latest_by_key key rows = fold (\<lambda>row m. if key row = [] then m else AList.update (key row) row m) rows []"

definition tenantIds :: "broker_state \<Rightarrow> ident list" where
  "tenantIds st = filter isValidTenantSlug (map fst (bk_deliveries st))"

definition rows_of :: "(ident, 'r list) js_map \<Rightarrow> ident \<Rightarrow> 'r list" where
  "rows_of m t = (case map_of m t of Some rs \<Rightarrow> rs | None \<Rightarrow> [])"

definition scanned_rows :: "broker_state \<Rightarrow> ident option \<Rightarrow> delivery list" where
  "scanned_rows st tenant =
    (case tenant of
       Some t \<Rightarrow> rows_of (bk_deliveries st) t
     | None \<Rightarrow> concat (map (rows_of (bk_deliveries st)) (tenantIds st)))"

definition loadCurrentDeliveries :: "broker_state \<Rightarrow> ident option \<Rightarrow> delivery list" where
  "loadCurrentDeliveries st tenant = map snd (latest_by_key d_id (scanned_rows st tenant))"

definition loadCurrentDelivery :: "broker_state \<Rightarrow> ident \<Rightarrow> ident option \<Rightarrow> delivery option" where
  "loadCurrentDelivery st deliveryId tenant =
    (let normalized = js_trim deliveryId
     in if normalized = [] then None
        else List.find (\<lambda>r. d_id r = normalized) (loadCurrentDeliveries st tenant))"

definition deliveryIdentity :: "(string \<Rightarrow> string) \<Rightarrow> mesh_request \<Rightarrow> string" where
  "deliveryIdentity sha req =
    take 24 (sha (ts_tenant_id (mr_tenant_scope req) @ '':'' @ mr_idempotency_key req))"

definition deliveryIdForRequest :: "(string \<Rightarrow> string) \<Rightarrow> mesh_request \<Rightarrow> ident" where
  "deliveryIdForRequest sha req = ''mhd-'' @ deliveryIdentity sha req"

definition findCurrentDeliveryByIdempotency ::
  "(string \<Rightarrow> string) \<Rightarrow> mesh_request \<Rightarrow> broker_state \<Rightarrow> delivery option" where
  "findCurrentDeliveryByIdempotency sha req st =
    (let tenant = Some (ts_tenant_id (mr_tenant_scope req))
     in case loadCurrentDelivery st (deliveryIdForRequest sha req) tenant of
          Some d \<Rightarrow> Some d
        | None \<Rightarrow> List.find (\<lambda>r. d_idempotency_key r = mr_idempotency_key req)
                    (loadCurrentDeliveries st tenant))"

definition loadCurrentDeadLetters :: "broker_state \<Rightarrow> ident option \<Rightarrow> dead_letter list" where
  "loadCurrentDeadLetters st tenant =
    map snd (latest_by_key dl_id
      (case tenant of
         Some t \<Rightarrow> rows_of (bk_dead_letters st) t
       | None \<Rightarrow> concat (map (rows_of (bk_dead_letters st)) (tenantIds st))))"

section \<open>Writing the ledger\<close>

definition append_row :: "ident \<Rightarrow> 'r \<Rightarrow> (ident, 'r list) js_map \<Rightarrow> (ident, 'r list) js_map" where
  "append_row t row m = AList.update t (rows_of m t @ [row]) m"

definition put_delivery :: "delivery \<Rightarrow> broker_state \<Rightarrow> broker_state" where
  "put_delivery d st = st\<lparr>bk_deliveries := append_row (d_tenant d) d (bk_deliveries st)\<rparr>"

definition put_dead_letter :: "dead_letter \<Rightarrow> broker_state \<Rightarrow> broker_state" where
  "put_dead_letter dl st =
    st\<lparr>bk_dead_letters := append_row (ts_tenant_id (dl_tenant_scope dl)) dl (bk_dead_letters st)\<rparr>"

definition writeDeliveryEvent :: "string \<Rightarrow> delivery \<Rightarrow> broker_state \<Rightarrow> broker_state" where
  "writeDeliveryEvent ev d st = st\<lparr>bk_events := bk_events st @ [(ev, d)]\<rparr>"

datatype reject_reason =
    ReasonText string
  | ReasonObject "string option" "string option" "failure_class option" \<comment> \<open>code, redacted reason, class\<close>

definition redactReason :: "reject_reason \<Rightarrow> string" where
  "redactReason reason =
    (case reason of
       ReasonText t \<Rightarrow> str_or (js_trim t) ''redacted''
     | ReasonObject code red fc \<Rightarrow>
         str_or (js_trim (case red of Some r \<Rightarrow> str_or r (case code of Some c \<Rightarrow> c | None \<Rightarrow> [])
                          | None \<Rightarrow> (case code of Some c \<Rightarrow> c | None \<Rightarrow> []))) ''redacted'')"

definition normalizeRetryPolicy :: "partial_policy \<Rightarrow> retry_policy" where
  "normalizeRetryPolicy p =
    \<lparr>rp_initial_delay_ms = max 0 \<lfloor>case pp_initial_delay_ms p of Some r \<Rightarrow> r | None \<Rightarrow> 1000\<rfloor>,
     rp_max_delay_ms = max 0 \<lfloor>case pp_max_delay_ms p of Some r \<Rightarrow> r | None \<Rightarrow> 60000\<rfloor>,
     rp_max_attempts = max 1 \<lfloor>case pp_max_attempts p of Some r \<Rightarrow> r | None \<Rightarrow> 5\<rfloor>\<rparr>"

definition nextRetryDelayMs :: "nat \<Rightarrow> retry_policy \<Rightarrow> int" where
  "nextRetryDelayMs attemptCount policy =
    min (rp_max_delay_ms policy) (rp_initial_delay_ms policy * 2 ^ (attemptCount - 1))"

definition buildRoute :: "mesh_request \<Rightarrow> string \<Rightarrow> ms \<Rightarrow> mesh_route" where
  "buildRoute req policyVersion clock =
    \<lparr>rt_selector = mr_selector req, rt_decision = Direct,
     rt_selected_peer_id = (case mr_selector req of PeerSelector p \<Rightarrow> Some p | _ \<Rightarrow> None),
     rt_selected_at = Some clock, rt_policy_version = policyVersion\<rparr>"

text \<open>The snapshot drops an empty selected peer and names an empty idempotency key; a missing
  attempt count or status gets its default.\<close>

definition buildDeliverySnapshot :: "delivery \<Rightarrow> nat option \<Rightarrow> delivery_status option \<Rightarrow> delivery" where
  "buildDeliverySnapshot base attempt status =
    base\<lparr>d_attempt_count := (case attempt of Some n \<Rightarrow> n | None \<Rightarrow> 0),
         d_status := (case status of Some s \<Rightarrow> s | None \<Rightarrow> Accepted),
         d_route := (d_route base)\<lparr>rt_selected_peer_id :=
            (if truthy_opt (rt_selected_peer_id (d_route base)) then rt_selected_peer_id (d_route base) else None)\<rparr>,
         d_idempotency_key := str_or (d_idempotency_key base) ''unknown''\<rparr>"

definition buildDeadLetter ::
  "ident \<Rightarrow> ms \<Rightarrow> delivery \<Rightarrow> failure_class \<Rightarrow> reject_reason \<Rightarrow> dead_letter" where
  "buildDeadLetter rid clock d fc reason =
    \<lparr>dl_id = rid, dl_delivery_id = d_id d, dl_request_id = d_request_id d,
     dl_tenant_scope = d_tenant_scope d, dl_request_kind = d_request_kind d, dl_selector = d_selector d,
     dl_payload = d_payload d, dl_attempt_count = d_attempt_count d, dl_status = d_status d,
     dl_failure_class = fc, dl_redacted_reason = redactReason reason, dl_created_at = clock\<rparr>"

section \<open>Validation\<close>

definition validateTenantScope :: "mesh_request \<Rightarrow> broker_error option" where
  "validateTenantScope req =
    (let t = ts_tenant_id (mr_tenant_scope req)
     in if t = [] \<or> \<not> isValidTenantSlug t then Some (InvalidTenantId t)
        else if ts_scope (mr_tenant_scope req) \<noteq> ''same_tenant''
        then Some (InvalidScope (ts_scope (mr_tenant_scope req)))
        else None)"

definition validateFreshRequest :: "mesh_request \<Rightarrow> ms \<Rightarrow> broker_error option" where
  "validateFreshRequest req now =
    (case validateTenantScope req of
       Some e \<Rightarrow> Some e
     | None \<Rightarrow>
         (case mr_created_at req of
            None \<Rightarrow> Some (InvalidTimestamps (mr_request_id req))
          | Some createdAt \<Rightarrow>
              if now \<ge> createdAt + mr_ttl_ms req then Some (RequestExpired (mr_request_id req)) else None))"

section \<open>Operations\<close>

record accept_result =
  ar_accepted :: bool
  ar_delivery :: delivery
  ar_duplicate :: bool

definition new_delivery ::
  "(string \<Rightarrow> string) \<Rightarrow> ident \<Rightarrow> ms \<Rightarrow> mesh_route \<Rightarrow> ms \<Rightarrow> mesh_request \<Rightarrow> delivery" where
  "new_delivery sha msgid created route expiresAt req =
    buildDeliverySnapshot
      \<lparr>d_id = deliveryIdForRequest sha req, d_message_id = msgid, d_request_id = mr_request_id req,
       d_tenant_scope = mr_tenant_scope req, d_request_kind = mr_request_kind req,
       d_selector = mr_selector req, d_payload = mr_payload req, d_attempt_count = 0,
       d_status = Accepted, d_route = route, d_created_at = created, d_retry_at = None,
       d_failure_class = None, d_idempotency_key = mr_idempotency_key req, d_expires_at = expiresAt\<rparr>
      None (Some Accepted)"

definition record_new :: "delivery \<Rightarrow> broker_state \<Rightarrow> delivery \<times> broker_state" where
  "record_new accepted st =
    (let queued = buildDeliverySnapshot accepted (Some (d_attempt_count accepted)) (Some Queued)
     in (queued,
         writeDeliveryEvent ''delivery_queued'' queued (put_delivery queued
           (writeDeliveryEvent ''delivery_accepted'' accepted (put_delivery accepted st)))))"

definition acceptMeshRequest ::
  "(string \<Rightarrow> string) \<Rightarrow> ident \<Rightarrow> ms \<Rightarrow> mesh_request \<Rightarrow> ms option \<Rightarrow> broker_state \<Rightarrow>
   broker_error + accept_result \<times> broker_state" where
  "acceptMeshRequest sha msgid clock req now st =
    (case validateTenantScope req of
       Some e \<Rightarrow> Inl e
     | None \<Rightarrow>
         (case findCurrentDeliveryByIdempotency sha req st of
            Some d \<Rightarrow> Inr (\<lparr>ar_accepted = True, ar_delivery = d, ar_duplicate = True\<rparr>, st)
          | None \<Rightarrow>
              let now' = (case now of Some t \<Rightarrow> t | None \<Rightarrow> clock)
              in case validateFreshRequest req now' of
                   Some e \<Rightarrow> Inl e
                 | None \<Rightarrow>
                     (case to_iso (the (mr_created_at req) + mr_ttl_ms req) of
                        Inl e \<Rightarrow> Inl e
                      | Inr expiresAt \<Rightarrow>
                          let accepted = new_delivery sha msgid now' (buildRoute req ''1.0.0'' clock) expiresAt req;
                              (queued, st') = record_new accepted st
                          in Inr (\<lparr>ar_accepted = True, ar_delivery = queued, ar_duplicate = False\<rparr>, st'))))"

definition enqueueMeshDelivery ::
  "(string \<Rightarrow> string) \<Rightarrow> ident \<Rightarrow> ms \<Rightarrow> mesh_request \<Rightarrow> mesh_route option \<Rightarrow> string option \<Rightarrow> ms option \<Rightarrow>
   broker_state \<Rightarrow> broker_error + delivery \<times> broker_state" where
  "enqueueMeshDelivery sha msgid clock req route policy_version now st =
    (let now' = (case now of Some t \<Rightarrow> t | None \<Rightarrow> clock) in
     case validateFreshRequest req now' of
       Some e \<Rightarrow> Inl e
     | None \<Rightarrow>
         (case findCurrentDeliveryByIdempotency sha req st of
            Some d \<Rightarrow> Inr (d, st)
          | None \<Rightarrow>
              let policyVersion = (if truthy_opt policy_version then the policy_version else ''1.0.0'');
                  r = (case route of Some x \<Rightarrow> x | None \<Rightarrow> buildRoute req policyVersion clock)
              in case to_iso (the (mr_created_at req) + mr_ttl_ms req) of
                   Inl e \<Rightarrow> Inl e
                 | Inr expiresAt \<Rightarrow> Inr (record_new (new_delivery sha msgid now' r expiresAt req) st)))"

definition is_due :: "ms \<Rightarrow> delivery \<Rightarrow> bool" where
  "is_due dueAt d = ((case d_retry_at d of Some t \<Rightarrow> t | None \<Rightarrow> d_created_at d) \<le> dueAt)"

definition due_deliveries :: "ms \<Rightarrow> int \<Rightarrow> broker_state \<Rightarrow> delivery list" where
  "due_deliveries now lmt st =
    take (nat (max 0 lmt))
      (sort_key (\<lambda>d. (d_created_at d, d_id d))
        (filter (is_due now) (filter (\<lambda>d. d_status d = Queued) (loadCurrentDeliveries st None))))"

definition dispatch_delivery :: "delivery \<Rightarrow> delivery" where
  "dispatch_delivery d = d\<lparr>d_status := Dispatched, d_attempt_count := d_attempt_count d + 1\<rparr>"

definition claimDueMeshDeliveries :: "ms \<Rightarrow> int \<Rightarrow> broker_state \<Rightarrow> delivery list \<times> broker_state" where
  "claimDueMeshDeliveries now lmt st =
    (let claimed = map dispatch_delivery (due_deliveries now lmt st)
     in (claimed,
         fold (\<lambda>d s. writeDeliveryEvent ''delivery_dispatched'' d (put_delivery d s)) claimed st))"

definition acknowledgeMeshDelivery ::
  "ms \<Rightarrow> ident \<Rightarrow> ms option \<Rightarrow> bool \<Rightarrow> broker_state \<Rightarrow> broker_error + delivery \<times> broker_state" where
  "acknowledgeMeshDelivery clock deliveryId acknowledged_at completed st =
    (case loadCurrentDelivery st deliveryId None of
       None \<Rightarrow> Inl (DeliveryNotFound deliveryId)
     | Some current \<Rightarrow>
         if (case acknowledged_at of Some t \<Rightarrow> t | None \<Rightarrow> clock) \<ge> d_expires_at current
         then Inl (DeliveryExpired deliveryId)
         else
           let nxt = current\<lparr>d_status := (if completed then Completed else Acknowledged)\<rparr>
           in Inr (nxt, writeDeliveryEvent
                (if completed then ''delivery_completed'' else ''delivery_acknowledged'') nxt
                (put_delivery nxt st)))"

definition reject_class :: "reject_reason \<Rightarrow> failure_class" where
  "reject_class reason =
    (case reason of ReasonText _ \<Rightarrow> RecipientRejected
     | ReasonObject _ _ fc \<Rightarrow> (case fc of Some f \<Rightarrow> f | None \<Rightarrow> RecipientRejected))"

definition rejectMeshDelivery ::
  "ident \<Rightarrow> ms \<Rightarrow> ident \<Rightarrow> reject_reason \<Rightarrow> broker_state \<Rightarrow> broker_error + delivery \<times> broker_state" where
  "rejectMeshDelivery rid clock deliveryId reason st =
    (case loadCurrentDelivery st deliveryId None of
       None \<Rightarrow> Inl (DeliveryNotFound deliveryId)
     | Some current \<Rightarrow>
         if clock \<ge> d_expires_at current then Inl (DeliveryExpired deliveryId)
         else
           let nxt = current\<lparr>d_status := Rejected, d_failure_class := Some (reject_class reason)\<rparr>;
               dl = buildDeadLetter rid clock nxt (reject_class reason) reason
           in Inr (nxt, writeDeliveryEvent ''delivery_rejected'' nxt
                (put_dead_letter dl (put_delivery nxt st))))"

definition expire_delivery :: "ident \<Rightarrow> ms \<Rightarrow> delivery \<Rightarrow> broker_state \<Rightarrow> delivery \<times> broker_state" where
  "expire_delivery rid clock d st =
    (let nxt = d\<lparr>d_status := Expired, d_failure_class := Some FExpired\<rparr>;
         dl = buildDeadLetter rid clock nxt FExpired (ReasonText ''expired'')
     in (nxt, writeDeliveryEvent ''delivery_expired'' nxt (put_dead_letter dl (put_delivery nxt st))))"

definition retryMeshDelivery ::
  "ident \<Rightarrow> ms \<Rightarrow> ident \<Rightarrow> ms \<Rightarrow> partial_policy \<Rightarrow> broker_state \<Rightarrow> broker_error + delivery \<times> broker_state" where
  "retryMeshDelivery rid clock deliveryId now retryPolicy st =
    (case loadCurrentDelivery st deliveryId None of
       None \<Rightarrow> Inl (DeliveryNotFound deliveryId)
     | Some current \<Rightarrow>
         if now \<ge> d_expires_at current then Inr (expire_delivery rid clock current st)
         else if d_status current \<in> {Expired, DeadLettered, Rejected, Acknowledged, Completed}
         then Inl (DeliveryNotRetryable deliveryId)
         else
           let policy = normalizeRetryPolicy retryPolicy;
               nextAttempt = d_attempt_count current + 1
           in if int nextAttempt \<ge> rp_max_attempts policy then
                let nxt = current\<lparr>d_status := DeadLettered, d_attempt_count := nextAttempt,
                                 d_failure_class := Some TransportError\<rparr>;
                    dl = buildDeadLetter rid clock nxt TransportError (ReasonText ''retry_exhausted'')
                in Inr (nxt, writeDeliveryEvent ''delivery_dead_lettered'' nxt
                     (put_dead_letter dl (put_delivery nxt st)))
              else
                (case to_iso (now + nextRetryDelayMs nextAttempt policy) of
                   Inl e \<Rightarrow> Inl e
                 | Inr retryAt \<Rightarrow>
                     let nxt = current\<lparr>d_status := Queued, d_attempt_count := nextAttempt,
                                      d_retry_at := Some retryAt, d_failure_class := Some TransportError\<rparr>
                     in Inr (nxt, writeDeliveryEvent ''delivery_requeued'' nxt (put_delivery nxt st))))"

definition expires_now :: "ms \<Rightarrow> delivery \<Rightarrow> bool" where
  "expires_now now d \<longleftrightarrow> d_status d \<in> {Queued, Dispatched, Accepted} \<and> now \<ge> d_expires_at d"

definition expireMeshDeliveries ::
  "(ident \<Rightarrow> ident) \<Rightarrow> ms \<Rightarrow> ms \<Rightarrow> broker_state \<Rightarrow> delivery list \<times> broker_state" where
  "expireMeshDeliveries rids clock now st =
    fold (\<lambda>d (expired, s). case expire_delivery (rids (d_id d)) clock d s of (nxt, s') \<Rightarrow> (expired @ [nxt], s'))
      (filter (expires_now now) (loadCurrentDeliveries st None)) ([], st)"

record dead_letter_filter =
  df_delivery_id :: "ident option"
  df_request_id :: "ident option"
  df_tenant_id :: "ident option"
  df_failure_class :: "failure_class option"
  df_status :: "delivery_status option"

definition field_matches :: "string option \<Rightarrow> string \<Rightarrow> bool" where
  "field_matches f v = (truthy_opt f \<longrightarrow> f = Some v)"

definition listMeshDeadLetters :: "dead_letter_filter \<Rightarrow> broker_state \<Rightarrow> dead_letter list" where
  "listMeshDeadLetters f st =
    filter (\<lambda>r. field_matches (df_delivery_id f) (dl_delivery_id r) \<and>
                field_matches (df_request_id f) (dl_request_id r) \<and>
                field_matches (df_tenant_id f) (ts_tenant_id (dl_tenant_scope r)) \<and>
                (df_failure_class f \<noteq> None \<longrightarrow> df_failure_class f = Some (dl_failure_class r)) \<and>
                (df_status f \<noteq> None \<longrightarrow> df_status f = Some (dl_status r)))
      (loadCurrentDeadLetters st None)"

section \<open>The writer registry\<close>

type_synonym writer_registry = "(string, string) js_map"

definition claimWriter :: "string \<Rightarrow> string \<Rightarrow> writer_registry \<Rightarrow> writer_registry option" where
  "claimWriter namespace token reg =
    (case map_of reg namespace of
       Some existing \<Rightarrow> if existing \<noteq> [] \<and> existing \<noteq> token then None
                        else Some (AList.update namespace token reg)
     | None \<Rightarrow> Some (AList.update namespace token reg))"

definition releaseWriter :: "string \<Rightarrow> string \<Rightarrow> writer_registry \<Rightarrow> writer_registry" where
  "releaseWriter namespace token reg =
    (if map_of reg namespace = Some token then AList.delete namespace reg else reg)"

end
