(* ===== verification/Mesh_Ledger.thy ===== *)
theory Mesh_Ledger
  imports Mesh_Broker
begin

text \<open>
  The invariant of the broker's ledger (theory \<open>Mesh_Broker\<close>) and what its operations
  guarantee: idempotent acceptance, exclusive claims, bounded backoff, a dead letter behind every
  failed delivery, and three behaviours that limit these guarantees.
\<close>

section \<open>The latest row per key\<close>

lemma latest_by_key_lookup:
  "map_of (latest_by_key key rows) k = (if k = [] then None else List.find (\<lambda>r. key r = k) (rev rows))"
proof (induction rows rule: rev_induct)
  case Nil
  then show ?case by (simp add: latest_by_key_def)
next
  case (snoc row rows)
  then show ?case by (auto simp: latest_by_key_def js_map_simps)
qed

lemma latest_by_key_distinct: "distinct (map fst (latest_by_key key rows))"
proof (induction rows rule: rev_induct)
  case (snoc row rows)
  then show ?case using distinct_keys_update by (auto simp: latest_by_key_def)
qed (simp add: latest_by_key_def)

lemma latest_by_key_mem:
  "(k, r) \<in> set (latest_by_key key rows) \<longleftrightarrow> k \<noteq> [] \<and> List.find (\<lambda>r. key r = k) (rev rows) = Some r"
  using latest_by_key_lookup [of key rows k] latest_by_key_distinct [of key rows]
  by (metis map_of_eq_Some_iff option.distinct(1))

lemma find_key: "List.find (\<lambda>r. key r = k) rows = Some r \<Longrightarrow> key r = k \<and> r \<in> set rows"
  using find_Some_in_set by fastforce

lemma latest_by_key_keys:
  assumes "(k, r) \<in> set (latest_by_key key rows)"
  shows "key r = k"
  using assms find_key by (fastforce simp: latest_by_key_mem)

lemma map_key_latest: "map (key \<circ> snd) (latest_by_key key rows) = map fst (latest_by_key key rows)"
  using latest_by_key_keys by (fastforce intro: map_cong)

lemma current_iff:
  "r \<in> set (map snd (latest_by_key key rows)) \<longleftrightarrow>
     key r \<noteq> [] \<and> List.find (\<lambda>x. key x = key r) (rev rows) = Some r"
proof
  assume "r \<in> set (map snd (latest_by_key key rows))"
  then obtain k where "(k, r) \<in> set (latest_by_key key rows)" by auto
  with latest_by_key_keys [OF this] show "key r \<noteq> [] \<and> List.find (\<lambda>x. key x = key r) (rev rows) = Some r"
    by (simp add: latest_by_key_mem)
next
  assume "key r \<noteq> [] \<and> List.find (\<lambda>x. key x = key r) (rev rows) = Some r"
  then have "(key r, r) \<in> set (latest_by_key key rows)" by (simp add: latest_by_key_mem)
  then show "r \<in> set (map snd (latest_by_key key rows))" by force
qed

lemma current_distinct: "distinct (map key (map snd (latest_by_key key rows)))"
  using latest_by_key_distinct [of key rows] map_key_latest [of key rows] by (metis map_map)

lemma find_distinct:
  "distinct (map key xs) \<Longrightarrow> List.find (\<lambda>x. key x = k) xs = Some r \<longleftrightarrow> r \<in> set xs \<and> key r = k"
  by (induction xs) auto

lemma find_current:
  assumes "k \<noteq> []"
  shows "List.find (\<lambda>r. key r = k) (map snd (latest_by_key key rows)) = List.find (\<lambda>r. key r = k) (rev rows)"
proof (cases "List.find (\<lambda>r. key r = k) (rev rows)")
  case None
  have "List.find (\<lambda>r. key r = k) (map snd (latest_by_key key rows)) = None"
  proof (rule ccontr)
    assume "List.find (\<lambda>r. key r = k) (map snd (latest_by_key key rows)) \<noteq> None"
    then obtain r where "List.find (\<lambda>r. key r = k) (map snd (latest_by_key key rows)) = Some r" by blast
    then have "r \<in> set (map snd (latest_by_key key rows)) \<and> key r = k"
      by (rule find_distinct [OF current_distinct, THEN iffD1])
    then have "key r = k" and mem: "r \<in> set (map snd (latest_by_key key rows))" by blast+
    from mem have "List.find (\<lambda>x. key x = key r) (rev rows) = Some r" unfolding current_iff by blast
    with None show False by (simp add: \<open>key r = k\<close>)
  qed
  with None show ?thesis by simp
next
  case (Some r)
  with find_key have "key r = k" by fastforce
  with Some assms have "r \<in> set (map snd (latest_by_key key rows))" by (simp only: current_iff) simp
  with \<open>key r = k\<close> Some find_distinct [OF current_distinct] show ?thesis by metis
qed

section \<open>Rows of a ledger\<close>

definition all_rows :: "broker_state \<Rightarrow> delivery list" where
  "all_rows st = concat (map snd (bk_deliveries st))"

definition files_ok :: "broker_state \<Rightarrow> bool" where
  "files_ok st \<longleftrightarrow>
    distinct (map fst (bk_deliveries st)) \<and>
    (\<forall>(t, rows)\<in>set (bk_deliveries st). isValidTenantSlug t \<and> (\<forall>r\<in>set rows. d_tenant r = t))"

definition ids_ok :: "broker_state \<Rightarrow> bool" where
  "ids_ok st \<longleftrightarrow>
    (\<forall>r\<in>set (all_rows st). d_id r \<noteq> [] \<and> js_trim (d_id r) = d_id r) \<and>
    (\<forall>r\<in>set (all_rows st). \<forall>r'\<in>set (all_rows st). d_id r = d_id r' \<longrightarrow> d_tenant r = d_tenant r') \<and>
    (\<forall>r\<in>set (all_rows st). \<forall>r'\<in>set (all_rows st). d_tenant r = d_tenant r' \<longrightarrow>
       (d_id r = d_id r' \<longleftrightarrow> d_idempotency_key r = d_idempotency_key r'))"

definition failed_status :: "delivery_status \<Rightarrow> bool" where
  "failed_status s \<longleftrightarrow> s \<in> {Rejected, Expired, DeadLettered}"

definition dead_letters_ok :: "broker_state \<Rightarrow> bool" where
  "dead_letters_ok st \<longleftrightarrow>
    (\<forall>r\<in>set (all_rows st). failed_status (d_status r) \<longrightarrow>
       (\<exists>dl\<in>set (rows_of (bk_dead_letters st) (d_tenant r)).
          dl_delivery_id dl = d_id r \<and> dl_request_id dl = d_request_id r))"

definition ledger_ok :: "broker_state \<Rightarrow> bool" where
  "ledger_ok st \<longleftrightarrow> files_ok st \<and> ids_ok st \<and> dead_letters_ok st"

lemma files_okD:
  assumes "files_ok st" and "(t, rows) \<in> set (bk_deliveries st)"
  shows "isValidTenantSlug t" and "r \<in> set rows \<Longrightarrow> d_tenant r = t"
proof -
  from assms have "isValidTenantSlug t \<and> (\<forall>r\<in>set rows. d_tenant r = t)"
    unfolding files_ok_def by (metis (mono_tags, lifting) case_prodD)
  then show "isValidTenantSlug t" and "r \<in> set rows \<Longrightarrow> d_tenant r = t" by blast+
qed

lemma ledger_okD: "ledger_ok st \<Longrightarrow> files_ok st" "ledger_ok st \<Longrightarrow> ids_ok st" "ledger_ok st \<Longrightarrow> dead_letters_ok st"
  by (simp_all add: ledger_ok_def)

lemma map_rows_of_keys:
  "distinct (map fst m) \<Longrightarrow> map (rows_of m) (map fst m) = map snd m"
  by (auto simp: rows_of_def)

lemma scanned_all: "files_ok st \<Longrightarrow> scanned_rows st None = all_rows st"
proof -
  assume ok: "files_ok st"
  then have "\<forall>t\<in>set (map fst (bk_deliveries st)). isValidTenantSlug t" by (auto simp: files_ok_def)
  then have "tenantIds st = map fst (bk_deliveries st)" by (simp add: tenantIds_def filter_id_conv)
  with ok show ?thesis by (simp add: scanned_rows_def all_rows_def map_rows_of_keys files_ok_def del: map_map)
qed

lemma rows_of_subset: "set (rows_of (bk_deliveries st) t) \<subseteq> set (all_rows st)"
proof (cases "map_of (bk_deliveries st) t")
  case None
  then show ?thesis by (simp add: rows_of_def)
next
  case (Some rows)
  from map_of_SomeD [OF this] Some show ?thesis by (force simp: rows_of_def all_rows_def)
qed

lemma rows_of_tenant:
  assumes "files_ok st"
  shows "set (rows_of (bk_deliveries st) t) = {r \<in> set (all_rows st). d_tenant r = t}"
proof
  show "set (rows_of (bk_deliveries st) t) \<subseteq> {r \<in> set (all_rows st). d_tenant r = t}"
  proof (cases "map_of (bk_deliveries st) t")
    case None
    then show ?thesis by (simp add: rows_of_def)
  next
    case (Some rows)
    with map_of_SomeD [OF this] assms rows_of_subset [of st t] show ?thesis
      by (auto simp: rows_of_def files_ok_def)
  qed
  show "{r \<in> set (all_rows st). d_tenant r = t} \<subseteq> set (rows_of (bk_deliveries st) t)"
  proof
    fix r assume "r \<in> {r \<in> set (all_rows st). d_tenant r = t}"
    then obtain t' rows where f: "(t', rows) \<in> set (bk_deliveries st)" "r \<in> set rows" "d_tenant r = t"
      by (auto simp: all_rows_def)
    with assms have "t' = t" by (auto simp: files_ok_def)
    with f assms have "map_of (bk_deliveries st) t = Some rows" by (simp add: files_ok_def)
    with f show "r \<in> set (rows_of (bk_deliveries st) t)" by (simp add: rows_of_def)
  qed
qed

text \<open>The latest row of a delivery.\<close>

definition lookup :: "broker_state \<Rightarrow> ident \<Rightarrow> delivery option" where
  "lookup st i = List.find (\<lambda>r. d_id r = i) (rev (all_rows st))"

lemma lookup_mem: "lookup st i = Some d \<Longrightarrow> d \<in> set (all_rows st) \<and> d_id d = i"
  using find_key [of d_id i "rev (all_rows st)" d] by (auto simp: lookup_def)

lemma lookup_None: "lookup st i = None \<longleftrightarrow> i \<notin> d_id ` set (all_rows st)"
  by (auto simp: lookup_def find_None_iff)

lemma load_lookup:
  "files_ok st \<Longrightarrow> loadCurrentDelivery st i None = (if js_trim i = [] then None else lookup st (js_trim i))"
  by (simp add: loadCurrentDelivery_def loadCurrentDeliveries_def find_current scanned_all lookup_def Let_def)

lemma currents_lookup:
  assumes "ledger_ok st"
  shows "d \<in> set (loadCurrentDeliveries st None) \<longleftrightarrow> lookup st (d_id d) = Some d"
proof -
  have "d \<in> set (loadCurrentDeliveries st None) \<longleftrightarrow> d_id d \<noteq> [] \<and> lookup st (d_id d) = Some d"
    unfolding loadCurrentDeliveries_def scanned_all [OF ledger_okD(1) [OF assms]] current_iff lookup_def ..
  moreover have "d_id d \<noteq> []" if "lookup st (d_id d) = Some d"
    using lookup_mem [OF that] ledger_okD(2) [OF assms] by (simp add: ids_ok_def)
  ultimately show ?thesis by blast
qed

lemma currents_distinct: "distinct (map d_id (loadCurrentDeliveries st tenant))"
  unfolding loadCurrentDeliveries_def by (rule current_distinct)

section \<open>Appending a row\<close>

lemma alist_update_split:
  assumes "map_of m k = Some v"
  shows "\<exists>pre post. m = pre @ (k, v) # post \<and> AList.update k v' m = pre @ (k, v') # post"
  using assms
proof (induction m)
  case (Cons p m)
  show ?case
  proof (cases "fst p = k")
    case True
    with Cons.prems have "p # m = [] @ (k, v) # m \<and> AList.update k v' (p # m) = [] @ (k, v') # m"
      by (cases p) simp
    then show ?thesis by blast
  next
    case False
    with Cons obtain pre post where "m = pre @ (k, v) # post" "AList.update k v' m = pre @ (k, v') # post" by auto
    with False have "p # m = (p # pre) @ (k, v) # post \<and> AList.update k v' (p # m) = (p # pre) @ (k, v') # post"
      by (cases p) simp
    then show ?thesis by blast
  qed
qed simp

lemma alist_update_new: "map_of m k = None \<Longrightarrow> AList.update k v m = m @ [(k, v)]"
  by (induction m) (auto split: if_splits)

lemma put_delivery_rows:
  "\<exists>A B. all_rows st = A @ B \<and> all_rows (put_delivery d st) = A @ d # B \<and>
     (\<forall>r\<in>set B. files_ok st \<longrightarrow> d_tenant r \<noteq> d_tenant d)"
proof (cases "map_of (bk_deliveries st) (d_tenant d)")
  case None
  then have "all_rows (put_delivery d st) = all_rows st @ d # []"
    by (simp add: put_delivery_def append_row_def rows_of_def all_rows_def alist_update_new)
  then show ?thesis by (intro exI [of _ "all_rows st"] exI [of _ "[]"]) simp
next
  case (Some rows)
  from alist_update_split [OF Some, of "rows @ [d]"] obtain pre post where
    m: "bk_deliveries st = pre @ (d_tenant d, rows) # post"
    "AList.update (d_tenant d) (rows @ [d]) (bk_deliveries st) = pre @ (d_tenant d, rows @ [d]) # post" by blast
  have "all_rows st = (concat (map snd pre) @ rows) @ concat (map snd post)"
    by (simp add: all_rows_def m(1))
  moreover have "all_rows (put_delivery d st) = (concat (map snd pre) @ rows) @ d # concat (map snd post)"
    using Some m(2) by (simp add: put_delivery_def append_row_def rows_of_def all_rows_def)
  moreover have "d_tenant r \<noteq> d_tenant d" if "r \<in> set (concat (map snd post))" "files_ok st" for r
  proof -
    from that(1) obtain t rs where t: "(t, rs) \<in> set post" "r \<in> set rs" by auto
    have "d_tenant d \<notin> fst ` set post" using that(2) by (simp add: files_ok_def m(1))
    moreover have "d_tenant r = t" using files_okD(2) [OF that(2), of t rs r] t by (simp add: m(1))
    moreover from t(1) have "t \<in> fst ` set post" by force
    ultimately show ?thesis by metis
  qed
  ultimately show ?thesis by blast
qed

lemma set_rows_put [simp]: "set (all_rows (put_delivery d st)) = insert d (set (all_rows st))"
  using put_delivery_rows [of st d] by auto

lemma rows_events [simp]:
  "all_rows (writeDeliveryEvent ev d st) = all_rows st" "all_rows (put_dead_letter dl st) = all_rows st"
  by (simp_all add: all_rows_def writeDeliveryEvent_def put_dead_letter_def)

lemma lookup_events [simp]:
  "lookup (writeDeliveryEvent ev d st) i = lookup st i" "lookup (put_dead_letter dl st) i = lookup st i"
  by (simp_all add: lookup_def)

lemma find_insert_middle:
  assumes "\<And>r. r \<in> set B \<Longrightarrow> P d \<Longrightarrow> \<not> P r"
  shows "List.find P (rev (A @ d # B)) = (if P d then Some d else List.find P (rev (A @ B)))"
proof -
  have app: "List.find P (xs @ ys) = (case List.find P xs of Some x \<Rightarrow> Some x | None \<Rightarrow> List.find P ys)" for xs ys
    by (induction xs) auto
  show ?thesis
  proof (cases "P d")
    case True
    with assms have "List.find P (rev B) = None" by (auto simp: find_None_iff)
    with True show ?thesis by (simp add: app)
  qed (simp add: app split: option.split)
qed

lemma lookup_put:
  assumes "files_ok st" and "\<And>r. r \<in> set (all_rows st) \<Longrightarrow> d_id r = d_id d \<Longrightarrow> d_tenant r = d_tenant d"
  shows "lookup (put_delivery d st) i = (if i = d_id d then Some d else lookup st i)"
proof -
  from put_delivery_rows [of st d] obtain A B where r: "all_rows st = A @ B"
    "all_rows (put_delivery d st) = A @ d # B" "\<forall>r\<in>set B. d_tenant r \<noteq> d_tenant d"
    using assms(1) by blast
  have "List.find (\<lambda>r. d_id r = i) (rev (A @ d # B)) =
      (if d_id d = i then Some d else List.find (\<lambda>r. d_id r = i) (rev (A @ B)))"
    by (rule find_insert_middle) (use r assms(2) in auto)
  then show ?thesis by (auto simp: lookup_def r(1,2))
qed

lemma files_ok_put:
  assumes "files_ok st" and "isValidTenantSlug (d_tenant d)"
  shows "files_ok (put_delivery d st)"
  unfolding files_ok_def
proof
  show "distinct (map fst (bk_deliveries (put_delivery d st)))"
    using assms(1) distinct_keys_update by (auto simp: files_ok_def put_delivery_def append_row_def)
  show "\<forall>(t, rows)\<in>set (bk_deliveries (put_delivery d st)). isValidTenantSlug t \<and> (\<forall>r\<in>set rows. d_tenant r = t)"
  proof (clarify)
    fix t rows assume "(t, rows) \<in> set (bk_deliveries (put_delivery d st))"
    moreover have "distinct (map fst (bk_deliveries (put_delivery d st)))"
      using assms(1) distinct_keys_update by (auto simp: files_ok_def put_delivery_def append_row_def)
    ultimately have "map_of (bk_deliveries (put_delivery d st)) t = Some rows" by simp
    then have "rows = (if t = d_tenant d then rows_of (bk_deliveries st) t @ [d] else rows) \<and>
        (t \<noteq> d_tenant d \<longrightarrow> (t, rows) \<in> set (bk_deliveries st))"
      by (auto simp: put_delivery_def append_row_def js_map_simps split: if_splits dest: map_of_SomeD)
    with assms rows_of_tenant [OF assms(1), of t]
    show "isValidTenantSlug t \<and> (\<forall>r\<in>set rows. d_tenant r = t)"
      by (cases "t = d_tenant d") (auto simp: files_ok_def)
  qed
qed

section \<open>Preservation of the invariant\<close>

lemma files_ok_events [simp]:
  "files_ok (writeDeliveryEvent ev d st) = files_ok st" "files_ok (put_dead_letter dl st) = files_ok st"
  by (simp_all add: files_ok_def writeDeliveryEvent_def put_dead_letter_def)

lemma ids_ok_events [simp]:
  "ids_ok (writeDeliveryEvent ev d st) = ids_ok st" "ids_ok (put_dead_letter dl st) = ids_ok st"
  by (simp_all add: ids_ok_def)

lemma dead_letters_ok_event [simp]: "dead_letters_ok (writeDeliveryEvent ev d st) = dead_letters_ok st"
  by (simp add: dead_letters_ok_def) (simp add: writeDeliveryEvent_def)

lemma ledger_ok_event [simp]: "ledger_ok (writeDeliveryEvent ev d st) = ledger_ok st"
  by (simp add: ledger_ok_def)

text \<open>A row that continues a delivery keeps its identity.\<close>

definition continues :: "delivery \<Rightarrow> delivery \<Rightarrow> bool" where
  "continues d r \<longleftrightarrow> d_id d = d_id r \<and> d_tenant_scope d = d_tenant_scope r \<and>
     d_idempotency_key d = d_idempotency_key r \<and> d_request_id d = d_request_id r"

lemma continues_update [simp]:
  "continues (r\<lparr>d_status := x\<rparr>) r" "continues (r\<lparr>d_status := x, d_failure_class := y\<rparr>) r"
  "continues (r\<lparr>d_status := x, d_attempt_count := n\<rparr>) r"
  "continues (r\<lparr>d_attempt_count := n, d_status := x\<rparr>) r"
  "continues (r\<lparr>d_status := x, d_attempt_count := n, d_failure_class := y\<rparr>) r"
  "continues (r\<lparr>d_status := x, d_attempt_count := n, d_retry_at := z, d_failure_class := y\<rparr>) r"
  "continues (dispatch_delivery r) r"
  by (simp_all add: continues_def dispatch_delivery_def)

lemma row_tenant_valid: "files_ok st \<Longrightarrow> r \<in> set (all_rows st) \<Longrightarrow> isValidTenantSlug (d_tenant r)"
  using files_okD by (fastforce simp: all_rows_def)

lemma ids_okD:
  assumes "ids_ok st"
  shows "r \<in> set (all_rows st) \<Longrightarrow> d_id r \<noteq> []"
    and "r \<in> set (all_rows st) \<Longrightarrow> js_trim (d_id r) = d_id r"
    and "r \<in> set (all_rows st) \<Longrightarrow> r' \<in> set (all_rows st) \<Longrightarrow> d_id r = d_id r' \<Longrightarrow> d_tenant r = d_tenant r'"
    and "r \<in> set (all_rows st) \<Longrightarrow> r' \<in> set (all_rows st) \<Longrightarrow> d_tenant r = d_tenant r' \<Longrightarrow>
      d_id r = d_id r' \<longleftrightarrow> d_idempotency_key r = d_idempotency_key r'"
  using assms unfolding ids_ok_def by blast+

lemma ids_ok_continue:
  assumes "ids_ok st" and "r \<in> set (all_rows st)" and "continues d r"
  shows "ids_ok (put_delivery d st)"
proof -
  have rep: "\<exists>x'\<in>set (all_rows st). d_id x = d_id x' \<and> d_tenant x = d_tenant x' \<and>
      d_idempotency_key x = d_idempotency_key x'" if "x \<in> insert d (set (all_rows st))" for x
    using that assms(2,3) by (cases "x = d") (auto simp: continues_def)
  note ok = ids_okD [OF assms(1)]
  show ?thesis
    unfolding ids_ok_def set_rows_put
  proof (intro conjI ballI impI)
    fix x assume "x \<in> insert d (set (all_rows st))"
    from rep [OF this] obtain x' where "x' \<in> set (all_rows st)" "d_id x = d_id x'" by blast
    then show "d_id x \<noteq> []" "js_trim (d_id x) = d_id x" using ok(1,2) by simp_all
  next
    fix x y assume x: "x \<in> insert d (set (all_rows st))" and y: "y \<in> insert d (set (all_rows st))"
    from rep [OF x] obtain x' where x': "x' \<in> set (all_rows st)" "d_id x = d_id x'"
      "d_tenant x = d_tenant x'" "d_idempotency_key x = d_idempotency_key x'" by blast
    from rep [OF y] obtain y' where y': "y' \<in> set (all_rows st)" "d_id y = d_id y'"
      "d_tenant y = d_tenant y'" "d_idempotency_key y = d_idempotency_key y'" by blast
    show "d_id x = d_id y \<Longrightarrow> d_tenant x = d_tenant y"
      using ok(3) [OF x'(1) y'(1)] x' y' by simp
    show "d_tenant x = d_tenant y \<Longrightarrow> d_id x = d_id y \<longleftrightarrow> d_idempotency_key x = d_idempotency_key y"
      using ok(4) [OF x'(1) y'(1)] x' y' by simp
  qed
qed

lemma files_ok_continue:
  assumes "files_ok st" and "r \<in> set (all_rows st)" and "continues d r"
  shows "files_ok (put_delivery d st)"
  using files_ok_put [OF assms(1)] row_tenant_valid [OF assms(1,2)] assms(3) by (simp add: continues_def)

lemma dead_letters_ok_alive:
  assumes "dead_letters_ok st" and "\<not> failed_status (d_status d)"
  shows "dead_letters_ok (put_delivery d st)"
  using assms unfolding dead_letters_ok_def set_rows_put by (simp add: put_delivery_def)

lemma rows_of_append_row:
  "rows_of (append_row t x m) t' = (if t' = t then rows_of m t @ [x] else rows_of m t')"
  by (simp add: append_row_def rows_of_def map_of_update_eq)

lemma rows_of_append: "set (rows_of (append_row t x m) t') = (if t' = t then insert x (set (rows_of m t)) else set (rows_of m t'))"
  by (simp add: rows_of_append_row)

lemma dead_letters_ok_failed:
  assumes "dead_letters_ok st" and "dl_delivery_id dl = d_id d" and "dl_request_id dl = d_request_id d"
    and "dl_tenant_scope dl = d_tenant_scope d"
  shows "dead_letters_ok (put_dead_letter dl (put_delivery d st))"
  unfolding dead_letters_ok_def rows_events set_rows_put
proof (intro ballI impI)
  fix r assume r: "r \<in> insert d (set (all_rows st))" "failed_status (d_status r)"
  have sub: "set (rows_of (bk_dead_letters st) t) \<subseteq>
      set (rows_of (bk_dead_letters (put_dead_letter dl (put_delivery d st))) t)" for t
    by (auto simp: put_dead_letter_def put_delivery_def rows_of_append)
  show "\<exists>x\<in>set (rows_of (bk_dead_letters (put_dead_letter dl (put_delivery d st))) (d_tenant r)).
      dl_delivery_id x = d_id r \<and> dl_request_id x = d_request_id r"
  proof (cases "r = d")
    case True
    with assms show ?thesis by (auto simp: put_dead_letter_def put_delivery_def rows_of_append)
  next
    case False
    with r assms(1) sub show ?thesis unfolding dead_letters_ok_def by blast
  qed
qed

lemma ledger_ok_alive:
  assumes "ledger_ok st" and "r \<in> set (all_rows st)" and "continues d r" and "\<not> failed_status (d_status d)"
  shows "ledger_ok (put_delivery d st)"
  using assms files_ok_continue ids_ok_continue dead_letters_ok_alive by (simp add: ledger_ok_def)

lemma ledger_ok_failed:
  assumes "ledger_ok st" and "r \<in> set (all_rows st)" and "continues d r"
    and "dl = buildDeadLetter rid clock d fc reason"
  shows "ledger_ok (put_dead_letter dl (put_delivery d st))"
  using assms files_ok_continue ids_ok_continue dead_letters_ok_failed [of st dl d]
  by (simp add: ledger_ok_def buildDeadLetter_def)

lemma failed_status_simps [simp]:
  "failed_status Rejected" "failed_status Expired" "failed_status DeadLettered"
  "\<not> failed_status Accepted" "\<not> failed_status Queued" "\<not> failed_status Dispatched"
  "\<not> failed_status Acknowledged" "\<not> failed_status Completed"
  by (simp_all add: failed_status_def)

text \<open>The single-delivery operations append to a current row.\<close>

lemma load_row:
  assumes "files_ok st" and "loadCurrentDelivery st i None = Some d"
  shows "d \<in> set (all_rows st)" and "d_id d = js_trim i" and "lookup st (js_trim i) = Some d"
  using assms lookup_mem [of st "js_trim i" d] by (auto simp: load_lookup split: if_splits)

lemma acknowledge_ok:
  assumes ok: "ledger_ok st" and "acknowledgeMeshDelivery clock i acked fin st = Inr (d, st')"
  shows "ledger_ok st'"
proof -
  from assms(2) obtain cur where cur: "loadCurrentDelivery st i None = Some cur"
    by (auto simp: acknowledgeMeshDelivery_def split: option.splits)
  note row = load_row(1) [OF ledger_okD(1) [OF ok] cur]
  from assms(2) cur show ?thesis
    by (auto simp: acknowledgeMeshDelivery_def Let_def split: if_splits
        intro!: ledger_ok_alive [OF ok row])
qed

lemma reject_ok:
  assumes ok: "ledger_ok st" and "rejectMeshDelivery rid clock i reason st = Inr (d, st')"
  shows "ledger_ok st'"
proof -
  from assms(2) obtain cur where cur: "loadCurrentDelivery st i None = Some cur"
    by (auto simp: rejectMeshDelivery_def split: option.splits)
  note row = load_row(1) [OF ledger_okD(1) [OF ok] cur]
  from assms(2) cur show ?thesis
    by (auto simp: rejectMeshDelivery_def Let_def split: if_splits
        intro!: ledger_ok_failed [OF ok row])
qed

lemma expire_delivery_ok:
  assumes "ledger_ok st" and "d \<in> set (all_rows st)"
  shows "ledger_ok (snd (expire_delivery rid clock d st))"
  unfolding expire_delivery_def Let_def snd_conv ledger_ok_event
  by (rule ledger_ok_failed [OF assms _ refl]) simp

lemma retry_ok:
  assumes ok: "ledger_ok st" and "retryMeshDelivery rid clock i now pol st = Inr (d, st')"
  shows "ledger_ok st'"
proof -
  from assms(2) obtain cur where cur: "loadCurrentDelivery st i None = Some cur"
    by (auto simp: retryMeshDelivery_def split: option.splits)
  note row = load_row(1) [OF ledger_okD(1) [OF ok] cur]
  show ?thesis
  proof (cases "now \<ge> d_expires_at cur")
    case True
    with assms(2) cur have "st' = snd (expire_delivery rid clock cur st)"
      by (simp add: retryMeshDelivery_def)
    then show ?thesis using expire_delivery_ok [OF ok row] by simp
  next
    case False
    show ?thesis
    proof (cases "int (d_attempt_count cur + 1) \<ge> rp_max_attempts (normalizeRetryPolicy pol)")
      case True
      let ?nxt = "cur\<lparr>d_status := DeadLettered, d_attempt_count := d_attempt_count cur + 1,
          d_failure_class := Some TransportError\<rparr>"
      from assms(2) cur False True have "st' = writeDeliveryEvent ''delivery_dead_lettered'' ?nxt
          (put_dead_letter (buildDeadLetter rid clock ?nxt TransportError (ReasonText ''retry_exhausted''))
            (put_delivery ?nxt st))"
        by (auto simp: retryMeshDelivery_def Let_def split: if_splits)
      then show ?thesis using ledger_ok_failed [OF ok row _ refl] by simp
    next
      case notmax: False
      from assms(2) cur False notmax obtain t where "st' = writeDeliveryEvent ''delivery_requeued''
          (cur\<lparr>d_status := Queued, d_attempt_count := d_attempt_count cur + 1, d_retry_at := Some t,
              d_failure_class := Some TransportError\<rparr>)
          (put_delivery (cur\<lparr>d_status := Queued, d_attempt_count := d_attempt_count cur + 1, d_retry_at := Some t,
              d_failure_class := Some TransportError\<rparr>) st)"
        by (auto simp: retryMeshDelivery_def Let_def split: if_splits sum.splits)
      then show ?thesis using ledger_ok_alive [OF ok row] by simp
    qed
  qed
qed

section \<open>Acceptance\<close>

text \<open>A request whose delivery identifier is usable: the key is not empty, the identifier has no
  surrounding white space, and no other tenant's delivery has the same hash.\<close>

definition well_keyed :: "(string \<Rightarrow> string) \<Rightarrow> mesh_request \<Rightarrow> broker_state \<Rightarrow> bool" where
  "well_keyed sha req st \<longleftrightarrow>
    mr_idempotency_key req \<noteq> [] \<and> js_trim (deliveryIdForRequest sha req) = deliveryIdForRequest sha req \<and>
    (\<forall>r\<in>set (all_rows st). d_id r = deliveryIdForRequest sha req \<longrightarrow>
       d_tenant r = ts_tenant_id (mr_tenant_scope req))"

lemma tenant_current:
  assumes ok: "ledger_ok st" and r: "r \<in> set (all_rows st)"
  shows "\<exists>c\<in>set (loadCurrentDeliveries st (Some (d_tenant r))). d_id c = d_id r \<and>
      d_idempotency_key c = d_idempotency_key r"
proof -
  let ?rows = "rows_of (bk_deliveries st) (d_tenant r)"
  have files: "files_ok st" and ids: "ids_ok st" using ok by (simp_all add: ledger_ok_def)
  have mem: "r \<in> set ?rows" using r by (simp add: rows_of_tenant [OF files])
  then obtain c where c: "List.find (\<lambda>x. d_id x = d_id r) (rev ?rows) = Some c"
    by (cases "List.find (\<lambda>x. d_id x = d_id r) (rev ?rows)") (auto simp: find_None_iff)
  have cc: "d_id c = d_id r" "c \<in> set ?rows" using find_key [OF c] by simp_all
  have "d_id c \<noteq> []" using ids_okD(1) [OF ids r] cc(1) by simp
  with c cc(1) have "c \<in> set (map snd (latest_by_key d_id ?rows))" unfolding current_iff by simp
  then have cur: "c \<in> set (loadCurrentDeliveries st (Some (d_tenant r)))"
    by (simp add: loadCurrentDeliveries_def scanned_rows_def)
  have "c \<in> set (all_rows st)" "d_tenant c = d_tenant r"
    using cc(2) by (simp_all add: rows_of_tenant [OF files])
  then have "d_idempotency_key c = d_idempotency_key r"
    using ids_okD(4) [OF ids _ r, of c] cc(1) by simp
  with cur cc(1) show ?thesis by blast
qed

lemma find_none_fresh:
  assumes ok: "ledger_ok st" and keyed: "well_keyed sha req st"
    and none: "findCurrentDeliveryByIdempotency sha req st = None" and r: "r \<in> set (all_rows st)"
  shows "d_id r \<noteq> deliveryIdForRequest sha req"
    and "d_tenant r = ts_tenant_id (mr_tenant_scope req) \<Longrightarrow> d_idempotency_key r \<noteq> mr_idempotency_key req"
proof -
  let ?t = "ts_tenant_id (mr_tenant_scope req)"
  have none1: "loadCurrentDelivery st (deliveryIdForRequest sha req) (Some ?t) = None"
    and none2: "\<forall>c\<in>set (loadCurrentDeliveries st (Some ?t)). d_idempotency_key c \<noteq> mr_idempotency_key req"
    using none by (auto simp: findCurrentDeliveryByIdempotency_def Let_def find_None_iff split: option.splits)
  show "d_id r \<noteq> deliveryIdForRequest sha req"
  proof
    assume eq: "d_id r = deliveryIdForRequest sha req"
    with keyed r have t: "d_tenant r = ?t" by (simp add: well_keyed_def)
    from tenant_current [OF ok r] obtain c where
      "c \<in> set (loadCurrentDeliveries st (Some ?t))" "d_id c = deliveryIdForRequest sha req"
      by (auto simp: t eq)
    then have "List.find (\<lambda>x. d_id x = deliveryIdForRequest sha req) (loadCurrentDeliveries st (Some ?t)) \<noteq> None"
      by (auto simp: find_None_iff)
    moreover have "js_trim (deliveryIdForRequest sha req) = deliveryIdForRequest sha req"
      using keyed by (simp add: well_keyed_def)
    ultimately show False
      using none1 by (simp add: loadCurrentDelivery_def Let_def deliveryIdForRequest_def)
  qed
  assume "d_tenant r = ?t"
  with tenant_current [OF ok r] none2 show "d_idempotency_key r \<noteq> mr_idempotency_key req" by fastforce
qed

lemma new_delivery_fields:
  "d_id (new_delivery sha msgid created route e req) = deliveryIdForRequest sha req"
  "d_tenant_scope (new_delivery sha msgid created route e req) = mr_tenant_scope req"
  "d_idempotency_key (new_delivery sha msgid created route e req) = str_or (mr_idempotency_key req) ''unknown''"
  "d_status (new_delivery sha msgid created route e req) = Accepted"
  "d_created_at (new_delivery sha msgid created route e req) = created"
  "d_expires_at (new_delivery sha msgid created route e req) = e"
  "d_attempt_count (new_delivery sha msgid created route e req) = 0"
  by (simp_all add: new_delivery_def buildDeliverySnapshot_def)

lemma ids_ok_new:
  assumes ok: "ids_ok st" and id: "d_id d \<noteq> []" "js_trim (d_id d) = d_id d"
    and fresh: "\<And>r. r \<in> set (all_rows st) \<Longrightarrow> d_id r \<noteq> d_id d"
      "\<And>r. r \<in> set (all_rows st) \<Longrightarrow> d_tenant r = d_tenant d \<Longrightarrow> d_idempotency_key r \<noteq> d_idempotency_key d"
  shows "ids_ok (put_delivery d st)"
  unfolding ids_ok_def set_rows_put
proof (intro conjI ballI impI)
  fix x assume "x \<in> insert d (set (all_rows st))"
  then show "d_id x \<noteq> []" "js_trim (d_id x) = d_id x"
    using ids_okD(1,2) [OF ok, of x] id by auto
next
  fix x y assume xy: "x \<in> insert d (set (all_rows st))" "y \<in> insert d (set (all_rows st))"
  consider "x = d" "y = d" | "x = d" "y \<in> set (all_rows st)" | "x \<in> set (all_rows st)" "y = d"
    | "x \<in> set (all_rows st)" "y \<in> set (all_rows st)" using xy by blast
  note c = this
  show "d_id x = d_id y \<Longrightarrow> d_tenant x = d_tenant y"
    using c
  proof cases
    case 2
    assume "d_id x = d_id y" with 2 fresh(1) [of y] show ?thesis by simp
  next
    case 3
    assume "d_id x = d_id y" with 3 fresh(1) [of x] show ?thesis by simp
  next
    case 4
    assume "d_id x = d_id y" with ids_okD(3) [OF ok 4] show ?thesis by simp
  qed simp
  show "d_tenant x = d_tenant y \<Longrightarrow> d_id x = d_id y \<longleftrightarrow> d_idempotency_key x = d_idempotency_key y"
    using c
  proof cases
    case 2
    assume "d_tenant x = d_tenant y" with 2 fresh [of y] show ?thesis by (simp add: eq_commute)
  next
    case 3
    assume "d_tenant x = d_tenant y" with 3 fresh [of x] show ?thesis by simp
  next
    case 4
    assume "d_tenant x = d_tenant y" with ids_okD(4) [OF ok 4] show ?thesis by simp
  qed simp
qed

lemma record_new_ok:
  assumes ok: "ledger_ok st" and "isValidTenantSlug (d_tenant d)" and "\<not> failed_status (d_status d)"
    and id: "d_id d \<noteq> []" "js_trim (d_id d) = d_id d" and key: "d_idempotency_key d \<noteq> []"
    and fresh: "\<And>r. r \<in> set (all_rows st) \<Longrightarrow> d_id r \<noteq> d_id d"
      "\<And>r. r \<in> set (all_rows st) \<Longrightarrow> d_tenant r = d_tenant d \<Longrightarrow> d_idempotency_key r \<noteq> d_idempotency_key d"
    and rec: "record_new d st = (queued, st')"
  shows "ledger_ok st'" and "lookup st' (d_id d) = Some queued"
    and "queued \<in> set (all_rows st')" and "continues queued d"
proof -
  let ?st1 = "put_delivery d st"
  have "ids_ok ?st1" by (rule ids_ok_new [OF ledger_okD(2) [OF ok] id fresh])
  then have ok1: "ledger_ok ?st1"
    using files_ok_put [OF ledger_okD(1) [OF ok] assms(2)] dead_letters_ok_alive [OF ledger_okD(3) [OF ok] assms(3)]
    by (simp add: ledger_ok_def)
  have cont: "continues queued d" and st: "\<not> failed_status (d_status queued)"
    and st': "st' = writeDeliveryEvent ''delivery_queued'' queued (put_delivery queued
          (writeDeliveryEvent ''delivery_accepted'' d ?st1))"
    using rec key by (auto simp: record_new_def Let_def buildDeliverySnapshot_def continues_def str_or_def)
  have ok2: "ledger_ok (put_delivery queued (writeDeliveryEvent ''delivery_accepted'' d ?st1))"
    by (rule ledger_ok_alive [OF _ _ cont st]) (use ok1 in simp_all)
  then show "ledger_ok st'" by (simp add: st')
  show "queued \<in> set (all_rows st')" by (simp add: st')
  show "continues queued d" by (rule cont)
  have "lookup (put_delivery queued (writeDeliveryEvent ''delivery_accepted'' d ?st1)) (d_id d) = Some queued"
    using lookup_put [of "writeDeliveryEvent ''delivery_accepted'' d ?st1" queued "d_id d"] ok1 cont fresh(1)
    by (auto simp: continues_def ledger_ok_def)
  then show "lookup st' (d_id d) = Some queued" by (simp add: st')
qed

lemma fresh_request_tenant:
  "validateFreshRequest req now = None \<Longrightarrow> isValidTenantSlug (ts_tenant_id (mr_tenant_scope req))"
  by (auto simp: validateFreshRequest_def validateTenantScope_def Let_def split: option.splits if_splits)

lemma record_request_ok:
  assumes ok: "ledger_ok st" and keyed: "well_keyed sha req st"
    and none: "findCurrentDeliveryByIdempotency sha req st = None"
    and valid: "validateFreshRequest req now = None"
    and rec: "record_new (new_delivery sha msgid created route e req) st = (queued, st')"
  shows "ledger_ok st'" and "lookup st' (deliveryIdForRequest sha req) = Some queued"
    and "queued \<in> set (all_rows st')"
    and "d_id queued = deliveryIdForRequest sha req \<and> d_tenant_scope queued = mr_tenant_scope req \<and>
      d_idempotency_key queued = mr_idempotency_key req"
proof -
  let ?d = "new_delivery sha msgid created route e req"
  have key: "d_idempotency_key ?d = mr_idempotency_key req" "mr_idempotency_key req \<noteq> []"
    using keyed by (auto simp: well_keyed_def new_delivery_fields str_or_def)
  have id: "d_id ?d \<noteq> []" "js_trim (d_id ?d) = d_id ?d"
    using keyed by (auto simp: well_keyed_def new_delivery_fields deliveryIdForRequest_def)
  have tenant: "isValidTenantSlug (d_tenant ?d)"
    using fresh_request_tenant [OF valid] by (simp add: new_delivery_fields)
  have alive: "\<not> failed_status (d_status ?d)" by (simp add: new_delivery_fields)
  have f1: "d_id r \<noteq> d_id ?d" if "r \<in> set (all_rows st)" for r
    using find_none_fresh(1) [OF ok keyed none that] by (simp add: new_delivery_fields)
  have f2: "d_idempotency_key r \<noteq> d_idempotency_key ?d"
    if "r \<in> set (all_rows st)" "d_tenant r = d_tenant ?d" for r
    using find_none_fresh(2) [OF ok keyed none that(1)] that(2) key by (simp add: new_delivery_fields)
  have key': "d_idempotency_key ?d \<noteq> []" using key by simp
  note all = record_new_ok [OF ok tenant alive id key' f1 f2 rec]
  show "ledger_ok st'" by (rule all(1))
  show "lookup st' (deliveryIdForRequest sha req) = Some queued" using all(2) by (simp add: new_delivery_fields)
  show "queued \<in> set (all_rows st')" by (rule all(3))
  show "d_id queued = deliveryIdForRequest sha req \<and> d_tenant_scope queued = mr_tenant_scope req \<and>
      d_idempotency_key queued = mr_idempotency_key req"
    using all(4) key by (simp add: continues_def new_delivery_fields)
qed

lemma accept_cases:
  assumes "acceptMeshRequest sha msgid clock req now st = Inr (res, st')"
  obtains d where "findCurrentDeliveryByIdempotency sha req st = Some d" "st' = st"
      "res = \<lparr>ar_accepted = True, ar_delivery = d, ar_duplicate = True\<rparr>"
  | created route e queued now' where "findCurrentDeliveryByIdempotency sha req st = None"
      "validateFreshRequest req now' = None"
      "record_new (new_delivery sha msgid created route e req) st = (queued, st')"
      "res = \<lparr>ar_accepted = True, ar_delivery = queued, ar_duplicate = False\<rparr>"
  using assms
  by (auto simp: acceptMeshRequest_def Let_def split: option.splits sum.splits prod.splits)

lemma accept_ok:
  assumes "ledger_ok st" and "well_keyed sha req st"
    and "acceptMeshRequest sha msgid clock req now st = Inr (res, st')"
  shows "ledger_ok st'"
  using assms(3)
proof (cases rule: accept_cases)
  case (1 d)
  with assms(1) show ?thesis by simp
next
  case (2 created route e queued now')
  then show ?thesis using record_request_ok(1) [OF assms(1,2)] by blast
qed

lemma enqueue_ok:
  assumes "ledger_ok st" and "well_keyed sha req st"
    and "enqueueMeshDelivery sha msgid clock req route pv now st = Inr (d, st')"
  shows "ledger_ok st'"
proof -
  from assms(3) have "st' = st \<or> (\<exists>created r e now'. findCurrentDeliveryByIdempotency sha req st = None \<and>
      validateFreshRequest req now' = None \<and>
      record_new (new_delivery sha msgid created r e req) st = (d, st'))"
    by (auto simp: enqueueMeshDelivery_def Let_def split: option.splits sum.splits)
  with assms(1) record_request_ok(1) [OF assms(1,2)] show ?thesis by blast
qed

section \<open>Claims and expiry\<close>

definition put_events :: "string \<Rightarrow> delivery list \<Rightarrow> broker_state \<Rightarrow> broker_state" where
  "put_events ev ds st = fold (\<lambda>d s. writeDeliveryEvent ev d (put_delivery d s)) ds st"

lemma put_events_ok:
  assumes "ledger_ok st" and "\<And>d. d \<in> set ds \<Longrightarrow> \<exists>r\<in>set (all_rows st). continues d r \<and> \<not> failed_status (d_status d)"
  shows "ledger_ok (put_events ev ds st) \<and>
    lookup (put_events ev ds st) i =
      (case List.find (\<lambda>d. d_id d = i) (rev ds) of Some d \<Rightarrow> Some d | None \<Rightarrow> lookup st i)"
  using assms
proof (induction ds rule: rev_induct)
  case Nil
  then show ?case by (simp add: put_events_def)
next
  case (snoc d ds)
  let ?s = "put_events ev ds st"
  have IH: "ledger_ok ?s" "lookup ?s i = (case List.find (\<lambda>d. d_id d = i) (rev ds) of Some d \<Rightarrow> Some d | None \<Rightarrow> lookup st i)"
    using snoc by auto
  have rows: "set (all_rows st) \<subseteq> set (all_rows ?s)"
  proof -
    have "set (all_rows st) \<subseteq> set (all_rows (put_events ev xs st))" for xs
      by (induction xs rule: rev_induct) (auto simp: put_events_def)
    then show ?thesis .
  qed
  from snoc.prems(2) [of d] obtain r where r: "r \<in> set (all_rows st)" "continues d r" "\<not> failed_status (d_status d)"
    by auto
  with rows have mem: "r \<in> set (all_rows ?s)" by blast
  have step: "put_events ev (ds @ [d]) st = writeDeliveryEvent ev d (put_delivery d ?s)"
    by (simp add: put_events_def)
  have ok: "ledger_ok (put_delivery d ?s)" by (rule ledger_ok_alive [OF IH(1) mem r(2,3)])
  have "lookup (put_delivery d ?s) i = (if i = d_id d then Some d else lookup ?s i)"
  proof (rule lookup_put [OF ledger_okD(1) [OF IH(1)]])
    fix x assume "x \<in> set (all_rows ?s)" "d_id x = d_id d"
    with ids_okD(3) [OF ledger_okD(2) [OF IH(1)] _ mem, of x] r(2)
    show "d_tenant x = d_tenant d" by (simp add: continues_def)
  qed
  with ok IH(2) show ?case by (auto simp: step)
qed

lemma claim_put_events:
  "claimDueMeshDeliveries now lmt st =
    (map dispatch_delivery (due_deliveries now lmt st),
     put_events ''delivery_dispatched'' (map dispatch_delivery (due_deliveries now lmt st)) st)"
  by (simp add: claimDueMeshDeliveries_def put_events_def Let_def)

lemma due_deliveries_mem:
  assumes "ledger_ok st" and "d \<in> set (due_deliveries now lmt st)"
  shows "lookup st (d_id d) = Some d" and "d_status d = Queued" and "is_due now d"
    and "d \<in> set (all_rows st)"
proof -
  from assms(2) have "d \<in> set (filter (is_due now) (filter (\<lambda>d. d_status d = Queued) (loadCurrentDeliveries st None)))"
    by (auto simp: due_deliveries_def dest: in_set_takeD)
  then have cur: "d \<in> set (loadCurrentDeliveries st None)" and "d_status d = Queued" "is_due now d" by auto
  then show "d_status d = Queued" "is_due now d" by blast+
  from cur show l: "lookup st (d_id d) = Some d" by (simp add: currents_lookup [OF assms(1)])
  from lookup_mem [OF l] show "d \<in> set (all_rows st)" by blast
qed

lemma due_deliveries_distinct: "distinct (map d_id (due_deliveries now lmt st))"
proof -
  let ?q = "filter (is_due now) (filter (\<lambda>d. d_status d = Queued) (loadCurrentDeliveries st None))"
  have "distinct (map d_id ?q)" using currents_distinct by (simp add: distinct_map_filter)
  then have "distinct (map d_id (sort_key (\<lambda>d. (d_created_at d, d_id d)) ?q))"
    by (simp add: distinct_map)
  then show ?thesis by (simp add: due_deliveries_def take_map [symmetric])
qed

lemma due_deliveries_length: "length (due_deliveries now lmt st) \<le> nat (max 0 lmt)"
  by (simp add: due_deliveries_def)

lemma claim_ok:
  assumes "ledger_ok st"
  shows "ledger_ok (snd (claimDueMeshDeliveries now lmt st))"
proof -
  have "\<exists>r\<in>set (all_rows st). continues d r \<and> \<not> failed_status (d_status d)"
    if "d \<in> set (map dispatch_delivery (due_deliveries now lmt st))" for d
    using that due_deliveries_mem(4) [OF assms] by (auto simp: dispatch_delivery_def intro!: bexI)
  from put_events_ok [where ev = "''delivery_dispatched''", OF assms this] show ?thesis
    unfolding claim_put_events snd_conv by blast
qed

lemma claim_lookup:
  assumes "ledger_ok st"
  shows "lookup (snd (claimDueMeshDeliveries now lmt st)) i =
    (case List.find (\<lambda>d. d_id d = i) (due_deliveries now lmt st) of
       Some d \<Rightarrow> Some (dispatch_delivery d) | None \<Rightarrow> lookup st i)"
proof -
  let ?ds = "due_deliveries now lmt st"
  have pre: "\<exists>r\<in>set (all_rows st). continues d r \<and> \<not> failed_status (d_status d)"
    if "d \<in> set (map dispatch_delivery ?ds)" for d
    using that due_deliveries_mem(4) [OF assms] by (auto simp: dispatch_delivery_def intro!: bexI)
  have ids: "map d_id (map dispatch_delivery ?ds) = map d_id ?ds" by (simp add: dispatch_delivery_def)
  have dist: "distinct (map d_id (rev (map dispatch_delivery ?ds)))"
    using due_deliveries_distinct [of now lmt st] ids by (simp add: rev_map [symmetric] del: map_map)
  have "List.find (\<lambda>d. d_id d = i) (rev (map dispatch_delivery ?ds)) =
      map_option dispatch_delivery (List.find (\<lambda>d. d_id d = i) ?ds)"
  proof (cases "List.find (\<lambda>d. d_id d = i) ?ds")
    case None
    then have "\<forall>d\<in>set ?ds. d_id d \<noteq> i" by (auto simp: find_None_iff)
    then have "\<forall>d\<in>set (rev (map dispatch_delivery ?ds)). d_id d \<noteq> i" by (auto simp: dispatch_delivery_def)
    then have "List.find (\<lambda>d. d_id d = i) (rev (map dispatch_delivery ?ds)) = None"
      unfolding find_None_iff by blast
    then show ?thesis unfolding None by (simp only: option.map)
  next
    case (Some d)
    then have "d \<in> set ?ds" "d_id d = i" using find_key [OF Some] by simp_all
    then have "dispatch_delivery d \<in> set (rev (map dispatch_delivery ?ds)) \<and> d_id (dispatch_delivery d) = i"
      by (auto simp: dispatch_delivery_def)
    then have "List.find (\<lambda>d. d_id d = i) (rev (map dispatch_delivery ?ds)) = Some (dispatch_delivery d)"
      using find_distinct [OF dist] by blast
    with Some show ?thesis by simp
  qed
  note found = this
  have "lookup (put_events ''delivery_dispatched'' (map dispatch_delivery ?ds) st) i =
      (case List.find (\<lambda>d. d_id d = i) (rev (map dispatch_delivery ?ds)) of Some d \<Rightarrow> Some d | None \<Rightarrow> lookup st i)"
    using put_events_ok [where ev = "''delivery_dispatched''", OF assms pre] by blast
  then show ?thesis
    unfolding claim_put_events snd_conv found by (cases "List.find (\<lambda>d. d_id d = i) ?ds") simp_all
qed

lemma expire_fold_ok:
  assumes "ledger_ok st" and "set ds \<subseteq> set (all_rows st)"
  shows "ledger_ok (snd (fold (\<lambda>d (expired, s).
      case expire_delivery (rids (d_id d)) clock d s of (nxt, s') \<Rightarrow> (expired @ [nxt], s')) ds (acc, st)))"
  using assms
proof (induction ds arbitrary: acc st)
  case (Cons d ds)
  have rows: "set (all_rows st) \<subseteq> set (all_rows (snd (expire_delivery (rids (d_id d)) clock d st)))"
    by (auto simp: expire_delivery_def Let_def)
  have "ledger_ok (snd (expire_delivery (rids (d_id d)) clock d st))"
    using Cons.prems by (intro expire_delivery_ok) auto
  with Cons.IH rows Cons.prems show ?case by (simp add: case_prod_beta subset_iff)
qed simp

lemma expire_ok:
  assumes "ledger_ok st"
  shows "ledger_ok (snd (expireMeshDeliveries rids clock now st))"
  unfolding expireMeshDeliveries_def
proof (rule expire_fold_ok [OF assms])
  show "set (filter (expires_now now) (loadCurrentDeliveries st None)) \<subseteq> set (all_rows st)"
    using currents_lookup [OF assms] lookup_mem by fastforce
qed

section \<open>The current delivery\<close>

lemma load_current:
  assumes "ledger_ok st" and "lookup st i = Some d"
  shows "loadCurrentDelivery st i None = Some d"
proof -
  from lookup_mem [OF assms(2)] have m: "d \<in> set (all_rows st)" "d_id d = i" by blast+
  have "i \<noteq> []" "js_trim i = i" using ids_okD(1,2) [OF ledger_okD(2) [OF assms(1)] m(1)] m(2) by simp_all
  then show ?thesis by (simp add: load_lookup [OF ledger_okD(1) [OF assms(1)]] assms(2))
qed

lemma lookup_put_continue:
  assumes "ledger_ok st" and "lookup st i = Some r" and "continues d r"
  shows "lookup (put_delivery d st) = (lookup st)(i \<mapsto> d)"
proof
  fix j
  from lookup_mem [OF assms(2)] have m: "r \<in> set (all_rows st)" "d_id r = i" by blast+
  have "lookup (put_delivery d st) j = (if j = d_id d then Some d else lookup st j)"
  proof (rule lookup_put [OF ledger_okD(1) [OF assms(1)]])
    fix x assume x: "x \<in> set (all_rows st)" "d_id x = d_id d"
    with assms(3) have "d_id x = d_id r" by (simp add: continues_def)
    from ids_okD(3) [OF ledger_okD(2) [OF assms(1)] x(1) m(1) this]
    show "d_tenant x = d_tenant d" using assms(3) by (simp add: continues_def)
  qed
  then show "lookup (put_delivery d st) j = ((lookup st)(i \<mapsto> d)) j"
    using assms(3) m(2) by (simp add: continues_def)
qed

section \<open>Reachable ledgers\<close>

inductive broker_step :: "(string \<Rightarrow> string) \<Rightarrow> broker_state \<Rightarrow> broker_state \<Rightarrow> bool" for sha where
  step_accept: "well_keyed sha req st \<Longrightarrow> acceptMeshRequest sha msgid clock req now st = Inr (r, st') \<Longrightarrow>
    broker_step sha st st'"
| step_enqueue: "well_keyed sha req st \<Longrightarrow>
    enqueueMeshDelivery sha msgid clock req route pv now st = Inr (d, st') \<Longrightarrow> broker_step sha st st'"
| step_claim: "claimDueMeshDeliveries t lmt st = (ds, st') \<Longrightarrow> broker_step sha st st'"
| step_ack: "acknowledgeMeshDelivery clock i acked fin st = Inr (d, st') \<Longrightarrow> broker_step sha st st'"
| step_reject: "rejectMeshDelivery rid clock i reason st = Inr (d, st') \<Longrightarrow> broker_step sha st st'"
| step_retry: "retryMeshDelivery rid clock i t pol st = Inr (d, st') \<Longrightarrow> broker_step sha st st'"
| step_expire: "expireMeshDeliveries rids clock t st = (ds, st') \<Longrightarrow> broker_step sha st st'"

definition empty_broker :: broker_state where
  "empty_broker = \<lparr>bk_deliveries = [], bk_dead_letters = [], bk_events = []\<rparr>"

inductive broker_reachable :: "(string \<Rightarrow> string) \<Rightarrow> broker_state \<Rightarrow> bool" for sha where
  broker_empty: "broker_reachable sha empty_broker"
| broker_next: "broker_reachable sha st \<Longrightarrow> broker_step sha st st' \<Longrightarrow> broker_reachable sha st'"

lemma empty_ok: "ledger_ok empty_broker"
  by (simp add: ledger_ok_def files_ok_def ids_ok_def dead_letters_ok_def all_rows_def empty_broker_def)

lemma step_ok:
  assumes "ledger_ok st" and "broker_step sha st st'"
  shows "ledger_ok st'"
  using assms(2)
proof cases
  case (step_accept req msgid clock now r)
  then show ?thesis using accept_ok [OF assms(1)] by blast
next
  case (step_enqueue req msgid clock route pv now d)
  then show ?thesis using enqueue_ok [OF assms(1)] by blast
next
  case (step_claim t lmt ds)
  then show ?thesis using claim_ok [OF assms(1), of t lmt] by simp
next
  case (step_ack clock i acked fin d)
  then show ?thesis using acknowledge_ok [OF assms(1)] by blast
next
  case (step_reject rid clock i reason d)
  then show ?thesis using reject_ok [OF assms(1)] by blast
next
  case (step_retry rid clock i t pol d)
  then show ?thesis using retry_ok [OF assms(1)] by blast
next
  case (step_expire rids clock t ds)
  then show ?thesis using expire_ok [OF assms(1), of rids clock t] by simp
qed

lemma reachable_ok: "broker_reachable sha st \<Longrightarrow> ledger_ok st"
  by (induction rule: broker_reachable.induct) (auto intro: empty_ok step_ok)

end
