(* ===== verification/Mesh_Props.thy ===== *)
theory Mesh_Props
  imports Mesh_Ledger
begin

text \<open>
  The properties of the mesh broker over reachable ledgers: what a client of
  \<open>mesh-message-broker.ts\<close> may rely on, and two behaviours of its retry that a client has to know.
\<close>

section \<open>A sample ledger\<close>

definition sample_sha :: "string \<Rightarrow> string" where
  "sample_sha s = s"

definition sample_request :: mesh_request where
  "sample_request =
    \<lparr>mr_request_id = ''rq1'', mr_tenant_scope = \<lparr>ts_tenant_id = ''acme'', ts_scope = ''same_tenant''\<rparr>,
     mr_sender_peer_id = ''peer-a'', mr_created_at = Some 1000, mr_ttl_ms = 900000,
     mr_idempotency_key = ''k1'', mr_correlation_id = ''c1'', mr_request_kind = ReviewRequest,
     mr_selector = PeerSelector ''peer-b'',
     mr_payload = \<lparr>pl_classification = Public, pl_artifact_ref = ''a'', pl_integrity_hash = ''h'',
       pl_storage_class = Vault\<rparr>\<rparr>"

definition sample_accept :: "broker_error + accept_result \<times> broker_state" where
  "sample_accept = acceptMeshRequest sample_sha ''msg1'' 2000 sample_request None empty_broker"

definition sample_ledger :: broker_state where
  "sample_ledger = (case sample_accept of Inr (r, st) \<Rightarrow> st | Inl _ \<Rightarrow> empty_broker)"

definition sample_result :: accept_result where
  "sample_result = (case sample_accept of Inr (r, st) \<Rightarrow> r)"

definition sample_id :: ident where
  "sample_id = ''mhd-acme:k1''"

lemma sample_accept_eq: "sample_accept = Inr (sample_result, sample_ledger)"
  by code_simp

lemma sample_well_keyed: "well_keyed sample_sha sample_request empty_broker"
  by code_simp

lemma sample_reachable: "broker_reachable sample_sha sample_ledger"
proof (rule broker_next [OF broker_empty])
  show "broker_step sample_sha empty_broker sample_ledger"
    by (rule step_accept [OF sample_well_keyed sample_accept_eq [unfolded sample_accept_def]])
qed

section \<open>Acceptance is idempotent\<close>

lemma record_new_rows:
  assumes "record_new d st = (queued, st')"
  shows "rows_of (bk_deliveries st') t =
    (if t = d_tenant d then rows_of (bk_deliveries st) t @ [d, queued] else rows_of (bk_deliveries st) t)"
proof -
  have "queued = buildDeliverySnapshot d (Some (d_attempt_count d)) (Some Queued)"
    and "bk_deliveries st' = append_row (d_tenant queued) queued (append_row (d_tenant d) d (bk_deliveries st))"
    using assms by (auto simp: record_new_def Let_def put_delivery_def writeDeliveryEvent_def)
  moreover from this(1) have "d_tenant queued = d_tenant d" by (simp add: buildDeliverySnapshot_def)
  ultimately show ?thesis by (simp add: rows_of_append_row)
qed

lemma find_by_last_row:
  assumes "rows_of (bk_deliveries st) (ts_tenant_id (mr_tenant_scope req)) = rows @ [d]"
    and "d_id d = deliveryIdForRequest sha req"
    and "js_trim (deliveryIdForRequest sha req) = deliveryIdForRequest sha req"
  shows "findCurrentDeliveryByIdempotency sha req st = Some d"
proof -
  let ?i = "deliveryIdForRequest sha req"
  have ne: "?i \<noteq> []" by (simp add: deliveryIdForRequest_def)
  have "loadCurrentDelivery st ?i (Some (ts_tenant_id (mr_tenant_scope req))) =
      List.find (\<lambda>r. d_id r = ?i) (rev (rows @ [d]))"
    using find_current [OF ne, of d_id "rows @ [d]"]
    by (simp add: loadCurrentDelivery_def Let_def assms(1,3) ne loadCurrentDeliveries_def scanned_rows_def)
  also have "\<dots> = Some d" by (simp add: assms(2))
  finally show ?thesis by (simp add: findCurrentDeliveryByIdempotency_def Let_def)
qed

lemma same_key_same_find:
  assumes "mr_tenant_scope req' = mr_tenant_scope req" and "mr_idempotency_key req' = mr_idempotency_key req"
  shows "findCurrentDeliveryByIdempotency sha req' st = findCurrentDeliveryByIdempotency sha req st"
    and "validateTenantScope req' = validateTenantScope req"
    and "deliveryIdForRequest sha req' = deliveryIdForRequest sha req"
  unfolding findCurrentDeliveryByIdempotency_def deliveryIdForRequest_def deliveryIdentity_def
    validateTenantScope_def Let_def assms by (rule refl)+

text \<open>C16. Accepting a request is idempotent (its delivery identifier being a hexadecimal digest,
  trimming leaves it alone): after it was accepted, every request with the same tenant
  scope and idempotency key (whatever its content, identifier or age) returns the same delivery as a
  duplicate and writes nothing. The first acceptance appends exactly the accepted and the queued row
  to the tenant's file and leaves every other tenant's file alone.\<close>

theorem accept_is_idempotent:
  assumes trim: "js_trim (deliveryIdForRequest sha req) = deliveryIdForRequest sha req"
    and first: "acceptMeshRequest sha msgid clock req now st = Inr (r, st')"
    and same: "mr_tenant_scope req' = mr_tenant_scope req" "mr_idempotency_key req' = mr_idempotency_key req"
  shows "acceptMeshRequest sha msgid' clock' req' now' st' =
      Inr (\<lparr>ar_accepted = True, ar_delivery = ar_delivery r, ar_duplicate = True\<rparr>, st') \<and>
    (ar_duplicate r \<longrightarrow> st' = st) \<and>
    (\<not> ar_duplicate r \<longrightarrow> d_status (ar_delivery r) = Queued \<and>
       (\<exists>accepted. d_status accepted = Accepted \<and> d_id accepted = d_id (ar_delivery r) \<and>
          (\<forall>t. rows_of (bk_deliveries st') t = rows_of (bk_deliveries st) t @
             (if t = ts_tenant_id (mr_tenant_scope req) then [accepted, ar_delivery r] else []))))"
proof -
  have scope: "validateTenantScope req = None"
    using first by (auto simp: acceptMeshRequest_def split: option.splits)
  have again: "acceptMeshRequest sha msgid' clock' req' now' st' =
      Inr (\<lparr>ar_accepted = True, ar_delivery = d, ar_duplicate = True\<rparr>, st')"
    if "findCurrentDeliveryByIdempotency sha req st' = Some d" for d
    using that scope by (simp add: acceptMeshRequest_def same_key_same_find [OF same])
  show ?thesis
    using first
  proof (cases rule: accept_cases)
    case (1 d)
    then show ?thesis using again [of d] by simp
  next
    case (2 created route e queued now')
    let ?d = "new_delivery sha msgid created route e req"
    have q: "d_id queued = deliveryIdForRequest sha req" "d_status queued = Queued"
      using 2(3) by (auto simp: record_new_def Let_def buildDeliverySnapshot_def new_delivery_def)
    have rows: "rows_of (bk_deliveries st') t = rows_of (bk_deliveries st) t @
        (if t = ts_tenant_id (mr_tenant_scope req) then [?d, queued] else [])" for t
      using record_new_rows [OF 2(3), of t] by (simp add: new_delivery_fields)
    have "findCurrentDeliveryByIdempotency sha req st' = Some queued"
      by (rule find_by_last_row [OF _ q(1) trim,
            of _ "rows_of (bk_deliveries st) (ts_tenant_id (mr_tenant_scope req)) @ [?d]"])
        (simp add: rows)
    moreover have "d_status ?d = Accepted \<and> d_id ?d = d_id queued"
      by (simp add: new_delivery_fields q)
    ultimately show ?thesis using again rows q(2) 2(4) by auto
  qed
qed

theorem accept_is_idempotent_witness:
  "acceptMeshRequest sample_sha ''msg2'' 5000 (sample_request\<lparr>mr_request_id := ''rq2'', mr_ttl_ms := 0\<rparr>) None sample_ledger =
     Inr (\<lparr>ar_accepted = True, ar_delivery = ar_delivery sample_result, ar_duplicate = True\<rparr>, sample_ledger)"
  using accept_is_idempotent [OF conjunct1 [OF conjunct2 [OF sample_well_keyed [unfolded well_keyed_def]]]
      sample_accept_eq [unfolded sample_accept_def], of "sample_request\<lparr>mr_request_id := ''rq2'', mr_ttl_ms := 0\<rparr>" "''msg2''" 5000 None]
  by simp

section \<open>The current deliveries\<close>

text \<open>C18. In every reachable ledger a tenant has at most one current delivery per idempotency key, and
  every delivery that failed (rejected, expired or dead-lettered) has a dead letter in its tenant's
  file that names it and its request.\<close>

theorem ledger_has_one_delivery_per_key:
  assumes "broker_reachable sha st"
  shows "distinct (map (\<lambda>d. (d_tenant d, d_idempotency_key d)) (loadCurrentDeliveries st None)) \<and>
    (\<forall>d\<in>set (loadCurrentDeliveries st None). failed_status (d_status d) \<longrightarrow>
       (\<exists>dl\<in>set (rows_of (bk_dead_letters st) (d_tenant d)).
          dl_delivery_id dl = d_id d \<and> dl_request_id dl = d_request_id d))"
proof
  have ok: "ledger_ok st" using reachable_ok [OF assms] .
  have row: "d \<in> set (all_rows st)" if "d \<in> set (loadCurrentDeliveries st None)" for d
    using that currents_lookup [OF ok] lookup_mem by blast
  have dist: "distinct (loadCurrentDeliveries st None)" "inj_on d_id (set (loadCurrentDeliveries st None))"
    using currents_distinct [of st None] by (simp_all add: distinct_map)
  have "inj_on (\<lambda>d. (d_tenant d, d_idempotency_key d)) (set (loadCurrentDeliveries st None))"
  proof (rule inj_onI)
    fix x y assume xy: "x \<in> set (loadCurrentDeliveries st None)" "y \<in> set (loadCurrentDeliveries st None)"
      "(d_tenant x, d_idempotency_key x) = (d_tenant y, d_idempotency_key y)"
    then have "d_id x = d_id y" using ids_okD(4) [OF ledger_okD(2) [OF ok] row row] by simp
    with dist(2) xy show "x = y" by (meson inj_onD)
  qed
  with dist(1) show "distinct (map (\<lambda>d. (d_tenant d, d_idempotency_key d)) (loadCurrentDeliveries st None))"
    by (simp add: distinct_map)
  show "\<forall>d\<in>set (loadCurrentDeliveries st None). failed_status (d_status d) \<longrightarrow>
       (\<exists>dl\<in>set (rows_of (bk_dead_letters st) (d_tenant d)).
          dl_delivery_id dl = d_id d \<and> dl_request_id dl = d_request_id d)"
    using row ledger_okD(3) [OF ok] unfolding dead_letters_ok_def by blast
qed

theorem ledger_has_one_delivery_per_key_witness:
  "distinct (map (\<lambda>d. (d_tenant d, d_idempotency_key d)) (loadCurrentDeliveries sample_ledger None))"
  using ledger_has_one_delivery_per_key [OF sample_reachable] by blast


section \<open>Claims\<close>

lemma currents_load:
  assumes "ledger_ok st"
  shows "d \<in> set (loadCurrentDeliveries st None) \<longleftrightarrow> loadCurrentDelivery st (d_id d) None = Some d"
proof
  assume "d \<in> set (loadCurrentDeliveries st None)"
  then show "loadCurrentDelivery st (d_id d) None = Some d"
    using currents_lookup [OF assms] load_current [OF assms] by blast
next
  assume a: "loadCurrentDelivery st (d_id d) None = Some d"
  note l = load_row [OF ledger_okD(1) [OF assms] a]
  have "js_trim (d_id d) = d_id d" using l(2) by simp
  with l(3) show "d \<in> set (loadCurrentDeliveries st None)" by (simp add: currents_lookup [OF assms])
qed

definition due_key :: "delivery \<Rightarrow> ms \<times> ident" where
  "due_key d = (d_created_at d, d_id d)"

lemma due_take_sorted:
  assumes "q \<in> set xs" and "q \<notin> set (take n (sort_key f xs))" and "d \<in> set (take n (sort_key f xs))"
  shows "f d \<le> (f q :: 'b :: linorder)"
proof -
  have s: "sorted (map f (take n (sort_key f xs) @ drop n (sort_key f xs)))" by simp
  have "q \<in> set (take n (sort_key f xs) @ drop n (sort_key f xs))" using assms(1) by simp
  with assms(2) have "q \<in> set (drop n (sort_key f xs))" by (simp only: set_append Un_iff) blast
  with s assms(3) show ?thesis unfolding map_append sorted_append by simp
qed

lemma dispatched_id [simp]: "d_id (dispatch_delivery d) = d_id d" "d_created_at (dispatch_delivery d) = d_created_at d"
  by (simp_all add: dispatch_delivery_def)

lemma claimed_lookup:
  assumes "ledger_ok st" and "d \<in> set (due_deliveries now lmt st)"
  shows "lookup (snd (claimDueMeshDeliveries now lmt st)) (d_id d) = Some (dispatch_delivery d)"
proof -
  have "List.find (\<lambda>x. d_id x = d_id d) (due_deliveries now lmt st) = Some d"
    using find_distinct [OF due_deliveries_distinct] assms(2) by blast
  with claim_lookup [OF assms(1), of now lmt "d_id d"] show ?thesis by simp
qed

lemma unclaimed_lookup:
  assumes "ledger_ok st" and "i \<notin> d_id ` set (due_deliveries now lmt st)"
  shows "lookup (snd (claimDueMeshDeliveries now lmt st)) i = lookup st i"
proof -
  have "List.find (\<lambda>x. d_id x = i) (due_deliveries now lmt st) = None"
    using assms(2) by (auto simp: find_None_iff)
  with claim_lookup [OF assms(1), of now lmt i] show ?thesis by simp
qed

text \<open>C17. A claim takes at most the limit of deliveries, each once; each was queued and due, becomes
  dispatched with one more attempt, and is the current row of its identifier afterwards; a due delivery
  left behind is not older than a claimed one and is only left behind when the limit is used up; every
  other delivery is unchanged. No later claim returns a claimed delivery again unless another operation
  has requeued it first: a hub that stops between the claim and the outcome leaves it dispatched.\<close>

theorem claim_is_exclusive:
  assumes "broker_reachable sha st" and "claimDueMeshDeliveries now lmt st = (ds, st')"
  shows "length ds \<le> nat (max 0 lmt) \<and> distinct (map d_id ds) \<and>
    (\<forall>d\<in>set ds. \<exists>q. loadCurrentDelivery st (d_id d) None = Some q \<and> d_status q = Queued \<and> is_due now q \<and>
       d = dispatch_delivery q \<and> loadCurrentDelivery st' (d_id d) None = Some d) \<and>
    (\<forall>q\<in>set (loadCurrentDeliveries st None). d_id q \<notin> d_id ` set ds \<longrightarrow>
       loadCurrentDelivery st' (d_id q) None = Some q \<and>
       (d_status q = Queued \<and> is_due now q \<longrightarrow>
          int (length ds) = max 0 lmt \<and> (\<forall>d\<in>set ds. due_key d \<le> due_key q))) \<and>
    (\<forall>now' lmt'. set (map d_id (fst (claimDueMeshDeliveries now' lmt' st'))) \<inter> set (map d_id ds) = {})"
proof (intro conjI)
  let ?due = "due_deliveries now lmt st"
  let ?q = "filter (is_due now) (filter (\<lambda>d. d_status d = Queued) (loadCurrentDeliveries st None))"
  have ok: "ledger_ok st" using reachable_ok [OF assms(1)] .
  have st': "st' = snd (claimDueMeshDeliveries now lmt st)" using assms(2) by simp
  have ok': "ledger_ok st'" unfolding st' by (rule claim_ok [OF ok])
  have ds: "ds = map dispatch_delivery ?due" using assms(2) by (simp add: claim_put_events)
  have ids: "map d_id ds = map d_id ?due" by (simp add: ds)
  have due: "?due = take (nat (max 0 lmt)) (sort_key due_key ?q)"
    by (simp add: due_deliveries_def due_key_def [abs_def])
  show "length ds \<le> nat (max 0 lmt)" using due_deliveries_length by (simp add: ds)
  show "distinct (map d_id ds)" unfolding ids by (rule due_deliveries_distinct)
  show "\<forall>d\<in>set ds. \<exists>q. loadCurrentDelivery st (d_id d) None = Some q \<and> d_status q = Queued \<and> is_due now q \<and>
       d = dispatch_delivery q \<and> loadCurrentDelivery st' (d_id d) None = Some d"
  proof
    fix d assume "d \<in> set ds"
    then obtain q where q: "q \<in> set ?due" "d = dispatch_delivery q" by (auto simp: ds)
    note m = due_deliveries_mem [OF ok q(1)]
    have "loadCurrentDelivery st (d_id d) None = Some q"
      using load_current [OF ok m(1)] by (simp add: q(2))
    moreover have "loadCurrentDelivery st' (d_id d) None = Some d"
      using load_current [OF ok', of "d_id q" d] claimed_lookup [OF ok q(1)] by (simp add: q(2) st')
    ultimately show "\<exists>q. loadCurrentDelivery st (d_id d) None = Some q \<and> d_status q = Queued \<and> is_due now q \<and>
       d = dispatch_delivery q \<and> loadCurrentDelivery st' (d_id d) None = Some d"
      using m q(2) by blast
  qed
  show "\<forall>q\<in>set (loadCurrentDeliveries st None). d_id q \<notin> d_id ` set ds \<longrightarrow>
       loadCurrentDelivery st' (d_id q) None = Some q \<and>
       (d_status q = Queued \<and> is_due now q \<longrightarrow>
          int (length ds) = max 0 lmt \<and> (\<forall>d\<in>set ds. due_key d \<le> due_key q))"
  proof (intro ballI impI conjI)
    fix q assume q: "q \<in> set (loadCurrentDeliveries st None)" "d_id q \<notin> d_id ` set ds"
    have imgs: "d_id ` set ds = d_id ` set ?due" unfolding set_map [symmetric] ids ..
    from q(2) have out: "d_id q \<notin> d_id ` set ?due" unfolding imgs .
    have "lookup st (d_id q) = Some q" using q(1) currents_lookup [OF ok] by blast
    then show "loadCurrentDelivery st' (d_id q) None = Some q"
      using load_current [OF ok', of "d_id q" q] unclaimed_lookup [OF ok out] by (simp add: st')
    assume "d_status q = Queued \<and> is_due now q"
    with q(1) have mem: "q \<in> set ?q" by simp
    from out have nmem: "q \<notin> set (take (nat (max 0 lmt)) (sort_key due_key ?q))" unfolding due by blast
    show "int (length ds) = max 0 lmt"
    proof (rule ccontr)
      assume "int (length ds) \<noteq> max 0 lmt"
      then have "length (sort_key due_key ?q) < nat (max 0 lmt)"
        by (auto simp: ds due min_def split: if_splits)
      then have "take (nat (max 0 lmt)) (sort_key due_key ?q) = sort_key due_key ?q" by simp
      with nmem mem show False by simp
    qed
    fix d assume "d \<in> set ds"
    then obtain x where x: "x \<in> set (take (nat (max 0 lmt)) (sort_key due_key ?q))" "d = dispatch_delivery x"
      unfolding ds due set_map by blast
    from due_take_sorted [OF mem nmem x(1)] show "due_key d \<le> due_key q"
      by (simp add: x(2) due_key_def)
  qed
  show "\<forall>now' lmt'. set (map d_id (fst (claimDueMeshDeliveries now' lmt' st'))) \<inter> set (map d_id ds) = {}"
  proof (intro allI equals0I)
    fix now' lmt' i assume "i \<in> set (map d_id (fst (claimDueMeshDeliveries now' lmt' st'))) \<inter> set (map d_id ds)"
    moreover have "set (map d_id (fst (claimDueMeshDeliveries now' lmt' st'))) = d_id ` set (due_deliveries now' lmt' st')"
      by (force simp: claim_put_events)
    moreover have "set (map d_id ds) = d_id ` set ?due" unfolding ids set_map ..
    ultimately have "i \<in> d_id ` set (due_deliveries now' lmt' st') \<inter> d_id ` set ?due" by (simp only:)
    then obtain x y where xy: "x \<in> set (due_deliveries now' lmt' st')" "y \<in> set ?due" "d_id x = d_id y"
      by (elim IntE imageE) simp
    from due_deliveries_mem(1,2) [OF ok' xy(1)] claimed_lookup [OF ok xy(2)]
    have "x = dispatch_delivery y" by (simp add: xy(3) st')
    with due_deliveries_mem(2) [OF ok' xy(1)] show False by (simp add: dispatch_delivery_def)
  qed
qed

theorem claim_is_exclusive_witness:
  "length (fst (claimDueMeshDeliveries 3000 5 sample_ledger)) \<le> 5 \<and>
   map d_id (fst (claimDueMeshDeliveries 3000 5 sample_ledger)) = [sample_id]"
proof
  have "length (fst (claimDueMeshDeliveries 3000 5 sample_ledger)) \<le> nat (max 0 5)"
    by (rule claim_is_exclusive [OF sample_reachable prod.collapse [symmetric], THEN conjunct1])
  then show "length (fst (claimDueMeshDeliveries 3000 5 sample_ledger)) \<le> 5" by simp
  show "map d_id (fst (claimDueMeshDeliveries 3000 5 sample_ledger)) = [sample_id]" by code_simp
qed

section \<open>Retry\<close>

lemma retry_delay_bounds:
  "0 \<le> nextRetryDelayMs n (normalizeRetryPolicy p)"
  "nextRetryDelayMs n (normalizeRetryPolicy p) \<le> rp_max_delay_ms (normalizeRetryPolicy p)"
proof -
  have "0 \<le> rp_initial_delay_ms (normalizeRetryPolicy p)" "0 \<le> rp_max_delay_ms (normalizeRetryPolicy p)"
    unfolding normalizeRetryPolicy_def retry_policy.simps by (rule max.cobounded1)+
  then show "0 \<le> nextRetryDelayMs n (normalizeRetryPolicy p)"
    "nextRetryDelayMs n (normalizeRetryPolicy p) \<le> rp_max_delay_ms (normalizeRetryPolicy p)"
    by (simp_all add: nextRetryDelayMs_def)
qed

lemma to_iso_Inr: "to_iso t = Inr u \<longleftrightarrow> u = t \<and> \<bar>t\<bar> \<le> 8640000000000000"
  unfolding to_iso_def by (cases "\<bar>t\<bar> \<le> 8640000000000000") (simp_all only: if_True if_False sum.inject sum.distinct simp_thms eq_commute)

lemma lookup_continue:
  assumes "ledger_ok st" and "loadCurrentDelivery st i None = Some r" and "continues d r"
  shows "lookup (put_delivery d st) (d_id r) = Some d"
proof -
  note row = load_row [OF ledger_okD(1) [OF assms(1)] assms(2)]
  have "lookup st (d_id r) = Some r" using row by simp
  from lookup_put_continue [OF assms(1) this assms(3)] show ?thesis by simp
qed

text \<open>What one retry does, by cases.\<close>

lemma retry_cases:
  assumes "retryMeshDelivery rid clock i now pol st = Inr (d, st')"
  obtains (expired) cur where "loadCurrentDelivery st i None = Some cur" "d_expires_at cur \<le> now"
      "(d, st') = expire_delivery rid clock cur st"
  | (exhausted) cur dl where "loadCurrentDelivery st i None = Some cur" "now < d_expires_at cur"
      "d_status cur \<in> {Accepted, Queued, Dispatched}"
      "rp_max_attempts (normalizeRetryPolicy pol) \<le> int (d_attempt_count cur + 1)"
      "d = cur\<lparr>d_status := DeadLettered, d_attempt_count := d_attempt_count cur + 1,
               d_failure_class := Some TransportError\<rparr>"
      "dl_delivery_id dl = d_id d" "dl_tenant_scope dl = d_tenant_scope d"
      "st' = writeDeliveryEvent ''delivery_dead_lettered'' d (put_dead_letter dl (put_delivery d st))"
  | (requeued) cur where "loadCurrentDelivery st i None = Some cur" "now < d_expires_at cur"
      "d_status cur \<in> {Accepted, Queued, Dispatched}"
      "int (d_attempt_count cur + 1) < rp_max_attempts (normalizeRetryPolicy pol)"
      "d = cur\<lparr>d_status := Queued, d_attempt_count := d_attempt_count cur + 1,
               d_retry_at := Some (now + nextRetryDelayMs (d_attempt_count cur + 1) (normalizeRetryPolicy pol)),
               d_failure_class := Some TransportError\<rparr>"
      "st' = writeDeliveryEvent ''delivery_requeued'' d (put_delivery d st)"
proof -
  let ?p = "normalizeRetryPolicy pol"
  from assms obtain cur where cur: "loadCurrentDelivery st i None = Some cur"
    by (auto simp: retryMeshDelivery_def split: option.splits)
  show ?thesis
  proof (cases "d_expires_at cur \<le> now")
    case True
    with assms cur have "(d, st') = expire_delivery rid clock cur st" by (simp add: retryMeshDelivery_def)
    with cur True show ?thesis by (rule expired)
  next
    case False
    with assms cur have alive: "d_status cur \<notin> {Expired, DeadLettered, Rejected, Acknowledged, Completed}"
      by (auto simp: retryMeshDelivery_def split: if_splits)
    then have status: "d_status cur \<in> {Accepted, Queued, Dispatched}" by (cases "d_status cur") simp_all
    show ?thesis
    proof (cases "rp_max_attempts ?p \<le> int (d_attempt_count cur + 1)")
      case True
      with assms cur False alive show ?thesis
        by (intro exhausted [of cur "buildDeadLetter rid clock (cur\<lparr>d_status := DeadLettered,
            d_attempt_count := d_attempt_count cur + 1, d_failure_class := Some TransportError\<rparr>)
            TransportError (ReasonText ''retry_exhausted'')"])
          (use status in \<open>auto simp: retryMeshDelivery_def Let_def buildDeadLetter_def\<close>)
    next
      case notmax: False
      with assms cur False alive show ?thesis
        by (intro requeued [of cur])
          (use status in \<open>auto simp: retryMeshDelivery_def Let_def to_iso_Inr split: sum.splits\<close>)
    qed
  qed
qed

text \<open>A retry that returns has changed exactly the current row of its delivery. Before the expiry
  time the delivery was accepted, queued or dispatched, its attempt count grows by one, and it is
  dead-lettered (with a dead letter) exactly when the count reaches the policy's maximum; otherwise
  it is queued again, not due before now nor later than the policy's maximal delay. At or after the
  expiry time it is expired instead, whatever its status was.\<close>

lemma retry_backoff_is_bounded:
  assumes "broker_reachable sha st" and retry: "retryMeshDelivery rid clock i now pol st = Inr (d, st')"
  shows "\<exists>cur. loadCurrentDelivery st i None = Some cur \<and> loadCurrentDelivery st' (d_id cur) None = Some d \<and>
    (if d_expires_at cur \<le> now then d_status d = Expired \<and> d_attempt_count d = d_attempt_count cur
     else d_status cur \<in> {Accepted, Queued, Dispatched} \<and> d_attempt_count d = d_attempt_count cur + 1 \<and>
       (if rp_max_attempts (normalizeRetryPolicy pol) \<le> int (d_attempt_count d)
        then d_status d = DeadLettered \<and>
          (\<exists>dl\<in>set (rows_of (bk_dead_letters st') (d_tenant d)). dl_delivery_id dl = d_id d)
        else d_status d = Queued \<and>
          (\<exists>t. d_retry_at d = Some t \<and> now \<le> t \<and> t \<le> now + rp_max_delay_ms (normalizeRetryPolicy pol))))"
proof -
  have ok: "ledger_ok st" using reachable_ok [OF assms(1)] .
  have ok': "ledger_ok st'" by (rule retry_ok [OF ok retry])
  have now_current: "loadCurrentDelivery st' (d_id cur) None = Some d"
    if "loadCurrentDelivery st i None = Some cur" "continues d cur" "lookup st' = lookup (put_delivery d st)" for cur
    using load_current [OF ok', of "d_id cur" d] lookup_continue [OF ok that(1,2)]
    by (simp add: that(3))
  show ?thesis
    using retry
  proof (cases rule: retry_cases)
    case (expired cur)
    then have "d = cur\<lparr>d_status := Expired, d_failure_class := Some FExpired\<rparr>"
      and "lookup st' = lookup (put_delivery d st)"
      by (auto simp: expire_delivery_def Let_def)
    with expired now_current [OF expired(1)] show ?thesis by auto
  next
    case (exhausted cur dl)
    have "lookup st' = lookup (put_delivery d st)" "continues d cur"
      unfolding exhausted(5,8) by (auto simp: continues_def)
    note cur = now_current [OF exhausted(1) this(2,1)]
    have "dl \<in> set (rows_of (bk_dead_letters st') (d_tenant d))"
      by (simp add: exhausted(7,8) put_dead_letter_def writeDeliveryEvent_def rows_of_append)
    moreover have "d_attempt_count d = d_attempt_count cur + 1" "d_status d = DeadLettered"
      by (simp_all add: exhausted(5))
    ultimately show ?thesis using cur exhausted(1-4,6) by auto
  next
    case (requeued cur)
    have "lookup st' = lookup (put_delivery d st)" "continues d cur"
      unfolding requeued(5,6) by (auto simp: continues_def)
    note cur = now_current [OF requeued(1) this(2,1)]
    have "d_attempt_count d = d_attempt_count cur + 1" "d_status d = Queued"
      "d_retry_at d = Some (now + nextRetryDelayMs (d_attempt_count cur + 1) (normalizeRetryPolicy pol))"
      by (simp_all add: requeued(5))
    with cur requeued(1-4) retry_delay_bounds [of "d_attempt_count cur + 1" pol] show ?thesis by auto
  qed
qed

definition default_policy :: partial_policy where
  "default_policy = \<lparr>pp_initial_delay_ms = None, pp_max_delay_ms = None, pp_max_attempts = None\<rparr>"

definition retry_value :: "broker_error + delivery \<times> broker_state \<Rightarrow> delivery \<times> broker_state" where
  "retry_value r = (case r of Inr v \<Rightarrow> v)"

definition claim_retry :: "ms \<Rightarrow> broker_state \<Rightarrow> delivery \<times> broker_state" where
  "claim_retry now st =
    retry_value (retryMeshDelivery ''dl1'' now sample_id now default_policy (snd (claimDueMeshDeliveries now 20 st)))"

theorem retry_backoff_is_bounded_witness:
  "d_retry_at (fst (retry_value (retryMeshDelivery ''dl1'' 3000 sample_id 3000 default_policy sample_ledger))) = Some 4000 \<and>
   loadCurrentDelivery sample_ledger sample_id None \<noteq> None"
proof
  have "retryMeshDelivery ''dl1'' 3000 sample_id 3000 default_policy sample_ledger =
     Inr (fst (retry_value (retryMeshDelivery ''dl1'' 3000 sample_id 3000 default_policy sample_ledger)),
          snd (retry_value (retryMeshDelivery ''dl1'' 3000 sample_id 3000 default_policy sample_ledger)))"
    by code_simp
  from retry_backoff_is_bounded [OF sample_reachable this]
  show "loadCurrentDelivery sample_ledger sample_id None \<noteq> None" by (elim exE conjE) simp
  show "d_retry_at (fst (retry_value (retryMeshDelivery ''dl1'' 3000 sample_id 3000 default_policy sample_ledger))) = Some 4000"
    by code_simp
qed

text \<open>A failed dispatch costs two attempts: the claim counts one and the retry another. So a
  policy of n attempts is exhausted after about n/2 dispatches; with the default policy of five
  attempts the third dispatch is the last one.\<close>

theorem failed_dispatch_costs_two_attempts:
  assumes "broker_reachable sha st" and "claimDueMeshDeliveries now lmt st = (ds, st1)" and "c \<in> set ds"
    and "loadCurrentDelivery st (d_id c) None = Some q" and "now' < d_expires_at q"
    and "retryMeshDelivery rid clock (d_id c) now' pol st1 = Inr (d, st2)"
  shows "d_attempt_count d = d_attempt_count q + 2 \<and>
    (d_status d = DeadLettered \<longleftrightarrow> rp_max_attempts (normalizeRetryPolicy pol) \<le> int (d_attempt_count q) + 2)"
proof -
  have ok: "ledger_ok st" using reachable_ok [OF assms(1)] .
  have st1: "st1 = snd (claimDueMeshDeliveries now lmt st)" and "ds = map dispatch_delivery (due_deliveries now lmt st)"
    using assms(2) by (auto simp: claim_put_events)
  with assms(3) obtain x where x: "x \<in> set (due_deliveries now lmt st)" "c = dispatch_delivery x" by auto
  have "q = x" using load_current [OF ok due_deliveries_mem(1) [OF ok x(1)]] assms(4) x(2) by simp
  have "loadCurrentDelivery st1 (d_id c) None = Some c"
    using load_current [OF claim_ok [OF ok] claimed_lookup [OF ok x(1)]] by (simp add: x(2) st1)
  note cur = this
  have c: "now' < d_expires_at c" "d_attempt_count c = d_attempt_count q + 1"
    using assms(5) by (simp_all add: x(2) \<open>q = x\<close> dispatch_delivery_def)
  show ?thesis
    using assms(6) by (cases rule: retry_cases) (use cur c in auto)
qed

theorem failed_dispatch_costs_two_attempts_witness:
  "d_attempt_count (fst (claim_retry 3000 sample_ledger)) = 2 \<and>
   d_status (fst (claim_retry 23000 (snd (claim_retry 13000 (snd (claim_retry 3000 sample_ledger)))))) = DeadLettered"
proof
  let ?q = "ar_delivery sample_result"
  have run: "claimDueMeshDeliveries 3000 20 sample_ledger =
      ([dispatch_delivery ?q], snd (claimDueMeshDeliveries 3000 20 sample_ledger)) \<and>
    loadCurrentDelivery sample_ledger (d_id (dispatch_delivery ?q)) None = Some ?q \<and>
    3000 < d_expires_at ?q \<and>
    d_id (dispatch_delivery ?q) = sample_id \<and>
    retryMeshDelivery ''dl1'' 3000 (d_id (dispatch_delivery ?q)) 3000 default_policy
        (snd (claimDueMeshDeliveries 3000 20 sample_ledger)) =
      Inr (fst (claim_retry 3000 sample_ledger), snd (claim_retry 3000 sample_ledger)) \<and>
    d_attempt_count ?q = 0"
    by code_simp
  note after = run [THEN conjunct2] and c = run [THEN conjunct1]
  note e = after [THEN conjunct2, THEN conjunct1] and l = after [THEN conjunct1]
  note later = after [THEN conjunct2, THEN conjunct2, THEN conjunct2]
  note r = later [THEN conjunct1] and z = later [THEN conjunct2]
  from failed_dispatch_costs_two_attempts [OF sample_reachable c _ l e r] z
  show "d_attempt_count (fst (claim_retry 3000 sample_ledger)) = 2" by simp
  show "d_status (fst (claim_retry 23000 (snd (claim_retry 13000 (snd (claim_retry 3000 sample_ledger)))))) = DeadLettered"
    by code_simp
qed

text \<open>A retry after the expiry time overwrites a completed delivery: its row becomes expired and a
  dead letter is written for it, because expiry is tested before the terminal statuses. Before the
  expiry time the same retry is refused.\<close>

lemma late_retry_expires_completed_delivery:
  assumes "broker_reachable sha st" and "loadCurrentDelivery st i None = Some cur" and "d_status cur = Completed"
  shows "if d_expires_at cur \<le> now
    then \<exists>st'. retryMeshDelivery rid clock i now pol st =
           Inr (cur\<lparr>d_status := Expired, d_failure_class := Some FExpired\<rparr>, st') \<and>
         loadCurrentDelivery st' (d_id cur) None = Some (cur\<lparr>d_status := Expired, d_failure_class := Some FExpired\<rparr>) \<and>
         (\<exists>dl\<in>set (rows_of (bk_dead_letters st') (d_tenant cur)). dl_delivery_id dl = d_id cur \<and> dl_id dl = rid)
    else retryMeshDelivery rid clock i now pol st = Inl (DeliveryNotRetryable i)"
proof (cases "d_expires_at cur \<le> now")
  case False
  with assms(2,3) show ?thesis by (simp add: retryMeshDelivery_def)
next
  case True
  let ?d = "cur\<lparr>d_status := Expired, d_failure_class := Some FExpired\<rparr>"
  let ?st' = "snd (expire_delivery rid clock cur st)"
  have ok: "ledger_ok st" using reachable_ok [OF assms(1)] .
  note row = load_row(1) [OF ledger_okD(1) [OF ok] assms(2)]
  have r: "retryMeshDelivery rid clock i now pol st = Inr (?d, ?st')"
    using True assms(2) by (simp add: retryMeshDelivery_def expire_delivery_def Let_def)
  have "lookup ?st' (d_id cur) = Some ?d"
    using lookup_continue [OF ok assms(2), of ?d] by (simp add: expire_delivery_def Let_def)
  then have l: "loadCurrentDelivery ?st' (d_id cur) None = Some ?d"
    by (rule load_current [OF expire_delivery_ok [OF ok row]])
  have "\<exists>dl\<in>set (rows_of (bk_dead_letters ?st') (d_tenant cur)). dl_delivery_id dl = d_id cur \<and> dl_id dl = rid"
    by (simp add: expire_delivery_def Let_def buildDeadLetter_def put_dead_letter_def writeDeliveryEvent_def rows_of_append)
  with r l True show ?thesis by auto
qed

definition completed_ledger :: broker_state where
  "completed_ledger = snd (retry_value (acknowledgeMeshDelivery 4000 sample_id None True sample_ledger))"

theorem late_retry_expires_completed_delivery_witness:
  "\<exists>st'. retryMeshDelivery ''dl1'' 2000000 sample_id 2000000 default_policy completed_ledger =
      Inr ((ar_delivery sample_result)\<lparr>d_status := Expired, d_failure_class := Some FExpired\<rparr>, st')"
proof -
  let ?cur = "(ar_delivery sample_result)\<lparr>d_status := Completed\<rparr>"
  have ack: "acknowledgeMeshDelivery 4000 sample_id None True sample_ledger = Inr (?cur, completed_ledger)"
    and cur: "loadCurrentDelivery completed_ledger sample_id None = Some ?cur"
    and s: "d_status ?cur = Completed" and e: "d_expires_at ?cur \<le> 2000000"
    by code_simp+
  have "broker_reachable sample_sha completed_ledger"
    by (rule broker_next [OF sample_reachable step_ack [OF ack]])
  from late_retry_expires_completed_delivery [OF this cur s, of 2000000 "''dl1''" 2000000 default_policy] e
  show ?thesis by auto
qed

end
