(* ===== verification/Mesh_Driver.thy ===== *)
theory Mesh_Driver
  imports Mesh_Props Json
begin

text \<open>
  One pass of the delivery driver, \<open>src/libs/core/mesh/mesh-delivery-driver.ts\<close>: expire, claim,
  dispatch each claimed delivery to its peer, acknowledge the successes and feed the failures to the
  retry of the broker. The ledger operations are the interface \<open>MeshDeliveryBrokerOps\<close> of the
  code, here a record over the ledger's state; the locale \<open>delivery_ledger\<close> states what the
  pass relies on, and the broker of \<open>Mesh_Broker\<close> is shown to provide it.

  The dispatcher (an HTTP exchange: a receipt, or the message of the error it throws) and the peer
  catalog are parameters. A resolver that throws is not modelled; the default one returns no peer
  for a catalog it cannot read. Log lines are left out.
\<close>

section \<open>Options and report\<close>

record peer_record =
  pr_peer_id :: ident
  pr_base_url :: "string option"

record dispatch_input =
  di_recipient :: peer_record
  di_request :: mesh_request
  di_message_id :: ident
  di_timeout_ms :: "int option"

record 's broker_ops =
  op_expire :: "ms \<Rightarrow> 's \<Rightarrow> delivery list \<times> 's"
  op_claim :: "ms \<Rightarrow> int \<Rightarrow> 's \<Rightarrow> delivery list \<times> 's"
  op_acknowledge :: "ident \<Rightarrow> 's \<Rightarrow> string + 's"
  op_retry :: "ident \<Rightarrow> ms \<Rightarrow> partial_policy \<Rightarrow> 's \<Rightarrow> string + delivery_status \<times> 's"

record pass_options =
  po_sender_peer_id :: ident
  po_batch_limit :: "int option"
  po_now :: ms
  po_dispatcher :: "dispatch_input \<Rightarrow> string + json"
  po_resolve_peer :: "ident \<Rightarrow> ident \<Rightarrow> peer_record option"
  po_retry_policy :: partial_policy
  po_dispatch_timeout_ms :: "int option"

record pass_report =
  rep_expired :: nat
  rep_claimed :: nat
  rep_delivered :: nat
  rep_retried :: nat
  rep_dead_lettered :: nat
  rep_unroutable :: nat
  rep_failures :: "(ident \<times> string) list"
  rep_skipped :: bool

definition empty_report :: pass_report where
  "empty_report = \<lparr>rep_expired = 0, rep_claimed = 0, rep_delivered = 0, rep_retried = 0,
     rep_dead_lettered = 0, rep_unroutable = 0, rep_failures = [], rep_skipped = False\<rparr>"

definition DEFAULT_BATCH_LIMIT :: int where
  "DEFAULT_BATCH_LIMIT = 10"

section \<open>One delivery\<close>

text \<open>The stored row always carries its expiry time, so the default time to live is not reached.\<close>

definition reconstructMeshRequest :: "delivery \<Rightarrow> ident \<Rightarrow> mesh_request" where
  "reconstructMeshRequest d sender =
    \<lparr>mr_request_id = d_request_id d, mr_tenant_scope = d_tenant_scope d, mr_sender_peer_id = sender,
     mr_created_at = Some (d_created_at d), mr_ttl_ms = max 1 (d_expires_at d - d_created_at d),
     mr_idempotency_key = str_or (d_idempotency_key d) (d_id d), mr_correlation_id = d_request_id d,
     mr_request_kind = d_request_kind d, mr_selector = d_selector d, mr_payload = d_payload d\<rparr>"

text \<open>The state of the loop: the ledger, the report and the dispatches made so far.\<close>

record 's pass_state =
  ps_ledger :: 's
  ps_report :: pass_report
  ps_sent :: "dispatch_input list"

definition recordFailure ::
  "'s broker_ops \<Rightarrow> pass_options \<Rightarrow> delivery \<Rightarrow> string \<Rightarrow> 's pass_state \<Rightarrow> 's pass_state" where
  "recordFailure ops opts d reason ps =
    (let rep = (ps_report ps)\<lparr>rep_failures := rep_failures (ps_report ps) @ [(d_id d, reason)]\<rparr>
     in case op_retry ops (d_id d) (po_now opts) (po_retry_policy opts) (ps_ledger ps) of
          Inl e \<Rightarrow> ps\<lparr>ps_report := rep\<rparr>
        | Inr (status, s) \<Rightarrow>
            if status = DeadLettered \<or> status = Expired
            then ps\<lparr>ps_ledger := s, ps_report := rep\<lparr>rep_dead_lettered := rep_dead_lettered rep + 1\<rparr>\<rparr>
            else ps\<lparr>ps_ledger := s, ps_report := rep\<lparr>rep_retried := rep_retried rep + 1\<rparr>\<rparr>)"

definition peer_of :: "pass_options \<Rightarrow> delivery \<Rightarrow> peer_record option" where
  "peer_of opts d =
    (if rt_decision (d_route d) = Direct \<and> truthy_opt (rt_selected_peer_id (d_route d))
     then po_resolve_peer opts (the (rt_selected_peer_id (d_route d))) (d_tenant d)
     else None)"

definition usable_peer :: "pass_options \<Rightarrow> delivery \<Rightarrow> peer_record option" where
  "usable_peer opts d =
    (case peer_of opts d of
       Some p \<Rightarrow> (if truthy_opt (pr_base_url p) then Some p else None)
     | None \<Rightarrow> None)"

definition receipt_refused :: "json \<Rightarrow> bool" where
  "receipt_refused receipt \<longleftrightarrow>
    is_js_object receipt \<and>
    ((jhas_key receipt ''ok'' \<and> jget receipt ''ok'' = JBool False) \<or>
     (jhas_key receipt ''accepted'' \<and> jget receipt ''accepted'' = JBool False))"

text \<open>The status in a receipt is an HTTP status, an integer; its text is the decimal one.\<close>

definition receipt_status :: "json \<Rightarrow> string" where
  "receipt_status receipt =
    (case jget receipt ''status'' of JNum n \<Rightarrow> show_int \<lfloor>n\<rfloor> | _ \<Rightarrow> ''unknown'')"

definition dispatch_input_of :: "pass_options \<Rightarrow> peer_record \<Rightarrow> delivery \<Rightarrow> dispatch_input" where
  "dispatch_input_of opts p d =
    \<lparr>di_recipient = p, di_request = reconstructMeshRequest d (po_sender_peer_id opts),
     di_message_id = d_message_id d, di_timeout_ms = po_dispatch_timeout_ms opts\<rparr>"

definition process_delivery ::
  "'s broker_ops \<Rightarrow> pass_options \<Rightarrow> delivery \<Rightarrow> 's pass_state \<Rightarrow> 's pass_state" where
  "process_delivery ops opts d ps =
    (case usable_peer opts d of
       None \<Rightarrow>
         recordFailure ops opts d
           (''peer_unroutable:'' @ (case rt_selected_peer_id (d_route d) of
              Some p \<Rightarrow> str_or p ''unselected'' | None \<Rightarrow> ''unselected''))
           (ps\<lparr>ps_report := (ps_report ps)\<lparr>rep_unroutable := rep_unroutable (ps_report ps) + 1\<rparr>\<rparr>)
     | Some p \<Rightarrow>
         (let inp = dispatch_input_of opts p d;
              ps' = ps\<lparr>ps_sent := ps_sent ps @ [inp]\<rparr>
          in case po_dispatcher opts inp of
               Inl reason \<Rightarrow> recordFailure ops opts d reason ps'
             | Inr receipt \<Rightarrow>
                 if receipt_refused receipt
                 then recordFailure ops opts d (''peer_delivery_not_accepted:'' @ receipt_status receipt) ps'
                 else
                   (case op_acknowledge ops (d_id d) (ps_ledger ps') of
                      Inl reason \<Rightarrow> recordFailure ops opts d reason ps'
                    | Inr s \<Rightarrow>
                        ps'\<lparr>ps_ledger := s,
                            ps_report := (ps_report ps')\<lparr>rep_delivered := rep_delivered (ps_report ps') + 1\<rparr>\<rparr>)))"

section \<open>The pass\<close>

definition runMeshDeliveryPassUnfenced ::
  "'s broker_ops \<Rightarrow> pass_options \<Rightarrow> 's \<Rightarrow> 's pass_state" where
  "runMeshDeliveryPassUnfenced ops opts s =
    (let (expired, s1) = op_expire ops (po_now opts) s;
         (claimed, s2) = op_claim ops (po_now opts)
           (case po_batch_limit opts of Some n \<Rightarrow> n | None \<Rightarrow> DEFAULT_BATCH_LIMIT) s1
     in fold (process_delivery ops opts) claimed
          \<lparr>ps_ledger = s2,
           ps_report = empty_report\<lparr>rep_expired := length expired, rep_claimed := length claimed\<rparr>,
           ps_sent = []\<rparr>)"

text \<open>The argument \<open>acquired\<close> is the result of the writer lock.\<close>

definition runMeshDeliveryPass ::
  "bool \<Rightarrow> 's broker_ops \<Rightarrow> pass_options \<Rightarrow> 's \<Rightarrow> 's pass_state" where
  "runMeshDeliveryPass acquired ops opts s =
    (if \<not> acquired
     then \<lparr>ps_ledger = s, ps_report = empty_report\<lparr>rep_skipped := True\<rparr>, ps_sent = []\<rparr>
     else runMeshDeliveryPassUnfenced ops opts s)"

definition formatMeshDeliveryPassReport :: "pass_report \<Rightarrow> string" where
  "formatMeshDeliveryPassReport r =
    (if rep_skipped r then ''[mesh-delivery] skipped (writer lock held by another driver)''
     else ''[mesh-delivery] claimed='' @ show_nat (rep_claimed r) @ '' delivered='' @ show_nat (rep_delivered r) @
       '' retried='' @ show_nat (rep_retried r) @ '' dead_lettered='' @ show_nat (rep_dead_lettered r) @
       '' unroutable='' @ show_nat (rep_unroutable r) @ '' expired='' @ show_nat (rep_expired r))"

section \<open>Accounting, for every ledger\<close>

definition balanced :: "nat \<Rightarrow> 's pass_state \<Rightarrow> bool" where
  "balanced n ps \<longleftrightarrow>
    rep_delivered (ps_report ps) + length (rep_failures (ps_report ps)) = n \<and>
    rep_retried (ps_report ps) + rep_dead_lettered (ps_report ps) \<le> length (rep_failures (ps_report ps)) \<and>
    rep_unroutable (ps_report ps) + length (ps_sent ps) = n \<and>
    rep_unroutable (ps_report ps) \<le> length (rep_failures (ps_report ps))"

lemma recordFailure_counts:
  fixes ops opts d reason ps
  defines "ps' \<equiv> recordFailure ops opts d reason ps"
  shows "rep_failures (ps_report ps') = rep_failures (ps_report ps) @ [(d_id d, reason)]"
    and "rep_delivered (ps_report ps') = rep_delivered (ps_report ps)"
    and "rep_unroutable (ps_report ps') = rep_unroutable (ps_report ps)"
    and "rep_claimed (ps_report ps') = rep_claimed (ps_report ps)"
    and "rep_expired (ps_report ps') = rep_expired (ps_report ps)"
    and "ps_sent ps' = ps_sent ps"
    and "rep_retried (ps_report ps') + rep_dead_lettered (ps_report ps') \<le>
      rep_retried (ps_report ps) + rep_dead_lettered (ps_report ps) + 1"
  by (auto simp: ps'_def recordFailure_def Let_def split: sum.splits prod.splits)

lemma process_balanced:
  assumes "balanced n ps"
  shows "balanced (Suc n) (process_delivery ops opts d ps)"
    and "rep_claimed (ps_report (process_delivery ops opts d ps)) = rep_claimed (ps_report ps)"
proof -
  have fail: "balanced (Suc n) (recordFailure ops opts d reason (ps\<lparr>ps_sent := ps_sent ps @ [i]\<rparr>))" for reason i
    using assms recordFailure_counts [of ops opts d reason "ps\<lparr>ps_sent := ps_sent ps @ [i]\<rparr>"]
    by (simp add: balanced_def)
  have unr: "balanced (Suc n) (recordFailure ops opts d reason
      (ps\<lparr>ps_report := (ps_report ps)\<lparr>rep_unroutable := rep_unroutable (ps_report ps) + 1\<rparr>\<rparr>))" for reason
    using assms recordFailure_counts [of ops opts d reason
        "ps\<lparr>ps_report := (ps_report ps)\<lparr>rep_unroutable := rep_unroutable (ps_report ps) + 1\<rparr>\<rparr>"]
    by (simp add: balanced_def)
  have good: "balanced (Suc n) (ps\<lparr>ps_sent := ps_sent ps @ [i], ps_ledger := s,
      ps_report := (ps_report ps)\<lparr>rep_delivered := rep_delivered (ps_report ps) + 1\<rparr>\<rparr>)" for i s
    using assms by (simp add: balanced_def)
  show "balanced (Suc n) (process_delivery ops opts d ps)"
    using fail unr good by (simp add: process_delivery_def Let_def split: option.splits sum.splits)
  show "rep_claimed (ps_report (process_delivery ops opts d ps)) = rep_claimed (ps_report ps)"
    by (simp add: process_delivery_def Let_def recordFailure_counts(4) split: option.splits sum.splits)
qed

lemma fold_balanced:
  assumes "balanced n ps"
  shows "balanced (n + length ds) (fold (process_delivery ops opts) ds ps)"
    and "rep_claimed (ps_report (fold (process_delivery ops opts) ds ps)) = rep_claimed (ps_report ps)"
  using assms
proof (induction ds arbitrary: n ps)
  case (Cons d ds)
  {
    case 1
    then show ?case using Cons.IH(1) [OF process_balanced(1)] by fastforce
  next
    case 2
    then show ?case using Cons.IH(2) [OF process_balanced(1)] process_balanced(2) by fastforce
  }
qed simp_all

text \<open>Every pass accounts for what it claimed, whatever the ledger, the dispatcher and the catalog do:
  each claimed delivery is either delivered or listed as one failure, each failure is counted as at
  most one of retried and dead-lettered, and the dispatcher is called once for every claimed delivery
  that was not unroutable. A pass without the writer lock calls nothing and changes nothing.\<close>

theorem pass_accounts_for_every_claim:
  fixes ops :: "'s broker_ops" and opts s acquired
  defines "ps \<equiv> runMeshDeliveryPass acquired ops opts s"
  shows "rep_claimed (ps_report ps) = rep_delivered (ps_report ps) + length (rep_failures (ps_report ps)) \<and>
    rep_retried (ps_report ps) + rep_dead_lettered (ps_report ps) \<le> length (rep_failures (ps_report ps)) \<and>
    rep_claimed (ps_report ps) = rep_unroutable (ps_report ps) + length (ps_sent ps) \<and>
    rep_unroutable (ps_report ps) \<le> length (rep_failures (ps_report ps)) \<and>
    (rep_skipped (ps_report ps) \<or> acquired) \<and>
    (acquired \<or> ps_ledger ps = s \<and> ps_sent ps = [])"
proof (cases acquired)
  case False
  then show ?thesis by (simp add: ps_def runMeshDeliveryPass_def empty_report_def)
next
  case True
  obtain expired s1 where e: "op_expire ops (po_now opts) s = (expired, s1)" by fastforce
  obtain claimed s2 where c: "op_claim ops (po_now opts)
      (case po_batch_limit opts of Some n \<Rightarrow> n | None \<Rightarrow> DEFAULT_BATCH_LIMIT) s1 = (claimed, s2)" by fastforce
  define init where "init = \<lparr>ps_ledger = s2,
      ps_report = empty_report\<lparr>rep_expired := length expired, rep_claimed := length claimed\<rparr>, ps_sent = []\<rparr>"
  have ps: "ps = fold (process_delivery ops opts) claimed init"
    using True e c by (simp add: ps_def runMeshDeliveryPass_def runMeshDeliveryPassUnfenced_def init_def)
  have "balanced 0 init" by (simp add: balanced_def init_def empty_report_def)
  from fold_balanced [OF this, where ds = claimed and ops = ops and opts = opts] have "balanced (length claimed) ps"
    and "rep_claimed (ps_report ps) = length claimed"
    unfolding ps by (simp_all add: init_def)
  with True show ?thesis by (simp add: balanced_def)
qed

section \<open>The broker as the ledger of the pass\<close>

definition broker_error_message :: "broker_error \<Rightarrow> string" where
  "broker_error_message e =
    (case e of
       InvalidTenantId t \<Rightarrow> ''mesh_request_invalid_tenant_id:'' @ t
     | InvalidScope s \<Rightarrow> ''mesh_request_invalid_scope:'' @ s
     | InvalidTimestamps i \<Rightarrow> ''mesh_request_invalid_timestamps:'' @ i
     | RequestExpired i \<Rightarrow> ''mesh_request_expired:'' @ i
     | DeliveryNotFound i \<Rightarrow> ''mesh_delivery_not_found:'' @ i
     | DeliveryExpired i \<Rightarrow> ''mesh_delivery_expired:'' @ i
     | DeliveryNotRetryable i \<Rightarrow> ''mesh_delivery_not_retryable:'' @ i
     | InvalidDate \<Rightarrow> ''Invalid time value'')"

text \<open>The shared-namespace broker; \<open>clk\<close> is the time the broker reads when it works on a delivery,
  \<open>rids\<close> the random identifier of its dead letter.\<close>

definition mesh_broker_ops :: "(ident \<Rightarrow> ident) \<Rightarrow> ms \<Rightarrow> (ident \<Rightarrow> ms) \<Rightarrow> broker_state broker_ops" where
  "mesh_broker_ops rids t0 clk =
    \<lparr>op_expire = expireMeshDeliveries rids t0,
     op_claim = claimDueMeshDeliveries,
     op_acknowledge = (\<lambda>i s. case acknowledgeMeshDelivery (clk i) i None False s of
        Inl e \<Rightarrow> Inl (broker_error_message e) | Inr (d, s') \<Rightarrow> Inr s'),
     op_retry = (\<lambda>i now pol s. case retryMeshDelivery (rids i) (clk i) i now pol s of
        Inl e \<Rightarrow> Inl (broker_error_message e) | Inr (d, s') \<Rightarrow> Inr (d_status d, s'))\<rparr>"

text \<open>The dates of the pass stay inside the range of a date.\<close>

definition date_range_ok :: "ms \<Rightarrow> partial_policy \<Rightarrow> bool" where
  "date_range_ok now pol \<longleftrightarrow> 0 \<le> now \<and> now + rp_max_delay_ms (normalizeRetryPolicy pol) \<le> 8640000000000000"

section \<open>What the pass relies on\<close>

locale delivery_ledger =
  fixes ops :: "'s broker_ops"
    and ok :: "'s \<Rightarrow> bool"
    and current :: "'s \<Rightarrow> ident \<Rightarrow> delivery option"
    and fits :: "ms \<Rightarrow> partial_policy \<Rightarrow> bool"
  assumes expire_keeps: "ok s \<Longrightarrow> op_expire ops now s = (ds, s') \<Longrightarrow> ok s'"
    and expire_clears: "ok s \<Longrightarrow> op_expire ops now s = (ds, s') \<Longrightarrow> current s' i = Some d \<Longrightarrow>
      d_status d = Queued \<Longrightarrow> now < d_expires_at d"
    and claim_keeps: "ok s \<Longrightarrow> op_claim ops now lmt s = (ds, s') \<Longrightarrow> ok s' \<and> distinct (map d_id ds)"
    and claim_dispatches: "ok s \<Longrightarrow> op_claim ops now lmt s = (ds, s') \<Longrightarrow> d \<in> set ds \<Longrightarrow>
      current s' (d_id d) = Some d \<and> d_status d = Dispatched \<and>
      (\<exists>q. current s (d_id d) = Some q \<and> d_status q = Queued \<and> d_expires_at q = d_expires_at d)"
    and acknowledge_settles: "ok s \<Longrightarrow> current s i = Some d \<Longrightarrow> op_acknowledge ops i s = Inr s' \<Longrightarrow>
      ok s' \<and> current s' = (current s)(i \<mapsto> d\<lparr>d_status := Acknowledged\<rparr>)"
    and retry_settles: "ok s \<Longrightarrow> current s i = Some d \<Longrightarrow> d_status d = Dispatched \<Longrightarrow>
      now < d_expires_at d \<Longrightarrow> fits now pol \<Longrightarrow>
      \<exists>d' s'. op_retry ops i now pol s = Inr (d_status d', s') \<and> ok s' \<and> current s' = (current s)(i \<mapsto> d') \<and>
        d_status d' \<in> {Queued, DeadLettered}"
begin

definition counted :: "'s \<Rightarrow> ident list \<Rightarrow> delivery_status \<Rightarrow> nat" where
  "counted s ids st = length (filter (\<lambda>i. map_option d_status (current s i) = Some st) ids)"

definition truthful :: "ident list \<Rightarrow> 's pass_state \<Rightarrow> bool" where
  "truthful ids ps \<longleftrightarrow>
    ok (ps_ledger ps) \<and>
    (\<forall>i\<in>set ids. map_option d_status (current (ps_ledger ps) i) \<in> Some ` {Acknowledged, Queued, DeadLettered}) \<and>
    rep_delivered (ps_report ps) = counted (ps_ledger ps) ids Acknowledged \<and>
    rep_retried (ps_report ps) = counted (ps_ledger ps) ids Queued \<and>
    rep_dead_lettered (ps_report ps) = counted (ps_ledger ps) ids DeadLettered"

text \<open>One settled delivery moves the ledger and the report together.\<close>

lemma truthful_snoc:
  assumes "truthful ids ps" and "i \<notin> set ids" and "ok (ps_ledger ps')"
    and "current (ps_ledger ps') = (current (ps_ledger ps))(i \<mapsto> d')"
    and "d_status d' \<in> {Acknowledged, Queued, DeadLettered}"
    and "rep_delivered (ps_report ps') = rep_delivered (ps_report ps) + (if d_status d' = Acknowledged then 1 else 0)"
    and "rep_retried (ps_report ps') = rep_retried (ps_report ps) + (if d_status d' = Queued then 1 else 0)"
    and "rep_dead_lettered (ps_report ps') = rep_dead_lettered (ps_report ps) + (if d_status d' = DeadLettered then 1 else 0)"
  shows "truthful (ids @ [i]) ps'"
proof -
  have same: "counted (ps_ledger ps') ids st = counted (ps_ledger ps) ids st" for st
    unfolding counted_def
    by (rule arg_cong [where f = length], rule filter_cong) (use assms(2,4) in auto)
  have "counted (ps_ledger ps') (ids @ [i]) st = counted (ps_ledger ps) ids st + (if d_status d' = st then 1 else 0)" for st
    using same [of st] by (simp add: counted_def assms(4))
  with assms show ?thesis by (auto simp: truthful_def)
qed

lemma failure_settles:
  assumes "ok (ps_ledger ps)" and "current (ps_ledger ps) (d_id d) = Some d" and "d_status d = Dispatched"
    and "po_now opts < d_expires_at d" and "fits (po_now opts) (po_retry_policy opts)"
  obtains d' where "ok (ps_ledger (recordFailure ops opts d reason ps))"
    and "current (ps_ledger (recordFailure ops opts d reason ps)) = (current (ps_ledger ps))(d_id d \<mapsto> d')"
    and "d_status d' \<in> {Queued, DeadLettered}"
    and "rep_retried (ps_report (recordFailure ops opts d reason ps)) =
      rep_retried (ps_report ps) + (if d_status d' = Queued then 1 else 0)"
    and "rep_dead_lettered (ps_report (recordFailure ops opts d reason ps)) =
      rep_dead_lettered (ps_report ps) + (if d_status d' = DeadLettered then 1 else 0)"
proof -
  from retry_settles [OF assms] obtain d' s' where
    r: "op_retry ops (d_id d) (po_now opts) (po_retry_policy opts) (ps_ledger ps) = Inr (d_status d', s')"
    "ok s'" "current s' = (current (ps_ledger ps))(d_id d \<mapsto> d')" "d_status d' \<in> {Queued, DeadLettered}" by blast
  from r(4) show ?thesis
    by (intro that [of d']) (use r in \<open>auto simp: recordFailure_def Let_def\<close>)
qed

lemma process_truthful:
  assumes t: "truthful ids ps" and "d_id d \<notin> set ids"
    and cur: "current (ps_ledger ps) (d_id d) = Some d" "d_status d = Dispatched"
    and now: "po_now opts < d_expires_at d" "fits (po_now opts) (po_retry_policy opts)"
  shows "truthful (ids @ [d_id d]) (process_delivery ops opts d ps) \<and>
    (\<exists>d'. current (ps_ledger (process_delivery ops opts d ps)) = (current (ps_ledger ps))(d_id d \<mapsto> d'))"
proof -
  have ok: "ok (ps_ledger ps)" using t by (simp add: truthful_def)
  have fail: "truthful (ids @ [d_id d]) (recordFailure ops opts d reason ps') \<and>
      (\<exists>d'. current (ps_ledger (recordFailure ops opts d reason ps')) = (current (ps_ledger ps))(d_id d \<mapsto> d'))"
    if same: "ps_ledger ps' = ps_ledger ps" "rep_delivered (ps_report ps') = rep_delivered (ps_report ps)"
      "rep_retried (ps_report ps') = rep_retried (ps_report ps)"
      "rep_dead_lettered (ps_report ps') = rep_dead_lettered (ps_report ps)" for reason ps'
  proof -
    from failure_settles [of ps' d opts reason] obtain d' where
      f: "ok (ps_ledger (recordFailure ops opts d reason ps'))"
      "current (ps_ledger (recordFailure ops opts d reason ps')) = (current (ps_ledger ps'))(d_id d \<mapsto> d')"
      "d_status d' \<in> {Queued, DeadLettered}"
      "rep_retried (ps_report (recordFailure ops opts d reason ps')) =
        rep_retried (ps_report ps') + (if d_status d' = Queued then 1 else 0)"
      "rep_dead_lettered (ps_report (recordFailure ops opts d reason ps')) =
        rep_dead_lettered (ps_report ps') + (if d_status d' = DeadLettered then 1 else 0)"
      using ok cur now same(1) by metis
    have st: "d_status d' \<in> {Acknowledged, Queued, DeadLettered}" "d_status d' \<noteq> Acknowledged" using f(3) by auto
    have "truthful (ids @ [d_id d]) (recordFailure ops opts d reason ps')"
      by (rule truthful_snoc [OF t assms(2) f(1) _ st(1)])
        (use f(2,4,5) same st(2) in \<open>simp_all add: recordFailure_counts(2)\<close>)
    with f(2) same(1) show ?thesis by auto
  qed
  show ?thesis
  proof (cases "usable_peer opts d")
    case None
    then show ?thesis by (simp add: process_delivery_def Let_def fail)
  next
    case (Some p)
    let ?inp = "dispatch_input_of opts p d"
    show ?thesis
    proof (cases "\<exists>receipt s. po_dispatcher opts ?inp = Inr receipt \<and> \<not> receipt_refused receipt \<and>
        op_acknowledge ops (d_id d) (ps_ledger ps) = Inr s")
      case True
      then obtain receipt s where r: "po_dispatcher opts ?inp = Inr receipt" "\<not> receipt_refused receipt"
        "op_acknowledge ops (d_id d) (ps_ledger ps) = Inr s" by blast
      define ps' where "ps' = process_delivery ops opts d ps"
      have ps': "ps_ledger ps' = s" "rep_delivered (ps_report ps') = rep_delivered (ps_report ps) + 1"
        "rep_retried (ps_report ps') = rep_retried (ps_report ps)"
        "rep_dead_lettered (ps_report ps') = rep_dead_lettered (ps_report ps)"
        by (simp_all add: ps'_def process_delivery_def Let_def Some r)
      note a = acknowledge_settles [OF ok cur(1) r(3)]
      have "truthful (ids @ [d_id d]) ps'"
        by (rule truthful_snoc [OF t assms(2), of _ "d\<lparr>d_status := Acknowledged\<rparr>"])
          (use a ps' in simp_all)
      with a ps'(1) show ?thesis unfolding ps'_def by auto
    next
      case False
      then show ?thesis
        by (auto simp: process_delivery_def Let_def Some fail split: sum.splits)
    qed
  qed
qed

lemma fold_truthful:
  assumes "truthful ids ps" and "distinct (ids @ map d_id ds)" and "fits (po_now opts) (po_retry_policy opts)"
    and "\<forall>d\<in>set ds. current (ps_ledger ps) (d_id d) = Some d \<and> d_status d = Dispatched \<and> po_now opts < d_expires_at d"
  shows "truthful (ids @ map d_id ds) (fold (process_delivery ops opts) ds ps)"
  using assms
proof (induction ds arbitrary: ids ps)
  case (Cons d ds)
  have new: "d_id d \<notin> set ids" and cur: "current (ps_ledger ps) (d_id d) = Some d" "d_status d = Dispatched"
    "po_now opts < d_expires_at d" using Cons.prems by auto
  from process_truthful [OF Cons.prems(1) new cur Cons.prems(3)] obtain d' where
    p: "truthful (ids @ [d_id d]) (process_delivery ops opts d ps)"
    "current (ps_ledger (process_delivery ops opts d ps)) = (current (ps_ledger ps))(d_id d \<mapsto> d')" by blast
  have rest: "\<forall>x\<in>set ds. current (ps_ledger (process_delivery ops opts d ps)) (d_id x) = Some x \<and>
      d_status x = Dispatched \<and> po_now opts < d_expires_at x"
  proof
    fix x assume x: "x \<in> set ds"
    have "d_id d \<notin> d_id ` set ds" using Cons.prems(2) by simp
    with x have "d_id x \<noteq> d_id d" by (metis image_eqI)
    moreover have "current (ps_ledger ps) (d_id x) = Some x \<and> d_status x = Dispatched \<and> po_now opts < d_expires_at x"
      using Cons.prems(4) x by simp
    ultimately show "current (ps_ledger (process_delivery ops opts d ps)) (d_id x) = Some x \<and>
      d_status x = Dispatched \<and> po_now opts < d_expires_at x" by (simp add: p(2))
  qed
  have "distinct ((ids @ [d_id d]) @ map d_id ds)" using Cons.prems(2) by simp
  from Cons.IH [OF p(1) this Cons.prems(3) rest] show ?case by simp
qed simp

text \<open>The report of a pass states what became of the claimed deliveries.\<close>

lemma pass_truthful:
  assumes "ok s" and "fits (po_now opts) (po_retry_policy opts)"
    and e: "op_expire ops (po_now opts) s = (expired, s1)"
    and c: "op_claim ops (po_now opts)
      (case po_batch_limit opts of Some n \<Rightarrow> n | None \<Rightarrow> DEFAULT_BATCH_LIMIT) s1 = (claimed, s2)"
  shows "truthful (map d_id claimed) (runMeshDeliveryPassUnfenced ops opts s)"
proof -
  have s1: "ok s1" by (rule expire_keeps [OF assms(1) e])
  note k = claim_keeps [OF s1 c] and dsp = claim_dispatches [OF s1 c]
  define init where "init = \<lparr>ps_ledger = s2,
      ps_report = empty_report\<lparr>rep_expired := length expired, rep_claimed := length claimed\<rparr>, ps_sent = []\<rparr>"
  have "truthful [] init" using k by (simp add: truthful_def init_def counted_def empty_report_def)
  moreover have "\<forall>d\<in>set claimed. current (ps_ledger init) (d_id d) = Some d \<and> d_status d = Dispatched \<and>
      po_now opts < d_expires_at d"
  proof
    fix d assume d: "d \<in> set claimed"
    from dsp [OF this] obtain q where q: "current s1 (d_id d) = Some q" "d_status q = Queued"
      "d_expires_at q = d_expires_at d" by blast
    from expire_clears [OF assms(1) e q(1,2)] dsp [OF d] q(3)
    show "current (ps_ledger init) (d_id d) = Some d \<and> d_status d = Dispatched \<and> po_now opts < d_expires_at d"
      by (simp add: init_def)
  qed
  ultimately have "truthful ([] @ map d_id claimed) (fold (process_delivery ops opts) claimed init)"
    using k by (intro fold_truthful [OF _ _ assms(2)]) simp_all
  then show ?thesis by (simp add: runMeshDeliveryPassUnfenced_def e c init_def)
qed

end

section \<open>The broker provides it\<close>

lemma expire_fold_lookup:
  assumes "ledger_ok st" and "set ds \<subseteq> set (all_rows st)"
  shows "lookup (snd (fold (\<lambda>d (expired, s).
      case expire_delivery (rids (d_id d)) clock d s of (nxt, s') \<Rightarrow> (expired @ [nxt], s')) ds (acc, st))) i = Some r \<Longrightarrow>
    d_status r = Expired \<or> (i \<notin> d_id ` set ds \<and> lookup st i = Some r)"
  using assms
proof (induction ds arbitrary: acc st)
  case (Cons d ds)
  let ?s = "snd (expire_delivery (rids (d_id d)) clock d st)"
  let ?d = "d\<lparr>d_status := Expired, d_failure_class := Some FExpired\<rparr>"
  have mem: "d \<in> set (all_rows st)" using Cons.prems(3) by simp
  have rows: "set (all_rows st) \<subseteq> set (all_rows ?s)" by (auto simp: expire_delivery_def Let_def)
  have ok: "ledger_ok ?s" by (rule expire_delivery_ok [OF Cons.prems(2) mem])
  have l: "lookup ?s j = (if j = d_id d then Some ?d else lookup st j)" for j
  proof -
    have "lookup (put_delivery ?d st) j = (if j = d_id ?d then Some ?d else lookup st j)"
    proof (rule lookup_put [OF ledger_okD(1) [OF Cons.prems(2)]])
      fix x assume x: "x \<in> set (all_rows st)" "d_id x = d_id ?d"
      then show "d_tenant x = d_tenant ?d"
        using ids_okD(3) [OF ledger_okD(2) [OF Cons.prems(2)] x(1) mem] by simp
    qed
    then show ?thesis by (simp add: expire_delivery_def Let_def)
  qed
  have "d_status r = Expired \<or> (i \<notin> d_id ` set ds \<and> lookup ?s i = Some r)"
  proof (rule Cons.IH [OF _ ok])
    show "lookup (snd (fold (\<lambda>d (expired, s).
        case expire_delivery (rids (d_id d)) clock d s of (nxt, s') \<Rightarrow> (expired @ [nxt], s')) ds
        (acc @ [fst (expire_delivery (rids (d_id d)) clock d st)], ?s))) i = Some r"
      using Cons.prems(1) by (simp add: case_prod_beta')
    show "set ds \<subseteq> set (all_rows ?s)" using Cons.prems(3) rows by auto
  qed
  then show ?case
  proof
    assume a: "i \<notin> d_id ` set ds \<and> lookup ?s i = Some r"
    show ?case
    proof (cases "i = d_id d")
      case True
      with a l have "r = ?d" by simp
      then show ?thesis by simp
    next
      case False
      with a l show ?thesis by simp
    qed
  qed simp
qed simp

lemma expire_clears_queue:
  assumes ok: "ledger_ok st" and "lookup (snd (expireMeshDeliveries rids clock now st)) i = Some d"
    and "d_status d = Queued"
  shows "now < d_expires_at d"
proof -
  let ?ds = "filter (expires_now now) (loadCurrentDeliveries st None)"
  have sub: "set ?ds \<subseteq> set (all_rows st)" using currents_lookup [OF ok] lookup_mem by fastforce
  have "i \<notin> d_id ` set ?ds \<and> lookup st i = Some d"
    using expire_fold_lookup [OF ok sub assms(2) [unfolded expireMeshDeliveries_def]] assms(3) by simp
  then have i: "i \<notin> d_id ` set ?ds" and l: "lookup st i = Some d" by blast+
  have id: "d_id d = i" using lookup_mem [OF l] by blast
  with l have "d \<in> set (loadCurrentDeliveries st None)" by (simp add: currents_lookup [OF ok])
  with i id have "\<not> expires_now now d" by (auto simp: image_iff)
  with assms(3) show ?thesis by (simp add: expires_now_def)
qed

lemma acknowledge_lookup:
  assumes "ledger_ok st" and "lookup st i = Some d"
    and "acknowledgeMeshDelivery clock i None False st = Inr (d', st')"
  shows "lookup st' = (lookup st)(i \<mapsto> d\<lparr>d_status := Acknowledged\<rparr>)"
proof -
  have "lookup (put_delivery (d\<lparr>d_status := Acknowledged\<rparr>) st) = (lookup st)(i \<mapsto> d\<lparr>d_status := Acknowledged\<rparr>)"
    by (rule lookup_put_continue [OF assms(1,2)]) simp
  moreover have "lookup st' = lookup (put_delivery (d\<lparr>d_status := Acknowledged\<rparr>) st)"
    using assms(3) load_current [OF assms(1,2)]
    by (auto simp: acknowledgeMeshDelivery_def Let_def split: if_splits)
  ultimately show ?thesis by simp
qed

lemma retry_lookup:
  assumes ok: "ledger_ok st" and l: "lookup st i = Some d" and s: "d_status d = Dispatched"
    and now: "now < d_expires_at d" and fits: "date_range_ok now pol"
  shows "\<exists>d' st'. retryMeshDelivery rid clock i now pol st = Inr (d', st') \<and> lookup st' = (lookup st)(i \<mapsto> d') \<and>
    d_status d' \<in> {Queued, DeadLettered}"
proof -
  let ?n = "d_attempt_count d + 1" and ?p = "normalizeRetryPolicy pol"
  have cur: "loadCurrentDelivery st i None = Some d" by (rule load_current [OF ok l])
  show ?thesis
  proof (cases "rp_max_attempts ?p \<le> int ?n")
    case True
    let ?d = "d\<lparr>d_status := DeadLettered, d_attempt_count := ?n, d_failure_class := Some TransportError\<rparr>"
    have "lookup (put_delivery ?d st) = (lookup st)(i \<mapsto> ?d)" by (rule lookup_put_continue [OF ok l]) simp
    moreover have "\<exists>st'. retryMeshDelivery rid clock i now pol st = Inr (?d, st') \<and> lookup st' = lookup (put_delivery ?d st)"
      using True cur s now by (auto simp: retryMeshDelivery_def Let_def)
    ultimately show ?thesis by fastforce
  next
    case False
    let ?t = "now + nextRetryDelayMs ?n ?p"
    let ?d = "d\<lparr>d_status := Queued, d_attempt_count := ?n, d_retry_at := Some ?t,
        d_failure_class := Some TransportError\<rparr>"
    have "0 \<le> rp_initial_delay_ms ?p" "0 \<le> rp_max_delay_ms ?p"
      unfolding normalizeRetryPolicy_def retry_policy.simps by (rule max.cobounded1)+
    then have "0 \<le> ?t" "?t \<le> 8640000000000000"
      using fits by (auto simp: nextRetryDelayMs_def date_range_ok_def min_def)
    then have iso: "to_iso ?t = Inr ?t" by (simp only: to_iso_def abs_of_nonneg if_True)
    have "lookup (put_delivery ?d st) = (lookup st)(i \<mapsto> ?d)" by (rule lookup_put_continue [OF ok l]) simp
    moreover have "retryMeshDelivery rid clock i now pol st =
        Inr (?d, writeDeliveryEvent ''delivery_requeued'' ?d (put_delivery ?d st))"
      using False cur s now iso by (simp add: retryMeshDelivery_def Let_def)
    ultimately show ?thesis by fastforce
  qed
qed

interpretation mesh_ledger: delivery_ledger "mesh_broker_ops rids t0 clk" "broker_reachable sha" lookup date_range_ok
  for rids t0 clk sha
proof unfold_locales
  note def = mesh_broker_ops_def broker_ops.simps
  fix s now ds s' assume s: "broker_reachable sha s" and e: "op_expire (mesh_broker_ops rids t0 clk) now s = (ds, s')"
  from e have e': "expireMeshDeliveries rids t0 now s = (ds, s')" by (simp add: def)
  show "broker_reachable sha s'" by (rule broker_next [OF s step_expire [OF e']])
  fix i d assume "lookup s' i = Some d" "d_status d = Queued"
  then show "now < d_expires_at d"
    using expire_clears_queue [OF reachable_ok [OF s], of rids t0 now i d] by (simp add: e')
next
  fix s now lmt ds s' assume s: "broker_reachable sha s"
    and c: "op_claim (mesh_broker_ops rids t0 clk) now lmt s = (ds, s')"
  from c have c': "claimDueMeshDeliveries now lmt s = (ds, s')" by (simp add: mesh_broker_ops_def)
  have ds: "ds = map dispatch_delivery (due_deliveries now lmt s)" using c' by (simp add: claim_put_events)
  have ids: "map d_id (map dispatch_delivery xs) = map d_id xs" for xs by (simp add: dispatch_delivery_def)
  show "broker_reachable sha s' \<and> distinct (map d_id ds)"
    unfolding ds ids using broker_next [OF s step_claim [OF c']] due_deliveries_distinct by blast
  fix d assume "d \<in> set ds"
  then obtain q where q: "q \<in> set (due_deliveries now lmt s)" "d = dispatch_delivery q" by (auto simp: ds)
  note m = due_deliveries_mem [OF reachable_ok [OF s] q(1)]
  have "List.find (\<lambda>x. d_id x = d_id q) (due_deliveries now lmt s) = Some q"
    using find_distinct [OF due_deliveries_distinct] q(1) by blast
  with claim_lookup [OF reachable_ok [OF s], of now lmt "d_id q"]
  have "lookup s' (d_id d) = Some d" by (simp add: c' q(2) dispatch_delivery_def)
  with m show "lookup s' (d_id d) = Some d \<and> d_status d = Dispatched \<and>
      (\<exists>q. lookup s (d_id d) = Some q \<and> d_status q = Queued \<and> d_expires_at q = d_expires_at d)"
    by (auto simp: q(2) dispatch_delivery_def)
next
  fix s i d s' assume s: "broker_reachable sha s" and l: "lookup s i = Some d"
    and "op_acknowledge (mesh_broker_ops rids t0 clk) i s = Inr s'"
  then obtain d' where a: "acknowledgeMeshDelivery (clk i) i None False s = Inr (d', s')"
    by (auto simp: mesh_broker_ops_def split: sum.splits)
  from broker_next [OF s step_ack [OF a]] acknowledge_lookup [OF reachable_ok [OF s] l a]
  show "broker_reachable sha s' \<and> lookup s' = (lookup s)(i \<mapsto> d\<lparr>d_status := Acknowledged\<rparr>)" by blast
next
  fix s i d now pol assume s: "broker_reachable sha s" and l: "lookup s i = Some d"
    and "d_status d = Dispatched" "now < d_expires_at d" "date_range_ok now pol"
  from retry_lookup [OF reachable_ok [OF s] this(2-5), of "rids i" "clk i"] obtain d' st' where
    r: "retryMeshDelivery (rids i) (clk i) i now pol s = Inr (d', st')" "lookup st' = (lookup s)(i \<mapsto> d')"
    "d_status d' \<in> {Queued, DeadLettered}" by blast
  from broker_next [OF s step_retry [OF r(1)]] r
  show "\<exists>d' s'. op_retry (mesh_broker_ops rids t0 clk) i now pol s = Inr (d_status d', s') \<and>
      broker_reachable sha s' \<and> lookup s' = (lookup s)(i \<mapsto> d') \<and> d_status d' \<in> {Queued, DeadLettered}"
    by (auto simp: mesh_broker_ops_def)
qed

definition statuses :: "broker_state \<Rightarrow> delivery list \<Rightarrow> delivery_status option list" where
  "statuses st ds = map (\<lambda>d. map_option d_status (loadCurrentDelivery st (d_id d) None)) ds"

text \<open>C20. After a pass over the broker (with the dates inside the range of a date) no claimed delivery is
  left in flight: each is acknowledged, queued again or dead-lettered, and the report counts exactly
  these three outcomes, whatever the peers answer and however late the acknowledgement is.\<close>

theorem mesh_pass_settles_every_claim:
  fixes st opts rids t0 clk sha
  assumes "broker_reachable sha st" and "date_range_ok (po_now opts) (po_retry_policy opts)"
  defines "ops \<equiv> mesh_broker_ops rids t0 clk"
  defines "claimed \<equiv> fst (op_claim ops (po_now opts) (case po_batch_limit opts of Some n \<Rightarrow> n | None \<Rightarrow> DEFAULT_BATCH_LIMIT)
      (snd (op_expire ops (po_now opts) st)))"
  defines "ps \<equiv> runMeshDeliveryPass True ops opts st"
  shows "broker_reachable sha (ps_ledger ps) \<and>
    set (statuses (ps_ledger ps) claimed) \<subseteq> Some ` {Acknowledged, Queued, DeadLettered} \<and>
    rep_delivered (ps_report ps) = length (filter (\<lambda>s. s = Some Acknowledged) (statuses (ps_ledger ps) claimed)) \<and>
    rep_retried (ps_report ps) = length (filter (\<lambda>s. s = Some Queued) (statuses (ps_ledger ps) claimed)) \<and>
    rep_dead_lettered (ps_report ps) = length (filter (\<lambda>s. s = Some DeadLettered) (statuses (ps_ledger ps) claimed))"
proof -
  have "mesh_ledger.truthful sha (map d_id claimed) ps"
    unfolding ps_def runMeshDeliveryPass_def ops_def claimed_def
    using mesh_ledger.pass_truthful [OF assms(1,2) prod.collapse [symmetric] prod.collapse [symmetric]] by simp
  note t = this [unfolded mesh_ledger.truthful_def mesh_ledger.counted_def]
  have ok: "ledger_ok (ps_ledger ps)" using t reachable_ok by blast
  have st: "statuses (ps_ledger ps) claimed = map (\<lambda>i. map_option d_status (lookup (ps_ledger ps) i)) (map d_id claimed)"
    unfolding statuses_def map_map comp_def
  proof (rule map_cong [OF refl])
    fix d assume "d \<in> set claimed"
    with t obtain r where "lookup (ps_ledger ps) (d_id d) = Some r" by fastforce
    with load_current [OF ok this]
    show "map_option d_status (loadCurrentDelivery (ps_ledger ps) (d_id d) None) =
        map_option d_status (lookup (ps_ledger ps) (d_id d))" by simp
  qed
  show ?thesis
    unfolding st filter_map length_map comp_def set_map
  proof (intro conjI)
    show "broker_reachable sha (ps_ledger ps)" using t by blast
    show "(\<lambda>i. map_option d_status (lookup (ps_ledger ps) i)) ` d_id ` set claimed \<subseteq> Some ` {Acknowledged, Queued, DeadLettered}"
      using t unfolding set_map by blast
  qed (use t in \<open>simp_all add: filter_map comp_def\<close>)
qed

definition sample_options :: pass_options where
  "sample_options = \<lparr>po_sender_peer_id = ''peer-a'', po_batch_limit = None, po_now = 3000,
     po_dispatcher = (\<lambda>i. Inr (JObj [(''ok'', JBool True)])),
     po_resolve_peer = (\<lambda>p t. Some \<lparr>pr_peer_id = p, pr_base_url = Some ''https://b''\<rparr>),
     po_retry_policy = default_policy, po_dispatch_timeout_ms = None\<rparr>"

theorem mesh_pass_settles_every_claim_witness:
  "rep_delivered (ps_report (runMeshDeliveryPass True (mesh_broker_ops (\<lambda>i. i) 3000 (\<lambda>i. 3500)) sample_options sample_ledger)) = 1 \<and>
   broker_reachable sample_sha
     (ps_ledger (runMeshDeliveryPass True (mesh_broker_ops (\<lambda>i. i) 3000 (\<lambda>i. 3500)) sample_options sample_ledger))"
proof
  have "date_range_ok (po_now sample_options) (po_retry_policy sample_options)" by code_simp
  from mesh_pass_settles_every_claim [OF sample_reachable this, of "\<lambda>i. i" 3000 "\<lambda>i. 3500"]
  show "broker_reachable sample_sha
     (ps_ledger (runMeshDeliveryPass True (mesh_broker_ops (\<lambda>i. i) 3000 (\<lambda>i. 3500)) sample_options sample_ledger))"
    by (rule conjunct1)
  show "rep_delivered (ps_report (runMeshDeliveryPass True (mesh_broker_ops (\<lambda>i. i) 3000 (\<lambda>i. 3500)) sample_options sample_ledger)) = 1"
    by code_simp
qed

theorem pass_accounts_for_every_claim_witness:
  "rep_claimed (ps_report (runMeshDeliveryPass True (mesh_broker_ops (\<lambda>i. i) 3000 (\<lambda>i. 3500)) sample_options sample_ledger)) =
   rep_delivered (ps_report (runMeshDeliveryPass True (mesh_broker_ops (\<lambda>i. i) 3000 (\<lambda>i. 3500)) sample_options sample_ledger)) +
   length (rep_failures (ps_report (runMeshDeliveryPass True (mesh_broker_ops (\<lambda>i. i) 3000 (\<lambda>i. 3500)) sample_options sample_ledger)))"
  by (rule pass_accounts_for_every_claim [THEN conjunct1])

end
