(* ===== verification/Writer_Lease.thy ===== *)
theory Writer_Lease
  imports Kyb_Prelude
begin

text \<open>
  The fencing-token writer lease: \<open>src/libs/core/writer-lease.ts\<close> over the backends of
  \<open>lease/\<close>. A lease record carries a fence; acquisition takes the next fence when no live
  lease is recorded, renewal extends the record of the same fence, release keeps the fence and
  clears the expiry.

  The backend is a record of operations over a store, as the interface \<open>LeaseBackend\<close>. Each
  reading of the clock is an argument, in the order the code reads it, so a clock that advances
  between two readings is covered. The callback of the synchronous form transforms the world; the
  callback of the asynchronous form is the list of what happens while it runs: its own segments and
  the renewal timer. The wrapper \<open>withinLock\<close> is the identity and the durable metrics file
  (best effort) is left out; the process-wide counters are modelled.
\<close>

section \<open>Records and errors\<close>

datatype js_number = Finite int | NonFinite

record lease =
  wl_resource :: string
  wl_owner :: string
  wl_fence :: nat
  wl_expires :: ms

datatype read_error =
    PathTagged string      \<comment> \<open>a path-safety rejection, which propagates verbatim\<close>
  | CatalogInvalid
  | Unreadable string

datatype lease_error =
    ResourceIdRequired
  | OwnerIdRequired
  | LeasePathRequired
  | TtlNotPositive
  | RenewIntervalInvalid
  | IdentityMismatch
  | LeaseCorrupt string
  | LeaseFenced string string nat
  | LeaseBusy string string nat
  | PathRejected string
  | WriteRejected string
  | LockUnavailable string
  | CallbackThrew string

datatype lease_event =
    Acquired lease
  | Renewed lease
  | Released lease
  | EvRejected string string

record lease_metrics =
  lm_acquired :: nat
  lm_renewed :: nat
  lm_released :: nat
  lm_rejected :: nat

record 's lease_world =
  lw_store :: 's
  lw_metrics :: "(string, lease_metrics) js_map"
  lw_events :: "lease_event list"

record 's lease_backend =
  lb_read :: "string \<Rightarrow> 's \<Rightarrow> read_error + lease option"
  lb_write :: "string \<Rightarrow> lease \<Rightarrow> 's \<Rightarrow> lease_error + 's"
  lb_lock :: "string \<Rightarrow> 's \<Rightarrow> lease_error + 's"
  lb_unlock :: "string \<Rightarrow> 's \<Rightarrow> 's"

record lease_options =
  lo_resource :: string
  lo_owner :: string
  lo_path :: string
  lo_ttl :: "js_number option"
  lo_renew_every :: "js_number option"

section \<open>Events and metrics\<close>

definition no_metrics :: lease_metrics where
  "no_metrics = \<lparr>lm_acquired = 0, lm_renewed = 0, lm_released = 0, lm_rejected = 0\<rparr>"

definition event_resource :: "lease_event \<Rightarrow> string" where
  "event_resource e = (case e of Acquired l \<Rightarrow> wl_resource l | Renewed l \<Rightarrow> wl_resource l
     | Released l \<Rightarrow> wl_resource l | EvRejected r _ \<Rightarrow> r)"

definition count_event :: "lease_event \<Rightarrow> lease_metrics \<Rightarrow> lease_metrics" where
  "count_event e m =
    (case e of
       Acquired _ \<Rightarrow> m\<lparr>lm_acquired := lm_acquired m + 1\<rparr>
     | Renewed _ \<Rightarrow> m\<lparr>lm_renewed := lm_renewed m + 1\<rparr>
     | Released _ \<Rightarrow> m\<lparr>lm_released := lm_released m + 1\<rparr>
     | EvRejected _ _ \<Rightarrow> m\<lparr>lm_rejected := lm_rejected m + 1\<rparr>)"

definition observeWriterLeaseMetric ::
  "lease_event \<Rightarrow> (string, lease_metrics) js_map \<Rightarrow> (string, lease_metrics) js_map" where
  "observeWriterLeaseMetric e ms =
    AList.update (event_resource e)
      (count_event e (case map_of ms (event_resource e) of Some m \<Rightarrow> m | None \<Rightarrow> no_metrics)) ms"

definition getWriterLeaseMetrics ::
  "string option \<Rightarrow> (string, lease_metrics) js_map \<Rightarrow> lease_metrics list" where
  "getWriterLeaseMetrics resourceId ms =
    (if truthy_opt resourceId
     then (case map_of ms (the resourceId) of Some m \<Rightarrow> [m] | None \<Rightarrow> [])
     else map snd ms)"

definition emitEvent :: "lease_event \<Rightarrow> 's lease_world \<Rightarrow> 's lease_world" where
  "emitEvent e w = w\<lparr>lw_metrics := observeWriterLeaseMetric e (lw_metrics w), lw_events := lw_events w @ [e]\<rparr>"

section \<open>Validation\<close>

definition leaseLockId :: "string \<Rightarrow> string" where
  "leaseLockId resourceId = ''writer-lease-'' @ resourceId"

definition readLease :: "'s lease_backend \<Rightarrow> string \<Rightarrow> 's \<Rightarrow> lease_error + lease option" where
  "readLease be path s =
    (case lb_read be path s of
       Inr l \<Rightarrow> Inr l
     | Inl (PathTagged m) \<Rightarrow> Inl (PathRejected m)
     | Inl CatalogInvalid \<Rightarrow> Inl (LeaseCorrupt ''invalid lease'')
     | Inl (Unreadable m) \<Rightarrow> Inl (LeaseCorrupt ''unreadable lease''))"

definition validateLeaseOptions :: "lease_options \<Rightarrow> lease_error + string \<times> string \<times> int" where
  "validateLeaseOptions opts =
    (let resourceId = js_trim (lo_resource opts); ownerId = js_trim (lo_owner opts) in
     if resourceId = [] then Inl ResourceIdRequired
     else if ownerId = [] then Inl OwnerIdRequired
     else if js_trim (lo_path opts) = [] then Inl LeasePathRequired
     else
       (case (case lo_ttl opts of Some t \<Rightarrow> t | None \<Rightarrow> Finite 30000) of
          NonFinite \<Rightarrow> Inl TtlNotPositive
        | Finite ttl \<Rightarrow> if ttl \<le> 0 then Inl TtlNotPositive else Inr (resourceId, ownerId, ttl)))"

definition validateRenewalInterval :: "js_number option \<Rightarrow> int \<Rightarrow> lease_error option" where
  "validateRenewalInterval renewEveryMs ttlMs =
    (case renewEveryMs of
       None \<Rightarrow> None
     | Some NonFinite \<Rightarrow> Some RenewIntervalInvalid
     | Some (Finite r) \<Rightarrow> if r \<le> 0 \<or> r \<ge> ttlMs then Some RenewIntervalInvalid else None)"

definition assertLeaseIdentity :: "lease_options \<Rightarrow> lease \<Rightarrow> lease_error option" where
  "assertLeaseIdentity opts l =
    (if wl_resource l \<noteq> lo_resource opts \<or> wl_owner l \<noteq> lo_owner opts then Some IdentityMismatch else None)"

section \<open>The operations on a lease\<close>

text \<open>The guard shared by renewal, assertion and release (which omits the expiry).\<close>

definition same_token :: "lease \<Rightarrow> lease \<Rightarrow> bool" where
  "same_token current expected \<longleftrightarrow>
    wl_resource current = wl_resource expected \<and> wl_owner current = wl_owner expected \<and>
    wl_fence current = wl_fence expected"

definition assertFencedWriterLease ::
  "'s lease_backend \<Rightarrow> string \<Rightarrow> lease \<Rightarrow> ms \<Rightarrow> 's \<Rightarrow> lease_error option" where
  "assertFencedWriterLease be path expected now s =
    (case readLease be path s of
       Inl e \<Rightarrow> Some e
     | Inr current \<Rightarrow>
         if (case current of None \<Rightarrow> True | Some c \<Rightarrow> \<not> same_token c expected \<or> wl_expires c \<le> now)
         then Some (LeaseFenced (wl_resource expected) (wl_owner expected) (wl_fence expected))
         else None)"

text \<open>A write, then the assertion on what was written.\<close>

definition write_checked ::
  "'s lease_backend \<Rightarrow> string \<Rightarrow> lease \<Rightarrow> ms \<Rightarrow> (lease \<Rightarrow> lease_event) \<Rightarrow> 's lease_world \<Rightarrow>
   (lease_error + lease) \<times> 's lease_world" where
  "write_checked be path l now ev w =
    (case lb_write be path l (lw_store w) of
       Inl e \<Rightarrow> (Inl e, w)
     | Inr s \<Rightarrow>
         (let w' = w\<lparr>lw_store := s\<rparr>
          in case assertFencedWriterLease be path l now s of
               Some e \<Rightarrow> (Inl e, w')
             | None \<Rightarrow> (Inr l, emitEvent (ev l) w')))"

definition renew_under_lock ::
  "'s lease_backend \<Rightarrow> lease_options \<Rightarrow> lease \<Rightarrow> ms \<Rightarrow> ms \<Rightarrow> 's lease_world \<Rightarrow>
   (lease_error + lease) \<times> 's lease_world" where
  "renew_under_lock be opts l t1 t2 w =
    (case validateLeaseOptions opts of
       Inl e \<Rightarrow> (Inl e, w)
     | Inr (resourceId, ownerId, ttl) \<Rightarrow>
         (case assertLeaseIdentity opts l of
            Some e \<Rightarrow> (Inl e, w)
          | None \<Rightarrow>
              (case readLease be (lo_path opts) (lw_store w) of
                 Inl e \<Rightarrow> (Inl e, w)
               | Inr current \<Rightarrow>
                   (let stale = (Inl (LeaseFenced resourceId ownerId (wl_fence l)),
                                 emitEvent (EvRejected resourceId ''renewal token is stale or expired'') w)
                    in case current of
                         None \<Rightarrow> stale
                       | Some c \<Rightarrow>
                           if wl_resource c \<noteq> resourceId \<or> wl_owner c \<noteq> ownerId \<or>
                              wl_fence c \<noteq> wl_fence l \<or> wl_expires c \<le> t1
                           then stale
                           else write_checked be (lo_path opts) (c\<lparr>wl_expires := t1 + ttl\<rparr>) t2 Renewed w))))"

text \<open>Running under the lock of the resource: a failed lock throws, the lock is always released.\<close>

definition with_lock ::
  "'s lease_backend \<Rightarrow> string \<Rightarrow> ('s lease_world \<Rightarrow> (lease_error + 'a) \<times> 's lease_world) \<Rightarrow>
   's lease_world \<Rightarrow> (lease_error + 'a) \<times> 's lease_world" where
  "with_lock be namespace body w =
    (case lb_lock be namespace (lw_store w) of
       Inl e \<Rightarrow> (Inl e, w)
     | Inr s \<Rightarrow>
         (case body (w\<lparr>lw_store := s\<rparr>) of
            (r, w') \<Rightarrow> (r, w'\<lparr>lw_store := lb_unlock be namespace (lw_store w')\<rparr>)))"

definition renewFencedWriterLeaseSync ::
  "'s lease_backend \<Rightarrow> lease_options \<Rightarrow> lease \<Rightarrow> ms \<Rightarrow> ms \<Rightarrow> 's lease_world \<Rightarrow>
   (lease_error + lease) \<times> 's lease_world" where
  "renewFencedWriterLeaseSync be opts l t1 t2 w =
    (case validateLeaseOptions opts of
       Inl e \<Rightarrow> (Inl e, w)
     | Inr (resourceId, _, _) \<Rightarrow> with_lock be (leaseLockId resourceId) (renew_under_lock be opts l t1 t2) w)"

definition acquire_lease ::
  "'s lease_backend \<Rightarrow> string \<Rightarrow> string \<Rightarrow> string \<Rightarrow> int \<Rightarrow> ms \<Rightarrow> ms \<Rightarrow> 's lease_world \<Rightarrow>
   (lease_error + lease) \<times> 's lease_world" where
  "acquire_lease be path resourceId ownerId ttl t1 t2 w =
    (case readLease be path (lw_store w) of
       Inl e \<Rightarrow> (Inl e, w)
     | Inr current \<Rightarrow>
         (let next = \<lparr>wl_resource = resourceId, wl_owner = ownerId,
                wl_fence = (case current of Some c \<Rightarrow> wl_fence c | None \<Rightarrow> 0) + 1, wl_expires = t1 + ttl\<rparr>
          in case current of
               Some c \<Rightarrow>
                 if wl_expires c > t1
                 then (Inl (LeaseBusy resourceId (wl_owner c) (wl_fence c)),
                       emitEvent (EvRejected resourceId ''live lease held by another owner'') w)
                 else write_checked be path next t2 Acquired w
             | None \<Rightarrow> write_checked be path next t2 Acquired w))"

text \<open>The \<open>finally\<close> block: the fence is kept, the expiry cleared. Its own error replaces the result.\<close>

definition release_lease ::
  "'s lease_backend \<Rightarrow> string \<Rightarrow> lease \<Rightarrow> (lease_error + 'a) \<Rightarrow> 's lease_world \<Rightarrow>
   (lease_error + 'a) \<times> 's lease_world" where
  "release_lease be path l result w =
    (case readLease be path (lw_store w) of
       Inl e \<Rightarrow> (Inl e, w)
     | Inr current \<Rightarrow>
         if (case current of None \<Rightarrow> False | Some c \<Rightarrow> same_token c l)
         then
           (case lb_write be path (l\<lparr>wl_expires := 0\<rparr>) (lw_store w) of
              Inl e \<Rightarrow> (Inl e, w)
            | Inr s \<Rightarrow> (result, emitEvent (Released (l\<lparr>wl_expires := 0\<rparr>)) (w\<lparr>lw_store := s\<rparr>)))
         else (result, w))"

section \<open>One protected write\<close>

text \<open>After the callback: its error, or the final assertion.\<close>

definition finish_callback ::
  "'s lease_backend \<Rightarrow> string \<Rightarrow> lease \<Rightarrow> ms \<Rightarrow> (lease_error + 'a) \<times> 's lease_world \<Rightarrow>
   (lease_error + 'a) \<times> 's lease_world" where
  "finish_callback be path l t3 rw =
    (case rw of
       (Inl e, w) \<Rightarrow> release_lease be path l (Inl e) w
     | (Inr a, w) \<Rightarrow>
         (case assertFencedWriterLease be path l t3 (lw_store w) of
            Some e \<Rightarrow> release_lease be path l (Inl e) w
          | None \<Rightarrow> release_lease be path l (Inr a) w))"

definition withFencedWriterLeaseSync ::
  "'s lease_backend \<Rightarrow> lease_options \<Rightarrow> (lease \<Rightarrow> 's lease_world \<Rightarrow> (lease_error + 'a) \<times> 's lease_world) \<Rightarrow>
   ms \<Rightarrow> ms \<Rightarrow> ms \<Rightarrow> 's lease_world \<Rightarrow> (lease_error + 'a) \<times> 's lease_world" where
  "withFencedWriterLeaseSync be opts fn t1 t2 t3 w =
    (case validateLeaseOptions opts of
       Inl e \<Rightarrow> (Inl e, w)
     | Inr (resourceId, ownerId, ttl) \<Rightarrow>
         (case validateRenewalInterval (lo_renew_every opts) ttl of
            Some e \<Rightarrow> (Inl e, w)
          | None \<Rightarrow>
              with_lock be (leaseLockId resourceId)
                (\<lambda>w. case acquire_lease be (lo_path opts) resourceId ownerId ttl t1 t2 w of
                       (Inl e, w') \<Rightarrow> (Inl e, w')
                     | (Inr l, w') \<Rightarrow> finish_callback be (lo_path opts) l t3 (fn l w')) w))"

text \<open>What happens while the callback of the asynchronous form runs: a segment of the callback
  (which may throw), or the renewal timer with its two clock readings. A failed renewal is
  remembered and thrown after the callback.\<close>

datatype 's lease_action =
    Segment "'s lease_world \<Rightarrow> lease_error option \<times> 's lease_world"
  | Timer ms ms

fun run_actions ::
  "'s lease_backend \<Rightarrow> lease_options \<Rightarrow> lease \<Rightarrow> lease_error option \<Rightarrow> 's lease_action list \<Rightarrow> 's lease_world \<Rightarrow>
   (lease_error + unit) \<times> 's lease_world" where
  "run_actions be opts l err [] w = ((case err of Some e \<Rightarrow> Inl e | None \<Rightarrow> Inr ()), w)"
| "run_actions be opts l err (Segment f # as) w =
    (case f w of (Some e, w') \<Rightarrow> (Inl e, w') | (None, w') \<Rightarrow> run_actions be opts l err as w')"
| "run_actions be opts l err (Timer t1 t2 # as) w =
    (case renew_under_lock be opts l t1 t2 w of
       (Inl e, w') \<Rightarrow> run_actions be opts l (Some e) as w'
     | (Inr _, w') \<Rightarrow> run_actions be opts l err as w')"

definition renewal_actions :: "js_number option \<Rightarrow> 's lease_action list \<Rightarrow> 's lease_action list" where
  "renewal_actions renewEveryMs as =
    (if renewEveryMs = None then filter (\<lambda>a. case a of Segment _ \<Rightarrow> True | Timer _ _ \<Rightarrow> False) as else as)"

definition withFencedWriterLease ::
  "'s lease_backend \<Rightarrow> lease_options \<Rightarrow> (lease \<Rightarrow> 's lease_action list) \<Rightarrow> ms \<Rightarrow> ms \<Rightarrow> ms \<Rightarrow>
   's lease_world \<Rightarrow> (lease_error + unit) \<times> 's lease_world" where
  "withFencedWriterLease be opts fn t1 t2 t3 w =
    (case validateLeaseOptions opts of
       Inl e \<Rightarrow> (Inl e, w)
     | Inr (resourceId, ownerId, ttl) \<Rightarrow>
         (case validateRenewalInterval (lo_renew_every opts) ttl of
            Some e \<Rightarrow> (Inl e, w)
          | None \<Rightarrow>
              with_lock be (leaseLockId resourceId)
                (\<lambda>w. case acquire_lease be (lo_path opts) resourceId ownerId ttl t1 t2 w of
                       (Inl e, w') \<Rightarrow> (Inl e, w')
                     | (Inr l, w') \<Rightarrow>
                         finish_callback be (lo_path opts) l t3
                           (run_actions be
                              (opts\<lparr>lo_resource := resourceId, lo_owner := ownerId, lo_ttl := Some (Finite ttl)\<rparr>)
                              l None (renewal_actions (lo_renew_every opts) (fn l)) w')) w))"

section \<open>Backends\<close>

text \<open>The memory backend: a map of records and the set of held namespaces.\<close>

record memory_store =
  mb_records :: "(string, lease) js_map"
  mb_held :: "string list"

definition memory_backend :: "memory_store lease_backend" where
  "memory_backend =
    \<lparr>lb_read = (\<lambda>k s. Inr (map_of (mb_records s) k)),
     lb_write = (\<lambda>k l s. Inr (s\<lparr>mb_records := AList.update k l (mb_records s)\<rparr>)),
     lb_lock = (\<lambda>n s. if n \<in> set (mb_held s) then Inl (LockUnavailable n) else Inr (s\<lparr>mb_held := n # mb_held s\<rparr>)),
     lb_unlock = (\<lambda>n s. s\<lparr>mb_held := removeAll n (mb_held s)\<rparr>)\<rparr>"

text \<open>The local file backend: files at safe paths whose content is a record or not valid, validated
  by the schema (non-empty identifiers); \<open>safe\<close> is the path check, which resolves a key. A file
  changed by another process is seen (its modification time or size differs).\<close>

datatype lease_file = Record lease | InvalidContent

record file_store =
  fb_files :: "(string, lease_file) js_map"
  fb_held :: "string list"

definition lease_schema_ok :: "lease \<Rightarrow> bool" where
  "lease_schema_ok l \<longleftrightarrow> wl_resource l \<noteq> [] \<and> wl_owner l \<noteq> []"

definition localFileLeaseBackend :: "(string \<Rightarrow> string option) \<Rightarrow> file_store lease_backend" where
  "localFileLeaseBackend safe =
    \<lparr>lb_read = (\<lambda>k s. case safe k of
        None \<Rightarrow> Inl (PathTagged k)
      | Some p \<Rightarrow>
          (case map_of (fb_files s) p of
             None \<Rightarrow> Inr None
           | Some InvalidContent \<Rightarrow> Inl CatalogInvalid
           | Some (Record l) \<Rightarrow> if lease_schema_ok l then Inr (Some l) else Inl CatalogInvalid)),
     lb_write = (\<lambda>k l s. case safe k of
        None \<Rightarrow> Inl (PathRejected k)
      | Some p \<Rightarrow>
          if lease_schema_ok l then Inr (s\<lparr>fb_files := AList.update p (Record l) (fb_files s)\<rparr>)
          else Inl (WriteRejected k)),
     lb_lock = (\<lambda>n s. if n \<in> set (fb_held s) then Inl (LockUnavailable n) else Inr (s\<lparr>fb_held := n # fb_held s\<rparr>)),
     lb_unlock = (\<lambda>n s. s\<lparr>fb_held := removeAll n (fb_held s)\<rparr>)\<rparr>"

section \<open>Selecting a backend\<close>

text \<open>\<open>resolveLeaseBackend\<close> over the registered identifiers, in registration order, and the
  governed chain (a parameter).\<close>

definition resolveLeaseBackend ::
  "string list \<Rightarrow> (string, 'b) js_map \<Rightarrow> string option \<Rightarrow> string + 'b" where
  "resolveLeaseBackend chain registry selector =
    (let explicit = (case selector of Some s \<Rightarrow> js_trim s | None \<Rightarrow> []) in
     if explicit \<noteq> [] then
       (case map_of registry explicit of Some b \<Rightarrow> Inr b | None \<Rightarrow> Inl ''unknown backend'')
     else
       (case List.find (\<lambda>i. map_of registry i \<noteq> None) chain of
          Some i \<Rightarrow> Inr (the (map_of registry i))
        | None \<Rightarrow> (case registry of [] \<Rightarrow> Inl ''no backend registered'' | (_, b) # _ \<Rightarrow> Inr b)))"

end
