(* ===== verification/Writer_Lease_Props.thy ===== *)
theory Writer_Lease_Props
  imports Writer_Lease
begin

text \<open>
  What the fence guarantees. The locale \<open>lease_store\<close> is the contract of a backend (a written
  record is read back, locks leave records alone); inside it, the histories of all the acquisitions,
  renewals and releases of any number of writers on one path are a step relation, and its invariant
  says that fences only grow. The two backends of the repository interpret it.
\<close>

locale lease_store =
  fixes be :: "'s lease_backend"
  assumes write_read: "lb_write be p l s = Inr s' \<Longrightarrow> lb_read be p s' = Inr (Some l)"
    and lock_read: "lb_lock be n s = Inr s' \<Longrightarrow> lb_read be p s' = lb_read be p s"
    and unlock_read: "lb_read be p (lb_unlock be n s) = lb_read be p s"

section \<open>Histories of a lease\<close>

text \<open>The issued and the released leases are recorded beside the store. A crashed writer is one that
  takes no further step; tokens of renewals and releases may be any, also forged ones. The clock is
  not negative.\<close>

record 's lease_history =
  lh_world :: "'s lease_world"
  lh_issued :: "lease list"
  lh_released :: "lease list"

inductive lease_step :: "'s lease_backend \<Rightarrow> string \<Rightarrow> 's lease_history \<Rightarrow> 's lease_history \<Rightarrow> bool"
  for be path where
  step_acquire: "acquire_lease be path r ow ttl t1 t2 (lh_world h) = (res, w) \<Longrightarrow> 0 \<le> t1 \<Longrightarrow>
    lease_step be path h
      (h\<lparr>lh_world := w, lh_issued := lh_issued h @ (case res of Inr l \<Rightarrow> [l] | Inl _ \<Rightarrow> [])\<rparr>)"
| step_renew: "renew_under_lock be opts l t1 t2 (lh_world h) = (res, w) \<Longrightarrow> lo_path opts = path \<Longrightarrow> 0 \<le> t1 \<Longrightarrow>
    lease_step be path h (h\<lparr>lh_world := w\<rparr>)"
| step_release: "release_lease be path l (Inr ()) (lh_world h) = (Inr (), w) \<Longrightarrow>
    lease_step be path h (h\<lparr>lh_world := w, 
      lh_released := (if l \<in> set (lh_issued h) then l # lh_released h else lh_released h)\<rparr>)"
| step_other: "lb_read be path (lw_store w) = lb_read be path (lw_store (lh_world h)) \<Longrightarrow>
    lease_step be path h (h\<lparr>lh_world := w\<rparr>)"

inductive lease_reachable :: "'s lease_backend \<Rightarrow> string \<Rightarrow> 's lease_history \<Rightarrow> bool" for be path where
  reachable_start: "lease_reachable be path \<lparr>lh_world = w, lh_issued = [], lh_released = []\<rparr>"
| reachable_next: "lease_reachable be path h \<Longrightarrow> lease_step be path h h' \<Longrightarrow> lease_reachable be path h'"

definition dominates :: "lease option \<Rightarrow> lease \<Rightarrow> bool" where
  "dominates c l \<longleftrightarrow> (case c of None \<Rightarrow> False | Some r \<Rightarrow> wl_fence l < wl_fence r \<or> same_token r l)"

definition dead :: "lease option \<Rightarrow> lease \<Rightarrow> bool" where
  "dead c l \<longleftrightarrow> (case c of None \<Rightarrow> True
     | Some r \<Rightarrow> wl_fence l < wl_fence r \<or> \<not> same_token r l \<or> wl_expires r \<le> 0)"

definition fence_inv :: "'s lease_backend \<Rightarrow> string \<Rightarrow> 's lease_history \<Rightarrow> bool" where
  "fence_inv be path h \<longleftrightarrow>
    sorted_wrt (<) (map wl_fence (lh_issued h)) \<and> set (lh_released h) \<subseteq> set (lh_issued h) \<and>
    (lh_issued h \<noteq> [] \<longrightarrow> (\<exists>c. lb_read be path (lw_store (lh_world h)) = Inr c \<and>
       (\<forall>l\<in>set (lh_issued h). dominates c l) \<and>
       (\<forall>l\<in>set (lh_released h). dead c l)))"

lemma same_token_refl [simp]: "same_token l l" "same_token (l\<lparr>wl_expires := t\<rparr>) l" "same_token l (l\<lparr>wl_expires := t\<rparr>)"
  by (simp_all add: same_token_def)

lemma same_token_trans: "same_token a b \<Longrightarrow> same_token b c \<Longrightarrow> same_token a c"
  by (simp add: same_token_def)

lemma same_token_sym: "same_token a b \<Longrightarrow> same_token b a"
  by (simp add: same_token_def)

lemma same_token_expires [simp]: "same_token (r\<lparr>wl_expires := t\<rparr>) l = same_token r l" "same_token r (l\<lparr>wl_expires := t\<rparr>) = same_token r l"
  by (simp_all add: same_token_def)

section \<open>Preservation\<close>

context lease_store
begin

lemma emit_store [simp]: "lw_store (emitEvent e w) = lw_store w"
  by (simp add: emitEvent_def)

text \<open>Every operation either leaves the record alone or replaces it in one known way.\<close>

lemma read_after_write_checked:
  assumes "write_checked be p l t ev w = (res, w')"
  shows "lb_read be p (lw_store w') = lb_read be p (lw_store w) \<and> (\<exists>e. res = Inl e) \<or>
    lb_read be p (lw_store w') = Inr (Some l) \<and> (res = Inr l \<or> (\<exists>e. res = Inl e))"
  using assms write_read
  by (auto simp: write_checked_def Let_def split: sum.splits option.splits)

lemma acquire_cases:
  assumes "acquire_lease be p r ow ttl t1 t2 w = (res, w')"
  obtains (unchanged) e where "res = Inl e" "lb_read be p (lw_store w') = lb_read be p (lw_store w)"
  | (taken) c l where "lb_read be p (lw_store w) = Inr c" "\<forall>x. c = Some x \<longrightarrow> wl_expires x \<le> t1"
      "l = \<lparr>wl_resource = r, wl_owner = ow, wl_fence = (case c of Some x \<Rightarrow> wl_fence x | None \<Rightarrow> 0) + 1,
            wl_expires = t1 + ttl\<rparr>"
      "lb_read be p (lw_store w') = Inr (Some l)" "res = Inr l \<or> (\<exists>e. res = Inl e)"
proof (cases "readLease be p (lw_store w)")
  case (Inl e)
  with assms unchanged show ?thesis by (auto simp: acquire_lease_def)
next
  case (Inr c)
  then have read: "lb_read be p (lw_store w) = Inr c"
    by (auto simp: readLease_def split: sum.splits read_error.splits)
  define l where "l = \<lparr>wl_resource = r, wl_owner = ow, wl_fence = (case c of Some x \<Rightarrow> wl_fence x | None \<Rightarrow> 0) + 1,
      wl_expires = t1 + ttl\<rparr>"
  show ?thesis
  proof (cases "\<exists>x. c = Some x \<and> wl_expires x > t1")
    case True
    with assms Inr unchanged show ?thesis by (auto simp: acquire_lease_def Let_def)
  next
    case False
    with assms Inr have wc: "write_checked be p l t2 Acquired w = (res, w')"
      by (auto simp: acquire_lease_def Let_def l_def split: option.splits)
    from read_after_write_checked [OF wc] show ?thesis
    proof
      assume "lb_read be p (lw_store w') = lb_read be p (lw_store w) \<and> (\<exists>e. res = Inl e)"
      with unchanged show ?thesis by blast
    next
      assume "lb_read be p (lw_store w') = Inr (Some l) \<and> (res = Inr l \<or> (\<exists>e. res = Inl e))"
      then show ?thesis using False by (intro taken [OF read _ l_def]) auto
    qed
  qed
qed

lemma renew_cases:
  assumes "renew_under_lock be opts l t1 t2 w = (res, w')"
  obtains (unchanged) "lb_read be (lo_path opts) (lw_store w') = lb_read be (lo_path opts) (lw_store w)"
  | (extended) c t where "lb_read be (lo_path opts) (lw_store w) = Inr (Some c)" "t1 < wl_expires c"
      "lb_read be (lo_path opts) (lw_store w') = Inr (Some (c\<lparr>wl_expires := t\<rparr>))"
proof (cases "lb_read be (lo_path opts) (lw_store w') = lb_read be (lo_path opts) (lw_store w)")
  case True
  then show ?thesis by (rule unchanged)
next
  case False
  then have ne: "lw_store w' \<noteq> lw_store w" by auto
  with assms obtain rid oid ttl where v: "validateLeaseOptions opts = Inr (rid, oid, ttl)"
    by (auto simp: renew_under_lock_def split: sum.splits)
  from assms v ne obtain c where i: "assertLeaseIdentity opts l = None"
    and rd: "readLease be (lo_path opts) (lw_store w) = Inr (Some c)"
    by (auto simp: renew_under_lock_def Let_def split: sum.splits option.splits)
  from assms v ne i rd have g: "t1 < wl_expires c"
    and wc: "write_checked be (lo_path opts) (c\<lparr>wl_expires := t1 + ttl\<rparr>) t2 Renewed w = (res, w')"
    by (auto simp: renew_under_lock_def Let_def split: if_splits)
  have read: "lb_read be (lo_path opts) (lw_store w) = Inr (Some c)"
    using rd by (auto simp: readLease_def split: sum.splits read_error.splits)
  from read_after_write_checked [OF wc] False show ?thesis using extended [OF read g] by blast
qed

lemma release_cases:
  assumes "release_lease be p l r w = (r', w')"
  obtains (unchanged) "lb_read be p (lw_store w') = lb_read be p (lw_store w)"
      "r' = r \<longrightarrow> (\<exists>c. lb_read be p (lw_store w) = Inr c \<and> (\<forall>x. c = Some x \<longrightarrow> \<not> same_token x l)) \<or> (\<exists>e. r = Inl e)"
  | (cleared) c where "lb_read be p (lw_store w) = Inr (Some c)" "same_token c l"
      "lb_read be p (lw_store w') = Inr (Some (l\<lparr>wl_expires := 0\<rparr>))"
proof (cases "readLease be p (lw_store w)")
  case (Inl e)
  with assms unchanged show ?thesis by (auto simp: release_lease_def)
next
  case (Inr c)
  then have read: "lb_read be p (lw_store w) = Inr c"
    by (auto simp: readLease_def split: sum.splits read_error.splits)
  show ?thesis
  proof (cases "\<exists>x. c = Some x \<and> same_token x l")
    case True
    then obtain x where x: "c = Some x" "same_token x l" by blast
    show ?thesis
    proof (cases "lb_write be p (l\<lparr>wl_expires := 0\<rparr>) (lw_store w)")
      case (Inl e)
      with assms Inr x unchanged show ?thesis
        by (auto simp: release_lease_def \<open>readLease be p (lw_store w) = Inr c\<close>)
    next
      case (Inr s)
      with assms x \<open>readLease be p (lw_store w) = Inr c\<close> have "lw_store w' = s"
        by (auto simp: release_lease_def)
      with write_read [OF Inr] read x cleared show ?thesis by simp
    qed
  next
    case False
    with assms Inr have "w' = w" "r' = r" by (auto simp: release_lease_def split: option.splits)
    with False read unchanged show ?thesis by blast
  qed
qed

lemma dominates_next: "dominates c l \<Longrightarrow> wl_fence n = (case c of Some x \<Rightarrow> wl_fence x | None \<Rightarrow> 0) + 1 \<Longrightarrow>
    wl_fence l < wl_fence n"
  by (auto simp: dominates_def same_token_def split: option.splits)

lemma fence_inv_same_read:
  assumes "fence_inv be p h" and "lb_read be p (lw_store w) = lb_read be p (lw_store (lh_world h))"
  shows "fence_inv be p (h\<lparr>lh_world := w\<rparr>)"
  using assms by (simp add: fence_inv_def)

lemma fence_inv_step:
  assumes inv: "fence_inv be p h" and "lease_step be p h h'"
  shows "fence_inv be p h'"
  using assms(2)
proof cases
  case (step_acquire r ow ttl t1 t2 res w)
  from step_acquire(2) show ?thesis
  proof (cases rule: acquire_cases)
    case (unchanged e)
    with fence_inv_same_read [OF inv] show ?thesis by (simp add: step_acquire(1))
  next
    case (taken c l)
    have dom: "wl_fence x < wl_fence l" if "x \<in> set (lh_issued h)" for x
    proof -
      from that inv taken(1) have "dominates c x" by (auto simp: fence_inv_def)
      then show ?thesis by (rule dominates_next) (simp add: taken(3))
    qed
    have all: "dominates (Some l) x" if "x \<in> set (lh_issued h) \<union> {l}" for x
      using that dom by (auto simp: dominates_def)
    have gone: "dead (Some l) x" if "x \<in> set (lh_released h)" for x
      using that inv dom by (auto simp: dead_def fence_inv_def)
    have sorted: "sorted_wrt (<) (map wl_fence (lh_issued h @ [l]))"
      using inv dom by (simp add: fence_inv_def sorted_wrt_append)
    have sub: "set (lh_released h) \<subseteq> set (lh_issued h)" using inv by (simp add: fence_inv_def)
    from taken(5) show ?thesis
    proof
      assume "res = Inr l"
      with sorted sub all gone taken(4) show ?thesis
        by (auto simp: fence_inv_def step_acquire(1))
    next
      assume "\<exists>e. res = Inl e"
      with inv sub all gone taken(4) show ?thesis
        by (auto simp: fence_inv_def step_acquire(1))
    qed
  qed
next
  case (step_renew opts l t1 t2 res w)
  from step_renew(2) show ?thesis
  proof (cases rule: renew_cases)
    case unchanged
    with fence_inv_same_read [OF inv] show ?thesis by (simp add: step_renew(1,3))
  next
    case (extended c t)
    have "dominates (Some (c\<lparr>wl_expires := t\<rparr>)) x" if "dominates (Some c) x" for x
      using that by (auto simp: dominates_def)
    moreover have "dead (Some (c\<lparr>wl_expires := t\<rparr>)) x" if "dead (Some c) x" for x
      using that extended(2) step_renew(4) by (auto simp: dead_def)
    ultimately show ?thesis
      using inv extended(1,3) by (auto simp: fence_inv_def step_renew(1,3))
  qed
next
  case (step_release l w)
  from step_release(2) show ?thesis
  proof (cases rule: release_cases)
    case unchanged
    then obtain c where c: "lb_read be p (lw_store (lh_world h)) = Inr c" "\<forall>x. c = Some x \<longrightarrow> \<not> same_token x l"
      by auto
    then have "dead c l" by (auto simp: dead_def split: option.splits)
    with inv c unchanged(1) show ?thesis by (auto simp: fence_inv_def step_release(1))
  next
    case (cleared c)
    let ?n = "l\<lparr>wl_expires := 0\<rparr>"
    have "dominates (Some ?n) x" if "dominates (Some c) x" for x
      using that cleared(2) by (auto simp: dominates_def same_token_def)
    moreover have "dead (Some ?n) x" for x by (simp add: dead_def)
    ultimately show ?thesis
      using inv cleared(1,3) by (auto simp: fence_inv_def step_release(1))
  qed
next
  case step_other
  then show ?thesis using fence_inv_same_read [OF inv] by simp
qed

lemma fence_inv_reachable: "lease_reachable be p h \<Longrightarrow> fence_inv be p h"
proof (induction rule: lease_reachable.induct)
  case (reachable_start w)
  then show ?case by (simp add: fence_inv_def)
next
  case (reachable_next h h')
  then show ?case using fence_inv_step by blast
qed

lemma assert_None:
  "assertFencedWriterLease be p l now s = None \<longleftrightarrow>
    (\<exists>c. lb_read be p s = Inr (Some c) \<and> same_token c l \<and> now < wl_expires c)"
  by (auto simp: assertFencedWriterLease_def readLease_def split: sum.splits read_error.splits option.splits)

text \<open>The token that passes the assertion is the last one issued.\<close>

lemma valid_token_is_last:
  assumes "lease_reachable be p h" and l: "l \<in> set (lh_issued h)" and "0 \<le> now"
    and "assertFencedWriterLease be p l now (lw_store (lh_world h)) = None"
  shows "l = last (lh_issued h) \<and> l \<notin> set (lh_released h) \<and>
    (\<forall>l'\<in>set (lh_issued h). l' \<noteq> l \<longrightarrow> wl_fence l' < wl_fence l \<and>
       (\<forall>now'. assertFencedWriterLease be p l' now' (lw_store (lh_world h)) =
          Some (LeaseFenced (wl_resource l') (wl_owner l') (wl_fence l'))))"
proof -
  have inv: "fence_inv be p h" by (rule fence_inv_reachable [OF assms(1)])
  from assms(4) obtain c where c: "lb_read be p (lw_store (lh_world h)) = Inr (Some c)" "same_token c l" "now < wl_expires c"
    by (auto simp: assert_None)
  have dom: "dominates (Some c) x" if "x \<in> set (lh_issued h)" for x
    using inv c(1) that by (auto simp: fence_inv_def)
  have less: "wl_fence x < wl_fence l" if "x \<in> set (lh_issued h)" "x \<noteq> l" for x
  proof -
    have "distinct (map wl_fence (lh_issued h))" using inv by (simp add: fence_inv_def strict_sorted_iff)
    with that l have "wl_fence x \<noteq> wl_fence l" by (auto simp: distinct_map dest: inj_onD)
    with dom [OF that(1)] c(2) show ?thesis by (auto simp: dominates_def same_token_def)
  qed
  have "l = last (lh_issued h)"
  proof (rule ccontr)
    assume ne: "l \<noteq> last (lh_issued h)"
    from l have nonempty: "lh_issued h \<noteq> []" by auto
    then obtain ys y where ys: "lh_issued h = ys @ [y]" by (cases "lh_issued h" rule: rev_cases) auto
    with ne l have "l \<in> set ys" "y \<noteq> l" by auto
    have "wl_fence l < wl_fence y"
      using inv \<open>l \<in> set ys\<close> by (auto simp: fence_inv_def ys sorted_wrt_append)
    moreover have "wl_fence y < wl_fence l" using less \<open>y \<noteq> l\<close> ys by simp
    ultimately show False by simp
  qed
  moreover have "l \<notin> set (lh_released h)"
  proof
    assume "l \<in> set (lh_released h)"
    with inv c(1) l have "dead (Some c) l" by (auto simp: fence_inv_def)
    with c(2,3) assms(3) show False by (auto simp: dead_def same_token_def)
  qed
  moreover have "assertFencedWriterLease be p x now' (lw_store (lh_world h)) =
      Some (LeaseFenced (wl_resource x) (wl_owner x) (wl_fence x))" if "x \<in> set (lh_issued h)" "x \<noteq> l" for x now'
  proof -
    have "\<not> same_token c x" using less [OF that] c(2) by (auto simp: same_token_def)
    with c(1) show ?thesis by (simp add: assertFencedWriterLease_def readLease_def)
  qed
  ultimately show ?thesis using less by blast
qed

end

section \<open>The backends of the repository\<close>

interpretation memory_lease: lease_store memory_backend
proof unfold_locales
qed (auto simp: memory_backend_def map_of_update_eq split: if_splits)

interpretation file_lease: lease_store "localFileLeaseBackend safe" for safe
proof unfold_locales
qed (auto simp: localFileLeaseBackend_def map_of_update_eq split: if_splits option.splits)

section \<open>Properties\<close>

text \<open>C25. Whatever the writers of a path do (acquire, renew with any token, release, crash), the issued
  fences strictly increase, and a token that passes the assertion belongs to the last issued lease,
  which has not been released: every other issued token is rejected, at every time.\<close>

theorem fenced_writer_is_unique:
  assumes "lease_reachable (localFileLeaseBackend safe) p h" and "l \<in> set (lh_issued h)" and "0 \<le> now"
    and "assertFencedWriterLease (localFileLeaseBackend safe) p l now (lw_store (lh_world h)) = None"
  shows "sorted_wrt (<) (map wl_fence (lh_issued h)) \<and> l = last (lh_issued h) \<and> l \<notin> set (lh_released h) \<and>
    (\<forall>l'\<in>set (lh_issued h). l' \<noteq> l \<longrightarrow> wl_fence l' < wl_fence l \<and>
       (\<forall>now'. assertFencedWriterLease (localFileLeaseBackend safe) p l' now' (lw_store (lh_world h)) =
          Some (LeaseFenced (wl_resource l') (wl_owner l') (wl_fence l'))))"
  using file_lease.valid_token_is_last [OF assms] file_lease.fence_inv_reachable [OF assms(1)]
  unfolding fence_inv_def by blast

definition sample_world :: "file_store lease_world" where
  "sample_world = \<lparr>lw_store = \<lparr>fb_files = [], fb_held = []\<rparr>, lw_metrics = [], lw_events = []\<rparr>"

definition sample_take :: "string \<Rightarrow> ms \<Rightarrow> file_store lease_world \<Rightarrow> (lease_error + lease) \<times> file_store lease_world" where
  "sample_take ow t w = acquire_lease (localFileLeaseBackend Some) ''p'' ''r'' ow 10 t t w"

definition sample_history :: "file_store lease_history" where
  "sample_history =
    (let (r1, w1) = sample_take ''a'' 0 sample_world; (r2, w2) = sample_take ''b'' 20 w1
     in \<lparr>lh_world = w2, lh_issued = [projr r1, projr r2], lh_released = []\<rparr>)"

lemma sample_history_reachable: "lease_reachable (localFileLeaseBackend Some) ''p'' sample_history"
proof -
  let ?be = "localFileLeaseBackend Some"
  let ?h0 = "\<lparr>lh_world = sample_world, lh_issued = [], lh_released = []\<rparr>"
  let ?a = "sample_take ''a'' 0 sample_world"
  let ?b = "sample_take ''b'' 20 (snd ?a)"
  have a: "fst ?a = Inr (projr (fst ?a))" and b: "fst ?b = Inr (projr (fst ?b))" by code_simp+
  have s1: "lease_step ?be ''p'' ?h0 \<lparr>lh_world = snd ?a, lh_issued = [projr (fst ?a)], lh_released = []\<rparr>"
    using step_acquire [of ?be "''p''" "''r''" "''a''" 10 0 0 ?h0 "fst ?a" "snd ?a"] a
    by (cases "fst ?a") (simp_all add: sample_take_def)
  have s2: "lease_step ?be ''p'' \<lparr>lh_world = snd ?a, lh_issued = [projr (fst ?a)], lh_released = []\<rparr> sample_history"
    using step_acquire [of ?be "''p''" "''r''" "''b''" 10 20 20
        "\<lparr>lh_world = snd ?a, lh_issued = [projr (fst ?a)], lh_released = []\<rparr>" "fst ?b" "snd ?b"] b
    by (cases "fst ?b") (simp_all add: sample_take_def sample_history_def case_prod_beta Let_def)
  show ?thesis by (rule reachable_next [OF reachable_next [OF reachable_start s1] s2])
qed

theorem fenced_writer_is_unique_witness:
  "map wl_fence (lh_issued sample_history) = [1, 2] \<and>
   assertFencedWriterLease (localFileLeaseBackend Some) ''p'' (hd (lh_issued sample_history)) 25
     (lw_store (lh_world sample_history)) = Some (LeaseFenced ''r'' ''a'' 1)"
proof
  show "map wl_fence (lh_issued sample_history) = [1, 2]" by code_simp
  have i: "lh_issued sample_history ! 1 \<in> set (lh_issued sample_history)"
    and v: "assertFencedWriterLease (localFileLeaseBackend Some) ''p'' (lh_issued sample_history ! 1) 25
      (lw_store (lh_world sample_history)) = None"
    and o: "hd (lh_issued sample_history) \<in> set (lh_issued sample_history)"
      "hd (lh_issued sample_history) \<noteq> lh_issued sample_history ! 1"
      "hd (lh_issued sample_history) = \<lparr>wl_resource = ''r'', wl_owner = ''a'', wl_fence = 1, wl_expires = 10\<rparr>"
    by code_simp+
  from fenced_writer_is_unique [OF sample_history_reachable i _ v] o
  show "assertFencedWriterLease (localFileLeaseBackend Some) ''p'' (hd (lh_issued sample_history)) 25
     (lw_store (lh_world sample_history)) = Some (LeaseFenced ''r'' ''a'' 1)" by auto
qed

text \<open>One protected write on the file backend, with the lock free: a corrupt record stops it and
  nothing is written; a live lease stops it as busy and nothing is written; otherwise the callback
  runs with the next fence while its record is stored, and if it leaves that record alone the result
  is the callback's (or the fencing error when the lease expired meanwhile), the record keeps the new
  fence with its expiry cleared, so the next writer is admitted at once.\<close>

theorem protected_write_contract:
  fixes fn :: "lease \<Rightarrow> file_store lease_world \<Rightarrow> (lease_error + 'b) \<times> file_store lease_world"
    and opts t1 t2 t3 w safe
  defines "be \<equiv> localFileLeaseBackend safe"
  defines "res \<equiv> withFencedWriterLeaseSync be opts fn t1 t2 t3 w"
  assumes valid: "validateLeaseOptions opts = Inr (r, ow, ttl)"
    and interval: "validateRenewalInterval (lo_renew_every opts) ttl = None"
    and free: "leaseLockId r \<notin> set (fb_held (lw_store w))" and path: "safe (lo_path opts) \<noteq> None"
    and clock: "t2 < t1 + ttl"
  shows "case lb_read be (lo_path opts) (lw_store w) of
      Inl e \<Rightarrow> (\<exists>x. fst res = Inl (LeaseCorrupt x)) \<and> fb_files (lw_store (snd res)) = fb_files (lw_store w)
    | Inr cur \<Rightarrow>
        (if (\<exists>c. cur = Some c \<and> t1 < wl_expires c)
         then fst res = Inl (LeaseBusy r (wl_owner (the cur)) (wl_fence (the cur))) \<and>
              fb_files (lw_store (snd res)) = fb_files (lw_store w)
         else
           (let l = \<lparr>wl_resource = r, wl_owner = ow,
                  wl_fence = (case cur of Some c \<Rightarrow> wl_fence c | None \<Rightarrow> 0) + 1, wl_expires = t1 + ttl\<rparr>
            in \<exists>w1. lb_read be (lo_path opts) (lw_store w1) = Inr (Some l) \<and>
                 leaseLockId r \<in> set (fb_held (lw_store w1)) \<and>
                 (lb_read be (lo_path opts) (lw_store (snd (fn l w1))) = Inr (Some l) \<longrightarrow>
                    fst res = (case fst (fn l w1) of Inl e \<Rightarrow> Inl e
                      | Inr a \<Rightarrow> if t3 < t1 + ttl then Inr a else Inl (LeaseFenced r ow (wl_fence l))) \<and>
                    lb_read be (lo_path opts) (lw_store (snd res)) = Inr (Some (l\<lparr>wl_expires := 0\<rparr>)))))"
proof -
  let ?p = "lo_path opts"
  let ?w0 = "w\<lparr>lw_store := (lw_store w)\<lparr>fb_held := leaseLockId r # fb_held (lw_store w)\<rparr>\<rparr>"
  let ?body = "\<lambda>w. case acquire_lease be ?p r ow ttl t1 t2 w of
      (Inl e, w') \<Rightarrow> (Inl e, w') | (Inr l, w') \<Rightarrow> finish_callback be ?p l t3 (fn l w')"
  have lock: "lb_lock be (leaseLockId r) (lw_store w) = Inr (lw_store ?w0)"
    using free by (simp add: be_def localFileLeaseBackend_def)
  have res: "res = (fst (?body ?w0), (snd (?body ?w0))\<lparr>lw_store := lb_unlock be (leaseLockId r) (lw_store (snd (?body ?w0)))\<rparr>)"
    using lock by (simp add: res_def withFencedWriterLeaseSync_def valid interval with_lock_def case_prod_beta)
  have read0: "lb_read be q (lw_store ?w0) = lb_read be q (lw_store w)" for q
    unfolding be_def by (rule file_lease.lock_read [OF lock [unfolded be_def]])
  have unlock: "lb_read be q (lb_unlock be n s) = lb_read be q s" "fb_files (lb_unlock be n s) = fb_files s" for q n s
    using file_lease.unlock_read by (auto simp: be_def localFileLeaseBackend_def)
  show ?thesis
  proof (cases "lb_read be ?p (lw_store w)")
    case (Inl e)
    with path have "e = CatalogInvalid"
      by (auto simp: be_def localFileLeaseBackend_def split: option.splits lease_file.splits if_splits)
    with Inl read0 have "?body ?w0 = (Inl (LeaseCorrupt ''invalid lease''), ?w0)"
      by (simp add: acquire_lease_def readLease_def)
    with Inl show ?thesis by (simp add: res unlock)
  next
    case (Inr cur)
    have rd: "readLease be ?p (lw_store ?w0) = Inr cur" using Inr read0 by (simp add: readLease_def)
    show ?thesis
    proof (cases "\<exists>c. cur = Some c \<and> t1 < wl_expires c")
      case True
      then obtain c where c: "cur = Some c" "t1 < wl_expires c" by blast
      then have "?body ?w0 = (Inl (LeaseBusy r (wl_owner c) (wl_fence c)),
          emitEvent (EvRejected r ''live lease held by another owner'') ?w0)"
        using rd by (simp add: acquire_lease_def Let_def)
      with Inr c show ?thesis by (simp add: res unlock emitEvent_def)
    next
      case False
      define l where "l = \<lparr>wl_resource = r, wl_owner = ow,
          wl_fence = (case cur of Some c \<Rightarrow> wl_fence c | None \<Rightarrow> 0) + 1, wl_expires = t1 + ttl\<rparr>"
      have schema: "lease_schema_ok l" "lease_schema_ok (l\<lparr>wl_expires := 0\<rparr>)"
        using valid by (auto simp: validateLeaseOptions_def Let_def lease_schema_ok_def l_def
            split: if_splits js_number.splits)
      from path obtain q where q: "safe ?p = Some q" by blast
      have wr: "lb_write be ?p x s = Inr (s\<lparr>fb_files := AList.update q (Record x) (fb_files s)\<rparr>)"
        if "lease_schema_ok x" for x s using that q by (simp add: be_def localFileLeaseBackend_def)
      define s1 where "s1 = (lw_store ?w0)\<lparr>fb_files := AList.update q (Record l) (fb_files (lw_store ?w0))\<rparr>"
      define w1 where "w1 = emitEvent (Acquired l) (?w0\<lparr>lw_store := s1\<rparr>)"
      have read1: "lb_read be ?p s1 = Inr (Some l)"
        using q schema(1) by (simp add: s1_def be_def localFileLeaseBackend_def map_of_update_eq)
      have exp: "wl_expires l = t1 + ttl" "wl_resource l = r" "wl_owner l = ow" by (simp_all add: l_def)
      have ass1: "assertFencedWriterLease be ?p l t2 s1 = None"
        using read1 clock exp by (simp add: assertFencedWriterLease_def readLease_def)
      have wr1: "lb_write be ?p l (lw_store ?w0) = Inr s1" by (simp only: wr [OF schema(1)] s1_def)
      have "write_checked be ?p l t2 Acquired ?w0 = (Inr l, w1)"
        unfolding write_checked_def wr1 Let_def sum.case by (simp only: ass1 option.case w1_def)
      then have acq: "acquire_lease be ?p r ow ttl t1 t2 ?w0 = (Inr l, w1)"
        unfolding acquire_lease_def rd sum.case Let_def l_def [symmetric] using False by (auto split: option.split)
      have fin: "fst res = (case fst (fn l w1) of Inl e \<Rightarrow> Inl e
            | Inr a \<Rightarrow> if t3 < t1 + ttl then Inr a else Inl (LeaseFenced r ow (wl_fence l))) \<and>
          lb_read be ?p (lw_store (snd res)) = Inr (Some (l\<lparr>wl_expires := 0\<rparr>))"
        if kept: "lb_read be ?p (lw_store (snd (fn l w1))) = Inr (Some l)"
      proof -
        have rel: "fst (release_lease be ?p l x (snd (fn l w1))) = x" for x :: "lease_error + 'b"
          using kept wr [OF schema(2)] by (simp add: release_lease_def readLease_def)
        have store: "lb_read be ?p (lw_store (snd (release_lease be ?p l x (snd (fn l w1))))) =
            Inr (Some (l\<lparr>wl_expires := 0\<rparr>))" for x :: "lease_error + 'b"
          using kept wr [OF schema(2)] q schema(2)
          by (simp add: release_lease_def readLease_def emitEvent_def)
             (simp add: be_def localFileLeaseBackend_def map_of_update_eq)
        have asr: "assertFencedWriterLease be ?p l t3 (lw_store (snd (fn l w1))) =
            (if t3 < t1 + ttl then None else Some (LeaseFenced r ow (wl_fence l)))"
          using kept exp by (simp add: assertFencedWriterLease_def readLease_def)
        have "?body ?w0 = finish_callback be ?p l t3 (fn l w1)" using acq by simp
        moreover have "finish_callback be ?p l t3 (fn l w1) =
            release_lease be ?p l (case fst (fn l w1) of Inl e \<Rightarrow> Inl e
            | Inr a \<Rightarrow> if t3 < t1 + ttl then Inr a else Inl (LeaseFenced r ow (wl_fence l))) (snd (fn l w1))"
          using asr by (cases "fn l w1"; cases "fst (fn l w1)") (simp_all add: finish_callback_def)
        ultimately show ?thesis using store rel by (simp add: res unlock)
      qed
      have "lb_read be ?p (lw_store w1) = Inr (Some l)" "leaseLockId r \<in> set (fb_held (lw_store w1))"
        using read1 by (simp_all add: w1_def emitEvent_def s1_def)
      with fin show ?thesis
        unfolding Inr sum.case if_not_P [OF False] Let_def l_def [symmetric] by blast
    qed
  qed
qed

definition sample_write :: "file_store lease_world \<Rightarrow> (lease_error + nat) \<times> file_store lease_world" where
  "sample_write w = withFencedWriterLeaseSync (localFileLeaseBackend Some)
     \<lparr>lo_resource = ''r'', lo_owner = ''a'', lo_path = ''p'', lo_ttl = None, lo_renew_every = None\<rparr>
     (\<lambda>l w. (Inr (wl_fence l), w)) 5 6 7 w"

theorem protected_write_contract_witness:
  "fst (sample_write sample_world) = Inr 1 \<and> fst (sample_write (snd (sample_write sample_world))) = Inr 2 \<and>
   leaseLockId ''r'' \<notin> set (fb_held (lw_store sample_world))"
proof (intro conjI)
  let ?o = "\<lparr>lo_resource = ''r'', lo_owner = ''a'', lo_path = ''p'', lo_ttl = None, lo_renew_every = None\<rparr>"
  have v: "validateLeaseOptions ?o = Inr (''r'', ''a'', 30000)"
    and i: "validateRenewalInterval (lo_renew_every ?o) 30000 = None" by code_simp+
  show f: "leaseLockId ''r'' \<notin> set (fb_held (lw_store sample_world))" by code_simp
  have empty: "lb_read (localFileLeaseBackend Some) ''p'' (lw_store sample_world) = Inr None" by code_simp
  from protected_write_contract [OF v i f, of Some 6 5 "\<lambda>l w. (Inr (wl_fence l), w)" 7]
  show "fst (sample_write sample_world) = Inr 1"
    using empty by (auto simp: sample_write_def Let_def)
  show "fst (sample_write (snd (sample_write sample_world))) = Inr 2" by code_simp
qed

end
