(* ===== verification/Input_Queue_Props.thy ===== *)
theory Input_Queue_Props
  imports Input_Queue
begin

text \<open>
  What the input queue guarantees: a line of the log without a dangerous key is read back as it was written, compaction
  does not change the queue, and over every history of operations without such keys each durable input is active,
  delivered or cancelled, exactly once. One input with such a key makes every later read fail.
\<close>

section \<open>Round trip of the lines\<close>

lemma js_trim_idem [simp]: "js_trim (js_trim s) = js_trim s"
proof -
  have dw: "dropWhile p (dropWhile p xs) = dropWhile p xs" for p and xs :: string
    by (induction xs) auto
  have front: "dropWhile p (rev (dropWhile p (rev (dropWhile p xs)))) = rev (dropWhile p (rev (dropWhile p xs)))"
    for p and xs :: string
  proof (cases "dropWhile p xs")
    case (Cons y ys)
    then have "\<not> p y" by (metis hd_dropWhile list.distinct(1) list.sel(1))
    have "\<exists>zs. dropWhile p (rev (y # ys)) = zs @ [y]"
      using \<open>\<not> p y\<close> by (simp add: dropWhile_append3 dropWhile_append)
    then obtain zs where "dropWhile p (rev (y # ys)) = zs @ [y]" by blast
    with Cons \<open>\<not> p y\<close> show ?thesis by simp
  next
    case Nil
    then show ?thesis unfolding Nil by simp
  qed
  show ?thesis unfolding js_trim_def front rev_rev_ident dw ..
qed

definition wf_entry :: "queue_entry \<Rightarrow> bool" where
  "wf_entry e \<longleftrightarrow> qe_id e \<noteq> [] \<and> qe_mission e \<noteq> [] \<and> qe_text e \<noteq> [] \<and> qe_enqueued_at e \<noteq> [] \<and>
    (case qe_metadata e of None \<Rightarrow> True | Some m \<Rightarrow> validateMetadata m = Inr m) \<and>
    (case qe_scope e of None \<Rightarrow> True
     | Some s \<Rightarrow> s \<noteq> [] \<and> list_all (\<lambda>(k, v). k \<in> {''taskId'', ''agentId'', ''sessionId''} \<and> v \<noteq> [] \<and> js_trim v = v) s)"

definition wf_record :: "queue_record \<Rightarrow> bool" where
  "wf_record r \<longleftrightarrow> (case r of Enqueued e ts \<Rightarrow> wf_entry e \<and> ts \<noteq> [] | Ended k i ts \<Rightarrow> i \<noteq> [] \<and> ts \<noteq> [])"

lemma validateDelivery_text [simp]: "validateDelivery (delivery_text m) = Inr m"
  by (cases m) (simp_all add: validateDelivery_def delivery_text_def)

lemma scope_roundtrip:
  assumes "list_all (\<lambda>(k, v). k \<in> {''taskId'', ''agentId'', ''sessionId''} \<and> v \<noteq> [] \<and> js_trim v = v) s"
  shows "validate_scope_entries (map (\<lambda>(k, v). (k, JStr v)) s) = Inr s"
  using assms by (induction s) auto

lemma validateMetadata_ok: "validateMetadata m = Inr m \<Longrightarrow> list_all (\<lambda>(k, v). is_scalar v) m"
  by (auto simp: validateMetadata_def list_ex_iff_ex_set list_all_iff split: if_splits)

lemma entry_json_get:
  "jget (entry_json e) ''id'' = JStr (qe_id e)"
  "jget (entry_json e) ''mission_id'' = JStr (qe_mission e)"
  "jget (entry_json e) ''delivery'' = JStr (delivery_text (qe_delivery e))"
  "jget (entry_json e) ''text'' = JStr (qe_text e)"
  "jget (entry_json e) ''enqueued_at'' = JStr (qe_enqueued_at e)"
  "jget (entry_json e) ''metadata'' = (case qe_metadata e of None \<Rightarrow> JUndef | Some m \<Rightarrow> JObj m)"
  "jget (entry_json e) ''scope'' = (case qe_scope e of None \<Rightarrow> JUndef | Some s \<Rightarrow> JObj (map (\<lambda>(k, v). (k, JStr v)) s))"
  by (cases "qe_metadata e"; cases "qe_scope e"; simp add: entry_json_def jget_def)+

lemma entry_json_schema:
  assumes "wf_entry e"
  shows "entry_schema (entry_json e)"
proof -
  have keys: "\<exists>kvs. entry_json e = JObj kvs \<and>
      set (map fst kvs) \<subseteq> {''id'', ''mission_id'', ''delivery'', ''text'', ''enqueued_at'', ''metadata'', ''scope''}"
    by (cases "qe_metadata e"; cases "qe_scope e") (simp_all add: entry_json_def)
  then obtain kvs where kvs: "entry_json e = JObj kvs"
    "set (map fst kvs) \<subseteq> {''id'', ''mission_id'', ''delivery'', ''text'', ''enqueued_at'', ''metadata'', ''scope''}"
    by blast
  have d: "jget (entry_json e) ''delivery'' \<in> set (map (JStr \<circ> delivery_text) [Steer, FollowUp, NextRun, Inject])"
    by (cases "qe_delivery e") (simp_all add: entry_json_get)
  have m: "opt_object_schema (\<lambda>(k, v). is_scalar v) (jget (entry_json e) ''metadata'')"
    using assms validateMetadata_ok by (auto simp: entry_json_get opt_object_schema_def wf_entry_def split: option.splits)
  have sc: "opt_object_schema (\<lambda>(k, v). k \<in> {''taskId'', ''agentId'', ''sessionId''} \<and> nonempty_str v)
      (jget (entry_json e) ''scope'')"
  proof (cases "qe_scope e")
    case (Some s)
    with assms have "list_all (\<lambda>(k, v). k \<in> {''taskId'', ''agentId'', ''sessionId''} \<and> v \<noteq> [] \<and> js_trim v = v) s"
      by (simp add: wf_entry_def)
    then have "list_all (\<lambda>(k, v). k \<in> {''taskId'', ''agentId'', ''sessionId''} \<and> nonempty_str v)
        (map (\<lambda>(k, v). (k, JStr v)) s)"
      by (induction s) (simp_all add: nonempty_str_def case_prod_beta)
    then show ?thesis by (simp add: entry_json_get opt_object_schema_def Some)
  qed (simp add: entry_json_get opt_object_schema_def)
  have t: "list_all (\<lambda>k. nonempty_str (jget (entry_json e) k)) [''id'', ''mission_id'', ''text'', ''enqueued_at'']"
    using assms by (simp add: entry_json_get nonempty_str_def wf_entry_def)
  from d m sc t kvs(2) show ?thesis unfolding entry_schema_def kvs(1) json.case by blast
qed

lemma parse_entry_json:
  assumes "wf_entry e"
  shows "parse_entry (entry_json e) = Inr e"
proof -
  have md: "(case obj_entries (jget (entry_json e) ''metadata'') of None \<Rightarrow> Inr None
      | Some md \<Rightarrow> (case validateMetadata md of Inl err \<Rightarrow> Inl err | Inr x \<Rightarrow> Inr (Some x))) = Inr (qe_metadata e)"
    using assms by (auto simp: entry_json_get obj_entries_def wf_entry_def split: option.splits)
  have sc: "(case obj_entries (jget (entry_json e) ''scope'') of None \<Rightarrow> Inr None | Some sc \<Rightarrow> validateScope sc) =
      Inr (qe_scope e)"
    using assms scope_roundtrip
    by (auto simp: entry_json_get obj_entries_def wf_entry_def validateScope_def split: option.splits)
  show ?thesis unfolding parse_entry_def md sc by (simp add: entry_json_get json_str_def)
qed

lemma line_roundtrip:
  assumes "wf_record r"
  shows "parseRecord (record_json r) = Inr r"
proof (cases r)
  case (Enqueued e ts)
  with assms have wf: "wf_entry e" "ts \<noteq> []" by (simp_all add: wf_record_def)
  have g: "jget (record_json r) ''kind'' = JStr ''enqueued''" "jget (record_json r) ''entry'' = entry_json e"
    "jget (record_json r) ''recorded_at'' = JStr ts" by (simp_all add: Enqueued record_json_def jget_def)
  have "record_schema (record_json r)"
    using entry_json_schema [OF wf(1)] wf(2) g
    by (simp add: record_schema_def record_json_def Enqueued nonempty_str_def)
  then show ?thesis
    unfolding parseRecord_def g json_str_def using parse_entry_json [OF wf(1)] by (simp add: Enqueued)
next
  case (Ended k i ts)
  with assms have wf: "i \<noteq> []" "ts \<noteq> []" by (simp_all add: wf_record_def)
  have g: "jget (record_json r) ''kind'' = JStr (kind_text k)" "jget (record_json r) ''entry_id'' = JStr i"
    "jget (record_json r) ''recorded_at'' = JStr ts" by (simp_all add: Ended record_json_def jget_def)
  have "record_schema (record_json r)"
    using wf g by (cases k) (simp_all add: record_schema_def record_json_def Ended nonempty_str_def kind_text_def)
  then show ?thesis
    unfolding parseRecord_def g json_str_def by (cases k) (simp_all add: Ended kind_text_def)
qed


text \<open>The only free keys of a line are those of the metadata, so these decide whether a reader takes it.\<close>

definition safe_metadata :: "queue_metadata option \<Rightarrow> bool" where
  "safe_metadata md = (case md of None \<Rightarrow> True | Some m \<Rightarrow> list_all (\<lambda>(k, v). k \<notin> set JSON_DANGEROUS_KEYS) m)"

definition safe_record :: "queue_record \<Rightarrow> bool" where
  "safe_record r = (case r of Enqueued e ts \<Rightarrow> safe_metadata (qe_metadata e) | Ended k i ts \<Rightarrow> True)"

lemma scalar_safe: "is_scalar v \<Longrightarrow> isSafeJsonValue v"
  by (cases v) (simp_all add: is_scalar_def)

lemma scalars_safe:
  "list_all (\<lambda>(k, v). is_scalar v) m \<Longrightarrow>
   isSafeJsonValue (JObj m) = list_all (\<lambda>(k, v). k \<notin> set JSON_DANGEROUS_KEYS) m"
  by (induction m) (auto simp: scalar_safe)

lemma scope_safe:
  "list_all (\<lambda>(k, v). k \<in> {''taskId'', ''agentId'', ''sessionId''} \<and> v \<noteq> [] \<and> js_trim v = v) s \<Longrightarrow>
   isSafeJsonValue (JObj (map (\<lambda>(k, v). (k, JStr v)) s))"
  by (induction s) (auto simp: JSON_DANGEROUS_KEYS_def)

lemma entry_json_safe:
  assumes "wf_entry e"
  shows "isSafeJsonValue (entry_json e) = safe_metadata (qe_metadata e)"
proof -
  have s: "case qe_scope e of None \<Rightarrow> True | Some s \<Rightarrow> isSafeJsonValue (JObj (map (\<lambda>(k, v). (k, JStr v)) s))"
    using assms scope_safe by (auto simp: wf_entry_def simp del: isSafeJsonValue.simps split: option.splits)
  have m: "case qe_metadata e of None \<Rightarrow> True
      | Some m \<Rightarrow> isSafeJsonValue (JObj m) = list_all (\<lambda>(k, v). k \<notin> set JSON_DANGEROUS_KEYS) m"
    using assms scalars_safe validateMetadata_ok
    by (auto simp: wf_entry_def simp del: isSafeJsonValue.simps split: option.splits)
  have fixed: "k \<notin> set JSON_DANGEROUS_KEYS"
    if "k \<in> {''id'', ''mission_id'', ''delivery'', ''text'', ''enqueued_at'', ''metadata'', ''scope''}" for k
    using that by (auto simp: JSON_DANGEROUS_KEYS_def)
  have obj: "isSafeJsonValue (JObj (xs @ ys)) = (isSafeJsonValue (JObj xs) \<and> isSafeJsonValue (JObj ys))" for xs ys
    by simp
  show ?thesis
    using s m fixed unfolding entry_json_def obj
    by (cases "qe_metadata e"; cases "qe_scope e") (simp_all add: safe_metadata_def)
qed

lemma record_json_safe:
  assumes "wf_record r"
  shows "isSafeJsonValue (record_json r) = safe_record r"
proof (cases r)
  case (Enqueued e ts)
  with assms show ?thesis using entry_json_safe [of e]
    by (simp add: wf_record_def safe_record_def record_json_def JSON_DANGEROUS_KEYS_def)
qed (simp add: safe_record_def record_json_def JSON_DANGEROUS_KEYS_def)

lemma read_line_record:
  assumes "wf_record r"
  shows "read_line (Some (record_json r)) = (if safe_record r then Inr r else Inl CorruptRecord)"
  using line_roundtrip [OF assms] record_json_safe [OF assms] by (simp add: read_line_def)

lemma read_lines_append:
  "read_lines (f @ g) = (case read_lines f of Inl e \<Rightarrow> Inl e
     | Inr rs \<Rightarrow> (case read_lines g of Inl e \<Rightarrow> Inl e | Inr rs' \<Rightarrow> Inr (rs @ rs')))"
  by (induction f) (auto split: sum.splits)

text \<open>C40. What a read of the durable log makes of a line that was written: after the lines before it, the
  line of a record with non-empty texts, valid metadata and a normalised scope is read back exactly as
  that record, unless a metadata key of the record is \<open>__proto__\<close>, \<open>constructor\<close> or
  \<open>prototype\<close>; then the read of the whole log fails, because the safe JSON check of the reader
  refuses the line that the writer accepted. (Enqueuing writes only records of this form.)\<close>

theorem log_line_roundtrip:
  assumes "wf_record r" and "read_lines f = Inr rs"
  shows "read_lines (f @ [Some (record_json r)]) = (if safe_record r then Inr (rs @ [r]) else Inl CorruptRecord)"
  using assms by (simp add: read_lines_append read_line_record)

section \<open>Views\<close>

definition view_ok :: "queue_view \<Rightarrow> bool" where
  "view_ok v \<longleftrightarrow> distinct (map fst (qv_active v) @ qv_consumed v @ qv_cleared v)"

lemma view_has_iff: "view_has v i \<longleftrightarrow> i \<in> fst ` set (qv_active v)"
  by (simp add: view_has_def map_of_eq_None_iff)

lemma update_new: "i \<notin> fst ` set m \<Longrightarrow> AList.update i x m = m @ [(i, x)]"
  by (induction m) auto

lemma delete_filter: "AList.delete i m = filter (\<lambda>p. fst p \<noteq> i) m"
  by (auto simp: AList.delete_eq case_prod_beta' intro: filter_cong)

lemma delete_keys: "map fst (AList.delete i m) = filter (\<lambda>k. k \<noteq> i) (map fst m)"
  by (simp add: delete_filter filter_map comp_def)

lemma distinct_end:
  "distinct (K @ C @ L) \<Longrightarrow> i \<in> set K \<Longrightarrow> distinct (filter (\<lambda>k. k \<noteq> i) K @ (C @ [i]) @ L)"
  "distinct (K @ C @ L) \<Longrightarrow> i \<in> set K \<Longrightarrow> distinct (filter (\<lambda>k. k \<noteq> i) K @ C @ L @ [i])"
  by auto

lemma distinct_start:
  "distinct (K @ C @ L) \<Longrightarrow> i \<notin> set K \<Longrightarrow> i \<notin> set C \<Longrightarrow> i \<notin> set L \<Longrightarrow> distinct ((K @ [i]) @ C @ L)"
  by auto

lemma view_has_keys: "view_has v i \<longleftrightarrow> i \<in> set (map fst (qv_active v))"
  by (simp add: view_has_iff)

lemma reduce_record_ok:
  assumes ok: "view_ok v" and r: "reduce_record r v = Inr v'"
  shows "view_ok v'"
proof (cases r)
  case (Enqueued e ts)
  with r have n: "qe_id e \<notin> set (map fst (qv_active v))" "qe_id e \<notin> set (qv_consumed v)" "qe_id e \<notin> set (qv_cleared v)"
    and v': "v' = v\<lparr>qv_active := AList.update (qe_id e) e (qv_active v)\<rparr>"
    by (auto simp: reduce_record_def view_has_keys simp del: set_map split: if_splits)
  have "AList.update (qe_id e) e (qv_active v) = qv_active v @ [(qe_id e, e)]"
    using n(1) by (intro update_new) simp
  with distinct_start [OF ok [unfolded view_ok_def] n] show ?thesis by (simp add: v' view_ok_def)
next
  case (Ended k i ts)
  with r have i: "i \<in> set (map fst (qv_active v))"
    by (auto simp: reduce_record_def view_has_keys simp del: set_map split: record_kind.splits if_splits)
  show ?thesis
  proof (cases k)
    case KConsumed
    with r Ended i have "v' = v\<lparr>qv_active := AList.delete i (qv_active v), qv_consumed := qv_consumed v @ [i]\<rparr>"
      by (auto simp: reduce_record_def split: if_splits)
    with distinct_end(1) [OF ok [unfolded view_ok_def] i] show ?thesis by (simp add: view_ok_def delete_keys del: distinct_append)
  next
    case KCancelled
    with r Ended i have "v' = v\<lparr>qv_active := AList.delete i (qv_active v), qv_cleared := qv_cleared v @ [i]\<rparr>"
      by (auto simp: reduce_record_def split: if_splits)
    with distinct_end(2) [OF ok [unfolded view_ok_def] i] show ?thesis by (simp add: view_ok_def delete_keys del: distinct_append)
  qed
qed

lemma reduce_from_append:
  "reduce_from (rs @ rs') v = (case reduce_from rs v of Inl e \<Rightarrow> Inl e | Inr v' \<Rightarrow> reduce_from rs' v')"
  by (induction rs arbitrary: v) (auto split: sum.splits)

lemma reduce_from_ok: "view_ok v \<Longrightarrow> reduce_from rs v = Inr v' \<Longrightarrow> view_ok v'"
proof (induction rs arbitrary: v)
  case (Cons r rs)
  then show ?case using reduce_record_ok by (auto split: sum.splits)
qed simp

text \<open>An ended identifier stays ended.\<close>

definition ended_in :: "ident \<Rightarrow> queue_view \<Rightarrow> bool" where
  "ended_in i v \<longleftrightarrow> i \<in> set (qv_consumed v) \<union> set (qv_cleared v)"

lemma ended_step: "reduce_record r v = Inr v' \<Longrightarrow> ended_in i v \<Longrightarrow> ended_in i v'"
  by (auto simp: reduce_record_def ended_in_def split: queue_record.splits record_kind.splits if_splits)

lemma ended_from: "reduce_from rs v = Inr v' \<Longrightarrow> ended_in i v \<Longrightarrow> ended_in i v'"
  by (induction rs arbitrary: v) (auto split: sum.splits intro: ended_step)

lemma ended_record:
  "reduce_from rs v = Inr v' \<Longrightarrow> Ended k i ts \<in> set rs \<Longrightarrow> ended_in i v'"
proof (induction rs arbitrary: v)
  case (Cons r rs)
  from Cons.prems(1) obtain w where w: "reduce_record r v = Inr w" "reduce_from rs w = Inr v'"
    by (auto split: sum.splits)
  show ?case
  proof (cases "r = Ended k i ts")
    case True
    with w(1) have "ended_in i w"
      by (auto simp: reduce_record_def ended_in_def split: record_kind.splits if_splits)
    with w(2) show ?thesis by (rule ended_from)
  qed (use Cons w in auto)
qed simp

section \<open>Compaction\<close>

definition restrict :: "ident set \<Rightarrow> queue_view \<Rightarrow> queue_view" where
  "restrict D v = \<lparr>qv_active = filter (\<lambda>p. fst p \<notin> D) (qv_active v),
     qv_consumed = filter (\<lambda>i. i \<notin> D) (qv_consumed v), qv_cleared = filter (\<lambda>i. i \<notin> D) (qv_cleared v)\<rparr>"

lemma filter_keys_commute: "AList.delete i (filter (\<lambda>p. fst p \<notin> D) m) = filter (\<lambda>p. fst p \<notin> D) (AList.delete i m)"
  by (simp add: delete_filter conj_commute)

lemma has_restrict: "i \<notin> D \<Longrightarrow> view_has (restrict D v) i = view_has v i"
  by (auto simp: view_has_iff restrict_def)

lemma restrict_keep:
  assumes "reduce_record r v = Inr v'" and "record_id r \<notin> D"
  shows "reduce_record r (restrict D v) = Inr (restrict D v')"
proof (cases r)
  case (Enqueued e ts)
  with assms have new: "\<not> view_has v (qe_id e)" "qe_id e \<notin> set (qv_consumed v)" "qe_id e \<notin> set (qv_cleared v)"
    "v' = v\<lparr>qv_active := AList.update (qe_id e) e (qv_active v)\<rparr>" "qe_id e \<notin> D"
    by (auto simp: reduce_record_def record_id_def split: if_splits)
  have fresh: "qe_id e \<notin> fst ` set (qv_active v)" "qe_id e \<notin> fst ` set (filter (\<lambda>p. fst p \<notin> D) (qv_active v))"
    using new(1) by (auto simp: view_has_iff)
  show ?thesis
    using new has_restrict [OF new(5)] update_new [OF fresh(1)] update_new [OF fresh(2)]
    by (simp add: reduce_record_def Enqueued) (simp add: restrict_def)
next
  case (Ended k i ts)
  with assms show ?thesis
    using has_restrict [of i D v]
    by (cases k) (auto simp: reduce_record_def record_id_def restrict_def filter_keys_commute split: if_splits)
qed

lemma restrict_skip:
  assumes "reduce_record r v = Inr v'" and "record_id r \<in> D"
  shows "restrict D v' = restrict D v"
proof (cases r)
  case (Enqueued e ts)
  with assms have "qe_id e \<notin> fst ` set (qv_active v)" "v' = v\<lparr>qv_active := AList.update (qe_id e) e (qv_active v)\<rparr>"
    "qe_id e \<in> D" by (auto simp: reduce_record_def record_id_def view_has_iff split: if_splits)
  then show ?thesis by (simp add: restrict_def update_new)
next
  case (Ended k i ts)
  have "filter (\<lambda>p. fst p \<notin> D) (AList.delete i (qv_active v)) = filter (\<lambda>p. fst p \<notin> D) (qv_active v)" if "i \<in> D"
    using that by (auto simp: delete_filter intro: filter_cong)
  with Ended assms show ?thesis
    by (cases k) (auto simp: reduce_record_def record_id_def restrict_def split: if_splits)
qed

lemma reduce_restrict:
  "reduce_from rs v = Inr v' \<Longrightarrow>
   reduce_from (filter (\<lambda>r. record_id r \<notin> D) rs) (restrict D v) = Inr (restrict D v')"
proof (induction rs arbitrary: v)
  case (Cons r rs)
  from Cons.prems obtain w where w: "reduce_record r v = Inr w" "reduce_from rs w = Inr v'"
    by (auto split: sum.splits)
  with Cons.IH [OF w(2)] show ?case
    using restrict_keep [OF w(1)] restrict_skip [OF w(1)] by (cases "record_id r \<in> D") simp_all
qed simp

lemma parse_entry_id:
  "parse_entry j = Inr e \<Longrightarrow> json_str (jget j ''id'') = Some (qe_id e)"
  unfolding parse_entry_def by (auto split: option.splits sum.splits)

lemma parse_record_id:
  assumes "parseRecord j = Inr r"
  shows "queueRecordEntryId j = Some (record_id r)"
proof -
  from assms obtain kind ts where k: "jget j ''kind'' = JStr kind" "json_str (jget j ''recorded_at'') = Some ts"
    unfolding parseRecord_def by (auto split: if_splits json.splits option.splits)
  show ?thesis
  proof (cases "kind = ''enqueued''")
    case True
    with assms k obtain e where "parse_entry (jget j ''entry'') = Inr e" "r = Enqueued e ts"
      by (auto simp: parseRecord_def split: if_splits sum.splits)
    with parse_entry_id True k show ?thesis by (simp add: queueRecordEntryId_def record_id_def)
  next
    case False
    with assms k obtain i knd where "json_str (jget j ''entry_id'') = Some i" "r = Ended knd i ts"
      by (auto simp: parseRecord_def split: if_splits option.splits)
    with False k show ?thesis by (simp add: queueRecordEntryId_def record_id_def)
  qed
qed

lemma read_rewrite:
  "read_lines f = Inr rs \<Longrightarrow> read_lines (rewrite_lines dr f) = Inr (filter (\<lambda>r. record_id r \<notin> set dr) rs)"
proof (induction f arbitrary: rs)
  case (Cons l f)
  from Cons.prems obtain j r rs' where l: "l = Some j" "isSafeJsonValue j" "parseRecord j = Inr r"
    "read_lines f = Inr rs'" "rs = r # rs'"
    by (auto simp: read_line_def split: option.splits sum.splits if_splits)
  with Cons.IH [OF l(4)] parse_record_id [OF l(3)] show ?case by (simp add: rewrite_lines_def read_line_def)
qed (simp add: rewrite_lines_def)

lemma droppable_ended:
  assumes "i \<in> set (terminalEntryIdsBefore pt rs cutoff)"
  shows "\<exists>k ts. Ended k i ts \<in> set rs"
proof -
  from assms obtain r where r: "r \<in> set rs" "i = record_id r"
    "case r of Enqueued _ _ \<Rightarrow> False | Ended _ _ ts \<Rightarrow> (case pt ts of Some t \<Rightarrow> t < cutoff | None \<Rightarrow> False)"
    by (auto simp: terminalEntryIdsBefore_def)
  show ?thesis
  proof (cases r)
    case (Ended k j ts)
    with r(1,2) show ?thesis by (auto simp: record_id_def)
  qed (use r(3) in simp)
qed

lemma compaction_view:
  assumes "dl_parked d = []" and "readDurableState d = Inr v"
    and "compactDurableQueue sz pt mb hz now (n0, d) = (n1, d')"
  shows "\<exists>D v'. readDurableState d' = Inr v' \<and> qv_active v' = qv_active v \<and>
    qv_consumed v' = filter (\<lambda>i. i \<notin> D) (qv_consumed v) \<and> qv_cleared v' = filter (\<lambda>i. i \<notin> D) (qv_cleared v) \<and>
    D \<subseteq> set (qv_consumed v) \<union> set (qv_cleared v)"
proof (cases "d' = d")
  case True
  with assms(2) show ?thesis by (intro exI [of _ "{}"] exI [of _ v]) simp
next
  case False
  from assms(3) False assms(1) obtain rs where rs: "readDurableRecords d = Inr rs"
    by (auto simp: compactDurableQueue_def Let_def split: sum.splits if_splits)
  define dr where "dr = terminalEntryIdsBefore pt rs (now - hz)"
  from assms(3) False assms(1) rs have d': "d' = d\<lparr>dl_live := Some (rewrite_lines dr (live_lines d))\<rparr>"
    by (auto simp: compactDurableQueue_def Let_def dr_def split: if_splits)
  have lines: "read_lines (live_lines d) = Inr rs" using rs assms(1) by (simp add: readDurableRecords_def)
  have red: "reduce_from rs empty_view = Inr v"
    using assms(1,2) rs lines
    by (auto simp: readDurableState_def reduceDurableRecords_def live_lines_def split: if_splits)
  have ok: "view_ok v" by (rule reduce_from_ok [OF _ red]) (simp add: view_ok_def empty_view_def)
  have sub: "set dr \<subseteq> set (qv_consumed v) \<union> set (qv_cleared v)"
    using droppable_ended ended_record [OF red] unfolding dr_def ended_in_def by blast
  have "restrict (set dr) empty_view = empty_view" by (simp add: restrict_def empty_view_def)
  with reduce_restrict [OF red, of "set dr"] read_rewrite [OF lines, of dr] assms(1)
  have "readDurableState d' = Inr (restrict (set dr) v)"
    by (simp add: d' readDurableState_def readDurableRecords_def live_lines_def reduceDurableRecords_def)
  moreover have "filter (\<lambda>p. fst p \<notin> set dr) (qv_active v) = qv_active v"
    using ok sub by (auto simp: view_ok_def filter_id_conv)
  ultimately show ?thesis using sub
    by (intro exI [of _ "set dr"] exI [of _ "restrict (set dr) v"]) (simp add: restrict_def)
qed


text \<open>C39. Compaction never changes the queue: when the log can be read and no copies are parked, then whatever the size
  limits, the horizon and the clock, the log after it reduces without an error to the same active entries in the same
  order, and to the consumed and cancelled identifiers of before less some that had ended.\<close>

theorem compaction_keeps_the_queue:
  assumes "dl_parked d = []" and "readDurableState d = Inr v"
    and "compactDurableQueue sz pt mb hz now (n0, d) = (n1, d')"
  shows "\<exists>D v'. readDurableState d' = Inr v' \<and> qv_active v' = qv_active v \<and>
    qv_consumed v' = filter (\<lambda>i. i \<notin> D) (qv_consumed v) \<and> qv_cleared v' = filter (\<lambda>i. i \<notin> D) (qv_cleared v) \<and>
    D \<subseteq> set (qv_consumed v) \<union> set (qv_cleared v)"
  by (rule compaction_view [OF assms])

section \<open>Histories of the durable lane\<close>

text \<open>The lock makes every operation on the log one step. A restart, or another process working on the
  same log, has its own volatile lanes. The identifiers are unique (random UUIDs). The histories are
  those whose inputs carry no dangerous metadata key: one durable input with such a key makes every later
  read fail (\<open>dangerous_key_poisons_the_queue\<close> below).\<close>

record queue_history =
  qh_queue :: input_queue
  qh_enqueued :: "ident list"
  qh_delivered :: "ident list"
  qh_cancelled :: "ident list"

definition env_ok :: "queue_env \<Rightarrow> bool" where
  "env_ok env \<longleftrightarrow> env_now_text env \<noteq> []"

inductive queue_step :: "queue_history \<Rightarrow> queue_history \<Rightarrow> bool" where
  hs_enqueue: "enqueue env uuid inp (qh_queue h) = (res, q) \<Longrightarrow> env_ok env \<Longrightarrow>
    safe_metadata (ei_metadata inp) \<Longrightarrow> uuid \<noteq> [] \<Longrightarrow>
    uuid \<notin> set (qh_enqueued h) \<Longrightarrow>
    queue_step h (h\<lparr>qh_queue := q, qh_enqueued := qh_enqueued h @
      (case res of Inr e \<Rightarrow> if qe_delivery e = NextRun then [uuid] else [] | Inl _ \<Rightarrow> [])\<rparr>)"
| hs_consume: "consume env m n scope (qh_queue h) = (res, q) \<Longrightarrow> env_ok env \<Longrightarrow>
    queue_step h (h\<lparr>qh_queue := q, qh_delivered := qh_delivered h @
      (case res of Inr es \<Rightarrow> if m = NextRun then map qe_id es else [] | Inl _ \<Rightarrow> [])\<rparr>)"
| hs_cancel: "cancelQueued env i (qh_queue h) = (res, q) \<Longrightarrow> env_ok env \<Longrightarrow>
    queue_step h (h\<lparr>qh_queue := q, qh_cancelled := qh_cancelled h @
      (if res = Inr Cancelled \<and> map_of (iq_active (qh_queue h)) (js_trim i) = None then [js_trim i] else [])\<rparr>)"
| hs_restart: "queue_step h (h\<lparr>qh_queue := (qh_queue h)\<lparr>iq_active := a, iq_consumed := c, iq_cleared := d, iq_last_size := k\<rparr>\<rparr>)"

inductive queue_reachable :: "ident \<Rightarrow> queue_history \<Rightarrow> bool" for mission where
  queue_start: "queue_reachable mission
    \<lparr>qh_queue = \<lparr>iq_mission = mission, iq_active = [], iq_consumed = [], iq_cleared = [],
       iq_log = \<lparr>dl_live = None, dl_parked = []\<rparr>, iq_last_size = 0\<rparr>,
     qh_enqueued = [], qh_delivered = [], qh_cancelled = []\<rparr>"
| queue_next: "queue_reachable mission h \<Longrightarrow> queue_step h h' \<Longrightarrow> queue_reachable mission h'"

definition log_view :: "input_queue \<Rightarrow> queue_view \<Rightarrow> bool" where
  "log_view q v \<longleftrightarrow> dl_parked (iq_log q) = [] \<and> readDurableState (iq_log q) = Inr v \<and> view_ok v \<and>
     list_all (\<lambda>(i, e). qe_id e = i \<and> i \<noteq> [] \<and> qe_delivery e = NextRun) (qv_active v)"

definition history_ok :: "ident \<Rightarrow> queue_history \<Rightarrow> bool" where
  "history_ok mission h \<longleftrightarrow> iq_mission (qh_queue h) = mission \<and>
    (\<exists>v. log_view (qh_queue h) v \<and>
       distinct (map fst (qv_active v) @ qh_delivered h @ qh_cancelled h) \<and>
       set (qh_enqueued h) = set (map fst (qv_active v) @ qh_delivered h @ qh_cancelled h) \<and>
       set (qv_consumed v) \<subseteq> set (qh_delivered h) \<and> set (qv_cleared v) \<subseteq> set (qh_cancelled h))"

lemma readDurableState_live:
  "dl_parked d = [] \<Longrightarrow> readDurableState d =
    (case read_lines (live_lines d) of Inl e \<Rightarrow> Inl e | Inr rs \<Rightarrow> reduce_from rs empty_view)"
  by (cases "dl_live d") (simp_all add: readDurableState_def readDurableRecords_def live_lines_def reduceDurableRecords_def split: sum.split)

text \<open>Appending a record is one step of the abstract queue.\<close>

lemma append_view:
  assumes "dl_parked d = []" and "readDurableState d = Inr v" and "read_line (Some (record_json r)) = Inr r"
    and "reduce_record r v = Inr v'"
  shows "dl_parked (appendDurableRecord r d) = [] \<and> readDurableState (appendDurableRecord r d) = Inr v'"
proof -
  from assms(1,2) obtain rs where rs: "read_lines (live_lines d) = Inr rs" "reduce_from rs empty_view = Inr v"
    by (auto simp: readDurableState_live split: sum.splits)
  have "live_lines (appendDurableRecord r d) = live_lines d @ [Some (record_json r)]"
    by (simp add: appendDurableRecord_def live_lines_def)
  with rs assms show ?thesis
    by (simp add: readDurableState_live appendDurableRecord_def read_lines_append reduce_from_append)
qed


lemma ended_json [simp]: "i \<noteq> [] \<Longrightarrow> ts \<noteq> [] \<Longrightarrow> read_line (Some (record_json (Ended k i ts))) = Inr (Ended k i ts)"
  by (simp add: read_line_record wf_record_def safe_record_def)

definition end_view :: "record_kind \<Rightarrow> ident list \<Rightarrow> queue_view \<Rightarrow> queue_view" where
  "end_view k is v = v\<lparr>qv_active := filter (\<lambda>p. fst p \<notin> set is) (qv_active v),
     qv_consumed := qv_consumed v @ (if k = KConsumed then is else []),
     qv_cleared := qv_cleared v @ (if k = KCancelled then is else [])\<rparr>"

lemma end_view_one:
  assumes "i \<in> fst ` set (qv_active v)"
  shows "reduce_record (Ended k i ts) v = Inr (end_view k [i] v)"
  using assms by (cases k) (simp_all add: reduce_record_def view_has_iff end_view_def delete_filter)

lemma end_view_cons: "end_view k (i # is) v = end_view k is (end_view k [i] v)"
  by (cases k) (simp_all add: end_view_def conj_commute)

lemma consume_fold:
  assumes "dl_parked (iq_log q) = []" and "readDurableState (iq_log q) = Inr v"
    and "distinct (map qe_id es)" and "set (map qe_id es) \<subseteq> fst ` set (qv_active v)" and "[] \<notin> set (map qe_id es)"
    and "ts \<noteq> []"
  shows "dl_parked (iq_log (fold (\<lambda>e. append_to (Ended KConsumed (qe_id e) ts)) es q)) = [] \<and>
    readDurableState (iq_log (fold (\<lambda>e. append_to (Ended KConsumed (qe_id e) ts)) es q)) =
      Inr (end_view KConsumed (map qe_id es) v) \<and>
    iq_mission (fold (\<lambda>e. append_to (Ended KConsumed (qe_id e) ts)) es q) = iq_mission q"
  using assms
proof (induction es arbitrary: q v)
  case Nil
  then show ?case by (simp add: end_view_def)
next
  case (Cons e es)
  let ?q = "append_to (Ended KConsumed (qe_id e) ts) q" and ?v = "end_view KConsumed [qe_id e] v"
  have "qe_id e \<noteq> []" and act: "qe_id e \<in> fst ` set (qv_active v)" using Cons.prems by auto
  then have q: "dl_parked (iq_log ?q) = [] \<and> readDurableState (iq_log ?q) = Inr ?v"
    using append_view [OF Cons.prems(1,2) _ end_view_one [OF act]] Cons.prems(6) by (simp add: append_to_def)
  have "set (map qe_id es) \<subseteq> fst ` set (qv_active ?v)"
    using Cons.prems(3,4) by (force simp: end_view_def image_iff)
  with Cons.IH [of ?q ?v] q Cons.prems show ?case
    by (simp add: end_view_cons [symmetric]) (simp add: append_to_def)
qed

lemma pick_ids:
  assumes "list_all (\<lambda>(i, e). qe_id e = i \<and> i \<noteq> [] \<and> qe_delivery e = NextRun) m" and "distinct (map fst m)"
  shows "distinct (map qe_id (pick mode n scope m))" and "set (map qe_id (pick mode n scope m)) \<subseteq> fst ` set m"
    and "[] \<notin> set (map qe_id (pick mode n scope m))"
proof -
  have "map (qe_id \<circ> snd) m = map fst m" using assms(1) by (induction m) auto
  then have ids: "map qe_id (map snd m) = map fst m" by simp
  show "distinct (map qe_id (pick mode n scope m))"
    unfolding pick_def take_map [symmetric]
    by (rule distinct_take, rule distinct_map_filter) (simp only: ids assms(2))
  have sub: "set (map qe_id (pick mode n scope m)) \<subseteq> set (map qe_id (map snd m))"
    unfolding pick_def by (auto dest!: in_set_takeD)
  then show "set (map qe_id (pick mode n scope m)) \<subseteq> fst ` set m" unfolding ids by simp
  have "[] \<notin> set (map fst m)" using assms(1) by (auto simp: list_all_iff)
  with sub show "[] \<notin> set (map qe_id (pick mode n scope m))" unfolding ids by blast
qed

lemma compacted_view:
  assumes "dl_parked (iq_log q) = []" and "readDurableState (iq_log q) = Inr v" and "q' = q \<or> q' = compacted env q"
  shows "\<exists>v'. dl_parked (iq_log q') = [] \<and> readDurableState (iq_log q') = Inr v' \<and> qv_active v' = qv_active v \<and>
    set (qv_consumed v') \<subseteq> set (qv_consumed v) \<and> set (qv_cleared v') \<subseteq> set (qv_cleared v) \<and>
    (view_ok v \<longrightarrow> view_ok v') \<and> iq_mission q' = iq_mission q"
proof (cases "q' = q")
  case True
  with assms show ?thesis by auto
next
  case False
  with assms(3) have q': "q' = compacted env q" by simp
  obtain n1 d' where c: "compactDurableQueue (env_size env) (env_parse_time env) (env_min_bytes env) (env_horizon env)
      (env_now env) (iq_last_size q, iq_log q) = (n1, d')" by fastforce
  then have log: "iq_log q' = d'" "iq_mission q' = iq_mission q" by (simp_all add: q' compacted_def)
  have "dl_parked d' = []"
    using c assms(1) by (auto simp: compactDurableQueue_def Let_def split: if_splits sum.splits)
  moreover from compaction_view [OF assms(1,2) c] obtain D v' where v': "readDurableState d' = Inr v'"
    "qv_active v' = qv_active v" "qv_consumed v' = filter (\<lambda>i. i \<notin> D) (qv_consumed v)"
    "qv_cleared v' = filter (\<lambda>i. i \<notin> D) (qv_cleared v)" by blast
  moreover have "view_ok v \<longrightarrow> view_ok v'" using v' by (auto simp: view_ok_def)
  ultimately show ?thesis using log by auto
qed

lemma scope_normal: "validate_scope_entries s = Inr r \<Longrightarrow>
    list_all (\<lambda>(k, v). k \<in> {''taskId'', ''agentId'', ''sessionId''} \<and> v \<noteq> [] \<and> js_trim v = v) r"
  by (induction s arbitrary: r) (auto split: if_splits json.splits sum.splits)

lemma enqueue_NextRun:
  assumes "enqueue env uuid inp q = (res, q')"
  shows "(\<exists>e. res = Inr e \<and> qe_delivery e = NextRun \<and> qe_id e = uuid \<and>
      q' = append_to (Enqueued e (env_now_text env)) q \<and>
      qe_metadata e = ei_metadata inp \<and>
      (uuid \<noteq> [] \<longrightarrow> iq_mission q \<noteq> [] \<longrightarrow> env_ok env \<longrightarrow> wf_entry e)) \<or>
    ((\<forall>e. res = Inr e \<longrightarrow> qe_delivery e \<noteq> NextRun) \<and> (\<exists>a. q' = q\<lparr>iq_active := a\<rparr>))"
proof (cases "\<exists>e. res = Inr e \<and> qe_delivery e = NextRun")
  case True
  then obtain e where e: "res = Inr e" "qe_delivery e = NextRun" by blast
  with assms obtain md sc where
    v: "js_trim (ei_text inp) \<noteq> []"
      "(case ei_metadata inp of None \<Rightarrow> Inr None
        | Some m \<Rightarrow> (case validateMetadata m of Inl e \<Rightarrow> Inl e | Inr x \<Rightarrow> Inr (Some x))) = (Inr md :: queue_error + queue_metadata option)"
      "(case ei_scope inp of None \<Rightarrow> Inr None | Some s \<Rightarrow> validateScope s) = Inr sc"
      "e = \<lparr>qe_id = uuid, qe_mission = iq_mission q, qe_delivery = NextRun, qe_text = js_trim (ei_text inp),
         qe_enqueued_at = env_now_text env, qe_metadata = md, qe_scope = sc\<rparr>"
      "q' = append_to (Enqueued e (env_now_text env)) q"
    by (auto simp: enqueue_def Let_def split: if_splits sum.splits)
  have same: "md = ei_metadata inp"
    using v(2) by (auto simp: validateMetadata_def split: option.splits sum.splits if_splits)
  have m: "case md of None \<Rightarrow> True | Some m \<Rightarrow> validateMetadata m = Inr m"
    using v(2) by (auto simp: validateMetadata_def split: option.splits sum.splits if_splits)
  have sc: "case sc of None \<Rightarrow> True | Some s \<Rightarrow> s \<noteq> [] \<and>
      list_all (\<lambda>(k, v). k \<in> {''taskId'', ''agentId'', ''sessionId''} \<and> v \<noteq> [] \<and> js_trim v = v) s"
    using v(3) scope_normal by (auto simp: validateScope_def split: option.splits sum.splits if_splits)
  have "uuid \<noteq> [] \<longrightarrow> iq_mission q \<noteq> [] \<longrightarrow> env_ok env \<longrightarrow> wf_entry e"
    using v(1,4) m sc by (simp add: wf_entry_def env_ok_def)
  with e v(4,5) same show ?thesis by auto
next
  case False
  have same: "\<exists>a. q = q\<lparr>iq_active := a\<rparr>" by (rule exI [of _ "iq_active q"]) simp
  have "(\<exists>a. q' = q\<lparr>iq_active := a\<rparr>)"
    using assms False same by (auto simp: enqueue_def Let_def split: if_splits sum.splits)
  with False show ?thesis by blast
qed

lemma enqueue_step_ok:
  assumes ok: "history_ok mission h" and m: "mission \<noteq> []"
    and e: "enqueue env uuid inp (qh_queue h) = (res, q)" "env_ok env" "uuid \<noteq> []" "uuid \<notin> set (qh_enqueued h)"
      "safe_metadata (ei_metadata inp)"
  shows "history_ok mission (h\<lparr>qh_queue := q, qh_enqueued := qh_enqueued h @
      (case res of Inr e \<Rightarrow> if qe_delivery e = NextRun then [uuid] else [] | Inl _ \<Rightarrow> [])\<rparr>)"
proof -
  from ok obtain v where v: "iq_mission (qh_queue h) = mission" "log_view (qh_queue h) v"
    "distinct (map fst (qv_active v) @ qh_delivered h @ qh_cancelled h)"
    "set (qh_enqueued h) = set (map fst (qv_active v) @ qh_delivered h @ qh_cancelled h)"
    "set (qv_consumed v) \<subseteq> set (qh_delivered h)" "set (qv_cleared v) \<subseteq> set (qh_cancelled h)"
    by (auto simp: history_ok_def)
  from enqueue_NextRun [OF e(1)] consider
    (log) x where "res = Inr x" "qe_delivery x = NextRun" "qe_id x = uuid"
      "q = append_to (Enqueued x (env_now_text env)) (qh_queue h)" "wf_entry x"
      "qe_metadata x = ei_metadata inp"
  | (lane) a where "\<forall>x. res = Inr x \<longrightarrow> qe_delivery x \<noteq> NextRun" "q = (qh_queue h)\<lparr>iq_active := a\<rparr>"
    using e m v(1) by auto
  then show ?thesis
  proof cases
    case log
    have fresh: "uuid \<notin> fst ` set (qv_active v)" "uuid \<notin> set (qh_delivered h)" "uuid \<notin> set (qh_cancelled h)"
      "uuid \<notin> set (qv_consumed v)" "uuid \<notin> set (qv_cleared v)"
      using e(4) v(4-6) by auto
    let ?v = "v\<lparr>qv_active := qv_active v @ [(uuid, x)]\<rparr>"
    have r: "reduce_record (Enqueued x (env_now_text env)) v = Inr ?v"
      using fresh log(3) by (simp add: reduce_record_def view_has_iff update_new)
    have "wf_record (Enqueued x (env_now_text env))" using log(5) e(2) by (simp add: wf_record_def env_ok_def)
    then have p: "read_line (Some (record_json (Enqueued x (env_now_text env)))) = Inr (Enqueued x (env_now_text env))"
      using log(6) e(5) by (simp add: read_line_record safe_record_def)
    have "log_view q ?v"
      using append_view [OF _ _ p r] v(2) log fresh e(3)
      by (auto simp: log_view_def append_to_def view_ok_def)
    moreover have "iq_mission q = mission" using log(4) v(1) by (simp add: append_to_def)
    ultimately show ?thesis using v fresh log(1,2)
      unfolding history_ok_def by (intro conjI exI [of _ ?v]) auto
  next
    case lane
    have "(case res of Inr e \<Rightarrow> if qe_delivery e = NextRun then [uuid] else [] | Inl _ \<Rightarrow> []) = []"
      using lane(1) by (auto split: sum.split)
    with lane(2) v show ?thesis unfolding history_ok_def log_view_def by auto
  qed
qed

text \<open>Ending active entries of the log: the shared step of consume and cancel.\<close>

lemma end_view_active: "qv_active (end_view k is v) = filter (\<lambda>p. fst p \<notin> set is) (qv_active v)"
  by (simp add: end_view_def)

lemma filter_keys: "map fst (filter (\<lambda>p. fst p \<notin> A) m) = filter (\<lambda>i. i \<notin> A) (map fst m)"
  by (induction m) auto

lemma end_view_ok:
  assumes "view_ok v" and "distinct is" and "set is \<subseteq> fst ` set (qv_active v)"
  shows "view_ok (end_view k is v)"
proof -
  have d: "distinct (map fst (qv_active v))" "distinct (qv_consumed v)" "distinct (qv_cleared v)"
    "fst ` set (qv_active v) \<inter> set (qv_consumed v) = {}" "fst ` set (qv_active v) \<inter> set (qv_cleared v) = {}"
    "set (qv_consumed v) \<inter> set (qv_cleared v) = {}"
    using assms(1) unfolding view_ok_def by (simp_all add: disjoint_iff)
  have "distinct (filter (\<lambda>i. i \<notin> set is) (map fst (qv_active v)))" using d(1) by simp
  with d assms(2,3) show ?thesis
    by (cases k) (auto simp: view_ok_def end_view_def filter_keys)
qed

lemma volatile_fold: "iq_log (fold consume_volatile es q) = iq_log q \<and> iq_mission (fold consume_volatile es q) = iq_mission q"
  by (induction es arbitrary: q) (simp_all add: consume_volatile_def)

lemma consume_cases:
  assumes "consume env m n scope q = (res, q')"
  obtains (log) v where "m = NextRun" "readDurableState (iq_log q) = Inr v"
      "res = Inr (pick NextRun (nat n) scope (qv_active v))"
      "q' = fold (\<lambda>e. append_to (Ended KConsumed (qe_id e) (env_now_text env))) (pick NextRun (nat n) scope (qv_active v)) q \<or>
       q' = compacted env (fold (\<lambda>e. append_to (Ended KConsumed (qe_id e) (env_now_text env))) (pick NextRun (nat n) scope (qv_active v)) q)"
  | (lane) "\<forall>es. res = Inr es \<longrightarrow> m \<noteq> NextRun" "iq_log q' = iq_log q" "iq_mission q' = iq_mission q"
proof (cases "1 \<le> n \<and> m = NextRun \<and> (\<exists>v. readDurableState (iq_log q) = Inr v)")
  case True
  then obtain v where "readDurableState (iq_log q) = Inr v" by blast
  with True assms show ?thesis
    by (intro log [of v]) (auto simp: consume_def Let_def split: if_splits)
next
  case False
  with assms show ?thesis
    by (intro lane) (auto simp: consume_def Let_def volatile_fold split: if_splits sum.splits)
qed

lemma ended_log_view:
  assumes q: "log_view q v" and q1: "dl_parked (iq_log q1) = []" "readDurableState (iq_log q1) = Inr (end_view k is v)"
      "iq_mission q1 = iq_mission q" and "is": "distinct is" "set is \<subseteq> fst ` set (qv_active v)"
    and q': "q' = q1 \<or> q' = compacted env q1"
  shows "\<exists>v'. log_view q' v' \<and> qv_active v' = filter (\<lambda>p. fst p \<notin> set is) (qv_active v) \<and>
    set (qv_consumed v') \<subseteq> set (qv_consumed v) \<union> (if k = KConsumed then set is else {}) \<and>
    set (qv_cleared v') \<subseteq> set (qv_cleared v) \<union> (if k = KCancelled then set is else {}) \<and>
    iq_mission q' = iq_mission q"
proof -
  have act: "list_all (\<lambda>(i, e). qe_id e = i \<and> i \<noteq> [] \<and> qe_delivery e = NextRun) (filter (\<lambda>p. fst p \<notin> set is) (qv_active v))"
    using q by (auto simp: log_view_def list_all_iff)
  have ok: "view_ok (end_view k is v)" using q "is" by (intro end_view_ok) (simp_all add: log_view_def)
  from compacted_view [OF q1(1,2) q'] obtain v' where v': "dl_parked (iq_log q') = []"
    "readDurableState (iq_log q') = Inr v'" "qv_active v' = qv_active (end_view k is v)"
    "set (qv_consumed v') \<subseteq> set (qv_consumed (end_view k is v))"
    "set (qv_cleared v') \<subseteq> set (qv_cleared (end_view k is v))" "view_ok v'" "iq_mission q' = iq_mission q1"
    using ok by blast
  have "log_view q' v'" using v'(1-3,6) act by (simp add: log_view_def end_view_active)
  moreover have "set (qv_consumed v') \<subseteq> set (qv_consumed v) \<union> (if k = KConsumed then set is else {})"
    "set (qv_cleared v') \<subseteq> set (qv_cleared v) \<union> (if k = KCancelled then set is else {})"
    using v'(4,5) by (cases k; simp add: end_view_def)+
  ultimately show ?thesis using v'(3,7) q1(3) by (auto simp: end_view_active)
qed

lemma move_distinct:
  assumes "distinct (map fst m @ xs @ ys)" and "distinct is" and "set is \<subseteq> fst ` set m"
  shows "distinct (map fst (filter (\<lambda>p. fst p \<notin> set is) m) @ (xs @ is) @ ys)"
    and "distinct (map fst (filter (\<lambda>p. fst p \<notin> set is) m) @ xs @ ys @ is)"
    and "set (map fst (filter (\<lambda>p. fst p \<notin> set is) m) @ (xs @ is) @ ys) = set (map fst m @ xs @ ys)"
    and "set (map fst (filter (\<lambda>p. fst p \<notin> set is) m) @ xs @ ys @ is) = set (map fst m @ xs @ ys)"
proof -
  have d: "distinct (map fst m)" "distinct xs" "distinct ys" "fst ` set m \<inter> (set xs \<union> set ys) = {}" "set xs \<inter> set ys = {}"
    using assms(1) by auto
  have f: "distinct (filter (\<lambda>i. i \<notin> set is) (map fst m))" using d(1) by simp
  from f d assms(2,3) show "distinct (map fst (filter (\<lambda>p. fst p \<notin> set is) m) @ (xs @ is) @ ys)"
    "distinct (map fst (filter (\<lambda>p. fst p \<notin> set is) m) @ xs @ ys @ is)"
    by (auto simp: filter_keys)
  show "set (map fst (filter (\<lambda>p. fst p \<notin> set is) m) @ (xs @ is) @ ys) = set (map fst m @ xs @ ys)"
    "set (map fst (filter (\<lambda>p. fst p \<notin> set is) m) @ xs @ ys @ is) = set (map fst m @ xs @ ys)"
    using assms(3) unfolding filter_keys by auto
qed

lemma history_okE:
  assumes "history_ok mission h"
  obtains v where "iq_mission (qh_queue h) = mission" "log_view (qh_queue h) v"
    "distinct (map fst (qv_active v) @ qh_delivered h @ qh_cancelled h)"
    "set (qh_enqueued h) = set (map fst (qv_active v) @ qh_delivered h @ qh_cancelled h)"
    "set (qv_consumed v) \<subseteq> set (qh_delivered h)" "set (qv_cleared v) \<subseteq> set (qh_cancelled h)"
  using assms unfolding history_ok_def by blast

lemma history_okI:
  assumes "iq_mission (qh_queue h) = mission" "log_view (qh_queue h) v"
    "distinct (map fst (qv_active v) @ qh_delivered h @ qh_cancelled h)"
    "set (qh_enqueued h) = set (map fst (qv_active v) @ qh_delivered h @ qh_cancelled h)"
    "set (qv_consumed v) \<subseteq> set (qh_delivered h)" "set (qv_cleared v) \<subseteq> set (qh_cancelled h)"
  shows "history_ok mission h"
  using assms unfolding history_ok_def by blast

lemma same_log: "iq_log q' = iq_log q \<Longrightarrow> log_view q' v = log_view q v"
  by (simp add: log_view_def)

lemma consume_step_ok:
  assumes ok: "history_ok mission h" and e: "consume env m n scope (qh_queue h) = (res, q)" "env_ok env"
  shows "history_ok mission (h\<lparr>qh_queue := q, qh_delivered := qh_delivered h @
      (case res of Inr es \<Rightarrow> if m = NextRun then map qe_id es else [] | Inl _ \<Rightarrow> [])\<rparr>)"
proof -
  from ok obtain v where v: "iq_mission (qh_queue h) = mission" "log_view (qh_queue h) v"
    "distinct (map fst (qv_active v) @ qh_delivered h @ qh_cancelled h)"
    "set (qh_enqueued h) = set (map fst (qv_active v) @ qh_delivered h @ qh_cancelled h)"
    "set (qv_consumed v) \<subseteq> set (qh_delivered h)" "set (qv_cleared v) \<subseteq> set (qh_cancelled h)"
    by (rule history_okE)
  from e(1) show ?thesis
  proof (cases rule: consume_cases)
    case (log v')
    let ?es = "pick NextRun (nat n) scope (qv_active v)"
    let ?q1 = "fold (\<lambda>e. append_to (Ended KConsumed (qe_id e) (env_now_text env))) ?es (qh_queue h)"
    have lv: "dl_parked (iq_log (qh_queue h)) = []" "readDurableState (iq_log (qh_queue h)) = Inr v"
      "list_all (\<lambda>(i, e). qe_id e = i \<and> i \<noteq> [] \<and> qe_delivery e = NextRun) (qv_active v)" "distinct (map fst (qv_active v))"
      using v(2) by (simp_all add: log_view_def view_ok_def)
    note ids = pick_ids [OF lv(3,4), of NextRun "nat n" scope]
    have [simp]: "v' = v" using log(2) lv(2) by simp
    have q1: "dl_parked (iq_log ?q1) = []" "readDurableState (iq_log ?q1) = Inr (end_view KConsumed (map qe_id ?es) v)"
      "iq_mission ?q1 = iq_mission (qh_queue h)"
      using consume_fold [OF lv(1,2) ids(1,2,3), of "env_now_text env"] e(2) by (simp_all add: env_ok_def)
    have q: "q = ?q1 \<or> q = compacted env ?q1" using log(4) by simp
    from ended_log_view [OF v(2) q1 ids(1,2) q] obtain w where w: "log_view q w"
      "qv_active w = filter (\<lambda>p. fst p \<notin> set (map qe_id ?es)) (qv_active v)"
      "set (qv_consumed w) \<subseteq> set (qv_consumed v) \<union> set (map qe_id ?es)" "set (qv_cleared w) \<subseteq> set (qv_cleared v)"
      "iq_mission q = iq_mission (qh_queue h)"
      by (clarsimp simp del: set_map)
    have res: "(case res of Inr es \<Rightarrow> if m = NextRun then map qe_id es else [] | Inl _ \<Rightarrow> []) = map qe_id ?es"
      using log by simp
    note mv = move_distinct [OF v(3) ids(1,2)]
    show ?thesis unfolding res
      by (rule history_okI [of _ _ w]) (use w v mv(1,3) in \<open>auto simp del: distinct_append\<close>)
  next
    case lane
    have "(case res of Inr es \<Rightarrow> if m = NextRun then map qe_id es else [] | Inl _ \<Rightarrow> []) = []"
      using lane(1) by (auto split: sum.split)
    with v lane(2,3) same_log [OF lane(2)] show ?thesis by (intro history_okI [of _ _ v]) simp_all
  qed
qed

lemma cancel_cases:
  assumes "cancelQueued env entryId q = (res, q')"
  obtains (log) v where "res = Inr Cancelled" "map_of (iq_active q) (js_trim entryId) = None"
      "js_trim entryId \<noteq> []" "readDurableState (iq_log q) = Inr v" "js_trim entryId \<in> fst ` set (qv_active v)"
      "q' = compacted env (append_to (Ended KCancelled (js_trim entryId) (env_now_text env)) q)"
  | (lane) "\<not> (res = Inr Cancelled \<and> map_of (iq_active q) (js_trim entryId) = None)"
      "iq_log q' = iq_log q" "iq_mission q' = iq_mission q"
proof (cases "js_trim entryId \<noteq> [] \<and> map_of (iq_active q) (js_trim entryId) = None \<and>
    js_trim entryId \<notin> set (iq_consumed q) \<and> js_trim entryId \<notin> set (iq_cleared q) \<and>
    (\<exists>v. readDurableState (iq_log q) = Inr v \<and> view_has v (js_trim entryId))")
  case True
  then obtain v where "readDurableState (iq_log q) = Inr v" "view_has v (js_trim entryId)" by blast
  with True assms show ?thesis
    by (intro log [of v]) (auto simp: cancelQueued_def Let_def view_has_iff)
next
  case False
  with assms show ?thesis
    by (intro lane) (auto simp: cancelQueued_def Let_def split: if_splits sum.splits)
qed

lemma cancel_step_ok:
  assumes ok: "history_ok mission h" and e: "cancelQueued env i (qh_queue h) = (res, q)" "env_ok env"
  shows "history_ok mission (h\<lparr>qh_queue := q, qh_cancelled := qh_cancelled h @
      (if res = Inr Cancelled \<and> map_of (iq_active (qh_queue h)) (js_trim i) = None then [js_trim i] else [])\<rparr>)"
proof -
  from ok obtain v where v: "iq_mission (qh_queue h) = mission" "log_view (qh_queue h) v"
    "distinct (map fst (qv_active v) @ qh_delivered h @ qh_cancelled h)"
    "set (qh_enqueued h) = set (map fst (qv_active v) @ qh_delivered h @ qh_cancelled h)"
    "set (qv_consumed v) \<subseteq> set (qh_delivered h)" "set (qv_cleared v) \<subseteq> set (qh_cancelled h)"
    by (rule history_okE)
  from e(1) show ?thesis
  proof (cases rule: cancel_cases)
    case (log v')
    let ?i = "js_trim i"
    let ?q1 = "append_to (Ended KCancelled ?i (env_now_text env)) (qh_queue h)"
    have lv: "dl_parked (iq_log (qh_queue h)) = []" "readDurableState (iq_log (qh_queue h)) = Inr v"
      using v(2) by (simp_all add: log_view_def)
    have [simp]: "v' = v" using log(4) lv(2) by simp
    have i: "distinct [?i]" "set [?i] \<subseteq> fst ` set (qv_active v)" "?i \<in> fst ` set (qv_active v)" using log(5) by simp_all
    have q1: "dl_parked (iq_log ?q1) = []" "readDurableState (iq_log ?q1) = Inr (end_view KCancelled [?i] v)"
      "iq_mission ?q1 = iq_mission (qh_queue h)"
      using append_view [OF lv _ end_view_one [OF i(3)]] log(3) e(2) by (simp_all add: append_to_def env_ok_def)
    from ended_log_view [OF v(2) q1 i(1,2), of q env] log(6) obtain w where w: "log_view q w"
      "qv_active w = filter (\<lambda>p. fst p \<notin> set [?i]) (qv_active v)"
      "set (qv_consumed w) \<subseteq> set (qv_consumed v)" "set (qv_cleared w) \<subseteq> set (qv_cleared v) \<union> set [?i]"
      "iq_mission q = iq_mission (qh_queue h)" by auto
    have res: "(if res = Inr Cancelled \<and> map_of (iq_active (qh_queue h)) ?i = None then [?i] else []) = [?i]"
      using log by simp
    note mv = move_distinct [OF v(3) i(1,2)]
    show ?thesis unfolding res
      by (rule history_okI [of _ _ w]) (use w v mv(2,4) in \<open>auto simp del: distinct_append\<close>)
  next
    case lane
    from lane(1) have "(if res = Inr Cancelled \<and> map_of (iq_active (qh_queue h)) (js_trim i) = None then [js_trim i] else []) = []"
      by simp
    with v lane(2,3) same_log [OF lane(2)] show ?thesis by (intro history_okI [of _ _ v]) simp_all
  qed
qed

lemma reachable_history_ok:
  assumes "queue_reachable mission h" and "mission \<noteq> []"
  shows "history_ok mission h"
  using assms
proof (induction rule: queue_reachable.induct)
  case queue_start
  have "readDurableState \<lparr>dl_live = None, dl_parked = []\<rparr> = Inr empty_view" by (simp add: readDurableState_def)
  then show ?case
    by (intro history_okI [of _ _ empty_view]) (simp_all add: log_view_def view_ok_def empty_view_def)
next
  case (queue_next h h')
  then have ok: "history_ok mission h" by blast
  from queue_next.hyps(2) show ?case
  proof cases
    case hs_enqueue
    with enqueue_step_ok [OF ok queue_next.prems] show ?thesis by blast
  next
    case hs_consume
    with consume_step_ok [OF ok] show ?thesis by blast
  next
    case hs_cancel
    with cancel_step_ok [OF ok] show ?thesis by blast
  next
    case hs_restart
    with ok show ?thesis unfolding history_ok_def log_view_def by simp
  qed
qed

text \<open>C27. Exactly once: over every history of enqueues, consumes, cancellations and restarts of a mission's
  queue in which no input carries a metadata key \<open>__proto__\<close>, \<open>constructor\<close> or
  \<open>prototype\<close>, the log stays readable, and each durable input that was enqueued is either still
  active, or was delivered once, or was cancelled once, never two of these; nothing else is ever
  delivered. (Lines over the reader's limit of 64 MiB are outside the model, here and below.)\<close>

theorem durable_inputs_exactly_once:
  assumes "queue_reachable mission h" and "mission \<noteq> []"
  shows "\<exists>v. readDurableState (iq_log (qh_queue h)) = Inr v \<and>
    distinct (map fst (qv_active v) @ qh_delivered h @ qh_cancelled h) \<and>
    set (qh_enqueued h) = set (map fst (qv_active v) @ qh_delivered h @ qh_cancelled h)"
  using reachable_history_ok [OF assms] unfolding history_ok_def log_view_def by blast

section \<open>A turn in scope receives what is pending\<close>

lemma pick_ids_all:
  assumes "list_all (\<lambda>(i, e). qe_id e = i \<and> i \<noteq> [] \<and> qe_delivery e = NextRun) m" and "length m \<le> n"
  shows "(i, e) \<in> set m \<Longrightarrow> scopeMatches (qe_scope e) scope \<Longrightarrow> i \<in> set (map qe_id (pick NextRun n scope m))"
proof -
  assume e: "(i, e) \<in> set m" "scopeMatches (qe_scope e) scope"
  have "length (filter (\<lambda>e. qe_delivery e = NextRun \<and> scopeMatches (qe_scope e) scope) (map snd m)) \<le> n"
    using length_filter_le [of _ "map snd m"] assms(2) by (metis (no_types, lifting) le_trans length_map)
  then have p: "pick NextRun n scope m = filter (\<lambda>e. qe_delivery e = NextRun \<and> scopeMatches (qe_scope e) scope) (map snd m)"
    by (simp add: pick_def)
  have "qe_delivery e = NextRun" using e(1) assms(1) by (auto simp: list_all_iff)
  moreover have "e \<in> set (map snd m)" using e(1) by force
  ultimately have "e \<in> set (pick NextRun n scope m)" using e(2) unfolding p by simp
  moreover have "qe_id e = i" using e(1) assms(1) by (auto simp: list_all_iff)
  ultimately show ?thesis by auto
qed


text \<open>C28. Nothing pending is withheld: in every queue reached without an input that carries a metadata key
  \<open>__proto__\<close>, \<open>constructor\<close> or \<open>prototype\<close>, consuming the durable lane with a limit of
  at least one and no less than the inputs ever enqueued succeeds, and afterwards each durable
  input was delivered before, was cancelled, is in the result, or carries a scope the
  consumer does not match.\<close>

theorem pending_inputs_are_delivered:
  assumes "queue_reachable mission h" and "mission \<noteq> []" and "1 \<le> n" and "int (length (qh_enqueued h)) \<le> n"
  shows "\<exists>v es. readDurableState (iq_log (qh_queue h)) = Inr v \<and>
    fst (consume env NextRun n scope (qh_queue h)) = Inr es \<and>
    set (qh_enqueued h) = set (qh_delivered h) \<union> set (qh_cancelled h) \<union> set (map qe_id es) \<union>
      set (map fst (filter (\<lambda>(i, e). \<not> scopeMatches (qe_scope e) scope) (qv_active v)))"
proof -
  from history_okE [OF reachable_history_ok [OF assms(1,2)]] obtain v where v: "log_view (qh_queue h) v"
    "distinct (map fst (qv_active v) @ qh_delivered h @ qh_cancelled h)"
    "set (qh_enqueued h) = set (map fst (qv_active v) @ qh_delivered h @ qh_cancelled h)" by blast
  let ?es = "pick NextRun (nat n) scope (qv_active v)"
  have lv: "readDurableState (iq_log (qh_queue h)) = Inr v"
    "list_all (\<lambda>(i, e). qe_id e = i \<and> i \<noteq> [] \<and> qe_delivery e = NextRun) (qv_active v)"
    "distinct (map fst (qv_active v))" using v(1) by (simp_all add: log_view_def view_ok_def)
  have "length (map fst (qv_active v)) = card (set (map fst (qv_active v)))"
    using distinct_card [OF lv(3)] by simp
  also have "\<dots> \<le> card (set (qh_enqueued h))" unfolding v(3) by (rule card_mono) simp_all
  also have "\<dots> \<le> length (qh_enqueued h)" by (rule card_length)
  finally have len: "length (qv_active v) \<le> nat n" using assms(4) by simp
  have "fst (consume env NextRun n scope (qh_queue h)) = Inr ?es"
    using lv(1) assms(3) by (simp add: consume_def Let_def)
  moreover have "set (map fst (qv_active v)) = set (map qe_id ?es) \<union>
      set (map fst (filter (\<lambda>(i, e). \<not> scopeMatches (qe_scope e) scope) (qv_active v)))"
  proof (intro equalityI subsetI)
    fix i assume "i \<in> set (map fst (qv_active v))"
    then obtain e where e: "(i, e) \<in> set (qv_active v)" by auto
    then show "i \<in> set (map qe_id ?es) \<union> set (map fst (filter (\<lambda>(i, e). \<not> scopeMatches (qe_scope e) scope) (qv_active v)))"
      using pick_ids_all [OF lv(2) len e] by (cases "scopeMatches (qe_scope e) scope") force+
  next
    fix i assume "i \<in> set (map qe_id ?es) \<union> set (map fst (filter (\<lambda>(i, e). \<not> scopeMatches (qe_scope e) scope) (qv_active v)))"
    then show "i \<in> set (map fst (qv_active v))"
      using pick_ids(2) [OF lv(2,3), of NextRun "nat n" scope] by force
  qed
  ultimately show ?thesis using lv(1) v(3) by (intro exI [of _ v] exI [of _ ?es]) auto
qed

section \<open>A dangerous metadata key\<close>

text \<open>The writer accepts what the reader refuses: a durable input whose metadata has the key
  \<open>__proto__\<close>, \<open>constructor\<close> or \<open>prototype\<close> is enqueued without an error, and from then on
  every consume and peek of the durable lane fails and every cancellation that reaches the log fails,
  and none of them changes the queue.\<close>

lemma poisoned_log:
  assumes "dl_parked (iq_log q) = []" and "readDurableState (iq_log q) = Inr v"
    and "wf_record r" and "\<not> safe_record r"
  shows "readDurableState (iq_log (append_to r q)) = Inl CorruptRecord"
proof -
  from assms(1,2) obtain rs where "read_lines (live_lines (iq_log q)) = Inr rs"
    by (auto simp: readDurableState_live split: sum.splits)
  moreover have "live_lines (appendDurableRecord r (iq_log q)) = live_lines (iq_log q) @ [Some (record_json r)]"
    by (simp add: appendDurableRecord_def live_lines_def)
  ultimately show ?thesis using assms
    by (simp add: append_to_def readDurableState_live appendDurableRecord_def read_lines_append read_line_record)
qed

lemma dangerous_key_poisons_the_queue:
  assumes "dl_parked (iq_log q) = []" and "readDurableState (iq_log q) = Inr v" and "iq_mission q \<noteq> []"
    and "uuid \<noteq> []" and "env_ok env" and "enqueue env uuid inp q = (Inr e, q1)" and "qe_delivery e = NextRun"
    and "\<not> safe_metadata (ei_metadata inp)"
  shows "1 \<le> n \<Longrightarrow> consume env' NextRun n scope q1 = (Inl CorruptRecord, q1)"
    and "1 \<le> n \<Longrightarrow> peek NextRun n scope q1 = Inl CorruptRecord"
    and "js_trim i \<noteq> [] \<Longrightarrow> map_of (iq_active q1) (js_trim i) = None \<Longrightarrow> js_trim i \<notin> set (iq_consumed q1) \<Longrightarrow>
      js_trim i \<notin> set (iq_cleared q1) \<Longrightarrow> cancelQueued env' i q1 = (Inl CorruptRecord, q1)"
proof -
  from enqueue_NextRun [OF assms(6)] assms(3-5,7) have q1: "q1 = append_to (Enqueued e (env_now_text env)) q"
    "wf_entry e" "qe_metadata e = ei_metadata inp" by auto
  have "readDurableState (iq_log q1) = Inl CorruptRecord"
    unfolding q1(1) using q1(2,3) assms
    by (intro poisoned_log) (simp_all add: wf_record_def safe_record_def env_ok_def)
  then show "1 \<le> n \<Longrightarrow> consume env' NextRun n scope q1 = (Inl CorruptRecord, q1)"
    "1 \<le> n \<Longrightarrow> peek NextRun n scope q1 = Inl CorruptRecord"
    "js_trim i \<noteq> [] \<Longrightarrow> map_of (iq_active q1) (js_trim i) = None \<Longrightarrow> js_trim i \<notin> set (iq_consumed q1) \<Longrightarrow>
      js_trim i \<notin> set (iq_cleared q1) \<Longrightarrow> cancelQueued env' i q1 = (Inl CorruptRecord, q1)"
    by (simp_all add: consume_def peek_def cancelQueued_def Let_def)
qed

section \<open>A turn over a corrupt log\<close>

lemma volatile_fold_lists:
  "iq_active (fold consume_volatile es q) = filter (\<lambda>p. fst p \<notin> set (map qe_id es)) (iq_active q) \<and>
   iq_consumed (fold consume_volatile es q) = iq_consumed q @ map qe_id es"
  by (induction es arbitrary: q) (simp_all add: consume_volatile_def delete_filter conj_commute)

text \<open>One volatile lane of a turn: with room for every entry, all its entries in scope go.\<close>

lemma consume_lane:
  assumes "m \<noteq> NextRun" and "int (length (iq_active q)) < n"
  shows "\<exists>es q'. consume env m n scope q = (Inr es, q') \<and> iq_log q' = iq_log q \<and>
    es = filter (\<lambda>e. qe_delivery e = m \<and> scopeMatches (qe_scope e) scope) (map snd (iq_active q)) \<and>
    iq_active q' = filter (\<lambda>p. fst p \<notin> set (map qe_id es)) (iq_active q) \<and>
    iq_consumed q' = iq_consumed q @ map qe_id es"
proof -
  let ?es = "filter (\<lambda>e. qe_delivery e = m \<and> scopeMatches (qe_scope e) scope) (map snd (iq_active q))"
  have "length ?es \<le> length (iq_active q)"
    using length_filter_le [of _ "map snd (iq_active q)"] by simp
  with assms(2) have "length ?es \<le> nat n" by linarith
  then have "pick m (nat n) scope (iq_active q) = ?es" by (simp add: pick_def)
  with assms show ?thesis
    by (intro exI [of _ ?es] exI [of _ "fold consume_volatile ?es q"])
      (simp add: consume_def Let_def volatile_fold volatile_fold_lists)
qed

lemma keyed_disjoint:
  assumes "list_all (\<lambda>(i, e). qe_id e = i) m"
  shows "length (filter P (map snd m)) + length (filter (\<lambda>p. fst p \<notin> set (map qe_id (filter P (map snd m)))) m) \<le> length m"
proof -
  have gone: "fst p \<in> set (map qe_id (filter P (map snd m)))" if "p \<in> set m" "P (snd p)" for p
  proof -
    have "qe_id (snd p) = fst p" using assms that(1) by (auto simp: list_all_iff)
    moreover have "snd p \<in> set (filter P (map snd m))" using that by simp
    ultimately show ?thesis by (metis image_eqI set_map)
  qed
  have "filter (\<lambda>p. fst p \<notin> set (map qe_id (filter P (map snd m)))) m =
      filter (\<lambda>p. fst p \<notin> set (map qe_id (filter P (map snd m)))) (filter (\<lambda>p. \<not> P (snd p)) m)"
    unfolding filter_filter using gone by (intro filter_cong) auto
  then have "length (filter (\<lambda>p. fst p \<notin> set (map qe_id (filter P (map snd m)))) m) \<le> length (filter (\<lambda>p. \<not> P (snd p)) m)"
    by (metis length_filter_le)
  moreover have "length (filter P (map snd m)) = length (filter (\<lambda>p. P (snd p)) m)"
    by (simp add: filter_map o_def)
  moreover have "length (filter (\<lambda>p. P (snd p)) m) + length (filter (\<lambda>p. \<not> P (snd p)) m) = length m"
    by (rule sum_length_filter_compl)
  ultimately show ?thesis by linarith
qed

text \<open>A turn over an unreadable log loses messages: when the durable log cannot be read, a turn with room
  for more than the volatile entries fails with that error, but every steering and follow-up message in
  scope has been removed from the queue and marked consumed without being delivered.\<close>

lemma corrupt_log_loses_messages:
  assumes "readDurableState (iq_log q) = Inl err" and "int (length (iq_active q)) < limit"
    and "list_all (\<lambda>(i, e). qe_id e = i) (iq_active q)"
    and "(i, e) \<in> set (iq_active q)" and "qe_delivery e = Steer \<or> qe_delivery e = FollowUp"
    and "scopeMatches (qe_scope e) scope"
  shows "\<exists>q'. consumeForTurn env limit scope q = (Inl err, q') \<and> map_of (iq_active q') i = None \<and> i \<in> set (iq_consumed q')"
proof -
  from consume_lane [of Steer q limit env scope] assms(2) obtain es1 q1 where s1:
    "consume env Steer limit scope q = (Inr es1, q1)" "iq_log q1 = iq_log q"
    "es1 = filter (\<lambda>e. qe_delivery e = Steer \<and> scopeMatches (qe_scope e) scope) (map snd (iq_active q))"
    "iq_active q1 = filter (\<lambda>p. fst p \<notin> set (map qe_id es1)) (iq_active q)" "iq_consumed q1 = iq_consumed q @ map qe_id es1"
    by auto
  have l1: "length es1 + length (iq_active q1) \<le> length (iq_active q)"
    using keyed_disjoint [OF assms(3)] unfolding s1(3,4) .
  have k1: "list_all (\<lambda>(i, e). qe_id e = i) (iq_active q1)" using assms(3) by (auto simp: s1(4) list_all_iff)
  from consume_lane [of FollowUp q1 "limit - int (length es1)" env scope] l1 assms(2) obtain es2 q2 where s2:
    "consume env FollowUp (limit - int (length es1)) scope q1 = (Inr es2, q2)" "iq_log q2 = iq_log q1"
    "es2 = filter (\<lambda>e. qe_delivery e = FollowUp \<and> scopeMatches (qe_scope e) scope) (map snd (iq_active q1))"
    "iq_active q2 = filter (\<lambda>p. fst p \<notin> set (map qe_id es2)) (iq_active q1)" "iq_consumed q2 = iq_consumed q1 @ map qe_id es2"
    by auto
  have l2: "length es2 + length (iq_active q2) \<le> length (iq_active q1)"
    using keyed_disjoint [OF k1] unfolding s2(3,4) .
  have room: "0 < limit" "0 < limit - int (length es1)" "0 < limit - (int (length es1) + int (length es2))"
    using l1 l2 assms(2) by linarith+
  have "consume env NextRun (limit - (int (length es1) + int (length es2))) scope q2 = (Inl err, q2)"
    using room(3) assms(1) s1(2) s2(2) by (simp add: consume_def)
  with room s1(1) s2(1) have run: "consumeForTurn env limit scope q = (Inl err, q2)"
    by (simp add: consumeForTurn_def)
  have id: "qe_id e = i" using assms(3,4) by (auto simp: list_all_iff)
  have e: "e \<in> set (map snd (iq_active q))" using assms(4) by force
  have "i \<in> set (map qe_id es1) \<or> i \<in> set (map qe_id es2)"
  proof (cases "i \<in> set (map qe_id es1)")
    case False
    then have "(i, e) \<in> set (iq_active q1)" using assms(4) by (simp add: s1(4))
    moreover have "qe_delivery e \<noteq> Steer" using False e assms(6) id by (auto simp: s1(3))
    ultimately have "e \<in> set es2" using assms(5,6) unfolding s2(3) by force
    with id show ?thesis by auto
  qed simp
  then have "i \<notin> fst ` set (iq_active q2)" "i \<in> set (iq_consumed q2)"
    by (auto simp: s1(4,5) s2(4,5))
  with run show ?thesis by (auto simp: map_of_eq_None_iff)
qed

section \<open>The rendered block\<close>

lemma escape_char_inj:
  "escape_char c @ r = escape_char d @ r' \<Longrightarrow> c = d \<and> r = r'"
  by (auto simp: escape_char_def split: if_splits)

lemma escape_char_nonempty [simp]: "escape_char c \<noteq> []"
  by (simp add: escape_char_def)

lemma escapeXml_inj: "escapeXml s = escapeXml t \<Longrightarrow> s = t"
proof (induction s arbitrary: t)
  case Nil
  then show ?case by (cases t) (simp_all add: escapeXml_def)
next
  case (Cons c s)
  then obtain d t' where t: "t = d # t'"
    by (cases t) (simp_all add: escapeXml_def)
  from Cons.prems have "escape_char c @ escapeXml s = escape_char d @ escapeXml t'" by (simp add: t escapeXml_def)
  from escape_char_inj [OF this] Cons.IH t show ?case by blast
qed

lemma escapeXml_clean: "filter (\<lambda>c. c \<in> {CHR ''<'', CHR ''>'', CHR 0x22}) (escapeXml s) = []"
  by (induction s) (auto simp: escapeXml_def escape_char_def)

definition markup :: "string \<Rightarrow> string" where
  "markup s = filter (\<lambda>c. c \<in> {CHR ''<'', CHR ''>'', CHR 0x22}) s"

lemma markup_append [simp]: "markup (s @ t) = markup s @ markup t"
  by (simp add: markup_def)

lemma markup_escape [simp]: "markup (escapeXml s) = []"
  unfolding markup_def by (rule escapeXml_clean)

definition entry_markup :: string where
  "entry_markup = [CHR ''<'', CHR 0x22, CHR 0x22, CHR 0x22, CHR 0x22, CHR ''>'', CHR ''<'', CHR ''>'']"

lemma markup_entry: "markup (render_entry e) = entry_markup"
  unfolding render_entry_def markup_append markup_escape by (simp add: markup_def entry_markup_def)

lemma markup_lines: "markup (join_lines (l # ls)) = markup l @ concat (map markup ls)"
  by (induction ls arbitrary: l) (simp_all add: join_lines_def markup_def)

text \<open>Queued text cannot break out of its block: the markup characters of the rendered block are those of
  the frame and of one message element per entry, whatever the entries contain; and escaping loses
  nothing, two texts with the same escape are equal.\<close>

lemma rendering_is_contained:
  "markup (renderAgentInputQueueEntries es) =
     (if es = [] then [] else [CHR ''<'', CHR 0x22, CHR 0x22, CHR ''>''] @ concat (map (\<lambda>_. entry_markup) es) @ [CHR ''<'', CHR ''>'']) \<and>
   (escapeXml s = escapeXml t) = (s = t)"
proof
  have "concat (map markup (map render_entry es)) = concat (map (\<lambda>_. entry_markup) es)"
    by (simp add: markup_entry o_def)
  then show "markup (renderAgentInputQueueEntries es) =
     (if es = [] then [] else [CHR ''<'', CHR 0x22, CHR 0x22, CHR ''>''] @ concat (map (\<lambda>_. entry_markup) es) @ [CHR ''<'', CHR ''>''])"
    by (simp add: renderAgentInputQueueEntries_def markup_lines markup_entry o_def) (simp add: markup_def)
qed (use escapeXml_inj in blast)

section \<open>Instances\<close>

definition wit_env :: queue_env where
  "wit_env = \<lparr>env_size = length, env_parse_time = (\<lambda>s. if s = ''t'' then Some 0 else None),
     env_min_bytes = 0, env_horizon = 0, env_now = 1, env_now_text = ''t''\<rparr>"

definition wit_input :: "string \<Rightarrow> string \<Rightarrow> enqueue_input" where
  "wit_input d t = \<lparr>ei_delivery = d, ei_text = t, ei_metadata = None, ei_scope = None\<rparr>"

definition wit_q0 :: input_queue where
  "wit_q0 = \<lparr>iq_mission = ''m'', iq_active = [], iq_consumed = [], iq_cleared = [],
     iq_log = \<lparr>dl_live = None, dl_parked = []\<rparr>, iq_last_size = 0\<rparr>"

definition wit_q1 :: input_queue where
  "wit_q1 = snd (enqueue wit_env ''u1'' (wit_input ''next_run'' ''hello'') wit_q0)"

definition wit_q2 :: input_queue where
  "wit_q2 = snd (enqueue wit_env ''u2'' (wit_input ''next_run'' ''bye'') wit_q1)"

definition wit_q3 :: input_queue where
  "wit_q3 = snd (consume wit_env NextRun 1 None wit_q2)"

definition wit_history :: queue_history where
  "wit_history = \<lparr>qh_queue = wit_q3, qh_enqueued = [''u1'', ''u2''], qh_delivered = [''u1''], qh_cancelled = []\<rparr>"

lemma wit_reachable: "queue_reachable ''m'' wit_history"
proof -
  have ok: "env_ok wit_env" "\<And>d t. safe_metadata (ei_metadata (wit_input d t))"
    by (simp_all add: env_ok_def wit_env_def wit_input_def safe_metadata_def)
  let ?h = "\<lambda>q en de. \<lparr>qh_queue = q, qh_enqueued = en, qh_delivered = de, qh_cancelled = []\<rparr>"
  have r0: "queue_reachable ''m'' (?h wit_q0 [] [])" unfolding wit_q0_def by (rule queue_start)
  have d1: "(case fst (enqueue wit_env ''u1'' (wit_input ''next_run'' ''hello'') wit_q0) of
      Inr e \<Rightarrow> if qe_delivery e = NextRun then [''u1''] else [] | Inl _ \<Rightarrow> []) = [''u1'']" by code_simp
  have d2: "(case fst (enqueue wit_env ''u2'' (wit_input ''next_run'' ''bye'') wit_q1) of
      Inr e \<Rightarrow> if qe_delivery e = NextRun then [''u2''] else [] | Inl _ \<Rightarrow> []) = [''u2'']" by code_simp
  have d3: "(case fst (consume wit_env NextRun 1 None wit_q2) of
      Inr es \<Rightarrow> if NextRun = NextRun then map qe_id es else [] | Inl _ \<Rightarrow> []) = [''u1'']" by code_simp
  have "queue_step (?h wit_q0 [] []) (?h wit_q1 [''u1''] [])"
    using hs_enqueue [of wit_env "''u1''" "wit_input ''next_run'' ''hello''" "?h wit_q0 [] []"
        "fst (enqueue wit_env ''u1'' (wit_input ''next_run'' ''hello'') wit_q0)" wit_q1] ok d1
    by (simp add: wit_q1_def)
  from queue_next [OF r0 this] have r1: "queue_reachable ''m'' (?h wit_q1 [''u1''] [])" .
  have "queue_step (?h wit_q1 [''u1''] []) (?h wit_q2 [''u1'', ''u2''] [])"
    using hs_enqueue [of wit_env "''u2''" "wit_input ''next_run'' ''bye''" "?h wit_q1 [''u1''] []"
        "fst (enqueue wit_env ''u2'' (wit_input ''next_run'' ''bye'') wit_q1)" wit_q2] ok d2
    by (simp add: wit_q2_def)
  from queue_next [OF r1 this] have r2: "queue_reachable ''m'' (?h wit_q2 [''u1'', ''u2''] [])" .
  have "queue_step (?h wit_q2 [''u1'', ''u2''] []) (?h wit_q3 [''u1'', ''u2''] [''u1''])"
    using hs_consume [of wit_env NextRun 1 None "?h wit_q2 [''u1'', ''u2''] []"
        "fst (consume wit_env NextRun 1 None wit_q2)" wit_q3] ok d3
    by (simp add: wit_q3_def)
  from queue_next [OF r2 this] show ?thesis by (simp add: wit_history_def)
qed

lemma durable_inputs_exactly_once_witness:
  "\<exists>v. readDurableState (iq_log (qh_queue wit_history)) = Inr v \<and>
    distinct (map fst (qv_active v) @ qh_delivered wit_history @ qh_cancelled wit_history) \<and>
    set (qh_enqueued wit_history) = set (map fst (qv_active v) @ qh_delivered wit_history @ qh_cancelled wit_history)"
  using durable_inputs_exactly_once [OF wit_reachable] by simp

lemma pending_inputs_are_delivered_witness:
  "\<exists>v es. readDurableState (iq_log (qh_queue wit_history)) = Inr v \<and>
    fst (consume wit_env NextRun 2 None (qh_queue wit_history)) = Inr es \<and>
    set (qh_enqueued wit_history) = set (qh_delivered wit_history) \<union> set (qh_cancelled wit_history) \<union> set (map qe_id es) \<union>
      set (map fst (filter (\<lambda>(i, e). \<not> scopeMatches (qe_scope e) None) (qv_active v)))"
  using pending_inputs_are_delivered [OF wit_reachable, of 2 wit_env None] by (simp add: wit_history_def)

definition wit_entry :: "string \<Rightarrow> queue_entry" where
  "wit_entry k = \<lparr>qe_id = ''u'', qe_mission = ''m'', qe_delivery = NextRun, qe_text = ''x'',
     qe_enqueued_at = ''t'', qe_metadata = Some [(k, JNum 1)], qe_scope = Some [(''taskId'', ''k'')]\<rparr>"

lemma log_line_roundtrip_witness:
  "read_lines ([] @ [Some (record_json (Enqueued (wit_entry ''a'') ''t''))]) = Inr [Enqueued (wit_entry ''a'') ''t''] \<and>
   read_lines ([] @ [Some (record_json (Enqueued (wit_entry ''constructor'') ''t''))]) = Inl CorruptRecord"
proof -
  have w: "wf_record (Enqueued (wit_entry ''a'') ''t'')" "wf_record (Enqueued (wit_entry ''constructor'') ''t'')"
    "safe_record (Enqueued (wit_entry ''a'') ''t'')" "\<not> safe_record (Enqueued (wit_entry ''constructor'') ''t'')"
    by code_simp+
  have n: "read_lines [] = Inr []" by simp
  show ?thesis unfolding log_line_roundtrip [OF w(1) n] log_line_roundtrip [OF w(2) n] using w(3,4) by simp
qed

lemma compaction_keeps_the_queue_witness:
  "length (live_lines (iq_log (append_to (Ended KConsumed ''u1'' ''t'') wit_q2))) = 3 \<and>
   (\<exists>D v'. readDurableState (snd (compactDurableQueue length (env_parse_time wit_env) 0 0 1
        (0, iq_log (append_to (Ended KConsumed ''u1'' ''t'') wit_q2)))) = Inr v' \<and>
      map fst (qv_active v') = [''u2''] \<and> qv_consumed v' = filter (\<lambda>i. i \<notin> D) [''u1''])"
proof -
  let ?d = "iq_log (append_to (Ended KConsumed ''u1'' ''t'') wit_q2)"
  let ?c = "compactDurableQueue length (env_parse_time wit_env) 0 0 1 (0, ?d)"
  have p: "dl_parked ?d = []" by code_simp
  obtain v where v: "readDurableState ?d = Inr v" "map fst (qv_active v) = [''u2'']" "qv_consumed v = [''u1'']"
  proof -
    have "case readDurableState ?d of Inr v \<Rightarrow> map fst (qv_active v) = [''u2''] \<and> qv_consumed v = [''u1''] | Inl _ \<Rightarrow> False"
      by code_simp
    then show ?thesis using that by (auto split: sum.splits)
  qed
  have "length (live_lines ?d) = 3" by code_simp
  with compaction_keeps_the_queue [OF p v(1), of length "env_parse_time wit_env" 0 0 1 0 "fst ?c" "snd ?c"] v
  show ?thesis by auto
qed

lemma corrupt_log_loses_messages_witness:
  "\<exists>q'. consumeForTurn wit_env 8 None
      (wit_q0\<lparr>iq_active := [(''s'', \<lparr>qe_id = ''s'', qe_mission = ''m'', qe_delivery = Steer, qe_text = ''x'',
         qe_enqueued_at = ''t'', qe_metadata = None, qe_scope = None\<rparr>)], iq_log := \<lparr>dl_live = Some [None], dl_parked = []\<rparr>\<rparr>) =
      (Inl CorruptRecord, q') \<and> map_of (iq_active q') ''s'' = None \<and> ''s'' \<in> set (iq_consumed q')"
  by (rule corrupt_log_loses_messages [where e = "\<lparr>qe_id = ''s'', qe_mission = ''m'', qe_delivery = Steer, qe_text = ''x'',
         qe_enqueued_at = ''t'', qe_metadata = None, qe_scope = None\<rparr>"])
    (simp_all add: readDurableState_def readDurableRecords_def live_lines_def scopeMatches_def read_line_def)

end
