(* ===== verification/Op_Preflight.thy ===== *)
theory Op_Preflight
  imports Kyb_Prelude
begin

text \<open>
  The admission waterfall of operations, \<open>src/libs/core/pipeline/op-preflight.ts\<close>: listeners in
  order may repair the input or object, then the built-in approval guard, then the registered guards.

  Values of parameters are a type \<open>'v\<close> whose equality is the language's \<open>Object.is\<close>, and a
  key that is present has a value other than \<open>undefined\<close>. A
  listener or guard is a function of the call and of the input it is given; it answers at once or
  with a promise, and may throw (a rejected promise and a thrown error are one case). It does not
  write to the input object it is given. \<open>localeCompare\<close> is a parameter, as the relation
  "compares at most equal". The outcome observers run on detached copies after the decision and are left
  out, as is the assertion that a result has the shape of its type.
\<close>

section \<open>Calls and results\<close>

datatype preflight_decision = Allow | Block | Ask

datatype call_source = FromPipeline | FromActuator | FromDelegate | FromMcp

type_synonym 'v params = "(string, 'v) js_map"

record 'v preflight_call =
  pc_op :: string
  pc_params :: "'v params"
  pc_context :: "'v params option"
  pc_source :: call_source
  pc_requiresApproval :: "bool option"
  pc_approvalGranted :: "bool option"
  pc_hasHuman :: "bool option"

record 'v preflight_result =
  pr_decision :: preflight_decision
  pr_reason :: "string option"
  pr_repaired :: "'v params option"
  pr_terminate :: "bool option"
  pr_listeners :: "ident list"
  pr_guards :: "ident list"
  pr_stamps :: "'v params option"
  pr_input :: "'v params"

text \<open>What one listener or guard answers; a guard has no repaired input.\<close>

record 'v stage_answer =
  sa_decision :: "preflight_decision option"
  sa_reason :: "string option"
  sa_repaired :: "'v params option"
  sa_terminate :: "bool option"

datatype 'v stage_reply =
    Now "'v stage_answer option"
  | Later "string + 'v stage_answer option"
  | Throws string

record 'v preflight_stage =
  ps_id :: ident
  ps_order :: "int option"
  ps_run :: "'v preflight_call \<Rightarrow> 'v params \<Rightarrow> 'v stage_reply"

record 'v preflight_registry =
  pg_listeners :: "(ident, 'v preflight_stage) js_map"
  pg_guards :: "(ident, 'v preflight_stage) js_map"

datatype preflight_error =
    IdRequired
  | DuplicateStage ident
  | SyncUnavailable ident
  | StageThrew string

section \<open>Registration\<close>

definition stage_order :: "'v preflight_stage \<Rightarrow> int" where
  "stage_order s = (case ps_order s of Some n \<Rightarrow> n | None \<Rightarrow> 0)"

definition stage_le :: "(ident \<Rightarrow> ident \<Rightarrow> bool) \<Rightarrow> 'v preflight_stage \<Rightarrow> 'v preflight_stage \<Rightarrow> bool" where
  "stage_le loc a b \<longleftrightarrow> stage_order a < stage_order b \<or> (stage_order a = stage_order b \<and> loc (ps_id a) (ps_id b))"

definition ordered :: "(ident \<Rightarrow> ident \<Rightarrow> bool) \<Rightarrow> (ident, 'v preflight_stage) js_map \<Rightarrow> 'v preflight_stage list" where
  "ordered loc m = js_sort_by (stage_le loc) (map snd m)"

definition assertUniqueId :: "ident \<Rightarrow> (ident, 'a) js_map \<Rightarrow> preflight_error + ident" where
  "assertUniqueId i m =
    (let normalized = js_trim i in
     if normalized = [] then Inl IdRequired
     else if map_of m normalized \<noteq> None then Inl (DuplicateStage normalized)
     else Inr normalized)"

definition registerOpPreflightListener ::
  "'v preflight_stage \<Rightarrow> 'v preflight_registry \<Rightarrow> preflight_error + 'v preflight_registry" where
  "registerOpPreflightListener l g =
    (case assertUniqueId (ps_id l) (pg_listeners g) of
       Inl e \<Rightarrow> Inl e
     | Inr i \<Rightarrow> Inr (g\<lparr>pg_listeners := AList.update i (l\<lparr>ps_id := i\<rparr>) (pg_listeners g)\<rparr>))"

definition registerOpGuard ::
  "'v preflight_stage \<Rightarrow> 'v preflight_registry \<Rightarrow> preflight_error + 'v preflight_registry" where
  "registerOpGuard l g =
    (case assertUniqueId (ps_id l) (pg_guards g) of
       Inl e \<Rightarrow> Inl e
     | Inr i \<Rightarrow> Inr (g\<lparr>pg_guards := AList.update i (l\<lparr>ps_id := i\<rparr>) (pg_guards g)\<rparr>))"

text \<open>The disposers that the two registrations return.\<close>

definition dispose_listener :: "ident \<Rightarrow> 'v preflight_registry \<Rightarrow> 'v preflight_registry" where
  "dispose_listener i g = g\<lparr>pg_listeners := AList.delete i (pg_listeners g)\<rparr>"

definition dispose_guard :: "ident \<Rightarrow> 'v preflight_registry \<Rightarrow> 'v preflight_registry" where
  "dispose_guard i g = g\<lparr>pg_guards := AList.delete i (pg_guards g)\<rparr>"

definition resetOpPreflight :: "'v preflight_registry \<Rightarrow> 'v preflight_registry" where
  "resetOpPreflight g = g\<lparr>pg_listeners := [], pg_guards := []\<rparr>"

section \<open>Built-in guards\<close>

definition builtin_approval :: ident where
  "builtin_approval = ''builtin:approval''"

definition PLUGIN_GRANT_OPS_GUARD_ID :: ident where
  "PLUGIN_GRANT_OPS_GUARD_ID = ''plugin-grant-ops''"

definition approvalGuard :: "'v preflight_call \<Rightarrow> (preflight_decision \<times> string) option" where
  "approvalGuard call =
    (if pc_requiresApproval call = Some True \<and> pc_approvalGranted call \<noteq> Some True then
       (if pc_hasHuman call = Some False
        then Some (Block, ''[HUMAN_REQUIRED] Operation '' @ pc_op call @
               '' requires human approval, but the execution boundary is non-interactive.'')
        else Some (Ask, ''Operation '' @ pc_op call @ '' requires a prior human approval decision.''))
     else None)"

text \<open>\<open>denial op\<close> is the first plugin frame, by its identifier, that does not grant the operation
  (\<open>findPluginGrantDenial\<close>).\<close>

definition pluginGrantOpsGuard :: "(string \<Rightarrow> ident option) \<Rightarrow> 'v preflight_call \<Rightarrow> 'v preflight_result option" where
  "pluginGrantOpsGuard denial call =
    (case denial (pc_op call) of
       None \<Rightarrow> None
     | Some plugin \<Rightarrow> Some \<lparr>pr_decision = Block,
         pr_reason = Some (''[PLUGIN_GRANT_DENIED] plugin '' @ plugin @ '' is not granted ops_invoke '' @ pc_op call),
         pr_repaired = None, pr_terminate = Some True, pr_listeners = [], pr_guards = [PLUGIN_GRANT_OPS_GUARD_ID],
         pr_stamps = None, pr_input = pc_params call\<rparr>)"

section \<open>Finishing\<close>

definition OP_GOVERNANCE_STAMP_KEYS :: "string list" where
  "OP_GOVERNANCE_STAMP_KEYS = [''_effect'', ''_resource_ref'', ''_egress_destination'', ''_egress_taint'']"

definition inputChanged :: "'v params \<Rightarrow> 'v params \<Rightarrow> bool" where
  "inputChanged original repaired \<longleftrightarrow>
    length original \<noteq> length repaired \<or> list_ex (\<lambda>(k, v). map_of original k \<noteq> Some v) repaired"

definition strip_stamps :: "'v params \<Rightarrow> 'v params" where
  "strip_stamps m = filter (\<lambda>(k, _). k \<notin> set OP_GOVERNANCE_STAMP_KEYS) m"

definition stamps_of :: "'v params \<Rightarrow> 'v params" where
  "stamps_of m = [(k, the (map_of m k)). k \<leftarrow> OP_GOVERNANCE_STAMP_KEYS, map_of m k \<noteq> None]"

definition finalizePreflightResult :: "'v preflight_call \<Rightarrow> 'v preflight_result \<Rightarrow> 'v preflight_result" where
  "finalizePreflightResult call r =
    (let stamps = fold (\<lambda>(k, v). AList.update k v)
           (case pr_repaired r of Some m \<Rightarrow> stamps_of m | None \<Rightarrow> []) (stamps_of (pr_input r));
         repaired = map_option strip_stamps (pr_repaired r)
     in r\<lparr>pr_input := strip_stamps (pr_input r),
          pr_stamps := (if stamps = [] then None else Some stamps),
          pr_repaired := (case repaired of
             Some m \<Rightarrow> if inputChanged (pc_params call) m then Some m else None
           | None \<Rightarrow> None)\<rparr>)"

text \<open>The result with the fields every return of the waterfall sets in the same way.\<close>

definition waterfall_result ::
  "'v preflight_call \<Rightarrow> preflight_decision \<Rightarrow> string option \<Rightarrow> bool option \<Rightarrow> ident list \<Rightarrow> ident list \<Rightarrow>
   'v params \<Rightarrow> 'v preflight_result" where
  "waterfall_result call decision reason terminate listenerIds guardIds inp =
    finalizePreflightResult call
      \<lparr>pr_decision = decision,
       pr_reason = (case reason of Some s \<Rightarrow> if s = [] then None else Some s | None \<Rightarrow> None),
       pr_repaired = (if inputChanged (pc_params call) inp then Some inp else None),
       pr_terminate = terminate, pr_listeners = listenerIds, pr_guards = guardIds,
       pr_stamps = None, pr_input = inp\<rparr>"

section \<open>The waterfall\<close>

text \<open>\<open>await\<close> reads a reply: the asynchronous form waits for a promise, the synchronous form
  refuses it.\<close>

definition await_reply :: "'v preflight_stage \<Rightarrow> 'v stage_reply \<Rightarrow> preflight_error + 'v stage_answer option" where
  "await_reply s r =
    (case r of
       Now a \<Rightarrow> Inr a
     | Later (Inl m) \<Rightarrow> Inl (StageThrew m)
     | Later (Inr a) \<Rightarrow> Inr a
     | Throws m \<Rightarrow> Inl (StageThrew m))"

definition sync_reply :: "'v preflight_stage \<Rightarrow> 'v stage_reply \<Rightarrow> preflight_error + 'v stage_answer option" where
  "sync_reply s r =
    (case r of
       Now a \<Rightarrow> Inr a
     | Later _ \<Rightarrow> Inl (SyncUnavailable (ps_id s))
     | Throws m \<Rightarrow> Inl (StageThrew m))"

type_synonym 'v reader = "'v preflight_stage \<Rightarrow> 'v stage_reply \<Rightarrow> preflight_error + 'v stage_answer option"

fun run_listeners ::
  "'v reader \<Rightarrow> 'v preflight_call \<Rightarrow> 'v preflight_stage list \<Rightarrow> ident list \<Rightarrow> bool option \<Rightarrow> 'v params \<Rightarrow>
   preflight_error + ('v preflight_result + ident list \<times> bool option \<times> 'v params)" where
  "run_listeners rd call [] ids terminate inp = Inr (Inr (ids, terminate, inp))"
| "run_listeners rd call (l # ls) ids terminate inp =
    (case rd l (ps_run l call inp) of
       Inl e \<Rightarrow> Inl e
     | Inr None \<Rightarrow> run_listeners rd call ls (ids @ [ps_id l]) terminate inp
     | Inr (Some a) \<Rightarrow>
         (let inp' = (case sa_repaired a of Some m \<Rightarrow> fold (\<lambda>(k, v). AList.update k v) m inp | None \<Rightarrow> inp);
              terminate' = (if sa_terminate a = None then terminate else sa_terminate a)
          in if sa_decision a = Some Block \<or> sa_decision a = Some Ask
             then Inr (Inl (waterfall_result call (the (sa_decision a)) (sa_reason a) terminate' (ids @ [ps_id l]) [] inp'))
             else run_listeners rd call ls (ids @ [ps_id l]) terminate' inp'))"

fun run_guards ::
  "'v reader \<Rightarrow> 'v preflight_call \<Rightarrow> ident list \<Rightarrow> 'v preflight_stage list \<Rightarrow> ident list \<Rightarrow> 'v params \<Rightarrow>
   preflight_error + ('v preflight_result + ident list)" where
  "run_guards rd call listenerIds [] ids inp = Inr (Inr ids)"
| "run_guards rd call listenerIds (g # gs) ids inp =
    (case rd g (ps_run g call inp) of
       Inl e \<Rightarrow> Inl e
     | Inr None \<Rightarrow> run_guards rd call listenerIds gs (ids @ [ps_id g]) inp
     | Inr (Some a) \<Rightarrow>
         if sa_decision a = Some Block \<or> sa_decision a = Some Ask
         then Inr (Inl (waterfall_result call (the (sa_decision a)) (sa_reason a) (sa_terminate a) listenerIds (ids @ [ps_id g]) inp))
         else run_guards rd call listenerIds gs (ids @ [ps_id g]) inp)"

definition run_waterfall ::
  "'v reader \<Rightarrow> (ident \<Rightarrow> ident \<Rightarrow> bool) \<Rightarrow> (string \<Rightarrow> ident option) \<Rightarrow> 'v preflight_registry \<Rightarrow> 'v preflight_call \<Rightarrow>
   preflight_error + 'v preflight_result" where
  "run_waterfall rd loc denial g call =
    (case pluginGrantOpsGuard denial call of
       Some r \<Rightarrow> Inr (finalizePreflightResult call r)
     | None \<Rightarrow>
         (case run_listeners rd call (ordered loc (pg_listeners g)) [] None (pc_params call) of
            Inl e \<Rightarrow> Inl e
          | Inr (Inl r) \<Rightarrow> Inr r
          | Inr (Inr (listenerIds, terminate, inp)) \<Rightarrow>
              (case approvalGuard call of
                 Some (decision, reason) \<Rightarrow>
                   Inr (waterfall_result call decision (Some reason) terminate listenerIds [builtin_approval] inp)
               | None \<Rightarrow>
                   (case run_guards rd call listenerIds (ordered loc (pg_guards g)) [] inp of
                      Inl e \<Rightarrow> Inl e
                    | Inr (Inl r) \<Rightarrow> Inr r
                    | Inr (Inr guardIds) \<Rightarrow>
                        Inr (waterfall_result call Allow None terminate listenerIds guardIds inp)))))"

definition runOpPreflight ::
  "(ident \<Rightarrow> ident \<Rightarrow> bool) \<Rightarrow> (string \<Rightarrow> ident option) \<Rightarrow> 'v preflight_registry \<Rightarrow> 'v preflight_call \<Rightarrow>
   preflight_error + 'v preflight_result" where
  "runOpPreflight = run_waterfall await_reply"

definition runOpPreflightSync ::
  "(ident \<Rightarrow> ident \<Rightarrow> bool) \<Rightarrow> (string \<Rightarrow> ident option) \<Rightarrow> 'v preflight_registry \<Rightarrow> 'v preflight_call \<Rightarrow>
   preflight_error + 'v preflight_result" where
  "runOpPreflightSync = run_waterfall sync_reply"

end
