(* ===== verification/Op_Preflight_Props.thy ===== *)
theory Op_Preflight_Props
  imports Op_Preflight "HOL-Library.Multiset"
begin

text \<open>
  What the admission waterfall guarantees: when it allows a call, that the order of registration does
  not matter, that the synchronous form agrees with the asynchronous one, that another guard can only
  tighten, and that governance stamps never reach the operation.
\<close>

section \<open>The passing waterfall\<close>

definition answer_of :: "'v preflight_call \<Rightarrow> 'v preflight_stage \<Rightarrow> 'v params \<Rightarrow> 'v stage_answer option" where
  "answer_of call s inp = (case await_reply s (ps_run s call inp) of Inr a \<Rightarrow> a | Inl _ \<Rightarrow> None)"

definition objects :: "'v preflight_call \<Rightarrow> 'v preflight_stage \<Rightarrow> 'v params \<Rightarrow> bool" where
  "objects call s inp =
    (case answer_of call s inp of
       None \<Rightarrow> False
     | Some a \<Rightarrow> sa_decision a = Some Block \<or> sa_decision a = Some Ask)"

definition repaired_by :: "'v preflight_call \<Rightarrow> 'v preflight_stage \<Rightarrow> 'v params \<Rightarrow> 'v params" where
  "repaired_by call s inp =
    (case answer_of call s inp of
       Some a \<Rightarrow> (case sa_repaired a of Some m \<Rightarrow> fold (\<lambda>(k, v). AList.update k v) m inp | None \<Rightarrow> inp)
     | None \<Rightarrow> inp)"

text \<open>Every listener passes on the input that the ones before it have repaired.\<close>

fun listeners_pass :: "'v preflight_call \<Rightarrow> 'v preflight_stage list \<Rightarrow> 'v params \<Rightarrow> bool" where
  "listeners_pass call [] inp = True"
| "listeners_pass call (l # ls) inp = (\<not> objects call l inp \<and> listeners_pass call ls (repaired_by call l inp))"

definition final_input :: "'v preflight_call \<Rightarrow> 'v preflight_stage list \<Rightarrow> 'v params" where
  "final_input call ls = fold (repaired_by call) ls (pc_params call)"

lemma waterfall_fields [simp]:
  "pr_decision (waterfall_result call d r t ls gs inp) = d"
  "pr_listeners (waterfall_result call d r t ls gs inp) = ls"
  "pr_guards (waterfall_result call d r t ls gs inp) = gs"
  "pr_input (waterfall_result call d r t ls gs inp) = strip_stamps inp"
  by (simp_all add: waterfall_result_def finalizePreflightResult_def Let_def)

lemma run_listeners_result:
  assumes "run_listeners await_reply call ls ids t inp = Inr out"
  shows "(listeners_pass call ls inp \<longrightarrow> (\<exists>t'. out = Inr (ids @ map ps_id ls, t', fold (repaired_by call) ls inp))) \<and>
    (\<not> listeners_pass call ls inp \<longrightarrow> (\<exists>r. out = Inl r \<and> pr_decision r \<noteq> Allow))"
  using assms
proof (induction ls arbitrary: ids t inp)
  case (Cons l ls)
  from Cons.prems obtain a where a: "await_reply l (ps_run l call inp) = Inr a"
    by (auto split: sum.splits)
  then have ans: "answer_of call l inp = a" by (simp add: answer_of_def)
  show ?case
  proof (cases "objects call l inp")
    case True
    then obtain x where "a = Some x" "sa_decision x = Some Block \<or> sa_decision x = Some Ask"
      using ans by (auto simp: objects_def split: option.splits)
    with Cons.prems a True show ?thesis by (auto simp: Let_def)
  next
    case False
    then obtain ids' t' where "run_listeners await_reply call ls ids' t' (repaired_by call l inp) = Inr out"
      "ids' = ids @ [ps_id l]"
      using Cons.prems a ans by (auto simp: objects_def repaired_by_def Let_def split: option.splits if_splits)
    with Cons.IH [of ids' t' "repaired_by call l inp"] False show ?thesis by simp
  qed
qed auto

lemma run_guards_result:
  assumes "run_guards await_reply call lids gs ids inp = Inr out"
  shows "(list_all (\<lambda>g. \<not> objects call g inp) gs \<longrightarrow> out = Inr (ids @ map ps_id gs)) \<and>
    (\<not> list_all (\<lambda>g. \<not> objects call g inp) gs \<longrightarrow> (\<exists>r. out = Inl r \<and> pr_decision r \<noteq> Allow))"
  using assms
proof (induction gs arbitrary: ids)
  case (Cons g gs)
  from Cons.prems obtain a where a: "await_reply g (ps_run g call inp) = Inr a"
    by (auto split: sum.splits)
  then have ans: "answer_of call g inp = a" by (simp add: answer_of_def)
  show ?case
  proof (cases "objects call g inp")
    case True
    then obtain x where "a = Some x" "sa_decision x = Some Block \<or> sa_decision x = Some Ask"
      using ans by (auto simp: objects_def split: option.splits)
    with Cons.prems a True show ?thesis by auto
  next
    case False
    then have "run_guards await_reply call lids gs (ids @ [ps_id g]) inp = Inr out"
      using Cons.prems a ans by (auto simp: objects_def split: option.splits if_splits)
    with Cons.IH [of "ids @ [ps_id g]"] False show ?thesis by simp
  qed
qed simp

lemma approval_decision: "approvalGuard call = Some (d, r) \<Longrightarrow> d \<noteq> Allow"
  by (auto simp: approvalGuard_def split: if_splits)

lemma plugin_decision: "pluginGrantOpsGuard denial call = Some r \<Longrightarrow> denial (pc_op call) \<noteq> None \<and> pr_decision r = Block"
  by (auto simp: pluginGrantOpsGuard_def split: option.splits)

definition passes :: "(ident \<Rightarrow> ident \<Rightarrow> bool) \<Rightarrow> (string \<Rightarrow> ident option) \<Rightarrow> 'v preflight_registry \<Rightarrow> 'v preflight_call \<Rightarrow> bool" where
  "passes loc denial g call \<longleftrightarrow>
    denial (pc_op call) = None \<and>
    listeners_pass call (ordered loc (pg_listeners g)) (pc_params call) \<and>
    approvalGuard call = None \<and>
    list_all (\<lambda>gd. \<not> objects call gd (final_input call (ordered loc (pg_listeners g)))) (ordered loc (pg_guards g))"

lemma waterfall_allows:
  assumes "runOpPreflight loc denial g call = Inr r"
  shows "pr_decision r = Allow \<longleftrightarrow> passes loc denial g call"
    and "passes loc denial g call \<Longrightarrow> pr_input r = strip_stamps (final_input call (ordered loc (pg_listeners g))) \<and>
      pr_listeners r = map ps_id (ordered loc (pg_listeners g)) \<and> pr_guards r = map ps_id (ordered loc (pg_guards g))"
proof -
  let ?ls = "ordered loc (pg_listeners g)" and ?gs = "ordered loc (pg_guards g)"
  have "(pr_decision r = Allow \<longleftrightarrow> passes loc denial g call) \<and>
    (passes loc denial g call \<longrightarrow> pr_input r = strip_stamps (final_input call ?ls) \<and>
      pr_listeners r = map ps_id ?ls \<and> pr_guards r = map ps_id ?gs)"
  proof (cases "denial (pc_op call)")
    case (Some p)
    then have "pr_decision r = Block"
      using assms by (auto simp: runOpPreflight_def run_waterfall_def pluginGrantOpsGuard_def finalizePreflightResult_def Let_def)
    with Some show ?thesis by (simp add: passes_def)
  next
    case None
    then have plug: "pluginGrantOpsGuard denial call = None" by (simp add: pluginGrantOpsGuard_def)
    from assms plug obtain out where out: "run_listeners await_reply call ?ls [] None (pc_params call) = Inr out"
      by (auto simp: runOpPreflight_def run_waterfall_def split: sum.splits)
    note ls = run_listeners_result [OF out]
    show ?thesis
    proof (cases "listeners_pass call ?ls (pc_params call)")
      case False
      with ls obtain x where "out = Inl x" "pr_decision x \<noteq> Allow" by blast
      with assms plug out False show ?thesis by (simp add: runOpPreflight_def run_waterfall_def passes_def)
    next
      case True
      with ls obtain t where o: "out = Inr (map ps_id ?ls, t, final_input call ?ls)"
        by (auto simp: final_input_def)
      show ?thesis
      proof (cases "approvalGuard call")
        case (Some dr)
        then obtain d q where "approvalGuard call = Some (d, q)" by (cases dr) simp
        with approval_decision [OF this] assms plug out o show ?thesis
          by (auto simp: runOpPreflight_def run_waterfall_def passes_def)
      next
        case none: None
        from assms plug out o none obtain go where
          go: "run_guards await_reply call (map ps_id ?ls) ?gs [] (final_input call ?ls) = Inr go"
          by (auto simp: runOpPreflight_def run_waterfall_def split: sum.splits)
        from run_guards_result [OF go] assms plug out o none go None True show ?thesis
          by (auto simp: runOpPreflight_def run_waterfall_def passes_def)
      qed
    qed
  qed
  then show "pr_decision r = Allow \<longleftrightarrow> passes loc denial g call"
    and "passes loc denial g call \<Longrightarrow> pr_input r = strip_stamps (final_input call ?ls) \<and>
      pr_listeners r = map ps_id ?ls \<and> pr_guards r = map ps_id ?gs" by blast+
qed

text \<open>When the waterfall answers, it allows a call exactly when no plugin frame denies it, every
  listener in order passes the input repaired so far, no approval is missing and every registered guard
  passes the final input; then all listeners and guards were consulted and the operation
  receives the final input without the governance stamps.\<close>

theorem preflight_allows_iff:
  assumes "runOpPreflight loc denial g call = Inr r"
  shows "(pr_decision r = Allow) = passes loc denial g call \<and>
    (pr_decision r = Allow \<longrightarrow> pr_input r = strip_stamps (final_input call (ordered loc (pg_listeners g))) \<and>
      pr_listeners r = map ps_id (ordered loc (pg_listeners g)) \<and> pr_guards r = map ps_id (ordered loc (pg_guards g)))"
  using waterfall_allows [OF assms] by blast

definition sample_registry :: "int preflight_registry" where
  "sample_registry =
    \<lparr>pg_listeners = [(''l'', \<lparr>ps_id = ''l'', ps_order = None, ps_run = (\<lambda>c i. Later (Inr (Some
        \<lparr>sa_decision = None, sa_reason = None, sa_repaired = Some [(''a'', 2), (''_effect'', 7)], sa_terminate = None\<rparr>)))\<rparr>)],
     pg_guards = [(''g'', \<lparr>ps_id = ''g'', ps_order = None, ps_run = (\<lambda>c i. Now None)\<rparr>)]\<rparr>"

definition sample_call :: "int preflight_call" where
  "sample_call = \<lparr>pc_op = ''file:read'', pc_params = [(''a'', 1)], pc_context = None, pc_source = FromActuator,
     pc_requiresApproval = Some True, pc_approvalGranted = Some True, pc_hasHuman = None\<rparr>"

definition sample_result :: "int preflight_result" where
  "sample_result = \<lparr>pr_decision = Allow, pr_reason = None, pr_repaired = Some [(''a'', 2)], pr_terminate = None,
     pr_listeners = [''l''], pr_guards = [''g''], pr_stamps = Some [(''_effect'', 7)], pr_input = [(''a'', 2)]\<rparr>"

definition by_length :: "ident \<Rightarrow> ident \<Rightarrow> bool" where
  "by_length a b = (length a \<le> length b)"

lemma sample_waterfall: "runOpPreflight by_length (\<lambda>_. None) sample_registry sample_call = Inr sample_result"
  by code_simp

lemma preflight_allows_iff_witness:
  "pr_decision sample_result = Allow \<and> passes by_length (\<lambda>_. None) sample_registry sample_call"
  using preflight_allows_iff [OF sample_waterfall] by (simp add: sample_result_def)

section \<open>The order of registration\<close>

definition registry_ok :: "(ident, 'v preflight_stage) js_map \<Rightarrow> bool" where
  "registry_ok m \<longleftrightarrow> distinct (map fst m) \<and> list_all (\<lambda>(i, s). ps_id s = i) m"

lemma registered_ok:
  assumes "registry_ok m"
  shows "assertUniqueId i m = Inr j \<Longrightarrow> registry_ok (AList.update j (s\<lparr>ps_id := j\<rparr>) m)"
    and "registry_ok (AList.delete j m)"
proof -
  have new: "list_all (\<lambda>(i, s). ps_id s = i) (AList.update j (s\<lparr>ps_id := j\<rparr>) m)"
    if "list_all (\<lambda>(i, s). ps_id s = i) m" for m
    using that by (induction m) auto
  show "assertUniqueId i m = Inr j \<Longrightarrow> registry_ok (AList.update j (s\<lparr>ps_id := j\<rparr>) m)"
    using assms new by (simp add: registry_ok_def)
  show "registry_ok (AList.delete j m)"
    using assms unfolding registry_ok_def by (auto simp: AList.delete_eq list_all_iff distinct_map_filter)
qed

definition canonical :: "(ident \<Rightarrow> ident \<Rightarrow> bool) \<Rightarrow> ident list \<Rightarrow> bool" where
  "canonical loc is \<longleftrightarrow> (\<forall>x y. loc x y \<or> loc y x) \<and> (\<forall>x y z. loc x y \<longrightarrow> loc y z \<longrightarrow> loc x z) \<and>
    (\<forall>x\<in>set is. \<forall>y\<in>set is. loc x y \<longrightarrow> loc y x \<longrightarrow> x = y)"

lemma ordered_canonical:
  assumes loc: "canonical loc (map fst m)" and ok: "registry_ok m" "registry_ok m'" and eq: "mset m = mset m'"
  shows "ordered loc m = ordered loc m'"
proof -
  have l: "loc x y \<or> loc y x" "loc x y \<Longrightarrow> loc y z \<Longrightarrow> loc x z" for x y z
    using loc unfolding canonical_def by blast+
  have tot: "stage_le loc a b \<or> stage_le loc b a" for a b :: "'a preflight_stage"
    using l(1) [of "ps_id a" "ps_id b"] unfolding stage_le_def by linarith
  have tr: "stage_le loc a c" if "stage_le loc a b" "stage_le loc b c" for a b c :: "'a preflight_stage"
    using that l(2) [of "ps_id a" "ps_id b" "ps_id c"] unfolding stage_le_def by linarith
  have anti: "x = y" if "x \<in> set (map snd m)" "y \<in> set (map snd m)" "stage_le loc x y" "stage_le loc y x" for x y
  proof -
    from that(1,2) have i: "(ps_id x, x) \<in> set m" "(ps_id y, y) \<in> set m" using ok(1) by (auto simp: registry_ok_def list_all_iff)
    then have "ps_id x \<in> set (map fst m)" "ps_id y \<in> set (map fst m)" by force+
    moreover have "loc (ps_id x) (ps_id y)" "loc (ps_id y) (ps_id x)" using that(3,4) unfolding stage_le_def by linarith+
    ultimately have same: "ps_id x = ps_id y" using loc unfolding canonical_def by blast
    have d: "distinct (map fst m)" using ok(1) by (simp add: registry_ok_def)
    have "map_of m (ps_id x) = Some x" "map_of m (ps_id y) = Some y"
      by (rule map_of_is_SomeI [OF d i(1)], rule map_of_is_SomeI [OF d i(2)])
    then have "Some x = Some y" unfolding same by (rule HOL.trans [OF sym])
    then show ?thesis by (rule option.inject [THEN iffD1])
  qed
  have "mset (map snd m) = mset (map snd m')" using eq by simp
  from js_sort_by_unique [OF tot tr this anti] show ?thesis unfolding ordered_def .
qed

text \<open>The order of registration is irrelevant: two registries with the same listeners and guards, in whatever
  order they were registered, answer every call alike, in both forms, when the comparison of
  identifiers is a linear order on the registered ones.\<close>

theorem registration_order_is_irrelevant:
  assumes "canonical loc (map fst (pg_listeners g))" and "canonical loc (map fst (pg_guards g))"
    and "registry_ok (pg_listeners g)" and "registry_ok (pg_listeners g')"
    and "registry_ok (pg_guards g)" and "registry_ok (pg_guards g')"
    and "mset (pg_listeners g) = mset (pg_listeners g')" and "mset (pg_guards g) = mset (pg_guards g')"
  shows "runOpPreflight loc denial g call = runOpPreflight loc denial g' call \<and>
    runOpPreflightSync loc denial g call = runOpPreflightSync loc denial g' call"
  unfolding runOpPreflight_def runOpPreflightSync_def run_waterfall_def
    ordered_canonical [OF assms(1,3,4,7)] ordered_canonical [OF assms(2,5,6,8)] by simp

definition silent :: "ident \<Rightarrow> int option \<Rightarrow> ident \<times> int preflight_stage" where
  "silent i n = (i, \<lparr>ps_id = i, ps_order = n, ps_run = (\<lambda>c p. Now None)\<rparr>)"

lemma registration_order_is_irrelevant_witness:
  "runOpPreflight by_length (\<lambda>_. None) \<lparr>pg_listeners = [silent ''a'' None, silent ''bb'' (Some 0)], pg_guards = []\<rparr> sample_call =
   runOpPreflight by_length (\<lambda>_. None) \<lparr>pg_listeners = [silent ''bb'' (Some 0), silent ''a'' None], pg_guards = []\<rparr> sample_call"
  by (rule conjunct1 [OF registration_order_is_irrelevant])
    (auto simp: canonical_def registry_ok_def silent_def by_length_def)

section \<open>Another guard only tightens\<close>

lemma ordered_set [simp]: "set (ordered loc m) = snd ` set m"
  by (simp add: ordered_def)

text \<open>A call allowed in the presence of more guards is allowed without them, with the same input.\<close>

lemma guards_only_tighten:
  assumes "runOpPreflight loc denial g' call = Inr r'" and "pr_decision r' = Allow"
    and "pg_listeners g' = pg_listeners g" and "set (pg_guards g) \<subseteq> set (pg_guards g')"
    and "runOpPreflight loc denial g call = Inr r"
  shows "pr_decision r = Allow \<and> pr_input r = pr_input r'"
proof -
  have "passes loc denial g' call" using waterfall_allows(1) [OF assms(1)] assms(2) by blast
  then have "passes loc denial g call"
    using assms(3,4) unfolding passes_def list_all_iff ordered_set by (auto dest: subsetD)
  with waterfall_allows [OF assms(5)] waterfall_allows [OF assms(1)] assms(2,3) show ?thesis by simp
qed

section \<open>The synchronous form\<close>

lemma sync_listeners:
  "run_listeners sync_reply call ls ids t inp = Inr out \<Longrightarrow> run_listeners await_reply call ls ids t inp = Inr out"
proof (induction ls arbitrary: ids t inp)
  case (Cons l ls)
  then show ?case
    by (cases "ps_run l call inp")
      (auto simp: sync_reply_def await_reply_def Let_def split: option.splits if_splits)
qed simp

lemma sync_guards:
  "run_guards sync_reply call lids gs ids inp = Inr out \<Longrightarrow> run_guards await_reply call lids gs ids inp = Inr out"
proof (induction gs arbitrary: ids)
  case (Cons g gs)
  then show ?case
    by (cases "ps_run g call inp")
      (auto simp: sync_reply_def await_reply_def split: option.splits if_splits)
qed simp

text \<open>What the synchronous form answers, the asynchronous form answers.\<close>

lemma sync_agrees:
  assumes "runOpPreflightSync loc denial g call = Inr r"
  shows "runOpPreflight loc denial g call = Inr r"
  using assms sync_listeners sync_guards
  unfolding runOpPreflightSync_def runOpPreflight_def run_waterfall_def
  by (fastforce split: option.splits sum.splits)

section \<open>Stamps\<close>

lemma strip_stamps_keys: "set (map fst (strip_stamps m)) \<inter> set OP_GOVERNANCE_STAMP_KEYS = {}"
  by (auto simp: strip_stamps_def)

text \<open>No governance stamp reaches the operation through the input of an answer.\<close>

lemma finalized_input_is_clean:
  "set (map fst (pr_input (finalizePreflightResult call r))) \<inter> set OP_GOVERNANCE_STAMP_KEYS = {}"
  using strip_stamps_keys [of "pr_input r"] by (simp add: finalizePreflightResult_def Let_def)

end
