(* ===== verification/Adf_Engine.thy ===== *)
theory Adf_Engine
  imports Graph_Run Tool_Governor Op_Preflight
begin

text \<open>
  The pipeline engine, \<open>src/libs/core/pipeline/adf-engine.ts\<close>, with the bounds of
  \<open>contracts/execution-bounds.ts\<close> and the recovery of \<open>pipeline/pipeline-engine.ts\<close>: a
  stream of steps runs one after another; each step is counted, bounded, admitted by the repeat governor, the
  step gate and the preflight waterfall, and then handled; a failed step may recover; a stream
  with graph declarations runs through the graph scheduler, each node as a one-step stream.

  The state \<open>'w\<close> is the world of the handlers. A handler, a hook or a gate is a function of its
  arguments and the world. A control handler may run nested streams: it is the tree of what it
  does next, one nested run after another. The clock is read once per step, so it is a function of the
  step number. Contexts, parameters and results of handlers are JSON values. The template resolver and the
  evaluation of conditions are options of the engine, loading a referenced pipeline and the access contract of an
  operation are parameters. Of the graph scheduler the default width of one is taken; wider
  frontiers are the subject of \<open>Graph_Run\<close>. The sandbox wrapper, the default listeners, log lines and the
  kill-switch record of a force stop are left out, and the text of a force stop is abbreviated.

  The engine recurses through control handlers and fallbacks; \<open>executeAdfStepsInternal\<close> takes the depth of
  nesting still allowed, and \<open>None\<close> means that it was not enough. Every counted step nests at most a graph and a
  stream; \<open>Adf_Engine_Props\<close> shows that twice the maximal number of steps and two is always enough.
\<close>

section \<open>Data\<close>

datatype control_flow = SuspendFlow | PreflightFlow

record engine_error =
  ee_message :: string
  ee_flow :: "control_flow option"

definition plain_error :: "string \<Rightarrow> engine_error" where
  "plain_error m = \<lparr>ee_message = m, ee_flow = None\<rparr>"

datatype step_type = Capture | Transform | Apply | ControlStep | OtherType string

datatype recovery_strategy = RSkip | RAbort | RFallback | ROther string

datatype adf_step =
    AdfStep (as_graph: graph_step) (as_type: step_type) (as_op: string) (as_approval_required: bool)
      (as_resource_claims: "graph_claim list option") (as_on_error: "on_error option")
  and on_error =
    OnError (oe_strategy: recovery_strategy) (oe_fallback: "adf_step list option") (oe_ref: json)
      (oe_bind: "(string \<times> json) list")

datatype step_status = SSuccess | SFailed | SSkipped | SRecovered

record step_result =
  sr_op :: string
  sr_status :: step_status
  sr_error :: "string option"

record adf_result =
  rr_failed :: bool
  rr_results :: "step_result list"
  rr_context :: json
  rr_total :: nat

text \<open>What a control handler does next.\<close>

datatype 'w control_act =
    CReturn json 'w
  | CThrow engine_error 'w
  | CNested "adf_step list" json 'w "(engine_error + adf_result) \<times> 'w \<Rightarrow> 'w control_act"

text \<open>What an \<open>afterStep\<close> hook returns: nothing, a context, or a promise of either.\<close>

datatype hook_value = HVoid | HCtx json | HPromise "engine_error + json option"

record 'w handler_call =
  hc_step :: adf_step
  hc_number :: nat
  hc_params :: json
  hc_call :: "json preflight_call"
  hc_admitted :: 'w

record 'w engine_state =
  es_stepCount :: nat
  es_governor :: repeat_state
  es_loopDepth :: nat
  es_world :: 'w
  es_calls :: "'w handler_call list" \<comment> \<open>history: the calls of handlers, for the proofs\<close>

record 'w engine_env =
  en_maxSteps :: "nat option"
  en_timeoutMs :: "ms option"
  en_startTime :: ms
  en_clock :: "nat \<Rightarrow> ms"
  en_resolve :: "json \<Rightarrow> json \<Rightarrow> engine_error + json"
  en_stringify :: "json \<Rightarrow> string"
  en_gate :: "(adf_step \<Rightarrow> nat \<Rightarrow> json \<Rightarrow> 'w \<Rightarrow> (engine_error + (bool \<times> string list) option) \<times> 'w) option"
  en_localeCompare :: "ident \<Rightarrow> ident \<Rightarrow> bool"
  en_pluginDenial :: "string \<Rightarrow> ident option"
  en_registry :: "'w \<Rightarrow> json preflight_registry"
  en_approvalGranted :: "(adf_step \<Rightarrow> json \<Rightarrow> 'w \<Rightarrow> (engine_error + bool) \<times> 'w) option"
  en_hasHuman :: "bool option"
  en_capture :: "string \<Rightarrow> json \<Rightarrow> json \<Rightarrow> 'w \<Rightarrow> (engine_error + json) \<times> 'w"
  en_transform :: "string \<Rightarrow> json \<Rightarrow> json \<Rightarrow> 'w \<Rightarrow> (engine_error + json) \<times> 'w"
  en_apply :: "string \<Rightarrow> json \<Rightarrow> json \<Rightarrow> 'w \<Rightarrow> (engine_error + json) \<times> 'w"
  en_control :: "(string \<Rightarrow> json \<Rightarrow> json \<Rightarrow> 'w \<Rightarrow> 'w control_act) option"
  en_observe :: "string \<Rightarrow> json \<Rightarrow> json \<Rightarrow> 'w \<Rightarrow> engine_error option \<times> 'w"
  en_beforeStep :: "adf_step \<Rightarrow> nat \<Rightarrow> json \<Rightarrow> 'w \<Rightarrow> engine_error option \<times> 'w"
  en_afterStep :: "(adf_step \<Rightarrow> nat \<Rightarrow> json \<Rightarrow> step_status \<Rightarrow> string option \<Rightarrow> 'w \<Rightarrow> (engine_error + hook_value) \<times> 'w) option"
  en_load :: "string \<Rightarrow> json \<Rightarrow> 'w \<Rightarrow> engine_error + adf_step list \<times> (string \<times> json) list"
  en_evaluate :: "json \<Rightarrow> json \<Rightarrow> bool"
  en_accessClaims :: "string \<Rightarrow> string \<Rightarrow> json \<Rightarrow> engine_error + graph_claim list"
  en_resumed :: "ident list"

definition with_world :: "'w \<Rightarrow> 'w engine_state \<Rightarrow> 'w engine_state" where
  "with_world w st = st\<lparr>es_world := w\<rparr>"

definition as_params :: "adf_step \<Rightarrow> json" where
  "as_params s = gs_params (as_graph s)"

definition step_type_text :: "step_type \<Rightarrow> string" where
  "step_type_text t = (case t of Capture \<Rightarrow> ''capture'' | Transform \<Rightarrow> ''transform'' | Apply \<Rightarrow> ''apply''
     | ControlStep \<Rightarrow> ''control'' | OtherType s \<Rightarrow> s)"

definition tool_name :: "adf_step \<Rightarrow> string" where
  "tool_name s = step_type_text (as_type s) @ '':'' @ as_op s"

definition derivePipelineStatus :: "step_result list \<Rightarrow> bool" where
  "derivePipelineStatus results = list_ex (\<lambda>r. sr_status r = SFailed) results"

section \<open>Bounds\<close>

definition DEFAULT_MAX_PIPELINE_STEPS :: nat where
  "DEFAULT_MAX_PIPELINE_STEPS = 1000"

definition DEFAULT_PIPELINE_TIMEOUT_MS :: ms where
  "DEFAULT_PIPELINE_TIMEOUT_MS = 60000"

definition assertExecutionBounds :: "nat \<Rightarrow> ms \<Rightarrow> nat option \<Rightarrow> ms option \<Rightarrow> ms \<Rightarrow> engine_error option" where
  "assertExecutionBounds stepCount startTime maxSteps timeoutMs now =
    (let ms = (case maxSteps of Some n \<Rightarrow> n | None \<Rightarrow> DEFAULT_MAX_PIPELINE_STEPS);
         tm = (case timeoutMs of Some t \<Rightarrow> t | None \<Rightarrow> DEFAULT_PIPELINE_TIMEOUT_MS)
     in if stepCount > ms then Some (plain_error (''[SAFETY_LIMIT] Exceeded maximum pipeline steps ('' @ show_nat ms @ '')''))
        else if now - startTime > tm then Some (plain_error (''[SAFETY_LIMIT] Pipeline execution timed out ('' @ show_int tm @ ''ms)''))
        else None)"

definition LOOP_CONTROL_OPS :: "string list" where
  "LOOP_CONTROL_OPS = [''while'', ''loop_until'', ''retry_until_quality'', ''foreach'', ''parallel_foreach'', ''accumulate'']"

definition isLoopControlOp :: "string \<Rightarrow> bool" where
  "isLoopControlOp op = ((if take 5 op = ''core:'' then drop 5 op else op) \<in> set LOOP_CONTROL_OPS)"

section \<open>Hooks\<close>

text \<open>The context after the \<open>afterStep\<close> hook. Where the code does not await the hook, a promise becomes the
  context itself: an object without properties.\<close>

definition after_hook ::
  "'w engine_env \<Rightarrow> bool \<Rightarrow> adf_step \<Rightarrow> json \<Rightarrow> step_status \<Rightarrow> string option \<Rightarrow> 'w engine_state \<Rightarrow>
   (engine_error + json) \<times> 'w engine_state" where
  "after_hook env awaited step ctx status err st =
    (case en_afterStep env of
       None \<Rightarrow> (Inr ctx, st)
     | Some h \<Rightarrow>
         (case h step (es_stepCount st) ctx status err (es_world st) of
            (Inl e, w) \<Rightarrow> (Inl e, with_world w st)
          | (Inr v, w) \<Rightarrow>
              ((case v of
                  HVoid \<Rightarrow> Inr ctx
                | HCtx c \<Rightarrow> Inr (if jtruthy c then c else ctx)
                | HPromise p \<Rightarrow>
                    if \<not> awaited then Inr (JObj [])
                    else (case p of Inl e \<Rightarrow> Inl e | Inr None \<Rightarrow> Inr ctx
                          | Inr (Some c) \<Rightarrow> Inr (if jtruthy c then c else ctx))), with_world w st)))"

section \<open>Admission of a step\<close>

definition decision_text :: "preflight_decision \<Rightarrow> string" where
  "decision_text d = (case d of Allow \<Rightarrow> ''ALLOW'' | Block \<Rightarrow> ''BLOCK'' | Ask \<Rightarrow> ''ASK'')"

definition preflight_call_of :: "'w engine_env \<Rightarrow> adf_step \<Rightarrow> json \<Rightarrow> json \<Rightarrow> bool \<Rightarrow> json preflight_call" where
  "preflight_call_of env step ctx params granted =
    \<lparr>pc_op = as_op step, pc_params = js_entries params, pc_context = Some (js_entries ctx), pc_source = FromActuator,
     pc_requiresApproval = Some (as_approval_required step \<or> jget params ''_approval_required'' = JBool True \<or>
       jget ctx ''_approval_required'' = JBool True),
     pc_approvalGranted = Some granted, pc_hasHuman = en_hasHuman env\<rparr>"

text \<open>The preflight of a step: the parameters that reach the handler, those with the governance stamps for
  the observation, and the call that was admitted.\<close>

definition preflight_step ::
  "'w engine_env \<Rightarrow> adf_step \<Rightarrow> json \<Rightarrow> 'w engine_state \<Rightarrow>
   (engine_error + json \<times> json \<times> json preflight_call) \<times> 'w engine_state" where
  "preflight_step env step ctx st =
    (case en_resolve env (as_params step) ctx of
       Inl e \<Rightarrow> (Inl e, st)
     | Inr v \<Rightarrow>
         (let params = (if jtruthy v then v else JObj []) in
          case (case en_approvalGranted env of None \<Rightarrow> (Inr False, es_world st) | Some f \<Rightarrow> f step ctx (es_world st)) of
            (Inl e, w) \<Rightarrow> (Inl e, with_world w st)
          | (Inr granted, w) \<Rightarrow>
              (let call = preflight_call_of env step ctx params granted; st' = with_world w st in
               case runOpPreflight (en_localeCompare env) (en_pluginDenial env) (en_registry env w) call of
                 Inl e \<Rightarrow> (Inl (plain_error (case e of StageThrew m \<Rightarrow> m | _ \<Rightarrow> [])), st')
               | Inr r \<Rightarrow>
                   if pr_decision r \<noteq> Allow
                   then (Inl \<lparr>ee_message = ''[OP_PREFLIGHT_'' @ decision_text (pr_decision r) @ ''] '' @
                            (if truthy_opt (pr_reason r) then the (pr_reason r)
                             else ''Operation '' @ as_op step @ '' was not admitted.''),
                          ee_flow = Some PreflightFlow\<rparr>, st')
                   else (Inr (JObj (strip_stamps (pr_input r)),
                          JObj (js_assign (pr_input r) (case pr_stamps r of Some m \<Rightarrow> m | None \<Rightarrow> [])), call), st'))))"

fun join_with :: "string \<Rightarrow> string list \<Rightarrow> string" where
  "join_with sep [] = []"
| "join_with sep [x] = x"
| "join_with sep (x # y # xs) = x @ sep @ join_with sep (y # xs)"

definition gate_reasons :: "string list \<Rightarrow> string" where
  "gate_reasons reasons =
    (let t = join_with ''; '' reasons in if t = [] then ''no reason given'' else t)"

definition gate_step ::
  "'w engine_env \<Rightarrow> adf_step \<Rightarrow> json \<Rightarrow> 'w engine_state \<Rightarrow> engine_error option \<times> 'w engine_state" where
  "gate_step env step ctx st =
    (case en_gate env of
       None \<Rightarrow> (None, st)
     | Some g \<Rightarrow>
         (case g step (es_stepCount st) ctx (es_world st) of
            (Inl e, w) \<Rightarrow> (Some e, with_world w st)
          | (Inr (Some (True, reasons)), w) \<Rightarrow>
              (Some (plain_error (''[SAFETY_LIMIT][HOOK_BLOCKED] '' @ tool_name step @ '' blocked by lifecycle hook: '' @
                 gate_reasons reasons)), with_world w st)
          | (Inr _, w) \<Rightarrow> (None, with_world w st)))"

definition govern_step ::
  "'w engine_env \<Rightarrow> adf_step \<Rightarrow> json \<Rightarrow> 'w engine_state \<Rightarrow> engine_error option \<times> 'w engine_state" where
  "govern_step env step ctx st =
    (let args = (case en_resolve env (as_params step) ctx of Inr v \<Rightarrow> v | Inl _ \<Rightarrow> as_params step);
         d = advanceToolCallRepeatGovernor (en_stringify env) (es_governor st) (tool_name step) args no_config;
         st' = st\<lparr>es_governor := rd_state d\<rparr>
     in if rd_should_force_stop d \<and> es_loopDepth st = 0
        then (Some (plain_error (''[SAFETY_LIMIT] '' @ tool_name step @ '' repeated '' @ show_nat (rd_streak d) @
               '' times in a row with identical arguments'')), st')
        else (None, st'))"

definition admit_step ::
  "'w engine_env \<Rightarrow> adf_step \<Rightarrow> json \<Rightarrow> 'w engine_state \<Rightarrow>
   (engine_error + json \<times> json \<times> json preflight_call) \<times> 'w engine_state" where
  "admit_step env step ctx st =
    (case govern_step env step ctx st of
       (Some e, st1) \<Rightarrow> (Inl e, st1)
     | (None, st1) \<Rightarrow>
         (case gate_step env step ctx st1 of
            (Some e, st2) \<Rightarrow> (Inl e, st2)
          | (None, st2) \<Rightarrow> preflight_step env step ctx st2))"

section \<open>Running one step\<close>

type_synonym 'w nested =
  "adf_step list \<Rightarrow> json \<Rightarrow> 'w engine_state \<Rightarrow> ((engine_error + adf_result) \<times> 'w engine_state) option"

text \<open>How the body of the \<open>try\<close> block ends: the next step, the end of the stream, or a thrown error.\<close>

datatype body_end = BNext | BBreak | BThrew engine_error

type_synonym 'w body = "body_end \<times> json \<times> step_result list \<times> 'w engine_state"

definition isSkippedStep :: "json \<Rightarrow> bool" where
  "isSkippedStep v = (jget v ''skipped'' = JBool True)"

definition finish_step ::
  "'w engine_env \<Rightarrow> adf_step \<Rightarrow> json \<Rightarrow> bool \<Rightarrow> json \<Rightarrow> step_result list \<Rightarrow> 'w engine_state \<Rightarrow> 'w body" where
  "finish_step env step governed stop ctx results st =
    (case (if as_type step = ControlStep then (None, es_world st)
           else en_observe env (as_op step) governed ctx (es_world st)) of
       (Some e, w) \<Rightarrow> (BThrew e, ctx, results, with_world w st)
     | (None, w) \<Rightarrow>
         (let rs = results @ [\<lparr>sr_op = as_op step, sr_status = SSuccess, sr_error = None\<rparr>] in
          case after_hook env True step ctx SSuccess None (with_world w st) of
            (Inl e, st') \<Rightarrow> (BThrew e, ctx, rs, st')
          | (Inr c, st') \<Rightarrow> (if stop then BBreak else BNext, c, rs, st')))"

definition finish_skipped ::
  "'w engine_env \<Rightarrow> bool \<Rightarrow> adf_step \<Rightarrow> json \<Rightarrow> step_result list \<Rightarrow> 'w engine_state \<Rightarrow> 'w body" where
  "finish_skipped env awaited step v results st =
    (let ctx = jget v ''context''; rs = results @ [\<lparr>sr_op = as_op step, sr_status = SSkipped, sr_error = None\<rparr>] in
     case after_hook env awaited step ctx SSkipped None st of
       (Inl e, st') \<Rightarrow> (BThrew e, ctx, rs, st')
     | (Inr c, st') \<Rightarrow> (BNext, c, rs, st'))"

definition call_handler ::
  "(string \<Rightarrow> json \<Rightarrow> json \<Rightarrow> 'w \<Rightarrow> (engine_error + json) \<times> 'w) \<Rightarrow> adf_step \<Rightarrow> json \<Rightarrow> json preflight_call \<Rightarrow> 'w \<Rightarrow>
   json \<Rightarrow> 'w engine_state \<Rightarrow> (engine_error + json) \<times> 'w engine_state" where
  "call_handler h step params call admitted ctx st =
    (case h (as_op step) params ctx (es_world st) of
       (r, w) \<Rightarrow> (r, st\<lparr>es_world := w, es_calls := es_calls st @
          [\<lparr>hc_step = step, hc_number = es_stepCount st, hc_params = params, hc_call = call, hc_admitted = admitted\<rparr>]\<rparr>))"

text \<open>The control handler, played against the nested runs.\<close>

primrec run_control ::
  "'w nested \<Rightarrow> 'w control_act \<Rightarrow> 'w engine_state \<Rightarrow> ((engine_error + json) \<times> 'w engine_state) option" where
  "run_control nest (CReturn v w) = (\<lambda>st. Some (Inr v, with_world w st))"
| "run_control nest (CThrow e w) = (\<lambda>st. Some (Inl e, with_world w st))"
| "run_control nest (CNested steps seed w k) = (\<lambda>st.
     case nest steps seed (with_world w st) of
       None \<Rightarrow> None
     | Some (r, st') \<Rightarrow> run_control nest (k (r, es_world st')) st')"

definition in_loop :: "int \<Rightarrow> adf_step \<Rightarrow> 'w engine_state \<Rightarrow> 'w engine_state" where
  "in_loop d step st =
    (if isLoopControlOp (as_op step) then st\<lparr>es_loopDepth := nat (int (es_loopDepth st) + d)\<rparr> else st)"

definition control_body ::
  "'w engine_env \<Rightarrow> 'w nested \<Rightarrow> adf_step \<Rightarrow> json \<Rightarrow> json \<Rightarrow> step_result list \<Rightarrow> 'w engine_state \<Rightarrow> 'w body option" where
  "control_body env nest step params ctx results st =
    (case en_control env of
       None \<Rightarrow> Some (BThrew (plain_error (''[UNKNOWN_TYPE] Unknown control step op: '' @ as_op step)), ctx, results, st)
     | Some h \<Rightarrow>
         (case run_control nest (h (as_op step) params ctx (es_world st)) (in_loop 1 step st) of
            None \<Rightarrow> None
          | Some (Inl e, st1) \<Rightarrow> Some (BThrew e, ctx, results, in_loop (-1) step st1)
          | Some (Inr v, st1) \<Rightarrow>
              Some (if isSkippedStep v then finish_skipped env True step v results (in_loop (-1) step st1)
                    else finish_step env step params (jget v ''__adf_terminal'' = JBool True) v results
                           (in_loop (-1) step st1))))"

definition step_body ::
  "'w engine_env \<Rightarrow> 'w nested \<Rightarrow> adf_step \<Rightarrow> json \<Rightarrow> json \<Rightarrow> json preflight_call \<Rightarrow> 'w \<Rightarrow> json \<Rightarrow> step_result list \<Rightarrow>
   'w engine_state \<Rightarrow> 'w body option" where
  "step_body env nest step params governed call admitted ctx results st =
    (case as_type step of
       ControlStep \<Rightarrow> control_body env nest step params ctx results st
     | Capture \<Rightarrow>
         Some (case call_handler (en_capture env) step params call admitted ctx st of
                 (Inl e, st') \<Rightarrow> (BThrew e, ctx, results, st')
               | (Inr c, st') \<Rightarrow> finish_step env step governed False c results st')
     | Transform \<Rightarrow>
         Some (case call_handler (en_transform env) step params call admitted ctx st of
                 (Inl e, st') \<Rightarrow> (BThrew e, ctx, results, st')
               | (Inr c, st') \<Rightarrow> finish_step env step governed False c results st')
     | Apply \<Rightarrow>
         Some (case call_handler (en_apply env) step params call admitted ctx st of
                 (Inl e, st') \<Rightarrow> (BThrew e, ctx, results, st')
               | (Inr v, st') \<Rightarrow>
                   if isSkippedStep v then finish_skipped env False step v results st'
                   else finish_step env step governed False (if v = JUndef then ctx else v) results st')
     | OtherType t \<Rightarrow> Some (BThrew (plain_error (''[UNKNOWN_TYPE] Unknown step type: '' @ t)), ctx, results, st))"

section \<open>Recovery\<close>

definition MAX_REF_DEPTH :: nat where
  "MAX_REF_DEPTH = 10"

definition ref_depth :: "json \<Rightarrow> rat" where
  "ref_depth ctx =
    (case jget ctx ''_refDepth'' of
       JNum r \<Rightarrow> if snd (quotient_of r) = 1 \<and> r \<ge> 0 then r + 1 else 1
     | _ \<Rightarrow> 1)"

fun resolve_bind ::
  "(json \<Rightarrow> engine_error + json) \<Rightarrow> (string \<times> json) list \<Rightarrow> engine_error + (string \<times> json) list" where
  "resolve_bind f [] = Inr []"
| "resolve_bind f ((k, v) # kvs) =
    (case f v of
       Inl e \<Rightarrow> Inl e
     | Inr x \<Rightarrow> (case resolve_bind f kvs of Inl e \<Rightarrow> Inl e | Inr r \<Rightarrow> Inr ((k, x) # r)))"

text \<open>The steps of a referenced pipeline and the context merged for them.\<close>

definition resolveRef ::
  "'w engine_env \<Rightarrow> string \<Rightarrow> (string \<times> json) list \<Rightarrow> json \<Rightarrow> 'w \<Rightarrow> engine_error + adf_step list \<times> json" where
  "resolveRef env path bind ctx w =
    (if ref_depth ctx > of_nat MAX_REF_DEPTH
     then Inl (plain_error ''[PIPELINE] Circular ref or depth exceeded'')
     else
       (case en_load env path ctx w of
          Inl e \<Rightarrow> Inl e
        | Inr (steps, sub) \<Rightarrow>
            (case resolve_bind (\<lambda>v. en_resolve env v ctx) bind of
               Inl e \<Rightarrow> Inl e
             | Inr b \<Rightarrow> Inr (steps, JObj (js_assign (js_assign (js_assign [] sub) b) [(''_refDepth'', JNum (ref_depth ctx))])))))"

definition error_info :: "engine_error \<Rightarrow> adf_step \<Rightarrow> json" where
  "error_info e step =
    JObj [(''message'', JStr (ee_message e)),
          (''step_id'', case gs_id (as_graph step) of Some i \<Rightarrow> JStr i | None \<Rightarrow> JUndef),
          (''step_op'', JStr (as_op step))]"

definition fallback_source ::
  "'w engine_env \<Rightarrow> on_error \<Rightarrow> engine_error \<Rightarrow> json \<Rightarrow> 'w \<Rightarrow> engine_error + adf_step list \<times> json" where
  "fallback_source env oe e ctx w =
    (case oe_fallback oe of
       Some steps \<Rightarrow> Inr (steps, ctx)
     | None \<Rightarrow>
         if \<not> jtruthy (oe_ref oe) then Inl e
         else
           (case en_resolve env (oe_ref oe) ctx of
              Inl e' \<Rightarrow> Inl e'
            | Inr (JStr path) \<Rightarrow>
                if js_trim path = [] then Inl (plain_error ''[PIPELINE] on_error fallback ref must resolve to a non-empty string'')
                else (case resolveRef env path (oe_bind oe) ctx w of
                        Inl e' \<Rightarrow> Inl e'
                      | Inr (steps, merged) \<Rightarrow> Inr (steps, js_spread ctx merged))
            | Inr _ \<Rightarrow> Inl (plain_error ''[PIPELINE] on_error fallback ref must resolve to a non-empty string'')))"

definition first_failure :: "step_result list \<Rightarrow> string" where
  "first_failure rs =
    (case List.find (\<lambda>r. sr_status r = SFailed) rs of
       Some r \<Rightarrow> if truthy_opt (sr_error r) then the (sr_error r) else ''on_error fallback pipeline failed''
     | None \<Rightarrow> ''on_error fallback pipeline failed'')"

definition handleStepError ::
  "'w engine_env \<Rightarrow> 'w nested \<Rightarrow> adf_step \<Rightarrow> on_error \<Rightarrow> engine_error \<Rightarrow> json \<Rightarrow> 'w engine_state \<Rightarrow>
   ((engine_error + json) \<times> 'w engine_state) option" where
  "handleStepError env nest step oe e ctx st =
    (case oe_strategy oe of
       RSkip \<Rightarrow> Some (Inr (js_spread ctx (JObj [(''_error'', error_info e step)])), st)
     | RFallback \<Rightarrow>
         (case fallback_source env oe e ctx (es_world st) of
            Inl e' \<Rightarrow> Some (Inl e', st)
          | Inr (steps, ctx') \<Rightarrow>
              (case nest steps (js_spread ctx' (JObj [(''_error'', error_info e step)])) st of
                 None \<Rightarrow> None
               | Some (Inl e', st') \<Rightarrow> Some (Inl e', st')
               | Some (Inr res, st') \<Rightarrow>
                   Some (if rr_failed res then Inl (plain_error (first_failure (rr_results res))) else Inr (rr_context res), st')))
     | _ \<Rightarrow> Some (Inl e, st))"

section \<open>The serial stream\<close>

datatype 'w step_end =
    SNext json "step_result list"
  | SStop json "step_result list"
  | SThrow engine_error

definition fail_step ::
  "'w engine_env \<Rightarrow> adf_step \<Rightarrow> engine_error \<Rightarrow> json \<Rightarrow> step_result list \<Rightarrow> 'w engine_state \<Rightarrow>
   'w step_end \<times> 'w engine_state" where
  "fail_step env step e ctx results st =
    (let rs = results @ [\<lparr>sr_op = as_op step, sr_status = SFailed, sr_error = Some (ee_message e)\<rparr>] in
     case after_hook env True step ctx SFailed (Some (ee_message e)) st of
       (Inl e', st') \<Rightarrow> (SThrow e', st')
     | (Inr c, st') \<Rightarrow> (SStop c rs, st'))"

definition catch_step ::
  "'w engine_env \<Rightarrow> 'w nested \<Rightarrow> adf_step \<Rightarrow> engine_error \<Rightarrow> json \<Rightarrow> step_result list \<Rightarrow> 'w engine_state \<Rightarrow>
   ('w step_end \<times> 'w engine_state) option" where
  "catch_step env nest step e ctx results st =
    (if ee_flow e = Some SuspendFlow then Some (SThrow e, st)
     else
       (case (if ee_flow e = Some PreflightFlow then None else as_on_error step) of
          None \<Rightarrow> Some (fail_step env step e ctx results st)
        | Some oe \<Rightarrow>
            (case handleStepError env nest step oe e ctx st of
               None \<Rightarrow> None
             | Some (Inl _, st') \<Rightarrow> Some (fail_step env step e ctx results st')
             | Some (Inr c, st') \<Rightarrow>
                 (let rs = results @ [\<lparr>sr_op = as_op step, sr_status = SRecovered, sr_error = None\<rparr>] in
                  case after_hook env True step c SRecovered (Some (ee_message e)) st' of
                    (Inl _, st'') \<Rightarrow> Some (fail_step env step e c rs st'')
                  | (Inr c', st'') \<Rightarrow> Some (SNext c' rs, st'')))))"

text \<open>A control step is not admitted; its parameters go to the handler as they are.\<close>

definition step_admission ::
  "'w engine_env \<Rightarrow> adf_step \<Rightarrow> json \<Rightarrow> 'w engine_state \<Rightarrow>
   (engine_error + json \<times> json \<times> json preflight_call) \<times> 'w engine_state" where
  "step_admission env step ctx st =
    (if as_type step = ControlStep
     then (Inr (as_params step, as_params step, preflight_call_of env step ctx (as_params step) False), st)
     else admit_step env step ctx st)"

definition proceed_step ::
  "'w engine_env \<Rightarrow> 'w nested \<Rightarrow> adf_step \<Rightarrow> json \<times> json \<times> json preflight_call \<Rightarrow> json \<Rightarrow> step_result list \<Rightarrow>
   'w engine_state \<Rightarrow> ('w step_end \<times> 'w engine_state) option" where
  "proceed_step env nest step admission ctx results st =
    (case admission of
       (params, governed, call) \<Rightarrow>
         (case en_beforeStep env step (es_stepCount st) ctx (es_world st) of
            (Some e, w) \<Rightarrow> Some (SThrow e, with_world w st)
          | (None, w) \<Rightarrow>
              (case step_body env nest step params governed call (es_world st) ctx results (with_world w st) of
                 None \<Rightarrow> None
               | Some (BNext, c, rs, st2) \<Rightarrow> Some (SNext c rs, st2)
               | Some (BBreak, c, rs, st2) \<Rightarrow> Some (SStop c rs, st2)
               | Some (BThrew e, c, rs, st2) \<Rightarrow> catch_step env nest step e c rs st2)))"

definition counted :: "'w engine_state \<Rightarrow> 'w engine_state" where
  "counted st = st\<lparr>es_stepCount := es_stepCount st + 1\<rparr>"

definition run_step ::
  "'w engine_env \<Rightarrow> 'w nested \<Rightarrow> adf_step \<Rightarrow> json \<Rightarrow> step_result list \<Rightarrow> 'w engine_state \<Rightarrow>
   ('w step_end \<times> 'w engine_state) option" where
  "run_step env nest step ctx results st0 =
    (let st = counted st0 in
     case assertExecutionBounds (es_stepCount st) (en_startTime env) (en_maxSteps env) (en_timeoutMs env)
            (en_clock env (es_stepCount st)) of
       Some e \<Rightarrow> Some (SThrow e, st)
     | None \<Rightarrow>
         (case step_admission env step ctx st of
            (Inl e, st1) \<Rightarrow> Some (SThrow e, st1)
          | (Inr a, st1) \<Rightarrow> proceed_step env nest step a ctx results st1))"

fun run_stream ::
  "'w engine_env \<Rightarrow> 'w nested \<Rightarrow> adf_step list \<Rightarrow> json \<Rightarrow> step_result list \<Rightarrow> 'w engine_state \<Rightarrow>
   ((engine_error + json \<times> step_result list) \<times> 'w engine_state) option" where
  "run_stream env nest [] ctx results st = Some (Inr (ctx, results), st)"
| "run_stream env nest (step # steps) ctx results st =
    (case run_step env nest step ctx results st of
       None \<Rightarrow> None
     | Some (SThrow e, st') \<Rightarrow> Some (Inl e, st')
     | Some (SStop c rs, st') \<Rightarrow> Some (Inr (c, rs), st')
     | Some (SNext c rs, st') \<Rightarrow> run_stream env nest steps c rs st')"

section \<open>Graph-declared streams\<close>

definition graph_declared :: "adf_step list \<Rightarrow> bool" where
  "graph_declared steps =
    list_ex (\<lambda>s. gs_depends_on (as_graph s) \<noteq> None \<or> gs_consumes (as_graph s) \<noteq> ConsNone \<or> gs_when (as_graph s) \<noteq> JUndef) steps"

fun until_colon :: "string \<Rightarrow> string \<times> string option" where
  "until_colon [] = ([], None)"
| "until_colon (c # cs) =
    (if c = CHR '':'' then ([], Some cs) else (case until_colon cs of (a, b) \<Rightarrow> (c # a, b)))"

fun unique_claims :: "graph_claim list \<Rightarrow> graph_claim list" where
  "unique_claims [] = []"
| "unique_claims (StringClaim s # cs) = StringClaim s # unique_claims (removeAll (StringClaim s) cs)"
| "unique_claims (TypedClaim t # cs) = TypedClaim t # unique_claims cs"

text \<open>The claims of a step: its own, or those of the access contract of its operation. A typed claim is an object of
  its own, so only string claims are merged.\<close>

definition resolveAdfResourceClaims :: "'w engine_env \<Rightarrow> adf_step \<Rightarrow> json \<Rightarrow> graph_claim list" where
  "resolveAdfResourceClaims env step ctx =
    (case as_resource_claims step of
       Some cs \<Rightarrow> unique_claims cs
     | None \<Rightarrow>
         (let (domain, rest) = until_colon (as_op step);
              action = (case rest of Some r \<Rightarrow> fst (until_colon r) | None \<Rightarrow> [])
          in if domain = [] \<or> action = [] \<or> domain = ''core'' then []
             else if domain \<notin> {''browser'', ''file'', ''system''} then []
             else
               (case (case en_resolve env (if jtruthy (as_params step) then as_params step else JObj []) ctx of
                        Inl e \<Rightarrow> Inl e
                      | Inr v \<Rightarrow> en_accessClaims env domain action (if jtruthy v then v else JObj [])) of
                  Inl _ \<Rightarrow> [StringClaim ''resource:all'']
                | Inr cs \<Rightarrow> cs)))"

definition context_keys :: "json \<Rightarrow> string list" where
  "context_keys v = map fst (js_entries v)"

definition engine_graph_options :: "'w engine_env \<Rightarrow> adf_step list \<Rightarrow> json \<Rightarrow> graph_options" where
  "engine_graph_options env steps ctx =
    \<lparr>op_maxConcurrency = None, op_initialContext = ctx, op_precompleted = en_resumed env, op_precompletedContext = None,
     op_preskipped = [], op_evaluateWhen = Some (en_evaluate env),
     op_resourceClaims = Some (\<lambda>node c. resolveAdfResourceClaims env (steps ! gn_index node) c), op_mergeContext = None\<rparr>"

text \<open>The step without its graph declarations: one node is run as a stream of one step.\<close>

definition without_graph :: "adf_step \<Rightarrow> adf_step" where
  "without_graph s =
    AdfStep ((as_graph s)\<lparr>gs_depends_on := None, gs_consumes := ConsNone, gs_when := JUndef, gs_merge := None\<rparr>)
      (as_type s) (as_op s) (as_approval_required s) (as_resource_claims s) (as_on_error s)"

definition node_outcome :: "adf_result \<Rightarrow> graph_outcome" where
  "node_outcome res =
    \<lparr>go_status = (if rr_failed res then OFailed else OSuccess), go_context = rr_context res,
     go_error = (case List.find (\<lambda>r. sr_status r = SFailed) (rr_results res) of
        Some r \<Rightarrow> if truthy_opt (sr_error r) then sr_error r else None
      | None \<Rightarrow> None)\<rparr>"

definition run_node ::
  "'w nested \<Rightarrow> adf_step \<Rightarrow> json \<Rightarrow> 'w engine_state \<Rightarrow> ((engine_error + graph_outcome) \<times> 'w engine_state) option" where
  "run_node nest step ctx st =
    (case nest [without_graph step] ctx st of
       None \<Rightarrow> None
     | Some (Inl e, st') \<Rightarrow> Some (Inl e, st')
     | Some (Inr res, st') \<Rightarrow> Some (Inr (node_outcome res), st'))"

definition as_handler_result :: "engine_error + graph_outcome \<Rightarrow> handler_result" where
  "as_handler_result r =
    (case r of Inl e \<Rightarrow> if ee_flow e = Some SuspendFlow then Suspended else Threw (ee_message e) | Inr o' \<Rightarrow> Returned o')"

text \<open>The loop of \<open>executeGraph\<close> with one node at a time: the node that the sweep started runs to its end. The
  number is the iterations still allowed.\<close>

primrec drive_graph ::
  "nat \<Rightarrow> 'w nested \<Rightarrow> adf_step list \<Rightarrow> graph_options \<Rightarrow> graph_node list \<Rightarrow> run_state \<Rightarrow> 'w engine_state \<Rightarrow>
   ((engine_error + run_state) \<times> 'w engine_state) option" where
  "drive_graph 0 nest steps opts nodes s st = None"
| "drive_graph (Suc n) nest steps opts nodes s st =
    (if \<not> unfinished s then Some (Inr s, st)
     else
       (case map fst (rs_active (fst (sweep opts nodes s))) of
          [] \<Rightarrow>
            (case run_iteration opts nodes s ([], Suspended) of
               Some (Going s') \<Rightarrow> drive_graph n nest steps opts nodes s' st
             | _ \<Rightarrow> Some (Inl (plain_error ''Graph scheduler deadlock: no ready node and no active node.''), st))
        | i # _ \<Rightarrow>
            (case find_node nodes i of
               None \<Rightarrow> None
             | Some node \<Rightarrow>
                 (case run_node nest (steps ! gn_index node) (rs_context s) st of
                    None \<Rightarrow> None
                  | Some (r, st') \<Rightarrow>
                      (case (run_iteration opts nodes s (i, as_handler_result r), r) of
                         (Some (Going s'), _) \<Rightarrow> drive_graph n nest steps opts nodes s' st'
                       | (Some SuspendedRun, Inl e) \<Rightarrow> Some (Inl e, st')
                       | _ \<Rightarrow> None)))))"

definition graph_results :: "adf_step list \<Rightarrow> graph_node list \<Rightarrow> (ident, graph_outcome) js_map \<Rightarrow> step_result list" where
  "graph_results steps nodes outcomes =
    concat (map (\<lambda>node.
      case map_of outcomes (gn_id node) of
        None \<Rightarrow> []
      | Some o' \<Rightarrow>
          (let err = (if truthy_opt (go_error o') then go_error o' else None);
               op = as_op (steps ! gn_index node)
           in if go_status o' = OSkipped then [\<lparr>sr_op = op, sr_status = SSkipped, sr_error = err\<rparr>]
              else if jtruthy (go_context o')
              then [\<lparr>sr_op = op, sr_status = (if go_status o' = OFailed then SFailed else SSuccess), sr_error = err\<rparr>]
              else [])) nodes)"

definition is_hard_error :: "graph_error \<Rightarrow> bool" where
  "is_hard_error e = (case e of MissingChannel _ _ \<Rightarrow> False | _ \<Rightarrow> True)"

definition run_graph ::
  "'w engine_env \<Rightarrow> 'w nested \<Rightarrow> adf_step list \<Rightarrow> json \<Rightarrow> 'w engine_state \<Rightarrow>
   ((engine_error + adf_result) \<times> 'w engine_state) option" where
  "run_graph env nest steps ctx st =
    (let (graph, errors) = deriveExecutionGraph (map as_graph steps) (context_keys ctx); nodes = eg_nodes graph in
     if list_ex is_hard_error errors then Some (Inl (plain_error ''[GRAPH_PREFLIGHT]''), st)
     else
       (let opts = engine_graph_options env steps ctx in
        case drive_graph (2 * length nodes + 1) nest steps opts nodes (run_init opts nodes) st of
          None \<Rightarrow> None
        | Some (Inl e, st') \<Rightarrow> Some (Inl e, st')
        | Some (Inr s, st') \<Rightarrow>
            (let rs = graph_results steps nodes (rs_outcomes s)
             in Some (Inr \<lparr>rr_failed = derivePipelineStatus rs, rr_results = rs, rr_context = rs_context s,
                           rr_total = es_stepCount st'\<rparr>, st'))))"

section \<open>The engine\<close>

definition engine_body ::
  "'w engine_env \<Rightarrow> 'w nested \<Rightarrow> 'w nested" where
  "engine_body env nest steps initialCtx st =
    (let ctx = js_spread (JObj []) initialCtx in
     if length steps > 1 \<and> graph_declared steps then run_graph env nest steps ctx st
     else
       (case run_stream env nest steps ctx [] st of
          None \<Rightarrow> None
        | Some (Inl e, st') \<Rightarrow> Some (Inl e, st')
        | Some (Inr (c, rs), st') \<Rightarrow>
            Some (Inr \<lparr>rr_failed = derivePipelineStatus rs, rr_results = rs, rr_context = c,
                       rr_total = es_stepCount st'\<rparr>, st')))"

primrec executeAdfStepsInternal :: "nat \<Rightarrow> 'w engine_env \<Rightarrow> 'w nested" where
  "executeAdfStepsInternal 0 env = (\<lambda>_ _ _. None)"
| "executeAdfStepsInternal (Suc n) env = engine_body env (executeAdfStepsInternal n env)"

definition initial_state :: "'w \<Rightarrow> 'w engine_state" where
  "initial_state w =
    \<lparr>es_stepCount = 0, es_governor = createToolCallRepeatGovernorState, es_loopDepth = 0, es_world = w, es_calls = []\<rparr>"

definition max_steps :: "'w engine_env \<Rightarrow> nat" where
  "max_steps env = (case en_maxSteps env of Some n \<Rightarrow> n | None \<Rightarrow> DEFAULT_MAX_PIPELINE_STEPS)"

definition executeAdfSteps ::
  "'w engine_env \<Rightarrow> adf_step list \<Rightarrow> json \<Rightarrow> 'w \<Rightarrow> ((engine_error + adf_result) \<times> 'w engine_state) option" where
  "executeAdfSteps env steps initialCtx w =
    executeAdfStepsInternal (2 * max_steps env + 2) env steps initialCtx (initial_state w)"

end
