(* ===== verification/Adf_Engine_Props.thy ===== *)
theory Adf_Engine_Props
  imports Adf_Engine Graph_Run_Props Op_Preflight_Props
begin

text \<open>
  What the pipeline engine guarantees: a run always ends, calls at most the maximal number of handlers, and
  every one of them was admitted by the preflight; the shape of the results; and two runs in
  which a refusal is lost.
\<close>

section \<open>How a run advances the state\<close>

text \<open>A handler call is good when the preflight allowed it and its parameters are the admitted ones.\<close>

definition good_call :: "'w engine_env \<Rightarrow> 'w handler_call \<Rightarrow> bool" where
  "good_call env hc \<longleftrightarrow> hc_number hc \<le> max_steps env \<and> pc_op (hc_call hc) = as_op (hc_step hc) \<and>
    (\<exists>r. runOpPreflight (en_localeCompare env) (en_pluginDenial env) (en_registry env (hc_admitted hc)) (hc_call hc) = Inr r \<and>
       pr_decision r = Allow \<and> hc_params hc = JObj (strip_stamps (pr_input r)))"

text \<open>Calls are numbered within the steps counted meanwhile, in order.\<close>

definition numbered :: "nat \<Rightarrow> nat \<Rightarrow> 'w handler_call list \<Rightarrow> bool" where
  "numbered a b cs \<longleftrightarrow> sorted_wrt (<) (map hc_number cs) \<and> list_all (\<lambda>hc. a < hc_number hc \<and> hc_number hc \<le> b) cs"

definition advances :: "'w engine_env \<Rightarrow> 'w engine_state \<Rightarrow> 'w engine_state \<Rightarrow> bool" where
  "advances env st st' \<longleftrightarrow> es_stepCount st \<le> es_stepCount st' \<and>
    (\<exists>cs. es_calls st' = es_calls st @ cs \<and> list_all (good_call env) cs \<and> numbered (es_stepCount st) (es_stepCount st') cs)"

lemma numbered_append:
  assumes "numbered a b cs" and "numbered b c ds" and "a \<le> b" and "b \<le> c"
  shows "numbered a c (cs @ ds)"
  using assms unfolding numbered_def by (auto simp: sorted_wrt_append list_all_iff) fastforce+

lemma advances_refl [simp]: "advances env st st"
  by (simp add: advances_def numbered_def)

lemma advances_trans [trans]:
  assumes "advances env a b" and "advances env b c"
  shows "advances env a c"
proof -
  from assms obtain cs ds where
    cs: "es_calls b = es_calls a @ cs" "list_all (good_call env) cs" "numbered (es_stepCount a) (es_stepCount b) cs" "es_stepCount a \<le> es_stepCount b"
    and ds: "es_calls c = es_calls b @ ds" "list_all (good_call env) ds" "numbered (es_stepCount b) (es_stepCount c) ds" "es_stepCount b \<le> es_stepCount c"
    unfolding advances_def by blast
  have "es_calls c = es_calls a @ (cs @ ds)" using cs(1) ds(1) by simp
  moreover have "list_all (good_call env) (cs @ ds)" using cs(2) ds(2) by simp
  moreover have "numbered (es_stepCount a) (es_stepCount c) (cs @ ds)" by (rule numbered_append [OF cs(3) ds(3) cs(4) ds(4)])
  ultimately show ?thesis unfolding advances_def using cs(4) ds(4) by (meson order_trans)
qed

text \<open>Operations that touch neither the counter nor the history.\<close>

definition quiet :: "'w engine_state \<Rightarrow> 'w engine_state \<Rightarrow> bool" where
  "quiet st st' \<longleftrightarrow> es_stepCount st' = es_stepCount st \<and> es_calls st' = es_calls st"

lemma quiet_simps [simp]:
  "quiet st st" "quiet st (with_world w st)" "quiet st (in_loop d step st)" "quiet st (st\<lparr>es_governor := g\<rparr>)"
  by (simp_all add: quiet_def with_world_def in_loop_def)

lemma quiet_trans [trans]: "quiet a b \<Longrightarrow> quiet b c \<Longrightarrow> quiet a c"
  by (simp add: quiet_def)

lemma quiet_advances: "quiet st st' \<Longrightarrow> advances env st st'"
  by (simp add: quiet_def advances_def numbered_def)

lemma after_hook_quiet: "after_hook env awaited step ctx status err st = (r, st') \<Longrightarrow> quiet st st'"
  by (auto simp: after_hook_def split: option.splits sum.splits prod.splits)

lemma finish_step_quiet: "finish_step env step governed stop ctx rs st = (e, c, rs', st') \<Longrightarrow> quiet st st'"
  using after_hook_quiet [of env True step ctx SSuccess None]
  by (auto simp: finish_step_def Let_def split: option.splits sum.splits prod.splits if_splits)
    (metis quiet_simps(2) quiet_trans)+

lemma finish_skipped_quiet: "finish_skipped env awaited step v rs st = (e, c, rs', st') \<Longrightarrow> quiet st st'"
  using after_hook_quiet [of env awaited step "jget v ''context''" SSkipped None st]
  by (auto simp: finish_skipped_def Let_def split: sum.splits prod.splits)

lemma fail_step_quiet: "fail_step env step e ctx rs st = (r, st') \<Longrightarrow> quiet st st'"
  using after_hook_quiet [of env True step ctx SFailed "Some (ee_message e)" st]
  by (auto simp: fail_step_def Let_def split: sum.splits prod.splits)

lemma admit_step_quiet: "admit_step env step ctx st = (r, st') \<Longrightarrow> quiet st st'"
proof -
  assume a: "admit_step env step ctx st = (r, st')"
  have gov: "quiet s s'" if "govern_step env step ctx s = (x, s')" for x s s'
    using that by (auto simp: govern_step_def Let_def split: if_splits)
  have gate: "quiet s s'" if "gate_step env step ctx s = (x, s')" for x s s'
    using that by (auto simp: gate_step_def split: option.splits prod.splits sum.splits bool.splits)
  have pre: "quiet s s'" if "preflight_step env step ctx s = (x, s')" for x s s'
    using that by (auto simp: preflight_step_def Let_def split: option.splits prod.splits sum.splits if_splits)
  from a show ?thesis
    by (auto simp: admit_step_def split: prod.splits option.splits dest!: gov gate pre intro: quiet_trans)
qed

definition nest_advances :: "'w engine_env \<Rightarrow> 'w nested \<Rightarrow> bool" where
  "nest_advances env nest \<longleftrightarrow> (\<forall>steps ctx st r st'. nest steps ctx st = Some (r, st') \<longrightarrow> advances env st st')"

lemma nest_advancesD: "nest_advances env nest \<Longrightarrow> nest steps ctx st = Some (r, st') \<Longrightarrow> advances env st st'"
  unfolding nest_advances_def by blast

lemma run_control_advances:
  assumes "nest_advances env nest"
  shows "run_control nest act st = Some (r, st') \<Longrightarrow> advances env st st'"
proof (induction act arbitrary: st)
  case (CNested steps seed w k)
  then obtain r1 st1 where 1: "nest steps seed (with_world w st) = Some (r1, st1)"
    "run_control nest (k (r1, es_world st1)) st1 = Some (r, st')"
    by (auto split: option.splits)
  have "advances env st (with_world w st)" by (simp add: quiet_advances)
  also have "advances env (with_world w st) st1" by (rule nest_advancesD [OF assms 1(1)])
  also have "advances env st1 st'" by (rule CNested.IH [OF _ 1(2)]) simp
  finally show ?case .
qed (auto simp: quiet_advances)

lemma control_body_advances:
  assumes "nest_advances env nest" and "control_body env nest step params ctx rs st = Some (e, c, rs', st')"
  shows "advances env st st'"
proof (cases "en_control env")
  case None
  with assms(2) show ?thesis by (simp add: control_body_def)
next
  case (Some h)
  from assms(2) Some obtain r st1 where 1: "run_control nest (h (as_op step) params ctx (es_world st)) (in_loop 1 step st) = Some (r, st1)"
    by (auto simp: control_body_def split: option.splits)
  have "advances env st (in_loop 1 step st)" by (simp add: quiet_advances)
  also have "advances env (in_loop 1 step st) st1" by (rule run_control_advances [OF assms(1) 1])
  also have "advances env st1 (in_loop (-1) step st1)" by (simp add: quiet_advances)
  also have "quiet (in_loop (-1) step st1) st'"
    using assms(2) Some 1 finish_step_quiet finish_skipped_quiet
    by (auto simp: control_body_def split: sum.splits if_splits)
  then have "advances env (in_loop (-1) step st1) st'" by (rule quiet_advances)
  finally show ?thesis .
qed

lemma handleStepError_advances:
  assumes "nest_advances env nest" and "handleStepError env nest step oe e ctx st = Some (r, st')"
  shows "advances env st st'"
  using assms(2) nest_advancesD [OF assms(1)]
  by (auto simp: handleStepError_def split: recovery_strategy.splits sum.splits prod.splits option.splits if_splits)

lemma catch_step_advances:
  assumes "nest_advances env nest" and "catch_step env nest step e ctx rs st = Some (r, st')"
  shows "advances env st st'"
proof (cases "ee_flow e = Some SuspendFlow \<or> ee_flow e = Some PreflightFlow \<or> as_on_error step = None")
  case True
  with assms(2) fail_step_quiet quiet_advances show ?thesis
    by (auto simp: catch_step_def split: if_splits) blast+
next
  case False
  then obtain oe where oe: "as_on_error step = Some oe" by blast
  with False assms(2) obtain r1 st1 where h: "handleStepError env nest step oe e ctx st = Some (r1, st1)"
    by (auto simp: catch_step_def split: option.splits)
  have "quiet st1 st'"
    using assms(2) False oe h
    by (auto simp: catch_step_def Let_def split: sum.splits prod.splits
        dest!: fail_step_quiet after_hook_quiet intro: quiet_trans)
  with handleStepError_advances [OF assms(1) h] show ?thesis
    using advances_trans quiet_advances by blast
qed

text \<open>The parameters that \<open>admit_step\<close> answers are those of an allowed call.\<close>

lemma admit_step_good:
  assumes "admit_step env step ctx st = (Inr (params, governed, call), st')"
  shows "pc_op call = as_op step \<and>
    (\<exists>r. runOpPreflight (en_localeCompare env) (en_pluginDenial env) (en_registry env (es_world st')) call = Inr r \<and>
       pr_decision r = Allow \<and> params = JObj (strip_stamps (pr_input r)))"
proof -
  from assms obtain s where "preflight_step env step ctx s = (Inr (params, governed, call), st')"
    by (auto simp: admit_step_def split: prod.splits option.splits)
  then show ?thesis
    by (auto simp: preflight_step_def Let_def preflight_call_of_def with_world_def
        split: option.splits prod.splits sum.splits if_splits)
qed

lemma call_handler_advances:
  assumes "call_handler h step params call admitted ctx st = (r, st')"
    and "es_stepCount st = Suc (es_stepCount st0)" and "es_calls st = es_calls st0" and "es_stepCount st \<le> max_steps env"
    and "pc_op call = as_op step"
    and "\<exists>r. runOpPreflight (en_localeCompare env) (en_pluginDenial env) (en_registry env admitted) call = Inr r \<and>
       pr_decision r = Allow \<and> params = JObj (strip_stamps (pr_input r))"
  shows "advances env st0 st'"
proof -
  let ?hc = "\<lparr>hc_step = step, hc_number = es_stepCount st, hc_params = params, hc_call = call, hc_admitted = admitted\<rparr>"
  have "es_calls st' = es_calls st0 @ [?hc]" "es_stepCount st' = Suc (es_stepCount st0)"
    using assms(1-3) by (auto simp: call_handler_def split: prod.splits)
  moreover have "good_call env ?hc" using assms(4-6) by (simp add: good_call_def)
  moreover have "numbered (es_stepCount st0) (Suc (es_stepCount st0)) [?hc]" using assms(2) by (simp add: numbered_def)
  ultimately show ?thesis unfolding advances_def by (intro conjI exI [of _ "[?hc]"]) auto
qed

lemma step_body_advances:
  assumes nest: "nest_advances env nest"
    and b: "step_body env nest step params governed call admitted ctx rs st = Some (e, c, rs', st')"
    and st: "es_stepCount st = Suc (es_stepCount st0)" "es_calls st = es_calls st0" "es_stepCount st \<le> max_steps env"
    and call: "as_type step \<noteq> ControlStep \<Longrightarrow> pc_op call = as_op step \<and>
      (\<exists>r. runOpPreflight (en_localeCompare env) (en_pluginDenial env) (en_registry env admitted) call = Inr r \<and>
       pr_decision r = Allow \<and> params = JObj (strip_stamps (pr_input r)))"
  shows "advances env st0 st'"
proof -
  have start: "advances env st0 st" using st by (simp add: advances_def numbered_def)
  have handled: "advances env st0 st1" if "as_type step \<noteq> ControlStep" "call_handler h step params call admitted ctx st = (r, st1)" for h r st1
    using call_handler_advances [OF that(2) st] call [OF that(1)] by blast
  show ?thesis
  proof (cases "as_type step")
    case ControlStep
    with b have "control_body env nest step params ctx rs st = Some (e, c, rs', st')" by (simp add: step_body_def)
    from control_body_advances [OF nest this] show ?thesis using start advances_trans by blast
  next
    case Capture
    obtain r st1 where h: "call_handler (en_capture env) step params call admitted ctx st = (r, st1)" by fastforce
    have a: "advances env st0 st1" using handled [OF _ h] Capture by simp
    have "quiet st1 st'" using b Capture h finish_step_quiet by (auto simp: step_body_def split: sum.splits)
    with a show ?thesis using advances_trans quiet_advances by blast
  next
    case Transform
    obtain r st1 where h: "call_handler (en_transform env) step params call admitted ctx st = (r, st1)" by fastforce
    have a: "advances env st0 st1" using handled [OF _ h] Transform by simp
    have "quiet st1 st'" using b Transform h finish_step_quiet by (auto simp: step_body_def split: sum.splits)
    with a show ?thesis using advances_trans quiet_advances by blast
  next
    case Apply
    obtain r st1 where h: "call_handler (en_apply env) step params call admitted ctx st = (r, st1)" by fastforce
    have a: "advances env st0 st1" using handled [OF _ h] Apply by simp
    have "quiet st1 st'" using b Apply h finish_step_quiet finish_skipped_quiet
      by (auto simp: step_body_def split: sum.splits if_splits)
    with a show ?thesis using advances_trans quiet_advances by blast
  next
    case (OtherType t)
    with b start show ?thesis by (simp add: step_body_def)
  qed
qed

lemma proceed_step_advances:
  assumes nest: "nest_advances env nest"
    and r: "proceed_step env nest step (params, governed, call) ctx rs st = Some (e, st')"
    and st: "es_stepCount st = Suc (es_stepCount st0)" "es_calls st = es_calls st0" "es_stepCount st \<le> max_steps env"
    and call: "as_type step \<noteq> ControlStep \<Longrightarrow> pc_op call = as_op step \<and>
      (\<exists>r. runOpPreflight (en_localeCompare env) (en_pluginDenial env) (en_registry env (es_world st)) call = Inr r \<and>
       pr_decision r = Allow \<and> params = JObj (strip_stamps (pr_input r)))"
  shows "advances env st0 st'"
proof -
  have start: "advances env st0 st" using st by (simp add: advances_def numbered_def)
  obtain be w where before: "en_beforeStep env step (es_stepCount st) ctx (es_world st) = (be, w)" by fastforce
  show ?thesis
  proof (cases be)
    case (Some err)
    with r before have "st' = with_world w st" by (simp add: proceed_step_def)
    then have "quiet st st'" by simp
    with start show ?thesis using advances_trans quiet_advances by blast
  next
    case None
    from r before None obtain be' c' rs' st2 where body:
      "step_body env nest step params governed call (es_world st) ctx rs (with_world w st) = Some (be', c', rs', st2)"
      by (auto simp: proceed_step_def split: option.splits)
    have "advances env st0 st2"
      using step_body_advances [OF nest body, of st0] st call by (simp add: with_world_def)
    moreover have "advances env st2 st'"
      using r before None body catch_step_advances [OF nest] by (auto simp: proceed_step_def split: body_end.splits)
    ultimately show ?thesis by (rule advances_trans)
  qed
qed

lemma step_admission_quiet: "step_admission env step ctx st = (r, st') \<Longrightarrow> quiet st st'"
  using admit_step_quiet by (auto simp: step_admission_def split: if_splits)

lemma counted_advances: "advances env st (counted st)"
  by (simp add: advances_def numbered_def counted_def)

lemma bounds_max:
  "assertExecutionBounds n t0 (en_maxSteps env) tm now = None \<Longrightarrow> n \<le> max_steps env"
  by (auto simp: assertExecutionBounds_def max_steps_def Let_def split: if_splits option.splits)

lemma run_step_advances:
  assumes nest: "nest_advances env nest" and r: "run_step env nest step ctx rs st0 = Some (e, st')"
  shows "advances env st0 st'"
proof (cases "assertExecutionBounds (es_stepCount (counted st0)) (en_startTime env) (en_maxSteps env) (en_timeoutMs env)
    (en_clock env (es_stepCount (counted st0)))")
  case (Some err)
  with r counted_advances [of env st0] show ?thesis by (simp add: run_step_def)
next
  case None
  obtain a st1 where ad: "step_admission env step ctx (counted st0) = (a, st1)" by fastforce
  note q = step_admission_quiet [OF ad]
  show ?thesis
  proof (cases a)
    case (Inl err)
    with r None ad have "st' = st1" by (simp add: run_step_def Let_def)
    with q show ?thesis using advances_trans quiet_advances counted_advances by blast
  next
    case (Inr adm)
    obtain params governed call where p: "adm = (params, governed, call)" by (cases adm)
    have "proceed_step env nest step (params, governed, call) ctx rs st1 = Some (e, st')"
      using r None ad Inr p by (simp add: run_step_def Let_def)
    from nest this show ?thesis
    proof (rule proceed_step_advances)
      show "es_stepCount st1 = Suc (es_stepCount st0)" "es_calls st1 = es_calls st0" "es_stepCount st1 \<le> max_steps env"
        using q bounds_max [OF None] by (simp_all add: quiet_def counted_def)
      assume "as_type step \<noteq> ControlStep"
      with ad Inr p have "admit_step env step ctx (counted st0) = (Inr (params, governed, call), st1)"
        by (simp add: step_admission_def)
      from admit_step_good [OF this] show "pc_op call = as_op step \<and>
        (\<exists>r. runOpPreflight (en_localeCompare env) (en_pluginDenial env) (en_registry env (es_world st1)) call = Inr r \<and>
          pr_decision r = Allow \<and> params = JObj (strip_stamps (pr_input r)))" .
    qed
  qed
qed

lemma run_stream_advances:
  assumes "nest_advances env nest"
  shows "run_stream env nest steps ctx rs st = Some (r, st') \<Longrightarrow> advances env st st'"
proof (induction steps arbitrary: ctx rs st)
  case (Cons step steps)
  then obtain e st1 where 1: "run_step env nest step ctx rs st = Some (e, st1)" by (auto split: option.splits)
  have a: "advances env st st1" by (rule run_step_advances [OF assms 1])
  show ?case
  proof (cases e)
    case (SNext c rs')
    with Cons.prems 1 have "run_stream env nest steps c rs' st1 = Some (r, st')" by simp
    from advances_trans [OF a Cons.IH [OF this]] show ?thesis .
  qed (use Cons.prems 1 a in auto)
qed simp

lemma run_node_advances:
  "nest_advances env nest \<Longrightarrow> run_node nest step ctx st = Some (r, st') \<Longrightarrow> advances env st st'"
  by (auto simp: run_node_def split: option.splits sum.splits dest: nest_advancesD)

text \<open>One turn of the graph loop: it ends, or goes on with the next state of the scheduler.\<close>

lemma drive_graph_cases:
  assumes "drive_graph (Suc n) nest steps opts nodes s st = Some (r, st')"
  obtains (finished) "\<not> unfinished s" "r = Inr s" "st' = st"
  | (stuck) e where "r = Inl e" "st' = st"
  | (idle) s' where "run_iteration opts nodes s ([], Suspended) = Some (Going s')"
      "drive_graph n nest steps opts nodes s' st = Some (r, st')"
  | (node) i node x st1 s' where "find_node nodes i = Some node"
      "run_node nest (steps ! gn_index node) (rs_context s) st = Some (x, st1)"
      "run_iteration opts nodes s (i, as_handler_result x) = Some (Going s')"
      "drive_graph n nest steps opts nodes s' st1 = Some (r, st')"
  | (suspended) i node e st1 where "find_node nodes i = Some node"
      "run_node nest (steps ! gn_index node) (rs_context s) st = Some (Inl e, st1)" "r = Inl e" "st' = st1"
proof (cases "unfinished s")
  case False
  with assms show ?thesis by (intro finished) simp_all
next
  case u: True
  show ?thesis
  proof (cases "map fst (rs_active (fst (sweep opts nodes s)))")
    case Nil
    with assms u show ?thesis
      by (cases "run_iteration opts nodes s ([], Suspended)") (auto split: graph_run.splits intro: idle stuck)
  next
    case (Cons i others)
    with assms u obtain node x st1 where n: "find_node nodes i = Some node"
      "run_node nest (steps ! gn_index node) (rs_context s) st = Some (x, st1)"
      by (auto split: option.splits)
    with assms u Cons show ?thesis
      by (auto split: option.splits graph_run.splits sum.splits intro: node [OF n] suspended)
  qed
qed

lemma drive_graph_advances:
  assumes "nest_advances env nest"
  shows "drive_graph n nest steps opts nodes s st = Some (r, st') \<Longrightarrow> advances env st st'"
proof (induction n arbitrary: s st)
  case (Suc n)
  from Suc.prems show ?case
  proof (cases rule: drive_graph_cases)
    case (node i node x st1 s')
    from run_node_advances [OF assms node(2)] Suc.IH [OF node(4)] show ?thesis by (rule advances_trans)
  next
    case (suspended i node e st1)
    with run_node_advances [OF assms suspended(2)] show ?thesis by simp
  next
    case (idle s')
    then show ?thesis using Suc.IH by blast
  qed simp_all
qed simp

lemma engine_body_advances:
  assumes "nest_advances env nest"
  shows "nest_advances env (engine_body env nest)"
  unfolding nest_advances_def
proof (intro allI impI)
  fix steps ctx st r st' assume e: "engine_body env nest steps ctx st = Some (r, st')"
  show "advances env st st'"
  proof (cases "length steps > 1 \<and> graph_declared steps")
    case True
    with e have "run_graph env nest steps (js_spread (JObj []) ctx) st = Some (r, st')"
      by (simp add: engine_body_def Let_def)
    then show ?thesis
      by (auto simp: run_graph_def Let_def simp del: drive_graph.simps
          split: prod.splits if_splits option.splits sum.splits dest: drive_graph_advances [OF assms])
  next
    case False
    with e show ?thesis
      by (auto simp: engine_body_def Let_def split: option.splits sum.splits if_splits
          dest: run_stream_advances [OF assms])
  qed
qed

lemma engine_advances: "nest_advances env (executeAdfStepsInternal n env)"
  by (induction n) (simp_all add: engine_body_advances, simp add: nest_advances_def)

section \<open>Every run ends\<close>

definition serves :: "'w nested \<Rightarrow> nat \<Rightarrow> bool" where
  "serves nest c \<longleftrightarrow> (\<forall>steps ctx st. c \<le> es_stepCount st \<longrightarrow> nest steps ctx st \<noteq> None)"

lemma servesD: "serves nest c \<Longrightarrow> c \<le> es_stepCount st \<Longrightarrow> \<exists>r st'. nest steps ctx st = Some (r, st')"
  unfolding serves_def by fastforce

lemma advances_count: "advances env st st' \<Longrightarrow> es_stepCount st \<le> es_stepCount st'"
  by (simp add: advances_def)

lemma run_control_total:
  assumes "nest_advances env nest" and "serves nest c"
  shows "c \<le> es_stepCount st \<Longrightarrow> run_control nest act st \<noteq> None"
proof (induction act arbitrary: st)
  case (CNested steps seed w k)
  have "c \<le> es_stepCount (with_world w st)" using CNested.prems by (simp add: with_world_def)
  from servesD [OF assms(2) this] obtain r1 st1 where 1: "nest steps seed (with_world w st) = Some (r1, st1)" by blast
  have "c \<le> es_stepCount st1"
    using advances_count [OF nest_advancesD [OF assms(1) 1]] CNested.prems by (simp add: with_world_def)
  from CNested.IH [OF _ this, of "k (r1, es_world st1)"] 1 show ?case by simp
qed simp_all

lemma step_body_total:
  assumes "nest_advances env nest" and "serves nest c" and "c \<le> es_stepCount st"
  shows "step_body env nest step params governed call admitted ctx rs st \<noteq> None"
proof (cases "as_type step = ControlStep")
  case True
  have "c \<le> es_stepCount (in_loop 1 step st)" using assms(3) by (simp add: in_loop_def)
  note tot = run_control_total [OF assms(1,2) this]
  show ?thesis
  proof (cases "en_control env")
    case (Some h)
    obtain r st1 where "run_control nest (h (as_op step) params ctx (es_world st)) (in_loop 1 step st) = Some (r, st1)"
      using tot [of "h (as_op step) params ctx (es_world st)"] by fastforce
    with True Some show ?thesis by (cases r) (simp_all add: step_body_def control_body_def)
  qed (use True in \<open>simp add: step_body_def control_body_def\<close>)
next
  case False
  then show ?thesis by (cases "as_type step") (simp_all add: step_body_def)
qed

lemma step_body_count:
  assumes "nest_advances env nest" and "step_body env nest step params governed call admitted ctx rs st = Some (e, c, rs', st')"
  shows "es_stepCount st \<le> es_stepCount st'"
proof -
  have h: "es_stepCount st1 = es_stepCount st" if "call_handler h step params call admitted ctx st = (r, st1)" for h ctx r st1
    using that by (auto simp: call_handler_def split: prod.splits)
  show ?thesis
  proof (cases "as_type step = ControlStep")
    case True
    with assms(2) have "control_body env nest step params ctx rs st = Some (e, c, rs', st')" by (simp add: step_body_def)
    from advances_count [OF control_body_advances [OF assms(1) this]] show ?thesis .
  next
    case False
    with assms(2) show ?thesis
      by (auto simp: step_body_def quiet_def split: step_type.splits sum.splits prod.splits if_splits
          dest!: finish_step_quiet finish_skipped_quiet h)
  qed
qed

lemma catch_step_total:
  assumes "serves nest c" and "c \<le> es_stepCount st"
  shows "catch_step env nest step e ctx rs st \<noteq> None"
proof -
  have tot: "\<exists>r st'. handleStepError env nest step oe e ctx st = Some (r, st')" for oe
  proof (cases "oe_strategy oe = RFallback")
    case True
    show ?thesis
    proof (cases "fallback_source env oe e ctx (es_world st)")
      case (Inr q)
      obtain steps ctx' where q: "q = (steps, ctx')" by (cases q)
      obtain r st' where "nest steps (js_spread ctx' (JObj [(''_error'', error_info e step)])) st = Some (r, st')"
        using servesD [OF assms] by blast
      with True Inr q show ?thesis by (cases r) (simp_all add: handleStepError_def)
    qed (use True in \<open>simp add: handleStepError_def\<close>)
  next
    case False
    then show ?thesis by (cases "oe_strategy oe") (simp_all add: handleStepError_def)
  qed
  show ?thesis
  proof (cases "as_on_error step")
    case None
    then show ?thesis by (simp add: catch_step_def)
  next
    case (Some oe)
    obtain r st' where "handleStepError env nest step oe e ctx st = Some (r, st')" using tot by blast
    with Some show ?thesis
      by (cases r) (auto simp: catch_step_def Let_def split: sum.split prod.split)
  qed
qed

lemma run_step_total:
  assumes nest: "nest_advances env nest"
    and serves: "Suc (es_stepCount st) \<le> max_steps env \<Longrightarrow> serves nest (Suc (es_stepCount st))"
  shows "run_step env nest step ctx rs st \<noteq> None"
proof (cases "assertExecutionBounds (es_stepCount (counted st)) (en_startTime env) (en_maxSteps env) (en_timeoutMs env)
    (en_clock env (es_stepCount (counted st)))")
  case (Some e)
  then show ?thesis by (simp add: run_step_def Let_def)
next
  case None
  have sv: "serves nest (Suc (es_stepCount st))" using serves bounds_max [OF None] by (simp add: counted_def)
  obtain a st1 where ad: "step_admission env step ctx (counted st) = (a, st1)" by fastforce
  then have c1: "Suc (es_stepCount st) \<le> es_stepCount st1" using step_admission_quiet by (force simp: quiet_def counted_def)
  show ?thesis
  proof (cases a)
    case (Inl err)
    with None ad show ?thesis by (simp add: run_step_def Let_def)
  next
    case (Inr adm)
    obtain params governed call where p: "adm = (params, governed, call)" by (cases adm)
    obtain be w where before: "en_beforeStep env step (es_stepCount st1) ctx (es_world st1) = (be, w)" by fastforce
    have "Suc (es_stepCount st) \<le> es_stepCount (with_world w st1)" using c1 by (simp add: with_world_def)
    from step_body_total [OF nest sv this, of step params governed call "es_world st1" ctx rs]
    obtain e c rs' st2 where body:
      "step_body env nest step params governed call (es_world st1) ctx rs (with_world w st1) = Some (e, c, rs', st2)"
      by fastforce
    have "Suc (es_stepCount st) \<le> es_stepCount st2" if "be = None"
      using step_body_count [OF nest body] c1 by (simp add: with_world_def)
    with catch_step_total [OF sv] None ad Inr p before body show ?thesis
      by (cases be) (auto simp: run_step_def proceed_step_def Let_def split: body_end.splits)
  qed
qed


lemma run_stream_total:
  assumes nest: "nest_advances env nest"
  shows "(\<And>c. es_stepCount st < c \<Longrightarrow> c \<le> max_steps env \<Longrightarrow> serves nest c) \<Longrightarrow> run_stream env nest steps ctx rs st \<noteq> None"
proof (induction steps arbitrary: ctx rs st)
  case (Cons step steps)
  have "run_step env nest step ctx rs st \<noteq> None" by (rule run_step_total [OF nest]) (simp add: Cons.prems)
  then obtain e st1 where 1: "run_step env nest step ctx rs st = Some (e, st1)" by fastforce
  have "es_stepCount st \<le> es_stepCount st1" by (rule advances_count [OF run_step_advances [OF nest 1]])
  then have "run_stream env nest steps c rs' st1 \<noteq> None" for c rs'
    by (intro Cons.IH Cons.prems) simp
  with 1 show ?case by (cases e) simp_all
qed simp

lemma find_node_known: "i \<in> gn_id ` set nodes \<Longrightarrow> \<exists>node. find_node nodes i = Some node"
  unfolding find_node_def by (metis (mono_tags, lifting) find_None_iff imageE not_Some_eq)

lemma run_weight_le:
  assumes "run_ok opts nodes s"
  shows "run_weight s \<le> 2 * length nodes"
proof -
  note ok = status_okD [OF run_okD(2) [OF assms]]
  have "run_weight s \<le> 2 * length (rs_statuses s)"
    unfolding run_weight_def
  proof (induction "rs_statuses s" arbitrary: s)
    case Nil
    then show ?case by (simp add: Nil [symmetric])
  next
    case (Cons p m)
    have "status_weight x \<le> 2" for x by (cases x) simp_all
    then have "status_weight (snd p) \<le> 2" .
    moreover have "sum_list (map (status_weight \<circ> snd) m) \<le> 2 * length m"
      using Cons.hyps(1) [of "s\<lparr>rs_statuses := m\<rparr>"] by simp
    ultimately show ?case by (simp add: Cons.hyps(2) [symmetric])
  qed
  also have "length (rs_statuses s) = card (gn_id ` set nodes)"
    using distinct_card [OF ok(1)] ok(2) by simp
  also have "\<dots> \<le> card (set nodes)" by (rule card_image_le) simp
  also have "\<dots> \<le> length nodes" by (rule card_length)
  finally show ?thesis by simp
qed

lemma drive_graph_total:
  assumes nest: "nest_advances env nest" and dist: "distinct (map gn_id nodes)"
    and serves: "\<And>step ctx st'. es_stepCount st0 \<le> es_stepCount st' \<Longrightarrow> nest [step] ctx st' \<noteq> None"
  shows "run_ok opts nodes s \<Longrightarrow> run_weight s < n \<Longrightarrow> es_stepCount st0 \<le> es_stepCount st \<Longrightarrow>
    drive_graph n nest steps opts nodes s st \<noteq> None"
proof (induction n arbitrary: s st)
  case (Suc n)
  have next_turn: "drive_graph n nest steps opts nodes s' st' \<noteq> None"
    if "run_iteration opts nodes s c = Some (Going s')" "es_stepCount st0 \<le> es_stepCount st'" for c s' st'
    using that Suc.prems run_iteration_ok [OF Suc.prems(1) dist that(1)] run_iteration_weight [OF Suc.prems(1) dist that(1)]
    by (intro Suc.IH) simp_all
  show ?case
  proof (cases "unfinished s")
    case u: True
    obtain s1 p where sw: "sweep opts nodes s = (s1, p)" by fastforce
    have ok1: "run_ok opts nodes s1" using sweep_ok [OF Suc.prems(1) dist] sw by simp
    show ?thesis
    proof (cases "map fst (rs_active s1)")
      case Nil
      with u sw next_turn [OF _ Suc.prems(3)] show ?thesis
        by (cases "run_iteration opts nodes s ([], Suspended)") (auto split: graph_run.splits)
    next
      case (Cons i others)
      then have act: "i \<in> set (map fst (rs_active s1))" "rs_active s1 \<noteq> []" by auto
      have "map_of (rs_statuses s1) i = Some NodeRunning"
        using status_okD(3) [OF run_okD(2) [OF ok1]] act(1) by blast
      then have "i \<in> set (map fst (rs_statuses s1))" by (rule status_known)
      then have "i \<in> gn_id ` set nodes" using status_okD(2) [OF run_okD(2) [OF ok1]] by blast
      from find_node_known [OF this] obtain node where node: "find_node nodes i = Some node" by blast
      obtain x st1 where x: "run_node nest (steps ! gn_index node) (rs_context s) st = Some (x, st1)"
        using serves [OF Suc.prems(3)] by (fastforce simp: run_node_def split: option.splits sum.splits)
      have c1: "es_stepCount st0 \<le> es_stepCount st1"
        using advances_count [OF run_node_advances [OF nest x]] Suc.prems(3) by simp
      have it: "run_iteration opts nodes s (i, as_handler_result x) =
          Some (case as_handler_result x of
                Returned outcome \<Rightarrow> Going (settle_node opts nodes i outcome s1)
              | Threw msg \<Rightarrow> Going (settle_node opts nodes i \<lparr>go_status = OFailed, go_context = JUndef, go_error = Some msg\<rparr> s1)
              | Suspended \<Rightarrow> SuspendedRun)"
        using u sw act by (cases "as_handler_result x") (simp_all add: run_iteration_def)
      show ?thesis
      proof (cases "as_handler_result x")
        case Suspended
        then obtain e where "x = Inl e" by (auto simp: as_handler_result_def split: sum.splits if_splits)
        with u sw Cons node x it Suspended show ?thesis by simp
      qed (use u sw Cons node x it next_turn [OF _ c1] in auto)
    qed
  qed simp
qed simp


lemma derive_ids_distinct:
  assumes "deriveExecutionGraph steps initial = (graph, errors)" and "\<not> list_ex is_hard_error errors"
  shows "distinct (map gn_id (eg_nodes graph))"
proof -
  have "\<not> list_ex is_hard_error (duplicate_errors [] (step_ids steps))"
    using assms by (auto simp: derive_unfold Let_def derive_errors)
  moreover have "list_all is_hard_error (duplicate_errors seen ids)" for seen ids
    by (induction ids arbitrary: seen) (simp_all add: is_hard_error_def)
  ultimately have "duplicate_errors [] (step_ids steps) = []"
    by (metis list.set_intros(1) list_all_iff list_ex_iff list.exhaust)
  then have "distinct (step_ids steps)" by (simp add: duplicate_errors_empty)
  moreover have "map gn_id (eg_nodes graph) = step_ids steps"
    using assms(1) by (auto simp: derive_unfold Let_def map_gn_id_derive)
  ultimately show ?thesis by simp
qed

lemma run_graph_total:
  assumes nest: "nest_advances env nest"
    and serves: "\<And>step ctx st'. es_stepCount st \<le> es_stepCount st' \<Longrightarrow> nest [step] ctx st' \<noteq> None"
  shows "run_graph env nest steps ctx st \<noteq> None"
proof -
  obtain graph errors where d: "deriveExecutionGraph (map as_graph steps) (context_keys ctx) = (graph, errors)" by fastforce
  show ?thesis
  proof (cases "list_ex is_hard_error errors")
    case True
    with d show ?thesis by (simp add: run_graph_def)
  next
    case False
    let ?opts = "engine_graph_options env steps ctx"
    have ok: "run_ok ?opts (eg_nodes graph) (run_init ?opts (eg_nodes graph))" by (simp add: idle_run_ok run_init_idle)
    have "drive_graph (2 * length (eg_nodes graph) + 1) nest steps ?opts (eg_nodes graph) (run_init ?opts (eg_nodes graph)) st \<noteq> None"
    proof (rule drive_graph_total [OF nest derive_ids_distinct [OF d False] _ ok])
      show "run_weight (run_init ?opts (eg_nodes graph)) < 2 * length (eg_nodes graph) + 1"
        using run_weight_le [OF ok] by simp
      show "es_stepCount st \<le> es_stepCount st" ..
    qed (rule serves)
    with d False show ?thesis
      by (auto simp: run_graph_def Let_def simp del: drive_graph.simps split: sum.splits)
  qed
qed

text \<open>The depth that is enough: two for each step still allowed, one for a last stream, one for a last graph.\<close>

lemma engine_total:
  fixes st :: "'a engine_state"
  shows "(2 * (max_steps env - es_stepCount st) + 2 \<le> n \<longrightarrow> executeAdfStepsInternal n env steps ctx st \<noteq> None) \<and>
   (length steps \<le> 1 \<longrightarrow> 2 * (max_steps env - es_stepCount st) + 1 \<le> n \<longrightarrow> executeAdfStepsInternal n env steps ctx st \<noteq> None)"
proof (induction n arbitrary: steps ctx st)
  case (Suc n)
  let ?nest = "executeAdfStepsInternal n env"
  have stream: "run_stream env ?nest steps c [] st \<noteq> None" if "2 * (max_steps env - es_stepCount st) + 1 \<le> Suc n" for c
  proof (rule run_stream_total [OF engine_advances])
    fix k assume k: "es_stepCount st < k" "k \<le> max_steps env"
    show "serves ?nest k" unfolding serves_def
    proof (intro allI impI)
      fix ss c' and st' :: "'a engine_state" assume "k \<le> es_stepCount st'"
      with k that have "2 * (max_steps env - es_stepCount st') + 2 \<le> n" by linarith
      with Suc.IH [of st' ss c'] show "?nest ss c' st' \<noteq> None" by blast
    qed
  qed
  have body: "engine_body env ?nest steps ctx st \<noteq> None"
    if "2 * (max_steps env - es_stepCount st) + 1 \<le> Suc n" "\<not> (length steps > 1 \<and> graph_declared steps)"
    using stream [OF that(1), of "js_spread (JObj []) ctx"] that(2)
    by (auto simp: engine_body_def Let_def split: sum.splits)
  have graph: "run_graph env ?nest steps c st \<noteq> None" if "2 * (max_steps env - es_stepCount st) + 2 \<le> Suc n" for c
  proof (rule run_graph_total [OF engine_advances])
    fix step c' and st' :: "'a engine_state" assume "es_stepCount st \<le> es_stepCount st'"
    with that have "2 * (max_steps env - es_stepCount st') + 1 \<le> n" by linarith
    with Suc.IH [of st' "[step]" c'] show "?nest [step] c' st' \<noteq> None" by simp
  qed
  show ?case
  proof (intro conjI impI)
    assume f: "2 * (max_steps env - es_stepCount st) + 2 \<le> Suc n"
    show "executeAdfStepsInternal (Suc n) env steps ctx st \<noteq> None"
    proof (cases "length steps > 1 \<and> graph_declared steps")
      case True
      with graph [OF f] show ?thesis by (simp add: engine_body_def Let_def)
    next
      case False
      with body f show ?thesis by simp
    qed
  next
    assume f: "length steps \<le> 1" "2 * (max_steps env - es_stepCount st) + 1 \<le> Suc n"
    then show "executeAdfStepsInternal (Suc n) env steps ctx st \<noteq> None" using body by simp
  qed
qed simp

section \<open>Termination and admission\<close>

lemma calls_bounded:
  assumes "executeAdfStepsInternal n env steps ctx (initial_state w) = Some (r, st')"
  shows "list_all (good_call env) (es_calls st') \<and> sorted_wrt (<) (map hc_number (es_calls st')) \<and>
    length (es_calls st') \<le> max_steps env"
proof -
  from nest_advancesD [OF engine_advances assms] have
    c: "list_all (good_call env) (es_calls st')" "numbered 0 (es_stepCount st') (es_calls st')"
    by (auto simp: advances_def initial_state_def)
  from c(2) have s: "sorted_wrt (<) (map hc_number (es_calls st'))"
    "\<And>hc. hc \<in> set (es_calls st') \<Longrightarrow> 0 < hc_number hc" by (auto simp: numbered_def list_all_iff)
  have sub: "set (map hc_number (es_calls st')) \<subseteq> {1..max_steps env}"
    using c(1) s(2) by (fastforce simp: list_all_iff good_call_def Suc_le_eq)
  have "length (es_calls st') = card (set (map hc_number (es_calls st')))"
    using distinct_card [of "map hc_number (es_calls st')"] s(1) by (simp add: strict_sorted_iff)
  also have "\<dots> \<le> card {1..max_steps env}" by (rule card_mono [OF _ sub]) simp
  finally show ?thesis using c(1) s(1) by simp
qed

text \<open>C4. Every pipeline run ends: whatever the steps, the context, the handlers, the control flow of
  the control handlers and the fallbacks of failing steps, the engine answers or throws, and calls at
  most as many handlers as the maximal number of steps.\<close>

theorem pipeline_run_ends:
  "\<exists>r st'. executeAdfSteps env steps ctx w = Some (r, st') \<and> length (es_calls st') \<le> max_steps env"
proof -
  have "executeAdfSteps env steps ctx w \<noteq> None"
    using engine_total [of env "initial_state w" "2 * max_steps env + 2" steps ctx]
    by (simp add: executeAdfSteps_def initial_state_def)
  then obtain r st' where r: "executeAdfSteps env steps ctx w = Some (r, st')" by fastforce
  with calls_bounded [OF r [unfolded executeAdfSteps_def]] show ?thesis by blast
qed

text \<open>C3. No operation runs unadmitted: every call of a capture, transform, apply handler in a run, nested ones
  and those of fallbacks included, was allowed by the preflight waterfall in the world in which it was
  admitted, for the same operation, and received exactly the admitted input without the governance
  stamps; the calls are numbered by distinct steps within the limit.\<close>

theorem handlers_run_only_admitted_calls:
  assumes "executeAdfSteps env steps ctx w = Some (r, st')" and "hc \<in> set (es_calls st')"
  shows "hc_number hc \<le> max_steps env \<and> sorted_wrt (<) (map hc_number (es_calls st')) \<and>
    pc_op (hc_call hc) = as_op (hc_step hc) \<and>
    (\<exists>p. runOpPreflight (en_localeCompare env) (en_pluginDenial env) (en_registry env (hc_admitted hc)) (hc_call hc) = Inr p \<and>
       pr_decision p = Allow \<and> hc_params hc = JObj (strip_stamps (pr_input p)))"
  using calls_bounded [OF assms(1) [unfolded executeAdfSteps_def]] assms(2)
  by (auto simp: list_all_iff good_call_def)

definition sample_graph_step :: "string \<Rightarrow> string list option \<Rightarrow> graph_step" where
  "sample_graph_step i deps = \<lparr>gs_id = Some i, gs_depends_on = deps, gs_produces = JUndef, gs_consumes = ConsNone,
     gs_when = JUndef, gs_merge = None, gs_params = JObj [(''path'', JStr i)], gs_timeout_ms = JUndef\<rparr>"

definition sample_step :: "string \<Rightarrow> string list option \<Rightarrow> step_type \<Rightarrow> on_error option \<Rightarrow> adf_step" where
  "sample_step i deps t oe = AdfStep (sample_graph_step i deps) t ''file:read'' False None oe"

definition sample_env :: "bool \<Rightarrow> nat engine_env" where
  "sample_env blocked =
    \<lparr>en_maxSteps = Some 3, en_timeoutMs = None, en_startTime = 0, en_clock = (\<lambda>n. int n),
     en_resolve = (\<lambda>v c. Inr v), en_stringify = (\<lambda>v. ''''),
     en_gate = (if blocked then Some (\<lambda>s n c w. (Inr (Some (True, [])), w)) else None),
     en_localeCompare = by_length, en_pluginDenial = (\<lambda>_. None),
     en_registry = (\<lambda>w. \<lparr>pg_listeners = [], pg_guards = []\<rparr>), en_approvalGranted = None, en_hasHuman = None,
     en_capture = (\<lambda>op p c w. (Inr c, Suc w)), en_transform = (\<lambda>op p c w. (Inr c, Suc w)),
     en_apply = (\<lambda>op p c w. (Inr c, Suc w)),
     en_control = Some (\<lambda>op p c w. CNested [sample_step ''inner'' None Capture None] c w
        (\<lambda>(r, w'). case r of Inl e \<Rightarrow> CThrow e w' | Inr res \<Rightarrow> CReturn (rr_context res) w')),
     en_observe = (\<lambda>op p c w. (None, w)), en_beforeStep = (\<lambda>s n c w. (None, w)), en_afterStep = None,
     en_load = (\<lambda>p c w. Inr ([], [])), en_evaluate = (\<lambda>v c. True), en_accessClaims = (\<lambda>d a p. Inr []), en_resumed = []\<rparr>"

lemma handlers_run_only_admitted_calls_witness:
  "\<exists>r st' hc. executeAdfSteps (sample_env False) [sample_step ''loop'' None ControlStep None] (JObj []) 0 = Some (r, st') \<and>
     es_calls st' = [hc] \<and> hc_number hc = 2 \<and> hc_number hc \<le> max_steps (sample_env False)"
proof -
  have "map_option (\<lambda>(r, st). map hc_number (es_calls st))
      (executeAdfSteps (sample_env False) [sample_step ''loop'' None ControlStep None] (JObj []) 0) = Some [2]"
    by code_simp
  then obtain r st' hc where "executeAdfSteps (sample_env False) [sample_step ''loop'' None ControlStep None] (JObj []) 0 = Some (r, st')"
    "es_calls st' = [hc]" "hc_number hc = 2" by auto
  with handlers_run_only_admitted_calls [OF this(1), of hc] show ?thesis by auto
qed


section \<open>Two runs in which a refusal is lost\<close>

definition gate_refuses :: "'w engine_env \<Rightarrow> bool" where
  "gate_refuses env \<longleftrightarrow> (\<exists>g. en_gate env = Some g \<and> (\<forall>s n c w. \<exists>reasons w'. g s n c w = (Inr (Some (True, reasons)), w')))"

lemma refused_step:
  assumes "gate_refuses env" and "as_type step \<noteq> ControlStep" and "run_step env nest step ctx rs st = Some (e, st')"
  shows "\<exists>m. e = SThrow (plain_error m)" and "es_calls st' = es_calls st"
proof -
  have gov: "x = None \<or> (\<exists>m. x = Some (plain_error m))" if "govern_step env step ctx s = (x, s')" for x s s'
    using that by (auto simp: govern_step_def Let_def split: if_splits)
  have gate: "\<exists>m. x = Some (plain_error m)" if "gate_step env step ctx s = (x, s')" for x s s'
  proof -
    from assms(1) obtain g reasons w' where "en_gate env = Some g" "g step (es_stepCount s) ctx (es_world s) = (Inr (Some (True, reasons)), w')"
      unfolding gate_refuses_def by blast
    with that show ?thesis by (auto simp: gate_step_def)
  qed
  have adm: "\<exists>m. x = Inl (plain_error m)" if "admit_step env step ctx s = (x, s')" for x s s'
    using that gov gate by (auto simp: admit_step_def split: prod.splits option.splits) (metis gate option.distinct(1) option.inject)+
  obtain a st1 where a: "step_admission env step ctx (counted st) = (a, st1)" by fastforce
  then have "admit_step env step ctx (counted st) = (a, st1)" using assms(2) by (simp add: step_admission_def)
  from adm [OF this] obtain m where m: "a = Inl (plain_error m)" by blast
  have b: "\<exists>m. err = plain_error m" if "assertExecutionBounds n t0 mx tm now = Some err" for n t0 mx tm now err
    using that by (auto simp: assertExecutionBounds_def Let_def split: if_splits)
  show "\<exists>m. e = SThrow (plain_error m)"
    using assms(3) a m b by (auto simp: run_step_def Let_def split: option.splits)
  show "es_calls st' = es_calls st"
    using assms(3) a m step_admission_quiet [OF a]
    by (auto simp: run_step_def Let_def quiet_def counted_def split: option.splits)
qed

lemma refused_stream:
  assumes "gate_refuses env" and "as_type step \<noteq> ControlStep"
    and "executeAdfStepsInternal n env [step] ctx st = Some (r, st')"
  shows "(\<exists>m. r = Inl (plain_error m)) \<and> es_calls st' = es_calls st"
proof (cases n)
  case (Suc k)
  from assms(3) Suc obtain e st1 where 1: "run_step env (executeAdfStepsInternal k env) step (js_spread (JObj []) ctx) [] st = Some (e, st1)"
    by (auto simp: engine_body_def Let_def split: option.splits)
  from refused_step [OF assms(1,2) 1] assms(3) Suc 1 show ?thesis
    by (auto simp: engine_body_def Let_def)
qed (use assms(3) in simp)

text \<open>A thrown node leaves an outcome without a context.\<close>

definition no_contexts :: "run_state \<Rightarrow> bool" where
  "no_contexts s \<longleftrightarrow> list_all (\<lambda>p. go_context (snd p) = JUndef) (rs_outcomes s)"

lemma no_contexts_update:
  assumes "no_contexts s" and "rs_outcomes s' = AList.update i o' (rs_outcomes s)" and "go_context o' = JUndef"
  shows "no_contexts s'"
proof -
  have "list_all (\<lambda>p. go_context (snd p) = JUndef) (AList.update i o' m)"
    if "list_all (\<lambda>p. go_context (snd p) = JUndef) m" for m
    using that assms(3) by (induction m) auto
  with assms(1,2) show ?thesis by (simp add: no_contexts_def)
qed

lemma no_contexts_sweep: "no_contexts s \<Longrightarrow> no_contexts (fst (sweep opts nodes s))"
proof -
  have one: "no_contexts (fst (sweep_node opts node (s, p)))" if "no_contexts s" for s p node
  proof -
    obtain s' p' where sw: "sweep_node opts node (s, p) = (s', p')" by fastforce
    then show ?thesis
    proof (cases rule: sweep_node_cases)
      case (skip why)
      have "rs_outcomes s' = AList.update (gn_id node) \<lparr>go_status = OSkipped, go_context = JUndef, go_error = Some why\<rparr> (rs_outcomes s)"
        by (simp add: skip skip_node_def)
      from no_contexts_update [OF that this] have "no_contexts s'" by simp
      with sw show ?thesis by simp
    next
      case (start claims)
      with that sw show ?thesis by (simp add: no_contexts_def start_node_def)
    qed (use that sw in simp)
  qed
  have "no_contexts (fst (fold (sweep_node opts) ns (s, p)))" if "no_contexts s" for ns s p
    using that
  proof (induction ns arbitrary: s p)
    case (Cons node ns)
    obtain s1 p1 where "sweep_node opts node (s, p) = (s1, p1)" by fastforce
    with one [OF Cons.prems, of node p] Cons.IH [of s1 p1] show ?case by simp
  qed simp
  then show "no_contexts s \<Longrightarrow> no_contexts (fst (sweep opts nodes s))" by (simp add: sweep_def)
qed

lemma no_contexts_iteration:
  assumes "no_contexts s" and "run_iteration opts nodes s (i, h) = Some (Going s')"
    and "h = Suspended \<or> (\<exists>m. h = Threw m)"
  shows "no_contexts s'"
proof -
  obtain s1 p where sw: "sweep opts nodes s = (s1, p)" by fastforce
  have n1: "no_contexts s1" using no_contexts_sweep [OF assms(1), of opts nodes] sw by simp
  from assms(2,3) sw consider "s' = s1" | m where "s' = settle_node opts nodes i \<lparr>go_status = OFailed, go_context = JUndef, go_error = Some m\<rparr> s1"
    by (auto simp: run_iteration_def split: if_splits)
  then show ?thesis
  proof cases
    case 2
    have "rs_outcomes s' = AList.update i \<lparr>go_status = OFailed, go_context = JUndef, go_error = Some m\<rparr> (rs_outcomes s1)"
      by (simp add: 2 settle_node_def Let_def)
    from no_contexts_update [OF n1 this] show ?thesis by simp
  qed (use n1 in simp)
qed


lemma index_of_derived:
  assumes "node \<in> set (derive_nodes steps E)"
  shows "gn_index node < length steps"
proof -
  have "length (step_ids steps) = length steps" by (simp add: step_ids_def)
  with assms show ?thesis by (auto simp: derive_nodes_def Let_def in_set_enumerate_eq)
qed

lemma refused_drive:
  assumes "gate_refuses env" and nodes: "\<And>node. node \<in> set nodes \<Longrightarrow> as_type (steps ! gn_index node) \<noteq> ControlStep"
  shows "drive_graph n (executeAdfStepsInternal k env) steps opts nodes s st = Some (Inr s', st') \<Longrightarrow> no_contexts s \<Longrightarrow>
    no_contexts s' \<and> es_calls st' = es_calls st"
proof (induction n arbitrary: s st)
  case (Suc n)
  from Suc.prems(1) show ?case
  proof (cases rule: drive_graph_cases)
    case (idle s1)
    with no_contexts_iteration [OF Suc.prems(2) idle(1)] Suc.IH [OF idle(2)] show ?thesis by simp
  next
    case (node i node x st1 s1)
    have "node \<in> set nodes" using node(1) by (auto simp: find_node_def dest: find_Some_in_set)
    then have "as_type (without_graph (steps ! gn_index node)) \<noteq> ControlStep" using nodes by (simp add: without_graph_def)
    from refused_stream [OF assms(1) this, of k "rs_context s" st] node(2) obtain m where m: "x = Inl (plain_error m)"
      "es_calls st1 = es_calls st"
      by (auto simp: run_node_def split: option.splits sum.splits)
    then have "as_handler_result x = Threw m" by (simp add: as_handler_result_def plain_error_def)
    with no_contexts_iteration [OF Suc.prems(2) node(3)] Suc.IH [OF node(4)] m(2) show ?thesis by simp
  qed (use Suc.prems in simp_all)
qed simp

lemma graph_results_skipped:
  assumes "no_contexts s"
  shows "list_all (\<lambda>r. sr_status r = SSkipped) (graph_results steps nodes (rs_outcomes s))"
proof -
  have "go_context o' = JUndef" if "map_of (rs_outcomes s) i = Some o'" for i o'
    using assms map_of_SomeD [OF that] by (auto simp: no_contexts_def list_all_iff)
  then show ?thesis
    by (auto simp: graph_results_def list_all_iff Let_def jtruthy_def split: option.splits if_splits)
qed

text \<open>C33. A refused graph pipeline reports success: when the step gate refuses every operation of a
  graph-declared pipeline, no handler runs, and the run, if it returns, has the status succeeded, with
  skipped results only: the results of the refused nodes are missing, because a thrown node leaves
  an outcome without a context and such an outcome is left out.\<close>

theorem refused_graph_reports_success:
  assumes "gate_refuses env" and "list_all (\<lambda>s. as_type s \<noteq> ControlStep) steps"
    and "1 < length steps" and "graph_declared steps" and "en_resumed env = []"
    and "executeAdfSteps env steps ctx w = Some (Inr res, st')"
  shows "\<not> rr_failed res \<and> list_all (\<lambda>r. sr_status r = SSkipped) (rr_results res) \<and> es_calls st' = []"
proof -
  let ?nest = "executeAdfStepsInternal (2 * max_steps env + 1) env" and ?ctx = "js_spread (JObj []) ctx"
  obtain graph errors where d: "deriveExecutionGraph (map as_graph steps) (context_keys ?ctx) = (graph, errors)" by fastforce
  let ?opts = "engine_graph_options env steps ?ctx" and ?nodes = "eg_nodes graph"
  have run: "run_graph env ?nest steps ?ctx (initial_state w) = Some (Inr res, st')"
    using assms(3,4,6) by (simp add: executeAdfSteps_def engine_body_def Let_def)
  with d obtain s where s: "drive_graph (2 * length ?nodes + 1) ?nest steps ?opts ?nodes (run_init ?opts ?nodes) (initial_state w) = Some (Inr s, st')"
    "rr_results res = graph_results steps ?nodes (rs_outcomes s)" "rr_failed res = derivePipelineStatus (rr_results res)"
    by (auto simp: run_graph_def Let_def simp del: drive_graph.simps split: if_splits option.splits sum.splits)
  have "as_type (steps ! gn_index node) \<noteq> ControlStep" if "node \<in> set ?nodes" for node
    using that d index_of_derived assms(2) by (fastforce simp: derive_unfold Let_def list_all_length)
  moreover have "no_contexts (run_init ?opts ?nodes)"
    using assms(5) by (simp add: no_contexts_def run_init_def engine_graph_options_def Let_def)
  ultimately have "no_contexts s \<and> es_calls st' = es_calls (initial_state w)"
    using refused_drive [OF assms(1) _ s(1)] by blast
  with graph_results_skipped [of s steps ?nodes] s(2,3) show ?thesis
    by (auto simp: derivePipelineStatus_def initial_state_def list_all_iff list_ex_iff)
qed

lemma refused_graph_reports_success_witness:
  "\<exists>res st'. executeAdfSteps (sample_env True) [sample_step ''a'' None Capture None, sample_step ''b'' (Some [''a'']) Apply None] (JObj []) 0 =
     Some (Inr res, st') \<and> \<not> rr_failed res \<and> es_calls st' = []"
proof -
  let ?steps = "[sample_step ''a'' None Capture None, sample_step ''b'' (Some [''a'']) Apply None]"
  have "case executeAdfSteps (sample_env True) ?steps (JObj []) 0 of Some (Inr _, _) \<Rightarrow> True | _ \<Rightarrow> False" by code_simp
  then obtain res st' where run: "executeAdfSteps (sample_env True) ?steps (JObj []) 0 = Some (Inr res, st')"
    by (auto split: option.splits prod.splits sum.splits)
  have "gate_refuses (sample_env True)" by (simp add: gate_refuses_def sample_env_def)
  from refused_graph_reports_success [OF this _ _ _ _ run] run show ?thesis
    by (simp add: sample_step_def sample_graph_step_def graph_declared_def sample_env_def)
qed

text \<open>A refusal in a nested stream is recovered: when a control step with the recovery strategy skip runs
  a one-step stream whose operation the gate refuses and passes the error on, the run succeeds with
  the control step as recovered and no failure, although the refusal of a gate aborts a run.\<close>

lemma nested_refusal_is_recovered:
  assumes "gate_refuses env" and "as_type inner \<noteq> ControlStep"
    and "as_type step = ControlStep" and "as_on_error step = Some oe" and "oe_strategy oe = RSkip"
    and "en_control env = Some (\<lambda>op p c w. CNested [inner] c w
      (\<lambda>(r, w'). case r of Inl e \<Rightarrow> CThrow e w' | Inr res \<Rightarrow> CReturn (rr_context res) w'))"
    and "assertExecutionBounds 1 (en_startTime env) (en_maxSteps env) (en_timeoutMs env) (en_clock env 1) = None"
    and "fst (en_beforeStep env step 1 (js_spread (JObj []) ctx) w) = None" and "en_afterStep env = None"
  shows "\<exists>res st'. executeAdfSteps env [step] ctx w = Some (Inr res, st') \<and> \<not> rr_failed res \<and>
    rr_results res = [\<lparr>sr_op = as_op step, sr_status = SRecovered, sr_error = None\<rparr>] \<and> es_calls st' = []"
proof -
  let ?c = "js_spread (JObj []) ctx" and ?nest = "executeAdfStepsInternal (2 * max_steps env + 1) env"
  obtain w1 where before: "en_beforeStep env step 1 ?c w = (None, w1)" using assms(8) by (metis prod.collapse)
  let ?st = "in_loop 1 step (with_world w1 (counted (initial_state w)))"
  have st: "es_stepCount ?st = 1" "es_calls ?st = []"
    by (simp_all add: in_loop_def with_world_def counted_def initial_state_def)
  have "1 \<le> max_steps env" using bounds_max [OF assms(7)] .
  then have "?nest [inner] ?c (with_world w1 ?st) \<noteq> None"
    using engine_total [of env "with_world w1 ?st" "2 * max_steps env + 1" "[inner]" ?c] by simp
  then obtain r st1 where r: "?nest [inner] ?c (with_world w1 ?st) = Some (r, st1)" by fastforce
  from refused_stream [OF assms(1,2) r] obtain m where m: "r = Inl (plain_error m)" "es_calls st1 = []"
    using st by (auto simp: with_world_def)
  have "with_world w1 ?st = ?st" by (simp add: with_world_def in_loop_def)
  with r m have ctl: "control_body env ?nest step (as_params step) ?c [] (with_world w1 (counted (initial_state w))) =
      Some (BThrew (plain_error m), ?c, [], in_loop (-1) step (with_world (es_world st1) st1))"
    using assms(6) by (simp add: control_body_def) (simp add: with_world_def)
  have adm: "step_admission env step ?c (counted (initial_state w)) =
      (Inr (as_params step, as_params step, preflight_call_of env step ?c (as_params step) False), counted (initial_state w))"
    using assms(3) by (simp add: step_admission_def)
  let ?fin = "in_loop (-1) step (with_world (es_world st1) st1)"
  let ?rs = "[\<lparr>sr_op = as_op step, sr_status = SRecovered, sr_error = None\<rparr>]"
  have rec: "catch_step env ?nest step (plain_error m) ?c [] ?fin =
      Some (SNext (js_spread ?c (JObj [(''_error'', error_info (plain_error m) step)])) ?rs, ?fin)"
    using assms(4,5,9) by (simp add: catch_step_def plain_error_def handleStepError_def Let_def after_hook_def)
  have "es_stepCount (counted (initial_state w)) = 1" "es_world (counted (initial_state w)) = w"
    by (simp_all add: counted_def initial_state_def)
  with assms(3,7) before adm ctl rec have one: "run_step env ?nest step ?c [] (initial_state w) =
      Some (SNext (js_spread ?c (JObj [(''_error'', error_info (plain_error m) step)])) ?rs, ?fin)"
    by (simp add: run_step_def proceed_step_def step_body_def Let_def)
  have "es_calls ?fin = []" using m(2) by (simp add: in_loop_def with_world_def)
  with one show ?thesis
    by (simp add: executeAdfSteps_def engine_body_def Let_def derivePipelineStatus_def)
qed

lemma nested_refusal_is_recovered_witness:
  "\<exists>res st'. executeAdfSteps (sample_env True) [sample_step ''c'' None ControlStep (Some (OnError RSkip None JUndef []))] (JObj []) 0 =
     Some (Inr res, st') \<and> \<not> rr_failed res \<and>
     rr_results res = [\<lparr>sr_op = ''file:read'', sr_status = SRecovered, sr_error = None\<rparr>] \<and> es_calls st' = []"
proof -
  let ?step = "sample_step ''c'' None ControlStep (Some (OnError RSkip None JUndef []))"
  have "gate_refuses (sample_env True)" by (simp add: gate_refuses_def sample_env_def)
  from nested_refusal_is_recovered [OF this, of "sample_step ''inner'' None Capture None" ?step "OnError RSkip None JUndef []" "JObj []" 0]
  show ?thesis by (simp add: sample_step_def sample_env_def assertExecutionBounds_def DEFAULT_PIPELINE_TIMEOUT_MS_def)
qed

text \<open>The hook of a skipped apply step is not awaited: when it is asynchronous, its promise becomes the context
  of the rest of the run, and every value of the context is lost.\<close>

lemma skipped_apply_loses_context:
  assumes "as_type step = Apply" and "call_handler (en_apply env) step params call admitted ctx st = (Inr v, st1)"
    and "isSkippedStep v" and "en_afterStep env = Some h"
    and "h step (es_stepCount st1) (jget v ''context'') SSkipped None (es_world st1) = (Inr (HPromise p), w)"
  shows "step_body env nest step params governed call admitted ctx rs st =
    Some (BNext, JObj [], rs @ [\<lparr>sr_op = as_op step, sr_status = SSkipped, sr_error = None\<rparr>], with_world w st1)"
  using assms by (simp add: step_body_def finish_skipped_def after_hook_def Let_def)

section \<open>The shape of the results\<close>

definition clean :: "step_result list \<Rightarrow> bool" where
  "clean rs \<longleftrightarrow> list_all (\<lambda>r. sr_status r \<noteq> SFailed \<and> sr_error r = None) rs"

text \<open>A result list in which at most the last entry is a failure, with its message.\<close>

definition ends_well :: "step_result list \<Rightarrow> bool" where
  "ends_well rs \<longleftrightarrow> clean rs \<or> (\<exists>rs0 x. rs = rs0 @ [x] \<and> clean rs0 \<and> sr_status x = SFailed \<and> sr_error x \<noteq> None)"

definition ops_in :: "string set \<Rightarrow> step_result list \<Rightarrow> bool" where
  "ops_in A rs \<longleftrightarrow> list_all (\<lambda>r. sr_op r \<in> A) rs"

lemma clean_append [simp]: "clean (rs @ rs') = (clean rs \<and> clean rs')"
  by (simp add: clean_def)

lemma finish_step_shape:
  "finish_step env step governed stop ctx rs st = (e, c, rs', st') \<Longrightarrow> clean rs \<Longrightarrow> ops_in A rs \<Longrightarrow> as_op step \<in> A \<Longrightarrow>
   clean rs' \<and> ops_in A rs'"
  by (auto simp: finish_step_def Let_def clean_def ops_in_def split: prod.splits option.splits sum.splits if_splits)

lemma finish_skipped_shape:
  "finish_skipped env awaited step v rs st = (e, c, rs', st') \<Longrightarrow> clean rs \<Longrightarrow> ops_in A rs \<Longrightarrow> as_op step \<in> A \<Longrightarrow>
   clean rs' \<and> ops_in A rs'"
  by (auto simp: finish_skipped_def Let_def clean_def ops_in_def split: prod.splits sum.splits)

lemma step_body_shape:
  assumes "step_body env nest step params governed call admitted ctx rs st = Some (e, c, rs', st')"
    and "clean rs" and "ops_in A rs" and "as_op step \<in> A"
  shows "clean rs' \<and> ops_in A rs'"
  using assms
  by (auto simp: step_body_def control_body_def split: step_type.splits option.splits sum.splits prod.splits if_splits
      dest: finish_step_shape finish_skipped_shape)

lemma run_step_shape:
  assumes "run_step env nest step ctx rs st = Some (e, st')" and "clean rs" and "ops_in A rs" and "as_op step \<in> A"
  shows "(\<forall>c rs'. e = SNext c rs' \<longrightarrow> clean rs' \<and> ops_in A rs') \<and>
    (\<forall>c rs'. e = SStop c rs' \<longrightarrow> ends_well rs' \<and> ops_in A rs')"
proof -
  have fail: "x = SThrow y \<or> (\<exists>c. x = SStop c (r0 @ [\<lparr>sr_op = as_op step, sr_status = SFailed, sr_error = Some (ee_message er)\<rparr>])) \<or> (\<exists>y. x = SThrow y)"
    if "fail_step env step er c0 r0 s = (x, s')" for er c0 r0 s x s' y
    using that by (auto simp: fail_step_def Let_def split: prod.splits sum.splits)
  have catch: "(\<forall>c rs'. x = SNext c rs' \<longrightarrow> clean rs' \<and> ops_in A rs') \<and> (\<forall>c rs'. x = SStop c rs' \<longrightarrow> ends_well rs' \<and> ops_in A rs')"
    if cs: "catch_step env nest step er c0 r0 s = Some (x, s')" "clean r0" "ops_in A r0" for er c0 r0 s x s'
  proof -
    have failed: ?thesis if "fail_step env step er c1 r1 s1 = (x, s2)" "clean r1" "ops_in A r1" for c1 r1 s1 s2
      using fail [OF that(1)] that(2,3) assms(4) unfolding ends_well_def by (auto simp: ops_in_def)
    from cs(1) consider (t) "x = SThrow er"
      | (f) c1 r1 s1 s2 where "fail_step env step er c1 r1 s1 = (x, s2)" "clean r1" "ops_in A r1"
      | (n) c1 where "x = SNext c1 (r0 @ [\<lparr>sr_op = as_op step, sr_status = SRecovered, sr_error = None\<rparr>])"
      using cs(2,3) assms(4)
      by (fastforce simp: catch_step_def Let_def clean_def ops_in_def split: if_splits option.splits sum.splits prod.splits)
    then show ?thesis
    proof cases
      case f
      then show ?thesis by (rule failed)
    qed (use cs(2,3) assms(4) in \<open>auto simp: clean_def ops_in_def\<close>)
  qed
  show ?thesis
  proof (cases "assertExecutionBounds (es_stepCount (counted st)) (en_startTime env) (en_maxSteps env) (en_timeoutMs env)
      (en_clock env (es_stepCount (counted st)))")
    case (Some er)
    with assms(1) show ?thesis by (auto simp: run_step_def Let_def)
  next
    case None
    obtain a st1 where ad: "step_admission env step ctx (counted st) = (a, st1)" by fastforce
    show ?thesis
    proof (cases a)
      case (Inl er)
      with assms(1) None ad show ?thesis by (auto simp: run_step_def Let_def)
    next
      case (Inr adm)
      obtain params governed call where p: "adm = (params, governed, call)" by (cases adm)
      with assms(1) None ad Inr have pr: "proceed_step env nest step (params, governed, call) ctx rs st1 = Some (e, st')"
        by (simp add: run_step_def Let_def)
      obtain be w where before: "en_beforeStep env step (es_stepCount st1) ctx (es_world st1) = (be, w)" by fastforce
      show ?thesis
      proof (cases be)
        case (Some er)
        with pr before show ?thesis by (auto simp: proceed_step_def)
      next
        case none: None
        from pr before none obtain e2 c2 rs2 st2 where body:
          "step_body env nest step params governed call (es_world st1) ctx rs (with_world w st1) = Some (e2, c2, rs2, st2)"
          by (auto simp: proceed_step_def split: option.splits)
        note sh = step_body_shape [OF body assms(2,3,4)]
        show ?thesis
        proof (cases e2)
          case (BThrew er)
          with pr before none body have "catch_step env nest step er c2 rs2 st2 = Some (e, st')" by (simp add: proceed_step_def)
          from catch [OF this] sh show ?thesis by blast
        qed (use pr before none body sh in \<open>auto simp: proceed_step_def ends_well_def\<close>)
      qed
    qed
  qed
qed

lemma run_stream_shape:
  "run_stream env nest steps ctx rs st = Some (Inr (c, rs'), st') \<Longrightarrow> clean rs \<Longrightarrow> ops_in A rs \<Longrightarrow> as_op ` set steps \<subseteq> A \<Longrightarrow>
   ends_well rs' \<and> ops_in A rs'"
proof (induction steps arbitrary: ctx rs st)
  case (Cons step steps)
  from Cons.prems(1) obtain e st1 where 1: "run_step env nest step ctx rs st = Some (e, st1)"
    by (auto split: option.splits)
  have op: "as_op step \<in> A" using Cons.prems(4) by simp
  note sh = run_step_shape [OF 1 Cons.prems(2,3) op]
  show ?case
  proof (cases e)
    case (SNext c1 rs1)
    with Cons.IH [of c1 rs1 st1] Cons.prems 1 sh show ?thesis by simp
  next
    case (SStop c1 rs1)
    with Cons.prems(1) 1 sh show ?thesis by auto
  next
    case (SThrow er)
    with Cons.prems(1) 1 show ?thesis by simp
  qed
qed (simp add: ends_well_def)

text \<open>C38. The result of a serial run is well formed: every entry belongs to a step of the pipeline, only the
  last may be a failure, exactly failures carry an error text, the status is failed exactly when the
  last entry is a failure, and the total counts every step attempted, nested ones included.\<close>

theorem serial_results_are_well_formed:
  assumes "executeAdfSteps env steps ctx w = Some (Inr res, st')" and "length steps \<le> 1 \<or> \<not> graph_declared steps"
  shows "ends_well (rr_results res) \<and> rr_failed res = (\<not> clean (rr_results res)) \<and>
    set (map sr_op (rr_results res)) \<subseteq> as_op ` set steps \<and> rr_total res = es_stepCount st'"
proof -
  from assms obtain c where s: "run_stream env (executeAdfStepsInternal (2 * max_steps env + 1) env) steps (js_spread (JObj []) ctx) [] (initial_state w) =
      Some (Inr (c, rr_results res), st')" "rr_failed res = derivePipelineStatus (rr_results res)" "rr_total res = es_stepCount st'"
    by (auto simp: executeAdfSteps_def engine_body_def Let_def split: option.splits sum.splits if_splits)
  have "clean []" "ops_in (as_op ` set steps) []" by (simp_all add: clean_def ops_in_def)
  from run_stream_shape [OF s(1) this] have sh: "ends_well (rr_results res)" "ops_in (as_op ` set steps) (rr_results res)" by auto
  have "derivePipelineStatus (rr_results res) = (\<not> clean (rr_results res))"
    using sh(1) by (auto simp: ends_well_def derivePipelineStatus_def clean_def list_all_iff list_ex_iff)
  with s sh show ?thesis by (auto simp: ops_in_def list_all_iff)
qed

lemma serial_results_are_well_formed_witness:
  "\<exists>res st'. executeAdfSteps (sample_env False) [sample_step ''a'' None Capture None, sample_step ''x'' None (OtherType ''?'') None] (JObj []) 0 =
     Some (Inr res, st') \<and> length (rr_results res) = 2 \<and> ends_well (rr_results res) \<and> rr_failed res = (\<not> clean (rr_results res))"
proof -
  let ?steps = "[sample_step ''a'' None Capture None, sample_step ''x'' None (OtherType ''?'') None]"
  have "case executeAdfSteps (sample_env False) ?steps (JObj []) 0 of Some (Inr res, _) \<Rightarrow> length (rr_results res) = 2 | _ \<Rightarrow> False" by code_simp
  then obtain res st' where run: "executeAdfSteps (sample_env False) ?steps (JObj []) 0 = Some (Inr res, st')" "length (rr_results res) = 2"
    by (auto split: option.splits prod.splits sum.splits)
  have "\<not> graph_declared ?steps" by (simp add: graph_declared_def sample_step_def sample_graph_step_def)
  with serial_results_are_well_formed [OF run(1)] run show ?thesis by blast
qed

end
