(* ===== verification/Approval_Core.thy ===== *)
theory Approval_Core
  imports Complex_Main Kyb_Prelude
begin

text \<open>
  The records of the approval store and the checks a decision has to pass:
  \<open>src/libs/core/governance/approval-store.ts\<close> (data), \<open>approval-assurance.ts\<close>,
  \<open>approval-principal-id.ts\<close>, \<open>approval-separation-of-duties.ts\<close>, \<open>approval-human-decision.ts\<close> and
  \<open>approval-store-paths.ts\<close>.

  An agent asks for a governed effect with an approval request; a person decides it. A request may bind its decision
  to a human (\<open>accountability\<close>), to an exact effect (hash and binding) and to a level of proof (\<open>A0\<close> to
  \<open>A3\<close>), may record the consent of a data subject, and may be decided by several roles.

  A timestamp that the store writes is its epoch millisecond; one that a caller supplies may fail to parse
  (\<open>BadStamp\<close>). Texts that are only displayed are left out of the records. Parameters, in the record of the
  environment: the clock, Unicode normalization, the digests of a record (its full snapshot and what a surface
  shows of it), the policy file (separation of duties, assurance mode, assurance floors; \<open>None\<close> for separation of
  duties is a file that cannot be read), the detection of an agent process, which records and tenants this
  process may see, the local minute of the day in a time zone, and whether operations are halted.
\<close>

section \<open>Assurance levels\<close>

datatype assurance_level = A0 | A1 | A2 | A3

definition APPROVAL_ASSURANCE_LEVELS :: "assurance_level list" where
  "APPROVAL_ASSURANCE_LEVELS = [A0, A1, A2, A3]"

fun index_of :: "'a list \<Rightarrow> 'a \<Rightarrow> int" where
  "index_of [] x = -1"
| "index_of (y # ys) x = (if y = x then 0 else (let i = index_of ys x in if i < 0 then -1 else i + 1))"

definition assuranceMeets :: "assurance_level \<Rightarrow> assurance_level \<Rightarrow> bool" where
  "assuranceMeets provided required =
    (index_of APPROVAL_ASSURANCE_LEVELS provided \<ge> index_of APPROVAL_ASSURANCE_LEVELS required)"

definition strongerAssurance :: "assurance_level \<Rightarrow> assurance_level \<Rightarrow> assurance_level" where
  "strongerAssurance left right = (if assuranceMeets left right then left else right)"

text \<open>The levels are a linear order, the one the code computes by position.\<close>

instantiation assurance_level :: linorder
begin

definition less_eq_assurance_level :: "assurance_level \<Rightarrow> assurance_level \<Rightarrow> bool" where
  "less_eq_assurance_level a b = assuranceMeets b a"

definition less_assurance_level :: "assurance_level \<Rightarrow> assurance_level \<Rightarrow> bool" where
  "less_assurance_level a b = (assuranceMeets b a \<and> \<not> assuranceMeets a b)"

instance
proof
  fix x y z :: assurance_level
  show "(x < y) = (x \<le> y \<and> \<not> y \<le> x)" by (simp add: less_eq_assurance_level_def less_assurance_level_def)
  show "x \<le> x" by (simp add: less_eq_assurance_level_def assuranceMeets_def)
  show "x \<le> y \<Longrightarrow> y \<le> z \<Longrightarrow> x \<le> z" by (simp add: less_eq_assurance_level_def assuranceMeets_def)
  show "x \<le> y \<Longrightarrow> y \<le> x \<Longrightarrow> x = y"
    by (cases x; cases y) (simp_all add: less_eq_assurance_level_def assuranceMeets_def APPROVAL_ASSURANCE_LEVELS_def)
  show "x \<le> y \<or> y \<le> x" by (auto simp: less_eq_assurance_level_def assuranceMeets_def)
qed

end

lemma assuranceMeets_iff: "assuranceMeets p r = (r \<le> p)"
  by (simp add: less_eq_assurance_level_def)

lemma strongerAssurance_max: "strongerAssurance a b = max a b"
  by (auto simp: strongerAssurance_def assuranceMeets_iff max_def)

datatype auth_method = SurfaceSession | ChannelIdentity | TerminalAttested | Totp | Passkey | Manual
  | LocalToken | LocalAdminToken | OtherMethod string

text \<open>The table of levels is a plain object and a method is looked up with \<open>in\<close>, so the names every
  object inherits are found as well: they give a value that is no level (its index among the levels is -1).\<close>

definition OBJECT_PROTOTYPE_NAMES :: "string list" where
  "OBJECT_PROTOTYPE_NAMES =
    [''constructor'', ''hasOwnProperty'', ''isPrototypeOf'', ''propertyIsEnumerable'', ''toLocaleString'',
     ''toString'', ''valueOf'', ''__proto__'', ''__defineGetter__'', ''__defineSetter__'',
     ''__lookupGetter__'', ''__lookupSetter__'']"

datatype provided_assurance = ProvidesLevel assurance_level | InheritedValue

definition assuranceOfAuthMethod :: "auth_method option \<Rightarrow> provided_assurance option" where
  "assuranceOfAuthMethod m =
    (case m of
       Some LocalToken \<Rightarrow> Some (ProvidesLevel A0)
     | Some LocalAdminToken \<Rightarrow> Some (ProvidesLevel A1)
     | Some Manual \<Rightarrow> Some (ProvidesLevel A1)
     | Some ChannelIdentity \<Rightarrow> Some (ProvidesLevel A1)
     | Some SurfaceSession \<Rightarrow> Some (ProvidesLevel A2)
     | Some TerminalAttested \<Rightarrow> Some (ProvidesLevel A2)
     | Some Totp \<Rightarrow> Some (ProvidesLevel A2)
     | Some Passkey \<Rightarrow> Some (ProvidesLevel A3)
     | Some (OtherMethod s) \<Rightarrow> if s \<in> set OBJECT_PROTOTYPE_NAMES then Some InheritedValue else None
     | None \<Rightarrow> None)"

definition provided_meets :: "provided_assurance \<Rightarrow> assurance_level \<Rightarrow> bool" where
  "provided_meets provided required =
    (case provided of ProvidesLevel l \<Rightarrow> assuranceMeets l required | InheritedValue \<Rightarrow> False)"

definition NON_HUMAN_PROOF_AUTH_METHODS :: "auth_method list" where
  "NON_HUMAN_PROOF_AUTH_METHODS = [LocalToken, LocalAdminToken]"

definition DEFAULT_HUMAN_ONLY_MIN_ASSURANCE :: assurance_level where
  "DEFAULT_HUMAN_ONLY_MIN_ASSURANCE = A2"

definition DUAL_KEY_MIN_ASSURANCE :: assurance_level where
  "DUAL_KEY_MIN_ASSURANCE = A3"

definition PROJECT_TRUST_MIN_ASSURANCE :: assurance_level where
  "PROJECT_TRUST_MIN_ASSURANCE = A3"

definition APPROVAL_CHANNEL_MIN_ASSURANCE :: "string \<Rightarrow> assurance_level option" where
  "APPROVAL_CHANNEL_MIN_ASSURANCE channel =
    (if channel = ''project-trust'' then Some PROJECT_TRUST_MIN_ASSURANCE else None)"

datatype assurance_mode = WarnMode | EnforceMode

text \<open>The method a surface may record: a session only for a member resolved from a verified session.\<close>

record surface_principal =
  sp_provider :: string
  sp_actor_kind :: "string option"

definition surfaceDecisionAuthMethod :: "surface_principal option \<Rightarrow> bool \<Rightarrow> auth_method" where
  "surfaceDecisionAuthMethod who memberResolved =
    (case who of
       None \<Rightarrow> LocalAdminToken
     | Some p \<Rightarrow>
         if \<not> memberResolved \<or> sp_actor_kind p = Some ''agent'' then LocalAdminToken
         else if sp_provider p \<in> {''browser-session'', ''oidc-jwt'', ''registry-token''} then SurfaceSession
         else if sp_provider p = ''loopback-local'' then Manual
         else LocalAdminToken)"

section \<open>Records\<close>

datatype stamp = At ms | BadStamp string

datatype request_kind = ChannelApproval | SecretMutation | MissionGateKind

datatype approval_status = Pending | Approved | Rejected | Expired | Cancelled | Applied | Failed

datatype role_status = RolePending | RoleApproved | RoleRejected | RoleSkipped

datatype decision = DApproved | DRejected

datatype decider_type = HumanDecider | AgentDecider | ServiceDecider

datatype identity_source = ServerResolved | CallerSupplied

datatype workflow_mode = AllRequired | AnyOf | Staged

datatype steering = MissionVerb | HeldEffect

record role_approval =
  ap_role :: string
  ap_status :: role_status
  ap_approvedBy :: "string option"
  ap_approvedAt :: "ms option"
  ap_authMethod :: "auth_method option"
  ap_note :: "string option"
  ap_reasonCategory :: "string option"
  ap_decidedByType :: "decider_type option"
  ap_authenticated :: "bool option"
  ap_payloadHash :: "string option"
  ap_effectBinding :: "string option"
  ap_identitySource :: "identity_source option"

record workflow =
  wf_mode :: workflow_mode
  wf_requiredRoles :: "string list"
  wf_approvals :: "role_approval list"

record consent =
  cn_subject :: string
  cn_subject_only :: bool

record accountability =
  ac_human_only :: bool
  ac_min_assurance :: "assurance_level option"
  ac_policy_rule_id :: "string option"
  ac_payloadHash :: "string option"
  ac_effectBinding :: "string option"
  ac_consent :: "consent option"

record request_source =
  src_missionId :: "string option"
  src_taskId :: "string option"
  src_agentId :: "string option"
  src_actionId :: "string option"

record requester_context =
  rc_actorId :: string
  rc_pipelineRunId :: "string option"
  rc_executionBindingHash :: "string option"

record assurance_shortfall =
  sf_required :: assurance_level
  sf_provided :: provided_assurance
  sf_authMethod :: auth_method
  sf_mode :: assurance_mode

record apply_claim =
  cl_claimId :: ident
  cl_startedAt :: ms
  cl_startedBy :: string

datatype apply_outcome = ApplySuccess | ApplyFailed | ApplyRolledBack

record apply_result =
  rs_appliedAt :: "ms option"
  rs_appliedBy :: "string option"
  rs_result :: "apply_outcome option"
  rs_auditRef :: "string option"

record revocation =
  rv_revokedBy :: string
  rv_revokedAt :: ms
  rv_reason :: "string option"

record consumption =
  co_consumer :: string
  co_consumedBy :: string
  co_consumedAt :: ms
  co_effectRef :: "string option"

record change_request =
  cr_instruction :: string
  cr_requestedBy :: string
  cr_requestedAt :: ms

record active_hours =
  ah_start :: string
  ah_end :: string
  ah_timezone :: string

record veto_window =
  vw_windowMinutes :: rat
  vw_activeHours :: "active_hours option"
  vw_deliveryDeadlineAt :: stamp
  vw_deliveredAt :: "stamp option"
  vw_proceedsAt :: "stamp option"
  vw_shadow :: bool
  vw_fallback :: bool
  vw_shadowElapsedAt :: "ms option"

record approval_request =
  aq_id :: ident
  aq_kind :: request_kind
  aq_storageChannel :: string
  aq_channel :: string
  aq_correlationId :: string
  aq_title :: string
  aq_requestedBy :: string
  aq_requestedByContext :: "requester_context option"
  aq_source :: "request_source option"
  aq_requestedAt :: ms
  aq_tenant :: "string option"
  aq_ownerHash :: "string option"
  aq_status :: approval_status
  aq_expiresAt :: "stamp option"
  aq_workflow :: "workflow option"
  aq_accountability :: "accountability option"
  aq_steering :: "steering option"
  aq_veto :: "veto_window option"
  aq_decidedAt :: "ms option"
  aq_decidedBy :: "string option"
  aq_decidedByType :: "decider_type option"
  aq_identitySource :: "identity_source option"
  aq_authenticated :: "bool option"
  aq_authMethod :: "auth_method option"
  aq_presentedDigest :: "string option"
  aq_shortfall :: "assurance_shortfall option"
  aq_changeRequest :: "change_request option"
  aq_applyClaim :: "apply_claim option"
  aq_applyResult :: "apply_result option"
  aq_revocation :: "revocation option"
  aq_consumption :: "consumption option"

record approval_env =
  ae_now :: ms
  ae_nfkc :: "string \<Rightarrow> string"
  ae_recordHash :: "approval_request \<Rightarrow> string"
  ae_presented :: "approval_request \<Rightarrow> string"
  ae_sod :: "bool option"
  ae_policyMode :: "assurance_mode option"
  ae_envMode :: "string option"
  ae_policyFloor :: "string option \<Rightarrow> string option \<Rightarrow> assurance_level option"
  ae_agentContext :: "ident option \<Rightarrow> bool \<times> bool"
  ae_systemRole :: string
  ae_visible :: "approval_request \<Rightarrow> bool"
  ae_mayBind :: "string \<Rightarrow> bool"
  ae_ownerHash :: "string option"
  ae_localMinute :: "ms \<Rightarrow> string \<Rightarrow> int"
  ae_halted :: bool


section \<open>Addresses and expiry\<close>

definition is_lower :: "char \<Rightarrow> bool" where
  "is_lower c = (let n = of_char c :: nat in 97 \<le> n \<and> n \<le> 122)"

definition is_digit :: "char \<Rightarrow> bool" where
  "is_digit c = (let n = of_char c :: nat in 48 \<le> n \<and> n \<le> 57)"

definition is_hex :: "char \<Rightarrow> bool" where
  "is_hex c = (is_digit c \<or> (let n = of_char c :: nat in (97 \<le> n \<and> n \<le> 102) \<or> (65 \<le> n \<and> n \<le> 70)))"

definition channel_pattern :: "string \<Rightarrow> bool" where
  "channel_pattern s =
    (case s of [] \<Rightarrow> False
     | c # cs \<Rightarrow> is_lower c \<and> length cs \<le> 63 \<and> list_all (\<lambda>d. is_lower d \<or> is_digit d \<or> d = CHR ''-'') cs)"

definition uuid_pattern :: "string \<Rightarrow> bool" where
  "uuid_pattern s =
    (length s = 36 \<and> list_all (\<lambda>i. if i \<in> {8, 13, 18, 23} then s ! i = CHR ''-'' else is_hex (s ! i)) [0..<36])"

definition normalizeApprovalChannel :: "string \<Rightarrow> string option" where
  "normalizeApprovalChannel channel =
    (let n = js_lower (js_trim channel) in if channel_pattern n then Some n else None)"

definition normalizeApprovalRequestId :: "string \<Rightarrow> ident option" where
  "normalizeApprovalRequestId i = (let n = js_trim i in if uuid_pattern n then Some (js_lower n) else None)"

definition isApprovalRequestExpired :: "stamp option \<Rightarrow> ms \<Rightarrow> bool" where
  "isApprovalRequestExpired expiresAt now =
    (case expiresAt of None \<Rightarrow> False | Some (At t) \<Rightarrow> t \<le> now | Some (BadStamp s) \<Rightarrow> js_trim s \<noteq> [])"

section \<open>Principals and separation of duties\<close>

definition principal_prefixes :: "string list" where
  "principal_prefixes = [''user'', ''human'', ''operator'', ''member'', ''principal'', ''agent'', ''service'', ''persona'',
     ''actor'', ''policy'']"

definition strip_principal_prefix :: "string \<Rightarrow> string" where
  "strip_principal_prefix s =
    (let p = takeWhile (\<lambda>c. c \<noteq> CHR '':'') s
     in if p \<in> set principal_prefixes \<and> length p < length s then drop (length p + 1) s else s)"

definition normalizeApprovalPrincipalId :: "approval_env \<Rightarrow> string option \<Rightarrow> string" where
  "normalizeApprovalPrincipalId env v =
    (case v of None \<Rightarrow> [] | Some s \<Rightarrow> js_trim (strip_principal_prefix (js_lower (js_trim (ae_nfkc env s)))))"

definition APPROVAL_PLACEHOLDER_DECIDERS :: "string list" where
  "APPROVAL_PLACEHOLDER_DECIDERS = [''concierge'', ''chronos-localadmin'', ''sovereign-user'', ''cowork-operator'',
     ''mcp-client'', ''operator'', ''sovereign'', ''human'', ''user'', ''unknown'', ''unknown-human'', ''anonymous'']"

definition approvalRequesterIdentities :: "approval_env \<Rightarrow> approval_request \<Rightarrow> string list" where
  "approvalRequesterIdentities env r =
    rev (remdups (rev (filter (\<lambda>i. i \<noteq> [])
      (map (normalizeApprovalPrincipalId env)
        [Some (aq_requestedBy r), map_option rc_actorId (aq_requestedByContext r),
         Option.bind (aq_source r) src_agentId]))))"

definition SELF_CONSENT_STORAGE_CHANNELS :: "string list" where
  "SELF_CONSENT_STORAGE_CHANNELS = [''custody-provider-attestation'']"

definition recordConsent :: "approval_env \<Rightarrow> approval_request \<Rightarrow> consent option" where
  "recordConsent env r =
    (case Option.bind (aq_accountability r) ac_consent of
       None \<Rightarrow> None
     | Some c \<Rightarrow>
         if normalizeApprovalPrincipalId env (Some (cn_subject c)) = [] then None
         else if str_or (aq_storageChannel r) (aq_channel r) \<in> set SELF_CONSENT_STORAGE_CHANNELS then Some c else None)"

text \<open>Whether the approving decision of a subject-only consent is refused.\<close>

definition approvalConsentDecisionRefusal :: "approval_env \<Rightarrow> approval_request \<Rightarrow> string option \<Rightarrow> bool" where
  "approvalConsentDecisionRefusal env r decidedBy =
    (case recordConsent env r of
       None \<Rightarrow> False
     | Some c \<Rightarrow>
         cn_subject_only c \<and>
         (let d = normalizeApprovalPrincipalId env decidedBy
          in \<not> (d \<noteq> [] \<and> d = normalizeApprovalPrincipalId env (Some (cn_subject c)))))"

datatype sod_violation = SelfApproval | MissingRequester | MissingDecider | UnverifiedDecider

definition evaluateSeparationOfDuties ::
  "approval_env \<Rightarrow> approval_request \<Rightarrow> string option \<Rightarrow> identity_source option \<Rightarrow> sod_violation option" where
  "evaluateSeparationOfDuties env r decidedBy identitySource =
    (if identitySource = Some CallerSupplied then Some UnverifiedDecider
     else
       (let d = normalizeApprovalPrincipalId env decidedBy; requesters = approvalRequesterIdentities env r in
        if d = [] \<or> d \<in> set APPROVAL_PLACEHOLDER_DECIDERS then Some MissingDecider
        else if requesters = [] then Some MissingRequester
        else if d \<notin> set requesters then None
        else
          (case recordConsent env r of
             Some c \<Rightarrow> if normalizeApprovalPrincipalId env (Some (cn_subject c)) = d then None else Some SelfApproval
           | None \<Rightarrow> Some SelfApproval)))"

definition approvals_of :: "approval_request \<Rightarrow> role_approval list" where
  "approvals_of r = (case aq_workflow r of Some w \<Rightarrow> wf_approvals w | None \<Rightarrow> [])"

definition approvingDecisions :: "approval_request \<Rightarrow> (string option \<times> identity_source option) list" where
  "approvingDecisions r =
    (aq_decidedBy r, aq_identitySource r) #
    map (\<lambda>a. (ap_approvedBy a, ap_identitySource a)) (filter (\<lambda>a. ap_status a = RoleApproved) (approvals_of r))"

datatype unusable_reason = SodUnusable sod_violation | Revoked

datatype decide_refusal =
    BadChangeInstruction | ChangedSinceReview | WasCancelled | HasExpired | AlreadyDecided
  | HumanProofRequired | PresentedDigestMismatch | PasskeyRefused
  | NotHuman | NotAuthenticated | NotHumanMethod | UnrecognisedMethod | BelowAssurance assurance_level provided_assurance
  | PayloadMismatch | BindingMismatch | DigestMissing | ConsentRefused | SodRefused sod_violation
  | CacheKeyMissing | CacheNeedsBinding

datatype apply_refusal =
    ChangedBeforeApply | NotApproved | AlreadyStarted | NoActor | ClaimMismatch | ClaimMissing | ResultRecorded | AlreadyUsed

datatype revoke_refusal =
    AlreadyRevoked | StillPending | NotAnApproval | AlreadyApplied | NotConsumedByEffect | AlreadyConsumed | SteeringEffect
  | BadRevoker | NotAccountable | NeedsEffectRef | NoOwner

datatype approval_error =
    BadChannel | BadRequestId | RequestNotFound | PolicyUnreadable | VetoIsHumanOnly | NoSourceField
  | BadWindow | BadActiveHours | Unusable unusable_reason
  | CannotDecide decide_refusal | CannotApply apply_refusal | CannotRevoke revoke_refusal

text \<open>Why an approved record cannot be turned into an effect; \<open>Inl\<close> when the policy cannot be read.\<close>

definition evaluateApprovalUsability ::
  "approval_env \<Rightarrow> approval_request \<Rightarrow> approval_error + unusable_reason option" where
  "evaluateApprovalUsability env r =
    (if aq_revocation r \<noteq> None then Inr (Some Revoked)
     else
       (case ae_sod env of
          None \<Rightarrow> Inl PolicyUnreadable
        | Some False \<Rightarrow> Inr None
        | Some True \<Rightarrow>
            Inr (map_option SodUnusable
              (case List.find (\<lambda>(d, s). evaluateSeparationOfDuties env r d s \<noteq> None) (approvingDecisions r) of
                 Some (d, s) \<Rightarrow> evaluateSeparationOfDuties env r d s
               | None \<Rightarrow> None))))"

definition assertApprovalUsable :: "approval_env \<Rightarrow> approval_request \<Rightarrow> approval_error option" where
  "assertApprovalUsable env r =
    (case evaluateApprovalUsability env r of
       Inl e \<Rightarrow> Some e
     | Inr None \<Rightarrow> None
     | Inr (Some u) \<Rightarrow> Some (Unusable u))"

section \<open>The human decision\<close>

definition is_human_only :: "accountability option \<Rightarrow> bool" where
  "is_human_only a = (case a of Some ac \<Rightarrow> ac_human_only ac | None \<Rightarrow> False)"

definition HUMAN_DECISION_SURFACE_SYSTEM_ROLES :: "string list" where
  "HUMAN_DECISION_SURFACE_SYSTEM_ROLES = [''concierge'', ''presence_studio'', ''operator_surface'', ''slack_bridge'',
     ''telegram_bridge'', ''discord_bridge'', ''imessage_bridge'']"

definition refuseAgentHumanProof :: "approval_env \<Rightarrow> ident option \<Rightarrow> bool" where
  "refuseAgentHumanProof env who =
    (case ae_agentContext env who of
       (isAgent, agentPrincipal) \<Rightarrow>
         isAgent \<and> \<not> (\<not> agentPrincipal \<and> js_trim (ae_systemRole env) \<in> set HUMAN_DECISION_SURFACE_SYSTEM_ROLES))"

definition refuseHumanOnlyDecisionByAgentProcess :: "approval_env \<Rightarrow> approval_request \<Rightarrow> ident option \<Rightarrow> bool" where
  "refuseHumanOnlyDecisionByAgentProcess env r who =
    (is_human_only (aq_accountability r) \<and> refuseAgentHumanProof env who)"

text \<open>The full digest of what a surface shows; the compact prefix is for chat callbacks only.\<close>

definition approvalPresentedDigestMatches :: "approval_env \<Rightarrow> approval_request \<Rightarrow> string \<Rightarrow> bool" where
  "approvalPresentedDigestMatches env r presented =
    (let v = js_lower (js_trim presented)
     in v \<noteq> [] \<and> list_all is_hex v \<and> length v = 64 \<and> take (length v) (ae_presented env r) = v)"

record decision_binding =
  db_payloadHash :: "string option"
  db_effectBinding :: "string option"
  db_verified :: bool

definition bindPresentedDecision ::
  "approval_env \<Rightarrow> approval_request \<Rightarrow> string option \<Rightarrow> string option \<Rightarrow> string option \<Rightarrow>
   approval_error + decision_binding" where
  "bindPresentedDecision env r presented payloadHash effectBinding =
    (case presented of
       None \<Rightarrow> Inr \<lparr>db_payloadHash = payloadHash, db_effectBinding = effectBinding, db_verified = False\<rparr>
     | Some digest \<Rightarrow>
         if \<not> approvalPresentedDigestMatches env r digest then Inl (CannotDecide PresentedDigestMismatch)
         else Inr \<lparr>db_payloadHash = (if payloadHash \<noteq> None then payloadHash
                      else Option.bind (aq_accountability r) ac_payloadHash),
                    db_effectBinding = (if effectBinding \<noteq> None then effectBinding
                      else Option.bind (aq_accountability r) ac_effectBinding),
                    db_verified = True\<rparr>)"

definition resolveApprovalAssuranceMode :: "approval_env \<Rightarrow> assurance_mode" where
  "resolveApprovalAssuranceMode env =
    (if ae_policyMode env = Some EnforceMode \<or> ae_envMode env = Some ''enforce'' then EnforceMode else WarnMode)"

definition tenant_activation :: "accountability option \<Rightarrow> bool" where
  "tenant_activation a =
    (case Option.bind a ac_effectBinding of
       Some b \<Rightarrow> take (length ''tenant-activation:'') b = ''tenant-activation:''
     | None \<Rightarrow> False)"

definition settleUnpresentedHumanDecision ::
  "approval_env \<Rightarrow> approval_request \<Rightarrow> decision_binding \<Rightarrow> approval_error option" where
  "settleUnpresentedHumanDecision env r b =
    (if db_verified b \<or> \<not> is_human_only (aq_accountability r) then None
     else if resolveApprovalAssuranceMode env = EnforceMode \<or> tenant_activation (aq_accountability r) then Some (CannotDecide DigestMissing)
     else None)"

definition policy_floor ::
  "approval_env \<Rightarrow> string option \<Rightarrow> string option \<Rightarrow> assurance_level option" where
  "policy_floor env ruleId effectBinding =
    (if \<not> truthy_opt ruleId \<and> \<not> truthy_opt effectBinding then None else ae_policyFloor env ruleId effectBinding)"

definition requiredDecisionAssurance :: "approval_env \<Rightarrow> accountability \<Rightarrow> string option \<Rightarrow> assurance_level" where
  "requiredDecisionAssurance env ac channel =
    (let r0 = (case ac_min_assurance ac of Some l \<Rightarrow> l | None \<Rightarrow> DEFAULT_HUMAN_ONLY_MIN_ASSURANCE);
         r1 = (case (if truthy_opt channel then Option.bind channel APPROVAL_CHANNEL_MIN_ASSURANCE else None) of
                 Some l \<Rightarrow> strongerAssurance r0 l | None \<Rightarrow> r0)
     in case policy_floor env (ac_policy_rule_id ac) (ac_effectBinding ac) of
          Some l \<Rightarrow> strongerAssurance r1 l
        | None \<Rightarrow> r1)"

record human_proof =
  hp_decidedByType :: "decider_type option"
  hp_authenticated :: "bool option"
  hp_authMethod :: "auth_method option"
  hp_payloadHash :: "string option"
  hp_effectBinding :: "string option"

text \<open>The checks of a human-only decision; the result is the shortfall that the warn mode lets through.\<close>

definition effect_mismatch :: "accountability \<Rightarrow> human_proof \<Rightarrow> approval_error option" where
  "effect_mismatch ac p =
    (if truthy_opt (ac_payloadHash ac) \<and> hp_payloadHash p \<noteq> ac_payloadHash ac then Some (CannotDecide PayloadMismatch)
     else if truthy_opt (ac_effectBinding ac) \<and> hp_effectBinding p \<noteq> ac_effectBinding ac then Some (CannotDecide BindingMismatch)
     else None)"

definition judge_assurance ::
  "approval_env \<Rightarrow> accountability \<Rightarrow> string option \<Rightarrow> human_proof \<Rightarrow> approval_error + assurance_shortfall option" where
  "judge_assurance env ac channel p =
    (case (hp_authMethod p, assuranceOfAuthMethod (hp_authMethod p)) of
       (Some m, Some provided) \<Rightarrow>
         (let floor = requiredDecisionAssurance env ac channel;
              strict = tenant_activation (Some ac);
              required = (if strict then strongerAssurance floor A2 else floor);
              mode = (if strict then EnforceMode else resolveApprovalAssuranceMode env)
          in if provided_meets provided required then Inr None
             else if mode = EnforceMode then Inl (CannotDecide (BelowAssurance required provided))
             else Inr (Some \<lparr>sf_required = required, sf_provided = provided, sf_authMethod = m, sf_mode = mode\<rparr>))
     | _ \<Rightarrow> Inl (CannotDecide UnrecognisedMethod))"

definition validateHumanFinalDecision ::
  "approval_env \<Rightarrow> accountability option \<Rightarrow> string option \<Rightarrow> bool \<Rightarrow> human_proof \<Rightarrow>
   approval_error + assurance_shortfall option" where
  "validateHumanFinalDecision env a channel recheck p =
    (case a of
       None \<Rightarrow> Inr None
     | Some ac \<Rightarrow>
         if \<not> ac_human_only ac then Inr None
         else if hp_decidedByType p \<noteq> Some HumanDecider then Inl (CannotDecide NotHuman)
         else if hp_authenticated p \<noteq> Some True then Inl (CannotDecide NotAuthenticated)
         else if hp_authMethod p \<in> set (map Some NON_HUMAN_PROOF_AUTH_METHODS) then Inl (CannotDecide NotHumanMethod)
         else
           (case (if recheck \<and> \<not> tenant_activation a then Inr None else judge_assurance env ac channel p) of
              Inl e \<Rightarrow> Inl e
            | Inr shortfall \<Rightarrow> (case effect_mismatch ac p of Some e \<Rightarrow> Inl e | None \<Rightarrow> Inr shortfall)))"

text \<open>A requester may raise the bar of a human-only decision, never lower it.\<close>

definition withDefaultMinAssurance :: "accountability option \<Rightarrow> accountability option" where
  "withDefaultMinAssurance a =
    (case a of
       None \<Rightarrow> None
     | Some ac \<Rightarrow>
         (case ac_min_assurance ac of
            None \<Rightarrow> Some (ac\<lparr>ac_min_assurance := Some DEFAULT_HUMAN_ONLY_MIN_ASSURANCE\<rparr>)
          | Some l \<Rightarrow>
              if ac_human_only ac \<and> \<not> assuranceMeets l DEFAULT_HUMAN_ONLY_MIN_ASSURANCE
              then Some (ac\<lparr>ac_min_assurance := Some DEFAULT_HUMAN_ONLY_MIN_ASSURANCE\<rparr>)
              else Some ac))"

end
