(* ===== verification/Approval_Store.thy ===== *)
theory Approval_Store
  imports Approval_Core
begin

text \<open>
  The operations of the approval store, \<open>src/libs/core/governance/approval-store.ts\<close> with
  \<open>approval-request-create.ts\<close>, \<open>approval-apply-claim.ts\<close>, \<open>approval-revocation.ts\<close> and
  \<open>approval-passkey-challenge.ts\<close>: create, expire, cancel, annotate and decide a request, claim and record its
  effect, revoke and consume an approval, the session cache of repeated approvals, and the challenges that a passkey
  signs.

  Every operation runs under the lock of its record, so one operation is one step. The state is the list of
  records (one per storage channel and identifier), the event log, the session cache of the process, the
  challenges and the tasks that a decision schedules. A refused operation is \<open>Inl\<close> of its error with the
  state it leaves behind: a refusal may have expired the record, consumed a challenge or written an event.

  A record is stored where its tenant or owner puts it; the model keeps one list and leaves the partitions to
  the visibility of the environment. Random identifiers are arguments. Failures of the file system, the audit chain,
  worker events and the learning receipt of a mission are left out.
\<close>

section \<open>State\<close>

record passkey_challenge =
  pk_id :: ident
  pk_request_id :: ident
  pk_storage_channel :: string
  pk_decision :: decision
  pk_presented_digest :: string
  pk_member_id :: string
  pk_issued_at :: ms
  pk_expires_at :: ms
  pk_claimed_at :: "ms option"
  pk_verified_at :: "ms option"
  pk_credential_id :: "string option"
  pk_consumed_at :: "ms option"

record cache_entry =
  ce_key :: string
  ce_requestId :: ident
  ce_grantedBy :: string
  ce_grantedForAgent :: string
  ce_grantedAt :: ms
  ce_storageChannel :: string
  ce_expiresAt :: "stamp option"
  ce_payloadHash :: string
  ce_effectBinding :: string
  ce_source :: "request_source option"
  ce_tenant :: "string option"
  ce_ownerHash :: "string option"

datatype revoke_authority = OwnerAuthority | AccountablePrincipal | StandingEffect string string

record decision_event =
  de_decision :: decision
  de_decidedBy :: string
  de_decidedByRole :: "string option"
  de_identitySource :: "identity_source option"
  de_authMethod :: "auth_method option"
  de_decidedByType :: "decider_type option"
  de_authenticated :: "bool option"
  de_payloadHash :: "string option"
  de_effectBinding :: "string option"
  de_presentedDigest :: "string option"
  de_challengeId :: "ident option"
  de_shortfall :: "assurance_shortfall option"

datatype approval_event =
    EvRequested ident string
  | EvExpired ident
  | EvCancelled ident
  | EvReasonCaptured ident
  | EvDecided ident decision_event
  | EvSodRefused ident sod_violation
  | EvCacheWritten ident string
  | EvAutoApproved ident string
  | EvApplyStarted ident ident
  | EvApplied ident
  | EvApplyFailed ident
  | EvRevoked ident string
  | EvConsumed ident string
  | EvDelivered ident
  | EvVetoFallback ident
  | EvShadowElapsed ident

datatype scheduled = ResumePipeline ident | RunSteering ident | RejectHeldEffect ident

record approval_state =
  al_requests :: "approval_request list"
  al_events :: "approval_event list"
  al_cache :: "(string, cache_entry) js_map"
  al_challenges :: "passkey_challenge list"
  al_scheduled :: "scheduled list"

type_synonym 'a approval_result = "(approval_error + 'a) \<times> approval_state"

definition empty_approvals :: approval_state where
  "empty_approvals = \<lparr>al_requests = [], al_events = [], al_cache = [], al_challenges = [], al_scheduled = []\<rparr>"

text \<open>How a caller names a record.\<close>

record request_ref =
  rf_channel :: string
  rf_storageChannel :: "string option"
  rf_requestId :: ident

definition storage_of :: "request_ref \<Rightarrow> string" where
  "storage_of rf = (if truthy_opt (rf_storageChannel rf) then the (rf_storageChannel rf) else rf_channel rf)"

definition ref_of :: "approval_request \<Rightarrow> request_ref" where
  "ref_of r = \<lparr>rf_channel = aq_channel r, rf_storageChannel = Some (aq_storageChannel r), rf_requestId = aq_id r\<rparr>"

definition same_request :: "approval_request \<Rightarrow> approval_request \<Rightarrow> bool" where
  "same_request r q = (aq_storageChannel q = aq_storageChannel r \<and> aq_id q = aq_id r)"

definition find_request :: "string \<Rightarrow> ident \<Rightarrow> approval_state \<Rightarrow> approval_request option" where
  "find_request channel i st = List.find (\<lambda>r. aq_storageChannel r = channel \<and> aq_id r = i) (al_requests st)"

text \<open>A record that this process may not see is not found.\<close>

definition locateApprovalRequest ::
  "approval_env \<Rightarrow> string \<Rightarrow> ident \<Rightarrow> approval_state \<Rightarrow> approval_error + approval_request option" where
  "locateApprovalRequest env channel i st =
    (case normalizeApprovalChannel channel of
       None \<Rightarrow> Inl BadChannel
     | Some ch \<Rightarrow>
         (case normalizeApprovalRequestId i of
            None \<Rightarrow> Inl BadRequestId
          | Some n \<Rightarrow>
              Inr (case find_request ch n st of
                     Some r \<Rightarrow> if ae_visible env r then Some r else None
                   | None \<Rightarrow> None)))"

definition located :: "approval_env \<Rightarrow> request_ref \<Rightarrow> approval_state \<Rightarrow> approval_error + approval_request" where
  "located env rf st =
    (case locateApprovalRequest env (storage_of rf) (rf_requestId rf) st of
       Inl e \<Rightarrow> Inl e
     | Inr None \<Rightarrow> Inl RequestNotFound
     | Inr (Some r) \<Rightarrow> Inr r)"

definition put_request :: "approval_request \<Rightarrow> approval_state \<Rightarrow> approval_state" where
  "put_request r st = st\<lparr>al_requests := map (\<lambda>q. if same_request r q then r else q) (al_requests st)\<rparr>"

definition log_event :: "approval_event \<Rightarrow> approval_state \<Rightarrow> approval_state" where
  "log_event e st = st\<lparr>al_events := al_events st @ [e]\<rparr>"

definition schedule_task :: "scheduled \<Rightarrow> approval_state \<Rightarrow> approval_state" where
  "schedule_task t st = st\<lparr>al_scheduled := al_scheduled st @ [t]\<rparr>"

definition awaits_pipeline :: "approval_request \<Rightarrow> bool" where
  "awaits_pipeline r =
    (aq_kind r = MissionGateKind \<and> truthy_opt (Option.bind (aq_requestedByContext r) rc_pipelineRunId))"

definition schedulePipelineApprovalResume :: "approval_request \<Rightarrow> approval_state \<Rightarrow> approval_state" where
  "schedulePipelineApprovalResume r st = (if awaits_pipeline r then schedule_task (ResumePipeline (aq_id r)) st else st)"

section \<open>Creation\<close>

record create_params =
  cp_channel :: string
  cp_storageChannel :: "string option"
  cp_declaredDomain :: "string option"
  cp_correlationId :: string
  cp_title :: string
  cp_requestedBy :: string
  cp_requestedByContext :: "requester_context option"
  cp_source :: "request_source option"
  cp_kind :: "request_kind option"
  cp_expiresAt :: "stamp option"
  cp_workflow :: "workflow option"
  cp_accountability :: "accountability option"
  cp_steering :: "steering option"
  cp_veto :: "veto_window option"
  cp_tenant :: "string option"
  cp_ownerHash :: "string option"

definition new_request :: "approval_env \<Rightarrow> create_params \<Rightarrow> string \<Rightarrow> ident \<Rightarrow> approval_request" where
  "new_request env p channel i =
    \<lparr>aq_id = i, aq_kind = (case cp_kind p of Some k \<Rightarrow> k | None \<Rightarrow> ChannelApproval), aq_storageChannel = channel,
     aq_channel = cp_channel p, aq_correlationId = cp_correlationId p, aq_title = cp_title p,
     aq_requestedBy = cp_requestedBy p, aq_requestedByContext = cp_requestedByContext p, aq_source = cp_source p,
     aq_requestedAt = ae_now env, aq_tenant = cp_tenant p, aq_ownerHash = cp_ownerHash p, aq_status = Pending,
     aq_expiresAt = cp_expiresAt p, aq_workflow = cp_workflow p,
     aq_accountability = withDefaultMinAssurance (cp_accountability p), aq_steering = cp_steering p, aq_veto = cp_veto p,
     aq_decidedAt = None, aq_decidedBy = None, aq_decidedByType = None, aq_identitySource = None, aq_authenticated = None,
     aq_authMethod = None, aq_presentedDigest = None, aq_shortfall = None, aq_changeRequest = None, aq_applyClaim = None,
     aq_applyResult = None, aq_revocation = None, aq_consumption = None\<rparr>"

definition createApprovalRequest ::
  "approval_env \<Rightarrow> create_params \<Rightarrow> ident \<Rightarrow> approval_state \<Rightarrow> approval_request approval_result" where
  "createApprovalRequest env p i st =
    (if cp_veto p \<noteq> None \<and> is_human_only (cp_accountability p) then (Inl VetoIsHumanOnly, st)
     else
       (case normalizeApprovalChannel
               (if truthy_opt (cp_storageChannel p) then the (cp_storageChannel p)
                else if truthy_opt (cp_declaredDomain p) then the (cp_declaredDomain p) else cp_channel p) of
          None \<Rightarrow> (Inl BadChannel, st)
        | Some ch \<Rightarrow>
            (let r = new_request env p ch i
             in (Inr r, log_event (EvRequested i (aq_requestedBy r)) (st\<lparr>al_requests := al_requests st @ [r]\<rparr>)))))"

section \<open>Expiry, cancellation, annotation\<close>

definition close_pending ::
  "approval_env \<Rightarrow> approval_status \<Rightarrow> (ident \<Rightarrow> approval_event) \<Rightarrow> request_ref \<Rightarrow> approval_state \<Rightarrow>
   approval_request approval_result" where
  "close_pending env status event rf st =
    (case located env rf st of
       Inl e \<Rightarrow> (Inl e, st)
     | Inr r \<Rightarrow>
         if aq_status r \<noteq> Pending then (Inr r, st)
         else
           (let u = r\<lparr>aq_status := status\<rparr>
            in (Inr u, schedulePipelineApprovalResume u (log_event (event (aq_id r)) (put_request u st)))))"

definition expireApprovalRequest ::
  "approval_env \<Rightarrow> request_ref \<Rightarrow> approval_state \<Rightarrow> approval_request approval_result" where
  "expireApprovalRequest env = close_pending env Expired EvExpired"

definition cancelApprovalRequest ::
  "approval_env \<Rightarrow> request_ref \<Rightarrow> approval_state \<Rightarrow> approval_request approval_result" where
  "cancelApprovalRequest env = close_pending env Cancelled EvCancelled"

definition source_fields :: "(request_source \<Rightarrow> string option) list" where
  "source_fields = [src_missionId, src_taskId, src_agentId, src_actionId]"

definition specified_fields :: "request_source \<Rightarrow> (request_source \<Rightarrow> string option) list" where
  "specified_fields s = filter (\<lambda>f. case f s of Some v \<Rightarrow> js_trim v \<noteq> [] | None \<Rightarrow> False) source_fields"

text \<open>The records this process may see, newest first.\<close>

definition listApprovalRequests ::
  "approval_env \<Rightarrow> string list option \<Rightarrow> approval_status option \<Rightarrow> approval_state \<Rightarrow> approval_request list" where
  "listApprovalRequests env channels status st =
    js_sort_by (\<lambda>a b. aq_requestedAt b \<le> aq_requestedAt a)
      (filter (\<lambda>r. ae_visible env r \<and>
          (case channels of None \<Rightarrow> True | Some cs \<Rightarrow> cs = [] \<or> Some (aq_storageChannel r) \<in> set (map normalizeApprovalChannel cs)) \<and>
          (case status of None \<Rightarrow> True | Some s \<Rightarrow> aq_status r = s)) (al_requests st))"

fun cancel_each ::
  "approval_env \<Rightarrow> approval_request list \<Rightarrow> approval_state \<Rightarrow> approval_request list approval_result" where
  "cancel_each env [] st = (Inr [], st)"
| "cancel_each env (r # rs) st =
    (case cancelApprovalRequest env (ref_of r) st of
       (Inl e, st') \<Rightarrow> (Inl e, st')
     | (Inr c, st') \<Rightarrow>
         (case cancel_each env rs st' of (Inl e, st'') \<Rightarrow> (Inl e, st'') | (Inr cs, st'') \<Rightarrow> (Inr (c # cs), st'')))"

definition cancelApprovalRequestsBySource ::
  "approval_env \<Rightarrow> request_source \<Rightarrow> string list option \<Rightarrow> approval_state \<Rightarrow> approval_request list approval_result" where
  "cancelApprovalRequestsBySource env s channels st =
    (let fs = specified_fields s in
     if fs = [] then (Inl NoSourceField, st)
     else if channels \<noteq> None \<and> None \<in> set (map normalizeApprovalChannel (the channels)) then (Inl BadChannel, st)
     else cancel_each env
       (filter (\<lambda>r. case aq_source r of None \<Rightarrow> False | Some rs \<Rightarrow> list_all (\<lambda>f. f rs = f s) fs)
          (listApprovalRequests env channels (Some Pending) st)) st)"

definition annotateApprovalRejectionReason ::
  "approval_env \<Rightarrow> request_ref \<Rightarrow> string \<Rightarrow> string option \<Rightarrow> approval_state \<Rightarrow> approval_request approval_result" where
  "annotateApprovalRejectionReason env rf reason note st =
    (case located env rf st of
       Inl e \<Rightarrow> (Inl e, st)
     | Inr r \<Rightarrow>
         (let annotate = (\<lambda>a. if ap_status a = RoleRejected
                then a\<lparr>ap_reasonCategory := Some reason, ap_note := (if note \<noteq> None then note else ap_note a)\<rparr> else a);
              u = r\<lparr>aq_workflow := map_option (wf_approvals_update (map annotate)) (aq_workflow r)\<rparr>
          in (Inr u, log_event (EvReasonCaptured (aq_id r)) (put_request u st))))"


section \<open>Passkey challenges\<close>

definition APPROVAL_PASSKEY_CHALLENGE_TTL_MS :: ms where
  "APPROVAL_PASSKEY_CHALLENGE_TTL_MS = 120000"

definition awaiting_roles :: "approval_request \<Rightarrow> bool" where
  "awaiting_roles r = list_ex (\<lambda>a. ap_status a = RolePending) (approvals_of r)"

definition acceptsDecision :: "approval_request \<Rightarrow> bool" where
  "acceptsDecision r =
    (aq_status r = Pending \<or> (aq_status r \<in> {Approved, Rejected, Applied} \<and> awaiting_roles r))"

definition find_challenge :: "string \<Rightarrow> ident \<Rightarrow> approval_state \<Rightarrow> passkey_challenge option" where
  "find_challenge channel i st = List.find (\<lambda>c. pk_storage_channel c = channel \<and> pk_id c = i) (al_challenges st)"

definition put_challenge :: "passkey_challenge \<Rightarrow> approval_state \<Rightarrow> approval_state" where
  "put_challenge c st =
    st\<lparr>al_challenges := map (\<lambda>q. if pk_storage_channel q = pk_storage_channel c \<and> pk_id q = pk_id c then c else q)
       (al_challenges st)\<rparr>"

text \<open>The challenge of an identifier on a channel; \<open>None\<close> for a malformed name or an unknown challenge.\<close>

definition readChallenge :: "string \<Rightarrow> ident \<Rightarrow> approval_state \<Rightarrow> passkey_challenge option" where
  "readChallenge channel i st =
    (case normalizeApprovalChannel channel of
       None \<Rightarrow> None
     | Some ch \<Rightarrow> if uuid_pattern i then find_challenge ch (js_lower i) st else None)"

definition assertExpectation :: "ident \<Rightarrow> string \<Rightarrow> decision \<Rightarrow> ms \<Rightarrow> passkey_challenge \<Rightarrow> bool" where
  "assertExpectation requestId memberId d now c =
    (pk_request_id c = requestId \<and> pk_member_id c = memberId \<and> pk_decision c = d \<and> now < pk_expires_at c)"

definition issueApprovalPasskeyChallenge ::
  "approval_env \<Rightarrow> approval_request \<Rightarrow> string \<Rightarrow> decision \<Rightarrow> string \<Rightarrow> string \<Rightarrow> ident \<Rightarrow> approval_state \<Rightarrow>
   passkey_challenge approval_result" where
  "issueApprovalPasskeyChallenge env r storageChannel d memberId presented i st =
    (if \<not> acceptsDecision r then (Inl (CannotDecide PasskeyRefused), st)
     else if \<not> approvalPresentedDigestMatches env r presented then (Inl (CannotDecide PasskeyRefused), st)
     else
       (let limit = ae_now env + APPROVAL_PASSKEY_CHALLENGE_TTL_MS;
            expires = (case aq_expiresAt r of
              None \<Rightarrow> Some limit | Some (At t) \<Rightarrow> Some (min limit t) | Some (BadStamp s) \<Rightarrow> if s = [] then Some limit else None)
        in case (expires, normalizeApprovalChannel storageChannel, locateApprovalRequest env storageChannel (aq_id r) st) of
             (Some t, Some ch, Inr (Some _)) \<Rightarrow>
               if t \<le> ae_now env then (Inl (CannotDecide PasskeyRefused), st)
               else
                 (let c = \<lparr>pk_id = i, pk_request_id = aq_id r, pk_storage_channel = ch, pk_decision = d,
                           pk_presented_digest = ae_presented env r, pk_member_id = memberId, pk_issued_at = ae_now env,
                           pk_expires_at = t, pk_claimed_at = None, pk_verified_at = None, pk_credential_id = None,
                           pk_consumed_at = None\<rparr>
                  in (Inr c, st\<lparr>al_challenges := al_challenges st @ [c]\<rparr>))
           | _ \<Rightarrow> (Inl (CannotDecide PasskeyRefused), st)))"

definition claimApprovalPasskeyChallenge ::
  "approval_env \<Rightarrow> string \<Rightarrow> ident \<Rightarrow> ident \<Rightarrow> string \<Rightarrow> decision \<Rightarrow> approval_state \<Rightarrow> passkey_challenge approval_result" where
  "claimApprovalPasskeyChallenge env storageChannel i requestId memberId d st =
    (case readChallenge storageChannel i st of
       None \<Rightarrow> (Inl (CannotDecide PasskeyRefused), st)
     | Some c \<Rightarrow>
         if pk_claimed_at c \<noteq> None \<or> \<not> assertExpectation requestId memberId d (ae_now env) c
         then (Inl (CannotDecide PasskeyRefused), st)
         else (let c' = c\<lparr>pk_claimed_at := Some (ae_now env)\<rparr> in (Inr c', put_challenge c' st)))"

definition markApprovalPasskeyChallengeVerified ::
  "approval_env \<Rightarrow> passkey_challenge \<Rightarrow> string \<Rightarrow> approval_state \<Rightarrow> passkey_challenge approval_result" where
  "markApprovalPasskeyChallengeVerified env claimed credentialId st =
    (case readChallenge (pk_storage_channel claimed) (pk_id claimed) st of
       None \<Rightarrow> (Inl (CannotDecide PasskeyRefused), st)
     | Some c \<Rightarrow>
         if pk_claimed_at c = None \<or> pk_claimed_at c \<noteq> pk_claimed_at claimed \<or> pk_verified_at c \<noteq> None
         then (Inl (CannotDecide PasskeyRefused), st)
         else (let c' = c\<lparr>pk_verified_at := Some (ae_now env), pk_credential_id := Some credentialId\<rparr>
               in (Inr c', put_challenge c' st)))"

definition consumeApprovalPasskeyChallenge ::
  "approval_env \<Rightarrow> string \<Rightarrow> ident option \<Rightarrow> ident \<Rightarrow> string \<Rightarrow> decision \<Rightarrow> string option \<Rightarrow> approval_state \<Rightarrow>
   unit approval_result" where
  "consumeApprovalPasskeyChallenge env storageChannel challengeId requestId decidedBy d presented st =
    (if \<not> truthy_opt challengeId \<or> take 5 decidedBy \<noteq> ''user:'' then (Inl (CannotDecide PasskeyRefused), st)
     else
       (case readChallenge storageChannel (the challengeId) st of
          None \<Rightarrow> (Inl (CannotDecide PasskeyRefused), st)
        | Some c \<Rightarrow>
            if \<not> assertExpectation requestId (drop 5 decidedBy) d (ae_now env) c \<or> pk_verified_at c = None \<or>
               pk_consumed_at c \<noteq> None \<or> Some (pk_presented_digest c) \<noteq> presented
            then (Inl (CannotDecide PasskeyRefused), st)
            else (Inr (), put_challenge (c\<lparr>pk_consumed_at := Some (ae_now env)\<rparr>) st)))"

section \<open>The decision\<close>

record decide_params =
  dp_decision :: decision
  dp_decidedBy :: string
  dp_decidedByRole :: "string option"
  dp_authMethod :: "auth_method option"
  dp_decidedByType :: "decider_type option"
  dp_identitySource :: "identity_source option"
  dp_authenticated :: "bool option"
  dp_payloadHash :: "string option"
  dp_effectBinding :: "string option"
  dp_presentedDigest :: "string option"
  dp_challengeId :: "ident option"
  dp_deciderPrincipal :: "ident option"
  dp_note :: "string option"
  dp_reasonCategory :: "string option"
  dp_sessionCache :: "(string \<times> string) option"
  dp_changeInstruction :: "string option"
  dp_expectedRecordHash :: "string option"

definition APPROVAL_CHANGE_INSTRUCTION_MAX :: nat where
  "APPROVAL_CHANGE_INSTRUCTION_MAX = 2000"

definition TERMINAL_DECIDED_STATUSES :: "approval_status list" where
  "TERMINAL_DECIDED_STATUSES = [Approved, Rejected, Applied, Failed]"

definition bad_change_instruction :: "decide_params \<Rightarrow> bool" where
  "bad_change_instruction p =
    (case dp_changeInstruction p of
       None \<Rightarrow> False
     | Some s \<Rightarrow> dp_decision p \<noteq> DRejected \<or> js_trim s = [] \<or> length (js_trim s) > APPROVAL_CHANGE_INSTRUCTION_MAX)"

text \<open>Whether the record still takes a decision.\<close>

definition check_decidable :: "approval_env \<Rightarrow> decide_params \<Rightarrow> approval_request \<Rightarrow> decide_refusal option" where
  "check_decidable env p r =
    (if dp_expectedRecordHash p \<noteq> None \<and> dp_expectedRecordHash p \<noteq> Some (ae_recordHash env r) then Some ChangedSinceReview
     else if aq_status r = Cancelled then Some WasCancelled
     else if aq_status r = Expired then Some HasExpired
     else if aq_status r \<in> set TERMINAL_DECIDED_STATUSES \<and> \<not> awaiting_roles r then Some AlreadyDecided
     else None)"

definition settlePasskeyDecisionProof ::
  "approval_env \<Rightarrow> string \<Rightarrow> approval_request \<Rightarrow> decide_params \<Rightarrow> approval_state \<Rightarrow> unit approval_result" where
  "settlePasskeyDecisionProof env storageChannel r p st =
    (if dp_authMethod p \<noteq> Some Passkey
     then (if truthy_opt (dp_challengeId p) then (Inl (CannotDecide PasskeyRefused), st) else (Inr (), st))
     else consumeApprovalPasskeyChallenge env storageChannel (dp_challengeId p) (aq_id r) (dp_decidedBy p) (dp_decision p)
            (dp_presentedDigest p) st)"

definition proof_of :: "decide_params \<Rightarrow> decision_binding \<Rightarrow> human_proof" where
  "proof_of p b = \<lparr>hp_decidedByType = dp_decidedByType p, hp_authenticated = dp_authenticated p,
     hp_authMethod = dp_authMethod p, hp_payloadHash = db_payloadHash b, hp_effectBinding = db_effectBinding b\<rparr>"

text \<open>Separation of duties refuses an approving decision with an event.\<close>

definition enforceSeparationOfDutiesOnDecision ::
  "approval_env \<Rightarrow> approval_request \<Rightarrow> decide_params \<Rightarrow> approval_state \<Rightarrow> unit approval_result" where
  "enforceSeparationOfDutiesOnDecision env r p st =
    (case ae_sod env of
       None \<Rightarrow> (Inl PolicyUnreadable, st)
     | Some False \<Rightarrow> (Inr (), st)
     | Some True \<Rightarrow>
         (case evaluateSeparationOfDuties env r (Some (dp_decidedBy p)) (dp_identitySource p) of
            None \<Rightarrow> (Inr (), st)
          | Some v \<Rightarrow> (Inl (CannotDecide (SodRefused v)), log_event (EvSodRefused (aq_id r) v) st)))"

definition approvalActionCacheKey :: "string \<times> string \<Rightarrow> string option" where
  "approvalActionCacheKey d =
    (let a = js_lower (js_trim (fst d)); t = js_lower (js_trim (snd d))
     in if a = [] \<or> t = [] then None else Some (a @ ''::'' @ t))"

definition session_accountability :: accountability where
  "session_accountability = \<lparr>ac_human_only = True, ac_min_assurance = None, ac_policy_rule_id = None,
     ac_payloadHash = None, ac_effectBinding = None, ac_consent = None\<rparr>"

text \<open>The key under which an approval is cached for the session, \<open>None\<close> when it is not.\<close>

definition session_cache_key ::
  "approval_env \<Rightarrow> approval_request \<Rightarrow> decide_params \<Rightarrow> assurance_shortfall option \<Rightarrow> approval_error + string option" where
  "session_cache_key env r p shortfall =
    (case (if dp_decision p = DApproved then dp_sessionCache p else None) of
       None \<Rightarrow> Inr None
     | Some d \<Rightarrow>
         (case validateHumanFinalDecision env (Some session_accountability) None False
                 \<lparr>hp_decidedByType = dp_decidedByType p, hp_authenticated = dp_authenticated p,
                  hp_authMethod = dp_authMethod p, hp_payloadHash = None, hp_effectBinding = None\<rparr> of
            Inl e \<Rightarrow> Inl e
          | Inr cacheShortfall \<Rightarrow>
              (case approvalActionCacheKey d of
                 None \<Rightarrow> Inl (CannotDecide CacheKeyMissing)
               | Some key \<Rightarrow>
                   if \<not> is_human_only (aq_accountability r) \<or>
                      \<not> truthy_opt (Option.bind (aq_accountability r) ac_payloadHash) \<or>
                      \<not> truthy_opt (Option.bind (aq_accountability r) ac_effectBinding)
                   then Inl (CannotDecide CacheNeedsBinding)
                   else Inr (if shortfall \<noteq> None \<or> cacheShortfall \<noteq> None then None else Some key))))"

definition approving_checks ::
  "approval_env \<Rightarrow> approval_request \<Rightarrow> decide_params \<Rightarrow> approval_state \<Rightarrow> unit approval_result" where
  "approving_checks env r p st =
    (if dp_decision p \<noteq> DApproved then (Inr (), st)
     else if approvalConsentDecisionRefusal env r (Some (dp_decidedBy p)) then (Inl (CannotDecide ConsentRefused), st)
     else enforceSeparationOfDutiesOnDecision env r p st)"

text \<open>All checks of a decision on a decidable record, in the order of the code.\<close>

definition check_decision ::
  "approval_env \<Rightarrow> string \<Rightarrow> approval_request \<Rightarrow> decide_params \<Rightarrow> approval_state \<Rightarrow>
   (decision_binding \<times> assurance_shortfall option \<times> string option) approval_result" where
  "check_decision env storageChannel r p st =
    (if refuseHumanOnlyDecisionByAgentProcess env r (dp_deciderPrincipal p) then (Inl (CannotDecide HumanProofRequired), st)
     else
       (case bindPresentedDecision env r (dp_presentedDigest p) (dp_payloadHash p) (dp_effectBinding p) of
          Inl e \<Rightarrow> (Inl e, st)
        | Inr b \<Rightarrow>
            (case settlePasskeyDecisionProof env storageChannel r p st of
               (Inl e, st1) \<Rightarrow> (Inl e, st1)
             | (Inr _, st1) \<Rightarrow>
                 (case validateHumanFinalDecision env (aq_accountability r) (normalizeApprovalChannel storageChannel) False
                         (proof_of p b) of
                    Inl e \<Rightarrow> (Inl e, st1)
                  | Inr shortfall \<Rightarrow>
                      (case settleUnpresentedHumanDecision env r b of
                         Some e \<Rightarrow> (Inl e, st1)
                       | None \<Rightarrow>
                           (case approving_checks env r p st1 of
                              (Inl e, st2) \<Rightarrow> (Inl e, st2)
                            | (Inr _, st2) \<Rightarrow>
                                (case session_cache_key env r p shortfall of
                                   Inl e \<Rightarrow> (Inl e, st2)
                                 | Inr key \<Rightarrow> (Inr (b, shortfall, key), st2))))))))"

definition role_status_of :: "decision \<Rightarrow> role_status" where
  "role_status_of d = (case d of DApproved \<Rightarrow> RoleApproved | DRejected \<Rightarrow> RoleRejected)"

definition status_of :: "decision \<Rightarrow> approval_status" where
  "status_of d = (case d of DApproved \<Rightarrow> Approved | DRejected \<Rightarrow> Rejected)"

definition decide_role ::
  "approval_env \<Rightarrow> decide_params \<Rightarrow> decision_binding \<Rightarrow> role_approval \<Rightarrow> role_approval" where
  "decide_role env p b a =
    (if truthy_opt (dp_decidedByRole p) \<and> Some (ap_role a) \<noteq> dp_decidedByRole p then a
     else if \<not> truthy_opt (dp_decidedByRole p) \<and> ap_status a \<noteq> RolePending then a
     else a\<lparr>ap_status := role_status_of (dp_decision p), ap_approvedBy := Some (dp_decidedBy p),
            ap_approvedAt := Some (ae_now env), ap_authMethod := dp_authMethod p, ap_note := dp_note p,
            ap_reasonCategory := dp_reasonCategory p, ap_decidedByType := dp_decidedByType p,
            ap_authenticated := dp_authenticated p, ap_payloadHash := db_payloadHash b,
            ap_effectBinding := db_effectBinding b,
            ap_identitySource := (if dp_identitySource p \<noteq> None then dp_identitySource p else ap_identitySource a)\<rparr>)"

text \<open>The decided record: fields that the decision does not carry keep their old value, or are cleared.\<close>

definition decided_request ::
  "approval_env \<Rightarrow> decide_params \<Rightarrow> decision_binding \<Rightarrow> assurance_shortfall option \<Rightarrow> approval_request \<Rightarrow>
   approval_request" where
  "decided_request env p b shortfall r =
    r\<lparr>aq_status := status_of (dp_decision p), aq_decidedAt := Some (ae_now env), aq_decidedBy := Some (dp_decidedBy p),
      aq_identitySource := dp_identitySource p,
      aq_decidedByType := (if dp_decidedByType p \<noteq> None then dp_decidedByType p else aq_decidedByType r),
      aq_authenticated := (if dp_authenticated p \<noteq> None then dp_authenticated p else aq_authenticated r),
      aq_authMethod := (if dp_authMethod p \<noteq> None then dp_authMethod p else aq_authMethod r),
      aq_presentedDigest := (if db_verified b then dp_presentedDigest p else None),
      aq_shortfall := (if shortfall \<noteq> None then shortfall else aq_shortfall r),
      aq_changeRequest :=
        (case dp_changeInstruction p of
           Some s \<Rightarrow> Some \<lparr>cr_instruction = js_trim s, cr_requestedBy = dp_decidedBy p, cr_requestedAt = ae_now env\<rparr>
         | None \<Rightarrow> if dp_decision p \<noteq> DApproved then aq_changeRequest r else None),
      aq_workflow := map_option (wf_approvals_update (map (decide_role env p b))) (aq_workflow r)\<rparr>"

definition decision_event_of ::
  "decide_params \<Rightarrow> decision_binding \<Rightarrow> assurance_shortfall option \<Rightarrow> decision_event" where
  "decision_event_of p b shortfall =
    \<lparr>de_decision = dp_decision p, de_decidedBy = dp_decidedBy p, de_decidedByRole = dp_decidedByRole p,
     de_identitySource = dp_identitySource p, de_authMethod = dp_authMethod p, de_decidedByType = dp_decidedByType p,
     de_authenticated = dp_authenticated p, de_payloadHash = db_payloadHash b, de_effectBinding = db_effectBinding b,
     de_presentedDigest = (if truthy_opt (dp_presentedDigest p) then dp_presentedDigest p else None),
     de_challengeId = (if truthy_opt (dp_challengeId p) then dp_challengeId p else None), de_shortfall = shortfall\<rparr>"

definition session_entry :: "approval_env \<Rightarrow> approval_request \<Rightarrow> decide_params \<Rightarrow> string \<Rightarrow> cache_entry" where
  "session_entry env r p key =
    \<lparr>ce_key = key, ce_requestId = aq_id r, ce_grantedBy = dp_decidedBy p, ce_grantedForAgent = aq_requestedBy r,
     ce_grantedAt = ae_now env, ce_storageChannel = aq_storageChannel r, ce_expiresAt = aq_expiresAt r,
     ce_payloadHash = the (Option.bind (aq_accountability r) ac_payloadHash),
     ce_effectBinding = the (Option.bind (aq_accountability r) ac_effectBinding), ce_source = aq_source r,
     ce_tenant = aq_tenant r, ce_ownerHash = aq_ownerHash r\<rparr>"

definition write_session_cache ::
  "approval_env \<Rightarrow> approval_request \<Rightarrow> decide_params \<Rightarrow> string option \<Rightarrow> approval_state \<Rightarrow> approval_state" where
  "write_session_cache env r p key st =
    (case key of
       None \<Rightarrow> st
     | Some k \<Rightarrow>
         log_event (EvCacheWritten (aq_id r) k)
           (st\<lparr>al_cache := AList.update k (session_entry env r p k) (al_cache st)\<rparr>))"

definition schedule_decision :: "approval_request \<Rightarrow> approval_state \<Rightarrow> approval_state" where
  "schedule_decision r st =
    (let st1 = (if aq_status r = Approved \<and> aq_steering r \<noteq> None then schedule_task (RunSteering (aq_id r)) st else st);
         st2 = (if aq_status r = Rejected \<and> aq_steering r = Some HeldEffect
                then schedule_task (RejectHeldEffect (aq_id r)) st1 else st1)
     in schedulePipelineApprovalResume r st2)"

definition decideApprovalRequest ::
  "approval_env \<Rightarrow> request_ref \<Rightarrow> decide_params \<Rightarrow> approval_state \<Rightarrow> approval_request approval_result" where
  "decideApprovalRequest env rf p st =
    (if bad_change_instruction p then (Inl (CannotDecide BadChangeInstruction), st)
     else
       (case located env rf st of
          Inl e \<Rightarrow> (Inl e, st)
        | Inr r \<Rightarrow>
            (case check_decidable env p r of
               Some e \<Rightarrow> (Inl (CannotDecide e), st)
             | None \<Rightarrow>
                 if aq_status r = Pending \<and> isApprovalRequestExpired (aq_expiresAt r) (ae_now env)
                 then (Inl (CannotDecide HasExpired), snd (expireApprovalRequest env (ref_of r) st))
                 else
                   (case check_decision env (storage_of rf) r p st of
                      (Inl e, st1) \<Rightarrow> (Inl e, st1)
                    | (Inr (b, shortfall, key), st1) \<Rightarrow>
                        (let u = decided_request env p b shortfall r;
                             ev = EvDecided (aq_id r) (decision_event_of p b shortfall)
                         in (Inr u, schedule_decision u
                                      (write_session_cache env u p key (log_event ev (put_request u st1)))))))))"


section \<open>Applying an approval\<close>

definition claimApprovalApply ::
  "approval_env \<Rightarrow> request_ref \<Rightarrow> string \<Rightarrow> string \<Rightarrow> ident \<Rightarrow> approval_state \<Rightarrow> approval_request approval_result" where
  "claimApprovalApply env rf appliedBy expectedRecordHash claimId st =
    (case located env rf st of
       Inl e \<Rightarrow> (Inl e, st)
     | Inr r \<Rightarrow>
         if expectedRecordHash \<noteq> ae_recordHash env r then (Inl (CannotApply ChangedBeforeApply), st)
         else if aq_status r \<noteq> Approved \<or> isApprovalRequestExpired (aq_expiresAt r) (ae_now env)
         then (Inl (CannotApply NotApproved), st)
         else if aq_applyClaim r \<noteq> None \<or> aq_applyResult r \<noteq> None then (Inl (CannotApply AlreadyStarted), st)
         else if js_trim appliedBy = [] then (Inl (CannotApply NoActor), st)
         else
           (case assertApprovalUsable env r of
              Some e \<Rightarrow> (Inl e, st)
            | None \<Rightarrow>
                (let u = r\<lparr>aq_applyClaim := Some \<lparr>cl_claimId = claimId, cl_startedAt = ae_now env, cl_startedBy = appliedBy\<rparr>\<rparr>
                 in (Inr u, log_event (EvApplyStarted (aq_id r) claimId) (put_request u st)))))"

definition status_after_apply :: "approval_request \<Rightarrow> apply_result \<Rightarrow> approval_status" where
  "status_after_apply r result =
    (if aq_kind r = SecretMutation then
       (case rs_result result of
          Some ApplySuccess \<Rightarrow> Applied | Some ApplyFailed \<Rightarrow> Failed | _ \<Rightarrow> aq_status r)
     else aq_status r)"

definition recordApprovalApplyResult ::
  "approval_env \<Rightarrow> request_ref \<Rightarrow> apply_result \<Rightarrow> ident option \<Rightarrow> approval_state \<Rightarrow> approval_request approval_result" where
  "recordApprovalApplyResult env rf result claimId st =
    (case located env rf st of
       Inl e \<Rightarrow> (Inl e, st)
     | Inr r \<Rightarrow>
         if aq_applyClaim r \<noteq> None \<and> claimId \<noteq> map_option cl_claimId (aq_applyClaim r)
         then (Inl (CannotApply ClaimMismatch), st)
         else if truthy_opt claimId \<and> aq_applyClaim r = None then (Inl (CannotApply ClaimMissing), st)
         else if aq_applyClaim r \<noteq> None \<and> aq_applyResult r \<noteq> None then (Inl (CannotApply ResultRecorded), st)
         else
           (let u = r\<lparr>aq_status := status_after_apply r result, aq_applyResult := Some result\<rparr>;
                ev = (if rs_result result = Some ApplySuccess then EvApplied (aq_id r) else EvApplyFailed (aq_id r))
            in (Inr u, log_event ev (put_request u st))))"

text \<open>The ends of the scheduled tasks: what a resumed pipeline or an approved steering verb reported.\<close>

datatype resume_outcome = ResumeStarted | ResumeRunning | ResumeNotApplicable bool | ResumeOther | ResumeThrew string

definition apply_result_of :: "approval_env \<Rightarrow> string \<Rightarrow> apply_outcome \<Rightarrow> string option \<Rightarrow> apply_result" where
  "apply_result_of env who outcome ref =
    \<lparr>rs_appliedAt = Some (ae_now env), rs_appliedBy = Some who, rs_result = Some outcome, rs_auditRef = ref\<rparr>"

definition drop_task :: "scheduled \<Rightarrow> approval_state \<Rightarrow> approval_state" where
  "drop_task t st = st\<lparr>al_scheduled := remove1 t (al_scheduled st)\<rparr>"

definition finishPipelineResume ::
  "approval_env \<Rightarrow> approval_request \<Rightarrow> resume_outcome \<Rightarrow> string option \<Rightarrow> approval_state \<Rightarrow> approval_state" where
  "finishPipelineResume env r outcome ref st0 =
    (let st = drop_task (ResumePipeline (aq_id r)) st0 in
     if outcome = ResumeNotApplicable False then st
     else if truthy_opt (Option.bind (aq_requestedByContext r) rc_executionBindingHash) then st
     else
       snd (recordApprovalApplyResult env (ref_of r)
              (apply_result_of env ''pipeline_approval_resume''
                 (if outcome = ResumeStarted \<or> outcome = ResumeRunning then ApplySuccess else ApplyFailed) ref) None st))"

definition finishSteering ::
  "approval_env \<Rightarrow> approval_request \<Rightarrow> bool \<Rightarrow> string option \<Rightarrow> approval_state \<Rightarrow> approval_state" where
  "finishSteering env r ok ref st0 =
    snd (recordApprovalApplyResult env (ref_of r)
           (apply_result_of env ''surface_mission_steering'' (if ok then ApplySuccess else ApplyFailed) ref) None
           (drop_task (RunSteering (aq_id r)) st0))"

section \<open>Revocation and consumption\<close>

definition forgetSessionApprovalCacheFor :: "ident \<Rightarrow> approval_state \<Rightarrow> approval_state" where
  "forgetSessionApprovalCacheFor i st = st\<lparr>al_cache := filter (\<lambda>(k, e). ce_requestId e \<noteq> i) (al_cache st)\<rparr>"

definition accountable_principals :: "approval_env \<Rightarrow> approval_request \<Rightarrow> string list" where
  "accountable_principals env r =
    approvalRequesterIdentities env r @
    filter (\<lambda>i. i \<noteq> []) (map (normalizeApprovalPrincipalId env) (aq_decidedBy r # map ap_approvedBy (approvals_of r)))"

definition effect_matches :: "revoke_authority \<Rightarrow> approval_request \<Rightarrow> bool" where
  "effect_matches auth r =
    (case auth of
       StandingEffect consumer ref \<Rightarrow>
         (case aq_consumption r of
            Some c \<Rightarrow> co_consumer c = consumer \<and> co_effectRef c = Some ref | None \<Rightarrow> False)
     | _ \<Rightarrow> False)"

definition revoke_check ::
  "approval_env \<Rightarrow> revoke_authority \<Rightarrow> string \<Rightarrow> approval_request \<Rightarrow> revoke_refusal option" where
  "revoke_check env auth revokedBy r =
    (let revoker = normalizeApprovalPrincipalId env (Some revokedBy);
         standing = (case auth of StandingEffect _ _ \<Rightarrow> True | _ \<Rightarrow> False) in
     if aq_revocation r \<noteq> None then Some AlreadyRevoked
     else if aq_status r = Pending then Some StillPending
     else if aq_status r \<noteq> Approved then Some NotAnApproval
     else if aq_applyClaim r \<noteq> None \<or> aq_applyResult r \<noteq> None then Some AlreadyApplied
     else if standing \<and> \<not> effect_matches auth r then Some NotConsumedByEffect
     else if aq_consumption r \<noteq> None \<and> \<not> effect_matches auth r then Some AlreadyConsumed
     else if aq_steering r \<noteq> None then Some SteeringEffect
     else if revoker = [] \<or> revoker \<in> set APPROVAL_PLACEHOLDER_DECIDERS then Some BadRevoker
     else if auth = AccountablePrincipal \<and> revoker \<notin> set (accountable_principals env r) then Some NotAccountable
     else None)"

definition revoke ::
  "approval_env \<Rightarrow> request_ref \<Rightarrow> revoke_authority \<Rightarrow> string \<Rightarrow> string option \<Rightarrow> approval_state \<Rightarrow>
   approval_request approval_result" where
  "revoke env rf auth revokedBy reason st =
    (case located env rf st of
       Inl e \<Rightarrow> (Inl e, st)
     | Inr r \<Rightarrow>
         (case revoke_check env auth revokedBy r of
            Some e \<Rightarrow> (Inl (CannotRevoke e), st)
          | None \<Rightarrow>
              (let u = r\<lparr>aq_revocation := Some \<lparr>rv_revokedBy = revokedBy, rv_revokedAt = ae_now env,
                     rv_reason = (case reason of Some s \<Rightarrow> if js_trim s = [] then None else Some (js_trim s) | None \<Rightarrow> None)\<rparr>\<rparr>
               in (Inr u, forgetSessionApprovalCacheFor (aq_id r)
                            (log_event (EvRevoked (aq_id r) revokedBy) (put_request u st))))))"

definition revokeApprovalRequest ::
  "approval_env \<Rightarrow> request_ref \<Rightarrow> string \<Rightarrow> string option \<Rightarrow> approval_state \<Rightarrow> approval_request approval_result" where
  "revokeApprovalRequest env rf revokedBy reason st = revoke env rf AccountablePrincipal revokedBy reason st"

text \<open>The owner is the local member the registry names, \<open>None\<close> when there is none.\<close>

definition revokeApprovalAsLocalOwner ::
  "approval_env \<Rightarrow> string option \<Rightarrow> request_ref \<Rightarrow> string option \<Rightarrow> approval_state \<Rightarrow> approval_request approval_result" where
  "revokeApprovalAsLocalOwner env owner rf reason st =
    (case owner of
       None \<Rightarrow> (Inl (CannotRevoke NoOwner), st)
     | Some m \<Rightarrow> revoke env rf OwnerAuthority (''user:'' @ m) reason st)"

definition revokeStandingEffectApproval ::
  "approval_env \<Rightarrow> request_ref \<Rightarrow> string \<Rightarrow> string \<Rightarrow> string \<Rightarrow> string option \<Rightarrow> approval_state \<Rightarrow>
   approval_request approval_result" where
  "revokeStandingEffectApproval env rf revokedBy consumer effectRef reason st =
    (if js_trim consumer = [] \<or> js_trim effectRef = [] then (Inl (CannotRevoke NeedsEffectRef), st)
     else revoke env rf (StandingEffect consumer effectRef) revokedBy reason st)"

text \<open>An effect that consumes the approval at once; one that runs under the lock first is the same step.\<close>

definition markApprovalConsumed ::
  "approval_env \<Rightarrow> request_ref \<Rightarrow> string \<Rightarrow> string \<Rightarrow> string option \<Rightarrow> approval_state \<Rightarrow> approval_request approval_result" where
  "markApprovalConsumed env rf consumer consumedBy effectRef st =
    (case locateApprovalRequest env (storage_of rf) (rf_requestId rf) st of
       Inl e \<Rightarrow> (Inl e, st)
     | Inr None \<Rightarrow> (Inl (CannotApply NotApproved), st)
     | Inr (Some r) \<Rightarrow>
         if aq_status r \<noteq> Approved then (Inl (CannotApply NotApproved), st)
         else if aq_consumption r \<noteq> None \<or> aq_applyClaim r \<noteq> None \<or> aq_applyResult r \<noteq> None
         then (Inl (CannotApply AlreadyUsed), st)
         else
           (case assertApprovalUsable env r of
              Some e \<Rightarrow> (Inl e, st)
            | None \<Rightarrow>
                (let u = r\<lparr>aq_consumption := Some \<lparr>co_consumer = consumer, co_consumedBy = consumedBy,
                       co_consumedAt = ae_now env, co_effectRef = (if truthy_opt effectRef then effectRef else None)\<rparr>\<rparr>
                 in (Inr u, log_event (EvConsumed (aq_id r) consumer) (put_request u st)))))"

section \<open>The session cache\<close>

record cache_context =
  cx_agentId :: string
  cx_payloadHash :: string
  cx_effectBinding :: string
  cx_source :: "request_source option"

definition same_scope :: "request_source option \<Rightarrow> request_source option \<Rightarrow> bool" where
  "same_scope a b =
    (case (a, b) of
       (None, None) \<Rightarrow> True
     | (Some s, Some t) \<Rightarrow> src_missionId s = src_missionId t \<and> src_taskId s = src_taskId t \<and> src_agentId s = src_agentId t
     | _ \<Rightarrow> False)"

definition entry_serves :: "approval_env \<Rightarrow> cache_context \<Rightarrow> cache_entry \<Rightarrow> bool" where
  "entry_serves env cx e =
    (ce_grantedForAgent e = cx_agentId cx \<and> ce_payloadHash e = cx_payloadHash cx \<and>
     ce_effectBinding e = cx_effectBinding cx \<and>
     (truthy_opt (ce_ownerHash e) \<longrightarrow> ce_ownerHash e = ae_ownerHash env) \<and>
     (case ce_tenant e of Some t \<Rightarrow> t = [] \<or> ae_mayBind env t | None \<Rightarrow> True) \<and>
     same_scope (ce_source e) (cx_source cx))"

definition lookupSessionApprovalCache ::
  "approval_env \<Rightarrow> string \<times> string \<Rightarrow> cache_context \<Rightarrow> approval_state \<Rightarrow> cache_entry option approval_result" where
  "lookupSessionApprovalCache env d cx st =
    (case approvalActionCacheKey d of
       None \<Rightarrow> (Inl (CannotDecide CacheKeyMissing), st)
     | Some key \<Rightarrow>
         (case map_of (al_cache st) key of
            None \<Rightarrow> (Inr None, st)
          | Some e \<Rightarrow>
              if isApprovalRequestExpired (ce_expiresAt e) (ae_now env)
              then (Inr None, st\<lparr>al_cache := AList.delete key (al_cache st)\<rparr>)
              else (Inr (if entry_serves env cx e then Some e else None), st)))"

datatype seed_resolution = SeedFound approval_request | SeedMissing | SeedUnusable

definition in_private_partition :: "cache_entry \<Rightarrow> bool" where
  "in_private_partition e = (ce_ownerHash e \<noteq> None \<or> ce_tenant e \<noteq> None)"

text \<open>The request that seeded a cached approval; a seed in a partition is read there, whatever this process sees.\<close>

definition resolveSessionCacheSeed :: "approval_env \<Rightarrow> cache_entry \<Rightarrow> approval_state \<Rightarrow> seed_resolution" where
  "resolveSessionCacheSeed env e st =
    (if truthy_opt (ce_ownerHash e) \<and> ce_ownerHash e \<noteq> ae_ownerHash env then SeedUnusable
     else if truthy_opt (ce_tenant e) \<and> \<not> ae_mayBind env (the (ce_tenant e)) then SeedUnusable
     else if in_private_partition e then
       (case find_request (ce_storageChannel e) (ce_requestId e) st of Some r \<Rightarrow> SeedFound r | None \<Rightarrow> SeedUnusable)
     else
       (case locateApprovalRequest env (ce_storageChannel e) (ce_requestId e) st of
          Inl _ \<Rightarrow> SeedUnusable
        | Inr None \<Rightarrow> if truthy_opt (ce_tenant e) then SeedUnusable else SeedMissing
        | Inr (Some r) \<Rightarrow>
            if aq_ownerHash r \<noteq> None \<or> (aq_tenant r \<noteq> None \<and> \<not> truthy_opt (ce_tenant e)) then SeedUnusable
            else SeedFound r))"

definition recordSessionCacheAutoApproval :: "cache_entry \<Rightarrow> string \<Rightarrow> approval_state \<Rightarrow> approval_state" where
  "recordSessionCacheAutoApproval e agentId st = log_event (EvAutoApproved (ce_requestId e) agentId) st"

end
