(* ===== verification/Approval_Veto.thy ===== *)
theory Approval_Veto
  imports Approval_Store
begin

text \<open>
  The veto window of \<open>src/libs/core/governance/approval-veto-window.ts\<close>: a request with a window proceeds on its
  own when nobody objects within a number of active minutes after its notification was delivered. A notification that
  is not delivered in time leaves the request to a person, a shadow window only records that it would have
  proceeded, and a halt of operations freezes the windows.

  The time zone database is the parameter \<open>ae_localMinute\<close> of the environment. The scan for the deadline is
  bounded by the code itself (sixty days of minutes).
\<close>

section \<open>Windows\<close>

datatype veto_state = AwaitingDelivery | Counting | Elapsed | ElapsedShadow | Undelivered

definition DEFAULT_VETO_DELIVERY_GRACE_MINUTES :: int where
  "DEFAULT_VETO_DELIVERY_GRACE_MINUTES = 30"

definition VETO_WINDOW_DECIDER :: string where
  "VETO_WINDOW_DECIDER = ''policy:veto-window''"

definition MINUTE_MS :: ms where
  "MINUTE_MS = 60000"

definition MAX_SCAN_MINUTES :: nat where
  "MAX_SCAN_MINUTES = 86400"

definition digit_value :: "char \<Rightarrow> int" where
  "digit_value c = int (of_char c) - 48"

text \<open>Hours and minutes of a time of day, \<open>None\<close> when the text does not match the pattern.\<close>

definition parseHhMm :: "string \<Rightarrow> int option" where
  "parseHhMm s =
    (case s of
       [a, b, c, d, e] \<Rightarrow>
         if is_digit a \<and> is_digit b \<and> c = CHR '':'' \<and> is_digit d \<and> is_digit e \<and>
            digit_value a * 10 + digit_value b \<le> 23 \<and> digit_value d \<le> 5
         then Some ((digit_value a * 10 + digit_value b) * 60 + (digit_value d * 10 + digit_value e))
         else None
     | _ \<Rightarrow> None)"

definition isWithinActiveHours :: "approval_env \<Rightarrow> ms \<Rightarrow> active_hours option \<Rightarrow> approval_error + bool" where
  "isWithinActiveHours env t hours =
    (case hours of
       None \<Rightarrow> Inr True
     | Some h \<Rightarrow>
         (case (parseHhMm (ah_start h), parseHhMm (ah_end h)) of
            (Some s, Some e) \<Rightarrow>
              if s = e then Inr True
              else (let m = ae_localMinute env t (ah_timezone h)
                    in Inr (if s < e then s \<le> m \<and> m < e else s \<le> m \<or> m < e))
          | _ \<Rightarrow> Inl BadActiveHours))"

text \<open>The scan over the minutes: how many more it may look at, the cursor, how many active ones are still needed.\<close>

fun scan_minutes :: "approval_env \<Rightarrow> active_hours \<Rightarrow> nat \<Rightarrow> ms \<Rightarrow> nat \<Rightarrow> approval_error + ms option" where
  "scan_minutes env h left cursor 0 = Inr (Some cursor)"
| "scan_minutes env h 0 cursor (Suc k) = Inr None"
| "scan_minutes env h (Suc left) cursor (Suc k) =
    (case isWithinActiveHours env cursor (Some h) of
       Inl e \<Rightarrow> Inl e
     | Inr active \<Rightarrow> scan_minutes env h left (cursor + MINUTE_MS) (if active then k else Suc k))"

definition next_minute :: "ms \<Rightarrow> ms" where
  "next_minute t = - ((- t) div MINUTE_MS) * MINUTE_MS"

definition computeVetoDeadline ::
  "approval_env \<Rightarrow> ms \<Rightarrow> rat \<Rightarrow> active_hours option \<Rightarrow> approval_error + ms option" where
  "computeVetoDeadline env startMs windowMinutes hours =
    (let minutes = nat \<lceil>windowMinutes\<rceil> in
     case hours of
       None \<Rightarrow> Inr (Some (startMs + int minutes * MINUTE_MS))
     | Some h \<Rightarrow> scan_minutes env h MAX_SCAN_MINUTES (next_minute startMs) minutes)"

definition buildVetoWindow ::
  "rat \<Rightarrow> active_hours option \<Rightarrow> bool \<Rightarrow> int option \<Rightarrow> ms \<Rightarrow> approval_error + veto_window" where
  "buildVetoWindow windowMinutes hours shadow graceMinutes now =
    (if windowMinutes \<le> 0 then Inl BadWindow
     else
       (let grace = (case graceMinutes of Some g \<Rightarrow> g | None \<Rightarrow> DEFAULT_VETO_DELIVERY_GRACE_MINUTES)
        in Inr \<lparr>vw_windowMinutes = windowMinutes, vw_activeHours = hours,
             vw_deliveryDeadlineAt = At (now + grace * MINUTE_MS), vw_deliveredAt = None, vw_proceedsAt = None,
             vw_shadow = shadow, vw_fallback = False, vw_shadowElapsedAt = None\<rparr>))"

definition parseInstant :: "stamp option \<Rightarrow> ms option" where
  "parseInstant s = (case s of Some (At t) \<Rightarrow> Some t | _ \<Rightarrow> None)"

definition stamp_present :: "stamp option \<Rightarrow> bool" where
  "stamp_present s = (case s of None \<Rightarrow> False | Some (BadStamp t) \<Rightarrow> t \<noteq> [] | Some (At _) \<Rightarrow> True)"

definition evaluateVetoWindow :: "veto_window \<Rightarrow> ms \<Rightarrow> veto_state" where
  "evaluateVetoWindow v now =
    (if vw_fallback v then Undelivered
     else if \<not> stamp_present (vw_deliveredAt v) then
       (case parseInstant (Some (vw_deliveryDeadlineAt v)) of
          None \<Rightarrow> Undelivered
        | Some deadline \<Rightarrow> if deadline \<le> now then Undelivered else AwaitingDelivery)
     else
       (case parseInstant (vw_proceedsAt v) of
          None \<Rightarrow> Counting
        | Some t \<Rightarrow> if t > now then Counting else if vw_shadow v then ElapsedShadow else Elapsed))"

section \<open>Delivery\<close>

text \<open>The record under its lock, \<open>None\<close> when it is gone.\<close>

definition fallBackToDecision :: "approval_request \<Rightarrow> approval_state \<Rightarrow> approval_request \<times> approval_state" where
  "fallBackToDecision r st =
    (case aq_veto r of
       None \<Rightarrow> (r, st)
     | Some v \<Rightarrow>
         if vw_fallback v \<or> aq_status r \<noteq> Pending then (r, st)
         else (let u = r\<lparr>aq_veto := Some (v\<lparr>vw_fallback := True\<rparr>)\<rparr>
               in (u, log_event (EvVetoFallback (aq_id r)) (put_request u st))))"

definition deliver ::
  "approval_env \<Rightarrow> approval_request \<Rightarrow> veto_window \<Rightarrow> ms \<Rightarrow> approval_state \<Rightarrow> approval_request option approval_result" where
  "deliver env r v deliveredMs st =
    (if evaluateVetoWindow v deliveredMs = Undelivered
     then (case fallBackToDecision r st of (u, st') \<Rightarrow> (Inr (Some u), st'))
     else
       (case computeVetoDeadline env deliveredMs (vw_windowMinutes v) (vw_activeHours v) of
          Inl e \<Rightarrow> (Inl e, st)
        | Inr None \<Rightarrow>
            (case fallBackToDecision (r\<lparr>aq_veto := Some (v\<lparr>vw_deliveredAt := Some (At deliveredMs)\<rparr>)\<rparr>) st of
               (u, st') \<Rightarrow> (Inr (Some u), st'))
        | Inr (Some t) \<Rightarrow>
            (let u = r\<lparr>aq_veto := Some (v\<lparr>vw_deliveredAt := Some (At deliveredMs), vw_proceedsAt := Some (At t)\<rparr>)\<rparr>
             in (Inr (Some u), log_event (EvDelivered (aq_id r)) (put_request u st)))))"

definition markApprovalNotificationDelivered ::
  "approval_env \<Rightarrow> string \<Rightarrow> ident \<Rightarrow> stamp option \<Rightarrow> approval_state \<Rightarrow> approval_request option approval_result" where
  "markApprovalNotificationDelivered env storageChannel requestId deliveredAt st =
    (case locateApprovalRequest env storageChannel requestId st of
       Inl e \<Rightarrow> (Inl e, st)
     | Inr None \<Rightarrow> (Inr None, st)
     | Inr (Some r) \<Rightarrow>
         (case aq_veto r of
            None \<Rightarrow> (Inr (Some r), st)
          | Some v \<Rightarrow>
              if aq_status r \<noteq> Pending \<or> stamp_present (vw_deliveredAt v) then (Inr (Some r), st)
              else
                (case parseInstant (case deliveredAt of Some d \<Rightarrow> Some d | None \<Rightarrow> Some (At (ae_now env))) of
                   None \<Rightarrow> (Inr (Some r), st)
                 | Some deliveredMs \<Rightarrow> deliver env r v deliveredMs st)))"

text \<open>The correlation identifier of a delivered message, which names the channel and the request.\<close>

definition parse_correlation :: "string \<Rightarrow> (string \<times> ident) option" where
  "parse_correlation s =
    (let l = js_lower s; rest = drop 9 l; channel = takeWhile (\<lambda>c. c \<noteq> CHR '':'') rest;
         i = drop (length channel + 1) rest
     in if take 9 l = ''approval:'' \<and> channel_pattern channel \<and> length channel < length rest \<and> length i = 36 \<and>
           list_all (\<lambda>c. is_hex c \<or> c = CHR ''-'') i
        then Some (channel, i) else None)"

definition recordApprovalDeliveryReceipt ::
  "approval_env \<Rightarrow> string option \<Rightarrow> stamp option \<Rightarrow> approval_state \<Rightarrow> approval_state" where
  "recordApprovalDeliveryReceipt env correlation deliveredAt st =
    (case parse_correlation (case correlation of Some c \<Rightarrow> c | None \<Rightarrow> []) of
       None \<Rightarrow> st
     | Some (channel, i) \<Rightarrow> snd (markApprovalNotificationDelivered env channel i deliveredAt st))"

section \<open>The tick\<close>

definition veto_decision :: decide_params where
  "veto_decision =
    \<lparr>dp_decision = DApproved, dp_decidedBy = VETO_WINDOW_DECIDER, dp_decidedByRole = None, dp_authMethod = None,
     dp_decidedByType = Some ServiceDecider, dp_identitySource = None, dp_authenticated = Some False,
     dp_payloadHash = None, dp_effectBinding = None, dp_presentedDigest = None, dp_challengeId = None,
     dp_deciderPrincipal = None, dp_note = Some ''no objection within the active minutes after delivery'',
     dp_reasonCategory = None, dp_sessionCache = None, dp_changeInstruction = None, dp_expectedRecordHash = None\<rparr>"

datatype tick_outcome = Proceeded approval_request | ShadowElapsed approval_request | FellBack approval_request

text \<open>One window, evaluated again on the fresh record under its lock.\<close>

definition tick_fresh ::
  "approval_env \<Rightarrow> ms \<Rightarrow> approval_request \<Rightarrow> approval_state \<Rightarrow> tick_outcome option approval_result" where
  "tick_fresh env now fresh st =
    (case aq_veto fresh of
       None \<Rightarrow> (Inr None, st)
     | Some v \<Rightarrow>
         if aq_status fresh \<noteq> Pending then (Inr None, st)
         else
           (case evaluateVetoWindow v now of
              Undelivered \<Rightarrow>
                if vw_fallback v then (Inr None, st)
                else (case fallBackToDecision fresh st of (u, st') \<Rightarrow> (Inr (Some (FellBack u)), st'))
            | ElapsedShadow \<Rightarrow>
                if vw_shadowElapsedAt v \<noteq> None then (Inr None, st)
                else
                  (let u = fresh\<lparr>aq_veto := Some (v\<lparr>vw_shadowElapsedAt := Some now\<rparr>)\<rparr>
                   in (Inr (Some (ShadowElapsed u)), log_event (EvShadowElapsed (aq_id fresh)) (put_request u st)))
            | Elapsed \<Rightarrow>
                (case decideApprovalRequest env (ref_of fresh) veto_decision st of
                   (Inl e, st') \<Rightarrow> (Inl e, st')
                 | (Inr u, st') \<Rightarrow> (Inr (Some (Proceeded u)), st'))
            | _ \<Rightarrow> (Inr None, st)))"

definition tick_one ::
  "approval_env \<Rightarrow> ms \<Rightarrow> approval_request \<Rightarrow> approval_state \<Rightarrow> tick_outcome option approval_result" where
  "tick_one env now r st =
    (case aq_veto r of
       None \<Rightarrow> (Inr None, st)
     | Some v \<Rightarrow>
         if evaluateVetoWindow v now \<notin> {Undelivered, ElapsedShadow, Elapsed} then (Inr None, st)
         else
           (case locateApprovalRequest env (aq_storageChannel r) (aq_id r) st of
              Inl e \<Rightarrow> (Inl e, st)
            | Inr None \<Rightarrow> (Inr None, st)
            | Inr (Some fresh) \<Rightarrow> tick_fresh env now fresh st))"

record tick_result =
  tr_proceeded :: "approval_request list"
  tr_shadowElapsed :: "approval_request list"
  tr_fellBack :: "approval_request list"
  tr_errors :: "(ident \<times> approval_error) list"

definition add_outcome :: "ident \<Rightarrow> approval_error + tick_outcome option \<Rightarrow> tick_result \<Rightarrow> tick_result" where
  "add_outcome i o' res =
    (case o' of
       Inl e \<Rightarrow> res\<lparr>tr_errors := tr_errors res @ [(i, e)]\<rparr>
     | Inr None \<Rightarrow> res
     | Inr (Some (Proceeded r)) \<Rightarrow> res\<lparr>tr_proceeded := tr_proceeded res @ [r]\<rparr>
     | Inr (Some (ShadowElapsed r)) \<Rightarrow> res\<lparr>tr_shadowElapsed := tr_shadowElapsed res @ [r]\<rparr>
     | Inr (Some (FellBack r)) \<Rightarrow> res\<lparr>tr_fellBack := tr_fellBack res @ [r]\<rparr>)"

fun tick_all ::
  "approval_env \<Rightarrow> ms \<Rightarrow> approval_request list \<Rightarrow> tick_result \<Rightarrow> approval_state \<Rightarrow> tick_result \<times> approval_state" where
  "tick_all env now [] res st = (res, st)"
| "tick_all env now (r # rs) res st =
    (case tick_one env now r st of (o', st') \<Rightarrow> tick_all env now rs (add_outcome (aq_id r) o' res) st')"

definition tickVetoWindows ::
  "approval_env \<Rightarrow> ms option \<Rightarrow> string list option \<Rightarrow> approval_state \<Rightarrow> tick_result approval_result" where
  "tickVetoWindows env now channels st =
    (let empty = \<lparr>tr_proceeded = [], tr_shadowElapsed = [], tr_fellBack = [], tr_errors = []\<rparr>;
         t = (case now of Some n \<Rightarrow> n | None \<Rightarrow> ae_now env) in
     if ae_halted env then (Inr empty, st)
     else if channels \<noteq> None \<and> None \<in> set (map normalizeApprovalChannel (the channels)) then (Inl BadChannel, st)
     else (case tick_all env t (listApprovalRequests env channels (Some Pending) st) empty st of (res, st') \<Rightarrow> (Inr res, st')))"

end
