(* ===== verification/Approval_Gate.thy ===== *)
theory Approval_Gate
  imports Approval_Store
begin

text \<open>
  The gate in front of a governed operation, \<open>enforceApprovalGate\<close> of
  \<open>src/libs/core/governance/approval-gate.ts\<close>: an operation that needs no approval passes; otherwise the
  newest usable request of the correlation identifier decides, then the session cache, and otherwise a new request
  is opened.

  Arguments of the gate that other parts compute: the resolved policy of the operation, the outcome of the
  accountability charter, whether the decision rights escalate, the hash of the payload and whether a request lies
  in the caller's scope. Audit entries, traces and notifications are left out.
\<close>

record gate_policy =
  gp_requiresApproval :: bool
  gp_missing :: "string list"
  gp_matchedRuleId :: "string option"
  gp_mandatory :: bool
  gp_minAssurance :: "assurance_level option"

datatype charter_outcome = CharterNone | CharterStop | CharterAllow | CharterRequire

record gate_params =
  ga_requireApproval :: bool
  ga_operationId :: string
  ga_agentId :: string
  ga_correlationId :: string
  ga_channel :: string
  ga_declaredDomain :: "string option"
  ga_payloadHash :: string
  ga_title :: string
  ga_descriptor :: "(string \<times> string) option"
  ga_source :: "request_source option"
  ga_context :: "requester_context option"
  ga_kind :: "request_kind option"
  ga_hasHuman :: "bool option"
  ga_hasUI :: "bool option"
  ga_nonInteractive :: "bool option"
  ga_enqueueRequest :: bool
  ga_expiresAt :: "stamp option"
  ga_inScope :: "approval_request \<Rightarrow> bool"
  ga_tenant :: "string option"
  ga_ownerHash :: "string option"
  ga_policy :: gate_policy
  ga_charter :: charter_outcome
  ga_rightsEscalate :: "bool option"

datatype gate_status = GateApproved | GatePending | GateNotRequired

datatype gate_request_status = GsCreated | GsPending | GsRejected | GsExpired | GsEffectMismatch | GsHumanRequired

record gate_result =
  gr_allowed :: bool
  gr_status :: gate_status
  gr_requestId :: "ident option"
  gr_requestStatus :: "gate_request_status option"

definition gate_denied :: "ident option \<Rightarrow> gate_request_status option \<Rightarrow> gate_result" where
  "gate_denied i s = \<lparr>gr_allowed = False, gr_status = GatePending, gr_requestId = i, gr_requestStatus = s\<rparr>"

definition gate_not_required :: gate_result where
  "gate_not_required = \<lparr>gr_allowed = True, gr_status = GateNotRequired, gr_requestId = None, gr_requestStatus = None\<rparr>"

definition gate_approved :: "ident \<Rightarrow> gate_result" where
  "gate_approved i = \<lparr>gr_allowed = True, gr_status = GateApproved, gr_requestId = Some i, gr_requestStatus = None\<rparr>"

definition hasHuman :: "gate_params \<Rightarrow> bool option" where
  "hasHuman g =
    (if ga_nonInteractive g = Some True then Some False
     else if ga_hasHuman g \<noteq> None then ga_hasHuman g
     else if ga_hasUI g \<noteq> None then ga_hasUI g
     else map_option Not (ga_nonInteractive g))"

definition HARDENED_RULES :: "string list" where
  "HARDENED_RULES = [''injection-suspected-override'', ''strict-posture-floor'']"

definition isCharterEligiblePolicy :: "gate_policy \<Rightarrow> bool" where
  "isCharterEligiblePolicy p =
    (if gp_mandatory p then False
     else
       (let rule = (case gp_matchedRuleId p of Some r \<Rightarrow> r | None \<Rightarrow> []) in
        if rule \<noteq> [] \<and> (rule \<in> set HARDENED_RULES \<or> take 19 rule = ''fallback-dangerous-'') then False
        else ''dual_key_confirmation'' \<notin> set (gp_missing p)))"

definition MAX_APPROVAL_TTL_MS :: ms where
  "MAX_APPROVAL_TTL_MS = 604800000"

definition clampRenewableExpiry :: "stamp \<Rightarrow> ms \<Rightarrow> ms option" where
  "clampRenewableExpiry s now =
    (case s of BadStamp _ \<Rightarrow> None | At t \<Rightarrow> if t \<le> now then None else Some (min t (now + MAX_APPROVAL_TTL_MS)))"

definition isLapsedRequest :: "approval_request \<Rightarrow> ms \<Rightarrow> bool" where
  "isLapsedRequest r now = (aq_status r = Expired \<or> isApprovalRequestExpired (aq_expiresAt r) now)"

definition force_approval :: "gate_params \<Rightarrow> bool" where
  "force_approval g = (ga_requireApproval g \<or> ga_charter g = CharterRequire \<or> ga_rightsEscalate g = Some True)"

definition effective_policy :: "gate_params \<Rightarrow> gate_policy" where
  "effective_policy g =
    (if force_approval g \<and> \<not> gp_requiresApproval (ga_policy g)
     then \<lparr>gp_requiresApproval = True, gp_missing = [''approval_confirmation''],
           gp_matchedRuleId = Some (if ga_charter g = CharterRequire then ''charter-outside-envelope''
             else ''decision-rights-escalation''),
           gp_mandatory = False, gp_minAssurance = None\<rparr>
     else ga_policy g)"

text \<open>Whether the operation passes without an approval: delegated by a charter, allowed by the decision rights, or
  not subject to approval.\<close>

definition passes_unapproved :: "gate_params \<Rightarrow> bool" where
  "passes_unapproved g =
    (let eligible = isCharterEligiblePolicy (ga_policy g) in
     (ga_charter g = CharterAllow \<and> eligible) \<or>
     (\<not> force_approval g \<and> eligible \<and> ga_rightsEscalate g = Some False) \<or>
     \<not> gp_requiresApproval (effective_policy g))"

text \<open>A renewable caller closes the lapsed pending requests of its correlation for good; a failure is ignored.\<close>

fun expire_lapsed :: "approval_env \<Rightarrow> string \<Rightarrow> approval_request list \<Rightarrow> approval_state \<Rightarrow> approval_state" where
  "expire_lapsed env channel [] st = st"
| "expire_lapsed env channel (r # rs) st =
    expire_lapsed env channel rs
      (if aq_status r = Pending \<and> isApprovalRequestExpired (aq_expiresAt r) (ae_now env)
       then snd (expireApprovalRequest env
              \<lparr>rf_channel = aq_channel r, rf_storageChannel = Some channel, rf_requestId = aq_id r\<rparr> st)
       else st)"

text \<open>The first candidate that is not an unusable approval.\<close>

fun find_usable :: "approval_env \<Rightarrow> approval_request list \<Rightarrow> approval_error + approval_request option" where
  "find_usable env [] = Inr None"
| "find_usable env (r # rs) =
    (if aq_status r \<noteq> Approved then Inr (Some r)
     else
       (case evaluateApprovalUsability env r of
          Inl e \<Rightarrow> Inl e
        | Inr None \<Rightarrow> Inr (Some r)
        | Inr (Some _) \<Rightarrow> find_usable env rs))"

definition binding_mismatch :: "gate_params \<Rightarrow> approval_request \<Rightarrow> bool" where
  "binding_mismatch g r =
    ((ga_requireApproval g \<or> is_human_only (aq_accountability r)) \<and>
     (Option.bind (aq_accountability r) ac_payloadHash \<noteq> Some (ga_payloadHash g) \<or>
      Option.bind (aq_accountability r) ac_effectBinding \<noteq> Some (ga_operationId g)))"

definition decide_matched :: "approval_env \<Rightarrow> gate_params \<Rightarrow> approval_request \<Rightarrow> gate_result" where
  "decide_matched env g r =
    (let expired = (aq_status r = Approved \<and> isApprovalRequestExpired (aq_expiresAt r) (ae_now env)) in
     if aq_status r = Approved \<and> \<not> expired \<and> \<not> binding_mismatch g r then gate_approved (aq_id r)
     else gate_denied (Some (aq_id r))
       (if binding_mismatch g r then Some GsEffectMismatch
        else if expired then Some GsExpired
        else (case aq_status r of Pending \<Rightarrow> Some GsPending | Rejected \<Rightarrow> Some GsRejected | Expired \<Rightarrow> Some GsExpired | _ \<Rightarrow> None)))"

definition cache_context_of :: "gate_params \<Rightarrow> cache_context" where
  "cache_context_of g =
    \<lparr>cx_agentId = ga_agentId g, cx_payloadHash = ga_payloadHash g, cx_effectBinding = ga_operationId g,
     cx_source = ga_source g\<rparr>"

definition cache_eligible :: "gate_params \<Rightarrow> bool" where
  "cache_eligible g =
    (let p = effective_policy g in
     \<not> gp_mandatory p \<and> gp_matchedRuleId p \<noteq> Some ''injection-suspected-override'' \<and>
     ''dual_key_confirmation'' \<notin> set (gp_missing p) \<and>
     (case ga_descriptor g of
        Some (a, t) \<Rightarrow> js_lower (js_trim a) = js_lower (js_trim (ga_operationId g)) | None \<Rightarrow> False))"

text \<open>Whether the decision that seeded a cached approval is still usable.\<close>

definition seed_usable :: "approval_env \<Rightarrow> cache_entry \<Rightarrow> approval_state \<Rightarrow> approval_error + bool" where
  "seed_usable env e st =
    (case resolveSessionCacheSeed env e st of
       SeedUnusable \<Rightarrow> Inr False
     | SeedMissing \<Rightarrow> (case ae_sod env of None \<Rightarrow> Inl PolicyUnreadable | Some on \<Rightarrow> Inr (\<not> on))
     | SeedFound r \<Rightarrow> Inr (assertApprovalUsable env r = None))"

definition cached_approval ::
  "approval_env \<Rightarrow> gate_params \<Rightarrow> approval_state \<Rightarrow> cache_entry option approval_result" where
  "cached_approval env g st =
    (if \<not> cache_eligible g then (Inr None, st)
     else
       (case lookupSessionApprovalCache env (the (ga_descriptor g)) (cache_context_of g) st of
          (Inl e, st') \<Rightarrow> (Inl e, st')
        | (Inr None, st') \<Rightarrow> (Inr None, st')
        | (Inr (Some e), st') \<Rightarrow>
            (case seed_usable env e st' of
               Inl err \<Rightarrow> (Inl err, st')
             | Inr ok \<Rightarrow> (Inr (if ok then Some e else None), st'))))"

definition gate_accountability :: "gate_params \<Rightarrow> accountability" where
  "gate_accountability g =
    (let p = effective_policy g in
     \<lparr>ac_human_only = True,
      ac_min_assurance = Some (strongerAssurance
        (if ''dual_key_confirmation'' \<in> set (gp_missing p) then DUAL_KEY_MIN_ASSURANCE else DEFAULT_HUMAN_ONLY_MIN_ASSURANCE)
        (case gp_minAssurance p of Some l \<Rightarrow> l | None \<Rightarrow> DEFAULT_HUMAN_ONLY_MIN_ASSURANCE)),
      ac_policy_rule_id = gp_matchedRuleId p, ac_payloadHash = Some (ga_payloadHash g),
      ac_effectBinding = Some (ga_operationId g), ac_consent = None\<rparr>)"

definition gate_request :: "gate_params \<Rightarrow> stamp option \<Rightarrow> create_params" where
  "gate_request g expires =
    \<lparr>cp_channel = ga_channel g, cp_storageChannel = None, cp_declaredDomain = ga_declaredDomain g,
     cp_correlationId = ga_correlationId g, cp_title = ga_title g,
     cp_requestedBy = (case (ga_kind g, ga_context g) of (Some MissionGateKind, Some c) \<Rightarrow> rc_actorId c | _ \<Rightarrow> ga_agentId g),
     cp_requestedByContext = ga_context g, cp_source = ga_source g, cp_kind = ga_kind g, cp_expiresAt = expires,
     cp_workflow = None, cp_accountability = Some (gate_accountability g), cp_steering = None, cp_veto = None,
     cp_tenant = ga_tenant g, cp_ownerHash = ga_ownerHash g\<rparr>"

definition open_request ::
  "approval_env \<Rightarrow> gate_params \<Rightarrow> stamp option \<Rightarrow> ident \<Rightarrow> approval_state \<Rightarrow> gate_result approval_result" where
  "open_request env g expires i st =
    (if hasHuman g = Some False \<and> \<not> ga_enqueueRequest g then (Inr (gate_denied None (Some GsHumanRequired)), st)
     else
       (case createApprovalRequest env (gate_request g expires) i st of
          (Inl e, st') \<Rightarrow> (Inl e, st')
        | (Inr r, st') \<Rightarrow> (Inr (gate_denied (Some (aq_id r)) (Some GsCreated)), st')))"

definition gate_lookup ::
  "approval_env \<Rightarrow> gate_params \<Rightarrow> stamp option \<Rightarrow> ident \<Rightarrow> approval_state \<Rightarrow> gate_result approval_result" where
  "gate_lookup env g renewable i st =
    (if normalizeApprovalChannel (ga_channel g) = None then (Inl BadChannel, st)
     else
       (let same = filter (\<lambda>r. ga_inScope g r \<and> aq_correlationId r = ga_correlationId g)
              (listApprovalRequests env (Some [ga_channel g]) None st);
            st1 = (if renewable \<noteq> None then expire_lapsed env (ga_channel g) same st else st);
            candidates = (if renewable = None then filter (\<lambda>r. aq_status r \<noteq> Expired) same
                          else filter (\<lambda>r. \<not> isLapsedRequest r (ae_now env)) same)
        in case find_usable env candidates of
             Inl e \<Rightarrow> (Inl e, st1)
           | Inr (Some r) \<Rightarrow> (Inr (decide_matched env g r), st1)
           | Inr None \<Rightarrow>
               (case cached_approval env g st1 of
                  (Inl e, st2) \<Rightarrow> (Inl e, st2)
                | (Inr (Some e), st2) \<Rightarrow>
                    (Inr (gate_approved (ce_requestId e)), recordSessionCacheAutoApproval e (ga_agentId g) st2)
                | (Inr None, st2) \<Rightarrow> open_request env g renewable i st2)))"

definition enforceApprovalGate ::
  "approval_env \<Rightarrow> gate_params \<Rightarrow> ident \<Rightarrow> approval_state \<Rightarrow> gate_result approval_result" where
  "enforceApprovalGate env g i st =
    (if ga_charter g = CharterStop then (Inr (gate_denied None None), st)
     else if passes_unapproved g then (Inr gate_not_required, st)
     else
       (case ga_expiresAt g of
          None \<Rightarrow> gate_lookup env g None i st
        | Some s \<Rightarrow>
            (case clampRenewableExpiry s (ae_now env) of
               None \<Rightarrow> (Inr (gate_denied None None), st)
             | Some t \<Rightarrow> gate_lookup env g (Some (At t)) i st)))"

end
