(* ===== verification/Approval_Steps.thy ===== *)
theory Approval_Steps
  imports Approval_Veto Approval_Gate
begin

text \<open>
  Histories of the approval store and what holds in all of them. One step is one operation, by any caller, in an
  environment that the predicate \<open>E\<close> admits (so a theorem can fix the policy of a whole history and leave the
  clock, the callers and everything else open). Random identifiers are fresh and well formed, as the language's
  generator promises.
\<close>

section \<open>Steps\<close>

datatype approval_op =
    OpCreate create_params ident
  | OpExpire request_ref
  | OpCancel request_ref
  | OpCancelSource request_source "string list option"
  | OpAnnotate request_ref string "string option"
  | OpIssue approval_request string decision string string ident
  | OpClaimChallenge string ident ident string decision
  | OpVerifyChallenge passkey_challenge string
  | OpDecide request_ref decide_params
  | OpClaim request_ref string string ident
  | OpRecordResult request_ref apply_result "ident option"
  | OpFinishResume approval_request resume_outcome "string option"
  | OpFinishSteering approval_request bool "string option"
  | OpRevoke request_ref revoke_authority string "string option"
  | OpConsume request_ref string string "string option"
  | OpLookupCache "string \<times> string" cache_context
  | OpDelivered string ident "stamp option"
  | OpReceipt "string option" "stamp option"
  | OpTick "ms option" "string list option"
  | OpGate gate_params ident

fun run_op :: "approval_env \<Rightarrow> approval_op \<Rightarrow> approval_state \<Rightarrow> approval_state" where
  "run_op env (OpCreate p i) st = snd (createApprovalRequest env p i st)"
| "run_op env (OpExpire rf) st = snd (expireApprovalRequest env rf st)"
| "run_op env (OpCancel rf) st = snd (cancelApprovalRequest env rf st)"
| "run_op env (OpCancelSource s cs) st = snd (cancelApprovalRequestsBySource env s cs st)"
| "run_op env (OpAnnotate rf c n) st = snd (annotateApprovalRejectionReason env rf c n st)"
| "run_op env (OpIssue r ch d m p i) st = snd (issueApprovalPasskeyChallenge env r ch d m p i st)"
| "run_op env (OpClaimChallenge ch c i m d) st = snd (claimApprovalPasskeyChallenge env ch c i m d st)"
| "run_op env (OpVerifyChallenge c k) st = snd (markApprovalPasskeyChallengeVerified env c k st)"
| "run_op env (OpDecide rf p) st = snd (decideApprovalRequest env rf p st)"
| "run_op env (OpClaim rf who h c) st = snd (claimApprovalApply env rf who h c st)"
| "run_op env (OpRecordResult rf res c) st = snd (recordApprovalApplyResult env rf res c st)"
| "run_op env (OpFinishResume r out ref) st = finishPipelineResume env r out ref st"
| "run_op env (OpFinishSteering r ok ref) st = finishSteering env r ok ref st"
| "run_op env (OpRevoke rf auth who why) st = snd (revoke env rf auth who why st)"
| "run_op env (OpConsume rf c who ref) st = snd (markApprovalConsumed env rf c who ref st)"
| "run_op env (OpLookupCache d cx) st = snd (lookupSessionApprovalCache env d cx st)"
| "run_op env (OpDelivered ch i d) st = snd (markApprovalNotificationDelivered env ch i d st)"
| "run_op env (OpReceipt c d) st = recordApprovalDeliveryReceipt env c d st"
| "run_op env (OpTick now cs) st = snd (tickVetoWindows env now cs st)"
| "run_op env (OpGate g i) st = snd (enforceApprovalGate env g i st)"

definition well_formed_id :: "ident \<Rightarrow> bool" where
  "well_formed_id i = (normalizeApprovalRequestId i = Some i)"

text \<open>The identifiers an operation draws are new; a new request has no approving role and an unopened window.\<close>

definition undecided_workflow :: "workflow option \<Rightarrow> bool" where
  "undecided_workflow w = (case w of None \<Rightarrow> True | Some wk \<Rightarrow> list_all (\<lambda>a. ap_status a \<noteq> RoleApproved) (wf_approvals wk))"

definition unopened_window :: "veto_window option \<Rightarrow> bool" where
  "unopened_window w = (case w of None \<Rightarrow> True | Some v \<Rightarrow> vw_deliveredAt v = None \<and> vw_proceedsAt v = None)"

fun op_ok :: "approval_op \<Rightarrow> approval_state \<Rightarrow> bool" where
  "op_ok (OpCreate p i) st = (well_formed_id i \<and> i \<notin> set (map aq_id (al_requests st)) \<and> undecided_workflow (cp_workflow p) \<and>
     unopened_window (cp_veto p))"
| "op_ok (OpGate g i) st = (well_formed_id i \<and> i \<notin> set (map aq_id (al_requests st)))"
| "op_ok (OpIssue r ch d m p i) st = (well_formed_id i \<and> i \<notin> set (map pk_id (al_challenges st)))"
| "op_ok _ st = True"

inductive approval_reachable :: "(approval_env \<Rightarrow> bool) \<Rightarrow> approval_state \<Rightarrow> bool" for E where
  start: "approval_reachable E empty_approvals"
| step: "approval_reachable E st \<Longrightarrow> E env \<Longrightarrow> op_ok oper st \<Longrightarrow> approval_reachable E (run_op env oper st)"


section \<open>Micro-steps\<close>

text \<open>What one operation does to one record: the change of the record and the event it writes.\<close>

inductive moves :: "approval_env \<Rightarrow> approval_request \<Rightarrow> approval_request \<Rightarrow> approval_event \<Rightarrow> bool" for env r where
  expire: "aq_status r = Pending \<Longrightarrow> moves env r (r\<lparr>aq_status := Expired\<rparr>) (EvExpired (aq_id r))"
| cancel: "aq_status r = Pending \<Longrightarrow> moves env r (r\<lparr>aq_status := Cancelled\<rparr>) (EvCancelled (aq_id r))"
| annotate: "(\<And>a. ap_status (f a) = ap_status a \<and> ap_approvedBy (f a) = ap_approvedBy a \<and>
      ap_identitySource (f a) = ap_identitySource a) \<Longrightarrow>
    moves env r (r\<lparr>aq_workflow := map_option (wf_approvals_update (map f)) (aq_workflow r)\<rparr>) (EvReasonCaptured (aq_id r))"
| claim: "aq_status r = Approved \<Longrightarrow> aq_applyClaim r = None \<Longrightarrow> aq_applyResult r = None \<Longrightarrow>
    assertApprovalUsable env r = None \<Longrightarrow>
    moves env r (r\<lparr>aq_applyClaim := Some c\<rparr>) (EvApplyStarted (aq_id r) (cl_claimId c))"
| result: "status = status_after_apply r res \<Longrightarrow> ev = EvApplied (aq_id r) \<or> ev = EvApplyFailed (aq_id r) \<Longrightarrow>
    moves env r (r\<lparr>aq_status := status, aq_applyResult := Some res\<rparr>) ev"
| revoke: "aq_revocation r = None \<Longrightarrow> aq_status r = Approved \<Longrightarrow> moves env r (r\<lparr>aq_revocation := Some v\<rparr>) (EvRevoked (aq_id r) who)"
| consume: "aq_status r = Approved \<Longrightarrow> aq_consumption r = None \<Longrightarrow> aq_applyClaim r = None \<Longrightarrow> aq_applyResult r = None \<Longrightarrow>
    assertApprovalUsable env r = None \<Longrightarrow>
    moves env r (r\<lparr>aq_consumption := Some k\<rparr>) (EvConsumed (aq_id r) who)"
| fall_back: "aq_status r = Pending \<Longrightarrow> aq_veto r = Some v \<Longrightarrow> vw_fallback w \<Longrightarrow>
    moves env r (r\<lparr>aq_veto := Some w\<rparr>) (EvVetoFallback (aq_id r))"
| delivered: "aq_status r = Pending \<Longrightarrow> aq_veto r = Some v \<Longrightarrow> \<not> stamp_present (vw_deliveredAt v) \<Longrightarrow>
    evaluateVetoWindow v d \<noteq> Undelivered \<Longrightarrow>
    computeVetoDeadline env d (vw_windowMinutes v) (vw_activeHours v) = Inr (Some t) \<Longrightarrow>
    moves env r (r\<lparr>aq_veto := Some (v\<lparr>vw_deliveredAt := Some (At d), vw_proceedsAt := Some (At t)\<rparr>)\<rparr>) (EvDelivered (aq_id r))"
| shadow: "aq_status r = Pending \<Longrightarrow> aq_veto r = Some v \<Longrightarrow>
    moves env r (r\<lparr>aq_veto := Some (v\<lparr>vw_shadowElapsedAt := Some n\<rparr>)\<rparr>) (EvShadowElapsed (aq_id r))"

text \<open>A change of the store: a new request, a move of one record, a decision, or bookkeeping beside the records.\<close>

inductive change :: "approval_env \<Rightarrow> approval_state \<Rightarrow> approval_state \<Rightarrow> bool" for env where
  new: "well_formed_id i \<Longrightarrow> i \<notin> set (map aq_id (al_requests st)) \<Longrightarrow> undecided_workflow (cp_workflow p) \<Longrightarrow>
    unopened_window (cp_veto p) \<Longrightarrow>
    change env st (log_event (EvRequested i (cp_requestedBy p)) (st\<lparr>al_requests := al_requests st @ [new_request env p ch i]\<rparr>))"
| move: "r \<in> set (al_requests st) \<Longrightarrow> moves env r u ev \<Longrightarrow> aq_revocation u = aq_revocation r \<Longrightarrow> change env st (log_event ev (put_request u st))"
| revoked: "r \<in> set (al_requests st) \<Longrightarrow> moves env r u (EvRevoked i who) \<Longrightarrow>
    change env st (forgetSessionApprovalCacheFor (aq_id r) (log_event (EvRevoked i who) (put_request u st)))"
| decide: "r \<in> set (al_requests st) \<Longrightarrow> check_decidable env p r = None \<Longrightarrow>
    check_decision env ch r p st = (Inr (b, shortfall, key), st1) \<Longrightarrow> u = decided_request env p b shortfall r \<Longrightarrow>
    change env st (write_session_cache env u p key
      (log_event (EvDecided (aq_id r) (decision_event_of p b shortfall)) (put_request u st1)))"
| refused: "check_decision env ch r p st = (Inl e, st1) \<Longrightarrow> change env st st1"
| schedule: "change env st (st\<lparr>al_scheduled := ts\<rparr>)"
| forget: "set cache \<subseteq> set (al_cache st) \<Longrightarrow> change env st (st\<lparr>al_cache := cache\<rparr>)"
| auto_approved: "change env st (log_event (EvAutoApproved i who) st)"
| issue: "issueApprovalPasskeyChallenge env r ch d m s i st = (res, st1) \<Longrightarrow> well_formed_id i \<Longrightarrow>
    i \<notin> set (map pk_id (al_challenges st)) \<Longrightarrow> change env st st1"
| claim_challenge: "claimApprovalPasskeyChallenge env ch c i m d st = (res, st1) \<Longrightarrow> change env st st1"
| verify_challenge: "markApprovalPasskeyChallengeVerified env c k st = (res, st1) \<Longrightarrow> change env st st1"

abbreviation changes :: "approval_env \<Rightarrow> approval_state \<Rightarrow> approval_state \<Rightarrow> bool" where
  "changes env \<equiv> (change env)\<^sup>*\<^sup>*"


lemma find_request_in: "find_request ch i st = Some r \<Longrightarrow> r \<in> set (al_requests st)"
  by (auto simp: find_request_def dest: find_Some_in_set)

lemma locate_in: "locateApprovalRequest env ch i st = Inr (Some r) \<Longrightarrow> r \<in> set (al_requests st)"
  by (auto simp: locateApprovalRequest_def dest: find_request_in split: option.splits if_splits)

lemma located_in: "located env rf st = Inr r \<Longrightarrow> r \<in> set (al_requests st)"
  by (auto simp: located_def dest: locate_in split: option.splits sum.splits)

lemma changes_move:
  "r \<in> set (al_requests st) \<Longrightarrow> moves env r u ev \<Longrightarrow> aq_revocation u = aq_revocation r \<Longrightarrow> changes env st (log_event ev (put_request u st))"
  by (blast intro: change.move)

lemma changes_schedule: "changes env st st' \<Longrightarrow> changes env st (schedule_task t st')"
  by (auto simp: schedule_task_def intro: rtranclp.rtrancl_into_rtrancl change.schedule)

lemma changes_resume: "changes env st st' \<Longrightarrow> changes env st (schedulePipelineApprovalResume u st')"
  by (simp add: schedulePipelineApprovalResume_def changes_schedule)

lemma changes_drop: "changes env st (drop_task t st)"
  by (auto simp: drop_task_def intro: change.schedule)

lemma changes_expire: "changes env st (snd (expireApprovalRequest env rf st))"
  by (auto simp: expireApprovalRequest_def close_pending_def Let_def split: sum.split
      intro!: changes_resume changes_move moves.expire located_in)

lemma changes_cancel: "changes env st (snd (cancelApprovalRequest env rf st))"
  by (auto simp: cancelApprovalRequest_def close_pending_def Let_def split: sum.split
      intro!: changes_resume changes_move moves.cancel located_in)

lemma changes_cancel_each: "changes env st (snd (cancel_each env rs st))"
proof (induction env rs st rule: cancel_each.induct)
  case (2 env r rs st)
  obtain x st' where c: "cancelApprovalRequest env (ref_of r) st = (x, st')" by fastforce
  have st': "changes env st st'" using changes_cancel [of env st "ref_of r"] c by simp
  show ?case
  proof (cases x)
    case (Inr y)
    with 2 c have "changes env st' (snd (cancel_each env rs st'))" by simp
    with st' have "changes env st (snd (cancel_each env rs st'))" by (rule rtranclp_trans)
    then show ?thesis using c Inr by (auto split: prod.split sum.split)
  qed (use c st' in simp)
qed simp

lemma changes_cancel_source: "changes env st (snd (cancelApprovalRequestsBySource env s cs st))"
  by (simp add: cancelApprovalRequestsBySource_def Let_def changes_cancel_each)

lemma changes_annotate: "changes env st (snd (annotateApprovalRejectionReason env rf c n st))"
  by (auto simp: annotateApprovalRejectionReason_def Let_def split: sum.split
      intro!: changes_move moves.annotate located_in)

lemma changes_claim: "changes env st (snd (claimApprovalApply env rf who h c st))"
proof (cases "located env rf st")
  case (Inr r)
  then have "r \<in> set (al_requests st)" by (rule located_in)
  then show ?thesis
    using Inr changes_move [OF _ moves.claim [of r env "\<lparr>cl_claimId = c, cl_startedAt = ae_now env, cl_startedBy = who\<rparr>"]]
    by (auto simp: claimApprovalApply_def Let_def split: option.split)
qed (simp add: claimApprovalApply_def)

lemma changes_record: "changes env st (snd (recordApprovalApplyResult env rf res c st))"
  by (auto simp: recordApprovalApplyResult_def Let_def split: sum.split
      intro!: changes_move moves.result located_in)

lemma changes_record_after_drop: "changes env st (snd (recordApprovalApplyResult env rf res c (drop_task t st)))"
  using changes_drop changes_record by (rule rtranclp_trans)

lemma changes_finish_resume: "changes env st (finishPipelineResume env r out ref st)"
  by (simp add: finishPipelineResume_def Let_def changes_drop changes_record_after_drop)

lemma changes_finish_steering: "changes env st (finishSteering env r ok ref st)"
  by (simp add: finishSteering_def changes_record_after_drop)

lemma revoke_check_ok:
  "revoke_check env auth who r = None \<Longrightarrow> aq_revocation r = None \<and> aq_status r = Approved \<and> aq_applyClaim r = None \<and> aq_applyResult r = None"
  by (simp add: revoke_check_def Let_def split: if_splits)

lemma changes_revoke: "changes env st (snd (revoke env rf auth who why st))"
proof (cases "located env rf st")
  case (Inr r)
  note r = located_in [OF Inr]
  show ?thesis
  proof (cases "revoke_check env auth who r")
    case None
    show ?thesis using Inr None r revoke_check_ok [OF None]
      by (auto simp: revoke_def Let_def intro!: change.revoked moves.revoke)
  qed (use Inr in \<open>simp add: revoke_def\<close>)
qed (simp add: revoke_def)

lemma changes_consume: "changes env st (snd (markApprovalConsumed env rf c who ref st))"
  by (auto simp: markApprovalConsumed_def Let_def split: sum.split option.split
      intro!: changes_move moves.consume locate_in)

lemma changes_lookup: "changes env st (snd (lookupSessionApprovalCache env d cx st))"
  by (auto simp: lookupSessionApprovalCache_def AList.delete_eq split: option.split intro!: change.forget)


lemma changes_frame_snoc: "changes env st st' \<Longrightarrow> change env st' st'' \<Longrightarrow> changes env st st''"
  by (rule rtranclp.rtrancl_into_rtrancl)

lemma changes_decision: "changes env st st' \<Longrightarrow> changes env st (schedule_decision u st')"
  by (auto simp: schedule_decision_def Let_def intro!: changes_resume changes_schedule)

lemma changes_decide: "changes env st (snd (decideApprovalRequest env rf p st))"
proof (cases "located env rf st")
  case (Inr r)
  note r = located_in [OF Inr]
  show ?thesis
  proof (cases "check_decidable env p r")
    case None
    obtain x st1 where c: "check_decision env (storage_of rf) r p st = (x, st1)" by fastforce
    show ?thesis
    proof (cases x)
      case (Inl e)
      with c have "change env st st1" by (blast intro: change.refused)
      then show ?thesis using Inr None c Inl changes_expire
        by (auto simp: decideApprovalRequest_def)
    next
      case y: (Inr y)
      obtain b sf key where y': "y = (b, sf, key)" by (cases y)
      have "changes env st (schedule_decision (decided_request env p b sf r)
          (write_session_cache env (decided_request env p b sf r) p key
            (log_event (EvDecided (aq_id r) (decision_event_of p b sf)) (put_request (decided_request env p b sf r) st1))))"
        using change.decide [OF r None c [unfolded y y'] refl] by (blast intro: changes_decision)
      then show ?thesis using Inr None c y y' changes_expire
        by (auto simp: decideApprovalRequest_def Let_def)
    qed
  qed (use Inr in \<open>simp add: decideApprovalRequest_def\<close>)
qed (simp add: decideApprovalRequest_def)

lemma changes_fall_back:
  assumes "q \<in> set (al_requests st)" and "aq_status q = Pending" and "aq_veto q = Some v0" and "r = q\<lparr>aq_veto := Some v\<rparr>"
  shows "changes env st (snd (fallBackToDecision r st))"
proof (cases "vw_fallback v")
  case False
  have "moves env q (q\<lparr>aq_veto := Some (v\<lparr>vw_fallback := True\<rparr>)\<rparr>) (EvVetoFallback (aq_id q))"
    using assms(2,3) by (intro moves.fall_back) auto
  from changes_move [OF assms(1) this] show ?thesis
    using assms False by (simp add: fallBackToDecision_def Let_def)
qed (use assms in \<open>simp add: fallBackToDecision_def\<close>)

lemma changes_deliver:
  assumes "r \<in> set (al_requests st)" and "aq_status r = Pending" and "aq_veto r = Some v" and "\<not> stamp_present (vw_deliveredAt v)"
  shows "changes env st (snd (deliver env r v d st))"
proof -
  have here: "changes env st (snd (fallBackToDecision r st))"
    using assms by (intro changes_fall_back [of r st v r v]) auto
  have late: "changes env st (snd (fallBackToDecision (r\<lparr>aq_veto := Some (v\<lparr>vw_deliveredAt := Some (At d)\<rparr>)\<rparr>) st))"
    using assms by (intro changes_fall_back) auto
  show ?thesis
  proof (cases "evaluateVetoWindow v d = Undelivered")
    case False
    show ?thesis using False late changes_move [OF assms(1) moves.delivered [OF assms(2-4) False]]
      by (auto simp: deliver_def Let_def split: sum.split option.split prod.split)
  qed (use here in \<open>auto simp: deliver_def split: prod.split\<close>)
qed

lemma changes_delivered: "changes env st (snd (markApprovalNotificationDelivered env ch i d st))"
  by (auto simp: markApprovalNotificationDelivered_def split: sum.split option.split
      intro!: changes_deliver locate_in)

lemma changes_receipt: "changes env st (recordApprovalDeliveryReceipt env c d st)"
  by (auto simp: recordApprovalDeliveryReceipt_def changes_delivered split: option.split)

lemma changes_tick_fresh:
  assumes "r \<in> set (al_requests st)"
  shows "changes env st (snd (tick_fresh env now r st))"
proof (cases "aq_veto r")
  case (Some v)
  show ?thesis
  proof (cases "aq_status r = Pending")
    case True
    have fall: "changes env st (snd (fallBackToDecision r st))"
      using assms Some True by (intro changes_fall_back [of r st v r v]) auto
    have shad: "changes env st (log_event (EvShadowElapsed (aq_id r)) (put_request (r\<lparr>aq_veto := Some (v\<lparr>vw_shadowElapsedAt := Some now\<rparr>)\<rparr>) st))"
      by (rule changes_move [OF assms moves.shadow [OF True Some]]) simp
    show ?thesis using Some True fall shad changes_decide [of env st "ref_of r" veto_decision]
      by (auto simp: tick_fresh_def Let_def split: veto_state.split sum.split prod.split)
  qed (use Some in \<open>simp add: tick_fresh_def\<close>)
qed (simp add: tick_fresh_def)

lemma changes_tick_one: "changes env st (snd (tick_one env now r st))"
  by (auto simp: tick_one_def split: option.split sum.split intro!: changes_tick_fresh locate_in)

lemma changes_tick_all: "changes env st (snd (tick_all env now rs res st))"
proof (induction env now rs res st rule: tick_all.induct)
  case (2 env now r rs res st)
  obtain x st' where o': "tick_one env now r st = (x, st')" by fastforce
  with changes_tick_one [of env st now r] have "changes env st st'" by simp
  moreover have "changes env st' (snd (tick_all env now rs (add_outcome (aq_id r) x res) st'))" using 2 [OF o' [symmetric]] o' by simp
  ultimately have "changes env st (snd (tick_all env now rs (add_outcome (aq_id r) x res) st'))" by (rule rtranclp_trans)
  then show ?case using o' by simp
qed simp

lemma changes_tick: "changes env st (snd (tickVetoWindows env now cs st))"
  using changes_tick_all [of env]
  by (simp add: tickVetoWindows_def Let_def split: prod.split) (metis snd_conv)


lemma changes_create:
  assumes "well_formed_id i" and "i \<notin> set (map aq_id (al_requests st))" and "undecided_workflow (cp_workflow p)"
    and "unopened_window (cp_veto p)"
  shows "changes env st (snd (createApprovalRequest env p i st))"
  using change.new [OF assms] by (auto simp: createApprovalRequest_def Let_def new_request_def split: option.split)

lemma ids_put_request [simp]: "map aq_id (al_requests (put_request r st)) = map aq_id (al_requests st)"
  by (auto simp: put_request_def same_request_def)

lemma al_simps [simp]:
  "al_requests (log_event e st) = al_requests st" "al_requests (schedule_task t st) = al_requests st"
  "al_requests (schedulePipelineApprovalResume r st) = al_requests st"
  "al_requests (forgetSessionApprovalCacheFor i st) = al_requests st"
  "al_requests (write_session_cache env u p key st) = al_requests st"
  "al_requests (put_challenge c st) = al_requests st"
  "al_events (log_event e st) = al_events st @ [e]" "al_events (put_request r st) = al_events st"
  "al_events (forgetSessionApprovalCacheFor i st) = al_events st" "al_events (put_challenge c st) = al_events st"
  "al_cache (log_event e st) = al_cache st" "al_cache (put_request r st) = al_cache st" "al_cache (put_challenge c st) = al_cache st"
  "al_challenges (log_event e st) = al_challenges st" "al_challenges (put_request r st) = al_challenges st"
  "al_challenges (forgetSessionApprovalCacheFor i st) = al_challenges st"
  "al_challenges (write_session_cache env u p key st) = al_challenges st"
  by (simp_all add: log_event_def schedule_task_def schedulePipelineApprovalResume_def forgetSessionApprovalCacheFor_def
      write_session_cache_def put_request_def put_challenge_def split: option.split)

lemma ids_expire [simp]: "map aq_id (al_requests (snd (expireApprovalRequest env rf st))) = map aq_id (al_requests st)"
  by (simp add: expireApprovalRequest_def close_pending_def Let_def split: sum.split)

lemma changes_expire_lapsed: "changes env st (expire_lapsed env ch rs st)"
proof (induction env ch rs st rule: expire_lapsed.induct)
  case (2 env ch r rs st)
  let ?st' = "if aq_status r = Pending \<and> isApprovalRequestExpired (aq_expiresAt r) (ae_now env)
       then snd (expireApprovalRequest env \<lparr>rf_channel = aq_channel r, rf_storageChannel = Some ch, rf_requestId = aq_id r\<rparr> st) else st"
  have "changes env st ?st'" using changes_expire by simp
  from this 2 have "changes env st (expire_lapsed env ch rs ?st')" by (rule rtranclp_trans)
  then show ?case by simp
qed simp

lemma ids_expire_lapsed: "map aq_id (al_requests (expire_lapsed env ch rs st)) = map aq_id (al_requests st)"
  by (induction env ch rs st rule: expire_lapsed.induct) simp_all

lemma changes_cached: "cached_approval env g st = (x, st') \<Longrightarrow> changes env st st' \<and> al_requests st' = al_requests st"
  using changes_lookup [of env st "the (ga_descriptor g)" "cache_context_of g"]
  by (auto simp: cached_approval_def lookupSessionApprovalCache_def split: if_splits prod.splits sum.splits option.splits)

lemma changes_open:
  assumes "well_formed_id i" and "i \<notin> set (map aq_id (al_requests st))"
  shows "changes env st (snd (open_request env g ex i st))"
proof -
  have "changes env st (snd (createApprovalRequest env (gate_request g ex) i st))"
    by (rule changes_create [OF assms]) (simp_all add: gate_request_def undecided_workflow_def unopened_window_def)
  then show ?thesis by (auto simp: open_request_def split: prod.split sum.split)
qed

lemma changes_gate_lookup:
  assumes "well_formed_id i" and "i \<notin> set (map aq_id (al_requests st))"
  shows "changes env st (snd (gate_lookup env g ex i st))"
proof -
  define same where "same = filter (\<lambda>r. ga_inScope g r \<and> aq_correlationId r = ga_correlationId g)
      (listApprovalRequests env (Some [ga_channel g]) None st)"
  define st1 where "st1 = (if ex \<noteq> None then expire_lapsed env (ga_channel g) same st else st)"
  have st1: "changes env st st1" "map aq_id (al_requests st1) = map aq_id (al_requests st)"
    by (simp_all add: st1_def changes_expire_lapsed ids_expire_lapsed)
  obtain x st2 where c: "cached_approval env g st1 = (x, st2)" by fastforce
  from changes_cached [OF c] have st2: "changes env st st2" "map aq_id (al_requests st2) = map aq_id (al_requests st)"
    using st1 by (auto intro: rtranclp_trans)
  have op: "changes env st (snd (open_request env g ex i st2))"
    using st2(1) changes_open [of i st2 env g ex] assms st2(2) by (auto intro: rtranclp_trans)
  have auto': "changes env st (recordSessionCacheAutoApproval e a st2)" for e a
    using st2(1) change.auto_approved unfolding recordSessionCacheAutoApproval_def by (rule changes_frame_snoc)
  show ?thesis
    unfolding gate_lookup_def Let_def same_def [symmetric] st1_def [symmetric]
    using st1 st2 op auto' c by (auto split: sum.split option.split)
qed

lemma changes_gate:
  assumes "well_formed_id i" and "i \<notin> set (map aq_id (al_requests st))"
  shows "changes env st (snd (enforceApprovalGate env g i st))"
  using changes_gate_lookup [OF assms] by (simp add: enforceApprovalGate_def split: option.split)

lemma changes_run_op:
  assumes "op_ok oper st"
  shows "changes env st (run_op env oper st)"
  using assms
proof (cases oper)
  case (OpIssue r ch d m p i)
  then have "change env st (snd (issueApprovalPasskeyChallenge env r ch d m p i st))"
    using assms by (intro change.issue [OF prod.collapse [symmetric]]) simp_all
  with OpIssue show ?thesis by auto
next
  case (OpClaimChallenge ch c i m d)
  then show ?thesis
    using r_into_rtranclp [where r = "change env", OF change.claim_challenge [OF prod.collapse [symmetric]]] by simp
next
  case (OpVerifyChallenge c k)
  then show ?thesis
    using r_into_rtranclp [where r = "change env", OF change.verify_challenge [OF prod.collapse [symmetric]]] by simp
qed (simp_all add: changes_create changes_expire changes_cancel changes_cancel_source changes_annotate changes_decide
    changes_claim changes_record changes_finish_resume changes_finish_steering changes_revoke changes_consume changes_lookup
    changes_delivered changes_receipt changes_tick changes_gate)

text \<open>An invariant of the micro-steps is an invariant of every history.\<close>

lemma reachable_invariant:
  assumes "approval_reachable E st" and "I empty_approvals"
    and "\<And>env s s'. I s \<Longrightarrow> E env \<Longrightarrow> change env s s' \<Longrightarrow> I s'"
  shows "I st"
  using assms(1)
proof induction
  case (step st env oper)
  from changes_run_op [OF \<open>op_ok oper st\<close>, of env] \<open>I st\<close> show ?case
    by induction (use assms(3) \<open>E env\<close> in blast)+
qed (rule assms(2))


section \<open>What a change does to the records\<close>

text \<open>The fields a request keeps from its creation on.\<close>

definition same_fixed :: "approval_request \<Rightarrow> approval_request \<Rightarrow> bool" where
  "same_fixed r u =
    (aq_id u = aq_id r \<and> aq_storageChannel u = aq_storageChannel r \<and> aq_channel u = aq_channel r \<and> aq_kind u = aq_kind r \<and>
     aq_requestedBy u = aq_requestedBy r \<and> aq_requestedByContext u = aq_requestedByContext r \<and> aq_source u = aq_source r \<and>
     aq_accountability u = aq_accountability r \<and> aq_expiresAt u = aq_expiresAt r \<and> aq_steering u = aq_steering r \<and>
     aq_tenant u = aq_tenant r \<and> aq_ownerHash u = aq_ownerHash r \<and> aq_correlationId u = aq_correlationId r)"

lemma moves_fixed: "moves env r u ev \<Longrightarrow> same_fixed r u"
  by (cases rule: moves.cases) (auto simp: same_fixed_def)

lemma decided_fixed: "same_fixed r (decided_request env p b sf r)"
  by (simp add: same_fixed_def decided_request_def)

text \<open>Events that no invariant looks at.\<close>

fun neutral :: "approval_event \<Rightarrow> bool" where
  "neutral (EvRequested _ _) = True"
| "neutral (EvSodRefused _ _) = True"
| "neutral (EvCacheWritten _ _) = True"
| "neutral (EvAutoApproved _ _) = True"
| "neutral _ = False"

definition decides ::
  "approval_env \<Rightarrow> approval_state \<Rightarrow> approval_request \<Rightarrow> approval_request \<Rightarrow> approval_event \<Rightarrow> bool" where
  "decides env st r u ev \<longleftrightarrow>
    (\<exists>ch p b sf key st1. check_decidable env p r = None \<and> check_decision env ch r p st = (Inr (b, sf, key), st1) \<and>
       u = decided_request env p b sf r \<and> ev = EvDecided (aq_id r) (decision_event_of p b sf))"

lemma consume_challenge_frame:
  "consumeApprovalPasskeyChallenge env ch c i who d s st = (x, st1) \<Longrightarrow>
   al_requests st1 = al_requests st \<and> al_events st1 = al_events st \<and> al_cache st1 = al_cache st"
  by (auto simp: consumeApprovalPasskeyChallenge_def split: if_splits option.splits)

lemma settle_passkey_frame:
  "settlePasskeyDecisionProof env ch r p st = (x, st1) \<Longrightarrow>
   al_requests st1 = al_requests st \<and> al_events st1 = al_events st \<and> al_cache st1 = al_cache st"
  by (auto simp: settlePasskeyDecisionProof_def dest: consume_challenge_frame split: if_splits)

lemma approving_checks_frame:
  "approving_checks env r p st = (x, st1) \<Longrightarrow>
   al_requests st1 = al_requests st \<and> al_cache st1 = al_cache st \<and> al_challenges st1 = al_challenges st \<and>
   (\<exists>evs. al_events st1 = al_events st @ evs \<and> list_all neutral evs) \<and>
   (dp_decision p = DApproved \<and> x = Inr () \<and> ae_sod env = Some True \<longrightarrow>
     evaluateSeparationOfDuties env r (Some (dp_decidedBy p)) (dp_identitySource p) = None)"
  by (auto simp: approving_checks_def enforceSeparationOfDutiesOnDecision_def
      intro: exI [of _ "[]"] split: if_splits option.splits bool.splits)

text \<open>The checks a recorded decision has passed.\<close>

lemma check_decisionD:
  assumes "check_decision env ch r p st = (x, st1)"
  shows "al_requests st1 = al_requests st \<and> al_cache st1 = al_cache st \<and>
    (\<exists>evs. al_events st1 = al_events st @ evs \<and> list_all neutral evs)"
    and "x = Inr (b, sf, key) \<Longrightarrow> bindPresentedDecision env r (dp_presentedDigest p) (dp_payloadHash p) (dp_effectBinding p) = Inr b"
    and "x = Inr (b, sf, key) \<Longrightarrow>
      validateHumanFinalDecision env (aq_accountability r) (normalizeApprovalChannel ch) False (proof_of p b) = Inr sf"
    and "x = Inr (b, sf, key) \<Longrightarrow> session_cache_key env r p sf = Inr key"
    and "x = Inr (b, sf, key) \<Longrightarrow> dp_decision p = DApproved \<Longrightarrow> ae_sod env = Some True \<Longrightarrow>
      evaluateSeparationOfDuties env r (Some (dp_decidedBy p)) (dp_identitySource p) = None"
  using assms unfolding check_decision_def
  by (auto dest!: settle_passkey_frame approving_checks_frame split: if_splits sum.splits prod.splits option.splits)

lemma challenge_ops_frame:
  "issueApprovalPasskeyChallenge env r ch d m s i st = (x, st1) \<Longrightarrow>
   al_requests st1 = al_requests st \<and> al_events st1 = al_events st \<and> al_cache st1 = al_cache st"
  "claimApprovalPasskeyChallenge env ch c i m d st = (y, st1) \<Longrightarrow>
   al_requests st1 = al_requests st \<and> al_events st1 = al_events st \<and> al_cache st1 = al_cache st"
  "markApprovalPasskeyChallengeVerified env k cr st = (y, st1) \<Longrightarrow>
   al_requests st1 = al_requests st \<and> al_events st1 = al_events st \<and> al_cache st1 = al_cache st"
  by (auto simp: issueApprovalPasskeyChallenge_def Let_def claimApprovalPasskeyChallenge_def
      markApprovalPasskeyChallengeVerified_def split: if_splits option.splits sum.splits stamp.splits)

lemma put_request_requests: "al_requests s = al_requests st \<Longrightarrow> al_requests (put_request u s) = al_requests (put_request u st)"
  by (simp add: put_request_def)

lemma write_cache_events: "\<exists>evs. al_events (write_session_cache env u p key st) = al_events st @ evs \<and> list_all neutral evs"
  by (auto simp: write_session_cache_def log_event_def split: option.split)

lemma change_requestsE:
  assumes "change env st st'"
  obtains
    (same) evs where "al_requests st' = al_requests st" "al_events st' = al_events st @ evs" "list_all neutral evs"
  | (fresh) p ch i who where "well_formed_id i" "i \<notin> set (map aq_id (al_requests st))" "undecided_workflow (cp_workflow p)" "unopened_window (cp_veto p)"
      "al_requests st' = al_requests st @ [new_request env p ch i]" "al_events st' = al_events st @ [EvRequested i who]"
  | (replaced) r u ev evs evs' where "r \<in> set (al_requests st)" "same_fixed r u" "moves env r u ev \<or> decides env st r u ev"
      "al_requests st' = al_requests (put_request u st)" "al_events st' = al_events st @ evs @ ev # evs'"
      "list_all neutral evs" "list_all neutral evs'"
  using assms
proof (cases rule: change.cases)
  case (new i p ch)
  then show ?thesis by (intro fresh [of i p ch]) auto
next
  case (move r u ev)
  then show ?thesis by (intro replaced [of r u ev "[]" "[]"]) (auto dest: moves_fixed)
next
  case (revoked r u i who)
  then show ?thesis by (intro replaced [of r u "EvRevoked i who" "[]" "[]"]) (auto dest: moves_fixed)
next
  case (decide r p ch b sf key st1 u)
  note c = check_decisionD(1) [OF decide(4)]
  then obtain evs where evs: "al_events st1 = al_events st @ evs" "list_all neutral evs" by blast
  obtain evs' where evs': "al_events st' = al_events st @ evs @ EvDecided (aq_id r) (decision_event_of p b sf) # evs'" "list_all neutral evs'"
    using write_cache_events [of env u p key "log_event (EvDecided (aq_id r) (decision_event_of p b sf)) (put_request u st1)"] evs(1) decide(1)
    by auto
  have "decides env st r u (EvDecided (aq_id r) (decision_event_of p b sf))"
    unfolding decides_def using decide(3-5) by blast
  then show ?thesis
    using decide(1,2,5) c evs evs' put_request_requests [of st1 st u] decided_fixed [of r env p b sf]
    by (intro replaced [of r u "EvDecided (aq_id r) (decision_event_of p b sf)" evs evs']) auto
next
  case (refused ch r p e)
  from check_decisionD(1) [OF refused] show ?thesis by (auto intro: same)
next
  case (issue r ch d m s i res)
  from challenge_ops_frame(1) [OF issue(1)] show ?thesis by (intro same [of "[]"]) auto
next
  case (claim_challenge ch c i m d res)
  from challenge_ops_frame(2) [OF claim_challenge] show ?thesis by (intro same [of "[]"]) auto
next
  case (verify_challenge c k res)
  from challenge_ops_frame(3) [OF verify_challenge] show ?thesis by (intro same [of "[]"]) auto
next
  case (auto_approved i who)
  then show ?thesis by (intro same [of "[EvAutoApproved i who]"]) auto
next
  case (schedule ts)
  then show ?thesis by (intro same [of "[]"]) auto
next
  case (forget cache)
  then show ?thesis by (intro same [of "[]"]) auto
qed

end
