(* ===== verification/Approval_Props.thy ===== *)
theory Approval_Props
  imports Approval_Steps
begin

text \<open>
  What holds in every history of the approval store: an approval is used at most once and never after its
  revocation, a human-only decision is proven by an authenticated human on the exact effect, under separation of
  duties nobody approves a request of their own, and the gate lets an operation pass as approved only on such a
  decision.
\<close>

section \<open>Identifiers\<close>

definition ids_ok :: "approval_state \<Rightarrow> bool" where
  "ids_ok st = distinct (map aq_id (al_requests st))"

lemma put_request_set:
  assumes "ids_ok st" and "r \<in> set (al_requests st)" and "same_fixed r u"
  shows "set (al_requests (put_request u st)) = insert u (set (al_requests st) - {r})"
proof -
  have eq: "same_request u q \<longleftrightarrow> q = r" if "q \<in> set (al_requests st)" for q
    using assms that by (auto simp: same_request_def same_fixed_def ids_ok_def distinct_map inj_on_def)
  have "set (al_requests (put_request u st)) = (\<lambda>q. if same_request u q then u else q) ` set (al_requests st)"
    by (simp add: put_request_def)
  also have "\<dots> = insert u (set (al_requests st) - {r})" using eq assms(2) by (auto simp: image_iff)
  finally show ?thesis .
qed

lemma ids_ok_change: "ids_ok st \<Longrightarrow> change env st st' \<Longrightarrow> ids_ok st'"
  by (erule change_requestsE) (auto simp: ids_ok_def new_request_def)

lemma fresh_store_ok: "ids_ok empty_approvals"
  by (simp add: ids_ok_def empty_approvals_def)

lemma ids_ok_reachable: "approval_reachable E st \<Longrightarrow> ids_ok st"
  by (erule reachable_invariant [where I = ids_ok]) (auto intro: ids_ok_change fresh_store_ok)

definition ids_well_formed :: "approval_state \<Rightarrow> bool" where
  "ids_well_formed st = list_all (\<lambda>r. well_formed_id (aq_id r)) (al_requests st)"

lemma ids_well_formed_change:
  assumes "ids_well_formed st" and "change env st st'"
  shows "ids_well_formed st'"
proof -
  have "ids_well_formed s = list_all well_formed_id (map aq_id (al_requests s))" for s
    by (simp add: ids_well_formed_def list_all_iff)
  then show ?thesis using assms(1) by (rule_tac change_requestsE [OF assms(2)]) (auto simp: new_request_def)
qed

lemma empty_well_formed: "ids_well_formed empty_approvals"
  by (simp add: ids_well_formed_def empty_approvals_def)

lemma ids_well_formed_reachable: "approval_reachable E st \<Longrightarrow> ids_well_formed st"
  by (erule reachable_invariant [where I = ids_well_formed]) (auto intro: ids_well_formed_change empty_well_formed)

text \<open>A record is found again under its own address.\<close>

lemma located_ref_of:
  assumes "ids_ok st" and "ids_well_formed st" and "f \<in> set (al_requests st)" and "located env (ref_of f) st = Inr r"
  shows "r = f"
proof -
  have "normalizeApprovalRequestId (aq_id f) = Some (aq_id f)"
    using assms(2,3) by (auto simp: ids_well_formed_def list_all_iff well_formed_id_def)
  then have "\<exists>ch. find_request ch (aq_id f) st = Some r"
    using assms(4) by (auto simp: located_def locateApprovalRequest_def ref_of_def split: if_splits option.splits sum.splits)
  then have "r \<in> set (al_requests st)" "aq_id r = aq_id f"
    by (auto simp: find_request_def find_Some_iff dest: find_Some_in_set)
  then show ?thesis using assms(1,3) by (auto simp: ids_ok_def distinct_map inj_on_def)
qed

section \<open>Invariants of the records and the log\<close>

fun event_id :: "approval_event \<Rightarrow> ident" where
  "event_id (EvRequested i _) = i"
| "event_id (EvExpired i) = i"
| "event_id (EvCancelled i) = i"
| "event_id (EvReasonCaptured i) = i"
| "event_id (EvDecided i _) = i"
| "event_id (EvSodRefused i _) = i"
| "event_id (EvCacheWritten i _) = i"
| "event_id (EvAutoApproved i _) = i"
| "event_id (EvApplyStarted i _) = i"
| "event_id (EvApplied i) = i"
| "event_id (EvApplyFailed i) = i"
| "event_id (EvRevoked i _) = i"
| "event_id (EvConsumed i _) = i"
| "event_id (EvDelivered i) = i"
| "event_id (EvVetoFallback i) = i"
| "event_id (EvShadowElapsed i) = i"

definition silent_on :: "ident \<Rightarrow> approval_event list \<Rightarrow> bool" where
  "silent_on i evs = list_all (\<lambda>e. neutral e \<or> event_id e \<noteq> i) evs"

lemma silent_on_append [simp]: "silent_on i (xs @ ys) = (silent_on i xs \<and> silent_on i ys)"
  by (simp add: silent_on_def)

lemma neutral_silent: "list_all neutral evs \<Longrightarrow> silent_on i evs"
  by (auto simp: silent_on_def list_all_iff)

lemma moves_event: "moves env r u ev \<Longrightarrow> event_id ev = aq_id r"
  by (cases rule: moves.cases) auto

lemma step_event: "moves env r u ev \<or> decides env st r u ev \<Longrightarrow> event_id ev = aq_id r"
  by (auto simp: decides_def dest: moves_event)

text \<open>The log says nothing about a request that does not exist yet.\<close>

definition log_known :: "approval_state \<Rightarrow> bool" where
  "log_known st \<longleftrightarrow> (\<forall>i. i \<notin> aq_id ` set (al_requests st) \<longrightarrow> silent_on i (al_events st))"

lemma log_known_change:
  assumes "log_known st" and "change env st st'"
  shows "log_known st'"
  using assms(2)
proof (cases rule: change_requestsE)
  case (replaced r u ev evs evs')
  have ids: "aq_id ` set (al_requests (put_request u st)) = aq_id ` set (al_requests st)"
    by (metis ids_put_request image_set)
  have "silent_on i [ev]" if "i \<notin> aq_id ` set (al_requests st)" for i
    using that replaced(1) step_event [OF replaced(3)] by (auto simp: silent_on_def)
  then show ?thesis using assms(1) replaced ids neutral_silent
    by (simp add: log_known_def) (metis append_Cons append_Nil silent_on_append)
qed (use assms(1) neutral_silent in \<open>auto simp: log_known_def silent_on_def new_request_def\<close>)

lemma empty_known: "log_known empty_approvals"
  by (simp add: log_known_def empty_approvals_def silent_on_def)

lemma log_known_reachable: "approval_reachable E st \<Longrightarrow> log_known st"
  by (erule reachable_invariant [where I = log_known]) (auto intro: log_known_change empty_known)

text \<open>What an invariant of a record and the log has to satisfy: it survives neutral events and events of other
  requests, holds of a new request, and of a record that a step replaced.\<close>

locale record_law =
  fixes E :: "approval_env \<Rightarrow> bool" and P :: "approval_request \<Rightarrow> approval_event list \<Rightarrow> bool"
  assumes quiet: "P r evs \<Longrightarrow> silent_on (aq_id r) evs' \<Longrightarrow> P r (evs @ evs')"
    and created: "silent_on i evs \<Longrightarrow> E env \<Longrightarrow> undecided_workflow (cp_workflow p) \<Longrightarrow> unopened_window (cp_veto p) \<Longrightarrow>
      P (new_request env p ch i) evs"
    and moved: "P r evs \<Longrightarrow> E env \<Longrightarrow> same_fixed r u \<Longrightarrow> moves env r u ev \<Longrightarrow> P u (evs @ [ev])"
    and decided: "P r evs \<Longrightarrow> E env \<Longrightarrow> same_fixed r u \<Longrightarrow> decides env st r u ev \<Longrightarrow> P u (evs @ [ev])"
begin

definition holds :: "approval_state \<Rightarrow> bool" where
  "holds st \<longleftrightarrow> (\<forall>r\<in>set (al_requests st). P r (al_events st))"

lemma holds_change:
  assumes "holds st" and "ids_ok st" and "log_known st" and "E env" and "change env st st'"
  shows "holds st'"
  using assms(5)
proof (cases rule: change_requestsE)
  case (same evs)
  then show ?thesis using assms(1) quiet neutral_silent by (simp add: holds_def)
next
  case (fresh p ch i who)
  have "P (new_request env p ch i) (al_events st)"
    using fresh assms(3,4) by (intro created) (auto simp: log_known_def)
  then show ?thesis using fresh assms(1) quiet by (auto simp: holds_def silent_on_def)
next
  case (replaced r u ev evs evs')
  have u: "P u ((al_events st @ evs) @ [ev])"
    using replaced(1-3,6) assms(1,4) moved decided quiet neutral_silent by (metis holds_def)
  have other: "P q (al_events st')" if "q \<in> set (al_requests st)" "q \<noteq> r" for q
  proof -
    have "aq_id q \<noteq> aq_id r" using that replaced(1) assms(2) by (auto simp: ids_ok_def distinct_map inj_on_def)
    then have "silent_on (aq_id q) (evs @ ev # evs')"
      using step_event [OF replaced(3)] neutral_silent [OF replaced(6)] neutral_silent [OF replaced(7)]
      by (auto simp: silent_on_def)
    then show ?thesis using replaced(5) that(1) assms(1) quiet by (simp add: holds_def)
  qed
  have "P u (al_events st')"
    using quiet [OF u neutral_silent [OF replaced(7)]] replaced(5) by simp
  with other replaced(4) put_request_set [OF assms(2) replaced(1,2)] show ?thesis by (simp add: holds_def)
qed

lemma holds_changes:
  assumes "changes env st st'" and "E env" and "holds st" and "ids_ok st" and "log_known st"
  shows "holds st' \<and> ids_ok st' \<and> log_known st'"
  using assms(1) by induction (use assms holds_change ids_ok_change log_known_change in blast)+

theorem holds_reachable: "approval_reachable E st \<Longrightarrow> holds st"
proof (induction rule: approval_reachable.induct)
  case (step st env oper)
  then show ?case
    using holds_changes [OF changes_run_op] ids_ok_reachable log_known_reachable by blast
qed (simp add: holds_def empty_approvals_def)

lemma law: "approval_reachable E st \<Longrightarrow> r \<in> set (al_requests st) \<Longrightarrow> P r (al_events st)"
  using holds_reachable by (simp add: holds_def)

end


section \<open>An approval is used once\<close>

fun claims :: "ident \<Rightarrow> approval_event \<Rightarrow> bool" where
  "claims i (EvApplyStarted j c) = (j = i)"
| "claims i _ = False"

fun consumes :: "ident \<Rightarrow> approval_event \<Rightarrow> bool" where
  "consumes i (EvConsumed j c) = (j = i)"
| "consumes i _ = False"

fun revokes :: "ident \<Rightarrow> approval_event \<Rightarrow> bool" where
  "revokes i (EvRevoked j who) = (j = i)"
| "revokes i _ = False"

definition admissible :: "ident \<Rightarrow> approval_event list \<Rightarrow> approval_event \<Rightarrow> bool" where
  "admissible i before e \<longleftrightarrow>
    (claims i e \<or> consumes i e \<longrightarrow> \<not> list_ex (revokes i) before \<and> \<not> list_ex (claims i) before) \<and>
    (consumes i e \<longrightarrow> \<not> list_ex (consumes i) before) \<and>
    (revokes i e \<longrightarrow> \<not> list_ex (revokes i) before)"

definition orderly :: "ident \<Rightarrow> approval_event list \<Rightarrow> bool" where
  "orderly i evs \<longleftrightarrow> (\<forall>n < length evs. admissible i (take n evs) (evs ! n))"

lemma orderly_Nil [simp]: "orderly i []"
  by (simp add: orderly_def)

lemma orderly_snoc [simp]: "orderly i (evs @ [e]) = (orderly i evs \<and> admissible i evs e)"
  by (auto simp: orderly_def nth_append less_Suc_eq)

lemma orderly_split: "orderly i (before @ e # after) \<Longrightarrow> admissible i before e"
  unfolding orderly_def by (drule spec [of _ "length before"]) simp

lemma other_event:
  "neutral e \<or> event_id e \<noteq> i \<Longrightarrow> \<not> claims i e \<and> \<not> consumes i e \<and> \<not> revokes i e"
  by (cases e) auto

lemma other_events:
  assumes "silent_on i evs'"
  shows "\<not> list_ex (claims i) evs'" "\<not> list_ex (consumes i) evs'" "\<not> list_ex (revokes i) evs'"
    "orderly i (evs @ evs') = orderly i evs"
proof -
  have "list_all (\<lambda>e. \<not> claims i e \<and> \<not> consumes i e \<and> \<not> revokes i e) evs'"
    using assms other_event unfolding silent_on_def list_all_iff by blast
  then show "\<not> list_ex (claims i) evs'" "\<not> list_ex (consumes i) evs'" "\<not> list_ex (revokes i) evs'"
    by (auto simp: list_all_iff list_ex_iff)
  show "orderly i (evs @ evs') = orderly i evs" using assms
  proof (induction evs' rule: rev_induct)
    case (snoc e es)
    then have "admissible i (evs @ es) e" using other_event [of e i] by (auto simp: admissible_def silent_on_def)
    then show ?case using snoc by (simp flip: append_assoc)
  qed simp
qed

definition usage_ok :: "approval_request \<Rightarrow> approval_event list \<Rightarrow> bool" where
  "usage_ok r evs \<longleftrightarrow> orderly (aq_id r) evs \<and> list_ex (claims (aq_id r)) evs = (aq_applyClaim r \<noteq> None) \<and>
     list_ex (consumes (aq_id r)) evs = (aq_consumption r \<noteq> None) \<and> list_ex (revokes (aq_id r)) evs = (aq_revocation r \<noteq> None)"

lemma usable_not_revoked: "assertApprovalUsable env r = None \<Longrightarrow> aq_revocation r = None"
  by (simp add: assertApprovalUsable_def evaluateApprovalUsability_def split: if_splits)

lemma usage_moved:
  assumes "usage_ok r evs" and "moves env r u ev"
  shows "usage_ok u (evs @ [ev])"
  using assms(2)
proof (cases rule: moves.cases)
  case (claim c)
  with assms(1) usable_not_revoked [of env r] show ?thesis by (auto simp: usage_ok_def admissible_def)
next
  case (consume k who)
  with assms(1) usable_not_revoked [of env r] show ?thesis by (auto simp: usage_ok_def admissible_def)
next
  case (result status res)
  with assms(1) show ?thesis by (auto simp: usage_ok_def admissible_def)
qed (use assms(1) in \<open>simp_all add: usage_ok_def admissible_def\<close>)

lemma decides_fields:
  assumes "decides env st r u ev"
  obtains p b sf where "u = decided_request env p b sf r" "ev = EvDecided (aq_id r) (decision_event_of p b sf)"
  using assms by (auto simp: decides_def)

lemma usage_decided:
  assumes "usage_ok r evs" and "decides env st r u ev"
  shows "usage_ok u (evs @ [ev])"
  using assms(2) by (rule decides_fields) (use assms(1) in \<open>simp add: usage_ok_def admissible_def decided_request_def\<close>)

interpretation usage: record_law E usage_ok for E
proof
  show "usage_ok r (evs @ evs')" if "usage_ok r evs" "silent_on (aq_id r) evs'" for r evs evs'
    using that by (simp add: usage_ok_def other_events)
  show "usage_ok (new_request env p ch i) evs" if "silent_on i evs" for i evs env p ch
    using other_events [OF that] other_events(4) [OF that, of "[]"] by (simp add: usage_ok_def new_request_def)
qed (rule usage_moved usage_decided; assumption)+

text \<open>C9. An approval is used at most once: in every history of the store, whatever the callers, clocks and
  policies, the log holds no claim or consumption of a request after a claim or a revocation of it, and no second
  consumption.\<close>

theorem approvals_are_used_once:
  assumes "approval_reachable E st" and "al_events st = before @ e # after" and "claims i e \<or> consumes i e"
  shows "\<not> list_ex (claims i) before \<and> \<not> list_ex (revokes i) before \<and> \<not> (consumes i e \<and> list_ex (consumes i) before)"
proof -
  have "i \<in> aq_id ` set (al_requests st)"
    using log_known_reachable [OF assms(1)] assms(2) other_events(1,2) [of i "al_events st"] assms(3)
    by (auto simp: log_known_def)
  then obtain r where "r \<in> set (al_requests st)" "aq_id r = i" by auto
  with usage.law [OF assms(1)] have "orderly i (al_events st)" by (auto simp: usage_ok_def)
  with assms(2) have "admissible i before e" by (auto dest: orderly_split)
  with assms(3) show ?thesis by (auto simp: admissible_def)
qed


section \<open>Nobody approves a request of their own\<close>

text \<open>The histories of a policy that enforces separation of duties; Unicode normalization is a fixed function.\<close>

definition sod_on :: "approval_env \<Rightarrow> approval_env \<Rightarrow> bool" where
  "sod_on env0 env \<longleftrightarrow> ae_sod env = Some True \<and> ae_nfkc env = ae_nfkc env0"

definition separate_from_requesters :: "approval_env \<Rightarrow> approval_request \<Rightarrow> string \<Rightarrow> bool" where
  "separate_from_requesters env r who \<longleftrightarrow>
    (let d = normalizeApprovalPrincipalId env (Some who) in
     d \<noteq> [] \<and> d \<notin> set APPROVAL_PLACEHOLDER_DECIDERS \<and> approvalRequesterIdentities env r \<noteq> [] \<and>
     (d \<in> set (approvalRequesterIdentities env r) \<longrightarrow>
      map_option (\<lambda>c. normalizeApprovalPrincipalId env (Some (cn_subject c))) (recordConsent env r) = Some d))"

definition approvers :: "approval_request \<Rightarrow> string list" where
  "approvers r =
    (if aq_status r = Approved then (case aq_decidedBy r of Some who \<Rightarrow> [who] | None \<Rightarrow> []) else []) @
    List.map_filter ap_approvedBy (filter (\<lambda>a. ap_status a = RoleApproved) (approvals_of r))"

definition separated :: "approval_env \<Rightarrow> approval_request \<Rightarrow> bool" where
  "separated env r \<longleftrightarrow> (\<forall>who\<in>set (approvers r). separate_from_requesters env r who) \<and>
     (aq_status r = Approved \<longrightarrow> aq_identitySource r \<noteq> Some CallerSupplied)"

lemma set_map_filter: "set (List.map_filter f xs) = {y. \<exists>x\<in>set xs. f x = Some y}"
  by (induction xs) (auto simp: map_filter_simps split: option.splits)

lemma approvers_iff:
  "who \<in> set (approvers r) \<longleftrightarrow> (aq_status r = Approved \<and> aq_decidedBy r = Some who) \<or>
     (\<exists>a\<in>set (approvals_of r). ap_status a = RoleApproved \<and> ap_approvedBy a = Some who)"
proof -
  define R where "R = (\<exists>a\<in>set (approvals_of r). ap_status a = RoleApproved \<and> ap_approvedBy a = Some who)"
  have "who \<in> set (List.map_filter ap_approvedBy (filter (\<lambda>a. ap_status a = RoleApproved) (approvals_of r))) \<longleftrightarrow> R"
    unfolding set_map_filter set_filter R_def by blast
  then show ?thesis unfolding approvers_def set_append R_def [symmetric] Un_iff
    by (cases "aq_decidedBy r"; cases "aq_status r = Approved") (simp_all, blast+)
qed

lemma separation_iff:
  "evaluateSeparationOfDuties env r (Some who) src = None \<longleftrightarrow>
   src \<noteq> Some CallerSupplied \<and> separate_from_requesters env r who"
  by (auto simp: evaluateSeparationOfDuties_def separate_from_requesters_def Let_def split: option.splits)

lemma normalize_cong: "ae_nfkc env = ae_nfkc env0 \<Longrightarrow> normalizeApprovalPrincipalId env = normalizeApprovalPrincipalId env0"
  by (rule ext) (simp add: normalizeApprovalPrincipalId_def split: option.split)

lemma separate_cong:
  assumes "ae_nfkc env = ae_nfkc env0" and "same_fixed r u"
  shows "separate_from_requesters env r who = separate_from_requesters env0 u who"
proof -
  note n = normalize_cong [OF assms(1)]
  have "approvalRequesterIdentities env r = approvalRequesterIdentities env0 u"
    using assms(2) by (simp only: approvalRequesterIdentities_def same_fixed_def n)
  moreover have "recordConsent env r = recordConsent env0 u"
    using assms(2) by (simp only: recordConsent_def same_fixed_def n)
  ultimately show ?thesis by (simp only: separate_from_requesters_def n)
qed

text \<open>A record keeps its separation when its approvals stay (up to texts) and it is not newly approved.\<close>

lemma separated_keep:
  assumes "separated env0 r" and "same_fixed r u" and "aq_decidedBy u = aq_decidedBy r"
    and "aq_status u = Approved \<Longrightarrow> aq_status r = Approved" and "aq_identitySource u = aq_identitySource r"
    and "map (\<lambda>a. (ap_status a, ap_approvedBy a)) (approvals_of u) = map (\<lambda>a. (ap_status a, ap_approvedBy a)) (approvals_of r)"
  shows "separated env0 u"
proof -
  have "\<exists>b\<in>set (approvals_of r). ap_status b = ap_status a \<and> ap_approvedBy b = ap_approvedBy a"
    if "a \<in> set (approvals_of u)" for a
    using imageI [OF that, of "\<lambda>a. (ap_status a, ap_approvedBy a)"] arg_cong [OF assms(6), of set] by auto
  then have "set (approvers u) \<subseteq> set (approvers r)"
    unfolding approvers_iff subset_iff using assms(3,4) by fastforce
  then show ?thesis using assms(1,4,5) separate_cong [OF refl assms(2), of env0] by (auto simp: separated_def)
qed

lemma separated_moved:
  assumes "separated env0 r" and "same_fixed r u" and "moves env r u ev"
  shows "separated env0 u"
  using assms(3)
proof (cases rule: moves.cases)
  case (annotate f)
  then have "approvals_of u = map f (approvals_of r)" by (auto simp: approvals_of_def split: option.split)
  with annotate show ?thesis by (intro separated_keep [OF assms(1,2)]) simp_all
next
  case (result status res)
  then have "aq_status u = Approved \<Longrightarrow> aq_status r = Approved"
    by (auto simp: status_after_apply_def split: if_splits option.splits apply_outcome.splits)
  with result show ?thesis by (intro separated_keep [OF assms(1,2)]) (simp_all add: approvals_of_def)
qed (rule separated_keep [OF assms(1,2)]; simp add: approvals_of_def)+

lemma approvals_decided:
  "approvals_of (decided_request env p b sf r) = map (decide_role env p b) (approvals_of r)"
  by (simp add: approvals_of_def decided_request_def split: option.split)

lemma role_decided:
  assumes "ap_status (decide_role env p b a) = RoleApproved" and "ap_approvedBy (decide_role env p b a) = Some who"
  shows "(ap_status a = RoleApproved \<and> ap_approvedBy a = Some who) \<or> (dp_decision p = DApproved \<and> who = dp_decidedBy p)"
  using assms by (auto simp: decide_role_def role_status_of_def split: if_splits decision.splits)

lemma approvers_decided:
  assumes "who \<in> set (approvers (decided_request env p b sf r))"
  shows "who \<in> set (approvers r) \<or> (dp_decision p = DApproved \<and> who = dp_decidedBy p)"
  using assms role_decided [of env p b _ who] unfolding approvers_iff approvals_decided
  by (auto simp: decided_request_def status_of_def split: decision.splits)

lemma separated_decided:
  assumes "separated env0 r" and "sod_on env0 env" and "same_fixed r u" and "decides env st r u ev"
  shows "separated env0 u"
proof -
  from assms(4) obtain ch p b sf key st1
    where c: "check_decision env ch r p st = (Inr (b, sf, key), st1)" and u: "u = decided_request env p b sf r"
    by (auto simp: decides_def)
  have ok: "dp_identitySource p \<noteq> Some CallerSupplied \<and> separate_from_requesters env0 u (dp_decidedBy p)"
    if "dp_decision p = DApproved"
    using check_decisionD(5) [OF c refl that] assms(2) separate_cong [of env env0, OF _ assms(3)]
    by (auto simp: sod_on_def separation_iff)
  have "separate_from_requesters env0 u who" if "who \<in> set (approvers u)" for who
  proof (cases "dp_decision p = DApproved \<and> who = dp_decidedBy p")
    case False
    with that have "who \<in> set (approvers r)" using approvers_decided u by blast
    then show ?thesis using assms(1) separate_cong [OF refl assms(3), of env0] by (simp add: separated_def)
  qed (use ok in blast)
  moreover have "aq_status u = Approved \<Longrightarrow> aq_identitySource u \<noteq> Some CallerSupplied"
    using ok by (simp add: u decided_request_def status_of_def split: decision.splits)
  ultimately show ?thesis by (simp add: separated_def)
qed

interpretation sod: record_law "sod_on env0" "\<lambda>r _. separated env0 r" for env0
proof
  show "separated env0 (new_request env p ch i)" if "undecided_workflow (cp_workflow p)" for env p ch i
    using that by (auto simp: separated_def approvers_iff new_request_def approvals_of_def undecided_workflow_def
        list_all_iff split: option.splits)
qed (use separated_moved separated_decided in blast)+

text \<open>C15. Separation of duties: while the policy enforces it, everyone whose approval stands on a record, as the
  decider of an approved request or as one of its roles, is recorded under an identity that is neither empty nor a
  placeholder (such as operator or unknown) and differs from the identities of the requesters of the record, or is
  its recorded consenting subject; and the decider's identity was not just claimed by a caller.\<close>

theorem nobody_approves_their_own_request:
  assumes "approval_reachable (sod_on env) st" and "r \<in> set (al_requests st)" and "who \<in> set (approvers r)"
  shows "separate_from_requesters env r who \<and> (aq_status r = Approved \<longrightarrow> aq_identitySource r \<noteq> Some CallerSupplied)"
  using sod.law [OF assms(1,2)] assms(3) by (simp add: separated_def)


section \<open>A human-only decision is proven\<close>

text \<open>The decisions of a request in the log, oldest first.\<close>

fun decisions :: "ident \<Rightarrow> approval_event list \<Rightarrow> decision_event list" where
  "decisions i [] = []"
| "decisions i (EvDecided j d # evs) = (if j = i then d # decisions i evs else decisions i evs)"
| "decisions i (e # evs) = decisions i evs"

lemma decisions_append [simp]: "decisions i (xs @ ys) = decisions i xs @ decisions i ys"
  by (induction i xs rule: decisions.induct) simp_all

lemma decisions_silent: "silent_on i evs \<Longrightarrow> decisions i evs = []"
  by (induction i evs rule: decisions.induct) (auto simp: silent_on_def)

lemma decisions_move: "moves env r u ev \<Longrightarrow> decisions i [ev] = []"
  by (cases rule: moves.cases) auto

text \<open>What the log has to show of a decision on a human-only record: a person, authenticated by a method that proves
  one, on the recorded payload and effect, at the recorded level unless the shortfall is recorded too.\<close>

definition proven_decision :: "accountability \<Rightarrow> decision_event \<Rightarrow> bool" where
  "proven_decision ac d \<longleftrightarrow>
    de_decidedByType d = Some HumanDecider \<and> de_authenticated d = Some True \<and>
    de_authMethod d \<notin> set (map Some NON_HUMAN_PROOF_AUTH_METHODS) \<and>
    (truthy_opt (ac_payloadHash ac) \<longrightarrow> de_payloadHash d = ac_payloadHash ac) \<and>
    (truthy_opt (ac_effectBinding ac) \<longrightarrow> de_effectBinding d = ac_effectBinding ac) \<and>
    (case (assuranceOfAuthMethod (de_authMethod d), ac_min_assurance ac) of
       (Some l, Some m) \<Rightarrow> A2 \<le> m \<and> (provided_meets l m \<or> de_shortfall d \<noteq> None)
     | _ \<Rightarrow> False)"

text \<open>The histories in which the policy or the process enforces the assurance levels; all histories for \<open>False\<close>.\<close>

definition enforcing :: "bool \<Rightarrow> approval_env \<Rightarrow> bool" where
  "enforcing on env \<longleftrightarrow> (on \<longrightarrow> resolveApprovalAssuranceMode env = EnforceMode)"

definition raised_bar :: "accountability \<Rightarrow> bool" where
  "raised_bar ac = (case ac_min_assurance ac of Some m \<Rightarrow> A2 \<le> m | None \<Rightarrow> False)"

definition decisions_ok :: "bool \<Rightarrow> approval_request \<Rightarrow> approval_event list \<Rightarrow> bool" where
  "decisions_ok on r evs \<longleftrightarrow>
    (case aq_accountability r of
       Some ac \<Rightarrow> ac_human_only ac \<longrightarrow> raised_bar ac \<and>
         list_all (\<lambda>d. proven_decision ac d \<and> (on \<longrightarrow> de_shortfall d = None)) (decisions (aq_id r) evs)
     | None \<Rightarrow> True)"

text \<open>The status and the decider of a record are those of its last decision.\<close>

definition shows_decision :: "approval_request \<Rightarrow> approval_event list \<Rightarrow> bool" where
  "shows_decision r evs \<longleftrightarrow>
    (if decisions (aq_id r) evs = []
     then aq_decidedBy r = None \<and> aq_status r \<notin> {Approved, Rejected}
     else (let d = last (decisions (aq_id r) evs)
           in aq_decidedBy r = Some (de_decidedBy d) \<and> aq_status r \<in> {status_of (de_decision d), Applied, Failed}))"

lemma default_raises_bar:
  "withDefaultMinAssurance a = Some ac \<Longrightarrow> ac_human_only ac \<Longrightarrow> raised_bar ac"
  by (auto simp: withDefaultMinAssurance_def raised_bar_def DEFAULT_HUMAN_ONLY_MIN_ASSURANCE_def assuranceMeets_iff
      split: option.splits if_splits)

lemma required_assurance_min: "ac_min_assurance ac = Some m \<Longrightarrow> m \<le> requiredDecisionAssurance env ac channel"
  by (auto simp: requiredDecisionAssurance_def strongerAssurance_max Let_def max_def split: option.split)

lemma judge_assuranceD:
  assumes "judge_assurance env ac channel p = Inr sf" and "ac_min_assurance ac = Some m"
  obtains l where "assuranceOfAuthMethod (hp_authMethod p) = Some l" "sf = None \<Longrightarrow> provided_meets l m"
    "resolveApprovalAssuranceMode env = EnforceMode \<Longrightarrow> sf = None"
proof -
  have req: "m \<le> (if tenant_activation (Some ac) then strongerAssurance (requiredDecisionAssurance env ac channel) A2
      else requiredDecisionAssurance env ac channel)"
    using required_assurance_min [OF assms(2), of env channel] by (simp add: strongerAssurance_max max.coboundedI1)
  show thesis
    using assms(1) req that
    by (auto simp: judge_assurance_def provided_meets_def assuranceMeets_iff Let_def
        split: option.splits if_splits provided_assurance.splits intro: order_trans)
qed

lemma validated_decision:
  assumes "validateHumanFinalDecision env (Some ac) channel False (proof_of p b) = Inr sf"
    and "ac_human_only ac" and "raised_bar ac" and "enforcing on env"
  shows "proven_decision ac (decision_event_of p b sf) \<and> (on \<longrightarrow> sf = None)"
proof -
  from assms(3) obtain m where m: "ac_min_assurance ac = Some m" "A2 \<le> m" by (auto simp: raised_bar_def split: option.splits)
  from assms(1,2) have v: "dp_decidedByType p = Some HumanDecider" "dp_authenticated p = Some True"
    "dp_authMethod p \<notin> set (map Some NON_HUMAN_PROOF_AUTH_METHODS)"
    "judge_assurance env ac channel (proof_of p b) = Inr sf" "effect_mismatch ac (proof_of p b) = None"
    by (auto simp: validateHumanFinalDecision_def proof_of_def split: if_splits sum.splits option.splits)
  obtain l where l: "assuranceOfAuthMethod (dp_authMethod p) = Some l" "sf = None \<Longrightarrow> provided_meets l m"
    "resolveApprovalAssuranceMode env = EnforceMode \<Longrightarrow> sf = None"
    using judge_assuranceD [OF v(4) m(1)] by (auto simp: proof_of_def)
  have e: "truthy_opt (ac_payloadHash ac) \<longrightarrow> db_payloadHash b = ac_payloadHash ac"
    "truthy_opt (ac_effectBinding ac) \<longrightarrow> db_effectBinding b = ac_effectBinding ac"
    using v(5) by (auto simp: effect_mismatch_def proof_of_def split: if_splits)
  show ?thesis
    using v(1-3) e l m assms(4) by (auto simp: proven_decision_def decision_event_of_def enforcing_def)
qed

lemma decisions_ok_decided:
  assumes "decisions_ok on r evs" and "enforcing on env" and "same_fixed r u" and "decides env st r u ev"
  shows "decisions_ok on u (evs @ [ev])"
proof -
  from assms(4) obtain ch p b sf key st1
    where c: "check_decision env ch r p st = (Inr (b, sf, key), st1)" and ev: "ev = EvDecided (aq_id r) (decision_event_of p b sf)"
    by (auto simp: decides_def)
  have f: "aq_accountability u = aq_accountability r" "aq_id u = aq_id r" using assms(3) by (auto simp: same_fixed_def)
  show ?thesis
  proof (cases "aq_accountability r")
    case (Some ac)
    then show ?thesis
      using assms(1) validated_decision [of env ac "normalizeApprovalChannel ch" p b sf on] check_decisionD(3) [OF c refl] assms(2)
      by (auto simp: decisions_ok_def f ev decision_event_of_def)
  qed (simp add: decisions_ok_def f)
qed

interpretation human: record_law "enforcing on" "decisions_ok on" for on
proof
  show "decisions_ok on r (evs @ evs')" if "decisions_ok on r evs" "silent_on (aq_id r) evs'" for r evs evs' on
    using that(1) decisions_silent [OF that(2)] by (simp add: decisions_ok_def split: option.splits)
  show "decisions_ok on (new_request env p ch i) evs" if "silent_on i evs" for i evs env p ch on
    using default_raises_bar [of "cp_accountability p"]
    by (auto simp: decisions_ok_def decisions_silent [OF that] new_request_def split: option.split)
  show "decisions_ok on u (evs @ [ev])" if "decisions_ok on r evs" "same_fixed r u" "moves env r u ev" for r evs env u ev on
    using that(1,2) decisions_move [OF that(3)] by (simp add: decisions_ok_def same_fixed_def split: option.splits)
qed (rule decisions_ok_decided; assumption)

lemma shows_decision_moved:
  assumes "shows_decision r evs" and "same_fixed r u" and "moves env r u ev"
  shows "shows_decision u (evs @ [ev])"
proof -
  have ds: "decisions (aq_id u) (evs @ [ev]) = decisions (aq_id r) evs"
    using decisions_move [OF assms(3)] assms(2) by (simp add: same_fixed_def)
  from assms(3) show ?thesis
  proof (cases rule: moves.cases)
    case (result status res)
    have "status \<in> {aq_status r, Applied, Failed}"
      using result(2) by (auto simp: status_after_apply_def split: option.splits apply_outcome.splits)
    then show ?thesis using assms(1) result(1) unfolding shows_decision_def ds by (auto simp: Let_def)
  qed (use assms(1) in \<open>auto simp: shows_decision_def ds Let_def status_of_def split: decision.splits if_splits\<close>)
qed

lemma shows_decision_decided:
  assumes "decides env st r u ev"
  shows "shows_decision u (evs @ [ev])"
  using assms by (rule decides_fields) (auto simp: shows_decision_def decided_request_def decision_event_of_def)

interpretation shown: record_law E shows_decision for E
proof
  show "shows_decision r (evs @ evs')" if "shows_decision r evs" "silent_on (aq_id r) evs'" for r evs evs'
    using that(1) decisions_silent [OF that(2)] by (auto simp: shows_decision_def split: if_splits)
  show "shows_decision (new_request env p ch i) evs" if "silent_on i evs" for i evs env p ch
    by (simp add: shows_decision_def decisions_silent [OF that] new_request_def)
qed (rule shows_decision_moved shows_decision_decided; assumption)+

text \<open>C8. A human-only approval is proven: in every history, an approved record that binds its decision to a human
  carries the decider of its last decision in the log, and that decision was an approval by an authenticated human
  on the recorded payload and effect. Either its method reaches the recorded level (at least A2), or the log records
  the shortfall: in warn mode, which is the default, a decision by a weaker method is let through with one; when
  every decision of the history is taken in enforce mode there is no shortfall.\<close>

theorem human_only_approvals_are_proven:
  assumes "approval_reachable (enforcing on) st" and "r \<in> set (al_requests st)" and "aq_status r = Approved"
    and "aq_accountability r = Some ac" and "ac_human_only ac"
  shows "\<exists>ds d. decisions (aq_id r) (al_events st) = ds @ [d] \<and> de_decision d = DApproved \<and>
    aq_decidedBy r = Some (de_decidedBy d) \<and> proven_decision ac d \<and> \<not> (on \<and> de_shortfall d \<noteq> None)"
proof -
  have ne: "decisions (aq_id r) (al_events st) \<noteq> []"
    and d: "aq_decidedBy r = Some (de_decidedBy (last (decisions (aq_id r) (al_events st))))"
      "de_decision (last (decisions (aq_id r) (al_events st))) = DApproved"
    using shown.law [OF assms(1,2)] assms(3)
    by (auto simp: shows_decision_def Let_def status_of_def split: if_splits decision.splits)
  have "list_all (\<lambda>d. proven_decision ac d \<and> (on \<longrightarrow> de_shortfall d = None)) (decisions (aq_id r) (al_events st))"
    using human.law [OF assms(1,2)] assms(4,5) by (simp add: decisions_ok_def)
  then have "proven_decision ac (last (decisions (aq_id r) (al_events st)))"
    "on \<longrightarrow> de_shortfall (last (decisions (aq_id r) (al_events st))) = None"
    using last_in_set [OF ne] by (auto simp: list_all_iff)
  then show ?thesis using ne d append_butlast_last_id [OF ne] by metis
qed

section \<open>A settled decision stands\<close>

definition settled :: "approval_request \<Rightarrow> bool" where
  "settled r = (aq_status r \<in> set TERMINAL_DECIDED_STATUSES \<and> \<not> awaiting_roles r)"

text \<open>What stays of a settled record: decider, time, proof and the decisions of its roles; its status follows the effect.\<close>

definition stands :: "approval_request \<Rightarrow> approval_request \<Rightarrow> bool" where
  "stands r u \<longleftrightarrow>
    aq_id u = aq_id r \<and> aq_decidedBy u = aq_decidedBy r \<and> aq_decidedAt u = aq_decidedAt r \<and> aq_authMethod u = aq_authMethod r \<and>
    aq_presentedDigest u = aq_presentedDigest r \<and> aq_status u \<in> {aq_status r, Applied, Failed} \<and>
    map (\<lambda>a. (ap_status a, ap_approvedBy a)) (approvals_of u) = map (\<lambda>a. (ap_status a, ap_approvedBy a)) (approvals_of r)"

lemma stands_refl: "stands r r"
  by (simp add: stands_def)

lemma stands_trans: "stands r u \<Longrightarrow> stands u w \<Longrightarrow> stands r w"
  by (auto simp: stands_def)

lemma awaiting_cong:
  assumes "map (\<lambda>a. (ap_status a, ap_approvedBy a)) (approvals_of u) = map (\<lambda>a. (ap_status a, ap_approvedBy a)) (approvals_of r)"
  shows "awaiting_roles u = awaiting_roles r"
proof -
  have "awaiting_roles q = list_ex (\<lambda>(s, w). s = RolePending) (map (\<lambda>a. (ap_status a, ap_approvedBy a)) (approvals_of q))" for q
    by (simp add: awaiting_roles_def list_ex_iff)
  then show ?thesis using assms by simp
qed

lemma settled_later: "settled r \<Longrightarrow> stands r u \<Longrightarrow> settled u"
  using awaiting_cong [of u r] by (auto simp: settled_def stands_def TERMINAL_DECIDED_STATUSES_def)

lemma settled_moved:
  assumes "settled r" and "moves env r u ev"
  shows "stands r u"
  using assms(2)
proof (cases rule: moves.cases)
  case (annotate f)
  then have "approvals_of u = map f (approvals_of r)" by (auto simp: approvals_of_def split: option.split)
  with annotate show ?thesis by (simp add: stands_def)
next
  case (result status res)
  then show ?thesis
    by (auto simp: stands_def approvals_of_def status_after_apply_def split: option.splits apply_outcome.splits)
qed (use assms(1) in \<open>auto simp: stands_def approvals_of_def settled_def TERMINAL_DECIDED_STATUSES_def\<close>)

lemma settled_undecidable: "settled r \<Longrightarrow> \<not> decides env st r u ev"
  by (auto simp: decides_def check_decidable_def settled_def split: if_splits)

lemma settled_change:
  assumes "ids_ok st" and "change env st st'" and "r \<in> set (al_requests st)" and "settled r"
  shows "\<exists>u\<in>set (al_requests st'). stands r u"
  using assms(2)
proof (cases rule: change_requestsE)
  case (replaced q u ev evs evs')
  show ?thesis
  proof (cases "q = r")
    case True
    with replaced(3) assms(4) settled_undecidable settled_moved have "stands r u" by blast
    then show ?thesis using put_request_set [OF assms(1) replaced(1,2)] replaced(4) by auto
  qed (use put_request_set [OF assms(1) replaced(1,2)] replaced(4) assms(3) stands_refl in auto)
qed (use assms(3) stands_refl in auto)

text \<open>A settled decision stands: once a request is decided and no role is still to decide, whatever operation comes
  next, by anyone, the record keeps who decided, when and with which proof, what each role decided and by whom, and its
  status changes at most to applied or failed.\<close>

theorem settled_decisions_stand:
  assumes "approval_reachable E st" and "op_ok oper st" and "r \<in> set (al_requests st)" and "settled r"
  shows "\<exists>u\<in>set (al_requests (run_op env oper st)). stands r u \<and> settled u"
proof -
  have "ids_ok (run_op env oper st) \<and> (\<exists>u\<in>set (al_requests (run_op env oper st)). stands r u)"
    using changes_run_op [OF assms(2), of env]
  proof induction
    case base
    then show ?case using ids_ok_reachable [OF assms(1)] assms(3) stands_refl by blast
  next
    case (step y z)
    then obtain u where u: "u \<in> set (al_requests y)" "stands r u" "ids_ok y" by blast
    with settled_change [OF u(3) step(2) u(1) settled_later [OF assms(4) u(2)]] ids_ok_change [OF u(3) step(2)] stands_trans
    show ?case by blast
  qed
  then show ?thesis using settled_later [OF assms(4)] by blast
qed

end
