(* ===== verification/Approval_Gate_Props.thy ===== *)
theory Approval_Gate_Props
  imports Approval_Props
begin

text \<open>
  What the gate lets through. An operation passes either without an approval, as the policy, the charter or the
  decision rights allow, or on an approval of the store: the newest usable request of its correlation, or a cached
  approval of the session, which in every history goes back to a human decision on the same payload and operation.
  What the cache does not notice is a later rejection of its request.
\<close>

lemma reachable_mono: "approval_reachable E st \<Longrightarrow> (\<And>env. E env \<Longrightarrow> F env) \<Longrightarrow> approval_reachable F st"
  by (induction rule: approval_reachable.induct) (auto intro: approval_reachable.intros)

section \<open>The session cache\<close>

text \<open>A record of the store that a human approved for a payload, an operation and a requester.\<close>

definition approved_by_human :: "approval_event list \<Rightarrow> string \<Rightarrow> string \<Rightarrow> approval_request \<Rightarrow> bool" where
  "approved_by_human evs payload operation r \<longleftrightarrow>
    (case aq_accountability r of
       None \<Rightarrow> False
     | Some ac \<Rightarrow> ac_human_only ac \<and> ac_payloadHash ac = Some payload \<and> ac_effectBinding ac = Some operation \<and>
         list_ex (\<lambda>d. de_decision d = DApproved) (decisions (aq_id r) evs))"

definition seeds :: "approval_event list \<Rightarrow> approval_request \<Rightarrow> cache_entry \<Rightarrow> bool" where
  "seeds evs r e \<longleftrightarrow> aq_id r = ce_requestId e \<and> aq_requestedBy r = ce_grantedForAgent e \<and>
     approved_by_human evs (ce_payloadHash e) (ce_effectBinding e) r"

definition cache_ok :: "approval_state \<Rightarrow> bool" where
  "cache_ok st \<longleftrightarrow> (\<forall>(k, e)\<in>set (al_cache st). \<exists>r\<in>set (al_requests st). seeds (al_events st) r e)"

lemma seeds_later: "seeds evs r e \<Longrightarrow> same_fixed r u \<Longrightarrow> seeds (evs @ evs') u e"
  by (auto simp: seeds_def approved_by_human_def same_fixed_def split: option.splits)

text \<open>A change keeps every record up to its changing fields, every revocation and every event.\<close>

definition later :: "approval_request \<Rightarrow> approval_request \<Rightarrow> bool" where
  "later r u \<longleftrightarrow> same_fixed r u \<and> (aq_revocation r \<noteq> None \<longrightarrow> aq_revocation u \<noteq> None)"

lemma later_refl: "later r r"
  by (simp add: later_def same_fixed_def)

lemma later_trans: "later r u \<Longrightarrow> later u w \<Longrightarrow> later r w"
  by (simp add: later_def same_fixed_def)

lemma moves_revocation: "moves env r u ev \<Longrightarrow> aq_revocation r \<noteq> None \<Longrightarrow> aq_revocation u \<noteq> None"
  by (cases rule: moves.cases) auto

lemma decides_revocation: "decides env st r u ev \<Longrightarrow> aq_revocation u = aq_revocation r"
  by (auto simp: decides_def decided_request_def)

lemma step_later: "same_fixed r u \<Longrightarrow> moves env r u ev \<or> decides env st r u ev \<Longrightarrow> later r u"
  using moves_revocation [of env r u ev] decides_revocation [of env st r u ev] unfolding later_def by metis

lemma change_grows:
  assumes "ids_ok st" and "change env st st'"
  shows "(\<exists>evs. al_events st' = al_events st @ evs) \<and> (\<forall>r\<in>set (al_requests st). \<exists>u\<in>set (al_requests st'). later r u)"
  using assms(2)
proof (cases rule: change_requestsE)
  case (replaced r u ev evs evs')
  have "\<exists>w\<in>set (al_requests st'). later q w" if "q \<in> set (al_requests st)" for q
    using put_request_set [OF assms(1) replaced(1,2)] step_later [OF replaced(2,3)] replaced(4) that later_refl
    by (cases "q = r") auto
  then show ?thesis using replaced(5) by blast
qed (auto intro: later_refl)

lemma changes_later:
  assumes "changes env st st'" and "ids_ok st" and "r \<in> set (al_requests st)"
  shows "\<exists>u\<in>set (al_requests st'). later r u"
proof -
  have "ids_ok st' \<and> (\<exists>u\<in>set (al_requests st'). later r u)"
    using assms(1)
  proof induction
    case (step y z)
    with change_grows [of y env z] ids_ok_change [of y env z] later_trans show ?case by blast
  qed (use assms(2,3) later_refl in blast)
  then show ?thesis ..
qed

lemma session_cache_keyD:
  assumes "session_cache_key env r p sf = Inr (Some k)"
  obtains ac where "dp_decision p = DApproved" "aq_accountability r = Some ac" "ac_human_only ac"
    "ac_payloadHash ac \<noteq> None" "ac_effectBinding ac \<noteq> None"
  using assms by (auto simp: session_cache_key_def is_human_only_def truthy_opt_def
      split: if_splits option.splits sum.splits)

lemma in_update: "(k, e) \<in> set (AList.update a b xs) \<Longrightarrow> (k, e) = (a, b) \<or> (k, e) \<in> set xs"
  by (induction xs) (auto split: if_splits)

lemma decision_seeds:
  assumes "u = decided_request env p b sf r" and "session_cache_key env r p sf = Inr (Some k)" and "same_fixed r w"
    and "EvDecided (aq_id r) (decision_event_of p b sf) \<in> set evs"
  shows "seeds evs w (session_entry env u p k)"
proof -
  obtain ac where ac: "dp_decision p = DApproved" "aq_accountability r = Some ac" "ac_human_only ac"
    "ac_payloadHash ac \<noteq> None" "ac_effectBinding ac \<noteq> None"
    using session_cache_keyD [OF assms(2)] .
  have "decision_event_of p b sf \<in> set (decisions (aq_id r) evs)"
    using assms(4) by (induction "aq_id r" evs rule: decisions.induct) auto
  moreover have "de_decision (decision_event_of p b sf) = DApproved" using ac(1) by (simp add: decision_event_of_def)
  ultimately show ?thesis
    using ac(2-5) assms(1,3)
    by (auto simp: seeds_def approved_by_human_def session_entry_def same_fixed_def decided_request_def list_ex_iff)
qed

lemma cache_ok_change:
  assumes ok: "cache_ok st" "ids_ok st" and c: "change env st st'"
  shows "cache_ok st'"
proof -
  note grows = change_grows [OF ok(2) c]
  have keep: "\<exists>u\<in>set (al_requests st'). seeds (al_events st') u e" if "(k, e) \<in> set (al_cache st)" for k e
  proof -
    from ok(1) that obtain r where r: "r \<in> set (al_requests st)" "seeds (al_events st) r e"
      unfolding cache_ok_def by blast
    from grows r(1) obtain u evs where "u \<in> set (al_requests st')" "same_fixed r u" "al_events st' = al_events st @ evs"
      unfolding later_def by blast
    with seeds_later [OF r(2)] show ?thesis by auto
  qed
  have "\<exists>u\<in>set (al_requests st'). seeds (al_events st') u e" if mem: "(k, e) \<in> set (al_cache st')" for k e
    using c
  proof (cases rule: change.cases)
    case (decide r p ch b sf key st1 u)
    have cache1: "al_cache st1 = al_cache st" using check_decisionD(1) [OF decide(4)] by blast
    show ?thesis
    proof (cases "(k, e) \<in> set (al_cache st)")
      case False
      then obtain k' where k': "key = Some k'" and e: "e = session_entry env u p k'"
        using mem decide(1) cache1 by (auto simp: write_session_cache_def log_event_def put_request_def dest: in_update split: option.splits)
      have "EvDecided (aq_id r) (decision_event_of p b sf) \<in> set (al_events st')"
        using decide(1) write_cache_events [of env u p key "log_event (EvDecided (aq_id r) (decision_event_of p b sf)) (put_request u st1)"]
        by auto
      moreover obtain w where "w \<in> set (al_requests st')" "same_fixed r w" using grows decide(2) unfolding later_def by blast
      ultimately show ?thesis
        using decision_seeds [OF decide(5)] check_decisionD(4) [OF decide(4) refl] k' e by blast
    qed (rule keep)
  qed (use mem keep challenge_ops_frame check_decisionD(1) in
      \<open>auto simp: forgetSessionApprovalCacheFor_def schedule_task_def\<close>)
  then show ?thesis by (auto simp: cache_ok_def)
qed


lemma cache_ok_reachable:
  assumes "approval_reachable E st"
  shows "cache_ok st"
proof -
  have "cache_ok st \<and> ids_ok st"
    using assms
  proof (rule reachable_invariant [where I = "\<lambda>s. cache_ok s \<and> ids_ok s"])
    show "cache_ok empty_approvals \<and> ids_ok empty_approvals"
      using fresh_store_ok by (simp add: cache_ok_def) (simp add: empty_approvals_def)
  qed (use cache_ok_change ids_ok_change in blast)
  then show ?thesis ..
qed

section \<open>What passes the gate\<close>

text \<open>A human-only approval of exactly this payload and operation, proven in the log.\<close>

definition proven_for :: "approval_event list \<Rightarrow> gate_params \<Rightarrow> approval_request \<Rightarrow> bool" where
  "proven_for evs g r \<longleftrightarrow>
    (case aq_accountability r of
       None \<Rightarrow> False
     | Some ac \<Rightarrow> ac_human_only ac \<and> ac_payloadHash ac = Some (ga_payloadHash g) \<and> ac_effectBinding ac = Some (ga_operationId g) \<and>
         list_ex (\<lambda>d. de_decision d = DApproved \<and> proven_decision ac d) (decisions (aq_id r) evs))"

text \<open>The request that lets an operation pass: not revoked, under separation of duties; and either human-only and
  proven, or an approved request of this correlation, bound to the effect where the caller requires an approval.\<close>

definition justifies :: "approval_env \<Rightarrow> approval_state \<Rightarrow> gate_params \<Rightarrow> approval_request \<Rightarrow> bool" where
  "justifies env st g r \<longleftrightarrow>
    \<not> (aq_revocation r \<noteq> None \<and> ae_sod env = Some True) \<and>
    (if is_human_only (aq_accountability r) then proven_for (al_events st) g r
     else aq_status r = Approved \<and> aq_correlationId r = ga_correlationId g \<and>
       \<not> isApprovalRequestExpired (aq_expiresAt r) (ae_now env) \<and> \<not> (ga_requireApproval g \<and> binding_mismatch g r))"

lemma find_usableD:
  "find_usable env rs = Inr (Some r) \<Longrightarrow>
   r \<in> set rs \<and> (aq_status r = Approved \<longrightarrow> evaluateApprovalUsability env r = Inr None)"
  by (induction env rs rule: find_usable.induct) (auto split: if_splits sum.splits option.splits)

lemma human_approved_proven:
  assumes "approval_reachable E st" and "r \<in> set (al_requests st)" and "approved_by_human (al_events st) payload operation r"
  shows "\<exists>ac. aq_accountability r = Some ac \<and> ac_human_only ac \<and> ac_payloadHash ac = Some payload \<and>
    ac_effectBinding ac = Some operation \<and>
    list_ex (\<lambda>d. de_decision d = DApproved \<and> proven_decision ac d) (decisions (aq_id r) (al_events st))"
proof -
  have "approval_reachable (enforcing False) st"
    using assms(1) by (rule reachable_mono) (simp add: enforcing_def)
  from human.law [OF this assms(2)] assms(3) show ?thesis
    by (auto simp: decisions_ok_def approved_by_human_def list_all_iff list_ex_iff split: option.splits)
qed

lemma approved_has_decision:
  assumes "approval_reachable E st" and "r \<in> set (al_requests st)" and "aq_status r = Approved"
  shows "list_ex (\<lambda>d. de_decision d = DApproved) (decisions (aq_id r) (al_events st))"
  using shown.law [OF assms(1,2)] assms(3)
  by (auto simp: shows_decision_def Let_def status_of_def list_ex_iff split: if_splits decision.splits intro: last_in_set)


text \<open>The seed of a cached approval that the gate accepts under separation of duties is not revoked.\<close>

lemma seed_not_revoked:
  assumes "seed_usable env e st = Inr True" and "ids_ok st" and "ids_well_formed st" and "ae_sod env = Some True"
    and "u \<in> set (al_requests st)" and "aq_id u = ce_requestId e"
  shows "aq_revocation u = None"
proof -
  have wf: "normalizeApprovalRequestId (ce_requestId e) = Some (ce_requestId e)"
    using assms(3,5,6) by (auto simp: ids_well_formed_def list_all_iff well_formed_id_def)
  from assms(1,4) obtain r where r: "resolveSessionCacheSeed env e st = SeedFound r" "assertApprovalUsable env r = None"
    by (auto simp: seed_usable_def split: seed_resolution.splits option.splits)
  then have "\<exists>ch. find_request ch (ce_requestId e) st = Some r"
    using wf by (auto simp: resolveSessionCacheSeed_def locateApprovalRequest_def split: if_splits option.splits sum.splits)
  then have "r \<in> set (al_requests st)" "aq_id r = ce_requestId e"
    by (auto simp: find_request_def find_Some_iff dest: find_Some_in_set)
  then have "u = r" using assms(2,5,6) by (auto simp: ids_ok_def distinct_map inj_on_def)
  then show ?thesis using usable_not_revoked r(2) by simp
qed

lemma cached_approvalD:
  assumes "cached_approval env g st = (Inr (Some e), st')"
  shows "\<exists>k. (k, e) \<in> set (al_cache st)" and "ce_payloadHash e = ga_payloadHash g" and "ce_effectBinding e = ga_operationId g"
    and "seed_usable env e st' = Inr True" and "al_requests st' = al_requests st"
  using assms
  by (auto simp: cached_approval_def lookupSessionApprovalCache_def entry_serves_def cache_context_of_def Let_def
      dest: map_of_SomeD split: if_splits prod.splits sum.splits option.splits)

lemma cache_expire_lapsed: "al_cache (expire_lapsed env ch rs st) = al_cache st"
  by (induction env ch rs st rule: expire_lapsed.induct)
    (auto simp: expireApprovalRequest_def close_pending_def Let_def schedulePipelineApprovalResume_def schedule_task_def split: sum.split)

lemma open_denies: "open_request env g ex i st = (Inr res, st') \<Longrightarrow> \<not> gr_allowed res"
  by (auto simp: open_request_def gate_denied_def split: if_splits sum.splits prod.splits)

lemma matched_justifies:
  assumes "approval_reachable E st" and "r \<in> set (al_requests st)" and "aq_correlationId r = ga_correlationId g"
    and "aq_status r = Approved \<longrightarrow> evaluateApprovalUsability env r = Inr None" and "gr_allowed (decide_matched env g r)"
  shows "gr_requestId (decide_matched env g r) = Some (aq_id r) \<and> justifies env st g r"
proof -
  have s: "aq_status r = Approved" "\<not> isApprovalRequestExpired (aq_expiresAt r) (ae_now env)" "\<not> binding_mismatch g r"
    "gr_requestId (decide_matched env g r) = Some (aq_id r)"
    using assms(5) by (auto simp: decide_matched_def gate_denied_def gate_approved_def Let_def split: if_splits)
  then have "aq_revocation r = None"
    using assms(4) by (auto simp: evaluateApprovalUsability_def split: if_splits)
  moreover have "proven_for (al_events st) g r" if h: "is_human_only (aq_accountability r)"
  proof -
    have "approved_by_human (al_events st) (ga_payloadHash g) (ga_operationId g) r"
      using h s(3) approved_has_decision [OF assms(1,2) s(1)]
      by (auto simp: approved_by_human_def binding_mismatch_def is_human_only_def split: option.splits)
    from human_approved_proven [OF assms(1,2) this] show ?thesis by (auto simp: proven_for_def)
  qed
  ultimately show ?thesis using s assms(3) by (simp add: justifies_def)
qed

lemma cached_justifies:
  assumes "approval_reachable E st" and "changes env st st1" and "al_cache st1 = al_cache st"
    and "cached_approval env g st1 = (Inr (Some e), st2)"
  shows "\<exists>r\<in>set (al_requests st). aq_id r = ce_requestId e \<and> justifies env st g r"
proof -
  note c = cached_approvalD [OF assms(4)]
  from c(1) assms(3) cache_ok_reachable [OF assms(1)] obtain r
    where r: "r \<in> set (al_requests st)" "seeds (al_events st) r e" unfolding cache_ok_def by auto
  have ids: "ids_ok st1 \<and> ids_well_formed st1"
    using assms(2) ids_ok_reachable [OF assms(1)] ids_well_formed_reachable [OF assms(1)]
    by induction (auto intro: ids_ok_change ids_well_formed_change)
  obtain u where u: "u \<in> set (al_requests st1)" "later r u"
    using changes_later [OF assms(2) ids_ok_reachable [OF assms(1)] r(1)] by blast
  have "aq_revocation r = None" if "ae_sod env = Some True"
    using seed_not_revoked [OF c(4) _ _ that, of u] ids u r(2) c(5)
    by (auto simp: ids_ok_def ids_well_formed_def later_def seeds_def same_fixed_def)
  moreover have "proven_for (al_events st) g r"
    using human_approved_proven [OF assms(1) r(1), of "ga_payloadHash g" "ga_operationId g"] r(2) c(2,3)
    by (auto simp: seeds_def proven_for_def)
  ultimately show ?thesis
    using r by (auto simp: justifies_def proven_for_def is_human_only_def seeds_def split: option.splits)
qed

lemma lookup_justified:
  assumes "approval_reachable E st" and "gate_lookup env g ex i st = (Inr res, st')" and "gr_allowed res"
  shows "\<exists>r\<in>set (al_requests st). gr_requestId res = Some (aq_id r) \<and> justifies env st g r"
proof -
  define same where "same = filter (\<lambda>r. ga_inScope g r \<and> aq_correlationId r = ga_correlationId g)
      (listApprovalRequests env (Some [ga_channel g]) None st)"
  define st1 where "st1 = (if ex \<noteq> None then expire_lapsed env (ga_channel g) same st else st)"
  define cands where "cands = (if ex = None then filter (\<lambda>r. aq_status r \<noteq> Expired) same
      else filter (\<lambda>r. \<not> isLapsedRequest r (ae_now env)) same)"
  have st1: "changes env st st1" "al_cache st1 = al_cache st"
    by (simp_all add: st1_def changes_expire_lapsed cache_expire_lapsed)
  have cands: "r \<in> set (al_requests st) \<and> aq_correlationId r = ga_correlationId g" if "r \<in> set cands" for r
    using that by (auto simp: cands_def same_def listApprovalRequests_def split: if_splits)
  note lookup = assms(2) [unfolded gate_lookup_def Let_def, folded same_def, folded st1_def, folded cands_def]
  from lookup have "normalizeApprovalChannel (ga_channel g) \<noteq> None" by (auto split: if_splits)
  with lookup consider (matched) r where "find_usable env cands = Inr (Some r)" "res = decide_matched env g r"
    | (cached) e st2 where "cached_approval env g st1 = (Inr (Some e), st2)" "res = gate_approved (ce_requestId e)"
    | (opened) st2 where "open_request env g ex i st2 = (Inr res, st')"
    by (auto split: sum.splits option.splits prod.splits)
  then show ?thesis
  proof cases
    case (matched r)
    with find_usableD cands matched_justifies [OF assms(1), of r g env] assms(3) show ?thesis by blast
  next
    case (cached e st2)
    with cached_justifies [OF assms(1) st1 cached(1)] show ?thesis by (simp add: gate_approved_def) metis
  next
    case opened
    with assms(3) open_denies show ?thesis by blast
  qed
qed

text \<open>C6. What passes the gate: an operation that the gate allows is either one that needs no approval, or one with a
  request of the store that the gate names: in every history a human-only request was approved by an
  authenticated human for exactly this payload and operation, any other one is an approved, unexpired request of the
  same correlation; and under separation of duties the request is not revoked.\<close>

theorem effects_pass_only_when_justified:
  assumes "approval_reachable E st" and "enforceApprovalGate env g i st = (Inr res, st')" and "gr_allowed res"
  shows "(ga_charter g \<noteq> CharterStop \<and> passes_unapproved g) \<or>
    (\<exists>r\<in>set (al_requests st). gr_requestId res = Some (aq_id r) \<and> justifies env st g r)"
  using assms(2,3) lookup_justified [OF assms(1)]
  by (auto simp: enforceApprovalGate_def gate_denied_def split: if_splits option.splits)

section \<open>What the session cache does not notice\<close>

text \<open>A rejection replaces its record and leaves the cache alone.\<close>

lemma rejection_frame:
  assumes "decideApprovalRequest env rf p st = (Inr u, st')" "dp_decision p = DRejected"
  obtains r b sf where "r \<in> set (al_requests st)" "u = decided_request env p b sf r" "al_cache st' = al_cache st"
    "al_requests st' = al_requests (put_request u st)"
proof -
  obtain r b sf key st1 where d: "located env rf st = Inr r" "u = decided_request env p b sf r"
    "check_decision env (storage_of rf) r p st = (Inr (b, sf, key), st1)"
    "st' = schedule_decision u (write_session_cache env u p key (log_event (EvDecided (aq_id r) (decision_event_of p b sf)) (put_request u st1)))"
    using assms(1) by (auto simp: decideApprovalRequest_def Let_def split: if_splits sum.splits option.splits prod.splits)
  have "key = None" using check_decisionD(4) [OF d(3) refl] assms(2) by (simp add: session_cache_key_def)
  moreover note frame = check_decisionD(1) [OF d(3)]
  ultimately have "al_cache st' = al_cache st" "al_requests st' = al_requests (put_request u st)"
    by (auto simp: d(4) schedule_decision_def schedulePipelineApprovalResume_def schedule_task_def Let_def
        write_session_cache_def log_event_def put_request_def)
  then show thesis using that located_in [OF d(1)] d(2) by blast
qed

lemma find_put:
  "find_request ch i (put_request u st) = map_option (\<lambda>q. if same_request u q then u else q) (find_request ch i st)"
proof -
  have "List.find (\<lambda>r. aq_storageChannel r = ch \<and> aq_id r = i) (map (\<lambda>q. if same_request u q then u else q) rs) =
      map_option (\<lambda>q. if same_request u q then u else q) (List.find (\<lambda>r. aq_storageChannel r = ch \<and> aq_id r = i) rs)" for rs
    by (induction rs) (auto simp: same_request_def)
  then show ?thesis by (simp add: find_request_def put_request_def)
qed

lemma separation_fixed:
  assumes "same_fixed r u"
  shows "evaluateSeparationOfDuties env u d s = evaluateSeparationOfDuties env r d s"
proof -
  have "approvalRequesterIdentities env u = approvalRequesterIdentities env r"
    using assms by (simp only: same_fixed_def approvalRequesterIdentities_def)
  moreover have "recordConsent env u = recordConsent env r"
    using assms by (simp only: same_fixed_def recordConsent_def)
  ultimately show ?thesis by (simp only: evaluateSeparationOfDuties_def)
qed

lemma usable_iff:
  "assertApprovalUsable env r = None \<longleftrightarrow> aq_revocation r = None \<and>
    (ae_sod env = Some False \<or>
     ae_sod env = Some True \<and> (\<forall>(d, s)\<in>set (approvingDecisions r). evaluateSeparationOfDuties env r d s = None))"
proof -
  have find: "(case List.find (\<lambda>(d, s). v d s \<noteq> None) xs of Some (d, s) \<Rightarrow> v d s | None \<Rightarrow> None) = None \<longleftrightarrow>
      (\<forall>(d, s)\<in>set xs. v d s = None)" for v :: "'a \<Rightarrow> 'b \<Rightarrow> 'c option" and xs
    by (induction xs) auto
  show ?thesis
  proof (cases "ae_sod env")
    case (Some b)
    show ?thesis
      by (cases b)
        (auto simp: assertApprovalUsable_def evaluateApprovalUsability_def Some find [symmetric] split: option.splits)
  qed (simp add: assertApprovalUsable_def evaluateApprovalUsability_def)
qed

text \<open>A record that a rejection has changed is as usable as before: rejecting roles are not looked at.\<close>

lemma rejected_usable:
  assumes "assertApprovalUsable env r = None" and "dp_decision p = DRejected" and "u = decided_request env' p b sf r"
    and "ae_sod env = Some True \<Longrightarrow> evaluateSeparationOfDuties env u (Some (dp_decidedBy p)) (dp_identitySource p) = None"
  shows "assertApprovalUsable env u = None"
proof -
  have rev: "aq_revocation u = aq_revocation r" by (simp add: assms(3) decided_request_def)
  have ev: "evaluateSeparationOfDuties env u d s = evaluateSeparationOfDuties env r d s" for d s
    unfolding assms(3) by (rule separation_fixed [OF decided_fixed])
  have sub: "set (approvingDecisions u) \<subseteq> insert (Some (dp_decidedBy p), dp_identitySource p) (set (approvingDecisions r))"
    using assms(2)
    by (auto simp: assms(3) approvingDecisions_def decided_request_def approvals_of_def decide_role_def role_status_of_def
        split: option.splits if_splits)
  show ?thesis
  proof (cases "ae_sod env = Some True")
    case True
    then have "\<forall>(d, s)\<in>set (approvingDecisions r). evaluateSeparationOfDuties env r d s = None"
      using assms(1) unfolding usable_iff by simp
    then have "\<forall>(d, s)\<in>set (approvingDecisions u). evaluateSeparationOfDuties env u d s = None"
      using sub assms(4) [OF True] unfolding ev by fast
    then show ?thesis using assms(1) rev True unfolding usable_iff by simp
  qed (use assms(1) rev in \<open>simp add: usable_iff\<close>)
qed

text \<open>The seed of a cached approval in a store with one record changed.\<close>

lemma resolve_map:
  assumes "\<And>ch i. find_request ch i y = map_option T (find_request ch i x)"
    and "\<And>ch i q. find_request ch i x = Some q \<Longrightarrow>
      ae_visible env (T q) = ae_visible env q \<and> aq_ownerHash (T q) = aq_ownerHash q \<and> aq_tenant (T q) = aq_tenant q"
  shows "resolveSessionCacheSeed env e y =
    (case resolveSessionCacheSeed env e x of SeedFound q \<Rightarrow> SeedFound (T q) | SeedMissing \<Rightarrow> SeedMissing | SeedUnusable \<Rightarrow> SeedUnusable)"
proof (cases "in_private_partition e")
  case True
  then show ?thesis
    by (cases "find_request (ce_storageChannel e) (ce_requestId e) x") (simp_all add: resolveSessionCacheSeed_def assms(1))
next
  case False
  have loc: "locateApprovalRequest env ch i y = (case locateApprovalRequest env ch i x of Inl er \<Rightarrow> Inl er | Inr q \<Rightarrow> Inr (map_option T q))"
    for ch i
    using assms(2) by (auto simp: locateApprovalRequest_def assms(1) split: option.split)
  have in_x: "locateApprovalRequest env ch i x = Inr (Some q) \<Longrightarrow> aq_ownerHash (T q) = aq_ownerHash q \<and> aq_tenant (T q) = aq_tenant q"
    for ch i q
    using assms(2) by (auto simp: locateApprovalRequest_def split: option.splits if_splits)
  show ?thesis
  proof (cases "locateApprovalRequest env (ce_storageChannel e) (ce_requestId e) x")
    case (Inl er)
    with False show ?thesis by (simp add: resolveSessionCacheSeed_def loc)
  next
    case (Inr z)
    with False in_x show ?thesis by (cases z) (auto simp: resolveSessionCacheSeed_def loc)
  qed
qed

lemma gate_by_cache:
  assumes "\<forall>r\<in>set (al_requests st). aq_correlationId r \<noteq> ga_correlationId g"
  shows "fst (enforceApprovalGate env g i st) = Inr (gate_approved j) \<longleftrightarrow>
    ga_charter g \<noteq> CharterStop \<and> \<not> passes_unapproved g \<and> normalizeApprovalChannel (ga_channel g) \<noteq> None \<and>
    (case ga_expiresAt g of None \<Rightarrow> True | Some s \<Rightarrow> clampRenewableExpiry s (ae_now env) \<noteq> None) \<and>
    (\<exists>e. fst (cached_approval env g st) = Inr (Some e) \<and> ce_requestId e = j)"
proof -
  have none: "filter (\<lambda>r. ga_inScope g r \<and> aq_correlationId r = ga_correlationId g) (listApprovalRequests env x y st) = []" for x y
    using assms by (auto simp: listApprovalRequests_def filter_empty_conv)
  have opened: "fst (open_request env g ex i st2) \<noteq> Inr (gate_approved j)" for ex st2
    by (auto simp: open_request_def gate_denied_def gate_approved_def split: sum.splits prod.splits)
  have lookup: "fst (gate_lookup env g ex i st) = Inr (gate_approved j) \<longleftrightarrow> normalizeApprovalChannel (ga_channel g) \<noteq> None \<and>
      (\<exists>e. fst (cached_approval env g st) = Inr (Some e) \<and> ce_requestId e = j)" for ex
    using opened by (auto simp: gate_lookup_def none gate_approved_def split: sum.splits option.splits prod.splits)
  have "gate_denied x y \<noteq> gate_approved j" "gate_not_required \<noteq> gate_approved j" for x y
    by (simp_all add: gate_denied_def gate_approved_def gate_not_required_def)
  then show ?thesis by (auto simp: enforceApprovalGate_def lookup split: option.splits)
qed

lemma cached_again:
  assumes "fst (cached_approval env g st) = Inr (Some e)" and "al_cache st' = al_cache st"
    and "\<And>x y. al_requests x = al_requests st \<Longrightarrow> al_requests y = al_requests st' \<Longrightarrow>
      seed_usable env e x = Inr True \<Longrightarrow> seed_usable env e y = Inr True"
  shows "fst (cached_approval env g st') = Inr (Some e)"
  using assms
  by (auto simp: cached_approval_def lookupSessionApprovalCache_def split: if_splits option.splits prod.splits sum.splits)

text \<open>C34. The session cache does not notice a rejection: in every history, if the gate lets an operation of a new
  correlation pass as approved on a request, through the session cache, and that request is then rejected by a decider
  who passes separation of duties (a further role of its workflow), the gate lets the same operation pass as approved
  on the rejected request. (Whether a process sees a record does not depend on the decisions on it.)\<close>

theorem rejection_leaves_the_session_grant:
  assumes "approval_reachable E st"
    and "decideApprovalRequest env rf p st = (Inr u, st')" and "dp_decision p = DRejected"
    and "\<forall>r\<in>set (al_requests st). aq_correlationId r \<noteq> ga_correlationId g"
    and "fst (enforceApprovalGate env' g i st) = Inr (gate_approved (aq_id u))"
    and "\<forall>q w. same_fixed q w \<longrightarrow> ae_visible env' q = ae_visible env' w"
    and "ae_sod env' = Some True \<longrightarrow> evaluateSeparationOfDuties env' u (Some (dp_decidedBy p)) (dp_identitySource p) = None"
  shows "aq_status u = Rejected \<and> fst (enforceApprovalGate env' g i' st') = Inr (gate_approved (aq_id u))"
proof
  obtain r b sf where r: "r \<in> set (al_requests st)" "u = decided_request env p b sf r" "al_cache st' = al_cache st"
    "al_requests st' = al_requests (put_request u st)" using rejection_frame [OF assms(2,3)] .
  note fixed = decided_fixed [of r env p b sf, folded r(2)]
  show "aq_status u = Rejected" by (simp add: r(2) decided_request_def assms(3) status_of_def)
  have fresh: "\<forall>q\<in>set (al_requests st'). aq_correlationId q \<noteq> ga_correlationId g"
    using assms(4) r(1) fixed by (auto simp: r(4) put_request_def same_fixed_def)
  obtain e where e: "fst (cached_approval env' g st) = Inr (Some e)" "ce_requestId e = aq_id u"
    using assms(5) unfolding gate_by_cache [OF assms(4)] by blast
  have same: "q = r" if "q \<in> set (al_requests st)" "same_request u q" for q
    using that r(1) fixed ids_ok_reachable [OF assms(1)]
    by (auto simp: ids_ok_def distinct_map inj_on_def same_request_def same_fixed_def)
  have find: "find_request ch k y = map_option (\<lambda>q. if same_request u q then u else q) (find_request ch k x)"
    "find_request ch k x = Some q \<Longrightarrow> q \<in> set (al_requests st)"
    if "al_requests x = al_requests st" "al_requests y = al_requests st'" for x y ch k q
  proof -
    have "find_request ch k y = find_request ch k (put_request u x)"
      using that by (simp add: find_request_def r(4) put_request_def)
    then show "find_request ch k y = map_option (\<lambda>q. if same_request u q then u else q) (find_request ch k x)"
      by (simp add: find_put)
    show "find_request ch k x = Some q \<Longrightarrow> q \<in> set (al_requests st)"
      using that by (auto simp: find_request_def find_Some_iff)
  qed
  have usable: "assertApprovalUsable env' u = None" if "assertApprovalUsable env' r = None"
    using that assms(7) by (intro rejected_usable [OF _ assms(3) r(2)]) auto
  have "ae_visible env' r = ae_visible env' u" using assms(6) fixed by blast
  then have seen: "ae_visible env' u = ae_visible env' r" "aq_ownerHash u = aq_ownerHash r" "aq_tenant u = aq_tenant r"
    using fixed by (simp_all add: same_fixed_def)
  have "seed_usable env' e y = Inr True"
    if x: "al_requests x = al_requests st" "al_requests y = al_requests st'" "seed_usable env' e x = Inr True" for x y
  proof -
    let ?T = "\<lambda>q. if same_request u q then u else q"
    have keep: "ae_visible env' (?T q) = ae_visible env' q \<and> aq_ownerHash (?T q) = aq_ownerHash q \<and> aq_tenant (?T q) = aq_tenant q"
      if "find_request ch k x = Some q" for ch k q
      using same [OF find(2) [OF x(1,2) that]] seen by auto
    note resolve = resolve_map [of y ?T x env', OF find(1) [OF x(1,2)] keep]
    show ?thesis
    proof (cases "resolveSessionCacheSeed env' e x")
      case (SeedFound q)
      then have q: "assertApprovalUsable env' q = None" using x(3) by (simp add: seed_usable_def)
      have "q \<in> set (al_requests st)"
        using SeedFound find(2) [OF x(1,2)]
        by (auto simp: resolveSessionCacheSeed_def locateApprovalRequest_def split: if_splits option.splits sum.splits)
      then have "assertApprovalUsable env' (?T q) = None" using q usable same [of q] by auto
      then show ?thesis using SeedFound by (simp add: seed_usable_def resolve)
    qed (use x(3) in \<open>simp_all add: seed_usable_def resolve\<close>)
  qed
  then have "fst (cached_approval env' g st') = Inr (Some e)" by (rule cached_again [OF e(1) r(3)])
  with e(2) assms(5) show "fst (enforceApprovalGate env' g i' st') = Inr (gate_approved (aq_id u))"
    unfolding gate_by_cache [OF assms(4)] gate_by_cache [OF fresh] by blast
qed

end
