(* ===== verification/Approval_Veto_Props.thy ===== *)
theory Approval_Veto_Props
  imports Approval_Props
begin

text \<open>
  What silence can decide. The deadline of a veto window is the first minute at which the required number of active
  minutes has passed since delivery, and a request proceeds without a person only when its window was delivered in time
  and has elapsed by that rule, is no shadow, binds no decision to a human, and operations are not halted.
\<close>

section \<open>The deadline\<close>

definition active_minute :: "approval_env \<Rightarrow> active_hours \<Rightarrow> ms \<Rightarrow> bool" where
  "active_minute env h t = (isWithinActiveHours env t (Some h) = Inr True)"

text \<open>How many of the first minutes from a cursor on are active.\<close>

definition active_minutes :: "approval_env \<Rightarrow> active_hours \<Rightarrow> ms \<Rightarrow> nat \<Rightarrow> nat" where
  "active_minutes env h cursor n = length (filter (\<lambda>i. active_minute env h (cursor + int i * MINUTE_MS)) [0..<n])"

definition readable_hours :: "active_hours \<Rightarrow> bool" where
  "readable_hours h = (parseHhMm (ah_start h) \<noteq> None \<and> parseHhMm (ah_end h) \<noteq> None)"

lemma readable_within: "readable_hours h \<Longrightarrow> isWithinActiveHours env t (Some h) = Inr (active_minute env h t)"
  by (auto simp: readable_hours_def active_minute_def isWithinActiveHours_def Let_def split: if_splits)

lemma active_minutes_0 [simp]: "active_minutes env h c 0 = 0"
  by (simp add: active_minutes_def)

lemma active_minutes_Suc:
  "active_minutes env h c (Suc n) = (if active_minute env h c then 1 else 0) + active_minutes env h (c + MINUTE_MS) n"
proof -
  have "[0..<Suc n] = 0 # map Suc [0..<n]" by (simp add: map_Suc_upt upt_conv_Cons del: upt_Suc)
  then show ?thesis
    by (simp add: active_minutes_def filter_map o_def algebra_simps del: upt_Suc)
qed

lemma active_minutes_mono: "m \<le> n \<Longrightarrow> active_minutes env h c m \<le> active_minutes env h c n"
proof -
  assume "m \<le> n"
  then have "[0..<n] = [0..<m] @ [m..<n]" using upt_add_eq_append [of 0 m "n - m"] by simp
  then show ?thesis by (simp add: active_minutes_def)
qed

text \<open>The number of minutes at which a count of active minutes is reached for the first time.\<close>

definition reached_after :: "approval_env \<Rightarrow> active_hours \<Rightarrow> ms \<Rightarrow> nat \<Rightarrow> nat \<Rightarrow> bool" where
  "reached_after env h c k n \<longleftrightarrow> active_minutes env h c n = k \<and> list_all (\<lambda>m. active_minutes env h c m < k) [0..<n]"

lemma reached_0: "reached_after env h c 0 n \<longleftrightarrow> n = 0"
  by (cases n) (auto simp: reached_after_def list_all_iff simp del: upt_Suc)

lemma reached_Suc:
  "reached_after env h c (Suc k) (Suc n) \<longleftrightarrow>
   reached_after env h (c + MINUTE_MS) (if active_minute env h c then k else Suc k) n"
proof -
  have "list_all P [0..<Suc n] \<longleftrightarrow> P 0 \<and> list_all (\<lambda>m. P (Suc m)) [0..<n]" for P
    by (auto simp: list_all_iff less_Suc_eq_0_disj simp del: upt_Suc)
  note split = this [of "\<lambda>m. active_minutes env h c m < Suc k"]
  show ?thesis
    unfolding reached_after_def split active_minutes_Suc by (cases "active_minute env h c") simp_all
qed

lemma scan_minutes_spec:
  assumes "readable_hours h"
  shows "\<exists>x. scan_minutes env h left c k = Inr x \<and>
    (case x of Some t \<Rightarrow> \<exists>n\<le>left. t = c + int n * MINUTE_MS \<and> reached_after env h c k n
     | None \<Rightarrow> active_minutes env h c left < k)"
proof (induction left arbitrary: c k)
  case 0
  then show ?case by (cases k) (auto simp: reached_0)
next
  case (Suc left)
  show ?case
  proof (cases k)
    case (Suc j)
    let ?j = "if active_minute env h c then j else Suc j"
    obtain x where x: "scan_minutes env h left (c + MINUTE_MS) ?j = Inr x"
      "case x of Some t \<Rightarrow> \<exists>n\<le>left. t = c + MINUTE_MS + int n * MINUTE_MS \<and> reached_after env h (c + MINUTE_MS) ?j n
       | None \<Rightarrow> active_minutes env h (c + MINUTE_MS) left < ?j"
      using Suc.IH by blast
    have r: "scan_minutes env h (Suc left) c k = Inr x"
      using x(1) readable_within [OF assms] by (simp add: Suc)
    show ?thesis
    proof (cases x)
      case None
      with x(2) show ?thesis using r by (auto simp: Suc active_minutes_Suc split: if_splits)
    next
      case (Some t)
      with x(2) obtain n where n: "n \<le> left" "t = c + MINUTE_MS + int n * MINUTE_MS"
        "reached_after env h (c + MINUTE_MS) ?j n" by auto
      then have "reached_after env h c (Suc j) (Suc n)" by (simp add: reached_Suc)
      moreover have "t = c + int (Suc n) * MINUTE_MS" using n(2) by (simp add: algebra_simps)
      ultimately show ?thesis using r Some n(1) by (auto simp: Suc)
    qed
  qed (auto simp: reached_0)
qed

lemma next_minute_bounds: "t \<le> next_minute t" "next_minute t < t + MINUTE_MS" "next_minute t mod MINUTE_MS = 0"
proof -
  have "(- t) div MINUTE_MS * MINUTE_MS + (- t) mod MINUTE_MS = - t" by (rule div_mult_mod_eq)
  moreover have "0 \<le> (- t) mod MINUTE_MS" "(- t) mod MINUTE_MS < MINUTE_MS" by (simp_all add: MINUTE_MS_def)
  ultimately show "t \<le> next_minute t" "next_minute t < t + MINUTE_MS" unfolding next_minute_def by linarith+
  show "next_minute t mod MINUTE_MS = 0" by (simp add: next_minute_def)
qed

text \<open>The deadline of a veto window with readable active hours is exact: it is the end of the first minute at which
  the required number of active minutes has passed since the first full minute from delivery on (which starts less than
  a minute after delivery), and there is none only when the first sixty days do not hold that many.\<close>

theorem veto_deadline_is_exact:
  assumes "readable_hours h"
  shows "next_minute start \<in> {start..<start + MINUTE_MS} \<and>
    (\<exists>x. computeVetoDeadline env start window (Some h) = Inr x \<and>
      (case x of
         Some t \<Rightarrow> \<exists>n. n \<le> MAX_SCAN_MINUTES \<and> t = next_minute start + int n * MINUTE_MS \<and>
           reached_after env h (next_minute start) (nat \<lceil>window\<rceil>) n
       | None \<Rightarrow> active_minutes env h (next_minute start) MAX_SCAN_MINUTES < nat \<lceil>window\<rceil>))"
proof -
  have "next_minute start \<in> {start..<start + MINUTE_MS}" using next_minute_bounds by simp
  moreover obtain x where "computeVetoDeadline env start window (Some h) = Inr x"
    "case x of Some t \<Rightarrow> \<exists>n\<le>MAX_SCAN_MINUTES. t = next_minute start + int n * MINUTE_MS \<and>
       reached_after env h (next_minute start) (nat \<lceil>window\<rceil>) n
     | None \<Rightarrow> active_minutes env h (next_minute start) MAX_SCAN_MINUTES < nat \<lceil>window\<rceil>"
    using scan_minutes_spec [OF assms] by (simp add: computeVetoDeadline_def Let_def) blast
  ultimately show ?thesis by (cases x) auto
qed

section \<open>Silence\<close>

text \<open>The time zone database does not change.\<close>

definition same_clock :: "approval_env \<Rightarrow> approval_env \<Rightarrow> bool" where
  "same_clock env0 env \<longleftrightarrow> ae_localMinute env = ae_localMinute env0"

lemma within_cong: "same_clock env0 env \<Longrightarrow> isWithinActiveHours env t h = isWithinActiveHours env0 t h"
  by (simp add: same_clock_def isWithinActiveHours_def Let_def split: option.split)

lemma scan_cong: "same_clock env0 env \<Longrightarrow> scan_minutes env h left c k = scan_minutes env0 h left c k"
  by (induction env h left c k rule: scan_minutes.induct) (simp_all add: within_cong split: sum.split)

lemma deadline_cong: "same_clock env0 env \<Longrightarrow> computeVetoDeadline env d w h = computeVetoDeadline env0 d w h"
  by (simp add: computeVetoDeadline_def Let_def scan_cong split: option.split)

text \<open>A window that runs was delivered before its delivery deadline, and proceeds at its computed deadline.\<close>

definition running_window :: "approval_env \<Rightarrow> veto_window \<Rightarrow> ms \<Rightarrow> ms \<Rightarrow> bool" where
  "running_window env v d t \<longleftrightarrow>
    vw_deliveredAt v = Some (At d) \<and> vw_proceedsAt v = Some (At t) \<and>
    computeVetoDeadline env d (vw_windowMinutes v) (vw_activeHours v) = Inr (Some t) \<and>
    (case vw_deliveryDeadlineAt v of At l \<Rightarrow> d < l | BadStamp s \<Rightarrow> False)"

definition window_ok :: "approval_env \<Rightarrow> approval_request \<Rightarrow> bool" where
  "window_ok env r \<longleftrightarrow>
    (case aq_veto r of
       None \<Rightarrow> True
     | Some v \<Rightarrow> vw_fallback v \<or> (vw_deliveredAt v = None \<and> vw_proceedsAt v = None) \<or> (\<exists>d t. running_window env v d t))"

lemma delivered_runs:
  assumes "evaluateVetoWindow v d \<noteq> Undelivered" and "\<not> stamp_present (vw_deliveredAt v)"
    and "computeVetoDeadline env d (vw_windowMinutes v) (vw_activeHours v) = Inr (Some t)"
  shows "running_window env (v\<lparr>vw_deliveredAt := Some (At d), vw_proceedsAt := Some (At t)\<rparr>) d t"
  using assms by (auto simp: running_window_def evaluateVetoWindow_def parseInstant_def split: if_splits stamp.splits)

lemma window_moved:
  assumes "window_ok env0 r" and "same_clock env0 env" and "moves env r u ev"
  shows "window_ok env0 u"
  using assms(3)
proof (cases rule: moves.cases)
  case (delivered v d t)
  then show ?thesis
    using delivered_runs [of v d env0 t] deadline_cong [OF assms(2)] by (auto simp: window_ok_def)
next
  case (shadow v n)
  with assms(1) show ?thesis by (auto simp: window_ok_def running_window_def)
next
  case (fall_back v w)
  then show ?thesis by (simp add: window_ok_def)
qed (use assms(1) in \<open>simp_all add: window_ok_def\<close>)

lemma window_decided: "window_ok env0 r \<Longrightarrow> decides env st r u ev \<Longrightarrow> window_ok env0 u"
  by (erule decides_fields) (simp add: window_ok_def decided_request_def)

interpretation windows: record_law "same_clock env0" "\<lambda>r _. window_ok env0 r" for env0
proof
  show "window_ok env0 (new_request env p ch i)" if "unopened_window (cp_veto p)" for env p ch i
    using that by (auto simp: window_ok_def new_request_def unopened_window_def split: option.splits)
qed (use window_moved window_decided in blast)+

text \<open>What a request has to be for silence to approve it.\<close>

definition approved_by_silence :: "approval_env \<Rightarrow> ms \<Rightarrow> approval_request \<Rightarrow> bool" where
  "approved_by_silence env now r \<longleftrightarrow>
    aq_status r = Approved \<and> aq_decidedBy r = Some VETO_WINDOW_DECIDER \<and> aq_decidedByType r = Some ServiceDecider \<and>
    \<not> is_human_only (aq_accountability r) \<and>
    (case aq_veto r of
       None \<Rightarrow> False
     | Some v \<Rightarrow> \<not> vw_fallback v \<and> \<not> vw_shadow v \<and> (\<exists>d t. running_window env v d t \<and> t \<le> now))"

lemma elapsedD:
  assumes "evaluateVetoWindow v now = Elapsed"
  shows "\<not> vw_fallback v" "\<not> vw_shadow v" "stamp_present (vw_deliveredAt v)" "\<exists>t. vw_proceedsAt v = Some (At t) \<and> t \<le> now"
  using assms by (auto simp: evaluateVetoWindow_def parseInstant_def split: if_splits option.splits stamp.splits)

lemma silent_decision:
  assumes "decideApprovalRequest env rf veto_decision st = (Inr u, st')" and "located env rf st = Inr r"
  shows "\<exists>b sf. u = decided_request env veto_decision b sf r" and "\<not> is_human_only (aq_accountability r)"
proof -
  from assms obtain b sf key st1
    where c: "check_decision env (storage_of rf) r veto_decision st = (Inr (b, sf, key), st1)"
      and u: "u = decided_request env veto_decision b sf r"
    by (auto simp: decideApprovalRequest_def Let_def split: if_splits option.splits prod.splits sum.splits)
  then show "\<exists>b sf. u = decided_request env veto_decision b sf r" by blast
  show "\<not> is_human_only (aq_accountability r)"
    using check_decisionD(3) [OF c refl]
    by (auto simp: validateHumanFinalDecision_def is_human_only_def proof_of_def veto_decision_def split: option.splits if_splits)
qed

definition windows_good :: "approval_env \<Rightarrow> approval_state \<Rightarrow> bool" where
  "windows_good env st \<longleftrightarrow> windows.holds env st \<and> ids_ok st \<and> log_known st \<and> ids_well_formed st"

lemma windows_good_changes:
  assumes "changes env st st'" and "windows_good env st"
  shows "windows_good env st'"
proof -
  have "ids_well_formed st'"
    using assms(1) assms(2) by induction (auto simp: windows_good_def intro: ids_well_formed_change)
  then show ?thesis
    using windows.holds_changes [OF assms(1), of env] assms(2) by (simp add: windows_good_def same_clock_def)
qed

lemma tick_fresh_proceeds:
  assumes "tick_fresh env now f st = (Inr (Some (Proceeded u)), st')" and "f \<in> set (al_requests st)" and "windows_good env st"
  shows "approved_by_silence env now u"
proof -
  from assms(1) obtain v where v: "aq_veto f = Some v" "evaluateVetoWindow v now = Elapsed"
    and d: "decideApprovalRequest env (ref_of f) veto_decision st = (Inr u, st')"
    by (auto simp: tick_fresh_def Let_def split: option.splits if_splits veto_state.splits sum.splits prod.splits)
  obtain r where r: "located env (ref_of f) st = Inr r"
    using d by (auto simp: decideApprovalRequest_def split: if_splits sum.splits)
  with assms(2,3) located_ref_of have "r = f" by (auto simp: windows_good_def)
  with silent_decision [OF d r] obtain b sf
    where u: "u = decided_request env veto_decision b sf f" and h: "\<not> is_human_only (aq_accountability f)" by blast
  have "window_ok env f" using assms(2,3) by (simp add: windows_good_def windows.holds_def)
  with v elapsedD [OF v(2)] have "\<exists>d t. running_window env v d t \<and> t \<le> now"
    by (auto simp: window_ok_def running_window_def)
  then show ?thesis
    using u h v elapsedD [OF v(2)] by (simp add: approved_by_silence_def decided_request_def veto_decision_def status_of_def)
qed

lemma tick_one_proceeds:
  assumes "tick_one env now r st = (Inr (Some (Proceeded u)), st')" and "windows_good env st"
  shows "approved_by_silence env now u"
  using assms tick_fresh_proceeds [OF _ locate_in]
  by (auto simp: tick_one_def split: option.splits if_splits sum.splits)

lemma tick_all_proceeds:
  "windows_good env st \<Longrightarrow> u \<in> set (tr_proceeded (fst (tick_all env now rs res st))) \<Longrightarrow>
   u \<in> set (tr_proceeded res) \<or> approved_by_silence env now u"
proof (induction env now rs res st rule: tick_all.induct)
  case (2 env now r rs res st)
  obtain x st' where o': "tick_one env now r st = (x, st')" by fastforce
  then have "windows_good env st'" using windows_good_changes [OF changes_tick_one 2(2)] by (metis snd_conv)
  moreover have "u \<in> set (tr_proceeded (fst (tick_all env now rs (add_outcome (aq_id r) x res) st')))" using 2(3) o' by simp
  ultimately have "u \<in> set (tr_proceeded (add_outcome (aq_id r) x res)) \<or> approved_by_silence env now u"
    using 2(1) [OF o' [symmetric]] by blast
  moreover have "u \<in> set (tr_proceeded res) \<or> x = Inr (Some (Proceeded u))"
    if "u \<in> set (tr_proceeded (add_outcome (aq_id r) x res))"
    using that by (auto simp: add_outcome_def split: sum.splits option.splits tick_outcome.splits)
  ultimately show ?case using tick_one_proceeds [of env now r st u st'] o' 2(2) by blast
qed simp

text \<open>C22. Silence approves only what it may: every request that a tick lets proceed, in any history with a fixed time
  zone database, was delivered before its delivery deadline and its deadline, as computed from that delivery, has
  passed; it is not a shadow, did not fall back to a person, binds no decision to a human, and operations are not
  halted.\<close>

theorem silence_approves_only_elapsed_windows:
  assumes "approval_reachable (same_clock env) st" and "tickVetoWindows env (Some now) channels st = (Inr res, st')"
    and "u \<in> set (tr_proceeded res)"
  shows "\<not> ae_halted env \<and> approved_by_silence env now u"
proof -
  have good: "windows_good env st"
    using windows.holds_reachable [OF assms(1)] ids_ok_reachable [OF assms(1)] log_known_reachable [OF assms(1)]
      ids_well_formed_reachable [OF assms(1)] by (simp add: windows_good_def)
  have h: "\<not> ae_halted env" using assms(2,3) by (auto simp: tickVetoWindows_def Let_def)
  with assms(2,3) have "u \<in> set (tr_proceeded (fst (tick_all env now (listApprovalRequests env channels (Some Pending) st)
      \<lparr>tr_proceeded = [], tr_shadowElapsed = [], tr_fellBack = [], tr_errors = []\<rparr> st)))"
    by (auto simp: tickVetoWindows_def Let_def split: if_splits prod.splits)
  from tick_all_proceeds [OF good this] h show ?thesis by simp
qed

end
