(* ===== verification/Approval_Challenge_Props.thy ===== *)
theory Approval_Challenge_Props
  imports Approval_Props
begin

text \<open>
  Passkey decisions. A passkey signs a challenge that names the request, the member, the decision and the digest of what
  was shown; in every history each decision by passkey has used up such a challenge, and no challenge serves two
  decisions.
\<close>

section \<open>Challenges\<close>

text \<open>What holds of every challenge: its steps come in order and within its lifetime.\<close>

definition challenge_ok :: "passkey_challenge \<Rightarrow> bool" where
  "challenge_ok c \<longleftrightarrow>
    pk_presented_digest c \<noteq> [] \<and> pk_expires_at c \<le> pk_issued_at c + APPROVAL_PASSKEY_CHALLENGE_TTL_MS \<and>
    (case pk_claimed_at c of None \<Rightarrow> pk_verified_at c = None | Some t \<Rightarrow> t < pk_expires_at c) \<and>
    (case pk_consumed_at c of None \<Rightarrow> True | Some t \<Rightarrow> pk_verified_at c \<noteq> None \<and> t < pk_expires_at c)"

definition challenges_ok :: "passkey_challenge list \<Rightarrow> bool" where
  "challenges_ok cs \<longleftrightarrow> distinct (map pk_id cs) \<and> list_all challenge_ok cs"

text \<open>What a later version of a challenge keeps.\<close>

definition same_challenge :: "passkey_challenge \<Rightarrow> passkey_challenge \<Rightarrow> bool" where
  "same_challenge c c' \<longleftrightarrow>
    pk_id c' = pk_id c \<and> pk_request_id c' = pk_request_id c \<and> pk_decision c' = pk_decision c \<and>
    pk_member_id c' = pk_member_id c \<and> pk_presented_digest c' = pk_presented_digest c \<and>
    (pk_claimed_at c \<noteq> None \<longrightarrow> pk_claimed_at c' \<noteq> None) \<and> (pk_verified_at c \<noteq> None \<longrightarrow> pk_verified_at c' \<noteq> None) \<and>
    (pk_consumed_at c \<noteq> None \<longrightarrow> pk_consumed_at c' \<noteq> None)"

definition evolves :: "passkey_challenge list \<Rightarrow> passkey_challenge list \<Rightarrow> bool" where
  "evolves cs cs' \<longleftrightarrow> challenges_ok cs' \<and> (\<forall>c\<in>set cs. \<exists>c'\<in>set cs'. same_challenge c c')"

lemma evolves_refl: "challenges_ok cs \<Longrightarrow> evolves cs cs"
  by (auto simp: evolves_def same_challenge_def)

lemma find_challengeD: "find_challenge ch i st = Some c \<Longrightarrow> c \<in> set (al_challenges st) \<and> pk_id c = i"
  by (auto simp: find_challenge_def find_Some_iff dest: find_Some_in_set)

lemma read_challengeD: "readChallenge ch i st = Some c \<Longrightarrow> c \<in> set (al_challenges st) \<and> pk_id c = js_lower i"
  by (auto simp: readChallenge_def dest: find_challengeD split: option.splits if_splits)

lemma ids_put_challenge [simp]: "map pk_id (al_challenges (put_challenge c st)) = map pk_id (al_challenges st)"
  by (auto simp: put_challenge_def)

lemma put_challenge_evolves:
  assumes "challenges_ok (al_challenges st)" and "c \<in> set (al_challenges st)" and "same_challenge c c'"
    and "pk_storage_channel c' = pk_storage_channel c" and "challenge_ok c'"
  shows "evolves (al_challenges st) (al_challenges (put_challenge c' st))" and "c' \<in> set (al_challenges (put_challenge c' st))"
proof -
  have hit: "pk_storage_channel q = pk_storage_channel c' \<and> pk_id q = pk_id c' \<longleftrightarrow> q = c" if "q \<in> set (al_challenges st)" for q
    using assms that by (auto simp: challenges_ok_def distinct_map inj_on_def same_challenge_def)
  have all: "set (al_challenges (put_challenge c' st)) = insert c' (set (al_challenges st) - {c})"
    using hit assms(2) by (auto simp: put_challenge_def image_iff)
  then show "c' \<in> set (al_challenges (put_challenge c' st))" by simp
  have "\<exists>w\<in>set (al_challenges (put_challenge c' st)). same_challenge q w" if "q \<in> set (al_challenges st)" for q
    using that assms(3) all by (cases "q = c") (auto simp: same_challenge_def)
  moreover have "challenges_ok (al_challenges (put_challenge c' st))"
    using assms(1,5) all unfolding challenges_ok_def list_all_iff ids_put_challenge by auto
  ultimately show "evolves (al_challenges st) (al_challenges (put_challenge c' st))" by (simp add: evolves_def)
qed

lemma issue_evolves:
  assumes "challenges_ok (al_challenges st)" and "i \<notin> set (map pk_id (al_challenges st))"
    and "issueApprovalPasskeyChallenge env r ch d m s i st = (x, st1)"
  shows "evolves (al_challenges st) (al_challenges st1)"
proof (cases "al_challenges st1 = al_challenges st")
  case False
  with assms(3) obtain t cn where st1: "al_challenges st1 = al_challenges st @
      [\<lparr>pk_id = i, pk_request_id = aq_id r, pk_storage_channel = cn, pk_decision = d, pk_presented_digest = ae_presented env r,
        pk_member_id = m, pk_issued_at = ae_now env, pk_expires_at = t, pk_claimed_at = None, pk_verified_at = None,
        pk_credential_id = None, pk_consumed_at = None\<rparr>]"
    and t: "t \<le> ae_now env + APPROVAL_PASSKEY_CHALLENGE_TTL_MS" and m: "approvalPresentedDigestMatches env r s"
    by (auto simp: issueApprovalPasskeyChallenge_def Let_def split: if_splits option.splits sum.splits stamp.splits)
  have "ae_presented env r \<noteq> []" using m by (auto simp: approvalPresentedDigestMatches_def Let_def)
  then show ?thesis
    using assms(1,2) st1 t by (auto simp: evolves_def challenges_ok_def challenge_ok_def same_challenge_def)
qed (use assms(1) evolves_refl in simp)

lemma claim_evolves:
  assumes "challenges_ok (al_challenges st)" and "claimApprovalPasskeyChallenge env ch c i m d st = (x, st1)"
  shows "evolves (al_challenges st) (al_challenges st1)"
proof (cases "st1 = st")
  case False
  with assms(2) obtain k where k: "readChallenge ch c st = Some k" "pk_claimed_at k = None" "ae_now env < pk_expires_at k"
    and st1: "st1 = put_challenge (k\<lparr>pk_claimed_at := Some (ae_now env)\<rparr>) st"
    by (auto simp: claimApprovalPasskeyChallenge_def Let_def assertExpectation_def split: option.splits if_splits)
  from read_challengeD [OF k(1)] have kin: "k \<in> set (al_challenges st)" by simp
  with assms(1) have "challenge_ok k" by (auto simp: challenges_ok_def list_all_iff)
  with k have "challenge_ok (k\<lparr>pk_claimed_at := Some (ae_now env)\<rparr>)" by (auto simp: challenge_ok_def split: option.splits)
  then show ?thesis
    unfolding st1 by (intro put_challenge_evolves(1) [OF assms(1) kin]) (simp_all add: same_challenge_def)
qed (use assms(1) evolves_refl in simp)

lemma verify_evolves:
  assumes "challenges_ok (al_challenges st)" and "markApprovalPasskeyChallengeVerified env c cr st = (x, st1)"
  shows "evolves (al_challenges st) (al_challenges st1)"
proof (cases "st1 = st")
  case False
  with assms(2) obtain k where k: "readChallenge (pk_storage_channel c) (pk_id c) st = Some k" "pk_claimed_at k \<noteq> None"
    "pk_verified_at k = None"
    and st1: "st1 = put_challenge (k\<lparr>pk_verified_at := Some (ae_now env), pk_credential_id := Some cr\<rparr>) st"
    by (auto simp: markApprovalPasskeyChallengeVerified_def Let_def split: option.splits if_splits)
  from read_challengeD [OF k(1)] have kin: "k \<in> set (al_challenges st)" by simp
  with assms(1) have "challenge_ok k" by (auto simp: challenges_ok_def list_all_iff)
  with k have "challenge_ok (k\<lparr>pk_verified_at := Some (ae_now env), pk_credential_id := Some cr\<rparr>)"
    by (auto simp: challenge_ok_def split: option.splits)
  then show ?thesis
    unfolding st1 by (intro put_challenge_evolves(1) [OF assms(1) kin]) (simp_all add: same_challenge_def)
qed (use assms(1) evolves_refl in simp)

section \<open>Decisions by passkey\<close>

text \<open>The challenge behind a decision: verified, used up, and for this member, request, decision and digest.\<close>

definition challenge_backs :: "passkey_challenge \<Rightarrow> ident \<Rightarrow> decision_event \<Rightarrow> bool" where
  "challenge_backs c i d \<longleftrightarrow>
    Some (pk_id c) = map_option js_lower (de_challengeId d) \<and> pk_request_id c = i \<and> pk_decision c = de_decision d \<and>
    de_decidedBy d = ''user:'' @ pk_member_id c \<and> de_presentedDigest d = Some (pk_presented_digest c) \<and>
    pk_claimed_at c \<noteq> None \<and> pk_verified_at c \<noteq> None \<and> pk_consumed_at c \<noteq> None"

lemma backs_later: "challenge_backs c i d \<Longrightarrow> same_challenge c c' \<Longrightarrow> challenge_backs c' i d"
  by (auto simp: challenge_backs_def same_challenge_def)

lemma backs_id: "challenge_backs c i d \<Longrightarrow> pk_id c = js_lower (the (de_challengeId d)) \<and> pk_consumed_at c \<noteq> None"
  by (cases "de_challengeId d") (auto simp: challenge_backs_def)

text \<open>The challenges that the decisions of a log used, in order.\<close>

fun passkey_uses :: "approval_event list \<Rightarrow> ident list" where
  "passkey_uses [] = []"
| "passkey_uses (EvDecided i d # evs) =
    (if de_authMethod d = Some Passkey then js_lower (the (de_challengeId d)) # passkey_uses evs else passkey_uses evs)"
| "passkey_uses (e # evs) = passkey_uses evs"

fun decision_backed :: "passkey_challenge list \<Rightarrow> approval_event \<Rightarrow> bool" where
  "decision_backed cs (EvDecided i d) =
    (if de_authMethod d = Some Passkey then list_ex (\<lambda>c. challenge_backs c i d) cs else True)"
| "decision_backed cs e = True"

lemma uses_append [simp]: "passkey_uses (xs @ ys) = passkey_uses xs @ passkey_uses ys"
  by (induction xs rule: passkey_uses.induct) simp_all

lemma uses_backed:
  assumes "list_all (decision_backed cs) evs" and "j \<in> set (passkey_uses evs)"
  shows "\<exists>c\<in>set cs. pk_id c = j \<and> pk_consumed_at c \<noteq> None"
  using assms
  by (induction evs rule: passkey_uses.induct) (auto simp: list_ex_iff dest: backs_id split: if_splits)

lemma backed_later: "decision_backed cs e \<Longrightarrow> evolves cs cs' \<Longrightarrow> decision_backed cs' e"
proof (cases e)
  case (EvDecided i d)
  assume "decision_backed cs e" "evolves cs cs'"
  with EvDecided show ?thesis by (simp add: list_ex_iff evolves_def split: if_splits) (meson backs_later)
qed simp_all

fun undecided_event :: "approval_event \<Rightarrow> bool" where
  "undecided_event (EvDecided i d) = False"
| "undecided_event e = True"

lemma undecided_events:
  "list_all undecided_event evs \<Longrightarrow> passkey_uses evs = [] \<and> list_all (decision_backed cs) evs"
proof (induction evs)
  case (Cons e evs)
  then show ?case by (cases e) simp_all
qed simp

lemma neutral_undecided: "list_all neutral evs \<Longrightarrow> list_all undecided_event evs"
proof (induction evs)
  case (Cons e evs)
  then show ?case by (cases e) simp_all
qed simp

lemma moves_undecided: "moves env r u ev \<Longrightarrow> undecided_event ev"
  by (cases rule: moves.cases) auto

definition passkeys_ok :: "approval_state \<Rightarrow> bool" where
  "passkeys_ok st \<longleftrightarrow> challenges_ok (al_challenges st) \<and> distinct (passkey_uses (al_events st)) \<and>
     list_all (decision_backed (al_challenges st)) (al_events st)"

lemma passkeys_quiet:
  assumes "passkeys_ok st" and "evolves (al_challenges st) (al_challenges st')" and "al_events st' = al_events st @ evs"
    and "list_all undecided_event evs"
  shows "passkeys_ok st'"
proof -
  have "list_all (decision_backed (al_challenges st')) (al_events st)"
    using assms(1) backed_later [OF _ assms(2)] by (auto simp: passkeys_ok_def list_all_iff)
  then show ?thesis
    using assms(1,2,3) undecided_events [OF assms(4)] by (simp add: passkeys_ok_def evolves_def)
qed

text \<open>What settling the proof of a decision does to the challenges.\<close>

lemma settle_evolves:
  assumes "challenges_ok (al_challenges st)" and "settlePasskeyDecisionProof env ch r p st = (x, st1)"
  shows "evolves (al_challenges st) (al_challenges st1)"
    and "x = Inr () \<Longrightarrow> dp_authMethod p = Some Passkey \<Longrightarrow>
      \<exists>c\<in>set (al_challenges st). pk_consumed_at c = None \<and> pk_id c = js_lower (the (dp_challengeId p)) \<and>
        (\<exists>c'\<in>set (al_challenges st1). challenge_backs c' (aq_id r) (decision_event_of p b sf))"
proof -
  have "evolves (al_challenges st) (al_challenges st1) \<and> (x = Inr () \<longrightarrow> dp_authMethod p = Some Passkey \<longrightarrow>
      (\<exists>c\<in>set (al_challenges st). pk_consumed_at c = None \<and> pk_id c = js_lower (the (dp_challengeId p)) \<and>
        (\<exists>c'\<in>set (al_challenges st1). challenge_backs c' (aq_id r) (decision_event_of p b sf))))"
  proof (cases "dp_authMethod p = Some Passkey \<and> x = Inr ()")
    case True
    with assms(2) obtain c where c: "readChallenge ch (the (dp_challengeId p)) st = Some c" "pk_verified_at c \<noteq> None"
      "pk_consumed_at c = None" "Some (pk_presented_digest c) = dp_presentedDigest p"
      "assertExpectation (aq_id r) (drop 5 (dp_decidedBy p)) (dp_decision p) (ae_now env) c"
      "truthy_opt (dp_challengeId p)" "take 5 (dp_decidedBy p) = ''user:''"
      and st1: "st1 = put_challenge (c\<lparr>pk_consumed_at := Some (ae_now env)\<rparr>) st"
      by (auto simp: settlePasskeyDecisionProof_def consumeApprovalPasskeyChallenge_def split: if_splits option.splits)
    note cin = read_challengeD [OF c(1)]
    with assms(1) have ok: "challenge_ok c" by (auto simp: challenges_ok_def list_all_iff)
    with c(2,5) have "challenge_ok (c\<lparr>pk_consumed_at := Some (ae_now env)\<rparr>)"
      by (auto simp: challenge_ok_def assertExpectation_def split: option.splits)
    then have e: "evolves (al_challenges st) (al_challenges st1)" "c\<lparr>pk_consumed_at := Some (ae_now env)\<rparr> \<in> set (al_challenges st1)"
      unfolding st1 using cin by (auto intro!: put_challenge_evolves [OF assms(1), of c] simp: same_challenge_def)
    have "dp_decidedBy p = ''user:'' @ drop 5 (dp_decidedBy p)" using c(7) by (metis append_take_drop_id)
    then have "challenge_backs (c\<lparr>pk_consumed_at := Some (ae_now env)\<rparr>) (aq_id r) (decision_event_of p b sf)"
      using c cin ok by (auto simp: challenge_backs_def decision_event_of_def assertExpectation_def challenge_ok_def truthy_opt_def
          split: option.splits)
    with e cin c(3) show ?thesis by blast
  next
    case False
    with assms(2) have "st1 = st"
      by (auto simp: settlePasskeyDecisionProof_def consumeApprovalPasskeyChallenge_def split: if_splits option.splits)
    with False assms(1) evolves_refl show ?thesis by auto
  qed
  then show "evolves (al_challenges st) (al_challenges st1)"
    "x = Inr () \<Longrightarrow> dp_authMethod p = Some Passkey \<Longrightarrow>
      \<exists>c\<in>set (al_challenges st). pk_consumed_at c = None \<and> pk_id c = js_lower (the (dp_challengeId p)) \<and>
        (\<exists>c'\<in>set (al_challenges st1). challenge_backs c' (aq_id r) (decision_event_of p b sf))"
    by blast+
qed

lemma settled_first:
  assumes "check_decision env ch r p st = (x, st1)"
  shows "al_challenges st1 = al_challenges st \<or>
    (\<exists>s y. settlePasskeyDecisionProof env ch r p st = (y, s) \<and> al_challenges st1 = al_challenges s)"
  using assms unfolding check_decision_def
  by (auto dest!: approving_checks_frame split: if_splits sum.splits prod.splits option.splits)

lemma decided_settled:
  assumes "check_decision env ch r p st = (Inr z, st1)"
  shows "\<exists>s. settlePasskeyDecisionProof env ch r p st = (Inr (), s) \<and> al_challenges st1 = al_challenges s"
  using assms unfolding check_decision_def
  by (auto dest!: approving_checks_frame split: if_splits sum.splits prod.splits option.splits)

lemma check_evolves:
  assumes "challenges_ok (al_challenges st)" and "check_decision env ch r p st = (x, st1)"
  shows "evolves (al_challenges st) (al_challenges st1)"
  using settled_first [OF assms(2)] settle_evolves(1) [OF assms(1)] evolves_refl [OF assms(1)] by metis

lemma passkeys_decided:
  assumes "passkeys_ok st" and "check_decision env ch r p st = (Inr (b, sf, key), st1)"
    and "al_challenges st' = al_challenges st1"
    and "al_events st' = al_events st @ evs @ EvDecided (aq_id r) (decision_event_of p b sf) # evs'"
    and "list_all undecided_event evs" "list_all undecided_event evs'"
  shows "passkeys_ok st'"
proof -
  let ?d = "decision_event_of p b sf"
  have ok: "challenges_ok (al_challenges st)" "list_all (decision_backed (al_challenges st)) (al_events st)"
    "distinct (passkey_uses (al_events st))" using assms(1) by (simp_all add: passkeys_ok_def)
  have e: "evolves (al_challenges st) (al_challenges st')" using check_evolves [OF ok(1) assms(2)] assms(3) by simp
  obtain s where s: "settlePasskeyDecisionProof env ch r p st = (Inr (), s)" "al_challenges s = al_challenges st'"
    using decided_settled [OF assms(2)] assms(3) by auto
  have new: "decision_backed (al_challenges st') (EvDecided (aq_id r) ?d) \<and>
      (de_authMethod ?d = Some Passkey \<longrightarrow> js_lower (the (de_challengeId ?d)) \<notin> set (passkey_uses (al_events st)))"
  proof (cases "dp_authMethod p = Some Passkey")
    case True
    then obtain c c' where c: "c \<in> set (al_challenges st)" "pk_consumed_at c = None" "pk_id c = js_lower (the (dp_challengeId p))"
      and c': "c' \<in> set (al_challenges st')" "challenge_backs c' (aq_id r) ?d"
      using settle_evolves(2) [OF ok(1) s(1) refl True, of b sf] s(2) by auto
    have "de_challengeId ?d = dp_challengeId p"
      using c'(2) by (auto simp: challenge_backs_def decision_event_of_def split: if_splits)
    moreover have "w = c" if "w \<in> set (al_challenges st)" "pk_id w = pk_id c" for w
      using ok(1) that c(1) by (auto simp: challenges_ok_def distinct_map inj_on_def)
    ultimately have "js_lower (the (de_challengeId ?d)) \<notin> set (passkey_uses (al_events st))"
      using uses_backed [OF ok(2)] c(2,3) by force
    with c' show ?thesis by (auto simp: list_ex_iff)
  qed (simp add: decision_event_of_def)
  have old: "list_all (decision_backed (al_challenges st')) (al_events st)"
    using ok(2) backed_later [OF _ e] by (auto simp: list_all_iff)
  show ?thesis
    unfolding passkeys_ok_def
    using old new ok(3) e undecided_events [OF assms(5)] undecided_events [OF assms(6)]
    by (auto simp: assms(4) evolves_def)
qed

lemma passkeys_change:
  assumes "passkeys_ok st" and "change env st st'"
  shows "passkeys_ok st'"
proof -
  have ok: "challenges_ok (al_challenges st)" using assms(1) by (simp add: passkeys_ok_def)
  note same = passkeys_quiet [OF assms(1), of st', OF _ _ neutral_undecided]
  from assms(2) show ?thesis
  proof (cases rule: change.cases)
    case (decide r p ch b sf key st1 u)
    obtain evs where evs: "al_events st1 = al_events st @ evs" "list_all neutral evs"
      using check_decisionD(1) [OF decide(4)] by blast
    obtain evs' where "al_events st' = al_events st @ evs @ EvDecided (aq_id r) (decision_event_of p b sf) # evs'" "list_all neutral evs'"
      using write_cache_events [of env u p key "log_event (EvDecided (aq_id r) (decision_event_of p b sf)) (put_request u st1)"] evs(1) decide(1)
      by auto
    then show ?thesis
      using passkeys_decided [OF assms(1) decide(4)] decide(1) evs(2) neutral_undecided by simp
  next
    case (refused ch r p e)
    then show ?thesis using check_evolves [OF ok refused] check_decisionD(1) [OF refused] same by blast
  next
    case (issue r ch d m s i res)
    then show ?thesis using issue_evolves [OF ok issue(3,1)] challenge_ops_frame(1) [OF issue(1)] same [of "[]"] by simp
  next
    case (claim_challenge ch c i m d res)
    then show ?thesis using claim_evolves [OF ok claim_challenge] challenge_ops_frame(2) [OF claim_challenge] same [of "[]"] by simp
  next
    case (verify_challenge c k res)
    then show ?thesis using verify_evolves [OF ok verify_challenge] challenge_ops_frame(3) [OF verify_challenge] same [of "[]"] by simp
  next
    case (move r u ev)
    then show ?thesis using moves_undecided [of env r u ev] evolves_refl [OF ok] passkeys_quiet [OF assms(1), of st' "[ev]"] by simp
  next
    case (revoked r u i who)
    then show ?thesis using evolves_refl [OF ok] passkeys_quiet [OF assms(1), of st' "[EvRevoked i who]"] by simp
  next
    case (new i p ch)
    then show ?thesis using evolves_refl [OF ok] same [of "[EvRequested i (cp_requestedBy p)]"] by simp
  next
    case (auto_approved i who)
    then show ?thesis using evolves_refl [OF ok] same [of "[EvAutoApproved i who]"] by simp
  qed (use evolves_refl [OF ok] same [of "[]"] in simp_all)
qed

lemma empty_passkeys: "passkeys_ok empty_approvals"
  by (simp add: passkeys_ok_def empty_approvals_def challenges_ok_def)

text \<open>C29. A passkey challenge serves one decision: in every history, each decision by passkey in the log has a challenge
  that was claimed, verified and used up, for the same member, request and decision and for the digest that the decision
  recorded as shown; and no two decisions share a challenge.\<close>

theorem passkey_challenges_serve_one_decision:
  assumes "approval_reachable E st"
  shows "distinct (passkey_uses (al_events st)) \<and> list_all (decision_backed (al_challenges st)) (al_events st)"
proof -
  have "passkeys_ok st"
    using assms by (rule reachable_invariant [where I = passkeys_ok]) (auto intro: passkeys_change empty_passkeys)
  then show ?thesis by (simp add: passkeys_ok_def)
qed

end
