(* ===== verification/Approval_Runs.thy ===== *)
theory Approval_Runs
  imports Approval_Gate_Props Approval_Veto_Props Approval_Challenge_Props
begin

text \<open>
  Concrete histories of the approval store: a gated operation that a person approves and an agent applies, a request
  that silence approves, a decision signed with a passkey, and a request that one role approves and another rejects.
  They show that the histories the theorems speak of exist, and what the code does where it should not.
\<close>

section \<open>Runs\<close>

text \<open>The state after a sequence of operations, \<open>None\<close> when one of them is not admissible.\<close>

fun check_run :: "(approval_env \<times> approval_op) list \<Rightarrow> approval_state \<Rightarrow> approval_state option" where
  "check_run [] st = Some st"
| "check_run ((env, oper) # ops) st = (if op_ok oper st then check_run ops (run_op env oper st) else None)"

lemma check_run_reachable:
  "approval_reachable E st \<Longrightarrow> list_all E (map fst ops) \<Longrightarrow> check_run ops st = Some st' \<Longrightarrow> approval_reachable E st'"
  by (induction ops st rule: check_run.induct) (auto intro: approval_reachable.step split: if_splits)

lemmas run_reachable = check_run_reachable [OF approval_reachable.start]

section \<open>An environment, an operation and the people\<close>

definition first_id :: ident where
  "first_id = ''00000000-0000-4000-8000-000000000001''"

definition second_id :: ident where
  "second_id = ''00000000-0000-4000-8000-000000000002''"

definition shown_digest :: string where
  "shown_digest = replicate 64 (CHR ''a'')"

definition strict_env :: "ms \<Rightarrow> approval_env" where
  "strict_env now =
    \<lparr>ae_now = now, ae_nfkc = (\<lambda>s. s), ae_recordHash = (\<lambda>r. ''h''), ae_presented = (\<lambda>r. shown_digest), ae_sod = Some True,
     ae_policyMode = Some EnforceMode, ae_envMode = None, ae_policyFloor = (\<lambda>a b. None),
     ae_agentContext = (\<lambda>i. (False, False)), ae_systemRole = ''operator_surface'', ae_visible = (\<lambda>r. True),
     ae_mayBind = (\<lambda>t. True), ae_ownerHash = None, ae_localMinute = (\<lambda>t z. (t div 60000) mod 1440), ae_halted = False\<rparr>"

definition push_policy :: gate_policy where
  "push_policy = \<lparr>gp_requiresApproval = True, gp_missing = [''approval_confirmation''], gp_matchedRuleId = Some ''push'',
     gp_mandatory = False, gp_minAssurance = None\<rparr>"

definition push_gate :: "string \<Rightarrow> gate_params" where
  "push_gate correlation =
    \<lparr>ga_requireApproval = True, ga_operationId = ''git:push'', ga_agentId = ''agent:dev'', ga_correlationId = correlation,
     ga_channel = ''chat'', ga_declaredDomain = None, ga_payloadHash = ''p1'', ga_title = ''push'',
     ga_descriptor = Some (''git:push'', ''repo''), ga_source = None, ga_context = None, ga_kind = None, ga_hasHuman = Some True,
     ga_hasUI = None, ga_nonInteractive = None, ga_enqueueRequest = True, ga_expiresAt = None, ga_inScope = (\<lambda>r. True),
     ga_tenant = None, ga_ownerHash = None, ga_policy = push_policy, ga_charter = CharterNone, ga_rightsEscalate = None\<rparr>"

definition chat_request :: "ident \<Rightarrow> request_ref" where
  "chat_request i = \<lparr>rf_channel = ''chat'', rf_storageChannel = None, rf_requestId = i\<rparr>"

definition human_decision :: "decision \<Rightarrow> string \<Rightarrow> string option \<Rightarrow> decide_params" where
  "human_decision d who asRole =
    \<lparr>dp_decision = d, dp_decidedBy = who, dp_decidedByRole = asRole, dp_authMethod = Some SurfaceSession,
     dp_decidedByType = Some HumanDecider, dp_identitySource = Some ServerResolved, dp_authenticated = Some True,
     dp_payloadHash = None, dp_effectBinding = None, dp_presentedDigest = Some shown_digest, dp_challengeId = None,
     dp_deciderPrincipal = None, dp_note = None, dp_reasonCategory = None, dp_sessionCache = Some (''git:push'', ''repo''),
     dp_changeInstruction = None, dp_expectedRecordHash = None\<rparr>"

section \<open>The runs\<close>

definition push_run :: "(approval_env \<times> approval_op) list" where
  "push_run =
    [(strict_env 1000, OpGate (push_gate ''c1'') first_id),
     (strict_env 2000, OpDecide (chat_request first_id) (human_decision DApproved ''user:alice'' None)),
     (strict_env 3000, OpClaim (chat_request first_id) ''agent:dev'' ''h'' ''k1'')]"

definition pushed :: approval_request where
  "pushed =
    \<lparr>aq_id = first_id, aq_kind = ChannelApproval, aq_storageChannel = ''chat'', aq_channel = ''chat'', aq_correlationId = ''c1'',
     aq_title = ''push'', aq_requestedBy = ''agent:dev'', aq_requestedByContext = None, aq_source = None, aq_requestedAt = 1000,
     aq_tenant = None, aq_ownerHash = None, aq_status = Approved, aq_expiresAt = None, aq_workflow = None,
     aq_accountability = Some (gate_accountability (push_gate ''c1'')), aq_steering = None, aq_veto = None,
     aq_decidedAt = Some 2000, aq_decidedBy = Some ''user:alice'', aq_decidedByType = Some HumanDecider,
     aq_identitySource = Some ServerResolved, aq_authenticated = Some True, aq_authMethod = Some SurfaceSession,
     aq_presentedDigest = Some shown_digest, aq_shortfall = None, aq_changeRequest = None,
     aq_applyClaim = Some \<lparr>cl_claimId = ''k1'', cl_startedAt = 3000, cl_startedBy = ''agent:dev''\<rparr>,
     aq_applyResult = None, aq_revocation = None, aq_consumption = None\<rparr>"

definition alice_decision :: decision_event where
  "alice_decision =
    \<lparr>de_decision = DApproved, de_decidedBy = ''user:alice'', de_decidedByRole = None, de_identitySource = Some ServerResolved,
     de_authMethod = Some SurfaceSession, de_decidedByType = Some HumanDecider, de_authenticated = Some True,
     de_payloadHash = Some ''p1'', de_effectBinding = Some ''git:push'', de_presentedDigest = Some shown_digest,
     de_challengeId = None, de_shortfall = None\<rparr>"

definition alice_entry :: cache_entry where
  "alice_entry =
    \<lparr>ce_key = ''git:push::repo'', ce_requestId = first_id, ce_grantedBy = ''user:alice'', ce_grantedForAgent = ''agent:dev'',
     ce_grantedAt = 2000, ce_storageChannel = ''chat'', ce_expiresAt = None, ce_payloadHash = ''p1'',
     ce_effectBinding = ''git:push'', ce_source = None, ce_tenant = None, ce_ownerHash = None\<rparr>"

definition push_log :: "approval_event list" where
  "push_log = [EvRequested first_id ''agent:dev'', EvDecided first_id alice_decision, EvCacheWritten first_id ''git:push::repo'']"

definition push_state :: approval_state where
  "push_state = \<lparr>al_requests = [pushed], al_events = push_log @ [EvApplyStarted first_id ''k1''],
     al_cache = [(''git:push::repo'', alice_entry)], al_challenges = [], al_scheduled = []\<rparr>"

text \<open>A request that a security and an owner role have to approve; the first approves and seeds the cache, the second
  rejects.\<close>

definition pending_role :: "string \<Rightarrow> role_approval" where
  "pending_role role =
    \<lparr>ap_role = role, ap_status = RolePending, ap_approvedBy = None, ap_approvedAt = None, ap_authMethod = None, ap_note = None,
     ap_reasonCategory = None, ap_decidedByType = None, ap_authenticated = None, ap_payloadHash = None,
     ap_effectBinding = None, ap_identitySource = None\<rparr>"

definition release_request :: create_params where
  "release_request =
    (gate_request (push_gate ''c1'') None)\<lparr>cp_workflow := Some \<lparr>wf_mode = AllRequired, wf_requiredRoles = [''security'', ''owner''],
       wf_approvals = [pending_role ''security'', pending_role ''owner'']\<rparr>\<rparr>"

definition half_run :: "(approval_env \<times> approval_op) list" where
  "half_run =
    [(strict_env 1000, OpCreate release_request first_id),
     (strict_env 2000, OpDecide (chat_request first_id) (human_decision DApproved ''user:alice'' (Some ''security'')))]"

definition rejecting :: decide_params where
  "rejecting = human_decision DRejected ''user:bob'' (Some ''owner'')"

text \<open>A veto window of two minutes.\<close>

definition quiet_window :: veto_window where
  "quiet_window =
    \<lparr>vw_windowMinutes = 2, vw_activeHours = None, vw_deliveryDeadlineAt = At 1800000, vw_deliveredAt = None,
     vw_proceedsAt = None, vw_shadow = False, vw_fallback = False, vw_shadowElapsedAt = None\<rparr>"

definition quiet_request :: create_params where
  "quiet_request = (gate_request (push_gate ''c1'') None)\<lparr>cp_accountability := None, cp_veto := Some quiet_window\<rparr>"

definition quiet_run :: "(approval_env \<times> approval_op) list" where
  "quiet_run =
    [(strict_env 1000, OpCreate quiet_request first_id), (strict_env 60000, OpDelivered ''chat'' first_id None)]"

text \<open>A decision by passkey.\<close>

definition passkey_decision :: decide_params where
  "passkey_decision = (human_decision DApproved ''user:alice'' None)\<lparr>dp_authMethod := Some Passkey,
     dp_challengeId := Some second_id\<rparr>"

definition opened :: approval_request where
  "opened = new_request (strict_env 1000) (gate_request (push_gate ''c1'') None) ''chat'' first_id"

definition issued :: passkey_challenge where
  "issued = \<lparr>pk_id = second_id, pk_request_id = first_id, pk_storage_channel = ''chat'', pk_decision = DApproved,
     pk_presented_digest = shown_digest, pk_member_id = ''alice'', pk_issued_at = 2000, pk_expires_at = 122000,
     pk_claimed_at = Some 2500, pk_verified_at = None, pk_credential_id = None, pk_consumed_at = None\<rparr>"

definition passkey_run :: "(approval_env \<times> approval_op) list" where
  "passkey_run =
    [(strict_env 1000, OpGate (push_gate ''c1'') first_id),
     (strict_env 2000, OpIssue opened ''chat'' DApproved ''alice'' shown_digest second_id),
     (strict_env 2500, OpClaimChallenge ''chat'' second_id first_id ''alice'' DApproved),
     (strict_env 3000, OpVerifyChallenge issued ''cred''),
     (strict_env 3500, OpDecide (chat_request first_id) passkey_decision)]"

text \<open>What the runs come to.\<close>

lemma evaluated_approvals:
  "(check_run push_run empty_approvals = Some push_state) \<and>
   (enforceApprovalGate (strict_env 4000) (push_gate ''c2'') second_id push_state =
   (Inr (gate_approved first_id), recordSessionCacheAutoApproval alice_entry ''agent:dev'' push_state))"
  by code_simp

lemma evaluated_roles:
  "(case check_run half_run empty_approvals of
     None \<Rightarrow> False
   | Some st \<Rightarrow>
       list_all (\<lambda>r. aq_correlationId r \<noteq> ''c2'') (al_requests st) \<and>
       fst (enforceApprovalGate (strict_env 4000) (push_gate ''c2'') second_id st) = Inr (gate_approved first_id) \<and>
       (case decideApprovalRequest (strict_env 3000) (chat_request first_id) rejecting st of
          (Inr u, _) \<Rightarrow> aq_id u = first_id \<and>
            evaluateSeparationOfDuties (strict_env 4000) u (Some (dp_decidedBy rejecting)) (dp_identitySource rejecting) = None
        | _ \<Rightarrow> False)) \<and>
   (case check_run half_run empty_approvals of
     None \<Rightarrow> False
   | Some st \<Rightarrow> list_all (\<lambda>r. awaiting_roles r \<and> map_option wf_mode (aq_workflow r) = Some AllRequired) (al_requests st) \<and>
       (case claimApprovalApply (strict_env 2500) (chat_request first_id) ''agent:dev'' ''h'' ''k1'' st of
          (Inr r, _) \<Rightarrow> aq_applyClaim r \<noteq> None | _ \<Rightarrow> False))"
  by code_simp

lemma evaluated_waits:
  "(case check_run quiet_run empty_approvals of
     None \<Rightarrow> False
   | Some st \<Rightarrow>
      (case fst (tickVetoWindows (strict_env 180000) (Some 180000) None st) of
         Inr res \<Rightarrow> map aq_id (tr_proceeded res) = [first_id] | Inl e \<Rightarrow> False)) \<and>
   (case check_run passkey_run empty_approvals of
     None \<Rightarrow> False | Some st \<Rightarrow> passkey_uses (al_events st) = [second_id])"
  by code_simp

lemmas push_checked = evaluated_approvals [THEN conjunct1]

lemmas second_push = evaluated_approvals [THEN conjunct2]

lemmas role_run = evaluated_roles [THEN conjunct1]

lemmas half_approved_is_applied = evaluated_roles [THEN conjunct2]

lemmas quiet_checked = evaluated_waits [THEN conjunct1]

lemmas passkey_checked = evaluated_waits [THEN conjunct2]

lemma push_envs: "list_all (\<lambda>env. enforcing True env \<and> sod_on (strict_env 0) env) (map fst push_run)"
  by (simp add: push_run_def enforcing_def sod_on_def strict_env_def resolveApprovalAssuranceMode_def)

lemma push_reachable: "approval_reachable (\<lambda>env. enforcing True env \<and> sod_on (strict_env 0) env) push_state"
  by (rule run_reachable [OF push_envs push_checked])

lemma pushed_in: "pushed \<in> set (al_requests push_state)"
  by (simp add: push_state_def)

lemma approvals_are_used_once_witness:
  "\<not> list_ex (claims first_id) push_log \<and> \<not> list_ex (revokes first_id) push_log \<and>
   \<not> (consumes first_id (EvApplyStarted first_id ''k1'') \<and> list_ex (consumes first_id) push_log)"
  by (rule approvals_are_used_once [OF push_reachable, of _ _ "[]"]) (simp_all add: push_state_def)

lemma nobody_approves_their_own_request_witness: "separate_from_requesters (strict_env 0) pushed ''user:alice''"
proof -
  have "approval_reachable (sod_on (strict_env 0)) push_state" using push_reachable by (rule reachable_mono) blast
  moreover have "''user:alice'' \<in> set (approvers pushed)" by (simp add: approvers_def pushed_def)
  ultimately show ?thesis using nobody_approves_their_own_request pushed_in by blast
qed

lemma human_only_approvals_are_proven_witness:
  "\<exists>ds d. decisions first_id (al_events push_state) = ds @ [d] \<and> de_decision d = DApproved \<and>
    aq_decidedBy pushed = Some (de_decidedBy d) \<and> proven_decision (gate_accountability (push_gate ''c1'')) d"
proof -
  have "approval_reachable (enforcing True) push_state" using push_reachable by (rule reachable_mono) blast
  from human_only_approvals_are_proven [OF this pushed_in, of "gate_accountability (push_gate ''c1'')"] show ?thesis
    by (auto simp: pushed_def gate_accountability_def Let_def)
qed

text \<open>A rejection that comes after the approval changes nothing.\<close>

lemma settled_decisions_stand_witness:
  "\<exists>u\<in>set (al_requests (run_op (strict_env 5000)
      (OpDecide (chat_request first_id) (human_decision DRejected ''user:bob'' None)) push_state)). stands pushed u \<and> settled u"
  by (rule settled_decisions_stand [OF push_reachable _ pushed_in])
    (simp_all add: settled_def pushed_def TERMINAL_DECIDED_STATUSES_def awaiting_roles_def approvals_of_def)

lemma effects_pass_only_when_justified_witness:
  "\<exists>r\<in>set (al_requests push_state). gr_requestId (gate_approved first_id) = Some (aq_id r) \<and>
     justifies (strict_env 4000) push_state (push_gate ''c2'') r"
proof -
  have "gr_allowed (gate_approved first_id)" "\<not> passes_unapproved (push_gate ''c2'')" by code_simp+
  then show ?thesis using effects_pass_only_when_justified [OF push_reachable second_push] by blast
qed


section \<open>Two roles\<close>

lemma half_envs: "list_all (\<lambda>env. enforcing True env \<and> sod_on (strict_env 0) env) (map fst half_run)"
  by (simp add: half_run_def enforcing_def sod_on_def strict_env_def resolveApprovalAssuranceMode_def)

text \<open>With separation of duties and the assurance levels enforced: the first role approves for the session, the second
  rejects, and the next operation passes on the rejected request.\<close>

lemma rejection_leaves_the_session_grant_witness:
  "\<exists>st u st'. approval_reachable (\<lambda>env. enforcing True env \<and> sod_on (strict_env 0) env) st \<and>
    decideApprovalRequest (strict_env 3000) (chat_request first_id) rejecting st = (Inr u, st') \<and> aq_status u = Rejected \<and>
    fst (enforceApprovalGate (strict_env 4000) (push_gate ''c2'') second_id st') = Inr (gate_approved (aq_id u))"
proof (cases "check_run half_run empty_approvals")
  case (Some st)
  note r = run_reachable [OF half_envs Some]
  obtain u st' where d: "decideApprovalRequest (strict_env 3000) (chat_request first_id) rejecting st = (Inr u, st')" "aq_id u = first_id"
      "evaluateSeparationOfDuties (strict_env 4000) u (Some (dp_decidedBy rejecting)) (dp_identitySource rejecting) = None"
    and g: "\<forall>q\<in>set (al_requests st). aq_correlationId q \<noteq> ga_correlationId (push_gate ''c2'')"
      "fst (enforceApprovalGate (strict_env 4000) (push_gate ''c2'') second_id st) = Inr (gate_approved (aq_id u))"
    using role_run Some by (auto simp: list_all_iff push_gate_def split: prod.splits sum.splits)
  have p: "dp_decision rejecting = DRejected" by (simp add: rejecting_def human_decision_def)
  have "\<forall>q w. same_fixed q w \<longrightarrow> ae_visible (strict_env 4000) q = ae_visible (strict_env 4000) w" by (simp add: strict_env_def)
  from rejection_leaves_the_session_grant [OF r d(1) p g this] d(3)
  have "aq_status u = Rejected \<and> fst (enforceApprovalGate (strict_env 4000) (push_gate ''c2'') second_id st') = Inr (gate_approved (aq_id u))"
    by blast
  with r d(1) show ?thesis by blast
qed (use role_run in simp)

section \<open>Silence\<close>

definition office_hours :: active_hours where
  "office_hours = \<lparr>ah_start = ''09:00'', ah_end = ''17:00'', ah_timezone = ''UTC''\<rparr>"

lemma veto_deadline_is_exact_witness:
  "next_minute 59 \<in> {59..<59 + MINUTE_MS} \<and>
    (\<exists>x. computeVetoDeadline (strict_env 0) 59 2 (Some office_hours) = Inr x \<and>
      (case x of
         Some t \<Rightarrow> \<exists>n. n \<le> MAX_SCAN_MINUTES \<and> t = next_minute 59 + int n * MINUTE_MS \<and>
           reached_after (strict_env 0) office_hours (next_minute 59) (nat \<lceil>2 :: rat\<rceil>) n
       | None \<Rightarrow> active_minutes (strict_env 0) office_hours (next_minute 59) MAX_SCAN_MINUTES < nat \<lceil>2 :: rat\<rceil>))"
  by (rule veto_deadline_is_exact) code_simp

lemma silence_approves_only_elapsed_windows_witness:
  "\<exists>st res u. tr_proceeded res = [u] \<and> aq_id u = first_id \<and> approved_by_silence (strict_env 180000) 180000 u \<and>
     fst (tickVetoWindows (strict_env 180000) (Some 180000) None st) = Inr res"
proof (cases "check_run quiet_run empty_approvals")
  case (Some st)
  have "list_all (same_clock (strict_env 180000)) (map fst quiet_run)"
    by (simp add: quiet_run_def same_clock_def strict_env_def)
  from run_reachable [OF this Some] have r: "approval_reachable (same_clock (strict_env 180000)) st" .
  from quiet_checked Some obtain res st'
    where t: "tickVetoWindows (strict_env 180000) (Some 180000) None st = (Inr res, st')" "map aq_id (tr_proceeded res) = [first_id]"
    by (cases "tickVetoWindows (strict_env 180000) (Some 180000) None st") (auto split: sum.splits)
  then obtain u where u: "tr_proceeded res = [u]" "aq_id u = first_id" by auto
  with silence_approves_only_elapsed_windows [OF r t(1), of u] have "approved_by_silence (strict_env 180000) 180000 u" by simp
  with u t(1) show ?thesis by (intro exI [of _ st] exI [of _ res] exI [of _ u]) simp
qed (use quiet_checked in simp)

section \<open>A passkey\<close>

lemma passkey_challenges_serve_one_decision_witness:
  "\<exists>st :: approval_state. passkey_uses (al_events st) = [second_id] \<and> list_all (decision_backed (al_challenges st)) (al_events st)"
proof (cases "check_run passkey_run empty_approvals")
  case (Some st)
  have "list_all (\<lambda>env. True) (map fst passkey_run)" by (simp add: list_all_iff)
  from passkey_challenges_serve_one_decision [OF run_reachable [OF this Some]] passkey_checked Some
  show ?thesis by - (rule exI [of _ st], simp)
qed (use passkey_checked in simp)

end
