(* ===== verification/Charter_Target.thy ===== *)
theory Charter_Target
  imports Json
begin

text \<open>
  The exact external operations an accountability charter may delegate, \<open>parseExternalOperationGrant\<close>,
  \<open>parseExternalOperationGrants\<close> and \<open>externalOperationGrantMatches\<close> of
  \<open>src/libs/core/governance/external-operation-target.ts\<close>. A grant names an operation and its target: a
  repository with a branch or a tree of branches (\<open>feat/*\<close>), a web origin, or one literal statement about a provider.

  The URL parser of the platform is a parameter: from a text to the parts of the address, or nothing where it
  throws, as is the decimal text of a number. A parsed grant keeps its fields in the order the code writes them. Each
  operation builds its target from the effect it is about to have, \<open>buildExternalOperationTarget\<close>.
\<close>

section \<open>Addresses and branches\<close>

record url_parts =
  up_protocol :: string
  up_username :: string
  up_password :: string
  up_search :: string
  up_hash :: string
  up_origin :: string
  up_host :: string
  up_pathname :: string

type_synonym url_parser = "string \<Rightarrow> url_parts option"

definition ends_with :: "string \<Rightarrow> string \<Rightarrow> bool" where
  "ends_with suffix s = (length suffix \<le> length s \<and> drop (length s - length suffix) s = suffix)"

definition starts_with :: "string \<Rightarrow> string \<Rightarrow> bool" where
  "starts_with p s = (take (length p) s = p)"

definition strip_end :: "string \<Rightarrow> string \<Rightarrow> string" where
  "strip_end suffix s = (if ends_with suffix s then take (length s - length suffix) s else s)"

definition strip_start :: "string \<Rightarrow> string \<Rightarrow> string" where
  "strip_start p s = (if starts_with p s then drop (length p) s else s)"

definition is_slug_char :: "char \<Rightarrow> bool" where
  "is_slug_char c =
    (let n = of_char c :: nat
     in (65 \<le> n \<and> n \<le> 90) \<or> (97 \<le> n \<and> n \<le> 122) \<or> (48 \<le> n \<and> n \<le> 57) \<or> c \<in> {CHR ''_'', CHR ''.'', CHR ''-''})"

text \<open>A slash, slug characters, a slash and slug characters.\<close>

definition repository_path :: "string \<Rightarrow> bool" where
  "repository_path s =
    (case s of [] \<Rightarrow> False
     | c # cs \<Rightarrow> c = CHR ''/'' \<and>
         (let owner = takeWhile (\<lambda>d. d \<noteq> CHR ''/'') cs; rest = dropWhile (\<lambda>d. d \<noteq> CHR ''/'') cs
          in owner \<noteq> [] \<and> list_all is_slug_char owner \<and> length rest > 1 \<and> list_all is_slug_char (tl rest)))"

definition plain_https :: "url_parts \<Rightarrow> bool" where
  "plain_https u = (up_protocol u = ''https:'' \<and> up_username u = [] \<and> up_password u = [] \<and> up_search u = [] \<and> up_hash u = [])"

definition normalizeRepositoryUrl :: "url_parser \<Rightarrow> string \<Rightarrow> string option" where
  "normalizeRepositoryUrl parse target =
    (case parse target of
       None \<Rightarrow> None
     | Some u \<Rightarrow>
         if \<not> plain_https u then None
         else
           (let pathname = strip_end ''/'' (strip_end ''.git'' (up_pathname u))
            in if repository_path pathname then Some (up_origin u @ pathname) else None))"

definition normalizeOrigin :: "url_parser \<Rightarrow> string \<Rightarrow> string option" where
  "normalizeOrigin parse target =
    (case parse target of
       None \<Rightarrow> None
     | Some u \<Rightarrow> if \<not> plain_https u then None else if up_origin u = target then Some (up_origin u) else None)"

definition bad_branch_char :: "char \<Rightarrow> bool" where
  "bad_branch_char c = (is_js_space c \<or> c \<in> {CHR ''^'', CHR ''~'', CHR '':'', CHR ''?'', CHR ''['', CHR '']'', char_of (92 :: nat)})"

definition normalizeBranch :: "string \<Rightarrow> string option" where
  "normalizeBranch raw =
    (let branch = strip_start ''refs/heads/'' (js_trim raw)
     in if branch = [] \<or> CHR ''*'' \<in> set branch \<or> list_ex bad_branch_char branch then None else Some branch)"

text \<open>A trailing run of wildcards becomes one.\<close>

definition collapse_wildcards :: "string \<Rightarrow> string" where
  "collapse_wildcards s =
    (let kept = rev (dropWhile (\<lambda>c. c = CHR ''*'') (rev s)) in if length kept < length s then kept @ ''*'' else s)"

definition normalizeBranchPattern :: "string \<Rightarrow> string option" where
  "normalizeBranchPattern raw =
    (let canonical = collapse_wildcards (strip_start ''refs/heads/'' (js_trim raw)); prefix = butlast canonical
     in if length canonical < 3 \<or> \<not> ends_with ''*'' canonical then None
        else if \<not> ends_with ''/'' prefix \<or> CHR ''*'' \<in> set prefix \<or> list_ex bad_branch_char prefix then None
        else Some canonical)"

section \<open>Grants\<close>

text \<open>The target of an effect, \<open>JUndef\<close> where the effect is not one a charter may delegate.\<close>

type_synonym target_builder = "url_parser \<Rightarrow> (rat \<Rightarrow> string) \<Rightarrow> json \<Rightarrow> json"

definition privateVisibility :: "json \<Rightarrow> (string \<times> json) list" where
  "privateVisibility effect =
    (if jget effect ''repository_visibility'' = JStr ''private'' then [(''visibility'', JStr ''private'')] else [])"

text \<open>The address of a repository record that names its own host and path.\<close>

definition repository_address :: "url_parser \<Rightarrow> json \<Rightarrow> string option" where
  "repository_address parse repository =
    (case jget repository ''url'' of
       JStr text \<Rightarrow>
         (case parse text of
            None \<Rightarrow> None
          | Some u \<Rightarrow>
              if JStr (up_host u) \<noteq> jget repository ''host'' \<or>
                 JStr (strip_end ''/'' (strip_start ''/'' (up_pathname u))) \<noteq> jget repository ''slug'' then None
              else Some (up_origin u @ strip_end ''/'' (up_pathname u)))
     | _ \<Rightarrow> None)"

definition body_source_ok :: "(rat \<Rightarrow> string) \<Rightarrow> json \<Rightarrow> bool" where
  "body_source_ok n effect =
    (let tier = jget effect ''body_source_tier''; tenant = jget effect ''body_source_tenant''
     in js_string n tier \<in> set [''public'', ''inline'', ''personal'', ''confidential''] \<and>
        (tier = JStr ''confidential'' \<longrightarrow> (case tenant of JStr t \<Rightarrow> t \<noteq> [] | _ \<Rightarrow> False)) \<and>
        (tier \<noteq> JStr ''confidential'' \<longrightarrow> tenant = JUndef))"

definition pr_create_target :: target_builder where
  "pr_create_target parse n effect =
    (if \<not> body_source_ok n effect then JUndef
     else
       (case repository_address parse (jget effect ''repository'') of
          None \<Rightarrow> JUndef
        | Some r \<Rightarrow> JObj ([(''operation_id'', JStr ''vcs:pr_create''), (''repository'', JStr r)] @ privateVisibility effect)))"

definition pr_merge_target :: target_builder where
  "pr_merge_target parse n effect =
    (case jget effect ''baseRefName'' of
       JStr base \<Rightarrow>
         (case repository_address parse (jget effect ''repository'') of
            None \<Rightarrow> JUndef
          | Some r \<Rightarrow>
              JObj ([(''operation_id'', JStr ''vcs:pr_merge''), (''repository'', JStr r), (''branch'', JStr base)] @
                privateVisibility effect))
     | _ \<Rightarrow> JUndef)"

text \<open>\<open>replace(/:/, '/')\<close>.\<close>

fun first_colon_to_slash :: "string \<Rightarrow> string" where
  "first_colon_to_slash [] = []"
| "first_colon_to_slash (c # cs) = (if c = CHR '':'' then CHR ''/'' # cs else c # first_colon_to_slash cs)"

definition https_address :: "string \<Rightarrow> string" where
  "https_address raw =
    (if starts_with ''git@'' raw then ''https://'' @ first_colon_to_slash (drop 4 raw)
     else if starts_with ''ssh://'' raw then ''https://'' @ strip_start ''git@'' (drop 6 raw)
     else raw)"

definition normalizeRepositoryTarget :: "url_parser \<Rightarrow> string \<Rightarrow> string option" where
  "normalizeRepositoryTarget parse raw =
    (case parse (https_address raw) of
       None \<Rightarrow> None
     | Some u \<Rightarrow> Some (up_origin u @ strip_end ''/'' (strip_end ''.git'' (up_pathname u))))"

definition push_target :: target_builder where
  "push_target parse n effect =
    (case (jget effect ''url'', jget effect ''destination'') of
       (JStr address, JStr destination) \<Rightarrow>
         (case (normalizeRepositoryTarget parse address, normalizeBranch destination) of
            (Some r, Some b) \<Rightarrow>
              if r = [] then JUndef
              else JObj ([(''operation_id'', JStr ''vcs:push''), (''repository'', JStr r), (''branch'', JStr b)] @
                privateVisibility effect)
          | _ \<Rightarrow> JUndef)
     | _ \<Rightarrow> JUndef)"

definition buildBrowserNavigationTarget :: "string \<Rightarrow> target_builder" where
  "buildBrowserNavigationTarget operation parse n effect =
    (if jget effect ''navigation_confinement'' \<noteq> JStr ''isolated-public-read-v1'' then JUndef
     else
       (case jget (jget effect ''params'') ''url'' of
          JStr address \<Rightarrow>
            (case parse address of
               None \<Rightarrow> JUndef
             | Some u \<Rightarrow>
                 if plain_https u then JObj [(''operation_id'', JStr operation), (''origin'', JStr (up_origin u))] else JUndef)
        | _ \<Rightarrow> JUndef))"

definition claim_fields :: "string list" where
  "claim_fields = [''tenant_slug'', ''provider'', ''training_use'', ''plan'', ''basis'', ''attested_by'']"

definition trimmed_field :: "json \<Rightarrow> json" where
  "trimmed_field v = (case v of JStr s \<Rightarrow> JStr (js_trim s) | _ \<Rightarrow> v)"

definition attest_target :: target_builder where
  "attest_target parse n effect =
    (let claim = map (\<lambda>k. (k, trimmed_field (jget effect k))) claim_fields
     in if jget effect ''training_use'' \<noteq> JStr ''none'' then JUndef
        else if list_ex (\<lambda>(k, v). case v of JStr s \<Rightarrow> s = [] | _ \<Rightarrow> True) claim then JUndef
        else JObj ((''operation_id'', JStr ''tenant:attest_provider'') # claim))"

record target_spec =
  ts_fields :: "string list"
  ts_optionalFields :: "string list"
  ts_requiredOneOf :: "string list option"
  ts_buildTarget :: target_builder
  ts_reputational_class :: string

definition branch_spec :: "target_builder \<Rightarrow> target_spec" where
  "branch_spec build = \<lparr>ts_fields = [''repository''], ts_optionalFields = [''branch'', ''branch_pattern'', ''visibility''],
     ts_requiredOneOf = Some [''branch'', ''branch_pattern''], ts_buildTarget = build, ts_reputational_class = ''A''\<rparr>"

definition origin_spec :: "string \<Rightarrow> target_spec" where
  "origin_spec operation = \<lparr>ts_fields = [''origin''], ts_optionalFields = [], ts_requiredOneOf = None,
     ts_buildTarget = buildBrowserNavigationTarget operation, ts_reputational_class = ''B''\<rparr>"

definition EXTERNAL_OPERATION_DELEGATION :: "(string \<times> target_spec) list" where
  "EXTERNAL_OPERATION_DELEGATION =
    [(''vcs:pr_create'', \<lparr>ts_fields = [''repository''], ts_optionalFields = [''visibility''], ts_requiredOneOf = None,
        ts_buildTarget = pr_create_target, ts_reputational_class = ''B''\<rparr>),
     (''vcs:pr_merge'', branch_spec pr_merge_target),
     (''vcs:push'', branch_spec push_target),
     (''browser:goto'', origin_spec ''browser:goto''),
     (''browser:open_tab'', origin_spec ''browser:open_tab''),
     (''tenant:attest_provider'',
        \<lparr>ts_fields = [''attested_by'', ''basis'', ''plan'', ''provider'', ''tenant_slug'', ''training_use''],
         ts_optionalFields = [], ts_requiredOneOf = None, ts_buildTarget = attest_target, ts_reputational_class = ''A''\<rparr>)]"

definition buildExternalOperationTarget :: "string \<Rightarrow> target_builder" where
  "buildExternalOperationTarget operation parse n effect =
    (case map_of EXTERNAL_OPERATION_DELEGATION operation of
       None \<Rightarrow> JUndef
     | Some spec \<Rightarrow> ts_buildTarget spec parse n effect)"

record op_grant =
  og_operation :: string
  og_fields :: "(string \<times> string) list"

text \<open>The value of a field as the parser accepts it: trimmed text, with a wildcard only in a branch pattern.\<close>

definition raw_field_ok :: "string \<Rightarrow> json \<Rightarrow> bool" where
  "raw_field_ok field v =
    (case v of
       JUndef \<Rightarrow> True
     | JStr s \<Rightarrow> s = js_trim s \<and> (field = ''branch_pattern'' \<or> CHR ''*'' \<notin> set s)
     | _ \<Rightarrow> False)"

definition normalize_field :: "url_parser \<Rightarrow> string \<Rightarrow> string \<Rightarrow> string option" where
  "normalize_field parse field raw =
    (if field = ''visibility'' then (if raw = ''private'' then Some raw else None)
     else if field = ''repository'' then normalizeRepositoryUrl parse raw
     else if field = ''branch'' then normalizeBranch raw
     else if field = ''branch_pattern'' then normalizeBranchPattern raw
     else if field = ''origin'' then normalizeOrigin parse raw
     else Some raw)"

text \<open>The normalized fields that are present; nothing when one of them fails or is empty.\<close>

fun normalize_fields :: "url_parser \<Rightarrow> json \<Rightarrow> string list \<Rightarrow> (string \<times> string) list option" where
  "normalize_fields parse value [] = Some []"
| "normalize_fields parse value (f # fs) =
    (case jget value f of
       JStr raw \<Rightarrow>
         (case normalize_field parse f raw of
            None \<Rightarrow> None
          | Some v \<Rightarrow> if v = [] then None else map_option (Cons (f, v)) (normalize_fields parse value fs))
     | _ \<Rightarrow> normalize_fields parse value fs)"

definition is_text :: "json \<Rightarrow> bool" where
  "is_text v = (case v of JStr _ \<Rightarrow> True | _ \<Rightarrow> False)"

definition grant_shape_ok :: "target_spec \<Rightarrow> (string \<times> json) list \<Rightarrow> bool" where
  "grant_shape_ok spec kvs =
    (list_all (\<lambda>(k, v). k \<in> set (''operation_id'' # ts_fields spec @ ts_optionalFields spec)) kvs \<and>
     list_all (\<lambda>f. f \<in> set (map fst kvs)) (ts_fields spec) \<and>
     (case ts_requiredOneOf spec of
        None \<Rightarrow> True
      | Some fs \<Rightarrow> length (filter (\<lambda>f. is_text (jget (JObj kvs) f)) fs) = 1) \<and>
     list_all (\<lambda>f. raw_field_ok f (jget (JObj kvs) f)) (ts_fields spec @ ts_optionalFields spec))"

definition parseExternalOperationGrant :: "url_parser \<Rightarrow> json \<Rightarrow> op_grant option" where
  "parseExternalOperationGrant parse raw =
    (case raw of
       JObj kvs \<Rightarrow>
         (case jget raw ''operation_id'' of
            JStr op \<Rightarrow>
              (case map_of EXTERNAL_OPERATION_DELEGATION op of
                 None \<Rightarrow> None
               | Some spec \<Rightarrow>
                   if \<not> grant_shape_ok spec kvs then None
                   else
                     (case normalize_fields parse raw (ts_fields spec @ ts_optionalFields spec) of
                        None \<Rightarrow> None
                      | Some fs \<Rightarrow>
                          if op = ''tenant:attest_provider'' \<and> map_of fs ''training_use'' \<noteq> Some ''none'' then None
                          else Some \<lparr>og_operation = op, og_fields = fs\<rparr>))
          | _ \<Rightarrow> None)
     | _ \<Rightarrow> None)"

text \<open>A parsed grant as a value again.\<close>

definition grant_json :: "op_grant \<Rightarrow> json" where
  "grant_json g = JObj ((''operation_id'', JStr (og_operation g)) # map (\<lambda>(k, v). (k, JStr v)) (og_fields g))"

fun all_some :: "'a option list \<Rightarrow> 'a list option" where
  "all_some [] = Some []"
| "all_some (x # xs) = (case x of None \<Rightarrow> None | Some a \<Rightarrow> map_option (Cons a) (all_some xs))"

definition parseExternalOperationGrants :: "url_parser \<Rightarrow> json \<Rightarrow> op_grant list option" where
  "parseExternalOperationGrants parse raw =
    (case raw of
       JArr vs \<Rightarrow>
         if length vs > 32 then None
         else
           (case all_some (map (parseExternalOperationGrant parse) vs) of
              None \<Rightarrow> None
            | Some gs \<Rightarrow> if distinct gs then Some gs else None)
     | _ \<Rightarrow> None)"

definition pattern_prefix :: "string \<Rightarrow> string" where
  "pattern_prefix p = butlast p"

text \<open>Whether one field of a grant covers the fields of a target.\<close>

definition field_covered :: "(string \<times> string) list \<Rightarrow> string \<times> string \<Rightarrow> bool" where
  "field_covered target kv =
    (case kv of (key, value) \<Rightarrow>
       if key = ''branch_pattern'' then
         (case map_of target ''branch'' of
            Some b \<Rightarrow> starts_with (pattern_prefix value) b
          | None \<Rightarrow>
              (case map_of target ''branch_pattern'' of
                 Some p \<Rightarrow> starts_with (pattern_prefix value) (pattern_prefix p)
               | None \<Rightarrow> False))
       else map_of target key = Some value)"

definition grant_covers :: "op_grant \<Rightarrow> op_grant \<Rightarrow> bool" where
  "grant_covers a b = (og_operation a = og_operation b \<and> list_all (field_covered (og_fields b)) (og_fields a))"

definition externalOperationGrantMatches :: "url_parser \<Rightarrow> json \<Rightarrow> json \<Rightarrow> bool" where
  "externalOperationGrantMatches parse grant target =
    (case (parseExternalOperationGrant parse grant, parseExternalOperationGrant parse target) of
       (Some a, Some b) \<Rightarrow> grant_covers a b | _ \<Rightarrow> False)"

section \<open>Covering is transitive\<close>

text \<open>Covering passes on along a chain of delegations.\<close>

lemma starts_with_iff: "starts_with p s \<longleftrightarrow> (\<exists>r. s = p @ r)"
  by (metis append_take_drop_id starts_with_def append_eq_conv_conj)

lemma starts_with_trans: "starts_with p q \<Longrightarrow> starts_with q s \<Longrightarrow> starts_with p s"
  by (auto simp: starts_with_iff)

lemma grant_covers_trans:
  assumes ab: "grant_covers a b" and bc: "grant_covers b c"
  shows "grant_covers a c"
proof -
  have b: "field_covered (og_fields c) (k, v)" if "map_of (og_fields b) k = Some v" for k v
    using bc map_of_SomeD [OF that] by (auto simp: grant_covers_def list_all_iff)
  have "field_covered (og_fields c) (k, v)" if "(k, v) \<in> set (og_fields a)" for k v
  proof -
    have "field_covered (og_fields b) (k, v)" using ab that by (auto simp: grant_covers_def list_all_iff)
    then show ?thesis using b [of "''branch''"] b [of "''branch_pattern''"] b [of k v]
      by (auto simp: field_covered_def split: if_splits option.splits elim: starts_with_trans)
  qed
  then show ?thesis using ab bc by (auto simp: grant_covers_def list_all_iff)
qed

lemma grant_matches_trans:
  "externalOperationGrantMatches parse a b \<Longrightarrow> externalOperationGrantMatches parse b c \<Longrightarrow>
    externalOperationGrantMatches parse a c"
  by (auto simp: externalOperationGrantMatches_def split: option.splits elim: grant_covers_trans)

section \<open>A push stays in its branches\<close>

lemma starts_with_append [simp]: "starts_with p (p @ s)"
  by (simp add: starts_with_iff)

lemma parsed_operation:
  "parseExternalOperationGrant parse v = Some g \<Longrightarrow> jget v ''operation_id'' = JStr (og_operation g)"
  by (auto simp: parseExternalOperationGrant_def split: json.splits option.splits if_splits)

lemma normalized_field:
  assumes "normalize_fields parse v fs = Some kvs" "distinct fs" "k \<in> set fs" "jget v k = JStr raw"
  shows "map_of kvs k = normalize_field parse k raw"
  using assms
proof (induction fs arbitrary: kvs)
  case (Cons f fs)
  then show ?case by (cases "f = k") (auto split: json.splits option.splits if_splits)
qed simp

lemma absent_field:
  assumes "normalize_fields parse v fs = Some kvs" "(k, x) \<in> set kvs"
  shows "k \<in> set fs \<and> (\<exists>raw. jget v k = JStr raw \<and> normalize_field parse k raw = Some x)"
  using assms
  by (induction fs arbitrary: kvs) (auto split: json.splits option.splits if_splits)

lemma parsed_fields:
  assumes "parseExternalOperationGrant parse v = Some g"
  obtains spec where "map_of EXTERNAL_OPERATION_DELEGATION (og_operation g) = Some spec"
    "normalize_fields parse v (ts_fields spec @ ts_optionalFields spec) = Some (og_fields g)"
  using assms by (auto simp: parseExternalOperationGrant_def split: json.splits option.splits if_splits)

lemma push_spec: "map_of EXTERNAL_OPERATION_DELEGATION ''vcs:push'' = Some (branch_spec push_target)"
  by (simp add: EXTERNAL_OPERATION_DELEGATION_def)

lemma built_push:
  assumes "jget (buildExternalOperationTarget ''vcs:push'' parse n effect) ''operation_id'' = JStr i"
  obtains r b vis destination where
    "buildExternalOperationTarget ''vcs:push'' parse n effect =
      JObj ([(''operation_id'', JStr ''vcs:push''), (''repository'', JStr r), (''branch'', JStr b)] @ vis)"
    "vis = privateVisibility effect" "jget effect ''destination'' = JStr destination" "normalizeBranch destination = Some b"
  using assms
  by (auto simp: buildExternalOperationTarget_def push_spec branch_spec_def push_target_def jget_def [of JUndef]
      split: json.splits option.splits if_splits)

lemma normalized_present:
  "normalize_fields parse v fs = Some kvs \<Longrightarrow> k \<in> set fs \<Longrightarrow> jget v k = JStr raw \<Longrightarrow> \<exists>x. map_of kvs k = Some x"
  by (induction fs arbitrary: kvs) (auto split: json.splits option.splits if_splits)

lemma grant_field:
  assumes "parseExternalOperationGrant parse v = Some g" "map_of EXTERNAL_OPERATION_DELEGATION (og_operation g) = Some spec"
    "distinct (ts_fields spec @ ts_optionalFields spec)" "k \<in> set (ts_fields spec @ ts_optionalFields spec)" "jget v k = JStr raw"
  shows "\<exists>x. map_of (og_fields g) k = Some x \<and> normalize_field parse k raw = Some x"
proof -
  from parsed_fields [OF assms(1)] assms(2)
  have fs: "normalize_fields parse v (ts_fields spec @ ts_optionalFields spec) = Some (og_fields g)" by (metis option.inject)
  from normalized_present [OF fs assms(4,5)] normalized_field [OF fs assms(3-5)] show ?thesis by metis
qed

lemma grant_shape:
  assumes "parseExternalOperationGrant parse v = Some g"
  obtains kvs spec where "v = JObj kvs" "map_of EXTERNAL_OPERATION_DELEGATION (og_operation g) = Some spec" "grant_shape_ok spec kvs"
  using assms by (auto simp: parseExternalOperationGrant_def split: json.splits option.splits if_splits)

text \<open>What a grant for a push says: a repository where the value has one, and a branch or a tree of branches.\<close>

lemma push_grant:
  assumes "parseExternalOperationGrant parse v = Some g" "og_operation g = ''vcs:push''"
  shows "jget v ''repository'' \<noteq> JUndef \<Longrightarrow> \<exists>r. map_of (og_fields g) ''repository'' = Some r"
    and "(\<exists>b. map_of (og_fields g) ''branch'' = Some b) \<or>
      (\<exists>p raw. map_of (og_fields g) ''branch_pattern'' = Some p \<and> normalizeBranchPattern raw = Some p)"
proof -
  obtain kvs where v: "v = JObj kvs" "grant_shape_ok (branch_spec push_target) kvs"
    using grant_shape [OF assms(1)] assms(2) push_spec by (metis option.inject)
  note field = grant_field [OF assms(1), of "branch_spec push_target", unfolded assms(2), OF push_spec]
  have fields: "set (ts_fields (branch_spec push_target) @ ts_optionalFields (branch_spec push_target)) =
      {''repository'', ''branch'', ''branch_pattern'', ''visibility''}"
    "distinct (ts_fields (branch_spec push_target) @ ts_optionalFields (branch_spec push_target))"
    by (auto simp: branch_spec_def)
  show "\<exists>r. map_of (og_fields g) ''repository'' = Some r" if "jget v ''repository'' \<noteq> JUndef"
  proof -
    have "raw_field_ok ''repository'' (jget v ''repository'')" using v by (simp add: grant_shape_ok_def branch_spec_def)
    then obtain raw where "jget v ''repository'' = JStr raw" using \<open>jget v ''repository'' \<noteq> JUndef\<close>
      by (auto simp: raw_field_ok_def split: json.splits)
    with field fields show ?thesis by blast
  qed
  have "\<exists>f raw. f \<in> {''branch'', ''branch_pattern''} \<and> jget v f = JStr raw"
    using v by (auto simp: grant_shape_ok_def branch_spec_def is_text_def split: if_splits json.splits)
  then obtain f raw where f: "f = ''branch'' \<or> f = ''branch_pattern''" "jget v f = JStr raw" by blast
  then have "f \<in> set (ts_fields (branch_spec push_target) @ ts_optionalFields (branch_spec push_target))"
    unfolding fields(1) by blast
  from field [OF fields(2) this f(2)] obtain x where x: "map_of (og_fields g) f = Some x" "normalize_field parse f raw = Some x" by blast
  from f(1) show "(\<exists>b. map_of (og_fields g) ''branch'' = Some b) \<or>
      (\<exists>p raw. map_of (og_fields g) ''branch_pattern'' = Some p \<and> normalizeBranchPattern raw = Some p)"
  proof
    assume "f = ''branch_pattern''"
    then have "normalizeBranchPattern raw = Some x" using x(2) by (simp add: normalize_field_def)
    with x(1) \<open>f = ''branch_pattern''\<close> show ?thesis by blast
  qed (use x(1) in blast)
qed

lemma branch_pattern_ends: "normalizeBranchPattern raw = Some p \<Longrightarrow> ends_with ''/'' (pattern_prefix p)"
  by (auto simp: normalizeBranchPattern_def pattern_prefix_def Let_def split: if_splits)

lemma push_target_fields:
  assumes "parse_target = buildExternalOperationTarget ''vcs:push'' parse n effect"
    and "parseExternalOperationGrant parse parse_target = Some t"
  obtains r b address destination where
    "jget effect ''url'' = JStr address" "normalizeRepositoryTarget parse address = Some r"
    "jget effect ''destination'' = JStr destination" "normalizeBranch destination = Some b" "og_operation t = ''vcs:push''"
    "map_of (og_fields t) ''repository'' = normalizeRepositoryUrl parse r" "map_of (og_fields t) ''branch'' = normalizeBranch b"
    "normalizeBranch b \<noteq> None"
proof -
  have "parse_target \<noteq> JUndef" using assms(2) by (auto simp: parseExternalOperationGrant_def)
  then obtain r b address destination where built:
    "jget effect ''url'' = JStr address" "normalizeRepositoryTarget parse address = Some r"
    "jget effect ''destination'' = JStr destination" "normalizeBranch destination = Some b"
    "parse_target = JObj ([(''operation_id'', JStr ''vcs:push''), (''repository'', JStr r), (''branch'', JStr b)] @ privateVisibility effect)"
    unfolding assms(1) by (auto simp: buildExternalOperationTarget_def push_spec branch_spec_def push_target_def
      split: json.splits option.splits if_splits)
  then have get: "jget parse_target ''operation_id'' = JStr ''vcs:push''" "jget parse_target ''repository'' = JStr r"
    "jget parse_target ''branch'' = JStr b" by (simp_all add: jget_def)
  have op: "og_operation t = ''vcs:push''" using parsed_operation [OF assms(2)] get(1) by simp
  obtain spec where spec: "map_of EXTERNAL_OPERATION_DELEGATION (og_operation t) = Some spec"
    "normalize_fields parse parse_target (ts_fields spec @ ts_optionalFields spec) = Some (og_fields t)"
    using parsed_fields [OF assms(2)] .
  then have "spec = branch_spec push_target" using op push_spec by simp
  with spec(2) have fs: "normalize_fields parse parse_target [''repository'', ''branch'', ''branch_pattern'', ''visibility''] = Some (og_fields t)"
    by (simp add: branch_spec_def)
  have "map_of (og_fields t) ''repository'' = normalizeRepositoryUrl parse r" "map_of (og_fields t) ''branch'' = normalizeBranch b"
    using normalized_field [OF fs _ _ get(2)] normalized_field [OF fs _ _ get(3)] by (simp_all add: normalize_field_def)
  moreover have "normalizeBranch b \<noteq> None"
    using normalized_present [OF fs _ get(3)] calculation(2) by auto
  ultimately show ?thesis using that built(1-4) op by blast
qed

lemma covered_field:
  "grant_covers a t \<Longrightarrow> map_of (og_fields a) k = Some x \<Longrightarrow> field_covered (og_fields t) (k, x)"
  by (auto simp: grant_covers_def list_all_iff dest: map_of_SomeD)

lemma trim_spaceless: "list_all (\<lambda>c. \<not> is_js_space c) s \<Longrightarrow> js_trim s = s"
proof -
  assume s: "list_all (\<lambda>c. \<not> is_js_space c) s"
  have "dropWhile is_js_space t = t" if "list_all (\<lambda>c. \<not> is_js_space c) t" for t
    using that by (cases t) simp_all
  moreover have "list_all (\<lambda>c. \<not> is_js_space c) (rev s)" using s by (simp add: list_all_iff)
  ultimately show ?thesis using s by (simp add: js_trim_def)
qed

lemma normalized_twice:
  assumes "normalizeBranch raw = Some b" and "normalizeBranch b = Some b'"
  shows "b' = strip_start ''refs/heads/'' b"
proof -
  have "list_all (\<lambda>c. \<not> is_js_space c) b"
    using assms(1) by (auto simp: normalizeBranch_def Let_def list_ex_iff list_all_iff bad_branch_char_def split: if_splits)
  then have "js_trim b = b" by (rule trim_spaceless)
  with assms(2) show ?thesis by (simp add: normalizeBranch_def Let_def split: if_splits)
qed

text \<open>C32. A push stays in its branches: a grant that covers the target built from a push names the repository the push
  goes to, and either the compared branch or a tree of branches, whose prefix ends with a slash and begins the compared
  branch. The compared branch is the branch \<open>b\<close> of the push itself, except when the name of that branch
  begins with \<open>refs/heads/\<close>: this is then stripped once more, so that a grant for \<open>main\<close> covers a
  push to the branch \<open>refs/heads/main\<close>.\<close>

theorem pushes_stay_in_the_granted_branches:
  assumes "externalOperationGrantMatches parse grant (buildExternalOperationTarget ''vcs:push'' parse n effect)"
    and "jget grant ''repository'' \<noteq> JUndef"
  shows "\<exists>g address r destination b b'. parseExternalOperationGrant parse grant = Some g \<and> og_operation g = ''vcs:push'' \<and>
    jget effect ''url'' = JStr address \<and> normalizeRepositoryTarget parse address = Some r \<and>
    normalizeRepositoryUrl parse r \<noteq> None \<and> map_of (og_fields g) ''repository'' = normalizeRepositoryUrl parse r \<and>
    jget effect ''destination'' = JStr destination \<and> normalizeBranch destination = Some b \<and>
    b' = strip_start ''refs/heads/'' b \<and> (\<not> starts_with ''refs/heads/'' b \<longrightarrow> b' = b) \<and>
    (map_of (og_fields g) ''branch'' = Some b' \<or>
     (\<exists>p. map_of (og_fields g) ''branch_pattern'' = Some p \<and> ends_with ''/'' (pattern_prefix p) \<and> starts_with (pattern_prefix p) b'))"
proof -
  from assms(1) obtain g t where g: "parseExternalOperationGrant parse grant = Some g" "grant_covers g t"
    "parseExternalOperationGrant parse (buildExternalOperationTarget ''vcs:push'' parse n effect) = Some t"
    by (auto simp: externalOperationGrantMatches_def split: option.splits)
  from push_target_fields [OF refl g(3)] obtain r b address destination where t:
    "jget effect ''url'' = JStr address" "normalizeRepositoryTarget parse address = Some r"
    "jget effect ''destination'' = JStr destination" "normalizeBranch destination = Some b" "og_operation t = ''vcs:push''"
    "map_of (og_fields t) ''repository'' = normalizeRepositoryUrl parse r" "map_of (og_fields t) ''branch'' = normalizeBranch b"
    "normalizeBranch b \<noteq> None" .
  have op: "og_operation g = ''vcs:push''" using g(2) t(5) by (simp add: grant_covers_def)
  note says = push_grant [OF g(1) op]
  note covered = covered_field [OF g(2)]
  obtain x where x: "map_of (og_fields g) ''repository'' = Some x" using says(1) assms(2) by blast
  from covered [OF this] have repository: "normalizeRepositoryUrl parse r = Some x" using t(6) by (simp add: field_covered_def)
  from t(8) obtain b' where b': "normalizeBranch b = Some b'" by blast
  from says(2) have "map_of (og_fields g) ''branch'' = Some b' \<or>
      (\<exists>p. map_of (og_fields g) ''branch_pattern'' = Some p \<and> ends_with ''/'' (pattern_prefix p) \<and> starts_with (pattern_prefix p) b')"
    using covered [of "''branch''"] covered [of "''branch_pattern''"] branch_pattern_ends t(7) b'
    by (auto simp: field_covered_def)
  moreover have "b' = strip_start ''refs/heads/'' b" "\<not> starts_with ''refs/heads/'' b \<longrightarrow> b' = b"
    using normalized_twice [OF t(4) b'] by (simp_all add: strip_start_def)
  ultimately show ?thesis using g(1) op t(1-4) x repository by auto
qed

definition hub_urls :: url_parser where
  "hub_urls text =
    (if text = ''https://h/a/b'' then
       Some \<lparr>up_protocol = ''https:'', up_username = [], up_password = [], up_search = [], up_hash = [], up_origin = ''https://h'',
         up_host = ''h'', up_pathname = ''/a/b''\<rparr>
     else None)"

definition push_effect :: "string \<Rightarrow> json" where
  "push_effect destination = JObj [(''url'', JStr ''git@h:a/b''), (''destination'', JStr destination)]"

definition push_grant_json :: "string \<Rightarrow> string \<Rightarrow> json" where
  "push_grant_json field branch =
    JObj [(''operation_id'', JStr ''vcs:push''), (''repository'', JStr ''https://h/a/b''), (field, JStr branch)]"

lemma pushes_stay_in_the_granted_branches_witness:
  "\<exists>g. parseExternalOperationGrant hub_urls (push_grant_json ''branch_pattern'' ''feat/*'') = Some g \<and>
    og_operation g = ''vcs:push'' \<and> map_of (og_fields g) ''repository'' = normalizeRepositoryUrl hub_urls ''https://h/a/b''"
proof -
  have "externalOperationGrantMatches hub_urls (push_grant_json ''branch_pattern'' ''feat/*'')
      (buildExternalOperationTarget ''vcs:push'' hub_urls (\<lambda>_. []) (push_effect ''refs/heads/feat/x''))"
    by code_simp
  from pushes_stay_in_the_granted_branches [OF this]
  show ?thesis by (auto simp: push_grant_json_def push_effect_def jget_def normalizeRepositoryTarget_def https_address_def
      starts_with_def strip_end_def ends_with_def hub_urls_def)
qed

text \<open>Since the destination is normalized twice, a grant for \<open>main\<close> covers a push to the branch \<open>refs/heads/main\<close>.\<close>

lemma twice_normalized_branch:
  "externalOperationGrantMatches hub_urls (push_grant_json ''branch'' ''main'')
    (buildExternalOperationTarget ''vcs:push'' hub_urls (\<lambda>_. []) (push_effect ''refs/heads/refs/heads/main''))"
  by code_simp

end
