(* ===== verification/Charter_Core.thy ===== *)
theory Charter_Core
  imports Charter_Target Approval_Core
begin

text \<open>
  The decision core of the accountability charter, \<open>src/libs/core/governance/accountability-charter.ts\<close>: a
  standing declaration of an accountable human, who answers, within what envelope (money, data, external effects,
  irreversible actions, decision types, information flow, exact external targets) and up to what loss. An agent that
  acts on behalf of the human, or of a deputy, is allowed inside the charter; outside it the action is denied, and a
  tripwire stops everything.

  Amounts are rational numbers: every amount is finite, and the rounding of floating-point arithmetic is left out.
  The texts of reasons, violations and amendments are constructors. The URL parser of the platform is a parameter.
\<close>

section \<open>Data\<close>

datatype charter_scope = PersonScope | OrgScope string

datatype basis_kind = BasisOwner | BasisOfficer | BasisDelegated | BasisSelf

datatype holder_role = HolderOwner | HolderApprover | HolderOperator | HolderViewer

datatype effect_policy = EffForbid | EffReview | EffAllow

datatype irreversible_policy = IrrForbid | IrrNamed | IrrAllow

datatype data_tier = TierPublic | TierConfidential | TierPersonal

datatype data_mode = ReadMode | WriteMode

datatype reputation = RepA | RepB | RepC | RepD

definition INFORMATION_CATEGORIES :: "string list" where
  "INFORMATION_CATEGORIES = [''routine_business'', ''personal_data'', ''sensitive_business'', ''unknown'']"

definition RECIPIENT_CLASSES :: "string list" where
  "RECIPIENT_CLASSES = [''bound_customer'', ''known_counterparty'', ''approved_vendor'', ''public'', ''unknown'']"

definition EXTERNAL_EFFECT_CLASSES :: "string list" where
  "EXTERNAL_EFFECT_CLASSES = [''send_message_external'', ''publish_public'', ''sign_contract'', ''payment'', ''credential_change'']"

record flow_facts =
  ff_purpose :: string
  ff_recipient_class :: "string option"
  ff_processor_id :: "string option"
  ff_categories :: "string list"
  ff_attachment_count :: rat

record flow_envelope =
  fe_purposes :: "string list"
  fe_recipient_classes :: "string list"
  fe_categories :: "string list"
  fe_max_attachments :: rat
  fe_processor_ids :: "string list option"
  fe_processing_purposes :: "string list option"
  fe_processing_categories :: "string list option"

record money_limits =
  ml_currency :: string
  ml_per_action :: rat
  ml_per_day :: rat
  ml_per_month :: rat

text \<open>A delegated decision type maps to \<open>None\<close> when the file holds no policy name there.\<close>

record envelope =
  en_external_operations :: "json list option"
  en_money :: money_limits
  en_read :: "string list"
  en_write :: "string list"
  en_external_effects :: "(string \<times> effect_policy) list"
  en_irreversible :: irreversible_policy
  en_irreversible_named :: "string list option"
  en_supersedes :: bool
  en_delegated :: "(string \<times> effect_policy option) list"
  en_flow :: "flow_envelope option"

record appetite =
  at_max_loss :: rat
  at_reputation :: reputation
  at_recipients :: rat
  at_systems :: rat
  at_tripwires :: "string list"

record accountable =
  cc_actor :: string
  cc_basis :: basis_kind
  cc_evidence :: "string option"
  cc_accepted :: stamp
  cc_expires :: stamp
  cc_statement :: string
  cc_deputies :: "string list"

record charter =
  ch_id :: string
  ch_replaces :: "string option"
  ch_scope :: charter_scope
  ch_accountable :: accountable
  ch_envelope :: envelope
  ch_appetite :: appetite

record charter_usage =
  us_today :: rat
  us_month :: rat
  us_tripwires :: "string list"

datatype actor_kind = HumanActor | AgentActor | ServiceActor

record actor_ref =
  ar_kind :: actor_kind
  ar_id :: string
  ar_on_behalf :: "string option"

record data_claim =
  dc_tier :: data_tier
  dc_tenant :: "string option"
  dc_mode :: data_mode

record charter_action =
  xa_external_operation :: json
  xa_actor :: actor_ref
  xa_class :: string
  xa_decision_type :: "string option"
  xa_amount :: "rat option"
  xa_currency :: "string option"
  xa_data :: "data_claim option"
  xa_reversible :: bool
  xa_irreversible_name :: "string option"
  xa_loss :: "rat option"
  xa_reputation :: "reputation option"
  xa_recipients :: "rat option"
  xa_systems :: "rat option"
  xa_reviewed :: bool
  xa_flow :: "flow_facts option"

record availability =
  av_accountable :: bool
  av_deputies :: "string list"

datatype flow_violation = FlowNotDelegated | FlowFactsInvalid | FlowMixed | FlowProcessor | FlowProcessingPurpose
  | FlowProcessingCategories "string list" | FlowPurpose | FlowRecipient | FlowAttachments | FlowCategories "string list"

datatype charter_reason = RsNotActive | RsActorIsHuman | RsNotDelegated | RsTripwire string | RsSafeMode | RsTarget
  | RsDecisionForbidden string | RsDecisionReview string | RsCurrency | RsPerAction | RsPerDay | RsPerMonth
  | RsPaymentForbidden | RsEffectForbidden string | RsEffectReview string | RsData string | RsProcessorFacts
  | RsFlow flow_violation | RsFlowMissing | RsIrreversible | RsNotNamed | RsMaxLoss | RsReputation | RsBlast
  | RsWithin | RsNearLimit

datatype amendment = AmDecision string | AmPerAction rat rat | AmPerDay rat rat | AmPerMonth rat rat | AmEffect string
  | AmData data_mode "string list" string | AmIrreversible | AmNamed "string list" string | AmMaxLoss rat rat
  | AmReputation reputation reputation | AmBlast rat rat

datatype decision_kind = DkAllow | DkAllowNotify | DkDeny | DkStop

record charter_decision =
  cd_decision :: decision_kind
  cd_reasons :: "charter_reason list"
  cd_amendment :: "amendment option"
  cd_prefer_reversible :: bool
  cd_money :: rat
  cd_loss :: rat
  cd_responsible :: string
  cd_charter_id :: string

section \<open>Ranks and policies\<close>

definition EFFECT_RANK :: "effect_policy \<Rightarrow> nat" where
  "EFFECT_RANK p = (case p of EffForbid \<Rightarrow> 0 | EffReview \<Rightarrow> 1 | EffAllow \<Rightarrow> 2)"

definition IRREVERSIBLE_RANK :: "irreversible_policy \<Rightarrow> nat" where
  "IRREVERSIBLE_RANK p = (case p of IrrForbid \<Rightarrow> 0 | IrrNamed \<Rightarrow> 1 | IrrAllow \<Rightarrow> 2)"

definition REPUTATION_RANK :: "reputation \<Rightarrow> nat" where
  "REPUTATION_RANK r = (case r of RepA \<Rightarrow> 0 | RepB \<Rightarrow> 1 | RepC \<Rightarrow> 2 | RepD \<Rightarrow> 3)"

definition BASIS_GATED_EFFECTS :: "string list" where
  "BASIS_GATED_EFFECTS = [''sign_contract'', ''payment'']"

definition effectPolicy :: "envelope \<Rightarrow> string \<Rightarrow> effect_policy" where
  "effectPolicy env cls = (case map_of (en_external_effects env) cls of None \<Rightarrow> EffForbid | Some p \<Rightarrow> p)"

definition delegatedDecisionPolicy :: "envelope \<Rightarrow> string \<Rightarrow> effect_policy" where
  "delegatedDecisionPolicy env t =
    (case map_of (en_delegated env) t of Some (Some p) \<Rightarrow> p | _ \<Rightarrow> EffForbid)"

definition dataScopeToken :: "data_tier \<Rightarrow> string option \<Rightarrow> string" where
  "dataScopeToken tier tenant =
    (case tier of
       TierConfidential \<Rightarrow> ''confidential:'' @ (case tenant of None \<Rightarrow> [] | Some t \<Rightarrow> t)
     | TierPublic \<Rightarrow> ''public''
     | TierPersonal \<Rightarrow> ''personal'')"

definition data_tokens :: "envelope \<Rightarrow> data_mode \<Rightarrow> string list" where
  "data_tokens env m = (case m of ReadMode \<Rightarrow> en_read env | WriteMode \<Rightarrow> en_write env)"

definition is_js_integer :: "rat \<Rightarrow> bool" where
  "is_js_integer n \<longleftrightarrow> snd (quotient_of n) = 1"

section \<open>Information flow\<close>

definition listed :: "string list option \<Rightarrow> string \<Rightarrow> bool" where
  "listed xs x = (case xs of None \<Rightarrow> False | Some ys \<Rightarrow> x \<in> set ys)"

definition facts_complete :: "flow_facts \<Rightarrow> bool" where
  "facts_complete f =
    (js_trim (ff_purpose f) \<noteq> [] \<and> ff_categories f \<noteq> [] \<and> is_js_integer (ff_attachment_count f) \<and> 0 \<le> ff_attachment_count f)"

definition processor_violations :: "flow_envelope \<Rightarrow> flow_facts \<Rightarrow> string \<Rightarrow> flow_violation list" where
  "processor_violations g f p =
    (if \<not> listed (fe_processor_ids g) p then [FlowProcessor]
     else if \<not> listed (fe_processing_purposes g) (ff_purpose f) then [FlowProcessingPurpose]
     else
       (let excluded = filter (\<lambda>c. \<not> listed (fe_processing_categories g) c) (ff_categories f)
        in if excluded \<noteq> [] then [FlowProcessingCategories excluded] else []))"

definition recipient_violations :: "flow_envelope \<Rightarrow> flow_facts \<Rightarrow> flow_violation list" where
  "recipient_violations g f =
    (if \<not> truthy_opt (ff_recipient_class f) \<or> ff_purpose f \<notin> set (fe_purposes g) then [FlowPurpose]
     else if the (ff_recipient_class f) \<notin> set (fe_recipient_classes g) then [FlowRecipient]
     else if ff_attachment_count f > fe_max_attachments g then [FlowAttachments]
     else
       (let excluded = filter (\<lambda>c. c \<notin> set (fe_categories g)) (ff_categories f)
        in if excluded \<noteq> [] then [FlowCategories excluded] else []))"

definition evaluateInformationFlow :: "envelope \<Rightarrow> flow_facts \<Rightarrow> flow_violation list" where
  "evaluateInformationFlow env f =
    (case en_flow env of
       None \<Rightarrow> [FlowNotDelegated]
     | Some g \<Rightarrow>
         if \<not> facts_complete f then [FlowFactsInvalid]
         else if truthy_opt (ff_processor_id f) \<and> truthy_opt (ff_recipient_class f) then [FlowMixed]
         else if truthy_opt (ff_processor_id f) then processor_violations g f (the (ff_processor_id f))
         else recipient_violations g f)"

definition isInformationBoundActionClass :: "string \<Rightarrow> bool" where
  "isInformationBoundActionClass c = (c = ''send_message_external'' \<or> c = ''publish_public'')"

section \<open>Facts of an information flow\<close>

definition is_lower_digit :: "char \<Rightarrow> bool" where
  "is_lower_digit c = (let n = of_char c :: nat in (97 \<le> n \<and> n \<le> 122) \<or> (48 \<le> n \<and> n \<le> 57))"

definition is_letter_digit :: "char \<Rightarrow> bool" where
  "is_letter_digit c = (is_lower_digit c \<or> (let n = of_char c :: nat in 65 \<le> n \<and> n \<le> 90))"

definition purpose_pattern :: "string \<Rightarrow> bool" where
  "purpose_pattern s =
    (case s of [] \<Rightarrow> False
     | c # cs \<Rightarrow> is_lower_digit c \<and> length cs \<le> 127 \<and> list_all (\<lambda>d. is_lower_digit d \<or> d \<in> {CHR '':'', CHR ''_'', CHR ''-''}) cs)"

definition processor_pattern :: "string \<Rightarrow> bool" where
  "processor_pattern s =
    (case s of [] \<Rightarrow> False
     | c # cs \<Rightarrow> is_letter_digit c \<and> length cs \<le> 127 \<and>
         list_all (\<lambda>d. is_letter_digit d \<or> d \<in> {CHR '' '', CHR ''.'', CHR ''_'', CHR '':'', CHR ''-''}) cs)"

datatype flow_parse_error = FpNotObject | FpPurpose | FpRecipient | FpProcessor | FpNobody | FpCategories | FpAttachments

definition text_in :: "string list \<Rightarrow> json \<Rightarrow> bool" where
  "text_in allowed v = (case v of JStr s \<Rightarrow> s \<in> set allowed | _ \<Rightarrow> False)"

definition text_of :: "json \<Rightarrow> string" where
  "text_of v = (case v of JStr s \<Rightarrow> s | _ \<Rightarrow> [])"

definition parse_categories :: "json \<Rightarrow> string list option" where
  "parse_categories v =
    (case v of
       JArr vs \<Rightarrow> if vs \<noteq> [] \<and> list_all (text_in INFORMATION_CATEGORIES) vs then Some (js_dedup (map text_of vs)) else None
     | _ \<Rightarrow> None)"

definition parse_attachments :: "json \<Rightarrow> rat option" where
  "parse_attachments v =
    (if jnullish v then Some 0
     else (case v of JNum n \<Rightarrow> if is_js_integer n \<and> 0 \<le> n \<and> n \<le> 100 then Some n else None | _ \<Rightarrow> None))"

definition parseInformationFlowFacts :: "json \<Rightarrow> flow_parse_error + flow_facts" where
  "parseInformationFlowFacts v =
    (case v of
       JObj kvs \<Rightarrow>
         (let purpose = js_trim (text_of (jget v ''purpose'')); recipient = jget v ''recipient_class''; processor = jget v ''processor_id''
          in if \<not> purpose_pattern purpose then Inl FpPurpose
             else if recipient \<noteq> JUndef \<and> \<not> text_in RECIPIENT_CLASSES recipient then Inl FpRecipient
             else if processor \<noteq> JUndef \<and> \<not> (case processor of JStr s \<Rightarrow> processor_pattern (js_trim s) | _ \<Rightarrow> False) then Inl FpProcessor
             else if recipient = JUndef \<and> processor = JUndef then Inl FpNobody
             else
               (case parse_categories (jget v ''categories'') of
                  None \<Rightarrow> Inl FpCategories
                | Some categories \<Rightarrow>
                    (case parse_attachments (jget v ''attachment_count'') of
                       None \<Rightarrow> Inl FpAttachments
                     | Some n \<Rightarrow>
                         Inr \<lparr>ff_purpose = purpose,
                           ff_recipient_class = (if recipient = JUndef then None else Some (text_of recipient)),
                           ff_processor_id = (if processor = JUndef then None else Some (js_trim (text_of processor))),
                           ff_categories = categories, ff_attachment_count = n\<rparr>)))
     | _ \<Rightarrow> Inl FpNotObject)"

end
