(* ===== verification/Charter_Rules.thy ===== *)
theory Charter_Rules
  imports Charter_Core
begin

text \<open>
  The three rules of the accountability charter of \<open>src/libs/core/governance/accountability-charter.ts\<close>: which
  charters are valid (\<open>validateCharter\<close>), when one envelope lies within another (\<open>envelopeExceeds\<close>) and what an
  action may do (\<open>evaluateAgainstCharter\<close>). The evaluation is a sequence of checks, each its own definition, of which
  the first that refuses decides.
\<close>

section \<open>Human identifiers\<close>

definition isValidMemberId :: "string \<Rightarrow> bool" where
  "isValidMemberId s =
    (case s of [] \<Rightarrow> False
     | c # cs \<Rightarrow> is_lower c \<and> 1 \<le> length cs \<and> length cs \<le> 30 \<and>
         list_all (\<lambda>d. is_lower d \<or> is_digit d \<or> d = CHR ''-'') cs)"

definition parses_as_human :: "string \<Rightarrow> bool" where
  "parses_as_human s = (starts_with ''user:'' (js_trim s) \<and> isValidMemberId (drop 5 (js_trim s)))"

definition sha256_hex :: "string \<Rightarrow> bool" where
  "sha256_hex s =
    (length s = 64 \<and> list_all (\<lambda>c. is_digit c \<or> (let n = of_char c :: nat in 97 \<le> n \<and> n \<le> 102)) s)"

section \<open>Subset of an envelope\<close>

datatype exceeds = ExCurrency | ExPerAction | ExPerDay | ExPerMonth | ExData data_mode string | ExEffect string
  | ExIrreversible | ExSupersedes | ExDecision string | ExTarget | ExFlowNotGranted | ExPurpose string
  | ExRecipient string | ExCategory string | ExAttachments | ExOmitsProcessors | ExProcessor string
  | ExOmitsPurposes | ExProcessingPurpose string | ExOmitsCategories | ExProcessingCategory string | ExFlowDropped

definition when_list :: "bool \<Rightarrow> 'a \<Rightarrow> 'a list" where
  "when_list b x = (if b then [x] else [])"

definition missing_from :: "string list \<Rightarrow> string list \<Rightarrow> string list" where
  "missing_from allowed xs = filter (\<lambda>x. x \<notin> set allowed) xs"

definition opt_list :: "string list option \<Rightarrow> string list" where
  "opt_list xs = (case xs of None \<Rightarrow> [] | Some ys \<Rightarrow> ys)"

text \<open>The keys of two maps as a set in the order of insertion.\<close>

definition key_union :: "(string \<times> 'a) list \<Rightarrow> (string \<times> 'b) list \<Rightarrow> string list" where
  "key_union a b = js_dedup (map fst a @ map fst b)"

definition money_exceeds :: "money_limits \<Rightarrow> money_limits \<Rightarrow> exceeds list" where
  "money_exceeds c p =
    when_list (ml_currency c \<noteq> ml_currency p) ExCurrency @
    when_list (ml_per_action c > ml_per_action p) ExPerAction @
    when_list (ml_per_day c > ml_per_day p) ExPerDay @
    when_list (ml_per_month c > ml_per_month p) ExPerMonth"

definition data_exceeds :: "envelope \<Rightarrow> envelope \<Rightarrow> exceeds list" where
  "data_exceeds c p =
    map (ExData ReadMode) (missing_from (en_read p) (en_read c)) @
    map (ExData WriteMode) (missing_from (en_write p) (en_write c))"

definition effect_exceeds :: "envelope \<Rightarrow> envelope \<Rightarrow> exceeds list" where
  "effect_exceeds c p =
    map ExEffect (filter (\<lambda>k. EFFECT_RANK (effectPolicy c k) > EFFECT_RANK (effectPolicy p k))
      (key_union (en_external_effects c) (en_external_effects p)))"

definition decision_exceeds :: "envelope \<Rightarrow> envelope \<Rightarrow> exceeds list" where
  "decision_exceeds c p =
    map ExDecision (filter (\<lambda>k. EFFECT_RANK (delegatedDecisionPolicy c k) > EFFECT_RANK (delegatedDecisionPolicy p k))
      (key_union (en_delegated c) (en_delegated p)))"

definition target_exceeds :: "url_parser \<Rightarrow> envelope \<Rightarrow> envelope \<Rightarrow> exceeds list" where
  "target_exceeds u c p =
    concat (map (\<lambda>g. when_list (\<not> list_ex (\<lambda>v. externalOperationGrantMatches u v g)
        (case en_external_operations p of None \<Rightarrow> [] | Some vs \<Rightarrow> vs)) ExTarget)
      (case en_external_operations c of None \<Rightarrow> [] | Some gs \<Rightarrow> gs))"

definition flow_list_exceeds ::
  "string list option \<Rightarrow> string list option \<Rightarrow> exceeds \<Rightarrow> (string \<Rightarrow> exceeds) \<Rightarrow> exceeds list" where
  "flow_list_exceeds c p omitted ex =
    when_list (p \<noteq> None \<and> c = None) omitted @ map ex (missing_from (opt_list p) (opt_list c))"

definition flow_exceeds :: "flow_envelope option \<Rightarrow> flow_envelope option \<Rightarrow> exceeds list" where
  "flow_exceeds c p =
    (case (c, p) of
       (None, None) \<Rightarrow> []
     | (None, Some _) \<Rightarrow> [ExFlowDropped]
     | (Some _, None) \<Rightarrow> [ExFlowNotGranted]
     | (Some fc, Some fp) \<Rightarrow>
         map ExPurpose (missing_from (fe_purposes fp) (fe_purposes fc)) @
         map ExRecipient (missing_from (fe_recipient_classes fp) (fe_recipient_classes fc)) @
         map ExCategory (missing_from (fe_categories fp) (fe_categories fc)) @
         when_list (fe_max_attachments fc > fe_max_attachments fp) ExAttachments @
         flow_list_exceeds (fe_processor_ids fc) (fe_processor_ids fp) ExOmitsProcessors ExProcessor @
         flow_list_exceeds (fe_processing_purposes fc) (fe_processing_purposes fp) ExOmitsPurposes ExProcessingPurpose @
         flow_list_exceeds (fe_processing_categories fc) (fe_processing_categories fp) ExOmitsCategories
           ExProcessingCategory)"

definition envelopeExceeds :: "url_parser \<Rightarrow> envelope \<Rightarrow> envelope \<Rightarrow> exceeds list" where
  "envelopeExceeds u c p =
    money_exceeds (en_money c) (en_money p) @
    data_exceeds c p @
    effect_exceeds c p @
    when_list (IRREVERSIBLE_RANK (en_irreversible c) > IRREVERSIBLE_RANK (en_irreversible p)) ExIrreversible @
    when_list (en_supersedes c \<and> \<not> en_supersedes p) ExSupersedes @
    decision_exceeds c p @
    target_exceeds u c p @
    flow_exceeds (en_flow c) (en_flow p)"

section \<open>Validity\<close>

datatype charter_violation = VTargets | VActor | VDeputy string | VDeputyIsActor | VStatement | VStamps | VExpiry
  | VHolder | VTargetBasis | VEffectBasis string | VSupersedes | VDecisionPolicy string | VFlowPurposes
  | VFlowRecipients | VFlowCategories | VFlowAttachments | VFlowProcessors | VFlowProcessingPurposes
  | VFlowProcessingCategories | VPaymentNeeded | VIrreversible | VLimitsNegative | VLimitsOrder | VMaxLoss
  | VMaxLossLimit | VNoParent | VExceeds exceeds

definition basisCanCarry :: "accountable \<Rightarrow> bool" where
  "basisCanCarry a =
    ((cc_basis a = BasisOwner \<or> cc_basis a = BasisOfficer) \<and>
     (case cc_evidence a of None \<Rightarrow> False | Some e \<Rightarrow> js_trim e \<noteq> []))"

definition person_violations :: "accountable \<Rightarrow> charter_violation list" where
  "person_violations a =
    when_list (\<not> parses_as_human (cc_actor a)) VActor @
    concat (map (\<lambda>d. when_list (\<not> parses_as_human d) (VDeputy d) @ when_list (d = cc_actor a) VDeputyIsActor) (cc_deputies a)) @
    when_list (\<not> sha256_hex (cc_statement a)) VStatement @
    (case (cc_accepted a, cc_expires a) of
       (At t, At e) \<Rightarrow> when_list (e \<le> t) VExpiry
     | _ \<Rightarrow> [VStamps])"

definition flow_violations :: "flow_envelope \<Rightarrow> charter_violation list" where
  "flow_violations f =
    (let blank = (\<lambda>xs. list_ex (\<lambda>s. js_trim s = []) xs)
     in when_list (blank (fe_purposes f)) VFlowPurposes @
        when_list (missing_from RECIPIENT_CLASSES (fe_recipient_classes f) \<noteq> []) VFlowRecipients @
        when_list (missing_from INFORMATION_CATEGORIES (fe_categories f) \<noteq> []) VFlowCategories @
        when_list (\<not> is_js_integer (fe_max_attachments f) \<or> fe_max_attachments f < 0) VFlowAttachments @
        when_list (blank (opt_list (fe_processor_ids f))) VFlowProcessors @
        when_list (blank (opt_list (fe_processing_purposes f))) VFlowProcessingPurposes @
        when_list (missing_from INFORMATION_CATEGORIES (opt_list (fe_processing_categories f)) \<noteq> []) VFlowProcessingCategories)"

definition limit_violations :: "money_limits \<Rightarrow> appetite \<Rightarrow> charter_violation list" where
  "limit_violations m a =
    (if \<not> (0 \<le> ml_per_action m \<and> 0 \<le> ml_per_day m \<and> 0 \<le> ml_per_month m) then [VLimitsNegative]
     else when_list (ml_per_action m > ml_per_day m \<or> ml_per_day m > ml_per_month m) VLimitsOrder) @
    when_list (\<not> 0 \<le> at_max_loss a) VMaxLoss @
    when_list (at_max_loss a > ml_per_month m) VMaxLossLimit"

definition validateCharter ::
  "url_parser \<Rightarrow> charter \<Rightarrow> holder_role \<Rightarrow> envelope option \<Rightarrow> charter_violation list" where
  "validateCharter u c holder parent =
    (let a = ch_accountable c; env = ch_envelope c; can = basisCanCarry a
     in when_list (case en_external_operations env of None \<Rightarrow> False
          | Some gs \<Rightarrow> parseExternalOperationGrants u (JArr gs) = None) VTargets @
        person_violations a @
        when_list (holder \<noteq> HolderOwner \<and> holder \<noteq> HolderApprover) VHolder @
        when_list (en_external_operations env \<noteq> None \<and> en_external_operations env \<noteq> Some [] \<and> \<not> can \<and>
          \<not> (cc_basis a = BasisDelegated \<and> parent \<noteq> None)) VTargetBasis @
        map VEffectBasis (filter (\<lambda>cls. effectPolicy env cls \<noteq> EffForbid \<and> \<not> can) BASIS_GATED_EFFECTS) @
        when_list (en_supersedes env \<and> \<not> can) VSupersedes @
        map VDecisionPolicy (map fst (filter (\<lambda>(t, p). p = None) (en_delegated env))) @
        (case en_flow env of None \<Rightarrow> [] | Some f \<Rightarrow> flow_violations f) @
        when_list (ml_per_action (en_money env) > 0 \<and> effectPolicy env ''payment'' = EffForbid) VPaymentNeeded @
        when_list (en_irreversible env = IrrAllow \<and> \<not> (cc_basis a = BasisOwner \<or> cc_basis a = BasisOfficer)) VIrreversible @
        limit_violations (en_money env) (ch_appetite c) @
        (if cc_basis a = BasisDelegated then
           (case parent of None \<Rightarrow> [VNoParent] | Some p \<Rightarrow> map VExceeds (envelopeExceeds u env p))
         else []))"

section \<open>Evaluation\<close>

type_synonym refusal = "(charter_reason list \<times> amendment option) option"

fun first_refusal :: "refusal list \<Rightarrow> refusal" where
  "first_refusal [] = None"
| "first_refusal (r # rs) = (case r of None \<Rightarrow> first_refusal rs | Some x \<Rightarrow> Some x)"

definition isCharterActive :: "charter \<Rightarrow> ms \<Rightarrow> bool" where
  "isCharterActive c now =
    (case (cc_accepted (ch_accountable c), cc_expires (ch_accountable c)) of
       (At a, At e) \<Rightarrow> a \<le> now \<and> now < e | _ \<Rightarrow> False)"

definition action_money :: "charter_action \<Rightarrow> rat" where
  "action_money x = (case xa_amount x of None \<Rightarrow> 0 | Some m \<Rightarrow> m)"

definition action_loss :: "charter_action \<Rightarrow> rat" where
  "action_loss x = (case xa_loss x of None \<Rightarrow> 0 | Some m \<Rightarrow> m)"

definition check_actor :: "charter \<Rightarrow> charter_action \<Rightarrow> refusal" where
  "check_actor c x =
    (if ar_kind (xa_actor x) = HumanActor then Some ([RsActorIsHuman], None)
     else
       (case ar_on_behalf (xa_actor x) of
          None \<Rightarrow> Some ([RsNotDelegated], None)
        | Some b \<Rightarrow>
            if b = [] \<or> b \<notin> set (cc_actor (ch_accountable c) # cc_deputies (ch_accountable c))
            then Some ([RsNotDelegated], None) else None))"

definition tripwires_hit :: "charter \<Rightarrow> charter_usage \<Rightarrow> string list" where
  "tripwires_hit c us = filter (\<lambda>t. t \<in> set (us_tripwires us)) (at_tripwires (ch_appetite c))"

definition target_operation :: string where
  "target_operation = ''target_scoped_external_operation''"

definition check_available :: "charter_action \<Rightarrow> availability \<Rightarrow> refusal" where
  "check_available x av =
    (if av_accountable av \<or> av_deputies av \<noteq> [] then None
     else if xa_reversible x \<and> action_money x = 0 \<and> action_loss x = 0 \<and> xa_class x \<notin> set EXTERNAL_EFFECT_CLASSES \<and>
       \<not> jtruthy (xa_external_operation x) \<and> xa_class x \<noteq> target_operation then None
     else Some ([RsSafeMode], None))"

definition check_target :: "url_parser \<Rightarrow> envelope \<Rightarrow> charter_action \<Rightarrow> refusal" where
  "check_target u env x =
    (if xa_class x \<noteq> target_operation \<and> \<not> jtruthy (xa_external_operation x) then None
     else
       (case parseExternalOperationGrant u (xa_external_operation x) of
          None \<Rightarrow> Some ([RsTarget], None)
        | Some t \<Rightarrow>
            if xa_class x \<noteq> target_operation \<or>
               \<not> list_ex (\<lambda>g. externalOperationGrantMatches u g (grant_json t))
                   (case en_external_operations env of None \<Rightarrow> [] | Some gs \<Rightarrow> gs)
            then Some ([RsTarget], None) else None))"

definition check_delegated :: "envelope \<Rightarrow> charter_action \<Rightarrow> refusal" where
  "check_delegated env x =
    (case xa_decision_type x of
       None \<Rightarrow> None
     | Some t \<Rightarrow>
         if t = [] then None
         else if delegatedDecisionPolicy env t = EffForbid then Some ([RsDecisionForbidden t], Some (AmDecision t))
         else if delegatedDecisionPolicy env t = EffReview \<and> \<not> xa_reviewed x then Some ([RsDecisionReview t], None)
         else None)"

definition check_money :: "envelope \<Rightarrow> charter_action \<Rightarrow> charter_usage \<Rightarrow> refusal" where
  "check_money env x us =
    (let m = action_money x; l = en_money env
     in if \<not> 0 < m then None
        else if truthy_opt (xa_currency x) \<and> the (xa_currency x) \<noteq> ml_currency l then Some ([RsCurrency], None)
        else if m > ml_per_action l then Some ([RsPerAction], Some (AmPerAction (ml_per_action l) m))
        else if us_today us + m > ml_per_day l then Some ([RsPerDay], Some (AmPerDay (ml_per_day l) (us_today us + m)))
        else if us_month us + m > ml_per_month l
          then Some ([RsPerMonth], Some (AmPerMonth (ml_per_month l) (us_month us + m)))
        else if effectPolicy env ''payment'' = EffForbid then Some ([RsPaymentForbidden], None)
        else None)"

definition check_effect :: "envelope \<Rightarrow> charter_action \<Rightarrow> refusal" where
  "check_effect env x =
    (if xa_class x \<notin> set EXTERNAL_EFFECT_CLASSES then None
     else if effectPolicy env (xa_class x) = EffForbid
       then Some ([RsEffectForbidden (xa_class x)], Some (AmEffect (xa_class x)))
     else if effectPolicy env (xa_class x) = EffReview \<and> \<not> xa_reviewed x then Some ([RsEffectReview (xa_class x)], None)
     else None)"

definition check_data :: "envelope \<Rightarrow> charter_action \<Rightarrow> refusal" where
  "check_data env x =
    (case xa_data x of
       None \<Rightarrow> None
     | Some d \<Rightarrow>
         (let token = dataScopeToken (dc_tier d) (dc_tenant d); tokens = data_tokens env (dc_mode d)
          in if token \<notin> set tokens then Some ([RsData token], Some (AmData (dc_mode d) tokens token)) else None))"

definition check_flow :: "envelope \<Rightarrow> charter_action \<Rightarrow> refusal" where
  "check_flow env x =
    (if en_flow env = None then None
     else
       (case xa_flow x of
          Some f \<Rightarrow>
            if isInformationBoundActionClass (xa_class x) \<and> truthy_opt (ff_processor_id f) then Some ([RsProcessorFacts], None)
            else
              (let v = evaluateInformationFlow env f in if v \<noteq> [] then Some (map RsFlow v, None) else None)
        | None \<Rightarrow> if isInformationBoundActionClass (xa_class x) then Some ([RsFlowMissing], None) else None))"

definition check_irreversible :: "envelope \<Rightarrow> charter_action \<Rightarrow> refusal" where
  "check_irreversible env x =
    (if xa_reversible x then None
     else if en_irreversible env = IrrForbid then Some ([RsIrreversible], Some AmIrreversible)
     else if en_irreversible env = IrrNamed \<and>
       \<not> (truthy_opt (xa_irreversible_name x) \<and> listed (en_irreversible_named env) (the (xa_irreversible_name x)))
       then Some ([RsNotNamed], Some (AmNamed (opt_list (en_irreversible_named env))
         (case xa_irreversible_name x of None \<Rightarrow> xa_class x | Some n \<Rightarrow> n)))
     else None)"

definition check_appetite :: "appetite \<Rightarrow> charter_action \<Rightarrow> refusal" where
  "check_appetite a x =
    (let recipients = (case xa_recipients x of None \<Rightarrow> 0 | Some n \<Rightarrow> n); systems = (case xa_systems x of None \<Rightarrow> 0 | Some n \<Rightarrow> n)
     in if action_loss x > at_max_loss a then Some ([RsMaxLoss], Some (AmMaxLoss (at_max_loss a) (action_loss x)))
        else
          (case xa_reputation x of
             Some r \<Rightarrow>
               if REPUTATION_RANK r > REPUTATION_RANK (at_reputation a)
               then Some ([RsReputation], Some (AmReputation (at_reputation a) r))
               else if recipients > at_recipients a \<or> systems > at_systems a
                 then Some ([RsBlast], Some (AmBlast recipients systems)) else None
           | None \<Rightarrow>
               if recipients > at_recipients a \<or> systems > at_systems a
               then Some ([RsBlast], Some (AmBlast recipients systems)) else None))"

text \<open>\<open>x / d >= 0.8\<close>, with a quotient by zero as the language has it.\<close>

definition near_ratio :: "rat \<Rightarrow> rat \<Rightarrow> bool" where
  "near_ratio x d = (if d = 0 then 0 < x else 4 / 5 \<le> x / d)"

definition nearLimit :: "envelope \<Rightarrow> charter_action \<Rightarrow> charter_usage \<Rightarrow> bool" where
  "nearLimit env x us =
    (let m = action_money x; l = en_money env
     in 0 < m \<and> (near_ratio (us_today us + m) (ml_per_day l) \<or> near_ratio (us_month us + m) (ml_per_month l)))"

definition charter_refusal ::
  "url_parser \<Rightarrow> charter \<Rightarrow> charter_action \<Rightarrow> charter_usage \<Rightarrow> availability \<Rightarrow> refusal" where
  "charter_refusal u c x us av =
    (let env = ch_envelope c
     in first_refusal [check_available x av, check_target u env x, check_delegated env x, check_money env x us,
          check_effect env x, check_data env x, check_flow env x, check_irreversible env x,
          check_appetite (ch_appetite c) x])"

definition no_consumption :: "charter \<Rightarrow> decision_kind \<Rightarrow> charter_reason list \<Rightarrow> amendment option \<Rightarrow> charter_decision" where
  "no_consumption c d reasons am =
    \<lparr>cd_decision = d, cd_reasons = reasons, cd_amendment = am, cd_prefer_reversible = False, cd_money = 0, cd_loss = 0,
     cd_responsible = cc_actor (ch_accountable c), cd_charter_id = ch_id c\<rparr>"

definition evaluateAgainstCharter ::
  "url_parser \<Rightarrow> charter \<Rightarrow> charter_action \<Rightarrow> charter_usage \<Rightarrow> availability \<Rightarrow> ms \<Rightarrow> charter_decision" where
  "evaluateAgainstCharter u c x us av now =
    (if \<not> isCharterActive c now then no_consumption c DkDeny [RsNotActive] None
     else
       (case check_actor c x of
          Some (rs, am) \<Rightarrow> no_consumption c DkDeny rs am
        | None \<Rightarrow>
            if tripwires_hit c us \<noteq> [] then no_consumption c DkStop (map RsTripwire (tripwires_hit c us)) None
            else
              (case charter_refusal u c x us av of
                 Some (rs, am) \<Rightarrow> no_consumption c DkDeny rs am
               | None \<Rightarrow>
                   (let near = nearLimit (ch_envelope c) x us
                    in \<lparr>cd_decision = (if near then DkAllowNotify else DkAllow),
                        cd_reasons = RsWithin # when_list near RsNearLimit, cd_amendment = None,
                        cd_prefer_reversible = (\<not> xa_reversible x),
                        cd_money = action_money x, cd_loss = action_loss x,
                        cd_responsible = cc_actor (ch_accountable c), cd_charter_id = ch_id c\<rparr>))))"

definition allows :: "charter_decision \<Rightarrow> bool" where
  "allows d = (cd_decision d = DkAllow \<or> cd_decision d = DkAllowNotify)"

lemma no_consumption_fields [simp]:
  "cd_decision (no_consumption c d rs am) = d" "cd_money (no_consumption c d rs am) = 0"
  "cd_loss (no_consumption c d rs am) = 0" "cd_charter_id (no_consumption c d rs am) = ch_id c"
  by (simp_all add: no_consumption_def)

lemma allows_iff:
  "allows (evaluateAgainstCharter u c x us av now) \<longleftrightarrow>
    isCharterActive c now \<and> check_actor c x = None \<and> tripwires_hit c us = [] \<and> charter_refusal u c x us av = None"
  by (auto simp: allows_def evaluateAgainstCharter_def Let_def split: option.split)

lemma allowed_money:
  "allows (evaluateAgainstCharter u c x us av now) \<Longrightarrow> cd_money (evaluateAgainstCharter u c x us av now) = action_money x"
  by (auto simp: allows_def evaluateAgainstCharter_def Let_def split: option.split if_splits)

lemma first_refusal_None: "first_refusal rs = None \<longleftrightarrow> list_all (\<lambda>r. r = None) rs"
  by (induction rs) (auto split: option.splits)

end
