(* ===== verification/Charter_Props.thy ===== *)
theory Charter_Props
  imports Charter_Rules
begin

text \<open>
  Delegation of a charter. A charter that rests on a delegated authority is valid only when its envelope lies within
  the one of its parent (\<open>envelopeExceeds\<close> names no field). Each check of the evaluation that passes in the child then
  passes in the parent, except the check of named irreversible actions: the names are not compared.
\<close>

section \<open>The parts of an envelope\<close>

lemma when_list_Nil [simp]: "when_list b x = [] \<longleftrightarrow> \<not> b"
  by (simp add: when_list_def)

lemma missing_from_Nil [simp]: "missing_from allowed xs = [] \<longleftrightarrow> set xs \<subseteq> set allowed"
  by (auto simp: missing_from_def filter_empty_conv)

lemma listed_opt_list: "listed xs x \<longleftrightarrow> x \<in> set (opt_list xs)"
  by (simp add: listed_def opt_list_def split: option.splits)

lemma effect_rank_le:
  assumes "effect_exceeds c p = []"
  shows "EFFECT_RANK (effectPolicy c k) \<le> EFFECT_RANK (effectPolicy p k)"
proof (cases "k \<in> set (map fst (en_external_effects c) @ map fst (en_external_effects p))")
  case True
  then show ?thesis using assms by (auto simp: effect_exceeds_def key_union_def filter_empty_conv not_less)
next
  case False
  then have "map_of (en_external_effects c) k = None" by (auto simp: map_of_eq_None_iff)
  then show ?thesis by (simp add: effectPolicy_def EFFECT_RANK_def)
qed

lemma decision_rank_le:
  assumes "decision_exceeds c p = []"
  shows "EFFECT_RANK (delegatedDecisionPolicy c k) \<le> EFFECT_RANK (delegatedDecisionPolicy p k)"
proof (cases "k \<in> set (map fst (en_delegated c) @ map fst (en_delegated p))")
  case True
  then show ?thesis using assms by (auto simp: decision_exceeds_def key_union_def filter_empty_conv not_less)
next
  case False
  then have "map_of (en_delegated c) k = None" by (auto simp: map_of_eq_None_iff)
  then show ?thesis by (simp add: delegatedDecisionPolicy_def EFFECT_RANK_def)
qed

lemma rank_passes:
  assumes "EFFECT_RANK a \<le> EFFECT_RANK b" "a \<noteq> EffForbid" "a = EffReview \<longrightarrow> reviewed"
  shows "b \<noteq> EffForbid" "b = EffReview \<longrightarrow> reviewed"
  using assms by (cases a; cases b; simp add: EFFECT_RANK_def)+

section \<open>The checks of the child and of the parent\<close>

text \<open>One check of two envelopes: what the first lets pass, the second lets pass.\<close>

definition passes_on :: "refusal \<Rightarrow> refusal \<Rightarrow> bool" where
  "passes_on a b = (a = None \<longrightarrow> b = None)"

lemma passes_on_refl: "passes_on a a"
  by (simp add: passes_on_def)

lemma first_refusal_passes_on:
  "list_all2 passes_on xs ys \<Longrightarrow> first_refusal xs = None \<Longrightarrow> first_refusal ys = None"
  by (induction rule: list_all2_induct) (auto simp: passes_on_def split: option.splits)

lemma narrow_parts:
  assumes within: "envelopeExceeds u c p = []"
  shows "money_exceeds (en_money c) (en_money p) = []" "data_exceeds c p = []" "effect_exceeds c p = []"
  "IRREVERSIBLE_RANK (en_irreversible c) \<le> IRREVERSIBLE_RANK (en_irreversible p)"
  "decision_exceeds c p = []" "target_exceeds u c p = []" "flow_exceeds (en_flow c) (en_flow p) = []"
  using within by (auto simp: envelopeExceeds_def)

lemma narrow_target:
  assumes within: "envelopeExceeds u c p = []"
  shows "passes_on (check_target u c x) (check_target u p x)"
proof -
  have "list_ex (\<lambda>v. externalOperationGrantMatches u v g) (case en_external_operations p of None \<Rightarrow> [] | Some vs \<Rightarrow> vs)"
    if "g \<in> set (case en_external_operations c of None \<Rightarrow> [] | Some gs \<Rightarrow> gs)" for g
    using narrow_parts(6) [OF within] that by (auto simp: target_exceeds_def)
  then have "list_ex (\<lambda>v. externalOperationGrantMatches u v t) (case en_external_operations p of None \<Rightarrow> [] | Some vs \<Rightarrow> vs)"
    if "list_ex (\<lambda>v. externalOperationGrantMatches u v t) (case en_external_operations c of None \<Rightarrow> [] | Some vs \<Rightarrow> vs)" for t
    using that grant_matches_trans by (fastforce simp: list_ex_iff)
  then show ?thesis by (auto simp: passes_on_def check_target_def split: option.splits if_splits)
qed

lemma narrow_decision:
  assumes within: "envelopeExceeds u c p = []"
  shows "passes_on (check_delegated c x) (check_delegated p x)"
  using rank_passes [OF decision_rank_le [OF narrow_parts(5) [OF within]]]
  by (auto simp: passes_on_def check_delegated_def split: option.splits if_splits)

lemma narrow_money:
  assumes within: "envelopeExceeds u c p = []"
  shows "passes_on (check_money c x us) (check_money p x us)"
proof -
  have "effectPolicy c ''payment'' \<noteq> EffForbid \<Longrightarrow> effectPolicy p ''payment'' \<noteq> EffForbid"
    using effect_rank_le [OF narrow_parts(3) [OF within], of "''payment''"]
    by (cases "effectPolicy p ''payment''"; cases "effectPolicy c ''payment''") (auto simp: EFFECT_RANK_def)
  then show ?thesis using narrow_parts(1) [OF within]
    by (auto simp: passes_on_def check_money_def money_exceeds_def Let_def split: if_splits)
qed

lemma narrow_effect:
  assumes within: "envelopeExceeds u c p = []"
  shows "passes_on (check_effect c x) (check_effect p x)"
  using rank_passes [OF effect_rank_le [OF narrow_parts(3) [OF within]]]
  by (auto simp: passes_on_def check_effect_def split: if_splits)

lemma narrow_data:
  assumes within: "envelopeExceeds u c p = []"
  shows "passes_on (check_data c x) (check_data p x)"
  using narrow_parts(2) [OF within]
  by (auto simp: passes_on_def check_data_def data_exceeds_def data_tokens_def Let_def split: option.splits if_splits data_mode.splits)

lemma narrow_information:
  assumes within: "envelopeExceeds u c p = []"
    and "en_flow c = Some fc" "en_flow p = Some fp" "evaluateInformationFlow c f = []"
  shows "evaluateInformationFlow p f = []"
proof -
  have sub: "set (fe_purposes fc) \<subseteq> set (fe_purposes fp)" "set (fe_recipient_classes fc) \<subseteq> set (fe_recipient_classes fp)"
    "set (fe_categories fc) \<subseteq> set (fe_categories fp)" "fe_max_attachments fc \<le> fe_max_attachments fp"
    "set (opt_list (fe_processor_ids fc)) \<subseteq> set (opt_list (fe_processor_ids fp))"
    "set (opt_list (fe_processing_purposes fc)) \<subseteq> set (opt_list (fe_processing_purposes fp))"
    "set (opt_list (fe_processing_categories fc)) \<subseteq> set (opt_list (fe_processing_categories fp))"
    using narrow_parts(7) [OF within] assms(2,3) by (auto simp: flow_exceeds_def flow_list_exceeds_def not_less)
  have "processor_violations fp f i = []" if "processor_violations fc f i = []" for i
    using that sub(5-7) by (auto simp: processor_violations_def listed_opt_list filter_empty_conv Let_def split: if_splits)
  moreover have "recipient_violations fp f = []" if "recipient_violations fc f = []"
    using that sub(1-4) by (auto simp: recipient_violations_def filter_empty_conv Let_def split: if_splits)
  ultimately show ?thesis using assms by (auto simp: evaluateInformationFlow_def split: if_splits)
qed

lemma narrow_flow:
  assumes within: "envelopeExceeds u c p = []"
  shows "passes_on (check_flow c x) (check_flow p x)"
proof (cases "en_flow c")
  case None
  then have "en_flow p = None" using narrow_parts(7) [OF within] by (auto simp: flow_exceeds_def split: option.splits)
  then show ?thesis by (simp add: passes_on_def check_flow_def)
next
  case (Some fc)
  then obtain fp where "en_flow p = Some fp" using narrow_parts(7) [OF within] by (auto simp: flow_exceeds_def split: option.splits)
  then show ?thesis using Some narrow_information [OF within Some]
    by (auto simp: passes_on_def check_flow_def Let_def split: option.splits if_splits)
qed

lemma narrow_irreversible:
  assumes within: "envelopeExceeds u c p = []"
    and named: "en_irreversible c = IrrNamed \<and> en_irreversible p = IrrNamed \<Longrightarrow>
    set (opt_list (en_irreversible_named c)) \<subseteq> set (opt_list (en_irreversible_named p))"
  shows "passes_on (check_irreversible c x) (check_irreversible p x)"
  using named narrow_parts(4) [OF within]
  by (cases "en_irreversible c"; cases "en_irreversible p")
    (auto simp: passes_on_def check_irreversible_def listed_opt_list IRREVERSIBLE_RANK_def split: if_splits)


text \<open>C23. Delegation only narrows: an action that a charter allows within a subset of an envelope is allowed within
  the envelope itself, as long as the named irreversible actions, when both name them, are a subset too.\<close>

theorem delegated_envelopes_only_narrow:
  assumes within: "envelopeExceeds u child parent = []"
    and named: "en_irreversible child = IrrNamed \<and> en_irreversible parent = IrrNamed \<Longrightarrow>
      set (opt_list (en_irreversible_named child)) \<subseteq> set (opt_list (en_irreversible_named parent))"
    and allowed: "allows (evaluateAgainstCharter u (c\<lparr>ch_envelope := child\<rparr>) x us av now)"
  shows "allows (evaluateAgainstCharter u (c\<lparr>ch_envelope := parent\<rparr>) x us av now)"
proof -
  have "list_all2 passes_on
    [check_available x av, check_target u child x, check_delegated child x, check_money child x us, check_effect child x,
      check_data child x, check_flow child x, check_irreversible child x, check_appetite (ch_appetite c) x]
    [check_available x av, check_target u parent x, check_delegated parent x, check_money parent x us, check_effect parent x,
      check_data parent x, check_flow parent x, check_irreversible parent x, check_appetite (ch_appetite c) x]"
    using narrow_target [OF within] narrow_decision [OF within] narrow_money [OF within] narrow_effect [OF within]
      narrow_data [OF within] narrow_flow [OF within] narrow_irreversible [OF within named]
    by (simp add: passes_on_refl)
  note on = first_refusal_passes_on [OF this]
  let ?c = "c\<lparr>ch_envelope := child\<rparr>" and ?p = "c\<lparr>ch_envelope := parent\<rparr>"
  have "isCharterActive ?p now = isCharterActive ?c now" "check_actor ?p x = check_actor ?c x"
    "tripwires_hit ?p us = tripwires_hit ?c us"
    by (simp_all add: isCharterActive_def check_actor_def tripwires_hit_def split: option.split)
  moreover have "charter_refusal u ?c x us av = None \<Longrightarrow> charter_refusal u ?p x us av = None"
    using on unfolding charter_refusal_def Let_def by simp
  ultimately show ?thesis using allowed unfolding allows_iff by simp
qed

section \<open>A delegation that widens\<close>

definition sample_money :: "rat \<Rightarrow> money_limits" where
  "sample_money n = \<lparr>ml_currency = ''JPY'', ml_per_action = n, ml_per_day = 3 * n, ml_per_month = 10 * n\<rparr>"

definition sample_envelope :: "rat \<Rightarrow> (string \<times> effect_policy) list \<Rightarrow> string list \<Rightarrow> envelope" where
  "sample_envelope n effects names =
    \<lparr>en_external_operations = None, en_money = sample_money n, en_read = [''public''], en_write = [''public''],
     en_external_effects = effects, en_irreversible = IrrNamed, en_irreversible_named = Some names, en_supersedes = False,
     en_delegated = [], en_flow = None\<rparr>"

definition sample_accountable :: "basis_kind \<Rightarrow> accountable" where
  "sample_accountable b =
    \<lparr>cc_actor = ''user:owner'', cc_basis = b, cc_evidence = Some ''registry'', cc_accepted = At 0, cc_expires = At 31536000000,
     cc_statement = replicate 64 (CHR ''a''), cc_deputies = []\<rparr>"

definition sample_charter :: "string \<Rightarrow> basis_kind \<Rightarrow> envelope \<Rightarrow> charter" where
  "sample_charter i b env =
    \<lparr>ch_id = i, ch_replaces = None, ch_scope = OrgScope ''acme'', ch_accountable = sample_accountable b, ch_envelope = env,
     ch_appetite = \<lparr>at_max_loss = 0, at_reputation = RepB, at_recipients = 1, at_systems = 1, at_tripwires = [''manual-stop'']\<rparr>\<rparr>"

definition sample_action :: "string \<Rightarrow> rat option \<Rightarrow> string option \<Rightarrow> charter_action" where
  "sample_action cls amount name =
    \<lparr>xa_external_operation = JUndef,
     xa_actor = \<lparr>ar_kind = AgentActor, ar_id = ''kyberion://agent/acme/worker'', ar_on_behalf = Some ''user:owner''\<rparr>,
     xa_class = cls, xa_decision_type = None, xa_amount = amount, xa_currency = Some ''JPY'', xa_data = None,
     xa_reversible = (name = None), xa_irreversible_name = name, xa_loss = None, xa_reputation = None, xa_recipients = None,
     xa_systems = None, xa_reviewed = False, xa_flow = None\<rparr>"

definition present :: availability where
  "present = \<lparr>av_accountable = True, av_deputies = []\<rparr>"

definition unspent :: charter_usage where
  "unspent = \<lparr>us_today = 0, us_month = 0, us_tripwires = []\<rparr>"

definition owner_envelope :: envelope where
  "owner_envelope = sample_envelope 100 [(''payment'', EffAllow)] [''pay_invoice'']"

definition narrow_envelope :: envelope where
  "narrow_envelope = sample_envelope 50 [(''payment'', EffAllow)] [''pay_invoice'']"

lemma delegated_envelopes_only_narrow_witness:
  "allows (evaluateAgainstCharter (\<lambda>_. None) ((sample_charter ''own'' BasisOwner owner_envelope)\<lparr>ch_envelope := owner_envelope\<rparr>)
    (sample_action ''payment'' (Some 40) (Some ''pay_invoice'')) unspent present 1000)"
  by (rule delegated_envelopes_only_narrow [where child = narrow_envelope]) code_simp+

text \<open>A delegated charter may name irreversible actions that its parent does not name: the charter is valid, its
  envelope counts as a subset of the parent's, and it allows an action the parent refuses.\<close>

theorem delegation_widens_named_actions:
  "\<exists>parent child x.
    validateCharter u (sample_charter ''sub'' BasisDelegated child) HolderApprover (Some parent) = [] \<and>
    envelopeExceeds u child parent = [] \<and>
    allows (evaluateAgainstCharter u (sample_charter ''sub'' BasisDelegated child) x unspent present 1000) \<and>
    \<not> allows (evaluateAgainstCharter u (sample_charter ''sub'' BasisDelegated parent) x unspent present 1000)"
proof (intro exI conjI)
  let ?p = "sample_envelope 0 [] [''archive'']" and ?c = "sample_envelope 0 [] [''archive'', ''drop_database'']"
    and ?x = "sample_action ''internal_decision'' None (Some ''drop_database'')"
  show "validateCharter u (sample_charter ''sub'' BasisDelegated ?c) HolderApprover (Some ?p) = []" by code_simp
  show "envelopeExceeds u ?c ?p = []" by code_simp
  show "allows (evaluateAgainstCharter u (sample_charter ''sub'' BasisDelegated ?c) ?x unspent present 1000)" by code_simp
  show "\<not> allows (evaluateAgainstCharter u (sample_charter ''sub'' BasisDelegated ?p) ?x unspent present 1000)" by code_simp
qed

section \<open>The facts of a flow\<close>

lemma js_trim_Nil: "js_trim s = [] \<longleftrightarrow> list_all is_js_space s"
proof -
  have "js_trim s = [] \<longleftrightarrow> (\<forall>c\<in>set (dropWhile is_js_space s). is_js_space c)" by (simp add: js_trim_def)
  also have "\<dots> \<longleftrightarrow> list_all is_js_space s"
    by (induction s) (auto simp: list_all_iff)
  finally show ?thesis .
qed

lemma lower_digit_no_space: "is_lower_digit c \<Longrightarrow> \<not> is_js_space c"
  by (auto simp: is_lower_digit_def is_js_space_def Let_def)

lemma purpose_not_blank: "purpose_pattern s \<Longrightarrow> js_trim s \<noteq> []"
  by (auto simp: purpose_pattern_def js_trim_Nil lower_digit_no_space split: list.splits)

lemma category_text: "text_in allowed v \<Longrightarrow> text_of v \<in> set allowed"
  by (auto simp: text_in_def text_of_def split: json.splits)

lemma js_dedup_Nil [simp]: "js_dedup xs = [] \<longleftrightarrow> xs = []"
  by (metis set_js_dedup set_empty)

text \<open>The facts of an information flow that parse are well formed: they are complete for the evaluation, which never
  calls them invalid, name a known class of recipients or a processor, and carry known categories, each once, and at
  most a hundred attachments.\<close>

lemma parsed_flow_facts_are_complete:
  assumes "parseInformationFlowFacts v = Inr f"
  shows "facts_complete f \<and> FlowFactsInvalid \<notin> set (evaluateInformationFlow env f) \<and>
    distinct (ff_categories f) \<and> set (ff_categories f) \<subseteq> set INFORMATION_CATEGORIES \<and>
    set_option (ff_recipient_class f) \<subseteq> set RECIPIENT_CLASSES \<and>
    \<not> (ff_recipient_class f = None \<and> ff_processor_id f = None) \<and> ff_attachment_count f \<le> 100"
proof -
  obtain categories n where f: "parse_categories (jget v ''categories'') = Some categories"
    "parse_attachments (jget v ''attachment_count'') = Some n" "ff_categories f = categories" "ff_attachment_count f = n"
    "purpose_pattern (ff_purpose f)" "set_option (ff_recipient_class f) \<subseteq> set RECIPIENT_CLASSES"
    "\<not> (ff_recipient_class f = None \<and> ff_processor_id f = None)"
    using assms
    by (auto simp: parseInformationFlowFacts_def Let_def category_text split: json.splits option.splits if_splits)
  have "categories \<noteq> [] \<and> distinct categories \<and> set categories \<subseteq> set INFORMATION_CATEGORIES"
    using f(1) by (auto simp: parse_categories_def list_all_iff category_text split: json.splits if_splits)
  moreover have "is_js_integer n \<and> 0 \<le> n \<and> n \<le> 100"
    using f(2) by (auto simp: parse_attachments_def is_js_integer_def split: json.splits if_splits)
  ultimately have "facts_complete f" using f(3-5) purpose_not_blank by (simp add: facts_complete_def)
  moreover from this have "FlowFactsInvalid \<notin> set (evaluateInformationFlow env f)"
    by (auto simp: evaluateInformationFlow_def processor_violations_def recipient_violations_def Let_def
        split: option.splits if_splits)
  ultimately show ?thesis using f \<open>categories \<noteq> [] \<and> _\<close> \<open>is_js_integer n \<and> _\<close> by blast
qed

definition sample_facts :: flow_facts where
  "sample_facts = \<lparr>ff_purpose = ''billing'', ff_recipient_class = Some ''public'', ff_processor_id = None,
     ff_categories = [''unknown''], ff_attachment_count = 0\<rparr>"

lemma parsed_flow_facts_are_complete_witness: "facts_complete sample_facts \<and> FlowFactsInvalid \<notin> set (evaluateInformationFlow owner_envelope sample_facts)"
proof -
  have "parseInformationFlowFacts (JObj [(''purpose'', JStr '' billing''), (''recipient_class'', JStr ''public''),
      (''categories'', JArr [JStr ''unknown'', JStr ''unknown''])]) = Inr sample_facts"
    by code_simp
  from parsed_flow_facts_are_complete [OF this, of owner_envelope] show ?thesis by blast
qed

end
