(* ===== verification/Charter_Registry.thy ===== *)
theory Charter_Registry
  imports Charter_Rules "HOL-Library.List_Lexorder" "HOL-Library.Char_ord"
begin

text \<open>
  The charters of one scope and their ledgers, \<open>src/libs/core/governance/accountability-charter-registry.ts\<close>: a
  charter is accepted by the human it names, amendments are new charters that replace the one before, and each has
  an append-only ledger of what was consumed, denied, started, released and stopped.

  The state is the directory of one scope: its charter files and its ledgers. An operation runs under the lock of
  the scope, so it is one step. Access mediation, the file system and the texts of errors are left out; the digest of
  the acceptance statement is a parameter. Timestamps that the registry writes are epoch milliseconds, whose
  \<open>toISOString\<close> prefixes are the day and the month of \<open>utc_day\<close> and \<open>utc_month\<close>.
\<close>

section \<open>Days and months\<close>

definition DAY_MS :: ms where
  "DAY_MS = 86400000"

definition utc_day :: "ms \<Rightarrow> int" where
  "utc_day t = t div DAY_MS"

text \<open>The month, counted from the year 0, of a day counted from 1 January 1970 in the Gregorian calendar.\<close>

definition month_of_day :: "int \<Rightarrow> int" where
  "month_of_day d =
    (let z = d + 719468; era = z div 146097; doe = z mod 146097;
         yoe = (doe - doe div 1460 + doe div 36524 - doe div 146096) div 365;
         doy = doe - (365 * yoe + yoe div 4 - yoe div 100);
         mp = (5 * doy + 2) div 153; m = (if mp < 10 then mp + 3 else mp - 9)
     in (yoe + era * 400 + (if m \<le> 2 then 1 else 0)) * 12 + (m - 1))"

definition utc_month :: "ms \<Rightarrow> int" where
  "utc_month t = month_of_day (utc_day t)"

section \<open>Ledger entries\<close>

record charge =
  lc_ts :: ms
  lc_actor :: string
  lc_behalf :: "string option"
  lc_class :: string
  lc_money :: rat
  lc_loss :: rat
  lc_decision :: decision_kind
  lc_correlation :: "string option"

record denied_flow =
  df_purpose :: string
  df_recipient_class :: "string option"
  df_processor_id :: "string option"
  df_categories :: "string list"

record denial =
  ld_ts :: ms
  ld_actor :: string
  ld_behalf :: "string option"
  ld_class :: string
  ld_reasons :: "charter_reason list"
  ld_flow :: "denied_flow option"
  ld_amendment :: "amendment option"
  ld_correlation :: "string option"

record execution =
  le_actor :: string
  le_class :: string
  le_operation :: string
  le_correlation :: string
  le_effect_hash :: string

datatype execution_outcome = OutSucceeded | OutFailed | OutUnknown

datatype release_resolution = NotExecuted | Compensated

record budget_release =
  lr_ts :: ms
  lr_correlation :: string
  lr_consumption_ts :: ms
  lr_money :: rat
  lr_evidence :: string
  lr_resolution :: release_resolution

datatype permit_state = Issued | Executing | PermitSucceeded | PermitUnknown

record delegated_execution =
  dx_ts :: ms
  dx_permit :: string
  dx_binding_hash :: string
  dx_charter_sha :: string
  dx_mapping_sha :: string
  dx_expires :: stamp
  dx_state :: permit_state
  dx_operation :: string
  dx_actor :: string
  dx_step :: string
  dx_correlation :: string
  dx_decision_type :: string

datatype ledger_entry = Delegated delegated_execution | Charge charge | Denial denial | Started ms execution | Outcome ms execution execution_outcome
  | Release budget_release | Tripwire ms string | TripwireClear ms string string | RetiredEntry ms string string

definition entry_ts :: "ledger_entry \<Rightarrow> ms" where
  "entry_ts e = (case e of Delegated x \<Rightarrow> dx_ts x | Charge c \<Rightarrow> lc_ts c | Denial d \<Rightarrow> ld_ts d | Started t _ \<Rightarrow> t | Outcome t _ _ \<Rightarrow> t
     | Release r \<Rightarrow> lr_ts r | Tripwire t _ \<Rightarrow> t | TripwireClear t _ _ \<Rightarrow> t | RetiredEntry t _ _ \<Rightarrow> t)"

definition is_retired_entry :: "ledger_entry \<Rightarrow> bool" where
  "is_retired_entry e = (case e of RetiredEntry _ _ _ \<Rightarrow> True | _ \<Rightarrow> False)"

definition retired_for :: "string \<Rightarrow> ledger_entry \<Rightarrow> bool" where
  "retired_for reason e = (case e of RetiredEntry _ _ r \<Rightarrow> r = reason | _ \<Rightarrow> False)"

section \<open>The directory of a scope\<close>

record registry =
  rg_scope :: charter_scope
  rg_charters :: "charter list"
  rg_ledgers :: "(string \<times> ledger_entry list) list"

datatype charter_error = CeBadId | CeScopeDenied | CeTwoActive | CeLineage | CeNotHuman | CeNotAccountable | CeNoStatement
  | CeInvalid "charter_violation list" | CeExists | CeLifecycle | CeMustReplace | CeNothingToReplace | CeMayNotRetire
  | CeMayNotClear | CeUnknownTripwire | CeNoCharter | CeNoEvidence | CeAdmissionMissing | CeAlreadyStarted

definition charter_id_ok :: "string \<Rightarrow> bool" where
  "charter_id_ok s =
    (let word = (\<lambda>c. is_lower c \<or> is_digit c)
     in case s of [] \<Rightarrow> False
        | c # cs \<Rightarrow> word c \<and> 2 \<le> length cs \<and> length cs \<le> 63 \<and> list_all (\<lambda>d. word d \<or> d = CHR ''-'') cs)"

definition ledger_of :: "registry \<Rightarrow> string \<Rightarrow> ledger_entry list" where
  "ledger_of R i = (case map_of (rg_ledgers R) i of None \<Rightarrow> [] | Some es \<Rightarrow> es)"

definition find_charter :: "registry \<Rightarrow> string \<Rightarrow> charter option" where
  "find_charter R i = List.find (\<lambda>c. ch_id c = i) (rg_charters R)"

definition readCharter :: "registry \<Rightarrow> string \<Rightarrow> charter_error + charter option" where
  "readCharter R i =
    (if \<not> charter_id_ok i then Inl CeBadId
     else
       (case find_charter R i of
          None \<Rightarrow> Inr None
        | Some c \<Rightarrow> if ch_scope c \<noteq> rg_scope R then Inl CeScopeDenied else Inr (Some c)))"

definition listCharterIds :: "registry \<Rightarrow> string list" where
  "listCharterIds R = sort (filter charter_id_ok (map ch_id (rg_charters R)))"

fun read_each :: "registry \<Rightarrow> string list \<Rightarrow> charter_error + charter list" where
  "read_each R [] = Inr []"
| "read_each R (i # is) =
    (case readCharter R i of
       Inl e \<Rightarrow> Inl e
     | Inr c \<Rightarrow>
         (case read_each R is of
            Inl e \<Rightarrow> Inl e
          | Inr cs \<Rightarrow> Inr ((case c of None \<Rightarrow> [] | Some x \<Rightarrow> [x]) @ cs)))"

definition isCharterRetired :: "registry \<Rightarrow> charter \<Rightarrow> bool" where
  "isCharterRetired R c = list_ex is_retired_entry (ledger_of R (ch_id c))"

definition findActiveCharter :: "registry \<Rightarrow> ms \<Rightarrow> charter_error + charter option" where
  "findActiveCharter R now =
    (case read_each R (listCharterIds R) of
       Inl e \<Rightarrow> Inl e
     | Inr cs \<Rightarrow>
         (case filter (\<lambda>c. isCharterActive c now \<and> \<not> isCharterRetired R c) cs of
            [] \<Rightarrow> Inr None
          | [c] \<Rightarrow> Inr (Some c)
          | _ \<Rightarrow> Inl CeTwoActive))"

text \<open>The charters in force over several directories; a directory with two of them does not hide the others.\<close>

definition listActiveCharters :: "registry list \<Rightarrow> ms \<Rightarrow> charter list" where
  "listActiveCharters Rs now =
    concat (map (\<lambda>R. case findActiveCharter R now of Inr (Some c) \<Rightarrow> [c] | _ \<Rightarrow> []) Rs)"

section \<open>The accounting chain\<close>

definition MAX_CHAIN :: nat where
  "MAX_CHAIN = 256"

definition replaced_reason :: "string \<Rightarrow> string" where
  "replaced_reason i = ''replaced by '' @ i"

definition accepted_ms :: "charter \<Rightarrow> ms option" where
  "accepted_ms c = (case cc_accepted (ch_accountable c) of At t \<Rightarrow> Some t | BadStamp _ \<Rightarrow> None)"

definition unlinked_predecessor :: "registry \<Rightarrow> charter \<Rightarrow> bool" where
  "unlinked_predecessor R c =
    list_ex (\<lambda>i. i \<noteq> ch_id c \<and> list_ex (retired_for (replaced_reason (ch_id c))) (ledger_of R i)) (listCharterIds R)"

definition linked_predecessor :: "registry \<Rightarrow> charter \<Rightarrow> charter \<Rightarrow> bool" where
  "linked_predecessor R p c =
    ((case accepted_ms p of None \<Rightarrow> False
      | Some a \<Rightarrow> (case accepted_ms c of None \<Rightarrow> True | Some b \<Rightarrow> a \<le> b)) \<and>
     list_ex (retired_for (replaced_reason (ch_id c))) (ledger_of R (ch_id p)))"

function chain_loop :: "registry \<Rightarrow> charter \<Rightarrow> charter list \<Rightarrow> charter_error + charter list" where
  "chain_loop R c chain =
    (if \<not> charter_id_ok (ch_id c) then Inl CeBadId
     else if ch_id c \<in> set (map ch_id chain) \<or> MAX_CHAIN \<le> length chain then Inl CeLineage
     else
       (case ch_replaces c of
          None \<Rightarrow> if unlinked_predecessor R c then Inl CeLineage else Inr (c # chain)
        | Some i \<Rightarrow>
            if i = [] then (if unlinked_predecessor R c then Inl CeLineage else Inr (c # chain))
            else
              (case readCharter R i of
                 Inl e \<Rightarrow> Inl e
               | Inr None \<Rightarrow> Inl CeLineage
               | Inr (Some p) \<Rightarrow> if linked_predecessor R p c then chain_loop R p (c # chain) else Inl CeLineage)))"
  by pat_completeness auto

termination
  by (relation "measure (\<lambda>(R, c, chain). MAX_CHAIN - length chain)") auto

declare chain_loop.simps [simp del]

definition charterAccountingChain :: "registry \<Rightarrow> charter \<Rightarrow> charter_error + charter list" where
  "charterAccountingChain R c = chain_loop R c []"

definition findLatestCharterForRenewal :: "registry \<Rightarrow> charter_error + charter option" where
  "findLatestCharterForRenewal R =
    (case read_each R (listCharterIds R) of
       Inl e \<Rightarrow> Inl e
     | Inr records \<Rightarrow>
         if records = [] then Inr None
         else
           (case filter (\<lambda>c. \<not> list_ex (\<lambda>r. truthy_opt (ch_replaces r) \<and> ch_replaces r = Some (ch_id c)) records) records of
              [h] \<Rightarrow>
                (case charterAccountingChain R h of
                   Inl e \<Rightarrow> Inl e
                 | Inr chain \<Rightarrow> if length chain = length records then Inr (Some h) else Inl CeLineage)
            | _ \<Rightarrow> Inl CeLineage))"

section \<open>Usage\<close>

definition charged :: "(ms \<Rightarrow> bool) \<Rightarrow> ledger_entry \<Rightarrow> rat" where
  "charged window e =
    (case e of
       Charge c \<Rightarrow> if window (lc_ts c) then lc_money c else 0
     | Release r \<Rightarrow> if window (lr_consumption_ts r) then - lr_money r else 0
     | _ \<Rightarrow> 0)"

definition spent :: "(ms \<Rightarrow> bool) \<Rightarrow> ledger_entry list \<Rightarrow> rat" where
  "spent window es = sum_list (map (charged window) es)"

fun standing_tripwires :: "ledger_entry list \<Rightarrow> string list \<Rightarrow> string list" where
  "standing_tripwires [] s = s"
| "standing_tripwires (e # es) s =
    standing_tripwires es
      (case e of
         Tripwire _ t \<Rightarrow> if t \<in> set s then s else s @ [t]
       | TripwireClear _ t _ \<Rightarrow> filter (\<lambda>x. x \<noteq> t) s
       | _ \<Rightarrow> s)"

definition loadCharterUsage :: "registry \<Rightarrow> charter \<Rightarrow> ms \<Rightarrow> charter_error + charter_usage" where
  "loadCharterUsage R c now =
    (case charterAccountingChain R c of
       Inl e \<Rightarrow> Inl e
     | Inr chain \<Rightarrow>
         (let events = js_sort_by (\<lambda>a b. entry_ts a \<le> entry_ts b) (concat (map (\<lambda>x. ledger_of R (ch_id x)) chain))
          in Inr \<lparr>us_today = spent (\<lambda>t. utc_day t = utc_day now) events,
                  us_month = spent (\<lambda>t. utc_month t = utc_month now) events,
                  us_tripwires = standing_tripwires events []\<rparr>))"

end
