(* ===== verification/Charter_Ops.thy ===== *)
theory Charter_Ops
  imports Charter_Registry
begin

text \<open>
  The operations of the charter registry: acceptance and retirement of a charter, tripwires, consumption, denials,
  execution evidence, the release of a reservation, and a decision under the charter in force. Each gives an error or
  its result with the new directory; an error leaves the directory unchanged.
\<close>

type_synonym 'a charter_result = "charter_error + 'a \<times> registry"

definition put_entry :: "registry \<Rightarrow> string \<Rightarrow> ledger_entry \<Rightarrow> registry" where
  "put_entry R i e = R\<lparr>rg_ledgers := AList.update i (ledger_of R i @ [e]) (rg_ledgers R)\<rparr>"

text \<open>Consumption, denials and delegated executions need an existing charter file; the other entries are appended as they come.\<close>

definition needs_charter :: "ledger_entry \<Rightarrow> bool" where
  "needs_charter e = (case e of Charge _ \<Rightarrow> True | Denial _ \<Rightarrow> True | Delegated _ \<Rightarrow> True | _ \<Rightarrow> False)"

definition appendLedger :: "registry \<Rightarrow> string \<Rightarrow> ledger_entry \<Rightarrow> charter_error + registry" where
  "appendLedger R i e =
    (if \<not> charter_id_ok i then Inl CeBadId
     else if needs_charter e then
       (case readCharter R i of
          Inl err \<Rightarrow> Inl err
        | Inr None \<Rightarrow> Inl CeNoCharter
        | Inr (Some _) \<Rightarrow> Inr (put_entry R i e))
     else Inr (put_entry R i e))"

definition appendDelegatedExecutionRecord :: "registry \<Rightarrow> charter \<Rightarrow> delegated_execution \<Rightarrow> charter_error + registry" where
  "appendDelegatedExecutionRecord R c x = appendLedger R (ch_id c) (Delegated x)"

definition readLedger :: "registry \<Rightarrow> charter \<Rightarrow> charter_error + ledger_entry list" where
  "readLedger R c = (if charter_id_ok (ch_id c) then Inr (ledger_of R (ch_id c)) else Inl CeBadId)"

definition holders :: "charter \<Rightarrow> string list" where
  "holders c = cc_actor (ch_accountable c) # cc_deputies (ch_accountable c)"

section \<open>Lifecycle\<close>

definition retireCharter :: "registry \<Rightarrow> charter \<Rightarrow> actor_ref \<Rightarrow> string \<Rightarrow> ms \<Rightarrow> charter_error + registry" where
  "retireCharter R c who reason now =
    (if ar_kind who \<noteq> HumanActor then Inl CeNotHuman
     else if ar_id who \<notin> set (holders c) then Inl CeMayNotRetire
     else appendLedger R (ch_id c) (RetiredEntry now (ar_id who) reason))"

datatype lifecycle = LifeActive | LifeRenewal | LifeNew

record accept_input =
  in_draft :: charter
  in_statement :: string
  in_acceptedBy :: actor_ref
  in_replaces :: "string option"
  in_expected :: "lifecycle option"
  in_holder :: holder_role
  in_parent :: "envelope option"
  in_now :: ms

text \<open>The draft never chooses its time of acceptance, its digest or its ancestry; its scope is that of the directory.\<close>

definition drafted :: "(string \<Rightarrow> string) \<Rightarrow> registry \<Rightarrow> accept_input \<Rightarrow> charter" where
  "drafted sha R i =
    (in_draft i)\<lparr>ch_replaces := None, ch_scope := rg_scope R,
       ch_accountable := (ch_accountable (in_draft i))\<lparr>cc_accepted := At (in_now i), cc_statement := sha (in_statement i)\<rparr>\<rparr>"

definition add_charter :: "registry \<Rightarrow> charter \<Rightarrow> registry" where
  "add_charter R c = R\<lparr>rg_charters := rg_charters R @ [c]\<rparr>"

definition replace_charter :: "registry \<Rightarrow> charter \<Rightarrow> charter \<Rightarrow> accept_input \<Rightarrow> charter charter_result" where
  "replace_charter R old c i =
    (if in_replaces i \<noteq> Some (ch_id old) then Inl CeMustReplace
     else
       (case loadCharterUsage R old (in_now i) of
          Inl e \<Rightarrow> Inl e
        | Inr us \<Rightarrow>
            if \<not> set (at_tripwires (ch_appetite old)) \<subseteq> set (at_tripwires (ch_appetite c)) then Inl CeLineage
            else if \<not> set (us_tripwires us) \<subseteq> set (at_tripwires (ch_appetite c)) then Inl CeLineage
            else
              (case retireCharter R old (in_acceptedBy i) (replaced_reason (ch_id c)) (in_now i) of
                 Inl e \<Rightarrow> Inl e
               | Inr R' \<Rightarrow>
                   (let c' = c\<lparr>ch_replaces := Some (ch_id old)\<rparr> in Inr (c', add_charter R' c')))))"

definition acceptCharter :: "url_parser \<Rightarrow> (string \<Rightarrow> string) \<Rightarrow> registry \<Rightarrow> accept_input \<Rightarrow> charter charter_result" where
  "acceptCharter u sha R i =
    (let c = drafted sha R i; violations = validateCharter u c (in_holder i) (in_parent i)
     in if ar_kind (in_acceptedBy i) \<noteq> HumanActor then Inl CeNotHuman
        else if ar_id (in_acceptedBy i) \<noteq> cc_actor (ch_accountable (in_draft i)) then Inl CeNotAccountable
        else if js_trim (in_statement i) = [] then Inl CeNoStatement
        else if violations \<noteq> [] then Inl (CeInvalid violations)
        else if \<not> charter_id_ok (ch_id c) then Inl CeBadId
        else if find_charter R (ch_id c) \<noteq> None then Inl CeExists
        else
          (case findActiveCharter R (in_now i) of
             Inl e \<Rightarrow> Inl e
           | Inr active \<Rightarrow>
               (case (case active of Some a \<Rightarrow> Inr (Some a) | None \<Rightarrow> findLatestCharterForRenewal R) of
                  Inl e \<Rightarrow> Inl e
                | Inr inForce \<Rightarrow>
                    (let life = (if active \<noteq> None then LifeActive else if inForce \<noteq> None then LifeRenewal else LifeNew)
                     in if in_expected i \<noteq> None \<and> in_expected i \<noteq> Some life then Inl CeLifecycle
                        else
                          (case inForce of
                             Some old \<Rightarrow> replace_charter R old c i
                           | None \<Rightarrow>
                               if truthy_opt (in_replaces i) then Inl CeNothingToReplace
                               else Inr (c, add_charter R c))))))"

section \<open>Tripwires\<close>

definition recordTripwire :: "registry \<Rightarrow> charter \<Rightarrow> string \<Rightarrow> ms \<Rightarrow> charter_error + registry" where
  "recordTripwire R c t now =
    (if t \<notin> set (at_tripwires (ch_appetite c)) then Inl CeUnknownTripwire
     else appendLedger R (ch_id c) (Tripwire now t))"

definition clearTripwire :: "registry \<Rightarrow> charter \<Rightarrow> string \<Rightarrow> actor_ref \<Rightarrow> ms \<Rightarrow> charter_error + registry" where
  "clearTripwire R c t who now =
    (if ar_kind who \<noteq> HumanActor then Inl CeNotHuman
     else if ar_id who \<notin> set (holders c) then Inl CeMayNotClear
     else appendLedger R (ch_id c) (TripwireClear now t (ar_id who)))"

section \<open>Consumption\<close>

definition charge_recorded :: "ledger_entry list \<Rightarrow> string \<Rightarrow> string option \<Rightarrow> bool" where
  "charge_recorded es cls corr =
    (truthy_opt corr \<and>
     list_ex (\<lambda>e. case e of Charge c \<Rightarrow> lc_correlation c = corr \<and> lc_class c = cls | _ \<Rightarrow> False) es)"

definition denial_recorded :: "ledger_entry list \<Rightarrow> string \<Rightarrow> string option \<Rightarrow> bool" where
  "denial_recorded es cls corr =
    (truthy_opt corr \<and>
     list_ex (\<lambda>e. case e of Denial d \<Rightarrow> ld_correlation d = corr \<and> ld_class d = cls | _ \<Rightarrow> False) es)"

definition keep_truthy :: "string option \<Rightarrow> string option" where
  "keep_truthy s = (if truthy_opt s then s else None)"

definition recordCharterConsumption ::
  "registry \<Rightarrow> charter \<Rightarrow> charter_action \<Rightarrow> charter_decision \<Rightarrow> ms \<Rightarrow> string option \<Rightarrow> bool charter_result" where
  "recordCharterConsumption R c x d now corr =
    (if \<not> allows d then Inr (False, R)
     else
       (case readLedger R c of
          Inl e \<Rightarrow> Inl e
        | Inr es \<Rightarrow>
            if charge_recorded es (xa_class x) corr then Inr (False, R)
            else
              (case appendLedger R (ch_id c)
                      (Charge \<lparr>lc_ts = now, lc_actor = ar_id (xa_actor x), lc_behalf = keep_truthy (ar_on_behalf (xa_actor x)),
                         lc_class = xa_class x, lc_money = cd_money d, lc_loss = cd_loss d, lc_decision = cd_decision d,
                         lc_correlation = keep_truthy corr\<rparr>) of
                 Inl e \<Rightarrow> Inl e
               | Inr R' \<Rightarrow> Inr (True, R'))))"

definition recordCharterDenial ::
  "registry \<Rightarrow> charter \<Rightarrow> charter_action \<Rightarrow> charter_decision \<Rightarrow> ms \<Rightarrow> string option \<Rightarrow> bool charter_result" where
  "recordCharterDenial R c x d now corr =
    (if cd_decision d \<noteq> DkDeny then Inr (False, R)
     else
       (case readLedger R c of
          Inl e \<Rightarrow> Inl e
        | Inr es \<Rightarrow>
            if denial_recorded es (xa_class x) corr then Inr (False, R)
            else
              (case appendLedger R (ch_id c)
                      (Denial \<lparr>ld_ts = now, ld_actor = ar_id (xa_actor x), ld_behalf = keep_truthy (ar_on_behalf (xa_actor x)),
                         ld_class = xa_class x, ld_reasons = cd_reasons d,
                         ld_flow = map_option (\<lambda>f. \<lparr>df_purpose = ff_purpose f,
                           df_recipient_class = keep_truthy (ff_recipient_class f),
                           df_processor_id = keep_truthy (ff_processor_id f), df_categories = ff_categories f\<rparr>) (xa_flow x),
                         ld_amendment = cd_amendment d, ld_correlation = keep_truthy corr\<rparr>) of
                 Inl e \<Rightarrow> Inl e
               | Inr R' \<Rightarrow> Inr (True, R'))))"

section \<open>Execution evidence\<close>

definition admitted :: "ledger_entry list \<Rightarrow> execution \<Rightarrow> bool" where
  "admitted es ev =
    list_ex (\<lambda>e. case e of
        Charge c \<Rightarrow> lc_correlation c = Some (le_correlation ev) \<and> lc_class c = le_class ev \<and> lc_actor c = le_actor ev
      | _ \<Rightarrow> False) es"

fun first_started :: "ledger_entry list \<Rightarrow> string \<Rightarrow> execution option" where
  "first_started [] corr = None"
| "first_started (e # es) corr =
    (case e of Started t s \<Rightarrow> if le_correlation s = corr then Some s else first_started es corr | _ \<Rightarrow> first_started es corr)"

fun last_outcome :: "ledger_entry list \<Rightarrow> string \<Rightarrow> (execution \<times> execution_outcome) option" where
  "last_outcome [] corr = None"
| "last_outcome (e # es) corr =
    (case last_outcome es corr of
       Some o' \<Rightarrow> Some o'
     | None \<Rightarrow> (case e of Outcome t s r \<Rightarrow> if le_correlation s = corr then Some (s, r) else None | _ \<Rightarrow> None))"

definition recordCharterExecutionStarted :: "registry \<Rightarrow> charter \<Rightarrow> execution \<Rightarrow> ms \<Rightarrow> charter_error + registry" where
  "recordCharterExecutionStarted R c ev now =
    (case readLedger R c of
       Inl e \<Rightarrow> Inl e
     | Inr es \<Rightarrow>
         if \<not> admitted es ev then Inl CeAdmissionMissing
         else if first_started es (le_correlation ev) \<noteq> None then Inl CeAlreadyStarted
         else appendLedger R (ch_id c) (Started now ev))"

text \<open>Evidence of the same effect: the whole record of the execution.\<close>

definition outcome_accepted :: "ledger_entry list \<Rightarrow> execution \<Rightarrow> execution_outcome \<Rightarrow> bool" where
  "outcome_accepted es ev r =
    (admitted es ev \<and>
     (case first_started es (le_correlation ev) of None \<Rightarrow> True | Some s \<Rightarrow> s = ev) \<and>
     (case last_outcome es (le_correlation ev) of
        None \<Rightarrow> True
      | Some (s, r') \<Rightarrow> r' = OutUnknown \<and> r \<noteq> OutUnknown \<and> s = ev))"

definition external_failure :: string where
  "external_failure = ''external_operation_failure''"

definition recordCharterExecutionOutcome ::
  "registry \<Rightarrow> charter \<Rightarrow> execution \<Rightarrow> execution_outcome \<Rightarrow> ms \<Rightarrow> bool charter_result" where
  "recordCharterExecutionOutcome R c ev r now =
    (case readLedger R c of
       Inl e \<Rightarrow> Inl e
     | Inr es \<Rightarrow>
         if \<not> outcome_accepted es ev r then Inr (False, R)
         else
           (case appendLedger R (ch_id c) (Outcome now ev r) of
              Inl e \<Rightarrow> Inl e
            | Inr R' \<Rightarrow>
                if r = OutFailed \<and> external_failure \<in> set (at_tripwires (ch_appetite c)) then
                  (case recordTripwire R' c external_failure now of Inl e \<Rightarrow> Inl e | Inr R'' \<Rightarrow> Inr (True, R''))
                else Inr (True, R')))"

section \<open>Release of a reservation\<close>

definition released :: "ledger_entry list \<Rightarrow> string \<Rightarrow> bool" where
  "released es corr = list_ex (\<lambda>e. case e of Release r \<Rightarrow> lr_correlation r = corr | _ \<Rightarrow> False) es"

fun find_reservation :: "ledger_entry list \<Rightarrow> string \<Rightarrow> charge option" where
  "find_reservation [] corr = None"
| "find_reservation (e # es) corr =
    (case e of
       Charge c \<Rightarrow> if lc_class c = ''payment'' \<and> lc_correlation c = Some corr then Some c else find_reservation es corr
     | _ \<Rightarrow> find_reservation es corr)"

definition releaseCharterPaymentReservation ::
  "registry \<Rightarrow> charter \<Rightarrow> string \<Rightarrow> release_resolution \<Rightarrow> string \<Rightarrow> ms \<Rightarrow> bool charter_result" where
  "releaseCharterPaymentReservation R c corr resolution evidence now =
    (if js_trim evidence = [] then Inl CeNoEvidence
     else
       (case readLedger R c of
          Inl e \<Rightarrow> Inl e
        | Inr es \<Rightarrow>
            if released es corr then Inr (False, R)
            else
              (case find_reservation es corr of
                 None \<Rightarrow> Inr (False, R)
               | Some k \<Rightarrow>
                   (case appendLedger R (ch_id c)
                           (Release \<lparr>lr_ts = now, lr_correlation = corr, lr_consumption_ts = lc_ts k, lr_money = lc_money k,
                              lr_evidence = evidence, lr_resolution = resolution\<rparr>) of
                      Inl e \<Rightarrow> Inl e
                    | Inr R' \<Rightarrow> Inr (True, R')))))"

section \<open>Decisions\<close>

definition evaluateUnderCharter ::
  "url_parser \<Rightarrow> registry \<Rightarrow> charter_action \<Rightarrow> availability \<Rightarrow> ms \<Rightarrow> charter_error + (charter \<times> charter_decision) option" where
  "evaluateUnderCharter u R x av now =
    (case findActiveCharter R now of
       Inl e \<Rightarrow> Inl e
     | Inr None \<Rightarrow> Inr None
     | Inr (Some c) \<Rightarrow>
         (case loadCharterUsage R c now of
            Inl e \<Rightarrow> Inl e
          | Inr us \<Rightarrow> Inr (Some (c, evaluateAgainstCharter u c x us av now))))"

definition decideUnderCharter ::
  "url_parser \<Rightarrow> registry \<Rightarrow> charter_action \<Rightarrow> availability \<Rightarrow> ms \<Rightarrow> charter_decision option charter_result" where
  "decideUnderCharter u R x av now =
    (case evaluateUnderCharter u R x av now of
       Inl e \<Rightarrow> Inl e
     | Inr None \<Rightarrow> Inr (None, R)
     | Inr (Some (c, d)) \<Rightarrow>
         (case recordCharterConsumption R c x d now None of
            Inl e \<Rightarrow> Inl e
          | Inr (_, R') \<Rightarrow> Inr (Some d, R')))"

end
