(* ===== verification/Js_Pattern.thy ===== *)
theory Js_Pattern
  imports Kyb_Prelude
begin

text \<open>
  The regular expressions of the policies: literals without regard to the case of the letters \<open>a\<close> to \<open>z\<close>
  (flag \<open>i\<close>), white space, any character but a line end, word boundaries, sequences and alternatives. The matcher
  computes, from a place in the text, the places where a match may end; a place is the character before it and the
  text after it. \<open>rx_test\<close> is \<open>RegExp.prototype.test\<close>.
\<close>

section \<open>Patterns and their matcher\<close>

datatype rx =
    Lit string
  | Spaces bool \<comment> \<open>white space, at least one when true\<close>
  | AnyRun \<comment> \<open>\<open>.*\<close>\<close>
  | Boundary \<comment> \<open>\<open>\b\<close>\<close>
  | Seq rx rx
  | Or rx rx

type_synonym rx_place = "char option \<times> string"

definition ci_char :: "char \<Rightarrow> char" where
  "ci_char c = (let n = of_char c :: nat in if 65 \<le> n \<and> n \<le> 90 then char_of (n + 32) else c)"

definition is_word_char :: "char \<Rightarrow> bool" where
  "is_word_char c =
    (let n = of_char c :: nat
     in (65 \<le> n \<and> n \<le> 90) \<or> (97 \<le> n \<and> n \<le> 122) \<or> (48 \<le> n \<and> n \<le> 57) \<or> n = 95)"

definition is_line_end :: "char \<Rightarrow> bool" where
  "is_line_end c = (let n = of_char c :: nat in n = 10 \<or> n = 13)"

fun eat :: "string \<Rightarrow> rx_place \<Rightarrow> rx_place option" where
  "eat [] p = Some p"
| "eat (w # ws) (b, []) = None"
| "eat (w # ws) (b, c # cs) = (if ci_char w = ci_char c then eat ws (Some c, cs) else None)"

text \<open>The places after each run of characters that fulfil a condition, the longest first.\<close>

fun runs :: "(char \<Rightarrow> bool) \<Rightarrow> char option \<Rightarrow> string \<Rightarrow> rx_place list" where
  "runs P b [] = [(b, [])]"
| "runs P b (c # cs) = (if P c then runs P (Some c) cs @ [(b, c # cs)] else [(b, c # cs)])"

definition at_boundary :: "rx_place \<Rightarrow> bool" where
  "at_boundary p =
    (case p of (b, s) \<Rightarrow>
       (case b of None \<Rightarrow> False | Some c \<Rightarrow> is_word_char c) \<noteq> (case s of [] \<Rightarrow> False | c # _ \<Rightarrow> is_word_char c))"

fun rx_ends :: "rx \<Rightarrow> rx_place \<Rightarrow> rx_place list" where
  "rx_ends (Lit w) p = (case eat w p of None \<Rightarrow> [] | Some q \<Rightarrow> [q])"
| "rx_ends (Spaces some) p =
    (case p of (b, s) \<Rightarrow>
       if some then (case s of [] \<Rightarrow> [] | c # cs \<Rightarrow> if is_js_space c then runs is_js_space (Some c) cs else [])
       else runs is_js_space b s)"
| "rx_ends AnyRun p = (case p of (b, s) \<Rightarrow> runs (\<lambda>c. \<not> is_line_end c) b s)"
| "rx_ends Boundary p = (if at_boundary p then [p] else [])"
| "rx_ends (Seq r q) p = concat (map (rx_ends q) (rx_ends r p))"
| "rx_ends (Or r q) p = rx_ends r p @ rx_ends q p"

fun rx_search :: "rx \<Rightarrow> char option \<Rightarrow> string \<Rightarrow> bool" where
  "rx_search r b [] = (rx_ends r (b, []) \<noteq> [])"
| "rx_search r b (c # cs) = (rx_ends r (b, c # cs) \<noteq> [] \<or> rx_search r (Some c) cs)"

definition rx_test :: "rx \<Rightarrow> string \<Rightarrow> bool" where
  "rx_test r s = rx_search r None s"

text \<open>A pattern anchored at the start of the text.\<close>

definition rx_test_start :: "rx \<Rightarrow> string \<Rightarrow> bool" where
  "rx_test_start r s = (rx_ends r (None, s) \<noteq> [])"

fun rx_any :: "string list \<Rightarrow> rx" where
  "rx_any [] = Or (Lit []) (Lit [])"
| "rx_any [w] = Lit w"
| "rx_any (w # ws) = Or (Lit w) (rx_any ws)"

text \<open>\<open>indexOf\<close> of a text, with regard to case.\<close>

fun js_index_of :: "string \<Rightarrow> string \<Rightarrow> int" where
  "js_index_of w [] = (if w = [] then 0 else -1)"
| "js_index_of w (c # cs) =
    (if take (length w) (c # cs) = w then 0
     else (let i = js_index_of w cs in if i < 0 then -1 else i + 1))"

section \<open>The language of a pattern\<close>

text \<open>The matcher decides the declarative meaning of a pattern: the texts it takes from a place.\<close>

inductive rx_takes :: "rx \<Rightarrow> char option \<Rightarrow> string \<Rightarrow> string \<Rightarrow> bool" where
  lit: "map ci_char w = map ci_char v \<Longrightarrow> rx_takes (Lit w) b v s"
| spaces: "list_all is_js_space v \<Longrightarrow> some \<longrightarrow> v \<noteq> [] \<Longrightarrow> rx_takes (Spaces some) b v s"
| any: "list_all (\<lambda>c. \<not> is_line_end c) v \<Longrightarrow> rx_takes AnyRun b v s"
| boundary: "at_boundary (b, s) \<Longrightarrow> rx_takes Boundary b [] s"
| seq: "rx_takes r b v (w @ s) \<Longrightarrow> rx_takes q (if v = [] then b else Some (last v)) w s \<Longrightarrow> rx_takes (Seq r q) b (v @ w) s"
| left: "rx_takes r b v s \<Longrightarrow> rx_takes (Or r q) b v s"
| right: "rx_takes q b v s \<Longrightarrow> rx_takes (Or r q) b v s"

inductive_simps rx_takes_Lit [simp]: "rx_takes (Lit w) b v s"
inductive_simps rx_takes_Spaces [simp]: "rx_takes (Spaces some) b v s"
inductive_simps rx_takes_Any [simp]: "rx_takes AnyRun b v s"
inductive_simps rx_takes_Boundary [simp]: "rx_takes Boundary b v s"
inductive_simps rx_takes_Seq_if: "rx_takes (Seq r q) b v s"
inductive_simps rx_takes_Or [simp]: "rx_takes (Or r q) b v s"

definition before :: "char option \<Rightarrow> string \<Rightarrow> char option" where
  "before b v = (if v = [] then b else Some (last v))"

lemma before_simps [simp]: "before b [] = b" "before b (c # v) = before (Some c) v"
  by (simp_all add: before_def)

lemma before_append [simp]: "before b (v @ w) = before (before b v) w"
  by (simp add: before_def)

lemma rx_takes_Seq:
  "rx_takes (Seq r q) b v s \<longleftrightarrow> (\<exists>x w. v = x @ w \<and> rx_takes r b x (w @ s) \<and> rx_takes q (before b x) w s)"
  unfolding before_def by (rule rx_takes_Seq_if)

lemma eat_iff: "eat w (b, s) = Some q \<longleftrightarrow> (\<exists>v s'. s = v @ s' \<and> map ci_char w = map ci_char v \<and> q = (before b v, s'))"
proof (induction w arbitrary: b s)
  case Nil
  then show ?case by auto
next
  case (Cons x w)
  show ?case by (cases s) (auto simp: Cons.IH Cons_eq_append_conv Cons_eq_map_conv)
qed

lemma runs_iff: "(b', s') \<in> set (runs P b s) \<longleftrightarrow> (\<exists>v. s = v @ s' \<and> list_all P v \<and> b' = before b v)"
proof (induction s arbitrary: b)
  case Nil
  then show ?case by auto
next
  case (Cons c s)
  show ?case by (auto simp: Cons.IH Cons_eq_append_conv)
qed

lemma rx_ends_iff: "(b', s') \<in> set (rx_ends r (b, s)) \<longleftrightarrow> (\<exists>v. s = v @ s' \<and> rx_takes r b v s' \<and> b' = before b v)"
proof (induction r arbitrary: b s b' s')
  case (Lit w)
  have "(b', s') \<in> set (rx_ends (Lit w) (b, s)) \<longleftrightarrow> eat w (b, s) = Some (b', s')" by (auto split: option.splits)
  then show ?case by (auto simp: eat_iff)
next
  case (Spaces some)
  have "(b', s') \<in> set (runs is_js_space b s) \<longleftrightarrow> (\<exists>v. s = v @ s' \<and> rx_takes (Spaces False) b v s' \<and> b' = before b v)"
    by (auto simp: runs_iff)
  moreover have "(b', s') \<in> set (rx_ends (Spaces True) (b, s)) \<longleftrightarrow>
      (\<exists>v. s = v @ s' \<and> rx_takes (Spaces True) b v s' \<and> b' = before b v)"
  proof (cases s)
    case (Cons c cs)
    then show ?thesis
      by (auto simp: runs_iff Cons_eq_append_conv)
  qed auto
  ultimately show ?case by (cases some) simp_all
next
  case AnyRun
  then show ?case by (auto simp: runs_iff)
next
  case Boundary
  then show ?case by auto
next
  case (Seq r q)
  have "(b', s') \<in> set (rx_ends (Seq r q) (b, s)) \<longleftrightarrow>
      (\<exists>c t. (c, t) \<in> set (rx_ends r (b, s)) \<and> (b', s') \<in> set (rx_ends q (c, t)))" by auto
  also have "\<dots> \<longleftrightarrow> (\<exists>v w. s = v @ w @ s' \<and> rx_takes r b v (w @ s') \<and> rx_takes q (before b v) w s' \<and>
      b' = before (before b v) w)" unfolding Seq.IH by blast
  also have "\<dots> \<longleftrightarrow> (\<exists>v. s = v @ s' \<and> rx_takes (Seq r q) b v s' \<and> b' = before b v)"
    unfolding rx_takes_Seq by (metis append_assoc before_append)
  finally show ?case .
next
  case (Or r q)
  show ?case by (auto simp: Or.IH)
qed

lemma nonempty_pairs: "xs \<noteq> [] \<longleftrightarrow> (\<exists>a b. (a, b) \<in> set xs)"
  by (cases xs) (auto simp: split_paired_Ex [symmetric])

lemma ex_list: "(\<exists>x. P x) \<longleftrightarrow> P [] \<or> (\<exists>y ys. P (y # ys))"
  by (metis list.exhaust)

lemma rx_search_iff: "rx_search r b s \<longleftrightarrow> (\<exists>x v t. s = x @ v @ t \<and> rx_takes r (before b x) v t)"
proof (induction s arbitrary: b)
  case Nil
  show ?case by (simp add: nonempty_pairs rx_ends_iff)
next
  case (Cons c s)
  have "(\<exists>x v t. c # s = x @ v @ t \<and> rx_takes r (before b x) v t) \<longleftrightarrow>
      (\<exists>v t. c # s = v @ t \<and> rx_takes r b v t) \<or> (\<exists>x v t. s = x @ v @ t \<and> rx_takes r (before (Some c) x) v t)"
    by (subst ex_list) auto
  then show ?case by (simp add: nonempty_pairs rx_ends_iff Cons.IH) blast
qed

text \<open>The test finds a match exactly when some part of the text is taken at its place.\<close>

lemma rx_test_iff: "rx_test r s \<longleftrightarrow> (\<exists>x v t. s = x @ v @ t \<and> rx_takes r (before None x) v t)"
  by (simp add: rx_test_def rx_search_iff)

end
