(* ===== verification/Approval_Policy.thy ===== *)
theory Approval_Policy
  imports Approval_Gate Json Js_Pattern
begin

text \<open>
  The approval policy, \<open>src/libs/core/governance/approval-policy.ts\<close>: which operations need an approval, by the rules
  of the policy file, by built-in rules for dangerous operations, by the floor of a suspected injection and by the
  strict posture; the assurance floor of an effect; and the authority an intent has in the registry of subjects.

  Parameters, in the record of the environment: whether a policy file exists, what it says (\<open>None\<close> when it cannot be
  read or breaks its schema), the injection signal, the posture, and the decimal text of a number. Warnings are left
  out. An intent identifier that is absent is the empty text, as the code treats both alike.
\<close>

section \<open>The policy file\<close>

record policy_rule =
  pr_id :: string
  pr_intent_ids :: "string list option"
  pr_payload_field :: "string option"
  pr_any_of :: "string list option"
  pr_requires_approval :: bool
  pr_missing :: "string list option"
  pr_min_assurance :: "assurance_level option"

record policy_file =
  pf_separation :: "bool option"
  pf_assurance_mode :: "assurance_mode option"
  pf_cooldown_hours :: "rat option"
  pf_rules :: "policy_rule list option"
  pf_default_requires :: "bool option"

record policy_env =
  pe_present :: bool
  pe_policy :: "policy_file option"
  pe_injection :: bool
  pe_strict :: bool
  pe_number_text :: "rat \<Rightarrow> string"

definition policy_rules :: "policy_file \<Rightarrow> policy_rule list" where
  "policy_rules f = (case pf_rules f of None \<Rightarrow> [] | Some rs \<Rightarrow> rs)"

text \<open>\<open>None\<close>: a file that is present and cannot be read stops the decision.\<close>

definition resolveSeparationOfDutiesPolicy :: "policy_env \<Rightarrow> bool option" where
  "resolveSeparationOfDutiesPolicy p =
    (if \<not> pe_present p then Some False
     else (case pe_policy p of None \<Rightarrow> None | Some f \<Rightarrow> Some (pf_separation f = Some True)))"

definition resolvePolicyApprovalAssuranceMode :: "policy_env \<Rightarrow> assurance_mode option" where
  "resolvePolicyApprovalAssuranceMode p =
    (if \<not> pe_present p then None
     else (case pe_policy p of None \<Rightarrow> Some EnforceMode | Some f \<Rightarrow> pf_assurance_mode f))"

definition DEFAULT_PASSKEY_ENROLLMENT_COOLDOWN_HOURS :: rat where
  "DEFAULT_PASSKEY_ENROLLMENT_COOLDOWN_HOURS = 24"

definition MIN_PASSKEY_ENROLLMENT_COOLDOWN_HOURS :: rat where
  "MIN_PASSKEY_ENROLLMENT_COOLDOWN_HOURS = 1"

definition resolvePasskeyEnrollmentCooldownHours :: "policy_env \<Rightarrow> rat" where
  "resolvePasskeyEnrollmentCooldownHours p =
    (if \<not> pe_present p then DEFAULT_PASSKEY_ENROLLMENT_COOLDOWN_HOURS
     else
       (case pe_policy p of
          None \<Rightarrow> DEFAULT_PASSKEY_ENROLLMENT_COOLDOWN_HOURS
        | Some f \<Rightarrow>
            (case pf_cooldown_hours f of
               None \<Rightarrow> DEFAULT_PASSKEY_ENROLLMENT_COOLDOWN_HOURS
             | Some h \<Rightarrow> max MIN_PASSKEY_ENROLLMENT_COOLDOWN_HOURS h)))"

section \<open>Dangerous operations\<close>

text \<open>\<open>a ?? b ?? c\<close> over the fields of the payload, and the empty text at the end.\<close>

fun first_field :: "json \<Rightarrow> string list \<Rightarrow> json" where
  "first_field payload [] = JStr []"
| "first_field payload (k # ks) = (if jnullish (jget payload k) then first_field payload ks else jget payload k)"

definition command_text :: "policy_env \<Rightarrow> json \<Rightarrow> string" where
  "command_text p payload = js_string (pe_number_text p) (first_field payload [''command'', ''cmd'', ''script''])"

definition operation_text :: "policy_env \<Rightarrow> json \<Rightarrow> string" where
  "operation_text p payload = js_string (pe_number_text p) (first_field payload [''operation'', ''action''])"

definition shell_names :: "string list" where
  "shell_names = [''sh'', ''bash'', ''zsh'', ''fish'']"

definition pipe_into_shell :: "string \<Rightarrow> rx" where
  "pipe_into_shell tool =
    Seq (Lit tool) (Seq (Spaces True) (Seq AnyRun (Seq (Lit ''|'') (Seq (Spaces False) (rx_any shell_names)))))"

definition decode_base64 :: rx where
  "decode_base64 = Seq (Lit ''base64'') (Seq (Spaces True) (Seq (Lit ''-'') (rx_any [''d'', ''decode''])))"

definition remove_all :: rx where
  "remove_all = Seq (Lit ''rm'') (Seq (Spaces True) (Lit ''-rf''))"

definition eval_word :: rx where
  "eval_word = Seq (Lit ''eval'') (Seq (Spaces True) (Lit []))"

definition exec_call :: rx where
  "exec_call = Seq Boundary (Seq (Lit ''exec'') (Seq (Spaces False) (Lit ''('')))"

definition dangerous_command :: rx where
  "dangerous_command =
    Or remove_all (Or (pipe_into_shell ''curl'') (Or (pipe_into_shell ''wget'') (Or decode_base64 (Or eval_word exec_call))))"

definition shell_intent :: rx where
  "shell_intent = rx_any [''shell'', ''command'', ''exec'', ''run_shell'', ''bash'']"

definition egress_intent :: rx where
  "egress_intent = rx_any [''egress'', ''network'', ''http'', ''https'', ''fetch'', ''request'']"

definition secret_intent :: rx where
  "secret_intent = rx_any [''secret'', ''vault:write'', ''auth:grant'', ''credential'', ''token'', ''password'']"

definition deploy_intent :: rx where
  "deploy_intent = rx_any [''deploy'', ''release'', ''publish'', ''production'', ''restart'', ''stop'', ''start'', ''delete'',
     ''destroy'', ''remove'']"

definition deploy_action :: rx where
  "deploy_action = rx_any [''restart'', ''stop'', ''start'', ''delete'', ''destroy'', ''remove'', ''wipe'', ''purge'']"

definition is_egress :: "string \<Rightarrow> json \<Rightarrow> bool" where
  "is_egress intent payload =
    (rx_test egress_intent intent \<or> jtruthy (jget payload ''url'') \<or> jtruthy (jget payload ''base_url''))"

record dangerous_rule =
  dr_id :: string
  dr_matches :: "policy_env \<Rightarrow> string \<Rightarrow> json \<Rightarrow> bool"
  dr_missing :: "string list"

definition HARD_CODED_DANGEROUS_RULES :: "dangerous_rule list" where
  "HARD_CODED_DANGEROUS_RULES =
    [\<lparr>dr_id = ''fallback-dangerous-shell'',
      dr_matches = (\<lambda>p intent payload. rx_test shell_intent intent \<or> rx_test dangerous_command (command_text p payload)),
      dr_missing = [''approval_confirmation'']\<rparr>,
     \<lparr>dr_id = ''fallback-dangerous-egress'', dr_matches = (\<lambda>p intent payload. is_egress intent payload),
      dr_missing = [''approval_confirmation'']\<rparr>,
     \<lparr>dr_id = ''fallback-dangerous-secret'', dr_matches = (\<lambda>p intent payload. rx_test secret_intent intent),
      dr_missing = [''dual_key_confirmation'']\<rparr>,
     \<lparr>dr_id = ''fallback-dangerous-deploy'',
      dr_matches = (\<lambda>p intent payload. rx_test deploy_intent intent \<or> rx_test deploy_action (operation_text p payload)),
      dr_missing = [''approval_confirmation'']\<rparr>]"

section \<open>The resolution\<close>

definition rule_matches :: "string \<Rightarrow> json \<Rightarrow> policy_rule \<Rightarrow> bool" where
  "rule_matches intent payload r =
    ((case pr_intent_ids r of
        None \<Rightarrow> True
      | Some is \<Rightarrow> is = [] \<or> (intent \<noteq> [] \<and> intent \<in> set is)) \<and>
     (case pr_payload_field r of
        None \<Rightarrow> True
      | Some f \<Rightarrow>
          f = [] \<or>
          (case jget payload f of
             JStr v \<Rightarrow> (case pr_any_of r of None \<Rightarrow> False | Some vs \<Rightarrow> v \<in> set vs)
           | _ \<Rightarrow> False)))"

definition resolve_rule :: "policy_rule \<Rightarrow> gate_policy" where
  "resolve_rule r =
    \<lparr>gp_requiresApproval = pr_requires_approval r, gp_missing = (case pr_missing r of None \<Rightarrow> [] | Some m \<Rightarrow> m),
     gp_matchedRuleId = Some (pr_id r), gp_mandatory = False, gp_minAssurance = pr_min_assurance r\<rparr>"

definition resolveBaseApprovalPolicy :: "policy_env \<Rightarrow> policy_file \<Rightarrow> string \<Rightarrow> json \<Rightarrow> gate_policy" where
  "resolveBaseApprovalPolicy p f intent payload =
    (case List.find (rule_matches intent payload) (policy_rules f) of
       Some r \<Rightarrow> resolve_rule r
     | None \<Rightarrow>
         (case List.find (\<lambda>d. dr_matches d p intent payload) HARD_CODED_DANGEROUS_RULES of
            Some d \<Rightarrow>
              \<lparr>gp_requiresApproval = True, gp_missing = dr_missing d, gp_matchedRuleId = Some (dr_id d), gp_mandatory = False,
               gp_minAssurance = None\<rparr>
          | None \<Rightarrow>
              \<lparr>gp_requiresApproval = (pf_default_requires f = Some True), gp_missing = [], gp_matchedRuleId = None,
               gp_mandatory = False, gp_minAssurance = None\<rparr>))"

definition js_slice :: "int \<Rightarrow> string \<Rightarrow> string" where
  "js_slice from s = drop (nat from) s"

definition shell_start :: rx where
  "shell_start = Seq (rx_any shell_names) Boundary"

definition hasDangerousShellPattern :: "string \<Rightarrow> bool" where
  "hasDangerousShellPattern command =
    (if command = [] then False
     else
       (let pipe = js_index_of ''|'' command;
            into_shell = (0 < pipe \<and> rx_test_start shell_start (dropWhile is_js_space (js_slice (pipe + 1) command)));
            curl = js_index_of ''curl'' command; wget = js_index_of ''wget'' command
        in rx_test remove_all command \<or>
           (into_shell \<and> ((0 \<le> curl \<and> curl < pipe) \<or> (0 \<le> wget \<and> wget < pipe))) \<or>
           rx_test decode_base64 command \<or> rx_test eval_word command \<or> rx_test exec_call command))"

definition modify_intent :: rx where
  "modify_intent = rx_any [''write'', ''edit'', ''update'', ''delete'', ''destroy'', ''remove'', ''deploy'', ''release'',
     ''publish'', ''restart'', ''stop'', ''start'']"

definition modify_action :: rx where
  "modify_action = rx_any [''write'', ''edit'', ''update'', ''delete'', ''destroy'', ''remove'', ''deploy'', ''release'',
     ''publish'', ''restart'', ''stop'', ''start'', ''wipe'', ''purge'']"

definition is_shell :: "policy_env \<Rightarrow> string \<Rightarrow> json \<Rightarrow> bool" where
  "is_shell p intent payload = (rx_test shell_intent intent \<or> hasDangerousShellPattern (command_text p payload))"

definition is_modify :: "policy_env \<Rightarrow> string \<Rightarrow> json \<Rightarrow> bool" where
  "is_modify p intent payload = (rx_test modify_intent intent \<or> rx_test modify_action (operation_text p payload))"

definition with_confirmation :: "string list \<Rightarrow> string list" where
  "with_confirmation missing = js_dedup (missing @ [''approval_confirmation''])"

definition applyInjectionFloor :: "policy_env \<Rightarrow> string \<Rightarrow> json \<Rightarrow> gate_policy \<Rightarrow> gate_policy" where
  "applyInjectionFloor p intent payload base =
    (if pe_injection p \<and> (is_egress intent payload \<or> is_shell p intent payload \<or> is_modify p intent payload)
     then \<lparr>gp_requiresApproval = True, gp_missing = with_confirmation (gp_missing base),
            gp_matchedRuleId = Some ''injection-suspected-override'', gp_mandatory = True,
            gp_minAssurance = gp_minAssurance base\<rparr>
     else base)"

text \<open>\<open>None\<close>: the policy cannot be loaded and the resolution throws.\<close>

definition resolveApprovalPolicy :: "policy_env \<Rightarrow> string \<Rightarrow> json \<Rightarrow> gate_policy option" where
  "resolveApprovalPolicy p intent payload =
    (case pe_policy p of
       None \<Rightarrow> None
     | Some f \<Rightarrow>
         (let base = applyInjectionFloor p intent payload (resolveBaseApprovalPolicy p f intent payload)
          in Some
            (if pe_strict p then
               (if gp_requiresApproval base
                then base\<lparr>gp_mandatory := True, gp_missing := with_confirmation (gp_missing base)\<rparr>
                else \<lparr>gp_requiresApproval = True, gp_missing = [''approval_confirmation''],
                       gp_matchedRuleId = Some ''strict-posture-floor'', gp_mandatory = True, gp_minAssurance = None\<rparr>)
             else base)))"

section \<open>The assurance floor of an effect\<close>

definition raise_floor :: "assurance_level option \<Rightarrow> assurance_level \<Rightarrow> assurance_level option" where
  "raise_floor lvl l =
    (case lvl of
       None \<Rightarrow> Some l
     | Some f \<Rightarrow>
         if index_of APPROVAL_ASSURANCE_LEVELS l > index_of APPROVAL_ASSURANCE_LEVELS f then Some l else Some f)"

definition consider_rule ::
  "assurance_level option \<Rightarrow> string list option \<Rightarrow> assurance_level option \<Rightarrow> assurance_level option" where
  "consider_rule minAssurance missing lvl =
    (let raised = (case minAssurance of None \<Rightarrow> lvl | Some l \<Rightarrow> raise_floor lvl l)
     in if (case missing of None \<Rightarrow> False | Some m \<Rightarrow> ''dual_key_confirmation'' \<in> set m) then raise_floor raised A3 else raised)"

definition rule_named :: "string option \<Rightarrow> string option \<Rightarrow> policy_rule \<Rightarrow> bool" where
  "rule_named ruleId effect r =
    ((truthy_opt ruleId \<and> Some (pr_id r) = ruleId) \<or>
     (truthy_opt effect \<and> (case pr_intent_ids r of None \<Rightarrow> False | Some is \<Rightarrow> the effect \<in> set is)))"

definition danger_named :: "policy_env \<Rightarrow> string option \<Rightarrow> string option \<Rightarrow> dangerous_rule \<Rightarrow> bool" where
  "danger_named p ruleId effect d =
    ((truthy_opt ruleId \<and> Some (dr_id d) = ruleId) \<or> (truthy_opt effect \<and> dr_matches d p (the effect) JUndef))"

definition resolvePolicyAssuranceFloor :: "policy_env \<Rightarrow> string option \<Rightarrow> string option \<Rightarrow> assurance_level option" where
  "resolvePolicyAssuranceFloor p ruleId effect =
    (if \<not> truthy_opt ruleId \<and> \<not> truthy_opt effect then None
     else if \<not> pe_present p then None
     else
       (case pe_policy p of
          None \<Rightarrow> Some A3
        | Some f \<Rightarrow>
            (let lvl = fold (\<lambda>r. consider_rule (pr_min_assurance r) (pr_missing r))
                           (filter (rule_named ruleId effect) (policy_rules f)) None
             in fold (\<lambda>d. consider_rule None (Some (dr_missing d)))
                  (filter (danger_named p ruleId effect) HARD_CODED_DANGEROUS_RULES) lvl)))"

section \<open>The authority of an intent\<close>

datatype authority_requirement = ApprovalAuthority "assurance_level option" bool | AdmissionAuthority

definition has_dual_key :: "string list option \<Rightarrow> bool" where
  "has_dual_key missing = (case missing of None \<Rightarrow> False | Some m \<Rightarrow> ''dual_key_confirmation'' \<in> set m)"

definition intentAxisEntry :: "policy_rule \<Rightarrow> authority_requirement" where
  "intentAxisEntry r =
    (if pr_requires_approval r
     then ApprovalAuthority (if pr_min_assurance r = Some A0 then None else pr_min_assurance r) (has_dual_key (pr_missing r))
     else AdmissionAuthority)"

definition intentAuthorityScore :: "authority_requirement \<Rightarrow> nat" where
  "intentAuthorityScore a =
    (case a of
       AdmissionAuthority \<Rightarrow> 100
     | ApprovalAuthority l dual \<Rightarrow>
         300 + (if dual then 10 else 0) + (case l of None \<Rightarrow> 1 | Some A0 \<Rightarrow> 0 | Some A1 \<Rightarrow> 1 | Some A2 \<Rightarrow> 2 | Some A3 \<Rightarrow> 3))"

definition stronger_rule :: "policy_rule \<Rightarrow> policy_rule \<Rightarrow> policy_rule" where
  "stronger_rule strongest r =
    (if intentAuthorityScore (intentAxisEntry r) > intentAuthorityScore (intentAxisEntry strongest) then r else strongest)"

text \<open>The intent axis: the strongest rule that names the intent; an unreadable policy declares nothing.\<close>

definition resolve_intent :: "policy_env \<Rightarrow> string \<Rightarrow> authority_requirement option" where
  "resolve_intent p i =
    (case pe_policy p of
       None \<Rightarrow> None
     | Some f \<Rightarrow>
         (case filter (\<lambda>r. case pr_intent_ids r of None \<Rightarrow> False | Some is \<Rightarrow> i \<in> set is) (policy_rules f) of
            [] \<Rightarrow> None
          | r # rs \<Rightarrow> Some (intentAxisEntry (foldl stronger_rule r rs))))"

definition intent_keys :: "policy_env \<Rightarrow> string list" where
  "intent_keys p =
    (case pe_policy p of
       None \<Rightarrow> []
     | Some f \<Rightarrow> concat (map (\<lambda>r. case pr_intent_ids r of None \<Rightarrow> [] | Some is \<Rightarrow> is) (policy_rules f)))"

end
