(* ===== verification/Decision_Rights.thy ===== *)
theory Decision_Rights
  imports Json Mesh_Broker
begin

text \<open>
  The decision-rights matrix of an organization, \<open>src/libs/core/decision-rights.ts\<close>: which role may take a decision
  of a type, up to which threshold, and whether a human has the last word; and the reading of the decision from the
  payload of a governed operation, \<open>extractDecisionRightsContext\<close> of
  \<open>src/libs/core/governance/approval-gate.ts\<close>.

  The files of the matrix are a parameter: for a place, nothing when the file is absent, and \<open>Some None\<close> when it cannot
  be read or breaks its schema. \<open>Number\<close> on a text is a parameter too. The texts of reasons are left out.
\<close>

datatype threshold_value = ThNumber rat | ThText string

datatype decision_holder = HumanHolder | DelegatedHolder

record decision_right =
  ri_type :: string
  ri_role :: string
  ri_metric :: string
  ri_value :: threshold_value
  ri_holder :: "decision_holder option"
  ri_acceptance :: bool
  ri_delegable :: bool

datatype rights_place = TenantGovernanceFile string | TenantFile string | ProductFile

type_synonym rights_files = "rights_place \<Rightarrow> decision_right list option option"

fun first_rights :: "rights_files \<Rightarrow> rights_place list \<Rightarrow> decision_right list option" where
  "first_rights files [] = Some []"
| "first_rights files (p # ps) = (case files p of None \<Rightarrow> first_rights files ps | Some r \<Rightarrow> r)"

text \<open>The decisions in force for a tenant; \<open>None\<close> when the first file present cannot be read.\<close>

definition resolveDecisionRightsMatrix :: "rights_files \<Rightarrow> string option \<Rightarrow> decision_right list option" where
  "resolveDecisionRightsMatrix files tenant =
    (let requested = (case tenant of None \<Rightarrow> [] | Some t \<Rightarrow> js_trim t)
     in if requested = [] then first_rights files [ProductFile]
        else if \<not> isValidTenantSlug requested then Some []
        else first_rights files [TenantGovernanceFile requested, TenantFile requested, ProductFile])"

datatype escalation_kind = RoleMismatch | OverThreshold | HumanAcceptance

record rights_evaluation =
  re_type :: string
  re_role :: "string option"
  re_requiresEscalation :: bool
  re_kind :: "escalation_kind option"
  re_holder :: "decision_holder option"
  re_requiresHumanAcceptance :: bool
  re_delegable :: bool

definition risk_rank :: "string \<Rightarrow> nat option" where
  "risk_rank s =
    (let r = js_lower (js_trim s)
     in if r = ''low'' then Some 1 else if r = ''medium'' then Some 2 else if r = ''high'' then Some 3
        else if r = ''critical'' then Some 4 else None)"

text \<open>Whether the facts of a decision exceed its threshold; facts that are missing or unusable count as exceeding.\<close>

definition over_threshold :: "decision_right \<Rightarrow> rat option \<Rightarrow> string option \<Rightarrow> bool" where
  "over_threshold r amount risk =
    (if ri_metric r = ''amount_jpy'' \<or> ri_metric r = ''headcount'' then
       (case (ri_value r, amount) of
          (ThNumber v, Some a) \<Rightarrow>
            if 0 \<le> v \<and> 0 \<le> a \<and> (ri_metric r \<noteq> ''headcount'' \<or> snd (quotient_of a) = 1) then a > v else True
        | _ \<Rightarrow> True)
     else if ri_metric r = ''risk_level'' then
       (case (ri_value r, risk) of
          (ThText v, Some k) \<Rightarrow>
            (case (risk_rank k, risk_rank v) of (Some i, Some t) \<Rightarrow> i > t | _ \<Rightarrow> True)
        | _ \<Rightarrow> True)
     else True)"

definition trimmed_opt :: "string option \<Rightarrow> string option" where
  "trimmed_opt s = (case s of None \<Rightarrow> None | Some t \<Rightarrow> if js_trim t = [] then None else Some (js_trim t))"

definition evaluateDecisionRights ::
  "decision_right list option \<Rightarrow> string option \<Rightarrow> string option \<Rightarrow> rat option \<Rightarrow> string option \<Rightarrow>
    rights_evaluation option" where
  "evaluateDecisionRights matrix decisionType actorRole amount risk =
    (case (matrix, trimmed_opt decisionType) of
       (Some rights, Some t) \<Rightarrow>
         (case List.find (\<lambda>r. ri_type r = t) rights of
            None \<Rightarrow> None
          | Some r \<Rightarrow>
              (let role = (if ri_role r = [] then None else Some (ri_role r));
                   mismatch = (role \<noteq> None \<and> trimmed_opt actorRole \<noteq> role);
                   over = over_threshold r amount risk;
                   acceptance = (ri_acceptance r \<or> ri_holder r = Some HumanHolder)
               in Some \<lparr>re_type = t, re_role = role, re_requiresEscalation = (mismatch \<or> over \<or> acceptance),
                    re_kind = (if mismatch then Some RoleMismatch else if over then Some OverThreshold
                      else if acceptance then Some HumanAcceptance else None),
                    re_holder = ri_holder r, re_requiresHumanAcceptance = acceptance, re_delegable = ri_delegable r\<rparr>))
     | _ \<Rightarrow> None)"

section \<open>The decision of a payload\<close>

record rights_context =
  rx_tenant :: "string option"
  rx_decisionType :: "string option"
  rx_actorRole :: string
  rx_amount :: "rat option"
  rx_risk :: "string option"

fun firstString :: "json list \<Rightarrow> string option" where
  "firstString [] = None"
| "firstString (v # vs) =
    (case v of JStr s \<Rightarrow> if js_trim s \<noteq> [] then Some (js_trim s) else firstString vs | _ \<Rightarrow> firstString vs)"

fun first_present :: "json list \<Rightarrow> json" where
  "first_present [] = JUndef"
| "first_present [v] = v"
| "first_present (v # w # vs) = (if jnullish v then first_present (w # vs) else v)"

definition extractDecisionRightsContext ::
  "(string \<Rightarrow> rat option) \<Rightarrow> string \<Rightarrow> string option \<Rightarrow> json \<Rightarrow> rights_context" where
  "extractDecisionRightsContext num agentId callerRole payload =
    \<lparr>rx_tenant = firstString (map (jget payload) [''tenant_slug'', ''tenantSlug'', ''company_id'']),
     rx_decisionType = firstString (map (jget payload) [''decision_type'', ''decisionType'', ''operation_type'']),
     rx_actorRole = str_or (case callerRole of None \<Rightarrow> [] | Some r \<Rightarrow> r) agentId,
     rx_amount =
       (case first_present (map (jget payload) [''amount_jpy'', ''amount'', ''value'']) of
          JNum r \<Rightarrow> Some r
        | JStr s \<Rightarrow> if js_trim s \<noteq> [] then num s else None
        | _ \<Rightarrow> None),
     rx_risk = firstString (map (jget payload) [''risk_level'', ''riskLevel'', ''risk''])\<rparr>"

text \<open>The evaluation the gate uses; \<open>None\<close> when the matrix cannot be read.\<close>

definition gate_rights ::
  "rights_files \<Rightarrow> rights_context \<Rightarrow> rights_evaluation option option" where
  "gate_rights files x =
    (if rx_decisionType x = None \<and> rx_tenant x = None then Some None
     else
       (case resolveDecisionRightsMatrix files (rx_tenant x) of
          None \<Rightarrow> None
        | Some rights \<Rightarrow>
            Some (evaluateDecisionRights (Some rights) (rx_decisionType x) (Some (rx_actorRole x)) (rx_amount x) (rx_risk x))))"

end
