(* ===== verification/Charter_Gate.thy ===== *)
theory Charter_Gate
  imports Charter_Ops Approval_Policy Decision_Rights
begin

text \<open>
  The charter branch of the approval gate, \<open>src/libs/core/governance/approval-gate-charter.ts\<close>, the adapter that turns
  a governed decision into the facts a charter evaluates, \<open>charter-call-site.ts\<close> (decisions of a tenant), and the whole
  gate: policy, decision rights and charter computed the way \<open>enforceApprovalGate\<close> computes them, and the approval
  store behind them.

  Audit entries, notifications and the sampling of unattended actions are left out.
\<close>

section \<open>The branch of the charter\<close>

datatype gate_error = GeCharter charter_error | GePolicy | GeRights | GeApproval approval_error

record charter_request =
  gq_action :: charter_action
  gq_availability :: "availability option"
  gq_amountUnknown :: bool
  gq_intent :: string
  gq_correlation :: string
  gq_payload :: json
  gq_escalates :: bool
  gq_delegable :: bool
  gq_now :: ms
  gq_expected :: "string option"

datatype charter_gate_outcome = GoNone | GoStop "charter_reason list" | GoAllow charter | GoRequire

definition default_availability :: availability where
  "default_availability = \<lparr>av_accountable = True, av_deputies = []\<rparr>"

text \<open>The decision type that the charter delegates by name is the one the matrix evaluated.\<close>

definition named_delegable :: "charter \<Rightarrow> charter_request \<Rightarrow> bool" where
  "named_delegable c q =
    (gq_delegable q \<and> truthy_opt (xa_decision_type (gq_action q)) \<and>
     jget (gq_payload q) ''decision_type'' = JStr (the (xa_decision_type (gq_action q))) \<and>
     delegatedDecisionPolicy (ch_envelope c) (the (xa_decision_type (gq_action q))) \<noteq> EffForbid)"

text \<open>Whether an action inside the charter still needs a human.\<close>

definition human_needed :: "gate_policy \<Rightarrow> charter \<Rightarrow> charter_request \<Rightarrow> bool" where
  "human_needed policy c q =
    (\<not> isCharterEligiblePolicy policy \<or> gq_amountUnknown q \<or>
     (gq_escalates q \<and> \<not> en_supersedes (ch_envelope c) \<and> \<not> named_delegable c q))"

definition runCharterGate ::
  "url_parser \<Rightarrow> policy_env \<Rightarrow> registry \<Rightarrow> charter_request \<Rightarrow> gate_error + charter_gate_outcome \<times> registry" where
  "runCharterGate u p R q =
    (case evaluateUnderCharter u R (gq_action q)
            (case gq_availability q of None \<Rightarrow> default_availability | Some a \<Rightarrow> a) (gq_now q) of
       Inl e \<Rightarrow> Inl (GeCharter e)
     | Inr None \<Rightarrow> Inr (GoNone, R)
     | Inr (Some (c, d)) \<Rightarrow>
         if truthy_opt (gq_expected q) \<and> Some (ch_id c) \<noteq> gq_expected q then Inr (GoRequire, R)
         else if cd_decision d = DkStop then Inr (GoStop (cd_reasons d), R)
         else if allows d then
           (case resolveApprovalPolicy p (gq_intent q) (gq_payload q) of
              None \<Rightarrow> Inl GePolicy
            | Some policy \<Rightarrow>
                if human_needed policy c q then Inr (GoRequire, R)
                else
                  (case recordCharterConsumption R c (gq_action q) d (gq_now q) (Some (gq_correlation q)) of
                     Inl e \<Rightarrow> Inl (GeCharter e)
                   | Inr (_, R') \<Rightarrow> Inr (GoAllow c, R')))
         else
           (case recordCharterDenial R c (gq_action q) d (gq_now q) (Some (gq_correlation q)) of
              Inl e \<Rightarrow> Inl (GeCharter e)
            | Inr (_, R') \<Rightarrow> Inr (GoRequire, R')))"

section \<open>The facts of a governed decision\<close>

datatype amount_semantics = AmountSpend | AmountExposure | AmountNone

record decision_entry =
  vo_type :: string
  vo_class :: string
  vo_reversible :: bool
  vo_amount :: amount_semantics
  vo_reputation :: "reputation option"
  vo_recipients :: "rat option"
  vo_systems :: "rat option"
  vo_requires_delegation :: bool

definition findCharterDecision :: "decision_entry list \<Rightarrow> string \<Rightarrow> decision_entry option" where
  "findCharterDecision vocabulary t = List.find (\<lambda>e. vo_type e = t) vocabulary"

definition DECISION_RIGHTS_CURRENCY :: string where
  "DECISION_RIGHTS_CURRENCY = ''JPY''"

definition usable_amount :: "rat option \<Rightarrow> bool" where
  "usable_amount a = (case a of None \<Rightarrow> False | Some x \<Rightarrow> 0 \<le> x)"

definition slug_pattern :: "string \<Rightarrow> bool" where
  "slug_pattern s =
    (case s of [] \<Rightarrow> False | c # cs \<Rightarrow> is_lower c \<and> list_all (\<lambda>d. is_lower d \<or> is_digit d \<or> d = CHR ''-'') cs)"

definition workerSlug :: "string option \<Rightarrow> string" where
  "workerSlug agentId =
    (let raw = js_lower (case agentId of None \<Rightarrow> [] | Some a \<Rightarrow> a);
         slug = dropWhile (\<lambda>c. c = CHR ''-'')
           (map (\<lambda>c. if is_lower c \<or> is_digit c \<or> c = CHR ''-'' then c else CHR ''-'') raw)
     in if slug_pattern slug then slug else ''pipeline-worker'')"

definition nhi_id :: "string \<Rightarrow> string \<Rightarrow> string" where
  "nhi_id org slug = ''kyberion://agent/'' @ org @ ''/'' @ slug"

text \<open>The facts of a decision of a tenant under the charter in force.\<close>

definition decision_action ::
  "decision_entry \<Rightarrow> actor_ref \<Rightarrow> rat option \<Rightarrow> rat option \<Rightarrow> flow_facts option \<Rightarrow> charter_action" where
  "decision_action e actor amt recips flow =
    (let amount = (if vo_amount e \<noteq> AmountNone \<and> usable_amount amt then the amt else 0);
         spend = (vo_amount e = AmountSpend \<and> 0 < amount)
     in \<lparr>xa_external_operation = JUndef, xa_actor = actor, xa_class = vo_class e,
         xa_decision_type = (if vo_requires_delegation e then Some (vo_type e) else None),
         xa_amount = (if spend then Some amount else None),
         xa_currency = (if spend then Some DECISION_RIGHTS_CURRENCY else None), xa_data = None,
         xa_reversible = vo_reversible e,
         xa_irreversible_name = (if vo_reversible e then None else Some (vo_type e)),
         xa_loss = Some (if vo_reversible e then 0 else amount), xa_reputation = vo_reputation e,
         xa_recipients =
           (case recips of Some n \<Rightarrow> if is_js_integer n \<and> 0 \<le> n then Some n else vo_recipients e | None \<Rightarrow> vo_recipients e),
         xa_systems = vo_systems e, xa_reviewed = False, xa_flow = flow\<rparr>)"

definition agent_actor :: "string \<Rightarrow> string \<Rightarrow> string \<Rightarrow> actor_ref option" where
  "agent_actor org slug behalf =
    (if slug_pattern org \<and> slug_pattern slug \<and> (js_trim behalf = [] \<or> parses_as_human (js_trim behalf))
     then Some \<lparr>ar_kind = AgentActor, ar_id = nhi_id org slug,
       ar_on_behalf = (if js_trim behalf = [] then None else Some (js_trim behalf))\<rparr>
     else None)"

datatype call_error = CallRegistry charter_error | CallActor | CallFlow flow_parse_error

text \<open>Facts of a flow that are given have to parse; \<open>None\<close> in the result is \<open>undefined\<close>: no charter branch.\<close>

definition parse_flow :: "json \<Rightarrow> call_error + flow_facts option" where
  "parse_flow flow =
    (if flow = JUndef then Inr None
     else (case parseInformationFlowFacts flow of Inl e \<Rightarrow> Inl (CallFlow e) | Inr f \<Rightarrow> Inr (Some f)))"

text \<open>The agent of the caller acting for the human accountable under the charter in force.\<close>

definition with_charter_actor ::
  "registry \<Rightarrow> ms \<Rightarrow> string \<Rightarrow> string \<Rightarrow> (actor_ref \<Rightarrow> call_error + 'a option) \<Rightarrow> call_error + 'a option" where
  "with_charter_actor R now org slug k =
    (case findActiveCharter R now of
       Inl err \<Rightarrow> Inl (CallRegistry err)
     | Inr None \<Rightarrow> Inr None
     | Inr (Some c) \<Rightarrow>
         (case agent_actor org slug (cc_actor (ch_accountable c)) of
            None \<Rightarrow> Inl CallActor
          | Some actor \<Rightarrow> k actor))"

definition charterInputForDecision ::
  "decision_entry list \<Rightarrow> registry \<Rightarrow> string option \<Rightarrow> string option \<Rightarrow> string \<Rightarrow> rat option \<Rightarrow> rat option \<Rightarrow>
    json \<Rightarrow> ms \<Rightarrow> call_error + (charter_action \<times> bool) option" where
  "charterInputForDecision vocabulary R tenant agentId decisionType amt recips flow now =
    (case findCharterDecision vocabulary decisionType of
       None \<Rightarrow> Inr None
     | Some e \<Rightarrow>
         if \<not> truthy_opt tenant then Inr None
         else
           with_charter_actor R now (the tenant) (workerSlug agentId)
             (\<lambda>actor. case parse_flow flow of
                Inl err \<Rightarrow> Inl err
              | Inr facts \<Rightarrow>
                  Inr (Some (decision_action e actor amt recips facts, vo_amount e \<noteq> AmountNone \<and> \<not> usable_amount amt))))"

definition PIPELINE_TRUST_GRANT_DECISION_TYPE :: string where
  "PIPELINE_TRUST_GRANT_DECISION_TYPE = ''pipeline_trust_grant''"

definition plain_action :: "actor_ref \<Rightarrow> string \<Rightarrow> charter_action" where
  "plain_action actor cls =
    \<lparr>xa_external_operation = JUndef, xa_actor = actor, xa_class = cls, xa_decision_type = None, xa_amount = None,
     xa_currency = None, xa_data = None, xa_reversible = False, xa_irreversible_name = None, xa_loss = Some 0,
     xa_reputation = None, xa_recipients = None, xa_systems = None, xa_reviewed = False, xa_flow = None\<rparr>"

definition charterInputForPipelineTrust ::
  "decision_entry list \<Rightarrow> registry \<Rightarrow> string option \<Rightarrow> ms \<Rightarrow> call_error + charter_action option" where
  "charterInputForPipelineTrust vocabulary R agentId now =
    (case findCharterDecision vocabulary PIPELINE_TRUST_GRANT_DECISION_TYPE of
       None \<Rightarrow> Inr None
     | Some e \<Rightarrow>
         with_charter_actor R now (case rg_scope R of OrgScope t \<Rightarrow> t | PersonScope \<Rightarrow> ''system'') (workerSlug agentId)
           (\<lambda>actor. Inr (Some ((plain_action actor (vo_class e))
              \<lparr>xa_decision_type := Some (vo_type e), xa_reversible := vo_reversible e, xa_reputation := vo_reputation e,
               xa_systems := Some (case vo_systems e of None \<Rightarrow> 1 | Some n \<Rightarrow> n)\<rparr>))))"

definition charterInputForCustomerOutbound ::
  "registry \<Rightarrow> string option \<Rightarrow> string list option \<Rightarrow> rat option \<Rightarrow> ms \<Rightarrow> call_error + charter_action option" where
  "charterInputForCustomerOutbound R tenant categories attachments now =
    (if \<not> truthy_opt tenant then Inr None
     else
       with_charter_actor R now (the tenant) ''customer-conversation''
         (\<lambda>actor. Inr (Some ((plain_action actor ''send_message_external'')
            \<lparr>xa_irreversible_name := Some ''customer_outbound'', xa_reputation := Some RepB, xa_recipients := Some 1,
             xa_flow := map_option (\<lambda>cs. \<lparr>ff_purpose = ''customer_service'', ff_recipient_class = Some ''bound_customer'',
               ff_processor_id = None, ff_categories = cs,
               ff_attachment_count = (case attachments of None \<Rightarrow> 0 | Some n \<Rightarrow> n)\<rparr>) categories\<rparr>))))"

section \<open>The whole gate\<close>

record governed_call =
  gc_gate :: gate_params
  gc_intent :: string
  gc_payload :: json
  gc_callerRole :: "string option"
  gc_charter :: "charter_request option"

record gate_world =
  gw_policy :: policy_env
  gw_rights :: rights_files
  gw_number :: "string \<Rightarrow> rat option"
  gw_urls :: url_parser

definition charter_branch ::
  "gate_world \<Rightarrow> governed_call \<Rightarrow> rights_evaluation option \<Rightarrow> registry \<Rightarrow> gate_error + charter_gate_outcome \<times> registry" where
  "charter_branch w k rights R =
    (case gc_charter k of
       None \<Rightarrow> Inr (GoNone, R)
     | Some q \<Rightarrow>
         runCharterGate (gw_urls w) (gw_policy w) R
           (q\<lparr>gq_intent := gc_intent k, gq_correlation := ga_correlationId (gc_gate k), gq_payload := gc_payload k,
              gq_escalates := (case rights of None \<Rightarrow> False | Some r \<Rightarrow> re_requiresEscalation r),
              gq_delegable := (case rights of None \<Rightarrow> False
                | Some r \<Rightarrow> re_kind r = Some HumanAcceptance \<and> re_delegable r)\<rparr>))"

definition charter_result_of :: "charter_gate_outcome \<Rightarrow> charter_outcome" where
  "charter_result_of x = (case x of GoNone \<Rightarrow> CharterNone | GoStop _ \<Rightarrow> CharterStop | GoAllow _ \<Rightarrow> CharterAllow | GoRequire \<Rightarrow> CharterRequire)"

text \<open>The parameters of the gate as \<open>enforceApprovalGate\<close> computes them before it looks at the store.\<close>

definition governed_params ::
  "gate_world \<Rightarrow> governed_call \<Rightarrow> registry \<Rightarrow> gate_error + gate_params \<times> registry" where
  "governed_params w k R =
    (case gate_rights (gw_rights w)
            (extractDecisionRightsContext (gw_number w) (ga_agentId (gc_gate k)) (gc_callerRole k) (gc_payload k)) of
       None \<Rightarrow> Inl GeRights
     | Some rights \<Rightarrow>
         (case resolveApprovalPolicy (gw_policy w) (gc_intent k) (gc_payload k) of
            None \<Rightarrow> Inl GePolicy
          | Some policy \<Rightarrow>
              (case charter_branch w k rights R of
                 Inl e \<Rightarrow> Inl e
               | Inr (outcome, R') \<Rightarrow>
                   Inr ((gc_gate k)\<lparr>ga_policy := policy, ga_charter := charter_result_of outcome,
                       ga_rightsEscalate := map_option re_requiresEscalation rights\<rparr>, R'))))"

text \<open>An error keeps what was written before it: a charge of the charter stays when the store then fails.\<close>

definition governed_gate ::
  "gate_world \<Rightarrow> approval_env \<Rightarrow> governed_call \<Rightarrow> ident \<Rightarrow> registry \<Rightarrow> approval_state \<Rightarrow>
    (gate_error + gate_result) \<times> registry \<times> approval_state" where
  "governed_gate w env k i R st =
    (case governed_params w k R of
       Inl e \<Rightarrow> (Inl e, R, st)
     | Inr (g, R') \<Rightarrow>
         (case enforceApprovalGate env g i st of
            (Inl e, st') \<Rightarrow> (Inl (GeApproval e), R', st')
          | (Inr r, st') \<Rightarrow> (Inr r, R', st')))"

end
