(* ===== verification/Charter_Budget.thy ===== *)
theory Charter_Budget
  imports Charter_Gate
begin

text \<open>
  The histories of the charters of one scope: every operation of the registry and every decision of the gate, in any
  order, and what holds in each state they reach. The charters form one line of amendments of which only the last is
  in force, and a budget is checked against the ledgers of the whole line.

  A history is told which actions it admits (\<open>ok\<close>): what a property needs of the actions is the choice of
  this predicate, and what holds for every choice holds for all histories. The registry itself accepts a negative
  amount, which would credit a budget; the adapter of governed decisions never makes one, and the histories without
  one are those of \<open>no_negative_amount\<close>. The charge of an issued permit (\<open>delegated-execution.ts\<close>)
  is a step of its own: it evaluates the action like the gate and records the consumption directly.
\<close>

section \<open>Histories\<close>

definition no_negative_amount :: "charter_action \<Rightarrow> bool" where
  "no_negative_amount x = (0 \<le> action_money x)"

inductive charter_reachable :: "(charter_action \<Rightarrow> bool) \<Rightarrow> url_parser \<Rightarrow> (string \<Rightarrow> string) \<Rightarrow> charter_scope \<Rightarrow> registry \<Rightarrow> bool"
  for ok u sha s where
  start: "charter_reachable ok u sha s \<lparr>rg_scope = s, rg_charters = [], rg_ledgers = []\<rparr>"
| accept: "charter_reachable ok u sha s R \<Longrightarrow> acceptCharter u sha R i = Inr (c, R') \<Longrightarrow> charter_reachable ok u sha s R'"
| retire: "charter_reachable ok u sha s R \<Longrightarrow> retireCharter R c who reason now = Inr R' \<Longrightarrow> charter_reachable ok u sha s R'"
| trip: "charter_reachable ok u sha s R \<Longrightarrow> recordTripwire R c t now = Inr R' \<Longrightarrow> charter_reachable ok u sha s R'"
| clear: "charter_reachable ok u sha s R \<Longrightarrow> clearTripwire R c t who now = Inr R' \<Longrightarrow> charter_reachable ok u sha s R'"
| decide: "charter_reachable ok u sha s R \<Longrightarrow> ok x \<Longrightarrow> decideUnderCharter u R x av now = Inr (d, R') \<Longrightarrow>
    charter_reachable ok u sha s R'"
| gate: "charter_reachable ok u sha s R \<Longrightarrow> ok (gq_action q) \<Longrightarrow> runCharterGate u p R q = Inr (go, R') \<Longrightarrow>
    charter_reachable ok u sha s R'"
| permitted: "charter_reachable ok u sha s R \<Longrightarrow> findActiveCharter R now = Inr (Some c) \<Longrightarrow> loadCharterUsage R c now = Inr us \<Longrightarrow>
    d = evaluateAgainstCharter u c x us av now \<Longrightarrow> allows d \<Longrightarrow> ok x \<Longrightarrow>
    recordCharterConsumption R c x d now corr = Inr (b, R') \<Longrightarrow> charter_reachable ok u sha s R'"
| started: "charter_reachable ok u sha s R \<Longrightarrow> recordCharterExecutionStarted R c ev now = Inr R' \<Longrightarrow> charter_reachable ok u sha s R'"
| outcome: "charter_reachable ok u sha s R \<Longrightarrow> recordCharterExecutionOutcome R c ev r now = Inr (b, R') \<Longrightarrow>
    charter_reachable ok u sha s R'"
| release: "charter_reachable ok u sha s R \<Longrightarrow> releaseCharterPaymentReservation R c corr res evidence now = Inr (b, R') \<Longrightarrow>
    charter_reachable ok u sha s R'"
| delegated: "charter_reachable ok u sha s R \<Longrightarrow> appendDelegatedExecutionRecord R c x = Inr R' \<Longrightarrow> charter_reachable ok u sha s R'"

section \<open>Elementary changes of a directory\<close>

definition neutral_entry :: "ledger_entry \<Rightarrow> bool" where
  "neutral_entry e = (case e of Charge _ \<Rightarrow> False | Release _ \<Rightarrow> False | _ \<Rightarrow> True)"

definition charge_of :: "charter_action \<Rightarrow> charter_decision \<Rightarrow> ms \<Rightarrow> string option \<Rightarrow> charge" where
  "charge_of x d now corr =
    \<lparr>lc_ts = now, lc_actor = ar_id (xa_actor x), lc_behalf = keep_truthy (ar_on_behalf (xa_actor x)), lc_class = xa_class x,
     lc_money = cd_money d, lc_loss = cd_loss d, lc_decision = cd_decision d, lc_correlation = keep_truthy corr\<rparr>"

definition valid_charter :: "url_parser \<Rightarrow> charter \<Rightarrow> bool" where
  "valid_charter u c \<longleftrightarrow> (\<exists>h parent. validateCharter u c h parent = [])"

inductive ledger_change :: "(charter_action \<Rightarrow> bool) \<Rightarrow> url_parser \<Rightarrow> registry \<Rightarrow> registry \<Rightarrow> bool" for ok u R where
  charged: "findActiveCharter R now = Inr (Some c) \<Longrightarrow> loadCharterUsage R c now = Inr us \<Longrightarrow>
    d = evaluateAgainstCharter u c x us av now \<Longrightarrow> allows d \<Longrightarrow> ok x \<Longrightarrow>
    ledger_change ok u R (put_entry R (ch_id c) (Charge (charge_of x d now corr)))"
| freed: "\<not> released (ledger_of R i) corr \<Longrightarrow> find_reservation (ledger_of R i) corr = Some k \<Longrightarrow>
    lr_correlation r = corr \<Longrightarrow> lr_consumption_ts r = lc_ts k \<Longrightarrow> lr_money r = lc_money k \<Longrightarrow>
    ledger_change ok u R (put_entry R i (Release r))"
| noted: "neutral_entry e \<Longrightarrow> ledger_change ok u R (put_entry R i e)"
| first: "charter_id_ok (ch_id c) \<Longrightarrow> find_charter R (ch_id c) = None \<Longrightarrow> valid_charter u c \<Longrightarrow> ch_scope c = rg_scope R \<Longrightarrow>
    ch_replaces c = None \<Longrightarrow> findLatestCharterForRenewal R = Inr None \<Longrightarrow> ledger_change ok u R (add_charter R c)"
| amended: "charter_id_ok (ch_id c) \<Longrightarrow> find_charter R (ch_id c) = None \<Longrightarrow> valid_charter u c \<Longrightarrow> ch_scope c = rg_scope R \<Longrightarrow>
    findActiveCharter R now = Inr (Some old) \<or> findLatestCharterForRenewal R = Inr (Some old) \<Longrightarrow>
    ledger_change ok u R (add_charter (put_entry R (ch_id old) (RetiredEntry now who (replaced_reason (ch_id c))))
      (c\<lparr>ch_replaces := Some (ch_id old)\<rparr>))"

abbreviation ledger_changes :: "(charter_action \<Rightarrow> bool) \<Rightarrow> url_parser \<Rightarrow> registry \<Rightarrow> registry \<Rightarrow> bool" where
  "ledger_changes ok u \<equiv> (ledger_change ok u)\<^sup>*\<^sup>*"

lemma append_put: "appendLedger R i e = Inr R' \<Longrightarrow> R' = put_entry R i e"
  by (auto simp: appendLedger_def split: if_splits sum.splits option.splits)

lemma append_noted: "appendLedger R i e = Inr R' \<Longrightarrow> neutral_entry e \<Longrightarrow> ledger_changes ok u R R'"
  by (auto dest: append_put intro: ledger_change.noted)

lemma changes_retire: "retireCharter R c who reason now = Inr R' \<Longrightarrow> ledger_changes ok u R R'"
  by (auto simp: retireCharter_def neutral_entry_def elim!: append_noted split: if_splits)

lemma changes_trip: "recordTripwire R c t now = Inr R' \<Longrightarrow> ledger_changes ok u R R'"
  by (auto simp: recordTripwire_def neutral_entry_def elim!: append_noted split: if_splits)

lemma changes_clear: "clearTripwire R c t who now = Inr R' \<Longrightarrow> ledger_changes ok u R R'"
  by (auto simp: clearTripwire_def neutral_entry_def elim!: append_noted split: if_splits)

lemma changes_started: "recordCharterExecutionStarted R c ev now = Inr R' \<Longrightarrow> ledger_changes ok u R R'"
  by (auto simp: recordCharterExecutionStarted_def neutral_entry_def elim!: append_noted split: if_splits sum.splits)

lemma changes_delegated: "appendDelegatedExecutionRecord R c x = Inr R' \<Longrightarrow> ledger_changes ok u R R'"
  by (auto simp: appendDelegatedExecutionRecord_def neutral_entry_def elim!: append_noted)

lemma changes_outcome:
  assumes "recordCharterExecutionOutcome R c ev r now = Inr (b, R')"
  shows "ledger_changes ok u R R'"
proof -
  have on: "ledger_changes ok u R R1" if "appendLedger R (ch_id c) (Outcome now ev r) = Inr R1" for R1
    using that by (rule append_noted) (simp add: neutral_entry_def)
  show ?thesis using assms on changes_trip [of _ c external_failure now R' ok u]
    by (auto simp: recordCharterExecutionOutcome_def split: if_splits sum.splits elim: rtranclp_trans)
qed

lemma changes_release:
  "releaseCharterPaymentReservation R c corr res evidence now = Inr (b, R') \<Longrightarrow> ledger_changes ok u R R'"
  by (auto simp: releaseCharterPaymentReservation_def readLedger_def dest!: append_put
      intro!: r_into_rtranclp ledger_change.freed split: if_splits sum.splits option.splits)

lemma changes_consumption:
  assumes "recordCharterConsumption R c x d now corr = Inr (b, R')"
    and "findActiveCharter R now = Inr (Some c)" "loadCharterUsage R c now = Inr us"
    and "d = evaluateAgainstCharter u c x us av now" "ok x"
  shows "ledger_changes ok u R R'"
proof -
  have "R' = R \<or> (allows d \<and> R' = put_entry R (ch_id c) (Charge (charge_of x d now corr)))"
    using assms(1) by (auto simp: recordCharterConsumption_def charge_of_def dest!: append_put split: if_splits sum.splits)
  then show ?thesis using ledger_change.charged [OF assms(2,3,4), of ok] assms(5) by auto
qed

lemma changes_denial: "recordCharterDenial R c x d now corr = Inr (b, R') \<Longrightarrow> ledger_changes ok u R R'"
  by (auto simp: recordCharterDenial_def neutral_entry_def elim!: append_noted split: if_splits sum.splits)

lemma evaluated:
  "evaluateUnderCharter u R x av now = Inr (Some (c, d)) \<Longrightarrow>
    \<exists>us. findActiveCharter R now = Inr (Some c) \<and> loadCharterUsage R c now = Inr us \<and> d = evaluateAgainstCharter u c x us av now"
  by (auto simp: evaluateUnderCharter_def split: sum.splits option.splits)

lemma ledger_decide:
  "decideUnderCharter u R x av now = Inr (d, R') \<Longrightarrow> ok x \<Longrightarrow> ledger_changes ok u R R'"
  by (auto simp: decideUnderCharter_def dest!: evaluated split: sum.splits option.splits prod.splits intro: changes_consumption)

lemma ledger_gate:
  assumes "runCharterGate u p R q = Inr (go, R')" "ok (gq_action q)"
  shows "ledger_changes ok u R R'"
proof (cases "evaluateUnderCharter u R (gq_action q)
    (case gq_availability q of None \<Rightarrow> default_availability | Some a \<Rightarrow> a) (gq_now q)")
  case (Inl e)
  with assms show ?thesis by (simp add: runCharterGate_def)
next
  case (Inr z)
  show ?thesis
  proof (cases z)
    case None
    with assms Inr show ?thesis by (simp add: runCharterGate_def)
  next
    case (Some cd)
    obtain c d where cd: "cd = (c, d)" by (cases cd)
    from evaluated Inr Some cd obtain us where "findActiveCharter R (gq_now q) = Inr (Some c)"
      "loadCharterUsage R c (gq_now q) = Inr us"
      "d = evaluateAgainstCharter u c (gq_action q) us (case gq_availability q of None \<Rightarrow> default_availability | Some a \<Rightarrow> a) (gq_now q)"
      by blast
    then show ?thesis using assms Inr Some cd
      by (auto simp: runCharterGate_def split: if_splits sum.splits option.splits prod.splits
          intro: changes_consumption changes_denial)
  qed
qed

lemma drafted_fields [simp]:
  "ch_id (drafted sha R i) = ch_id (in_draft i)" "ch_scope (drafted sha R i) = rg_scope R" "ch_replaces (drafted sha R i) = None"
  by (simp_all add: drafted_def)

lemma changes_accept:
  assumes "acceptCharter u sha R i = Inr (c, R')"
  shows "ledger_change ok u R R'"
proof -
  let ?c = "drafted sha R i"
  have ok: "charter_id_ok (ch_id ?c)" "find_charter R (ch_id ?c) = None" "valid_charter u ?c"
    using assms by (auto simp: acceptCharter_def valid_charter_def Let_def split: if_splits)
  obtain active inForce where f: "findActiveCharter R (in_now i) = Inr active"
    "(case active of Some a \<Rightarrow> Inr (Some a) | None \<Rightarrow> findLatestCharterForRenewal R) = Inr inForce"
    using assms by (auto simp: acceptCharter_def Let_def split: if_splits sum.splits)
  show ?thesis
  proof (cases inForce)
    case None
    then have "R' = add_charter R ?c" "findLatestCharterForRenewal R = Inr None"
      using assms f by (auto simp: acceptCharter_def Let_def split: if_splits option.splits)
    then show ?thesis using ledger_change.first [OF ok] by simp
  next
    case (Some old)
    then have "replace_charter R old ?c i = Inr (c, R')"
      using assms f by (auto simp: acceptCharter_def Let_def split: if_splits)
    then have "R' = add_charter (put_entry R (ch_id old) (RetiredEntry (in_now i) (ar_id (in_acceptedBy i)) (replaced_reason (ch_id ?c))))
        (?c\<lparr>ch_replaces := Some (ch_id old)\<rparr>)"
      by (auto simp: replace_charter_def retireCharter_def Let_def dest!: append_put split: if_splits sum.splits)
    moreover have "findActiveCharter R (in_now i) = Inr (Some old) \<or> findLatestCharterForRenewal R = Inr (Some old)"
      using f Some by (auto split: option.splits)
    ultimately show ?thesis using ledger_change.amended [OF ok, of "in_now i" old] by simp
  qed
qed

text \<open>An invariant of the elementary changes holds in every state a history reaches.\<close>

lemma charter_invariant:
  assumes "charter_reachable ok u sha s R" and "I \<lparr>rg_scope = s, rg_charters = [], rg_ledgers = []\<rparr>"
    and "\<And>R R'. ledger_change ok u R R' \<Longrightarrow> I R \<Longrightarrow> I R'"
  shows "I R"
proof -
  have step: "I R'" if "ledger_changes ok u R R'" "I R" for R R'
    using that by (induction) (auto intro: assms(3))
  show ?thesis using assms(1)
    by (induction) (auto intro: assms(2) assms(3) [OF changes_accept]
        step [OF changes_retire] step [OF changes_trip] step [OF changes_clear] step [OF ledger_decide] step [OF ledger_gate]
        step [OF changes_consumption]
        step [OF changes_started] step [OF changes_outcome] step [OF changes_release] step [OF changes_delegated])
qed

end
