(* ===== verification/Charter_Lineage.thy ===== *)
theory Charter_Lineage
  imports Charter_Budget
begin

text \<open>
  The line of amendments of a scope: in every state of a history the charters are listed in the order of acceptance,
  each replaces the one before it, every one but the last is retired for its successor, and only the last can be in
  force. The accounting chain of a charter, where it can be read, is the line up to it.
\<close>

section \<open>The line of amendments\<close>

definition replaces_id :: "charter list \<Rightarrow> nat \<Rightarrow> string option" where
  "replaces_id cs i = (if i = 0 then None else Some (ch_id (cs ! (i - 1))))"

definition line_ok :: "url_parser \<Rightarrow> registry \<Rightarrow> bool" where
  "line_ok u R \<longleftrightarrow>
    distinct (map ch_id (rg_charters R)) \<and>
    (\<forall>c\<in>set (rg_charters R). charter_id_ok (ch_id c) \<and> ch_scope c = rg_scope R \<and> valid_charter u c) \<and>
    (\<forall>i<length (rg_charters R). ch_replaces (rg_charters R ! i) = replaces_id (rg_charters R) i) \<and>
    (\<forall>i. Suc i < length (rg_charters R) \<longrightarrow>
       list_ex (retired_for (replaced_reason (ch_id (rg_charters R ! Suc i)))) (ledger_of R (ch_id (rg_charters R ! i))))"

lemma valid_replaces [simp]: "valid_charter u (c\<lparr>ch_replaces := r\<rparr>) = valid_charter u c"
  by (simp add: valid_charter_def validateCharter_def)

lemma last_index: "i < length xs \<Longrightarrow> \<not> Suc i < length xs \<Longrightarrow> xs ! i = last xs"
  by (cases xs rule: rev_cases) (auto simp: nth_append)

lemma put_entry_fields [simp]:
  "rg_charters (put_entry R i e) = rg_charters R" "rg_scope (put_entry R i e) = rg_scope R"
  "rg_charters (add_charter R c) = rg_charters R @ [c]" "rg_scope (add_charter R c) = rg_scope R"
  "rg_ledgers (add_charter R c) = rg_ledgers R"
  by (simp_all add: put_entry_def add_charter_def)

lemma ledger_put [simp]: "ledger_of (put_entry R i e) j = (if j = i then ledger_of R i @ [e] else ledger_of R j)"
  by (simp add: ledger_of_def put_entry_def update_conv')

lemma ledger_add [simp]: "ledger_of (add_charter R c) i = ledger_of R i"
  by (simp add: ledger_of_def)

lemma find_charter_iff:
  assumes "distinct (map ch_id (rg_charters R))"
  shows "find_charter R i = Some c \<longleftrightarrow> c \<in> set (rg_charters R) \<and> ch_id c = i"
proof
  assume "find_charter R i = Some c"
  then show "c \<in> set (rg_charters R) \<and> ch_id c = i" unfolding find_charter_def by (auto dest: find_Some_in_set)
next
  assume c: "c \<in> set (rg_charters R) \<and> ch_id c = i"
  then obtain d where d: "find_charter R i = Some d"
    by (cases "find_charter R i") (auto simp: find_charter_def find_None_all)
  then have "d \<in> set (rg_charters R) \<and> ch_id d = i" unfolding find_charter_def by (auto dest: find_Some_in_set)
  with c assms have "d = c" by (auto simp: distinct_map inj_on_def)
  with d show "find_charter R i = Some c" by simp
qed

lemma find_charter_None: "find_charter R i = None \<longleftrightarrow> i \<notin> set (map ch_id (rg_charters R))"
  by (auto simp: find_charter_def find_None_all)

lemma read_stored:
  assumes "line_ok u R" "c \<in> set (rg_charters R)"
  shows "readCharter R (ch_id c) = Inr (Some c)"
  using assms find_charter_iff [of R "ch_id c" c] by (auto simp: readCharter_def line_ok_def)

lemma listed_ids:
  assumes "line_ok u R"
  shows "set (listCharterIds R) = ch_id ` set (rg_charters R)" "distinct (listCharterIds R)"
  using assms by (auto simp: listCharterIds_def line_ok_def distinct_filter)

lemma read_each_stored:
  assumes "line_ok u R" "set is \<subseteq> ch_id ` set (rg_charters R)"
  shows "\<exists>cs. read_each R is = Inr cs \<and> map ch_id cs = is \<and> set cs \<subseteq> set (rg_charters R)"
  using assms(2)
proof (induction "is")
  case (Cons i "is")
  then obtain cs where cs: "read_each R is = Inr cs" "map ch_id cs = is" "set cs \<subseteq> set (rg_charters R)" by auto
  from Cons.prems obtain c where "c \<in> set (rg_charters R)" "ch_id c = i" by auto
  with read_stored [OF assms(1)] cs show ?case by auto
qed simp

lemma read_all:
  assumes "line_ok u R"
  shows "\<exists>cs. read_each R (listCharterIds R) = Inr cs \<and> set cs = set (rg_charters R) \<and> distinct cs"
proof -
  obtain cs where cs: "read_each R (listCharterIds R) = Inr cs" "map ch_id cs = listCharterIds R" "set cs \<subseteq> set (rg_charters R)"
    using read_each_stored [OF assms, of "listCharterIds R"] listed_ids(1) [OF assms] by auto
  have "inj_on ch_id (set (rg_charters R))" using assms by (auto simp: line_ok_def distinct_map)
  moreover have "ch_id ` set cs = ch_id ` set (rg_charters R)" using cs(2) listed_ids(1) [OF assms] by (metis set_map)
  ultimately have "set cs = set (rg_charters R)" using cs(3) by (meson inj_on_image_eq_iff subset_refl)
  moreover have "distinct cs" using cs(2) listed_ids(2) [OF assms] by (metis distinct_map)
  ultimately show ?thesis using cs(1) by blast
qed

lemma retired_for_entry: "retired_for reason e \<Longrightarrow> is_retired_entry e"
  by (simp add: retired_for_def is_retired_entry_def split: ledger_entry.splits)

text \<open>Every charter but the last is retired.\<close>

lemma retired_unless_last:
  assumes "line_ok u R" "c \<in> set (rg_charters R)" "\<not> isCharterRetired R c"
  shows "c = last (rg_charters R)"
proof -
  from assms(2) obtain i where i: "i < length (rg_charters R)" "c = rg_charters R ! i" by (auto simp: in_set_conv_nth)
  have "\<not> Suc i < length (rg_charters R)"
  proof
    assume "Suc i < length (rg_charters R)"
    with assms(1) i have "list_ex (retired_for (replaced_reason (ch_id (rg_charters R ! Suc i)))) (ledger_of R (ch_id c))"
      by (simp add: line_ok_def)
    with assms(3) show False
      by (auto simp: isCharterRetired_def list_ex_iff dest: retired_for_entry)
  qed
  with i last_index show ?thesis by metis
qed

lemma at_most_one: "distinct xs \<Longrightarrow> \<forall>x\<in>set xs. x = a \<Longrightarrow> xs = [] \<or> xs = [a]"
  by (cases xs rule: remdups_adj.cases) auto

text \<open>At most one charter is in force, the one accepted last.\<close>

lemma active_is_last:
  assumes "line_ok u R"
  shows "\<exists>a. findActiveCharter R now = Inr a" and
    "findActiveCharter R now = Inr (Some c) \<Longrightarrow>
      rg_charters R \<noteq> [] \<and> c = last (rg_charters R) \<and> isCharterActive c now \<and> \<not> isCharterRetired R c"
proof -
  obtain cs where cs: "read_each R (listCharterIds R) = Inr cs" "set cs = set (rg_charters R)" "distinct cs"
    using read_all [OF assms] by blast
  let ?act = "filter (\<lambda>c. isCharterActive c now \<and> \<not> isCharterRetired R c) cs"
  have eq: "c = last (rg_charters R)" if "c \<in> set ?act" for c
    using that cs(2) retired_unless_last [OF assms] by auto
  have "distinct ?act" using cs(3) by simp
  with eq have short: "?act = [] \<or> (\<exists>a. ?act = [a])" using at_most_one [of ?act] by blast
  then show "\<exists>a. findActiveCharter R now = Inr a" using cs(1) by (auto simp: findActiveCharter_def)
  show "rg_charters R \<noteq> [] \<and> c = last (rg_charters R) \<and> isCharterActive c now \<and> \<not> isCharterRetired R c"
    if found: "findActiveCharter R now = Inr (Some c)"
  proof -
    from found short cs(1) have "?act = [c]" by (auto simp: findActiveCharter_def)
    then have "c \<in> set ?act" by simp
    with eq cs(2) show ?thesis by auto
  qed
qed

lemma latest_is_last:
  assumes "line_ok u R" "findLatestCharterForRenewal R = Inr (Some c)"
  shows "rg_charters R \<noteq> [] \<and> c = last (rg_charters R)"
proof -
  obtain cs where cs: "read_each R (listCharterIds R) = Inr cs" "set cs = set (rg_charters R)" "distinct cs"
    using read_all [OF assms(1)] by blast
  let ?heads = "filter (\<lambda>c. \<not> list_ex (\<lambda>r. truthy_opt (ch_replaces r) \<and> ch_replaces r = Some (ch_id c)) cs) cs"
  have heads: "?heads = [c]" using assms(2) cs(1)
    by (auto simp: findLatestCharterForRenewal_def split: if_splits list.splits sum.splits)
  have in_heads: "c \<in> set ?heads" unfolding heads by simp
  then have c: "c \<in> set (rg_charters R)" "\<And>r. r \<in> set (rg_charters R) \<Longrightarrow> \<not> (truthy_opt (ch_replaces r) \<and> ch_replaces r = Some (ch_id c))"
    using in_heads cs(2) by (auto simp: list_ex_iff)
  then obtain i where i: "i < length (rg_charters R)" "c = rg_charters R ! i" by (auto simp: in_set_conv_nth)
  have "\<not> Suc i < length (rg_charters R)"
  proof
    assume s: "Suc i < length (rg_charters R)"
    with assms(1) i have "ch_replaces (rg_charters R ! Suc i) = Some (ch_id c)" by (simp add: line_ok_def replaces_id_def)
    moreover have "truthy_opt (Some (ch_id c))"
      using assms(1) c(1) by (auto simp: line_ok_def truthy_opt_def charter_id_ok_def Let_def split: list.splits)
    ultimately show False using c(2) s by (metis nth_mem)
  qed
  with i last_index show ?thesis by (metis list.size(3) not_less_zero)
qed

lemma no_charter_yet:
  assumes "line_ok u R" "findLatestCharterForRenewal R = Inr None"
  shows "rg_charters R = []"
proof -
  obtain cs where "read_each R (listCharterIds R) = Inr cs" "set cs = set (rg_charters R)"
    using read_all [OF assms(1)] by blast
  with assms(2) show ?thesis by (auto simp: findLatestCharterForRenewal_def split: if_splits list.splits sum.splits)
qed

lemma line_ok_put: "line_ok u R \<Longrightarrow> line_ok u (put_entry R i e)"
  by (auto simp: line_ok_def)

lemma line_ok_first:
  assumes "rg_charters R = []" "charter_id_ok (ch_id c)" "valid_charter u c" "ch_scope c = rg_scope R" "ch_replaces c = None"
  shows "line_ok u (add_charter R c)"
  using assms by (auto simp: line_ok_def replaces_id_def)

lemma line_ok_amended:
  assumes "line_ok u R" "rg_charters R \<noteq> []" "old = last (rg_charters R)" "charter_id_ok (ch_id c)"
    "find_charter R (ch_id c) = None" "valid_charter u c" "ch_scope c = rg_scope R"
  shows "line_ok u (add_charter (put_entry R (ch_id old) (RetiredEntry now who (replaced_reason (ch_id c))))
      (c\<lparr>ch_replaces := Some (ch_id old)\<rparr>))"
proof -
  let ?cs = "rg_charters R" and ?new = "c\<lparr>ch_replaces := Some (ch_id old)\<rparr>"
  have old: "old = ?cs ! (length ?cs - 1)" using assms(2,3) by (simp add: last_conv_nth)
  let ?R = "add_charter (put_entry R (ch_id old) (RetiredEntry now who (replaced_reason (ch_id c)))) ?new"
  have line: "line_ok u R" by (rule assms(1))
  have rest: "(?cs @ [?new]) ! i = ?cs ! i" "replaces_id (?cs @ [?new]) i = replaces_id ?cs i" if "i < length ?cs" for i
    using that by (auto simp: replaces_id_def nth_append)
  have top: "(?cs @ [?new]) ! length ?cs = ?new" "replaces_id (?cs @ [?new]) (length ?cs) = Some (ch_id old)"
    using assms(2) old by (auto simp: replaces_id_def nth_append)
  have "\<forall>i<length (?cs @ [?new]). ch_replaces ((?cs @ [?new]) ! i) = replaces_id (?cs @ [?new]) i"
    using line top rest by (auto simp: line_ok_def less_Suc_eq)
  moreover have "list_ex (retired_for (replaced_reason (ch_id ((?cs @ [?new]) ! Suc i)))) (ledger_of ?R (ch_id ((?cs @ [?new]) ! i)))"
    if i: "Suc i < length (?cs @ [?new])" for i
  proof (cases "Suc i < length ?cs")
    case True
    then show ?thesis using line rest [of i] rest [of "Suc i"] by (auto simp: line_ok_def)
  next
    case False
    with i have at_end: "Suc i = length ?cs" by simp
    then have "i = length ?cs - 1" by simp
    with old have "?cs ! i = old" by simp
    then show ?thesis using at_end top rest [of i] by (auto simp: retired_for_def)
  qed
  ultimately show ?thesis using line assms by (auto simp: line_ok_def find_charter_None)
qed

lemma line_ok_change:
  assumes "ledger_change ok u R R'" "line_ok u R"
  shows "line_ok u R'"
  using assms
proof cases
  case first
  with no_charter_yet assms(2) line_ok_first show ?thesis by blast
next
  case (amended c now old who)
  with active_is_last(2) [OF assms(2)] latest_is_last [OF assms(2)] have "rg_charters R \<noteq> [] \<and> old = last (rg_charters R)" by blast
  with amended line_ok_amended [OF assms(2)] show ?thesis by blast
qed (auto intro: line_ok_put)

lemma line_ok_reachable: "charter_reachable ok u sha s R \<Longrightarrow> line_ok u R"
  by (rule charter_invariant [where I = "line_ok u"], assumption, simp add: line_ok_def, rule line_ok_change)

section \<open>The accounting chain\<close>

lemma chain_is_line:
  assumes "line_ok u R" "i < length (rg_charters R)" "chain_loop R (rg_charters R ! i) acc = Inr chain"
  shows "chain = take (Suc i) (rg_charters R) @ acc"
  using assms(2,3)
proof (induction i arbitrary: acc)
  case 0
  then have "ch_replaces (rg_charters R ! 0) = None" using assms(1) by (simp add: line_ok_def replaces_id_def)
  with 0 show ?case by (subst (asm) chain_loop.simps) (auto simp: take_Suc_conv_app_nth split: if_splits)
next
  case (Suc i)
  let ?p = "rg_charters R ! i"
  have p: "readCharter R (ch_id ?p) = Inr (Some ?p)" using Suc.prems by (auto intro: read_stored [OF assms(1)])
  have "ch_replaces (rg_charters R ! Suc i) = Some (ch_id ?p)"
    using assms(1) Suc.prems(1) by (simp add: line_ok_def replaces_id_def)
  moreover have "ch_id ?p \<noteq> []" using p by (auto simp: readCharter_def charter_id_ok_def split: if_splits)
  ultimately have "chain_loop R ?p (rg_charters R ! Suc i # acc) = Inr chain"
    using Suc.prems(2) p by (subst (asm) chain_loop.simps) (auto split: if_splits)
  from Suc.IH [OF _ this] Suc.prems(1) show ?case by (simp add: take_Suc_conv_app_nth)
qed

lemma accounting_chain:
  assumes "line_ok u R" "i < length (rg_charters R)" "charterAccountingChain R (rg_charters R ! i) = Inr chain"
  shows "chain = take (Suc i) (rg_charters R)"
  using chain_is_line [OF assms(1,2), of "[]" chain] assms(3) by (simp add: charterAccountingChain_def)

text \<open>What was spent in a window over the first charters of the line.\<close>

definition line_spent :: "registry \<Rightarrow> nat \<Rightarrow> (ms \<Rightarrow> bool) \<Rightarrow> rat" where
  "line_spent R n w = (\<Sum>c\<leftarrow>take n (rg_charters R). spent w (ledger_of R (ch_id c)))"

lemma spent_append [simp]: "spent w (xs @ ys) = spent w xs + spent w ys"
  by (simp add: spent_def)

lemma spent_concat: "spent w (concat xss) = (\<Sum>xs\<leftarrow>xss. spent w xs)"
  by (induction xss) (simp_all add: spent_def)

lemma spent_mset: "mset xs = mset ys \<Longrightarrow> spent w xs = spent w ys"
  unfolding spent_def by (metis mset_map sum_mset_sum_list)

lemma usage_is_line_spent:
  assumes "line_ok u R" "i < length (rg_charters R)" "loadCharterUsage R (rg_charters R ! i) t = Inr us"
  shows "us_today us = line_spent R (Suc i) (\<lambda>x. utc_day x = utc_day t)"
    and "us_month us = line_spent R (Suc i) (\<lambda>x. utc_month x = utc_month t)"
proof -
  let ?es = "concat (map (\<lambda>c. ledger_of R (ch_id c)) (take (Suc i) (rg_charters R)))"
  obtain chain where "charterAccountingChain R (rg_charters R ! i) = Inr chain"
    using assms(3) by (auto simp: loadCharterUsage_def split: sum.splits)
  with accounting_chain [OF assms(1,2)] assms(3)
  have "us_today us = spent (\<lambda>x. utc_day x = utc_day t) (js_sort_by (\<lambda>a b. entry_ts a \<le> entry_ts b) ?es)"
    "us_month us = spent (\<lambda>x. utc_month x = utc_month t) (js_sort_by (\<lambda>a b. entry_ts a \<le> entry_ts b) ?es)"
    by (auto simp: loadCharterUsage_def Let_def)
  moreover have "spent w (js_sort_by le ?es) = line_spent R (Suc i) w" for w le
    using spent_mset [of "js_sort_by le ?es" ?es w] by (simp add: spent_concat line_spent_def comp_def)
  ultimately show "us_today us = line_spent R (Suc i) (\<lambda>x. utc_day x = utc_day t)"
    "us_month us = line_spent R (Suc i) (\<lambda>x. utc_month x = utc_month t)" by simp_all
qed

end
