(* ===== verification/Charter_Ledger.thy ===== *)
theory Charter_Ledger
  imports Charter_Lineage
begin

text \<open>
  The accounts of a scope. A ledger never credits more than it reserved, since a release gives back one reservation
  once; and every charge was checked against what the whole line of amendments had spent in its day and its month.
\<close>

section \<open>One ledger\<close>

definition reserved :: "(ms \<Rightarrow> bool) \<Rightarrow> ledger_entry list \<Rightarrow> string \<Rightarrow> rat" where
  "reserved w es corr = (case find_reservation es corr of None \<Rightarrow> 0 | Some k \<Rightarrow> if w (lc_ts k) then lc_money k else 0)"

definition open_reservations :: "ledger_entry list \<Rightarrow> string set \<Rightarrow> bool" where
  "open_reservations es S \<longleftrightarrow> finite S \<and> (\<forall>corr\<in>S. \<not> released es corr \<and> find_reservation es corr \<noteq> None)"

text \<open>What is still reserved is covered by what is charged.\<close>

definition covered :: "(ms \<Rightarrow> bool) \<Rightarrow> ledger_entry list \<Rightarrow> bool" where
  "covered w es \<longleftrightarrow> (\<forall>S. open_reservations es S \<longrightarrow> (\<Sum>corr\<in>S. reserved w es corr) \<le> spent w es)"

definition ledger_good :: "ledger_entry list \<Rightarrow> bool" where
  "ledger_good es \<longleftrightarrow> (\<forall>k. Charge k \<in> set es \<longrightarrow> 0 \<le> lc_money k) \<and> (\<forall>w. covered w es)"

lemma ledger_good_Nil: "ledger_good []"
proof -
  have none: "open_reservations [] S \<Longrightarrow> S = {}" for S by (auto simp: open_reservations_def)
  show ?thesis by (auto simp: ledger_good_def covered_def spent_def dest!: none)
qed

lemma spent_nonneg: "ledger_good es \<Longrightarrow> 0 \<le> spent w es"
  unfolding ledger_good_def covered_def by (auto dest!: spec [of _ w] spec [of _ "{}"] simp: open_reservations_def)

lemma find_reservation_append:
  "find_reservation (es @ fs) corr = (case find_reservation es corr of None \<Rightarrow> find_reservation fs corr | Some k \<Rightarrow> Some k)"
  by (induction es) (auto split: ledger_entry.splits)

lemma find_reservation_in: "find_reservation es corr = Some k \<Longrightarrow> Charge k \<in> set es"
  by (induction es) (auto split: ledger_entry.splits if_splits)

lemma released_append [simp]: "released (es @ fs) corr \<longleftrightarrow> released es corr \<or> released fs corr"
  by (simp add: released_def)

lemma good_neutral:
  assumes "ledger_good es" "neutral_entry e"
  shows "ledger_good (es @ [e])"
proof -
  have "find_reservation (es @ [e]) = find_reservation es" "spent w (es @ [e]) = spent w es" for w
    using assms(2)
    by (auto simp: fun_eq_iff find_reservation_append neutral_entry_def spent_def charged_def split: option.splits ledger_entry.splits)
  moreover have "released (es @ [e]) = released es" using assms(2)
    by (auto simp: fun_eq_iff released_def neutral_entry_def split: ledger_entry.splits)
  ultimately have "covered w (es @ [e]) = covered w es" for w
    by (simp add: covered_def open_reservations_def reserved_def)
  with assms show ?thesis by (auto simp: ledger_good_def neutral_entry_def)
qed

lemma good_charge:
  assumes "ledger_good es" "0 \<le> lc_money k"
  shows "ledger_good (es @ [Charge k])"
proof -
  have "covered w (es @ [Charge k])" for w
    unfolding covered_def
  proof (intro allI impI)
    fix S assume S: "open_reservations (es @ [Charge k]) S"
    let ?old = "{corr \<in> S. find_reservation es corr \<noteq> None}" and ?m = "if w (lc_ts k) then lc_money k else 0"
    have fin: "finite S" using S by (simp add: open_reservations_def)
    have old: "(\<Sum>corr\<in>?old. reserved w es corr) \<le> spent w es"
      using assms(1) S by (auto simp: ledger_good_def covered_def open_reservations_def released_def)
    have same: "reserved w (es @ [Charge k]) corr = reserved w es corr" if "corr \<in> ?old" for corr
      using that by (auto simp: reserved_def find_reservation_append)
    have new: "lc_correlation k = Some corr \<and> reserved w (es @ [Charge k]) corr = ?m" if "corr \<in> S - ?old" for corr
      using that S by (auto simp: open_reservations_def reserved_def find_reservation_append split: if_splits)
    then have "S - ?old \<subseteq> {the (lc_correlation k)}" by force
    then have "card (S - ?old) \<le> 1" using card_mono [of "{the (lc_correlation k)}" "S - ?old"] by simp
    then have "(\<Sum>corr\<in>S - ?old. reserved w (es @ [Charge k]) corr) \<le> ?m"
      using new assms(2) by (simp add: le_Suc_eq mult_left_le_one_le)
    moreover have "(\<Sum>corr\<in>S. reserved w (es @ [Charge k]) corr) =
        (\<Sum>corr\<in>S - ?old. reserved w (es @ [Charge k]) corr) + (\<Sum>corr\<in>?old. reserved w es corr)"
      using fin same by (subst sum.subset_diff [of ?old]) auto
    ultimately show "(\<Sum>corr\<in>S. reserved w (es @ [Charge k]) corr) \<le> spent w (es @ [Charge k])"
      using old by (simp add: spent_def charged_def)
  qed
  with assms show ?thesis by (auto simp: ledger_good_def)
qed

lemma good_release:
  assumes "ledger_good es" "\<not> released es corr" "find_reservation es corr = Some k"
    and "lr_correlation r = corr" "lr_consumption_ts r = lc_ts k" "lr_money r = lc_money k"
  shows "ledger_good (es @ [Release r])"
proof -
  have find: "find_reservation (es @ [Release r]) = find_reservation es"
    by (auto simp: fun_eq_iff find_reservation_append split: option.splits)
  have "covered w (es @ [Release r])" for w
    unfolding covered_def
  proof (intro allI impI)
    fix S assume S: "open_reservations (es @ [Release r]) S"
    then have "corr \<notin> S" "finite S" using assms(4) by (auto simp: open_reservations_def released_def)
    moreover have "open_reservations es (insert corr S)"
      using S assms(2,3) by (auto simp: open_reservations_def find)
    ultimately have "reserved w es corr + (\<Sum>c\<in>S. reserved w es c) \<le> spent w es"
      using assms(1) by (auto simp: ledger_good_def covered_def dest!: spec [of _ w] spec [of _ "insert corr S"])
    then show "(\<Sum>c\<in>S. reserved w (es @ [Release r]) c) \<le> spent w (es @ [Release r])"
      using assms(3,5,6) by (cases "w (lc_ts k)") (simp_all add: reserved_def find spent_def charged_def)
  qed
  with assms(1) show ?thesis by (auto simp: ledger_good_def)
qed

section \<open>All ledgers\<close>

text \<open>Charges and releases are only in the ledgers of charters.\<close>

definition ledgers_good :: "registry \<Rightarrow> bool" where
  "ledgers_good R \<longleftrightarrow>
    (\<forall>i. ledger_good (ledger_of R i)) \<and>
    (\<forall>i. i \<notin> ch_id ` set (rg_charters R) \<longrightarrow> list_all neutral_entry (ledger_of R i))"

lemma neutral_unreserved: "list_all neutral_entry es \<Longrightarrow> find_reservation es corr = None"
  by (induction es) (auto simp: neutral_entry_def split: ledger_entry.splits)

lemma ledgers_good_put:
  assumes "ledgers_good R" "ledger_good (ledger_of R i @ [e])" "i \<in> ch_id ` set (rg_charters R) \<or> neutral_entry e"
  shows "ledgers_good (put_entry R i e)"
  using assms by (auto simp: ledgers_good_def)

lemma allowed_amount:
  assumes "allows d" "d = evaluateAgainstCharter u c x us av now"
  shows "lc_money (charge_of x d now corr) = action_money x"
  using assms by (simp add: charge_of_def allowed_money)

lemma ledgers_good_change:
  assumes "ledger_change no_negative_amount u R R'" "line_ok u R" "ledgers_good R"
  shows "ledgers_good R'"
  using assms(1)
proof cases
  case (charged now c us d x av corr)
  then have "c \<in> set (rg_charters R)" using active_is_last(2) [OF assms(2)] by force
  moreover have "ledger_good (ledger_of R (ch_id c) @ [Charge (charge_of x d now corr)])"
    using assms(3) charged allowed_amount by (intro good_charge) (auto simp: ledgers_good_def no_negative_amount_def)
  ultimately show ?thesis using charged(1) ledgers_good_put [OF assms(3)] by blast
next
  case (freed i corr k r)
  then have "i \<in> ch_id ` set (rg_charters R)" using assms(3) neutral_unreserved by (fastforce simp: ledgers_good_def)
  moreover have "ledger_good (ledger_of R i @ [Release r])"
    using assms(3) freed by (intro good_release) (auto simp: ledgers_good_def)
  ultimately show ?thesis using freed(1) ledgers_good_put [OF assms(3)] by blast
next
  case (noted e i)
  with assms(3) good_neutral show ?thesis by (auto simp: ledgers_good_def intro!: ledgers_good_put)
next
  case first
  with assms(3) show ?thesis by (auto simp: ledgers_good_def)
next
  case (amended c now old who)
  have "neutral_entry (RetiredEntry now who (replaced_reason (ch_id c)))" by (simp add: neutral_entry_def)
  with amended(1) assms(3) good_neutral show ?thesis by (auto simp: ledgers_good_def)
qed

text \<open>What an entry adds to the accounts of the line.\<close>

lemma line_spent_put:
  assumes "distinct (map ch_id (rg_charters R))"
  shows "line_spent (put_entry R i e) n w =
    line_spent R n w + (if i \<in> ch_id ` set (take n (rg_charters R)) then charged w e else 0)"
proof -
  have "(\<Sum>c\<leftarrow>cs. spent w (ledger_of (put_entry R i e) (ch_id c))) =
      (\<Sum>c\<leftarrow>cs. spent w (ledger_of R (ch_id c))) + (if i \<in> ch_id ` set cs then charged w e else 0)"
    if "distinct (map ch_id cs)" for cs
    using that by (induction cs) (auto simp: spent_def)
  from this [of "take n (rg_charters R)"] assms show ?thesis
    by (simp add: line_spent_def take_map [symmetric])
qed

section \<open>The budget\<close>

definition within_budget :: "registry \<Rightarrow> nat \<Rightarrow> charge \<Rightarrow> bool" where
  "within_budget R i k \<longleftrightarrow>
    (let l = en_money (ch_envelope (rg_charters R ! i))
     in lc_money k \<le> ml_per_action l \<and>
        line_spent R (Suc i) (\<lambda>t. utc_day t = utc_day (lc_ts k)) \<le> ml_per_day l \<and>
        line_spent R (Suc i) (\<lambda>t. utc_month t = utc_month (lc_ts k)) \<le> ml_per_month l)"

definition budget_ok :: "registry \<Rightarrow> bool" where
  "budget_ok R \<longleftrightarrow>
    (\<forall>i<length (rg_charters R). \<forall>k. Charge k \<in> set (ledger_of R (ch_id (rg_charters R ! i))) \<longrightarrow> 0 < lc_money k \<longrightarrow>
       within_budget R i k)"

lemma allowed_within_limits:
  assumes "allows (evaluateAgainstCharter u c x us av now)" "0 < action_money x"
  shows "action_money x \<le> ml_per_action (en_money (ch_envelope c))"
    "us_today us + action_money x \<le> ml_per_day (en_money (ch_envelope c))"
    "us_month us + action_money x \<le> ml_per_month (en_money (ch_envelope c))"
    "effectPolicy (ch_envelope c) ''payment'' \<noteq> EffForbid"
proof -
  have "charter_refusal u c x us av = None" using assms(1) by (simp add: allows_iff)
  then have "check_money (ch_envelope c) x us = None" unfolding charter_refusal_def Let_def first_refusal_None by simp
  with assms(2) show "action_money x \<le> ml_per_action (en_money (ch_envelope c))"
    "us_today us + action_money x \<le> ml_per_day (en_money (ch_envelope c))"
    "us_month us + action_money x \<le> ml_per_month (en_money (ch_envelope c))"
    "effectPolicy (ch_envelope c) ''payment'' \<noteq> EffForbid"
    by (auto simp: check_money_def Let_def split: if_splits)
qed

lemma budget_put:
  assumes "line_ok u R" "budget_ok R" "\<And>w. charged w e \<le> 0" "\<And>k. e \<noteq> Charge k"
  shows "budget_ok (put_entry R i e)"
proof -
  have "line_spent (put_entry R i e) n w \<le> line_spent R n w" for n w
    using assms(1,3) by (subst line_spent_put) (auto simp: line_ok_def)
  moreover have "Charge k \<in> set (ledger_of (put_entry R i e) j) \<longleftrightarrow> Charge k \<in> set (ledger_of R j)" for j k
    using assms(4) by auto
  ultimately show ?thesis using assms(2)
    unfolding budget_ok_def within_budget_def Let_def put_entry_fields by (meson order_trans)
qed

lemma budget_charged:
  assumes "line_ok u R" "budget_ok R" "findActiveCharter R now = Inr (Some c)" "loadCharterUsage R c now = Inr us"
    and "allows (evaluateAgainstCharter u c x us av now)" "lc_money k = action_money x" "lc_ts k = now" "0 \<le> action_money x"
  shows "budget_ok (put_entry R (ch_id c) (Charge k))"
proof -
  let ?cs = "rg_charters R" and ?R = "put_entry R (ch_id c) (Charge k)" and ?n = "length (rg_charters R) - 1"
  have c: "?cs \<noteq> []" "c = ?cs ! ?n" "?n < length ?cs"
    using active_is_last(2) [OF assms(1,3)] by (auto simp: last_conv_nth)
  have dist: "distinct (map ch_id ?cs)" using assms(1) by (simp add: line_ok_def)
  have inj: "ch_id (?cs ! i) = ch_id c \<longleftrightarrow> i = ?n" if "i < length ?cs" for i
    using that c dist by (metis length_map nth_eq_iff_index_eq nth_map)
  have earlier: "line_spent ?R (Suc i) w = line_spent R (Suc i) w" if "i < ?n" for i w
  proof -
    have "ch_id c \<notin> ch_id ` set (take (Suc i) ?cs)"
    proof
      assume "ch_id c \<in> ch_id ` set (take (Suc i) ?cs)"
      then obtain j where "j < Suc i" "j < length ?cs" "ch_id (?cs ! j) = ch_id c" by (auto simp: in_set_conv_nth)
      with inj that show False by force
    qed
    then show ?thesis using dist by (simp add: line_spent_put)
  qed
  have top: "line_spent ?R (Suc ?n) w = line_spent R (Suc ?n) w + (if w now then action_money x else 0)" for w
    using dist c assms(6,7) by (subst line_spent_put) (auto simp: charged_def)
  have us: "us_today us = line_spent R (Suc ?n) (\<lambda>t. utc_day t = utc_day now)"
    "us_month us = line_spent R (Suc ?n) (\<lambda>t. utc_month t = utc_month now)"
    using usage_is_line_spent [OF assms(1) c(3)] assms(4) c(2) by auto
  have "within_budget ?R i k'"
    if i: "i < length ?cs" and k': "Charge k' \<in> set (ledger_of ?R (ch_id (?cs ! i)))" "0 < lc_money k'" for i k'
  proof (cases "i = ?n")
    case False
    then have "i < ?n" using i by auto
    moreover have "Charge k' \<in> set (ledger_of R (ch_id (?cs ! i)))" using k' inj [OF i] False by auto
    ultimately show ?thesis using assms(2) i k'(2) by (simp add: budget_ok_def within_budget_def Let_def earlier)
  next
    case True
    show ?thesis
    proof (cases "0 < action_money x")
      case pos: True
      note l = allowed_within_limits [OF assms(5) pos]
      show ?thesis
      proof (cases "Charge k' \<in> set (ledger_of R (ch_id (?cs ! i)))")
        case old: True
        with assms(2) i k'(2) have "within_budget R ?n k'" by (simp add: budget_ok_def True)
        then show ?thesis using l us c(2) unfolding True within_budget_def Let_def put_entry_fields top by auto
      next
        case False
        then have "k' = k" using k' True c(2) by auto
        then show ?thesis using l us c(2) assms(6,7) unfolding True within_budget_def Let_def put_entry_fields top by simp
      qed
    next
      case False
      then have zero: "action_money x = 0" using assms(8) by simp
      then have "Charge k' \<in> set (ledger_of R (ch_id (?cs ! ?n)))" using k' True c(2) assms(6) by auto
      with assms(2) c(3) k'(2) have "within_budget R ?n k'" by (simp add: budget_ok_def)
      then show ?thesis unfolding True within_budget_def Let_def put_entry_fields top zero by simp
    qed
  qed
  then show ?thesis by (simp add: budget_ok_def)
qed

lemma budget_add:
  assumes "line_ok u R" "budget_ok R" "ledgers_good R" "ch_id c \<notin> ch_id ` set (rg_charters R)"
  shows "budget_ok (add_charter R c)"
proof -
  have "line_spent (add_charter R c) (Suc i) w = line_spent R (Suc i) w" if "i < length (rg_charters R)" for i w
    using that by (simp add: line_spent_def)
  moreover have "list_all neutral_entry (ledger_of R (ch_id c))" using assms(3,4) by (simp add: ledgers_good_def)
  then have "Charge k \<notin> set (ledger_of R (ch_id c))" for k by (force simp: list_all_iff neutral_entry_def)
  ultimately show ?thesis using assms(2)
    by (auto simp: budget_ok_def within_budget_def Let_def nth_append less_Suc_eq)
qed

lemma budget_change:
  assumes "ledger_change no_negative_amount u R R'" "line_ok u R" "ledgers_good R" "budget_ok R"
  shows "budget_ok R'"
  using assms(1)
proof cases
  case (charged now c us d x av corr)
  have "lc_ts (charge_of x d now corr) = now" by (simp add: charge_of_def)
  with charged allowed_amount [OF charged(5,4), of corr] budget_charged [OF assms(2,4) charged(2,3)] show ?thesis by (simp add: no_negative_amount_def)
next
  case (freed i corr k r)
  then have "0 \<le> lr_money r" using assms(3) find_reservation_in by (fastforce simp: ledgers_good_def ledger_good_def)
  then show ?thesis unfolding freed(1) by (intro budget_put [OF assms(2,4)]) (auto simp: charged_def)
next
  case (noted e i)
  then show ?thesis
    by (auto intro!: budget_put [OF assms(2,4)] simp: neutral_entry_def charged_def split: ledger_entry.splits)
next
  case (first c)
  then show ?thesis using budget_add [OF assms(2,4,3)] by (simp add: find_charter_None)
next
  case (amended c now old who)
  let ?e = "RetiredEntry now who (replaced_reason (ch_id c))"
  have "ledger_change no_negative_amount u R (put_entry R (ch_id old) ?e)" by (rule ledger_change.noted) (simp add: neutral_entry_def)
  then have "line_ok u (put_entry R (ch_id old) ?e)" "ledgers_good (put_entry R (ch_id old) ?e)"
    using line_ok_change assms(2) ledgers_good_change assms(3) by blast+
  moreover have "budget_ok (put_entry R (ch_id old) ?e)"
    by (rule budget_put [OF assms(2,4)]) (auto simp: charged_def)
  ultimately show ?thesis unfolding amended(1) using amended by (intro budget_add) (auto simp: find_charter_None)
qed

text \<open>The accounts of every state a history without a negative amount reaches.\<close>

lemma accounts_reachable:
  assumes "charter_reachable no_negative_amount u sha s R"
  shows "line_ok u R" "ledgers_good R" "budget_ok R"
proof -
  have "line_ok u R \<and> ledgers_good R \<and> budget_ok R"
    using assms
  proof (rule charter_invariant [where I = "\<lambda>R. line_ok u R \<and> ledgers_good R \<and> budget_ok R"])
    show "line_ok u R' \<and> ledgers_good R' \<and> budget_ok R'"
      if "ledger_change no_negative_amount u R R'" "line_ok u R \<and> ledgers_good R \<and> budget_ok R" for R R'
      using that line_ok_change ledgers_good_change budget_change by blast
  qed (simp add: line_ok_def ledgers_good_def ledger_of_def ledger_good_Nil budget_ok_def)
  then show "line_ok u R" "ledgers_good R" "budget_ok R" by simp_all
qed

end
