(* ===== verification/Charter_Ledger_Props.thy ===== *)
theory Charter_Ledger_Props
  imports Charter_Ledger Charter_Props
begin

text \<open>
  The properties of the charters of a scope over its histories: budgets, amendments and authority, with the run that
  witnesses them, and two ways around a budget.
\<close>

section \<open>Budgets\<close>

lemma line_spent_nonneg:
  assumes "ledgers_good R"
  shows "0 \<le> line_spent R n w"
  using assms spent_nonneg unfolding line_spent_def ledgers_good_def by (intro sum_list_nonneg) auto

text \<open>C7. No history of actions without a negative amount overspends a budget: every charge of a positive amount in
  the ledger of a charter is within the limit per action, and the usage of the charter on the day and in the month of
  the charge, over the whole line of amendments and after releases, is (where it can be read) between zero and the
  limits per day and per month. (A negative amount, which the adapter of decisions never makes, would credit the
  budget; a charge of zero may stand under an amendment that lowered the limit below what was spent before.)\<close>

theorem charter_budget_is_kept:
  assumes "charter_reachable no_negative_amount u sha s R" and "c \<in> set (rg_charters R)"
    and "Charge k \<in> set (ledger_of R (ch_id c))"
    and "0 < lc_money k" and "loadCharterUsage R c (lc_ts k) = Inr us"
  shows "lc_money k \<le> ml_per_action (en_money (ch_envelope c)) \<and>
    0 \<le> us_today us \<and> us_today us \<le> ml_per_day (en_money (ch_envelope c)) \<and>
    0 \<le> us_month us \<and> us_month us \<le> ml_per_month (en_money (ch_envelope c))"
proof -
  note ok = accounts_reachable [OF assms(1)]
  from assms(2) obtain i where i: "i < length (rg_charters R)" "c = rg_charters R ! i" by (auto simp: in_set_conv_nth)
  with ok(3) assms(3,4) have "within_budget R i k" by (simp add: budget_ok_def)
  with i usage_is_line_spent [OF ok(1) i(1)] assms(5) show ?thesis
    by (simp add: within_budget_def Let_def line_spent_nonneg [OF ok(2)])
qed

text \<open>C10. Amendments neither fork nor reset a budget: in every history at most one charter is in force, the one
  accepted last, and the usage it is checked against counts the charges and releases of every charter of the scope.\<close>

theorem amendments_carry_the_budget:
  assumes "charter_reachable ok u sha s R"
  shows "(\<exists>a. findActiveCharter R now = Inr a) \<and>
    (findActiveCharter R now = Inr (Some c) \<and> loadCharterUsage R c t = Inr us \<longrightarrow>
      c = last (rg_charters R) \<and>
      us_today us = (\<Sum>o'\<leftarrow>rg_charters R. spent (\<lambda>x. utc_day x = utc_day t) (ledger_of R (ch_id o'))) \<and>
      us_month us = (\<Sum>o'\<leftarrow>rg_charters R. spent (\<lambda>x. utc_month x = utc_month t) (ledger_of R (ch_id o'))))"
proof (intro conjI impI)
  note ok = line_ok_reachable [OF assms]
  show "\<exists>a. findActiveCharter R now = Inr a" by (rule active_is_last(1) [OF ok])
  assume a: "findActiveCharter R now = Inr (Some c) \<and> loadCharterUsage R c t = Inr us"
  with active_is_last(2) [OF ok] have c: "rg_charters R \<noteq> []" "c = last (rg_charters R)" by blast+
  let ?n = "length (rg_charters R) - 1"
  have n: "?n < length (rg_charters R)" "rg_charters R ! ?n = c" "take (Suc ?n) (rg_charters R) = rg_charters R"
    using c by (auto simp: last_conv_nth)
  note us = usage_is_line_spent [OF ok n(1), of t us, unfolded n line_spent_def]
  show "c = last (rg_charters R)" by (rule c(2))
  show "us_today us = (\<Sum>o'\<leftarrow>rg_charters R. spent (\<lambda>x. utc_day x = utc_day t) (ledger_of R (ch_id o')))"
    "us_month us = (\<Sum>o'\<leftarrow>rg_charters R. spent (\<lambda>x. utc_month x = utc_month t) (ledger_of R (ch_id o')))"
    using us a by auto
qed

section \<open>Authority\<close>

text \<open>A charge is authorized when its charter was in force, and it is that of an action the history admits whose actor
  is not a human and acts for a holder of the charter.\<close>

definition charge_for :: "charter_action \<Rightarrow> charge \<Rightarrow> bool" where
  "charge_for x k \<longleftrightarrow> ar_kind (xa_actor x) \<noteq> HumanActor \<and> lc_actor k = ar_id (xa_actor x) \<and>
    lc_behalf k = ar_on_behalf (xa_actor x) \<and> lc_class k = xa_class x \<and> lc_money k = action_money x"

definition charge_authorized :: "(charter_action \<Rightarrow> bool) \<Rightarrow> charter \<Rightarrow> charge \<Rightarrow> bool" where
  "charge_authorized ok c k \<longleftrightarrow>
    isCharterActive c (lc_ts k) \<and> (\<exists>x. ok x \<and> charge_for x k) \<and> (\<exists>b. lc_behalf k = Some b \<and> b \<in> set (holders c)) \<and>
    (0 < lc_money k \<longrightarrow> effectPolicy (ch_envelope c) ''payment'' \<noteq> EffForbid)"

text \<open>Charges are only in the ledgers of charters, and none comes after a retirement.\<close>

definition authority_ok :: "(charter_action \<Rightarrow> bool) \<Rightarrow> registry \<Rightarrow> bool" where
  "authority_ok ok R \<longleftrightarrow>
    (\<forall>i es k fs. ledger_of R i = es @ Charge k # fs \<longrightarrow>
      (\<exists>c\<in>set (rg_charters R). ch_id c = i \<and> charge_authorized ok c k \<and> \<not> list_ex is_retired_entry es))"

lemma charge_is_authorized:
  assumes "allows d" "d = evaluateAgainstCharter u c x us av now" "ok x"
  shows "charge_authorized ok c (charge_of x d now corr)"
proof -
  have active: "isCharterActive c now" and actor: "check_actor c x = None" using assms by (auto simp: allows_iff)
  from actor obtain b where b: "ar_on_behalf (xa_actor x) = Some b" "b \<noteq> []" "b \<in> set (holders c)"
    by (auto simp: check_actor_def holders_def split: if_splits option.splits)
  have money: "lc_money (charge_of x d now corr) = action_money x" by (rule allowed_amount [OF assms(1,2)])
  have "ar_kind (xa_actor x) \<noteq> HumanActor" using actor by (auto simp: check_actor_def)
  with b money have "charge_for x (charge_of x d now corr)"
    by (simp add: charge_for_def charge_of_def keep_truthy_def truthy_opt_def)
  moreover have "0 < action_money x \<longrightarrow> effectPolicy (ch_envelope c) ''payment'' \<noteq> EffForbid"
    using allowed_within_limits(4) [of u c x us av now] assms(1,2) by auto
  moreover have "lc_ts (charge_of x d now corr) = now" "lc_behalf (charge_of x d now corr) = Some b"
    using b by (simp_all add: charge_of_def keep_truthy_def truthy_opt_def)
  ultimately show ?thesis using active assms(3) b(3) money unfolding charge_authorized_def by auto
qed

lemma append_charge_cases:
  assumes "xs @ [e] = es @ Charge k # fs"
  obtains (last) "e = Charge k" "xs = es" "fs = []" | (earlier) gs where "xs = es @ Charge k # gs"
  using assms by (cases fs rule: rev_cases) auto

lemma authority_put:
  assumes "authority_ok ok R" "\<And>k. e \<noteq> Charge k"
  shows "authority_ok ok (put_entry R i e)"
  unfolding authority_ok_def
proof (intro allI impI)
  fix j es k fs
  assume "ledger_of (put_entry R i e) j = es @ Charge k # fs"
  then have "\<exists>gs. ledger_of R j = es @ Charge k # gs"
    using assms(2) by (auto split: if_splits elim: append_charge_cases)
  with assms(1) show "\<exists>c\<in>set (rg_charters (put_entry R i e)). ch_id c = j \<and> charge_authorized ok c k \<and> \<not> list_ex is_retired_entry es"
    unfolding authority_ok_def put_entry_fields by blast
qed

lemma authority_add: "authority_ok ok R \<Longrightarrow> authority_ok ok (add_charter R c)"
  unfolding authority_ok_def ledger_add put_entry_fields by fastforce

lemma authority_charged:
  assumes "authority_ok ok R" "c \<in> set (rg_charters R)" "\<not> isCharterRetired R c" "charge_authorized ok c k"
  shows "authority_ok ok (put_entry R (ch_id c) (Charge k))"
  unfolding authority_ok_def
proof (intro allI impI)
  fix i es k' fs
  assume l: "ledger_of (put_entry R (ch_id c) (Charge k)) i = es @ Charge k' # fs"
  consider gs where "ledger_of R i = es @ Charge k' # gs" | "i = ch_id c" "k' = k" "es = ledger_of R i"
    using l by (auto split: if_splits elim: append_charge_cases)
  then show "\<exists>c'\<in>set (rg_charters (put_entry R (ch_id c) (Charge k))). ch_id c' = i \<and> charge_authorized ok c' k' \<and>
      \<not> list_ex is_retired_entry es"
  proof cases
    case 1
    with assms(1) show ?thesis unfolding authority_ok_def put_entry_fields by blast
  next
    case 2
    with assms(2-4) show ?thesis by (auto simp: isCharterRetired_def)
  qed
qed

lemma authority_change:
  assumes "ledger_change ok u R R'" "line_ok u R" "authority_ok ok R"
  shows "authority_ok ok R'"
  using assms(1)
proof cases
  case (charged now c us d x av corr)
  have "c \<in> set (rg_charters R)" "\<not> isCharterRetired R c" using active_is_last(2) [OF assms(2) charged(2)] by auto
  moreover have "charge_authorized ok c (charge_of x d now corr)"
    by (rule charge_is_authorized) (use charged in simp_all)
  ultimately show ?thesis unfolding charged(1) by (rule authority_charged [OF assms(3)])
next
  case freed
  with assms(3) authority_put show ?thesis by blast
next
  case (noted e i)
  have "e \<noteq> Charge k" for k using noted(2) by (auto simp: neutral_entry_def)
  with noted(1) authority_put [OF assms(3)] show ?thesis by blast
next
  case first
  with authority_add [OF assms(3)] show ?thesis by simp
next
  case (amended c now old who)
  show ?thesis unfolding amended(1) by (intro authority_add authority_put [OF assms(3)]) simp
qed

lemma authority_reachable:
  assumes "charter_reachable ok u sha s R"
  shows "authority_ok ok R"
proof -
  have "line_ok u R \<and> authority_ok ok R"
    using assms
  proof (rule charter_invariant [where I = "\<lambda>R. line_ok u R \<and> authority_ok ok R"])
    show "line_ok u R' \<and> authority_ok ok R'" if "ledger_change ok u R R'" "line_ok u R \<and> authority_ok ok R" for R R'
      using that line_ok_change authority_change by blast
  qed (simp add: line_ok_def ledger_of_def authority_ok_def)
  then show ?thesis by simp
qed

lemma valid_parts:
  assumes "valid_charter u c"
  shows "b \<in> set (holders c) \<Longrightarrow> parses_as_human b"
    and "effectPolicy (ch_envelope c) ''payment'' \<noteq> EffForbid \<Longrightarrow> basisCanCarry (ch_accountable c)"
proof -
  obtain h p where v: "validateCharter u c h p = []" using assms by (auto simp: valid_charter_def)
  then have "person_violations (ch_accountable c) = []" by (simp add: validateCharter_def Let_def)
  then show "b \<in> set (holders c) \<Longrightarrow> parses_as_human b" by (auto simp: person_violations_def holders_def)
  have "filter (\<lambda>cls. effectPolicy (ch_envelope c) cls \<noteq> EffForbid \<and> \<not> basisCanCarry (ch_accountable c)) BASIS_GATED_EFFECTS = []"
    using v by (simp add: validateCharter_def Let_def)
  then show "effectPolicy (ch_envelope c) ''payment'' \<noteq> EffForbid \<Longrightarrow> basisCanCarry (ch_accountable c)"
    by (simp add: BASIS_GATED_EFFECTS_def split: if_splits)
qed

text \<open>C13. Spending rests on authority: in every history, each charge in the ledger of a charter was made before any
  retirement of that charter and at a time within its term; it is the charge of an action the history admits (whatever it admits) whose actor
  is not a human (an agent or a service) and acts on behalf of the accountable human or a deputy, who has the
  identifier of a person; and money was charged only under an owner's or an officer's authority with evidence.\<close>

theorem charges_rest_on_authority:
  assumes "charter_reachable ok u sha s R" and "c \<in> set (rg_charters R)" and "ledger_of R (ch_id c) = es @ Charge k # fs"
  shows "isCharterActive c (lc_ts k) \<and> \<not> list_ex is_retired_entry es \<and>
    (\<exists>x. ok x \<and> ar_kind (xa_actor x) \<noteq> HumanActor \<and> lc_actor k = ar_id (xa_actor x) \<and> lc_class k = xa_class x \<and>
      lc_money k = action_money x \<and> lc_behalf k = ar_on_behalf (xa_actor x)) \<and>
    (\<exists>b. lc_behalf k = Some b \<and> b \<in> set (holders c) \<and> parses_as_human b) \<and>
    (0 < lc_money k \<longrightarrow> basisCanCarry (ch_accountable c))"
proof -
  note line = line_ok_reachable [OF assms(1)]
  then have valid: "valid_charter u c" using assms(2) by (simp add: line_ok_def)
  obtain c' where c': "c' \<in> set (rg_charters R)" "ch_id c' = ch_id c" "charge_authorized ok c' k" "\<not> list_ex is_retired_entry es"
    using authority_reachable [OF assms(1)] assms(3) unfolding authority_ok_def by blast
  have "c' = c" using c'(1,2) assms(2) line by (auto simp: line_ok_def distinct_map inj_on_def)
  with c'(3,4) valid_parts [OF valid] show ?thesis by (auto simp: charge_authorized_def charge_for_def)
qed

end
