(* ===== verification/Charter_Runs.thy ===== *)
theory Charter_Runs
  imports Charter_Ledger_Props
begin

text \<open>
  A concrete history of a scope, evaluated: an owner accepts a charter of 100 a time, 300 a day and 1000 a month, an
  agent spends under it, the owner amends the charter, the agent spends on. And two ways to spend around a budget.
\<close>

section \<open>The run\<close>

definition no_urls :: url_parser where
  "no_urls = (\<lambda>_. None)"

definition fixed_sha :: "string \<Rightarrow> string" where
  "fixed_sha = (\<lambda>_. replicate 64 (CHR ''a''))"

definition own :: "string \<Rightarrow> string option \<Rightarrow> ms \<Rightarrow> charter" where
  "own i old t = (sample_charter i BasisOwner owner_envelope)\<lparr>ch_replaces := old,
     ch_accountable := (sample_accountable BasisOwner)\<lparr>cc_accepted := At t\<rparr>\<rparr>"

definition owner_ref :: actor_ref where
  "owner_ref = \<lparr>ar_kind = HumanActor, ar_id = ''user:owner'', ar_on_behalf = None\<rparr>"

definition accept_owner :: "string \<Rightarrow> string option \<Rightarrow> ms \<Rightarrow> accept_input" where
  "accept_owner i old now =
    \<lparr>in_draft = sample_charter i BasisOwner owner_envelope, in_statement = ''I answer for this'', in_acceptedBy = owner_ref,
     in_replaces = old, in_expected = None, in_holder = HolderOwner, in_parent = None, in_now = now\<rparr>"

definition scope_with :: "charter list \<Rightarrow> (string \<times> ledger_entry list) list \<Rightarrow> registry" where
  "scope_with cs ls = \<lparr>rg_scope = OrgScope ''acme'', rg_charters = cs, rg_ledgers = ls\<rparr>"

definition pay :: "rat \<Rightarrow> charter_action" where
  "pay m = sample_action ''payment'' (Some m) (Some ''pay_invoice'')"

definition plain_policy :: policy_env where
  "plain_policy =
    \<lparr>pe_present = True,
     pe_policy = Some \<lparr>pf_separation = None, pf_assurance_mode = None, pf_cooldown_hours = None, pf_rules = Some [],
       pf_default_requires = None\<rparr>,
     pe_injection = False, pe_strict = False, pe_number_text = (\<lambda>_. [])\<rparr>"

definition pay_request :: "rat \<Rightarrow> string \<Rightarrow> ms \<Rightarrow> charter_request" where
  "pay_request m corr now =
    \<lparr>gq_action = pay m, gq_availability = None, gq_amountUnknown = False, gq_intent = ''pay'', gq_correlation = corr,
     gq_payload = JUndef, gq_escalates = False, gq_delegable = False, gq_now = now, gq_expected = None\<rparr>"

definition charge_at :: "rat \<Rightarrow> ms \<Rightarrow> string option \<Rightarrow> charge" where
  "charge_at m t corr = \<lparr>lc_ts = t, lc_actor = ''kyberion://agent/acme/worker'', lc_behalf = Some ''user:owner'',
     lc_class = ''payment'', lc_money = m, lc_loss = 0, lc_decision = DkAllow, lc_correlation = corr\<rparr>"

text \<open>The scope after each step.\<close>

definition scope1 :: registry where
  "scope1 = scope_with [own ''own-1'' None 1000] []"

definition scope2 :: registry where
  "scope2 = scope_with [own ''own-1'' None 1000] [(''own-1'', [Charge (charge_at 40 2000 (Some ''inv-1''))])]"

definition scope3 :: registry where
  "scope3 = scope_with [own ''own-1'' None 1000, own ''own-2'' (Some ''own-1'') 3000]
     [(''own-1'', [Charge (charge_at 40 2000 (Some ''inv-1'')), RetiredEntry 3000 ''user:owner'' (replaced_reason ''own-2'')])]"

definition scope4 :: registry where
  "scope4 = scope_with [own ''own-1'' None 1000, own ''own-2'' (Some ''own-1'') 3000]
     [(''own-1'', [Charge (charge_at 40 2000 (Some ''inv-1'')), RetiredEntry 3000 ''user:owner'' (replaced_reason ''own-2'')]),
      (''own-2'', [Charge (charge_at 90 4000 (Some ''inv-2''))])]"
abbreviation "acme \<equiv> OrgScope ''acme''"

abbreviation "own1 \<equiv> own ''own-1'' None 1000"

abbreviation "own2 \<equiv> own ''own-2'' (Some ''own-1'') 3000"

definition scope_inv :: registry where
  "scope_inv = scope_with [own1] [(''own-1'', [Charge (charge_at 10 2000 (Some ''inv-1''))])]"

definition used :: "rat \<Rightarrow> charter_usage" where
  "used n = \<lparr>us_today = n, us_month = n, us_tripwires = []\<rparr>"

lemma evaluated_run:
  "acceptCharter no_urls fixed_sha (scope_with [] []) (accept_owner ''own-1'' None 1000) = Inr (own1, scope1) \<and>
   runCharterGate no_urls plain_policy scope1 (pay_request 40 ''inv-1'' 2000) = Inr (GoAllow own1, scope2) \<and>
   acceptCharter no_urls fixed_sha scope2 (accept_owner ''own-2'' (Some ''own-1'') 3000) = Inr (own2, scope3) \<and>
   runCharterGate no_urls plain_policy scope3 (pay_request 90 ''inv-2'' 4000) = Inr (GoAllow own2, scope4) \<and>
   loadCharterUsage scope4 own2 4000 = Inr (used 130) \<and> findActiveCharter scope4 5000 = Inr (Some own2)"
  by code_simp

lemma invoice_run:
  "runCharterGate no_urls plain_policy scope1 (pay_request 10 ''inv-1'' 2000) = Inr (GoAllow own1, scope_inv) \<and>
   loadCharterUsage scope_inv own1 2001 = Inr (used 10) \<and>
   runCharterGate no_urls plain_policy scope_inv (pay_request 100 ''inv-1'' 2001) = Inr (GoAllow own1, scope_inv)"
  by code_simp

lemmas step1 = evaluated_run [THEN conjunct1]

lemmas step2 = evaluated_run [THEN conjunct2, THEN conjunct1]

lemmas later_steps = evaluated_run [THEN conjunct2, THEN conjunct2]

lemmas step3 = later_steps [THEN conjunct1]

lemmas step4 = later_steps [THEN conjunct2, THEN conjunct1]

lemmas own2_usage = later_steps [THEN conjunct2, THEN conjunct2, THEN conjunct1]

lemmas own2_active = later_steps [THEN conjunct2, THEN conjunct2, THEN conjunct2]

lemma pay_amount: "action_money (gq_action (pay_request m corr now)) = m"
  by (simp add: pay_request_def pay_def sample_action_def action_money_def)

lemma scopes_reachable:
  "charter_reachable no_negative_amount no_urls fixed_sha acme scope1"
  "charter_reachable no_negative_amount no_urls fixed_sha acme scope4"
proof -
  have 0: "charter_reachable no_negative_amount no_urls fixed_sha acme (scope_with [] [])"
    unfolding scope_with_def by (rule charter_reachable.start)
  from charter_reachable.accept [OF 0 step1] show 1: "charter_reachable no_negative_amount no_urls fixed_sha acme scope1" .
  from charter_reachable.gate [OF 1 _ step2] have 2: "charter_reachable no_negative_amount no_urls fixed_sha acme scope2"
    by (simp add: pay_amount no_negative_amount_def)
  from charter_reachable.accept [OF 2 step3] have 3: "charter_reachable no_negative_amount no_urls fixed_sha acme scope3" .
  from charter_reachable.gate [OF 3 _ step4] show "charter_reachable no_negative_amount no_urls fixed_sha acme scope4"
    by (simp add: pay_amount no_negative_amount_def)
qed

lemma own2_charge: "own2 \<in> set (rg_charters scope4)"
  "Charge (charge_at 90 4000 (Some ''inv-2'')) \<in> set (ledger_of scope4 (ch_id own2))"
  "ledger_of scope4 (ch_id own2) = [] @ Charge (charge_at 90 4000 (Some ''inv-2'')) # []"
  by (simp_all add: scope4_def scope_with_def ledger_of_def own_def sample_charter_def)

lemma charge_at_simps [simp]: "lc_money (charge_at m t corr) = m" "lc_ts (charge_at m t corr) = t"
  by (simp_all add: charge_at_def)

lemma own2_limit: "ml_per_day (en_money (ch_envelope (own i x t))) = 300"
  by (simp add: own_def sample_charter_def owner_envelope_def sample_envelope_def sample_money_def)

lemma charter_budget_is_kept_witness:
  "us_today (used 130) \<le> ml_per_day (en_money (ch_envelope own2)) \<and> us_today (used 130) = 130"
  using charter_budget_is_kept [OF scopes_reachable(2) own2_charge(1,2)] own2_usage by (simp add: used_def)

lemma amendments_carry_the_budget_witness:
  "us_today (used 130) = (\<Sum>o'\<leftarrow>rg_charters scope4. spent (\<lambda>x. utc_day x = utc_day 4000) (ledger_of scope4 (ch_id o')))"
  using amendments_carry_the_budget [OF scopes_reachable(2), of 5000 own2 4000 "used 130"] own2_usage own2_active by simp

lemma charges_rest_on_authority_witness:
  "isCharterActive own2 4000 \<and> basisCanCarry (ch_accountable own2) \<and>
   (\<exists>x. no_negative_amount x \<and> ar_kind (xa_actor x) \<noteq> HumanActor \<and> ar_id (xa_actor x) = ''kyberion://agent/acme/worker'')"
  using charges_rest_on_authority [OF scopes_reachable(2) own2_charge(1,3)] by (auto simp: charge_at_def)

section \<open>Around a budget\<close>

text \<open>A correlation that is used again spends without a charge: a consumption is recorded once for a class and a
  correlation, whatever the amounts.\<close>

lemma consumption_recorded:
  assumes "recordCharterConsumption R c x d now (Some corr) = Inr (b, R')" "allows d" "corr \<noteq> []"
  shows "charge_recorded (ledger_of R' (ch_id c)) (xa_class x) (Some corr)"
proof -
  have "charge_recorded (ledger_of R (ch_id c)) (xa_class x) (Some corr) \<and> R' = R \<or>
      (\<exists>k. R' = put_entry R (ch_id c) (Charge k) \<and> lc_correlation k = Some corr \<and> lc_class k = xa_class x)"
    using assms
    by (auto simp: recordCharterConsumption_def readLedger_def keep_truthy_def truthy_opt_def dest!: append_put
        split: if_splits sum.splits)
  then show ?thesis using assms(3) by (auto simp: charge_recorded_def truthy_opt_def)
qed

lemma recorded_consumption_is_free:
  assumes "recordCharterConsumption R c x d now corr = Inr (b, R')"
    and "charge_recorded (ledger_of R (ch_id c)) (xa_class x) corr"
  shows "R' = R"
  using assms by (auto simp: recordCharterConsumption_def readLedger_def split: if_splits)

lemma gate_allowsD:
  assumes "runCharterGate u p R q = Inr (GoAllow c, R')"
  obtains d b where "recordCharterConsumption R c (gq_action q) d (gq_now q) (Some (gq_correlation q)) = Inr (b, R')" "allows d"
  using assms by (auto simp: runCharterGate_def split: if_splits sum.splits option.splits prod.splits)

text \<open>Requests one after the other: their outcomes and the last state.\<close>

fun run_gates ::
  "url_parser \<Rightarrow> policy_env \<Rightarrow> registry \<Rightarrow> charter_request list \<Rightarrow> gate_error + charter_gate_outcome list \<times> registry" where
  "run_gates u p R [] = Inr ([], R)"
| "run_gates u p R (q # qs) =
    (case runCharterGate u p R q of
       Inl e \<Rightarrow> Inl e
     | Inr (go, R') \<Rightarrow> (case run_gates u p R' qs of Inl e \<Rightarrow> Inl e | Inr (gos, R'') \<Rightarrow> Inr (go # gos, R'')))"

text \<open>C35. Used again, a correlation spends without a charge: once the gate has let a request through under a charter,
  every later run of requests with the same correlation (not empty) and class that the charter would let through one by one
  (each is judged alone against what is left after the first) is let through as a whole, at any length and whatever
  the sum of the amounts, and no ledger changes; so the run may exceed every limit of the budget.\<close>

theorem reused_correlation_is_never_charged_again:
  assumes "runCharterGate u p R q = Inr (GoAllow c, R1)" and "gq_correlation q \<noteq> []"
    and "\<forall>q'\<in>set qs. gq_correlation q' = gq_correlation q \<and> xa_class (gq_action q') = xa_class (gq_action q) \<and>
      (\<exists>R2. runCharterGate u p R1 q' = Inr (GoAllow c, R2))"
  shows "run_gates u p R1 qs = Inr (replicate (length qs) (GoAllow c), R1)"
proof -
  obtain d b where d: "recordCharterConsumption R c (gq_action q) d (gq_now q) (Some (gq_correlation q)) = Inr (b, R1)" "allows d"
    using assms(1) by (rule gate_allowsD)
  note charged = consumption_recorded [OF d assms(2)]
  have same: "runCharterGate u p R1 q' = Inr (GoAllow c, R1)" if q': "q' \<in> set qs" for q'
  proof -
    obtain R2 where R2: "runCharterGate u p R1 q' = Inr (GoAllow c, R2)" using assms(3) q' by blast
    then obtain d' b' where "recordCharterConsumption R1 c (gq_action q') d' (gq_now q') (Some (gq_correlation q')) = Inr (b', R2)"
      by (rule gate_allowsD)
    moreover have "charge_recorded (ledger_of R1 (ch_id c)) (xa_class (gq_action q')) (Some (gq_correlation q'))"
      using charged assms(3) q' by simp
    ultimately have "R2 = R1" by (rule recorded_consumption_is_free)
    with R2 show ?thesis by simp
  qed
  then show ?thesis by (induction qs) simp_all
qed

text \<open>After one payment of 10, nine payments of 100 with the same correlation pass on one day, under a limit of 300.\<close>

lemma reused_correlation_is_never_charged_again_witness:
  "run_gates no_urls plain_policy scope_inv (replicate 9 (pay_request 100 ''inv-1'' 2001)) =
     Inr (replicate 9 (GoAllow own1), scope_inv) \<and>
   ml_per_day (en_money (ch_envelope own1)) = 300"
proof
  have "\<forall>q'\<in>set (replicate 9 (pay_request 100 ''inv-1'' 2001)).
      gq_correlation q' = gq_correlation (pay_request 10 ''inv-1'' 2000) \<and>
      xa_class (gq_action q') = xa_class (gq_action (pay_request 10 ''inv-1'' 2000)) \<and>
      (\<exists>R2. runCharterGate no_urls plain_policy scope_inv q' = Inr (GoAllow own1, R2))"
    using invoice_run by (simp add: pay_request_def pay_def sample_action_def)
  from reused_correlation_is_never_charged_again [OF invoice_run [THEN conjunct1] _ this]
  show "run_gates no_urls plain_policy scope_inv (replicate 9 (pay_request 100 ''inv-1'' 2001)) =
      Inr (replicate 9 (GoAllow own1), scope_inv)"
    by (simp add: pay_request_def)
qed (rule own2_limit)

fun decide_all :: "registry \<Rightarrow> (ms \<times> rat) list \<Rightarrow> charter_error + registry" where
  "decide_all R [] = Inr R"
| "decide_all R ((t, m) # ps) =
    (case decideUnderCharter no_urls R (pay m) present t of
       Inl e \<Rightarrow> Inl e
     | Inr (Some d, R') \<Rightarrow> if allows d then decide_all R' ps else Inl CeNoCharter
     | Inr (None, R') \<Rightarrow> Inl CeNoCharter)"

definition opened :: "(ms \<times> rat) list \<Rightarrow> registry" where
  "opened ps = scope_with [own1] (if ps = [] then [] else [(''own-1'', map (\<lambda>(t, m). Charge (charge_at m t None)) ps)])"

abbreviation "opening \<equiv> [(2000, -300), (2001, 100), (2002, 100), (2003, 100), (2004, 100)] :: (ms \<times> rat) list"

lemma opening_steps:
  "decide_all scope1 opening = Inr (opened opening) \<and> findActiveCharter (opened opening) 2005 = Inr (Some own1)"
  by code_simp

text \<open>The evaluation does not refuse a negative amount, and its charge opens the budget: after a decision of -300,
  four payments of 100 are charged on one day, under a limit of 300.\<close>

lemma negative_amount_opens_the_budget:
  "\<exists>R c. decide_all scope1 [(2000, -300), (2001, 100), (2002, 100), (2003, 100), (2004, 100)] = Inr R \<and>
    findActiveCharter R 2005 = Inr (Some c) \<and> ml_per_day (en_money (ch_envelope c)) = 300 \<and>
    ledger_of R (ch_id c) = map (\<lambda>(t, m). Charge (charge_at m t None))
      [(2000, -300), (2001, 100), (2002, 100), (2003, 100), (2004, 100)]"
proof (intro exI conjI)
  show "decide_all scope1 opening = Inr (opened opening)"
    by (rule opening_steps [THEN conjunct1])
  show "findActiveCharter (opened opening) 2005 = Inr (Some own1)" by (rule opening_steps [THEN conjunct2])
  show "ml_per_day (en_money (ch_envelope own1)) = 300" by (rule own2_limit)
  show "ledger_of (opened opening) (ch_id own1) = map (\<lambda>(t, m). Charge (charge_at m t None)) opening"
    by (simp add: opened_def scope_with_def ledger_of_def own_def sample_charter_def)
qed

end
