(* ===== verification/Jsonl_Scan.thy ===== *)
theory Jsonl_Scan
  imports Complex_Main Json
begin

text \<open>
  The readers of append-only line stores, \<open>src/libs/core/jsonl-read.ts\<close>: a file is scanned in
  fixed chunks, forward or backward, through a handle pinned to one inode, so the scan sees one list of
  bytes from its start to its end (the by-path fallback and its restart are left out: they only concern
  sources that change under the scan). A line over the limit is reported and never accumulated.

  Bytes are characters and a text is the bytes of its UTF-8 form, so decoding only drops the carriage
  return before a line feed. \<open>parse\<close> is \<open>JSON.parse\<close> (\<open>None\<close> when it throws).
  The lemmas show that both scans are the split of the file at its line feeds, whatever the chunk size.
\<close>

section \<open>Lines and events\<close>

type_synonym bytes = string

abbreviation NEWLINE :: char where
  "NEWLINE \<equiv> CHR 0x0A"

abbreviation CARRIAGE_RETURN :: char where
  "CARRIAGE_RETURN \<equiv> CHR 0x0D"

definition DEFAULT_JSONL_CHUNK_BYTES :: nat where
  "DEFAULT_JSONL_CHUNK_BYTES = 256 * 1024"

definition DEFAULT_JSONL_MAX_LINE_BYTES :: nat where
  "DEFAULT_JSONL_MAX_LINE_BYTES = 64 * 1024 * 1024"

text \<open>A raw line (text, number, whether a line feed ended it, byte range), or the report of an oversized one
  (number, first bytes, byte range and whether it was terminated). Backward scans give no range.\<close>

datatype scan_event =
    TextLine string nat bool "(nat \<times> nat) option"
  | Oversized nat string "(nat \<times> nat \<times> bool) option"

datatype scan_error = InvalidChunk | InvalidMaxLine | LineTooLong nat | MalformedLine nat

definition decodeLine :: "bytes list \<Rightarrow> string" where
  "decodeLine parts =
    (let text = concat parts in if text \<noteq> [] \<and> last text = CARRIAGE_RETURN then butlast text else text)"

text \<open>\<open>resolveScan\<close>: the options, or the error of a size that is not positive.\<close>

definition resolveScan :: "int option \<Rightarrow> int option \<Rightarrow> scan_error + (nat \<times> nat)" where
  "resolveScan chunkBytes maxLineBytes =
    (let chunk = (case chunkBytes of None \<Rightarrow> int DEFAULT_JSONL_CHUNK_BYTES | Some c \<Rightarrow> c);
         maxLine = (case maxLineBytes of None \<Rightarrow> int DEFAULT_JSONL_MAX_LINE_BYTES | Some m \<Rightarrow> m)
     in if chunk \<le> 0 then Inl InvalidChunk
        else if maxLine \<le> 0 then Inl InvalidMaxLine
        else Inr (nat chunk, nat maxLine))"

lemma dropWhile_Cons_shorter: "dropWhile P xs = y # ys \<Longrightarrow> length ys < length xs"
  by (metis Suc_le_lessD length_Cons length_dropWhile_le)

section \<open>The forward scan\<close>

record fwd_state =
  fw_parts :: "bytes list"
  fw_len :: nat
  fw_skipping :: bool
  fw_prefix :: string
  fw_number :: nat
  fw_start :: nat

definition fwd_init :: fwd_state where
  "fwd_init = \<lparr>fw_parts = [], fw_len = 0, fw_skipping = False, fw_prefix = [], fw_number = 0, fw_start = 0\<rparr>"

text \<open>The event of the line that \<open>piece\<close> ends at byte \<open>stop\<close>.\<close>

definition fwd_event :: "nat \<Rightarrow> bytes \<Rightarrow> nat \<Rightarrow> fwd_state \<Rightarrow> scan_event" where
  "fwd_event maxLine piece stop s =
    (let n = fw_number s + 1 in
     if fw_skipping s then Oversized n (fw_prefix s) (Some (fw_start s, stop, True))
     else if maxLine < fw_len s + length piece then
       (let head = (case fw_parts s of p # _ \<Rightarrow> p | [] \<Rightarrow> piece)
        in Oversized n (decodeLine [take 256 head]) (Some (fw_start s, stop, True)))
     else TextLine (decodeLine (fw_parts s @ [piece])) n True (Some (fw_start s, stop)))"

definition fwd_next :: "nat \<Rightarrow> fwd_state \<Rightarrow> fwd_state" where
  "fwd_next stop s = s\<lparr>fw_skipping := False, fw_number := fw_number s + 1, fw_parts := [], fw_len := 0, fw_start := stop\<rparr>"

text \<open>The lines that end in a buffer: \<open>ofs\<close> is the offset of its unread rest in the file.\<close>

function fwd_buffer :: "nat \<Rightarrow> nat \<Rightarrow> bytes \<Rightarrow> fwd_state \<Rightarrow> scan_event list \<times> fwd_state \<times> bytes" where
  "fwd_buffer maxLine ofs rest s =
    (case dropWhile (\<lambda>c. c \<noteq> NEWLINE) rest of
       [] \<Rightarrow> ([], s, rest)
     | _ # after \<Rightarrow>
         (let piece = takeWhile (\<lambda>c. c \<noteq> NEWLINE) rest;
              stop = ofs + length piece + 1;
              (evs, s', left) = fwd_buffer maxLine stop after (fwd_next stop s)
          in (fwd_event maxLine piece stop s # evs, s', left)))"
  by pat_completeness auto
termination
  by (relation "measure (\<lambda>(_, _, rest, _). length rest)")
    (auto dest!: dropWhile_Cons_shorter)

declare fwd_buffer.simps [simp del]

text \<open>The start of a line whose end is in a later chunk.\<close>

definition fwd_keep :: "nat \<Rightarrow> bytes \<Rightarrow> fwd_state \<Rightarrow> fwd_state" where
  "fwd_keep maxLine rest s =
    (if rest = [] \<or> fw_skipping s then s
     else if maxLine < fw_len s + length rest then
       s\<lparr>fw_prefix := decodeLine [take 256 (case fw_parts s of p # _ \<Rightarrow> p | [] \<Rightarrow> rest)],
         fw_parts := [], fw_len := 0, fw_skipping := True\<rparr>
     else s\<lparr>fw_parts := fw_parts s @ [rest], fw_len := fw_len s + length rest\<rparr>)"

definition fwd_end :: "nat \<Rightarrow> fwd_state \<Rightarrow> scan_event list" where
  "fwd_end limit s =
    (if fw_skipping s then [Oversized (fw_number s + 1) (fw_prefix s) (Some (fw_start s, limit, False))]
     else if 0 < fw_len s then
       [TextLine (decodeLine (fw_parts s)) (fw_number s + 1) False (Some (fw_start s, limit))]
     else [])"

function fwd_chunks :: "nat \<Rightarrow> nat \<Rightarrow> nat \<Rightarrow> bytes \<Rightarrow> fwd_state \<Rightarrow> scan_event list" where
  "fwd_chunks chunk maxLine pos bs s =
    (if bs = [] \<or> chunk = 0 then fwd_end pos s
     else (let (evs, s', left) = fwd_buffer maxLine pos (take chunk bs) s
           in evs @ fwd_chunks chunk maxLine (pos + min chunk (length bs)) (drop chunk bs) (fwd_keep maxLine left s')))"
  by pat_completeness auto
termination
  by (relation "measure (\<lambda>(_, _, _, bs, _). length bs)") auto

declare fwd_chunks.simps [simp del]

definition forwardLines :: "nat \<Rightarrow> nat \<Rightarrow> nat option \<Rightarrow> bytes \<Rightarrow> scan_event list" where
  "forwardLines chunk maxLine endOffset bs =
    fwd_chunks chunk maxLine 0 (case endOffset of None \<Rightarrow> bs | Some e \<Rightarrow> take e bs) fwd_init"

section \<open>The backward scan\<close>

record bwd_state =
  bw_carry :: "bytes list"
  bw_len :: nat
  bw_skipping :: bool
  bw_first :: bool
  bw_number :: nat

definition bwd_init :: bwd_state where
  "bwd_init = \<lparr>bw_carry = [], bw_len = 0, bw_skipping = False, bw_first = True, bw_number = 0\<rparr>"

text \<open>\<open>emit\<close>: the empty segment after a final line feed is no line.\<close>

definition bwd_emit :: "bytes list \<Rightarrow> bwd_state \<Rightarrow> scan_event list \<times> bwd_state" where
  "bwd_emit tail s =
    (if bw_first s then
       if concat tail = [] then ([], s)
       else ([TextLine (decodeLine tail) (bw_number s + 1) False None], s\<lparr>bw_number := bw_number s + 1\<rparr>)
     else ([TextLine (decodeLine tail) (bw_number s + 1) True None], s\<lparr>bw_number := bw_number s + 1\<rparr>))"

definition bwd_line :: "nat \<Rightarrow> bytes \<Rightarrow> bwd_state \<Rightarrow> scan_event list \<times> bwd_state" where
  "bwd_line maxLine piece s =
    (let (evs, s') =
       (if bw_skipping s \<or> maxLine < bw_len s + length piece
        then ([Oversized (bw_number s + 1) [] None], s\<lparr>bw_number := bw_number s + 1, bw_skipping := False\<rparr>)
        else bwd_emit (piece # bw_carry s) s)
     in (evs, s'\<lparr>bw_first := False, bw_carry := [], bw_len := 0\<rparr>))"

text \<open>The lines that start in a buffer, of which \<open>pre\<close> is not read yet; the rest of it has no line feed.\<close>

function bwd_buffer :: "nat \<Rightarrow> bytes \<Rightarrow> bwd_state \<Rightarrow> scan_event list \<times> bwd_state \<times> bytes" where
  "bwd_buffer maxLine pre s =
    (case dropWhile (\<lambda>c. c \<noteq> NEWLINE) (rev pre) of
       [] \<Rightarrow> ([], s, pre)
     | _ # before \<Rightarrow>
         (let piece = rev (takeWhile (\<lambda>c. c \<noteq> NEWLINE) (rev pre));
              (evs, s1) = bwd_line maxLine piece s;
              (evs', s', left) = bwd_buffer maxLine (rev before) s1
          in (evs @ evs', s', left)))"
  by pat_completeness auto
termination
  by (relation "measure (\<lambda>(_, pre, _). length pre)")
    (auto dest!: dropWhile_Cons_shorter)

declare bwd_buffer.simps [simp del]

definition bwd_keep :: "nat \<Rightarrow> bytes \<Rightarrow> bwd_state \<Rightarrow> bwd_state" where
  "bwd_keep maxLine rest s =
    (if rest = [] \<or> bw_skipping s then s
     else if maxLine < bw_len s + length rest then s\<lparr>bw_carry := [], bw_len := 0, bw_skipping := True\<rparr>
     else s\<lparr>bw_carry := rest # bw_carry s, bw_len := bw_len s + length rest\<rparr>)"

definition bwd_end :: "bwd_state \<Rightarrow> scan_event list" where
  "bwd_end s =
    (if bw_skipping s then [Oversized (bw_number s + 1) [] None]
     else if 0 < bw_len s \<or> \<not> bw_first s then fst (bwd_emit (bw_carry s) s)
     else [])"

text \<open>The chunks from the end: \<open>bs\<close> is what stands before the position.\<close>

function bwd_chunks :: "nat \<Rightarrow> nat \<Rightarrow> bytes \<Rightarrow> bwd_state \<Rightarrow> scan_event list" where
  "bwd_chunks chunk maxLine bs s =
    (if bs = [] \<or> chunk = 0 then bwd_end s
     else (let start = length bs - chunk;
               (evs, s', left) = bwd_buffer maxLine (drop start bs) s
           in evs @ bwd_chunks chunk maxLine (take start bs) (bwd_keep maxLine left s')))"
  by pat_completeness auto
termination
  by (relation "measure (\<lambda>(_, _, bs, _). length bs)") auto

declare bwd_chunks.simps [simp del]

definition backwardLines :: "nat \<Rightarrow> nat \<Rightarrow> bytes \<Rightarrow> scan_event list" where
  "backwardLines chunk maxLine bs = bwd_chunks chunk maxLine bs bwd_init"

section \<open>Records\<close>

definition parseSafeJsonInput :: "(string \<Rightarrow> json option) \<Rightarrow> string \<Rightarrow> json option" where
  "parseSafeJsonInput parse raw =
    (case parse raw of None \<Rightarrow> None | Some v \<Rightarrow> if isSafeJsonValue v then Some v else None)"

text \<open>What a line of a scan is to a reader of records: nothing, a record, a torn final line the backward
  readers pass over, or a line for the policy on malformed ones (with its number).\<close>

datatype 'a line_outcome = LineBlank | LineRecord 'a | LineTorn | LineMalformed scan_error nat

definition parseRecord ::
  "(string \<Rightarrow> json option) \<Rightarrow> (json \<Rightarrow> 'a option) \<Rightarrow> bool \<Rightarrow> scan_event \<Rightarrow> 'a line_outcome" where
  "parseRecord parse mapper tolerateTornTail ev =
    (case ev of
       Oversized n _ _ \<Rightarrow> LineMalformed (LineTooLong n) n
     | TextLine text n terminated _ \<Rightarrow>
         if js_trim text = [] then LineBlank
         else (case parseSafeJsonInput parse text of
                 None \<Rightarrow> if tolerateTornTail \<and> \<not> terminated then LineTorn else LineMalformed (MalformedLine n) n
               | Some v \<Rightarrow> (case mapper v of None \<Rightarrow> LineMalformed (MalformedLine n) n | Some r \<Rightarrow> LineRecord r)))"

text \<open>The policy \<open>'throw'\<close> ends the read at the first malformed line; the others go on, and the numbers
  the callback receives are kept.\<close>

datatype malformed_policy = PolicyThrow | PolicyNote

fun gather_records :: "malformed_policy \<Rightarrow> 'a line_outcome list \<Rightarrow> scan_error + ('a list \<times> nat list)" where
  "gather_records p [] = Inr ([], [])"
| "gather_records p (LineRecord r # os) =
    (case gather_records p os of Inl e \<Rightarrow> Inl e | Inr (rs, bad) \<Rightarrow> Inr (r # rs, bad))"
| "gather_records p (LineMalformed e n # os) =
    (if p = PolicyThrow then Inl e
     else (case gather_records p os of Inl e' \<Rightarrow> Inl e' | Inr (rs, bad) \<Rightarrow> Inr (rs, n # bad)))"
| "gather_records p (_ # os) = gather_records p os"

fun first_record :: "malformed_policy \<Rightarrow> 'a line_outcome list \<Rightarrow> scan_error + ('a option \<times> nat list)" where
  "first_record p [] = Inr (None, [])"
| "first_record p (LineRecord r # os) = Inr (Some r, [])"
| "first_record p (LineMalformed e n # os) =
    (if p = PolicyThrow then Inl e
     else (case first_record p os of Inl e' \<Rightarrow> Inl e' | Inr (r, bad) \<Rightarrow> Inr (r, n # bad)))"
| "first_record p (_ # os) = first_record p os"

definition streamJsonLines ::
  "nat \<Rightarrow> nat \<Rightarrow> (string \<Rightarrow> json option) \<Rightarrow> (json \<Rightarrow> 'a option) \<Rightarrow> malformed_policy \<Rightarrow> bytes \<Rightarrow>
    scan_error + ('a list \<times> nat list)" where
  "streamJsonLines chunk maxLine parse mapper p bs =
    gather_records p (map (parseRecord parse mapper False) (forwardLines chunk maxLine None bs))"

definition readJsonLinesBackward ::
  "nat \<Rightarrow> nat \<Rightarrow> (string \<Rightarrow> json option) \<Rightarrow> (json \<Rightarrow> 'a option) \<Rightarrow> bytes \<Rightarrow> 'a line_outcome list" where
  "readJsonLinesBackward chunk maxLine parse mapper bs =
    map (parseRecord parse mapper True) (backwardLines chunk maxLine bs)"

definition readLastJsonLine ::
  "nat \<Rightarrow> nat \<Rightarrow> (string \<Rightarrow> json option) \<Rightarrow> (json \<Rightarrow> 'a option) \<Rightarrow> malformed_policy \<Rightarrow> bytes \<Rightarrow>
    scan_error + ('a option \<times> nat list)" where
  "readLastJsonLine chunk maxLine parse mapper p bs =
    first_record p (readJsonLinesBackward chunk maxLine parse mapper bs)"

definition DEFAULT_SINCE_STOP_AFTER_OLDER :: nat where
  "DEFAULT_SINCE_STOP_AFTER_OLDER = 64"

text \<open>The loop of \<open>readJsonLinesSince\<close> over the records from the newest on; \<open>out\<close> holds
  the kept records, the newest first in the loop of the code, so its reversal is returned.\<close>

fun since_loop ::
  "malformed_policy \<Rightarrow> ('a \<Rightarrow> int option) \<Rightarrow> int \<Rightarrow> nat \<Rightarrow> nat option \<Rightarrow> nat \<Rightarrow> 'a list \<Rightarrow> 'a line_outcome list \<Rightarrow>
    scan_error + 'a list" where
  "since_loop p timeOf sinceMs stopAfter cap olderRun out [] = Inr out"
| "since_loop p timeOf sinceMs stopAfter cap olderRun out (LineRecord r # os) =
    (case timeOf r of
       Some t \<Rightarrow>
         if t < sinceMs then
           (if stopAfter \<le> olderRun + 1 then Inr out
            else since_loop p timeOf sinceMs stopAfter cap (olderRun + 1) out os)
         else if cap \<noteq> None \<and> the cap \<le> length (out @ [r]) then Inr (out @ [r])
         else since_loop p timeOf sinceMs stopAfter cap 0 (out @ [r]) os
     | None \<Rightarrow>
         if cap \<noteq> None \<and> the cap \<le> length (out @ [r]) then Inr (out @ [r])
         else since_loop p timeOf sinceMs stopAfter cap olderRun (out @ [r]) os)"
| "since_loop p timeOf sinceMs stopAfter cap olderRun out (LineMalformed e n # os) =
    (if p = PolicyThrow then Inl e else since_loop p timeOf sinceMs stopAfter cap olderRun out os)"
| "since_loop p timeOf sinceMs stopAfter cap olderRun out (_ # os) =
    since_loop p timeOf sinceMs stopAfter cap olderRun out os"

definition readJsonLinesSince ::
  "nat \<Rightarrow> nat \<Rightarrow> (string \<Rightarrow> json option) \<Rightarrow> (json \<Rightarrow> 'a option) \<Rightarrow> malformed_policy \<Rightarrow> ('a \<Rightarrow> int option) \<Rightarrow>
    int \<Rightarrow> nat option \<Rightarrow> nat option \<Rightarrow> bytes \<Rightarrow> scan_error + 'a list" where
  "readJsonLinesSince chunk maxLine parse mapper p timeOf sinceMs stopAfterOlder maxRecords bs =
    (if maxRecords = Some 0 then Inr []
     else (case since_loop p timeOf sinceMs
                  (max 1 (case stopAfterOlder of None \<Rightarrow> DEFAULT_SINCE_STOP_AFTER_OLDER | Some n \<Rightarrow> n)) maxRecords 0 []
                  (readJsonLinesBackward chunk maxLine parse mapper bs) of
             Inl e \<Rightarrow> Inl e
           | Inr out \<Rightarrow> Inr (rev out)))"

text \<open>The last byte alone decides.\<close>

definition fileEndsWithNewline :: "bytes \<Rightarrow> bool" where
  "fileEndsWithNewline bs \<longleftrightarrow> bs = [] \<or> last bs = NEWLINE"

section \<open>The split at the line feeds\<close>

text \<open>The reference: the lines of a file, each with whether a line feed ends it.\<close>

function file_lines :: "bytes \<Rightarrow> (bytes \<times> bool) list" where
  "file_lines bs =
    (if bs = [] then []
     else (case dropWhile (\<lambda>c. c \<noteq> NEWLINE) bs of
             [] \<Rightarrow> [(bs, False)]
           | _ # after \<Rightarrow> (takeWhile (\<lambda>c. c \<noteq> NEWLINE) bs, True) # file_lines after))"
  by pat_completeness auto
termination
  by (relation "measure length") (auto dest!: dropWhile_Cons_shorter)

declare file_lines.simps [simp del]

fun number_forward :: "nat \<Rightarrow> nat \<Rightarrow> nat \<Rightarrow> (bytes \<times> bool) list \<Rightarrow> scan_event list" where
  "number_forward maxLine n ofs [] = []"
| "number_forward maxLine n ofs ((l, t) # ls) =
    (let stop = ofs + length l + (if t then 1 else 0)
     in (if maxLine < length l then Oversized (n + 1) [] (Some (ofs, stop, t))
         else TextLine (decodeLine [l]) (n + 1) t (Some (ofs, stop))) # number_forward maxLine (n + 1) stop ls)"

fun number_backward :: "nat \<Rightarrow> nat \<Rightarrow> (bytes \<times> bool) list \<Rightarrow> scan_event list" where
  "number_backward maxLine n [] = []"
| "number_backward maxLine n ((l, t) # ls) =
    (if maxLine < length l then Oversized (n + 1) [] None else TextLine (decodeLine [l]) (n + 1) t None) #
    number_backward maxLine (n + 1) ls"

text \<open>The first bytes shown for an oversized line depend on where the chunks fall.\<close>

definition without_prefix :: "scan_event \<Rightarrow> scan_event" where
  "without_prefix ev = (case ev of Oversized n _ r \<Rightarrow> Oversized n [] r | TextLine _ _ _ _ \<Rightarrow> ev)"

lemma without_prefix_simps [simp]:
  "without_prefix (Oversized n p r) = Oversized n [] r"
  "without_prefix (TextLine x n t q) = TextLine x n t q"
  by (simp_all add: without_prefix_def)

lemma decodeLine_concat: "concat ps = concat qs \<Longrightarrow> decodeLine ps = decodeLine qs"
  by (simp add: decodeLine_def)

lemma file_lines_Nil [simp]: "file_lines [] = []"
  by (simp add: file_lines.simps)

lemma no_line_end: "NEWLINE \<notin> set l \<Longrightarrow> dropWhile (\<lambda>c. c \<noteq> NEWLINE) l = []"
  "NEWLINE \<notin> set l \<Longrightarrow> takeWhile (\<lambda>c. c \<noteq> NEWLINE) l = l"
  by (auto simp: dropWhile_eq_Nil_conv takeWhile_eq_all_conv)

lemma file_lines_torn: "l \<noteq> [] \<Longrightarrow> NEWLINE \<notin> set l \<Longrightarrow> file_lines l = [(l, False)]"
  by (subst file_lines.simps) (simp add: no_line_end)

lemma file_lines_line: "NEWLINE \<notin> set l \<Longrightarrow> file_lines (l @ NEWLINE # bs) = (l, True) # file_lines bs"
  by (induction l) (auto simp: file_lines.simps [of "_ # _"] no_line_end dropWhile_append takeWhile_append)

lemma split_first_line:
  assumes "dropWhile (\<lambda>c. c \<noteq> NEWLINE) bs = d # after"
  shows "bs = takeWhile (\<lambda>c. c \<noteq> NEWLINE) bs @ NEWLINE # after"
    and "NEWLINE \<notin> set (takeWhile (\<lambda>c. c \<noteq> NEWLINE) bs)"
proof -
  have "d = NEWLINE" using hd_dropWhile [of "\<lambda>c. c \<noteq> NEWLINE" bs] assms by simp
  then show "bs = takeWhile (\<lambda>c. c \<noteq> NEWLINE) bs @ NEWLINE # after"
    using assms takeWhile_dropWhile_id [of "\<lambda>c. c \<noteq> NEWLINE" bs] by simp
  show "NEWLINE \<notin> set (takeWhile (\<lambda>c. c \<noteq> NEWLINE) bs)" by (auto dest: set_takeWhileD)
qed

lemma file_lines_append: "file_lines (bs @ [NEWLINE] @ cs) = file_lines (bs @ [NEWLINE]) @ file_lines cs"
proof (induction bs rule: file_lines.induct)
  case (1 bs)
  show ?case
  proof (cases "dropWhile (\<lambda>c. c \<noteq> NEWLINE) bs")
    case Nil
    then have "NEWLINE \<notin> set bs" by (auto simp: dropWhile_eq_Nil_conv)
    then show ?thesis by (simp add: file_lines_line)
  next
    case (Cons d after)
    note sp = split_first_line [OF Cons]
    have ne: "bs \<noteq> []" using Cons by auto
    have IH: "file_lines (after @ [NEWLINE] @ cs) = file_lines (after @ [NEWLINE]) @ file_lines cs"
      using 1 [OF ne Cons] .
    have eq: "file_lines (bs @ ds) = (takeWhile (\<lambda>c. c \<noteq> NEWLINE) bs, True) # file_lines (after @ ds)" for ds
      using file_lines_line [OF sp(2), of "after @ ds"] sp(1) by (metis append_Cons append_assoc)
    show ?thesis using IH by (simp only: eq append_Cons)
  qed
qed

section \<open>The forward scan gives the split\<close>

text \<open>What a forward scan has read of the current line: its bytes while it keeps them, more bytes than the limit
  when it skips.\<close>

definition fwd_ok :: "nat \<Rightarrow> fwd_state \<Rightarrow> bytes \<Rightarrow> bool" where
  "fwd_ok maxLine s cur \<longleftrightarrow> NEWLINE \<notin> set cur \<and>
    (if fw_skipping s then maxLine < length cur
     else concat (fw_parts s) = cur \<and> fw_len s = length cur \<and> length cur \<le> maxLine)"

lemma fwd_ok_init: "fwd_ok maxLine fwd_init []"
  by (simp add: fwd_ok_def fwd_init_def)

lemma fwd_ok_next: "fwd_ok maxLine (fwd_next stop s) []"
  by (simp add: fwd_ok_def fwd_next_def)

lemma fwd_event_line:
  assumes "fwd_ok maxLine s cur" "stop = fw_start s + length cur + length piece + 1"
  shows "number_forward maxLine (fw_number s) (fw_start s) ((cur @ piece, True) # ls) =
    without_prefix (fwd_event maxLine piece stop s) # number_forward maxLine (fw_number s + 1) stop ls"
  using assms by (auto simp: fwd_ok_def fwd_event_def Let_def add.assoc intro: decodeLine_concat)

lemma fwd_buffer_none:
  "dropWhile (\<lambda>c. c \<noteq> NEWLINE) rest = [] \<Longrightarrow> fwd_buffer maxLine ofs rest s = ([], s, rest)"
  by (subst fwd_buffer.simps) (simp only: list.case)

lemma fwd_buffer_some:
  assumes "dropWhile (\<lambda>c. c \<noteq> NEWLINE) rest = d # after" "piece = takeWhile (\<lambda>c. c \<noteq> NEWLINE) rest"
    "stop = ofs + length piece + 1"
  shows "fwd_buffer maxLine ofs rest s =
    (case fwd_buffer maxLine stop after (fwd_next stop s) of (evs, s', left) \<Rightarrow> (fwd_event maxLine piece stop s # evs, s', left))"
  by (subst fwd_buffer.simps) (simp add: assms Let_def)

lemma fwd_buffer_lines:
  assumes "fwd_buffer maxLine ofs rest s = (evs, s', left)" "fwd_ok maxLine s cur" "ofs = fw_start s + length cur"
  shows "\<exists>cur'. fwd_ok maxLine s' cur' \<and> NEWLINE \<notin> set left \<and>
    fw_start s' + length cur' + length left = ofs + length rest \<and>
    (\<forall>t. number_forward maxLine (fw_number s) (fw_start s) (file_lines (cur @ rest @ t)) =
      map without_prefix evs @ number_forward maxLine (fw_number s') (fw_start s') (file_lines (cur' @ left @ t)))"
  using assms
proof (induction maxLine ofs rest s arbitrary: cur evs s' left rule: fwd_buffer.induct)
  case (1 maxLine ofs rest s)
  show ?case
  proof (cases "dropWhile (\<lambda>c. c \<noteq> NEWLINE) rest")
    case Nil
    then have "evs = []" "s' = s" "left = rest" using 1(2) by (simp_all add: fwd_buffer_none)
    moreover have "NEWLINE \<notin> set rest" using Nil by (auto simp: dropWhile_eq_Nil_conv)
    ultimately show ?thesis using 1(3,4) by (intro exI [of _ cur]) simp
  next
    case (Cons d after)
    define piece where "piece = takeWhile (\<lambda>c. c \<noteq> NEWLINE) rest"
    define stop where "stop = ofs + length piece + 1"
    note sp = split_first_line [OF Cons, folded piece_def]
    obtain evs1 where rec: "fwd_buffer maxLine stop after (fwd_next stop s) = (evs1, s', left)"
      and evs: "evs = fwd_event maxLine piece stop s # evs1"
      using 1(2) by (auto simp: fwd_buffer_some [OF Cons piece_def stop_def] split: prod.splits)
    have "stop = fw_start (fwd_next stop s) + length []" by (simp add: fwd_next_def)
    from 1(1) [OF Cons piece_def stop_def rec fwd_ok_next this] obtain cur'
      where IH: "fwd_ok maxLine s' cur'" "NEWLINE \<notin> set left"
        "fw_start s' + length cur' + length left = stop + length after"
        "\<And>t. number_forward maxLine (fw_number (fwd_next stop s)) (fw_start (fwd_next stop s)) (file_lines ([] @ after @ t)) =
          map without_prefix evs1 @ number_forward maxLine (fw_number s') (fw_start s') (file_lines (cur' @ left @ t))"
      by blast
    have len: "length rest = length piece + 1 + length after" using sp(1) by (metis length_append length_Cons add.assoc plus_1_eq_Suc)
    have lines: "file_lines (cur @ rest @ t) = (cur @ piece, True) # file_lines (after @ t)" for t
    proof -
      have "cur @ rest @ t = (cur @ piece) @ NEWLINE # (after @ t)" by (subst sp(1)) simp
      moreover have "NEWLINE \<notin> set (cur @ piece)" using sp(2) 1(3) by (simp add: fwd_ok_def)
      ultimately show ?thesis by (simp only: file_lines_line not_False_eq_True)
    qed
    have st: "stop = fw_start s + length cur + length piece + 1" using 1(4) by (simp add: stop_def)
    have "number_forward maxLine (fw_number s) (fw_start s) (file_lines (cur @ rest @ t)) =
        map without_prefix evs @ number_forward maxLine (fw_number s') (fw_start s') (file_lines (cur' @ left @ t))" for t
      using IH(4) [of t] by (simp only: lines fwd_event_line [OF 1(3) st] evs list.map append_Cons)
        (simp add: fwd_next_def)
    then show ?thesis using IH(1-3) len by (intro exI [of _ cur']) (simp add: stop_def)
  qed
qed

lemma fwd_keep_ok:
  assumes "fwd_ok maxLine s cur" "NEWLINE \<notin> set rest"
  shows "fwd_ok maxLine (fwd_keep maxLine rest s) (cur @ rest)"
    and "fw_number (fwd_keep maxLine rest s) = fw_number s" "fw_start (fwd_keep maxLine rest s) = fw_start s"
  using assms by (auto simp: fwd_ok_def fwd_keep_def)

lemma fwd_end_lines:
  assumes "fwd_ok maxLine s cur" "pos = fw_start s + length cur"
  shows "map without_prefix (fwd_end pos s) = number_forward maxLine (fw_number s) (fw_start s) (file_lines cur)"
proof (cases "cur = []")
  case True
  then show ?thesis using assms by (auto simp: fwd_ok_def fwd_end_def split: if_splits)
next
  case False
  show ?thesis
    using assms False by (auto simp: fwd_ok_def fwd_end_def file_lines_torn Let_def intro: decodeLine_concat split: if_splits)
qed

lemma fwd_chunks_lines:
  assumes "fwd_ok maxLine s cur" "pos = fw_start s + length cur" "0 < chunk"
  shows "map without_prefix (fwd_chunks chunk maxLine pos bs s) =
    number_forward maxLine (fw_number s) (fw_start s) (file_lines (cur @ bs))"
  using assms
proof (induction chunk maxLine pos bs s arbitrary: cur rule: fwd_chunks.induct)
  case (1 chunk maxLine pos bs s)
  show ?case
  proof (cases "bs = []")
    case True
    then show ?thesis using fwd_end_lines [OF 1(2,3)] by (simp add: fwd_chunks.simps)
  next
    case False
    obtain evs s' left where buf: "fwd_buffer maxLine pos (take chunk bs) s = (evs, s', left)"
      by (metis prod_cases3)
    from fwd_buffer_lines [OF buf 1(2,3)] obtain cur' where
      b: "fwd_ok maxLine s' cur'" "NEWLINE \<notin> set left"
        "fw_start s' + length cur' + length left = pos + length (take chunk bs)"
        "\<And>t. number_forward maxLine (fw_number s) (fw_start s) (file_lines (cur @ take chunk bs @ t)) =
          map without_prefix evs @ number_forward maxLine (fw_number s') (fw_start s') (file_lines (cur' @ left @ t))"
      by blast
    note k = fwd_keep_ok [OF b(1,2)]
    have pos: "pos + min chunk (length bs) = fw_start (fwd_keep maxLine left s') + length (cur' @ left)"
      using b(3) by (simp add: k min.commute)
    have "\<not> (bs = [] \<or> chunk = 0)" using False 1(4) by simp
    from 1(1) [OF this buf [symmetric] refl refl k(1) pos 1(4)] b(4) [of "drop chunk bs"]
    show ?thesis using False 1(4) by (simp add: fwd_chunks.simps [of chunk maxLine pos bs s] buf k)
  qed
qed

lemma forwardLines_split:
  "0 < chunk \<Longrightarrow> map without_prefix (forwardLines chunk maxLine None bs) = number_forward maxLine 0 0 (file_lines bs)"
  using fwd_chunks_lines [OF fwd_ok_init, of 0 chunk maxLine bs] by (simp add: forwardLines_def fwd_init_def)

section \<open>The backward scan gives the reversed split\<close>

text \<open>The part of the file a backward scan has not reported: what it has not read, then the line it carries, and
  the line feed after that line unless it is the last segment.\<close>

definition bwd_ok :: "nat \<Rightarrow> bwd_state \<Rightarrow> bytes \<Rightarrow> bool" where
  "bwd_ok maxLine s cur \<longleftrightarrow> NEWLINE \<notin> set cur \<and>
    (if bw_skipping s then maxLine < length cur
     else concat (bw_carry s) = cur \<and> bw_len s = length cur \<and> length cur \<le> maxLine)"

definition bwd_tail :: "bwd_state \<Rightarrow> bytes" where
  "bwd_tail s = (if bw_first s then [] else [NEWLINE])"

lemma bwd_line_lines:
  assumes ok: "bwd_ok maxLine s cur" and "NEWLINE \<notin> set piece" and l: "bwd_line maxLine piece s = (evs, s')"
  shows "number_backward maxLine (bw_number s) (rev (file_lines (p @ NEWLINE # piece @ cur @ bwd_tail s))) =
      evs @ number_backward maxLine (bw_number s') (rev (file_lines (p @ [NEWLINE])))"
    and "bwd_ok maxLine s' []" "\<not> bw_first s'"
proof -
  have nl: "NEWLINE \<notin> set (piece @ cur)" using assms by (simp add: bwd_ok_def)
  have split: "file_lines (p @ NEWLINE # piece @ cur @ bwd_tail s) =
      file_lines (p @ [NEWLINE]) @ file_lines (piece @ cur @ bwd_tail s)"
    using file_lines_append [of p "piece @ cur @ bwd_tail s"] by simp
  have last: "file_lines (piece @ cur @ bwd_tail s) =
      (if bw_first s then (if piece @ cur = [] then [] else [(piece @ cur, False)]) else [(piece @ cur, True)])"
    using file_lines_torn [of "piece @ cur"] file_lines_line [OF nl, of "[]"] nl by (auto simp: bwd_tail_def)
  show "number_backward maxLine (bw_number s) (rev (file_lines (p @ NEWLINE # piece @ cur @ bwd_tail s))) =
      evs @ number_backward maxLine (bw_number s') (rev (file_lines (p @ [NEWLINE])))"
    using ok l unfolding split last
    by (auto simp: bwd_line_def bwd_ok_def bwd_emit_def Let_def split: if_splits intro!: decodeLine_concat)
  show "bwd_ok maxLine s' []" "\<not> bw_first s'"
    using l by (auto simp: bwd_line_def bwd_ok_def bwd_emit_def Let_def split: if_splits)
qed

lemma split_last_line:
  assumes "dropWhile (\<lambda>c. c \<noteq> NEWLINE) (rev pre) = d # before"
  shows "pre = rev before @ NEWLINE # rev (takeWhile (\<lambda>c. c \<noteq> NEWLINE) (rev pre))"
    and "NEWLINE \<notin> set (rev (takeWhile (\<lambda>c. c \<noteq> NEWLINE) (rev pre)))"
proof -
  have "rev (rev pre) = rev before @ NEWLINE # rev (takeWhile (\<lambda>c. c \<noteq> NEWLINE) (rev pre))"
    by (subst split_first_line(1) [OF assms]) simp
  then show "pre = rev before @ NEWLINE # rev (takeWhile (\<lambda>c. c \<noteq> NEWLINE) (rev pre))" by simp
  show "NEWLINE \<notin> set (rev (takeWhile (\<lambda>c. c \<noteq> NEWLINE) (rev pre)))"
    using split_first_line(2) [OF assms] by simp
qed

lemma bwd_buffer_none:
  "dropWhile (\<lambda>c. c \<noteq> NEWLINE) (rev pre) = [] \<Longrightarrow> bwd_buffer maxLine pre s = ([], s, pre)"
  by (subst bwd_buffer.simps) (simp only: list.case)

lemma bwd_buffer_some:
  assumes "dropWhile (\<lambda>c. c \<noteq> NEWLINE) (rev pre) = d # before"
    "piece = rev (takeWhile (\<lambda>c. c \<noteq> NEWLINE) (rev pre))" "bwd_line maxLine piece s = (evs, s1)"
  shows "bwd_buffer maxLine pre s =
    (case bwd_buffer maxLine (rev before) s1 of (evs', s', left) \<Rightarrow> (evs @ evs', s', left))"
  using assms(3) by (subst bwd_buffer.simps) (simp add: assms(1,2) Let_def)

lemma bwd_buffer_lines:
  assumes "bwd_buffer maxLine pre s = (evs, s', left)" "bwd_ok maxLine s cur"
  shows "\<exists>cur'. bwd_ok maxLine s' cur' \<and> NEWLINE \<notin> set left \<and>
    (\<forall>p. number_backward maxLine (bw_number s) (rev (file_lines (p @ pre @ cur @ bwd_tail s))) =
      evs @ number_backward maxLine (bw_number s') (rev (file_lines (p @ left @ cur' @ bwd_tail s'))))"
  using assms
proof (induction maxLine pre s arbitrary: cur evs s' left rule: bwd_buffer.induct)
  case (1 maxLine pre s)
  show ?case
  proof (cases "dropWhile (\<lambda>c. c \<noteq> NEWLINE) (rev pre)")
    case Nil
    then have "evs = []" "s' = s" "left = pre" using 1(2) by (simp_all add: bwd_buffer_none)
    moreover have "NEWLINE \<notin> set pre" using Nil by (auto simp: dropWhile_eq_Nil_conv)
    ultimately show ?thesis using 1(3) by (intro exI [of _ cur]) simp
  next
    case (Cons d before)
    define piece where "piece = rev (takeWhile (\<lambda>c. c \<noteq> NEWLINE) (rev pre))"
    note sp = split_last_line [OF Cons, folded piece_def]
    obtain evs1 s1 where l: "bwd_line maxLine piece s = (evs1, s1)" by fastforce
    obtain evs2 where rec: "bwd_buffer maxLine (rev before) s1 = (evs2, s', left)" and evs: "evs = evs1 @ evs2"
      using 1(2) by (auto simp: bwd_buffer_some [OF Cons piece_def l] split: prod.splits)
    note line = bwd_line_lines [OF 1(3) sp(2) l]
    from 1(1) [OF Cons piece_def l [symmetric] refl rec line(2)] obtain cur' where
      IH: "bwd_ok maxLine s' cur'" "NEWLINE \<notin> set left"
        "\<And>p. number_backward maxLine (bw_number s1) (rev (file_lines (p @ rev before @ [] @ bwd_tail s1))) =
          evs2 @ number_backward maxLine (bw_number s') (rev (file_lines (p @ left @ cur' @ bwd_tail s')))"
      by blast
    have "number_backward maxLine (bw_number s) (rev (file_lines (p @ pre @ cur @ bwd_tail s))) =
        evs @ number_backward maxLine (bw_number s') (rev (file_lines (p @ left @ cur' @ bwd_tail s')))" for p
    proof -
      have "p @ pre @ cur @ bwd_tail s = (p @ rev before) @ NEWLINE # piece @ cur @ bwd_tail s"
        by (subst sp(1)) simp
      moreover have "bwd_tail s1 = [NEWLINE]" using line(3) by (simp add: bwd_tail_def)
      ultimately show ?thesis using line(1) [of "p @ rev before"] IH(3) [of p] by (simp add: evs)
    qed
    then show ?thesis using IH(1,2) by blast
  qed
qed

lemma bwd_keep_ok:
  assumes "bwd_ok maxLine s cur" "NEWLINE \<notin> set rest"
  shows "bwd_ok maxLine (bwd_keep maxLine rest s) (rest @ cur)"
    and "bw_number (bwd_keep maxLine rest s) = bw_number s" "bwd_tail (bwd_keep maxLine rest s) = bwd_tail s"
  using assms by (auto simp: bwd_ok_def bwd_keep_def bwd_tail_def)

lemma bwd_end_lines:
  assumes "bwd_ok maxLine s cur"
  shows "bwd_end s = number_backward maxLine (bw_number s) (rev (file_lines (cur @ bwd_tail s)))"
proof (cases "bw_first s")
  case True
  then show ?thesis using assms
    by (cases "cur = []")
      (auto simp: bwd_ok_def bwd_end_def bwd_emit_def bwd_tail_def file_lines_torn intro: decodeLine_concat split: if_splits)
next
  case False
  have "file_lines (cur @ [NEWLINE]) = [(cur, True)]" using assms file_lines_line [of cur "[]"] by (simp add: bwd_ok_def)
  then show ?thesis using assms False
    by (auto simp: bwd_ok_def bwd_end_def bwd_emit_def bwd_tail_def intro: decodeLine_concat split: if_splits)
qed

lemma bwd_chunks_lines:
  assumes "bwd_ok maxLine s cur" "0 < chunk"
  shows "bwd_chunks chunk maxLine bs s = number_backward maxLine (bw_number s) (rev (file_lines (bs @ cur @ bwd_tail s)))"
  using assms
proof (induction chunk maxLine bs s arbitrary: cur rule: bwd_chunks.induct)
  case (1 chunk maxLine bs s)
  show ?case
  proof (cases "bs = []")
    case True
    then show ?thesis using bwd_end_lines [OF 1(2)] by (simp add: bwd_chunks.simps)
  next
    case False
    define start where "start = length bs - chunk"
    obtain evs s' left where buf: "bwd_buffer maxLine (drop start bs) s = (evs, s', left)"
      by (metis prod_cases3)
    from bwd_buffer_lines [OF buf 1(2)] obtain cur' where
      b: "bwd_ok maxLine s' cur'" "NEWLINE \<notin> set left"
        "\<And>p. number_backward maxLine (bw_number s) (rev (file_lines (p @ drop start bs @ cur @ bwd_tail s))) =
          evs @ number_backward maxLine (bw_number s') (rev (file_lines (p @ left @ cur' @ bwd_tail s')))"
      by blast
    note k = bwd_keep_ok [OF b(1,2)]
    have "\<not> (bs = [] \<or> chunk = 0)" using False 1(3) by simp
    from 1(1) [OF this start_def refl buf [symmetric] refl k(1) 1(3)] b(3) [of "take start bs"]
      append_take_drop_id [of start bs]
    show ?thesis using False 1(3) by (simp add: bwd_chunks.simps [of chunk maxLine bs s] buf [unfolded start_def] start_def k Let_def
          flip: append_assoc)
  qed
qed

lemma backwardLines_split:
  "0 < chunk \<Longrightarrow> backwardLines chunk maxLine bs = number_backward maxLine 0 (rev (file_lines bs))"
  using bwd_chunks_lines [of maxLine bwd_init "[]" chunk bs]
  by (simp add: backwardLines_def bwd_init_def bwd_ok_def bwd_tail_def)

section \<open>The readers of records\<close>

text \<open>The record of a line, if it has one: neither the direction nor the number of the line matters.\<close>

definition line_record :: "nat \<Rightarrow> (string \<Rightarrow> json option) \<Rightarrow> (json \<Rightarrow> 'a option) \<Rightarrow> bytes \<times> bool \<Rightarrow> 'a option" where
  "line_record maxLine parse mapper = (\<lambda>(l, t).
    if maxLine < length l \<or> js_trim (decodeLine [l]) = [] then None
    else (case parseSafeJsonInput parse (decodeLine [l]) of None \<Rightarrow> None | Some v \<Rightarrow> mapper v))"

definition outcome_record :: "'a line_outcome \<Rightarrow> 'a option" where
  "outcome_record os = (case os of LineRecord r \<Rightarrow> Some r | _ \<Rightarrow> None)"

definition outcome_bad :: "'a line_outcome \<Rightarrow> nat option" where
  "outcome_bad os = (case os of LineMalformed _ n \<Rightarrow> Some n | _ \<Rightarrow> None)"

lemma outcome_simps [simp]:
  "outcome_record (LineRecord r) = Some r" "outcome_record (LineMalformed e n) = None"
  "outcome_record LineBlank = None" "outcome_record LineTorn = None"
  "outcome_bad (LineRecord r) = None" "outcome_bad (LineMalformed e n) = Some n"
  "outcome_bad LineBlank = None" "outcome_bad LineTorn = None"
  by (simp_all add: outcome_record_def outcome_bad_def)

lemma gather_records_note:
  "gather_records PolicyNote os = Inr (List.map_filter outcome_record os, List.map_filter outcome_bad os)"
  by (induction PolicyNote os rule: gather_records.induct)
    simp_all

lemma first_record_note:
  "first_record PolicyNote os =
    Inr (case List.map_filter outcome_record os of [] \<Rightarrow> None | r # _ \<Rightarrow> Some r,
         List.map_filter outcome_bad (takeWhile (\<lambda>r. outcome_record r = None) os))"
  by (induction PolicyNote os rule: first_record.induct)
    simp_all

lemma parseRecord_without_prefix: "parseRecord parse mapper b (without_prefix ev) = parseRecord parse mapper b ev"
  by (cases ev) (simp_all add: parseRecord_def)

lemma outcome_record_forward:
  "map (outcome_record \<circ> parseRecord parse mapper b) (number_forward maxLine n ofs ls) =
    map (line_record maxLine parse mapper) ls"
  by (induction maxLine n ofs ls rule: number_forward.induct)
    (auto simp: Let_def parseRecord_def line_record_def outcome_record_def split: option.splits)

lemma outcome_record_backward:
  "map (outcome_record \<circ> parseRecord parse mapper b) (number_backward maxLine n ls) =
    map (line_record maxLine parse mapper) ls"
  by (induction maxLine n ls rule: number_backward.induct)
    (auto simp: parseRecord_def line_record_def outcome_record_def split: option.splits)

lemma map_filter_map: "List.map_filter f (map g xs) = List.map_filter (f \<circ> g) xs"
  by (induction xs) (simp_all split: option.split)

lemma map_filter_rev: "List.map_filter f (rev xs) = rev (List.map_filter f xs)"
  by (simp add: List.map_filter_def rev_map rev_filter)

lemma map_filter_alt: "List.map_filter h zs = map the (filter (\<lambda>v. v \<noteq> None) (map h zs))"
  by (induction zs) (auto split: option.split)

lemma map_filter_via_map: "map f xs = map g ys \<Longrightarrow> List.map_filter f xs = List.map_filter g ys"
  by (simp only: map_filter_alt)

lemma stream_records:
  assumes "0 < chunk"
  shows "streamJsonLines chunk maxLine parse mapper PolicyNote bs =
    Inr (List.map_filter (line_record maxLine parse mapper) (file_lines bs),
         List.map_filter outcome_bad
           (map (parseRecord parse mapper False) (number_forward maxLine 0 0 (file_lines bs))))"
proof -
  have "map (parseRecord parse mapper False) (forwardLines chunk maxLine None bs) =
      map (parseRecord parse mapper False) (number_forward maxLine 0 0 (file_lines bs))"
    by (simp flip: forwardLines_split [OF assms] add: comp_def parseRecord_without_prefix)
  then show ?thesis
    by (simp add: streamJsonLines_def gather_records_note map_filter_map
        map_filter_via_map [OF outcome_record_forward [unfolded comp_def], folded comp_def])
qed

lemma last_record:
  assumes "0 < chunk"
  shows "readLastJsonLine chunk maxLine parse mapper PolicyNote bs =
    Inr (case rev (List.map_filter (line_record maxLine parse mapper) (file_lines bs)) of [] \<Rightarrow> None | r # _ \<Rightarrow> Some r,
         List.map_filter outcome_bad (takeWhile (\<lambda>r. outcome_record r = None)
           (map (parseRecord parse mapper True) (number_backward maxLine 0 (rev (file_lines bs))))))"
proof -
  show ?thesis
    by (simp add: readLastJsonLine_def readJsonLinesBackward_def backwardLines_split [OF assms] first_record_note
        map_filter_map map_filter_rev map_filter_via_map [OF outcome_record_backward [unfolded comp_def], folded comp_def])
qed

text \<open>C19. The chunked readers are the plain reading of the file: whatever the chunk sizes, the forward scan gives
  the lines between the line feeds in order, with their numbers and byte ranges, the backward scan gives the
  same lines from the end, a line over the limit is reported exactly when it is longer than the limit, and the
  reader of the last record finds the last record of the full forward read.\<close>

theorem chunked_readers_read_the_lines:
  assumes "0 < chunk" "0 < chunk'"
  shows "map without_prefix (forwardLines chunk maxLine None bs) = number_forward maxLine 0 0 (file_lines bs) \<and>
    backwardLines chunk' maxLine bs = number_backward maxLine 0 (rev (file_lines bs)) \<and>
    (\<exists>rs bad skipped. streamJsonLines chunk maxLine parse mapper PolicyNote bs = Inr (rs, bad) \<and>
      readLastJsonLine chunk' maxLine parse mapper PolicyNote bs = Inr (if rs = [] then None else Some (last rs), skipped))"
  unfolding stream_records [OF assms(1)] last_record [OF assms(2)]
  using forwardLines_split [OF assms(1)] backwardLines_split [OF assms(2)]
  by (auto simp: rev_swap last_rev hd_rev split: list.splits)

theorem chunked_readers_read_the_lines_witness:
  "map without_prefix (forwardLines 2 3 None ''ab\<newline>cdefg\<newline>h'') =
      [TextLine ''ab'' 1 True (Some (0, 3)), Oversized 2 [] (Some (3, 9, True)), TextLine ''h'' 3 False (Some (9, 10))] \<and>
    backwardLines 3 3 ''ab\<newline>cdefg\<newline>h'' =
      [TextLine ''h'' 1 False None, Oversized 2 [] None, TextLine ''ab'' 3 True None] \<and>
    (\<exists>rs bad skipped. streamJsonLines 2 3 (\<lambda>s. Some (JStr s)) Some PolicyNote ''ab\<newline>cdefg\<newline>h'' = Inr (rs, bad) \<and>
      readLastJsonLine 3 3 (\<lambda>s. Some (JStr s)) Some PolicyNote ''ab\<newline>cdefg\<newline>h'' =
        Inr (if rs = [] then None else Some (last rs), skipped))"
proof -
  have "file_lines ''ab\<newline>cdefg\<newline>h'' = [(''ab'', True), (''cdefg'', True), (''h'', False)]" by code_simp
  then show ?thesis
    using chunked_readers_read_the_lines [of 2 3 3 "''ab\<newline>cdefg\<newline>h''" "\<lambda>s. Some (JStr s)" Some]
    by (simp add: decodeLine_def)
qed

text \<open>The window reader over a store appended in the order of time: exactly the records that are not older.\<close>

lemma since_loop_old:
  assumes "\<And>r. r \<in> set (List.map_filter outcome_record os) \<Longrightarrow> \<exists>t. timeOf r = Some t \<and> t < sinceMs"
  shows "since_loop PolicyNote timeOf sinceMs k None n out os = Inr out"
  using assms
proof (induction os arbitrary: n)
  case (Cons x os)
  have "\<exists>t. timeOf r = Some t \<and> t < sinceMs" if "x = LineRecord r" for r
    using Cons.prems [of r] that by simp
  moreover have "since_loop PolicyNote timeOf sinceMs k None n' out os = Inr out" for n'
    by (rule Cons.IH, rule Cons.prems) (cases x; simp)
  ultimately show ?case by (cases x) auto
qed simp

lemma since_loop_window:
  assumes "\<And>r. r \<in> set (List.map_filter outcome_record os) \<Longrightarrow> timeOf r \<noteq> None"
    "sorted_wrt (\<lambda>r r'. the (timeOf r') \<le> the (timeOf r)) (List.map_filter outcome_record os)"
  shows "since_loop PolicyNote timeOf sinceMs k None 0 out os =
    Inr (out @ filter (\<lambda>r. sinceMs \<le> the (timeOf r)) (List.map_filter outcome_record os))"
  using assms
proof (induction os arbitrary: out)
  case Nil
  then show ?case by simp
next
  case (Cons x os)
  show ?case
  proof (cases x)
    case (LineRecord r)
    then obtain t where t: "timeOf r = Some t" using Cons.prems(1) [of r] by auto
    show ?thesis
    proof (cases "t < sinceMs")
      case True
      have old: "\<exists>t. timeOf r' = Some t \<and> t < sinceMs" if "r' \<in> set (List.map_filter outcome_record os)" for r'
      proof -
        have "timeOf r' \<noteq> None" "the (timeOf r') \<le> the (timeOf r)"
          using Cons.prems that LineRecord by auto
        then show ?thesis using t True by auto
      qed
      then have "filter (\<lambda>r. sinceMs \<le> the (timeOf r)) (List.map_filter outcome_record os) = []"
        by (fastforce simp: filter_empty_conv)
      then show ?thesis using since_loop_old [of os timeOf sinceMs, OF old] t True LineRecord by simp
    next
      case False
      then show ?thesis using Cons.IH [of "out @ [r]"] Cons.prems t LineRecord by simp
    qed
  qed (use Cons in simp_all)
qed

lemma since_window_is_complete:
  assumes "0 < chunk"
    "\<And>r. r \<in> set (List.map_filter (line_record maxLine parse mapper) (file_lines bs)) \<Longrightarrow> timeOf r \<noteq> None"
    "sorted_wrt (\<lambda>r r'. the (timeOf r) \<le> the (timeOf r')) (List.map_filter (line_record maxLine parse mapper) (file_lines bs))"
  shows "readJsonLinesSince chunk maxLine parse mapper PolicyNote timeOf sinceMs stop None bs =
    Inr (filter (\<lambda>r. sinceMs \<le> the (timeOf r)) (List.map_filter (line_record maxLine parse mapper) (file_lines bs)))"
proof -
  have rs: "List.map_filter outcome_record (readJsonLinesBackward chunk maxLine parse mapper bs) =
      rev (List.map_filter (line_record maxLine parse mapper) (file_lines bs))"
    by (simp add: readJsonLinesBackward_def backwardLines_split [OF assms(1)] map_filter_map map_filter_rev
        map_filter_via_map [OF outcome_record_backward [unfolded comp_def], folded comp_def])
  have "since_loop PolicyNote timeOf sinceMs k None 0 [] (readJsonLinesBackward chunk maxLine parse mapper bs) =
      Inr ([] @ filter (\<lambda>r. sinceMs \<le> the (timeOf r))
        (List.map_filter outcome_record (readJsonLinesBackward chunk maxLine parse mapper bs)))" for k
    by (rule since_loop_window) (use assms in \<open>auto simp: rs sorted_wrt_rev\<close>)
  then show ?thesis by (simp add: readJsonLinesSince_def rs rev_filter)
qed

end
