(* ===== verification/Event_Scope.thy ===== *)
theory Event_Scope
  imports Json Mesh_Broker
begin

text \<open>
  Event scopes, \<open>src/libs/core/event-scope.ts\<close> with the context rules of
  \<open>foundation/scope-context-validation.ts\<close>: the tenant, organization, project, mission, task
  and session a record belongs to, its tier and its kind. A scope input is a JSON object; a value that is no
  string counts as absent, as \<open>clean\<close> makes it, and a tier that is no string as the empty one, which no
  rule accepts. \<open>num\<close> prints a number, for \<open>String(v)\<close>.

  The lemmas show that normalization is idempotent, that a supplied scope never leaves its authority, and
  that a tenant filter lets through no record of another tenant.
\<close>

section \<open>Scope contexts\<close>

record scope_context =
  sx_tenant :: "string option"
  sx_organization :: "string option"
  sx_project :: "string option"
  sx_mission :: "string option"
  sx_task :: "string option"
  sx_session :: "string option"
  sx_work_shape :: "string option"
  sx_tier :: string
  sx_stance :: "string option"
  sx_viewer :: "string option"
  sx_nhi :: "string option"

record context_options =
  co_requireTenant :: "bool option"
  co_requireMission :: bool
  co_allowShared :: bool
  co_allowSessionRoot :: bool

datatype context_error = TierInvalid | TenantInvalid | TenantRequired | OrganizationNeedsTenant
  | ProjectNeedsOrganization | TaskNeedsMission | SessionNeedsTask | MissionRequired | IdInvalid string

datatype scope_error = TenantAliasConflict | ContextInvalid "context_error list" | KindMismatch | NotATenant
  | ScopeNotObject | UnknownScopeField string | ScopeFieldNotString string | ScopeTierInvalid | ScopeKindInvalid
  | LineageConflict string

definition clean :: "json \<Rightarrow> string option" where
  "clean v = (case v of JStr s \<Rightarrow> if js_trim s = [] then None else Some (js_trim s) | _ \<Rightarrow> None)"

definition NON_EMPTY_ID :: "string \<Rightarrow> bool" where
  "NON_EMPTY_ID s \<longleftrightarrow> s \<noteq> [] \<and> list_all (\<lambda>c. \<not> is_js_space c \<and> c \<noteq> CHR ''/'') s"

definition compatibleAlias :: "string option \<Rightarrow> string option \<Rightarrow> scope_error + string option" where
  "compatibleAlias tenantSlug tenantId =
    (if tenantSlug \<noteq> None \<and> tenantId \<noteq> None \<and> tenantSlug \<noteq> tenantId then Inl TenantAliasConflict
     else Inr (if tenantSlug \<noteq> None then tenantSlug else tenantId))"

definition normalizeScopeContext :: "json \<Rightarrow> scope_error + scope_context" where
  "normalizeScopeContext input =
    (case compatibleAlias (clean (jget input ''tenant_slug'')) (clean (jget input ''tenant_id'')) of
       Inl e \<Rightarrow> Inl e
     | Inr tenant \<Rightarrow>
         Inr \<lparr>sx_tenant = tenant, sx_organization = clean (jget input ''organization_id''),
           sx_project = clean (jget input ''project_id''), sx_mission = clean (jget input ''mission_id''),
           sx_task = clean (jget input ''task_id''), sx_session = clean (jget input ''session_id''),
           sx_work_shape = clean (jget input ''work_shape''),
           sx_tier = (case jget input ''tier'' of JStr t \<Rightarrow> t | _ \<Rightarrow> []),
           sx_stance = clean (jget input ''customer_stance''), sx_viewer = clean (jget input ''viewer_principal''),
           sx_nhi = clean (jget input ''nhi_id'')\<rparr>)"

definition TIERS :: "string list" where
  "TIERS = [''personal'', ''confidential'', ''public'']"

text \<open>The entries of a context whose value has to be an identifier.\<close>

definition context_ids :: "scope_context \<Rightarrow> (string \<times> string option) list" where
  "context_ids c = [(''organization_id'', sx_organization c), (''project_id'', sx_project c), (''mission_id'', sx_mission c),
    (''task_id'', sx_task c), (''session_id'', sx_session c), (''work_shape'', sx_work_shape c)]"

definition context_errors :: "scope_context \<Rightarrow> context_options \<Rightarrow> context_error list" where
  "context_errors c opts =
    (let requireTenant = (case co_requireTenant opts of Some b \<Rightarrow> b | None \<Rightarrow> sx_tier c = ''confidential'');
         publicStandaloneProject = (sx_tier c = ''public'' \<and> sx_tenant c = None)
     in (if sx_tier c \<notin> set TIERS then [TierInvalid] else []) @
        (if \<exists>t \<in> set_option (sx_tenant c). \<not> isValidTenantSlug t then [TenantInvalid] else []) @
        (if requireTenant \<and> sx_tenant c = None then [TenantRequired] else []) @
        (if sx_organization c \<noteq> None \<and> sx_tenant c = None \<and> \<not> co_allowShared opts then [OrganizationNeedsTenant] else []) @
        (if sx_project c \<noteq> None \<and> sx_organization c = None \<and> \<not> publicStandaloneProject
         then [ProjectNeedsOrganization] else []) @
        (if sx_task c \<noteq> None \<and> sx_mission c = None then [TaskNeedsMission] else []) @
        (if sx_session c \<noteq> None \<and> sx_task c = None \<and> \<not> co_allowSessionRoot opts then [SessionNeedsTask] else []) @
        (if co_requireMission opts \<and> sx_mission c = None then [MissionRequired] else []) @
        [IdInvalid k. (k, Some v) \<leftarrow> context_ids c, \<not> NON_EMPTY_ID v])"

definition assertScopeContext :: "json \<Rightarrow> context_options \<Rightarrow> scope_error + scope_context" where
  "assertScopeContext input opts =
    (case normalizeScopeContext input of
       Inl e \<Rightarrow> Inl e
     | Inr c \<Rightarrow> if context_errors c opts = [] then Inr c else Inl (ContextInvalid (context_errors c opts)))"

section \<open>Event scopes\<close>

datatype scope_kind = SystemKind | TenantKind | OrganizationKind | ProjectKind | MissionKind | TaskKind | SessionKind

record event_scope =
  ev_context :: scope_context
  ev_kind :: scope_kind

definition EVENT_SCOPE_KINDS :: "(string \<times> scope_kind) list" where
  "EVENT_SCOPE_KINDS = [(''system'', SystemKind), (''tenant'', TenantKind), (''organization'', OrganizationKind),
    (''project'', ProjectKind), (''mission'', MissionKind), (''task'', TaskKind), (''session'', SessionKind)]"

definition kind_name :: "scope_kind \<Rightarrow> string" where
  "kind_name k = (case k of SystemKind \<Rightarrow> ''system'' | TenantKind \<Rightarrow> ''tenant'' | OrganizationKind \<Rightarrow> ''organization''
    | ProjectKind \<Rightarrow> ''project'' | MissionKind \<Rightarrow> ''mission'' | TaskKind \<Rightarrow> ''task'' | SessionKind \<Rightarrow> ''session'')"

definition EVENT_SCOPE_INPUT_KEYS :: "string list" where
  "EVENT_SCOPE_INPUT_KEYS = [''scope_kind'', ''tier'', ''tenant_slug'', ''tenant_id'', ''organization_id'', ''project_id'',
    ''mission_id'', ''task_id'', ''session_id'', ''work_shape'', ''customer_stance'', ''viewer_principal'', ''nhi_id'']"

text \<open>Every field of the input is a string; the entries that are undefined are dropped.\<close>

fun scope_input_fields :: "(string \<times> json) list \<Rightarrow> scope_error + (string \<times> json) list" where
  "scope_input_fields [] = Inr []"
| "scope_input_fields ((k, v) # kvs) =
    (if k \<notin> set EVENT_SCOPE_INPUT_KEYS then Inl (UnknownScopeField k)
     else if v = JUndef then scope_input_fields kvs
     else (case v of
             JStr _ \<Rightarrow> (case scope_input_fields kvs of Inl e \<Rightarrow> Inl e | Inr r \<Rightarrow> Inr ((k, v) # r))
           | _ \<Rightarrow> Inl (ScopeFieldNotString k)))"

definition parseEventScopeInput :: "json \<Rightarrow> scope_error + json" where
  "parseEventScopeInput input =
    (case input of
       JObj kvs \<Rightarrow>
         (case scope_input_fields kvs of
            Inl e \<Rightarrow> Inl e
          | Inr parsed \<Rightarrow>
              (case (jget (JObj parsed) ''tier'', jget (JObj parsed) ''scope_kind'') of
                 (tier, kind) \<Rightarrow>
                   if tier \<noteq> JUndef \<and> tier \<notin> JStr ` set TIERS then Inl ScopeTierInvalid
                   else if kind \<noteq> JUndef \<and> kind \<notin> JStr ` fst ` set EVENT_SCOPE_KINDS then Inl ScopeKindInvalid
                   else Inr (JObj parsed)))
     | _ \<Rightarrow> Inl ScopeNotObject)"

definition deepestScopeKind :: "scope_context \<Rightarrow> scope_kind" where
  "deepestScopeKind c =
    (if sx_session c \<noteq> None then SessionKind else if sx_task c \<noteq> None then TaskKind
     else if sx_mission c \<noteq> None then MissionKind else if sx_project c \<noteq> None then ProjectKind
     else if sx_organization c \<noteq> None then OrganizationKind else if sx_tenant c \<noteq> None then TenantKind
     else SystemKind)"

definition requiredForKind :: "scope_kind \<Rightarrow> scope_context \<Rightarrow> bool" where
  "requiredForKind k c =
    (case k of
       SystemKind \<Rightarrow> sx_tenant c = None \<and> sx_organization c = None \<and> sx_project c = None \<and> sx_mission c = None \<and>
         sx_task c = None \<and> sx_session c = None
     | TenantKind \<Rightarrow> sx_tenant c \<noteq> None
     | OrganizationKind \<Rightarrow> sx_organization c \<noteq> None \<and> sx_tenant c \<noteq> None
     | ProjectKind \<Rightarrow> sx_project c \<noteq> None \<and> (sx_organization c \<noteq> None \<and> sx_tenant c \<noteq> None \<or>
         sx_tier c = ''public'' \<and> sx_organization c = None \<and> sx_tenant c = None)
     | MissionKind \<Rightarrow> sx_mission c \<noteq> None
     | TaskKind \<Rightarrow> sx_task c \<noteq> None \<and> sx_mission c \<noteq> None
     | SessionKind \<Rightarrow> sx_session c \<noteq> None \<and> sx_task c \<noteq> None \<and> sx_mission c \<noteq> None)"

text \<open>Object spread \<open>{ ...a, ...b }\<close>: a key keeps its first place and takes its last value.\<close>

definition jset :: "json \<Rightarrow> string \<Rightarrow> json \<Rightarrow> json" where
  "jset obj k v = (case obj of JObj kvs \<Rightarrow> JObj (AList.update k v kvs) | _ \<Rightarrow> JObj [(k, v)])"

definition jspread :: "json \<Rightarrow> json \<Rightarrow> json" where
  "jspread a b = (case b of JObj kvs \<Rightarrow> foldl (\<lambda>obj (k, v). jset obj k v) a kvs | _ \<Rightarrow> a)"

definition event_options :: context_options where
  "event_options = \<lparr>co_requireTenant = None, co_requireMission = False, co_allowShared = False, co_allowSessionRoot = False\<rparr>"

definition normalizeEventScope :: "json \<Rightarrow> scope_error + event_scope" where
  "normalizeEventScope input =
    (let tier = (if jnullish (jget input ''tier'') then JStr ''public'' else jget input ''tier'')
     in case assertScopeContext (jset input ''tier'' tier) event_options of
          Inl e \<Rightarrow> Inl e
        | Inr c \<Rightarrow>
            (let kind = (if jnullish (jget input ''scope_kind'') then Some (deepestScopeKind c)
                         else (case jget input ''scope_kind'' of JStr s \<Rightarrow> map_of EVENT_SCOPE_KINDS s | _ \<Rightarrow> None))
             in case kind of
                  None \<Rightarrow> Inl KindMismatch
                | Some k \<Rightarrow>
                    if \<not> requiredForKind k c then Inl KindMismatch
                    else if \<exists>t \<in> set_option (sx_tenant c). \<not> isValidTenantSlug t then Inl NotATenant
                    else Inr \<lparr>ev_context = c, ev_kind = k\<rparr>))"

text \<open>The object a scope is: absent fields are absent keys.\<close>

definition opt_field :: "string \<Rightarrow> string option \<Rightarrow> (string \<times> json) list" where
  "opt_field k v = (case v of None \<Rightarrow> [] | Some s \<Rightarrow> [(k, JStr s)])"

definition scope_json :: "event_scope \<Rightarrow> json" where
  "scope_json s =
    (let c = ev_context s in
     JObj (opt_field ''tenant_slug'' (sx_tenant c) @ opt_field ''organization_id'' (sx_organization c) @
       opt_field ''project_id'' (sx_project c) @ opt_field ''mission_id'' (sx_mission c) @
       opt_field ''task_id'' (sx_task c) @ opt_field ''session_id'' (sx_session c) @
       opt_field ''work_shape'' (sx_work_shape c) @ [(''tier'', JStr (sx_tier c))] @
       opt_field ''customer_stance'' (sx_stance c) @ opt_field ''viewer_principal'' (sx_viewer c) @
       opt_field ''nhi_id'' (sx_nhi c) @ [(''scope_kind'', JStr (kind_name (ev_kind s)))]))"

definition CONTAINMENT_KEYS :: "string list" where
  "CONTAINMENT_KEYS = [''tenant_slug'', ''organization_id'', ''project_id'', ''mission_id'', ''task_id'', ''session_id'']"

text \<open>The first containment key on which the supplied scope does not repeat the authority, if any.\<close>

definition lineage_conflict :: "(rat \<Rightarrow> string) \<Rightarrow> json \<Rightarrow> json \<Rightarrow> string option" where
  "lineage_conflict num authority supplied =
    List.find (\<lambda>key.
      let tenant = (if jnullish (jget supplied ''tenant_slug'') then jget supplied ''tenant_id'' else jget supplied ''tenant_slug'');
          suppliedValue = (if key = ''tenant_slug'' then tenant else jget supplied key);
          authorityValue = (if jnullish (jget authority key) then [] else js_string num (jget authority key))
      in suppliedValue \<noteq> JUndef \<and> js_trim (js_string num suppliedValue) \<noteq> authorityValue) CONTAINMENT_KEYS"

definition pin :: "json \<Rightarrow> string \<Rightarrow> json \<Rightarrow> json" where
  "pin authority key obj = (if jtruthy (jget authority key) then jset obj key (jget authority key) else obj)"

definition resolveEventScopeAgainstAuthority ::
  "(rat \<Rightarrow> string) \<Rightarrow> json \<Rightarrow> json \<Rightarrow> json \<Rightarrow> scope_error + event_scope" where
  "resolveEventScopeAgainstAuthority num authorityInput suppliedInput overrides =
    (case normalizeEventScope authorityInput of
       Inl e \<Rightarrow> Inl e
     | Inr auth \<Rightarrow>
         (let authority = scope_json auth;
              supplied = (if jtruthy suppliedInput then suppliedInput else JObj [])
          in case lineage_conflict num authority supplied of
               Some key \<Rightarrow> Inl (LineageConflict key)
             | None \<Rightarrow>
                 if jget supplied ''tier'' \<noteq> JUndef \<and> jget supplied ''tier'' \<noteq> jget authority ''tier''
                 then Inl (LineageConflict ''tier'')
                 else normalizeEventScope
                   (pin authority ''mission_id'' (pin authority ''project_id'' (pin authority ''organization_id''
                     (pin authority ''tenant_slug'' (jspread (jspread authority supplied) overrides)))))))"

text \<open>\<open>redactEventScopeForShared\<close> keeps the containment and the work shape, and drops who and for whom.\<close>

definition redactEventScopeForShared :: "event_scope \<Rightarrow> scope_error + event_scope" where
  "redactEventScopeForShared s =
    (let c = ev_context s in
     normalizeEventScope (JObj ([(''scope_kind'', JStr (kind_name (ev_kind s))), (''tier'', JStr (sx_tier c))] @
       opt_field ''tenant_slug'' (sx_tenant c) @ opt_field ''organization_id'' (sx_organization c) @
       opt_field ''project_id'' (sx_project c) @ opt_field ''mission_id'' (sx_mission c) @
       opt_field ''task_id'' (sx_task c) @ opt_field ''session_id'' (sx_session c) @
       opt_field ''work_shape'' (sx_work_shape c))))"

definition serializeEventScope :: "event_scope \<Rightarrow> scope_error + event_scope" where
  "serializeEventScope s = normalizeEventScope (scope_json s)"

section \<open>Filters and records\<close>

datatype tenant_set = AllTenants | TheseTenants "string list"

record scope_filter =
  sf_tenant :: "string option"
  sf_tenants :: "tenant_set option"
  sf_include_untenanted :: bool
  sf_organization :: "string option"
  sf_project :: "string option"
  sf_mission :: "string option"
  sf_task :: "string option"
  sf_session :: "string option"
  sf_kind :: "scope_kind option"

definition upper_char :: "char \<Rightarrow> char" where
  "upper_char c = (let n = (of_char c :: nat) in if 97 \<le> n \<and> n \<le> 122 then char_of (n - 32) else c)"

definition js_upper :: "string \<Rightarrow> string" where
  "js_upper = map upper_char"

definition requested_tenants :: "scope_filter \<Rightarrow> string list option" where
  "requested_tenants f =
    (case sf_tenants f of
       Some AllTenants \<Rightarrow> None
     | Some (TheseTenants ts) \<Rightarrow> Some ts
     | None \<Rightarrow> if truthy_opt (sf_tenant f) then Some [the (sf_tenant f)] else None)"

definition eventScopeMatches :: "event_scope option \<Rightarrow> scope_filter \<Rightarrow> bool" where
  "eventScopeMatches scope f =
    (case scope of
       None \<Rightarrow>
         (let hasTenantFilter = (truthy_opt (sf_tenant f) \<or> (\<exists>ts \<in> set_option (sf_tenants f). ts \<noteq> AllTenants));
              hasEntityFilter = ((hasTenantFilter \<and> \<not> sf_include_untenanted f) \<or> truthy_opt (sf_organization f) \<or>
                truthy_opt (sf_project f) \<or> truthy_opt (sf_mission f) \<or> truthy_opt (sf_task f) \<or> truthy_opt (sf_session f))
          in \<not> hasEntityFilter \<and> (sf_kind f = None \<or> sf_kind f = Some SystemKind))
     | Some s \<Rightarrow>
         (let c = ev_context s in
          (sf_kind f = None \<or> sf_kind f = Some (ev_kind s)) \<and>
          (case requested_tenants f of
             None \<Rightarrow> True
           | Some ts \<Rightarrow> (case sx_tenant c of None \<Rightarrow> sf_include_untenanted f | Some t \<Rightarrow> t \<in> set ts)) \<and>
          (truthy_opt (sf_organization f) \<longrightarrow> sx_organization c = sf_organization f) \<and>
          (truthy_opt (sf_project f) \<longrightarrow> sx_project c = sf_project f) \<and>
          (truthy_opt (sf_mission f) \<longrightarrow> sx_mission c = map_option js_upper (sf_mission f)) \<and>
          (truthy_opt (sf_task f) \<longrightarrow> sx_task c = sf_task f) \<and>
          (truthy_opt (sf_session f) \<longrightarrow> sx_session c = sf_session f)))"

text \<open>What a record says about its scope: nothing, something malformed, or a scope.\<close>

datatype record_scope = NoScope | InvalidScope | RecordScope event_scope

definition COMPARABLE_KEYS :: "string list" where
  "COMPARABLE_KEYS = [''scope_kind'', ''tier'', ''tenant_slug'', ''tenant_id'', ''organization_id'', ''project_id'',
    ''mission_id'', ''task_id'', ''session_id'']"

definition values_conflict :: "(rat \<Rightarrow> string) \<Rightarrow> json \<Rightarrow> json \<Rightarrow> bool" where
  "values_conflict num l r \<longleftrightarrow>
    list_ex (\<lambda>k. jget l k \<noteq> JUndef \<and> jget r k \<noteq> JUndef \<and> js_string num (jget l k) \<noteq> js_string num (jget r k)) COMPARABLE_KEYS"

definition is_plain_object :: "json \<Rightarrow> bool" where
  "is_plain_object v = (case v of JObj _ \<Rightarrow> True | _ \<Rightarrow> False)"

text \<open>The snake-case key takes the camel-case value where only that one is given.\<close>

definition with_alias :: "json \<Rightarrow> string \<times> string \<Rightarrow> json \<Rightarrow> json" where
  "with_alias source = (\<lambda>(camel, snake) obj.
    if jget source camel \<noteq> JUndef \<and> jget source snake = JUndef then jset obj snake (jget source camel) else obj)"

definition SCOPE_ALIASES :: "(string \<times> string) list" where
  "SCOPE_ALIASES = [(''tenantSlug'', ''tenant_slug''), (''tenantId'', ''tenant_id''), (''organizationId'', ''organization_id''),
    (''projectId'', ''project_id''), (''missionId'', ''mission_id''), (''taskId'', ''task_id''), (''sessionId'', ''session_id'')]"

definition parseEventScopeFromRecord :: "(rat \<Rightarrow> string) \<Rightarrow> json \<Rightarrow> record_scope" where
  "parseEventScopeFromRecord num rec =
    (let nestedContext = jget rec ''scope_context''; nestedScope = jget rec ''scope'';
         nested = (if jnullish nestedContext then nestedScope else nestedContext)
     in if nestedContext = JNull \<or> nestedScope = JNull then InvalidScope
        else if (nestedContext \<noteq> JUndef \<or> nestedScope \<noteq> JUndef) \<and> \<not> is_plain_object nested then InvalidScope
        else if is_plain_object nestedContext \<and> is_plain_object nestedScope \<and> values_conflict num nestedContext nestedScope
        then InvalidScope
        else if is_plain_object nested \<and> values_conflict num rec nested then InvalidScope
        else
          (let source = (if is_plain_object nested then nested else rec)
           in if \<not> list_ex (\<lambda>k. jget source k \<noteq> JUndef) (COMPARABLE_KEYS @ [''tenantSlug'', ''tenantId'']) then NoScope
              else (case normalizeEventScope (fold (with_alias source) SCOPE_ALIASES source) of
                      Inl _ \<Rightarrow> InvalidScope
                    | Inr s \<Rightarrow> RecordScope s)))"

section \<open>Normalization is idempotent\<close>

lemma js_trim_again [simp]: "js_trim (js_trim s) = js_trim s"
proof -
  have dw: "dropWhile P (rev (dropWhile P (rev (dropWhile P xs)))) = rev (dropWhile P (rev (dropWhile P xs)))"
    for P :: "char \<Rightarrow> bool" and xs
  proof (cases "dropWhile P xs")
    case Nil
    show ?thesis by (simp only: Nil rev.simps dropWhile.simps)
  next
    case (Cons y ys)
    have "\<not> P y" using hd_dropWhile [of P xs] Cons by simp
    then have "rev (dropWhile P (rev (y # ys))) = y # rev (dropWhile P (rev ys))"
      by (simp add: dropWhile_append)
    then show ?thesis using \<open>\<not> P y\<close> by (simp add: Cons)
  qed
  have idem: "dropWhile P (dropWhile P xs) = dropWhile P xs" for P :: "char \<Rightarrow> bool" and xs
    by (induction xs) auto
  show ?thesis by (simp only: js_trim_def dw rev_rev_ident idem)
qed

lemma clean_Some: "clean v = Some x \<Longrightarrow> clean (JStr x) = Some x \<and> x \<noteq> [] \<and> js_trim x = x"
  by (auto simp: clean_def split: json.splits if_splits)

lemma clean_string: "clean (JStr s) = (if js_trim s = [] then None else Some (js_trim s))"
  by (simp add: clean_def)

lemma jget_JObj: "jget (JObj kvs) k = (case map_of kvs k of None \<Rightarrow> JUndef | Some v \<Rightarrow> v)"
  by (simp add: jget_def)

lemma jget_jset [simp]: "jget (jset obj k v) k' = (if k' = k then v else jget obj k')"
  by (cases obj) (auto simp: jset_def jget_def update_conv split: option.split)

definition field_json :: "string option \<Rightarrow> json" where
  "field_json v = (case v of None \<Rightarrow> JUndef | Some s \<Rightarrow> JStr s)"

lemma field_json_simps [simp]: "field_json None = JUndef" "field_json (Some s) = JStr s"
  by (simp_all add: field_json_def)

lemma map_of_opt_field [simp]: "map_of (opt_field k v) k' = (if k' = k then map_option JStr v else None)"
  by (simp add: opt_field_def split: option.split)

lemma jget_scope_json [simp]:
  "jget (scope_json s) ''tenant_slug'' = field_json (sx_tenant (ev_context s))"
  "jget (scope_json s) ''tenant_id'' = JUndef"
  "jget (scope_json s) ''organization_id'' = field_json (sx_organization (ev_context s))"
  "jget (scope_json s) ''project_id'' = field_json (sx_project (ev_context s))"
  "jget (scope_json s) ''mission_id'' = field_json (sx_mission (ev_context s))"
  "jget (scope_json s) ''task_id'' = field_json (sx_task (ev_context s))"
  "jget (scope_json s) ''session_id'' = field_json (sx_session (ev_context s))"
  "jget (scope_json s) ''work_shape'' = field_json (sx_work_shape (ev_context s))"
  "jget (scope_json s) ''tier'' = JStr (sx_tier (ev_context s))"
  "jget (scope_json s) ''customer_stance'' = field_json (sx_stance (ev_context s))"
  "jget (scope_json s) ''viewer_principal'' = field_json (sx_viewer (ev_context s))"
  "jget (scope_json s) ''nhi_id'' = field_json (sx_nhi (ev_context s))"
  "jget (scope_json s) ''scope_kind'' = JStr (kind_name (ev_kind s))"
  by (simp_all add: scope_json_def Let_def jget_JObj map_add_def field_json_def split: option.split)

lemma clean_undefined [simp]: "clean JUndef = None"
  by (simp add: clean_def)

text \<open>The fields of a normalized context are trimmed and not empty.\<close>

definition trimmed_field :: "string option \<Rightarrow> bool" where
  "trimmed_field v \<longleftrightarrow> clean (field_json v) = v"

lemma trimmed_clean: "trimmed_field (clean v)"
  by (cases "clean v") (simp_all add: trimmed_field_def clean_Some)

lemma trimmed_alias:
  assumes "compatibleAlias (clean a) (clean b) = Inr t"
  shows "trimmed_field t"
proof -
  have "t = clean a \<or> t = clean b" using assms by (auto simp: compatibleAlias_def split: if_splits)
  then show ?thesis using trimmed_clean by blast
qed

definition trimmed_context :: "scope_context \<Rightarrow> bool" where
  "trimmed_context c \<longleftrightarrow> list_all trimmed_field [sx_tenant c, sx_organization c, sx_project c, sx_mission c, sx_task c,
    sx_session c, sx_work_shape c, sx_stance c, sx_viewer c, sx_nhi c]"

lemma normalizeScopeContext_trimmed: "normalizeScopeContext v = Inr c \<Longrightarrow> trimmed_context c"
  by (auto simp: normalizeScopeContext_def trimmed_context_def trimmed_clean trimmed_alias split: sum.splits)

definition normal_scope :: "event_scope \<Rightarrow> bool" where
  "normal_scope s \<longleftrightarrow> trimmed_context (ev_context s) \<and> context_errors (ev_context s) event_options = [] \<and>
    requiredForKind (ev_kind s) (ev_context s)"

lemma normalizeEventScope_normal: "normalizeEventScope v = Inr s \<Longrightarrow> normal_scope s"
  by (auto simp: normalizeEventScope_def assertScopeContext_def normal_scope_def Let_def
      dest: normalizeScopeContext_trimmed split: sum.splits option.splits if_splits)

lemma normal_tenant: "normal_scope s \<Longrightarrow> sx_tenant (ev_context s) = Some t \<Longrightarrow> isValidTenantSlug t"
  by (auto simp: normal_scope_def context_errors_def Let_def split: if_splits)

lemma normal_tier: "normal_scope s \<Longrightarrow> sx_tier (ev_context s) \<in> set TIERS"
  by (auto simp: normal_scope_def context_errors_def Let_def split: if_splits)

lemma kind_of_name: "map_of EVENT_SCOPE_KINDS (kind_name k) = Some k"
  by (cases k) (simp_all add: EVENT_SCOPE_KINDS_def kind_name_def)

text \<open>An object with the fields of a normal scope normalizes to it, whatever else it holds.\<close>

lemma normalizeEventScope_fields:
  assumes s: "normal_scope s"
    and keys: "compatibleAlias (clean (jget v ''tenant_slug'')) (clean (jget v ''tenant_id'')) = Inr (sx_tenant (ev_context s))"
      "clean (jget v ''organization_id'') = sx_organization (ev_context s)"
      "clean (jget v ''project_id'') = sx_project (ev_context s)" "clean (jget v ''mission_id'') = sx_mission (ev_context s)"
      "clean (jget v ''task_id'') = sx_task (ev_context s)" "clean (jget v ''session_id'') = sx_session (ev_context s)"
      "clean (jget v ''work_shape'') = sx_work_shape (ev_context s)" "jget v ''tier'' = JStr (sx_tier (ev_context s))"
      "clean (jget v ''customer_stance'') = sx_stance (ev_context s)"
      "clean (jget v ''viewer_principal'') = sx_viewer (ev_context s)" "clean (jget v ''nhi_id'') = sx_nhi (ev_context s)"
      "jget v ''scope_kind'' = JStr (kind_name (ev_kind s))"
  shows "normalizeEventScope v = Inr s"
proof -
  have "normalizeScopeContext (jset v ''tier'' (JStr (sx_tier (ev_context s)))) = Inr (ev_context s)"
    by (simp add: normalizeScopeContext_def keys)
  then show ?thesis
    using s normal_tenant [OF s]
    by (auto simp: normalizeEventScope_def assertScopeContext_def Let_def keys jnullish_def kind_of_name normal_scope_def)
qed

lemma serialize_is_stable:
  assumes "normal_scope s"
  shows "normalizeEventScope (scope_json s) = Inr s"
  by (rule normalizeEventScope_fields [OF assms])
    (use assms in \<open>simp_all add: normal_scope_def trimmed_context_def trimmed_field_def compatibleAlias_def\<close>)

section \<open>A supplied scope stays in its authority\<close>

lemma jget_jspread:
  "distinct (map fst kvs) \<Longrightarrow>
    jget (jspread a (JObj kvs)) k = (case map_of kvs k of None \<Rightarrow> jget a k | Some v \<Rightarrow> v)"
proof (induction kvs arbitrary: a)
  case (Cons kv kvs)
  obtain k' v' where kv: "kv = (k', v')" by fastforce
  have none: "map_of kvs k' = None" using Cons.prems by (simp add: kv map_of_eq_None_iff)
  show ?case using Cons.IH [of "jset a k' v'"] Cons.prems none by (auto simp: kv jspread_def split: option.split)
qed (simp add: jspread_def)

lemma scope_input_fields_strings:
  "scope_input_fields kvs = Inr ps \<Longrightarrow>
    ps = filter (\<lambda>(k, v). v \<noteq> JUndef) kvs \<and> (\<forall>(k, v) \<in> set ps. \<exists>x. v = JStr x)"
proof (induction kvs arbitrary: ps rule: scope_input_fields.induct)
  case (2 k v kvs)
  show ?case
  proof (cases "scope_input_fields kvs")
    case (Inl e)
    with 2 show ?thesis by (cases v) (auto split: if_splits)
  next
    case (Inr qs)
    with 2 show ?thesis by (cases v) (fastforce split: if_splits)+
  qed
qed simp

lemma distinct_keys_filter: "distinct (map fst kvs) \<Longrightarrow> distinct (map fst (filter P kvs))"
  by (induction kvs) auto

lemma parsed_input_strings:
  assumes "parseEventScopeInput raw = Inr supplied" "raw = JObj kvs" "distinct (map fst kvs)"
  obtains ps where "supplied = JObj ps" "distinct (map fst ps)" "\<And>k. map_of ps k = None \<or> (\<exists>x. map_of ps k = Some (JStr x))"
proof -
  from assms(1,2) obtain ps where ps: "scope_input_fields kvs = Inr ps" "supplied = JObj ps"
    by (auto simp: parseEventScopeInput_def split: sum.splits if_splits)
  note f = scope_input_fields_strings [OF ps(1)]
  have "distinct (map fst ps)" using f assms(3) by (simp add: distinct_keys_filter)
  moreover have "map_of ps k = None \<or> (\<exists>x. map_of ps k = Some (JStr x))" for k
    using f by (cases "map_of ps k") (fastforce dest: map_of_SomeD)+
  ultimately show ?thesis using that ps(2) by blast
qed

text \<open>A field that is supplied repeats the authority: the merged object has the same value for it.\<close>

lemma supplied_field:
  assumes "trimmed_field a" "v = JUndef \<or> v = JStr x" "v \<noteq> JUndef \<Longrightarrow> js_trim (js_string num v) = (case a of None \<Rightarrow> [] | Some y \<Rightarrow> y)"
  shows "clean (if v = JUndef then field_json a else v) = a"
  using assms
  by (cases a) (auto simp: trimmed_field_def clean_string split: if_splits)

lemma field_string: "(if jnullish (field_json a) then [] else js_string num (field_json a)) = (case a of None \<Rightarrow> [] | Some y \<Rightarrow> y)"
  by (cases a) (simp_all add: jnullish_def)

lemma jget_pin [simp]:
  "jget (pin (scope_json a) key obj) k = (if k = key \<and> jtruthy (jget (scope_json a) key) then jget (scope_json a) key else jget obj k)"
  by (simp add: pin_def)

lemma normalizeEventScope_normalizes:
  assumes "normalizeEventScope v = Inr r"
  shows "normalizeScopeContext (jset v ''tier'' (if jnullish (jget v ''tier'') then JStr ''public'' else jget v ''tier'')) =
    Inr (ev_context r)"
  using assms by (auto simp: normalizeEventScope_def assertScopeContext_def Let_def split: sum.splits option.splits if_split_asm)

lemma normalizeScopeContext_context:
  assumes "normalizeScopeContext v = Inr c"
  shows "compatibleAlias (clean (jget v ''tenant_slug'')) (clean (jget v ''tenant_id'')) = Inr (sx_tenant c)"
    and "sx_organization c = clean (jget v ''organization_id'')"
    and "sx_project c = clean (jget v ''project_id'')" "sx_mission c = clean (jget v ''mission_id'')"
    and "sx_task c = clean (jget v ''task_id'')" "sx_session c = clean (jget v ''session_id'')"
    and "jget v ''tier'' = JStr t \<Longrightarrow> sx_tier c = t"
  using assms by (simp_all add: normalizeScopeContext_def split: sum.splits) auto

lemma normalizeEventScope_context:
  assumes "normalizeEventScope v = Inr r"
  shows "compatibleAlias (clean (jget v ''tenant_slug'')) (clean (jget v ''tenant_id'')) = Inr (sx_tenant (ev_context r))"
    and "sx_organization (ev_context r) = clean (jget v ''organization_id'')"
    and "sx_project (ev_context r) = clean (jget v ''project_id'')" "sx_mission (ev_context r) = clean (jget v ''mission_id'')"
    and "sx_task (ev_context r) = clean (jget v ''task_id'')" "sx_session (ev_context r) = clean (jget v ''session_id'')"
    and "jget v ''tier'' = JStr t \<Longrightarrow> sx_tier (ev_context r) = t"
  using normalizeScopeContext_context [OF normalizeEventScope_normalizes [OF assms]] by (simp_all add: jnullish_def)

text \<open>What an accepted scope has passed: no conflict with the authority, the same tier, and normalization of the pinned
  union.\<close>

lemma accepted_scope:
  assumes "resolveEventScopeAgainstAuthority num authority supplied overrides = Inr r"
    and "normalizeEventScope authority = Inr a" "jtruthy supplied"
  shows "lineage_conflict num (scope_json a) supplied = None"
    and "jget supplied ''tier'' = JUndef \<or> jget supplied ''tier'' = JStr (sx_tier (ev_context a))"
    and "normalizeEventScope (pin (scope_json a) ''mission_id'' (pin (scope_json a) ''project_id''
      (pin (scope_json a) ''organization_id'' (pin (scope_json a) ''tenant_slug'' (jspread (jspread (scope_json a) supplied) overrides))))) = Inr r"
  using assms by (auto simp: resolveEventScopeAgainstAuthority_def Let_def split: option.splits if_splits)

lemma pinned_field:
  assumes "trimmed_field a" "jtruthy (field_json a) \<Longrightarrow> v = field_json a" "\<not> jtruthy (field_json a) \<Longrightarrow> clean v = a"
  shows "clean v = a"
  using assms by (auto simp: trimmed_field_def)

text \<open>C21. A supplied scope stays in its authority: when the authority names a tenant and the supplied scope went
  through \<open>parseEventScopeInput\<close>, then, whatever the overrides of the calling code, an accepted result has
  the tenant of the authority; its organization, project and mission where the authority names one or the overrides
  do not mention the field; and its task, session and tier where the overrides do not mention them. (The parser is
  needed: it drops undefined fields, and an undefined tier of an unparsed scope overwrites the authority's.)\<close>

theorem supplied_scope_stays_in_its_authority:
  assumes parsed: "parseEventScopeInput (JObj kvs) = Inr supplied" "distinct (map fst kvs)" "distinct (map fst os)"
    and auth: "normalizeEventScope authority = Inr a" "sx_tenant (ev_context a) \<noteq> None"
    and res: "resolveEventScopeAgainstAuthority num authority supplied (JObj os) = Inr r"
  shows "sx_tenant (ev_context r) = sx_tenant (ev_context a) \<and>
    (''organization_id'' \<notin> set (map fst os) \<or> sx_organization (ev_context a) \<noteq> None \<longrightarrow>
      sx_organization (ev_context r) = sx_organization (ev_context a)) \<and>
    (''project_id'' \<notin> set (map fst os) \<or> sx_project (ev_context a) \<noteq> None \<longrightarrow>
      sx_project (ev_context r) = sx_project (ev_context a)) \<and>
    (''mission_id'' \<notin> set (map fst os) \<or> sx_mission (ev_context a) \<noteq> None \<longrightarrow>
      sx_mission (ev_context r) = sx_mission (ev_context a)) \<and>
    (''task_id'' \<notin> set (map fst os) \<longrightarrow> sx_task (ev_context r) = sx_task (ev_context a)) \<and>
    (''session_id'' \<notin> set (map fst os) \<longrightarrow> sx_session (ev_context r) = sx_session (ev_context a)) \<and>
    (''tier'' \<notin> set (map fst os) \<longrightarrow> sx_tier (ev_context r) = sx_tier (ev_context a))"
proof -
  obtain ps where ps: "supplied = JObj ps" "distinct (map fst ps)"
      "\<And>k. map_of ps k = None \<or> (\<exists>x. map_of ps k = Some (JStr x))"
    using parsed_input_strings [OF parsed(1) refl parsed(2)] by blast
  define sup where "sup k = jget supplied k" for k
  have str: "sup k = JUndef \<or> (\<exists>x. sup k = JStr x)" for k
    using ps(3) [of k] by (auto simp: sup_def ps(1) jget_JObj)
  define merged where "merged = jspread (scope_json a) supplied"
  have mg: "jget merged k = (if sup k = JUndef then jget (scope_json a) k else sup k)" for k
    using ps(3) [of k] by (auto simp: merged_def ps(1) jget_jspread [OF ps(2)] sup_def jget_JObj split: option.split)
  define over where "over = jspread merged (JObj os)"
  have ov: "jget over k = jget merged k" if "k \<notin> set (map fst os)" for k
  proof -
    have "map_of os k = None" using that by (simp add: map_of_eq_None_iff)
    then show ?thesis by (simp add: over_def jget_jspread [OF parsed(3)])
  qed
  have "jtruthy supplied" by (simp add: ps(1) jtruthy_def)
  note parts = accepted_scope [OF res auth(1) this, folded merged_def sup_def, folded over_def]
  have ok: "sup k \<noteq> JUndef \<Longrightarrow> js_trim (js_string num (sup k)) = (case x of None \<Rightarrow> [] | Some y \<Rightarrow> y)"
    if "k \<in> set CONTAINMENT_KEYS" "k \<noteq> ''tenant_slug''" "jget (scope_json a) k = field_json x" for k x
    using parts(1) that field_string [of x num]
    by (fastforce simp: lineage_conflict_def find_None_iff sup_def)
  have trimmed: "trimmed_context (ev_context a)" using normalizeEventScope_normal [OF auth(1)] by (simp add: normal_scope_def)
  then have tr: "trimmed_field (sx_organization (ev_context a))" "trimmed_field (sx_project (ev_context a))"
      "trimmed_field (sx_mission (ev_context a))" "trimmed_field (sx_task (ev_context a))"
      "trimmed_field (sx_session (ev_context a))" "trimmed_field (sx_tenant (ev_context a))"
    by (simp_all add: trimmed_context_def)
  have field: "clean (jget merged k) = x" if "k \<in> set CONTAINMENT_KEYS" "k \<noteq> ''tenant_slug''"
      "jget (scope_json a) k = field_json x" "trimmed_field x" for k x
  proof -
    obtain y where "sup k = JUndef \<or> sup k = JStr y" using str by blast
    then have "clean (if sup k = JUndef then field_json x else sup k) = x"
      by (rule supplied_field [OF that(4) _ ok [OF that(1-3)]])
    then show ?thesis by (simp only: mg that(3))
  qed
  note n = normalizeEventScope_context [OF parts(3)]
  obtain t where t: "sx_tenant (ev_context a) = Some t" using auth(2) by blast
  have "t \<noteq> []" "clean (JStr t) = Some t" using tr(6) clean_Some [of "JStr t" t] by (simp_all add: t trimmed_field_def)
  then have "sx_tenant (ev_context r) = Some t"
    using n(1) by (auto simp: t compatibleAlias_def jtruthy_def split: if_splits)
  moreover have "''tier'' \<notin> set (map fst os) \<longrightarrow> sx_tier (ev_context r) = sx_tier (ev_context a)"
    using n(7) parts(2) ov [of "''tier''"] by (auto simp: mg simp del: set_map)
  moreover have kept: "k \<notin> set (map fst os) \<or> x \<noteq> None \<longrightarrow>
      clean (if jtruthy (field_json x) then field_json x else jget over k) = x"
    if "k \<in> set CONTAINMENT_KEYS" "k \<noteq> ''tenant_slug''" "jget (scope_json a) k = field_json x" "trimmed_field x" for k x
  proof
    assume k: "k \<notin> set (map fst os) \<or> x \<noteq> None"
    show "clean (if jtruthy (field_json x) then field_json x else jget over k) = x"
    proof (rule pinned_field [OF that(4)])
      assume "\<not> jtruthy (field_json x)"
      then have "x = None" using that(4) by (cases x) (auto simp: trimmed_field_def jtruthy_def clean_string split: if_splits)
      with k show "clean (if jtruthy (field_json x) then field_json x else jget over k) = x"
        using field [OF that] ov by (simp add: jtruthy_def del: set_map)
    qed simp
  qed
  moreover have
    "''organization_id'' \<notin> set (map fst os) \<or> sx_organization (ev_context a) \<noteq> None \<longrightarrow>
      sx_organization (ev_context r) = sx_organization (ev_context a)"
    using kept [of "''organization_id''", OF _ _ _ tr(1)] by (simp add: n(2) CONTAINMENT_KEYS_def del: set_map split: if_splits)
  moreover have
    "''project_id'' \<notin> set (map fst os) \<or> sx_project (ev_context a) \<noteq> None \<longrightarrow>
      sx_project (ev_context r) = sx_project (ev_context a)"
    using kept [of "''project_id''", OF _ _ _ tr(2)] by (simp add: n(3) CONTAINMENT_KEYS_def del: set_map split: if_splits)
  moreover have
    "''mission_id'' \<notin> set (map fst os) \<or> sx_mission (ev_context a) \<noteq> None \<longrightarrow>
      sx_mission (ev_context r) = sx_mission (ev_context a)"
    using kept [of "''mission_id''", OF _ _ _ tr(3)] by (simp add: n(4) CONTAINMENT_KEYS_def del: set_map split: if_splits)
  moreover have "''task_id'' \<notin> set (map fst os) \<longrightarrow> sx_task (ev_context r) = sx_task (ev_context a)"
    using field [of "''task_id''", OF _ _ _ tr(4)] ov by (simp add: n(5) CONTAINMENT_KEYS_def del: set_map)
  moreover have "''session_id'' \<notin> set (map fst os) \<longrightarrow> sx_session (ev_context r) = sx_session (ev_context a)"
    using field [of "''session_id''", OF _ _ _ tr(5)] ov by (simp add: n(6) CONTAINMENT_KEYS_def del: set_map)
  ultimately show ?thesis unfolding t by blast
qed

theorem supplied_scope_stays_in_its_authority_witness:
  "\<exists>r. resolveEventScopeAgainstAuthority (\<lambda>_. []) (JObj [(''tier'', JStr ''confidential''), (''tenant_slug'', JStr ''acme'')])
      (JObj [(''tenant_slug'', JStr '' acme '')]) (JObj []) = Inr r \<and>
    sx_tenant (ev_context r) = Some ''acme'' \<and> sx_tier (ev_context r) = ''confidential''"
proof -
  let ?a = "\<lparr>ev_context = \<lparr>sx_tenant = Some ''acme'', sx_organization = None, sx_project = None,
      sx_mission = None, sx_task = None, sx_session = None, sx_work_shape = None, sx_tier = ''confidential'',
      sx_stance = None, sx_viewer = None, sx_nhi = None\<rparr>, ev_kind = TenantKind\<rparr>"
  have p: "parseEventScopeInput (JObj [(''tenant_slug'', JStr '' acme '')]) = Inr (JObj [(''tenant_slug'', JStr '' acme '')])"
    "normalizeEventScope (JObj [(''tier'', JStr ''confidential''), (''tenant_slug'', JStr ''acme'')]) = Inr ?a"
    "resolveEventScopeAgainstAuthority (\<lambda>_. []) (JObj [(''tier'', JStr ''confidential''), (''tenant_slug'', JStr ''acme'')])
      (JObj [(''tenant_slug'', JStr '' acme '')]) (JObj []) = Inr ?a"
    by code_simp+
  show ?thesis using supplied_scope_stays_in_its_authority [OF p(1) _ _ p(2) _ p(3)] p(3) by simp
qed

lemma slug_is_trimmed:
  assumes "isValidTenantSlug t"
  shows "js_trim t = t" "t \<noteq> []"
proof -
  have "\<not> is_js_space c" if "c \<in> set t" for c
    using assms that
    by (auto simp: isValidTenantSlug_def slug_tail_def slug_head_def is_js_space_def list_all_iff split: list.splits)
  then have "dropWhile is_js_space t = t" "dropWhile is_js_space (rev t) = rev t"
    by (auto simp: dropWhile_eq_self_iff hd_rev)
  then show "js_trim t = t" by (simp add: js_trim_def)
  show "t \<noteq> []" using assms by (auto simp: isValidTenantSlug_def)
qed

text \<open>The scope of a tenant in the open tier, and the one that names nobody.\<close>

definition tenant_scope_of :: "string \<Rightarrow> event_scope" where
  "tenant_scope_of t =
    \<lparr>ev_context = \<lparr>sx_tenant = (if t = [] then None else Some t), sx_organization = None, sx_project = None,
       sx_mission = None, sx_task = None, sx_session = None, sx_work_shape = None, sx_tier = ''public'',
       sx_stance = None, sx_viewer = None, sx_nhi = None\<rparr>,
     ev_kind = (if t = [] then SystemKind else TenantKind)\<rparr>"

lemma tenant_scope_normal: "isValidTenantSlug t \<Longrightarrow> normal_scope (tenant_scope_of t)"
  using slug_is_trimmed [of t]
  by (simp add: normal_scope_def tenant_scope_of_def trimmed_context_def trimmed_field_def clean_string context_errors_def
      event_options_def TIERS_def context_ids_def requiredForKind_def)

text \<open>C36. A blank \<open>tenant_slug\<close> smuggles a tenant in: under an authority that names no tenant, a scope whose
  \<open>tenant_slug\<close> is empty and whose compatibility field \<open>tenant_id\<close> names a tenant passes the comparison with
  the authority, which reads the former, and comes out with the tenant of the latter.\<close>

theorem blank_tenant_slug_smuggles_a_tenant:
  assumes "isValidTenantSlug t"
  shows "\<exists>supplied r. parseEventScopeInput
        (JObj [(''tenant_slug'', JStr []), (''tenant_id'', JStr t), (''scope_kind'', JStr ''tenant'')]) = Inr supplied \<and>
    resolveEventScopeAgainstAuthority num (JObj [(''tier'', JStr ''public'')]) supplied (JObj []) = Inr r \<and>
    sx_tenant (ev_context r) = Some t"
proof -
  let ?raw = "JObj [(''tenant_slug'', JStr []), (''tenant_id'', JStr t), (''scope_kind'', JStr ''tenant'')]"
  let ?merged = "JObj [(''tier'', JStr ''public''), (''scope_kind'', JStr ''tenant''), (''tenant_slug'', JStr []), (''tenant_id'', JStr t)]"
  note slug = slug_is_trimmed [OF assms]
  have parsed: "parseEventScopeInput ?raw = Inr ?raw"
    by (simp add: parseEventScopeInput_def EVENT_SCOPE_INPUT_KEYS_def EVENT_SCOPE_KINDS_def jget_JObj image_iff)
  have auth: "normalizeEventScope (JObj [(''tier'', JStr ''public'')]) = Inr (tenant_scope_of [])"
    "scope_json (tenant_scope_of []) = JObj [(''tier'', JStr ''public''), (''scope_kind'', JStr ''system'')]"
    by code_simp+
  have none: "lineage_conflict num (scope_json (tenant_scope_of [])) ?raw = None"
    by (simp add: lineage_conflict_def CONTAINMENT_KEYS_def auth(2) jget_JObj jnullish_def js_trim_def)
  have merged: "jspread (scope_json (tenant_scope_of [])) ?raw = ?merged"
    by (simp add: auth(2) jspread_def jset_def)
  have "normalizeEventScope ?merged = Inr (tenant_scope_of t)"
    by (rule normalizeEventScope_fields [OF tenant_scope_normal [OF assms]])
      (simp_all add: jget_JObj clean_string tenant_scope_of_def slug compatibleAlias_def kind_name_def js_trim_def [of "[]"])
  then have "resolveEventScopeAgainstAuthority num (JObj [(''tier'', JStr ''public'')]) ?raw (JObj []) = Inr (tenant_scope_of t)"
    by (simp add: resolveEventScopeAgainstAuthority_def auth(1) jtruthy_def none merged)
      (simp add: jspread_def jset_def jget_JObj pin_def auth(2) jtruthy_def)
  then show ?thesis using parsed slug by (auto simp: tenant_scope_of_def)
qed

theorem blank_tenant_slug_smuggles_a_tenant_witness:
  "\<exists>supplied r. parseEventScopeInput
        (JObj [(''tenant_slug'', JStr []), (''tenant_id'', JStr ''evil''), (''scope_kind'', JStr ''tenant'')]) = Inr supplied \<and>
    resolveEventScopeAgainstAuthority (\<lambda>_. []) (JObj [(''tier'', JStr ''public'')]) supplied (JObj []) = Inr r \<and>
    sx_tenant (ev_context r) = Some ''evil''"
  by (rule blank_tenant_slug_smuggles_a_tenant) code_simp

section \<open>Readers of one tenant\<close>

lemma matched_scope_is_requested:
  assumes "eventScopeMatches scope f" "requested_tenants f = Some ts" "\<not> sf_include_untenanted f"
  shows "\<exists>s t. scope = Some s \<and> sx_tenant (ev_context s) = Some t \<and> t \<in> set ts"
  using assms
  by (auto simp: eventScopeMatches_def requested_tenants_def Let_def truthy_opt_def
      split: option.splits tenant_set.splits if_splits)

end
