(* ===== verification/Audit_Core.thy ===== *)
theory Audit_Core
  imports Jsonl_Scan Event_Scope
begin

text \<open>
  The audit trail, first part: the records of \<open>src/libs/core/governance/audit-chain.ts\<close>, the
  check every record passes before it is taken as evidence, the actor references of \<open>actor.ts\<close>, and
  the keyed hash of \<open>chain-integrity.ts\<close> that links a record to the one before it.

  A \<open>codec\<close> holds what the code takes from its platform: SHA-256 and HMAC-SHA-256 as hexadecimal text,
  the printer and the parser of JSON (\<open>JSON.stringify\<close> on a value without undefined parts, and
  \<open>JSON.parse\<close>, \<open>None\<close> when it throws) and the sizes of a scan.
\<close>

section \<open>The platform\<close>

record codec =
  cx_sha :: "string \<Rightarrow> string"
  cx_hmac :: "string \<Rightarrow> string \<Rightarrow> string"
  cx_stringify :: "json \<Rightarrow> string"
  cx_parse :: "string \<Rightarrow> json option"
  cx_chunk :: nat
  cx_maxLine :: nat

text \<open>The value that \<open>JSON.parse(JSON.stringify(v))\<close> is: undefined members go, undefined elements are null.\<close>

fun json_persist :: "json \<Rightarrow> json" where
  "json_persist (JArr vs) = JArr (map (\<lambda>v. if v = JUndef then JNull else json_persist v) vs)"
| "json_persist (JObj kvs) = JObj (filter (\<lambda>(k, v). v \<noteq> JUndef) (map (\<lambda>(k, v). (k, json_persist v)) kvs))"
| "json_persist v = v"

section \<open>Actors\<close>

definition strip_prefix :: "string \<Rightarrow> string \<Rightarrow> string option" where
  "strip_prefix p s = (if take (length p) s = p then Some (drop (length p) s) else None)"

definition is_slug :: "string \<Rightarrow> bool" where
  "is_slug s = (case s of [] \<Rightarrow> False | c # cs \<Rightarrow> slug_head c \<and> list_all slug_tail cs)"

definition isValidMemberId :: "string \<Rightarrow> bool" where
  "isValidMemberId s \<longleftrightarrow> is_slug s \<and> 2 \<le> length s \<and> length s \<le> 31"

definition parses_as_nhi :: "string \<Rightarrow> bool" where
  "parses_as_nhi s =
    (case strip_prefix ''kyberion://agent/'' s of
       None \<Rightarrow> False
     | Some r \<Rightarrow> is_slug (takeWhile (\<lambda>c. c \<noteq> CHR ''/'') r) \<and>
         (case dropWhile (\<lambda>c. c \<noteq> CHR ''/'') r of [] \<Rightarrow> False | _ # slug \<Rightarrow> is_slug slug))"

text \<open>A reference that is not consistent with the grammar of its kind is no actor.\<close>

definition actor_id_ok :: "string \<Rightarrow> string \<Rightarrow> bool" where
  "actor_id_ok kind i =
    (if kind = ''human'' then (case strip_prefix ''user:'' i of None \<Rightarrow> False | Some m \<Rightarrow> isValidMemberId m)
     else if kind = ''agent'' then parses_as_nhi i
     else if kind = ''service'' then (case strip_prefix ''service:'' i of None \<Rightarrow> False | Some s \<Rightarrow> is_slug s)
     else False)"

definition parseActorRef :: "json \<Rightarrow> json option" where
  "parseActorRef v =
    (case (jget v ''kind'', jget v ''id'') of
       (JStr kind, JStr i) \<Rightarrow>
         if js_trim i \<noteq> [] \<and> actor_id_ok kind (js_trim i)
         then Some (JObj ([(''kind'', JStr kind), (''id'', JStr (js_trim i))] @
                opt_field ''display_name'' (clean (jget v ''display_name'')) @
                opt_field ''on_behalf_of'' (clean (jget v ''on_behalf_of''))))
         else None
     | _ \<Rightarrow> None)"

section \<open>Records\<close>

datatype chain_alg = Sha256 | HmacSha256

datatype audit_result = Allowed | Denied | Errored | Completed | Failed

record audit_entry =
  au_id :: string
  au_timestamp :: string
  au_agent :: string
  au_action :: string
  au_operation :: string
  au_result :: audit_result
  au_reason :: "string option"
  au_correlation :: "string option"
  au_metadata :: "json option"
  au_compliance :: "json option"
  au_tenant :: "string option"
  au_scope :: "json option"
  au_actor :: "json option"
  au_alg :: "chain_alg option"
  au_key_id :: "string option"
  au_previous :: string
  au_current :: string

datatype audit_error = AuditShape string | MissingKey | KeyFileFailed | AuditScopeDenied | AuditScopeInvalid
  | TailUnreadable | TailDenied | Reentrant | LockNotHeld | LockFailed | ListFailed

definition alg_name :: "chain_alg \<Rightarrow> string" where
  "alg_name a = (case a of Sha256 \<Rightarrow> ''sha256'' | HmacSha256 \<Rightarrow> ''hmac-sha256'')"

definition result_name :: "audit_result \<Rightarrow> string" where
  "result_name r = (case r of Allowed \<Rightarrow> ''allowed'' | Denied \<Rightarrow> ''denied'' | Errored \<Rightarrow> ''error''
    | Completed \<Rightarrow> ''completed'' | Failed \<Rightarrow> ''failed'')"

definition RESULTS :: "(string \<times> audit_result) list" where
  "RESULTS = [(''allowed'', Allowed), (''denied'', Denied), (''error'', Errored), (''completed'', Completed),
    (''failed'', Failed)]"

definition ALGS :: "(string \<times> chain_alg) list" where
  "ALGS = [(''sha256'', Sha256), (''hmac-sha256'', HmacSha256)]"

text \<open>\<open>persistedString\<close>: a field that has to be a string with something in it, or may be absent or null.\<close>

definition persisted_string :: "json \<Rightarrow> string \<Rightarrow> (string \<Rightarrow> audit_error + 'a) \<Rightarrow> audit_error + 'a" where
  "persisted_string v key k =
    (case jget v key of JStr s \<Rightarrow> if js_trim s = [] then Inl (AuditShape key) else k s | _ \<Rightarrow> Inl (AuditShape key))"

definition persisted_optional :: "json \<Rightarrow> string \<Rightarrow> (string option \<Rightarrow> audit_error + 'a) \<Rightarrow> audit_error + 'a" where
  "persisted_optional v key k =
    (if jnullish (jget v key) then k None else persisted_string v key (\<lambda>s. k (Some s)))"

text \<open>A field that is absent or an object.\<close>

definition optional_object :: "json \<Rightarrow> string \<Rightarrow> (json option \<Rightarrow> audit_error + 'a) \<Rightarrow> audit_error + 'a" where
  "optional_object v key k =
    (if jget v key = JUndef then k None
     else if is_plain_object (jget v key) then k (Some (jget v key)) else Inl (AuditShape key))"

definition compliance_ok :: "json option \<Rightarrow> audit_error option" where
  "compliance_ok c =
    (case c of
       None \<Rightarrow> None
     | Some v \<Rightarrow>
         (case persisted_string v ''framework'' (\<lambda>_. persisted_string v ''control'' (\<lambda>_. Inr ())) of
            Inl e \<Rightarrow> Some e | Inr _ \<Rightarrow> None))"

definition normalizePersistedAuditEntry :: "json \<Rightarrow> audit_error + audit_entry" where
  "normalizePersistedAuditEntry v =
    (if \<not> is_plain_object v then Inl (AuditShape [])
     else
       persisted_string v ''id'' (\<lambda>i. persisted_string v ''timestamp'' (\<lambda>ts. persisted_string v ''agentId'' (\<lambda>agent.
       persisted_string v ''action'' (\<lambda>action. persisted_string v ''operation'' (\<lambda>operation.
       persisted_string v ''previousHash'' (\<lambda>previous. persisted_string v ''currentHash'' (\<lambda>current.
       case (case jget v ''result'' of JStr s \<Rightarrow> map_of RESULTS s | _ \<Rightarrow> None) of
         None \<Rightarrow> Inl (AuditShape ''result'')
       | Some result \<Rightarrow>
         persisted_optional v ''reason'' (\<lambda>reason. persisted_optional v ''correlationId'' (\<lambda>correlation.
         persisted_optional v ''tenantSlug'' (\<lambda>tenant. persisted_optional v ''chain_key_id'' (\<lambda>keyId.
         optional_object v ''metadata'' (\<lambda>metadata. optional_object v ''compliance'' (\<lambda>compliance.
         case compliance_ok compliance of
           Some e \<Rightarrow> Inl e
         | None \<Rightarrow>
           optional_object v ''scope'' (\<lambda>scope.
             let alg = (case jget v ''chain_alg'' of JStr s \<Rightarrow> map_of ALGS s | _ \<Rightarrow> None)
             in if jget v ''chain_alg'' \<noteq> JUndef \<and> alg = None then Inl (AuditShape ''chain_alg'')
                else Inr \<lparr>au_id = i, au_timestamp = ts, au_agent = agent, au_action = action, au_operation = operation,
                  au_result = result, au_reason = reason, au_correlation = correlation, au_metadata = metadata,
                  au_compliance = compliance, au_tenant = tenant, au_scope = scope,
                  au_actor = parseActorRef (jget v ''actor''), au_alg = alg, au_key_id = keyId, au_previous = previous,
                  au_current = current\<rparr>)))))))))))))))"

text \<open>The object that a record is; absent fields are absent keys.\<close>

definition opt_json :: "string \<Rightarrow> json option \<Rightarrow> (string \<times> json) list" where
  "opt_json k v = (case v of None \<Rightarrow> [] | Some x \<Rightarrow> [(k, x)])"

definition entry_json :: "audit_entry \<Rightarrow> json" where
  "entry_json e =
    JObj ([(''id'', JStr (au_id e)), (''timestamp'', JStr (au_timestamp e)), (''agentId'', JStr (au_agent e)),
        (''action'', JStr (au_action e)), (''operation'', JStr (au_operation e)),
        (''result'', JStr (result_name (au_result e)))] @
      opt_field ''reason'' (au_reason e) @ opt_field ''correlationId'' (au_correlation e) @
      opt_json ''metadata'' (au_metadata e) @ opt_json ''compliance'' (au_compliance e) @
      opt_field ''tenantSlug'' (au_tenant e) @ opt_json ''scope'' (au_scope e) @ opt_json ''actor'' (au_actor e) @
      opt_field ''chain_alg'' (map_option alg_name (au_alg e)) @ opt_field ''chain_key_id'' (au_key_id e) @
      [(''previousHash'', JStr (au_previous e)), (''currentHash'', JStr (au_current e))])"

section \<open>The hash of a record\<close>

definition GENESIS_HASH :: string where
  "GENESIS_HASH = replicate 64 (CHR ''0'')"

definition digest :: "codec \<Rightarrow> chain_alg \<Rightarrow> string option \<Rightarrow> string \<Rightarrow> string option" where
  "digest cx alg key payload =
    (case alg of
       HmacSha256 \<Rightarrow> if truthy_opt key then Some (cx_hmac cx (the key) payload) else None
     | Sha256 \<Rightarrow> Some (cx_sha cx payload))"

text \<open>The payload is the previous hash and the text of the record without its own hash.\<close>

definition computeAuditEntryHash :: "codec \<Rightarrow> chain_alg \<Rightarrow> string option \<Rightarrow> audit_entry \<Rightarrow> string \<Rightarrow> string option" where
  "computeAuditEntryHash cx alg key e previous =
    digest cx alg key (previous @ cx_stringify cx (json_persist (jset (entry_json e) ''currentHash'' JUndef)))"

datatype hash_check = HashOk | PreviousMismatch | CurrentMismatch | HashError

definition verifyAuditEntryHash :: "codec \<Rightarrow> chain_alg \<Rightarrow> string option \<Rightarrow> audit_entry \<Rightarrow> string \<Rightarrow> hash_check" where
  "verifyAuditEntryHash cx alg key e previous =
    (if au_previous e \<noteq> previous then PreviousMismatch
     else (case computeAuditEntryHash cx alg key e previous of
             None \<Rightarrow> HashError
           | Some h \<Rightarrow> if au_current e = h then HashOk else CurrentMismatch))"

definition getAuditChainKeyId :: "codec \<Rightarrow> string option \<Rightarrow> string option" where
  "getAuditChainKeyId cx key = (if truthy_opt key then Some (take 16 (cx_sha cx (the key))) else None)"

text \<open>Ledgers hash a record without its \<open>hash\<close> field and keep the parent inside it.\<close>

definition computeLedgerEntryHash :: "codec \<Rightarrow> chain_alg \<Rightarrow> string option \<Rightarrow> json \<Rightarrow> string option" where
  "computeLedgerEntryHash cx alg key entryWithoutHash = digest cx alg key (cx_stringify cx (json_persist entryWithoutHash))"

definition verifyLedgerEntryHash ::
  "codec \<Rightarrow> (rat \<Rightarrow> string) \<Rightarrow> chain_alg \<Rightarrow> string option \<Rightarrow> json \<Rightarrow> string \<Rightarrow> hash_check" where
  "verifyLedgerEntryHash cx num alg key entry parent =
    (if jget entry ''parent_hash'' \<noteq> JStr parent then PreviousMismatch
     else (case computeLedgerEntryHash cx alg key
                  (case entry of JObj kvs \<Rightarrow> JObj (filter (\<lambda>(k, v). k \<noteq> ''hash'') kvs) | _ \<Rightarrow> JObj []) of
             None \<Rightarrow> HashError
           | Some h \<Rightarrow>
               if (if jnullish (jget entry ''hash'') then [] else js_string num (jget entry ''hash'')) = h
               then HashOk else CurrentMismatch))"

text \<open>The key: the environment's, else the content of the key file, else a new one when asked for. Creating the
  file may lose a race against another process.\<close>

datatype key_creation = KeyCreated string | KeyRaced string | KeyRefused

definition resolveAuditChainKey ::
  "string option \<Rightarrow> key_creation \<Rightarrow> bool \<Rightarrow> string option \<Rightarrow> (audit_error + string option) \<times> string option" where
  "resolveAuditChainKey envKey creation createIfMissing file =
    (let fromEnv = (case envKey of None \<Rightarrow> [] | Some k \<Rightarrow> js_trim k);
         content = (\<lambda>text. if js_trim text = [] then None else Some (js_trim text))
     in if fromEnv \<noteq> [] then (Inr (Some fromEnv), file)
        else (case file of
                Some text \<Rightarrow> (Inr (content text), file)
              | None \<Rightarrow>
                  if \<not> createIfMissing then (Inr None, file)
                  else (case creation of
                          KeyCreated k \<Rightarrow> (Inr (Some k), Some (k @ [NEWLINE]))
                        | KeyRaced text \<Rightarrow> (Inr (content text), Some text)
                        | KeyRefused \<Rightarrow> (Inl KeyFileFailed, file))))"

text \<open>The tracker of a verifier: unkeyed records are legal only before the first keyed one, and not at all when the
  chain has to be keyed.\<close>

record alg_tracker =
  tk_keyed :: bool
  tk_unkeyed :: nat

datatype alg_finding = ChainDowngrade | UnkeyedEntry

definition createChainAlgTracker :: alg_tracker where
  "createChainAlgTracker = \<lparr>tk_keyed = False, tk_unkeyed = 0\<rparr>"

definition tracker_observe :: "bool \<Rightarrow> chain_alg \<Rightarrow> alg_tracker \<Rightarrow> alg_finding option \<times> alg_tracker" where
  "tracker_observe requireKeyed alg t =
    (if alg = HmacSha256 then (None, t\<lparr>tk_keyed := True\<rparr>)
     else (if tk_keyed t then Some ChainDowngrade else if requireKeyed then Some UnkeyedEntry else None,
           t\<lparr>tk_unkeyed := tk_unkeyed t + 1\<rparr>))"

definition tracker_seed :: "chain_alg option \<Rightarrow> alg_tracker \<Rightarrow> alg_tracker" where
  "tracker_seed alg t = (if alg = Some HmacSha256 then t\<lparr>tk_keyed := True\<rparr> else t)"

end
