(* ===== verification/Audit_Chain.thy ===== *)
theory Audit_Chain
  imports Audit_Core
begin

text \<open>
  The audit trail, second part: the state of \<open>AuditChainImpl\<close>
  (\<open>src/libs/core/governance/audit-chain.ts\<close>) and its operations. The disk holds the daily files of the
  master chain and of the tenant mirrors as bytes, and the key file; the process holds the cursor, the depth of
  the chain lock, the queue of deferred appends and what the forwarder received. Files are locked between
  processes, so an operation under the lock is one step; what the platform and other components answer
  at a step (clock, current tenant, refusals of the guarded file access, the records those refusals make) is
  an \<open>audit_env\<close>, one for every step.
\<close>

section \<open>State\<close>

type_synonym daily_files = "(string, bytes) js_map"

record audit_disk =
  ad_files :: daily_files
  ad_mirrors :: "(string, daily_files) js_map"
  ad_key :: "string option"

record prepared_record =
  pr_entry :: json
  pr_tenant :: "string option"

record audit_state =
  as_disk :: audit_disk
  as_last :: string
  as_count :: nat
  as_depth :: nat
  as_deferred :: "prepared_record list"
  as_flushing :: bool
  as_sent :: "audit_entry list"
  as_step :: nat

text \<open>How one attempt to read ends: with the content, without a file, with a file that changed, refused by the scope
  of the caller, or with any other fault.\<close>

datatype read_attempt = ReadOk | ReadGone | ReadChanged | ReadDenied | ReadFailed

datatype mirror_write = MirrorWritten | MirrorNoDirectory | MirrorNoAppend

datatype audit_path = MirrorRoot | MirrorDir string | MirrorFile string string

record audit_env =
  ae_registered :: bool
  ae_list :: read_attempt
  ae_read :: "string \<Rightarrow> nat \<Rightarrow> read_attempt"
  ae_tail :: "string \<Rightarrow> bool"
  ae_safe :: "audit_path \<Rightarrow> bool"
  ae_write :: bool
  ae_mirror :: mirror_write
  ae_lock :: bool
  ae_denials :: "json list"
  ae_id_time :: string
  ae_now :: string
  ae_key_env :: "string option"
  ae_key_creation :: key_creation
  ae_bound :: "string option option"
  ae_env_tenant :: "string option"
  ae_mission :: "string option"
  ae_mission_states :: "json option list"
  ae_env_tier :: "string option"

section \<open>Tenant and scope of a record\<close>

definition json_string :: "json \<Rightarrow> string option" where
  "json_string v = (case v of JStr s \<Rightarrow> Some s | _ \<Rightarrow> None)"

text \<open>The tenant slug of the first mission state that names a valid one.\<close>

fun mission_tenant :: "json option list \<Rightarrow> string option" where
  "mission_tenant [] = None"
| "mission_tenant (state # rest) =
    (case state of
       None \<Rightarrow> mission_tenant rest
     | Some v \<Rightarrow>
         (let slug = js_trim (case jget v ''tenant_slug'' of JStr s \<Rightarrow> s | _ \<Rightarrow> [])
          in if slug \<noteq> [] \<and> isValidTenantSlug slug then Some slug else mission_tenant rest))"

definition resolveCurrentTenantSlug :: "audit_env \<Rightarrow> string option" where
  "resolveCurrentTenantSlug E =
    (case ae_bound E of
       Some bound \<Rightarrow>
         (let tenant = (case bound of None \<Rightarrow> [] | Some t \<Rightarrow> js_trim t)
          in if tenant \<noteq> [] \<and> isValidTenantSlug tenant then Some tenant else None)
     | None \<Rightarrow>
         (let fromEnv = (case ae_env_tenant E of None \<Rightarrow> [] | Some t \<Rightarrow> js_trim t)
          in if fromEnv \<noteq> [] \<and> isValidTenantSlug fromEnv then Some fromEnv
             else if truthy_opt (ae_mission E) \<and> ae_registered E then mission_tenant (ae_mission_states E)
             else None))"

definition resolveAuditScope :: "string option \<Rightarrow> json \<Rightarrow> string option \<Rightarrow> event_scope option" where
  "resolveAuditScope envTier scope tenant =
    (let base = (if jtruthy scope then scope else JObj []);
         withTenant = (if truthy_opt tenant \<and> \<not> jtruthy (jget scope ''tenant_slug'')
                       then jset base ''tenant_slug'' (JStr (the tenant)) else base);
         tier = (if jtruthy (jget scope ''tier'') then jget scope ''tier''
                 else JStr (if truthy_opt envTier then the envTier else ''public''))
     in case normalizeEventScope (jset withTenant ''tier'' tier) of Inl _ \<Rightarrow> None | Inr s \<Rightarrow> Some s)"

text \<open>\<open>a ?? b ?? c\<close> on fields that are strings when given.\<close>

definition first_given :: "string option list \<Rightarrow> string option" where
  "first_given vs = (case filter (\<lambda>v. v \<noteq> None) vs of [] \<Rightarrow> None | v # _ \<Rightarrow> v)"

definition both_differ :: "string option \<Rightarrow> string option \<Rightarrow> bool" where
  "both_differ a b \<longleftrightarrow> truthy_opt a \<and> truthy_opt b \<and> a \<noteq> b"

definition prepare :: "audit_env \<Rightarrow> json \<Rightarrow> audit_error + prepared_record" where
  "prepare E entry =
    (let active = resolveCurrentTenantSlug E;
         tenantSlug = json_string (jget entry ''tenantSlug'');
         scope = jget entry ''scope'';
         scopeTenant = json_string (jget scope ''tenant_slug'')
     in if both_differ tenantSlug active \<or> both_differ scopeTenant active \<or> both_differ tenantSlug scopeTenant
        then Inl AuditScopeDenied
        else if jtruthy scope \<and> resolveAuditScope (ae_env_tier E) scope (first_given [scopeTenant, tenantSlug, active]) = None
        then Inl AuditScopeInvalid
        else Inr \<lparr>pr_entry = entry, pr_tenant = first_given [tenantSlug, scopeTenant, active]\<rparr>)"

section \<open>The files of the chain\<close>

definition is_digit_char :: "char \<Rightarrow> bool" where
  "is_digit_char c \<longleftrightarrow> (48 \<le> (of_char c :: nat) \<and> (of_char c :: nat) \<le> 57)"

definition is_date :: "string \<Rightarrow> bool" where
  "is_date d \<longleftrightarrow> length d = 10 \<and> d ! 4 = CHR ''-'' \<and> d ! 7 = CHR ''-'' \<and>
    list_all is_digit_char (take 4 d @ take 2 (drop 5 d) @ drop 8 d)"

definition daily_name :: "string \<Rightarrow> string" where
  "daily_name date = ''audit-'' @ date @ ''.jsonl''"

text \<open>\<open>AUDIT_FILE_RE\<close>: the date of a daily file.\<close>

definition extractAuditDate :: "string \<Rightarrow> string option" where
  "extractAuditDate name =
    (let date = take 10 (drop 6 name) in if name = daily_name date \<and> is_date date then Some date else None)"

text \<open>The names of daily files differ only in their digits, so the collation orders them as texts.\<close>

definition daily_names :: "daily_files \<Rightarrow> string list" where
  "daily_names fs = sort (filter (\<lambda>n. extractAuditDate n \<noteq> None) (map fst fs))"

definition listAuditFiles :: "audit_env \<Rightarrow> audit_disk \<Rightarrow> audit_error + string list" where
  "listAuditFiles E d =
    (if \<not> ae_registered E then Inr []
     else (case ae_list E of
             ReadOk \<Rightarrow> Inr (daily_names (ad_files d))
           | ReadGone \<Rightarrow> Inr []
           | ReadDenied \<Rightarrow> Inl TailDenied
           | _ \<Rightarrow> Inl ListFailed))"

definition file_bytes :: "daily_files \<Rightarrow> string \<Rightarrow> bytes" where
  "file_bytes fs name = (case map_of fs name of None \<Rightarrow> [] | Some bs \<Rightarrow> bs)"

definition entry_of :: "json \<Rightarrow> audit_entry option" where
  "entry_of v = (case normalizePersistedAuditEntry v of Inl _ \<Rightarrow> None | Inr e \<Rightarrow> Some e)"

text \<open>What \<open>readSeedTailUnlessGone\<close> learns of a file: it is gone, it cannot be read, or its last record and the
  number of malformed lines after it.\<close>

datatype seed_tail = TailGone | TailFault | TailRefused | TailRead "audit_entry option" nat

definition readSeedTail :: "codec \<Rightarrow> bytes \<Rightarrow> seed_tail" where
  "readSeedTail cx bs =
    (case readLastJsonLine (cx_chunk cx) (cx_maxLine cx) (cx_parse cx) entry_of PolicyNote bs of
       Inl _ \<Rightarrow> TailFault
     | Inr (r, skipped) \<Rightarrow> TailRead r (length skipped))"

text \<open>A file that changed during the scan is read once more, if it still exists.\<close>

definition readSeedTailUnlessGone :: "codec \<Rightarrow> audit_env \<Rightarrow> daily_files \<Rightarrow> string \<Rightarrow> seed_tail" where
  "readSeedTailUnlessGone cx E fs name =
    (let attempt = (\<lambda>n again. case ae_read E name n of
           ReadOk \<Rightarrow> readSeedTail cx (file_bytes fs name)
         | ReadGone \<Rightarrow> TailGone
         | ReadChanged \<Rightarrow> if map_of fs name = None then TailGone else again
         | ReadDenied \<Rightarrow> TailRefused
         | ReadFailed \<Rightarrow> TailFault)
     in attempt 0 (attempt 1 TailFault))"

text \<open>The counter at the end of an id \<open>AUD-<time>-<n>\<close>.\<close>

definition digits_value :: "string \<Rightarrow> nat" where
  "digits_value s = foldl (\<lambda>n c. n * 10 + (of_char c - 48)) 0 s"

definition auditIdCounter :: "string \<Rightarrow> nat option" where
  "auditIdCounter i =
    (let digits = rev (takeWhile is_digit_char (rev i)); before = dropWhile is_digit_char (rev i)
     in if digits = [] \<or> before = [] \<or> hd before \<noteq> CHR ''-'' then None
        else if digits_value digits \<le> 9007199254740991 then Some (digits_value digits) else None)"

datatype seed_result = SeedOk string nat | SeedFault | SeedDenied

fun seed_scan :: "codec \<Rightarrow> audit_env \<Rightarrow> daily_files \<Rightarrow> string list \<Rightarrow> seed_result" where
  "seed_scan cx E fs [] = SeedOk GENESIS_HASH 0"
| "seed_scan cx E fs (name # older) =
    (case readSeedTailUnlessGone cx E fs name of
       TailGone \<Rightarrow> seed_scan cx E fs older
     | TailRefused \<Rightarrow> SeedDenied
     | TailFault \<Rightarrow> SeedFault
     | TailRead None skipped \<Rightarrow> if skipped = 0 then seed_scan cx E fs older else SeedFault
     | TailRead (Some newest) _ \<Rightarrow>
         SeedOk (if au_current newest = [] then GENESIS_HASH else au_current newest)
           (case auditIdCounter (au_id newest) of None \<Rightarrow> 0 | Some n \<Rightarrow> n))"

text \<open>\<open>seedFromDisk\<close>: the cursor from the newest daily file with a record. Without file access the cursor in memory
  stays.\<close>

definition seedFromDisk :: "codec \<Rightarrow> audit_env \<Rightarrow> audit_state \<Rightarrow> audit_error + seed_result" where
  "seedFromDisk cx E st =
    (if \<not> ae_registered E then Inr (SeedOk (as_last st) (as_count st))
     else (case listAuditFiles E (as_disk st) of
             Inl TailDenied \<Rightarrow> Inr SeedDenied
           | Inl e \<Rightarrow> Inl e
           | Inr names \<Rightarrow> Inr (seed_scan cx E (ad_files (as_disk st)) (rev names))))"

section \<open>Appending\<close>

text \<open>The line of a record; a file whose last byte is no line feed, or whose tail cannot be read, gets one first.\<close>

definition record_line :: "codec \<Rightarrow> audit_entry \<Rightarrow> bytes" where
  "record_line cx e = cx_stringify cx (json_persist (entry_json e)) @ [NEWLINE]"

definition appendRecordLine :: "codec \<Rightarrow> audit_env \<Rightarrow> string \<Rightarrow> audit_entry \<Rightarrow> daily_files \<Rightarrow> daily_files" where
  "appendRecordLine cx E name e fs =
    (let old = file_bytes fs name;
         separator = (if map_of fs name \<noteq> None \<and> (\<not> ae_tail E name \<or> \<not> fileEndsWithNewline old) then [NEWLINE] else [])
     in AList.update name (old @ separator @ record_line cx e) fs)"

definition mirror_files :: "audit_disk \<Rightarrow> string \<Rightarrow> daily_files" where
  "mirror_files d slug = (case map_of (ad_mirrors d) slug of None \<Rightarrow> [] | Some fs \<Rightarrow> fs)"

definition entry_file :: "audit_entry \<Rightarrow> string" where
  "entry_file e = daily_name (take 10 (au_timestamp e))"

definition appendTenantMirror :: "codec \<Rightarrow> audit_env \<Rightarrow> string \<Rightarrow> audit_entry \<Rightarrow> audit_disk \<Rightarrow> audit_disk" where
  "appendTenantMirror cx E slug e d =
    (if \<not> ae_safe E (MirrorDir slug) \<or> ae_mirror E = MirrorNoDirectory then d
     else
       (let d' = d\<lparr>ad_mirrors := AList.update slug (mirror_files d slug) (ad_mirrors d)\<rparr>
        in if \<not> ae_safe E (MirrorFile slug (entry_file e)) \<or> ae_mirror E = MirrorNoAppend then d'
           else d\<lparr>ad_mirrors :=
             AList.update slug (appendRecordLine cx E (entry_file e) e (mirror_files d slug)) (ad_mirrors d)\<rparr>))"

definition appendToFile :: "codec \<Rightarrow> audit_env \<Rightarrow> audit_entry \<Rightarrow> audit_disk \<Rightarrow> audit_disk" where
  "appendToFile cx E e d =
    (if \<not> ae_registered E then d
     else
       (let d' = (if ae_write E then d\<lparr>ad_files := appendRecordLine cx E (entry_file e) e (ad_files d)\<rparr> else d)
        in case au_tenant e of
             Some slug \<Rightarrow> if isValidTenantSlug slug then appendTenantMirror cx E slug e d' else d'
           | None \<Rightarrow> d'))"

text \<open>The object that becomes the record: the caller's fields between the id and the fields of the chain; its own
  tenant and scope are replaced by the checked ones.\<close>

definition next_object ::
  "string \<Rightarrow> string \<Rightarrow> json \<Rightarrow> string option \<Rightarrow> event_scope option \<Rightarrow> string option \<Rightarrow> string \<Rightarrow> json" where
  "next_object i ts entry tenant scope keyId previous =
    (let without = jset (jset entry ''tenantSlug'' JUndef) ''scope'' JUndef;
         correlation = (if \<not> jnullish (jget entry ''correlationId'') then jget entry ''correlationId''
           else (case jget (jget entry ''metadata'') ''correlationId'' of JStr c \<Rightarrow> JStr c | _ \<Rightarrow> JUndef));
         base = jspread (JObj [(''id'', JStr i), (''timestamp'', JStr ts)]) without;
         tail = JObj ([(''correlationId'', correlation)] @ opt_field ''tenantSlug'' tenant @
           opt_json ''scope'' (map_option scope_json scope) @
           [(''chain_alg'', JStr ''hmac-sha256''), (''chain_key_id'', case keyId of None \<Rightarrow> JUndef | Some k \<Rightarrow> JStr k),
            (''previousHash'', JStr previous), (''currentHash'', JStr ''pending'')])
     in jspread base tail)"

definition audit_id :: "string \<Rightarrow> nat \<Rightarrow> string" where
  "audit_id time n = ''AUD-'' @ time @ ''-'' @ show_nat n"

text \<open>The records that refused writes make inside the lock are deferred, each checked at once.\<close>

definition deferred_denials :: "audit_env \<Rightarrow> prepared_record list" where
  "deferred_denials E = [p. Inr p \<leftarrow> map (prepare E) (ae_denials E)]"

definition build_entry ::
  "codec \<Rightarrow> audit_env \<Rightarrow> prepared_record \<Rightarrow> string \<Rightarrow> nat \<Rightarrow> string \<Rightarrow> audit_error + audit_entry" where
  "build_entry cx E p previous n key =
    (let tenant = (case pr_tenant p of Some t \<Rightarrow> if t \<noteq> [] \<and> isValidTenantSlug t then Some t else None | None \<Rightarrow> None);
         scope = resolveAuditScope (ae_env_tier E) (jget (pr_entry p) ''scope'') tenant
     in case normalizePersistedAuditEntry
               (next_object (audit_id (ae_id_time E) n) (ae_now E) (pr_entry p) tenant scope
                 (getAuditChainKeyId cx (Some key)) previous) of
          Inl e \<Rightarrow> Inl e
        | Inr e \<Rightarrow>
            (case computeAuditEntryHash cx HmacSha256 (Some key) e previous of
               None \<Rightarrow> Inl MissingKey
             | Some h \<Rightarrow> Inr (e\<lparr>au_current := h\<rparr>)))"

definition appendUnderLock ::
  "codec \<Rightarrow> (nat \<Rightarrow> audit_env) \<Rightarrow> prepared_record \<Rightarrow> audit_state \<Rightarrow> (audit_error + audit_entry) \<times> audit_state" where
  "appendUnderLock cx W p st0 =
    (let E = W (as_step st0); st = st0\<lparr>as_step := as_step st0 + 1\<rparr> in
     case seedFromDisk cx E st of
       Inl e \<Rightarrow> (Inl e, st\<lparr>as_last := GENESIS_HASH, as_count := 0\<rparr>)
     | Inr SeedFault \<Rightarrow> (Inl TailUnreadable, st\<lparr>as_last := GENESIS_HASH, as_count := 0\<rparr>)
     | Inr SeedDenied \<Rightarrow> (Inl TailDenied, st\<lparr>as_last := GENESIS_HASH, as_count := 0\<rparr>)
     | Inr (SeedOk previous cnt) \<Rightarrow>
         (let n = cnt + 1;
              (key, keyFile) = resolveAuditChainKey (ae_key_env E) (ae_key_creation E) True (ad_key (as_disk st));
              st1 = st\<lparr>as_last := previous, as_count := n, as_disk := (as_disk st)\<lparr>ad_key := keyFile\<rparr>\<rparr>
          in case key of
               Inl e \<Rightarrow> (Inl e, st1)
             | Inr None \<Rightarrow> (Inl MissingKey, st1)
             | Inr (Some k) \<Rightarrow>
                 (case build_entry cx E p previous n k of
                    Inl e \<Rightarrow> (Inl e, st1)
                  | Inr e \<Rightarrow>
                      (Inr e, st1\<lparr>as_last := au_current e, as_disk := appendToFile cx E e (as_disk st1),
                         as_deferred := as_deferred st1 @ deferred_denials E\<rparr>))))"

section \<open>The lock and the deferred records\<close>

definition fan_out :: "audit_error + audit_entry \<Rightarrow> audit_state \<Rightarrow> audit_state" where
  "fan_out r st = (case r of Inl _ \<Rightarrow> st | Inr e \<Rightarrow> st\<lparr>as_sent := as_sent st @ [e]\<rparr>)"

text \<open>The section itself: refused when this process holds the lock or cannot get it.\<close>

definition hold_lock ::
  "(nat \<Rightarrow> audit_env) \<Rightarrow> (audit_state \<Rightarrow> (audit_error + 'a) \<times> audit_state) \<Rightarrow> audit_state \<Rightarrow>
    (audit_error + 'a) \<times> audit_state" where
  "hold_lock W body st =
    (if \<not> ae_lock (W (as_step st)) then (Inl LockFailed, st)
     else (case body (st\<lparr>as_depth := as_depth st + 1\<rparr>) of (r, st') \<Rightarrow> (r, st'\<lparr>as_depth := as_depth st' - 1\<rparr>)))"

text \<open>A deferred append runs while the queue is being flushed, when leaving the lock flushes nothing.\<close>

definition append_deferred :: "codec \<Rightarrow> (nat \<Rightarrow> audit_env) \<Rightarrow> prepared_record \<Rightarrow> audit_state \<Rightarrow> audit_state" where
  "append_deferred cx W p st = (case hold_lock W (appendUnderLock cx W p) st of (r, st') \<Rightarrow> fan_out r st')"

definition flushDeferredAppends :: "codec \<Rightarrow> (nat \<Rightarrow> audit_env) \<Rightarrow> audit_state \<Rightarrow> audit_state" where
  "flushDeferredAppends cx W st =
    (if as_flushing st \<or> 0 < as_depth st \<or> as_deferred st = [] then st
     else (fold (append_deferred cx W) (as_deferred st) (st\<lparr>as_flushing := True, as_deferred := []\<rparr>))
            \<lparr>as_deferred := [], as_flushing := False\<rparr>)"

definition withAuditChainLock ::
  "codec \<Rightarrow> (nat \<Rightarrow> audit_env) \<Rightarrow> (audit_state \<Rightarrow> (audit_error + 'a) \<times> audit_state) \<Rightarrow> audit_state \<Rightarrow>
    (audit_error + 'a) \<times> audit_state" where
  "withAuditChainLock cx W body st =
    (if 0 < as_depth st then (Inl Reentrant, st)
     else (case hold_lock W body st of (r, st') \<Rightarrow> (r, flushDeferredAppends cx W st')))"

definition append_record ::
  "codec \<Rightarrow> (nat \<Rightarrow> audit_env) \<Rightarrow> prepared_record \<Rightarrow> audit_state \<Rightarrow> (audit_error + audit_entry) \<times> audit_state" where
  "append_record cx W p st =
    (case withAuditChainLock cx W (appendUnderLock cx W p) st of (r, st') \<Rightarrow> (r, fan_out r st'))"

definition record_entry ::
  "codec \<Rightarrow> (nat \<Rightarrow> audit_env) \<Rightarrow> json \<Rightarrow> audit_state \<Rightarrow> (audit_error + audit_entry) \<times> audit_state" where
  "record_entry cx W entry st =
    (case prepare (W (as_step st)) entry of Inl e \<Rightarrow> (Inl e, st) | Inr p \<Rightarrow> append_record cx W p st)"

definition recordDeferrable ::
  "codec \<Rightarrow> (nat \<Rightarrow> audit_env) \<Rightarrow> json \<Rightarrow> audit_state \<Rightarrow> (audit_error + audit_entry option) \<times> audit_state" where
  "recordDeferrable cx W entry st =
    (case prepare (W (as_step st)) entry of
       Inl e \<Rightarrow> (Inl e, st)
     | Inr p \<Rightarrow>
         if as_depth st = 0
         then (case append_record cx W p st of (r, st') \<Rightarrow> (map_sum id Some r, st'))
         else (Inr None, st\<lparr>as_deferred := as_deferred st @ [p]\<rparr>))"

definition recordHeld ::
  "codec \<Rightarrow> (nat \<Rightarrow> audit_env) \<Rightarrow> json \<Rightarrow> audit_state \<Rightarrow> (audit_error + audit_entry) \<times> audit_state" where
  "recordHeld cx W entry st =
    (if as_depth st = 0 then (Inl LockNotHeld, st)
     else (case prepare (W (as_step st)) entry of
             Inl e \<Rightarrow> (Inl e, st)
           | Inr p \<Rightarrow> (case appendUnderLock cx W p st of (r, st') \<Rightarrow> (r, fan_out r st'))))"

definition assertRecordable ::
  "(nat \<Rightarrow> audit_env) \<Rightarrow> json \<Rightarrow> audit_state \<Rightarrow> (audit_error + unit) \<times> audit_state" where
  "assertRecordable W entry st =
    (let E = W (as_step st) in
     case prepare E entry of
       Inl e \<Rightarrow> (Inl e, st)
     | Inr _ \<Rightarrow>
         (case resolveAuditChainKey (ae_key_env E) (ae_key_creation E) True (ad_key (as_disk st)) of
            (key, keyFile) \<Rightarrow>
              (case key of Inl e \<Rightarrow> Inl e | Inr None \<Rightarrow> Inl MissingKey | Inr (Some _) \<Rightarrow> Inr (),
               st\<lparr>as_disk := (as_disk st)\<lparr>ad_key := keyFile\<rparr>\<rparr>)))"

text \<open>The calls of a program: a locked section runs its calls in order up to the first error, which a
  \<open>CallTry\<close> keeps from spreading.\<close>

datatype audit_call = CallRecord json | CallDeferrable json | CallHeld json | CallAssert json
  | CallLocked "audit_call list" | CallTry audit_call

fun run_call :: "codec \<Rightarrow> (nat \<Rightarrow> audit_env) \<Rightarrow> audit_call \<Rightarrow> audit_state \<Rightarrow> (audit_error + unit) \<times> audit_state"
  and run_calls :: "codec \<Rightarrow> (nat \<Rightarrow> audit_env) \<Rightarrow> audit_call list \<Rightarrow> audit_state \<Rightarrow> (audit_error + unit) \<times> audit_state" where
  "run_call cx W (CallRecord entry) st = (case record_entry cx W entry st of (r, st') \<Rightarrow> (map_sum id (\<lambda>_. ()) r, st'))"
| "run_call cx W (CallDeferrable entry) st = (case recordDeferrable cx W entry st of (r, st') \<Rightarrow> (map_sum id (\<lambda>_. ()) r, st'))"
| "run_call cx W (CallHeld entry) st = (case recordHeld cx W entry st of (r, st') \<Rightarrow> (map_sum id (\<lambda>_. ()) r, st'))"
| "run_call cx W (CallAssert entry) st = assertRecordable W entry st"
| "run_call cx W (CallLocked cs) st = withAuditChainLock cx W (\<lambda>s. run_calls cx W cs s) st"
| "run_call cx W (CallTry c) st = (case run_call cx W c st of (_, st') \<Rightarrow> (Inr (), st'))"
| "run_calls cx W [] st = (Inr (), st)"
| "run_calls cx W (c # cs) st =
    (case run_call cx W c st of (Inl e, st') \<Rightarrow> (Inl e, st') | (Inr _, st') \<Rightarrow> run_calls cx W cs st')"

section \<open>The records the chain offers to make\<close>

definition policy_decision_entry :: "string \<Rightarrow> string \<Rightarrow> audit_result \<Rightarrow> string option \<Rightarrow> string option \<Rightarrow> json" where
  "policy_decision_entry agent operation result policyName message =
    JObj [(''agentId'', JStr agent), (''action'', JStr ''policy_evaluation''), (''operation'', JStr operation),
      (''result'', JStr (result_name result)), (''reason'', field_json message),
      (''metadata'', JObj [(''policy'', field_json policyName)])]"

definition lifecycle_entry :: "string \<Rightarrow> string \<Rightarrow> json" where
  "lifecycle_entry agent event =
    JObj [(''agentId'', JStr agent), (''action'', JStr ''lifecycle''), (''operation'', JStr event),
      (''result'', JStr (if event = ''error'' then ''error'' else ''completed''))]"

definition trust_change_entry :: "string \<Rightarrow> rat \<Rightarrow> rat \<Rightarrow> string \<Rightarrow> json" where
  "trust_change_entry agent oldScore newScore reason =
    JObj [(''agentId'', JStr agent), (''action'', JStr ''trust_update''), (''operation'', JStr ''score_change''),
      (''result'', JStr (if oldScore \<le> newScore then ''completed'' else ''failed'')), (''reason'', JStr reason),
      (''metadata'', JObj [(''oldScore'', JNum oldScore), (''newScore'', JNum newScore),
        (''delta'', JNum (newScore - oldScore))])]"

end
