(* ===== verification/Audit_Verify.thy ===== *)
theory Audit_Verify
  imports Audit_Chain
begin

text \<open>
  The audit trail, third part: its readers (\<open>verify\<close>, \<open>verifyTenantMirrors\<close>, \<open>loadAll\<close>
  and \<open>loadForScope\<close> of \<open>AuditChainImpl\<close>). A reader walks the daily files in the order of
  their dates and reports what it finds wrong, never skipping a line in silence. \<open>read\<close> says for
  every file how reading it ends, \<open>key\<close> is the chain key in force.
\<close>

section \<open>Days\<close>

definition leap_year :: "nat \<Rightarrow> bool" where
  "leap_year y \<longleftrightarrow> y mod 4 = 0 \<and> (y mod 100 \<noteq> 0 \<or> y mod 400 = 0)"

definition days_in_month :: "nat \<Rightarrow> nat \<Rightarrow> nat" where
  "days_in_month y m = (if m = 2 then (if leap_year y then 29 else 28) else if m \<in> {4, 6, 9, 11} then 30 else 31)"

definition two_digits :: "nat \<Rightarrow> string" where
  "two_digits n = [digit_char (n div 10), digit_char (n mod 10)]"

definition iso_day :: "nat \<Rightarrow> nat \<Rightarrow> nat \<Rightarrow> string" where
  "iso_day y m d = (if 9999 < y then ''+010000-01'' else two_digits (y div 100) @ two_digits (y mod 100) @ ''-'' @ two_digits m @ ''-'' @ two_digits d)"

text \<open>A date that is no day at all (month 13, day 40) lets every date follow; a day past the end of its month counts
  into the next month, as the date parser of the platform has it.\<close>

definition isNextUtcDay :: "string \<Rightarrow> string \<Rightarrow> bool" where
  "isNextUtcDay previous current =
    (let y = digits_value (take 4 previous); m = digits_value (take 2 (drop 5 previous)); d = digits_value (drop 8 previous)
     in if m = 0 \<or> 12 < m \<or> d = 0 \<or> 31 < d then True
        else
          (let over = days_in_month y m < d;
               m1 = (if over then m + 1 else m); d1 = (if over then d - days_in_month y m else d);
               lastDay = (d1 = days_in_month y m1);
               m2 = (if lastDay then (if m1 = 12 then 1 else m1 + 1) else m1); d2 = (if lastDay then 1 else d1 + 1);
               y2 = (if lastDay \<and> m1 = 12 then y + 1 else y)
           in iso_day y2 m2 d2 = current))"

section \<open>Reading a file\<close>

record file_read =
  fr_entries :: "audit_entry list"
  fr_invalid :: "nat list"
  fr_unreadable :: bool

definition readAuditFileForVerify :: "codec \<Rightarrow> (string \<Rightarrow> read_attempt) \<Rightarrow> daily_files \<Rightarrow> string \<Rightarrow> file_read" where
  "readAuditFileForVerify cx read fs name =
    (if map_of fs name = None \<or> read name = ReadGone then \<lparr>fr_entries = [], fr_invalid = [], fr_unreadable = False\<rparr>
     else if read name \<noteq> ReadOk then \<lparr>fr_entries = [], fr_invalid = [], fr_unreadable = True\<rparr>
     else (case streamJsonLines (cx_chunk cx) (cx_maxLine cx) (cx_parse cx) entry_of PolicyNote (file_bytes fs name) of
             Inl _ \<Rightarrow> \<lparr>fr_entries = [], fr_invalid = [], fr_unreadable = True\<rparr>
           | Inr (es, bad) \<Rightarrow> \<lparr>fr_entries = es, fr_invalid = bad, fr_unreadable = False\<rparr>))"

datatype finding = FGap string string | FUnreadable string | FInvalidLine string nat
  | FAlg string alg_finding "hash_check option" | FEntry string

definition readFindings :: "string \<Rightarrow> file_read \<Rightarrow> finding list" where
  "readFindings name r =
    (if fr_unreadable r then [FUnreadable name] else []) @ map (FInvalidLine name) (fr_invalid r)"

definition loadEntriesFromFiles :: "codec \<Rightarrow> (string \<Rightarrow> read_attempt) \<Rightarrow> daily_files \<Rightarrow> string list \<Rightarrow> audit_entry list" where
  "loadEntriesFromFiles cx read fs names = concat (map (\<lambda>n. fr_entries (readAuditFileForVerify cx read fs n)) names)"

definition loadAll :: "codec \<Rightarrow> (string \<Rightarrow> read_attempt) \<Rightarrow> audit_disk \<Rightarrow> audit_entry list" where
  "loadAll cx read d = loadEntriesFromFiles cx read (ad_files d) (daily_names (ad_files d))"

section \<open>Verifying the chain\<close>

record verify_state =
  vs_corrupted :: "finding list"
  vs_prev :: string
  vs_date :: "string option"
  vs_total :: nat
  vs_invalid :: nat
  vs_tracker :: alg_tracker

definition verify_init :: verify_state where
  "verify_init = \<lparr>vs_corrupted = [], vs_prev = GENESIS_HASH, vs_date = None, vs_total = 0, vs_invalid = 0,
    vs_tracker = createChainAlgTracker\<rparr>"

text \<open>One record: its algorithm against the tracker, its hash against the previous one.\<close>

definition verify_entry ::
  "codec \<Rightarrow> string option \<Rightarrow> bool \<Rightarrow> bool \<Rightarrow> audit_entry \<Rightarrow> verify_state \<Rightarrow> verify_state" where
  "verify_entry cx key requireKeyed boundaryLimited e vs =
    (let prev = (if boundaryLimited \<and> vs_prev vs = GENESIS_HASH \<and> au_previous e \<noteq> GENESIS_HASH
                 then au_previous e else vs_prev vs);
         alg = (case au_alg e of None \<Rightarrow> Sha256 | Some a \<Rightarrow> a);
         (algFinding, tracker) = tracker_observe requireKeyed alg (vs_tracker vs);
         check = verifyAuditEntryHash cx alg (if alg = HmacSha256 then key else None) e prev
     in vs\<lparr>vs_corrupted := vs_corrupted vs @
             (case algFinding of
                Some f \<Rightarrow> [FAlg (au_id e) f (if check = HashOk then None else Some check)]
              | None \<Rightarrow> if check = HashOk then [] else [FEntry (au_id e)]),
           vs_invalid := vs_invalid vs + (if check \<noteq> HashOk \<or> algFinding \<noteq> None then 1 else 0),
           vs_prev := au_current e, vs_tracker := tracker\<rparr>)"

text \<open>One file: the gap before its day, its unreadable lines, then its records.\<close>

definition verify_file ::
  "codec \<Rightarrow> string option \<Rightarrow> bool \<Rightarrow> bool \<Rightarrow> (string \<Rightarrow> read_attempt) \<Rightarrow> daily_files \<Rightarrow> string \<Rightarrow> verify_state \<Rightarrow> verify_state" where
  "verify_file cx key requireKeyed boundaryLimited read fs name vs =
    (let date = extractAuditDate name; r = readAuditFileForVerify cx read fs name;
         gap = (case (date, vs_date vs) of
                  (Some d, Some p) \<Rightarrow> if isNextUtcDay p d then [] else [FGap p d] | _ \<Rightarrow> [])
     in fold (verify_entry cx key requireKeyed boundaryLimited) (fr_entries r)
          (vs\<lparr>vs_corrupted := vs_corrupted vs @ gap @ readFindings name r,
              vs_date := (if date = None then vs_date vs else date),
              vs_total := vs_total vs + length (fr_entries r) + length (fr_invalid r),
              vs_invalid := vs_invalid vs + length (fr_invalid r)\<rparr>))"

record verify_result =
  vr_valid :: int
  vr_corrupted :: "finding list"
  vr_total :: nat
  vr_checked :: "string list"
  vr_boundary_limited :: bool
  vr_unkeyed :: nat

text \<open>The files before a window, from the newest back: the last record before the window is its boundary, and any
  keyed record before it makes the chain keyed.\<close>

fun boundary_scan ::
  "codec \<Rightarrow> (string \<Rightarrow> read_attempt) \<Rightarrow> daily_files \<Rightarrow> string list \<Rightarrow> audit_entry option \<Rightarrow> verify_state \<Rightarrow>
    audit_entry option \<times> verify_state" where
  "boundary_scan cx read fs [] boundary vs = (boundary, vs)"
| "boundary_scan cx read fs (name # older) boundary vs =
    (let r = readAuditFileForVerify cx read fs name;
         newest = (if fr_entries r = [] then None else Some (last (fr_entries r)));
         (boundary', vs1) =
           (if boundary = None
            then (newest, vs\<lparr>vs_corrupted := vs_corrupted vs @ readFindings name r,
                    vs_date := (if newest \<noteq> None then extractAuditDate name else vs_date vs)\<rparr>)
            else (boundary, vs));
         keyed = (\<exists>e \<in> set (fr_entries r). au_alg e = Some HmacSha256);
         vs2 = (if keyed then vs1\<lparr>vs_tracker := tracker_seed (Some HmacSha256) (vs_tracker vs1)\<rparr> else vs1)
     in if boundary' \<noteq> None \<and> keyed then (boundary', vs2) else boundary_scan cx read fs older boundary' vs2)"

definition in_window :: "string option \<Rightarrow> string \<Rightarrow> bool" where
  "in_window since name =
    (case (since, extractAuditDate name) of (Some s, Some d) \<Rightarrow> s = [] \<or> s \<le> d | _ \<Rightarrow> True)"

definition verify_chain ::
  "codec \<Rightarrow> string option \<Rightarrow> (string \<Rightarrow> read_attempt) \<Rightarrow> string option \<Rightarrow> bool \<Rightarrow> audit_disk \<Rightarrow> verify_result" where
  "verify_chain cx key read since requireKeyed d =
    (let fs = ad_files d; allFiles = daily_names fs; names = filter (in_window since) allFiles;
         before = filter (\<lambda>n. \<not> in_window since n) allFiles;
         (boundary, vs1) = (if truthy_opt since then boundary_scan cx read fs (rev before) None verify_init
                            else (None, verify_init));
         limited = (truthy_opt since \<and> boundary = None \<and> before \<noteq> []);
         vs2 = (case boundary of None \<Rightarrow> vs1 | Some b \<Rightarrow> vs1\<lparr>vs_prev := au_current b\<rparr>);
         vs = fold (verify_file cx key requireKeyed limited read fs) names vs2
     in \<lparr>vr_valid = int (vs_total vs) - int (vs_invalid vs), vr_corrupted = vs_corrupted vs, vr_total = vs_total vs,
         vr_checked = names, vr_boundary_limited = limited, vr_unkeyed = tk_unkeyed (vs_tracker vs)\<rparr>)"

section \<open>Verifying the mirrors\<close>

datatype mirror_finding = MRootUnsafe | MUnsafe string | MFileUnsafe string string | MUnreadable string finding
  | MCount string nat nat | MHash string string

definition same_record :: "audit_entry \<Rightarrow> audit_entry \<Rightarrow> bool" where
  "same_record a b \<longleftrightarrow> au_id a = au_id b \<and> au_current a = au_current b"

definition mirror_findings ::
  "codec \<Rightarrow> (string \<Rightarrow> string \<Rightarrow> read_attempt) \<Rightarrow> (audit_path \<Rightarrow> bool) \<Rightarrow> audit_disk \<Rightarrow> audit_entry list \<Rightarrow> string \<Rightarrow>
    mirror_finding list" where
  "mirror_findings cx read safe d masters slug =
    (if \<not> isValidTenantSlug slug then []
     else if \<not> safe (MirrorDir slug) then [MUnsafe slug]
     else (case map_of (ad_mirrors d) slug of
             None \<Rightarrow> []
           | Some fs \<Rightarrow>
               (let names = daily_names fs;
                    reads = map (\<lambda>n. (n, readAuditFileForVerify cx (read slug) fs n))
                              (filter (\<lambda>n. safe (MirrorFile slug n)) names);
                    mirrorEntries = concat (map (\<lambda>(n, r). fr_entries r) reads);
                    masterSet = filter (\<lambda>e. au_tenant e = Some slug) masters
                in concat (map (\<lambda>n. if safe (MirrorFile slug n)
                      then map (MUnreadable slug) (readFindings n (readAuditFileForVerify cx (read slug) fs n))
                      else [MFileUnsafe slug n]) names) @
                   (if length mirrorEntries \<noteq> length masterSet
                    then [MCount slug (length masterSet) (length mirrorEntries)]
                    else (case List.find (\<lambda>(a, b). \<not> same_record a b) (zip masterSet mirrorEntries) of
                            None \<Rightarrow> [] | Some (a, b) \<Rightarrow> [MHash slug (au_id a)])))))"

definition verifyTenantMirrors ::
  "codec \<Rightarrow> (string \<Rightarrow> read_attempt) \<Rightarrow> (string \<Rightarrow> string \<Rightarrow> read_attempt) \<Rightarrow> (audit_path \<Rightarrow> bool) \<Rightarrow> audit_disk \<Rightarrow>
    bool \<times> mirror_finding list" where
  "verifyTenantMirrors cx read readMirror safe d =
    (let masters = loadAll cx read d;
         slugs = js_dedup [t. Some t \<leftarrow> map au_tenant masters];
         findings = (if \<not> safe MirrorRoot then [MRootUnsafe]
                     else concat (map (mirror_findings cx readMirror safe d masters) slugs))
     in (findings = [], findings))"

section \<open>Reading one scope\<close>

definition scopeForAuditEntry :: "(rat \<Rightarrow> string) \<Rightarrow> string option \<Rightarrow> audit_entry \<Rightarrow> record_scope" where
  "scopeForAuditEntry num envTier e =
    (case parseEventScopeFromRecord num (entry_json e) of
       InvalidScope \<Rightarrow> InvalidScope
     | RecordScope s \<Rightarrow> RecordScope s
     | NoScope \<Rightarrow>
         if au_scope e \<noteq> None then NoScope
         else (case au_tenant e of
                 Some t \<Rightarrow>
                   if isValidTenantSlug t
                   then (case resolveAuditScope envTier JUndef (Some t) of None \<Rightarrow> NoScope | Some s \<Rightarrow> RecordScope s)
                   else NoScope
               | None \<Rightarrow> NoScope))"

definition visible_to :: "(rat \<Rightarrow> string) \<Rightarrow> string option \<Rightarrow> scope_filter \<Rightarrow> audit_entry \<Rightarrow> bool" where
  "visible_to num envTier f e =
    (case scopeForAuditEntry num envTier e of
       InvalidScope \<Rightarrow> False
     | NoScope \<Rightarrow> eventScopeMatches None f
     | RecordScope s \<Rightarrow> eventScopeMatches (Some s) f)"

definition loadForScope ::
  "codec \<Rightarrow> (string \<Rightarrow> read_attempt) \<Rightarrow> (rat \<Rightarrow> string) \<Rightarrow> string option \<Rightarrow> scope_filter \<Rightarrow> audit_disk \<Rightarrow> audit_entry list" where
  "loadForScope cx read num envTier f d = filter (visible_to num envTier f) (loadAll cx read d)"

end
