(* ===== verification/Audit_Entry_Props.thy ===== *)
theory Audit_Entry_Props
  imports Audit_Verify
begin

text \<open>
  Facts about single audit records: what the check of a persisted record accepts, that a record written to the disk
  is read back the same, and that its hash survives the way through the disk.
\<close>

section \<open>The check as one statement\<close>

definition nonblank :: "string \<Rightarrow> bool" where
  "nonblank s \<longleftrightarrow> js_trim s \<noteq> []"

definition string_field :: "json \<Rightarrow> string \<Rightarrow> string \<Rightarrow> bool" where
  "string_field v key s \<longleftrightarrow> jget v key = JStr s \<and> nonblank s"

definition optional_field :: "json \<Rightarrow> string \<Rightarrow> string option \<Rightarrow> bool" where
  "optional_field v key x \<longleftrightarrow> (case x of None \<Rightarrow> jnullish (jget v key) | Some s \<Rightarrow> string_field v key s)"

definition object_field :: "json \<Rightarrow> string \<Rightarrow> json option \<Rightarrow> bool" where
  "object_field v key x \<longleftrightarrow> (case x of None \<Rightarrow> jget v key = JUndef | Some y \<Rightarrow> jget v key = y \<and> is_plain_object y)"

lemma persisted_string_Inr: "persisted_string v key k = Inr r \<longleftrightarrow> (\<exists>s. string_field v key s \<and> k s = Inr r)"
  by (auto simp: persisted_string_def string_field_def nonblank_def split: json.splits)

lemma persisted_optional_Inr: "persisted_optional v key k = Inr r \<longleftrightarrow> (\<exists>x. optional_field v key x \<and> k x = Inr r)"
proof (cases "jnullish (jget v key)")
  case True
  then have "\<not> string_field v key s" for s by (auto simp: string_field_def jnullish_def)
  then show ?thesis using True by (auto simp: persisted_optional_def optional_field_def split: option.splits)
next
  case False
  then show ?thesis
    by (auto simp: persisted_optional_def optional_field_def persisted_string_Inr split: option.splits)
qed

lemma optional_object_Inr: "optional_object v key k = Inr r \<longleftrightarrow> (\<exists>x. object_field v key x \<and> k x = Inr r)"
proof -
  have "\<not> is_plain_object JUndef" by (simp add: is_plain_object_def)
  then show ?thesis by (auto simp: optional_object_def object_field_def split_option_ex)
qed

definition alg_field :: "json \<Rightarrow> chain_alg option \<Rightarrow> bool" where
  "alg_field v x \<longleftrightarrow> (case x of None \<Rightarrow> jget v ''chain_alg'' = JUndef | Some a \<Rightarrow> jget v ''chain_alg'' = JStr (alg_name a))"

lemma map_of_ALGS: "map_of ALGS s = Some a \<longleftrightarrow> s = alg_name a"
  by (cases a) (auto simp: ALGS_def alg_name_def)

lemma map_of_RESULTS: "map_of RESULTS s = Some a \<longleftrightarrow> s = result_name a"
  by (cases a) (auto simp: RESULTS_def result_name_def)

lemma normalize_result: "(case jget v ''result'' of JStr s \<Rightarrow> map_of RESULTS s | _ \<Rightarrow> None) = Some a \<longleftrightarrow>
    jget v ''result'' = JStr (result_name a)"
  by (auto simp: map_of_RESULTS split: json.splits)

lemma normalize_alg: "(\<not> (jget v ''chain_alg'' \<noteq> JUndef \<and>
      (case jget v ''chain_alg'' of JStr s \<Rightarrow> map_of ALGS s | _ \<Rightarrow> None) = None) \<and>
      x = (case jget v ''chain_alg'' of JStr s \<Rightarrow> map_of ALGS s | _ \<Rightarrow> None)) \<longleftrightarrow> alg_field v x"
proof -
  define A where "A = (case jget v ''chain_alg'' of JStr s \<Rightarrow> map_of ALGS s | _ \<Rightarrow> None)"
  have some: "A = Some a \<longleftrightarrow> jget v ''chain_alg'' = JStr (alg_name a)" for a
    by (auto simp: A_def map_of_ALGS split: json.splits)
  have undef: "jget v ''chain_alg'' = JUndef \<Longrightarrow> A = None" by (simp add: A_def)
  show ?thesis using undef
    by (fold A_def) (cases x; cases A; auto simp: alg_field_def some [symmetric])
qed

text \<open>What a record that was accepted is, field by field.\<close>

definition accepts :: "json \<Rightarrow> audit_entry \<Rightarrow> bool" where
  "accepts v e \<longleftrightarrow> is_plain_object v \<and>
    string_field v ''id'' (au_id e) \<and> string_field v ''timestamp'' (au_timestamp e) \<and>
    string_field v ''agentId'' (au_agent e) \<and> string_field v ''action'' (au_action e) \<and>
    string_field v ''operation'' (au_operation e) \<and> string_field v ''previousHash'' (au_previous e) \<and>
    string_field v ''currentHash'' (au_current e) \<and> jget v ''result'' = JStr (result_name (au_result e)) \<and>
    optional_field v ''reason'' (au_reason e) \<and> optional_field v ''correlationId'' (au_correlation e) \<and>
    optional_field v ''tenantSlug'' (au_tenant e) \<and> optional_field v ''chain_key_id'' (au_key_id e) \<and>
    object_field v ''metadata'' (au_metadata e) \<and> object_field v ''compliance'' (au_compliance e) \<and>
    compliance_ok (au_compliance e) = None \<and> object_field v ''scope'' (au_scope e) \<and>
    au_actor e = parseActorRef (jget v ''actor'') \<and> alg_field v (au_alg e)"

lemma normalize_accepts: "normalizePersistedAuditEntry v = Inr e \<longleftrightarrow> accepts v e"
proof -
  have opt: "(case x of None \<Rightarrow> Inl err | Some a \<Rightarrow> g a) = Inr e \<longleftrightarrow> (\<exists>a. x = Some a \<and> g a = Inr e)"
    for x :: "audit_result option" and err g
    by (cases x) auto
  have opt': "(case x of None \<Rightarrow> g | Some err \<Rightarrow> Inl err) = Inr e \<longleftrightarrow> x = None \<and> g = Inr e"
    for x :: "audit_error option" and g
    by (cases x) auto
  have fin: "(let alg = a in if c \<and> alg = None then Inl err else Inr (f alg)) = Inr e \<longleftrightarrow>
      (\<exists>alg. (\<not> (c \<and> a = None) \<and> alg = a) \<and> e = f alg)" for a :: "chain_alg option" and c err f
    by auto
  show ?thesis
  proof (cases "is_plain_object v")
    case True
    then have "normalizePersistedAuditEntry v = Inr e \<longleftrightarrow> (\<exists>i ts agent action operation previous current result reason correlation
        tenant keyId metadata compliance scope alg.
        string_field v ''id'' i \<and> string_field v ''timestamp'' ts \<and> string_field v ''agentId'' agent \<and>
        string_field v ''action'' action \<and> string_field v ''operation'' operation \<and>
        string_field v ''previousHash'' previous \<and> string_field v ''currentHash'' current \<and>
        jget v ''result'' = JStr (result_name result) \<and> optional_field v ''reason'' reason \<and>
        optional_field v ''correlationId'' correlation \<and> optional_field v ''tenantSlug'' tenant \<and>
        optional_field v ''chain_key_id'' keyId \<and> object_field v ''metadata'' metadata \<and>
        object_field v ''compliance'' compliance \<and> compliance_ok compliance = None \<and> object_field v ''scope'' scope \<and>
        alg_field v alg \<and>
        e = \<lparr>au_id = i, au_timestamp = ts, au_agent = agent, au_action = action, au_operation = operation,
              au_result = result, au_reason = reason, au_correlation = correlation, au_metadata = metadata,
              au_compliance = compliance, au_tenant = tenant, au_scope = scope,
              au_actor = parseActorRef (jget v ''actor''), au_alg = alg, au_key_id = keyId, au_previous = previous,
              au_current = current\<rparr>)"
      unfolding normalizePersistedAuditEntry_def
      by (simp only: not_True_eq_False if_False persisted_string_Inr persisted_optional_Inr optional_object_Inr
          opt opt' fin normalize_result normalize_alg) blast
    also have "\<dots> \<longleftrightarrow> accepts v e"
      using True by (cases e) (simp add: accepts_def, blast)
    finally show ?thesis .
  next
    case False
    then show ?thesis by (simp add: normalizePersistedAuditEntry_def accepts_def)
  qed
qed

section \<open>A record on the disk\<close>

lemma map_of_opt_json [simp]: "map_of (opt_json k v) k' = (if k' = k then v else None)"
  by (simp add: opt_json_def split: option.split)

definition object_json :: "json option \<Rightarrow> json" where
  "object_json v = (case v of None \<Rightarrow> JUndef | Some x \<Rightarrow> x)"

lemma jget_entry_json [simp]:
  "jget (entry_json e) ''id'' = JStr (au_id e)" "jget (entry_json e) ''timestamp'' = JStr (au_timestamp e)"
  "jget (entry_json e) ''agentId'' = JStr (au_agent e)" "jget (entry_json e) ''action'' = JStr (au_action e)"
  "jget (entry_json e) ''operation'' = JStr (au_operation e)"
  "jget (entry_json e) ''result'' = JStr (result_name (au_result e))"
  "jget (entry_json e) ''reason'' = field_json (au_reason e)"
  "jget (entry_json e) ''correlationId'' = field_json (au_correlation e)"
  "jget (entry_json e) ''metadata'' = object_json (au_metadata e)"
  "jget (entry_json e) ''compliance'' = object_json (au_compliance e)"
  "jget (entry_json e) ''tenantSlug'' = field_json (au_tenant e)"
  "jget (entry_json e) ''scope'' = object_json (au_scope e)"
  "jget (entry_json e) ''actor'' = object_json (au_actor e)"
  "jget (entry_json e) ''chain_alg'' = field_json (map_option alg_name (au_alg e))"
  "jget (entry_json e) ''chain_key_id'' = field_json (au_key_id e)"
  "jget (entry_json e) ''previousHash'' = JStr (au_previous e)"
  "jget (entry_json e) ''currentHash'' = JStr (au_current e)"
  by (simp_all add: entry_json_def jget_JObj map_add_def field_json_def object_json_def split: option.split)

text \<open>A record the check can have produced.\<close>

definition entry_wf :: "audit_entry \<Rightarrow> bool" where
  "entry_wf e \<longleftrightarrow> list_all nonblank [au_id e, au_timestamp e, au_agent e, au_action e, au_operation e, au_previous e, au_current e] \<and>
    list_all (\<lambda>x. \<forall>s \<in> set_option x. nonblank s) [au_reason e, au_correlation e, au_tenant e, au_key_id e] \<and>
    list_all (\<lambda>x. \<forall>v \<in> set_option x. is_plain_object v) [au_metadata e, au_compliance e, au_scope e] \<and>
    compliance_ok (au_compliance e) = None \<and> (\<forall>a \<in> set_option (au_actor e). parseActorRef a = Some a)"

lemma parseActorRef_again: "parseActorRef v = Some a \<Longrightarrow> parseActorRef a = Some a"
proof -
  assume p: "parseActorRef v = Some a"
  from p obtain kind i where k: "js_trim i \<noteq> []" "actor_id_ok kind (js_trim i)"
    and a: "a = JObj ([(''kind'', JStr kind), (''id'', JStr (js_trim i))] @
        opt_field ''display_name'' (clean (jget v ''display_name'')) @ opt_field ''on_behalf_of'' (clean (jget v ''on_behalf_of'')))"
    by (auto simp: parseActorRef_def split: json.splits if_splits)
  have "clean (field_json (clean w)) = clean w" for w
    using trimmed_clean [of w] by (simp add: trimmed_field_def)
  moreover have "jget a ''display_name'' = field_json (clean (jget v ''display_name''))"
    "jget a ''on_behalf_of'' = field_json (clean (jget v ''on_behalf_of''))" "jget a ''kind'' = JStr kind" "jget a ''id'' = JStr (js_trim i)"
    by (simp_all add: a jget_JObj map_add_def field_json_def split: option.split)
  ultimately show ?thesis using k by (simp add: parseActorRef_def a)
qed

lemma string_field_nonblank: "string_field v k s \<Longrightarrow> nonblank s"
  by (simp add: string_field_def)

lemma optional_field_nonblank: "optional_field v k x \<Longrightarrow> \<forall>s \<in> set_option x. nonblank s"
  by (cases x) (simp_all add: optional_field_def string_field_def)

lemma object_field_plain: "object_field v k x \<Longrightarrow> \<forall>y \<in> set_option x. is_plain_object y"
  by (cases x) (simp_all add: object_field_def)

lemma accepts_wf:
  assumes "accepts v e"
  shows "entry_wf e"
proof -
  note a = assms [unfolded accepts_def]
  have "\<forall>x \<in> set_option (au_actor e). parseActorRef x = Some x"
    using a parseActorRef_again [of "jget v ''actor''"] by (cases "au_actor e") simp_all
  moreover have "nonblank (au_id e)" "nonblank (au_timestamp e)" "nonblank (au_agent e)" "nonblank (au_action e)"
      "nonblank (au_operation e)" "nonblank (au_previous e)" "nonblank (au_current e)"
    using a string_field_nonblank by blast+
  moreover have "\<forall>s \<in> set_option (au_reason e). nonblank s" "\<forall>s \<in> set_option (au_correlation e). nonblank s"
      "\<forall>s \<in> set_option (au_tenant e). nonblank s" "\<forall>s \<in> set_option (au_key_id e). nonblank s"
    using a optional_field_nonblank by blast+
  moreover have "\<forall>y \<in> set_option (au_metadata e). is_plain_object y" "\<forall>y \<in> set_option (au_compliance e). is_plain_object y"
      "\<forall>y \<in> set_option (au_scope e). is_plain_object y"
    using a object_field_plain by blast+
  ultimately show ?thesis using a by (simp only: entry_wf_def list.pred_inject simp_thms)
qed

lemma string_field_JStr: "jget v k = JStr s \<Longrightarrow> string_field v k s = nonblank s"
  by (simp add: string_field_def)

lemma optional_field_json: "jget v k = field_json x \<Longrightarrow> optional_field v k x = (\<forall>s \<in> set_option x. nonblank s)"
  by (cases x) (simp_all add: optional_field_def string_field_def jnullish_def)

lemma object_field_json: "jget v k = object_json x \<Longrightarrow> object_field v k x = (\<forall>y \<in> set_option x. is_plain_object y)"
  by (cases x) (simp_all add: object_field_def object_json_def)

lemma actor_undefined: "parseActorRef JUndef = None"
  by (simp add: parseActorRef_def jget_def)

lemma alg_field_json: "jget v ''chain_alg'' = field_json (map_option alg_name x) \<Longrightarrow> alg_field v x"
  by (cases x) (simp_all add: alg_field_def)

lemma wf_accepts:
  assumes "entry_wf e"
  shows "accepts (entry_json e) e"
proof -
  have "is_plain_object (entry_json e)" by (simp add: is_plain_object_def entry_json_def)
  moreover have "parseActorRef (object_json (au_actor e)) = au_actor e"
    using assms actor_undefined by (cases "au_actor e") (simp_all add: entry_wf_def object_json_def)
  ultimately show ?thesis
    using assms
    by (simp add: accepts_def string_field_JStr optional_field_json object_field_json alg_field_json entry_wf_def)
qed

text \<open>The record that reading its line gives back: the objects in it without their undefined members.\<close>

definition persisted :: "audit_entry \<Rightarrow> audit_entry" where
  "persisted e = e\<lparr>au_metadata := map_option json_persist (au_metadata e),
    au_compliance := map_option json_persist (au_compliance e), au_scope := map_option json_persist (au_scope e)\<rparr>"

lemma json_persist_undefined [simp]: "json_persist v = JUndef \<longleftrightarrow> v = JUndef"
  by (cases v) simp_all

lemma json_persist_plain [simp]: "is_plain_object (json_persist v) = is_plain_object v"
  by (cases v) (simp_all add: is_plain_object_def)

lemma json_persist_idem [simp]: "json_persist (json_persist v) = json_persist v"
proof (induction v rule: json_persist.induct)
  case (1 vs)
  then show ?case by (auto intro!: map_cong)
next
  case (2 kvs)
  have "map (\<lambda>(k, v). (k, json_persist v)) (filter (\<lambda>(k, v). v \<noteq> JUndef) (map (\<lambda>(k, v). (k, json_persist v)) kvs)) =
      filter (\<lambda>(k, v). v \<noteq> JUndef) (map (\<lambda>(k, v). (k, json_persist v)) kvs)"
    using 2 by (intro map_idI) auto
  then show ?case by (simp add: filter_id_conv)
qed simp_all

lemma jget_json_persist_string: "jget v k = JStr s \<Longrightarrow> jget (json_persist v) k = JStr s"
proof (cases v)
  case (JObj kvs)
  show "jget v k = JStr s \<Longrightarrow> jget (json_persist v) k = JStr s"
    unfolding JObj jget_JObj json_persist.simps
    by (induction kvs) (auto split: if_splits option.splits)
qed (simp_all add: jget_def)

lemma compliance_ok_iff:
  "compliance_ok c = None \<longleftrightarrow>
    (\<forall>v \<in> set_option c. \<exists>a b. string_field v ''framework'' a \<and> string_field v ''control'' b)"
proof (cases c)
  case (Some v)
  have "(case r of Inl e \<Rightarrow> Some e | Inr u \<Rightarrow> None) = None \<longleftrightarrow> r = Inr ()" for r :: "audit_error + unit"
    by (cases r) simp_all
  then show ?thesis by (simp add: Some compliance_ok_def persisted_string_Inr)
qed (simp add: compliance_ok_def)

lemma compliance_persist: "compliance_ok c = None \<Longrightarrow> compliance_ok (map_option json_persist c) = None"
proof (cases c)
  case (Some v)
  assume "compliance_ok c = None"
  then obtain a b where "jget v ''framework'' = JStr a" "nonblank a" "jget v ''control'' = JStr b" "nonblank b"
    by (auto simp: Some compliance_ok_iff string_field_def)
  then show ?thesis by (auto simp: Some compliance_ok_iff string_field_def jget_json_persist_string)
qed (simp add: compliance_ok_def)

lemma persisted_wf: "entry_wf e \<Longrightarrow> entry_wf (persisted e)"
  by (simp add: entry_wf_def persisted_def option.set_map compliance_persist)

lemma actor_persist:
  assumes "parseActorRef v = Some a"
  shows "json_persist a = a"
proof -
  have "map (\<lambda>(k, v). (k, json_persist v)) (opt_field k x) = opt_field k x"
    "filter (\<lambda>(k, v). v \<noteq> JUndef) (opt_field k x) = opt_field k x" for k x
    by (simp_all add: opt_field_def split: option.split)
  then show ?thesis using assms by (auto simp: parseActorRef_def split: json.splits if_splits)
qed

lemma json_persist_entry:
  assumes "entry_wf e"
  shows "json_persist (entry_json e) = entry_json (persisted e)"
proof -
  have f: "map (\<lambda>(k, v). (k, json_persist v)) (opt_field k x) = opt_field k x"
    "filter (\<lambda>(k, v). v \<noteq> JUndef) (opt_field k x) = opt_field k x" for k x
    by (simp_all add: opt_field_def split: option.split)
  have o: "filter (\<lambda>(k, v). v \<noteq> JUndef) (map (\<lambda>(k, v). (k, json_persist v)) (opt_json k x)) = opt_json k (map_option json_persist x)"
    if "\<forall>y \<in> set_option x. is_plain_object y" for k x
    using that by (cases x) (auto simp: opt_json_def is_plain_object_def)
  have a: "filter (\<lambda>(k, v). v \<noteq> JUndef) (map (\<lambda>(k, v). (k, json_persist v)) (opt_json k (au_actor e))) = opt_json k (au_actor e)" for k
  proof (cases "au_actor e")
    case (Some x)
    then have p: "parseActorRef x = Some x" using assms by (simp add: entry_wf_def)
    then have "x \<noteq> JUndef" by (auto simp: parseActorRef_def jget_def)
    then show ?thesis using actor_persist [OF p] by (simp add: Some opt_json_def)
  qed (simp add: opt_json_def)
  show ?thesis
    using assms by (simp add: entry_json_def persisted_def f o a entry_wf_def)
qed

text \<open>A record that was written is read back as itself.\<close>

lemma entry_roundtrip:
  assumes "entry_wf e"
  shows "normalizePersistedAuditEntry (json_persist (entry_json e)) = Inr (persisted e)"
  using wf_accepts [OF persisted_wf [OF assms]] by (simp add: normalize_accepts json_persist_entry [OF assms])

lemma entry_of_written: "entry_wf e \<Longrightarrow> entry_of (json_persist (entry_json e)) = Some (persisted e)"
  by (simp add: entry_of_def entry_roundtrip)

text \<open>The hash of a record does not depend on the way through the disk, nor on the hash it holds.\<close>

definition hash_text :: "codec \<Rightarrow> audit_entry \<Rightarrow> string" where
  "hash_text cx e = cx_stringify cx (json_persist (jset (entry_json e) ''currentHash'' JUndef))"

lemma json_persist_without_hash:
  "json_persist (jset (JObj (kvs @ [(''currentHash'', w)])) ''currentHash'' JUndef) = json_persist (JObj kvs)"
  if "''currentHash'' \<notin> fst ` set kvs"
proof -
  have "AList.update k v (kvs @ [(k, w)]) = kvs @ [(k, v)]" if "k \<notin> fst ` set kvs" for k :: string and v w :: json
    using that by (induction kvs) auto
  then show ?thesis using that by (simp add: jset_def)
qed

definition hashed_json :: "audit_entry \<Rightarrow> json" where
  "hashed_json e =
    JObj ([(''id'', JStr (au_id e)), (''timestamp'', JStr (au_timestamp e)), (''agentId'', JStr (au_agent e)),
        (''action'', JStr (au_action e)), (''operation'', JStr (au_operation e)),
        (''result'', JStr (result_name (au_result e)))] @
      opt_field ''reason'' (au_reason e) @ opt_field ''correlationId'' (au_correlation e) @
      opt_json ''metadata'' (au_metadata e) @ opt_json ''compliance'' (au_compliance e) @
      opt_field ''tenantSlug'' (au_tenant e) @ opt_json ''scope'' (au_scope e) @ opt_json ''actor'' (au_actor e) @
      opt_field ''chain_alg'' (map_option alg_name (au_alg e)) @ opt_field ''chain_key_id'' (au_key_id e) @
      [(''previousHash'', JStr (au_previous e))])"

lemma hash_text_hashed: "hash_text cx e = cx_stringify cx (json_persist (hashed_json e))"
proof -
  define kvs where "kvs = (case hashed_json e of JObj kvs \<Rightarrow> kvs | _ \<Rightarrow> [])"
  have e: "entry_json e = JObj (kvs @ [(''currentHash'', JStr (au_current e))])" "hashed_json e = JObj kvs"
    by (simp_all add: kvs_def hashed_json_def entry_json_def)
  have "''currentHash'' \<notin> fst ` set kvs"
    by (auto simp: kvs_def hashed_json_def opt_field_def opt_json_def split: option.splits)
  then show ?thesis by (simp add: hash_text_def e json_persist_without_hash)
qed

lemma hash_text_simps [simp]:
  "hash_text cx (e\<lparr>au_current := h\<rparr>) = hash_text cx e"
  by (simp add: hash_text_hashed hashed_json_def)

lemma hash_text_persisted [simp]: "hash_text cx (persisted e) = hash_text cx e"
proof -
  have "filter (\<lambda>(k, v). v \<noteq> JUndef) (map (\<lambda>(k, v). (k, json_persist v)) (opt_json k (map_option json_persist x))) =
      filter (\<lambda>(k, v). v \<noteq> JUndef) (map (\<lambda>(k, v). (k, json_persist v)) (opt_json k x))" for k x
    by (cases x) (simp_all add: opt_json_def)
  then show ?thesis by (simp add: hash_text_hashed hashed_json_def persisted_def)
qed

lemma computeAuditEntryHash_text: "computeAuditEntryHash cx alg key e previous = digest cx alg key (previous @ hash_text cx e)"
  by (simp add: computeAuditEntryHash_def hash_text_def)

lemma persisted_simps [simp]:
  "au_id (persisted e) = au_id e" "au_previous (persisted e) = au_previous e" "au_current (persisted e) = au_current e"
  "au_alg (persisted e) = au_alg e" "au_tenant (persisted e) = au_tenant e" "au_timestamp (persisted e) = au_timestamp e"
  by (simp_all add: persisted_def)

end
