(* ===== verification/Audit_Clean.thy ===== *)
theory Audit_Clean
  imports Audit_Entry_Props
begin

text \<open>
  The daily files of the audit chain as stores of records. A store that is only appended to is the interface the
  master chain and the tenant mirrors share, and the daily files provide it, torn tails and blank lines included.
  A clean verification is then characterised: no missing day, no bad line, and every record linked to the one
  before it. Every file is read in full here (\<open>all_read\<close>).
\<close>

section \<open>Appending to a store of records\<close>

locale append_store =
  fixes content :: "'s \<Rightarrow> 'r list"
    and clean_store :: "'s \<Rightarrow> bool"
    and add :: "'r \<Rightarrow> 's \<Rightarrow> 's"
    and writable :: "'r \<Rightarrow> bool"
  assumes content_add: "writable r \<Longrightarrow> content (add r s) = content s @ [r]"
    and clean_add: "writable r \<Longrightarrow> clean_store s \<Longrightarrow> clean_store (add r s)"
begin

lemma content_fold: "list_all writable rs \<Longrightarrow> content (fold add rs s) = content s @ rs"
  by (induction rs arbitrary: s) (simp_all add: content_add)

lemma clean_fold: "list_all writable rs \<Longrightarrow> clean_store s \<Longrightarrow> clean_store (fold add rs s)"
  by (induction rs arbitrary: s) (simp_all add: clean_add)

end

definition file_entries :: "codec \<Rightarrow> bytes \<Rightarrow> audit_entry list" where
  "file_entries cx bs = List.map_filter (line_record (cx_maxLine cx) (cx_parse cx) entry_of) (file_lines bs)"

definition line_bad :: "codec \<Rightarrow> bytes \<times> bool \<Rightarrow> bool" where
  "line_bad cx l \<longleftrightarrow> cx_maxLine cx < length (fst l) \<or>
    (js_trim (decodeLine [fst l]) \<noteq> [] \<and> line_record (cx_maxLine cx) (cx_parse cx) entry_of l = None)"

definition file_clean :: "codec \<Rightarrow> bytes \<Rightarrow> bool" where
  "file_clean cx bs \<longleftrightarrow> list_all (\<lambda>l. \<not> line_bad cx l) (file_lines bs)"

text \<open>The line a record is written as.\<close>

definition record_text :: "codec \<Rightarrow> audit_entry \<Rightarrow> string" where
  "record_text cx e = cx_stringify cx (json_persist (entry_json e))"

definition add_line :: "codec \<Rightarrow> bool \<Rightarrow> audit_entry \<Rightarrow> bytes \<Rightarrow> bytes" where
  "add_line cx forced e bs = bs @ (if forced \<or> \<not> fileEndsWithNewline bs then [NEWLINE] else []) @ record_line cx e"

text \<open>What the printer and the parser of the platform do on one record: one line, not longer than a line may be,
  which parses to the value that was printed.\<close>

definition prints_back :: "codec \<Rightarrow> audit_entry \<Rightarrow> bool" where
  "prints_back cx e \<longleftrightarrow> NEWLINE \<notin> set (record_text cx e) \<and> length (record_text cx e) \<le> cx_maxLine cx \<and>
    js_trim (record_text cx e) \<noteq> [] \<and> last (record_text cx e) \<noteq> CARRIAGE_RETURN \<and>
    parseSafeJsonInput (cx_parse cx) (record_text cx e) = Some (json_persist (entry_json e))"

text \<open>A record as the disk gives it back that prints and parses.\<close>

definition storable :: "codec \<Rightarrow> audit_entry \<Rightarrow> bool" where
  "storable cx e \<longleftrightarrow> entry_wf e \<and> persisted e = e \<and> prints_back cx e"

lemma persisted_idem [simp]: "persisted (persisted e) = persisted e"
  by (simp add: persisted_def option.map_comp comp_def)

lemma record_text_persisted: "entry_wf e \<Longrightarrow> record_text cx (persisted e) = record_text cx e"
  by (simp add: record_text_def json_persist_entry persisted_wf)

lemma persisted_storable: "entry_wf e \<Longrightarrow> prints_back cx e \<Longrightarrow> storable cx (persisted e)"
  by (simp add: storable_def persisted_wf prints_back_def record_text_persisted json_persist_entry)

lemma line_record_terminated: "line_record m p f (l, t) = line_record m p f (l, True)"
  by (simp add: line_record_def)

lemma line_bad_terminated: "line_bad cx (l, t) = line_bad cx (l, True)"
  by (simp add: line_bad_def line_record_terminated [of _ _ _ l t])

lemma last_file_line:
  assumes "\<not> fileEndsWithNewline bs"
  obtains ls l where "file_lines bs = ls @ [(l, False)]" "file_lines (bs @ [NEWLINE]) = ls @ [(l, True)]"
proof -
  have "bs \<noteq> [] \<longrightarrow> last bs \<noteq> NEWLINE \<longrightarrow> (\<exists>ls l. file_lines bs = ls @ [(l, False)] \<and> file_lines (bs @ [NEWLINE]) = ls @ [(l, True)])"
  proof (induction bs rule: file_lines.induct)
    case (1 bs)
    show ?case
    proof (cases "dropWhile (\<lambda>c. c \<noteq> NEWLINE) bs")
      case Nil
      then have "NEWLINE \<notin> set bs" by (auto simp: dropWhile_eq_Nil_conv)
      then show ?thesis using file_lines_torn [of bs] file_lines_line [of bs "[]"] by auto
    next
      case (Cons d after)
      show ?thesis
      proof (intro impI)
        assume ne: "bs \<noteq> []" "last bs \<noteq> NEWLINE"
        note sp = split_first_line [OF Cons]
        have lb: "last bs = last (NEWLINE # after)" by (subst sp(1)) simp
        have "after \<noteq> []" "last after \<noteq> NEWLINE" using ne(2) lb by (auto split: if_splits)
        then obtain ls l where r: "file_lines after = ls @ [(l, False)]" "file_lines (after @ [NEWLINE]) = ls @ [(l, True)]"
          using 1 [OF ne(1) Cons] by blast
        have eq: "file_lines (bs @ ds) = (takeWhile (\<lambda>c. c \<noteq> NEWLINE) bs, True) # file_lines (after @ ds)" for ds
          using file_lines_line [OF sp(2), of "after @ ds"] sp(1) by (metis append_Cons append_assoc)
        from eq [of "[]"] eq [of "[NEWLINE]"] r show "\<exists>ls l. file_lines bs = ls @ [(l, False)] \<and> file_lines (bs @ [NEWLINE]) = ls @ [(l, True)]"
          by (metis append_Cons append_Nil2)
      qed
    qed
  qed
  then show ?thesis using assms that by (auto simp: fileEndsWithNewline_def)
qed

lemma file_lines_complete:
  assumes "fileEndsWithNewline bs"
  shows "file_lines (bs @ cs) = file_lines bs @ file_lines cs"
proof (cases "bs = []")
  case False
  then have "bs = butlast bs @ [NEWLINE]" using assms by (metis fileEndsWithNewline_def append_butlast_last_id)
  then show ?thesis using file_lines_append [of "butlast bs" cs] by (metis append_assoc)
qed simp

text \<open>Any way the writer may end the old content, the lines after it are the old ones, up to the mark of the torn one and
  a blank line, and the new one.\<close>

lemma add_line_lines:
  assumes "NEWLINE \<notin> set (record_text cx e)"
  shows "\<exists>ls bl. file_lines (add_line cx forced e bs) = ls @ bl @ [(record_text cx e, True)] \<and>
    map fst ls = map fst (file_lines bs) \<and> set bl \<subseteq> {([], True)}"
proof -
  have new: "file_lines (record_line cx e) = [(record_text cx e, True)]"
    using file_lines_line [OF assms, of "[]"] by (simp add: record_line_def record_text_def)
  consider (complete) "fileEndsWithNewline bs" "\<not> forced" | (blank) "fileEndsWithNewline bs" forced
    | (torn) "\<not> fileEndsWithNewline bs" by blast
  then show ?thesis
  proof cases
    case complete
    then have "add_line cx forced e bs = bs @ record_line cx e" by (auto simp: add_line_def)
    then show ?thesis using file_lines_complete [OF complete(1)] new by (intro exI [of _ "file_lines bs"] exI [of _ "[]"]) simp
  next
    case blank
    then have "add_line cx forced e bs = bs @ ([NEWLINE] @ record_line cx e)" by (simp add: add_line_def)
    moreover have "file_lines ([NEWLINE] @ record_line cx e) = [([], True), (record_text cx e, True)]"
      using file_lines_line [of "[]" "record_line cx e"] new by simp
    ultimately show ?thesis using file_lines_complete [OF blank(1)]
      by (intro exI [of _ "file_lines bs"] exI [of _ "[([], True)]"]) simp
  next
    case torn
    then have add: "add_line cx forced e bs = (bs @ [NEWLINE]) @ record_line cx e"
      by (auto simp: add_line_def fileEndsWithNewline_def)
    have c: "fileEndsWithNewline (bs @ [NEWLINE])" by (simp add: fileEndsWithNewline_def)
    from last_file_line [OF torn] obtain ls l where
      "file_lines bs = ls @ [(l, False)]" "file_lines (bs @ [NEWLINE]) = ls @ [(l, True)]" .
    then show ?thesis using file_lines_complete [OF c, of "record_line cx e"] new
      by (intro exI [of _ "ls @ [(l, True)]"] exI [of _ "[]"]) (simp add: add)
  qed
qed

lemma by_first:
  assumes "map fst xs = map fst ys" "\<And>p. f p = g (fst p)"
  shows "map f xs = map f ys"
proof -
  have "map f zs = map g (map fst zs)" for zs using assms(2) by simp
  then show ?thesis using assms(1) by metis
qed

lemma written_line:
  assumes "storable cx e"
  shows "line_record (cx_maxLine cx) (cx_parse cx) entry_of (record_text cx e, True) = Some e"
    and "\<not> line_bad cx (record_text cx e, True)"
proof -
  have d: "decodeLine [record_text cx e] = record_text cx e"
    using assms by (auto simp: storable_def prints_back_def decodeLine_def)
  show "line_record (cx_maxLine cx) (cx_parse cx) entry_of (record_text cx e, True) = Some e"
    using assms entry_of_written [of e] by (simp add: line_record_def d storable_def prints_back_def)
  then show "\<not> line_bad cx (record_text cx e, True)"
    using assms by (simp add: line_bad_def storable_def prints_back_def)
qed

lemma blank_line:
  "set bl \<subseteq> {([], True)} \<Longrightarrow> List.map_filter (line_record m p f) bl = []"
  "set bl \<subseteq> {([], True)} \<Longrightarrow> list_all (\<lambda>l. \<not> line_bad cx l) bl"
proof -
  have b: "line_record m p f ([], True) = None" "\<not> line_bad cx ([], True)" for m p and f :: "json \<Rightarrow> 'z option"
    by (simp_all add: line_record_def line_bad_def decodeLine_def js_trim_def)
  show "set bl \<subseteq> {([], True)} \<Longrightarrow> List.map_filter (line_record m p f) bl = []"
    by (induction bl) (auto simp: line_record_def decodeLine_def js_trim_def)
  show "set bl \<subseteq> {([], True)} \<Longrightarrow> list_all (\<lambda>l. \<not> line_bad cx l) bl" using b by (auto simp: list_all_iff)
qed

lemma map_filter_append: "List.map_filter f (xs @ ys) = List.map_filter f xs @ List.map_filter f ys"
  by (simp add: List.map_filter_def)

interpretation daily: append_store "file_entries cx" "file_clean cx" "add_line cx forced" "storable cx" for cx forced
proof unfold_locales
  fix e bs
  assume e: "storable cx e"
  then have "NEWLINE \<notin> set (record_text cx e)" by (simp add: storable_def prints_back_def)
  from add_line_lines [OF this] obtain ls bl where
    l: "file_lines (add_line cx forced e bs) = ls @ bl @ [(record_text cx e, True)]"
      "map fst ls = map fst (file_lines bs)" "set bl \<subseteq> {([], True)}" by blast
  have "map (line_record (cx_maxLine cx) (cx_parse cx) entry_of) ls = map (line_record (cx_maxLine cx) (cx_parse cx) entry_of) (file_lines bs)"
    by (rule by_first [OF l(2), where g = "\<lambda>t. line_record (cx_maxLine cx) (cx_parse cx) entry_of (t, True)"])
      (simp add: line_record_def split: prod.split)
  from map_filter_via_map [OF this] show "file_entries cx (add_line cx forced e bs) = file_entries cx bs @ [e]"
    using written_line(1) [OF e] blank_line(1) [OF l(3)]
    by (simp add: file_entries_def l(1) map_filter_append)
  assume c: "file_clean cx bs"
  have "map (line_bad cx) ls = map (line_bad cx) (file_lines bs)"
    by (rule by_first [OF l(2), where g = "\<lambda>t. line_bad cx (t, True)"])
      (simp add: line_bad_def line_record_def split: prod.split)
  moreover have "list_all (\<lambda>l. \<not> line_bad cx l) xs \<longleftrightarrow> list_all Not (map (line_bad cx) xs)" for xs
    by (simp add: list.pred_map comp_def)
  ultimately have "list_all (\<lambda>l. \<not> line_bad cx l) ls" using c by (simp add: file_clean_def)
  then show "file_clean cx (add_line cx forced e bs)"
    using written_line(2) [OF e] blank_line(2) [OF l(3)] by (simp add: file_clean_def l(1))
qed

section \<open>Reading a clean file\<close>

lemma line_outcome_bad:
  "outcome_bad (parseRecord (cx_parse cx) entry_of b (TextLine (decodeLine [l]) n t r)) = None"
  if "\<not> line_bad cx (l, t)"
  using that by (auto simp: line_bad_def line_record_def parseRecord_def split: option.splits if_splits)

lemma forward_bad:
  "List.map_filter outcome_bad (map (parseRecord (cx_parse cx) entry_of False) (number_forward (cx_maxLine cx) n ofs ls)) = [] \<longleftrightarrow>
    list_all (\<lambda>l. \<not> line_bad cx l) ls"
proof (induction ls arbitrary: n ofs)
  case (Cons l ls)
  obtain x t where l: "l = (x, t)" by fastforce
  show ?case
    using Cons.IH
    by (auto simp: l Let_def line_bad_def line_record_def parseRecord_def split: option.splits if_splits)
qed simp

lemma backward_bad:
  assumes "list_all (\<lambda>l. \<not> line_bad cx l) ls"
  shows "\<forall>r \<in> set (map (parseRecord (cx_parse cx) entry_of b) (number_backward (cx_maxLine cx) n ls)). outcome_bad r = None"
  using assms
proof (induction ls arbitrary: n)
  case (Cons l ls)
  obtain x t where l: "l = (x, t)" by fastforce
  have "\<not> line_bad cx (x, t)" using Cons.prems l by simp
  then have "\<not> cx_maxLine cx < length x" by (simp add: line_bad_def)
  then show ?case using Cons line_outcome_bad [of cx x t b "n + 1" None] by (simp add: l)
qed simp

lemma none_bad: "\<forall>r \<in> set rs. outcome_bad r = None \<Longrightarrow> List.map_filter outcome_bad rs = []"
  by (induction rs) simp_all

definition all_read :: "string \<Rightarrow> read_attempt" where
  "all_read name = ReadOk"

lemma file_bytes_absent: "map_of fs name = None \<Longrightarrow> file_bytes fs name = []"
  by (simp add: file_bytes_def)

lemma read_file:
  assumes "0 < cx_chunk cx"
  shows "fr_entries (readAuditFileForVerify cx all_read fs name) = file_entries cx (file_bytes fs name)"
    and "readFindings name (readAuditFileForVerify cx all_read fs name) = [] \<longleftrightarrow> file_clean cx (file_bytes fs name)"
    and "file_clean cx (file_bytes fs name) \<Longrightarrow> fr_invalid (readAuditFileForVerify cx all_read fs name) = []"
  using forward_bad [of cx 0 0 "file_lines (file_bytes fs name)"]
  by (auto simp: readAuditFileForVerify_def stream_records [OF assms] file_entries_def readFindings_def file_clean_def
      file_bytes_absent all_read_def)

lemma read_seed_tail:
  assumes "0 < cx_chunk cx" "file_clean cx bs"
  shows "readSeedTail cx bs = TailRead (if file_entries cx bs = [] then None else Some (last (file_entries cx bs))) 0"
proof -
  have "\<forall>r \<in> set (map (parseRecord (cx_parse cx) entry_of True) (number_backward (cx_maxLine cx) 0 (rev (file_lines bs)))). outcome_bad r = None"
    by (rule backward_bad) (use assms(2) in \<open>simp add: file_clean_def\<close>)
  then have "List.map_filter outcome_bad (takeWhile (\<lambda>r. outcome_record r = None)
      (map (parseRecord (cx_parse cx) entry_of True) (number_backward (cx_maxLine cx) 0 (rev (file_lines bs))))) = []"
    by (intro none_bad) (blast dest: set_takeWhileD)
  then have "readLastJsonLine (cx_chunk cx) (cx_maxLine cx) (cx_parse cx) entry_of PolicyNote bs =
      Inr (case rev (file_entries cx bs) of [] \<Rightarrow> None | r # _ \<Rightarrow> Some r, [])"
    by (simp only: last_record [OF assms(1)] file_entries_def)
  then show ?thesis
    by (auto simp: readSeedTail_def last_rev hd_rev rev_swap split: list.splits)
qed

text \<open>The records of a list of files, in order.\<close>

definition files_entries :: "codec \<Rightarrow> daily_files \<Rightarrow> string list \<Rightarrow> audit_entry list" where
  "files_entries cx fs names = concat (map (\<lambda>n. file_entries cx (file_bytes fs n)) names)"

lemma loadAll_entries: "0 < cx_chunk cx \<Longrightarrow> loadAll cx all_read d = files_entries cx (ad_files d) (daily_names (ad_files d))"
  by (simp add: loadAll_def loadEntriesFromFiles_def files_entries_def read_file)

definition chain_end :: "string \<Rightarrow> audit_entry list \<Rightarrow> string" where
  "chain_end start es = (if es = [] then start else au_current (last es))"

lemma chain_end_append: "chain_end start (es @ fs) = chain_end (chain_end start es) fs"
  by (simp add: chain_end_def)

lemma entry_of_Some: "entry_of v = Some e \<longleftrightarrow> accepts v e"
  by (cases "normalizePersistedAuditEntry v") (auto simp: entry_of_def normalize_accepts [symmetric])

lemma entries_wf:
  assumes "e \<in> set (file_entries cx bs)"
  shows "entry_wf e"
proof -
  obtain l where "l \<in> set (file_lines bs)" "line_record (cx_maxLine cx) (cx_parse cx) entry_of l = Some e"
    using assms by (force simp: file_entries_def map_filter_alt)
  moreover obtain x t where "l = (x, t)" by fastforce
  ultimately have "\<exists>v. entry_of v = Some e" by (auto simp: line_record_def split: if_splits option.splits)
  then show ?thesis using accepts_wf by (auto simp: entry_of_Some)
qed

lemma wf_current: "entry_wf e \<Longrightarrow> au_current e \<noteq> []"
  by (auto simp: entry_wf_def nonblank_def js_trim_def)

text \<open>The seed is the end of the chain.\<close>

lemma seed_scan_clean:
  assumes "0 < cx_chunk cx" "\<And>n. n \<in> set names \<Longrightarrow> ae_read E n 0 = ReadOk" "\<And>n. n \<in> set names \<Longrightarrow> file_clean cx (file_bytes fs n)"
  shows "\<exists>k. seed_scan cx E fs (rev names) = SeedOk (chain_end GENESIS_HASH (files_entries cx fs names)) k"
  using assms(2,3)
proof (induction names rule: rev_induct)
  case (snoc n names)
  have t: "readSeedTailUnlessGone cx E fs n =
      TailRead (if file_entries cx (file_bytes fs n) = [] then None else Some (last (file_entries cx (file_bytes fs n)))) 0"
    using snoc.prems read_seed_tail [OF assms(1)] by (simp add: readSeedTailUnlessGone_def)
  show ?case
  proof (cases "file_entries cx (file_bytes fs n) = []")
    case True
    then show ?thesis using snoc t by (simp add: files_entries_def)
  next
    case False
    then have "au_current (last (file_entries cx (file_bytes fs n))) \<noteq> []"
      using entries_wf wf_current last_in_set by blast
    then show ?thesis using t False by (simp add: files_entries_def chain_end_def)
  qed
qed (simp add: files_entries_def chain_end_def)

section \<open>What a clean verification says\<close>

definition entry_alg :: "audit_entry \<Rightarrow> chain_alg" where
  "entry_alg e = (case au_alg e of None \<Rightarrow> Sha256 | Some a \<Rightarrow> a)"

definition entry_key :: "string option \<Rightarrow> audit_entry \<Rightarrow> string option" where
  "entry_key key e = (if entry_alg e = HmacSha256 then key else None)"

text \<open>The links: every record has the hash of the one before it and its own, and no unkeyed record where none may be.\<close>

fun sound_entries :: "codec \<Rightarrow> string option \<Rightarrow> bool \<Rightarrow> bool \<Rightarrow> string \<Rightarrow> audit_entry list \<Rightarrow> bool" where
  "sound_entries cx key rk keyed prev [] = True"
| "sound_entries cx key rk keyed prev (e # es) =
    ((entry_alg e = Sha256 \<longrightarrow> \<not> keyed \<and> \<not> rk) \<and>
     verifyAuditEntryHash cx (entry_alg e) (entry_key key e) e prev = HashOk \<and>
     sound_entries cx key rk (keyed \<or> entry_alg e = HmacSha256) (au_current e) es)"

lemma sound_entries_append:
  "sound_entries cx key rk keyed prev (es @ fs) \<longleftrightarrow> sound_entries cx key rk keyed prev es \<and>
    sound_entries cx key rk (keyed \<or> (\<exists>e \<in> set es. entry_alg e = HmacSha256)) (chain_end prev es) fs"
  by (induction es arbitrary: keyed prev) (auto simp: chain_end_def)

lemma alg_cases: "a \<noteq> HmacSha256 \<longleftrightarrow> a = Sha256"
  by (cases a) simp_all

lemma verify_entry_step:
  fixes vs e cx key rk
  defines "vs' \<equiv> verify_entry cx key rk False e vs"
  shows "vs_prev vs' = au_current e" "vs_date vs' = vs_date vs" "vs_total vs' = vs_total vs"
    and "tk_keyed (vs_tracker vs') = (tk_keyed (vs_tracker vs) \<or> entry_alg e = HmacSha256)"
    and "vs_corrupted vs' = [] \<longleftrightarrow> vs_corrupted vs = [] \<and> sound_entries cx key rk (tk_keyed (vs_tracker vs)) (vs_prev vs) [e]"
    and "vs_corrupted vs' = [] \<Longrightarrow> vs_invalid vs' = vs_invalid vs"
  by (auto simp: vs'_def verify_entry_def Let_def tracker_observe_def entry_alg_def [symmetric] entry_key_def
      alg_cases [symmetric] split: option.splits if_splits)

lemma verify_entries_fold:
  fixes vs es cx key rk
  defines "vs' \<equiv> fold (verify_entry cx key rk False) es vs"
  shows "vs_prev vs' = chain_end (vs_prev vs) es \<and> vs_date vs' = vs_date vs \<and> vs_total vs' = vs_total vs \<and>
    tk_keyed (vs_tracker vs') = (tk_keyed (vs_tracker vs) \<or> (\<exists>e \<in> set es. entry_alg e = HmacSha256)) \<and>
    (vs_corrupted vs' = [] \<longleftrightarrow> vs_corrupted vs = [] \<and> sound_entries cx key rk (tk_keyed (vs_tracker vs)) (vs_prev vs) es) \<and>
    (vs_corrupted vs' = [] \<longrightarrow> vs_invalid vs' = vs_invalid vs)"
  unfolding vs'_def
proof (induction es arbitrary: vs)
  case (Cons e es)
  note st = verify_entry_step [of cx key rk e vs]
  show ?case
    using Cons.IH [of "verify_entry cx key rk False e vs"] st by (auto simp: chain_end_def)
qed (simp add: chain_end_def)

text \<open>No day is missing between two daily files.\<close>

fun days_follow :: "string option \<Rightarrow> string list \<Rightarrow> bool" where
  "days_follow p [] = True"
| "days_follow p (n # ns) =
    ((case (extractAuditDate n, p) of (Some d, Some q) \<Rightarrow> isNextUtcDay q d | _ \<Rightarrow> True) \<and>
     days_follow (if extractAuditDate n = None then p else extractAuditDate n) ns)"

definition last_day :: "string option \<Rightarrow> string list \<Rightarrow> string option" where
  "last_day p ns = fold (\<lambda>n q. if extractAuditDate n = None then q else extractAuditDate n) ns p"

lemma days_follow_append: "days_follow p (ns @ ms) \<longleftrightarrow> days_follow p ns \<and> days_follow (last_day p ns) ms"
  by (induction ns arbitrary: p) (simp_all add: last_day_def)

lemma verify_file_step:
  assumes "0 < cx_chunk cx"
  fixes vs name key rk fs
  defines "vs' \<equiv> verify_file cx key rk False all_read fs name vs"
  shows "vs_prev vs' = chain_end (vs_prev vs) (file_entries cx (file_bytes fs name))"
    and "vs_date vs' = (if extractAuditDate name = None then vs_date vs else extractAuditDate name)"
    and "tk_keyed (vs_tracker vs') = (tk_keyed (vs_tracker vs) \<or> (\<exists>e \<in> set (file_entries cx (file_bytes fs name)). entry_alg e = HmacSha256))"
    and "vs_corrupted vs' = [] \<longleftrightarrow> vs_corrupted vs = [] \<and> days_follow (vs_date vs) [name] \<and> file_clean cx (file_bytes fs name) \<and>
      sound_entries cx key rk (tk_keyed (vs_tracker vs)) (vs_prev vs) (file_entries cx (file_bytes fs name))"
    and "vs_corrupted vs' = [] \<Longrightarrow> vs_total vs' = vs_total vs + length (file_entries cx (file_bytes fs name)) \<and> vs_invalid vs' = vs_invalid vs"
proof -
  define vs0 where "vs0 = vs\<lparr>vs_corrupted := vs_corrupted vs @
      (case (extractAuditDate name, vs_date vs) of (Some d, Some p) \<Rightarrow> if isNextUtcDay p d then [] else [FGap p d] | _ \<Rightarrow> []) @
      readFindings name (readAuditFileForVerify cx all_read fs name),
    vs_date := (if extractAuditDate name = None then vs_date vs else extractAuditDate name),
    vs_total := vs_total vs + length (file_entries cx (file_bytes fs name)) +
      length (fr_invalid (readAuditFileForVerify cx all_read fs name)),
    vs_invalid := vs_invalid vs + length (fr_invalid (readAuditFileForVerify cx all_read fs name))\<rparr>"
  have vs': "vs' = fold (verify_entry cx key rk False) (file_entries cx (file_bytes fs name)) vs0"
    by (simp add: vs'_def verify_file_def Let_def read_file(1) [OF assms(1)] vs0_def)
  note f = verify_entries_fold [of cx key rk "file_entries cx (file_bytes fs name)" vs0, folded vs']
  have c0: "vs_corrupted vs0 = [] \<longleftrightarrow> vs_corrupted vs = [] \<and> days_follow (vs_date vs) [name] \<and> file_clean cx (file_bytes fs name)"
    using read_file(2) [OF assms(1), of name fs] by (auto simp: vs0_def split: option.splits)
  have s0: "vs_prev vs0 = vs_prev vs" "vs_tracker vs0 = vs_tracker vs" by (simp_all add: vs0_def)
  show "vs_prev vs' = chain_end (vs_prev vs) (file_entries cx (file_bytes fs name))"
    "tk_keyed (vs_tracker vs') = (tk_keyed (vs_tracker vs) \<or> (\<exists>e \<in> set (file_entries cx (file_bytes fs name)). entry_alg e = HmacSha256))"
    using f by (simp_all add: s0)
  show "vs_date vs' = (if extractAuditDate name = None then vs_date vs else extractAuditDate name)"
    using f by (simp add: vs0_def)
  show c: "vs_corrupted vs' = [] \<longleftrightarrow> vs_corrupted vs = [] \<and> days_follow (vs_date vs) [name] \<and> file_clean cx (file_bytes fs name) \<and>
      sound_entries cx key rk (tk_keyed (vs_tracker vs)) (vs_prev vs) (file_entries cx (file_bytes fs name))"
    using f c0 s0 by auto
  show "vs_corrupted vs' = [] \<Longrightarrow> vs_total vs' = vs_total vs + length (file_entries cx (file_bytes fs name)) \<and> vs_invalid vs' = vs_invalid vs"
    using f c read_file(3) [OF assms(1), of fs name] by (simp add: vs0_def)
qed

lemma verify_files_fold:
  assumes "0 < cx_chunk cx"
  fixes vs names key rk fs
  defines "vs' \<equiv> fold (verify_file cx key rk False all_read fs) names vs"
  shows "vs_prev vs' = chain_end (vs_prev vs) (files_entries cx fs names) \<and> vs_date vs' = last_day (vs_date vs) names \<and>
    tk_keyed (vs_tracker vs') = (tk_keyed (vs_tracker vs) \<or> (\<exists>e \<in> set (files_entries cx fs names). entry_alg e = HmacSha256)) \<and>
    (vs_corrupted vs' = [] \<longleftrightarrow> vs_corrupted vs = [] \<and> days_follow (vs_date vs) names \<and>
      (\<forall>n \<in> set names. file_clean cx (file_bytes fs n)) \<and>
      sound_entries cx key rk (tk_keyed (vs_tracker vs)) (vs_prev vs) (files_entries cx fs names)) \<and>
    (vs_corrupted vs' = [] \<longrightarrow> vs_total vs' = vs_total vs + length (files_entries cx fs names) \<and> vs_invalid vs' = vs_invalid vs)"
  unfolding vs'_def
proof (induction names arbitrary: vs)
  case Nil
  then show ?case by (simp add: files_entries_def chain_end_def last_day_def)
next
  case (Cons n names)
  note st = verify_file_step [OF assms(1), of key rk fs n vs]
  have fe: "files_entries cx fs (n # names) = file_entries cx (file_bytes fs n) @ files_entries cx fs names"
    by (simp add: files_entries_def)
  define vs1 where "vs1 = verify_file cx key rk False all_read fs n vs"
  note ih = Cons.IH [of vs1] and st = st [folded vs1_def]
  have days: "days_follow p (n # names) \<longleftrightarrow>
      days_follow p [n] \<and> days_follow (if extractAuditDate n = None then p else extractAuditDate n) names" for p
    by simp
  have mem: "(\<exists>e \<in> set (files_entries cx fs (n # names)). P e) \<longleftrightarrow>
      (\<exists>e \<in> set (file_entries cx (file_bytes fs n)). P e) \<or> (\<exists>e \<in> set (files_entries cx fs names). P e)" for P
    by (auto simp: fe)
  have keyed: "tk_keyed (vs_tracker vs1) = (tk_keyed (vs_tracker vs) \<or> (\<exists>e \<in> set (file_entries cx (file_bytes fs n)). entry_alg e = HmacSha256))"
    by (rule st(3))
  show ?case
  proof (intro conjI)
    show "vs_corrupted (fold (verify_file cx key rk False all_read fs) (n # names) vs) = [] \<longleftrightarrow> vs_corrupted vs = [] \<and>
        days_follow (vs_date vs) (n # names) \<and> (\<forall>m \<in> set (n # names). file_clean cx (file_bytes fs m)) \<and>
        sound_entries cx key rk (tk_keyed (vs_tracker vs)) (vs_prev vs) (files_entries cx fs (n # names))"
    proof -
      have "vs_corrupted (fold (verify_file cx key rk False all_read fs) names vs1) = [] \<longleftrightarrow> vs_corrupted vs1 = [] \<and>
          days_follow (vs_date vs1) names \<and> (\<forall>m \<in> set names. file_clean cx (file_bytes fs m)) \<and>
          sound_entries cx key rk (tk_keyed (vs_tracker vs1)) (vs_prev vs1) (files_entries cx fs names)"
        using ih by blast
      then show ?thesis
        by (simp only: fold_simps vs1_def [symmetric] days fe sound_entries_append st(1,2,4) keyed list.set ball_simps) blast
    qed
    show "vs_corrupted (fold (verify_file cx key rk False all_read fs) (n # names) vs) = [] \<longrightarrow>
        vs_total (fold (verify_file cx key rk False all_read fs) (n # names) vs) = vs_total vs + length (files_entries cx fs (n # names)) \<and>
        vs_invalid (fold (verify_file cx key rk False all_read fs) (n # names) vs) = vs_invalid vs"
    proof
      assume "vs_corrupted (fold (verify_file cx key rk False all_read fs) (n # names) vs) = []"
      then have "vs_corrupted (fold (verify_file cx key rk False all_read fs) names vs1) = []"
        by (simp only: fold_simps vs1_def)
      then have t: "vs_corrupted vs1 = []"
        "vs_total (fold (verify_file cx key rk False all_read fs) names vs1) = vs_total vs1 + length (files_entries cx fs names)"
        "vs_invalid (fold (verify_file cx key rk False all_read fs) names vs1) = vs_invalid vs1"
        using ih by blast+
      show "vs_total (fold (verify_file cx key rk False all_read fs) (n # names) vs) = vs_total vs + length (files_entries cx fs (n # names)) \<and>
          vs_invalid (fold (verify_file cx key rk False all_read fs) (n # names) vs) = vs_invalid vs"
        using st(5) [OF t(1)] by (simp only: fold_simps vs1_def [symmetric] t(2,3) fe length_append) simp
    qed
  qed (use ih st(1,2) keyed in \<open>simp_all add: fe vs1_def [symmetric] chain_end_append last_day_def mem del: bex_simps, blast?\<close>)
qed

lemma verify_clean_iff:
  assumes "0 < cx_chunk cx"
  shows "vr_corrupted (verify_chain cx key all_read None rk d) = [] \<longleftrightarrow>
      days_follow None (daily_names (ad_files d)) \<and> (\<forall>n \<in> set (daily_names (ad_files d)). file_clean cx (file_bytes (ad_files d) n)) \<and>
      sound_entries cx key rk False GENESIS_HASH (loadAll cx all_read d)"
    and "vr_corrupted (verify_chain cx key all_read None rk d) = [] \<Longrightarrow>
      vr_total (verify_chain cx key all_read None rk d) = length (loadAll cx all_read d) \<and>
      vr_valid (verify_chain cx key all_read None rk d) = int (length (loadAll cx all_read d))"
proof -
  have w: "filter (in_window None) ns = ns" "filter (\<lambda>n. \<not> in_window None n) ns = []" for ns
    by (simp_all add: in_window_def)
  define VS where "VS = fold (verify_file cx key rk False all_read (ad_files d)) (daily_names (ad_files d)) verify_init"
  note f = verify_files_fold [OF assms, of key rk "ad_files d" "daily_names (ad_files d)" verify_init, folded VS_def]
  have v: "vr_corrupted (verify_chain cx key all_read None rk d) = vs_corrupted VS"
    "vr_total (verify_chain cx key all_read None rk d) = vs_total VS"
    "vr_valid (verify_chain cx key all_read None rk d) = int (vs_total VS) - int (vs_invalid VS)"
    by (simp_all add: verify_chain_def Let_def w truthy_opt_def VS_def)
  have i: "vs_corrupted verify_init = []" "vs_date verify_init = None" "vs_prev verify_init = GENESIS_HASH"
    "\<not> tk_keyed (vs_tracker verify_init)" "vs_total verify_init = 0" "vs_invalid verify_init = 0"
    by (simp_all add: verify_init_def createChainAlgTracker_def)
  show "vr_corrupted (verify_chain cx key all_read None rk d) = [] \<longleftrightarrow>
      days_follow None (daily_names (ad_files d)) \<and> (\<forall>n \<in> set (daily_names (ad_files d)). file_clean cx (file_bytes (ad_files d) n)) \<and>
      sound_entries cx key rk False GENESIS_HASH (loadAll cx all_read d)"
    using f i by (simp add: v loadAll_entries [OF assms])
  show "vr_corrupted (verify_chain cx key all_read None rk d) = [] \<Longrightarrow>
      vr_total (verify_chain cx key all_read None rk d) = length (loadAll cx all_read d) \<and>
      vr_valid (verify_chain cx key all_read None rk d) = int (length (loadAll cx all_read d))"
    using f i by (simp add: v loadAll_entries [OF assms])
qed

end
