(* ===== verification/Audit_Append.thy ===== *)
theory Audit_Append
  imports Audit_Clean
begin

text \<open>
  What appending a record does to the audit chain: the record that is built, where it lands, and that a chain that
  verified before verifies after; and what happens to a record whose write fails.
\<close>

section \<open>The files after an append\<close>

lemma sort_snoc_greatest:
  fixes xs :: "string list"
  assumes "\<forall>x \<in> set xs. x \<le> y"
  shows "sort (xs @ [y]) = sort xs @ [y]"
  by (rule properties_for_sort) (use assms in \<open>auto simp: sorted_append\<close>)

lemma daily_names_update_new:
  assumes "map_of fs name = None" "extractAuditDate name \<noteq> None" "\<forall>n \<in> set (daily_names fs). n \<le> name"
  shows "daily_names (AList.update name bs fs) = daily_names fs @ [name]"
proof -
  have "name \<notin> fst ` set fs" using assms(1) by (simp add: map_of_eq_None_iff)
  then have "map fst (AList.update name bs fs) = map fst fs @ [name]" by (simp add: update_keys)
  then show ?thesis
    using assms(2,3) sort_snoc_greatest [of "filter (\<lambda>n. extractAuditDate n \<noteq> None) (map fst fs)" name]
    by (simp add: daily_names_def)
qed

lemma daily_names_update_old:
  assumes "map_of fs name \<noteq> None"
  shows "daily_names (AList.update name bs fs) = daily_names fs"
proof -
  have "name \<in> fst ` set fs" using assms by (metis map_of_eq_None_iff)
  then have "map fst (AList.update name bs fs) = map fst fs" by (simp add: update_keys)
  then show ?thesis by (simp add: daily_names_def)
qed

lemma file_bytes_update [simp]: "file_bytes (AList.update n bs fs) m = (if m = n then bs else file_bytes fs m)"
  by (simp add: file_bytes_def update_conv)

lemma files_entries_update:
  "name \<notin> set names \<Longrightarrow> files_entries cx (AList.update name bs fs) names = files_entries cx fs names"
  by (induction names) (auto simp: files_entries_def)

lemma files_entries_append: "files_entries cx fs (ns @ ms) = files_entries cx fs ns @ files_entries cx fs ms"
  by (simp add: files_entries_def)

lemma appendRecordLine_add:
  "appendRecordLine cx E name e fs =
    AList.update name (add_line cx (map_of fs name \<noteq> None \<and> \<not> ae_tail E name) e (file_bytes fs name)) fs"
  by (auto simp: appendRecordLine_def add_line_def Let_def file_bytes_def fileEndsWithNewline_def split: option.split)

lemma distinct_daily_names: "distinct (map fst fs) \<Longrightarrow> distinct (daily_names fs)"
  by (simp add: daily_names_def)

lemma sorted_daily_names: "sorted (daily_names fs)"
  by (simp add: daily_names_def)

lemma daily_names_mem: "n \<in> set (daily_names fs) \<longleftrightarrow> map_of fs n \<noteq> None \<and> extractAuditDate n \<noteq> None"
  by (auto simp: daily_names_def map_of_eq_None_iff)

text \<open>The newest file is the last one.\<close>

lemma newest_is_last:
  assumes "distinct (map fst fs)" "name \<in> set (daily_names fs)" "\<forall>n \<in> set (daily_names fs). n \<le> name"
  obtains ns where "daily_names fs = ns @ [name]" "name \<notin> set ns"
proof -
  obtain ns ms where s: "daily_names fs = ns @ name # ms" using assms(2) by (meson split_list)
  have "ms = []"
  proof (cases ms)
    case (Cons m rest)
    have "name \<le> m" using sorted_daily_names [of fs] by (simp add: s Cons sorted_append)
    moreover have "m \<le> name" using assms(3) by (simp add: s Cons)
    ultimately show ?thesis using distinct_daily_names [OF assms(1)] by (simp add: s Cons)
  qed simp
  then show ?thesis using that s distinct_daily_names [OF assms(1)] by simp
qed

section \<open>The record that is built\<close>

definition hex_text :: "string \<Rightarrow> bool" where
  "hex_text s \<longleftrightarrow> length s = 64 \<and> list_all (\<lambda>c. c \<in> set ''0123456789abcdef'') s"

text \<open>The digests of the platform are 64 hexadecimal digits.\<close>

definition hex_digests :: "codec \<Rightarrow> bool" where
  "hex_digests cx \<longleftrightarrow> (\<forall>p. hex_text (cx_sha cx p)) \<and> (\<forall>k p. hex_text (cx_hmac cx k p))"

lemma hex_nonblank:
  assumes "hex_text s"
  shows "nonblank s"
proof -
  have "\<forall>c \<in> set ''0123456789abcdef''. \<not> is_js_space c" by (simp add: is_js_space_def)
  then have "\<not> is_js_space c" if "c \<in> set s" for c
    using assms that unfolding hex_text_def list_all_iff by blast
  moreover have "s \<noteq> []" using assms by (cases s) (simp_all only: hex_text_def list.size, simp_all)
  ultimately obtain c cs where "s = c # cs" "\<not> is_js_space c" by (cases s) auto
  then have "\<exists>x \<in> set (dropWhile is_js_space s). \<not> is_js_space x" by simp
  then have "dropWhile is_js_space (rev (dropWhile is_js_space s)) \<noteq> []" by (auto simp: dropWhile_eq_Nil_conv)
  then show ?thesis by (simp add: nonblank_def js_trim_def)
qed

definition object_keys_distinct :: "json \<Rightarrow> bool" where
  "object_keys_distinct v = (case v of JObj kvs \<Rightarrow> distinct (map fst kvs) | _ \<Rightarrow> False)"

lemma next_object_tail:
  "distinct (map fst ((''correlationId'', c) # opt_field ''tenantSlug'' t @ opt_json ''scope'' s @
     [(''chain_alg'', a), (''chain_key_id'', k), (''previousHash'', p), (''currentHash'', h)]))"
  by (simp add: opt_field_def opt_json_def split: option.split)

lemma jget_next_object:
  "jget (next_object i ts entry tenant scope keyId previous) ''previousHash'' = JStr previous"
  "jget (next_object i ts entry tenant scope keyId previous) ''chain_alg'' = JStr ''hmac-sha256''"
  by (simp_all add: next_object_def jget_jspread [OF next_object_tail] map_add_def)

lemma build_entry_facts:
  assumes "build_entry cx E p previous n key = Inr e" "hex_digests cx"
  shows "entry_wf e" "au_previous e = previous" "au_alg e = Some HmacSha256" "au_current e = cx_hmac cx key (previous @ hash_text cx e)"
proof -
  from assms(1) obtain e0 i ts tenant scope where
    n: "normalizePersistedAuditEntry (next_object i ts (pr_entry p) tenant scope (getAuditChainKeyId cx (Some key)) previous) = Inr e0"
    and e: "e = e0\<lparr>au_current := cx_hmac cx key (previous @ hash_text cx e0)\<rparr>"
    using assms(1)
    by (auto simp: build_entry_def Let_def computeAuditEntryHash_text digest_def truthy_opt_def
        split: sum.splits option.splits if_splits)
  have a: "accepts (next_object i ts (pr_entry p) tenant scope (getAuditChainKeyId cx (Some key)) previous) e0"
    using n by (simp add: normalize_accepts)
  have "nonblank (cx_hmac cx key (previous @ hash_text cx e0))" using assms(2) hex_nonblank by (simp add: hex_digests_def)
  then show "entry_wf e" using accepts_wf [OF a] by (simp add: e entry_wf_def)
  show "au_previous e = previous"
    using a by (simp add: accepts_def string_field_def jget_next_object e)
  show "au_alg e = Some HmacSha256"
    using a by (cases "au_alg e0") (auto simp: accepts_def alg_field_def jget_next_object e alg_name_def split: chain_alg.splits)
  show "au_current e = cx_hmac cx key (previous @ hash_text cx e)" by (simp add: e)
qed

section \<open>A successful call of \<open>record\<close>\<close>

definition idle :: "audit_state \<Rightarrow> bool" where
  "idle st \<longleftrightarrow> as_depth st = 0 \<and> as_deferred st = [] \<and> \<not> as_flushing st"

text \<open>The chain key a step finds or makes.\<close>

definition step_key :: "audit_env \<Rightarrow> audit_disk \<Rightarrow> string option" where
  "step_key E d =
    (case fst (resolveAuditChainKey (ae_key_env E) (ae_key_creation E) True (ad_key d)) of Inr k \<Rightarrow> k | Inl _ \<Rightarrow> None)"

lemma record_entry_success:
  assumes "record_entry cx W input st = (Inr e, st')" "idle st" "ae_denials (W (as_step st)) = []"
  obtains p previous cnt k keyFile where "prepare (W (as_step st)) input = Inr p"
    "seedFromDisk cx (W (as_step st)) (st\<lparr>as_depth := 1, as_step := as_step st + 1\<rparr>) = Inr (SeedOk previous cnt)"
    "step_key (W (as_step st)) (as_disk st) = Some k"
    "build_entry cx (W (as_step st)) p previous (cnt + 1) k = Inr e"
    "as_disk st' = appendToFile cx (W (as_step st)) e ((as_disk st)\<lparr>ad_key := keyFile\<rparr>)"
    "as_sent st' = as_sent st @ [e]" "idle st'"
proof -
  let ?E = "W (as_step st)"
  obtain key keyFile where rk: "resolveAuditChainKey (ae_key_env ?E) (ae_key_creation ?E) True (ad_key (as_disk st)) = (key, keyFile)"
    by fastforce
  have noden: "deferred_denials ?E = []" using assms(3) by (simp add: deferred_denials_def)
  obtain p where p: "prepare ?E input = Inr p"
    using assms(1) by (auto simp: record_entry_def split: sum.splits)
  obtain st1 where lock: "hold_lock W (appendUnderLock cx W p) st = (Inr e, st1)"
    and st': "st' = fan_out (Inr e) (flushDeferredAppends cx W st1)"
    using assms(1,2) by (auto simp: record_entry_def p append_record_def withAuditChainLock_def idle_def split: prod.splits if_splits)
  obtain st2 where app: "appendUnderLock cx W p (st\<lparr>as_depth := 1\<rparr>) = (Inr e, st2)" and st1: "st1 = st2\<lparr>as_depth := as_depth st2 - 1\<rparr>"
    using lock assms(2) by (auto simp: hold_lock_def idle_def split: if_splits prod.splits)
  obtain previous cnt k where seed: "seedFromDisk cx ?E (st\<lparr>as_depth := 1, as_step := as_step st + 1\<rparr>) = Inr (SeedOk previous cnt)"
    and k: "key = Inr (Some k)" and b: "build_entry cx ?E p previous (cnt + 1) k = Inr e"
    and st2: "st2 = st\<lparr>as_depth := 1, as_step := as_step st + 1, as_last := au_current e, as_count := cnt + 1,
      as_disk := appendToFile cx ?E e ((as_disk st)\<lparr>ad_key := keyFile\<rparr>), as_deferred := as_deferred st @ deferred_denials ?E\<rparr>"
    using app by (auto simp: appendUnderLock_def Let_def rk split: sum.splits seed_result.splits option.splits)
  have d: "as_deferred st1 = []" "as_depth st1 = 0" "\<not> as_flushing st1"
    using assms(2) by (simp_all add: st1 st2 noden idle_def)
  then have st'1: "st' = st1\<lparr>as_sent := as_sent st1 @ [e]\<rparr>" by (simp add: st' flushDeferredAppends_def fan_out_def)
  show ?thesis
    by (rule that [OF p seed _ b]) (use d in \<open>simp_all add: step_key_def rk k st'1 st1 st2 idle_def\<close>)
qed

lemma seed_clean:
  assumes "0 < cx_chunk cx" "ae_registered E" "ae_list E = ReadOk" "\<And>n. ae_read E n 0 = ReadOk"
    "\<forall>n \<in> set (daily_names (ad_files (as_disk st))). file_clean cx (file_bytes (ad_files (as_disk st)) n)"
  shows "\<exists>k. seedFromDisk cx E st = Inr (SeedOk (chain_end GENESIS_HASH (loadAll cx all_read (as_disk st))) k)"
  using seed_scan_clean [OF assms(1), of "daily_names (ad_files (as_disk st))" E "ad_files (as_disk st)"] assms(2-5)
  by (simp add: seedFromDisk_def listAuditFiles_def loadAll_entries [OF assms(1)])

lemma appendToFile_files:
  assumes "ae_registered E" "ae_write E"
  shows "ad_files (appendToFile cx E e d) = appendRecordLine cx E (entry_file e) e (ad_files d)"
  using assms by (auto simp: appendToFile_def appendTenantMirror_def Let_def split: option.split)

lemma append_persisted: "entry_wf e \<Longrightarrow> add_line cx f (persisted e) bs = add_line cx f e bs"
  using record_text_persisted [of e cx] by (simp add: add_line_def record_line_def record_text_def)

lemma key_nonempty: "step_key E d = Some k \<Longrightarrow> fst (resolveAuditChainKey (ae_key_env E) (ae_key_creation E) True (ad_key d)) = Inr (Some k)"
  by (auto simp: step_key_def split: sum.splits)

lemma digest_keyed: "k \<noteq> [] \<Longrightarrow> digest cx HmacSha256 (Some k) p = Some (cx_hmac cx k p)"
  by (simp add: digest_def truthy_opt_def)

lemma built_key: "build_entry cx E p previous n k = Inr e \<Longrightarrow> k \<noteq> []"
  by (auto simp: build_entry_def Let_def computeAuditEntryHash_def digest_def truthy_opt_def split: sum.splits option.splits if_splits)

text \<open>The master files after a successful call: the day of the record has one line more.\<close>

lemma appended_files:
  assumes chunk: "0 < cx_chunk cx" and e: "storable cx e"
    and fs: "distinct (map fst fs)" and day: "extractAuditDate (entry_file e) \<noteq> None" "\<forall>n \<in> set (daily_names fs). n \<le> entry_file e"
    and clean: "\<forall>n \<in> set (daily_names fs). file_clean cx (file_bytes fs n)"
    and fs': "fs' = appendRecordLine cx E (entry_file e) e fs"
  shows "files_entries cx fs' (daily_names fs') = files_entries cx fs (daily_names fs) @ [e]"
    and "\<forall>n \<in> set (daily_names fs'). file_clean cx (file_bytes fs' n)"
    and "daily_names fs' = daily_names fs \<or> entry_file e \<notin> set (daily_names fs) \<and> daily_names fs' = daily_names fs @ [entry_file e]"
    and "distinct (map fst fs')"
proof -
  let ?n = "entry_file e"
  obtain forced where u: "fs' = AList.update ?n (add_line cx forced e (file_bytes fs ?n)) fs"
    using fs' appendRecordLine_add by blast
  have content: "file_entries cx (add_line cx forced e bs) = file_entries cx bs @ [e]" for bs
    by (rule daily.content_add [OF e])
  have cl: "file_clean cx bs \<Longrightarrow> file_clean cx (add_line cx forced e bs)" for bs
    by (rule daily.clean_add [OF e])
  have empty: "file_clean cx []" by (simp add: file_clean_def)
  show "distinct (map fst fs')" using fs by (simp add: u distinct_update)
  show names: "daily_names fs' = daily_names fs \<or> ?n \<notin> set (daily_names fs) \<and> daily_names fs' = daily_names fs @ [?n]"
    using daily_names_update_new [OF _ day] daily_names_update_old [of fs ?n]
    by (cases "map_of fs ?n") (simp_all add: u daily_names_mem)
  show "\<forall>n \<in> set (daily_names fs'). file_clean cx (file_bytes fs' n)"
  proof
    fix n assume "n \<in> set (daily_names fs')"
    then have "n = ?n \<or> n \<in> set (daily_names fs)" using names by auto
    moreover have "file_clean cx (file_bytes fs ?n)"
    proof (cases "map_of fs ?n")
      case None
      then show ?thesis using empty by (simp add: file_bytes_absent)
    next
      case (Some bs)
      then have "?n \<in> set (daily_names fs)" using day(1) by (simp add: daily_names_mem)
      then show ?thesis using clean by blast
    qed
    ultimately show "file_clean cx (file_bytes fs' n)" using clean cl by (auto simp: u)
  qed
  show "files_entries cx fs' (daily_names fs') = files_entries cx fs (daily_names fs) @ [e]"
  proof (cases "map_of fs ?n")
    case None
    have "?n \<notin> set (daily_names fs)" using None by (simp add: daily_names_mem)
    moreover have "file_entries cx [] = []" by (simp add: file_entries_def)
    ultimately show ?thesis using daily_names_update_new [OF None day] content [of "[]"] file_bytes_absent [OF None]
      by (simp add: u files_entries_append files_entries_update) (simp add: files_entries_def)
  next
    case (Some bs)
    then have "?n \<in> set (daily_names fs)" using day(1) by (simp add: daily_names_mem)
    from newest_is_last [OF fs this day(2)] obtain ns where ns: "daily_names fs = ns @ [?n]" "?n \<notin> set ns" .
    have "daily_names fs' = ns @ [?n]" using daily_names_update_old [of fs ?n] Some ns by (simp add: u)
    then show ?thesis using ns content [of "file_bytes fs ?n"]
      by (simp add: u files_entries_append files_entries_update) (simp add: files_entries_def)
  qed
qed

lemma entry_file_persisted [simp]: "entry_file (persisted e) = entry_file e"
  by (simp add: entry_file_def)

lemma appendRecordLine_persisted:
  "entry_wf e \<Longrightarrow> appendRecordLine cx E name (persisted e) fs = appendRecordLine cx E name e fs"
  by (simp add: appendRecordLine_add append_persisted)

text \<open>C12. Recording keeps the chain verified, when nothing fails around it: if the chain verifies under the current
  key, the files can be read, listed and written in this step (a failed write goes unnoticed), no denials are held back,
  the process is not inside another locked operation, digests are hexadecimal, the text of the new record parses
  back to it, and its day is that of the newest file or the day after it (a day without records would show as a
  gap), then a successful \<open>record\<close> adds exactly the returned record at the end of the chain, and the
  chain verifies again with one valid record more.\<close>

theorem recording_keeps_the_chain_verified:
  assumes platform: "0 < cx_chunk cx" "hex_digests cx" "prints_back cx e"
    and env: "E = W (as_step st)" "ae_registered E" "ae_write E" "ae_list E = ReadOk" "\<forall>n. ae_read E n 0 = ReadOk" "ae_denials E = []"
    and state: "idle st" "distinct (map fst (ad_files (as_disk st)))"
    and key: "step_key E (as_disk st) = Some k"
    and before: "vr_corrupted (verify_chain cx (Some k) all_read None rk (as_disk st)) = []"
    and call: "record_entry cx W input st = (Inr e, st')"
    and day: "extractAuditDate (entry_file e) \<noteq> None" "\<forall>n \<in> set (daily_names (ad_files (as_disk st))). n \<le> entry_file e"
      "entry_file e \<in> set (daily_names (ad_files (as_disk st))) \<or>
        days_follow (last_day None (daily_names (ad_files (as_disk st)))) [entry_file e]"
  shows "loadAll cx all_read (as_disk st') = loadAll cx all_read (as_disk st) @ [persisted e] \<and>
    vr_corrupted (verify_chain cx (Some k) all_read None rk (as_disk st')) = [] \<and>
    vr_valid (verify_chain cx (Some k) all_read None rk (as_disk st')) =
      vr_valid (verify_chain cx (Some k) all_read None rk (as_disk st)) + 1"
proof -
  let ?fs = "ad_files (as_disk st)"
  note iff = verify_clean_iff(1) [OF platform(1)] and len = verify_clean_iff(2) [OF platform(1)]
  note b = iff [THEN iffD1, OF before]
  have noden: "ae_denials (W (as_step st)) = []" using env(1,6) by simp
  obtain p previous cnt k' keyFile where s: "seedFromDisk cx E (st\<lparr>as_depth := 1, as_step := as_step st + 1\<rparr>) = Inr (SeedOk previous cnt)"
      "step_key E (as_disk st) = Some k'" "build_entry cx E p previous (cnt + 1) k' = Inr e"
      "as_disk st' = appendToFile cx E e ((as_disk st)\<lparr>ad_key := keyFile\<rparr>)"
    using record_entry_success [OF call state(1) noden] env(1) by metis
  have k': "k' = k" using s(2) key by simp
  note built = build_entry_facts [OF s(3) platform(2)]
  have previous: "previous = chain_end GENESIS_HASH (loadAll cx all_read (as_disk st))"
    using seed_clean [OF platform(1) env(2,4) _, of "st\<lparr>as_depth := 1, as_step := as_step st + 1\<rparr>"] env(5) b s(1) by auto
  have st: "storable cx (persisted e)" by (rule persisted_storable [OF built(1) platform(3)])
  have fs': "ad_files (as_disk st') = appendRecordLine cx E (entry_file (persisted e)) (persisted e) ?fs"
    using appendToFile_files [OF env(2,3)] by (simp add: s(4) appendRecordLine_persisted [OF built(1)])
  have "extractAuditDate (entry_file (persisted e)) \<noteq> None" "\<forall>n \<in> set (daily_names ?fs). n \<le> entry_file (persisted e)"
    using day(1,2) by simp_all
  note after = appended_files [OF platform(1) st state(2) this _ fs']
  have clean: "\<forall>n \<in> set (daily_names ?fs). file_clean cx (file_bytes ?fs n)" using b by blast
  have load: "loadAll cx all_read (as_disk st') = loadAll cx all_read (as_disk st) @ [persisted e]"
    using after(1) [OF clean] by (simp add: loadAll_entries [OF platform(1)])
  have "sound_entries cx (Some k) rk keyed (chain_end GENESIS_HASH (loadAll cx all_read (as_disk st))) [persisted e]" for keyed
    using built previous k' built_key [OF s(3)]
    by (simp add: entry_alg_def entry_key_def verifyAuditEntryHash_def computeAuditEntryHash_text digest_keyed)
  then have sound: "sound_entries cx (Some k) rk False GENESIS_HASH (loadAll cx all_read (as_disk st'))"
    unfolding load sound_entries_append using b by blast
  have "days_follow None (daily_names (ad_files (as_disk st')))"
    using after(3) [OF clean] b day(3) by (auto simp: days_follow_append)
  then have corrupted: "vr_corrupted (verify_chain cx (Some k) all_read None rk (as_disk st')) = []"
    using iff sound after(2) [OF clean] by blast
  then show ?thesis using len [OF before] len [OF corrupted] load by simp
qed

text \<open>C37. A record whose write fails is reported as recorded: \<open>record\<close> returns it and the forwarder gets it, the master
  files stay as they were, and the next record is linked to the same predecessor, so the forwarder holds two
  records after one and the chain only the second.\<close>

theorem failed_write_is_reported_as_recorded:
  assumes chunk: "0 < cx_chunk cx" "hex_digests cx" and st: "idle st" and w1: "\<not> ae_write (W (as_step st))"
    and env: "\<forall>i. ae_registered (W i) \<and> ae_list (W i) = ReadOk \<and> (\<forall>n. ae_read (W i) n 0 = ReadOk) \<and> ae_denials (W i) = []"
    and clean: "\<forall>n \<in> set (daily_names (ad_files (as_disk st))). file_clean cx (file_bytes (ad_files (as_disk st)) n)"
    and calls: "record_entry cx W first st = (Inr e1, st1)" "record_entry cx W second st1 = (Inr e2, st2)"
  shows "ad_files (as_disk st1) = ad_files (as_disk st) \<and> au_previous e2 = au_previous e1 \<and>
    as_sent st2 = as_sent st @ [e1, e2]"
proof -
  have nd: "ae_denials (W i) = []" for i using env by blast
  obtain p1 prev1 n1 k1 f1 where s1: "seedFromDisk cx (W (as_step st)) (st\<lparr>as_depth := 1, as_step := as_step st + 1\<rparr>) = Inr (SeedOk prev1 n1)"
      "build_entry cx (W (as_step st)) p1 prev1 (n1 + 1) k1 = Inr e1"
      "as_disk st1 = appendToFile cx (W (as_step st)) e1 ((as_disk st)\<lparr>ad_key := f1\<rparr>)" "as_sent st1 = as_sent st @ [e1]" "idle st1"
    by (rule record_entry_success [OF calls(1) st nd])
  obtain p2 prev2 n2 k2 f2 where s2: "seedFromDisk cx (W (as_step st1)) (st1\<lparr>as_depth := 1, as_step := as_step st1 + 1\<rparr>) = Inr (SeedOk prev2 n2)"
      "build_entry cx (W (as_step st1)) p2 prev2 (n2 + 1) k2 = Inr e2" "as_sent st2 = as_sent st1 @ [e2]"
    by (rule record_entry_success [OF calls(2) s1(5) nd])
  have same: "ad_files (as_disk st1) = ad_files (as_disk st)"
    using w1 by (simp add: s1(3) appendToFile_def appendTenantMirror_def Let_def split: option.split)
  have load: "loadAll cx all_read (as_disk st1) = loadAll cx all_read (as_disk st)" by (simp add: loadAll_def same)
  have "prev1 = chain_end GENESIS_HASH (loadAll cx all_read (as_disk st))"
    using seed_clean [OF chunk(1), of "W (as_step st)" "st\<lparr>as_depth := 1, as_step := as_step st + 1\<rparr>"] env clean s1(1) by auto
  moreover have "prev2 = chain_end GENESIS_HASH (loadAll cx all_read (as_disk st))"
    using seed_clean [OF chunk(1), of "W (as_step st1)" "st1\<lparr>as_depth := 1, as_step := as_step st1 + 1\<rparr>"] env clean s2(1)
    by (auto simp: load same)
  ultimately show ?thesis
    using build_entry_facts(2) [OF s1(2) chunk(2)] build_entry_facts(2) [OF s2(2) chunk(2)] s1(4) s2(3) same by simp
qed

text \<open>A first record on an empty disk, with a printer and a parser for that record.\<close>

definition first_input :: json where
  "first_input = lifecycle_entry ''worker'' ''spawn''"

definition first_entry :: audit_entry where
  "first_entry =
    \<lparr>au_id = ''AUD-T-1'', au_timestamp = ''2026-01-02T03:04:05.000Z'', au_agent = ''worker'', au_action = ''lifecycle'',
     au_operation = ''spawn'', au_result = Completed, au_reason = None, au_correlation = None, au_metadata = None,
     au_compliance = None, au_tenant = None,
     au_scope = Some (JObj [(''tier'', JStr ''public''), (''scope_kind'', JStr ''system'')]), au_actor = None,
     au_alg = Some HmacSha256, au_key_id = Some (replicate 16 (CHR ''b'')), au_previous = GENESIS_HASH,
     au_current = replicate 64 (CHR ''a'')\<rparr>"

definition first_codec :: codec where
  "first_codec =
    \<lparr>cx_sha = (\<lambda>_. replicate 64 (CHR ''b'')), cx_hmac = (\<lambda>_ _. replicate 64 (CHR ''a'')), cx_stringify = (\<lambda>_. ''{}''),
     cx_parse = (\<lambda>_. Some (entry_json first_entry)), cx_chunk = 4, cx_maxLine = 10\<rparr>"

definition first_env :: audit_env where
  "first_env =
    \<lparr>ae_registered = True, ae_list = ReadOk, ae_read = (\<lambda>_ _. ReadOk), ae_tail = (\<lambda>_. True), ae_safe = (\<lambda>_. True),
     ae_write = True, ae_mirror = MirrorWritten, ae_lock = True, ae_denials = [], ae_id_time = ''T'',
     ae_now = ''2026-01-02T03:04:05.000Z'', ae_key_env = Some ''k'', ae_key_creation = KeyRefused, ae_bound = None,
     ae_env_tenant = None, ae_mission = None, ae_mission_states = [], ae_env_tier = None\<rparr>"

definition fresh_state :: audit_state where
  "fresh_state =
    \<lparr>as_disk = \<lparr>ad_files = [], ad_mirrors = [], ad_key = None\<rparr>, as_last = GENESIS_HASH, as_count = 0, as_depth = 0,
     as_deferred = [], as_flushing = False, as_sent = [], as_step = 0\<rparr>"

lemma first_record: "fst (record_entry first_codec (\<lambda>_. first_env) first_input fresh_state) = Inr first_entry"
  by code_simp

theorem recording_keeps_the_chain_verified_witness:
  "\<exists>st'. record_entry first_codec (\<lambda>_. first_env) first_input fresh_state = (Inr first_entry, st') \<and>
    loadAll first_codec all_read (as_disk st') = [persisted first_entry] \<and>
    vr_corrupted (verify_chain first_codec (Some ''k'') all_read None True (as_disk st')) = []"
proof -
  obtain st' where call: "record_entry first_codec (\<lambda>_. first_env) first_input fresh_state = (Inr first_entry, st')"
    using first_record by (metis prod.collapse)
  have hex: "hex_digests first_codec" by (simp add: hex_digests_def first_codec_def hex_text_def list_all_iff)
  have prints: "prints_back first_codec first_entry" by code_simp
  have before: "vr_corrupted (verify_chain first_codec (Some ''k'') all_read None True (as_disk fresh_state)) = []"
    "loadAll first_codec all_read (as_disk fresh_state) = []" by code_simp+
  have day: "extractAuditDate (entry_file first_entry) \<noteq> None" "daily_names (ad_files (as_disk fresh_state)) = []"
    "days_follow (last_day None []) [entry_file first_entry]" "step_key first_env (as_disk fresh_state) = Some ''k''" by code_simp+
  have "loadAll first_codec all_read (as_disk st') = loadAll first_codec all_read (as_disk fresh_state) @ [persisted first_entry] \<and>
    vr_corrupted (verify_chain first_codec (Some ''k'') all_read None True (as_disk st')) = [] \<and>
    vr_valid (verify_chain first_codec (Some ''k'') all_read None True (as_disk st')) =
      vr_valid (verify_chain first_codec (Some ''k'') all_read None True (as_disk fresh_state)) + 1"
    by (rule recording_keeps_the_chain_verified [OF _ hex prints _ _ _ _ _ _ _ _ _ before(1) call day(1)])
      (use day in \<open>simp_all add: first_codec_def first_env_def fresh_state_def idle_def\<close>)
  then show ?thesis using call before(2) by auto
qed

theorem failed_write_is_reported_as_recorded_witness:
  "\<exists>e1 e2 st1 st2. record_entry first_codec (\<lambda>i. first_env\<lparr>ae_write := 0 < i\<rparr>) first_input fresh_state = (Inr e1, st1) \<and>
    record_entry first_codec (\<lambda>i. first_env\<lparr>ae_write := 0 < i\<rparr>) first_input st1 = (Inr e2, st2) \<and>
    ad_files (as_disk st1) = [] \<and> au_previous e2 = au_previous e1 \<and> as_sent st2 = [e1, e2]"
proof -
  let ?W = "\<lambda>i :: nat. first_env\<lparr>ae_write := 0 < i\<rparr>"
  let ?r1 = "record_entry first_codec ?W first_input fresh_state" and ?r2 = "\<lambda>s. record_entry first_codec ?W first_input s"
  have ok: "isl (fst ?r1) = False \<and> isl (fst (?r2 (snd ?r1))) = False" by code_simp
  then obtain e1 st1 where c1: "?r1 = (Inr e1, st1)" by (cases ?r1; cases "fst ?r1") auto
  with ok [THEN conjunct2] obtain e2 st2 where c2: "?r2 st1 = (Inr e2, st2)" by (cases "?r2 st1"; cases "fst (?r2 st1)") auto
  have hex: "hex_digests first_codec" by (simp add: hex_digests_def first_codec_def hex_text_def list_all_iff)
  have d: "daily_names (ad_files (as_disk fresh_state)) = []" by code_simp
  have "ad_files (as_disk st1) = ad_files (as_disk fresh_state) \<and> au_previous e2 = au_previous e1 \<and>
      as_sent st2 = as_sent fresh_state @ [e1, e2]"
    by (rule failed_write_is_reported_as_recorded [OF _ hex _ _ _ _ c1 c2])
      (use d in \<open>simp_all add: first_codec_def first_env_def fresh_state_def idle_def\<close>)
  then show ?thesis using c1 c2 by (auto simp: fresh_state_def)
qed

end
