(* ===== verification/Audit_History.thy ===== *)
theory Audit_History
  imports Audit_Append
begin

text \<open>
  What a clean verification of the audit chain is worth: the newest hash pins every record before it, as long as the
  digests of the records at hand do not collide; and the verification of a window, together with that of the files
  before it, is the verification of the whole.
\<close>

section \<open>The newest hash pins the history\<close>

definition payload :: "codec \<Rightarrow> audit_entry \<Rightarrow> string" where
  "payload cx e = au_previous e @ hash_text cx e"

definition entry_digest :: "codec \<Rightarrow> string option \<Rightarrow> audit_entry \<Rightarrow> string option" where
  "entry_digest cx key e = digest cx (entry_alg e) (entry_key key e) (payload cx e)"

text \<open>What is asked of the platform on the records at hand: their digests do not collide and are not the genesis
  value, and the text of a record parses back.\<close>

definition distinguishes :: "codec \<Rightarrow> string option \<Rightarrow> audit_entry list \<Rightarrow> bool" where
  "distinguishes cx key es \<longleftrightarrow>
    (\<forall>a \<in> set es. \<forall>b \<in> set es. entry_digest cx key a = entry_digest cx key b \<longrightarrow> payload cx a = payload cx b) \<and>
    (\<forall>a \<in> set es. entry_digest cx key a \<noteq> Some GENESIS_HASH) \<and>
    (\<forall>a \<in> set es. cx_parse cx (hash_text cx a) = Some (json_persist (hashed_json a)))"

definition record_json_of :: "audit_entry \<Rightarrow> json" where
  "record_json_of e = json_persist (entry_json e)"

lemma digest_hex: "hex_digests cx \<Longrightarrow> digest cx a k p = Some h \<Longrightarrow> hex_text h"
  by (cases a) (auto simp: hex_digests_def digest_def split: if_splits)

lemma sound_links:
  assumes "sound_entries cx key rk keyed prev es" "hex_digests cx" "length prev = 64" "e \<in> set es"
  shows "entry_digest cx key e = Some (au_current e)" "length (au_previous e) = 64" "length (au_current e) = 64"
proof -
  have "\<forall>e \<in> set es. entry_digest cx key e = Some (au_current e) \<and> length (au_previous e) = 64 \<and> length (au_current e) = 64"
    using assms(1,3)
  proof (induction es arbitrary: keyed prev)
    case (Cons x es)
    have d: "entry_digest cx key x = Some (au_current x)" "au_previous x = prev"
      using Cons.prems(1)
      by (auto simp: verifyAuditEntryHash_def computeAuditEntryHash_text entry_digest_def payload_def
          split: if_splits option.splits)
    then have "hex_text (au_current x)"
      using digest_hex [OF assms(2)] by (simp add: entry_digest_def)
    then have "length (au_current x) = 64" by (simp add: hex_text_def)
    then show ?case using Cons d by auto
  qed simp
  then show "entry_digest cx key e = Some (au_current e)" "length (au_previous e) = 64" "length (au_current e) = 64"
    using assms(4) by blast+
qed

lemma sound_last:
  assumes "sound_entries cx key rk keyed prev (es @ [e])"
  shows "sound_entries cx key rk keyed prev es" "au_previous e = chain_end prev es"
  using assms by (auto simp: sound_entries_append verifyAuditEntryHash_def split: if_splits)

lemma record_json_same:
  assumes "json_persist (hashed_json a) = json_persist (hashed_json b)" "au_current a = au_current b"
  shows "record_json_of a = record_json_of b"
proof -
  obtain ka kb where k: "hashed_json a = JObj ka" "entry_json a = JObj (ka @ [(''currentHash'', JStr (au_current a))])"
    "hashed_json b = JObj kb" "entry_json b = JObj (kb @ [(''currentHash'', JStr (au_current b))])"
    by (simp add: hashed_json_def entry_json_def)
  show ?thesis using assms by (simp add: record_json_of_def k)
qed

lemma same_head_same_history:
  assumes "sound_entries cx key rk False GENESIS_HASH es" "sound_entries cx key rk False GENESIS_HASH fs"
    "hex_digests cx" "distinguishes cx key all" "set es \<subseteq> set all" "set fs \<subseteq> set all"
    "es \<noteq> []" "fs \<noteq> []" "au_current (last es) = au_current (last fs)"
  shows "map record_json_of es = map record_json_of fs"
  using assms(1,2,5-9)
proof (induction es arbitrary: fs rule: rev_induct)
  case (snoc a es)
  obtain gs b where fs: "fs = gs @ [b]" using snoc.prems(6) by (metis rev_exhaust)
  have g: "length GENESIS_HASH = 64" by (simp add: GENESIS_HASH_def)
  note la = sound_links [OF snoc.prems(1) assms(3) g] and lb = sound_links [OF snoc.prems(2) [unfolded fs] assms(3) g]
  have mem: "a \<in> set all" "b \<in> set all" using snoc.prems(3,4) by (simp_all add: fs)
  have cur: "au_current a = au_current b" using snoc.prems(7) by (simp add: fs)
  have da: "entry_digest cx key a = Some (au_current a)" "length (au_previous a) = 64" by (rule la; simp)+
  have db: "entry_digest cx key b = Some (au_current b)" "length (au_previous b) = 64" by (rule lb; simp)+
  have "entry_digest cx key a = entry_digest cx key b" using da(1) db(1) cur by simp
  then have "payload cx a = payload cx b"
    using assms(4) [unfolded distinguishes_def] mem by blast
  then have prev: "au_previous a = au_previous b" and same_text: "hash_text cx a = hash_text cx b"
    using da(2) db(2) by (simp_all add: payload_def)
  have "json_persist (hashed_json a) = json_persist (hashed_json b)"
    using same_text mem assms(4) [unfolded distinguishes_def] by (metis option.inject)
  then have ab: "record_json_of a = record_json_of b" using cur by (rule record_json_same)
  note sa = sound_last [OF snoc.prems(1)] and sb = sound_last [OF snoc.prems(2) [unfolded fs]]
  have ends: "chain_end GENESIS_HASH es = chain_end GENESIS_HASH gs" using prev sa(2) sb(2) by simp
  have ng: "x \<in> set all \<Longrightarrow> entry_digest cx key x \<noteq> Some GENESIS_HASH" for x using assms(4) by (simp add: distinguishes_def)
  show ?case
  proof (cases "es = []")
    case True
    have "gs = []"
    proof (rule ccontr)
      assume ne: "gs \<noteq> []"
      then have "entry_digest cx key (last gs) = Some GENESIS_HASH"
        using ends True lb(1) [of "last gs"] by (simp add: chain_end_def)
      moreover have "last gs \<in> set all" using last_in_set [OF ne] snoc.prems(4) by (auto simp: fs)
      ultimately show False using ng by blast
    qed
    then show ?thesis using True ab by (simp add: fs)
  next
    case False
    have "gs \<noteq> []"
    proof
      assume "gs = []"
      then have "entry_digest cx key (last es) = Some GENESIS_HASH"
        using ends False la(1) [of "last es"] by (simp add: chain_end_def)
      moreover have "last es \<in> set all" using last_in_set [OF False] snoc.prems(3) by auto
      ultimately show False using ng by blast
    qed
    then have "map record_json_of es = map record_json_of gs"
      using snoc.IH [OF sa(1) sb(1)] snoc.prems(3,4) False ends by (simp add: fs chain_end_def)
    then show ?thesis using ab by (simp add: fs)
  qed
qed simp

text \<open>C11. The newest hash pins the history: two disks whose chains both verify and end in the same hash hold the same
  records, as JSON, in the same order. So nothing before a known newest hash can be changed, removed, inserted or
  reordered without the verification reporting it.\<close>

theorem newest_hash_pins_the_history:
  assumes "0 < cx_chunk cx" "hex_digests cx"
    and verified: "vr_corrupted (verify_chain cx key all_read None rk d) = []"
      "vr_corrupted (verify_chain cx key all_read None rk d') = []"
    and head: "loadAll cx all_read d \<noteq> []" "loadAll cx all_read d' \<noteq> []"
      "au_current (last (loadAll cx all_read d)) = au_current (last (loadAll cx all_read d'))"
    and platform: "distinguishes cx key (loadAll cx all_read d @ loadAll cx all_read d')"
  shows "map record_json_of (loadAll cx all_read d) = map record_json_of (loadAll cx all_read d')"
proof -
  have "sound_entries cx key rk False GENESIS_HASH (loadAll cx all_read d)"
    "sound_entries cx key rk False GENESIS_HASH (loadAll cx all_read d')"
    using verify_clean_iff(1) [OF assms(1)] verified by blast+
  then show ?thesis by (rule same_head_same_history [OF _ _ assms(2) platform _ _ head]) auto
qed

text \<open>Two disks that differ in a blank line.\<close>

definition second_codec :: codec where
  "second_codec = first_codec\<lparr>
    cx_stringify := (\<lambda>v. if jget v ''currentHash'' = JUndef then ''h'' else ''{}''),
    cx_parse := (\<lambda>s. Some (if s = ''h'' then hashed_json first_entry else entry_json first_entry))\<rparr>"

definition first_disk :: "bytes \<Rightarrow> audit_disk" where
  "first_disk bs = \<lparr>ad_files = [(''audit-2026-01-02.jsonl'', bs)], ad_mirrors = [], ad_key = None\<rparr>"

theorem newest_hash_pins_the_history_witness:
  "map record_json_of (loadAll second_codec all_read (first_disk ''{}\<newline>'')) =
    map record_json_of (loadAll second_codec all_read (first_disk ''{}\<newline>\<newline>''))"
proof -
  have load: "loadAll second_codec all_read (first_disk ''{}\<newline>'') = [first_entry]"
    "loadAll second_codec all_read (first_disk ''{}\<newline>\<newline>'') = [first_entry]" by code_simp+
  have verified: "vr_corrupted (verify_chain second_codec (Some ''k'') all_read None True (first_disk ''{}\<newline>'')) = []"
    "vr_corrupted (verify_chain second_codec (Some ''k'') all_read None True (first_disk ''{}\<newline>\<newline>'')) = []" by code_simp+
  have hex: "hex_digests second_codec" by (simp add: hex_digests_def second_codec_def first_codec_def hex_text_def list_all_iff)
  have platform: "distinguishes second_codec (Some ''k'') [first_entry, first_entry]" by code_simp
  show ?thesis
    by (rule newest_hash_pins_the_history [OF _ hex verified])
      (use platform in \<open>simp_all add: load second_codec_def [THEN arg_cong, of cx_chunk] first_codec_def\<close>)
qed

section \<open>Verifying a window\<close>

lemma append_same_suffix: "length x = length y \<Longrightarrow> x @ z \<le> y @ z \<longleftrightarrow> x \<le> y" for x y z :: string
  by (induction x y rule: list_induct2) simp_all

lemma extract_date: "extractAuditDate n = Some d \<Longrightarrow> n = daily_name d \<and> is_date d"
  by (auto simp: extractAuditDate_def Let_def split: if_splits)

lemma daily_name_order:
  assumes "extractAuditDate n = Some d" "extractAuditDate m = Some d'" "n \<le> m"
  shows "d \<le> d'"
proof -
  have "n = daily_name d" "m = daily_name d'" "length d = 10" "length d' = 10"
    using assms(1,2) by (auto dest!: extract_date simp: is_date_def)
  then show ?thesis using assms(3) append_same_suffix [of d d' "''.jsonl''"] by (simp add: daily_name_def)
qed

lemma in_window_upward:
  assumes "in_window since n" "n \<le> m" "extractAuditDate n \<noteq> None" "extractAuditDate m \<noteq> None"
  shows "in_window since m"
  using assms daily_name_order [of n _ m] by (auto simp: in_window_def split: option.splits intro: order_trans)

lemma filter_split_upward:
  fixes P :: "'a \<Rightarrow> bool"
  assumes "\<And>xs x y ys. ns = xs @ x # ys \<Longrightarrow> y \<in> set ys \<Longrightarrow> P x \<Longrightarrow> P y"
  shows "ns = filter (\<lambda>n. \<not> P n) ns @ filter P ns"
  using assms
proof (induction ns)
  case (Cons n ns)
  show ?case
  proof (cases "P n")
    case True
    then have "\<forall>y \<in> set ns. P y" using Cons.prems [of "[]" n ns] by simp
    then show ?thesis using True by (simp add: filter_empty_conv filter_id_conv)
  next
    case False
    have "ns = filter (\<lambda>n. \<not> P n) ns @ filter P ns"
    proof (rule Cons.IH)
      fix xs x y ys assume "ns = xs @ x # ys" "y \<in> set ys" "P x"
      then show "P y" using Cons.prems [of "n # xs" x ys y] by simp
    qed
    then show ?thesis using False by simp
  qed
qed simp

lemma window_splits: "daily_names fs = filter (\<lambda>n. \<not> in_window since n) (daily_names fs) @ filter (in_window since) (daily_names fs)"
proof (rule filter_split_upward)
  fix xs x y ys
  assume s: "daily_names fs = xs @ x # ys" and y: "y \<in> set ys" and w: "in_window since x"
  have "x \<le> y" using sorted_daily_names [of fs] y by (auto simp: s sorted_append)
  moreover have "x \<in> set (daily_names fs)" "y \<in> set (daily_names fs)" using y by (auto simp: s)
  ultimately show "in_window since y" using in_window_upward [OF w] by (simp add: daily_names_mem)
qed

lemma keyed_alg: "au_alg e = Some HmacSha256 \<longleftrightarrow> entry_alg e = HmacSha256"
  by (auto simp: entry_alg_def split: option.splits)

text \<open>The scan back from the boundary only looks for a keyed record.\<close>

lemma boundary_scan_rest:
  assumes "0 < cx_chunk cx" "boundary_scan cx all_read fs names (Some b) vs = (b', vs')"
  shows "b' = Some b \<and> vs_corrupted vs' = vs_corrupted vs \<and> vs_prev vs' = vs_prev vs \<and> vs_date vs' = vs_date vs \<and>
    vs_total vs' = vs_total vs \<and> vs_invalid vs' = vs_invalid vs \<and>
    tk_keyed (vs_tracker vs') = (tk_keyed (vs_tracker vs) \<or> (\<exists>e \<in> set (files_entries cx fs names). entry_alg e = HmacSha256))"
  using assms(2)
proof (induction names arbitrary: vs)
  case (Cons n names)
  let ?k = "\<exists>e \<in> set (file_entries cx (file_bytes fs n)). entry_alg e = HmacSha256"
  show ?case
  proof (cases ?k)
    case True
    then have "b' = Some b" "vs' = vs\<lparr>vs_tracker := tracker_seed (Some HmacSha256) (vs_tracker vs)\<rparr>"
      using Cons.prems by (auto simp: Let_def read_file(1) [OF assms(1)] keyed_alg)
    then show ?thesis using True by (simp add: tracker_seed_def files_entries_def) blast
  next
    case False
    then have "boundary_scan cx all_read fs names (Some b) vs = (b', vs')"
      using Cons.prems by (simp add: Let_def read_file(1) [OF assms(1)] keyed_alg split: if_splits)
    from Cons.IH [OF this] show ?thesis using False by (simp add: files_entries_def) blast
  qed
qed (simp add: files_entries_def)

lemma boundary_scan_newest:
  assumes "0 < cx_chunk cx" "file_entries cx (file_bytes fs n) \<noteq> []" "file_clean cx (file_bytes fs n)"
    and "boundary_scan cx all_read fs (n # names) None vs = (b', vs')"
  shows "b' = Some (last (file_entries cx (file_bytes fs n))) \<and> vs_corrupted vs' = vs_corrupted vs \<and> vs_prev vs' = vs_prev vs \<and>
    vs_date vs' = extractAuditDate n \<and> vs_total vs' = vs_total vs \<and> vs_invalid vs' = vs_invalid vs \<and>
    tk_keyed (vs_tracker vs') = (tk_keyed (vs_tracker vs) \<or> (\<exists>e \<in> set (files_entries cx fs (n # names)). entry_alg e = HmacSha256))"
proof -
  define vs1 where "vs1 = vs\<lparr>vs_date := extractAuditDate n\<rparr>"
  let ?b = "last (file_entries cx (file_bytes fs n))"
  let ?k = "\<exists>e \<in> set (file_entries cx (file_bytes fs n)). entry_alg e = HmacSha256"
  have clean: "readFindings n (readAuditFileForVerify cx all_read fs n) = []" using read_file(2) [OF assms(1)] assms(3) by blast
  show ?thesis
  proof (cases ?k)
    case True
    then have "b' = Some ?b" "vs' = vs1\<lparr>vs_tracker := tracker_seed (Some HmacSha256) (vs_tracker vs1)\<rparr>"
      using assms(2,4) clean by (auto simp: Let_def read_file(1) [OF assms(1)] keyed_alg vs1_def)
    then show ?thesis using True by (simp add: tracker_seed_def files_entries_def vs1_def) blast
  next
    case False
    then have "boundary_scan cx all_read fs names (Some ?b) vs1 = (b', vs')"
      using assms(2,4) clean by (simp add: Let_def read_file(1) [OF assms(1)] keyed_alg vs1_def split: if_splits)
    from boundary_scan_rest [OF assms(1) this] show ?thesis using False by (simp add: files_entries_def vs1_def) blast
  qed
qed

text \<open>The disk with the files before the window only.\<close>

definition before_window :: "string option \<Rightarrow> audit_disk \<Rightarrow> audit_disk" where
  "before_window since d = d\<lparr>ad_files := filter (\<lambda>(n, _). \<not> in_window since n) (ad_files d)\<rparr>"

lemma daily_names_before: "daily_names (ad_files (before_window since d)) = filter (\<lambda>n. \<not> in_window since n) (daily_names (ad_files d))"
proof -
  have "map fst (filter (\<lambda>(n, _). P n) fs) = filter P (map fst fs)" for P and fs :: daily_files
    by (induction fs) auto
  then show ?thesis by (simp add: daily_names_def before_window_def filter_sort conj_commute)
qed

lemma file_bytes_before:
  "\<not> in_window since n \<Longrightarrow> file_bytes (ad_files (before_window since d)) n = file_bytes (ad_files d) n"
proof -
  have "P n \<Longrightarrow> map_of (filter (\<lambda>(n, _). P n) fs) n = map_of fs n" for P and fs :: daily_files
    by (induction fs) auto
  then show "\<not> in_window since n \<Longrightarrow> file_bytes (ad_files (before_window since d)) n = file_bytes (ad_files d) n"
    by (simp add: file_bytes_def before_window_def)
qed

lemma files_entries_before:
  "\<forall>n \<in> set names. \<not> in_window since n \<Longrightarrow>
    files_entries cx (ad_files (before_window since d)) names = files_entries cx (ad_files d) names"
  by (induction names) (simp_all add: files_entries_def file_bytes_before)

lemma last_day_snoc: "extractAuditDate n \<noteq> None \<Longrightarrow> last_day p (ns @ [n]) = extractAuditDate n"
  by (auto simp: last_day_def)

text \<open>What a window starts from, when the files before it verify and hold records.\<close>

lemma window_start:
  assumes chunk: "0 < cx_chunk cx" and names: "\<forall>n \<in> set before. extractAuditDate n \<noteq> None \<and> file_entries cx (file_bytes fs n) \<noteq> [] \<and> file_clean cx (file_bytes fs n)"
    and scan: "boundary_scan cx all_read fs (rev before) None verify_init = (b, vs1)"
  defines "vs2 \<equiv> (case b of None \<Rightarrow> vs1 | Some e \<Rightarrow> vs1\<lparr>vs_prev := au_current e\<rparr>)"
  shows "(b = None \<longrightarrow> before = []) \<and> vs_corrupted vs2 = [] \<and> vs_date vs2 = last_day None before \<and>
    vs_prev vs2 = chain_end GENESIS_HASH (files_entries cx fs before) \<and> vs_total vs2 = 0 \<and> vs_invalid vs2 = 0 \<and>
    tk_keyed (vs_tracker vs2) = (\<exists>e \<in> set (files_entries cx fs before). entry_alg e = HmacSha256)"
proof (cases before rule: rev_cases)
  case Nil
  then show ?thesis using scan
    by (auto simp: vs2_def verify_init_def createChainAlgTracker_def last_day_def chain_end_def files_entries_def)
next
  case (snoc ns n)
  then have n: "file_entries cx (file_bytes fs n) \<noteq> []" "file_clean cx (file_bytes fs n)" "extractAuditDate n \<noteq> None"
    using names by simp_all
  have "boundary_scan cx all_read fs (n # rev ns) None verify_init = (b, vs1)" using scan snoc by simp
  note f = boundary_scan_newest [OF chunk n(1,2) this]
  have mem: "(\<exists>e \<in> set (files_entries cx fs (n # rev ns)). P e) \<longleftrightarrow> (\<exists>e \<in> set (files_entries cx fs before). P e)" for P
    by (auto simp: files_entries_def snoc)
  have "chain_end GENESIS_HASH (files_entries cx fs before) = au_current (last (file_entries cx (file_bytes fs n)))"
    using n(1) by (simp add: snoc files_entries_def chain_end_def)
  then show ?thesis using f last_day_snoc [OF n(3), of None ns]
    by (simp add: vs2_def snoc mem [unfolded snoc] verify_init_def createChainAlgTracker_def)
qed

text \<open>C30. When every file before a window holds a record, the verification of the window is that of the whole chain
  taken in two parts: the whole chain verifies exactly when the files before the window verify by themselves
  and the window verifies from its boundary.\<close>

theorem windows_verify_as_the_whole:
  assumes "0 < cx_chunk cx"
    and "\<forall>n \<in> set (filter (\<lambda>n. \<not> in_window since n) (daily_names (ad_files d))). file_entries cx (file_bytes (ad_files d) n) \<noteq> []"
  shows "vr_corrupted (verify_chain cx key all_read None rk d) = [] \<longleftrightarrow>
    vr_corrupted (verify_chain cx key all_read None rk (before_window since d)) = [] \<and>
    vr_corrupted (verify_chain cx key all_read since rk d) = []"
proof -
  let ?fs = "ad_files d"
  define before where "before = filter (\<lambda>n. \<not> in_window since n) (daily_names ?fs)"
  define win where "win = filter (in_window since) (daily_names ?fs)"
  have names: "daily_names ?fs = before @ win" unfolding before_def win_def by (rule window_splits)
  have nb: "\<forall>n \<in> set before. \<not> in_window since n" by (simp add: before_def)
  have whole: "vr_corrupted (verify_chain cx key all_read None rk d) = [] \<longleftrightarrow> days_follow None (before @ win) \<and>
      (\<forall>n \<in> set (before @ win). file_clean cx (file_bytes ?fs n)) \<and>
      sound_entries cx key rk False GENESIS_HASH (files_entries cx ?fs (before @ win))"
    using verify_clean_iff(1) [OF assms(1)] by (simp only: loadAll_entries [OF assms(1)] names)
  have old: "vr_corrupted (verify_chain cx key all_read None rk (before_window since d)) = [] \<longleftrightarrow> days_follow None before \<and>
      (\<forall>n \<in> set before. file_clean cx (file_bytes ?fs n)) \<and> sound_entries cx key rk False GENESIS_HASH (files_entries cx ?fs before)"
    using verify_clean_iff(1) [OF assms(1), of key rk "before_window since d"] nb files_entries_before [OF nb]
    by (simp add: loadAll_entries [OF assms(1)] daily_names_before before_def [symmetric] file_bytes_before)
  have window: "vr_corrupted (verify_chain cx key all_read since rk d) = [] \<longleftrightarrow> days_follow (last_day None before) win \<and>
      (\<forall>n \<in> set win. file_clean cx (file_bytes ?fs n)) \<and>
      sound_entries cx key rk (\<exists>e \<in> set (files_entries cx ?fs before). entry_alg e = HmacSha256)
        (chain_end GENESIS_HASH (files_entries cx ?fs before)) (files_entries cx ?fs win)"
    if clean: "\<forall>n \<in> set before. file_clean cx (file_bytes ?fs n)"
  proof (cases "truthy_opt since")
    case True
    obtain b vs1 where scan: "boundary_scan cx all_read ?fs (rev before) None verify_init = (b, vs1)" by fastforce
    define vs2 where "vs2 = (case b of None \<Rightarrow> vs1 | Some e \<Rightarrow> vs1\<lparr>vs_prev := au_current e\<rparr>)"
    have "\<forall>n \<in> set before. extractAuditDate n \<noteq> None \<and> file_entries cx (file_bytes ?fs n) \<noteq> [] \<and> file_clean cx (file_bytes ?fs n)"
      using assms(2) clean by (auto simp: before_def daily_names_mem)
    note start = window_start [OF assms(1) this scan, folded vs2_def]
    have limited: "(b = None \<and> before \<noteq> []) = False" using start by blast
    have "vr_corrupted (verify_chain cx key all_read since rk d) = vs_corrupted (fold (verify_file cx key rk False all_read ?fs) win vs2)"
      using True by (simp add: verify_chain_def Let_def before_def [symmetric] win_def [symmetric] scan vs2_def limited)
    then show ?thesis using verify_files_fold [OF assms(1), of key rk ?fs win vs2] start by simp
  next
    case False
    then have "in_window since n" for n by (auto simp: in_window_def truthy_opt_def split: option.splits)
    then have e: "before = []" "win = daily_names ?fs" by (simp_all add: before_def win_def)
    have "verify_chain cx key all_read since rk d = verify_chain cx key all_read None rk d"
      using False \<open>\<And>n. in_window since n\<close> by (simp add: verify_chain_def Let_def in_window_def truthy_opt_def)
    then show ?thesis using whole by (simp add: e files_entries_def last_day_def chain_end_def)
  qed
  show ?thesis
    using whole old window by (auto simp: days_follow_append files_entries_append sound_entries_append)
qed

theorem windows_verify_as_the_whole_witness:
  "vr_corrupted (verify_chain second_codec (Some ''k'') all_read (Some ''2026-01-03'') True (first_disk ''{}\<newline>'')) = [] \<and>
    vr_corrupted (verify_chain second_codec (Some ''k'') all_read None True (first_disk ''{}\<newline>'')) = []"
proof -
  have held: "\<forall>n \<in> set (filter (\<lambda>n. \<not> in_window (Some ''2026-01-03'') n) (daily_names (ad_files (first_disk ''{}\<newline>'')))).
      file_entries second_codec (file_bytes (ad_files (first_disk ''{}\<newline>'')) n) \<noteq> []" by code_simp
  have whole: "vr_corrupted (verify_chain second_codec (Some ''k'') all_read None True (first_disk ''{}\<newline>'')) = []" by code_simp
  have chunk: "0 < cx_chunk second_codec" by (simp add: second_codec_def first_codec_def)
  show ?thesis
    using windows_verify_as_the_whole [OF chunk held, of "Some ''k''" True] whole by simp
qed

end
