(* ===== verification/Spec2Isabelle.thy ===== *)
theory Spec2Isabelle
  imports Kyb_Prelude Json Resource_Claims Tool_Batch Exec_Graph Kahn Graph_Derive Graph_Run
    Graph_Run_Props Tool_Governor Worker_Goal Mesh_Broker Mesh_Ledger Mesh_Props Mesh_Driver
    Writer_Lease Writer_Lease_Props Input_Queue Input_Queue_Props
    Op_Preflight Op_Preflight_Props Adf_Engine Adf_Engine_Props
    Approval_Core Approval_Store Approval_Veto Approval_Gate Approval_Steps Approval_Props
    Approval_Gate_Props Approval_Veto_Props Approval_Challenge_Props Approval_Runs
    Charter_Target Charter_Core Charter_Rules Charter_Props Charter_Registry Charter_Ops Charter_Gate
    Charter_Budget Charter_Lineage Charter_Ledger Charter_Ledger_Props Charter_Runs
    Js_Pattern Approval_Policy Decision_Rights Approval_Policy_Props
    Jsonl_Scan Event_Scope Audit_Core Audit_Chain Audit_Verify Audit_Entry_Props Audit_Clean Audit_Append
    Audit_History
begin

text \<open>
  \<^bold>\<open>Kyberion: a model of the orchestration core\<close>

  Kyberion is an agent operating system: surfaces hand work to a core (\<open>src/libs/core\<close>) that
  plans it as an execution graph, runs tools under claims and limits, pursues goals over several
  turns and exchanges requests with other hosts. The core's own logic is a set of small state
  machines around model calls, processes and files. This development models those state machines
  and proves what makes each of them correct. Models, actuators (browsers, files, media), surfaces
  and the transport are not modelled: where a modelled part calls them they are parameters.

  \<^bold>\<open>Theories\<close> (in the order of use)

  \<^item> \<open>Kyb_Prelude\<close>: types and language operations the models share (trimming, decimal
    printing, insertion-ordered maps), with the rewrite rules for them. \<open>Json\<close>: JSON values
    with the property reads and coercions of the language, and the keys a safe parse refuses.
  \<^item> \<open>Resource_Claims\<close>: the resource claims of \<open>tool/tool-call-scheduler.ts\<close>. The locale
    \<open>conflict_relation\<close> is what a scheduler relies on (a symmetric relation under which
    calls without conflict may overlap); it is interpreted on the typed claims here and on the
    string claims of the graph scheduler in \<open>Graph_Run_Props\<close>.
  \<^item> \<open>Tool_Batch\<close>: \<open>runToolCallBatch\<close> of the same file. A call is the list of its
    synchronous segments; the batch is a step relation in which any ready call may start and any
    started call may run its next segment or settle. Safety (no two running calls conflict), progress,
    and equivalence with the serial execution in request order.
  \<^item> \<open>Exec_Graph\<close>, \<open>Kahn\<close>, \<open>Graph_Derive\<close>: \<open>deriveExecutionGraph\<close> of
    \<open>graph-scheduler.ts\<close>: nodes, channels, edges, the validation errors and the cycle check.
    When the check is exact and when parallel edges defeat it.
  \<^item> \<open>Graph_Run\<close>, \<open>Graph_Run_Props\<close>: \<open>executeGraph\<close> as a step relation over sweeps
    and settlements of nodes: dependencies, claims and concurrency are respected, a run makes
    progress, and a derived graph without errors never reaches the deadlock error.
  \<^item> \<open>Tool_Governor\<close>: the four governors that stop a looping model
    (\<open>tool/tool-call-governor.ts\<close>, \<open>tool/tool-loop-guardrail.ts\<close>,
    \<open>tool/tool-repeat-advisor.ts\<close>).
  \<^item> \<open>Worker_Goal\<close>: the goal state machine of \<open>workforce/worker-goal.ts\<close>.
  \<^item> \<open>Mesh_Broker\<close>, \<open>Mesh_Ledger\<close>, \<open>Mesh_Props\<close>: the delivery ledger of
    \<open>mesh/mesh-message-broker.ts\<close>, its invariant over every reachable ledger, and its
    guarantees. \<open>Mesh_Driver\<close>: the delivery pass of \<open>mesh/mesh-delivery-driver.ts\<close>; the
    locale \<open>delivery_ledger\<close> is the interface \<open>MeshDeliveryBrokerOps\<close> with the laws the
    pass relies on, interpreted on the broker.
  \<^item> \<open>Writer_Lease\<close>, \<open>Writer_Lease_Props\<close>: the fencing-token lease of
    \<open>writer-lease.ts\<close> over the backends of \<open>lease/\<close>. The locale \<open>lease_store\<close>
    states what a backend promises; the memory and the file backend are interpretations. At most one
    token is valid over every history, and what one protected write does on each branch.
  \<^item> \<open>Input_Queue\<close>, \<open>Input_Queue_Props\<close>: the message lanes of an agent of
    \<open>agent/agent-input-queue.ts\<close>, the durable lane as a log of JSON lines with its reducer
    and its compaction. Every line goes through the safe JSON check of the readers, which the writer does not make:
    lines without a dangerous key round-trip, compaction keeps the queue, a durable input is delivered or
    cancelled exactly once over every history of inputs without such a key, and one input with such a key
    makes the durable lane unreadable. The rendered block cannot be broken out of.

  \<^item> \<open>Op_Preflight\<close>, \<open>Op_Preflight_Props\<close>: the governance waterfall of
    \<open>pipeline/op-preflight.ts\<close> in its two forms: listeners in order, the built-in approval and
    plugin guards, the registered guards, the stripping of the governance stamps. When a call is allowed, and
    that the order of registration does not matter.
  \<^item> \<open>Adf_Engine\<close>, \<open>Adf_Engine_Props\<close>: the engine of \<open>pipeline/adf-engine.ts\<close>
    that runs the steps of a pipeline under the step and time limits, the repeat governor, the step gate and the
    waterfall, with recovery (\<open>pipeline/pipeline-engine.ts\<close>), nested streams and graph-declared streams,
    which it hands to the scheduler of \<open>Graph_Run\<close> one node at a time. A control handler is the tree
    of the nested runs it starts. Only admitted calls reach a handler, every run ends, and how
    results and status agree; and which refusals are lost in graphs and nested streams. Left out: the sandbox
    wrapper, the default listeners of the waterfall, frontiers wider than one, the path checks of references.

  \<^item> \<open>Approval_Core\<close>, \<open>Approval_Store\<close>, \<open>Approval_Veto\<close>, \<open>Approval_Gate\<close>: how a person
    approves what an agent does (\<open>governance/approval-*.ts\<close>): the checks of a decision (human proof,
    assurance, separation of duties, consent), the operations of the store with its session cache and passkey
    challenges, the veto window in which silence approves, and the gate in front of a governed operation.
    \<open>Approval_Steps\<close>: every history of these operations as a step relation, and the single changes of a
    record an operation is made of. \<open>Approval_Props\<close>: the locale \<open>record_law\<close> is what a law about a record and
    the log needs to hold in all histories; it is interpreted for the use of an approval, separation of duties, the
    proof of a human decision and the decision a record shows. \<open>Approval_Gate_Props\<close>: what passes the gate, and that a
    rejection leaves the session grant of its request in place.
    \<open>Approval_Veto_Props\<close>: the deadline and what silence approves (\<open>record_law\<close> again, for windows).
    \<open>Approval_Challenge_Props\<close>: one passkey challenge for one decision. \<open>Approval_Runs\<close>: concrete
    histories and the witnesses.

  \<^item> \<open>Charter_Target\<close>, \<open>Charter_Core\<close>, \<open>Charter_Rules\<close>, \<open>Charter_Props\<close>: the accountability
    charter (\<open>governance/accountability-charter.ts\<close>, \<open>governance/external-operation-target.ts\<close>), a standing
    declaration under which an agent acts without asking: its data, its validation, the subset of an envelope, the
    evaluation of an action as a list of checks of which the first refusal counts, the exact external targets. What a
    subset of an envelope allows the envelope allows; a push stays in the branches of its grant.
  \<^item> \<open>Charter_Registry\<close>, \<open>Charter_Ops\<close>, \<open>Charter_Gate\<close>: the charters and ledgers of a scope
    (\<open>governance/accountability-charter-registry.ts\<close>), every operation on them, the charter branch of the gate
    (\<open>governance/approval-gate-charter.ts\<close>), the call sites that build its facts
    (\<open>governance/charter-call-site.ts\<close>), and the whole gate \<open>governed_gate\<close>: policy, decision rights and charter
    in front of the approval store. \<open>Charter_Budget\<close> has the histories of a scope, for any set of admitted actions
    (budgets need those without a negative amount, \<open>no_negative_amount\<close>; the rest holds for all), and reduces each operation to elementary changes of the ledgers;
    \<open>Charter_Lineage\<close> shows that the charters form one line of amendments, \<open>Charter_Ledger\<close> that every release
    matches a charge; \<open>Charter_Ledger_Props\<close> has the guarantees: budgets are kept over those histories, amendments
    carry them, charges rest on authority. \<open>Charter_Runs\<close>: a history, evaluated, and two ways around a budget, a
    correlation that is used again and a negative amount.
  \<^item> \<open>Js_Pattern\<close>, \<open>Approval_Policy\<close>, \<open>Decision_Rights\<close>: the approval policy (\<open>governance/approval-policy.ts\<close>)
    with its regular expressions, run by a matcher that is shown to decide their meaning, and the decision-rights matrix
    (\<open>decision-rights.ts\<close>). \<open>Approval_Policy_Props\<close>: a hardened operation passes only on an approval, decisions meet
    the assurance that the policy asks for today, the facts of decisions are in bounds, and what the floor of a
    suspected injection does not see.

  \<^item> \<open>Jsonl_Scan\<close>: the readers of append-only line stores (\<open>jsonl-read.ts\<close>,
    \<open>foundation/safe-json.ts\<close>): the forward and the backward scan in fixed chunks, the parser of a record and the
    readers on top. Both scans are the split of the file at its line feeds whatever the chunk size, the last record is
    that of the full read, and the reader of a time window is complete when at most the given number of records is out
    of order (\<open>since_window_is_complete\<close>).
  \<^item> \<open>Event_Scope\<close>: the scope of a record (\<open>event-scope.ts\<close>, \<open>foundation/scope-context-validation.ts\<close>). A parsed
    scope of a caller stays in the scope of its authority; a tenant filter passes only records of its tenants
    (\<open>matched_scope_is_requested\<close>); and a tenant that slips in through a blank field.
  \<^item> \<open>Audit_Core\<close>, \<open>Audit_Chain\<close>, \<open>Audit_Verify\<close>: the hash-linked audit log
    (\<open>chain-integrity.ts\<close>, \<open>actor.ts\<close>, \<open>governance/audit-chain.ts\<close>): the persisted record, its hashes and the key; the
    state of a process, reseeding and appending under the lock, deferred and held records; the verification of the
    whole chain, of a window and of the tenant mirrors. \<open>Audit_Entry_Props\<close>: a record written is the record read.
    \<open>Audit_Clean\<close>: the locale \<open>append_store\<close> is what a store of records promises about appending, interpreted on the
    daily files; a verification reports nothing exactly when the files are clean, the days follow each other and the
    records are linked and hashed. \<open>Audit_Append\<close>: when recording keeps a chain verified, and what a failed write leaves.
    \<open>Audit_History\<close>: the newest hash pins every record before it, and a window after files with records verifies
    like the whole. SHA-256, HMAC and
    JSON texts are a \<open>codec\<close>; the hypotheses on it are that digests are hexadecimal texts (\<open>hex_digests\<close>), that the
    text of the record at hand parses back (\<open>prints_back\<close>) and that the digests of the records at hand do not collide
    (\<open>distinguishes\<close>). What other processes and the disk do during an append is one \<open>audit_env\<close> per append; \<open>all_read\<close>
    says that no file fails to be read.

  \<^bold>\<open>Conventions\<close>

  A class or interface is a record, a union of string literals a datatype, a \<open>Map\<close> an
  association list with distinct keys in insertion order, a thrown error the \<open>Inl\<close> of a sum.
  Times are integer milliseconds and counters integers or naturals; the code keeps them in the range
  in which the numbers of the language are exact. Hashes, random identifiers, clocks, handlers of
  nodes and calls, dispatchers and peer catalogs are arguments. Concurrency of promises is
  interleaving of the synchronous segments between awaits, as one event loop runs them. Error texts
  are reduced to codes unless another part reads them; log lines and observers are left out.

  Loops of the code are structural recursion over lists, recursion with a measure (the cycle check), or step
  relations whose every step lowers a measure. The one exception is the pipeline engine, which recurses through
  handlers: it takes the depth of nesting still allowed, \<open>executeAdfSteps\<close> starts it with twice the
  maximal number of steps and two, and \<open>pipeline_run_ends\<close> shows that this is always enough.

  \<^bold>\<open>Not modelled\<close>

  Actuators, model backends, surfaces, media and network transport are input and output around the modelled
  core. The file system, access mediation and schemas of governed files are left out: a policy, a matrix, a charter is
  the value that was read, or the failure to read it. Of the modelled parts, the metrics file of the writer lease,
  the wake-up of the queue worker, the restart of a scan by path and the forwarder of audit records are left out.
\<close>

end
